(* ===== verification/Prelude.thy ===== *)
theory Prelude
  imports Main "HOL-Library.Word"
begin

text \<open>
  Shared ground of the development: the machine integers of the C sources, the ways a C function
  can fail to return, C strings, and the lemma collections the component theories use.

  \<^item> \<open>int\<close> values are mathematical integers; every arithmetic operation of the source on a C
    \<open>int\<close> that can leave the 32-bit range is written with \<open>wrap32\<close>, the two's complement
    reduction that the compiled code performs. \<open>wrap32_id\<close> removes it wherever the operands
    are known to be in range.
  \<^item> \<open>size_t\<close>, \<open>uint32_t\<close>, \<open>uint8_t\<close> and \<open>uintptr_t\<close> values are words of the same width.
  \<^item> a function whose C version can call \<open>abort()\<close> (through \<open>GUAC_ASSERT\<close>) or run into
    undefined behaviour returns a \<open>fault + 'a\<close>.
  \<^item> a NUL-terminated string is the list of its characters before the terminator, so it never
    contains the NUL character (\<open>cstring\<close>).
\<close>

section \<open>Collections\<close>

named_theorems fault_iff \<open>inversion of successful runs of fallible code\<close>

section \<open>Machine types\<close>

type_synonym u8 = "8 word"
type_synonym u16 = "16 word"
type_synonym u32 = "32 word"
type_synonym u64 = "64 word"
type_synonym size_t = "64 word"

definition INT_MAX :: int where "INT_MAX = 2147483647"
definition INT_MIN :: int where "INT_MIN = -2147483648"

definition in_int :: "int \<Rightarrow> bool" where
  "in_int x \<longleftrightarrow> INT_MIN \<le> x \<and> x \<le> INT_MAX"

definition wrap32 :: "int \<Rightarrow> int" where
  "wrap32 x = (x + 2147483648) mod 4294967296 - 2147483648"

lemma wrap32_id [simp]: "in_int x \<Longrightarrow> wrap32 x = x"
  by (simp add: in_int_def wrap32_def INT_MIN_def INT_MAX_def)

lemma wrap32_in_int [simp]: "in_int (wrap32 x)"
proof -
  have "0 \<le> (x + 2147483648) mod 4294967296" "(x + 2147483648) mod 4294967296 < 4294967296"
    by simp_all
  then show ?thesis by (simp add: in_int_def wrap32_def INT_MIN_def INT_MAX_def)
qed

lemma wrap32_add_wrap32 [simp]:
  "wrap32 (a + wrap32 b) = wrap32 (a + b)" "wrap32 (wrap32 a + b) = wrap32 (a + b)"
proof -
  have r: "wrap32 (a + wrap32 b) = wrap32 (a + b)" for a b
    using mod_add_right_eq [of a "b + 2147483648" 4294967296] by (simp add: wrap32_def add.assoc)
  then show "wrap32 (a + wrap32 b) = wrap32 (a + b)" .
  show "wrap32 (wrap32 a + b) = wrap32 (a + b)" using r [of b a] by (simp add: add.commute)
qed

lemma in_int_between: "in_int a \<Longrightarrow> in_int b \<Longrightarrow> a \<le> x \<Longrightarrow> x \<le> b \<Longrightarrow> in_int x"
  by (simp add: in_int_def)

lemmas in_int_bounds = in_int_def INT_MIN_def INT_MAX_def

text \<open>C division and remainder on \<open>int\<close> truncate towards zero.\<close>

definition cdiv :: "int \<Rightarrow> int \<Rightarrow> int" where
  "cdiv a b = sgn a * sgn b * (\<bar>a\<bar> div \<bar>b\<bar>)"

definition cmod :: "int \<Rightarrow> int \<Rightarrow> int" where
  "cmod a b = a - b * cdiv a b"

lemma cdiv_nonneg [simp]: "0 \<le> a \<Longrightarrow> 0 < b \<Longrightarrow> cdiv a b = a div b"
  by (cases "a = 0") (simp_all add: cdiv_def)

lemma cmod_nonneg [simp]: "0 \<le> a \<Longrightarrow> 0 < b \<Longrightarrow> cmod a b = a mod b"
  by (simp add: cmod_def minus_mult_div_eq_mod)

section \<open>Failure\<close>

datatype fault =
    Abort      \<comment> \<open>a failed \<open>GUAC_ASSERT\<close> or a call of \<open>abort()\<close>\<close>
  | Undefined  \<comment> \<open>a null dereference, an access out of bounds, a division by zero\<close>
  | Diverged   \<comment> \<open>a recursion deeper than the fuel of its model\<close>

type_synonym 'a result = "fault + 'a"

definition guac_assert :: "bool \<Rightarrow> 'a result \<Rightarrow> 'a result" where
  "guac_assert b k = (if b then k else Inl Abort)"

definition defined :: "bool \<Rightarrow> 'a result \<Rightarrow> 'a result" where
  "defined b k = (if b then k else Inl Undefined)"

definition bindr :: "'a result \<Rightarrow> ('a \<Rightarrow> 'b result) \<Rightarrow> 'b result" where
  "bindr m k = (case m of Inl e \<Rightarrow> Inl e | Inr x \<Rightarrow> k x)"

lemma guac_assert_simps [simp]: "guac_assert True k = k" "guac_assert False k = Inl Abort"
  by (simp_all add: guac_assert_def)

lemma defined_simps [simp]: "defined True k = k" "defined False k = Inl Undefined"
  by (simp_all add: defined_def)

lemma bindr_simps [simp]: "bindr (Inl e) k = Inl e" "bindr (Inr x) k = k x"
  by (simp_all add: bindr_def)

lemma guac_assert_Inr [fault_iff]: "guac_assert b k = Inr y \<longleftrightarrow> b \<and> k = Inr y"
  by (simp add: guac_assert_def)

lemma defined_Inr [fault_iff]: "defined b k = Inr y \<longleftrightarrow> b \<and> k = Inr y"
  by (simp add: defined_def)

lemma bindr_Inr [fault_iff]: "bindr m k = Inr y \<longleftrightarrow> (\<exists>x. m = Inr x \<and> k x = Inr y)"
  by (cases m) auto

text \<open>The values of \<open>guac_error\<close> (\<open>guacamole/error-types.h\<close>).\<close>

datatype guac_status =
    GUAC_STATUS_SUCCESS
  | GUAC_STATUS_NO_MEMORY
  | GUAC_STATUS_CLOSED
  | GUAC_STATUS_TIMEOUT
  | GUAC_STATUS_SEE_ERRNO
  | GUAC_STATUS_IO_ERROR
  | GUAC_STATUS_INVALID_ARGUMENT
  | GUAC_STATUS_INTERNAL_ERROR
  | GUAC_STATUS_NO_SPACE
  | GUAC_STATUS_INPUT_TOO_LARGE
  | GUAC_STATUS_RESULT_TOO_LARGE
  | GUAC_STATUS_PERMISSION_DENIED
  | GUAC_STATUS_BUSY
  | GUAC_STATUS_NOT_AVAILABLE
  | GUAC_STATUS_NOT_SUPPORTED
  | GUAC_STATUS_NOT_INPLEMENTED
  | GUAC_STATUS_NOT_IMPLEMENTED
  | GUAC_STATUS_TRY_AGAIN
  | GUAC_STATUS_PROTOCOL_ERROR
  | GUAC_STATUS_NOT_FOUND
  | GUAC_STATUS_CANCELED
  | GUAC_STATUS_OUT_OF_RANGE
  | GUAC_STATUS_REFUSED
  | GUAC_STATUS_TOO_MANY
  | GUAC_STATUS_WOULD_BLOCK

section \<open>C strings\<close>

abbreviation NUL :: char where "NUL \<equiv> CHR 0x00"

definition cstring :: "string \<Rightarrow> bool" where
  "cstring s \<longleftrightarrow> NUL \<notin> set s"

text \<open>The C string held at the start of a buffer: everything before the first NUL.\<close>

definition cstr :: "string \<Rightarrow> string" where
  "cstr buf = takeWhile (\<lambda>c. c \<noteq> NUL) buf"

lemma cstring_simps [simp]:
  "cstring []" "cstring (c # s) \<longleftrightarrow> c \<noteq> NUL \<and> cstring s" "cstring (s @ t) \<longleftrightarrow> cstring s \<and> cstring t"
  by (auto simp: cstring_def)

lemma cstr_append_NUL [simp]: "cstring s \<Longrightarrow> cstr (s @ NUL # rest) = s"
  by (induction s) (auto simp: cstr_def)

lemma cstring_cstr [simp]: "cstring (cstr buf)"
  by (induction buf) (auto simp: cstr_def)

lemma cstring_take [simp]: "cstring s \<Longrightarrow> cstring (take n s)"
  by (auto simp: cstring_def dest: in_set_takeD)

lemma cstring_drop [simp]: "cstring s \<Longrightarrow> cstring (drop n s)"
  by (auto simp: cstring_def dest: in_set_dropD)

section \<open>Lists\<close>

lemma take_Suc_snoc: "i < length xs \<Longrightarrow> take (Suc i) xs = take i xs @ [xs ! i]"
  by (rule take_Suc_conv_app_nth)

lemma all_prefixes_Cons:
  "(\<forall>k \<le> length (x # xs). P (take k (x # xs))) \<longleftrightarrow>
     P [] \<and> (\<forall>k \<le> length xs. P (x # take k xs))"
proof -
  have "P (take k (x # xs))" if "P []" "\<forall>k \<le> length xs. P (x # take k xs)" "k \<le> length (x # xs)" for k
    using that by (cases k) auto
  moreover have "P (x # take k xs)" if "\<forall>k \<le> length (x # xs). P (take k (x # xs))" "k \<le> length xs" for k
    using that(1) [rule_format, of "Suc k"] that(2) by simp
  moreover have "P []" if "\<forall>k \<le> length (x # xs). P (take k (x # xs))"
    using that [rule_format, of 0] by simp
  ultimately show ?thesis by blast
qed

text \<open>Overwriting a segment of a buffer, as \<open>memcpy\<close> into the middle of it does.\<close>

definition overwrite :: "'a list \<Rightarrow> nat \<Rightarrow> 'a list \<Rightarrow> 'a list" where
  "overwrite buf off xs = take off buf @ xs @ drop (off + length xs) buf"

lemma length_overwrite [simp]:
  "off + length xs \<le> length buf \<Longrightarrow> length (overwrite buf off xs) = length buf"
  by (simp add: overwrite_def)

lemma take_overwrite [simp]:
  "off \<le> length buf \<Longrightarrow> n \<le> off \<Longrightarrow> take n (overwrite buf off xs) = take n buf"
  by (simp add: overwrite_def min_def)

lemma take_overwrite_end:
  "off \<le> length buf \<Longrightarrow> take (off + length xs) (overwrite buf off xs) = take off buf @ xs"
  by (simp add: overwrite_def)

end
