(* ===== verification/Mem.thy ===== *)
theory Mem
  imports Prelude
begin

text \<open>
  Checked size arithmetic and allocation (\<open>src/src/libguac/mem.c\<close>). The variadic macros of
  \<open>guacamole/mem.h\<close> pass an array of factors or terms, which is a list here; \<open>size_t\<close> is a
  64-bit word. \<open>malloc\<close>, \<open>calloc\<close> and \<open>realloc\<close> belong to the C library: whether a
  request is granted is an argument of the definitions that make it.
\<close>

section \<open>Checked arithmetic\<close>

abbreviation SIZE_MAX :: size_t where "SIZE_MAX \<equiv> - 1"

text \<open>The loops: \<open>None\<close> stands for the non-zero (failure) return.\<close>

fun ckd_mul_loop :: "size_t \<Rightarrow> size_t list \<Rightarrow> size_t option" where
  "ckd_mul_loop sz [] = Some sz"
| "ckd_mul_loop sz (factor # factors) =
     (if sz = 0 then Some sz
      else if factor > SIZE_MAX div sz then None
      else ckd_mul_loop (sz * factor) factors)"

definition PRIV_guac_mem_ckd_mul :: "size_t list \<Rightarrow> size_t option" where
  "PRIV_guac_mem_ckd_mul factors =
     (case factors of [] \<Rightarrow> None | sz # rest \<Rightarrow> ckd_mul_loop sz rest)"

fun ckd_add_loop :: "size_t \<Rightarrow> size_t list \<Rightarrow> size_t option" where
  "ckd_add_loop sz [] = Some sz"
| "ckd_add_loop sz (t # terms) =
     (if t > SIZE_MAX - sz then None else ckd_add_loop (sz + t) terms)"

definition PRIV_guac_mem_ckd_add :: "size_t list \<Rightarrow> size_t option" where
  "PRIV_guac_mem_ckd_add terms =
     (case terms of [] \<Rightarrow> None | sz # rest \<Rightarrow> ckd_add_loop sz rest)"

fun ckd_sub_loop :: "size_t \<Rightarrow> size_t list \<Rightarrow> size_t option" where
  "ckd_sub_loop sz [] = Some sz"
| "ckd_sub_loop sz (t # terms) =
     (if t > sz then None else ckd_sub_loop (sz - t) terms)"

definition PRIV_guac_mem_ckd_sub :: "size_t list \<Rightarrow> size_t option" where
  "PRIV_guac_mem_ckd_sub terms =
     (case terms of [] \<Rightarrow> None | sz # rest \<Rightarrow> ckd_sub_loop sz rest)"

definition or_die :: "size_t option \<Rightarrow> size_t result" where
  "or_die r = (case r of None \<Rightarrow> Inl Abort | Some n \<Rightarrow> Inr n)"

definition PRIV_guac_mem_ckd_mul_or_die :: "size_t list \<Rightarrow> size_t result" where
  "PRIV_guac_mem_ckd_mul_or_die factors = or_die (PRIV_guac_mem_ckd_mul factors)"

definition PRIV_guac_mem_ckd_add_or_die :: "size_t list \<Rightarrow> size_t result" where
  "PRIV_guac_mem_ckd_add_or_die terms = or_die (PRIV_guac_mem_ckd_add terms)"

definition PRIV_guac_mem_ckd_sub_or_die :: "size_t list \<Rightarrow> size_t result" where
  "PRIV_guac_mem_ckd_sub_or_die terms = or_die (PRIV_guac_mem_ckd_sub terms)"

section \<open>Allocation\<close>

text \<open>
  The heap is the map from the addresses of live blocks to their sizes, beside the thread's
  \<open>guac_error\<close>. The three allocators of the C library are arguments: given the live blocks and
  the request they answer with an address, or with \<open>None\<close> for a null pointer.
\<close>

type_synonym addr = nat
type_synonym heap = "addr \<rightharpoonup> nat"
type_synonym malloc_fun = "heap \<Rightarrow> nat \<Rightarrow> addr option"
type_synonym realloc_fun = "heap \<Rightarrow> addr option \<Rightarrow> nat \<Rightarrow> addr option"

record mem_state =
  blocks :: heap
  guac_error :: guac_status

definition PRIV_guac_mem_free :: "addr option \<Rightarrow> mem_state \<Rightarrow> mem_state" where
  "PRIV_guac_mem_free mem s =
     (case mem of None \<Rightarrow> s | Some a \<Rightarrow> s\<lparr>blocks := (blocks s)(a := None)\<rparr>)"

definition PRIV_guac_mem_alloc ::
    "malloc_fun \<Rightarrow> size_t list \<Rightarrow> mem_state \<Rightarrow> addr option \<times> mem_state" where
  "PRIV_guac_mem_alloc malloc factors s =
     (case PRIV_guac_mem_ckd_mul factors of
        None \<Rightarrow> (None, s\<lparr>guac_error := GUAC_STATUS_NO_MEMORY\<rparr>)
      | Some sz \<Rightarrow>
          if sz = 0 then (None, s)
          else (case malloc (blocks s) (unat sz) of
                  None \<Rightarrow> (None, s\<lparr>guac_error := GUAC_STATUS_NO_MEMORY\<rparr>)
                | Some a \<Rightarrow> (Some a, s\<lparr>blocks := (blocks s)(a \<mapsto> unat sz)\<rparr>)))"

definition PRIV_guac_mem_zalloc ::
    "malloc_fun \<Rightarrow> size_t list \<Rightarrow> mem_state \<Rightarrow> addr option \<times> mem_state" where
  "PRIV_guac_mem_zalloc calloc factors s =
     (case PRIV_guac_mem_ckd_mul factors of
        None \<Rightarrow> (None, s\<lparr>guac_error := GUAC_STATUS_NO_MEMORY\<rparr>)
      | Some sz \<Rightarrow>
          if sz = 0 then (None, s)
          else (case calloc (blocks s) (1 * unat sz) of
                  None \<Rightarrow> (None, s\<lparr>guac_error := GUAC_STATUS_NO_MEMORY\<rparr>)
                | Some a \<Rightarrow> (Some a, s\<lparr>blocks := (blocks s)(a \<mapsto> unat sz)\<rparr>)))"

definition PRIV_guac_mem_realloc ::
    "realloc_fun \<Rightarrow> addr option \<Rightarrow> size_t list \<Rightarrow> mem_state \<Rightarrow> addr option \<times> mem_state" where
  "PRIV_guac_mem_realloc realloc mem factors s =
     (case PRIV_guac_mem_ckd_mul factors of
        None \<Rightarrow> (None, s\<lparr>guac_error := GUAC_STATUS_NO_MEMORY\<rparr>)
      | Some sz \<Rightarrow>
          if sz = 0 then (None, PRIV_guac_mem_free mem s)
          else (case realloc (blocks s) mem (unat sz) of
                  None \<Rightarrow> (None, s\<lparr>guac_error := GUAC_STATUS_NO_MEMORY\<rparr>)
                | Some a \<Rightarrow>
                    (Some a, s\<lparr>blocks := (blocks (PRIV_guac_mem_free mem s))(a \<mapsto> unat sz)\<rparr>)))"

definition PRIV_guac_mem_realloc_or_die ::
    "realloc_fun \<Rightarrow> addr option \<Rightarrow> size_t list \<Rightarrow> mem_state \<Rightarrow> (addr option \<times> mem_state) result" where
  "PRIV_guac_mem_realloc_or_die realloc mem factors s =
     (let (resized, s') = PRIV_guac_mem_realloc realloc mem factors
                            (s\<lparr>guac_error := GUAC_STATUS_SUCCESS\<rparr>)
      in guac_assert (resized \<noteq> None \<or> guac_error s' = GUAC_STATUS_SUCCESS) (Inr (resized, s')))"

section \<open>Facts about the loops\<close>

abbreviation SIZE_LIMIT :: nat where "SIZE_LIMIT \<equiv> 18446744073709551616"

lemma unat_SIZE_MAX: "unat SIZE_MAX = SIZE_LIMIT - 1"
  by (simp add: unsigned_minus_1_eq_mask mask_eq_exp_minus_1)

lemma mul_fits_iff:
  assumes "sz \<noteq> (0 :: size_t)"
  shows "factor \<le> SIZE_MAX div sz \<longleftrightarrow> unat sz * unat factor < SIZE_LIMIT"
proof -
  have pos: "0 < unat sz" using assms by (simp add: unat_gt_0)
  have "factor \<le> SIZE_MAX div sz \<longleftrightarrow> unat factor \<le> (SIZE_LIMIT - 1) div unat sz"
    by (simp only: word_le_nat_alt unat_div unat_SIZE_MAX)
  also have "\<dots> \<longleftrightarrow> unat factor * unat sz \<le> SIZE_LIMIT - 1"
    by (rule less_eq_div_iff_mult_less_eq [OF pos])
  also have "\<dots> \<longleftrightarrow> unat sz * unat factor < SIZE_LIMIT"
    by (simp add: mult.commute) linarith
  finally show ?thesis .
qed

lemma unat_mult_fits:
  "unat sz * unat (factor :: size_t) < SIZE_LIMIT \<Longrightarrow> unat (sz * factor) = unat sz * unat factor"
  by (simp add: unat_word_ariths)

lemma add_fits_iff: "(t :: size_t) \<le> SIZE_MAX - sz \<longleftrightarrow> unat sz + unat t < SIZE_LIMIT"
proof -
  have "unat (SIZE_MAX - sz) = SIZE_LIMIT - 1 - unat sz"
    by (subst unat_sub) (simp_all add: unat_SIZE_MAX)
  moreover have "unat sz < SIZE_LIMIT" using unsigned_less [of sz, where 'a=nat] by simp
  ultimately show ?thesis by (simp add: word_le_nat_alt) linarith
qed

lemma unat_add_fits:
  "unat sz + unat (t :: size_t) < SIZE_LIMIT \<Longrightarrow> unat (sz + t) = unat sz + unat t"
  by (simp add: unat_word_ariths)

lemma ckd_add_loop_Some:
  "ckd_add_loop sz terms = Some r \<longleftrightarrow>
     unat sz + sum_list (map unat terms) < SIZE_LIMIT \<and>
     unat r = unat sz + sum_list (map unat terms)"
proof (induction terms arbitrary: sz)
  case Nil
  then show ?case using unsigned_less [of sz, where 'a=nat] by (auto simp: word_unat_eq_iff)
next
  case (Cons t terms)
  show ?case
    using Cons.IH [of "sz + t"] unat_add_fits [of sz t] add_fits_iff [of t sz]
    by (auto simp: not_le [symmetric])
qed

lemma ckd_sub_loop_Some:
  "ckd_sub_loop sz terms = Some r \<longleftrightarrow>
     sum_list (map unat terms) \<le> unat sz \<and> unat r = unat sz - sum_list (map unat terms)"
proof (induction terms arbitrary: sz)
  case Nil
  then show ?case by (auto simp: word_unat_eq_iff)
next
  case (Cons t terms)
  show ?case
    using Cons.IH [of "sz - t"] by (auto simp: word_less_nat_alt unat_sub word_le_nat_alt)
qed

text \<open>
  For a product, a zero factor ends the loop: later factors cannot make the calculation fail. So
  the condition is that no product of an initial segment of the factors leaves the range.
\<close>

lemma ckd_mul_loop_Some:
  "ckd_mul_loop sz factors = Some r \<longleftrightarrow>
     (\<forall>k \<le> length factors. unat sz * prod_list (map unat (take k factors)) < SIZE_LIMIT) \<and>
     unat r = unat sz * prod_list (map unat factors)"
proof (induction factors arbitrary: sz)
  case Nil
  then show ?case using unsigned_less [of sz, where 'a=nat] by (auto simp: word_unat_eq_iff)
next
  case (Cons f factors)
  have step: "(\<forall>k \<le> length (f # factors). P (take k (f # factors))) \<longleftrightarrow>
      P [] \<and> (\<forall>k \<le> length factors. P (f # take k factors))" for P :: "size_t list \<Rightarrow> bool"
    by (rule all_prefixes_Cons)
  show ?case
  proof (cases "sz = 0")
    case True
    then show ?thesis by (auto simp: word_unat_eq_iff)
  next
    case False
    have sz: "unat sz < SIZE_LIMIT" using unsigned_less [of sz, where 'a=nat] by simp
    show ?thesis
    proof (cases "unat sz * unat f < SIZE_LIMIT")
      case True
      with False have "\<not> f > SIZE_MAX div sz" by (simp add: not_less mul_fits_iff)
      then have "ckd_mul_loop sz (f # factors) = ckd_mul_loop (sz * f) factors"
        using False by simp
      then show ?thesis
        using Cons.IH [of "sz * f"] unat_mult_fits [OF True] sz
          step [of "\<lambda>p. unat sz * prod_list (map unat p) < SIZE_LIMIT"]
        by (simp add: mult.assoc)
    next
      case fails: False
      with False have "ckd_mul_loop sz (f # factors) = None"
        using fails by (simp add: not_less mul_fits_iff)
      moreover have "\<not> (\<forall>k \<le> length (f # factors).
          unat sz * prod_list (map unat (take k (f # factors))) < SIZE_LIMIT)"
        using fails by (auto intro!: exI [of _ 1])
      ultimately show ?thesis by simp
    qed
  qed
qed

lemma ckd_mul_Some:
  "PRIV_guac_mem_ckd_mul factors = Some r \<longleftrightarrow>
     factors \<noteq> [] \<and>
     (\<forall>k \<le> length factors. prod_list (map unat (take k factors)) < SIZE_LIMIT) \<and>
     unat r = prod_list (map unat factors)"
proof (cases factors)
  case Nil
  then show ?thesis by (simp add: PRIV_guac_mem_ckd_mul_def)
next
  case (Cons f fs)
  have "(\<forall>k \<le> length factors. prod_list (map unat (take k factors)) < SIZE_LIMIT) \<longleftrightarrow>
      (\<forall>k \<le> length fs. unat f * prod_list (map unat (take k fs)) < SIZE_LIMIT)"
    unfolding Cons using all_prefixes_Cons [of f fs "\<lambda>p. prod_list (map unat p) < SIZE_LIMIT"] by simp
  then show ?thesis
    using ckd_mul_loop_Some [of f fs r] Cons by (simp add: PRIV_guac_mem_ckd_mul_def)
qed

lemma ckd_mul_exact: "PRIV_guac_mem_ckd_mul factors = Some r \<Longrightarrow> unat r = prod_list (map unat factors)"
  by (simp add: ckd_mul_Some)

section \<open>Properties\<close>

text \<open>
  C29. The checked product succeeds exactly when there is at least one factor and no product of an
  initial segment of the factors exceeds \<open>SIZE_MAX\<close>, and then it is the exact product.
\<close>

theorem ckd_mul_correct:
  "PRIV_guac_mem_ckd_mul factors = Some r \<longleftrightarrow>
     factors \<noteq> [] \<and>
     (\<forall>k \<le> length factors. prod_list (map unat (take k factors)) < 2 ^ 64) \<and>
     unat r = prod_list (map unat factors)"
  by (simp add: ckd_mul_Some)

theorem ckd_mul_correct_witness:
  "PRIV_guac_mem_ckd_mul [3, 5] = Some 15 \<and> PRIV_guac_mem_ckd_mul [2 ^ 40, 2 ^ 40] \<noteq> Some 0"
proof
  have "unat (3 :: size_t) = 3" "unat (5 :: size_t) = 5" "unat (15 :: size_t) = 15" by simp_all
  then show "PRIV_guac_mem_ckd_mul [3, 5] = Some 15"
    unfolding ckd_mul_correct by (auto simp: take_Cons' )
  show "PRIV_guac_mem_ckd_mul [2 ^ 40, 2 ^ 40] \<noteq> Some 0"
    unfolding ckd_mul_correct by simp
qed

text \<open>
  The checked sum and difference succeed exactly when the mathematical result fits, and then
  return it; both fail on an empty list of terms.
\<close>

theorem ckd_add_sub_correct:
  "(PRIV_guac_mem_ckd_add terms = Some r \<longleftrightarrow>
      terms \<noteq> [] \<and> sum_list (map unat terms) < 2 ^ 64 \<and> unat r = sum_list (map unat terms)) \<and>
   (PRIV_guac_mem_ckd_sub terms = Some r \<longleftrightarrow>
      terms \<noteq> [] \<and> sum_list (map unat (tl terms)) \<le> unat (hd terms) \<and>
      unat r = unat (hd terms) - sum_list (map unat (tl terms)))"
  by (cases terms)
    (auto simp: PRIV_guac_mem_ckd_add_def PRIV_guac_mem_ckd_sub_def ckd_add_loop_Some ckd_sub_loop_Some)

text \<open>
  A reallocation that does not abort never loses memory silently: it yields a block of exactly
  the requested size with the old block gone, or, only for a request of size zero, frees the
  old block and yields a null pointer. Every failure aborts.
\<close>

theorem realloc_or_die_sound:
  assumes "PRIV_guac_mem_realloc_or_die realloc mem factors s = Inr (p, s')"
  shows "case p of
           None \<Rightarrow> prod_list (map unat factors) = 0 \<and> blocks s' = blocks (PRIV_guac_mem_free mem s)
         | Some a \<Rightarrow> blocks s' = (blocks (PRIV_guac_mem_free mem s))(a \<mapsto> prod_list (map unat factors)) \<and>
                     0 < prod_list (map unat factors)"
proof (cases "PRIV_guac_mem_ckd_mul factors")
  case None
  with assms show ?thesis
    by (auto simp: PRIV_guac_mem_realloc_or_die_def PRIV_guac_mem_realloc_def fault_iff)
next
  case (Some sz)
  have sz: "unat sz = prod_list (map unat factors)" using Some by (rule ckd_mul_exact)
  show ?thesis
  proof (cases "sz = 0")
    case True
    with assms Some sz show ?thesis
      by (auto simp: PRIV_guac_mem_realloc_or_die_def PRIV_guac_mem_realloc_def fault_iff
            PRIV_guac_mem_free_def split: option.splits)
  next
    case False
    then have "0 < unat sz" by (simp add: unat_gt_0)
    show ?thesis
    proof (cases "realloc (blocks s) mem (unat sz)")
      case None
      with assms Some False show ?thesis
        by (simp add: PRIV_guac_mem_realloc_or_die_def PRIV_guac_mem_realloc_def)
    next
      case (Some a)
      with assms \<open>PRIV_guac_mem_ckd_mul factors = Some sz\<close> False
      have "p = Some a" "blocks s' = (blocks (PRIV_guac_mem_free mem s))(a \<mapsto> unat sz)"
        by (auto simp: PRIV_guac_mem_realloc_or_die_def PRIV_guac_mem_realloc_def
              PRIV_guac_mem_free_def split: option.splits)
      with \<open>0 < unat sz\<close> sz show ?thesis by simp
    qed
  qed
qed

theorem realloc_or_die_sound_witness:
  defines "s \<equiv> \<lparr>blocks = [4 \<mapsto> 2], guac_error = GUAC_STATUS_CLOSED\<rparr>"
  defines "s' \<equiv> \<lparr>blocks = [8 \<mapsto> 6], guac_error = GUAC_STATUS_SUCCESS\<rparr>"
  shows "PRIV_guac_mem_realloc_or_die (\<lambda>h m n. Some 8) (Some 4) [2, 3] s = Inr (Some 8, s') \<and>
         blocks s' = (blocks (PRIV_guac_mem_free (Some 4) s))(8 \<mapsto> 6)"
proof -
  have run: "PRIV_guac_mem_realloc_or_die (\<lambda>h m n. Some 8) (Some 4) [2, 3] s = Inr (Some 8, s')"
    unfolding s_def s'_def
    by (simp add: PRIV_guac_mem_realloc_or_die_def PRIV_guac_mem_realloc_def
          PRIV_guac_mem_ckd_mul_def PRIV_guac_mem_free_def)
  show ?thesis using run realloc_or_die_sound [OF run] by simp
qed

end
