(* ===== verification/Utf8.thy ===== *)
theory Utf8
  imports Prelude
begin

text \<open>
  UTF-8 encoding and decoding (\<open>src/src/libguac/unicode.c\<close>) and the terminal's own encoder
  (\<open>src/src/terminal/common.c\<close>). A buffer is the list of its bytes; codepoints are C \<open>int\<close>s.
  The writer returns the bytes it stores (none when it returns 0), the reader the number of bytes
  consumed and the codepoint it stores (none when it stores nothing).
\<close>

unbundle bit_operations_syntax

section \<open>Definitions\<close>

definition guac_utf8_charsize :: "u8 \<Rightarrow> nat" where
  "guac_utf8_charsize c =
     (if c OR 0x7F = 0x7F then 1
      else if c OR 0x1F = 0xDF then 2
      else if c OR 0x0F = 0xEF then 3
      else if c OR 0x07 = 0xF7 then 4
      else 1)"

text \<open>The loop of \<open>guac_utf8_strlen\<close> over the bytes before the terminator.\<close>

fun utf8_strlen_loop :: "int \<Rightarrow> nat \<Rightarrow> u8 list \<Rightarrow> int" where
  "utf8_strlen_loop len skip [] = len"
| "utf8_strlen_loop len skip (c # str) =
     (if skip > 0 then utf8_strlen_loop len (skip - 1) str
      else utf8_strlen_loop (wrap32 (len + 1)) (guac_utf8_charsize c - 1) str)"

definition guac_utf8_strlen :: "u8 list \<Rightarrow> size_t" where
  "guac_utf8_strlen str = word_of_int (utf8_strlen_loop 0 0 str)"

text \<open>
  The loop that stores the trailing bytes from the last one backwards: what is left of the
  codepoint and the bytes stored so far.
\<close>

fun utf8_trailing :: "nat \<Rightarrow> int \<Rightarrow> u8 list \<Rightarrow> int \<times> u8 list" where
  "utf8_trailing 0 codepoint stored = (codepoint, stored)"
| "utf8_trailing (Suc n) codepoint stored =
     utf8_trailing n (drop_bit 6 codepoint)
       (word_of_int (0x80 OR (codepoint AND 0x3F)) # stored)"

definition utf8_encode :: "int \<Rightarrow> nat \<Rightarrow> int \<Rightarrow> u8 list" where
  "utf8_encode msk bytes codepoint =
     (let (rest, stored) = utf8_trailing (bytes - 1) codepoint []
      in word_of_int (msk OR rest) # stored)"

definition utf8_shape :: "int \<Rightarrow> (int \<times> nat) option" where
  "utf8_shape codepoint =
     (if codepoint \<le> 0x007F then Some (0x00, 1)
      else if codepoint \<le> 0x7FF then Some (0xC0, 2)
      else if codepoint \<le> 0xFFFF then Some (0xE0, 3)
      else if codepoint \<le> 0x1FFFFF then Some (0xF0, 4)
      else None)"

definition guac_utf8_write :: "int \<Rightarrow> int \<Rightarrow> u8 list" where
  "guac_utf8_write codepoint len =
     (if len \<le> 0 then []
      else (case utf8_shape codepoint of
              None \<Rightarrow> [0x3F]
            | Some (msk, bytes) \<Rightarrow>
                if int bytes > len then [] else utf8_encode msk bytes codepoint))"

definition guac_terminal_encode_utf8 :: "int \<Rightarrow> u8 list" where
  "guac_terminal_encode_utf8 codepoint =
     (case utf8_shape codepoint of
        None \<Rightarrow> [0x3F]
      | Some (msk, bytes) \<Rightarrow> utf8_encode msk bytes codepoint)"

text \<open>The initial byte decides the payload bits it carries and the number of bytes.\<close>

definition utf8_initial :: "u8 \<Rightarrow> (int \<times> nat) option" where
  "utf8_initial initial =
     (if initial OR 0x7F = 0x7F then Some (uint initial, 1)
      else if initial OR 0x1F = 0xDF then Some (uint (initial AND 0x1F), 2)
      else if initial OR 0x0F = 0xEF then Some (uint (initial AND 0x0F), 3)
      else if initial OR 0x07 = 0xF7 then Some (uint (initial AND 0x07), 4)
      else None)"

fun utf8_read_trailing :: "int \<Rightarrow> u8 list \<Rightarrow> int" where
  "utf8_read_trailing res [] = res"
| "utf8_read_trailing res (b # bs) = utf8_read_trailing (push_bit 6 res OR uint (b AND 0x3F)) bs"

definition guac_utf8_read :: "u8 list \<Rightarrow> nat \<times> int option" where
  "guac_utf8_read utf8 =
     (case utf8 of
        [] \<Rightarrow> (0, None)
      | initial # rest \<Rightarrow>
          (case utf8_initial initial of
             None \<Rightarrow> (1, Some 0xFFFD)
           | Some (res, bytes) \<Rightarrow>
               if bytes > length utf8 then (0, None)
               else (bytes, Some (utf8_read_trailing res (take (bytes - 1) rest)))))"

section \<open>Bytes, one by one\<close>

lemma all_u8:
  assumes "list_all (\<lambda>n. P (word_of_nat n :: u8)) [0..<256]"
  shows "P b"
proof -
  have "unat b < 256" using unsigned_less [of b, where 'a = nat] by simp
  moreover have "\<forall>n \<in> {0..<256}. P (word_of_nat n)" using assms by (simp add: list_all_iff)
  ultimately have "P (word_of_nat (unat b))" by (meson atLeastLessThan_iff zero_le)
  then show ?thesis by simp
qed

lemma initial_ranges:
  "(b OR 0x7F = (0x7F :: u8) \<longleftrightarrow> unat b < 128) \<and>
   (b OR 0x1F = (0xDF :: u8) \<longleftrightarrow> 192 \<le> unat b \<and> unat b < 224) \<and>
   (b OR 0x0F = (0xEF :: u8) \<longleftrightarrow> 224 \<le> unat b \<and> unat b < 240) \<and>
   (b OR 0x07 = (0xF7 :: u8) \<longleftrightarrow> 240 \<le> unat b \<and> unat b < 248)"
  by (rule all_u8) code_simp

lemma charsize_ranges:
  "guac_utf8_charsize b =
     (if unat b < 128 then 1 else if 192 \<le> unat b \<and> unat b < 224 then 2
      else if 224 \<le> unat b \<and> unat b < 240 then 3 else if 240 \<le> unat b \<and> unat b < 248 then 4 else 1)"
  using initial_ranges [of b] by (simp add: guac_utf8_charsize_def)

lemma charsize_bounds: "1 \<le> guac_utf8_charsize b" "guac_utf8_charsize b \<le> 4"
  by (simp_all add: charsize_ranges)

lemma charsize_initial: "utf8_initial b = Some (r, n) \<Longrightarrow> guac_utf8_charsize b = n"
  by (auto simp: utf8_initial_def guac_utf8_charsize_def split: if_splits)

lemma all_upto: "list_all P (map int [0..<n]) \<Longrightarrow> 0 \<le> m \<Longrightarrow> m < int n \<Longrightarrow> P m"
  unfolding list_all_iff by (auto dest!: bspec [of _ _ "nat m"])

text \<open>What a trailing byte carries, and what each kind of initial byte carries.\<close>

lemma trailing_payload_upto:
  "list_all (\<lambda>m. uint (word_of_int (0x80 OR m) AND 0x3F :: u8) = m) (map int [0..<64])"
  by code_simp

lemma trailing_payload: "uint (word_of_int (0x80 OR (cp AND 0x3F)) AND 0x3F :: u8) = cp mod 64"
proof -
  have "cp AND 0x3F = cp mod 64"
    using take_bit_eq_mask [of 6 cp] by (simp add: take_bit_eq_mod mask_eq_exp_minus_1)
  then show ?thesis using all_upto [OF trailing_payload_upto, of "cp mod 64"] by simp
qed

lemma initial_payload_upto:
  "list_all (\<lambda>m. utf8_initial (word_of_int (0x00 OR m)) = Some (m, 1)) (map int [0..<128])"
  "list_all (\<lambda>m. utf8_initial (word_of_int (0xC0 OR m)) = Some (m, 2)) (map int [0..<32])"
  "list_all (\<lambda>m. utf8_initial (word_of_int (0xE0 OR m)) = Some (m, 3)) (map int [0..<16])"
  "list_all (\<lambda>m. utf8_initial (word_of_int (0xF0 OR m)) = Some (m, 4)) (map int [0..<8])"
  by code_simp+

lemma initial_payload1: "0 \<le> m \<Longrightarrow> m < 128 \<Longrightarrow> utf8_initial (word_of_int (0x00 OR m)) = Some (m, 1)"
  using all_upto [OF initial_payload_upto(1), of m] by simp

lemma initial_payload2: "0 \<le> m \<Longrightarrow> m < 32 \<Longrightarrow> utf8_initial (word_of_int (0xC0 OR m)) = Some (m, 2)"
  using all_upto [OF initial_payload_upto(2), of m] by simp

lemma initial_payload3: "0 \<le> m \<Longrightarrow> m < 16 \<Longrightarrow> utf8_initial (word_of_int (0xE0 OR m)) = Some (m, 3)"
  using all_upto [OF initial_payload_upto(3), of m] by simp

lemma initial_payload4: "0 \<le> m \<Longrightarrow> m < 8 \<Longrightarrow> utf8_initial (word_of_int (0xF0 OR m)) = Some (m, 4)"
  using all_upto [OF initial_payload_upto(4), of m] by simp

lemmas initial_payload = initial_payload1 initial_payload2 initial_payload3 initial_payload4

lemma push_or_add_power:
  fixes r x :: int
  assumes "0 \<le> x" "x < 2 ^ k"
  shows "push_bit k r OR x = 2 ^ k * r + x"
proof -
  have "x = take_bit k x" using assms by (simp add: take_bit_int_eq_self)
  then have "bit x n \<Longrightarrow> n < k" for n by (metis bit_take_bit_iff)
  then have "push_bit k r + x = push_bit k r OR x"
    by (intro disjunctive_add) (fastforce simp: bit_push_bit_iff_int)
  then show ?thesis by (simp add: push_bit_eq_mult mult.commute)
qed

lemma push_or_add: "0 \<le> (x :: int) \<Longrightarrow> x < 64 \<Longrightarrow> push_bit 6 r OR x = 64 * r + x"
  using push_or_add_power [of x 6 r] by simp

section \<open>Round trip\<close>

lemma utf8_trailing_acc:
  "utf8_trailing n cp stored = (drop_bit (6 * n) cp, snd (utf8_trailing n cp []) @ stored)"
proof (induction n arbitrary: cp stored)
  case 0
  then show ?case by simp
next
  case (Suc n)
  show ?case
    using Suc [of "drop_bit 6 cp" "word_of_int (0x80 OR (cp AND 0x3F)) # stored"]
      Suc [of "drop_bit 6 cp" "[word_of_int (0x80 OR (cp AND 0x3F))]"]
    by (simp add: add.commute)
qed

lemma length_utf8_trailing [simp]: "length (snd (utf8_trailing n cp stored)) = n + length stored"
  by (induction n arbitrary: cp stored) auto

lemma utf8_read_trailing_append:
  "utf8_read_trailing r (xs @ ys) = utf8_read_trailing (utf8_read_trailing r xs) ys"
  by (induction xs arbitrary: r) auto

text \<open>Reading the trailing bytes back on top of what was left rebuilds the codepoint.\<close>

lemma read_utf8_trailing:
  "utf8_read_trailing (drop_bit (6 * n) cp) (snd (utf8_trailing n cp [])) = cp"
proof (induction n arbitrary: cp)
  case 0
  then show ?case by simp
next
  case (Suc n)
  let ?b = "word_of_int (0x80 OR (cp AND 0x3F)) :: u8"
  have "snd (utf8_trailing (Suc n) cp []) = snd (utf8_trailing n (drop_bit 6 cp) []) @ [?b]"
    using utf8_trailing_acc [of n "drop_bit 6 cp" "[?b]"] by simp
  moreover have "drop_bit (6 * Suc n) cp = drop_bit (6 * n) (drop_bit 6 cp)"
    by (simp add: add.commute)
  ultimately have "utf8_read_trailing (drop_bit (6 * Suc n) cp) (snd (utf8_trailing (Suc n) cp [])) =
      push_bit 6 (drop_bit 6 cp) OR uint (?b AND 0x3F)"
    using Suc [of "drop_bit 6 cp"] by (simp add: utf8_read_trailing_append)
  also have "\<dots> = 64 * (cp div 64) + cp mod 64"
    unfolding trailing_payload by (subst push_or_add) (simp_all add: drop_bit_eq_div)
  finally show ?case by simp
qed

lemma utf8_shape_bytes: "utf8_shape cp = Some (m, n) \<Longrightarrow> 1 \<le> n \<and> n \<le> 4"
  by (auto simp: utf8_shape_def split: if_splits)

lemma utf8_shape_initial:
  assumes "0 \<le> cp" "utf8_shape cp = Some (m, n)"
  shows "utf8_initial (word_of_int (m OR drop_bit (6 * (n - 1)) cp)) = Some (drop_bit (6 * (n - 1)) cp, n)"
proof -
  consider "cp \<le> 0x7F" "m = 0" "n = 1" | "0x7F < cp" "cp \<le> 0x7FF" "m = 0xC0" "n = 2"
    | "0x7FF < cp" "cp \<le> 0xFFFF" "m = 0xE0" "n = 3" | "0xFFFF < cp" "cp \<le> 0x1FFFFF" "m = 0xF0" "n = 4"
    using assms by (auto simp: utf8_shape_def split: if_splits)
  then show ?thesis
  proof cases
    case 1
    then show ?thesis using initial_payload1 [of cp] assms by simp
  next
    case 2
    then show ?thesis using initial_payload2 [of "cp div 64"] assms by (simp add: drop_bit_eq_div)
  next
    case 3
    then show ?thesis using initial_payload3 [of "cp div 4096"] assms by (simp add: drop_bit_eq_div)
  next
    case 4
    then show ?thesis using initial_payload4 [of "cp div 262144"] assms by (simp add: drop_bit_eq_div)
  qed
qed

lemma utf8_encode_eq:
  "utf8_encode m n cp =
     word_of_int (m OR drop_bit (6 * (n - 1)) cp) # snd (utf8_trailing (n - 1) cp [])"
  using utf8_trailing_acc [of "n - 1" cp "[]"]
  by (cases "utf8_trailing (n - 1) cp []") (simp add: utf8_encode_def)

lemma length_utf8_encode: "1 \<le> n \<Longrightarrow> length (utf8_encode m n cp) = n"
  by (simp add: utf8_encode_eq)

lemma read_utf8_encode:
  assumes "0 \<le> cp" "utf8_shape cp = Some (m, n)"
  shows "guac_utf8_read (utf8_encode m n cp @ rest) = (n, Some cp)"
  using utf8_shape_initial [OF assms] utf8_shape_bytes [OF assms(2)] read_utf8_trailing [of "n - 1" cp]
  by (simp add: guac_utf8_read_def utf8_encode_eq)

lemma charsize_utf8_encode:
  assumes "0 \<le> cp" "utf8_shape cp = Some (m, n)"
  shows "guac_utf8_charsize (hd (utf8_encode m n cp)) = n"
  using charsize_initial [OF utf8_shape_initial [OF assms]] by (simp add: utf8_encode_eq)

lemma guac_utf8_write_shape:
  assumes "utf8_shape cp = Some (m, n)"
  shows "guac_utf8_write cp len = (if int n \<le> len then utf8_encode m n cp else [])"
  using assms utf8_shape_bytes [OF assms] by (auto simp: guac_utf8_write_def)

lemma utf8_shape_exists: "cp \<le> 0x1FFFFF \<Longrightarrow> \<exists>m n. utf8_shape cp = Some (m, n)"
  by (auto simp: utf8_shape_def)

section \<open>Length of an encoded string\<close>

lemma utf8_strlen_skip:
  "utf8_strlen_loop len (length bs) (bs @ rest) = utf8_strlen_loop len 0 rest"
  by (induction bs arbitrary: rest) auto

lemma utf8_strlen_char:
  assumes "0 \<le> cp" "utf8_shape cp = Some (m, n)"
  shows "utf8_strlen_loop len 0 (utf8_encode m n cp @ rest) = utf8_strlen_loop (wrap32 (len + 1)) 0 rest"
  using charsize_utf8_encode [OF assms] utf8_shape_bytes [OF assms(2)]
    utf8_strlen_skip [of "wrap32 (len + 1)" "snd (utf8_trailing (n - 1) cp [])" rest]
  by (simp add: utf8_encode_eq)

lemma utf8_strlen_concat:
  assumes "\<And>cp. cp \<in> set cps \<Longrightarrow> 0 \<le> cp \<and> cp \<le> 0x1FFFFF"
    and "0 \<le> len" "len + int (length cps) \<le> INT_MAX"
  shows "utf8_strlen_loop len 0 (concat (map guac_terminal_encode_utf8 cps)) = len + int (length cps)"
  using assms
proof (induction cps arbitrary: len)
  case Nil
  then show ?case by simp
next
  case (Cons cp cps)
  obtain m n where shape: "utf8_shape cp = Some (m, n)"
    using utf8_shape_exists [of cp] Cons.prems(1) [of cp] by auto
  have "in_int (len + 1)" using Cons.prems by (simp add: in_int_bounds)
  then show ?case
    using Cons.prems utf8_strlen_char [OF _ shape, of len] shape Cons.IH [of "len + 1"]
    by (simp add: guac_terminal_encode_utf8_def)
qed

section \<open>Properties\<close>

text \<open>
  C25. Decoding inverts encoding: every codepoint from 0 to 0x1FFFFF, written into a buffer with
  enough room and read back (whatever follows it), comes back unchanged, consuming exactly the
  bytes written; and the number of bytes is what the initial byte announces.
\<close>

theorem utf8_roundtrip:
  assumes "0 \<le> cp" "cp \<le> 0x1FFFFF" "4 \<le> len"
  shows "guac_utf8_read (guac_utf8_write cp len @ rest) = (length (guac_utf8_write cp len), Some cp) \<and>
         guac_utf8_charsize (hd (guac_utf8_write cp len)) = length (guac_utf8_write cp len)"
proof -
  obtain m n where shape: "utf8_shape cp = Some (m, n)" using utf8_shape_exists assms by blast
  have stored: "guac_utf8_write cp len = utf8_encode m n cp"
    using guac_utf8_write_shape [OF shape, of len] utf8_shape_bytes [OF shape] assms by simp
  show ?thesis
    using read_utf8_encode [OF assms(1) shape] charsize_utf8_encode [OF assms(1) shape]
      utf8_shape_bytes [OF shape] length_utf8_encode [of n m cp]
    by (simp add: stored)
qed

theorem utf8_roundtrip_witness:
  "guac_utf8_read (guac_utf8_write 0x20AC 4 @ [0x41]) = (3, Some 0x20AC)"
  using utf8_roundtrip [of "0x20AC" 4 "[0x41]"] by (simp add: guac_utf8_write_def utf8_shape_def utf8_encode_eq)

text \<open>
  The writer never exceeds the space it is given and is all-or-nothing: it stores the complete
  encoding that the terminal's encoder also produces, or nothing when that does not fit.
\<close>

theorem utf8_write_bounded:
  "int (length (guac_utf8_write cp len)) \<le> max 0 len \<and>
   guac_utf8_write cp len =
     (if int (length (guac_terminal_encode_utf8 cp)) \<le> len then guac_terminal_encode_utf8 cp else [])"
proof (cases "utf8_shape cp")
  case None
  then show ?thesis by (simp add: guac_utf8_write_def guac_terminal_encode_utf8_def)
next
  case (Some mn)
  obtain m n where mn: "utf8_shape cp = Some (m, n)" using Some by (cases mn) auto
  show ?thesis
    using utf8_shape_bytes [OF mn] length_utf8_encode [of n m cp] guac_utf8_write_shape [OF mn, of len] mn
    by (simp add: guac_terminal_encode_utf8_def)
qed

text \<open>
  The string length counts characters, not bytes: on the encoding of any sequence of
  codepoints it is the number of codepoints.
\<close>

theorem utf8_strlen_counts_characters:
  assumes "\<And>cp. cp \<in> set cps \<Longrightarrow> 0 \<le> cp \<and> cp \<le> 0x1FFFFF" "length cps \<le> 2147483647"
  shows "guac_utf8_strlen (concat (map guac_terminal_encode_utf8 cps)) = of_nat (length cps)"
  using utf8_strlen_concat [of cps 0] assms by (simp add: guac_utf8_strlen_def INT_MAX_def)

theorem utf8_strlen_counts_characters_witness:
  "guac_utf8_strlen (concat (map guac_terminal_encode_utf8 [0x41, 0xE9, 0x1F600])) = 3"
proof -
  have "0 \<le> cp \<and> cp \<le> 0x1FFFFF" if "cp \<in> set [0x41, 0xE9, 0x1F600]" for cp :: int
    using that by auto
  then show ?thesis using utf8_strlen_counts_characters [of "[0x41, 0xE9, 0x1F600]"] by simp
qed

end
