(* ===== verification/Strings.thy ===== *)
theory Strings
  imports Mem
begin

text \<open>
  String utilities (\<open>src/src/libguac/string.c\<close>): the implementations compiled where the C library
  has no \<open>strlcpy\<close>, \<open>strlcat\<close> or \<open>strnstr\<close> of its own. A source string is its characters
  before the terminator; a destination is the whole memory from the pointer on, as a list, so that
  what lies past the stated size is seen to stay as it was.
\<close>

section \<open>Definitions\<close>

definition REMAINING :: "nat \<Rightarrow> nat \<Rightarrow> nat" where
  "REMAINING n len = (if n < len then 0 else n - len)"

definition strnlen :: "string \<Rightarrow> nat \<Rightarrow> nat" where
  "strnlen buf n = length (cstr (take n buf))"

text \<open>Decimal digits, as \<open>snprintf\<close> with \<open>%i\<close> produces them.\<close>

fun decimal :: "nat \<Rightarrow> string" where
  "decimal n = (if n < 10 then [char_of (48 + n)] else decimal (n div 10) @ [char_of (48 + n mod 10)])"

declare decimal.simps [simp del]

definition printf_i :: "int \<Rightarrow> string" where
  "printf_i i = (if i < 0 then CHR ''-'' # decimal (nat (- i)) else decimal (nat i))"

text \<open>The string stored by \<open>guac_itoa\<close>; its argument is an \<open>unsigned int\<close> printed as an \<open>int\<close>.\<close>

definition guac_itoa :: "u32 \<Rightarrow> string" where
  "guac_itoa integer = printf_i (sint integer)"

definition guac_strlcpy :: "string \<Rightarrow> string \<Rightarrow> nat \<Rightarrow> nat \<times> string" where
  "guac_strlcpy dest src n =
     (let len = length src in
      if n = 0 then (len, dest)
      else
        let copy_length = (if len \<ge> n then n - 1 else len)
        in (len, overwrite dest 0 (take copy_length src @ [NUL])))"

definition guac_strlcat :: "string \<Rightarrow> string \<Rightarrow> nat \<Rightarrow> nat \<times> string" where
  "guac_strlcat dest src n =
     (let len = strnlen dest n;
          (copied, rest) = guac_strlcpy (drop len dest) src (REMAINING n len)
      in (len + copied, take len dest @ rest))"

text \<open>\<open>memchr\<close>: the first position of a character among the first \<open>len - off\<close> from \<open>off\<close>.\<close>

definition memchr_from :: "string \<Rightarrow> nat \<Rightarrow> char \<Rightarrow> nat \<Rightarrow> nat option" where
  "memchr_from hay off c len = find (\<lambda>i. hay ! i = c) [off..<len]"

lemma memchr_from_Some:
  assumes "memchr_from hay off c len = Some i"
  shows "off \<le> i \<and> i < len \<and> hay ! i = c \<and> (\<forall>j. off \<le> j \<and> j < i \<longrightarrow> hay ! j \<noteq> c)"
proof -
  from assms obtain k where k: "k < len - off" "hay ! ([off..<len] ! k) = c" "i = [off..<len] ! k"
    "\<forall>j < k. hay ! ([off..<len] ! j) \<noteq> c"
    by (auto simp: memchr_from_def find_Some_iff)
  have "hay ! j \<noteq> c" if "off \<le> j" "j < i" for j
    using k(4) [rule_format, of "j - off"] that k(1,3) by simp
  then show ?thesis using k by auto
qed

lemma memchr_from_None: "memchr_from hay off c len = None \<longleftrightarrow> (\<forall>i. off \<le> i \<and> i < len \<longrightarrow> hay ! i \<noteq> c)"
  by (auto simp: memchr_from_def find_None_iff)

function strnstr_loop :: "string \<Rightarrow> string \<Rightarrow> nat \<Rightarrow> nat \<Rightarrow> nat option" where
  "strnstr_loop hay needle len off =
     (if off < len then
        (case memchr_from hay off (needle ! 0) len of
           None \<Rightarrow> None
         | Some chr \<Rightarrow>
             if chr + length needle > len then None
             else if take (length needle) (drop chr hay) = needle then Some chr
             else strnstr_loop hay needle len (chr + 1))
      else None)"
  by pat_completeness auto
termination
  by (relation "measure (\<lambda>(hay, needle, len, off). len - off)") (auto dest: memchr_from_Some)

declare strnstr_loop.simps [simp del]

definition guac_strnstr :: "string \<Rightarrow> string \<Rightarrow> nat \<Rightarrow> nat option" where
  "guac_strnstr hay needle len = (if needle = [] then Some 0 else strnstr_loop hay needle len 0)"

text \<open>\<open>granted\<close> says whether the allocation of the new string succeeds.\<close>

definition guac_strndup :: "bool \<Rightarrow> string option \<Rightarrow> nat \<Rightarrow> string option" where
  "guac_strndup granted str n =
     (case str of
        None \<Rightarrow> None
      | Some s \<Rightarrow>
          let length_to_copy = min (length s) n in
          (case PRIV_guac_mem_ckd_add [of_nat length_to_copy, 1] of
             None \<Rightarrow> None
           | Some _ \<Rightarrow> if granted then Some (take length_to_copy s) else None))"

definition guac_strdup :: "bool \<Rightarrow> string option \<Rightarrow> string option" where
  "guac_strdup granted str =
     (case str of None \<Rightarrow> None | Some s \<Rightarrow> guac_strndup granted (Some s) (length s))"

text \<open>One element appended at offset \<open>len\<close> of the destination, as the loop of the join does.\<close>

definition join_append :: "nat \<Rightarrow> string \<Rightarrow> nat \<times> string \<Rightarrow> nat \<times> string" where
  "join_append n src st =
     (let (len, dest) = st;
          (more, rest) = guac_strlcat (drop len dest) src (REMAINING n len)
      in (len + more, take len dest @ rest))"

fun strljoin_loop :: "nat \<Rightarrow> string \<Rightarrow> string list \<Rightarrow> nat \<times> string \<Rightarrow> nat \<times> string" where
  "strljoin_loop n delim [] st = st"
| "strljoin_loop n delim (s # ss) st = strljoin_loop n delim ss (join_append n s (join_append n delim st))"

definition guac_strljoin :: "string \<Rightarrow> string list \<Rightarrow> string \<Rightarrow> nat \<Rightarrow> nat \<times> string" where
  "guac_strljoin dest elements delim n =
     (case elements of
        [] \<Rightarrow> guac_strlcpy dest [] n
      | s # ss \<Rightarrow> strljoin_loop n delim ss (guac_strlcpy dest s n))"

section \<open>Copying and appending\<close>

lemma cstr_self [simp]: "cstring s \<Longrightarrow> cstr s = s"
  by (induction s) (auto simp: cstr_def)

lemma strlcpy_length [simp]: "fst (guac_strlcpy dest src n) = length src"
  by (simp add: guac_strlcpy_def Let_def)

lemma strlcpy_dest:
  assumes "0 < n"
  shows "snd (guac_strlcpy dest src n) = take (n - 1) src @ NUL # drop (min n (length src + 1)) dest"
proof (cases "length src \<ge> n")
  case True
  then show ?thesis using assms by (simp add: guac_strlcpy_def Let_def overwrite_def min_def)
next
  case False
  then have "min n (length src + 1) = length src + 1" "take (n - 1) src = src" using assms by auto
  then show ?thesis using False assms by (simp add: guac_strlcpy_def Let_def overwrite_def)
qed

lemma strlcat_unfold:
  "guac_strlcat dest src n =
     (strnlen dest n + length src,
      take (strnlen dest n) dest @
        snd (guac_strlcpy (drop (strnlen dest n) dest) src (REMAINING n (strnlen dest n))))"
  by (simp add: guac_strlcat_def Let_def split_beta)

text \<open>The full string wanted so far and the buffer that holds as much of it as fits.\<close>

definition holds :: "nat \<Rightarrow> string \<Rightarrow> string \<Rightarrow> nat \<times> string \<Rightarrow> bool" where
  "holds n orig full st \<longleftrightarrow>
     fst st = length full \<and>
     snd st = take (n - 1) full @ NUL # drop (min n (length full + 1)) orig"

lemma REMAINING_simps [simp]: "len \<le> n \<Longrightarrow> REMAINING n len = n - len" "n \<le> len \<Longrightarrow> REMAINING n len = 0"
  by (auto simp: REMAINING_def)

lemma strnlen_NUL [simp]: "strnlen (NUL # rest) n = 0"
  by (cases n) (simp_all add: strnlen_def cstr_def)

lemma strnlen_0 [simp]: "strnlen buf 0 = 0"
  by (simp add: strnlen_def cstr_def)

lemma strlcpy_0 [simp]: "guac_strlcpy dest src 0 = (length src, dest)"
  by (simp add: guac_strlcpy_def)

lemma holds_strlcpy: "0 < n \<Longrightarrow> holds n orig src (guac_strlcpy orig src n)"
  by (simp add: holds_def strlcpy_dest)

lemma holds_length:
  assumes "holds n orig full (len, dest)" "0 < n" "n \<le> length orig"
  shows "length dest = length orig"
  using assms by (auto simp: holds_def min_def)

lemma holds_beyond:
  assumes "holds n orig full (len, dest)" "0 < n" "n \<le> length orig"
  shows "drop n dest = drop n orig"
proof -
  define k where "k = min n (length full + 1)"
  define front where "front = take (n - 1) full @ [NUL]"
  have "dest = front @ drop k orig" using assms(1) by (simp add: holds_def k_def front_def)
  moreover have "length front = k" "k \<le> n" using assms(2) by (auto simp: k_def front_def min_def)
  ultimately show ?thesis by simp
qed

lemma holds_join_append:
  assumes h: "holds n orig full st" and n: "0 < n" "n \<le> length orig"
  shows "holds n orig (full @ src) (join_append n src st)"
proof -
  obtain len dest where st: "st = (len, dest)" by (cases st)
  have len: "len = length full" and dest: "dest = take (n - 1) full @ NUL # drop (min n (len + 1)) orig"
    using h by (auto simp: holds_def st)
  show ?thesis
  proof (cases "len < n")
    case True
    then have d: "dest = full @ NUL # drop (len + 1) orig" using dest len n by simp
    have r: "0 < n - len" using True by simp
    have "join_append n src st = (len + length src,
        full @ take (n - len - 1) src @ NUL # drop (min (n - len) (length src + 1)) (NUL # drop (len + 1) orig))"
      using True d len strlcpy_dest [OF r, of "NUL # drop (len + 1) orig" src]
      by (simp add: join_append_def st strlcat_unfold)
    moreover have "drop (min (n - len) (length src + 1)) (NUL # drop (len + 1) orig) =
        drop (min n (len + length src + 1)) orig"
    proof -
      obtain k where k: "min (n - len) (length src + 1) = Suc k" using r by (cases "min (n - len) (length src + 1)") auto
      then have "min n (len + length src + 1) = len + 1 + k" using True by (auto simp: min_def split: if_splits)
      then show ?thesis using k by (simp add: add.commute)
    qed
    moreover have "take (n - 1) full = full" using True len by simp
    ultimately show ?thesis using True len by (simp add: holds_def add.commute)
  next
    case False
    then have "join_append n src st = (len + length src, dest)"
      by (simp add: join_append_def st strlcat_unfold)
    then show ?thesis using False len dest by (simp add: holds_def min_def)
  qed
qed

text \<open>The elements separated by the delimiter.\<close>

fun join_with :: "string \<Rightarrow> string list \<Rightarrow> string" where
  "join_with delim [] = []"
| "join_with delim [s] = s"
| "join_with delim (s # t # ts) = s @ delim @ join_with delim (t # ts)"

lemma join_with_snoc: "join_with delim (s # ss) = s @ concat (map (\<lambda>x. delim @ x) ss)"
  by (induction ss arbitrary: s) auto

lemma holds_strljoin_loop:
  assumes "holds n orig full st" "0 < n" "n \<le> length orig"
  shows "holds n orig (full @ concat (map (\<lambda>x. delim @ x) ss)) (strljoin_loop n delim ss st)"
  using assms
proof (induction ss arbitrary: full st)
  case Nil
  then show ?case by simp
next
  case (Cons s ss)
  have "holds n orig ((full @ delim) @ s) (join_append n s (join_append n delim st))"
    using Cons.prems by (intro holds_join_append) auto
  from Cons.IH [OF this] Cons.prems show ?case by simp
qed

lemma holds_strljoin:
  assumes "0 < n" "n \<le> length dest"
  shows "holds n dest (join_with delim elements) (guac_strljoin dest elements delim n)"
proof (cases elements)
  case Nil
  then show ?thesis using holds_strlcpy [of n dest "[]"] assms by (simp add: guac_strljoin_def)
next
  case (Cons s ss)
  then show ?thesis
    using holds_strljoin_loop [OF holds_strlcpy [OF assms(1)] assms, of s delim ss]
    by (simp add: guac_strljoin_def join_with_snoc)
qed

lemma holds_cstr:
  assumes "holds n orig full st" "cstring full"
  shows "cstr (snd st) = take (n - 1) full"
  using assms by (simp add: holds_def)

lemma cstring_concat [simp]: "cstring (concat ss) \<longleftrightarrow> (\<forall>s \<in> set ss. cstring s)"
  by (induction ss) auto

lemma cstring_join_with:
  "cstring delim \<Longrightarrow> \<forall>s \<in> set elements. cstring s \<Longrightarrow> cstring (join_with delim elements)"
  by (cases elements) (auto simp: join_with_snoc)

section \<open>Searching\<close>

definition matches_at :: "string \<Rightarrow> string \<Rightarrow> nat \<Rightarrow> nat \<Rightarrow> bool" where
  "matches_at hay needle len i \<longleftrightarrow>
     i + length needle \<le> len \<and> take (length needle) (drop i hay) = needle"

lemma matches_at_first:
  assumes "needle \<noteq> []" "matches_at hay needle len i"
  shows "hay ! i = needle ! 0"
proof -
  have "needle ! 0 = take (length needle) (drop i hay) ! 0" using assms(2) by (simp add: matches_at_def)
  also have "\<dots> = drop i hay ! 0" using assms(1) by (cases needle) auto
  also have "\<dots> = hay ! i"
  proof (cases "i \<le> length hay")
    case False
    then have "take (length needle) (drop i hay) = []" by simp
    then show ?thesis using assms by (simp add: matches_at_def)
  qed simp
  finally show ?thesis ..
qed

lemma strnstr_loop_correct:
  assumes "needle \<noteq> []"
  shows "case strnstr_loop hay needle len off of
           None \<Rightarrow> \<forall>i \<ge> off. \<not> matches_at hay needle len i
         | Some i \<Rightarrow> off \<le> i \<and> matches_at hay needle len i \<and> (\<forall>j. off \<le> j \<and> j < i \<longrightarrow> \<not> matches_at hay needle len j)"
  using assms
proof (induction hay needle len off rule: strnstr_loop.induct)
  case (1 hay needle len off)
  note first = matches_at_first [OF 1(2), of hay len]
  have pos: "0 < length needle" using 1(2) by simp
  show ?case
  proof (cases "off < len")
    case False
    have "\<not> matches_at hay needle len i" if "off \<le> i" for i
    proof -
      have "\<not> i + length needle \<le> len" using False pos that by linarith
      then show ?thesis by (simp add: matches_at_def)
    qed
    then show ?thesis using False by (simp add: strnstr_loop.simps [of hay needle len off])
  next
    case True
    show ?thesis
    proof (cases "memchr_from hay off (needle ! 0) len")
      case None
      have "\<not> matches_at hay needle len i" if "off \<le> i" for i
        using None first [of i] that pos unfolding memchr_from_None by (auto simp: matches_at_def)
      then show ?thesis using True None by (simp add: strnstr_loop.simps [of hay needle len off])
    next
      case (Some c)
      note c = memchr_from_Some [OF Some]
      have before: "\<not> matches_at hay needle len j" if "off \<le> j" "j < c" for j
        using c that first [of j] by blast
      consider "c + length needle > len" | "matches_at hay needle len c"
        | "c + length needle \<le> len" "take (length needle) (drop c hay) \<noteq> needle"
        unfolding matches_at_def by linarith
      then show ?thesis
      proof cases
        case 1
        have "\<not> matches_at hay needle len i" if "off \<le> i" for i
          using before [of i] 1 that by (cases "i < c") (auto simp: matches_at_def)
        then show ?thesis using True Some 1 by (simp add: strnstr_loop.simps [of hay needle len off])
      next
        case 2
        then show ?thesis using True Some c before
          by (auto simp: strnstr_loop.simps [of hay needle len off] matches_at_def)
      next
        case 3
        then have unf: "strnstr_loop hay needle len off = strnstr_loop hay needle len (c + 1)"
          using True Some by (simp add: strnstr_loop.simps [of hay needle len off])
        have here: "\<not> matches_at hay needle len c" using 3 by (simp add: matches_at_def)
        have IH: "case strnstr_loop hay needle len (c + 1) of
            None \<Rightarrow> \<forall>i \<ge> c + 1. \<not> matches_at hay needle len i
          | Some i \<Rightarrow> c + 1 \<le> i \<and> matches_at hay needle len i \<and>
              (\<forall>j. c + 1 \<le> j \<and> j < i \<longrightarrow> \<not> matches_at hay needle len j)"
          using "1.IH" [OF True Some] 3 "1.prems" by simp
        have below: "\<not> matches_at hay needle len j" if "off \<le> j" "j < c + 1" for j
          using before [of j] here that by (cases "j = c") auto
        show ?thesis
        proof (cases "strnstr_loop hay needle len (c + 1)")
          case None
          have "\<not> matches_at hay needle len i" if "off \<le> i" for i
            using IH None below [of i] that by (cases "i < c + 1") (simp_all del: One_nat_def)
          then show ?thesis using None unf by simp
        next
          case (Some i)
          have "\<not> matches_at hay needle len j" if "off \<le> j" "j < i" for j
            using IH Some below [of j] that by (cases "j < c + 1") (simp_all del: One_nat_def)
          then show ?thesis using Some unf IH c by simp
        qed
      qed
    qed
  qed
qed

section \<open>Properties\<close>

text \<open>
  Joining strings into a buffer of \<open>n\<close> bytes returns the length of the full joined string,
  leaves the longest prefix of it that fits, terminated, in the buffer, and changes nothing at or
  past byte \<open>n\<close>.
\<close>

theorem strljoin_correct:
  assumes "0 < n" "n \<le> length dest" "cstring delim" "\<forall>s \<in> set elements. cstring s"
    and "guac_strljoin dest elements delim n = (len, dest')"
  shows "len = length (join_with delim elements) \<and> cstr dest' = take (n - 1) (join_with delim elements) \<and>
         length dest' = length dest \<and> drop n dest' = drop n dest"
proof -
  have h: "holds n dest (join_with delim elements) (len, dest')"
    using holds_strljoin [OF assms(1,2), of delim elements] assms(5) by simp
  have "cstring (join_with delim elements)" using assms(3,4) by (rule cstring_join_with)
  from holds_cstr [OF h this] have "cstr dest' = take (n - 1) (join_with delim elements)" by simp
  then show ?thesis
    using h holds_length [OF h assms(1,2)] holds_beyond [OF h assms(1,2)] by (simp add: holds_def)
qed

theorem strljoin_correct_witness:
  "guac_strljoin ''........'' [''ab'', ''cd'', ''ef''] ''/'' 6 = (8, ''ab/cd'' @ [NUL] @ ''..'') \<and>
   cstr (''ab/cd'' @ [NUL] @ ''..'') = ''ab/cd''"
proof -
  have run: "guac_strljoin ''........'' [''ab'', ''cd'', ''ef''] ''/'' 6 = (8, ''ab/cd'' @ [NUL] @ ''..'')"
    by code_simp
  show ?thesis using run strljoin_correct [OF _ _ _ _ run] by simp
qed

text \<open>
  The bounded substring search finds the first occurrence of the needle that lies entirely
  within the first \<open>len\<close> characters, or reports that there is none.
\<close>

theorem strnstr_correct:
  "case guac_strnstr hay needle len of
     None \<Rightarrow> needle \<noteq> [] \<and> (\<forall>i. \<not> matches_at hay needle len i)
   | Some i \<Rightarrow> (needle = [] \<and> i = 0) \<or>
       (matches_at hay needle len i \<and> (\<forall>j < i. \<not> matches_at hay needle len j))"
  using strnstr_loop_correct [where needle = needle and hay = hay and len = len and off = 0]
  by (auto simp: guac_strnstr_def split: option.splits)

theorem strnstr_correct_witness:
  "guac_strnstr ''abcabdabd'' ''abd'' 8 = Some 3 \<and> matches_at ''abcabdabd'' ''abd'' 8 3 \<and>
   \<not> matches_at ''abcabdabd'' ''abd'' 8 0"
proof -
  have run: "guac_strnstr ''abcabdabd'' ''abd'' 8 = Some 3" by code_simp
  show ?thesis using strnstr_correct [where hay = "''abcabdabd''" and needle = "''abd''" and len = 8] run by simp
qed

text \<open>
  Converting an unsigned integer of 2147483648 or more to text prints a minus sign and the
  two's complement negation of the integer; only smaller integers are printed as they are.
\<close>

theorem itoa_prints_signed:
  "guac_itoa n = (if unat n < 2147483648 then decimal (unat n)
                  else CHR ''-'' # decimal (4294967296 - unat n))"
proof -
  have w: "sint n = wrap32 (int (unat n))"
    by (simp add: sint_uint wrap32_def signed_take_bit_eq_take_bit_shift take_bit_eq_mod)
  have lt: "unat n < 4294967296" using unsigned_less [of n, where 'a = nat] by simp
  show ?thesis
  proof (cases "unat n < 2147483648")
    case True
    then have "in_int (int (unat n))" unfolding in_int_bounds by linarith
    then have "sint n = int (unat n)" using w wrap32_id by metis
    then show ?thesis using True by (simp add: guac_itoa_def printf_i_def)
  next
    case False
    have "int (unat n) + 2147483648 = (int (unat n) - 2147483648) + 4294967296" by simp
    then have "(int (unat n) + 2147483648) mod 4294967296 = int (unat n) - 2147483648"
      using False lt by (simp only: mod_add_self2) (rule mod_pos_pos_trivial, linarith+)
    then have "sint n = int (unat n) - 4294967296" using w by (simp add: wrap32_def)
    moreover have "nat (4294967296 - int (unat n)) = 4294967296 - unat n" using lt by linarith
    ultimately show ?thesis using False lt by (simp add: guac_itoa_def printf_i_def)
  qed
qed

end
