(* ===== verification/Socket.thy ===== *)
theory Socket
  imports Strings Utf8
begin

text \<open>
  Output side of a socket (\<open>src/src/libguac/socket.c\<close>): writing of byte ranges, strings and integers
  through the write handler, base64 output through the ready buffer, and the bracketing of
  instructions.

  The handlers of a socket are function pointers. What they do is scripted in the record:
  \<open>outcomes\<close> holds the results of the next calls of the write handler (\<open>None\<close> for -1, \<open>Some n\<close>
  for up to \<open>n\<close> bytes accepted), past its end the handler accepts everything, as a socket without
  handler does; \<open>flush_outcomes\<close> does the same for the flush handler. \<open>written\<close> is what the write
  handler accepted so far and \<open>held\<close> counts the instructions begun and not ended.
\<close>

unbundle bit_operations_syntax

section \<open>Definitions\<close>

record guac_socket =
  written :: "u8 list"
  outcomes :: "nat option list"
  flush_outcomes :: "int list"
  held :: nat
  ready :: "u8 list"
  current_timestamp :: int
  last_write_timestamp :: int

type_synonym socket_op = "guac_socket \<Rightarrow> int \<times> guac_socket"

definition bytes_of :: "string \<Rightarrow> u8 list" where
  "bytes_of s = map of_char s"

definition guac_socket_write_once :: "guac_socket \<Rightarrow> u8 list \<Rightarrow> int \<times> guac_socket" where
  "guac_socket_write_once socket buf =
     (let stamped = socket\<lparr>last_write_timestamp := current_timestamp socket\<rparr> in
      case outcomes stamped of
        [] \<Rightarrow> (int (length buf), stamped\<lparr>written := written stamped @ buf\<rparr>)
      | None # os \<Rightarrow> (-1, stamped\<lparr>outcomes := os\<rparr>)
      | Some n # os \<Rightarrow>
          (int (min n (length buf)),
           stamped\<lparr>outcomes := os, written := written stamped @ take n buf\<rparr>))"

lemma write_once_less:
  assumes "guac_socket_write_once socket buf = (n, socket')" "buf \<noteq> []" "n \<noteq> -1"
  shows "length (outcomes socket') + (length buf - nat n) < length (outcomes socket) + length buf"
  using assms by (auto simp: guac_socket_write_once_def Let_def split: list.splits option.splits)

function guac_socket_write :: "guac_socket \<Rightarrow> u8 list \<Rightarrow> int \<times> guac_socket" where
  "guac_socket_write socket buf =
     (if buf = [] then (0, socket)
      else
        (case guac_socket_write_once socket buf of
           (n, socket') \<Rightarrow> if n = -1 then (1, socket') else guac_socket_write socket' (drop (nat n) buf)))"
  by pat_completeness auto
termination
  by (relation "measure (\<lambda>(socket, buf). length (outcomes socket) + length buf)")
    (auto dest: write_once_less [OF sym])

declare guac_socket_write.simps [simp del]

definition guac_socket_instruction_begin :: "guac_socket \<Rightarrow> guac_socket" where
  "guac_socket_instruction_begin socket = socket\<lparr>held := held socket + 1\<rparr>"

definition guac_socket_instruction_end :: "guac_socket \<Rightarrow> guac_socket" where
  "guac_socket_instruction_end socket = socket\<lparr>held := held socket - 1\<rparr>"

definition guac_socket_flush :: socket_op where
  "guac_socket_flush socket =
     (case flush_outcomes socket of
        [] \<Rightarrow> (0, socket)
      | r # rs \<Rightarrow> (r, socket\<lparr>flush_outcomes := rs\<rparr>))"

definition guac_socket_write_int :: "int \<Rightarrow> socket_op" where
  "guac_socket_write_int i socket = guac_socket_write socket (bytes_of (printf_i i))"

definition guac_socket_write_string :: "u8 list \<Rightarrow> socket_op" where
  "guac_socket_write_string str socket =
     (case guac_socket_write socket str of (r, socket') \<Rightarrow> (if r \<noteq> 0 then 1 else 0, socket'))"

subsection \<open>Base64\<close>

definition BASE64_CHARACTERS :: string where
  "BASE64_CHARACTERS = ''ABCDEFGHIJKLMNOPQRSTUVWXYZabcdefghijklmnopqrstuvwxyz0123456789+/''"

definition base64_char :: "int \<Rightarrow> u8" where
  "base64_char i = of_char (BASE64_CHARACTERS ! nat i)"

definition base64_pad :: u8 where
  "base64_pad = of_char (CHR ''='')"

definition guac_socket_encode_base64 :: "int \<Rightarrow> int \<Rightarrow> int \<Rightarrow> u8 list" where
  "guac_socket_encode_base64 a b c =
     base64_char (drop_bit 2 (a AND 0xFC)) #
     (if b \<ge> 0 then
        base64_char (push_bit 4 (a AND 0x03) OR drop_bit 4 (b AND 0xF0)) #
        (if c \<ge> 0 then
           [base64_char (push_bit 2 (b AND 0x0F) OR drop_bit 6 (c AND 0xC0)), base64_char (c AND 0x3F)]
         else [base64_char (push_bit 2 (b AND 0x0F)), base64_pad])
      else [base64_char (push_bit 4 (a AND 0x03)), base64_pad, base64_pad])"

text \<open>The loop over the ready buffer in groups of three, and the partial remnants.\<close>

fun encode_ready :: "u8 list \<Rightarrow> u8 list" where
  "encode_ready (a # b # c # src) = guac_socket_encode_base64 (uint a) (uint b) (uint c) @ encode_ready src"
| "encode_ready [a, b] = guac_socket_encode_base64 (uint a) (uint b) (-1)"
| "encode_ready [a] = guac_socket_encode_base64 (uint a) (-1) (-1)"
| "encode_ready [] = []"

definition guac_socket_flush_base64 :: socket_op where
  "guac_socket_flush_base64 socket =
     (case guac_socket_write socket (encode_ready (ready socket)) of
        (retval, socket') \<Rightarrow>
          if retval < 0 then (retval, socket') else (0, socket'\<lparr>ready := []\<rparr>))"

definition GUAC_SOCKET_BASE64_READY_BUFFER_SIZE :: nat where
  "GUAC_SOCKET_BASE64_READY_BUFFER_SIZE = 768"

text \<open>
  The number of bytes one round of the loop copies. A \<open>__ready\<close> above the buffer size would make
  the \<open>int\<close> difference negative and so, compared with a \<open>size_t\<close>, larger than what remains.
\<close>

definition base64_round :: "nat \<Rightarrow> nat \<Rightarrow> nat" where
  "base64_round ready_count remaining =
     (if ready_count \<le> GUAC_SOCKET_BASE64_READY_BUFFER_SIZE
      then min remaining (GUAC_SOCKET_BASE64_READY_BUFFER_SIZE - ready_count)
      else remaining)"

lemma flush_base64_ready:
  "guac_socket_flush_base64 socket = (r, socket') \<Longrightarrow> 0 \<le> r \<Longrightarrow> ready socket' = []"
  by (auto simp: guac_socket_flush_base64_def split: prod.splits if_splits)

function guac_socket_write_base64 :: "guac_socket \<Rightarrow> u8 list \<Rightarrow> int \<times> guac_socket" where
  "guac_socket_write_base64 socket src =
     (if src = [] then (0, socket)
      else
        let len = base64_round (length (ready socket)) (length src);
            filled = socket\<lparr>ready := ready socket @ take len src\<rparr>;
            rest = drop len src
        in if length (ready filled) = GUAC_SOCKET_BASE64_READY_BUFFER_SIZE then
             (case guac_socket_flush_base64 filled of
                (retval, flushed) \<Rightarrow>
                  if retval < 0 then (retval, flushed) else guac_socket_write_base64 flushed rest)
           else guac_socket_write_base64 filled rest)"
  by pat_completeness auto
termination
proof (relation "measures [\<lambda>(socket, src). length src, \<lambda>(socket, src). length (ready socket)]", goal_cases)
  case 1
  show ?case by simp
next
  case (2 socket src len filled rest retval flushed)
  then have "ready flushed = []" using flush_base64_ready [of filled retval flushed] by simp
  then show ?case
    using 2 by (cases "len = 0") (auto simp: GUAC_SOCKET_BASE64_READY_BUFFER_SIZE_def)
next
  case (3 socket src len filled rest)
  then have "0 < len"
    by (auto simp: base64_round_def GUAC_SOCKET_BASE64_READY_BUFFER_SIZE_def split: if_splits)
  then show ?case using 3 by simp
qed

declare guac_socket_write_base64.simps [simp del]

section \<open>Writing\<close>

text \<open>A socket whose write handler will not fail.\<close>

abbreviation accepting :: "guac_socket \<Rightarrow> bool" where
  "accepting socket \<equiv> None \<notin> set (outcomes socket)"

text \<open>
  What a write promises on every socket: it reports success only when all of the bytes were
  accepted, otherwise an initial segment of them was; a handler that does not fail leads to
  success; nothing but the output, the scripted outcomes and the time stamp changes.
\<close>

definition frame_eq :: "guac_socket \<Rightarrow> guac_socket \<Rightarrow> bool" where
  "frame_eq socket socket' \<longleftrightarrow>
     held socket' = held socket \<and> ready socket' = ready socket \<and>
     flush_outcomes socket' = flush_outcomes socket \<and> current_timestamp socket' = current_timestamp socket"

definition writes :: "u8 list \<Rightarrow> socket_op \<Rightarrow> bool" where
  "writes bs op \<longleftrightarrow>
     (\<forall>socket r socket'. op socket = (r, socket') \<longrightarrow>
        frame_eq socket socket' \<and>
        (accepting socket \<longrightarrow> r = 0 \<and> accepting socket') \<and>
        (\<exists>n \<le> length bs. written socket' = written socket @ take n bs \<and> (r = 0 \<longrightarrow> n = length bs)))"

lemma frame_eq_refl [simp]: "frame_eq socket socket"
  by (simp add: frame_eq_def)

lemma frame_eq_trans: "frame_eq a b \<Longrightarrow> frame_eq b c \<Longrightarrow> frame_eq a c"
  by (simp add: frame_eq_def)

lemma writesI:
  assumes "\<And>socket r socket'. op socket = (r, socket') \<Longrightarrow> frame_eq socket socket'"
    and "\<And>socket r socket'. op socket = (r, socket') \<Longrightarrow> accepting socket \<Longrightarrow> r = 0 \<and> accepting socket'"
    and "\<And>socket r socket'. op socket = (r, socket') \<Longrightarrow>
      \<exists>n \<le> length bs. written socket' = written socket @ take n bs \<and> (r = 0 \<longrightarrow> n = length bs)"
  shows "writes bs op"
  unfolding writes_def using assms by blast

lemma writesD:
  assumes "writes bs op" "op socket = (r, socket')"
  shows "frame_eq socket socket'" "accepting socket \<Longrightarrow> r = 0" "accepting socket \<Longrightarrow> accepting socket'"
    and "r = 0 \<Longrightarrow> written socket' = written socket @ bs"
    and "\<exists>n \<le> length bs. written socket' = written socket @ take n bs \<and> (r = 0 \<longrightarrow> n = length bs)"
  using assms unfolding writes_def by fastforce+

lemma write_once_cases:
  assumes "guac_socket_write_once socket buf = (n, socket')"
  shows "frame_eq socket socket' \<and> (accepting socket \<longrightarrow> n \<noteq> -1 \<and> accepting socket') \<and>
         (if n = -1 then written socket' = written socket
          else nat n \<le> length buf \<and> written socket' = written socket @ take (nat n) buf)"
  using assms
  by (auto simp: guac_socket_write_once_def Let_def frame_eq_def min_def split: list.splits option.splits)

lemma writes_write: "writes buf (\<lambda>socket. guac_socket_write socket buf)"
proof -
  have "frame_eq socket (snd (guac_socket_write socket buf)) \<and>
      (accepting socket \<longrightarrow> fst (guac_socket_write socket buf) = 0 \<and> accepting (snd (guac_socket_write socket buf))) \<and>
      (\<exists>n \<le> length buf. written (snd (guac_socket_write socket buf)) = written socket @ take n buf \<and>
         (fst (guac_socket_write socket buf) = 0 \<longrightarrow> n = length buf))" for socket
  proof (induction socket buf rule: guac_socket_write.induct)
    case (1 socket buf)
    obtain n s1 where one: "guac_socket_write_once socket buf = (n, s1)" by fastforce
    note c = write_once_cases [OF one]
    show ?case
    proof (cases "buf = [] \<or> n = -1")
      case True
      then show ?thesis
        using c one by (auto simp: guac_socket_write.simps [of socket buf] intro!: exI [of _ 0])
    next
      case False
      then have unf: "guac_socket_write socket buf = guac_socket_write s1 (drop (nat n) buf)"
        using one by (simp add: guac_socket_write.simps [of socket buf])
      have le: "nat n \<le> length buf" and w: "written s1 = written socket @ take (nat n) buf"
        using c False by auto
      from "1.IH" [OF _ one [symmetric]] False
      have IH: "frame_eq s1 (snd (guac_socket_write s1 (drop (nat n) buf)))"
        "accepting s1 \<Longrightarrow> fst (guac_socket_write s1 (drop (nat n) buf)) = 0 \<and>
           accepting (snd (guac_socket_write s1 (drop (nat n) buf)))"
        "\<exists>m \<le> length buf - nat n. written (snd (guac_socket_write s1 (drop (nat n) buf))) =
           written s1 @ take m (drop (nat n) buf) \<and>
           (fst (guac_socket_write s1 (drop (nat n) buf)) = 0 \<longrightarrow> m = length buf - nat n)"
        by simp_all
      from IH(3) obtain m where m: "m \<le> length buf - nat n"
        "written (snd (guac_socket_write s1 (drop (nat n) buf))) = written s1 @ take m (drop (nat n) buf)"
        "fst (guac_socket_write s1 (drop (nat n) buf)) = 0 \<Longrightarrow> m = length buf - nat n" by auto
      have "written socket @ take (nat n + m) buf = written s1 @ take m (drop (nat n) buf)"
        using w by (simp add: take_add)
      then show ?thesis
        unfolding unf using IH(1,2) c m le frame_eq_trans
        by (intro conjI impI exI [of _ "nat n + m"]) auto
    qed
  qed
  then show ?thesis
    unfolding writes_def by (metis fst_conv snd_conv)
qed

lemma writes_write_int: "writes (bytes_of (printf_i i)) (guac_socket_write_int i)"
  using writes_write [of "bytes_of (printf_i i)"] by (simp add: writes_def guac_socket_write_int_def)

lemma writes_write_string: "writes str (guac_socket_write_string str)"
proof (rule writesI)
  fix socket r socket'
  assume "guac_socket_write_string str socket = (r, socket')"
  then obtain q where q: "guac_socket_write socket str = (q, socket')" "r = (if q \<noteq> 0 then 1 else 0)"
    by (auto simp: guac_socket_write_string_def split: prod.splits)
  note w = writesD [OF writes_write q(1)]
  show "frame_eq socket socket'" by (rule w(1))
  show "accepting socket \<Longrightarrow> r = 0 \<and> accepting socket'" using w(2,3) q(2) by simp
  show "\<exists>n \<le> length str. written socket' = written socket @ take n str \<and> (r = 0 \<longrightarrow> n = length str)"
    using w(5) q(2) by auto
qed

section \<open>Base64 output\<close>

lemma flush_base64_never_fails: "fst (guac_socket_flush_base64 socket) = 0"
proof -
  have "0 \<le> fst (guac_socket_write socket buf)" for buf
  proof (induction socket buf rule: guac_socket_write.induct)
    case (1 socket buf)
    show ?case
      using "1.IH" by (auto simp: guac_socket_write.simps [of socket buf] split: prod.splits)
  qed
  from this [of "encode_ready (ready socket)"] show ?thesis
    by (cases "guac_socket_write socket (encode_ready (ready socket))")
      (simp add: guac_socket_flush_base64_def)
qed

text \<open>A group of three bytes encodes on its own, so full groups can be flushed early.\<close>

lemma encode_ready_append:
  "length xs mod 3 = 0 \<Longrightarrow> encode_ready (xs @ ys) = encode_ready xs @ encode_ready ys"
  by (induction xs rule: encode_ready.induct) (auto simp: mod_Suc split: if_splits)

lemma length_encode_ready: "length (encode_ready xs) = (length xs + 2) div 3 * 4"
proof (induction xs rule: encode_ready.induct)
  case (1 a b c src)
  have "(length src + 2 + 3) div 3 = (length src + 2) div 3 + 1" by (simp only: div_add_self2)
  then have "(length (a # b # c # src) + 2) div 3 = (length src + 2) div 3 + 1" by simp
  then show ?case using 1 by (simp add: guac_socket_encode_base64_def)
qed (simp_all add: guac_socket_encode_base64_def)

lemma flush_base64_emits:
  assumes "accepting socket" "guac_socket_flush_base64 socket = (r, socket')"
  shows "r = 0 \<and> accepting socket' \<and> ready socket' = [] \<and> held socket' = held socket \<and>
         written socket' = written socket @ encode_ready (ready socket)"
proof -
  obtain q s1 where w: "guac_socket_write socket (encode_ready (ready socket)) = (q, s1)" by fastforce
  note d = writesD [OF writes_write w]
  have "q = 0" using d(2) assms(1) .
  then show ?thesis
    using d(1,3,4) assms w by (auto simp: guac_socket_flush_base64_def frame_eq_def)
qed

lemma write_base64_emits:
  assumes "accepting socket" "length (ready socket) < GUAC_SOCKET_BASE64_READY_BUFFER_SIZE"
    and "guac_socket_write_base64 socket src = (r, socket')"
  shows "r = 0 \<and> accepting socket' \<and> held socket' = held socket \<and>
         length (ready socket') < GUAC_SOCKET_BASE64_READY_BUFFER_SIZE \<and>
         written socket' @ encode_ready (ready socket') = written socket @ encode_ready (ready socket @ src)"
  using assms
proof (induction socket src arbitrary: r socket' rule: guac_socket_write_base64.induct)
  case (1 socket src)
  define len where "len = base64_round (length (ready socket)) (length src)"
  define filled where "filled = socket\<lparr>ready := ready socket @ take len src\<rparr>"
  have split: "ready socket @ src = ready filled @ drop len src" by (simp add: filled_def)
  show ?case
  proof (cases "src = []")
    case True
    then have "r = 0" "socket' = socket"
      using "1.prems"(3) by (simp_all add: guac_socket_write_base64.simps [of socket "[]"])
    then show ?thesis using "1.prems" True by simp
  next
    case False
    show ?thesis
    proof (cases "length (ready filled) = GUAC_SOCKET_BASE64_READY_BUFFER_SIZE")
      case True
      obtain q flushed where fl: "guac_socket_flush_base64 filled = (q, flushed)" by fastforce
      have "accepting filled" using "1.prems"(1) by (simp add: filled_def)
      note f = flush_base64_emits [OF this fl]
      have rest: "guac_socket_write_base64 flushed (drop len src) = (r, socket')"
        using "1.prems"(3) False True fl f
        by (simp add: guac_socket_write_base64.simps [of socket src] Let_def len_def filled_def)
      have "r = 0 \<and> accepting socket' \<and> held socket' = held flushed \<and>
          length (ready socket') < GUAC_SOCKET_BASE64_READY_BUFFER_SIZE \<and>
          written socket' @ encode_ready (ready socket') =
            written flushed @ encode_ready (ready flushed @ drop len src)"
        using "1.IH"(1) [OF False len_def filled_def refl True fl [symmetric] _ _ _ rest] f
        by (simp add: GUAC_SOCKET_BASE64_READY_BUFFER_SIZE_def)
      moreover have "length (ready filled) mod 3 = 0"
        using True by (simp add: GUAC_SOCKET_BASE64_READY_BUFFER_SIZE_def)
      ultimately show ?thesis
        using f encode_ready_append [of "ready filled" "drop len src"] unfolding split
        by (simp add: filled_def)
    next
      case nf: False
      have rest: "guac_socket_write_base64 filled (drop len src) = (r, socket')"
        using "1.prems"(3) False nf
        by (simp add: guac_socket_write_base64.simps [of socket src] Let_def len_def filled_def)
      have "length (ready filled) < GUAC_SOCKET_BASE64_READY_BUFFER_SIZE"
        using nf "1.prems"(2) by (auto simp: filled_def len_def base64_round_def)
      moreover have "accepting filled" using "1.prems"(1) by (simp add: filled_def)
      ultimately show ?thesis
        using "1.IH"(2) [OF False len_def filled_def refl nf _ _ rest] unfolding split
        by (simp add: filled_def)
    qed
  qed
qed

end
