(* ===== verification/Base64.thy ===== *)
theory Base64
  imports Socket
begin

text \<open>
  Base64 decoding in place (\<open>guac_protocol_decode_base64\<close> of \<open>src/src/libguac/protocol.c\<close>) and its
  relation to the encoder of \<open>socket.c\<close>.
\<close>

unbundle bit_operations_syntax

section \<open>Definitions\<close>

definition guac_base64_value :: "u8 \<Rightarrow> int" where
  "guac_base64_value c =
     (if of_char (CHR ''A'') \<le> c \<and> c \<le> of_char (CHR ''Z'') then uint c - of_char (CHR ''A'')
      else if of_char (CHR ''a'') \<le> c \<and> c \<le> of_char (CHR ''z'') then uint c - of_char (CHR ''a'') + 26
      else if of_char (CHR ''0'') \<le> c \<and> c \<le> of_char (CHR ''9'') then uint c - of_char (CHR ''0'') + 52
      else if c = of_char (CHR ''+'') then 62
      else if c = of_char (CHR ''/'') then 63
      else 0)"

text \<open>
  The loop of the decoder: it reads at \<open>input\<close> and stores at \<open>output\<close> in the same buffer. The number
  of bytes stored is the offset of \<open>output\<close>. Reading past the end of the buffer (a missing
  terminator) is undefined.
\<close>

function decode_base64_loop :: "u8 list \<Rightarrow> nat \<Rightarrow> nat \<Rightarrow> int \<Rightarrow> int \<Rightarrow> (nat \<times> u8 list) result" where
  "decode_base64_loop buf input output bits_read val =
     (if input < length buf then
        (let current = buf ! input in
         if current = 0 \<or> current = of_char (CHR ''='') then Inr (output, buf)
         else
           let val' = wrap32 (push_bit 6 val) OR guac_base64_value current;
               bits' = bits_read + 6
           in if bits' \<ge> 8 then
                decode_base64_loop
                  (buf[output := word_of_int (drop_bit (nat (bits' mod 8)) val' AND 0xFF)])
                  (input + 1) (output + 1) (bits' - 8) val'
              else decode_base64_loop buf (input + 1) output bits' val')
      else Inl Undefined)"
  by pat_completeness auto
termination
  by (relation "measure (\<lambda>(buf, input, output, bits_read, val). length buf - input)") auto

declare decode_base64_loop.simps [simp del]

definition guac_protocol_decode_base64 :: "u8 list \<Rightarrow> (nat \<times> u8 list) result" where
  "guac_protocol_decode_base64 base64 = decode_base64_loop base64 0 0 0 0"

section \<open>Encoded groups\<close>

lemma base64_chars_upto:
  "list_all (\<lambda>i. guac_base64_value (base64_char i) = i \<and> unat (base64_char i) < 128 \<and>
     base64_char i \<noteq> 0 \<and> base64_char i \<noteq> of_char (CHR ''='')) (map int [0..<64])"
  by code_simp

lemma base64_char:
  assumes "0 \<le> i" "i < 64"
  shows "guac_base64_value (base64_char i) = i" "unat (base64_char i) < 128"
    and "base64_char i \<noteq> 0" "base64_char i \<noteq> of_char (CHR ''='')"
  using all_upto [OF base64_chars_upto, of i] assms by auto

text \<open>The four sextets of a group of three bytes.\<close>

definition sextets :: "int \<Rightarrow> int \<Rightarrow> int \<Rightarrow> int list" where
  "sextets a b c = [a div 4, a mod 4 * 16 + b div 16, b mod 16 * 4 + c div 64, c mod 64]"

lemma byte_bits_upto:
  "list_all (\<lambda>a. drop_bit 2 (a AND 0xFC) = a div 4 \<and> push_bit 4 (a AND 0x03) = a mod 4 * 16 \<and>
     drop_bit 4 (a AND 0xF0) = a div 16 \<and> push_bit 2 (a AND 0x0F) = a mod 16 * 4 \<and>
     drop_bit 6 (a AND 0xC0) = a div 64 \<and> a AND 0x3F = a mod 64) (map int [0..<256])"
  by code_simp

lemma byte_bits:
  fixes a :: int
  assumes "0 \<le> a" "a < 256"
  shows "drop_bit 2 (a AND 0xFC) = a div 4" "push_bit 4 (a AND 0x03) = a mod 4 * 16"
    "drop_bit 4 (a AND 0xF0) = a div 16" "push_bit 2 (a AND 0x0F) = a mod 16 * 4"
    "drop_bit 6 (a AND 0xC0) = a div 64" "a AND 0x3F = a mod 64"
  using all_upto [OF byte_bits_upto, of a] assms by simp_all

lemma encode_base64_sextets:
  assumes "0 \<le> a" "a < 256" "0 \<le> b" "b < 256" "0 \<le> c" "c < 256"
  shows "guac_socket_encode_base64 a b c = map base64_char (sextets a b c)"
    and "guac_socket_encode_base64 a b (-1) = map base64_char (take 3 (sextets a b 0)) @ [base64_pad]"
    and "guac_socket_encode_base64 a (-1) (-1) = map base64_char (take 2 (sextets a 0 0)) @ [base64_pad, base64_pad]"
proof -
  note bits = byte_bits [OF assms(1,2)] byte_bits [OF assms(3,4)] byte_bits [OF assms(5,6)]
  have "a mod 4 * 16 OR b div 16 = a mod 4 * 16 + b div 16" "b mod 16 * 4 OR c div 64 = b mod 16 * 4 + c div 64"
    using push_or_add_power [of "b div 16" 4 "a mod 4"] push_or_add_power [of "c div 64" 2 "b mod 16"] assms
    by (simp_all add: push_bit_eq_mult mult.commute)
  then show "guac_socket_encode_base64 a b c = map base64_char (sextets a b c)"
    using assms(3,5) by (simp only: guac_socket_encode_base64_def bits sextets_def) simp
  show "guac_socket_encode_base64 a b (-1) = map base64_char (take 3 (sextets a b 0)) @ [base64_pad]"
    using assms(3) \<open>a mod 4 * 16 OR b div 16 = a mod 4 * 16 + b div 16\<close>
    by (simp only: guac_socket_encode_base64_def bits sextets_def) simp
  show "guac_socket_encode_base64 a (-1) (-1) = map base64_char (take 2 (sextets a 0 0)) @ [base64_pad, base64_pad]"
    by (simp only: guac_socket_encode_base64_def bits sextets_def) simp
qed

section \<open>Decoding\<close>

text \<open>The bytes the loop stores, as a function of the characters it reads.\<close>

definition shift_in :: "int \<Rightarrow> int \<Rightarrow> int" where
  "shift_in val s = wrap32 (push_bit 6 val) OR s"

fun decode_bytes :: "int \<Rightarrow> int \<Rightarrow> u8 list \<Rightarrow> u8 list" where
  "decode_bytes bits_read val [] = []"
| "decode_bytes bits_read val (c # cs) =
     (if c = 0 \<or> c = of_char (CHR ''='') then []
      else
        let val' = shift_in val (guac_base64_value c); bits' = bits_read + 6
        in if bits' \<ge> 8
           then word_of_int (drop_bit (nat (bits' mod 8)) val' AND 0xFF) # decode_bytes (bits' - 8) val' cs
           else decode_bytes bits' val' cs)"

lemma overwrite_Cons: "i < length buf \<Longrightarrow> overwrite buf i (x # xs) = overwrite (buf[i := x]) (Suc i) xs"
  by (simp add: overwrite_def upd_conv_take_nth_drop add.commute)

lemma overwrite_Nil [simp]: "overwrite buf i [] = buf"
  by (simp add: overwrite_def)

lemma decode_base64_loop_eq:
  assumes "out \<le> i" "0 \<in> set (drop i buf)"
  shows "decode_base64_loop buf i out bits_read val =
           Inr (out + length (decode_bytes bits_read val (drop i buf)),
                overwrite buf out (decode_bytes bits_read val (drop i buf)))"
  using assms
proof (induction buf i out bits_read val rule: decode_base64_loop.induct)
  case (1 buf i out bits_read val)
  have i: "i < length buf" using "1.prems"(2) by (metis drop_eq_Nil list.set(1) empty_iff not_le)
  then have d: "drop i buf = buf ! i # drop (Suc i) buf" by (simp add: Cons_nth_drop_Suc)
  define val' where "val' = shift_in val (guac_base64_value (buf ! i))"
  define x :: u8 where "x = word_of_int (drop_bit (nat ((bits_read + 6) mod 8)) val' AND 0xFF)"
  show ?case
  proof (cases "buf ! i = 0 \<or> buf ! i = of_char (CHR ''='')")
    case True
    then show ?thesis using i d by (auto simp: decode_base64_loop.simps [of buf i])
  next
    case False
    have rest: "0 \<in> set (drop (Suc i) buf)" using "1.prems"(2) False d by auto
    show ?thesis
    proof (cases "bits_read + 6 \<ge> 8")
      case True
      have same: "drop (Suc i) (buf[out := x]) = drop (Suc i) buf" using "1.prems"(1) by simp
      have "decode_base64_loop buf i out bits_read val =
          decode_base64_loop (buf[out := x]) (i + 1) (out + 1) (bits_read + 6 - 8) val'"
        using i False True by (simp add: decode_base64_loop.simps [of buf i] Let_def x_def val'_def shift_in_def)
      also have "\<dots> = Inr (out + 1 + length (decode_bytes (bits_read + 6 - 8) val' (drop (Suc i) buf)),
          overwrite (buf[out := x]) (Suc out) (decode_bytes (bits_read + 6 - 8) val' (drop (Suc i) buf)))"
        using "1.IH"(1) [OF i refl False] True "1.prems"(1) rest same
        by (simp add: x_def val'_def shift_in_def)
      also have "\<dots> = Inr (out + length (x # decode_bytes (bits_read + 6 - 8) val' (drop (Suc i) buf)),
          overwrite buf out (x # decode_bytes (bits_read + 6 - 8) val' (drop (Suc i) buf)))"
        using i "1.prems"(1) by (simp add: overwrite_Cons)
      finally show ?thesis using False True unfolding d by (simp add: Let_def x_def val'_def)
    next
      case short: False
      have "decode_base64_loop buf i out bits_read val =
          decode_base64_loop buf (i + 1) out (bits_read + 6) val'"
        using i False short by (simp add: decode_base64_loop.simps [of buf i] Let_def val'_def shift_in_def)
      also have "\<dots> = Inr (out + length (decode_bytes (bits_read + 6) val' (drop (Suc i) buf)),
          overwrite buf out (decode_bytes (bits_read + 6) val' (drop (Suc i) buf)))"
        using "1.IH"(2) [OF i refl False] short "1.prems"(1) rest
        by (simp add: val'_def shift_in_def)
      finally show ?thesis using False short unfolding d by (simp add: Let_def val'_def)
    qed
  qed
qed

text \<open>Only the last twelve bits of the accumulator matter.\<close>

lemma wrap32_mod: "wrap32 x mod 4096 = x mod 4096"
proof -
  have "wrap32 x = x + 4096 * (- ((x + 2147483648) div 4294967296 * 1048576))"
    by (simp add: wrap32_def minus_mult_div_eq_mod [symmetric] algebra_simps)
  then show ?thesis by (simp only: mod_mult_self2)
qed

lemma shift_in_mod:
  assumes "0 \<le> s" "s < 64"
  shows "shift_in val s mod 4096 = 64 * (val mod 64) + s"
proof -
  have "wrap32 (push_bit 6 val) = push_bit 6 (wrap32 (push_bit 6 val) div 64)"
  proof -
    have "wrap32 (push_bit 6 val) = 64 * (val - ((64 * val + 2147483648) div 4294967296) * 67108864)"
      by (simp add: wrap32_def push_bit_eq_mult minus_mult_div_eq_mod [symmetric] algebra_simps)
    then show ?thesis by (simp add: push_bit_eq_mult)
  qed
  then have "shift_in val s = wrap32 (64 * val) + s"
    using push_or_add [OF assms, of "wrap32 (push_bit 6 val) div 64"]
    by (simp add: shift_in_def push_bit_eq_mult mult.commute)
  then have "shift_in val s mod 4096 = (64 * val + s) mod 4096"
    using wrap32_mod [of "64 * val"] by (metis mod_add_left_eq)
  also have "64 * val + s = 64 * (val mod 64) + s + 4096 * (val div 64)"
    by (simp add: minus_mult_div_eq_mod [symmetric] algebra_simps)
  also have "\<dots> mod 4096 = 64 * (val mod 64) + s"
    using assms by (simp only: mod_mult_self2) (rule mod_pos_pos_trivial, auto)
  finally show ?thesis .
qed

lemma shift_in_low: "0 \<le> s \<Longrightarrow> s < 64 \<Longrightarrow> shift_in val s mod 64 = s"
proof -
  assume s: "0 \<le> s" "s < 64"
  have "shift_in val s mod 64 = shift_in val s mod 4096 mod 64" by (simp add: mod_mod_cancel)
  also have "\<dots> = s" using s by (simp add: shift_in_mod)
  finally show ?thesis .
qed

lemma div_mod_swap:
  fixes x m :: int
  assumes "0 < m"
  shows "x div m mod 256 = x mod (m * 256) div m"
  using assms zmod_zmult2_eq [of 256 x m] by simp

lemma shift_out:
  fixes x :: int
  assumes "k \<le> 4"
  shows "drop_bit k x AND 0xFF = x mod 4096 div 2 ^ k mod 256"
proof -
  have "take_bit 8 (drop_bit k x) = drop_bit k x AND 0xFF"
    by (simp only: take_bit_eq_mask) (simp add: mask_eq_exp_minus_1)
  then have "drop_bit k x AND 0xFF = x div 2 ^ k mod 256"
    by (simp add: take_bit_eq_mod drop_bit_eq_div)
  also have "\<dots> = x mod (2 ^ k * 256) div 2 ^ k"
    by (rule div_mod_swap) simp
  also have "x mod (2 ^ k * 256) = x mod 4096 mod (2 ^ k * 256)"
  proof -
    have "(4096 :: int) = 2 ^ k * 256 * 2 ^ (4 - k)"
      using assms by (simp flip: power_add)
    then have "2 ^ k * 256 dvd (4096 :: int)" by (metis dvd_triv_left)
    then show ?thesis by (simp only: mod_mod_cancel)
  qed
  also have "\<dots> div 2 ^ k = x mod 4096 div 2 ^ k mod 256"
    by (rule div_mod_swap [symmetric]) simp
  finally show ?thesis .
qed

definition out_byte :: "nat \<Rightarrow> int \<Rightarrow> int \<Rightarrow> u8" where
  "out_byte k s t = word_of_int ((64 * s + t) div 2 ^ k mod 256)"

lemma shift_out_byte:
  assumes "0 \<le> s" "s < 64" "0 \<le> t" "t < 64" "k \<le> 4" "val mod 64 = s"
  shows "word_of_int (drop_bit k (shift_in val t) AND 0xFF) = out_byte k s t"
  using shift_out [OF assms(5), of "shift_in val t"] shift_in_mod [OF assms(3,4), of val] assms(6)
  by (simp add: out_byte_def)

lemma decode_step:
  assumes "0 \<le> s" "s < 64"
  shows "decode_bytes bits_read val (base64_char s # cs) =
     (if bits_read + 6 \<ge> 8
      then word_of_int (drop_bit (nat ((bits_read + 6) mod 8)) (shift_in val s) AND 0xFF) #
        decode_bytes (bits_read + 6 - 8) (shift_in val s) cs
      else decode_bytes (bits_read + 6) (shift_in val s) cs)"
  using base64_char [OF assms] by (simp add: Let_def)

lemma decode_group:
  assumes "0 \<le> s0" "s0 < 64" "0 \<le> s1" "s1 < 64" "0 \<le> s2" "s2 < 64" "0 \<le> s3" "s3 < 64"
  shows "\<exists>val'. decode_bytes 0 val (map base64_char [s0, s1, s2, s3] @ rest) =
           [out_byte 4 s0 s1, out_byte 2 s1 s2, out_byte 0 s2 s3] @ decode_bytes 0 val' rest"
    and "stop = 0 \<or> stop = of_char (CHR ''='') \<Longrightarrow>
           decode_bytes 0 val (map base64_char [s0, s1, s2] @ stop # rest) = [out_byte 4 s0 s1, out_byte 2 s1 s2]"
    and "stop = 0 \<or> stop = of_char (CHR ''='') \<Longrightarrow>
           decode_bytes 0 val (map base64_char [s0, s1] @ stop # rest) = [out_byte 4 s0 s1]"
proof -
  define v0 v1 v2 where "v0 = shift_in val s0" and "v1 = shift_in v0 s1" and "v2 = shift_in v1 s2"
  have low: "v0 mod 64 = s0" "v1 mod 64 = s1" "v2 mod 64 = s2"
    using assms by (simp_all add: v0_def v1_def v2_def shift_in_low)
  have b: "word_of_int (drop_bit 4 (shift_in v0 s1) AND 0xFF) = out_byte 4 s0 s1"
    "word_of_int (drop_bit 2 (shift_in v1 s2) AND 0xFF) = out_byte 2 s1 s2"
    "word_of_int (drop_bit 0 (shift_in v2 s3) AND 0xFF) = out_byte 0 s2 s3"
    using assms low by (intro shift_out_byte; simp)+
  show "\<exists>val'. decode_bytes 0 val (map base64_char [s0, s1, s2, s3] @ rest) =
      [out_byte 4 s0 s1, out_byte 2 s1 s2, out_byte 0 s2 s3] @ decode_bytes 0 val' rest"
    using b by (intro exI [of _ "shift_in v2 s3"])
      (simp add: decode_step assms del: decode_bytes.simps flip: v0_def v1_def v2_def)
  show "decode_bytes 0 val (map base64_char [s0, s1, s2] @ stop # rest) = [out_byte 4 s0 s1, out_byte 2 s1 s2]"
    if "stop = 0 \<or> stop = of_char (CHR ''='')"
  proof -
    have "decode_bytes k v (stop # rest) = []" for k v using that by simp
    then show ?thesis using b by (simp add: decode_step assms del: decode_bytes.simps flip: v0_def v1_def v2_def)
  qed
  show "decode_bytes 0 val (map base64_char [s0, s1] @ stop # rest) = [out_byte 4 s0 s1]"
    if "stop = 0 \<or> stop = of_char (CHR ''='')"
  proof -
    have "decode_bytes k v (stop # rest) = []" for k v using that by simp
    then show ?thesis using b by (simp add: decode_step assms del: decode_bytes.simps flip: v0_def v1_def v2_def)
  qed
qed

lemma sextet_bounds:
  fixes a b c :: int
  assumes "0 \<le> a" "a < 256" "0 \<le> b" "b < 256" "0 \<le> c" "c < 256"
  shows "0 \<le> a div 4" "a div 4 < 64" "0 \<le> a mod 4 * 16 + b div 16" "a mod 4 * 16 + b div 16 < 64"
    "0 \<le> b mod 16 * 4 + c div 64" "b mod 16 * 4 + c div 64 < 64" "0 \<le> c mod 64" "c mod 64 < 64"
proof -
  have "0 \<le> b div 16" "b div 16 < 16" "0 \<le> c div 64" "c div 64 < 4" using assms by auto
  moreover have "0 \<le> a mod 4" "a mod 4 < 4" "0 \<le> b mod 16" "b mod 16 < 16" by simp_all
  ultimately show "0 \<le> a mod 4 * 16 + b div 16" "a mod 4 * 16 + b div 16 < 64"
    "0 \<le> b mod 16 * 4 + c div 64" "b mod 16 * 4 + c div 64 < 64" by linarith+
qed (use assms in auto)

lemma out_bytes:
  assumes "0 \<le> a" "a < 256" "0 \<le> b" "b < 256" "0 \<le> c" "c < 256"
  shows "out_byte 4 (a div 4) (a mod 4 * 16 + b div 16) = word_of_int a"
    and "out_byte 2 (a mod 4 * 16 + b div 16) (b mod 16 * 4 + c div 64) = word_of_int b"
    and "out_byte 0 (b mod 16 * 4 + c div 64) (c mod 64) = word_of_int c"
proof -
  have hi: "0 \<le> b div 16" "b div 16 < 16" "0 \<le> c div 64" "c div 64 < 4" using assms by auto
  have pow: "(2 :: int) ^ 4 = 16" "(2 :: int) ^ 2 = 4" "x div (2 :: int) ^ 0 = x" for x :: int by simp_all
  have parts: "a = 4 * (a div 4) + a mod 4" "b = 16 * (b div 16) + b mod 16" "c = 64 * (c div 64) + c mod 64"
    by simp_all
  have "64 * (a div 4) + (a mod 4 * 16 + b div 16) = 16 * a + b div 16" using parts(1) by linarith
  moreover have "(16 * a + b div 16) div 16 mod 256 = a" using hi assms by simp
  ultimately have "(64 * (a div 4) + (a mod 4 * 16 + b div 16)) div 16 mod 256 = a" by (simp only:)
  then show "out_byte 4 (a div 4) (a mod 4 * 16 + b div 16) = word_of_int a" by (simp only: out_byte_def pow)
  have "64 * (a mod 4 * 16 + b div 16) + (b mod 16 * 4 + c div 64) = 4 * (256 * (a mod 4) + b) + c div 64"
  proof -
    have "16 * q + r = b' \<Longrightarrow> 64 * (x * 16 + q) + (r * 4 + y) = 4 * (256 * x + b') + y" for q r b' x y :: int
      by (simp add: algebra_simps)
    then show ?thesis using parts(2) [symmetric] by blast
  qed
  moreover have "(4 * (256 * (a mod 4) + b) + c div 64) div 4 = 256 * (a mod 4) + b" using hi by simp
  ultimately have "(64 * (a mod 4 * 16 + b div 16) + (b mod 16 * 4 + c div 64)) div 4 = 256 * (a mod 4) + b"
    by (simp only:)
  moreover have "(256 * (a mod 4) + b) mod 256 = b" using assms by simp
  ultimately have "(64 * (a mod 4 * 16 + b div 16) + (b mod 16 * 4 + c div 64)) div 4 mod 256 = b"
    by (simp only:)
  then show "out_byte 2 (a mod 4 * 16 + b div 16) (b mod 16 * 4 + c div 64) = word_of_int b"
    by (simp only: out_byte_def pow)
  have "64 * (b mod 16 * 4 + c div 64) + c mod 64 = 256 * (b mod 16) + c"
  proof -
    have "64 * q + r = c' \<Longrightarrow> 64 * (x * 4 + q) + r = 256 * x + c'" for q r c' x :: int
      by (simp add: algebra_simps)
    then show ?thesis using parts(3) [symmetric] by blast
  qed
  moreover have "(256 * (b mod 16) + c) mod 256 = c" using assms by simp
  ultimately have "(64 * (b mod 16 * 4 + c div 64) + c mod 64) mod 256 = c" by (simp only:)
  then show "out_byte 0 (b mod 16 * 4 + c div 64) (c mod 64) = word_of_int c" by (simp only: out_byte_def pow)
qed

lemma uint_byte: "0 \<le> uint (b :: u8)" "uint b < 256"
  using unsigned_less [of b, where 'a = int] by simp_all

lemma decode_encode:
  "decode_bytes 0 val (encode_ready data @ 0 # rest) = data"
proof (induction data arbitrary: val rule: encode_ready.induct)
  case (1 a b c src)
  note r = uint_byte [of a] uint_byte [of b] uint_byte [of c]
  from decode_group(1) [OF sextet_bounds [OF r], of val "encode_ready src @ 0 # rest"]
  obtain val' where "decode_bytes 0 val (guac_socket_encode_base64 (uint a) (uint b) (uint c) @ encode_ready src @ 0 # rest) =
      [a, b, c] @ decode_bytes 0 val' (encode_ready src @ 0 # rest)"
    unfolding encode_base64_sextets(1) [OF r] sextets_def out_bytes [OF r] by auto
  then show ?case using 1 by simp
next
  case (2 a b)
  have zero: "0 \<le> (0 :: int)" "(0 :: int) < 256" by simp_all
  note r = uint_byte [of a] uint_byte [of b] zero
  show ?case
    using decode_group(2) [OF sextet_bounds [OF r], of base64_pad val "0 # rest"] out_bytes [OF r]
    by (simp add: encode_base64_sextets [OF r] sextets_def base64_pad_def del: decode_bytes.simps)
next
  case (3 a)
  have zero: "0 \<le> (0 :: int)" "(0 :: int) < 256" by simp_all
  note r = uint_byte [of a] zero zero
  show ?case
    using decode_group(3) [OF sextet_bounds [OF r], of base64_pad val "base64_pad # 0 # rest"] out_bytes [OF r]
    by (simp add: encode_base64_sextets [OF r] sextets_def base64_pad_def del: decode_bytes.simps)
next
  case 4
  show ?case by simp
qed

text \<open>The encoded text is plain ASCII without NUL.\<close>

lemma encode_ready_ascii: "b \<in> set (encode_ready data) \<Longrightarrow> unat b < 128 \<and> b \<noteq> 0"
proof (induction data rule: encode_ready.induct)
  case (1 x y z src)
  note r = uint_byte [of x] uint_byte [of y] uint_byte [of z]
  show ?case
    using 1 base64_char [OF sextet_bounds(1,2) [OF r]] base64_char [OF sextet_bounds(3,4) [OF r]]
      base64_char [OF sextet_bounds(5,6) [OF r]] base64_char [OF sextet_bounds(7,8) [OF r]]
    by (auto simp: encode_base64_sextets [OF r] sextets_def)
next
  case (2 x y)
  have zero: "0 \<le> (0 :: int)" "(0 :: int) < 256" by simp_all
  note r = uint_byte [of x] uint_byte [of y] zero
  show ?case
    using 2 base64_char [OF sextet_bounds(1,2) [OF r]] base64_char [OF sextet_bounds(3,4) [OF r]]
      base64_char [OF sextet_bounds(5,6) [OF r]]
    by (auto simp: encode_base64_sextets [OF r] sextets_def base64_pad_def)
next
  case (3 x)
  have zero: "0 \<le> (0 :: int)" "(0 :: int) < 256" by simp_all
  note r = uint_byte [of x] zero zero
  show ?case
    using 3 base64_char [OF sextet_bounds(1,2) [OF r]] base64_char [OF sextet_bounds(3,4) [OF r]]
    by (auto simp: encode_base64_sextets [OF r] sextets_def base64_pad_def)
qed simp

section \<open>Properties\<close>

text \<open>
  C22. Decoding inverts encoding: given the terminated base64 text of any data, the decoder stores
  exactly that data at the start of the buffer, returns its length, and leaves the rest of the
  buffer alone.
\<close>

theorem base64_roundtrip:
  "guac_protocol_decode_base64 (encode_ready data @ 0 # rest) =
     Inr (length data, overwrite (encode_ready data @ 0 # rest) 0 data)"
  using decode_base64_loop_eq [of 0 0 "encode_ready data @ 0 # rest" 0 0] decode_encode [of 0 data rest]
  by (simp add: guac_protocol_decode_base64_def)

end
