(* ===== verification/Protocol.thy ===== *)
theory Protocol
  imports Base64
begin

text \<open>
  The instructions of the Guacamole protocol as they are sent (\<open>src/src/libguac/protocol.c\<close>), base64
  decoding, and the table of protocol versions.

  A layer, stream or object argument stands for its index, the only field that is read; arguments
  of an enumeration type stand for their value. Text is the list of its bytes before the
  terminator. \<open>printf_g\<close> is the conversion \<open>%.16g\<close> of the C library, which the senders of
  floating-point arguments take as an argument.
\<close>

unbundle bit_operations_syntax

named_theorems chain_writes \<open>bytes written by the steps of an instruction\<close>
named_theorems sends \<open>instruction sent by each sender\<close>
named_theorems encodings \<open>evaluation of encoded elements\<close>

section \<open>Definitions\<close>

subsection \<open>Elements\<close>

text \<open>\<open>a || b || ...\<close> on calls that return zero on success.\<close>

fun or_chain :: "socket_op list \<Rightarrow> socket_op" where
  "or_chain [] socket = (0, socket)"
| "or_chain (f # fs) socket =
     (case f socket of (r, socket') \<Rightarrow> if r \<noteq> 0 then (1, socket') else or_chain fs socket')"

abbreviation comma :: socket_op where
  "comma \<equiv> guac_socket_write_string (bytes_of '','')"

abbreviation semicolon :: socket_op where
  "semicolon \<equiv> guac_socket_write_string (bytes_of '';'')"

definition decimal_bytes :: "int \<Rightarrow> u8 list" where
  "decimal_bytes i = bytes_of (printf_i i)"

definition guac_socket_write_length_string :: "u8 list \<Rightarrow> socket_op" where
  "guac_socket_write_length_string str =
     or_chain [guac_socket_write_int (sint (guac_utf8_strlen str)),
               guac_socket_write_string (bytes_of ''.''),
               guac_socket_write_string str]"

definition guac_socket_write_length_int :: "int \<Rightarrow> socket_op" where
  "guac_socket_write_length_int i = guac_socket_write_length_string (decimal_bytes i)"

definition guac_socket_write_length_double :: "('d \<Rightarrow> u8 list) \<Rightarrow> 'd \<Rightarrow> socket_op" where
  "guac_socket_write_length_double printf_g d = guac_socket_write_length_string (printf_g d)"

fun guac_socket_write_array :: "u8 list list \<Rightarrow> socket_op" where
  "guac_socket_write_array [] socket = (0, socket)"
| "guac_socket_write_array (s # array) socket =
     (case comma socket of
        (r, socket1) \<Rightarrow>
          if r \<noteq> 0 then (-1, socket1)
          else
            (case guac_socket_write_length_string s socket1 of
               (r, socket2) \<Rightarrow> if r \<noteq> 0 then (-1, socket2) else guac_socket_write_array array socket2))"

text \<open>The bracketing of an instruction that every sender uses.\<close>

definition bracketed :: "socket_op \<Rightarrow> socket_op" where
  "bracketed op socket =
     (case op (guac_socket_instruction_begin socket) of
        (ret_val, socket') \<Rightarrow> (ret_val, guac_socket_instruction_end socket'))"

definition send_instruction :: "socket_op list \<Rightarrow> socket_op" where
  "send_instruction ops = bracketed (or_chain ops)"

subsection \<open>Instructions\<close>

definition guac_protocol_send_ack :: "int \<Rightarrow> u8 list \<Rightarrow> int \<Rightarrow> socket_op" where
  "guac_protocol_send_ack stream error_text status = send_instruction
     [guac_socket_write_string (bytes_of ''3.ack,''), guac_socket_write_length_int stream, comma,
      guac_socket_write_length_string error_text, comma, guac_socket_write_length_int status,
      semicolon]"

definition guac_protocol_send_argv :: "int \<Rightarrow> u8 list \<Rightarrow> u8 list \<Rightarrow> socket_op" where
  "guac_protocol_send_argv stream mimetype name = send_instruction
     [guac_socket_write_string (bytes_of ''4.argv,''), guac_socket_write_length_int stream, comma,
      guac_socket_write_length_string mimetype, comma, guac_socket_write_length_string name,
      semicolon]"

definition guac_protocol_send_arc :: "('d \<Rightarrow> u8 list) \<Rightarrow> int \<Rightarrow> int \<Rightarrow> int \<Rightarrow> int \<Rightarrow> 'd \<Rightarrow> 'd \<Rightarrow> int \<Rightarrow> socket_op" where
  "guac_protocol_send_arc printf_g layer x y radius startAngle endAngle negative = send_instruction
     [guac_socket_write_string (bytes_of ''3.arc,''), guac_socket_write_length_int layer, comma,
      guac_socket_write_length_int x, comma, guac_socket_write_length_int y, comma,
      guac_socket_write_length_int radius, comma,
      guac_socket_write_length_double printf_g startAngle, comma,
      guac_socket_write_length_double printf_g endAngle, comma,
      guac_socket_write_string (bytes_of (if negative \<noteq> 0 then ''1.1'' else ''1.0'')),
      semicolon]"

definition guac_protocol_send_audio :: "int \<Rightarrow> u8 list \<Rightarrow> socket_op" where
  "guac_protocol_send_audio stream mimetype = send_instruction
     [guac_socket_write_string (bytes_of ''5.audio,''), guac_socket_write_length_int stream,
      comma, guac_socket_write_length_string mimetype, semicolon]"

definition guac_protocol_send_body :: "int \<Rightarrow> int \<Rightarrow> u8 list \<Rightarrow> u8 list \<Rightarrow> socket_op" where
  "guac_protocol_send_body object stream mimetype name = send_instruction
     [guac_socket_write_string (bytes_of ''4.body,''), guac_socket_write_length_int object, comma,
      guac_socket_write_length_int stream, comma, guac_socket_write_length_string mimetype, comma,
      guac_socket_write_length_string name, semicolon]"

definition guac_protocol_send_cfill :: "int \<Rightarrow> int \<Rightarrow> int \<Rightarrow> int \<Rightarrow> int \<Rightarrow> int \<Rightarrow> socket_op" where
  "guac_protocol_send_cfill mode layer r g b a = send_instruction
     [guac_socket_write_string (bytes_of ''5.cfill,''), guac_socket_write_length_int mode, comma,
      guac_socket_write_length_int layer, comma, guac_socket_write_length_int r, comma,
      guac_socket_write_length_int g, comma, guac_socket_write_length_int b, comma,
      guac_socket_write_length_int a, semicolon]"

definition guac_protocol_send_close :: "int \<Rightarrow> socket_op" where
  "guac_protocol_send_close layer = send_instruction
     [guac_socket_write_string (bytes_of ''5.close,''), guac_socket_write_length_int layer,
      semicolon]"

definition guac_protocol_send_clip :: "int \<Rightarrow> socket_op" where
  "guac_protocol_send_clip layer = send_instruction
     [guac_socket_write_string (bytes_of ''4.clip,''), guac_socket_write_length_int layer,
      semicolon]"

definition guac_protocol_send_clipboard :: "int \<Rightarrow> u8 list \<Rightarrow> socket_op" where
  "guac_protocol_send_clipboard stream mimetype = send_instruction
     [guac_socket_write_string (bytes_of ''9.clipboard,''), guac_socket_write_length_int stream,
      comma, guac_socket_write_length_string mimetype, semicolon]"

definition guac_protocol_send_copy :: "int \<Rightarrow> int \<Rightarrow> int \<Rightarrow> int \<Rightarrow> int \<Rightarrow> int \<Rightarrow> int \<Rightarrow> int \<Rightarrow> int \<Rightarrow> socket_op" where
  "guac_protocol_send_copy srcl srcx srcy w h mode dstl dstx dsty = send_instruction
     [guac_socket_write_string (bytes_of ''4.copy,''), guac_socket_write_length_int srcl, comma,
      guac_socket_write_length_int srcx, comma, guac_socket_write_length_int srcy, comma,
      guac_socket_write_length_int w, comma, guac_socket_write_length_int h, comma,
      guac_socket_write_length_int mode, comma, guac_socket_write_length_int dstl, comma,
      guac_socket_write_length_int dstx, comma, guac_socket_write_length_int dsty, semicolon]"

definition guac_protocol_send_cstroke :: "int \<Rightarrow> int \<Rightarrow> int \<Rightarrow> int \<Rightarrow> int \<Rightarrow> int \<Rightarrow> int \<Rightarrow> int \<Rightarrow> int \<Rightarrow> socket_op" where
  "guac_protocol_send_cstroke mode layer cap join thickness r g b a = send_instruction
     [guac_socket_write_string (bytes_of ''7.cstroke,''), guac_socket_write_length_int mode,
      comma, guac_socket_write_length_int layer, comma, guac_socket_write_length_int cap, comma,
      guac_socket_write_length_int join, comma, guac_socket_write_length_int thickness, comma,
      guac_socket_write_length_int r, comma, guac_socket_write_length_int g, comma,
      guac_socket_write_length_int b, comma, guac_socket_write_length_int a, semicolon]"

definition guac_protocol_send_cursor :: "int \<Rightarrow> int \<Rightarrow> int \<Rightarrow> int \<Rightarrow> int \<Rightarrow> int \<Rightarrow> int \<Rightarrow> socket_op" where
  "guac_protocol_send_cursor x y srcl srcx srcy w h = send_instruction
     [guac_socket_write_string (bytes_of ''6.cursor,''), guac_socket_write_length_int x, comma,
      guac_socket_write_length_int y, comma, guac_socket_write_length_int srcl, comma,
      guac_socket_write_length_int srcx, comma, guac_socket_write_length_int srcy, comma,
      guac_socket_write_length_int w, comma, guac_socket_write_length_int h, semicolon]"

definition guac_protocol_send_curve :: "int \<Rightarrow> int \<Rightarrow> int \<Rightarrow> int \<Rightarrow> int \<Rightarrow> int \<Rightarrow> int \<Rightarrow> socket_op" where
  "guac_protocol_send_curve layer cp1x cp1y cp2x cp2y x y = send_instruction
     [guac_socket_write_string (bytes_of ''5.curve,''), guac_socket_write_length_int layer, comma,
      guac_socket_write_length_int cp1x, comma, guac_socket_write_length_int cp1y, comma,
      guac_socket_write_length_int cp2x, comma, guac_socket_write_length_int cp2y, comma,
      guac_socket_write_length_int x, comma, guac_socket_write_length_int y, semicolon]"

definition guac_protocol_send_disconnect :: "socket_op" where
  "guac_protocol_send_disconnect = send_instruction
     [guac_socket_write_string (bytes_of ''10.disconnect;'')]"

definition guac_protocol_send_dispose :: "int \<Rightarrow> socket_op" where
  "guac_protocol_send_dispose layer = send_instruction
     [guac_socket_write_string (bytes_of ''7.dispose,''), guac_socket_write_length_int layer,
      semicolon]"

definition guac_protocol_send_distort :: "('d \<Rightarrow> u8 list) \<Rightarrow> int \<Rightarrow> 'd \<Rightarrow> 'd \<Rightarrow> 'd \<Rightarrow> 'd \<Rightarrow> 'd \<Rightarrow> 'd \<Rightarrow> socket_op" where
  "guac_protocol_send_distort printf_g layer a b c d e f = send_instruction
     [guac_socket_write_string (bytes_of ''7.distort,''), guac_socket_write_length_int layer,
      comma, guac_socket_write_length_double printf_g a, comma,
      guac_socket_write_length_double printf_g b, comma,
      guac_socket_write_length_double printf_g c, comma,
      guac_socket_write_length_double printf_g d, comma,
      guac_socket_write_length_double printf_g e, comma,
      guac_socket_write_length_double printf_g f, semicolon]"

definition guac_protocol_send_end :: "int \<Rightarrow> socket_op" where
  "guac_protocol_send_end stream = send_instruction
     [guac_socket_write_string (bytes_of ''3.end,''), guac_socket_write_length_int stream,
      semicolon]"

definition guac_protocol_send_error :: "u8 list \<Rightarrow> int \<Rightarrow> socket_op" where
  "guac_protocol_send_error error_text status = send_instruction
     [guac_socket_write_string (bytes_of ''5.error,''),
      guac_socket_write_length_string error_text, comma, guac_socket_write_length_int status,
      semicolon]"

definition guac_protocol_send_msg :: "int \<Rightarrow> u8 list list \<Rightarrow> socket_op" where
  "guac_protocol_send_msg msg args = send_instruction
     [guac_socket_write_string (bytes_of ''3.msg,''), guac_socket_write_length_int msg,
      guac_socket_write_array args, semicolon]"

definition guac_protocol_send_file :: "int \<Rightarrow> u8 list \<Rightarrow> u8 list \<Rightarrow> socket_op" where
  "guac_protocol_send_file stream mimetype name = send_instruction
     [guac_socket_write_string (bytes_of ''4.file,''), guac_socket_write_length_int stream, comma,
      guac_socket_write_length_string mimetype, comma, guac_socket_write_length_string name,
      semicolon]"

definition guac_protocol_send_filesystem :: "int \<Rightarrow> u8 list \<Rightarrow> socket_op" where
  "guac_protocol_send_filesystem object name = send_instruction
     [guac_socket_write_string (bytes_of ''10.filesystem,''), guac_socket_write_length_int object,
      comma, guac_socket_write_length_string name, semicolon]"

definition guac_protocol_send_identity :: "int \<Rightarrow> socket_op" where
  "guac_protocol_send_identity layer = send_instruction
     [guac_socket_write_string (bytes_of ''8.identity,''), guac_socket_write_length_int layer,
      semicolon]"

definition guac_protocol_send_key :: "int \<Rightarrow> int \<Rightarrow> int \<Rightarrow> socket_op" where
  "guac_protocol_send_key keysym pressed timestamp = send_instruction
     [guac_socket_write_string (bytes_of ''3.key,''), guac_socket_write_length_int keysym,
      guac_socket_write_string (bytes_of (if pressed \<noteq> 0 then '',1.1,'' else '',1.0,'')),
      guac_socket_write_length_int timestamp, semicolon]"

definition guac_protocol_send_lfill :: "int \<Rightarrow> int \<Rightarrow> int \<Rightarrow> socket_op" where
  "guac_protocol_send_lfill mode layer srcl = send_instruction
     [guac_socket_write_string (bytes_of ''5.lfill,''), guac_socket_write_length_int mode, comma,
      guac_socket_write_length_int layer, comma, guac_socket_write_length_int srcl, semicolon]"

definition guac_protocol_send_line :: "int \<Rightarrow> int \<Rightarrow> int \<Rightarrow> socket_op" where
  "guac_protocol_send_line layer x y = send_instruction
     [guac_socket_write_string (bytes_of ''4.line,''), guac_socket_write_length_int layer, comma,
      guac_socket_write_length_int x, comma, guac_socket_write_length_int y, semicolon]"

definition guac_protocol_send_lstroke :: "int \<Rightarrow> int \<Rightarrow> int \<Rightarrow> int \<Rightarrow> int \<Rightarrow> int \<Rightarrow> socket_op" where
  "guac_protocol_send_lstroke mode layer cap join thickness srcl = send_instruction
     [guac_socket_write_string (bytes_of ''7.lstroke,''), guac_socket_write_length_int mode,
      comma, guac_socket_write_length_int layer, comma, guac_socket_write_length_int cap, comma,
      guac_socket_write_length_int join, comma, guac_socket_write_length_int thickness, comma,
      guac_socket_write_length_int srcl, semicolon]"

definition guac_protocol_send_mouse :: "int \<Rightarrow> int \<Rightarrow> int \<Rightarrow> int \<Rightarrow> socket_op" where
  "guac_protocol_send_mouse x y button_mask timestamp = send_instruction
     [guac_socket_write_string (bytes_of ''5.mouse,''), guac_socket_write_length_int x, comma,
      guac_socket_write_length_int y, comma, guac_socket_write_length_int button_mask, comma,
      guac_socket_write_length_int timestamp, semicolon]"

definition guac_protocol_send_touch :: "('d \<Rightarrow> u8 list) \<Rightarrow> int \<Rightarrow> int \<Rightarrow> int \<Rightarrow> int \<Rightarrow> int \<Rightarrow> 'd \<Rightarrow> 'd \<Rightarrow> int \<Rightarrow> socket_op" where
  "guac_protocol_send_touch printf_g ident x y x_radius y_radius angle force timestamp = send_instruction
     [guac_socket_write_string (bytes_of ''5.touch,''), guac_socket_write_length_int ident, comma,
      guac_socket_write_length_int x, comma, guac_socket_write_length_int y, comma,
      guac_socket_write_length_int x_radius, comma, guac_socket_write_length_int y_radius, comma,
      guac_socket_write_length_double printf_g angle, comma,
      guac_socket_write_length_double printf_g force, comma,
      guac_socket_write_length_int timestamp, semicolon]"

definition guac_protocol_send_move :: "int \<Rightarrow> int \<Rightarrow> int \<Rightarrow> int \<Rightarrow> int \<Rightarrow> socket_op" where
  "guac_protocol_send_move layer parent x y z = send_instruction
     [guac_socket_write_string (bytes_of ''4.move,''), guac_socket_write_length_int layer, comma,
      guac_socket_write_length_int parent, comma, guac_socket_write_length_int x, comma,
      guac_socket_write_length_int y, comma, guac_socket_write_length_int z, semicolon]"

definition guac_protocol_send_name :: "u8 list \<Rightarrow> socket_op" where
  "guac_protocol_send_name name = send_instruction
     [guac_socket_write_string (bytes_of ''4.name,''), guac_socket_write_length_string name,
      semicolon]"

definition guac_protocol_send_nest :: "int \<Rightarrow> u8 list \<Rightarrow> socket_op" where
  "guac_protocol_send_nest index data = send_instruction
     [guac_socket_write_string (bytes_of ''4.nest,''), guac_socket_write_length_int index, comma,
      guac_socket_write_length_string data, semicolon]"

definition guac_protocol_send_nop :: "socket_op" where
  "guac_protocol_send_nop = send_instruction
     [guac_socket_write_string (bytes_of ''3.nop;'')]"

definition guac_protocol_send_pipe :: "int \<Rightarrow> u8 list \<Rightarrow> u8 list \<Rightarrow> socket_op" where
  "guac_protocol_send_pipe stream mimetype name = send_instruction
     [guac_socket_write_string (bytes_of ''4.pipe,''), guac_socket_write_length_int stream, comma,
      guac_socket_write_length_string mimetype, comma, guac_socket_write_length_string name,
      semicolon]"

definition guac_protocol_send_img :: "int \<Rightarrow> int \<Rightarrow> int \<Rightarrow> u8 list \<Rightarrow> int \<Rightarrow> int \<Rightarrow> socket_op" where
  "guac_protocol_send_img stream mode layer mimetype x y = send_instruction
     [guac_socket_write_string (bytes_of ''3.img,''), guac_socket_write_length_int stream, comma,
      guac_socket_write_length_int mode, comma, guac_socket_write_length_int layer, comma,
      guac_socket_write_length_string mimetype, comma, guac_socket_write_length_int x, comma,
      guac_socket_write_length_int y, semicolon]"

definition guac_protocol_send_pop :: "int \<Rightarrow> socket_op" where
  "guac_protocol_send_pop layer = send_instruction
     [guac_socket_write_string (bytes_of ''3.pop,''), guac_socket_write_length_int layer,
      semicolon]"

definition guac_protocol_send_push :: "int \<Rightarrow> socket_op" where
  "guac_protocol_send_push layer = send_instruction
     [guac_socket_write_string (bytes_of ''4.push,''), guac_socket_write_length_int layer,
      semicolon]"

definition guac_protocol_send_ready :: "u8 list \<Rightarrow> socket_op" where
  "guac_protocol_send_ready ident = send_instruction
     [guac_socket_write_string (bytes_of ''5.ready,''), guac_socket_write_length_string ident,
      semicolon]"

definition guac_protocol_send_rect :: "int \<Rightarrow> int \<Rightarrow> int \<Rightarrow> int \<Rightarrow> int \<Rightarrow> socket_op" where
  "guac_protocol_send_rect layer x y width height = send_instruction
     [guac_socket_write_string (bytes_of ''4.rect,''), guac_socket_write_length_int layer, comma,
      guac_socket_write_length_int x, comma, guac_socket_write_length_int y, comma,
      guac_socket_write_length_int width, comma, guac_socket_write_length_int height, semicolon]"

definition guac_protocol_send_reset :: "int \<Rightarrow> socket_op" where
  "guac_protocol_send_reset layer = send_instruction
     [guac_socket_write_string (bytes_of ''5.reset,''), guac_socket_write_length_int layer,
      semicolon]"

definition guac_protocol_send_set :: "int \<Rightarrow> u8 list \<Rightarrow> u8 list \<Rightarrow> socket_op" where
  "guac_protocol_send_set layer name val = send_instruction
     [guac_socket_write_string (bytes_of ''3.set,''), guac_socket_write_length_int layer, comma,
      guac_socket_write_length_string name, comma, guac_socket_write_length_string val, semicolon]"

definition guac_protocol_send_set_int :: "int \<Rightarrow> u8 list \<Rightarrow> int \<Rightarrow> socket_op" where
  "guac_protocol_send_set_int layer name val = send_instruction
     [guac_socket_write_string (bytes_of ''3.set,''), guac_socket_write_length_int layer, comma,
      guac_socket_write_length_string name, comma, guac_socket_write_length_int val, semicolon]"

definition guac_protocol_send_select :: "u8 list \<Rightarrow> socket_op" where
  "guac_protocol_send_select protocol = send_instruction
     [guac_socket_write_string (bytes_of ''6.select,''), guac_socket_write_length_string protocol,
      semicolon]"

definition guac_protocol_send_shade :: "int \<Rightarrow> int \<Rightarrow> socket_op" where
  "guac_protocol_send_shade layer a = send_instruction
     [guac_socket_write_string (bytes_of ''5.shade,''), guac_socket_write_length_int layer, comma,
      guac_socket_write_length_int a, semicolon]"

definition guac_protocol_send_size :: "int \<Rightarrow> int \<Rightarrow> int \<Rightarrow> socket_op" where
  "guac_protocol_send_size layer w h = send_instruction
     [guac_socket_write_string (bytes_of ''4.size,''), guac_socket_write_length_int layer, comma,
      guac_socket_write_length_int w, comma, guac_socket_write_length_int h, semicolon]"

definition guac_protocol_send_start :: "int \<Rightarrow> int \<Rightarrow> int \<Rightarrow> socket_op" where
  "guac_protocol_send_start layer x y = send_instruction
     [guac_socket_write_string (bytes_of ''5.start,''), guac_socket_write_length_int layer, comma,
      guac_socket_write_length_int x, comma, guac_socket_write_length_int y, semicolon]"

definition guac_protocol_send_sync :: "int \<Rightarrow> int \<Rightarrow> socket_op" where
  "guac_protocol_send_sync timestamp frames = send_instruction
     [guac_socket_write_string (bytes_of ''4.sync,''), guac_socket_write_length_int timestamp,
      comma, guac_socket_write_length_int frames, semicolon]"

definition guac_protocol_send_transfer :: "int \<Rightarrow> int \<Rightarrow> int \<Rightarrow> int \<Rightarrow> int \<Rightarrow> int \<Rightarrow> int \<Rightarrow> int \<Rightarrow> int \<Rightarrow> socket_op" where
  "guac_protocol_send_transfer srcl srcx srcy w h func dstl dstx dsty = send_instruction
     [guac_socket_write_string (bytes_of ''8.transfer,''), guac_socket_write_length_int srcl,
      comma, guac_socket_write_length_int srcx, comma, guac_socket_write_length_int srcy, comma,
      guac_socket_write_length_int w, comma, guac_socket_write_length_int h, comma,
      guac_socket_write_length_int func, comma, guac_socket_write_length_int dstl, comma,
      guac_socket_write_length_int dstx, comma, guac_socket_write_length_int dsty, semicolon]"

definition guac_protocol_send_transform :: "('d \<Rightarrow> u8 list) \<Rightarrow> int \<Rightarrow> 'd \<Rightarrow> 'd \<Rightarrow> 'd \<Rightarrow> 'd \<Rightarrow> 'd \<Rightarrow> 'd \<Rightarrow> socket_op" where
  "guac_protocol_send_transform printf_g layer a b c d e f = send_instruction
     [guac_socket_write_string (bytes_of ''9.transform,''), guac_socket_write_length_int layer,
      comma, guac_socket_write_length_double printf_g a, comma,
      guac_socket_write_length_double printf_g b, comma,
      guac_socket_write_length_double printf_g c, comma,
      guac_socket_write_length_double printf_g d, comma,
      guac_socket_write_length_double printf_g e, comma,
      guac_socket_write_length_double printf_g f, semicolon]"

definition guac_protocol_send_undefine :: "int \<Rightarrow> socket_op" where
  "guac_protocol_send_undefine object = send_instruction
     [guac_socket_write_string (bytes_of ''8.undefine,''), guac_socket_write_length_int object,
      semicolon]"

definition guac_protocol_send_video :: "int \<Rightarrow> int \<Rightarrow> u8 list \<Rightarrow> socket_op" where
  "guac_protocol_send_video stream layer mimetype = send_instruction
     [guac_socket_write_string (bytes_of ''5.video,''), guac_socket_write_length_int stream,
      comma, guac_socket_write_length_int layer, comma, guac_socket_write_length_string mimetype,
      semicolon]"

definition GUACAMOLE_PROTOCOL_VERSION :: string where
  "GUACAMOLE_PROTOCOL_VERSION = ''VERSION_1_5_0''"

definition protocol_send_args :: "u8 list list \<Rightarrow> socket_op" where
  "protocol_send_args args socket =
     (case guac_socket_write_string (bytes_of ''4.args'') socket of
        (r, socket1) \<Rightarrow>
          if r \<noteq> 0 then (-1, socket1)
          else
            (case or_chain [comma, guac_socket_write_length_string (bytes_of GUACAMOLE_PROTOCOL_VERSION)] socket1 of
               (r, socket2) \<Rightarrow>
                 if r \<noteq> 0 then (-1, socket2)
                 else
                   (case guac_socket_write_array args socket2 of
                      (r, socket3) \<Rightarrow> if r \<noteq> 0 then (-1, socket3) else semicolon socket3)))"

definition guac_protocol_send_args :: "u8 list list \<Rightarrow> socket_op" where
  "guac_protocol_send_args args = bracketed (protocol_send_args args)"

definition protocol_send_connect :: "u8 list list \<Rightarrow> socket_op" where
  "protocol_send_connect args socket =
     (case guac_socket_write_string (bytes_of ''7.connect'') socket of
        (r, socket1) \<Rightarrow>
          if r \<noteq> 0 then (-1, socket1)
          else
            (case guac_socket_write_array args socket1 of
               (r, socket2) \<Rightarrow> if r \<noteq> 0 then (-1, socket2) else semicolon socket2))"

definition guac_protocol_send_connect :: "u8 list list \<Rightarrow> socket_op" where
  "guac_protocol_send_connect args = bracketed (protocol_send_connect args)"

text \<open>\<open>message\<close> is the formatted text, which \<open>vsnprintf\<close> truncates to the buffer of 4096 bytes.\<close>

definition vguac_protocol_send_log :: "u8 list \<Rightarrow> socket_op" where
  "vguac_protocol_send_log message =
     send_instruction
       [guac_socket_write_string (bytes_of ''3.log,''), guac_socket_write_length_string (take 4095 message),
        semicolon]"

definition guac_protocol_send_log :: "u8 list \<Rightarrow> socket_op" where
  "guac_protocol_send_log message = vguac_protocol_send_log message"

definition guac_protocol_send_required :: "u8 list list \<Rightarrow> socket_op" where
  "guac_protocol_send_required required =
     send_instruction
       [guac_socket_write_string (bytes_of ''8.required''), guac_socket_write_array required, semicolon,
        guac_socket_flush]"

definition base64_length :: "int \<Rightarrow> int" where
  "base64_length count = wrap32 (cdiv (wrap32 (count + 2)) 3 * 4)"

definition guac_protocol_send_blob :: "int \<Rightarrow> u8 list \<Rightarrow> socket_op" where
  "guac_protocol_send_blob stream data =
     send_instruction
       [guac_socket_write_string (bytes_of ''4.blob,''), guac_socket_write_length_int stream, comma,
        guac_socket_write_int (base64_length (int (length data))),
        guac_socket_write_string (bytes_of ''.''),
        (\<lambda>socket. guac_socket_write_base64 socket data), guac_socket_flush_base64, semicolon]"

definition GUAC_PROTOCOL_BLOB_MAX_LENGTH :: nat where
  "GUAC_PROTOCOL_BLOB_MAX_LENGTH = 6048"

function guac_protocol_send_blobs :: "int \<Rightarrow> u8 list \<Rightarrow> socket_op" where
  "guac_protocol_send_blobs stream data socket =
     (if data = [] then (0, socket)
      else
        let blob_size = min (length data) GUAC_PROTOCOL_BLOB_MAX_LENGTH in
        (case guac_protocol_send_blob stream (take blob_size data) socket of
           (ret_val, socket') \<Rightarrow>
             if ret_val \<noteq> 0 then (ret_val, socket')
             else guac_protocol_send_blobs stream (drop blob_size data) socket'))"
  by pat_completeness auto
termination
  by (relation "measure (\<lambda>(stream, data, socket). length data)")
    (auto simp: GUAC_PROTOCOL_BLOB_MAX_LENGTH_def)

declare guac_protocol_send_blobs.simps [simp del]

subsection \<open>Protocol versions\<close>

datatype guac_protocol_version =
    GUAC_PROTOCOL_VERSION_UNKNOWN
  | GUAC_PROTOCOL_VERSION_1_0_0
  | GUAC_PROTOCOL_VERSION_1_1_0
  | GUAC_PROTOCOL_VERSION_1_3_0
  | GUAC_PROTOCOL_VERSION_1_5_0

definition guac_protocol_version_table :: "(guac_protocol_version \<times> string) list" where
  "guac_protocol_version_table =
     [(GUAC_PROTOCOL_VERSION_1_0_0, ''VERSION_1_0_0''), (GUAC_PROTOCOL_VERSION_1_1_0, ''VERSION_1_1_0''),
      (GUAC_PROTOCOL_VERSION_1_3_0, ''VERSION_1_3_0''), (GUAC_PROTOCOL_VERSION_1_5_0, ''VERSION_1_5_0'')]"

text \<open>The table ends with the unknown version, which ends both loops.\<close>

fun string_to_version_loop :: "(guac_protocol_version \<times> string) list \<Rightarrow> string \<Rightarrow> guac_protocol_version" where
  "string_to_version_loop [] version_string = GUAC_PROTOCOL_VERSION_UNKNOWN"
| "string_to_version_loop ((version, s) # table) version_string =
     (if s = version_string then version else string_to_version_loop table version_string)"

definition guac_protocol_string_to_version :: "string \<Rightarrow> guac_protocol_version" where
  "guac_protocol_string_to_version = string_to_version_loop guac_protocol_version_table"

fun version_to_string_loop :: "(guac_protocol_version \<times> string) list \<Rightarrow> guac_protocol_version \<Rightarrow> string option" where
  "version_to_string_loop [] version = None"
| "version_to_string_loop ((v, s) # table) version =
     (if v = version then Some s else version_to_string_loop table version)"

definition guac_protocol_version_to_string :: "guac_protocol_version \<Rightarrow> string option" where
  "guac_protocol_version_to_string = version_to_string_loop guac_protocol_version_table"

section \<open>The instruction a sender writes\<close>

text \<open>An element with its length prefix, and the instruction made of a list of elements.\<close>

definition element :: "u8 list \<Rightarrow> u8 list" where
  "element str = decimal_bytes (sint (guac_utf8_strlen str)) @ bytes_of ''.'' @ str"

fun instruction :: "u8 list list \<Rightarrow> u8 list" where
  "instruction [] = bytes_of '';''"
| "instruction [e] = element e @ bytes_of '';''"
| "instruction (e # f # es) = element e @ bytes_of '','' @ instruction (f # es)"

lemma instruction_Cons [encodings]:
  "instruction (e # es) = element e @ concat (map (\<lambda>f. bytes_of '','' @ element f) es) @ bytes_of '';''"
  by (induction es arbitrary: e) auto

lemma bytes_of_simps:
  "bytes_of [] = []" "bytes_of (c # s) = of_char c # bytes_of s" "bytes_of (s @ t) = bytes_of s @ bytes_of t"
  "length (bytes_of s) = length s"
  by (simp_all add: bytes_of_def)

definition ascii :: "string \<Rightarrow> bool" where
  "ascii s \<longleftrightarrow> (\<forall>c \<in> set s. (of_char c :: nat) < 128)"

lemma unat_of_char [simp]: "unat (of_char c :: u8) = of_char c"
proof -
  have "unat (of_char c :: u8) = unat (word_of_nat (of_char c) :: u8)" by (simp only: of_nat_of_char)
  also have "\<dots> = of_char c" using nat_of_char_less_256 [of c] by (simp only: unat_of_nat) simp
  finally show ?thesis .
qed

lemma utf8_strlen_ascii:
  assumes "\<And>b. b \<in> set bs \<Longrightarrow> unat b < 128" "0 \<le> len" "len + int (length bs) \<le> INT_MAX"
  shows "utf8_strlen_loop len 0 bs = len + int (length bs)"
  using assms
proof (induction bs arbitrary: len)
  case (Cons b bs)
  have "in_int (len + 1)" using Cons.prems by (simp add: in_int_bounds)
  then show ?case using Cons.prems Cons.IH [of "len + 1"] by (simp add: charsize_ranges)
qed simp

lemma sint_small [simp]: "0 \<le> i \<Longrightarrow> i \<le> INT_MAX \<Longrightarrow> sint (word_of_int i :: 64 word) = i"
  by (simp add: signed_of_int signed_take_bit_int_eq_self INT_MAX_def)

lemma sint_strlen_ascii:
  assumes "\<And>b. b \<in> set bs \<Longrightarrow> unat b < 128" "length bs \<le> 2147483647"
  shows "sint (guac_utf8_strlen bs) = int (length bs)"
proof -
  have "utf8_strlen_loop 0 0 bs = int (length bs)" "int (length bs) \<le> INT_MAX"
    using utf8_strlen_ascii [of bs 0] assms by (simp_all add: INT_MAX_def)
  then show ?thesis using sint_small by (simp only: guac_utf8_strlen_def)
qed

lemma element_literal [encodings]:
  assumes "ascii s" "length s \<le> 2147483647"
  shows "element (bytes_of s) = bytes_of (decimal (length s) @ ''.'' @ s)"
proof -
  have "unat b < 128" if "b \<in> set (bytes_of s)" for b
    using that assms(1) by (auto simp: bytes_of_def ascii_def)
  then have "sint (guac_utf8_strlen (bytes_of s)) = int (length s)"
    using sint_strlen_ascii [of "bytes_of s"] assms(2) by (simp add: bytes_of_simps)
  then show ?thesis by (simp add: element_def decimal_bytes_def printf_i_def bytes_of_simps)
qed

lemma decimal_literals [encodings]:
  "decimal 0 = ''0''" "decimal (Suc 0) = ''1''" "decimal (Suc (Suc (Suc 0))) = ''3''"
  "decimal (Suc (Suc (Suc (Suc 0)))) = ''4''" "decimal (Suc (Suc (Suc (Suc (Suc 0))))) = ''5''"
  "decimal (Suc (Suc (Suc (Suc (Suc (Suc 0)))))) = ''6''"
  "decimal (Suc (Suc (Suc (Suc (Suc (Suc (Suc 0))))))) = ''7''"
  "decimal (Suc (Suc (Suc (Suc (Suc (Suc (Suc (Suc 0)))))))) = ''8''"
  "decimal (Suc (Suc (Suc (Suc (Suc (Suc (Suc (Suc (Suc 0))))))))) = ''9''"
  "decimal (Suc (Suc (Suc (Suc (Suc (Suc (Suc (Suc (Suc (Suc 0)))))))))) = ''10''"
  by code_simp+

section \<open>Composition\<close>

lemma writes_or_chain_Nil [chain_writes]: "writes [] (or_chain [])"
  by (rule writesI) auto

lemma writes_seq:
  assumes f: "writes a f" and g: "writes b g"
    and op: "\<And>socket. op socket = (case f socket of (r, socket') \<Rightarrow> if r \<noteq> 0 then (k, socket') else g socket')"
    and k: "k \<noteq> 0"
  shows "writes (a @ b) op"
proof (rule writesI)
  fix socket r socket'
  assume run: "op socket = (r, socket')"
  obtain q mid where q: "f socket = (q, mid)" by fastforce
  note F = writesD [OF f q]
  have later: "q = 0 \<Longrightarrow> g mid = (r, socket')" and failed: "q \<noteq> 0 \<Longrightarrow> r = k \<and> socket' = mid"
    using run q by (simp_all add: op)
  note G = writesD [OF g later]
  show "frame_eq socket socket'"
    using F(1) G(1) failed by (cases "q = 0") (auto dest: frame_eq_trans)
  show "r = 0 \<and> accepting socket'" if "accepting socket"
    using F(2,3) [OF that] G(2,3) by blast
  show "\<exists>n \<le> length (a @ b). written socket' = written socket @ take n (a @ b) \<and> (r = 0 \<longrightarrow> n = length (a @ b))"
  proof (cases "q = 0")
    case True
    from G(5) [OF True] obtain n where n: "n \<le> length b" "written socket' = written mid @ take n b"
      "r = 0 \<longrightarrow> n = length b" by blast
    then show ?thesis using F(4) [OF True] by (intro exI [of _ "length a + n"]) auto
  next
    case False
    from F(5) obtain n where n: "n \<le> length a" "written mid = written socket @ take n a" by blast
    then show ?thesis using failed [OF False] k by (intro exI [of _ n]) auto
  qed
qed

lemma writes_or_chain_Cons [chain_writes]:
  "writes a f \<Longrightarrow> writes b (or_chain fs) \<Longrightarrow> writes (a @ b) (or_chain (f # fs))"
  by (rule writes_seq [of a f b "or_chain fs" _ 1]) auto

lemma writes_bracketed:
  assumes "writes bs op"
  shows "writes bs (bracketed op)"
proof (rule writesI)
  fix socket r socket'
  assume "bracketed op socket = (r, socket')"
  then obtain mid where mid: "op (guac_socket_instruction_begin socket) = (r, mid)"
    "socket' = guac_socket_instruction_end mid"
    by (auto simp: bracketed_def split: prod.splits)
  note D = writesD [OF assms mid(1)]
  show "frame_eq socket socket'"
    using D(1) mid(2) by (simp add: frame_eq_def guac_socket_instruction_begin_def guac_socket_instruction_end_def)
  show "accepting socket \<Longrightarrow> r = 0 \<and> accepting socket'"
    using D(2,3) mid(2) by (simp add: guac_socket_instruction_begin_def guac_socket_instruction_end_def)
  show "\<exists>n \<le> length bs. written socket' = written socket @ take n bs \<and> (r = 0 \<longrightarrow> n = length bs)"
    using D(5) mid(2) by (simp add: guac_socket_instruction_begin_def guac_socket_instruction_end_def)
qed

lemma writes_send_chain: "writes bs (or_chain ops) \<Longrightarrow> bs = bs' \<Longrightarrow> writes bs' (send_instruction ops)"
  unfolding send_instruction_def using writes_bracketed by blast

lemmas [chain_writes] = writes_write_string

lemma writes_length_string [chain_writes]: "writes (element str) (guac_socket_write_length_string str)"
proof -
  have "writes (decimal_bytes (sint (guac_utf8_strlen str)) @ bytes_of ''.'' @ str @ [])
      (guac_socket_write_length_string str)"
    unfolding guac_socket_write_length_string_def decimal_bytes_def
    by (intro writes_or_chain_Cons writes_write_int writes_write_string writes_or_chain_Nil)
  then show ?thesis by (simp only: element_def append_Nil2)
qed

lemma writes_length_int [chain_writes]: "writes (element (decimal_bytes i)) (guac_socket_write_length_int i)"
  unfolding guac_socket_write_length_int_def by (rule writes_length_string)

lemma writes_length_double [chain_writes]:
  "writes (element (printf_g d)) (guac_socket_write_length_double printf_g d)"
  unfolding guac_socket_write_length_double_def by (rule writes_length_string)

lemma writes_array [chain_writes]:
  "writes (concat (map (\<lambda>f. bytes_of '','' @ element f) array)) (guac_socket_write_array array)"
proof (induction array)
  case Nil
  show ?case by (rule writesI) auto
next
  case (Cons s array)
  define rest where "rest socket = (case guac_socket_write_length_string s socket of
      (r, socket2) \<Rightarrow> if r \<noteq> 0 then (-1, socket2) else guac_socket_write_array array socket2)" for socket
  have "writes (element s @ concat (map (\<lambda>f. bytes_of '','' @ element f) array)) rest"
    by (rule writes_seq [OF writes_length_string Cons, of _ "-1"]) (simp_all add: rest_def)
  then have "writes (bytes_of '','' @ element s @ concat (map (\<lambda>f. bytes_of '','' @ element f) array))
      (guac_socket_write_array (s # array))"
    by (rule writes_seq [OF writes_write_string, where k = "-1"]) (simp_all add: rest_def split: prod.split)
  then show ?case by (simp del: guac_socket_write_array.simps)
qed

section \<open>Senders\<close>

lemma writes_ack [sends]:
  "writes (instruction [bytes_of ''ack'', decimal_bytes stream, error_text, decimal_bytes status])
     (guac_protocol_send_ack stream error_text status)"
  by (unfold guac_protocol_send_ack_def, rule writes_send_chain, (rule chain_writes)+)
    (simp add: encodings ascii_def, simp add: bytes_of_simps)

lemma writes_argv [sends]:
  "writes (instruction [bytes_of ''argv'', decimal_bytes stream, mimetype, name])
     (guac_protocol_send_argv stream mimetype name)"
  by (unfold guac_protocol_send_argv_def, rule writes_send_chain, (rule chain_writes)+)
    (simp add: encodings ascii_def, simp add: bytes_of_simps)

lemma writes_arc [sends]:
  "writes (instruction [bytes_of ''arc'', decimal_bytes layer, decimal_bytes x, decimal_bytes y,
         decimal_bytes radius, printf_g startAngle, printf_g endAngle,
         bytes_of (if negative \<noteq> 0 then ''1'' else ''0'')])
     (guac_protocol_send_arc printf_g layer x y radius startAngle endAngle negative)"
  by (unfold guac_protocol_send_arc_def, rule writes_send_chain, (rule chain_writes)+)
    (simp add: encodings ascii_def, simp add: bytes_of_simps)

lemma writes_audio [sends]:
  "writes (instruction [bytes_of ''audio'', decimal_bytes stream, mimetype])
     (guac_protocol_send_audio stream mimetype)"
  by (unfold guac_protocol_send_audio_def, rule writes_send_chain, (rule chain_writes)+)
    (simp add: encodings ascii_def, simp add: bytes_of_simps)

lemma writes_body [sends]:
  "writes (instruction [bytes_of ''body'', decimal_bytes object, decimal_bytes stream, mimetype, name])
     (guac_protocol_send_body object stream mimetype name)"
  by (unfold guac_protocol_send_body_def, rule writes_send_chain, (rule chain_writes)+)
    (simp add: encodings ascii_def, simp add: bytes_of_simps)

lemma writes_cfill [sends]:
  "writes (instruction [bytes_of ''cfill'', decimal_bytes mode, decimal_bytes layer, decimal_bytes r,
         decimal_bytes g, decimal_bytes b, decimal_bytes a])
     (guac_protocol_send_cfill mode layer r g b a)"
  by (unfold guac_protocol_send_cfill_def, rule writes_send_chain, (rule chain_writes)+)
    (simp add: encodings ascii_def, simp add: bytes_of_simps)

lemma writes_close [sends]:
  "writes (instruction [bytes_of ''close'', decimal_bytes layer])
     (guac_protocol_send_close layer)"
  by (unfold guac_protocol_send_close_def, rule writes_send_chain, (rule chain_writes)+)
    (simp add: encodings ascii_def, simp add: bytes_of_simps)

lemma writes_clip [sends]:
  "writes (instruction [bytes_of ''clip'', decimal_bytes layer])
     (guac_protocol_send_clip layer)"
  by (unfold guac_protocol_send_clip_def, rule writes_send_chain, (rule chain_writes)+)
    (simp add: encodings ascii_def, simp add: bytes_of_simps)

lemma writes_clipboard [sends]:
  "writes (instruction [bytes_of ''clipboard'', decimal_bytes stream, mimetype])
     (guac_protocol_send_clipboard stream mimetype)"
  by (unfold guac_protocol_send_clipboard_def, rule writes_send_chain, (rule chain_writes)+)
    (simp add: encodings ascii_def, simp add: bytes_of_simps)

lemma writes_copy [sends]:
  "writes (instruction [bytes_of ''copy'', decimal_bytes srcl, decimal_bytes srcx, decimal_bytes srcy,
         decimal_bytes w, decimal_bytes h, decimal_bytes mode, decimal_bytes dstl,
         decimal_bytes dstx, decimal_bytes dsty])
     (guac_protocol_send_copy srcl srcx srcy w h mode dstl dstx dsty)"
  by (unfold guac_protocol_send_copy_def, rule writes_send_chain, (rule chain_writes)+)
    (simp add: encodings ascii_def, simp add: bytes_of_simps)

lemma writes_cstroke [sends]:
  "writes (instruction [bytes_of ''cstroke'', decimal_bytes mode, decimal_bytes layer, decimal_bytes cap,
         decimal_bytes join, decimal_bytes thickness, decimal_bytes r, decimal_bytes g,
         decimal_bytes b, decimal_bytes a])
     (guac_protocol_send_cstroke mode layer cap join thickness r g b a)"
  by (unfold guac_protocol_send_cstroke_def, rule writes_send_chain, (rule chain_writes)+)
    (simp add: encodings ascii_def, simp add: bytes_of_simps)

lemma writes_cursor [sends]:
  "writes (instruction [bytes_of ''cursor'', decimal_bytes x, decimal_bytes y, decimal_bytes srcl,
         decimal_bytes srcx, decimal_bytes srcy, decimal_bytes w, decimal_bytes h])
     (guac_protocol_send_cursor x y srcl srcx srcy w h)"
  by (unfold guac_protocol_send_cursor_def, rule writes_send_chain, (rule chain_writes)+)
    (simp add: encodings ascii_def, simp add: bytes_of_simps)

lemma writes_curve [sends]:
  "writes (instruction [bytes_of ''curve'', decimal_bytes layer, decimal_bytes cp1x, decimal_bytes cp1y,
         decimal_bytes cp2x, decimal_bytes cp2y, decimal_bytes x, decimal_bytes y])
     (guac_protocol_send_curve layer cp1x cp1y cp2x cp2y x y)"
  by (unfold guac_protocol_send_curve_def, rule writes_send_chain, (rule chain_writes)+)
    (simp add: encodings ascii_def, simp add: bytes_of_simps)

lemma writes_disconnect [sends]:
  "writes (instruction [bytes_of ''disconnect''])
     guac_protocol_send_disconnect"
  by (unfold guac_protocol_send_disconnect_def, rule writes_send_chain, (rule chain_writes)+)
    (simp add: encodings ascii_def, simp add: bytes_of_simps)

lemma writes_dispose [sends]:
  "writes (instruction [bytes_of ''dispose'', decimal_bytes layer])
     (guac_protocol_send_dispose layer)"
  by (unfold guac_protocol_send_dispose_def, rule writes_send_chain, (rule chain_writes)+)
    (simp add: encodings ascii_def, simp add: bytes_of_simps)

lemma writes_distort [sends]:
  "writes (instruction [bytes_of ''distort'', decimal_bytes layer, printf_g a, printf_g b, printf_g c,
         printf_g d, printf_g e, printf_g f])
     (guac_protocol_send_distort printf_g layer a b c d e f)"
  by (unfold guac_protocol_send_distort_def, rule writes_send_chain, (rule chain_writes)+)
    (simp add: encodings ascii_def, simp add: bytes_of_simps)

lemma writes_end [sends]:
  "writes (instruction [bytes_of ''end'', decimal_bytes stream])
     (guac_protocol_send_end stream)"
  by (unfold guac_protocol_send_end_def, rule writes_send_chain, (rule chain_writes)+)
    (simp add: encodings ascii_def, simp add: bytes_of_simps)

lemma writes_error [sends]:
  "writes (instruction [bytes_of ''error'', error_text, decimal_bytes status])
     (guac_protocol_send_error error_text status)"
  by (unfold guac_protocol_send_error_def, rule writes_send_chain, (rule chain_writes)+)
    (simp add: encodings ascii_def, simp add: bytes_of_simps)

lemma writes_msg [sends]:
  "writes (instruction (bytes_of ''msg'' # decimal_bytes msg # args))
     (guac_protocol_send_msg msg args)"
  by (unfold guac_protocol_send_msg_def, rule writes_send_chain, (rule chain_writes)+)
    (simp add: encodings ascii_def, simp add: bytes_of_simps)

lemma writes_file [sends]:
  "writes (instruction [bytes_of ''file'', decimal_bytes stream, mimetype, name])
     (guac_protocol_send_file stream mimetype name)"
  by (unfold guac_protocol_send_file_def, rule writes_send_chain, (rule chain_writes)+)
    (simp add: encodings ascii_def, simp add: bytes_of_simps)

lemma writes_filesystem [sends]:
  "writes (instruction [bytes_of ''filesystem'', decimal_bytes object, name])
     (guac_protocol_send_filesystem object name)"
  by (unfold guac_protocol_send_filesystem_def, rule writes_send_chain, (rule chain_writes)+)
    (simp add: encodings ascii_def, simp add: bytes_of_simps)

lemma writes_identity [sends]:
  "writes (instruction [bytes_of ''identity'', decimal_bytes layer])
     (guac_protocol_send_identity layer)"
  by (unfold guac_protocol_send_identity_def, rule writes_send_chain, (rule chain_writes)+)
    (simp add: encodings ascii_def, simp add: bytes_of_simps)

lemma writes_key [sends]:
  "writes (instruction [bytes_of ''key'', decimal_bytes keysym,
         bytes_of (if pressed \<noteq> 0 then ''1'' else ''0''), decimal_bytes timestamp])
     (guac_protocol_send_key keysym pressed timestamp)"
  by (unfold guac_protocol_send_key_def, rule writes_send_chain, (rule chain_writes)+)
    (simp add: encodings ascii_def, simp add: bytes_of_simps)

lemma writes_lfill [sends]:
  "writes (instruction [bytes_of ''lfill'', decimal_bytes mode, decimal_bytes layer, decimal_bytes srcl])
     (guac_protocol_send_lfill mode layer srcl)"
  by (unfold guac_protocol_send_lfill_def, rule writes_send_chain, (rule chain_writes)+)
    (simp add: encodings ascii_def, simp add: bytes_of_simps)

lemma writes_line [sends]:
  "writes (instruction [bytes_of ''line'', decimal_bytes layer, decimal_bytes x, decimal_bytes y])
     (guac_protocol_send_line layer x y)"
  by (unfold guac_protocol_send_line_def, rule writes_send_chain, (rule chain_writes)+)
    (simp add: encodings ascii_def, simp add: bytes_of_simps)

lemma writes_lstroke [sends]:
  "writes (instruction [bytes_of ''lstroke'', decimal_bytes mode, decimal_bytes layer, decimal_bytes cap,
         decimal_bytes join, decimal_bytes thickness, decimal_bytes srcl])
     (guac_protocol_send_lstroke mode layer cap join thickness srcl)"
  by (unfold guac_protocol_send_lstroke_def, rule writes_send_chain, (rule chain_writes)+)
    (simp add: encodings ascii_def, simp add: bytes_of_simps)

lemma writes_mouse [sends]:
  "writes (instruction [bytes_of ''mouse'', decimal_bytes x, decimal_bytes y, decimal_bytes button_mask,
         decimal_bytes timestamp])
     (guac_protocol_send_mouse x y button_mask timestamp)"
  by (unfold guac_protocol_send_mouse_def, rule writes_send_chain, (rule chain_writes)+)
    (simp add: encodings ascii_def, simp add: bytes_of_simps)

lemma writes_touch [sends]:
  "writes (instruction [bytes_of ''touch'', decimal_bytes ident, decimal_bytes x, decimal_bytes y,
         decimal_bytes x_radius, decimal_bytes y_radius, printf_g angle, printf_g force,
         decimal_bytes timestamp])
     (guac_protocol_send_touch printf_g ident x y x_radius y_radius angle force timestamp)"
  by (unfold guac_protocol_send_touch_def, rule writes_send_chain, (rule chain_writes)+)
    (simp add: encodings ascii_def, simp add: bytes_of_simps)

lemma writes_move [sends]:
  "writes (instruction [bytes_of ''move'', decimal_bytes layer, decimal_bytes parent, decimal_bytes x,
         decimal_bytes y, decimal_bytes z])
     (guac_protocol_send_move layer parent x y z)"
  by (unfold guac_protocol_send_move_def, rule writes_send_chain, (rule chain_writes)+)
    (simp add: encodings ascii_def, simp add: bytes_of_simps)

lemma writes_name [sends]:
  "writes (instruction [bytes_of ''name'', name])
     (guac_protocol_send_name name)"
  by (unfold guac_protocol_send_name_def, rule writes_send_chain, (rule chain_writes)+)
    (simp add: encodings ascii_def, simp add: bytes_of_simps)

lemma writes_nest [sends]:
  "writes (instruction [bytes_of ''nest'', decimal_bytes index, data])
     (guac_protocol_send_nest index data)"
  by (unfold guac_protocol_send_nest_def, rule writes_send_chain, (rule chain_writes)+)
    (simp add: encodings ascii_def, simp add: bytes_of_simps)

lemma writes_nop [sends]:
  "writes (instruction [bytes_of ''nop''])
     guac_protocol_send_nop"
  by (unfold guac_protocol_send_nop_def, rule writes_send_chain, (rule chain_writes)+)
    (simp add: encodings ascii_def, simp add: bytes_of_simps)

lemma writes_pipe [sends]:
  "writes (instruction [bytes_of ''pipe'', decimal_bytes stream, mimetype, name])
     (guac_protocol_send_pipe stream mimetype name)"
  by (unfold guac_protocol_send_pipe_def, rule writes_send_chain, (rule chain_writes)+)
    (simp add: encodings ascii_def, simp add: bytes_of_simps)

lemma writes_img [sends]:
  "writes (instruction [bytes_of ''img'', decimal_bytes stream, decimal_bytes mode, decimal_bytes layer,
         mimetype, decimal_bytes x, decimal_bytes y])
     (guac_protocol_send_img stream mode layer mimetype x y)"
  by (unfold guac_protocol_send_img_def, rule writes_send_chain, (rule chain_writes)+)
    (simp add: encodings ascii_def, simp add: bytes_of_simps)

lemma writes_pop [sends]:
  "writes (instruction [bytes_of ''pop'', decimal_bytes layer])
     (guac_protocol_send_pop layer)"
  by (unfold guac_protocol_send_pop_def, rule writes_send_chain, (rule chain_writes)+)
    (simp add: encodings ascii_def, simp add: bytes_of_simps)

lemma writes_push [sends]:
  "writes (instruction [bytes_of ''push'', decimal_bytes layer])
     (guac_protocol_send_push layer)"
  by (unfold guac_protocol_send_push_def, rule writes_send_chain, (rule chain_writes)+)
    (simp add: encodings ascii_def, simp add: bytes_of_simps)

lemma writes_ready [sends]:
  "writes (instruction [bytes_of ''ready'', ident])
     (guac_protocol_send_ready ident)"
  by (unfold guac_protocol_send_ready_def, rule writes_send_chain, (rule chain_writes)+)
    (simp add: encodings ascii_def, simp add: bytes_of_simps)

lemma writes_rect [sends]:
  "writes (instruction [bytes_of ''rect'', decimal_bytes layer, decimal_bytes x, decimal_bytes y,
         decimal_bytes width, decimal_bytes height])
     (guac_protocol_send_rect layer x y width height)"
  by (unfold guac_protocol_send_rect_def, rule writes_send_chain, (rule chain_writes)+)
    (simp add: encodings ascii_def, simp add: bytes_of_simps)

lemma writes_reset [sends]:
  "writes (instruction [bytes_of ''reset'', decimal_bytes layer])
     (guac_protocol_send_reset layer)"
  by (unfold guac_protocol_send_reset_def, rule writes_send_chain, (rule chain_writes)+)
    (simp add: encodings ascii_def, simp add: bytes_of_simps)

lemma writes_set [sends]:
  "writes (instruction [bytes_of ''set'', decimal_bytes layer, name, val])
     (guac_protocol_send_set layer name val)"
  by (unfold guac_protocol_send_set_def, rule writes_send_chain, (rule chain_writes)+)
    (simp add: encodings ascii_def, simp add: bytes_of_simps)

lemma writes_set_int [sends]:
  "writes (instruction [bytes_of ''set'', decimal_bytes layer, name, decimal_bytes val])
     (guac_protocol_send_set_int layer name val)"
  by (unfold guac_protocol_send_set_int_def, rule writes_send_chain, (rule chain_writes)+)
    (simp add: encodings ascii_def, simp add: bytes_of_simps)

lemma writes_select [sends]:
  "writes (instruction [bytes_of ''select'', protocol])
     (guac_protocol_send_select protocol)"
  by (unfold guac_protocol_send_select_def, rule writes_send_chain, (rule chain_writes)+)
    (simp add: encodings ascii_def, simp add: bytes_of_simps)

lemma writes_shade [sends]:
  "writes (instruction [bytes_of ''shade'', decimal_bytes layer, decimal_bytes a])
     (guac_protocol_send_shade layer a)"
  by (unfold guac_protocol_send_shade_def, rule writes_send_chain, (rule chain_writes)+)
    (simp add: encodings ascii_def, simp add: bytes_of_simps)

lemma writes_size [sends]:
  "writes (instruction [bytes_of ''size'', decimal_bytes layer, decimal_bytes w, decimal_bytes h])
     (guac_protocol_send_size layer w h)"
  by (unfold guac_protocol_send_size_def, rule writes_send_chain, (rule chain_writes)+)
    (simp add: encodings ascii_def, simp add: bytes_of_simps)

lemma writes_start [sends]:
  "writes (instruction [bytes_of ''start'', decimal_bytes layer, decimal_bytes x, decimal_bytes y])
     (guac_protocol_send_start layer x y)"
  by (unfold guac_protocol_send_start_def, rule writes_send_chain, (rule chain_writes)+)
    (simp add: encodings ascii_def, simp add: bytes_of_simps)

lemma writes_sync [sends]:
  "writes (instruction [bytes_of ''sync'', decimal_bytes timestamp, decimal_bytes frames])
     (guac_protocol_send_sync timestamp frames)"
  by (unfold guac_protocol_send_sync_def, rule writes_send_chain, (rule chain_writes)+)
    (simp add: encodings ascii_def, simp add: bytes_of_simps)

lemma writes_transfer [sends]:
  "writes (instruction [bytes_of ''transfer'', decimal_bytes srcl, decimal_bytes srcx, decimal_bytes srcy,
         decimal_bytes w, decimal_bytes h, decimal_bytes func, decimal_bytes dstl,
         decimal_bytes dstx, decimal_bytes dsty])
     (guac_protocol_send_transfer srcl srcx srcy w h func dstl dstx dsty)"
  by (unfold guac_protocol_send_transfer_def, rule writes_send_chain, (rule chain_writes)+)
    (simp add: encodings ascii_def, simp add: bytes_of_simps)

lemma writes_transform [sends]:
  "writes (instruction [bytes_of ''transform'', decimal_bytes layer, printf_g a, printf_g b, printf_g c,
         printf_g d, printf_g e, printf_g f])
     (guac_protocol_send_transform printf_g layer a b c d e f)"
  by (unfold guac_protocol_send_transform_def, rule writes_send_chain, (rule chain_writes)+)
    (simp add: encodings ascii_def, simp add: bytes_of_simps)

lemma writes_undefine [sends]:
  "writes (instruction [bytes_of ''undefine'', decimal_bytes object])
     (guac_protocol_send_undefine object)"
  by (unfold guac_protocol_send_undefine_def, rule writes_send_chain, (rule chain_writes)+)
    (simp add: encodings ascii_def, simp add: bytes_of_simps)

lemma writes_video [sends]:
  "writes (instruction [bytes_of ''video'', decimal_bytes stream, decimal_bytes layer, mimetype])
     (guac_protocol_send_video stream layer mimetype)"
  by (unfold guac_protocol_send_video_def, rule writes_send_chain, (rule chain_writes)+)
    (simp add: encodings ascii_def, simp add: bytes_of_simps)

lemma writes_fails_with:
  assumes f: "writes a f" and g: "writes b g"
  shows "writes (a @ b) (\<lambda>socket. case f socket of (r, socket') \<Rightarrow> if r \<noteq> 0 then (-1, socket') else g socket')"
  using writes_seq [OF f g, where k = "-1"] by simp

lemma writes_bracketed_eq: "writes bs op \<Longrightarrow> bs = bs' \<Longrightarrow> writes bs' (bracketed op)"
  using writes_bracketed by blast

lemma writes_args [sends]:
  "writes (instruction (bytes_of ''args'' # bytes_of GUACAMOLE_PROTOCOL_VERSION # args)) (guac_protocol_send_args args)"
  unfolding guac_protocol_send_args_def protocol_send_args_def [abs_def]
  by (rule writes_bracketed_eq, (rule writes_fails_with chain_writes)+)
    (simp add: encodings ascii_def)

lemma writes_connect [sends]:
  "writes (instruction (bytes_of ''connect'' # args)) (guac_protocol_send_connect args)"
  unfolding guac_protocol_send_connect_def protocol_send_connect_def [abs_def]
  by (rule writes_bracketed_eq, (rule writes_fails_with chain_writes)+)
    (simp add: encodings ascii_def)

lemma writes_log [sends]:
  "writes (instruction [bytes_of ''log'', take 4095 message]) (guac_protocol_send_log message)"
  by (unfold guac_protocol_send_log_def vguac_protocol_send_log_def, rule writes_send_chain, (rule chain_writes)+)
    (simp add: encodings ascii_def, simp add: bytes_of_simps)

section \<open>Base64 instructions\<close>

text \<open>
  What holds of every sender on a socket whose handlers do not fail and whose ready buffer is
  empty: it succeeds, appends exactly the given bytes, and restores the lock and the buffer.
\<close>

definition emits :: "u8 list \<Rightarrow> socket_op \<Rightarrow> bool" where
  "emits bs op \<longleftrightarrow>
     (\<forall>socket r socket'. op socket = (r, socket') \<longrightarrow> accepting socket \<longrightarrow> ready socket = [] \<longrightarrow>
        r = 0 \<and> accepting socket' \<and> ready socket' = [] \<and> held socket' = held socket \<and>
        written socket' = written socket @ bs)"

lemma emitsD:
  assumes "emits bs op" "op socket = (r, socket')" "accepting socket" "ready socket = []"
  shows "r = 0 \<and> accepting socket' \<and> ready socket' = [] \<and> held socket' = held socket \<and>
         written socket' = written socket @ bs"
  using assms unfolding emits_def by blast

lemma writes_emits: "writes bs op \<Longrightarrow> emits bs op"
  unfolding emits_def
proof (intro allI impI)
  fix socket r socket'
  assume w: "writes bs op" "op socket = (r, socket')" and acc: "accepting socket" "ready socket = []"
  note d = writesD [OF w]
  show "r = 0 \<and> accepting socket' \<and> ready socket' = [] \<and> held socket' = held socket \<and>
      written socket' = written socket @ bs"
    using d(1) d(2,3) [OF acc(1)] d(4) acc(2) by (simp add: frame_eq_def)
qed

lemma or_chain_append:
  "or_chain (fs @ gs) socket =
     (case or_chain fs socket of (r, socket') \<Rightarrow> if r \<noteq> 0 then (1, socket') else or_chain gs socket')"
  by (induction fs arbitrary: socket) (auto split: prod.split)

lemma emits_or_chain_append:
  assumes "emits a (or_chain fs)" "emits b (or_chain gs)"
  shows "emits (a @ b) (or_chain (fs @ gs))"
  unfolding emits_def
proof (intro allI impI)
  fix socket r socket'
  assume run: "or_chain (fs @ gs) socket = (r, socket')" and acc: "accepting socket" "ready socket = []"
  obtain q mid where q: "or_chain fs socket = (q, mid)" by fastforce
  note d = emitsD [OF assms(1) q acc]
  then have "or_chain gs mid = (r, socket')" using run q by (simp add: or_chain_append)
  from emitsD [OF assms(2) this] d
  show "r = 0 \<and> accepting socket' \<and> ready socket' = [] \<and> held socket' = held socket \<and>
      written socket' = written socket @ a @ b" by simp
qed

lemma emits_bracketed:
  assumes "emits bs op"
  shows "emits bs (bracketed op)"
  unfolding emits_def
proof (intro allI impI)
  fix socket r socket'
  assume "bracketed op socket = (r, socket')" and acc: "accepting socket" "ready socket = []"
  then obtain mid where mid: "op (guac_socket_instruction_begin socket) = (r, mid)"
    "socket' = guac_socket_instruction_end mid"
    by (auto simp: bracketed_def split: prod.splits)
  from emitsD [OF assms mid(1)] acc mid(2)
  show "r = 0 \<and> accepting socket' \<and> ready socket' = [] \<and> held socket' = held socket \<and>
      written socket' = written socket @ bs"
    by (simp add: guac_socket_instruction_begin_def guac_socket_instruction_end_def)
qed

lemma emits_base64:
  "emits (encode_ready data) (or_chain [\<lambda>socket. guac_socket_write_base64 socket data, guac_socket_flush_base64])"
  unfolding emits_def
proof (intro allI impI)
  fix socket r socket'
  assume run: "or_chain [\<lambda>socket. guac_socket_write_base64 socket data, guac_socket_flush_base64] socket = (r, socket')"
    and acc: "accepting socket" "ready socket = []"
  obtain q mid where q: "guac_socket_write_base64 socket data = (q, mid)" by fastforce
  have w: "q = 0 \<and> accepting mid \<and> held mid = held socket \<and>
      written mid @ encode_ready (ready mid) = written socket @ encode_ready data"
    using write_base64_emits [OF acc(1) _ q] acc(2) by (simp add: GUAC_SOCKET_BASE64_READY_BUFFER_SIZE_def)
  obtain k final where k: "guac_socket_flush_base64 mid = (k, final)" by fastforce
  have f: "k = 0 \<and> accepting final \<and> ready final = [] \<and> held final = held mid \<and>
      written final = written mid @ encode_ready (ready mid)"
    using flush_base64_emits [OF _ k] w by simp
  have "r = 0 \<and> socket' = final" using run q w k f by simp
  then show "r = 0 \<and> accepting socket' \<and> ready socket' = [] \<and> held socket' = held socket \<and>
      written socket' = written socket @ encode_ready data"
    using w f by simp
qed

text \<open>The element of a blob is the base64 text behind the computed length.\<close>

lemma element_base64:
  assumes "length data \<le> 1000000000"
  shows "element (encode_ready data) =
           decimal_bytes (base64_length (int (length data))) @ bytes_of ''.'' @ encode_ready data"
proof -
  have le: "(length data + 2) div 3 * 4 \<le> 2147483647" using assms by (simp add: div_le_mono)
  have "wrap32 (int (length data) + 2) = int (length data + 2)"
    using assms by (simp add: in_int_bounds)
  then have "base64_length (int (length data)) = wrap32 (int ((length data + 2) div 3 * 4))"
    by (simp add: base64_length_def zdiv_int)
  also have "\<dots> = int ((length data + 2) div 3 * 4)"
    using le by (intro wrap32_id) (simp only: in_int_bounds, linarith)
  finally have "base64_length (int (length data)) = int (length (encode_ready data))"
    by (simp only: length_encode_ready)
  then show ?thesis
    using sint_strlen_ascii [of "encode_ready data"] encode_ready_ascii [of _ data] le
    by (simp add: element_def length_encode_ready)
qed

lemma emits_blob:
  assumes "length data \<le> 1000000000"
  shows "emits (instruction [bytes_of ''blob'', decimal_bytes stream, encode_ready data])
           (guac_protocol_send_blob stream data)"
proof -
  define pre where "pre = [guac_socket_write_string (bytes_of ''4.blob,''), guac_socket_write_length_int stream,
    comma, guac_socket_write_int (base64_length (int (length data))), guac_socket_write_string (bytes_of ''.'')]"
  define mid where "mid = [\<lambda>socket. guac_socket_write_base64 socket data, guac_socket_flush_base64]"
  have "writes (bytes_of ''4.blob,'' @ element (decimal_bytes stream) @ bytes_of '','' @
      bytes_of (printf_i (base64_length (int (length data)))) @ bytes_of ''.'' @ []) (or_chain pre)"
    unfolding pre_def by (rule chain_writes writes_write_int)+
  then have e1: "emits (bytes_of ''4.blob,'' @ element (decimal_bytes stream) @ bytes_of '','' @
      decimal_bytes (base64_length (int (length data))) @ bytes_of ''.'' @ []) (or_chain pre)"
    unfolding decimal_bytes_def by (rule writes_emits)
  have e2: "emits (encode_ready data) (or_chain mid)" unfolding mid_def by (rule emits_base64)
  have "writes (bytes_of '';'' @ []) (or_chain [semicolon])" by (rule chain_writes)+
  then have e3: "emits (bytes_of '';'' @ []) (or_chain [semicolon])" by (rule writes_emits)
  have op: "guac_protocol_send_blob stream data = bracketed (or_chain ((pre @ mid) @ [semicolon]))"
    by (simp add: guac_protocol_send_blob_def send_instruction_def pre_def mid_def)
  have bytes: "instruction [bytes_of ''blob'', decimal_bytes stream, encode_ready data] =
      ((bytes_of ''4.blob,'' @ element (decimal_bytes stream) @ bytes_of '','' @
        decimal_bytes (base64_length (int (length data))) @ bytes_of ''.'' @ []) @ encode_ready data) @ bytes_of '';'' @ []"
    by (simp add: encodings ascii_def element_base64 [OF assms], simp add: bytes_of_simps)
  show ?thesis
    unfolding op bytes by (intro emits_bracketed emits_or_chain_append e1 e2 e3)
qed

text \<open>The blobs that cover the data, each of at most the maximum size.\<close>

function blob_chunks :: "u8 list \<Rightarrow> u8 list list" where
  "blob_chunks data =
     (if data = [] then []
      else take GUAC_PROTOCOL_BLOB_MAX_LENGTH data # blob_chunks (drop GUAC_PROTOCOL_BLOB_MAX_LENGTH data))"
  by pat_completeness auto
termination
  by (relation "measure length") (auto simp: GUAC_PROTOCOL_BLOB_MAX_LENGTH_def)

declare blob_chunks.simps [simp del]

lemma concat_blob_chunks: "concat (blob_chunks data) = data"
  by (induction data rule: blob_chunks.induct) (subst blob_chunks.simps, auto)

lemma length_blob_chunks: "c \<in> set (blob_chunks data) \<Longrightarrow> c \<noteq> [] \<and> length c \<le> GUAC_PROTOCOL_BLOB_MAX_LENGTH"
proof (induction data rule: blob_chunks.induct)
  case (1 data)
  then show ?case
    unfolding blob_chunks.simps [of data]
    by (cases "data = []") (auto simp: GUAC_PROTOCOL_BLOB_MAX_LENGTH_def)
qed

lemma emits_blobs:
  "emits (concat (map (\<lambda>c. instruction [bytes_of ''blob'', decimal_bytes stream, encode_ready c]) (blob_chunks data)))
     (guac_protocol_send_blobs stream data)"
  unfolding emits_def
proof (intro allI impI)
  fix socket r socket'
  assume "guac_protocol_send_blobs stream data socket = (r, socket')" "accepting socket" "ready socket = []"
  then show "r = 0 \<and> accepting socket' \<and> ready socket' = [] \<and> held socket' = held socket \<and>
      written socket' = written socket @
        concat (map (\<lambda>c. instruction [bytes_of ''blob'', decimal_bytes stream, encode_ready c]) (blob_chunks data))"
  proof (induction stream data socket rule: guac_protocol_send_blobs.induct)
    case (1 stream data socket)
    show ?case
    proof (cases "data = []")
      case True
      then show ?thesis
        using "1.prems" by (simp add: guac_protocol_send_blobs.simps [of _ "[]"] blob_chunks.simps [of "[]"])
    next
      case False
      define n where "n = min (length data) GUAC_PROTOCOL_BLOB_MAX_LENGTH"
      have tk: "take n data = take GUAC_PROTOCOL_BLOB_MAX_LENGTH data" "drop n data = drop GUAC_PROTOCOL_BLOB_MAX_LENGTH data"
        by (auto simp: n_def min_def)
      obtain q mid where q: "guac_protocol_send_blob stream (take n data) socket = (q, mid)" by fastforce
      have "length (take n data) \<le> 1000000000" by (simp add: n_def GUAC_PROTOCOL_BLOB_MAX_LENGTH_def)
      from emitsD [OF emits_blob [OF this] q "1.prems"(2,3)]
      have m: "q = 0" "accepting mid" "ready mid = []" "held mid = held socket"
        "written mid = written socket @ instruction [bytes_of ''blob'', decimal_bytes stream, encode_ready (take n data)]"
        by simp_all
      have "guac_protocol_send_blobs stream (drop n data) mid = (r, socket')"
        using "1.prems"(1) False q m(1)
        by (simp add: guac_protocol_send_blobs.simps [of stream data] Let_def n_def)
      from "1.IH" [OF False n_def q [symmetric] _ this m(2,3)] m
      show ?thesis using False by (simp add: blob_chunks.simps [of data] tk)
    qed
  qed
qed

section \<open>Properties\<close>

text \<open>
  The handshake and control instructions: whatever the write handler does, each sender reports success only
  when the complete instruction, with its opcode and arguments in order and the length of every
  element, was accepted (and always does on a socket that accepts its output), otherwise leaves an initial
  segment of it, and always releases the lock it took.
\<close>

theorem control_instructions:
  "writes (instruction (bytes_of ''args'' # bytes_of GUACAMOLE_PROTOCOL_VERSION # args)) (guac_protocol_send_args args) \<and>
   writes (instruction (bytes_of ''connect'' # args)) (guac_protocol_send_connect args) \<and>
   writes (instruction [bytes_of ''select'', protocol]) (guac_protocol_send_select protocol) \<and>
   writes (instruction [bytes_of ''ready'', ident]) (guac_protocol_send_ready ident) \<and>
   writes (instruction [bytes_of ''name'', name]) (guac_protocol_send_name name) \<and>
   writes (instruction [bytes_of ''disconnect'']) guac_protocol_send_disconnect \<and>
   writes (instruction [bytes_of ''nop'']) guac_protocol_send_nop \<and>
   writes (instruction [bytes_of ''error'', error_text, decimal_bytes status]) (guac_protocol_send_error error_text status) \<and>
   writes (instruction [bytes_of ''log'', take 4095 message]) (guac_protocol_send_log message) \<and>
   writes (instruction [bytes_of ''sync'', decimal_bytes timestamp, decimal_bytes frames]) (guac_protocol_send_sync timestamp frames) \<and>
   writes (instruction (bytes_of ''msg'' # decimal_bytes msg # args)) (guac_protocol_send_msg msg args) \<and>
   writes (instruction [bytes_of ''set'', decimal_bytes layer, name, val]) (guac_protocol_send_set layer name val) \<and>
   writes (instruction [bytes_of ''set'', decimal_bytes layer, name, decimal_bytes n]) (guac_protocol_send_set_int layer name n)"
  by (intro conjI sends)

text \<open>
  The stream and object instructions: whatever the write handler does, each sender reports success only
  when the complete instruction, with its opcode and arguments in order and the length of every
  element, was accepted (and always does on a socket that accepts its output), otherwise leaves an initial
  segment of it, and always releases the lock it took.
\<close>

theorem stream_instructions:
  "writes (instruction [bytes_of ''ack'', decimal_bytes stream, error_text, decimal_bytes status]) (guac_protocol_send_ack stream error_text status) \<and>
   writes (instruction [bytes_of ''argv'', decimal_bytes stream, mimetype, name]) (guac_protocol_send_argv stream mimetype name) \<and>
   writes (instruction [bytes_of ''audio'', decimal_bytes stream, mimetype]) (guac_protocol_send_audio stream mimetype) \<and>
   writes (instruction [bytes_of ''body'', decimal_bytes object, decimal_bytes stream, mimetype, name]) (guac_protocol_send_body object stream mimetype name) \<and>
   writes (instruction [bytes_of ''clipboard'', decimal_bytes stream, mimetype]) (guac_protocol_send_clipboard stream mimetype) \<and>
   writes (instruction [bytes_of ''end'', decimal_bytes stream]) (guac_protocol_send_end stream) \<and>
   writes (instruction [bytes_of ''file'', decimal_bytes stream, mimetype, name]) (guac_protocol_send_file stream mimetype name) \<and>
   writes (instruction [bytes_of ''filesystem'', decimal_bytes object, name]) (guac_protocol_send_filesystem object name) \<and>
   writes (instruction [bytes_of ''img'', decimal_bytes stream, decimal_bytes mode, decimal_bytes layer, mimetype, decimal_bytes x, decimal_bytes y]) (guac_protocol_send_img stream mode layer mimetype x y) \<and>
   writes (instruction [bytes_of ''pipe'', decimal_bytes stream, mimetype, name]) (guac_protocol_send_pipe stream mimetype name) \<and>
   writes (instruction [bytes_of ''undefine'', decimal_bytes object]) (guac_protocol_send_undefine object) \<and>
   writes (instruction [bytes_of ''video'', decimal_bytes stream, decimal_bytes layer, mimetype]) (guac_protocol_send_video stream layer mimetype) \<and>
   writes (instruction [bytes_of ''nest'', decimal_bytes index, data]) (guac_protocol_send_nest index data)"
  by (intro conjI sends)

text \<open>
  C24. The 24 senders of drawing instructions (arc, cfill, clip, close, copy, cstroke, cursor, curve, dispose, distort,
  identity, lfill, line, lstroke, move, pop, push, rect, reset, shade, size, start, transfer and transform), with any
  arguments and whatever the write handler of the socket accepts: each writes one instruction, whose elements are the
  opcode of that name and its arguments in the order stated below, each with its length in characters. If it
  reports success, the whole instruction was accepted, otherwise an initial segment of it was, and on a socket that
  accepts its output it does report success. In every case it gives back the lock it took and leaves the
  socket's buffer for base64 as it was.
\<close>

theorem drawing_instructions:
  "writes (instruction [bytes_of ''arc'', decimal_bytes layer, decimal_bytes x, decimal_bytes y, decimal_bytes radius, printf_g startAngle, printf_g endAngle, bytes_of (if negative \<noteq> 0 then ''1'' else ''0'')]) (guac_protocol_send_arc printf_g layer x y radius startAngle endAngle negative) \<and>
   writes (instruction [bytes_of ''cfill'', decimal_bytes mode, decimal_bytes layer, decimal_bytes r, decimal_bytes g, decimal_bytes b, decimal_bytes a]) (guac_protocol_send_cfill mode layer r g b a) \<and>
   writes (instruction [bytes_of ''clip'', decimal_bytes layer]) (guac_protocol_send_clip layer) \<and>
   writes (instruction [bytes_of ''close'', decimal_bytes layer]) (guac_protocol_send_close layer) \<and>
   writes (instruction [bytes_of ''copy'', decimal_bytes srcl, decimal_bytes srcx, decimal_bytes srcy, decimal_bytes w, decimal_bytes h, decimal_bytes mode, decimal_bytes dstl, decimal_bytes dstx, decimal_bytes dsty]) (guac_protocol_send_copy srcl srcx srcy w h mode dstl dstx dsty) \<and>
   writes (instruction [bytes_of ''cstroke'', decimal_bytes mode, decimal_bytes layer, decimal_bytes cap, decimal_bytes join, decimal_bytes thickness, decimal_bytes r, decimal_bytes g, decimal_bytes b, decimal_bytes a]) (guac_protocol_send_cstroke mode layer cap join thickness r g b a) \<and>
   writes (instruction [bytes_of ''cursor'', decimal_bytes x, decimal_bytes y, decimal_bytes srcl, decimal_bytes srcx, decimal_bytes srcy, decimal_bytes w, decimal_bytes h]) (guac_protocol_send_cursor x y srcl srcx srcy w h) \<and>
   writes (instruction [bytes_of ''curve'', decimal_bytes layer, decimal_bytes cp1x, decimal_bytes cp1y, decimal_bytes cp2x, decimal_bytes cp2y, decimal_bytes x, decimal_bytes y]) (guac_protocol_send_curve layer cp1x cp1y cp2x cp2y x y) \<and>
   writes (instruction [bytes_of ''dispose'', decimal_bytes layer]) (guac_protocol_send_dispose layer) \<and>
   writes (instruction [bytes_of ''distort'', decimal_bytes layer, printf_g d1, printf_g d2, printf_g d3, printf_g d4, printf_g d5, printf_g d6]) (guac_protocol_send_distort printf_g layer d1 d2 d3 d4 d5 d6) \<and>
   writes (instruction [bytes_of ''identity'', decimal_bytes layer]) (guac_protocol_send_identity layer) \<and>
   writes (instruction [bytes_of ''lfill'', decimal_bytes mode, decimal_bytes layer, decimal_bytes srcl]) (guac_protocol_send_lfill mode layer srcl) \<and>
   writes (instruction [bytes_of ''line'', decimal_bytes layer, decimal_bytes x, decimal_bytes y]) (guac_protocol_send_line layer x y) \<and>
   writes (instruction [bytes_of ''lstroke'', decimal_bytes mode, decimal_bytes layer, decimal_bytes cap, decimal_bytes join, decimal_bytes thickness, decimal_bytes srcl]) (guac_protocol_send_lstroke mode layer cap join thickness srcl) \<and>
   writes (instruction [bytes_of ''move'', decimal_bytes layer, decimal_bytes parent, decimal_bytes x, decimal_bytes y, decimal_bytes z]) (guac_protocol_send_move layer parent x y z) \<and>
   writes (instruction [bytes_of ''pop'', decimal_bytes layer]) (guac_protocol_send_pop layer) \<and>
   writes (instruction [bytes_of ''push'', decimal_bytes layer]) (guac_protocol_send_push layer) \<and>
   writes (instruction [bytes_of ''rect'', decimal_bytes layer, decimal_bytes x, decimal_bytes y, decimal_bytes width, decimal_bytes height]) (guac_protocol_send_rect layer x y width height) \<and>
   writes (instruction [bytes_of ''reset'', decimal_bytes layer]) (guac_protocol_send_reset layer) \<and>
   writes (instruction [bytes_of ''shade'', decimal_bytes layer, decimal_bytes a]) (guac_protocol_send_shade layer a) \<and>
   writes (instruction [bytes_of ''size'', decimal_bytes layer, decimal_bytes w, decimal_bytes h]) (guac_protocol_send_size layer w h) \<and>
   writes (instruction [bytes_of ''start'', decimal_bytes layer, decimal_bytes x, decimal_bytes y]) (guac_protocol_send_start layer x y) \<and>
   writes (instruction [bytes_of ''transfer'', decimal_bytes srcl, decimal_bytes srcx, decimal_bytes srcy, decimal_bytes w, decimal_bytes h, decimal_bytes func, decimal_bytes dstl, decimal_bytes dstx, decimal_bytes dsty]) (guac_protocol_send_transfer srcl srcx srcy w h func dstl dstx dsty) \<and>
   writes (instruction [bytes_of ''transform'', decimal_bytes layer, printf_g d1, printf_g d2, printf_g d3, printf_g d4, printf_g d5, printf_g d6]) (guac_protocol_send_transform printf_g layer d1 d2 d3 d4 d5 d6)"
  by (intro conjI sends)

text \<open>
  The input event instructions: whatever the write handler does, each sender reports success only
  when the complete instruction, with its opcode and arguments in order and the length of every
  element, was accepted (and always does on a socket that accepts its output), otherwise leaves an initial
  segment of it, and always releases the lock it took.
\<close>

theorem input_instructions:
  "writes (instruction [bytes_of ''key'', decimal_bytes keysym, bytes_of (if pressed \<noteq> 0 then ''1'' else ''0''), decimal_bytes timestamp]) (guac_protocol_send_key keysym pressed timestamp) \<and>
   writes (instruction [bytes_of ''mouse'', decimal_bytes x, decimal_bytes y, decimal_bytes button_mask, decimal_bytes timestamp]) (guac_protocol_send_mouse x y button_mask timestamp) \<and>
   writes (instruction [bytes_of ''touch'', decimal_bytes ident, decimal_bytes x, decimal_bytes y, decimal_bytes x_radius, decimal_bytes y_radius, printf_g angle, printf_g force, decimal_bytes timestamp]) (guac_protocol_send_touch printf_g ident x y x_radius y_radius angle force timestamp)"
  by (intro conjI sends)

text \<open>
  C23. Sending data as blobs succeeds on a socket that accepts everything: the data is cut into
  pieces of at most 6048 bytes in order, each sent as one blob instruction whose announced length
  is that of its base64 text, and the decoder recovers each piece from that text.
\<close>

theorem blobs_carry_data:
  "emits (concat (map (\<lambda>c. instruction [bytes_of ''blob'', decimal_bytes stream, encode_ready c]) (blob_chunks data)))
     (guac_protocol_send_blobs stream data) \<and>
   concat (blob_chunks data) = data \<and>
   list_all (\<lambda>c. length c \<le> 6048 \<and>
     (case guac_protocol_decode_base64 (encode_ready c @ [0]) of
        Inl _ \<Rightarrow> False | Inr (n, buf) \<Rightarrow> take n buf = c)) (blob_chunks data)"
proof (intro conjI)
  have "case guac_protocol_decode_base64 (encode_ready c @ [0]) of
      Inl _ \<Rightarrow> False | Inr (n, buf) \<Rightarrow> take n buf = c" for c
    using decode_base64_loop_eq [of 0 0 "encode_ready c @ [0]" 0 0] decode_encode [of 0 c "[]"]
    by (simp add: guac_protocol_decode_base64_def overwrite_def)
  then show "list_all (\<lambda>c. length c \<le> 6048 \<and>
     (case guac_protocol_decode_base64 (encode_ready c @ [0]) of
        Inl _ \<Rightarrow> False | Inr (n, buf) \<Rightarrow> take n buf = c)) (blob_chunks data)"
    using length_blob_chunks [of _ data] by (simp add: list_all_iff GUAC_PROTOCOL_BLOB_MAX_LENGTH_def)
qed (rule emits_blobs concat_blob_chunks)+

text \<open>
  A failed write of base64 data goes unnoticed: flushing the ready buffer reports success
  whatever the write handler does, and a blob whose payload could not be written is completed
  without it and reported as sent.
\<close>

theorem blob_failure_unreported:
  "fst (guac_socket_flush_base64 socket) = 0 \<and>
   (case guac_protocol_send_blob 0 [1, 2, 3]
      \<lparr>written = [], outcomes = replicate 7 (Some 100) @ [None], flush_outcomes = [], held = 0, ready = [],
       current_timestamp = 0, last_write_timestamp = 0\<rparr>
    of (r, socket') \<Rightarrow> r = 0 \<and> written socket' = bytes_of ''4.blob,1.0,4.;'')"
  by (rule conjI [OF flush_base64_never_fails]) code_simp

end
