(* ===== verification/Senders.thy ===== *)
theory Senders
  imports Protocol
begin

text \<open>
  The calls by which the code sends an instruction of the protocol in one piece, as data: the function of
  \<open>src/src/libguac/protocol.c\<close> each call runs, and the instruction it stands for, the opcode and the arguments in the
  order in which the protocol's reference and \<open>protocol.h\<close> name them. Blobs, whose payload is written in base64, are
  the subject of \<open>Protocol\<close>. Numbers of type \<open>double\<close> are printed by \<open>printf_g\<close>.
\<close>

section \<open>Calls\<close>

datatype control_call =
    Send_args "u8 list list"
  | Send_connect "u8 list list"
  | Send_select "u8 list"
  | Send_ready "u8 list"
  | Send_name "u8 list"
  | Send_disconnect
  | Send_nop
  | Send_error "u8 list" int
  | Send_log "u8 list"
  | Send_sync int int
  | Send_msg int "u8 list list"
  | Send_set int "u8 list" "u8 list"
  | Send_set_int int "u8 list" int

datatype stream_call =
    Send_ack int "u8 list" int
  | Send_argv int "u8 list" "u8 list"
  | Send_audio int "u8 list"
  | Send_body int int "u8 list" "u8 list"
  | Send_clipboard int "u8 list"
  | Send_end int
  | Send_file int "u8 list" "u8 list"
  | Send_filesystem int "u8 list"
  | Send_img int int int "u8 list" int int
  | Send_pipe int "u8 list" "u8 list"
  | Send_undefine int
  | Send_video int int "u8 list"
  | Send_nest int "u8 list"

datatype 'd path_call =
    Send_arc int int int int 'd 'd int
  | Send_cfill int int int int int int
  | Send_clip int
  | Send_close int
  | Send_cstroke int int int int int int int int int
  | Send_curve int int int int int int int
  | Send_lfill int int int
  | Send_line int int int
  | Send_lstroke int int int int int int
  | Send_rect int int int int int
  | Send_start int int int

datatype 'd layer_call =
    Send_copy int int int int int int int int int
  | Send_cursor int int int int int int int
  | Send_dispose int
  | Send_distort int 'd 'd 'd 'd 'd 'd
  | Send_identity int
  | Send_move int int int int int
  | Send_pop int
  | Send_push int
  | Send_reset int
  | Send_shade int int
  | Send_size int int int
  | Send_transfer int int int int int int int int int
  | Send_transform int 'd 'd 'd 'd 'd 'd

datatype 'd event_call =
    Send_key int int int
  | Send_mouse int int int int
  | Send_touch int int int int int 'd 'd int

datatype 'd protocol_call =
    Control control_call
  | On_stream stream_call
  | On_path "'d path_call"
  | On_layer "'d layer_call"
  | Event "'d event_call"

section \<open>Running a call\<close>

primrec perform_control :: "control_call \<Rightarrow> socket_op" where
  "perform_control (Send_args args) = guac_protocol_send_args args"
| "perform_control (Send_connect args) = guac_protocol_send_connect args"
| "perform_control (Send_select protocol) = guac_protocol_send_select protocol"
| "perform_control (Send_ready ident) = guac_protocol_send_ready ident"
| "perform_control (Send_name name) = guac_protocol_send_name name"
| "perform_control Send_disconnect = guac_protocol_send_disconnect"
| "perform_control Send_nop = guac_protocol_send_nop"
| "perform_control (Send_error error_text status) = guac_protocol_send_error error_text status"
| "perform_control (Send_log message) = guac_protocol_send_log message"
| "perform_control (Send_sync timestamp frames) = guac_protocol_send_sync timestamp frames"
| "perform_control (Send_msg msg args) = guac_protocol_send_msg msg args"
| "perform_control (Send_set layer name val) = guac_protocol_send_set layer name val"
| "perform_control (Send_set_int layer name val) = guac_protocol_send_set_int layer name val"

primrec perform_stream :: "stream_call \<Rightarrow> socket_op" where
  "perform_stream (Send_ack stream error_text status) = guac_protocol_send_ack stream error_text status"
| "perform_stream (Send_argv stream mimetype name) = guac_protocol_send_argv stream mimetype name"
| "perform_stream (Send_audio stream mimetype) = guac_protocol_send_audio stream mimetype"
| "perform_stream (Send_body object stream mimetype name) = guac_protocol_send_body object stream mimetype name"
| "perform_stream (Send_clipboard stream mimetype) = guac_protocol_send_clipboard stream mimetype"
| "perform_stream (Send_end stream) = guac_protocol_send_end stream"
| "perform_stream (Send_file stream mimetype name) = guac_protocol_send_file stream mimetype name"
| "perform_stream (Send_filesystem object name) = guac_protocol_send_filesystem object name"
| "perform_stream (Send_img stream mode layer mimetype x y) = guac_protocol_send_img stream mode layer mimetype x y"
| "perform_stream (Send_pipe stream mimetype name) = guac_protocol_send_pipe stream mimetype name"
| "perform_stream (Send_undefine object) = guac_protocol_send_undefine object"
| "perform_stream (Send_video stream layer mimetype) = guac_protocol_send_video stream layer mimetype"
| "perform_stream (Send_nest index data) = guac_protocol_send_nest index data"

primrec perform_path :: "('d \<Rightarrow> u8 list) \<Rightarrow> 'd path_call \<Rightarrow> socket_op" where
  "perform_path printf_g (Send_arc layer x y radius startAngle endAngle negative) = guac_protocol_send_arc printf_g layer x y radius startAngle endAngle negative"
| "perform_path printf_g (Send_cfill mode layer r g b a) = guac_protocol_send_cfill mode layer r g b a"
| "perform_path printf_g (Send_clip layer) = guac_protocol_send_clip layer"
| "perform_path printf_g (Send_close layer) = guac_protocol_send_close layer"
| "perform_path printf_g (Send_cstroke mode layer cap join thickness r g b a) = guac_protocol_send_cstroke mode layer cap join thickness r g b a"
| "perform_path printf_g (Send_curve layer cp1x cp1y cp2x cp2y x y) = guac_protocol_send_curve layer cp1x cp1y cp2x cp2y x y"
| "perform_path printf_g (Send_lfill mode layer srcl) = guac_protocol_send_lfill mode layer srcl"
| "perform_path printf_g (Send_line layer x y) = guac_protocol_send_line layer x y"
| "perform_path printf_g (Send_lstroke mode layer cap join thickness srcl) = guac_protocol_send_lstroke mode layer cap join thickness srcl"
| "perform_path printf_g (Send_rect layer x y width height) = guac_protocol_send_rect layer x y width height"
| "perform_path printf_g (Send_start layer x y) = guac_protocol_send_start layer x y"

primrec perform_layer :: "('d \<Rightarrow> u8 list) \<Rightarrow> 'd layer_call \<Rightarrow> socket_op" where
  "perform_layer printf_g (Send_copy srcl srcx srcy w h mode dstl dstx dsty) = guac_protocol_send_copy srcl srcx srcy w h mode dstl dstx dsty"
| "perform_layer printf_g (Send_cursor x y srcl srcx srcy w h) = guac_protocol_send_cursor x y srcl srcx srcy w h"
| "perform_layer printf_g (Send_dispose layer) = guac_protocol_send_dispose layer"
| "perform_layer printf_g (Send_distort layer a b c d e f) = guac_protocol_send_distort printf_g layer a b c d e f"
| "perform_layer printf_g (Send_identity layer) = guac_protocol_send_identity layer"
| "perform_layer printf_g (Send_move layer parent x y z) = guac_protocol_send_move layer parent x y z"
| "perform_layer printf_g (Send_pop layer) = guac_protocol_send_pop layer"
| "perform_layer printf_g (Send_push layer) = guac_protocol_send_push layer"
| "perform_layer printf_g (Send_reset layer) = guac_protocol_send_reset layer"
| "perform_layer printf_g (Send_shade layer a) = guac_protocol_send_shade layer a"
| "perform_layer printf_g (Send_size layer w h) = guac_protocol_send_size layer w h"
| "perform_layer printf_g (Send_transfer srcl srcx srcy w h func dstl dstx dsty) = guac_protocol_send_transfer srcl srcx srcy w h func dstl dstx dsty"
| "perform_layer printf_g (Send_transform layer a b c d e f) = guac_protocol_send_transform printf_g layer a b c d e f"

primrec perform_event :: "('d \<Rightarrow> u8 list) \<Rightarrow> 'd event_call \<Rightarrow> socket_op" where
  "perform_event printf_g (Send_key keysym pressed timestamp) = guac_protocol_send_key keysym pressed timestamp"
| "perform_event printf_g (Send_mouse x y button_mask timestamp) = guac_protocol_send_mouse x y button_mask timestamp"
| "perform_event printf_g (Send_touch ident x y x_radius y_radius angle force timestamp) = guac_protocol_send_touch printf_g ident x y x_radius y_radius angle force timestamp"

fun perform :: "('d \<Rightarrow> u8 list) \<Rightarrow> 'd protocol_call \<Rightarrow> socket_op" where
  "perform printf_g (Control c) = perform_control c"
| "perform printf_g (On_stream c) = perform_stream c"
| "perform printf_g (On_path c) = perform_path printf_g c"
| "perform printf_g (On_layer c) = perform_layer printf_g c"
| "perform printf_g (Event c) = perform_event printf_g c"

section \<open>The instruction of a call\<close>

primrec control_elements :: "control_call \<Rightarrow> u8 list list" where
  "control_elements (Send_args args) = (bytes_of ''args'' # bytes_of GUACAMOLE_PROTOCOL_VERSION # args)"
| "control_elements (Send_connect args) = (bytes_of ''connect'' # args)"
| "control_elements (Send_select protocol) = [bytes_of ''select'', protocol]"
| "control_elements (Send_ready ident) = [bytes_of ''ready'', ident]"
| "control_elements (Send_name name) = [bytes_of ''name'', name]"
| "control_elements Send_disconnect = [bytes_of ''disconnect'']"
| "control_elements Send_nop = [bytes_of ''nop'']"
| "control_elements (Send_error error_text status) = [bytes_of ''error'', error_text, decimal_bytes status]"
| "control_elements (Send_log message) = [bytes_of ''log'', take 4095 message]"
| "control_elements (Send_sync timestamp frames) = [bytes_of ''sync'', decimal_bytes timestamp, decimal_bytes frames]"
| "control_elements (Send_msg msg args) = (bytes_of ''msg'' # decimal_bytes msg # args)"
| "control_elements (Send_set layer name val) = [bytes_of ''set'', decimal_bytes layer, name, val]"
| "control_elements (Send_set_int layer name val) = [bytes_of ''set'', decimal_bytes layer, name, decimal_bytes val]"

primrec stream_elements :: "stream_call \<Rightarrow> u8 list list" where
  "stream_elements (Send_ack stream error_text status) = [bytes_of ''ack'', decimal_bytes stream, error_text, decimal_bytes status]"
| "stream_elements (Send_argv stream mimetype name) = [bytes_of ''argv'', decimal_bytes stream, mimetype, name]"
| "stream_elements (Send_audio stream mimetype) = [bytes_of ''audio'', decimal_bytes stream, mimetype]"
| "stream_elements (Send_body object stream mimetype name) = [bytes_of ''body'', decimal_bytes object, decimal_bytes stream, mimetype, name]"
| "stream_elements (Send_clipboard stream mimetype) = [bytes_of ''clipboard'', decimal_bytes stream, mimetype]"
| "stream_elements (Send_end stream) = [bytes_of ''end'', decimal_bytes stream]"
| "stream_elements (Send_file stream mimetype name) = [bytes_of ''file'', decimal_bytes stream, mimetype, name]"
| "stream_elements (Send_filesystem object name) = [bytes_of ''filesystem'', decimal_bytes object, name]"
| "stream_elements (Send_img stream mode layer mimetype x y) =
     [bytes_of ''img'', decimal_bytes stream, decimal_bytes mode, decimal_bytes layer, mimetype, decimal_bytes x, decimal_bytes y]"
| "stream_elements (Send_pipe stream mimetype name) = [bytes_of ''pipe'', decimal_bytes stream, mimetype, name]"
| "stream_elements (Send_undefine object) = [bytes_of ''undefine'', decimal_bytes object]"
| "stream_elements (Send_video stream layer mimetype) = [bytes_of ''video'', decimal_bytes stream, decimal_bytes layer, mimetype]"
| "stream_elements (Send_nest index data) = [bytes_of ''nest'', decimal_bytes index, data]"

primrec path_elements :: "('d \<Rightarrow> u8 list) \<Rightarrow> 'd path_call \<Rightarrow> u8 list list" where
  "path_elements printf_g (Send_arc layer x y radius startAngle endAngle negative) =
     [bytes_of ''arc'', decimal_bytes layer, decimal_bytes x, decimal_bytes y, decimal_bytes radius, printf_g startAngle, printf_g endAngle, bytes_of (if negative \<noteq> 0 then ''1'' else ''0'')]"
| "path_elements printf_g (Send_cfill mode layer r g b a) =
     [bytes_of ''cfill'', decimal_bytes mode, decimal_bytes layer, decimal_bytes r, decimal_bytes g, decimal_bytes b, decimal_bytes a]"
| "path_elements printf_g (Send_clip layer) = [bytes_of ''clip'', decimal_bytes layer]"
| "path_elements printf_g (Send_close layer) = [bytes_of ''close'', decimal_bytes layer]"
| "path_elements printf_g (Send_cstroke mode layer cap join thickness r g b a) =
     [bytes_of ''cstroke'', decimal_bytes mode, decimal_bytes layer, decimal_bytes cap, decimal_bytes join, decimal_bytes thickness, decimal_bytes r, decimal_bytes g, decimal_bytes b, decimal_bytes a]"
| "path_elements printf_g (Send_curve layer cp1x cp1y cp2x cp2y x y) =
     [bytes_of ''curve'', decimal_bytes layer, decimal_bytes cp1x, decimal_bytes cp1y, decimal_bytes cp2x, decimal_bytes cp2y, decimal_bytes x, decimal_bytes y]"
| "path_elements printf_g (Send_lfill mode layer srcl) = [bytes_of ''lfill'', decimal_bytes mode, decimal_bytes layer, decimal_bytes srcl]"
| "path_elements printf_g (Send_line layer x y) = [bytes_of ''line'', decimal_bytes layer, decimal_bytes x, decimal_bytes y]"
| "path_elements printf_g (Send_lstroke mode layer cap join thickness srcl) =
     [bytes_of ''lstroke'', decimal_bytes mode, decimal_bytes layer, decimal_bytes cap, decimal_bytes join, decimal_bytes thickness, decimal_bytes srcl]"
| "path_elements printf_g (Send_rect layer x y width height) =
     [bytes_of ''rect'', decimal_bytes layer, decimal_bytes x, decimal_bytes y, decimal_bytes width, decimal_bytes height]"
| "path_elements printf_g (Send_start layer x y) = [bytes_of ''start'', decimal_bytes layer, decimal_bytes x, decimal_bytes y]"

primrec layer_elements :: "('d \<Rightarrow> u8 list) \<Rightarrow> 'd layer_call \<Rightarrow> u8 list list" where
  "layer_elements printf_g (Send_copy srcl srcx srcy w h mode dstl dstx dsty) =
     [bytes_of ''copy'', decimal_bytes srcl, decimal_bytes srcx, decimal_bytes srcy, decimal_bytes w, decimal_bytes h, decimal_bytes mode, decimal_bytes dstl, decimal_bytes dstx, decimal_bytes dsty]"
| "layer_elements printf_g (Send_cursor x y srcl srcx srcy w h) =
     [bytes_of ''cursor'', decimal_bytes x, decimal_bytes y, decimal_bytes srcl, decimal_bytes srcx, decimal_bytes srcy, decimal_bytes w, decimal_bytes h]"
| "layer_elements printf_g (Send_dispose layer) = [bytes_of ''dispose'', decimal_bytes layer]"
| "layer_elements printf_g (Send_distort layer a b c d e f) =
     [bytes_of ''distort'', decimal_bytes layer, printf_g a, printf_g b, printf_g c, printf_g d, printf_g e, printf_g f]"
| "layer_elements printf_g (Send_identity layer) = [bytes_of ''identity'', decimal_bytes layer]"
| "layer_elements printf_g (Send_move layer parent x y z) =
     [bytes_of ''move'', decimal_bytes layer, decimal_bytes parent, decimal_bytes x, decimal_bytes y, decimal_bytes z]"
| "layer_elements printf_g (Send_pop layer) = [bytes_of ''pop'', decimal_bytes layer]"
| "layer_elements printf_g (Send_push layer) = [bytes_of ''push'', decimal_bytes layer]"
| "layer_elements printf_g (Send_reset layer) = [bytes_of ''reset'', decimal_bytes layer]"
| "layer_elements printf_g (Send_shade layer a) = [bytes_of ''shade'', decimal_bytes layer, decimal_bytes a]"
| "layer_elements printf_g (Send_size layer w h) = [bytes_of ''size'', decimal_bytes layer, decimal_bytes w, decimal_bytes h]"
| "layer_elements printf_g (Send_transfer srcl srcx srcy w h func dstl dstx dsty) =
     [bytes_of ''transfer'', decimal_bytes srcl, decimal_bytes srcx, decimal_bytes srcy, decimal_bytes w, decimal_bytes h, decimal_bytes func, decimal_bytes dstl, decimal_bytes dstx, decimal_bytes dsty]"
| "layer_elements printf_g (Send_transform layer a b c d e f) =
     [bytes_of ''transform'', decimal_bytes layer, printf_g a, printf_g b, printf_g c, printf_g d, printf_g e, printf_g f]"

primrec event_elements :: "('d \<Rightarrow> u8 list) \<Rightarrow> 'd event_call \<Rightarrow> u8 list list" where
  "event_elements printf_g (Send_key keysym pressed timestamp) =
     [bytes_of ''key'', decimal_bytes keysym, bytes_of (if pressed \<noteq> 0 then ''1'' else ''0''), decimal_bytes timestamp]"
| "event_elements printf_g (Send_mouse x y button_mask timestamp) =
     [bytes_of ''mouse'', decimal_bytes x, decimal_bytes y, decimal_bytes button_mask, decimal_bytes timestamp]"
| "event_elements printf_g (Send_touch ident x y x_radius y_radius angle force timestamp) =
     [bytes_of ''touch'', decimal_bytes ident, decimal_bytes x, decimal_bytes y, decimal_bytes x_radius, decimal_bytes y_radius, printf_g angle, printf_g force, decimal_bytes timestamp]"

fun elements_of :: "('d \<Rightarrow> u8 list) \<Rightarrow> 'd protocol_call \<Rightarrow> u8 list list" where
  "elements_of printf_g (Control c) = control_elements c"
| "elements_of printf_g (On_stream c) = stream_elements c"
| "elements_of printf_g (On_path c) = path_elements printf_g c"
| "elements_of printf_g (On_layer c) = layer_elements printf_g c"
| "elements_of printf_g (Event c) = event_elements printf_g c"

section \<open>Every call writes its instruction\<close>

lemma perform_control_writes: "writes (instruction (control_elements c)) (perform_control c)"
  by (cases c) (simp_all only: perform_control.simps control_elements.simps sends)

lemma perform_stream_writes: "writes (instruction (stream_elements c)) (perform_stream c)"
  by (cases c) (simp_all only: perform_stream.simps stream_elements.simps sends)

lemma perform_path_writes: "writes (instruction (path_elements printf_g c)) (perform_path printf_g c)"
  by (cases c) (simp_all only: perform_path.simps path_elements.simps sends)

lemma perform_layer_writes: "writes (instruction (layer_elements printf_g c)) (perform_layer printf_g c)"
  by (cases c) (simp_all only: perform_layer.simps layer_elements.simps sends)

lemma perform_event_writes: "writes (instruction (event_elements printf_g c)) (perform_event printf_g c)"
  by (cases c) (simp_all only: perform_event.simps event_elements.simps sends)

lemma perform_writes: "writes (instruction (elements_of printf_g c)) (perform printf_g c)"
  by (cases c) (simp_all add: perform_control_writes perform_stream_writes perform_path_writes perform_layer_writes perform_event_writes)

end
