(* ===== verification/Pool.thy ===== *)
theory Pool
  imports Prelude
begin

text \<open>
  The pool of reusable non-negative integers (\<open>src/src/libguac/pool.c\<close>), from which layers,
  buffers, streams and objects take their indices. The chain of freed integers from \<open>__head\<close> to
  \<open>__tail\<close> is a list. Each operation runs between locking and unlocking \<open>__lock\<close>, so it is one
  step here; whether the node allocated by \<open>guac_pool_free_int\<close> is granted is an argument.
\<close>

section \<open>Definitions\<close>

record guac_pool =
  min_size :: int
  active :: int
  next_value :: int
  freed :: "int list"

definition guac_pool_alloc :: "int \<Rightarrow> guac_pool" where
  "guac_pool_alloc sz = \<lparr>min_size = sz, active = 0, next_value = 0, freed = []\<rparr>"

text \<open>\<open>__guac_pool_next_int\<close>, which runs with the lock held.\<close>

definition pool_next_int :: "guac_pool \<Rightarrow> (int \<times> guac_pool) result" where
  "pool_next_int p =
     guac_assert (next_value p < INT_MAX) (
     guac_assert (active p < INT_MAX) (
       let p = p\<lparr>active := active p + 1\<rparr>;
           (value, p) =
             (if freed p = [] \<or> next_value p < min_size p
              then (next_value p, p\<lparr>next_value := next_value p + 1\<rparr>)
              else (hd (freed p), p\<lparr>freed := tl (freed p)\<rparr>))
       in guac_assert (value \<ge> 0) (Inr (value, p))))"

definition guac_pool_next_int :: "guac_pool \<Rightarrow> (int \<times> guac_pool) result" where
  "guac_pool_next_int p = pool_next_int p"

definition guac_pool_next_int_below :: "guac_pool \<Rightarrow> int \<Rightarrow> (int \<times> guac_pool) result" where
  "guac_pool_next_int_below p limit =
     (if active p \<ge> limit \<or> (next_value p \<ge> limit \<and> freed p = []) then Inr (-1, p)
      else bindr (pool_next_int p) (\<lambda>(value, p'). guac_assert (value < limit) (Inr (value, p'))))"

definition guac_pool_next_int_below_or_die :: "guac_pool \<Rightarrow> int \<Rightarrow> (int \<times> guac_pool) result" where
  "guac_pool_next_int_below_or_die p limit =
     bindr (guac_pool_next_int_below p limit)
       (\<lambda>(value, p'). guac_assert (value \<ge> 0) (Inr (value, p')))"

definition guac_pool_free_int :: "bool \<Rightarrow> guac_pool \<Rightarrow> int \<Rightarrow> guac_pool result" where
  "guac_pool_free_int granted p value =
     defined granted (
     guac_assert (active p > 0)
       (Inr (p\<lparr>active := active p - 1, freed := freed p @ [value]\<rparr>)))"

section \<open>Invariant\<close>

text \<open>
  The integers handed out and not yet returned, \<open>out\<close>, and the freed ones partition the
  integers below \<open>__next_value\<close>, and \<open>active\<close> counts the former.
\<close>

definition pool_inv :: "guac_pool \<Rightarrow> int set \<Rightarrow> bool" where
  "pool_inv p out \<longleftrightarrow>
     0 \<le> next_value p \<and> next_value p \<le> INT_MAX \<and>
     distinct (freed p) \<and> set (freed p) \<inter> out = {} \<and>
     set (freed p) \<union> out = {0..<next_value p} \<and> active p = int (card out)"

lemma pool_inv_alloc: "pool_inv (guac_pool_alloc sz) {}"
  by (simp add: pool_inv_def guac_pool_alloc_def INT_MAX_def)

lemma pool_inv_finite: "pool_inv p out \<Longrightarrow> finite out"
  unfolding pool_inv_def by (metis finite_Un finite_atLeastLessThan_int)

lemma pool_inv_active:
  assumes "pool_inv p out"
  shows "active p + int (length (freed p)) = next_value p"
proof -
  have "card (set (freed p) \<union> out) = card (set (freed p)) + card out"
    using assms pool_inv_finite [OF assms] by (intro card_Un_disjoint) (auto simp: pool_inv_def)
  then have "nat (next_value p) = length (freed p) + card out"
    using assms by (simp add: pool_inv_def distinct_card)
  then show ?thesis using assms unfolding pool_inv_def by linarith
qed

lemma pool_next_int_cases:
  assumes inv: "pool_inv p out" and run: "pool_next_int p = Inr (v, p')"
  obtains (new) "freed p = [] \<or> next_value p < min_size p" "v = next_value p"
      "p' = p\<lparr>active := active p + 1, next_value := next_value p + 1\<rparr>"
    | (reused) "freed p \<noteq> []" "min_size p \<le> next_value p" "v = hd (freed p)"
      "p' = p\<lparr>active := active p + 1, freed := tl (freed p)\<rparr>"
  using run by (auto simp: pool_next_int_def Let_def fault_iff split: if_splits)

lemma pool_next_int_fresh:
  assumes inv: "pool_inv p out" and run: "pool_next_int p = Inr (v, p')"
  shows "v \<notin> out \<and> 0 \<le> v \<and> v < next_value p' \<and> pool_inv p' (insert v out)"
proof -
  have lt: "next_value p < INT_MAX" using run by (simp add: pool_next_int_def fault_iff)
  note fin = pool_inv_finite [OF inv]
  from inv run show ?thesis
  proof (cases rule: pool_next_int_cases)
    case new
    have "v \<notin> out" using inv new by (auto simp: pool_inv_def)
    then show ?thesis using inv new lt fin by (auto simp: pool_inv_def)
  next
    case reused
    then obtain vs where fs: "freed p = v # vs" by (cases "freed p") auto
    have "v \<notin> out" using inv fs by (auto simp: pool_inv_def)
    moreover have "v \<in> {0..<next_value p}"
      using inv fs unfolding pool_inv_def by (metis UnI1 list.set_intros(1))
    moreover have part: "set vs \<union> insert v out = {0..<next_value p}" "set vs \<inter> insert v out = {}" "distinct vs"
      using inv fs by (simp_all add: pool_inv_def)
    moreover have cnt: "active p + 1 = int (card (insert v out))"
      using \<open>v \<notin> out\<close> fin inv by (simp add: pool_inv_def)
    moreover have p': "freed p' = vs" "next_value p' = next_value p" "active p' = active p + 1"
      using reused(4) fs by simp_all
    moreover have bnd: "0 \<le> next_value p" "next_value p \<le> INT_MAX" using inv by (simp_all add: pool_inv_def)
    moreover have "pool_inv p' (insert v out)"
      unfolding pool_inv_def p' using part cnt bnd by blast
    ultimately show ?thesis unfolding p' by (meson atLeastLessThan_iff)
  qed
qed

lemma pool_next_int_progress:
  assumes "pool_inv p out" "next_value p < INT_MAX"
  shows "\<exists>v p'. pool_next_int p = Inr (v, p')"
proof -
  have "active p < INT_MAX" using pool_inv_active [OF assms(1)] assms(2) by simp
  moreover have "0 \<le> hd (freed p)" if "freed p \<noteq> []"
  proof -
    have "hd (freed p) \<in> {0..<next_value p}"
      using assms(1) hd_in_set [OF that] by (auto simp: pool_inv_def)
    then show ?thesis by simp
  qed
  moreover have "0 \<le> next_value p" using assms(1) by (simp add: pool_inv_def)
  ultimately show ?thesis using assms(2) by (auto simp: pool_next_int_def Let_def)
qed

lemma pool_free_int_returns:
  assumes inv: "pool_inv p out" and v: "v \<in> out"
  shows "guac_pool_free_int True p v = Inr (p\<lparr>active := active p - 1, freed := freed p @ [v]\<rparr>) \<and>
         pool_inv (p\<lparr>active := active p - 1, freed := freed p @ [v]\<rparr>) (out - {v})"
proof -
  note fin = pool_inv_finite [OF inv]
  have "0 < card out" using fin v by (auto simp: card_gt_0_iff)
  moreover have "card (out - {v}) = card out - 1" using fin v by simp
  ultimately show ?thesis
    using inv v by (auto simp: pool_inv_def guac_pool_free_int_def)
qed

section \<open>The interface of an index pool\<close>

text \<open>
  What the allocators of layers, buffers, streams and objects rely on: an integer taken is not
  one already handed out, and one that is handed out can be given back.
\<close>

locale index_pool =
  fixes inv :: "'p \<Rightarrow> int set \<Rightarrow> bool"
    and take_int :: "'p \<Rightarrow> (int \<times> 'p) result"
    and give_int :: "'p \<Rightarrow> int \<Rightarrow> 'p result"
  assumes take_fresh: "inv p out \<Longrightarrow> take_int p = Inr (v, p') \<Longrightarrow>
      v \<notin> out \<and> 0 \<le> v \<and> inv p' (insert v out)"
    and give_back: "inv p out \<Longrightarrow> v \<in> out \<Longrightarrow> \<exists>p'. give_int p v = Inr p' \<and> inv p' (out - {v})"
begin

fun take_many :: "nat \<Rightarrow> 'p \<Rightarrow> (int list \<times> 'p) result" where
  "take_many 0 p = Inr ([], p)"
| "take_many (Suc n) p =
     bindr (take_int p) (\<lambda>(v, p'). bindr (take_many n p') (\<lambda>(vs, p''). Inr (v # vs, p'')))"

lemma take_many_distinct:
  "inv p out \<Longrightarrow> take_many n p = Inr (vs, p') \<Longrightarrow>
     distinct vs \<and> set vs \<inter> out = {} \<and> length vs = n \<and> inv p' (set vs \<union> out)"
proof (induction n arbitrary: p out vs)
  case 0
  then show ?case by simp
next
  case (Suc n)
  from Suc.prems(2) obtain v p1 ws where run: "take_int p = Inr (v, p1)"
    "take_many n p1 = Inr (ws, p')" "vs = v # ws"
    by (auto simp: fault_iff)
  have "v \<notin> out" "inv p1 (insert v out)" using take_fresh [OF Suc.prems(1) run(1)] by auto
  with Suc.IH [OF _ run(2)] show ?case unfolding run(3) by fastforce
qed

text \<open>Giving an integer back and taking again never yields one still in use.\<close>

lemma give_take_fresh:
  assumes "inv p out" "v \<in> out" "give_int p v = Inr p'" "take_int p' = Inr (w, p'')"
  shows "w \<notin> out - {v}"
  using give_back [OF assms(1,2)] take_fresh [of p' "out - {v}" w p''] assms(3,4) by auto

end

interpretation pool: index_pool pool_inv guac_pool_next_int "guac_pool_free_int True"
proof unfold_locales
  show "v \<notin> out \<and> 0 \<le> v \<and> pool_inv p' (insert v out)"
    if "pool_inv p out" "guac_pool_next_int p = Inr (v, p')" for p out v p'
    using pool_next_int_fresh [of p out v p'] that by (simp add: guac_pool_next_int_def)
  show "\<exists>p'. guac_pool_free_int True p v = Inr p' \<and> pool_inv p' (out - {v})"
    if "pool_inv p out" "v \<in> out" for p out v
    using pool_free_int_returns [OF that] by blast
qed

section \<open>Limited pools\<close>

text \<open>
  A pool that is only ever used below one limit, which its minimum size does not exceed: no
  integer of it reaches the limit.
\<close>

definition pool_below_inv :: "int \<Rightarrow> guac_pool \<Rightarrow> int set \<Rightarrow> bool" where
  "pool_below_inv limit p out \<longleftrightarrow>
     pool_inv p out \<and> min_size p \<le> limit \<and> next_value p \<le> limit \<and> limit < INT_MAX"

lemma pool_below_full:
  assumes "pool_below_inv limit p out"
  shows "active p \<ge> limit \<or> (next_value p \<ge> limit \<and> freed p = []) \<longleftrightarrow> int (card out) = limit"
  using assms pool_inv_active [of p out] by (auto simp: pool_below_inv_def pool_inv_def)

lemma pool_below_available:
  assumes inv: "pool_below_inv limit p out" and room: "int (card out) \<noteq> limit"
  shows "\<exists>v p'. guac_pool_next_int_below p limit = Inr (v, p') \<and> 0 \<le> v \<and> v < limit \<and> v \<notin> out \<and>
    pool_below_inv limit p' (insert v out)"
proof -
  have p: "pool_inv p out" using inv by (simp add: pool_below_inv_def)
  have "next_value p < INT_MAX" using inv by (simp add: pool_below_inv_def)
  then obtain v p' where run: "pool_next_int p = Inr (v, p')"
    using pool_next_int_progress [OF p] by blast
  have not_full: "\<not> (active p \<ge> limit \<or> (next_value p \<ge> limit \<and> freed p = []))"
    using pool_below_full [OF inv] room by simp
  have "next_value p' \<le> limit \<and> min_size p' = min_size p"
    using p run
  proof (cases rule: pool_next_int_cases)
    case new
    then show ?thesis using inv not_full by (auto simp: pool_below_inv_def)
  next
    case reused
    then show ?thesis using inv by (simp add: pool_below_inv_def)
  qed
  moreover have "v \<notin> out \<and> 0 \<le> v \<and> v < next_value p' \<and> pool_inv p' (insert v out)"
    by (rule pool_next_int_fresh [OF p run])
  ultimately show ?thesis
    using run not_full inv by (auto simp: guac_pool_next_int_below_def pool_below_inv_def)
qed

lemma pool_below_exhausted:
  assumes "pool_below_inv limit p out" "int (card out) = limit"
  shows "guac_pool_next_int_below p limit = Inr (-1, p)"
  using pool_below_full [OF assms(1)] assms(2) by (simp add: guac_pool_next_int_below_def)

lemma pool_below_free:
  assumes "pool_below_inv limit p out" "v \<in> out"
  shows "\<exists>p'. guac_pool_free_int True p v = Inr p' \<and> pool_below_inv limit p' (out - {v})"
  using pool_free_int_returns [of p out v] assms by (auto simp: pool_below_inv_def)

section \<open>Properties\<close>

text \<open>
  C21. Integers handed out by a pool are pairwise distinct: any number of them taken in a row
  differ from each other and from everything handed out before, and none is negative.
\<close>

theorem pool_hands_out_distinct:
  assumes "pool_inv p out" "pool.take_many n p = Inr (vs, p')"
  shows "distinct vs \<and> set vs \<inter> out = {} \<and> length vs = n \<and> pool_inv p' (set vs \<union> out)"
  using pool.take_many_distinct [OF assms] by blast

theorem pool_hands_out_distinct_witness:
  "pool.take_many 3 (guac_pool_alloc 2) = Inr ([0, 1, 2],
       \<lparr>min_size = 2, active = 3, next_value = 3, freed = []\<rparr>) \<and> distinct [0 :: int, 1, 2]"
proof -
  have run: "pool.take_many 3 (guac_pool_alloc 2) = Inr ([0, 1, 2],
       \<lparr>min_size = 2, active = 3, next_value = 3, freed = []\<rparr>)"
    by (simp add: numeral_3_eq_3 guac_pool_next_int_def pool_next_int_def guac_pool_alloc_def INT_MAX_def)
  show ?thesis using run pool_hands_out_distinct [OF pool_inv_alloc run] by simp
qed

text \<open>
  A pool used below one limit never aborts and never returns a value that is in use or at or
  past the limit: it refuses (with -1, and unchanged) exactly when \<open>limit\<close> integers are out.
\<close>

theorem pool_below_total:
  assumes "pool_below_inv limit p out"
  shows "if int (card out) = limit then guac_pool_next_int_below p limit = Inr (-1, p)
         else \<exists>v p'. guac_pool_next_int_below p limit = Inr (v, p') \<and> 0 \<le> v \<and> v < limit \<and> v \<notin> out \<and>
              pool_below_inv limit p' (insert v out)"
  using pool_below_available [OF assms] pool_below_exhausted [OF assms] by simp

theorem pool_below_total_witness:
  "pool_below_inv 2 (guac_pool_alloc 0) {} \<and>
   (\<exists>v p'. guac_pool_next_int_below (guac_pool_alloc 0) 2 = Inr (v, p') \<and> 0 \<le> v \<and> v < 2)"
proof -
  have inv: "pool_below_inv 2 (guac_pool_alloc 0) {}"
    using pool_inv_alloc [of 0] by (simp add: pool_below_inv_def guac_pool_alloc_def INT_MAX_def)
  show ?thesis using inv pool_below_total [OF inv] by auto
qed

end
