(* ===== verification/Streams.thy ===== *)
theory Streams
  imports Pool
begin

text \<open>
  What takes indices from the pools: the output streams and objects of a user
  (\<open>src/src/libguac/user.c\<close>) and the layers, buffers and output streams of a client
  (\<open>src/src/libguac/client.c\<close>). A pointer to a stream or object is its position in the
  array that holds it; a layer, which is a separate block holding only its index, is that index.
  Handlers and data are pointers, of which only being null or not matters.
\<close>

section \<open>Users\<close>

record guac_stream =
  stream_index :: int
  stream_data :: "nat option"
  stream_ack_handler :: "nat option"
  stream_blob_handler :: "nat option"
  stream_end_handler :: "nat option"

record guac_object =
  object_index :: int
  object_data :: "nat option"
  object_get_handler :: "nat option"
  object_put_handler :: "nat option"

record guac_user =
  user_stream_pool :: guac_pool
  user_output_streams :: "guac_stream list"
  user_object_pool :: guac_pool
  user_objects :: "guac_object list"

definition GUAC_USER_MAX_STREAMS :: int where "GUAC_USER_MAX_STREAMS = 512"
definition GUAC_USER_MAX_OBJECTS :: int where "GUAC_USER_MAX_OBJECTS = 64"
definition GUAC_CLIENT_MAX_STREAMS :: int where "GUAC_CLIENT_MAX_STREAMS = 512"
definition GUAC_BUFFER_POOL_INITIAL_SIZE :: int where "GUAC_BUFFER_POOL_INITIAL_SIZE = 1024"

lemmas stream_limits = GUAC_USER_MAX_STREAMS_def GUAC_USER_MAX_OBJECTS_def
  GUAC_CLIENT_MAX_STREAMS_def GUAC_BUFFER_POOL_INITIAL_SIZE_def

text \<open>A slot of an array fresh from \<open>malloc\<close>: only its index is initialised, to -1.\<close>

definition closed_stream :: "guac_stream \<Rightarrow> guac_stream" where
  "closed_stream garbage = garbage\<lparr>stream_index := -1\<rparr>"

definition guac_user_alloc :: "guac_stream list \<Rightarrow> guac_object list \<Rightarrow> guac_user" where
  "guac_user_alloc garbage_streams garbage_objects =
     \<lparr>user_stream_pool = guac_pool_alloc 0,
      user_output_streams = map closed_stream garbage_streams,
      user_object_pool = guac_pool_alloc 0,
      user_objects = map (\<lambda>obj. obj\<lparr>object_index := -1\<rparr>) garbage_objects\<rparr>"

definition guac_user_alloc_stream :: "guac_user \<Rightarrow> (nat option \<times> guac_user) result" where
  "guac_user_alloc_stream user =
     bindr (guac_pool_next_int_below (user_stream_pool user) GUAC_USER_MAX_STREAMS)
       (\<lambda>(i, pool).
          if i < 0 then Inr (None, user\<lparr>user_stream_pool := pool\<rparr>)
          else defined (nat i < length (user_output_streams user))
            (Inr (Some (nat i),
               user\<lparr>user_stream_pool := pool,
                    user_output_streams := (user_output_streams user)
                      [nat i := \<lparr>stream_index = wrap32 (i * 2), stream_data = None,
                                 stream_ack_handler = None, stream_blob_handler = None,
                                 stream_end_handler = None\<rparr>]\<rparr>)))"

definition guac_user_free_stream :: "guac_user \<Rightarrow> nat \<Rightarrow> guac_user result" where
  "guac_user_free_stream user k =
     defined (k < length (user_output_streams user)) (
       let freed_index = stream_index (user_output_streams user ! k) in
       bindr (guac_pool_free_int True (user_stream_pool user) (cdiv freed_index 2))
         (\<lambda>pool. Inr (user\<lparr>user_stream_pool := pool,
                          user_output_streams := (user_output_streams user)
                            [k := closed_stream (user_output_streams user ! k)]\<rparr>)))"

definition guac_user_alloc_object :: "guac_user \<Rightarrow> (nat option \<times> guac_user) result" where
  "guac_user_alloc_object user =
     bindr (guac_pool_next_int_below (user_object_pool user) GUAC_USER_MAX_OBJECTS)
       (\<lambda>(i, pool).
          if i < 0 then Inr (None, user\<lparr>user_object_pool := pool\<rparr>)
          else defined (nat i < length (user_objects user))
            (Inr (Some (nat i),
               user\<lparr>user_object_pool := pool,
                    user_objects := (user_objects user)
                      [nat i := \<lparr>object_index = i, object_data = None,
                                 object_get_handler = None, object_put_handler = None\<rparr>]\<rparr>)))"

definition guac_user_free_object :: "guac_user \<Rightarrow> nat \<Rightarrow> guac_user result" where
  "guac_user_free_object user k =
     defined (k < length (user_objects user)) (
       let freed_index = object_index (user_objects user ! k) in
       bindr (guac_pool_free_int True (user_object_pool user) freed_index)
         (\<lambda>pool. Inr (user\<lparr>user_object_pool := pool,
                          user_objects := (user_objects user)
                            [k := (user_objects user ! k)\<lparr>object_index := -1\<rparr>]\<rparr>)))"

section \<open>Clients\<close>

record guac_client =
  client_layer_pool :: guac_pool
  client_buffer_pool :: guac_pool
  client_stream_pool :: guac_pool
  client_output_streams :: "guac_stream list"

definition guac_client_alloc :: "guac_stream list \<Rightarrow> guac_client" where
  "guac_client_alloc garbage_streams =
     \<lparr>client_layer_pool = guac_pool_alloc GUAC_BUFFER_POOL_INITIAL_SIZE,
      client_buffer_pool = guac_pool_alloc GUAC_BUFFER_POOL_INITIAL_SIZE,
      client_stream_pool = guac_pool_alloc 0,
      client_output_streams = map closed_stream garbage_streams\<rparr>"

definition guac_client_alloc_layer :: "guac_client \<Rightarrow> (int \<times> guac_client) result" where
  "guac_client_alloc_layer client =
     bindr (guac_pool_next_int (client_layer_pool client))
       (\<lambda>(v, pool). Inr (wrap32 (v + 1), client\<lparr>client_layer_pool := pool\<rparr>))"

definition guac_client_alloc_buffer :: "guac_client \<Rightarrow> (int \<times> guac_client) result" where
  "guac_client_alloc_buffer client =
     bindr (guac_pool_next_int (client_buffer_pool client))
       (\<lambda>(v, pool). Inr (wrap32 (- v - 1), client\<lparr>client_buffer_pool := pool\<rparr>))"

definition guac_client_free_buffer :: "guac_client \<Rightarrow> int \<Rightarrow> guac_client result" where
  "guac_client_free_buffer client layer =
     bindr (guac_pool_free_int True (client_buffer_pool client) (wrap32 (- layer - 1)))
       (\<lambda>pool. Inr (client\<lparr>client_buffer_pool := pool\<rparr>))"

definition guac_client_free_layer :: "guac_client \<Rightarrow> int \<Rightarrow> guac_client result" where
  "guac_client_free_layer client layer =
     bindr (guac_pool_free_int True (client_layer_pool client) layer)
       (\<lambda>pool. Inr (client\<lparr>client_layer_pool := pool\<rparr>))"

definition guac_client_alloc_stream :: "guac_client \<Rightarrow> (nat option \<times> guac_client) result" where
  "guac_client_alloc_stream client =
     bindr (guac_pool_next_int_below (client_stream_pool client) GUAC_CLIENT_MAX_STREAMS)
       (\<lambda>(i, pool).
          if i < 0 then Inr (None, client\<lparr>client_stream_pool := pool\<rparr>)
          else defined (nat i < length (client_output_streams client))
            (Inr (Some (nat i),
               client\<lparr>client_stream_pool := pool,
                      client_output_streams := (client_output_streams client)
                        [nat i := \<lparr>stream_index = wrap32 (i * 2 + 1), stream_data = None,
                                   stream_ack_handler = None, stream_blob_handler = None,
                                   stream_end_handler = None\<rparr>]\<rparr>)))"

definition guac_client_free_stream :: "guac_client \<Rightarrow> nat \<Rightarrow> guac_client result" where
  "guac_client_free_stream client k =
     defined (k < length (client_output_streams client)) (
       let freed_index = stream_index (client_output_streams client ! k) in
       bindr (guac_pool_free_int True (client_stream_pool client) (cdiv (wrap32 (freed_index - 1)) 2))
         (\<lambda>pool. Inr (client\<lparr>client_stream_pool := pool,
                            client_output_streams := (client_output_streams client)
                              [k := closed_stream (client_output_streams client ! k)]\<rparr>)))"

section \<open>Arrays of slots over a limited pool\<close>

text \<open>
  The three arrays work alike: slot \<open>k\<close> is in use when the pool has handed out \<open>k\<close>, and then
  holds an index computed from \<open>k\<close>; a slot not in use holds -1.
\<close>

locale slot_table =
  fixes limit :: int
    and enc :: "int \<Rightarrow> int" and dec :: "int \<Rightarrow> int"
    and pool_of :: "'s \<Rightarrow> guac_pool" and slots :: "'s \<Rightarrow> int list"
    and alloc :: "'s \<Rightarrow> (nat option \<times> 's) result" and free :: "'s \<Rightarrow> nat \<Rightarrow> 's result"
  assumes limit: "0 \<le> limit" "limit < INT_MAX"
    and dec_enc: "0 \<le> i \<Longrightarrow> i < limit \<Longrightarrow> dec (enc i) = i"
    and enc_nonneg: "0 \<le> i \<Longrightarrow> i < limit \<Longrightarrow> 0 \<le> enc i"
    and alloc_refuse: "guac_pool_next_int_below (pool_of s) limit = Inr (i, p) \<Longrightarrow> i < 0 \<Longrightarrow>
        \<exists>s'. alloc s = Inr (None, s') \<and> pool_of s' = p \<and> slots s' = slots s"
    and alloc_grant: "guac_pool_next_int_below (pool_of s) limit = Inr (i, p) \<Longrightarrow>
        0 \<le> i \<Longrightarrow> i < limit \<Longrightarrow> nat i < length (slots s) \<Longrightarrow>
        \<exists>s'. alloc s = Inr (Some (nat i), s') \<and> pool_of s' = p \<and> slots s' = (slots s)[nat i := enc i]"
    and free_slot: "k < length (slots s) \<Longrightarrow>
        guac_pool_free_int True (pool_of s) (dec (slots s ! k)) = Inr p \<Longrightarrow>
        \<exists>s'. free s k = Inr s' \<and> pool_of s' = p \<and> slots s' = (slots s)[k := -1]"
begin

definition table_inv :: "'s \<Rightarrow> bool" where
  "table_inv s \<longleftrightarrow> (\<exists>out. pool_below_inv limit (pool_of s) out \<and> length (slots s) = nat limit \<and>
     (\<forall>k < length (slots s). slots s ! k = (if int k \<in> out then enc (int k) else -1)))"

lemma table_inv_initial:
  assumes "pool_of s = guac_pool_alloc 0" "length (slots s) = nat limit" "set (slots s) \<subseteq> {-1}"
  shows "table_inv s"
proof -
  have "pool_below_inv limit (guac_pool_alloc 0) {}"
    using limit pool_inv_alloc [of 0] by (simp add: pool_below_inv_def guac_pool_alloc_def)
  moreover have "slots s ! k = -1" if "k < length (slots s)" for k
    using nth_mem [OF that] assms(3) by auto
  ultimately show ?thesis using assms(1,2) unfolding table_inv_def by auto
qed

text \<open>An index handed out belongs to the pool, so it is below the limit.\<close>

lemma out_below: "pool_below_inv limit p out \<Longrightarrow> v \<in> out \<Longrightarrow> 0 \<le> v \<and> v < limit"
  unfolding pool_below_inv_def pool_inv_def by fastforce

lemma alloc_total:
  assumes "table_inv s"
  shows "(\<exists>k s'. alloc s = Inr (Some k, s') \<and> k < length (slots s) \<and> slots s ! k = -1 \<and>
            slots s' = (slots s)[k := enc (int k)] \<and> table_inv s') \<or>
         (\<exists>s'. alloc s = Inr (None, s') \<and> -1 \<notin> set (slots s) \<and> slots s' = slots s \<and> table_inv s')"
proof -
  from assms obtain out where out: "pool_below_inv limit (pool_of s) out"
    "length (slots s) = nat limit"
    "\<forall>k < length (slots s). slots s ! k = (if int k \<in> out then enc (int k) else -1)"
    unfolding table_inv_def by blast
  show ?thesis
  proof (cases "int (card out) = limit")
    case True
    from alloc_refuse [OF pool_below_exhausted [OF out(1) True]]
    obtain s' where s': "alloc s = Inr (None, s')" "pool_of s' = pool_of s" "slots s' = slots s"
      by auto
    have "out \<subseteq> {0..<limit}" using out_below [OF out(1)] by auto
    then have "out = {0..<limit}"
      using True limit by (intro card_subset_eq) auto
    then have "-1 \<notin> set (slots s)"
      using out(2,3) enc_nonneg limit by (auto simp: in_set_conv_nth) (smt (verit) enc_nonneg of_nat_0_le_iff)
    moreover have "table_inv s'" using out s' unfolding table_inv_def by auto
    ultimately show ?thesis using s' by blast
  next
    case False
    from pool_below_available [OF out(1) False] obtain v p' where v:
      "guac_pool_next_int_below (pool_of s) limit = Inr (v, p')" "0 \<le> v" "v < limit" "v \<notin> out"
      "pool_below_inv limit p' (insert v out)" by blast
    have k: "nat v < length (slots s)" using v(2,3) out(2) by simp
    from alloc_grant [OF v(1,2,3) k] obtain s' where s': "alloc s = Inr (Some (nat v), s')"
      "pool_of s' = p'" "slots s' = (slots s)[nat v := enc v]" by blast
    have "table_inv s'"
      unfolding table_inv_def using v out s' by (intro exI [of _ "insert v out"]) (auto simp: nth_list_update)
    then show ?thesis using s' k v(2,4) out(3) by auto
  qed
qed

lemma free_total:
  assumes "table_inv s" "k < length (slots s)" "slots s ! k \<noteq> -1"
  shows "\<exists>s'. free s k = Inr s' \<and> slots s' = (slots s)[k := -1] \<and> table_inv s'"
proof -
  from assms(1) obtain out where out: "pool_below_inv limit (pool_of s) out"
    "length (slots s) = nat limit"
    "\<forall>k < length (slots s). slots s ! k = (if int k \<in> out then enc (int k) else -1)"
    unfolding table_inv_def by blast
  have k: "int k \<in> out" "slots s ! k = enc (int k)" using assms(2,3) out(3) by (auto split: if_splits)
  then have "dec (slots s ! k) = int k" using out_below [OF out(1), of "int k"] dec_enc by simp
  then obtain p where p: "guac_pool_free_int True (pool_of s) (dec (slots s ! k)) = Inr p"
    "pool_below_inv limit p (out - {int k})"
    using pool_below_free [OF out(1) k(1)] by auto
  from free_slot [OF assms(2) p(1)] obtain s' where s': "free s k = Inr s'" "pool_of s' = p"
    "slots s' = (slots s)[k := -1]" by blast
  have "table_inv s'"
    unfolding table_inv_def using p out s' assms(2)
    by (intro exI [of _ "out - {int k}"]) (auto simp: nth_list_update)
  then show ?thesis using s' by blast
qed

text \<open>Every slot in use holds the index of its own position, below the limit.\<close>

lemma slot_index:
  assumes "table_inv s" "k < length (slots s)" "slots s ! k \<noteq> -1"
  shows "slots s ! k = enc (int k) \<and> int k < limit"
  using assms limit unfolding table_inv_def by (fastforce split: if_splits)

end

lemma wrap32_double: "0 \<le> i \<Longrightarrow> i < 512 \<Longrightarrow> wrap32 (i * 2) = 2 * i"
  by (simp add: in_int_bounds)

lemma wrap32_odd: "0 \<le> i \<Longrightarrow> i < 512 \<Longrightarrow> wrap32 (i * 2 + 1) = 2 * i + 1"
  by (simp add: in_int_bounds)

lemmas slot_defs = guac_user_alloc_stream_def guac_user_free_stream_def guac_user_alloc_object_def
  guac_user_free_object_def guac_client_alloc_stream_def guac_client_free_stream_def closed_stream_def

interpretation user_streams: slot_table GUAC_USER_MAX_STREAMS "\<lambda>i. 2 * i" "\<lambda>i. cdiv i 2"
  user_stream_pool "\<lambda>user. map stream_index (user_output_streams user)"
  guac_user_alloc_stream guac_user_free_stream
  by unfold_locales
    (auto simp: slot_defs stream_limits INT_MAX_def wrap32_double map_update Let_def)

interpretation user_objects: slot_table GUAC_USER_MAX_OBJECTS "\<lambda>i. i" "\<lambda>i. i"
  user_object_pool "\<lambda>user. map object_index (user_objects user)"
  guac_user_alloc_object guac_user_free_object
  by unfold_locales
    (auto simp: slot_defs stream_limits INT_MAX_def map_update Let_def)

interpretation client_streams: slot_table GUAC_CLIENT_MAX_STREAMS "\<lambda>i. 2 * i + 1"
  "\<lambda>i. cdiv (wrap32 (i - 1)) 2"
  client_stream_pool "\<lambda>client. map stream_index (client_output_streams client)"
  guac_client_alloc_stream guac_client_free_stream
  by unfold_locales
    (auto simp: slot_defs stream_limits INT_MAX_def wrap32_odd map_update Let_def in_int_bounds mult.commute)

section \<open>Layers and buffers\<close>

text \<open>
  The buffers of a client are numbered -1, -2, ... and use their pool consistently: the buffers in
  use correspond to the integers the pool has handed out.
\<close>

definition buffers_inv :: "guac_client \<Rightarrow> int set \<Rightarrow> bool" where
  "buffers_inv client bufs \<longleftrightarrow>
     pool_inv (client_buffer_pool client) ((\<lambda>b. - b - 1) ` bufs) \<and> (\<forall>b \<in> bufs. in_int b)"

lemma buffer_codes: "(\<lambda>b. - b - 1) ` insert (- v - 1) bufs = insert v ((\<lambda>b. - b - 1) ` bufs)" for v :: int
  by simp

lemma buffers_alloc:
  assumes "buffers_inv client bufs" "guac_client_alloc_buffer client = Inr (b, client')"
  shows "b \<notin> bufs \<and> b < 0 \<and> buffers_inv client' (insert b bufs)"
proof -
  from assms(2) obtain v pool where v: "guac_pool_next_int (client_buffer_pool client) = Inr (v, pool)"
    "b = wrap32 (- v - 1)" "client' = client\<lparr>client_buffer_pool := pool\<rparr>"
    by (auto simp: guac_client_alloc_buffer_def fault_iff)
  have inv: "pool_inv (client_buffer_pool client) ((\<lambda>b. - b - 1) ` bufs)"
    using assms(1) by (simp add: buffers_inv_def)
  from pool_next_int_fresh [OF inv] v(1)
  have f: "v \<notin> (\<lambda>b. - b - 1) ` bufs" "0 \<le> v" "v < next_value pool"
    "pool_inv pool (insert v ((\<lambda>b. - b - 1) ` bufs))"
    by (auto simp: guac_pool_next_int_def)
  have rng: "in_int (- v - 1)" using f(2,3,4) by (simp add: pool_inv_def in_int_bounds)
  then have b: "b = - v - 1" using v(2) by simp
  have "b \<notin> bufs" using f(1) b by force
  moreover have "buffers_inv client' (insert b bufs)"
    using f(4) rng assms(1) unfolding buffers_inv_def v(3) b buffer_codes by simp
  ultimately show ?thesis using b f(2) by simp
qed

lemma buffers_free:
  assumes "buffers_inv client bufs" "b \<in> bufs"
  shows "\<exists>client'. guac_client_free_buffer client b = Inr client' \<and> buffers_inv client' (bufs - {b})"
proof -
  let ?code = "\<lambda>b :: int. - b - 1"
  have inv: "pool_inv (client_buffer_pool client) (?code ` bufs)" and "in_int b"
    using assms by (auto simp: buffers_inv_def)
  have mem: "?code b \<in> ?code ` bufs" using assms(2) by simp
  then have "?code b \<in> {0..<next_value (client_buffer_pool client)}"
    using inv unfolding pool_inv_def by (metis UnI2)
  then have "wrap32 (?code b) = ?code b" using inv by (auto simp: pool_inv_def in_int_bounds)
  moreover have "?code ` bufs - {?code b} = ?code ` (bufs - {b})" by auto
  ultimately show ?thesis
    using pool_free_int_returns [OF inv mem] assms(1)
    by (auto simp: guac_client_free_buffer_def buffers_inv_def)
qed

section \<open>Properties\<close>

text \<open>
  Allocating an output stream for a user always returns. While a slot is closed it opens a
  closed slot \<open>k\<close>, giving it the even index \<open>2 * k\<close> and leaving every other slot alone; when all
  512 slots are open it reports failure and changes no stream.
\<close>

theorem user_alloc_stream_total:
  assumes "user_streams.table_inv user"
  shows "(\<exists>k user'. guac_user_alloc_stream user = Inr (Some k, user') \<and>
            k < length (user_output_streams user) \<and> stream_index (user_output_streams user ! k) = -1 \<and>
            map stream_index (user_output_streams user') =
              (map stream_index (user_output_streams user))[k := 2 * int k] \<and>
            user_streams.table_inv user') \<or>
         (\<exists>user'. guac_user_alloc_stream user = Inr (None, user') \<and>
            -1 \<notin> set (map stream_index (user_output_streams user)) \<and>
            map stream_index (user_output_streams user') = map stream_index (user_output_streams user) \<and>
            user_streams.table_inv user')"
  using user_streams.alloc_total [OF assms] by fastforce

definition new_user :: guac_user where
  "new_user = guac_user_alloc
     (replicate 512 \<lparr>stream_index = 7, stream_data = None, stream_ack_handler = None,
                     stream_blob_handler = None, stream_end_handler = None\<rparr>)
     (replicate 64 \<lparr>object_index = 7, object_data = None, object_get_handler = None,
                    object_put_handler = None\<rparr>)"

lemma new_user_inv: "user_streams.table_inv new_user" "user_objects.table_inv new_user"
  by (rule user_streams.table_inv_initial user_objects.table_inv_initial;
      simp add: new_user_def guac_user_alloc_def closed_stream_def stream_limits)+

theorem user_alloc_stream_total_witness:
  "user_streams.table_inv new_user \<and> (\<exists>k user'. guac_user_alloc_stream new_user = Inr (k, user'))"
  using user_alloc_stream_total [OF new_user_inv(1)] new_user_inv(1) by blast

text \<open>
  The index of an open output stream of a user never equals that of an open output stream of
  the client: users have the even and clients the odd indices from 0 to 1023. Freeing either
  stream succeeds and closes exactly that stream.
\<close>

theorem stream_indices_disjoint:
  assumes "user_streams.table_inv user" "client_streams.table_inv client"
    and "k < length (user_output_streams user)" "stream_index (user_output_streams user ! k) \<noteq> -1"
    and "j < length (client_output_streams client)" "stream_index (client_output_streams client ! j) \<noteq> -1"
  shows "stream_index (user_output_streams user ! k) \<noteq> stream_index (client_output_streams client ! j) \<and>
         stream_index (user_output_streams user ! k) \<in> {0..1023} \<and>
         stream_index (client_output_streams client ! j) \<in> {0..1023} \<and>
         (\<exists>user'. guac_user_free_stream user k = Inr user' \<and>
            map stream_index (user_output_streams user') =
              (map stream_index (user_output_streams user))[k := -1]) \<and>
         (\<exists>client'. guac_client_free_stream client j = Inr client' \<and>
            map stream_index (client_output_streams client') =
              (map stream_index (client_output_streams client))[j := -1])"
proof -
  have "stream_index (user_output_streams user ! k) = 2 * int k" "int k < 512"
    using user_streams.slot_index [OF assms(1), of k] assms(3,4) by (auto simp: stream_limits)
  moreover have "stream_index (client_output_streams client ! j) = 2 * int j + 1" "int j < 512"
    using client_streams.slot_index [OF assms(2), of j] assms(5,6) by (auto simp: stream_limits)
  moreover have "2 * int k \<noteq> 2 * int j + 1" by presburger
  ultimately show ?thesis
    using user_streams.free_total [OF assms(1), of k] client_streams.free_total [OF assms(2), of j]
      assms(3-) by auto
qed

definition new_client :: guac_client where
  "new_client = guac_client_alloc
     (replicate 512 \<lparr>stream_index = 7, stream_data = None, stream_ack_handler = None,
                     stream_blob_handler = None, stream_end_handler = None\<rparr>)"

lemma new_client_inv: "client_streams.table_inv new_client"
  by (rule client_streams.table_inv_initial;
      simp add: new_client_def guac_client_alloc_def closed_stream_def stream_limits)

lemma user_with_open_stream:
  "\<exists>user k. user_streams.table_inv user \<and> k < length (user_output_streams user) \<and>
     stream_index (user_output_streams user ! k) \<noteq> -1"
proof -
  have closed: "-1 \<in> set (map stream_index (user_output_streams new_user))"
    by (simp add: new_user_def guac_user_alloc_def closed_stream_def)
  from user_streams.alloc_total [OF new_user_inv(1)] closed
  obtain k u where "k < length (user_output_streams new_user)"
    "map stream_index (user_output_streams u) = (map stream_index (user_output_streams new_user))[k := 2 * int k]"
    "user_streams.table_inv u" by auto
  moreover from this(1,2) have "k < length (user_output_streams u)"
    by (metis length_list_update length_map)
  ultimately have "stream_index (user_output_streams u ! k) = 2 * int k"
    by (metis length_map nth_list_update_eq nth_map)
  with \<open>user_streams.table_inv u\<close> \<open>k < length (user_output_streams u)\<close> show ?thesis
    by (metis of_nat_0_le_iff mult_nonneg_nonneg neg_0_le_iff_le not_one_le_zero zero_le_numeral)
qed

lemma client_with_open_stream:
  "\<exists>client k. client_streams.table_inv client \<and> k < length (client_output_streams client) \<and>
     stream_index (client_output_streams client ! k) \<noteq> -1"
proof -
  have closed: "-1 \<in> set (map stream_index (client_output_streams new_client))"
    by (simp add: new_client_def guac_client_alloc_def closed_stream_def)
  from client_streams.alloc_total [OF new_client_inv] closed
  obtain k c where "k < length (client_output_streams new_client)"
    "map stream_index (client_output_streams c) =
       (map stream_index (client_output_streams new_client))[k := 2 * int k + 1]"
    "client_streams.table_inv c" by auto
  moreover from this(1,2) have "k < length (client_output_streams c)"
    by (metis length_list_update length_map)
  ultimately have "stream_index (client_output_streams c ! k) = 2 * int k + 1"
    by (metis length_map nth_list_update_eq nth_map)
  then have "stream_index (client_output_streams c ! k) \<noteq> -1" by linarith
  with \<open>client_streams.table_inv c\<close> \<open>k < length (client_output_streams c)\<close> show ?thesis by blast
qed

theorem stream_indices_disjoint_witness:
  "\<exists>user client k j. user_streams.table_inv user \<and> client_streams.table_inv client \<and>
     stream_index (user_output_streams user ! k) \<noteq> stream_index (client_output_streams client ! j) \<and>
     (\<exists>user'. guac_user_free_stream user k = Inr user')"
proof -
  obtain user k where u: "user_streams.table_inv user" "k < length (user_output_streams user)"
    "stream_index (user_output_streams user ! k) \<noteq> -1" using user_with_open_stream by blast
  obtain client j where c: "client_streams.table_inv client" "j < length (client_output_streams client)"
    "stream_index (client_output_streams client ! j) \<noteq> -1" using client_with_open_stream by blast
  show ?thesis using u(1) c(1) stream_indices_disjoint [OF u(1) c(1) u(2,3) c(2,3)] by blast
qed

text \<open>
  Buffers of a client keep the contract of the pool: a new buffer has a negative index that no
  buffer in use has, and a buffer in use can be freed.
\<close>

theorem buffer_indices_unique:
  assumes "buffers_inv client bufs"
  shows "(guac_client_alloc_buffer client = Inr (b, client') \<longrightarrow>
            b \<notin> bufs \<and> b < 0 \<and> buffers_inv client' (insert b bufs)) \<and>
         (b \<in> bufs \<longrightarrow> (\<exists>client'. guac_client_free_buffer client b = Inr client' \<and>
                                buffers_inv client' (bufs - {b})))"
  using buffers_alloc [OF assms] buffers_free [OF assms] by blast

theorem buffer_indices_unique_witness:
  "\<exists>c'. buffers_inv new_client {} \<and> guac_client_alloc_buffer new_client = Inr (-1, c') \<and>
        buffers_inv c' {-1}"
proof -
  have inv: "buffers_inv new_client {}"
    using pool_inv_alloc by (simp add: buffers_inv_def new_client_def guac_client_alloc_def)
  obtain c' where run: "guac_client_alloc_buffer new_client = Inr (-1, c')"
    by (simp add: new_client_def guac_client_alloc_def guac_client_alloc_buffer_def
        guac_pool_next_int_def pool_next_int_def guac_pool_alloc_def INT_MAX_def in_int_bounds)
  show ?thesis using inv run buffer_indices_unique [OF inv, of "-1" c'] by blast
qed

text \<open>Allocating a number of layers in a row.\<close>

fun alloc_layers :: "nat \<Rightarrow> guac_client \<Rightarrow> (int list \<times> guac_client) result" where
  "alloc_layers 0 c = Inr ([], c)"
| "alloc_layers (Suc n) c =
     bindr (guac_client_alloc_layer c)
       (\<lambda>(l, c'). bindr (alloc_layers n c') (\<lambda>(ls, c''). Inr (l # ls, c'')))"

lemma alloc_layers_run:
  assumes "client_layer_pool c = \<lparr>min_size = sz, active = int a, next_value = int a, freed = []\<rparr>"
    and "int a + int n < INT_MAX"
  shows "alloc_layers n c = Inr (map int [a + 1..<a + n + 1],
     c\<lparr>client_layer_pool := \<lparr>min_size = sz, active = int (a + n), next_value = int (a + n), freed = []\<rparr>\<rparr>)"
  using assms
proof (induction n arbitrary: a c)
  case 0
  then show ?case by simp
next
  case (Suc n)
  let ?c = "c\<lparr>client_layer_pool := \<lparr>min_size = sz, active = int (a + 1), next_value = int (a + 1), freed = []\<rparr>\<rparr>"
  have "guac_client_alloc_layer c = Inr (int (a + 1), ?c)"
    using Suc.prems by (simp add: guac_client_alloc_layer_def guac_pool_next_int_def pool_next_int_def
        in_int_bounds add.commute)
  moreover have "alloc_layers n ?c = Inr (map int [a + 1 + 1..<a + 1 + n + 1],
     ?c\<lparr>client_layer_pool := \<lparr>min_size = sz, active = int (a + 1 + n), next_value = int (a + 1 + n), freed = []\<rparr>\<rparr>)"
    using Suc.prems by (intro Suc.IH) auto
  moreover have "[a + 1..<a + Suc n + 1] = (a + 1) # [a + 1 + 1..<a + 1 + n + 1]"
    by (simp add: upt_rec)
  ultimately show ?case by simp
qed

text \<open>
  Layers do not keep the contract of the pool: a layer takes its index one above the integer
  handed out but gives back the index itself. Once a client has allocated at least 1024 layers,
  freeing layer \<open>k\<close> makes the next allocation return \<open>k + 1\<close>, an index still in use.
\<close>

theorem free_layer_releases_wrong_index:
  assumes "1024 \<le> n" "int n < INT_MAX" "1 \<le> k" "k < n"
  shows "\<exists>c c1 c2. alloc_layers n (guac_client_alloc garbage) = Inr (map int [1..<n + 1], c) \<and>
           guac_client_free_layer c (int k) = Inr c1 \<and>
           guac_client_alloc_layer c1 = Inr (int (k + 1), c2) \<and>
           k + 1 \<in> set [1..<n + 1] - {k}"
proof -
  let ?c = "(guac_client_alloc garbage)\<lparr>client_layer_pool :=
      \<lparr>min_size = 1024, active = int n, next_value = int n, freed = []\<rparr>\<rparr>"
  have "alloc_layers n (guac_client_alloc garbage) = Inr (map int [1..<n + 1], ?c)"
    using alloc_layers_run [of "guac_client_alloc garbage" 1024 0 n] assms
    by (simp add: guac_client_alloc_def guac_pool_alloc_def stream_limits)
  moreover have "\<exists>c1 c2. guac_client_free_layer ?c (int k) = Inr c1 \<and>
      guac_client_alloc_layer c1 = Inr (int (k + 1), c2)"
    using assms
    by (simp add: guac_client_free_layer_def guac_pool_free_int_def guac_client_alloc_layer_def
        guac_pool_next_int_def pool_next_int_def in_int_bounds add.commute)
  ultimately show ?thesis using assms by fastforce
qed

theorem free_layer_releases_wrong_index_witness:
  "\<exists>c c1 c2. guac_client_free_layer c 1 = Inr c1 \<and> guac_client_alloc_layer c1 = Inr (2, c2) \<and>
     alloc_layers 1024 (guac_client_alloc []) = Inr (map int [1..<1025], c)"
  using free_layer_releases_wrong_index [of 1024 1 "[]"] by (auto simp: INT_MAX_def)

end
