(* ===== verification/Flag.thy ===== *)
theory Flag
  imports Prelude
begin

text \<open>
  Flags that threads set, clear and wait for (\<open>src/src/libguac/flag.c\<close>). The recursive mutex is
  its owner and depth, the condition variable the threads asleep on it and the threads it has
  woken that have not yet retaken the mutex, each with the flags it waits for. A call that has to
  wait for the mutex does not complete in the current state, which is \<open>None\<close>.
\<close>

unbundle bit_operations_syntax

section \<open>State and operations\<close>

type_synonym tid = nat

record guac_flag =
  flag_value :: u32
  owner :: "(tid \<times> nat) option"
  sleeping :: "tid \<rightharpoonup> u32"
  woken :: "tid \<rightharpoonup> u32"

definition guac_flag_init :: guac_flag where
  "guac_flag_init = \<lparr>flag_value = 0, owner = None, sleeping = Map.empty, woken = Map.empty\<rparr>"

definition guac_flag_lock :: "tid \<Rightarrow> guac_flag \<Rightarrow> guac_flag option" where
  "guac_flag_lock t f =
     (case owner f of
        None \<Rightarrow> Some (f\<lparr>owner := Some (t, 1)\<rparr>)
      | Some (u, d) \<Rightarrow> if u = t then Some (f\<lparr>owner := Some (t, Suc d)\<rparr>) else None)"

definition guac_flag_unlock :: "tid \<Rightarrow> guac_flag \<Rightarrow> guac_flag" where
  "guac_flag_unlock t f =
     (case owner f of
        None \<Rightarrow> f
      | Some (u, d) \<Rightarrow>
          if u = t then f\<lparr>owner := (if d \<le> 1 then None else Some (t, d - 1))\<rparr> else f)"

text \<open>\<open>pthread_cond_broadcast\<close> and \<open>pthread_cond_wait\<close>.\<close>

definition cond_broadcast :: "guac_flag \<Rightarrow> guac_flag" where
  "cond_broadcast f = f\<lparr>woken := woken f ++ sleeping f, sleeping := Map.empty\<rparr>"

definition cond_wait :: "tid \<Rightarrow> u32 \<Rightarrow> guac_flag \<Rightarrow> guac_flag" where
  "cond_wait t flags f = guac_flag_unlock t (f\<lparr>sleeping := (sleeping f)(t \<mapsto> flags)\<rparr>)"

definition guac_flag_set_and_lock :: "tid \<Rightarrow> u32 \<Rightarrow> guac_flag \<Rightarrow> guac_flag option" where
  "guac_flag_set_and_lock t flags f =
     map_option (\<lambda>f.
       let old_value = flag_value f; f = f\<lparr>flag_value := flag_value f OR flags\<rparr>
       in if flag_value f \<noteq> old_value then cond_broadcast f else f) (guac_flag_lock t f)"

definition guac_flag_set :: "tid \<Rightarrow> u32 \<Rightarrow> guac_flag \<Rightarrow> guac_flag option" where
  "guac_flag_set t flags f = map_option (guac_flag_unlock t) (guac_flag_set_and_lock t flags f)"

definition guac_flag_clear_and_lock :: "tid \<Rightarrow> u32 \<Rightarrow> guac_flag \<Rightarrow> guac_flag option" where
  "guac_flag_clear_and_lock t flags f =
     map_option (\<lambda>f. f\<lparr>flag_value := flag_value f AND NOT flags\<rparr>) (guac_flag_lock t f)"

definition guac_flag_clear :: "tid \<Rightarrow> u32 \<Rightarrow> guac_flag \<Rightarrow> guac_flag option" where
  "guac_flag_clear t flags f = map_option (guac_flag_unlock t) (guac_flag_clear_and_lock t flags f)"

text \<open>
  One round of the loop of \<open>guac_flag_wait_and_lock\<close>, with the mutex held: return (true), or go
  to sleep. A thread enters the loop by taking the mutex and runs a further round each time it
  has been woken and has retaken the mutex.
\<close>

definition wait_round :: "tid \<Rightarrow> u32 \<Rightarrow> guac_flag \<Rightarrow> bool \<times> guac_flag" where
  "wait_round t flags f =
     (if flag_value f AND flags \<noteq> 0 then (True, f) else (False, cond_wait t flags f))"

definition wait_enter :: "tid \<Rightarrow> u32 \<Rightarrow> guac_flag \<Rightarrow> (bool \<times> guac_flag) option" where
  "wait_enter t flags f = map_option (wait_round t flags) (guac_flag_lock t f)"

definition wait_resume :: "tid \<Rightarrow> guac_flag \<Rightarrow> (bool \<times> guac_flag) option" where
  "wait_resume t f =
     (case woken f t of
        None \<Rightarrow> None
      | Some flags \<Rightarrow>
          map_option (wait_round t flags) (guac_flag_lock t (f\<lparr>woken := (woken f)(t := None)\<rparr>)))"

text \<open>The states in which a call of \<open>guac_flag_wait_and_lock\<close> returns without sleeping.\<close>

definition guac_flag_wait_and_lock :: "tid \<Rightarrow> u32 \<Rightarrow> guac_flag \<Rightarrow> guac_flag option" where
  "guac_flag_wait_and_lock t flags f =
     (case wait_enter t flags f of Some (True, f') \<Rightarrow> Some f' | _ \<Rightarrow> None)"

section \<open>Timed waiting\<close>

text \<open>
  The absolute deadline as seconds and nanoseconds. The product of the \<open>unsigned int\<close> timeout
  and the \<open>int\<close> literal is a 32-bit product; only its result is widened to 64 bits.
\<close>

definition timed_deadline :: "u32 \<Rightarrow> int \<times> int \<Rightarrow> int \<times> int" where
  "timed_deadline msec_timeout now =
     (let (tv_sec, tv_nsec) = now;
          nsec_timeout = (ucast (msec_timeout * 1000000) :: u64) + word_of_int tv_nsec
      in (tv_sec + uint nsec_timeout div 1000000000, uint nsec_timeout mod 1000000000))"

text \<open>
  The states in which the timed wait returns: \<open>expired\<close> says that
  \<open>pthread_cond_timedwait\<close> reports the deadline as passed.
\<close>

definition guac_flag_timedwait_and_lock ::
    "tid \<Rightarrow> u32 \<Rightarrow> u32 \<Rightarrow> bool \<Rightarrow> guac_flag \<Rightarrow> (u32 \<times> guac_flag) option" where
  "guac_flag_timedwait_and_lock t flags msec_timeout expired f =
     (case guac_flag_lock t f of
        None \<Rightarrow> None
      | Some f \<Rightarrow>
          if msec_timeout = 0 then
            (let retval = flag_value f AND flags
             in Some (retval, if retval = 0 then guac_flag_unlock t f else f))
          else if flag_value f AND flags \<noteq> 0 then Some (1, f)
          else if expired then Some (0, guac_flag_unlock t f)
          else None)"

section \<open>All interleavings\<close>

text \<open>
  One step of any thread. A thread asleep or woken is inside a wait and makes no other call. A
  condition variable may also wake a thread spuriously.
\<close>

definition free_thread :: "tid \<Rightarrow> guac_flag \<Rightarrow> bool" where
  "free_thread t f \<longleftrightarrow> sleeping f t = None \<and> woken f t = None"

inductive flag_step :: "guac_flag \<Rightarrow> guac_flag \<Rightarrow> bool" where
  set_lock: "free_thread t f \<Longrightarrow> guac_flag_set_and_lock t flags f = Some f' \<Longrightarrow> flag_step f f'"
| clear_lock: "free_thread t f \<Longrightarrow> guac_flag_clear_and_lock t flags f = Some f' \<Longrightarrow> flag_step f f'"
| lock: "free_thread t f \<Longrightarrow> guac_flag_lock t f = Some f' \<Longrightarrow> flag_step f f'"
| unlock: "free_thread t f \<Longrightarrow> flag_step f (guac_flag_unlock t f)"
| enter: "free_thread t f \<Longrightarrow> wait_enter t flags f = Some (r, f') \<Longrightarrow> flag_step f f'"
| resume: "wait_resume t f = Some (r, f') \<Longrightarrow> flag_step f f'"
| spurious: "sleeping f t = Some flags \<Longrightarrow>
    flag_step f (f\<lparr>sleeping := (sleeping f)(t := None), woken := (woken f)(t \<mapsto> flags)\<rparr>)"

inductive flag_reachable :: "guac_flag \<Rightarrow> bool" where
  start: "flag_reachable guac_flag_init"
| step: "flag_reachable f \<Longrightarrow> flag_step f f' \<Longrightarrow> flag_reachable f'"

section \<open>No lost wake-up\<close>

definition no_lost_wakeup :: "guac_flag \<Rightarrow> bool" where
  "no_lost_wakeup f \<longleftrightarrow> (\<forall>t flags. sleeping f t = Some flags \<longrightarrow> flag_value f AND flags = 0)"

lemma lock_frame [simp]:
  assumes "guac_flag_lock t f = Some f'"
  shows "flag_value f' = flag_value f \<and> sleeping f' = sleeping f \<and> woken f' = woken f"
  using assms by (auto simp: guac_flag_lock_def split: option.splits if_splits)

lemma unlock_frame [simp]:
  "flag_value (guac_flag_unlock t f) = flag_value f"
  "sleeping (guac_flag_unlock t f) = sleeping f"
  "woken (guac_flag_unlock t f) = woken f"
  by (auto simp: guac_flag_unlock_def split: option.splits)

lemma and_not_zero:
  assumes "(v :: u32) AND w = 0"
  shows "(v AND NOT u) AND w = 0"
proof -
  have "(v AND NOT u) AND w = (v AND w) AND NOT u" by (simp add: ac_simps)
  with assms show ?thesis by simp
qed

lemma nlw_unlock: "no_lost_wakeup f \<Longrightarrow> no_lost_wakeup (guac_flag_unlock t f)"
  by (simp add: no_lost_wakeup_def)

lemma nlw_lock: "no_lost_wakeup f \<Longrightarrow> guac_flag_lock t f = Some f' \<Longrightarrow> no_lost_wakeup f'"
  using lock_frame [of t f f'] by (simp add: no_lost_wakeup_def)

lemma nlw_set_and_lock:
  assumes "no_lost_wakeup f" "guac_flag_set_and_lock t flags f = Some f'"
  shows "no_lost_wakeup f'"
proof -
  from assms(2) obtain g where g: "guac_flag_lock t f = Some g"
    and f': "f' = (if flag_value g OR flags \<noteq> flag_value g
                   then cond_broadcast (g\<lparr>flag_value := flag_value g OR flags\<rparr>)
                   else g\<lparr>flag_value := flag_value g OR flags\<rparr>)"
    by (auto simp: guac_flag_set_and_lock_def Let_def)
  have "no_lost_wakeup g" using assms(1) g by (rule nlw_lock)
  then show ?thesis
    by (cases "flag_value g OR flags = flag_value g") (auto simp: f' no_lost_wakeup_def cond_broadcast_def)
qed

lemma nlw_clear_and_lock:
  assumes "no_lost_wakeup f" "guac_flag_clear_and_lock t flags f = Some f'"
  shows "no_lost_wakeup f'"
proof -
  from assms(2) obtain g where g: "guac_flag_lock t f = Some g"
    and f': "f' = g\<lparr>flag_value := flag_value g AND NOT flags\<rparr>"
    by (auto simp: guac_flag_clear_and_lock_def)
  have "no_lost_wakeup g" using assms(1) g by (rule nlw_lock)
  then show ?thesis by (simp add: f' no_lost_wakeup_def and_not_zero)
qed

lemma nlw_wait_round:
  "no_lost_wakeup f \<Longrightarrow> wait_round t flags f = (r, f') \<Longrightarrow> no_lost_wakeup f'"
  by (auto simp: wait_round_def no_lost_wakeup_def cond_wait_def split: if_splits)

lemma nlw_enter: "no_lost_wakeup f \<Longrightarrow> wait_enter t flags f = Some (r, f') \<Longrightarrow> no_lost_wakeup f'"
  by (auto simp: wait_enter_def intro: nlw_wait_round nlw_lock)

lemma nlw_resume:
  assumes "no_lost_wakeup f" "wait_resume t f = Some (r, f')"
  shows "no_lost_wakeup f'"
proof -
  from assms(2) obtain flags g where
    g: "guac_flag_lock t (f\<lparr>woken := (woken f)(t := None)\<rparr>) = Some g" "wait_round t flags g = (r, f')"
    by (auto simp: wait_resume_def split: option.splits)
  have "no_lost_wakeup (f\<lparr>woken := (woken f)(t := None)\<rparr>)"
    using assms(1) by (simp add: no_lost_wakeup_def)
  then show ?thesis using g by (blast intro: nlw_lock nlw_wait_round)
qed

lemma nlw_step: "flag_step f f' \<Longrightarrow> no_lost_wakeup f \<Longrightarrow> no_lost_wakeup f'"
proof (induction rule: flag_step.induct)
  case (spurious f t flags)
  then show ?case by (auto simp: no_lost_wakeup_def)
qed (auto intro: nlw_set_and_lock nlw_clear_and_lock nlw_lock nlw_unlock nlw_enter nlw_resume)

lemma nlw_reachable: "flag_reachable f \<Longrightarrow> no_lost_wakeup f"
proof (induction rule: flag_reachable.induct)
  case start
  show ?case by (simp add: no_lost_wakeup_def guac_flag_init_def)
next
  case (step f f')
  then show ?case using nlw_step by blast
qed

lemma and_or_nonzero: "(flags :: u32) AND w \<noteq> 0 \<Longrightarrow> (v OR flags) AND w \<noteq> 0"
  by (metis and.commute bit.conj_disj_distrib or_eq_0_iff)

section \<open>Properties\<close>

text \<open>
  C20. No wake-up is lost: in every reachable state of every interleaving, a thread asleep in a
  wait waits for flags none of which is set. So a set of any of its flags must have woken it.
\<close>

theorem flag_no_lost_wakeup:
  assumes "flag_reachable f" "sleeping f t = Some flags"
  shows "flag_value f AND flags = 0"
  using nlw_reachable [OF assms(1)] assms(2) by (simp add: no_lost_wakeup_def)

definition sleeping_example :: guac_flag where
  "sleeping_example = \<lparr>flag_value = 0, owner = None, sleeping = [1 \<mapsto> 6], woken = Map.empty\<rparr>"

lemma sleeping_example_reachable: "flag_reachable sleeping_example"
proof -
  have "wait_enter 1 6 guac_flag_init = Some (False, sleeping_example)"
    by (simp add: wait_enter_def guac_flag_lock_def guac_flag_init_def wait_round_def cond_wait_def
        guac_flag_unlock_def sleeping_example_def)
  moreover have "free_thread 1 guac_flag_init" by (simp add: free_thread_def guac_flag_init_def)
  ultimately show ?thesis by (blast intro: flag_reachable.intros flag_step.enter)
qed

theorem flag_no_lost_wakeup_witness:
  "flag_reachable sleeping_example \<and> sleeping sleeping_example 1 = Some 6 \<and>
   flag_value sleeping_example AND 6 = 0"
proof -
  have s: "sleeping sleeping_example 1 = Some 6" by (simp add: sleeping_example_def)
  show ?thesis
    using s sleeping_example_reachable flag_no_lost_wakeup [OF sleeping_example_reachable s] by blast
qed

text \<open>
  Setting a flag that a sleeping thread waits for wakes it, and when it retakes the mutex its
  wait returns with the mutex held.
\<close>

theorem flag_set_wakes_waiter:
  assumes "flag_reachable f" "owner f = None" "sleeping f t = Some w" "flags AND w \<noteq> 0"
  shows "\<exists>f' f''. guac_flag_set u flags f = Some f' \<and> woken f' t = Some w \<and> sleeping f' t = None \<and>
           wait_resume t f' = Some (True, f'') \<and> owner f'' = Some (t, 1)"
proof -
  have zero: "flag_value f AND w = 0"
    using nlw_reachable [OF assms(1)] assms(3) by (simp add: no_lost_wakeup_def)
  have hit: "(flag_value f OR flags) AND w \<noteq> 0" using assms(4) by (rule and_or_nonzero)
  then have "flag_value f OR flags \<noteq> flag_value f" using zero by metis
  then show ?thesis
    using assms hit
    by (simp add: guac_flag_set_def guac_flag_set_and_lock_def guac_flag_lock_def cond_broadcast_def
        guac_flag_unlock_def wait_resume_def wait_round_def Let_def)
qed

theorem flag_set_wakes_waiter_witness:
  "\<exists>f' f''. guac_flag_set 2 4 sleeping_example = Some f' \<and> woken f' 1 = Some 6 \<and>
     wait_resume 1 f' = Some (True, f'')"
  using flag_set_wakes_waiter [OF sleeping_example_reachable, of 1 6 4 2]
  by (auto simp: sleeping_example_def)

text \<open>
  The deadline of a timed wait is the requested number of milliseconds away only up to the
  32-bit wrap-around of the number of nanoseconds: exactly right up to 4294 ms, and at most about
  4.3 s away for every longer timeout.
\<close>

theorem timed_deadline_wraps:
  assumes "0 \<le> nsec" "nsec < 1000000000"
    and "timed_deadline msec (sec, nsec) = (sec', nsec')"
  shows "(sec' * 1000000000 + nsec') - (sec * 1000000000 + nsec) = (uint msec * 1000000) mod 2 ^ 32 \<and>
         (uint msec \<le> 4294 \<longrightarrow>
           (sec' * 1000000000 + nsec') - (sec * 1000000000 + nsec) = uint msec * 1000000)"
proof -
  let ?p = "uint (msec * 1000000 :: u32)"
  have p: "?p = (uint msec * 1000000) mod 2 ^ 32" by (simp add: uint_word_ariths)
  have bnd: "0 \<le> ?p" "?p < 4294967296" unfolding p by simp_all
  have "uint (ucast (msec * 1000000) :: u64) = ?p"
    by (rule uint_up_ucast) (simp add: is_up)
  moreover have "uint (word_of_int nsec :: u64) = nsec"
    using assms(1,2) by (simp add: uint_word_of_int)
  ultimately have "uint ((ucast (msec * 1000000) :: u64) + word_of_int nsec) = (?p + nsec) mod 2 ^ 64"
    by (simp only: uint_word_ariths) simp
  then have "uint ((ucast (msec * 1000000) :: u64) + word_of_int nsec) = ?p + nsec"
    using assms(1,2) bnd by simp
  then have "sec' = sec + (?p + nsec) div 1000000000" "nsec' = (?p + nsec) mod 1000000000"
    using assms(3) by (auto simp: timed_deadline_def)
  then have "(sec' * 1000000000 + nsec') - (sec * 1000000000 + nsec) = ?p"
    by (simp add: algebra_simps)
  moreover have "(uint msec * 1000000) mod 2 ^ 32 = uint msec * 1000000" if "uint msec \<le> 4294"
    using that by simp
  ultimately show ?thesis using p by simp
qed

theorem timed_deadline_wraps_witness:
  "timed_deadline 5000 (10, 0) = (10, 705032704) \<and>
   (10 * 1000000000 + 705032704) - (10 * 1000000000 + 0) = (uint (5000 :: u32) * 1000000) mod 2 ^ 32"
proof -
  have run: "timed_deadline 5000 (10, 0) = (10, 705032704)" by (simp add: timed_deadline_def)
  show ?thesis using run timed_deadline_wraps [OF _ _ run] by simp
qed

end
