(* ===== verification/Fifo.thy ===== *)
theory Fifo
  imports Flag
begin

text \<open>
  The bounded first-in first-out queue (\<open>src/src/libguac/fifo.c\<close>) on top of the flags. The items
  array is a list of \<open>max_items\<close> items; positions are natural numbers (\<open>head + item_count\<close>
  is below twice the number of items of an array in memory, so \<open>size_t\<close> does not wrap). A call
  that has to wait, for the mutex or for a flag, does not complete in the current state: \<open>None\<close>.
\<close>

section \<open>Definitions\<close>

definition GUAC_FIFO_STATE_READY :: u32 where "GUAC_FIFO_STATE_READY = 1"
definition GUAC_FIFO_STATE_NONEMPTY :: u32 where "GUAC_FIFO_STATE_NONEMPTY = 2"
definition GUAC_FIFO_STATE_INVALID :: u32 where "GUAC_FIFO_STATE_INVALID = 4"

lemmas fifo_flags = GUAC_FIFO_STATE_READY_def GUAC_FIFO_STATE_NONEMPTY_def GUAC_FIFO_STATE_INVALID_def

record 'a guac_fifo =
  fifo_state :: guac_flag
  max_items :: nat
  fifo_head :: nat
  item_count :: nat
  fifo_items :: "'a list"

definition guac_fifo_init :: "tid \<Rightarrow> 'a list \<Rightarrow> nat \<Rightarrow> 'a guac_fifo option" where
  "guac_fifo_init t items max_count =
     map_option (\<lambda>st. \<lparr>fifo_state = st, max_items = max_count, fifo_head = 0, item_count = 0,
                       fifo_items = items\<rparr>)
       (guac_flag_set t GUAC_FIFO_STATE_READY guac_flag_init)"

definition guac_fifo_invalidate :: "tid \<Rightarrow> 'a guac_fifo \<Rightarrow> 'a guac_fifo option" where
  "guac_fifo_invalidate t fifo =
     map_option (\<lambda>st. fifo\<lparr>fifo_state := st\<rparr>)
       (guac_flag_set t GUAC_FIFO_STATE_INVALID (fifo_state fifo))"

definition guac_fifo_lock :: "tid \<Rightarrow> 'a guac_fifo \<Rightarrow> 'a guac_fifo option" where
  "guac_fifo_lock t fifo =
     map_option (\<lambda>st. fifo\<lparr>fifo_state := st\<rparr>) (guac_flag_lock t (fifo_state fifo))"

definition guac_fifo_unlock :: "tid \<Rightarrow> 'a guac_fifo \<Rightarrow> 'a guac_fifo" where
  "guac_fifo_unlock t fifo = fifo\<lparr>fifo_state := guac_flag_unlock t (fifo_state fifo)\<rparr>"

definition guac_fifo_is_valid :: "'a guac_fifo \<Rightarrow> bool" where
  "guac_fifo_is_valid fifo \<longleftrightarrow> flag_value (fifo_state fifo) AND GUAC_FIFO_STATE_INVALID = 0"

text \<open>What the enqueue does once the wait has returned with the mutex held.\<close>

definition enqueue_locked :: "tid \<Rightarrow> 'a \<Rightarrow> 'a guac_fifo \<Rightarrow> (bool \<times> 'a guac_fifo) result option" where
  "enqueue_locked t item fifo =
     (if flag_value (fifo_state fifo) AND GUAC_FIFO_STATE_INVALID \<noteq> 0
      then Some (Inr (False, guac_fifo_unlock t fifo))
      else if item_count fifo \<ge> max_items fifo then Some (Inl Abort)
      else
        let fifo = fifo\<lparr>item_count := item_count fifo + 1\<rparr> in
        Option.bind (if item_count fifo = max_items fifo
                     then guac_flag_clear t GUAC_FIFO_STATE_READY (fifo_state fifo)
                     else Some (fifo_state fifo))
          (\<lambda>st.
             let tail = (fifo_head fifo + item_count fifo - 1) mod max_items fifo;
                 fifo = fifo\<lparr>fifo_items := (fifo_items fifo)[tail := item]\<rparr>
             in Option.bind (guac_flag_set t GUAC_FIFO_STATE_NONEMPTY st)
                  (\<lambda>st. Some (Inr (True, fifo\<lparr>fifo_state := st\<rparr>)))))"

definition guac_fifo_enqueue_and_lock ::
    "tid \<Rightarrow> 'a \<Rightarrow> 'a guac_fifo \<Rightarrow> (bool \<times> 'a guac_fifo) result option" where
  "guac_fifo_enqueue_and_lock t item fifo =
     Option.bind (guac_flag_wait_and_lock t (GUAC_FIFO_STATE_INVALID OR GUAC_FIFO_STATE_READY) (fifo_state fifo))
       (\<lambda>st. enqueue_locked t item (fifo\<lparr>fifo_state := st\<rparr>))"

definition guac_fifo_enqueue ::
    "tid \<Rightarrow> 'a \<Rightarrow> 'a guac_fifo \<Rightarrow> (bool \<times> 'a guac_fifo) result option" where
  "guac_fifo_enqueue t item fifo =
     map_option (\<lambda>r. bindr r (\<lambda>(ok, fifo).
         if \<not> ok then Inr (False, fifo) else Inr (True, guac_fifo_unlock t fifo)))
       (guac_fifo_enqueue_and_lock t item fifo)"

text \<open>The static \<open>dequeue\<close>, called with the mutex held and the queue non-empty.\<close>

definition dequeue :: "tid \<Rightarrow> 'a guac_fifo \<Rightarrow> ('a \<times> 'a guac_fifo) option" where
  "dequeue t fifo =
     (let item = fifo_items fifo ! fifo_head fifo;
          fifo = fifo\<lparr>item_count := item_count fifo - 1,
                      fifo_head := (fifo_head fifo + 1) mod max_items fifo\<rparr>
      in Option.bind (if item_count fifo = 0
                      then guac_flag_clear t GUAC_FIFO_STATE_NONEMPTY (fifo_state fifo)
                      else Some (fifo_state fifo))
           (\<lambda>st. Option.bind (guac_flag_set t GUAC_FIFO_STATE_READY st)
             (\<lambda>st. Some (item, fifo\<lparr>fifo_state := st\<rparr>))))"

definition dequeue_locked :: "tid \<Rightarrow> 'a guac_fifo \<Rightarrow> ('a option \<times> 'a guac_fifo) option" where
  "dequeue_locked t fifo =
     (if flag_value (fifo_state fifo) AND GUAC_FIFO_STATE_INVALID \<noteq> 0
      then Some (None, guac_fifo_unlock t fifo)
      else map_option (\<lambda>(item, fifo). (Some item, fifo)) (dequeue t fifo))"

definition guac_fifo_dequeue_and_lock :: "tid \<Rightarrow> 'a guac_fifo \<Rightarrow> ('a option \<times> 'a guac_fifo) option" where
  "guac_fifo_dequeue_and_lock t fifo =
     Option.bind (guac_flag_wait_and_lock t (GUAC_FIFO_STATE_NONEMPTY OR GUAC_FIFO_STATE_INVALID) (fifo_state fifo))
       (\<lambda>st. dequeue_locked t (fifo\<lparr>fifo_state := st\<rparr>))"

definition guac_fifo_dequeue :: "tid \<Rightarrow> 'a guac_fifo \<Rightarrow> ('a option \<times> 'a guac_fifo) option" where
  "guac_fifo_dequeue t fifo =
     map_option (\<lambda>(item, fifo). case item of None \<Rightarrow> (None, fifo)
                                 | Some _ \<Rightarrow> (item, guac_fifo_unlock t fifo))
       (guac_fifo_dequeue_and_lock t fifo)"

definition guac_fifo_timed_dequeue_and_lock ::
    "tid \<Rightarrow> u32 \<Rightarrow> bool \<Rightarrow> 'a guac_fifo \<Rightarrow> ('a option \<times> 'a guac_fifo) option" where
  "guac_fifo_timed_dequeue_and_lock t msec_timeout expired fifo =
     Option.bind (guac_flag_timedwait_and_lock t (GUAC_FIFO_STATE_NONEMPTY OR GUAC_FIFO_STATE_INVALID)
                    msec_timeout expired (fifo_state fifo))
       (\<lambda>(retval, st).
          let fifo = fifo\<lparr>fifo_state := st\<rparr>
          in if retval = 0 then Some (None, fifo) else dequeue_locked t fifo)"

definition guac_fifo_timed_dequeue ::
    "tid \<Rightarrow> u32 \<Rightarrow> bool \<Rightarrow> 'a guac_fifo \<Rightarrow> ('a option \<times> 'a guac_fifo) option" where
  "guac_fifo_timed_dequeue t msec_timeout expired fifo =
     map_option (\<lambda>(item, fifo). case item of None \<Rightarrow> (None, fifo)
                                 | Some _ \<Rightarrow> (item, guac_fifo_unlock t fifo))
       (guac_fifo_timed_dequeue_and_lock t msec_timeout expired fifo)"

section \<open>Flag bits\<close>

abbreviation has :: "u32 \<Rightarrow> u32 \<Rightarrow> bool" where "has v k \<equiv> v AND k \<noteq> 0"

lemma or_and_zero: "(v OR a) AND k = 0 \<longleftrightarrow> v AND k = 0 \<and> (a :: u32) AND k = 0"
  by (simp add: bit.conj_disj_distrib2 or_eq_0_iff)

lemma and_or_zero: "v AND (a OR b) = 0 \<longleftrightarrow> v AND a = 0 \<and> (v :: u32) AND b = 0"
  by (simp add: bit.conj_disj_distrib or_eq_0_iff)

lemma clear_other: "NOT a AND k = k \<Longrightarrow> (v AND NOT a) AND k = (v :: u32) AND k"
  by (simp add: and.assoc)

lemma clear_same: "(v AND NOT a) AND a = (0 :: u32)"
  by (simp add: and.assoc)

lemma flag_constants:
  "GUAC_FIFO_STATE_READY \<noteq> 0" "GUAC_FIFO_STATE_NONEMPTY \<noteq> 0" "GUAC_FIFO_STATE_INVALID \<noteq> 0"
  "GUAC_FIFO_STATE_READY AND GUAC_FIFO_STATE_NONEMPTY = 0" "GUAC_FIFO_STATE_READY AND GUAC_FIFO_STATE_INVALID = 0"
  "GUAC_FIFO_STATE_NONEMPTY AND GUAC_FIFO_STATE_READY = 0" "GUAC_FIFO_STATE_NONEMPTY AND GUAC_FIFO_STATE_INVALID = 0"
  "NOT GUAC_FIFO_STATE_READY AND GUAC_FIFO_STATE_NONEMPTY = GUAC_FIFO_STATE_NONEMPTY"
  "NOT GUAC_FIFO_STATE_READY AND GUAC_FIFO_STATE_INVALID = GUAC_FIFO_STATE_INVALID"
  "NOT GUAC_FIFO_STATE_NONEMPTY AND GUAC_FIFO_STATE_READY = GUAC_FIFO_STATE_READY"
  "NOT GUAC_FIFO_STATE_NONEMPTY AND GUAC_FIFO_STATE_INVALID = GUAC_FIFO_STATE_INVALID"
  by (simp_all add: fifo_flags)

lemmas flag_bits = or_and_zero and_or_zero clear_other clear_same flag_constants

section \<open>The operations when the mutex is free\<close>

text \<open>Setting and clearing flags while holding the mutex once.\<close>

lemma flag_set_held:
  assumes "owner st = Some (t, Suc 0)"
  shows "\<exists>st'. guac_flag_set t flags st = Some st' \<and> owner st' = Some (t, Suc 0) \<and>
           flag_value st' = flag_value st OR flags"
  using assms
  by (simp add: guac_flag_set_def guac_flag_set_and_lock_def guac_flag_lock_def guac_flag_unlock_def
      cond_broadcast_def Let_def)

lemma flag_set_free:
  assumes "owner st = None"
  shows "\<exists>st'. guac_flag_set t flags st = Some st' \<and> owner st' = None \<and>
           flag_value st' = flag_value st OR flags"
  using assms
  by (simp add: guac_flag_set_def guac_flag_set_and_lock_def guac_flag_lock_def guac_flag_unlock_def
      cond_broadcast_def Let_def)

lemma flag_clear_held:
  assumes "owner st = Some (t, Suc 0)"
  shows "\<exists>st'. guac_flag_clear t flags st = Some st' \<and> owner st' = Some (t, Suc 0) \<and>
           flag_value st' = flag_value st AND NOT flags"
  using assms
  by (simp add: guac_flag_clear_def guac_flag_clear_and_lock_def guac_flag_lock_def guac_flag_unlock_def)

lemma flag_clear_if_held:
  assumes "owner st = Some (t, Suc 0)"
  shows "\<exists>st'. (if b then guac_flag_clear t flags st else Some st) = Some st' \<and>
           owner st' = Some (t, Suc 0) \<and>
           flag_value st' = (if b then flag_value st AND NOT flags else flag_value st)"
  using flag_clear_held [OF assms] assms by (cases b) auto

lemma flag_wait_free:
  assumes "owner st = None"
  shows "guac_flag_wait_and_lock t flags st =
           (if has (flag_value st) flags then Some (st\<lparr>owner := Some (t, Suc 0)\<rparr>) else None)"
  using assms by (simp add: guac_flag_wait_and_lock_def wait_enter_def wait_round_def guac_flag_lock_def)

lemma fifo_unlock_held:
  "owner (fifo_state q) = Some (t, Suc 0) \<Longrightarrow>
     owner (fifo_state (guac_fifo_unlock t q)) = None \<and>
     flag_value (fifo_state (guac_fifo_unlock t q)) = flag_value (fifo_state q) \<and>
     item_count (guac_fifo_unlock t q) = item_count q \<and> max_items (guac_fifo_unlock t q) = max_items q \<and>
     fifo_head (guac_fifo_unlock t q) = fifo_head q \<and> fifo_items (guac_fifo_unlock t q) = fifo_items q"
  by (simp add: guac_fifo_unlock_def) (simp add: guac_flag_unlock_def)

section \<open>Invariant and contents\<close>

definition fifo_contents :: "'a guac_fifo \<Rightarrow> 'a list" where
  "fifo_contents q =
     map (\<lambda>i. fifo_items q ! ((fifo_head q + i) mod max_items q)) [0..<item_count q]"

definition fifo_inv :: "'a guac_fifo \<Rightarrow> bool" where
  "fifo_inv q \<longleftrightarrow>
     0 < max_items q \<and> length (fifo_items q) = max_items q \<and> fifo_head q < max_items q \<and>
     item_count q \<le> max_items q \<and>
     (has (flag_value (fifo_state q)) GUAC_FIFO_STATE_READY \<longleftrightarrow> item_count q < max_items q) \<and>
     (has (flag_value (fifo_state q)) GUAC_FIFO_STATE_NONEMPTY \<longleftrightarrow> 0 < item_count q)"

definition fifo_idle :: "'a guac_fifo \<Rightarrow> bool" where
  "fifo_idle q \<longleftrightarrow> fifo_inv q \<and> owner (fifo_state q) = None"

lemma length_fifo_contents [simp]: "length (fifo_contents q) = item_count q"
  by (simp add: fifo_contents_def)

lemma ring_index_inj:
  fixes h :: nat
  assumes "i < m" "j < m" "(h + i) mod m = (h + j) mod m"
  shows "i = j"
proof -
  have "i mod m = j mod m" using assms(3) by (auto simp: nat_mod_eq_iff)
  then show ?thesis using assms(1,2) by simp
qed

lemma fifo_contents_enqueue:
  assumes "length (fifo_items q) = max_items q" "item_count q < max_items q"
  shows "map (\<lambda>i. (fifo_items q)[(fifo_head q + item_count q) mod max_items q := x] !
                   ((fifo_head q + i) mod max_items q)) [0..<item_count q + 1] = fifo_contents q @ [x]"
proof -
  have "(fifo_head q + item_count q) mod max_items q \<noteq> (fifo_head q + i) mod max_items q"
    if "i < item_count q" for i
    using ring_index_inj [of i "max_items q" "item_count q" "fifo_head q"] that assms(2) by auto
  then show ?thesis using assms by (auto simp: fifo_contents_def)
qed

lemma fifo_contents_dequeue:
  assumes "0 < item_count q" "fifo_head q < max_items q"
  shows "fifo_contents q = fifo_items q ! fifo_head q #
      map (\<lambda>i. fifo_items q ! (((fifo_head q + 1) mod max_items q + i) mod max_items q)) [0..<item_count q - 1]"
proof -
  have "[0..<item_count q] = 0 # map Suc [0..<item_count q - 1]"
    using assms(1) by (simp add: map_Suc_upt upt_conv_Cons)
  then show ?thesis using assms(2) by (simp add: fifo_contents_def mod_simps)
qed

lemma fifo_init_idle:
  assumes "0 < n" "length garbage = n"
  shows "\<exists>q. guac_fifo_init t garbage n = Some q \<and> fifo_idle q \<and> fifo_contents q = [] \<and>
           max_items q = n \<and> guac_fifo_is_valid q"
proof -
  obtain st where "guac_flag_set t GUAC_FIFO_STATE_READY guac_flag_init = Some st" "owner st = None"
    "flag_value st = GUAC_FIFO_STATE_READY"
    using flag_set_free [of guac_flag_init t GUAC_FIFO_STATE_READY] by (auto simp: guac_flag_init_def)
  then show ?thesis
    using assms by (simp add: guac_fifo_init_def fifo_idle_def fifo_inv_def fifo_contents_def
        fifo_flags guac_fifo_is_valid_def)
qed

lemma fifo_unlock_idle:
  assumes "fifo_inv q" "owner (fifo_state q) = Some (t, Suc 0)"
  shows "fifo_idle (guac_fifo_unlock t q)"
    "guac_fifo_is_valid (guac_fifo_unlock t q) = guac_fifo_is_valid q"
    "fifo_contents (guac_fifo_unlock t q) = fifo_contents q"
    "max_items (guac_fifo_unlock t q) = max_items q"
  using fifo_unlock_held [OF assms(2)] assms(1)
  by (simp_all add: fifo_idle_def fifo_inv_def guac_fifo_is_valid_def fifo_contents_def)

lemma fifo_enqueue_ready:
  assumes "fifo_idle q" "guac_fifo_is_valid q" "item_count q < max_items q"
  shows "\<exists>q'. guac_fifo_enqueue t x q = Some (Inr (True, q')) \<and> fifo_idle q' \<and> guac_fifo_is_valid q' \<and>
           max_items q' = max_items q \<and> fifo_contents q' = fifo_contents q @ [x]"
proof -
  let ?st = "(fifo_state q)\<lparr>owner := Some (t, Suc 0)\<rparr>"
  let ?n = "item_count q + 1"
  have v: "has (flag_value (fifo_state q)) GUAC_FIFO_STATE_READY"
    "\<not> has (flag_value (fifo_state q)) GUAC_FIFO_STATE_INVALID"
    using assms by (auto simp: fifo_idle_def fifo_inv_def guac_fifo_is_valid_def)
  have w: "guac_flag_wait_and_lock t (GUAC_FIFO_STATE_INVALID OR GUAC_FIFO_STATE_READY) (fifo_state q) = Some ?st"
    using assms(1) v by (simp add: flag_wait_free fifo_idle_def flag_bits)
  obtain st1 where st1: "(if ?n = max_items q then guac_flag_clear t GUAC_FIFO_STATE_READY ?st else Some ?st) = Some st1"
    "owner st1 = Some (t, Suc 0)" "flag_value st1 = (if ?n = max_items q
       then flag_value (fifo_state q) AND NOT GUAC_FIFO_STATE_READY else flag_value (fifo_state q))"
    using flag_clear_if_held [of ?st t "?n = max_items q" GUAC_FIFO_STATE_READY] by auto
  obtain st2 where st2: "guac_flag_set t GUAC_FIFO_STATE_NONEMPTY st1 = Some st2"
    "owner st2 = Some (t, Suc 0)" "flag_value st2 = flag_value st1 OR GUAC_FIFO_STATE_NONEMPTY"
    using flag_set_held [OF st1(2)] by blast
  have "\<exists>q1. enqueue_locked t x (q\<lparr>fifo_state := ?st\<rparr>) = Some (Inr (True, q1)) \<and>
    fifo_state q1 = st2 \<and> item_count q1 = ?n \<and> max_items q1 = max_items q \<and> fifo_head q1 = fifo_head q \<and>
    fifo_items q1 = (fifo_items q)[(fifo_head q + item_count q) mod max_items q := x]"
  proof (cases "max_items q = Suc (item_count q)")
    case True
    then show ?thesis using st1(1) st2(1) v(2) by (simp add: enqueue_locked_def Let_def)
  next
    case False
    then have "st1 = ?st" using st1(1) by simp
    with False show ?thesis
      using st2(1) v(2) assms(3) by (simp add: enqueue_locked_def Let_def)
  qed
  then obtain q1 where q1: "enqueue_locked t x (q\<lparr>fifo_state := ?st\<rparr>) = Some (Inr (True, q1))"
    "fifo_state q1 = st2" "item_count q1 = ?n" "max_items q1 = max_items q" "fifo_head q1 = fifo_head q"
    "fifo_items q1 = (fifo_items q)[(fifo_head q + item_count q) mod max_items q := x]" by blast
  have held: "owner (fifo_state q1) = Some (t, Suc 0)" using q1(2) st2(2) by simp
  have "fifo_inv q1 \<and> guac_fifo_is_valid q1"
    using q1 st1(3) st2(3) assms v(2)
    by (auto simp: fifo_idle_def fifo_inv_def guac_fifo_is_valid_def flag_bits)
  moreover have "fifo_contents q1 = fifo_contents q @ [x]"
    using fifo_contents_enqueue [of q x] assms q1
    by (simp add: fifo_contents_def fifo_idle_def fifo_inv_def)
  moreover have "guac_fifo_enqueue t x q = Some (Inr (True, guac_fifo_unlock t q1))"
    using w q1(1) by (simp add: guac_fifo_enqueue_def guac_fifo_enqueue_and_lock_def)
  ultimately show ?thesis using fifo_unlock_idle [of q1 t] held q1(4) by simp
qed

lemma fifo_dequeue_held:
  assumes "fifo_inv q" "owner (fifo_state q) = Some (t, Suc 0)" "0 < item_count q" "guac_fifo_is_valid q"
  shows "\<exists>x q'. dequeue t q = Some (x, q') \<and> owner (fifo_state q') = Some (t, Suc 0) \<and> fifo_inv q' \<and>
           guac_fifo_is_valid q' \<and> max_items q' = max_items q \<and> fifo_contents q = x # fifo_contents q'"
proof -
  let ?n = "item_count q - 1" and ?h = "(fifo_head q + 1) mod max_items q"
  obtain st1 where st1: "(if ?n = 0 then guac_flag_clear t GUAC_FIFO_STATE_NONEMPTY (fifo_state q)
      else Some (fifo_state q)) = Some st1" "owner st1 = Some (t, Suc 0)"
    "flag_value st1 = (if ?n = 0 then flag_value (fifo_state q) AND NOT GUAC_FIFO_STATE_NONEMPTY
       else flag_value (fifo_state q))"
    using flag_clear_if_held [OF assms(2), of "?n = 0" GUAC_FIFO_STATE_NONEMPTY] by auto
  obtain st2 where st2: "guac_flag_set t GUAC_FIFO_STATE_READY st1 = Some st2"
    "owner st2 = Some (t, Suc 0)" "flag_value st2 = flag_value st1 OR GUAC_FIFO_STATE_READY"
    using flag_set_held [OF st1(2)] by blast
  let ?q' = "q\<lparr>item_count := ?n, fifo_head := ?h, fifo_state := st2\<rparr>"
  have "dequeue t q = Some (fifo_items q ! fifo_head q, ?q')"
    using st1(1) st2(1) by (cases "?n = 0") (simp_all add: dequeue_def Let_def)
  moreover have "fifo_inv ?q' \<and> guac_fifo_is_valid ?q'"
    using st1(3) st2(3) assms
    by (auto simp: fifo_inv_def guac_fifo_is_valid_def flag_bits)
  moreover have "fifo_contents q = fifo_items q ! fifo_head q # fifo_contents ?q'"
    using fifo_contents_dequeue [of q] assms(1,3) by (simp add: fifo_contents_def fifo_inv_def)
  ultimately show ?thesis using st2(2) by simp
qed

lemma fifo_lock_frame:
  "fifo_inv (q\<lparr>fifo_state := (fifo_state q)\<lparr>owner := ow\<rparr>\<rparr>) = fifo_inv q"
  "guac_fifo_is_valid (q\<lparr>fifo_state := (fifo_state q)\<lparr>owner := ow\<rparr>\<rparr>) = guac_fifo_is_valid q"
  "fifo_contents (q\<lparr>fifo_state := st\<rparr>) = fifo_contents q"
  by (simp_all add: fifo_inv_def guac_fifo_is_valid_def fifo_contents_def)

lemma fifo_dequeue_nonempty:
  assumes "fifo_idle q" "guac_fifo_is_valid q" "0 < item_count q"
  shows "\<exists>x q'. guac_fifo_dequeue t q = Some (Some x, q') \<and> fifo_idle q' \<and> guac_fifo_is_valid q' \<and>
           max_items q' = max_items q \<and> fifo_contents q = x # fifo_contents q'"
proof -
  let ?q = "q\<lparr>fifo_state := (fifo_state q)\<lparr>owner := Some (t, Suc 0)\<rparr>\<rparr>"
  have v: "has (flag_value (fifo_state q)) GUAC_FIFO_STATE_NONEMPTY"
    "\<not> has (flag_value (fifo_state q)) GUAC_FIFO_STATE_INVALID"
    using assms by (auto simp: fifo_idle_def fifo_inv_def guac_fifo_is_valid_def)
  obtain x q1 where q1: "dequeue t ?q = Some (x, q1)" "owner (fifo_state q1) = Some (t, Suc 0)"
    "fifo_inv q1" "guac_fifo_is_valid q1" "max_items q1 = max_items q" "fifo_contents q = x # fifo_contents q1"
    using fifo_dequeue_held [of ?q t] assms by (auto simp: fifo_lock_frame fifo_idle_def)
  have "guac_fifo_dequeue t q = Some (Some x, guac_fifo_unlock t q1)"
    using v q1(1) assms(1)
    by (simp add: guac_fifo_dequeue_def guac_fifo_dequeue_and_lock_def dequeue_locked_def
        flag_wait_free fifo_idle_def flag_bits)
  then show ?thesis using fifo_unlock_idle [OF q1(3,2)] q1(4,5,6) by auto
qed

lemma fifo_blocks:
  assumes "fifo_idle q" "guac_fifo_is_valid q"
  shows "item_count q = max_items q \<Longrightarrow> guac_fifo_enqueue t x q = None"
    and "item_count q = 0 \<Longrightarrow> guac_fifo_dequeue t q = None"
  using assms
  by (auto simp: guac_fifo_enqueue_def guac_fifo_enqueue_and_lock_def guac_fifo_dequeue_def
      guac_fifo_dequeue_and_lock_def flag_wait_free flag_bits fifo_idle_def fifo_inv_def guac_fifo_is_valid_def)

lemma fifo_invalid_refuses:
  assumes "fifo_idle q" "\<not> guac_fifo_is_valid q"
  shows "guac_fifo_enqueue t x q = Some (Inr (False, q))" "guac_fifo_dequeue t q = Some (None, q)"
  using assms
  by (simp_all add: guac_fifo_enqueue_def guac_fifo_enqueue_and_lock_def enqueue_locked_def
      guac_fifo_dequeue_def guac_fifo_dequeue_and_lock_def dequeue_locked_def flag_wait_free flag_bits
      fifo_idle_def guac_fifo_is_valid_def guac_fifo_unlock_def guac_flag_unlock_def)

section \<open>The interface of a bounded queue\<close>

datatype 'a queue_event = Enq tid 'a | Deq tid

locale bounded_queue =
  fixes inv :: "'q \<Rightarrow> bool" and contents :: "'q \<Rightarrow> 'a list" and cap :: "'q \<Rightarrow> nat"
    and enq :: "tid \<Rightarrow> 'q \<Rightarrow> 'a \<Rightarrow> 'q option" and deq :: "tid \<Rightarrow> 'q \<Rightarrow> ('a \<times> 'q) option"
  assumes bounded: "inv q \<Longrightarrow> length (contents q) \<le> cap q"
    and enq_room: "inv q \<Longrightarrow> length (contents q) < cap q \<Longrightarrow>
        \<exists>q'. enq t q x = Some q' \<and> inv q' \<and> cap q' = cap q \<and> contents q' = contents q @ [x]"
    and enq_full: "inv q \<Longrightarrow> length (contents q) = cap q \<Longrightarrow> enq t q x = None"
    and deq_some: "inv q \<Longrightarrow> contents q \<noteq> [] \<Longrightarrow>
        \<exists>x q'. deq t q = Some (x, q') \<and> inv q' \<and> cap q' = cap q \<and> contents q = x # contents q'"
    and deq_empty: "inv q \<Longrightarrow> contents q = [] \<Longrightarrow> deq t q = None"
begin

text \<open>A run of completed calls of any threads: what was dequeued, in order, and the last state.\<close>

fun run :: "'q \<Rightarrow> 'a queue_event list \<Rightarrow> ('a list \<times> 'q) option" where
  "run q [] = Some ([], q)"
| "run q (Enq t x # es) = (case enq t q x of None \<Rightarrow> None | Some q' \<Rightarrow> run q' es)"
| "run q (Deq t # es) =
     (case deq t q of None \<Rightarrow> None | Some (x, q') \<Rightarrow> map_option (\<lambda>(xs, q''). (x # xs, q'')) (run q' es))"

fun enqueued :: "'a queue_event list \<Rightarrow> 'a list" where
  "enqueued [] = []"
| "enqueued (Enq t x # es) = x # enqueued es"
| "enqueued (Deq t # es) = enqueued es"

lemma run_fifo:
  "inv q \<Longrightarrow> run q es = Some (outs, q') \<Longrightarrow>
     inv q' \<and> cap q' = cap q \<and> contents q @ enqueued es = outs @ contents q'"
proof (induction q es arbitrary: outs rule: run.induct)
  case (1 q)
  then show ?case by simp
next
  case (2 q t x es)
  then have "length (contents q) \<noteq> cap q" using enq_full [of q t x] by (auto split: option.splits)
  then have "length (contents q) < cap q" using bounded [OF 2(2)] by simp
  from enq_room [OF 2(2) this, of t x] obtain q1 where
    q1: "enq t q x = Some q1" "inv q1" "cap q1 = cap q" "contents q1 = contents q @ [x]" by blast
  then have "run q1 es = Some (outs, q')" using 2(3) by simp
  from 2(1) [OF q1(1,2) this] q1(3,4) show ?case by simp
next
  case (3 q t es)
  then have "contents q \<noteq> []" using deq_empty [of q t] by (auto split: option.splits)
  from deq_some [OF 3(2) this, of t] 3 show ?case by auto
qed

end

definition fifo_put :: "tid \<Rightarrow> 'a guac_fifo \<Rightarrow> 'a \<Rightarrow> 'a guac_fifo option" where
  "fifo_put t q x = (case guac_fifo_enqueue t x q of Some (Inr (True, q')) \<Rightarrow> Some q' | _ \<Rightarrow> None)"

definition fifo_take :: "tid \<Rightarrow> 'a guac_fifo \<Rightarrow> ('a \<times> 'a guac_fifo) option" where
  "fifo_take t q = (case guac_fifo_dequeue t q of Some (Some x, q') \<Rightarrow> Some (x, q') | _ \<Rightarrow> None)"

definition fifo_ok :: "'a guac_fifo \<Rightarrow> bool" where
  "fifo_ok q \<longleftrightarrow> fifo_idle q \<and> guac_fifo_is_valid q"

interpretation fifo: bounded_queue fifo_ok fifo_contents max_items fifo_put fifo_take
proof unfold_locales
  fix q :: "'a guac_fifo" and t x
  assume ok: "fifo_ok q"
  then have i: "fifo_idle q" "guac_fifo_is_valid q" "fifo_inv q" by (auto simp: fifo_ok_def fifo_idle_def)
  show "length (fifo_contents q) \<le> max_items q" using i(3) by (simp add: fifo_inv_def)
  show "\<exists>q'. fifo_put t q x = Some q' \<and> fifo_ok q' \<and> max_items q' = max_items q \<and>
      fifo_contents q' = fifo_contents q @ [x]" if "length (fifo_contents q) < max_items q"
    using fifo_enqueue_ready [OF i(1,2), of t x] that by (auto simp: fifo_put_def fifo_ok_def)
  show "fifo_put t q x = None" if "length (fifo_contents q) = max_items q"
    using fifo_blocks(1) [OF i(1,2), of t x] that by (simp add: fifo_put_def)
  show "\<exists>x q'. fifo_take t q = Some (x, q') \<and> fifo_ok q' \<and> max_items q' = max_items q \<and>
      fifo_contents q = x # fifo_contents q'" if "fifo_contents q \<noteq> []"
  proof -
    have "0 < item_count q" using that by (metis length_fifo_contents length_greater_0_conv)
    from fifo_dequeue_nonempty [OF i(1,2) this, of t] show ?thesis by (auto simp: fifo_take_def fifo_ok_def)
  qed
  show "fifo_take t q = None" if "fifo_contents q = []"
  proof -
    have "item_count q = 0" using that by (metis length_fifo_contents list.size(3))
    from fifo_blocks(2) [OF i(1,2) this, of t] show ?thesis by (simp add: fifo_take_def)
  qed
qed

section \<open>Properties\<close>

text \<open>
  C13. Whatever the threads, completed enqueue and dequeue calls on a new queue behave as a queue
  of at most \<open>max_items\<close> items: the items dequeued are exactly the first ones enqueued, in order,
  and the rest are still in the queue.
\<close>

theorem fifo_order:
  assumes "0 < n" "length garbage = n" "guac_fifo_init t0 garbage n = Some q"
    and "fifo.run q events = Some (outs, q')"
  shows "fifo.enqueued events = outs @ fifo_contents q' \<and> length (fifo_contents q') \<le> n \<and> fifo_ok q'"
proof -
  have q: "fifo_ok q" "fifo_contents q = []" "max_items q = n"
    using fifo_init_idle [OF assms(1,2), of t0] assms(3) by (auto simp: fifo_ok_def)
  show ?thesis
    using fifo.run_fifo [OF q(1) assms(4)] fifo.bounded [of q'] q(2,3) by auto
qed

definition fifo_example :: "nat guac_fifo" where
  "fifo_example = \<lparr>fifo_state = \<lparr>flag_value = 1, owner = None, sleeping = Map.empty, woken = Map.empty\<rparr>,
     max_items = 2, fifo_head = 0, item_count = 0, fifo_items = [0, 0]\<rparr>"

theorem fifo_order_witness:
  "guac_fifo_init 1 [0, 0] 2 = Some fifo_example \<and>
   (\<exists>q'. fifo.run fifo_example [Enq 1 7, Enq 2 8, Deq 3, Enq 1 9] = Some ([7], q') \<and>
         fifo_contents q' = [8, 9])"
proof -
  have init: "guac_fifo_init 1 [0, 0] 2 = Some fifo_example"
    by (simp add: guac_fifo_init_def guac_flag_set_def guac_flag_set_and_lock_def guac_flag_lock_def
        guac_flag_init_def guac_flag_unlock_def cond_broadcast_def fifo_flags fifo_example_def)
  obtain q' where run: "fifo.run fifo_example [Enq 1 7, Enq 2 8, Deq 3, Enq 1 9] = Some ([7], q')"
    by (simp add: fifo_put_def fifo_take_def guac_fifo_enqueue_def guac_fifo_enqueue_and_lock_def
        enqueue_locked_def guac_fifo_dequeue_def guac_fifo_dequeue_and_lock_def dequeue_locked_def dequeue_def
        guac_flag_wait_and_lock_def wait_enter_def wait_round_def guac_fifo_unlock_def
        guac_flag_set_def guac_flag_set_and_lock_def guac_flag_clear_def guac_flag_clear_and_lock_def
        guac_flag_lock_def guac_flag_unlock_def cond_broadcast_def fifo_flags fifo_example_def)
  show ?thesis using init run fifo_order [OF _ _ init run] by simp
qed

text \<open>
  Between calls the enqueue never reaches its \<open>abort()\<close>: it appends the item when there is
  room, waits exactly when the queue is full and valid, and refuses without any change once
  the queue has been invalidated, as does the dequeue.
\<close>

theorem fifo_enqueue_total:
  assumes "fifo_idle q"
  shows "(\<not> guac_fifo_is_valid q \<longrightarrow> guac_fifo_enqueue t x q = Some (Inr (False, q)) \<and>
                                   guac_fifo_dequeue t q = Some (None, q)) \<and>
         (guac_fifo_is_valid q \<longrightarrow> item_count q = max_items q \<longrightarrow> guac_fifo_enqueue t x q = None) \<and>
         (guac_fifo_is_valid q \<longrightarrow> item_count q < max_items q \<longrightarrow>
           (\<exists>q'. guac_fifo_enqueue t x q = Some (Inr (True, q')) \<and> fifo_idle q' \<and>
                 fifo_contents q' = fifo_contents q @ [x]))"
  using fifo_invalid_refuses [OF assms] fifo_blocks(1) [OF assms] fifo_enqueue_ready [OF assms] by blast

theorem fifo_enqueue_total_witness:
  "\<exists>q'. guac_fifo_enqueue 5 42 fifo_example = Some (Inr (True, q')) \<and>
        fifo_contents q' = fifo_contents fifo_example @ [42]"
proof -
  have idle: "fifo_idle fifo_example"
    by (simp add: fifo_idle_def fifo_inv_def fifo_example_def fifo_flags)
  show ?thesis
    using fifo_enqueue_total [OF idle, of 5 42]
    by (auto simp: guac_fifo_is_valid_def fifo_example_def fifo_flags)
qed

end
