(* ===== verification/Parser.thy ===== *)
theory Parser
  imports Protocol
begin

text \<open>
  The instruction parser (\<open>src/src/libguac/parser.c\<close>).

  The parser keeps pointers into the buffer it parses, in which it replaces the terminator of each
  element by a NUL. A pointer is an offset into that buffer, the buffer a list of bytes; the
  parser's own buffer is the field \<open>instructionbuf\<close>. The socket that \<open>guac_parser_read\<close> reads is the
  script of what its next \<open>select\<close> and \<open>read\<close> calls do; when the script is exhausted, \<open>select\<close>
  blocks for ever and the read does not return (\<open>None\<close>).
\<close>

section \<open>Definitions\<close>

datatype guac_parse_state = GUAC_PARSE_LENGTH | GUAC_PARSE_CONTENT | GUAC_PARSE_COMPLETE | GUAC_PARSE_ERROR

record guac_parser =
  opcode :: "nat option"
  argc :: int
  argv :: "nat option"  \<comment> \<open>the index in \<open>elementv\<close> at which the arguments begin\<close>
  state :: guac_parse_state
  element_length :: int
  elementc :: nat
  elementv :: "nat list"
  unparsed_start :: nat
  unparsed_end :: nat
  instructionbuf :: "u8 list"

definition GUAC_INSTRUCTION_MAX_LENGTH :: int where "GUAC_INSTRUCTION_MAX_LENGTH = 8192"
definition GUAC_INSTRUCTION_MAX_ELEMENTS :: nat where "GUAC_INSTRUCTION_MAX_ELEMENTS = 128"

definition guac_parser_reset :: "guac_parser \<Rightarrow> guac_parser" where
  "guac_parser_reset parser =
     parser\<lparr>opcode := None, argc := 0, state := GUAC_PARSE_LENGTH, elementc := 0, element_length := 0\<rparr>"

text \<open>
  Fresh memory for the parser (none when the allocation fails) has arbitrary contents; only the
  sizes of its arrays are fixed.
\<close>

definition guac_parser_alloc :: "guac_parser option \<Rightarrow> guac_parser option" where
  "guac_parser_alloc memory =
     (case memory of
        None \<Rightarrow> None
      | Some parser \<Rightarrow> Some (guac_parser_reset (parser\<lparr>unparsed_start := 0, unparsed_end := 0\<rparr>)))"

subsection \<open>Appending\<close>

text \<open>How the loop over the length prefix ends, with the length and the number of bytes parsed.\<close>

datatype length_outcome = Length_more int nat | Length_done int nat | Length_error

abbreviation is_digit :: "u8 \<Rightarrow> bool" where
  "is_digit c \<equiv> of_char (CHR ''0'') \<le> c \<and> c \<le> of_char (CHR ''9'')"

fun parse_length :: "u8 list \<Rightarrow> int \<Rightarrow> nat \<Rightarrow> length_outcome" where
  "parse_length [] parsed_length bytes_parsed = Length_more parsed_length bytes_parsed"
| "parse_length (c # cs) parsed_length bytes_parsed =
     (if is_digit c then
        parse_length cs (wrap32 (parsed_length * 10 + uint c - of_char (CHR ''0''))) (bytes_parsed + 1)
      else if c = of_char (CHR ''.'') then Length_done parsed_length (bytes_parsed + 1)
      else Length_error)"

text \<open>
  The block that parses the length prefix of the available \<open>bytes\<close> at offset \<open>buffer\<close>: \<open>Inl\<close> is
  the early return of 0.
\<close>

definition append_length :: "guac_parser \<Rightarrow> nat \<Rightarrow> u8 list \<Rightarrow> guac_parser + (guac_parser \<times> nat)" where
  "append_length parser buffer bytes =
     (if state parser = GUAC_PARSE_LENGTH then
        (case parse_length bytes (element_length parser) 0 of
           Length_error \<Rightarrow> Inl (parser\<lparr>state := GUAC_PARSE_ERROR\<rparr>)
         | Length_more parsed_length n \<Rightarrow>
             if parsed_length > GUAC_INSTRUCTION_MAX_LENGTH then Inl (parser\<lparr>state := GUAC_PARSE_ERROR\<rparr>)
             else Inr (parser\<lparr>element_length := parsed_length\<rparr>, n)
         | Length_done parsed_length n \<Rightarrow>
             let switched = parser\<lparr>elementv := (elementv parser)[elementc parser := buffer + n],
                                   elementc := elementc parser + 1, state := GUAC_PARSE_CONTENT\<rparr>
             in if parsed_length > GUAC_INSTRUCTION_MAX_LENGTH then Inl (switched\<lparr>state := GUAC_PARSE_ERROR\<rparr>)
                else Inr (switched\<lparr>element_length := parsed_length\<rparr>, n))
      else Inr (parser, 0))"

text \<open>
  How the loop over the content ends: for lack of bytes, or at the terminator; with the remaining
  element length, the number of bytes parsed, and at the terminator its value and offset.
\<close>

datatype content_outcome = Content_more int nat | Content_end u8 nat nat

function parse_content :: "u8 list \<Rightarrow> int \<Rightarrow> nat \<Rightarrow> content_outcome" where
  "parse_content bytes remaining bytes_parsed =
     (if bytes = [] \<or> remaining < 0 then Content_more remaining bytes_parsed
      else
        let c = hd bytes; char_length = guac_utf8_charsize c in
        if char_length > length bytes then Content_more remaining bytes_parsed
        else if remaining = 0 then Content_end c (bytes_parsed + char_length) bytes_parsed
        else parse_content (drop char_length bytes) (remaining - 1) (bytes_parsed + char_length))"
  by pat_completeness auto
termination
proof (relation "measure (\<lambda>(bytes, remaining, n). length bytes)", goal_cases)
  case 1
  show ?case by simp
next
  case (2 bytes remaining n c char_length)
  then show ?case using charsize_bounds(1) [of c] by (cases bytes) auto
qed

declare parse_content.simps [simp del]

definition append_content ::
  "guac_parser \<Rightarrow> u8 list \<Rightarrow> nat \<Rightarrow> u8 list \<Rightarrow> nat \<Rightarrow> guac_parser \<times> u8 list \<times> nat" where
  "append_content parser mem buffer bytes bytes_parsed =
     (if state parser = GUAC_PARSE_CONTENT then
        (case parse_content (drop bytes_parsed bytes) (element_length parser) bytes_parsed of
           Content_more remaining n \<Rightarrow> (parser\<lparr>element_length := remaining\<rparr>, mem, n)
         | Content_end c n offset \<Rightarrow>
             let terminated = mem[buffer + offset := 0]; ended = parser\<lparr>element_length := 0\<rparr> in
             if c = of_char (CHR '';'') then
               (ended\<lparr>state := GUAC_PARSE_COMPLETE, opcode := Some (elementv parser ! 0), argv := Some 1,
                      argc := int (elementc parser) - 1\<rparr>, terminated, n)
             else if c = of_char (CHR '','') then (ended\<lparr>state := GUAC_PARSE_LENGTH\<rparr>, terminated, n)
             else (ended\<lparr>state := GUAC_PARSE_ERROR\<rparr>, terminated, 0))
      else (parser, mem, bytes_parsed))"

definition guac_parser_append ::
  "guac_parser \<Rightarrow> u8 list \<Rightarrow> nat \<Rightarrow> nat \<Rightarrow> guac_parser \<times> u8 list \<times> nat" where
  "guac_parser_append parser mem buffer len =
     (if elementc parser = GUAC_INSTRUCTION_MAX_ELEMENTS \<and> state parser \<noteq> GUAC_PARSE_COMPLETE
      then (parser\<lparr>state := GUAC_PARSE_ERROR\<rparr>, mem, 0)
      else
        let bytes = take len (drop buffer mem) in
        (case append_length parser buffer bytes of
           Inl failed \<Rightarrow> (failed, mem, 0)
         | Inr (parser', bytes_parsed) \<Rightarrow> append_content parser' mem buffer bytes bytes_parsed))"

subsection \<open>Reading from a socket\<close>

datatype socket_event =
    Select_failed                 \<comment> \<open>\<open>select\<close> returns a value \<open>\<le> 0\<close>\<close>
  | Read_failed                   \<comment> \<open>\<open>read\<close> returns a negative value\<close>
  | Data "u8 list"                \<comment> \<open>bytes ready to be read; none at the end of the stream\<close>

text \<open>A read takes at most the requested number of bytes; the rest stays available.\<close>

definition take_event :: "nat \<Rightarrow> u8 list \<Rightarrow> socket_event list \<Rightarrow> socket_event list" where
  "take_event count data script =
     (if length data \<le> count then script else Data (drop count data) # script)"

definition script_size :: "socket_event list \<Rightarrow> nat" where
  "script_size script = sum_list (map (\<lambda>e. case e of Data d \<Rightarrow> 1 + length d | _ \<Rightarrow> 1) script)"

text \<open>The cursors of the read: unparsed start and end, and the start of the instruction.\<close>

record read_cursor =
  start :: nat
  finish :: nat
  instr_start :: nat

definition shift_buffer :: "guac_parser \<Rightarrow> read_cursor \<Rightarrow> guac_parser \<times> read_cursor" where
  "shift_buffer parser cur =
     (let offset = instr_start cur;
          moved = overwrite (instructionbuf parser) 0
                    (take (finish cur - offset) (drop offset (instructionbuf parser)))
      in (parser\<lparr>instructionbuf := moved,
                 elementv := map (\<lambda>e. e - offset) (take (elementc parser) (elementv parser)) @
                             drop (elementc parser) (elementv parser)\<rparr>,
          cur\<lparr>finish := finish cur - offset, start := start cur - offset, instr_start := 0\<rparr>))"

type_synonym read_result = "(int \<times> guac_status option \<times> guac_parser \<times> socket_event list) option"

text \<open>
  Filling the buffer once: an early return of the read (\<open>Inl\<close>, \<open>Inl None\<close> when it blocks), or the
  state in which the loop goes on. The status is that set by the read itself.
\<close>

definition fill_buffer ::
  "guac_parser \<Rightarrow> read_cursor \<Rightarrow> socket_event list \<Rightarrow>
     read_result + (guac_parser \<times> read_cursor \<times> socket_event list)" where
  "fill_buffer parser cur script =
     (let buffer_end = length (instructionbuf parser) in
      if finish cur = buffer_end \<and> instr_start cur = 0
      then Inl (Some (-1, Some GUAC_STATUS_NO_MEMORY, parser, script))
      else
        let (parser1, cur1) = (if finish cur = buffer_end then shift_buffer parser cur else (parser, cur)) in
        (case script of
           [] \<Rightarrow> Inl None
         | Select_failed # rest \<Rightarrow> Inl (Some (-1, None, parser1, rest))
         | Read_failed # rest \<Rightarrow> Inl (Some (-1, Some GUAC_STATUS_SEE_ERRNO, parser1, rest))
         | Data data # rest \<Rightarrow>
             let count = buffer_end - finish cur1; got = take count data in
             if got = [] then Inl (Some (-1, Some GUAC_STATUS_CLOSED, parser1, take_event count data rest))
             else Inr (parser1\<lparr>instructionbuf := overwrite (instructionbuf parser1) (finish cur1) got\<rparr>,
                       cur1\<lparr>finish := finish cur1 + length got\<rparr>, take_event count data rest)))"

text \<open>Bounds on what is parsed, which the termination of the loop needs.\<close>

lemma parse_length_bound:
  "parse_length bytes v k = Length_more l n \<Longrightarrow> n = k + length bytes"
  "parse_length bytes v k = Length_done l n \<Longrightarrow> k < n \<and> n \<le> k + length bytes"
  by (induction bytes v k rule: parse_length.induct) (auto split: if_splits)

lemma parse_content_bound:
  "parse_content bytes el k = Content_more l n \<Longrightarrow> k \<le> n \<and> n \<le> k + length bytes"
  "parse_content bytes el k = Content_end c n off \<Longrightarrow> k \<le> off \<and> off < n \<and> n \<le> k + length bytes"
proof (induction bytes el k rule: parse_content.induct)
  case (1 bytes el k)
  note unf = parse_content.simps [of bytes el k]
  {
    case 1
    then show ?case
      using "1.IH"(1) [OF _ refl refl] charsize_bounds(1) [of "hd bytes"] unfolding unf
      by (fastforce simp: Let_def split: if_splits)
  next
    case 2
    then show ?case
      using "1.IH"(2) [OF _ refl refl] charsize_bounds(1) [of "hd bytes"] unfolding unf
      by (fastforce simp: Let_def split: if_splits)
  }
qed

lemma append_length_bound:
  "append_length parser buffer bytes = Inr (parser', n) \<Longrightarrow> n \<le> length bytes"
  by (auto simp: append_length_def Let_def dest: parse_length_bound split: if_splits length_outcome.splits)

lemma append_content_bound:
  "append_content parser mem buffer bytes k = (parser', mem', n) \<Longrightarrow> k \<le> length bytes \<Longrightarrow> n \<le> length bytes"
  by (auto simp: append_content_def Let_def dest: parse_content_bound split: if_splits content_outcome.splits)

lemma append_bound:
  "guac_parser_append parser mem buffer len = (parser', mem', n) \<Longrightarrow> n \<le> len"
  by (auto simp: guac_parser_append_def Let_def split: if_splits sum.splits
      dest!: append_length_bound append_content_bound)

lemma fill_buffer_less: "fill_buffer parser cur script = Inr (parser', cur', script') \<Longrightarrow> script_size script' < script_size script"
  by (auto simp: fill_buffer_def take_event_def script_size_def Let_def
      split: if_splits list.splits socket_event.splits prod.splits)

function read_loop :: "guac_parser \<Rightarrow> read_cursor \<Rightarrow> socket_event list \<Rightarrow> read_result" where
  "read_loop parser cur script =
     (case state parser of
        GUAC_PARSE_COMPLETE \<Rightarrow>
          Some (0, None, parser\<lparr>unparsed_start := start cur, unparsed_end := finish cur\<rparr>, script)
      | GUAC_PARSE_ERROR \<Rightarrow> Some (-1, Some GUAC_STATUS_PROTOCOL_ERROR, parser, script)
      | _ \<Rightarrow>
          (case guac_parser_append parser (instructionbuf parser) (start cur) (finish cur - start cur) of
             (parser1, mem, parsed) \<Rightarrow>
               let parser2 = parser1\<lparr>instructionbuf := mem\<rparr> in
               if parsed = 0 \<and> state parser2 \<noteq> GUAC_PARSE_ERROR then
                 (case fill_buffer parser2 cur script of
                    Inl res \<Rightarrow> res
                  | Inr (parser3, cur3, script3) \<Rightarrow> read_loop parser3 cur3 script3)
               else read_loop parser2 (cur\<lparr>start := start cur + parsed\<rparr>) script))"
  by pat_completeness auto
termination
  by (relation "measures [\<lambda>(parser, cur, script). script_size script,
        \<lambda>(parser, cur, script). if state parser = GUAC_PARSE_ERROR then 0 else 1,
        \<lambda>(parser, cur, script). finish cur - start cur]")
    (auto dest!: fill_buffer_less append_bound [OF sym])

declare read_loop.simps [simp del]

definition guac_parser_read :: "guac_parser \<Rightarrow> socket_event list \<Rightarrow> read_result" where
  "guac_parser_read parser script =
     (let cur = \<lparr>start = unparsed_start parser, finish = unparsed_end parser, instr_start = unparsed_start parser\<rparr>;
          parser' = (if state parser = GUAC_PARSE_COMPLETE then guac_parser_reset parser else parser)
      in read_loop parser' cur script)"

text \<open>The C string at an offset of a buffer.\<close>

definition string_at :: "u8 list \<Rightarrow> nat \<Rightarrow> u8 list" where
  "string_at mem ptr = takeWhile (\<lambda>b. b \<noteq> 0) (drop ptr mem)"

definition guac_parser_expect :: "guac_parser \<Rightarrow> socket_event list \<Rightarrow> u8 list \<Rightarrow> read_result" where
  "guac_parser_expect parser script expected =
     (case guac_parser_read parser script of
        None \<Rightarrow> None
      | Some (r, status, parser', script') \<Rightarrow>
          if r \<noteq> 0 then Some (-1, status, parser', script')
          else if map_option (string_at (instructionbuf parser')) (opcode parser') \<noteq> Some expected
          then Some (-1, Some GUAC_STATUS_PROTOCOL_ERROR, parser', script')
          else Some (if state parser' \<noteq> GUAC_PARSE_COMPLETE then 1 else 0, status, parser', script'))"

definition guac_parser_length :: "guac_parser \<Rightarrow> nat" where
  "guac_parser_length parser = unparsed_end parser - unparsed_start parser"

text \<open>The number of bytes copied, the bytes themselves, and the parser left.\<close>

definition guac_parser_shift :: "guac_parser \<Rightarrow> nat \<Rightarrow> nat \<times> u8 list \<times> guac_parser" where
  "guac_parser_shift parser len =
     (let copy_start = unparsed_start parser;
          copy_end = (if unparsed_end parser - copy_start > len then copy_start + len else unparsed_end parser);
          copied = copy_end - copy_start
      in (copied, take copied (drop copy_start (instructionbuf parser)), parser\<lparr>unparsed_start := copy_end\<rparr>))"

section \<open>Characters and length prefixes\<close>

text \<open>One character: as many bytes as its first byte announces.\<close>

definition wf_char :: "u8 list \<Rightarrow> bool" where
  "wf_char c \<longleftrightarrow> c \<noteq> [] \<and> guac_utf8_charsize (hd c) = length c"

lemma wf_char_pos: "wf_char c \<Longrightarrow> 0 < length c"
  by (simp add: wf_char_def)

lemma parse_content_chars:
  assumes "\<forall>c \<in> set cs. wf_char c" "0 \<le> m"
  shows "parse_content (concat cs @ rest) (int (length cs) + m) k =
           parse_content rest m (k + length (concat cs))"
  using assms
proof (induction cs arbitrary: k)
  case (Cons c cs)
  have c: "c \<noteq> []" "guac_utf8_charsize (hd c) = length c" using Cons.prems by (auto simp: wf_char_def)
  then have "parse_content (concat (c # cs) @ rest) (int (length (c # cs)) + m) k =
      parse_content (concat cs @ rest) (int (length cs) + m) (k + length c)"
    using Cons.prems by (subst parse_content.simps) (simp add: Let_def)
  then show ?case using Cons by (simp add: add.assoc)
qed simp

text \<open>Where the available bytes end within the characters of an element.\<close>

lemma chars_split:
  assumes "avail @ later = concat cs @ rest"
  shows "(\<exists>cs1 c cs2 r. cs = cs1 @ c # cs2 \<and> avail = concat cs1 @ r \<and> length r < length c \<and> r = take (length r) c) \<or>
         (\<exists>r. avail = concat cs @ r \<and> r @ later = rest)"
  using assms
proof (induction cs arbitrary: avail)
  case Nil
  then show ?case by simp
next
  case (Cons c cs)
  show ?case
  proof (cases "length avail < length c")
    case True
    then have "avail = take (length avail) c"
      using Cons.prems by (simp add: append_eq_append_conv_if)
    then show ?thesis using True by (intro disjI1 exI [of _ "[]"] exI [of _ c] exI [of _ cs] exI [of _ avail]) simp
  next
    case False
    then obtain avail' where av: "avail = c @ avail'"
      using Cons.prems by (metis append_eq_append_conv_if append_take_drop_id concat.simps(2) append.assoc not_less)
    then have "avail' @ later = concat cs @ rest" using Cons.prems by simp
    from Cons.IH [OF this] show ?thesis
    proof (elim disjE exE conjE)
      fix cs1 d cs2 r
      assume "cs = cs1 @ d # cs2" "avail' = concat cs1 @ r" "length r < length d" "r = take (length r) d"
      then show ?thesis using av
        by (intro disjI1 exI [of _ "c # cs1"] exI [of _ d] exI [of _ cs2] exI [of _ r]) simp
    next
      fix r
      assume "avail' = concat cs @ r" "r @ later = rest"
      then show ?thesis using av by (intro disjI2 exI [of _ r]) simp
    qed
  qed
qed

text \<open>The value of a sequence of digits read after a length.\<close>

definition digits_value :: "int \<Rightarrow> u8 list \<Rightarrow> int" where
  "digits_value v ds = foldl (\<lambda>v c. v * 10 + (uint c - 48)) v ds"

lemma digits_value_simps [simp]:
  "digits_value v [] = v" "digits_value v (c # ds) = digits_value (v * 10 + (uint c - 48)) ds"
  "digits_value v (ds @ es) = digits_value (digits_value v ds) es"
  by (simp_all add: digits_value_def)

lemma is_digit_bounds: "is_digit c \<Longrightarrow> 48 \<le> uint c \<and> uint c \<le> 57"
  by (simp add: word_le_def)

lemma digits_value_mono: "0 \<le> v \<Longrightarrow> \<forall>c \<in> set ds. is_digit c \<Longrightarrow> v \<le> digits_value v ds"
proof (induction ds arbitrary: v)
  case (Cons c ds)
  have c: "48 \<le> uint c" using is_digit_bounds [of c] Cons.prems by simp
  have "v * 10 + (uint c - 48) \<le> digits_value (v * 10 + (uint c - 48)) ds"
    using Cons c by (intro Cons.IH) auto
  then show ?case using c Cons.prems by simp
qed simp

lemma parse_length_digits:
  assumes "\<forall>c \<in> set ds. is_digit c" "0 \<le> v" "digits_value v ds \<le> INT_MAX"
  shows "parse_length (ds @ rest) v k = parse_length rest (digits_value v ds) (k + length ds)"
  using assms
proof (induction ds arbitrary: v k)
  case (Cons c ds)
  have b: "48 \<le> uint c" "uint c \<le> 57" using is_digit_bounds [of c] Cons.prems by simp_all
  let ?v = "v * 10 + (uint c - 48)"
  have nonneg: "0 \<le> ?v" using b Cons.prems(2) by simp
  have "?v \<le> digits_value ?v ds" using digits_value_mono [OF nonneg] Cons.prems(1) by simp
  then have "in_int ?v" using nonneg Cons.prems(3) by (simp add: in_int_bounds)
  then have "wrap32 (v * 10 + uint c - 48) = ?v" by (simp add: add_diff_eq)
  then show ?case using Cons.prems Cons.IH [of ?v "k + 1"] nonneg by simp
qed simp

lemma decimal_digits:
  "(\<forall>c \<in> set (bytes_of (decimal n)). is_digit c) \<and> digits_value 0 (bytes_of (decimal n)) = int n"
proof (induction n rule: decimal.induct)
  case (1 n)
  have d: "is_digit (of_char (char_of (48 + m :: nat)))" "uint (of_char (char_of (48 + m :: nat)) :: u8) = 48 + int m"
    if "m < 10" for m
  proof -
    have u: "unat (of_char (char_of (48 + m :: nat)) :: u8) = 48 + m" using that by simp
    then show "uint (of_char (char_of (48 + m :: nat)) :: u8) = 48 + int m" by (simp only: uint_nat)
    show "is_digit (of_char (char_of (48 + m :: nat)))" unfolding word_le_nat_alt u using that by simp
  qed
  show ?case
  proof (cases "n < 10")
    case True
    then show ?thesis using d [OF True] by (simp add: decimal.simps [of n] bytes_of_simps)
  next
    case False
    have "int (n div 10) * 10 + int (n mod 10) = int (n div 10 * 10 + n mod 10)"
      by (simp only: of_nat_add of_nat_mult of_nat_numeral)
    then have "n mod 10 < 10" "int (n div 10) * 10 + int (n mod 10) = int n" by simp_all
    then show ?thesis
      using False 1 d [of "n mod 10"] by (auto simp: decimal.simps [of n] bytes_of_simps)
  qed
qed

section \<open>Elements that can be parsed\<close>

text \<open>
  Text made of whole characters, at most the maximum number of them and without NUL: what an
  element can carry. The characters are those the length function counts.
\<close>

function utf8_chars :: "u8 list \<Rightarrow> u8 list list option" where
  "utf8_chars str =
     (if str = [] then Some []
      else
        let n = guac_utf8_charsize (hd str) in
        if n > length str then None else map_option (\<lambda>cs. take n str # cs) (utf8_chars (drop n str)))"
  by pat_completeness auto
termination
proof (relation "measure length", goal_cases)
  case 1
  show ?case by simp
next
  case (2 str n)
  then show ?case using charsize_bounds(1) [of "hd str"] by (cases str) auto
qed

declare utf8_chars.simps [simp del]

definition wf_element :: "u8 list \<Rightarrow> bool" where
  "wf_element e \<longleftrightarrow>
     0 \<notin> set e \<and> (case utf8_chars e of None \<Rightarrow> False | Some cs \<Rightarrow> int (length cs) \<le> GUAC_INSTRUCTION_MAX_LENGTH)"

lemma utf8_chars_Some:
  "utf8_chars str = Some cs \<Longrightarrow> concat cs = str \<and> (\<forall>c \<in> set cs. wf_char c)"
proof (induction str arbitrary: cs rule: utf8_chars.induct)
  case (1 str)
  show ?case
  proof (cases "str = []")
    case True
    then show ?thesis using "1.prems" by (simp add: utf8_chars.simps [of "[]"])
  next
    case False
    let ?n = "guac_utf8_charsize (hd str)"
    from False "1.prems" obtain ds where ds: "?n \<le> length str" "utf8_chars (drop ?n str) = Some ds"
      "cs = take ?n str # ds"
      by (auto simp: utf8_chars.simps [of str] Let_def split: if_splits)
    have "wf_char (take ?n str)"
      using False ds(1) charsize_bounds(1) [of "hd str"] by (cases str) (auto simp: wf_char_def)
    then show ?thesis using "1.IH" [OF False refl _ ds(2)] ds by simp
  qed
qed

lemma strlen_chars:
  assumes "\<forall>c \<in> set cs. wf_char c" "0 \<le> len" "len + int (length cs) \<le> INT_MAX"
  shows "utf8_strlen_loop len 0 (concat cs) = len + int (length cs)"
  using assms
proof (induction cs arbitrary: len)
  case (Cons c cs)
  obtain b bs where c: "c = b # bs" "guac_utf8_charsize b - 1 = length bs"
    using Cons.prems(1) by (cases c) (auto simp: wf_char_def)
  have "in_int (len + 1)" using Cons.prems by (simp add: in_int_bounds)
  then show ?case
    using Cons.prems Cons.IH [of "len + 1"] c utf8_strlen_skip [of "len + 1" bs "concat cs"] by simp
qed simp

text \<open>What follows the content of an element in an instruction.\<close>

definition element_tail :: "u8 list list \<Rightarrow> u8 list" where
  "element_tail es = (case es of [] \<Rightarrow> bytes_of '';'' | _ \<Rightarrow> bytes_of '','' @ instruction es)"

lemma instruction_tail: "instruction (e # es) = element e @ element_tail es"
  by (cases es) (simp_all add: element_tail_def)

lemma wf_elementE:
  assumes "wf_element e"
  obtains ds cs where "element e = ds @ of_char (CHR ''.'') # concat cs" "concat cs = e"
    "\<forall>c \<in> set cs. wf_char c" "\<forall>c \<in> set ds. is_digit c" "digits_value 0 ds = int (length cs)"
    "int (length cs) \<le> GUAC_INSTRUCTION_MAX_LENGTH"
proof -
  obtain cs where cs: "utf8_chars e = Some cs" "int (length cs) \<le> GUAC_INSTRUCTION_MAX_LENGTH"
    using assms by (auto simp: wf_element_def split: option.splits)
  note c = utf8_chars_Some [OF cs(1)]
  have "utf8_strlen_loop 0 0 e = int (length cs)" "int (length cs) \<le> INT_MAX"
    using strlen_chars [of cs 0] c cs(2) by (auto simp: GUAC_INSTRUCTION_MAX_LENGTH_def INT_MAX_def)
  then have "sint (guac_utf8_strlen e) = int (length cs)"
    using sint_small by (simp only: guac_utf8_strlen_def)
  then have "element e = bytes_of (decimal (length cs)) @ of_char (CHR ''.'') # concat cs"
    using c by (simp add: element_def decimal_bytes_def printf_i_def bytes_of_simps)
  then show thesis using that decimal_digits [of "length cs"] c cs(2) by blast
qed

section \<open>Progress through an instruction\<close>

text \<open>The elements stored so far: terminated strings between the offsets \<open>lo\<close> and \<open>s\<close>.\<close>

definition recorded :: "nat \<Rightarrow> nat \<Rightarrow> nat list \<Rightarrow> u8 list \<Rightarrow> u8 list list \<Rightarrow> bool" where
  "recorded lo s vs mem es \<longleftrightarrow>
     length es \<le> length vs \<and>
     (\<forall>j < length es. lo \<le> vs ! j \<and> vs ! j + length (es ! j) < s \<and>
        take (length (es ! j) + 1) (drop (vs ! j) mem) = es ! j @ [0])"

text \<open>
  \<open>pending parser mem lo s es todo\<close>: the parser is in the middle of the instruction with elements
  \<open>es\<close>, which began at \<open>lo\<close>; it has parsed all before \<open>s\<close>, and the bytes \<open>todo\<close> are still to come.
\<close>

inductive pending :: "guac_parser \<Rightarrow> u8 list \<Rightarrow> nat \<Rightarrow> nat \<Rightarrow> u8 list list \<Rightarrow> u8 list \<Rightarrow> bool" where
  in_length:
    "\<lbrakk>state parser = GUAC_PARSE_LENGTH; elementc parser = length es1;
      recorded lo s (elementv parser) mem es1; es = es1 @ concat cs # es2;
      \<forall>c \<in> set cs. wf_char c; int (length cs) \<le> GUAC_INSTRUCTION_MAX_LENGTH;
      \<forall>c \<in> set ds. is_digit c; 0 \<le> element_length parser;
      digits_value (element_length parser) ds = int (length cs)\<rbrakk>
     \<Longrightarrow> pending parser mem lo s es (ds @ of_char (CHR ''.'') # concat cs @ element_tail es2)"
| in_content:
    "\<lbrakk>state parser = GUAC_PARSE_CONTENT; elementc parser = length es1 + 1;
      recorded lo s (elementv parser) mem es1; es = es1 @ (got @ concat cs) # es2;
      \<forall>c \<in> set cs. wf_char c; element_length parser = int (length cs);
      lo \<le> elementv parser ! length es1; elementv parser ! length es1 + length got = s;
      take (length got) (drop (elementv parser ! length es1) mem) = got\<rbrakk>
     \<Longrightarrow> pending parser mem lo s es (concat cs @ element_tail es2)"
| complete:
    "\<lbrakk>state parser = GUAC_PARSE_COMPLETE; elementc parser = length es;
      recorded lo s (elementv parser) mem es; opcode parser = Some (elementv parser ! 0);
      argv parser = Some 1; argc parser = int (length es) - 1\<rbrakk>
     \<Longrightarrow> pending parser mem lo s es []"

lemma take_drop_update:
  "p + m \<le> i \<Longrightarrow> take m (drop p (mem[i := x])) = take m (drop p mem)"
  by (rule nth_equalityI) auto

lemma take_drop_terminate:
  assumes "p + m = i" "i < length mem"
  shows "take (m + 1) (drop p (mem[i := x])) = take m (drop p mem) @ [x]"
proof -
  have "take (m + 1) (drop p (mem[i := x])) = take m (drop p (mem[i := x])) @ [drop p (mem[i := x]) ! m]"
    using assms by (simp add: take_Suc_conv_app_nth)
  then show ?thesis using assms by (simp add: take_drop_update)
qed

lemma recorded_update:
  assumes "recorded lo s vs mem es" "s \<le> i"
  shows "recorded lo s vs (mem[i := x]) es"
proof -
  have "take (length (es ! j) + 1) (drop (vs ! j) (mem[i := x])) = es ! j @ [0]" if "j < length es" for j
  proof -
    have j: "vs ! j + length (es ! j) < s" "take (length (es ! j) + 1) (drop (vs ! j) mem) = es ! j @ [0]"
      using assms(1) that by (simp_all add: recorded_def)
    then have "vs ! j + (length (es ! j) + 1) \<le> i" using assms(2) by linarith
    then show ?thesis using j(2) by (simp only: take_drop_update)
  qed
  then show ?thesis using assms unfolding recorded_def by blast
qed

lemma recorded_mono: "recorded lo s vs mem es \<Longrightarrow> s \<le> t \<Longrightarrow> recorded lo t vs mem es"
  unfolding recorded_def by fastforce

lemma recorded_snoc:
  assumes "recorded lo s vs mem es" "s \<le> t" "length es < length vs" "lo \<le> vs ! length es"
    "vs ! length es + length e < t" "take (length e + 1) (drop (vs ! length es) mem) = e @ [0]"
  shows "recorded lo t vs mem (es @ [e])"
  using assms unfolding recorded_def by (fastforce simp: nth_append less_Suc_eq)

lemma recorded_push:
  assumes "recorded lo s vs mem es"
  shows "recorded lo s (vs[length es := v]) mem es"
  using assms unfolding recorded_def by simp

text \<open>One character that closes an element.\<close>

lemma element_tail_simps:
  "element_tail [] = [of_char (CHR '';'')]"
  "element_tail (f # fs) = of_char (CHR '','') # element f @ element_tail fs"
  by (simp_all only: element_tail_def list.case instruction_tail bytes_of_simps append.simps)

lemma charsize_terminator:
  "guac_utf8_charsize (of_char (CHR '';'')) = 1" "guac_utf8_charsize (of_char (CHR '','')) = 1"
  by (simp_all add: charsize_ranges)

text \<open>What parsing the rest of an element's content does.\<close>

lemma parse_content_pending:
  assumes chars: "\<forall>c \<in> set cs. wf_char c"
    and avail: "avail @ later = concat cs @ element_tail es2 @ extra"
  obtains cs1 cs2 where "cs = cs1 @ cs2" "length (concat cs1) \<le> length avail"
      "take (length (concat cs1)) avail = concat cs1" "length avail < length (concat cs @ element_tail es2)"
      "parse_content avail (int (length cs)) k = Content_more (int (length cs2)) (k + length (concat cs1))"
  | t where "length (concat cs) < length avail" "take (length (concat cs)) avail = concat cs"
      "parse_content avail (int (length cs)) k = Content_end t (k + length (concat cs) + 1) (k + length (concat cs))"
      "t = hd (element_tail es2)"
  using chars_split [OF avail]
proof (elim disjE exE conjE)
  fix cs1 c cs2 r
  assume a: "cs = cs1 @ c # cs2" "avail = concat cs1 @ r" "length r < length c" "r = take (length r) c"
  have "parse_content r (int (length (c # cs2))) (k + length (concat cs1)) =
      Content_more (int (length (c # cs2))) (k + length (concat cs1))"
  proof (cases "r = []")
    case True
    then show ?thesis by (simp add: parse_content.simps [of "[]"])
  next
    case False
    then have "hd r = hd c" using a(4) by (metis hd_take length_greater_0_conv)
    then have "guac_utf8_charsize (hd r) > length r" using chars a(1,3) by (simp add: wf_char_def)
    then show ?thesis using False by (simp add: parse_content.simps [of r] Let_def)
  qed
  then have "parse_content avail (int (length cs)) k = Content_more (int (length (c # cs2))) (k + length (concat cs1))"
    using parse_content_chars [of cs1 "int (length (c # cs2))" r k] chars a(1,2) by (simp add: algebra_simps)
  then show thesis using that(1) [of cs1 "c # cs2"] a(1-3) by simp
next
  fix r
  assume a: "avail = concat cs @ r" "r @ later = element_tail es2 @ extra"
  have run: "parse_content avail (int (length cs)) k = parse_content r 0 (k + length (concat cs))"
    using parse_content_chars [OF chars, of 0 r k] a(1) by simp
  have tail: "element_tail es2 \<noteq> []" "guac_utf8_charsize (hd (element_tail es2)) = 1"
    by (cases es2; simp only: element_tail_simps list.sel charsize_terminator list.distinct not_False_eq_True)+
  show thesis
  proof (cases r)
    case Nil
    then show thesis using that(1) [of cs "[]"] a(1) run tail by (simp add: parse_content.simps [of "[]"])
  next
    case (Cons t r')
    then have "t = hd (element_tail es2)" using a(2) tail(1) by (cases "element_tail es2") auto
    moreover have "parse_content (t # r') 0 m = Content_end t (m + 1) m" for m
    proof -
      have "guac_utf8_charsize t = 1" using tail(2) \<open>t = hd (element_tail es2)\<close> by simp
      then show ?thesis by (simp add: parse_content.simps [of "t # r'"] Let_def)
    qed
    ultimately show thesis using that(2) [of t] a(1) run Cons by simp
  qed
qed

lemma append_content_pending:
  assumes st: "state parser = GUAC_PARSE_CONTENT" "elementc parser = length es1 + 1"
    and rec: "recorded lo (buffer + k) (elementv parser) mem es1" "length es1 < length (elementv parser)"
    and es: "es = es1 @ (got @ concat cs) # es2" "\<forall>e \<in> set es2. wf_element e"
    and cs: "\<forall>c \<in> set cs. wf_char c" "element_length parser = int (length cs)"
    and ptr: "lo \<le> elementv parser ! length es1" "elementv parser ! length es1 + length got = buffer + k"
      "take (length got) (drop (elementv parser ! length es1) mem) = got"
    and mem: "bytes = take len (drop buffer mem)" "buffer + len \<le> length mem" "k \<le> len"
    and avail: "drop k bytes @ later = concat cs @ element_tail es2 @ extra"
    and run: "append_content parser mem buffer bytes k = (parser', mem', n)"
  shows "k \<le> n \<and> n - k \<le> length (concat cs @ element_tail es2) \<and>
         pending parser' mem' lo (buffer + n) es (drop (n - k) (concat cs @ element_tail es2)) \<and>
         state parser' \<noteq> GUAC_PARSE_ERROR \<and> elementv parser' = elementv parser \<and>
         length mem' = length mem \<and> drop (buffer + n) mem' = drop (buffer + n) mem \<and>
         (length (concat cs @ element_tail es2) \<le> len - k \<longrightarrow> k < n)"
proof -
  define ptr where "ptr = elementv parser ! length es1"
  have later: "drop k bytes = take (len - k) (drop (buffer + k) mem)"
    using mem(1) by (simp add: drop_take add.commute)
  have content: "take (length got + m) (drop ptr mem) = got @ take m (drop k bytes)" if "m \<le> len - k" for m
  proof -
    have "drop (length got) (drop ptr mem) = drop (buffer + k) mem"
      using ptr(2) by (simp add: ptr_def add.commute)
    moreover have "take (length got) (drop ptr mem) = got" using ptr(3) by (simp only: ptr_def)
    ultimately have "take (length got + m) (drop ptr mem) = got @ take m (drop (buffer + k) mem)"
      by (simp only: take_add)
    then show ?thesis using that by (simp add: later)
  qed
  have lenb: "length (drop k bytes) = len - k" using mem by simp
  show ?thesis
  proof (rule parse_content_pending [OF cs(1) avail, of k])
    fix cs1 cs2
    assume a: "cs = cs1 @ cs2" "length (concat cs1) \<le> length (drop k bytes)"
      "take (length (concat cs1)) (drop k bytes) = concat cs1"
      "length (drop k bytes) < length (concat cs @ element_tail es2)"
      "parse_content (drop k bytes) (int (length cs)) k = Content_more (int (length cs2)) (k + length (concat cs1))"
    then have res: "parser' = parser\<lparr>element_length := int (length cs2)\<rparr>" "mem' = mem" "n = k + length (concat cs1)"
      using run st(1) cs(2) by (simp_all add: append_content_def)
    have "pending parser' mem' lo (buffer + n) es (concat cs2 @ element_tail es2)"
    proof (rule in_content [where ?es1.0 = es1 and got = "got @ concat cs1"])
      show "recorded lo (buffer + n) (elementv parser') mem' es1"
        using recorded_mono [OF rec(1), of "buffer + n"] res by simp
      show "take (length (got @ concat cs1)) (drop (elementv parser' ! length es1) mem') = got @ concat cs1"
        using content [of "length (concat cs1)"] a(2,3) lenb res by (simp add: ptr_def)
    qed (use res st es(1) a(1) cs(1) ptr in auto)
    then show ?thesis using res st a lenb by auto
  next
    fix t
    assume a: "length (concat cs) < length (drop k bytes)" "take (length (concat cs)) (drop k bytes) = concat cs"
      "parse_content (drop k bytes) (int (length cs)) k =
         Content_end t (k + length (concat cs) + 1) (k + length (concat cs))"
      "t = hd (element_tail es2)"
    define i where "i = buffer + (k + length (concat cs))"
    have i: "i = ptr + length (got @ concat cs)" "i < length mem" "buffer + k \<le> i"
      using ptr(2) a(1) mem lenb by (simp_all add: i_def ptr_def)
    have "take (length (got @ concat cs)) (drop ptr mem) = got @ concat cs"
      using content [of "length (concat cs)"] a(1,2) lenb by simp
    then have here: "take (length (got @ concat cs) + 1) (drop ptr (mem[i := 0])) = (got @ concat cs) @ [0]"
      using take_drop_terminate [OF i(1) [symmetric] i(2)] by (simp only:)
    have all: "recorded lo (i + 1) (elementv parser) (mem[i := 0]) (es1 @ [got @ concat cs])"
      using recorded_snoc [OF recorded_update [OF rec(1) i(3)], of "i + 1"] rec(2) ptr(1) i here
      by (simp add: ptr_def)
    have beyond: "drop (i + 1) (mem[i := 0]) = drop (i + 1) mem" by simp
    show ?thesis
    proof (cases es2)
      case Nil
      then have "t = of_char (CHR '';'')" using a(4) by (simp only: element_tail_simps list.sel)
      then have res: "parser' = parser\<lparr>element_length := 0, state := GUAC_PARSE_COMPLETE,
          opcode := Some (elementv parser ! 0), argv := Some 1, argc := int (elementc parser) - 1\<rparr>"
        "mem' = mem[i := 0]" "n = k + length (concat cs) + 1"
        using run st(1) cs(2) a(3) by (simp_all add: append_content_def i_def)
      have "pending parser' mem' lo (buffer + n) es []"
        by (rule complete) (use res st(2) all es(1) Nil in \<open>auto simp: i_def\<close>)
      then show ?thesis using res beyond Nil by (simp add: element_tail_simps i_def)
    next
      case (Cons f fs)
      then have t: "t = of_char (CHR '','')" "element_tail es2 = of_char (CHR '','') # element f @ element_tail fs"
        using a(4) by (simp_all only: element_tail_simps list.sel)
      then have res: "parser' = parser\<lparr>element_length := 0, state := GUAC_PARSE_LENGTH\<rparr>"
        "mem' = mem[i := 0]" "n = k + length (concat cs) + 1"
        using run st(1) cs(2) a(3) by (simp_all add: append_content_def i_def)
      obtain ds cs' where f: "element f = ds @ of_char (CHR ''.'') # concat cs'" "concat cs' = f"
        "\<forall>c \<in> set cs'. wf_char c" "\<forall>c \<in> set ds. is_digit c" "digits_value 0 ds = int (length cs')"
        "int (length cs') \<le> GUAC_INSTRUCTION_MAX_LENGTH"
        using wf_elementE [of f] es(2) Cons by auto
      have "pending parser' mem' lo (buffer + n) es (ds @ of_char (CHR ''.'') # concat cs' @ element_tail fs)"
        by (rule in_length [where ?es1.0 = "es1 @ [got @ concat cs]"])
          (use res st(2) all es(1) Cons f in \<open>auto simp: i_def\<close>)
      then show ?thesis using res beyond t(2) f(1) by (simp add: i_def)
    qed
  qed
qed

text \<open>How much of a length prefix is available.\<close>

lemma prefix_split:
  assumes "avail @ later = ds @ p # rest"
  obtains "length avail \<le> length ds" "avail = take (length avail) ds"
  | more where "avail = ds @ p # more" "more @ later = rest"
proof (cases "length avail \<le> length ds")
  case True
  then show thesis using that(1) assms by (simp add: append_eq_append_conv_if)
next
  case False
  then have "take (length ds) avail = ds" "drop (length ds) avail @ later = p # rest"
    using assms by (simp_all add: append_eq_append_conv_if)
  moreover obtain q more where "drop (length ds) avail = q # more" using False by (cases "drop (length ds) avail") auto
  ultimately show thesis using that(2) [of more] by (metis append_Cons append_take_drop_id list.inject)
qed

text \<open>
  What every call of \<open>guac_parser_append\<close> keeps of an instruction in progress: nothing but bytes of
  the instruction is consumed, what follows is untouched, and there is progress as soon as the
  whole instruction is available.
\<close>

definition append_keeps ::
  "u8 list \<Rightarrow> nat \<Rightarrow> nat \<Rightarrow> nat \<Rightarrow> u8 list list \<Rightarrow> u8 list \<Rightarrow> guac_parser \<times> u8 list \<times> nat \<Rightarrow> bool" where
  "append_keeps mem lo s len es todo res \<longleftrightarrow>
     (case res of (parser', mem', n) \<Rightarrow>
        n \<le> length todo \<and> pending parser' mem' lo (s + n) es (drop n todo) \<and>
        state parser' \<noteq> GUAC_PARSE_ERROR \<and> length (elementv parser') = GUAC_INSTRUCTION_MAX_ELEMENTS \<and>
        length mem' = length mem \<and> drop (s + n) mem' = drop (s + n) mem \<and>
        (length todo \<le> len \<longrightarrow> 0 < n))"

lemma append_in_content:
  assumes st: "state parser = GUAC_PARSE_CONTENT" "elementc parser = length es1 + 1"
    and rec: "recorded lo s (elementv parser) mem es1"
    and es: "es = es1 @ (got @ concat cs) # es2" "\<forall>e \<in> set es. wf_element e" "length es < GUAC_INSTRUCTION_MAX_ELEMENTS"
    and cs: "\<forall>c \<in> set cs. wf_char c" "element_length parser = int (length cs)"
    and ptr: "lo \<le> elementv parser ! length es1" "elementv parser ! length es1 + length got = s"
      "take (length got) (drop (elementv parser ! length es1) mem) = got"
    and mem: "length (elementv parser) = GUAC_INSTRUCTION_MAX_ELEMENTS" "s + len \<le> length mem"
    and avail: "take len (drop s mem) @ later = (concat cs @ element_tail es2) @ extra"
  shows "append_keeps mem lo s len es (concat cs @ element_tail es2) (guac_parser_append parser mem s len)"
proof -
  obtain parser' mem' n where
    run: "append_content parser mem s (take len (drop s mem)) 0 = (parser', mem', n)" by (rule prod_cases3)
  have op: "guac_parser_append parser mem s len = (parser', mem', n)"
    using run st es by (simp add: guac_parser_append_def append_length_def Let_def)
  have lt: "length es1 < length (elementv parser)" using es mem(1) by simp
  from append_content_pending [OF st, of lo s 0 mem es got cs es2 "take len (drop s mem)" len later extra parser' mem' n]
  show ?thesis
    unfolding append_keeps_def op using lt rec es cs ptr mem avail run by simp
qed

lemma append_in_length:
  assumes st: "state parser = GUAC_PARSE_LENGTH" "elementc parser = length es1"
    and rec: "recorded lo s (elementv parser) mem es1"
    and es: "es = es1 @ concat cs # es2" "\<forall>e \<in> set es. wf_element e" "length es < GUAC_INSTRUCTION_MAX_ELEMENTS"
    and cs: "\<forall>c \<in> set cs. wf_char c" "int (length cs) \<le> GUAC_INSTRUCTION_MAX_LENGTH"
    and ds: "\<forall>c \<in> set ds. is_digit c" "0 \<le> element_length parser" "digits_value (element_length parser) ds = int (length cs)"
    and mem: "length (elementv parser) = GUAC_INSTRUCTION_MAX_ELEMENTS" "lo \<le> s" "s + len \<le> length mem"
    and avail: "take len (drop s mem) @ later = ds @ of_char (CHR ''.'') # concat cs @ element_tail es2 @ extra"
  shows "append_keeps mem lo s len es (ds @ of_char (CHR ''.'') # concat cs @ element_tail es2)
           (guac_parser_append parser mem s len)"
proof -
  define bytes where "bytes = take len (drop s mem)"
  have lenb: "length bytes = len" using mem by (simp add: bytes_def)
  have max: "GUAC_INSTRUCTION_MAX_LENGTH \<le> INT_MAX" by (simp add: GUAC_INSTRUCTION_MAX_LENGTH_def INT_MAX_def)
  have notmax: "elementc parser \<noteq> GUAC_INSTRUCTION_MAX_ELEMENTS" using st(2) es(1,3) by simp
  from avail have "bytes @ later = ds @ of_char (CHR ''.'') # concat cs @ element_tail es2 @ extra"
    by (simp only: bytes_def)
  then show ?thesis
  proof (cases rule: prefix_split)
    case 1
    then have split: "ds = bytes @ drop (length bytes) ds" by (metis append_take_drop_id)
    have dig: "\<forall>c \<in> set bytes. is_digit c" using ds(1) split by (metis Un_iff set_append)
    have nn: "0 \<le> digits_value (element_length parser) bytes"
      using digits_value_mono [OF ds(2) dig] ds(2) by linarith
    have "digits_value (element_length parser) bytes \<le> digits_value (element_length parser) ds"
      using digits_value_mono [OF nn, of "drop (length bytes) ds"] ds(1) split
      by (metis digits_value_simps(3) in_set_dropD)
    then have le: "digits_value (element_length parser) bytes \<le> GUAC_INSTRUCTION_MAX_LENGTH"
      using ds(3) cs(2) by linarith
    have "parse_length bytes (element_length parser) 0 = Length_more (digits_value (element_length parser) bytes) len"
      using parse_length_digits [OF dig ds(2), of "[]" 0] le max lenb by simp
    then have op: "guac_parser_append parser mem s len =
        (parser\<lparr>element_length := digits_value (element_length parser) bytes\<rparr>, mem, len)"
      using st(1) notmax le
      by (simp add: guac_parser_append_def append_length_def append_content_def flip: bytes_def)
    have "pending (parser\<lparr>element_length := digits_value (element_length parser) bytes\<rparr>) mem lo (s + len) es
        (drop len ds @ of_char (CHR ''.'') # concat cs @ element_tail es2)"
    proof (rule in_length [OF _ _ _ es(1) cs])
      show "digits_value (element_length (parser\<lparr>element_length := digits_value (element_length parser) bytes\<rparr>))
          (drop len ds) = int (length cs)"
        using ds(3) split lenb by (metis digits_value_simps(3) guac_parser.select_convs(5) guac_parser.update_convs(5) guac_parser.surjective)
    qed (use st recorded_mono [OF rec] ds(1) nn in \<open>auto dest: in_set_dropD\<close>)
    then show ?thesis
      unfolding append_keeps_def op using 1(1) lenb st(1) mem(1) by simp
  next
    case (2 more)
    define k where "k = length ds + 1"
    define parser1 where "parser1 = parser\<lparr>elementv := (elementv parser)[length es1 := s + k],
      elementc := length es1 + 1, state := GUAC_PARSE_CONTENT, element_length := int (length cs)\<rparr>"
    have "parse_length bytes (element_length parser) 0 = Length_done (int (length cs)) k"
      using parse_length_digits [OF ds(1,2), of "of_char (CHR ''.'') # more" 0] ds(3) cs(2) max 2(1)
      by (simp add: k_def)
    then have op: "guac_parser_append parser mem s len = append_content parser1 mem s bytes k"
      using st notmax cs(2)
      by (simp add: guac_parser_append_def append_length_def Let_def parser1_def flip: bytes_def)
    obtain parser' mem' n where run: "append_content parser1 mem s bytes k = (parser', mem', n)" by (rule prod_cases3)
    have "k \<le> len" using 2(1) lenb by (simp add: k_def)
    have "drop k bytes = more" using 2(1) by (simp add: k_def)
    have lt: "length es1 < length (elementv parser)" using es(1,3) mem(1) by simp
    have "recorded lo (s + k) (elementv parser1) mem es1"
      using recorded_push [OF recorded_mono [OF rec, of "s + k"], of "s + k"] by (simp add: parser1_def)
    from append_content_pending [of parser1 es1 lo s k mem es "[]" cs es2 bytes len later extra parser' mem' n] this
    have "k \<le> n \<and> n - k \<le> length (concat cs @ element_tail es2) \<and>
         pending parser' mem' lo (s + n) es (drop (n - k) (concat cs @ element_tail es2)) \<and>
         state parser' \<noteq> GUAC_PARSE_ERROR \<and> elementv parser' = elementv parser1 \<and>
         length mem' = length mem \<and> drop (s + n) mem' = drop (s + n) mem"
      using lt es cs mem \<open>k \<le> len\<close> \<open>drop k bytes = more\<close> 2(2) run
      by (simp add: parser1_def bytes_def)
    moreover have "drop n (ds @ of_char (CHR ''.'') # concat cs @ element_tail es2) =
        drop (n - k) (concat cs @ element_tail es2)" if "k \<le> n" for n
      using that by (simp add: k_def drop_Cons')
    ultimately show ?thesis
      unfolding append_keeps_def op run using mem(1) by (auto simp: parser1_def k_def)
  qed
qed

lemma append_pending:
  assumes "pending parser mem lo s es todo" "state parser \<noteq> GUAC_PARSE_COMPLETE"
    and "\<forall>e \<in> set es. wf_element e" "length es < GUAC_INSTRUCTION_MAX_ELEMENTS"
    and "length (elementv parser) = GUAC_INSTRUCTION_MAX_ELEMENTS" "lo \<le> s" "s + len \<le> length mem"
    and "take len (drop s mem) @ later = todo @ extra"
  shows "append_keeps mem lo s len es todo (guac_parser_append parser mem s len)"
  using assms(1)
proof cases
  case (in_length es1 cs es2 ds)
  then show ?thesis using append_in_length assms by simp
next
  case (in_content es1 got cs es2)
  then show ?thesis using append_in_content assms by simp
next
  case complete
  then show ?thesis using assms(2) by simp
qed

section \<open>Moving the buffer\<close>

text \<open>
  The instruction in progress survives when its bytes move down by \<open>d\<close> with the pointers to them,
  and when only bytes at or past \<open>s\<close> change (\<open>d = 0\<close>).
\<close>

lemma recorded_move:
  assumes "recorded lo s vs mem es" "length vs' = length vs" "lo = lo' + d" "s = s' + d"
    and ptrs: "\<forall>j < length es. vs' ! j + d = vs ! j"
    and same: "\<And>v m. lo \<le> v \<Longrightarrow> v + m \<le> s \<Longrightarrow> take m (drop (v - d) mem') = take m (drop v mem)"
  shows "recorded lo' s' vs' mem' es"
  unfolding recorded_def
proof (intro conjI allI impI)
  show "length es \<le> length vs'" using assms(1,2) by (simp add: recorded_def)
  fix j assume j: "j < length es"
  have r: "lo \<le> vs ! j" "vs ! j + length (es ! j) < s" "take (length (es ! j) + 1) (drop (vs ! j) mem) = es ! j @ [0]"
    using assms(1) j by (simp_all add: recorded_def)
  have p: "vs ! j = vs' ! j + d" using ptrs j by simp
  show "lo' \<le> vs' ! j" "vs' ! j + length (es ! j) < s'" using r p assms(3,4) by auto
  show "take (length (es ! j) + 1) (drop (vs' ! j) mem') = es ! j @ [0]"
    using same [of "vs ! j" "length (es ! j) + 1"] r p by simp
qed

lemma pending_move:
  assumes pend: "pending parser mem lo s es todo" and nc: "state parser \<noteq> GUAC_PARSE_COMPLETE"
    and eq: "state parser' = state parser" "elementc parser' = elementc parser"
      "element_length parser' = element_length parser" "length (elementv parser') = length (elementv parser)"
      "lo = lo' + d" "s = s' + d"
    and ptrs: "\<forall>j < elementc parser. elementv parser' ! j + d = elementv parser ! j"
    and same: "\<And>v m. lo \<le> v \<Longrightarrow> v + m \<le> s \<Longrightarrow> take m (drop (v - d) mem') = take m (drop v mem)"
  shows "pending parser' mem' lo' s' es todo"
  using pend
proof cases
  case (in_length es1 cs es2 ds)
  have "recorded lo' s' (elementv parser') mem' es1"
    using recorded_move [OF in_length(4) eq(4-6) _ same] ptrs in_length(3) by simp
  then show ?thesis
    unfolding in_length(1) using in_length eq by (intro pending.in_length) simp_all
next
  case (in_content es1 got cs es2)
  have rec: "recorded lo' s' (elementv parser') mem' es1"
    using recorded_move [OF in_content(4) eq(4-6) _ same] ptrs in_content(3) by simp
  have p: "elementv parser ! length es1 = elementv parser' ! length es1 + d"
    using ptrs in_content(3) by simp
  have c: "take (length got) (drop (elementv parser' ! length es1) mem') = got"
    using same [of "elementv parser ! length es1" "length got"] in_content p by simp
  show ?thesis
    unfolding in_content(1)
    by (rule pending.in_content [OF _ _ rec in_content(5,6)]) (use in_content eq p c in simp_all)
next
  case complete
  then show ?thesis using nc by simp
qed

lemma pending_buffer:
  assumes "pending parser mem lo s es todo"
  shows "pending (parser\<lparr>instructionbuf := buf\<rparr>) mem lo s es todo"
  using assms
proof cases
  case (in_length es1 cs es2 ds)
  show ?thesis unfolding in_length(1) by (rule pending.in_length) (use in_length in simp_all)
next
  case (in_content es1 got cs es2)
  show ?thesis unfolding in_content(1) by (rule pending.in_content) (use in_content in simp_all)
next
  case complete
  show ?thesis unfolding complete(1) by (rule pending.complete) (use complete in simp_all)
qed

lemma pending_complete: "pending parser mem lo s es todo \<Longrightarrow> state parser = GUAC_PARSE_COMPLETE \<longleftrightarrow> todo = []"
proof -
  have "element_tail es2 \<noteq> []" for es2 by (cases es2) (simp_all add: element_tail_simps)
  then show "pending parser mem lo s es todo \<Longrightarrow> state parser = GUAC_PARSE_COMPLETE \<longleftrightarrow> todo = []"
    by (auto elim!: pending.cases)
qed

lemma take_drop_overwrite:
  "v + m \<le> i \<Longrightarrow> i \<le> length mem \<Longrightarrow> take m (drop v (overwrite mem i xs)) = take m (drop v mem)"
  by (auto simp: overwrite_def drop_take min_def)

lemma take_drop_shifted:
  assumes "lo \<le> v" "v + m \<le> f" "f \<le> length mem"
  shows "take m (drop (v - lo) (overwrite mem 0 (take (f - lo) (drop lo mem)))) = take m (drop v mem)"
  using assms by (auto simp: overwrite_def drop_take min_def)

lemma pending_shift:
  assumes pend: "pending parser (instructionbuf parser) lo s es todo" and nc: "state parser \<noteq> GUAC_PARSE_COMPLETE"
    and cur: "lo = instr_start cur" "lo \<le> s" "s \<le> finish cur" "finish cur \<le> length (instructionbuf parser)"
      "elementc parser \<le> length (elementv parser)"
    and ptrs: "\<forall>j < elementc parser. lo \<le> elementv parser ! j"
    and sh: "shift_buffer parser cur = (parser', cur')"
  shows "pending parser' (instructionbuf parser') 0 (s - lo) es todo"
proof (rule pending_move [OF pend nc, where d = lo])
  show "take m (drop (v - lo) (instructionbuf parser')) = take m (drop v (instructionbuf parser))"
    if "lo \<le> v" "v + m \<le> s" for v m
    using take_drop_shifted [of lo v m "finish cur" "instructionbuf parser"] that cur sh
    by (auto simp: shift_buffer_def Let_def)
  show "\<forall>j < elementc parser. elementv parser' ! j + lo = elementv parser ! j"
    using sh ptrs cur(1,5) by (auto simp: shift_buffer_def Let_def nth_append)
qed (use sh cur in \<open>auto simp: shift_buffer_def Let_def\<close>)

lemma pending_ptrs:
  assumes "pending parser mem lo s es todo"
  shows "elementc parser \<le> length es \<and> (\<forall>j < elementc parser. lo \<le> elementv parser ! j)"
  using assms by cases (auto simp: recorded_def less_Suc_eq)

section \<open>Reading an instruction\<close>

text \<open>The bytes a socket will deliver, and a socket that only delivers.\<close>

definition stream :: "socket_event list \<Rightarrow> u8 list" where
  "stream script = concat (map (\<lambda>e. case e of Data d \<Rightarrow> d | _ \<Rightarrow> []) script)"

definition delivers :: "socket_event list \<Rightarrow> bool" where
  "delivers script \<longleftrightarrow> list_all (\<lambda>e. case e of Data d \<Rightarrow> d \<noteq> [] | _ \<Rightarrow> False) script"

definition unparsed :: "guac_parser \<Rightarrow> u8 list" where
  "unparsed parser = take (unparsed_end parser - unparsed_start parser) (drop (unparsed_start parser) (instructionbuf parser))"

definition reading :: "nat \<Rightarrow> guac_parser \<Rightarrow> read_cursor \<Rightarrow> socket_event list \<Rightarrow> u8 list list \<Rightarrow> u8 list \<Rightarrow> u8 list \<Rightarrow> bool" where
  "reading buffer_size parser cur script es todo extra \<longleftrightarrow>
     pending parser (instructionbuf parser) (instr_start cur) (start cur) es todo \<and>
     instr_start cur \<le> start cur \<and> start cur \<le> finish cur \<and> finish cur \<le> buffer_size \<and>
     length (instructionbuf parser) = buffer_size \<and> length (elementv parser) = GUAC_INSTRUCTION_MAX_ELEMENTS \<and>
     start cur - instr_start cur + length todo = length (instruction es) \<and>
     take (finish cur - start cur) (drop (start cur) (instructionbuf parser)) @ stream script = todo @ extra \<and>
     delivers script"

lemma stream_take_event:
  "delivers (Data d # rest) \<Longrightarrow> 0 < count \<Longrightarrow>
     take count d @ stream (take_event count d rest) = stream (Data d # rest) \<and> delivers (take_event count d rest)"
  by (simp add: stream_def delivers_def take_event_def)

lemma shift_reading:
  assumes inv: "reading buffer_size parser cur script es todo extra"
    and st: "state parser \<noteq> GUAC_PARSE_COMPLETE" "length es < GUAC_INSTRUCTION_MAX_ELEMENTS"
    and sh: "shift_buffer parser cur = (parser', cur')"
  shows "reading buffer_size parser' cur' script es todo extra" "state parser' = state parser"
    "finish cur' = finish cur - instr_start cur"
proof -
  note r = inv [unfolded reading_def]
  have f: "finish cur' = finish cur - instr_start cur" "start cur' = start cur - instr_start cur" "instr_start cur' = 0"
    "state parser' = state parser" "length (elementv parser') = length (elementv parser)"
    "instructionbuf parser' = overwrite (instructionbuf parser) 0
       (take (finish cur - instr_start cur) (drop (instr_start cur) (instructionbuf parser)))"
    using sh by (auto simp: shift_buffer_def Let_def)
  have ptrs: "elementc parser \<le> length es" "\<forall>j < elementc parser. instr_start cur \<le> elementv parser ! j"
    using pending_ptrs r by blast+
  have "pending parser' (instructionbuf parser') 0 (start cur - instr_start cur) es todo"
    using r st ptrs by (intro pending_shift [OF _ _ refl _ _ _ _ _ sh]) auto
  moreover have "take (finish cur - start cur) (drop (start cur - instr_start cur) (instructionbuf parser')) =
      take (finish cur - start cur) (drop (start cur) (instructionbuf parser))"
    unfolding f(6) using r by (intro take_drop_shifted) auto
  moreover have "finish cur' - start cur' = finish cur - start cur" using f r by auto
  ultimately show "reading buffer_size parser' cur' script es todo extra"
    unfolding reading_def using f r by auto
  show "state parser' = state parser" "finish cur' = finish cur - instr_start cur" by (fact f)+
qed

lemma store_reading:
  assumes inv: "reading buffer_size parser cur (Data d # rest) es todo extra"
    and st: "state parser \<noteq> GUAC_PARSE_COMPLETE" and room: "finish cur < buffer_size"
    and got: "count = buffer_size - finish cur" "got = take count d"
  shows "reading buffer_size (parser\<lparr>instructionbuf := overwrite (instructionbuf parser) (finish cur) got\<rparr>)
           (cur\<lparr>finish := finish cur + length got\<rparr>) (take_event count d rest) es todo extra"
proof -
  note r = inv [unfolded reading_def]
  let ?parser = "parser\<lparr>instructionbuf := overwrite (instructionbuf parser) (finish cur) got\<rparr>"
  have ev: "got @ stream (take_event count d rest) = stream (Data d # rest) \<and> delivers (take_event count d rest)"
    using stream_take_event [of d rest count] r room got by simp
  have fits: "finish cur + length got \<le> buffer_size" using got room by simp
  have "pending ?parser (instructionbuf ?parser) (instr_start cur) (start cur) es todo"
  proof (rule pending_move [where d = 0])
    show "pending parser (instructionbuf parser) (instr_start cur) (start cur) es todo" using r by blast
    show "take m (drop (v - 0) (instructionbuf ?parser)) = take m (drop v (instructionbuf parser))"
      if "v + m \<le> start cur" for v m
      using take_drop_overwrite [of v m "finish cur" "instructionbuf parser" got] that r by simp
  qed (use st in auto)
  moreover have "take (finish cur + length got - start cur) (drop (start cur) (instructionbuf ?parser)) =
      take (finish cur - start cur) (drop (start cur) (instructionbuf parser)) @ got"
  proof -
    have "take (finish cur + length got) (instructionbuf ?parser) = take (finish cur) (instructionbuf parser) @ got"
      using r take_overwrite_end [of "finish cur" "instructionbuf parser" got] by simp
    then have "drop (start cur) (take (finish cur + length got) (instructionbuf ?parser)) =
        drop (start cur) (take (finish cur) (instructionbuf parser)) @ got"
      using r by simp
    then show ?thesis by (simp only: drop_take)
  qed
  ultimately show ?thesis
    unfolding reading_def using r fits ev by simp
qed

lemma fill_buffer_reading:
  assumes inv: "reading buffer_size parser cur script es todo extra"
    and st: "state parser \<noteq> GUAC_PARSE_COMPLETE" "length es < GUAC_INSTRUCTION_MAX_ELEMENTS"
    and short: "finish cur - start cur < length todo" "length (instruction es) \<le> buffer_size"
  shows "\<exists>parser' cur' script'. fill_buffer parser cur script = Inr (parser', cur', script') \<and>
           reading buffer_size parser' cur' script' es todo extra"
proof -
  note r = inv [unfolded reading_def]
  have "stream script \<noteq> []"
  proof
    assume "stream script = []"
    then have "length (take (finish cur - start cur) (drop (start cur) (instructionbuf parser))) = length (todo @ extra)"
      using r by (metis append_Nil2)
    then show False using short(1) by simp
  qed
  then obtain d rest where script: "script = Data d # rest" and d: "d \<noteq> []"
    using r by (cases script) (auto simp: stream_def delivers_def split: socket_event.splits)
  have room: "finish cur - instr_start cur < buffer_size"
    using r short by linarith
  obtain parser1 cur1 where one: "(if finish cur = buffer_size then shift_buffer parser cur else (parser, cur)) = (parser1, cur1)"
    by fastforce
  have inv1: "reading buffer_size parser1 cur1 script es todo extra" "state parser1 = state parser" "finish cur1 < buffer_size"
    using shift_reading [OF inv st, of parser1 cur1] inv one room r by (auto split: if_splits)
  define got where "got = take (buffer_size - finish cur1) d"
  have "got \<noteq> []" using d inv1(3) by (simp add: got_def)
  then have "fill_buffer parser cur script =
      Inr (parser1\<lparr>instructionbuf := overwrite (instructionbuf parser1) (finish cur1) got\<rparr>,
           cur1\<lparr>finish := finish cur1 + length got\<rparr>, take_event (buffer_size - finish cur1) d rest)"
    using one room r script by (auto simp: fill_buffer_def Let_def got_def)
  then show ?thesis
    using store_reading [OF inv1(1) [unfolded script] _ inv1(3) refl got_def] inv1(2) st(1) by auto
qed

text \<open>The loop returns with the instruction, leaving exactly the bytes that follow it.\<close>

definition read_ok :: "nat \<Rightarrow> u8 list list \<Rightarrow> u8 list \<Rightarrow> read_result \<Rightarrow> bool" where
  "read_ok buffer_size es extra res \<longleftrightarrow>
     (\<exists>parser' script' lo. res = Some (0, None, parser', script') \<and>
        pending parser' (instructionbuf parser') lo (unparsed_start parser') es [] \<and>
        unparsed_start parser' \<le> unparsed_end parser' \<and> unparsed_end parser' \<le> buffer_size \<and>
        length (instructionbuf parser') = buffer_size \<and> length (elementv parser') = GUAC_INSTRUCTION_MAX_ELEMENTS \<and>
        unparsed parser' @ stream script' = extra \<and> delivers script')"

lemma read_loop_reading:
  assumes "reading buffer_size parser cur script es todo extra"
    and "\<forall>e \<in> set es. wf_element e" "length es < GUAC_INSTRUCTION_MAX_ELEMENTS" "length (instruction es) \<le> buffer_size"
  shows "read_ok buffer_size es extra (read_loop parser cur script)"
  using assms(1)
proof (induction parser cur script arbitrary: todo rule: read_loop.induct)
  case (1 parser cur script)
  note r = "1.prems" [unfolded reading_def]
  obtain parser1 mem n where app: "guac_parser_append parser (instructionbuf parser) (start cur) (finish cur - start cur) =
      (parser1, mem, n)" by (rule prod_cases3)
  show ?case
  proof (cases "state parser = GUAC_PARSE_COMPLETE")
    case True
    then have todo: "todo = []" using pending_complete r by blast
    have run: "read_loop parser cur script =
        Some (0, None, parser\<lparr>unparsed_start := start cur, unparsed_end := finish cur\<rparr>, script)"
      using True by (simp add: read_loop.simps [of parser])
    have "pending (parser\<lparr>unparsed_start := start cur, unparsed_end := finish cur\<rparr>) (instructionbuf parser)
        (instr_start cur) (start cur) es []"
      using r todo True by (auto elim!: pending.cases intro!: pending.complete)
    then show ?thesis unfolding read_ok_def using run r todo by (auto simp: unparsed_def intro!: exI)
  next
    case False
    have keeps: "append_keeps (instructionbuf parser) (instr_start cur) (start cur) (finish cur - start cur) es todo
        (parser1, mem, n)"
      using append_pending [of parser "instructionbuf parser" "instr_start cur" "start cur" es todo
          "finish cur - start cur" "stream script" extra] r False assms(2,3) app by auto
    note k = keeps [unfolded append_keeps_def, simplified]
    have nle: "n \<le> finish cur - start cur" using append_bound [OF app] .
    define parser2 where "parser2 = parser1\<lparr>instructionbuf := mem\<rparr>"
    have inv2: "reading buffer_size parser2 (cur\<lparr>start := start cur + n\<rparr>) script es (drop n todo) extra"
    proof -
      have "take (finish cur - (start cur + n)) (drop (start cur + n) mem) =
          drop n (take (finish cur - start cur) (drop (start cur) (instructionbuf parser)))"
        using k by (simp add: drop_take add.commute)
      moreover have "drop n (take (finish cur - start cur) (drop (start cur) (instructionbuf parser))) @ stream script =
          drop n todo @ extra"
      proof -
        have "drop n (take (finish cur - start cur) (drop (start cur) (instructionbuf parser)) @ stream script) =
            drop n (todo @ extra)" using r by simp
        moreover have "length (take (finish cur - start cur) (drop (start cur) (instructionbuf parser))) =
            finish cur - start cur" using r by (auto simp: min_def)
        ultimately show ?thesis using k nle by (simp only: drop_append diff_is_0_eq drop0) (simp add: drop_append)
      qed
      ultimately show ?thesis
        unfolding reading_def parser2_def using r k nle pending_buffer by auto
    qed
    have alive: "state parser \<noteq> GUAC_PARSE_ERROR"
      using r False by (auto elim!: pending.cases)
    show ?thesis
    proof (cases "n = 0")
      case True
      then have short: "finish cur - start cur < length todo" using k by auto
      have nc: "state parser2 \<noteq> GUAC_PARSE_COMPLETE"
        using inv2 True short pending_complete unfolding reading_def by fastforce
      have inv2': "reading buffer_size parser2 cur script es todo extra" using inv2 True by simp
      obtain parser3 cur3 script3 where fill: "fill_buffer parser2 cur script = Inr (parser3, cur3, script3)"
        "reading buffer_size parser3 cur3 script3 es todo extra"
        using fill_buffer_reading [OF inv2' nc assms(3) short assms(4)] by blast
      have "read_loop parser cur script = read_loop parser3 cur3 script3"
        using False alive app True k fill(1)
        by (cases "state parser") (auto simp: read_loop.simps [of parser] parser2_def)
      moreover have "read_ok buffer_size es extra (read_loop parser3 cur3 script3)"
      proof (cases "state parser")
        case GUAC_PARSE_LENGTH
        then show ?thesis
          using "1.IH"(1) [OF _ app [symmetric] refl parser2_def _ fill(1) refl refl fill(2)] True k
          by (simp add: parser2_def)
      next
        case GUAC_PARSE_CONTENT
        then show ?thesis
          using "1.IH"(3) [OF _ app [symmetric] refl parser2_def _ fill(1) refl refl fill(2)] True k
          by (simp add: parser2_def)
      qed (use False alive in auto)
      ultimately show ?thesis by simp
    next
      case n: False
      have "read_loop parser cur script = read_loop parser2 (cur\<lparr>start := start cur + n\<rparr>) script"
        using False alive app n
        by (cases "state parser") (auto simp: read_loop.simps [of parser] parser2_def)
      moreover have "read_ok buffer_size es extra (read_loop parser2 (cur\<lparr>start := start cur + n\<rparr>) script)"
      proof (cases "state parser")
        case GUAC_PARSE_LENGTH
        then show ?thesis using "1.IH"(2) [OF _ app [symmetric] refl parser2_def _ inv2] n by simp
      next
        case GUAC_PARSE_CONTENT
        then show ?thesis using "1.IH"(4) [OF _ app [symmetric] refl parser2_def _ inv2] n by simp
      qed (use False alive in auto)
      ultimately show ?thesis by simp
    qed
  qed
qed

section \<open>The instruction that was read\<close>

definition instruction_of :: "guac_parser \<Rightarrow> u8 list list" where
  "instruction_of parser =
     (case (opcode parser, argv parser) of
        (Some op, Some first) \<Rightarrow>
          string_at (instructionbuf parser) op #
          map (\<lambda>i. string_at (instructionbuf parser) (elementv parser ! (first + i))) [0..<nat (argc parser)]
      | _ \<Rightarrow> [])"

lemma string_at_recorded:
  assumes "take (length e + 1) (drop ptr mem) = e @ [0]" "0 \<notin> set e"
  shows "string_at mem ptr = e"
proof -
  have "drop ptr mem = (e @ [0]) @ drop (length e + 1) (drop ptr mem)"
    using assms(1) by (metis append_take_drop_id)
  then have "string_at mem ptr = takeWhile (\<lambda>b. b \<noteq> 0) (e @ 0 # drop (length e + 1) (drop ptr mem))"
    unfolding string_at_def by simp
  also have "\<dots> = e"
  proof -
    have "\<And>b. b \<in> set e \<Longrightarrow> b \<noteq> 0" using assms(2) by auto
    then show ?thesis by (simp add: takeWhile_append2)
  qed
  finally show ?thesis .
qed

lemma instruction_of_pending:
  assumes "pending parser (instructionbuf parser) lo s es []" "es \<noteq> []" "\<forall>e \<in> set es. wf_element e"
  shows "instruction_of parser = es"
  using assms(1)
proof cases
  case complete
  have at: "string_at (instructionbuf parser) (elementv parser ! j) = es ! j" if "j < length es" for j
    using complete(3) that assms(3) by (intro string_at_recorded) (auto simp: recorded_def wf_element_def)
  obtain e rest where es: "es = e # rest" using assms(2) by (cases es) auto
  have "map (\<lambda>i. string_at (instructionbuf parser) (elementv parser ! (1 + i))) [0..<length rest] = rest"
    by (rule nth_equalityI) (use at es in auto)
  then show ?thesis
    using complete at [of 0] es by (simp add: instruction_of_def)
qed (auto simp: element_tail_def bytes_of_simps split: list.splits)

text \<open>A parser between two instructions.\<close>

definition parser_idle :: "guac_parser \<Rightarrow> bool" where
  "parser_idle parser \<longleftrightarrow>
     (state parser = GUAC_PARSE_COMPLETE \<or>
      state parser = GUAC_PARSE_LENGTH \<and> elementc parser = 0 \<and> element_length parser = 0) \<and>
     unparsed_start parser \<le> unparsed_end parser \<and> unparsed_end parser \<le> length (instructionbuf parser) \<and>
     length (elementv parser) = GUAC_INSTRUCTION_MAX_ELEMENTS"

text \<open>An instruction the parser can receive however it arrives.\<close>

definition receivable :: "nat \<Rightarrow> u8 list list \<Rightarrow> bool" where
  "receivable buffer_size es \<longleftrightarrow>
     es \<noteq> [] \<and> list_all wf_element es \<and> length es < GUAC_INSTRUCTION_MAX_ELEMENTS \<and>
     length (instruction es) \<le> buffer_size"

lemma parser_read_ok:
  assumes idle: "parser_idle parser" and es: "receivable (length (instructionbuf parser)) es"
    and data: "delivers script" "unparsed parser @ stream script = instruction es @ extra"
  shows "read_ok (length (instructionbuf parser)) es extra (guac_parser_read parser script)"
proof -
  let ?cur = "\<lparr>start = unparsed_start parser, finish = unparsed_end parser, instr_start = unparsed_start parser\<rparr>"
  define parser' where "parser' = (if state parser = GUAC_PARSE_COMPLETE then guac_parser_reset parser else parser)"
  obtain e rest where e: "es = e # rest" "wf_element e" using es by (cases es) (auto simp: receivable_def)
  obtain ds cs where d: "element e = ds @ of_char (CHR ''.'') # concat cs" "concat cs = e"
    "\<forall>c \<in> set cs. wf_char c" "\<forall>c \<in> set ds. is_digit c" "digits_value 0 ds = int (length cs)"
    "int (length cs) \<le> GUAC_INSTRUCTION_MAX_LENGTH"
    using wf_elementE [OF e(2)] .
  have fresh: "state parser' = GUAC_PARSE_LENGTH" "elementc parser' = 0" "element_length parser' = 0"
    "instructionbuf parser' = instructionbuf parser" "elementv parser' = elementv parser"
    using idle by (auto simp: parser'_def parser_idle_def guac_parser_reset_def)
  have "pending parser' (instructionbuf parser') (unparsed_start parser) (unparsed_start parser) es
      (ds @ of_char (CHR ''.'') # concat cs @ element_tail rest)"
    by (rule in_length [where ?es1.0 = "[]"]) (use fresh e d in \<open>auto simp: recorded_def\<close>)
  then have "pending parser' (instructionbuf parser') (unparsed_start parser) (unparsed_start parser) es (instruction es)"
    using e d(1) by (simp add: instruction_tail)
  then have "reading (length (instructionbuf parser)) parser' ?cur script es (instruction es) extra"
    using idle data fresh by (simp add: reading_def parser_idle_def unparsed_def)
  from read_loop_reading [OF this] es show ?thesis
    by (simp add: guac_parser_read_def receivable_def list_all_iff parser'_def Let_def)
qed

lemma parser_read_instruction:
  assumes "parser_idle parser" "receivable (length (instructionbuf parser)) es"
    and "delivers script" "unparsed parser @ stream script = instruction es @ extra"
  shows "\<exists>parser' script'. guac_parser_read parser script = Some (0, None, parser', script') \<and>
           instruction_of parser' = es \<and> parser_idle parser' \<and> state parser' = GUAC_PARSE_COMPLETE \<and>
           length (instructionbuf parser') = length (instructionbuf parser) \<and>
           unparsed parser' @ stream script' = extra \<and> delivers script'"
proof -
  obtain parser' script' lo where r: "guac_parser_read parser script = Some (0, None, parser', script')"
    "pending parser' (instructionbuf parser') lo (unparsed_start parser') es []"
    "unparsed_start parser' \<le> unparsed_end parser'" "unparsed_end parser' \<le> length (instructionbuf parser)"
    "length (instructionbuf parser') = length (instructionbuf parser)"
    "length (elementv parser') = GUAC_INSTRUCTION_MAX_ELEMENTS"
    "unparsed parser' @ stream script' = extra" "delivers script'"
    using parser_read_ok [OF assms] unfolding read_ok_def by blast
  have "state parser' = GUAC_PARSE_COMPLETE" using pending_complete [OF r(2)] by simp
  moreover have "instruction_of parser' = es"
    using instruction_of_pending [OF r(2)] assms(2) by (simp add: receivable_def list_all_iff)
  ultimately show ?thesis using r by (simp add: parser_idle_def)
qed

text \<open>Reading a number of instructions one after the other, as the input loop of a connection does.\<close>

fun read_all :: "nat \<Rightarrow> guac_parser \<Rightarrow> socket_event list \<Rightarrow> u8 list list list option" where
  "read_all 0 parser script = Some []"
| "read_all (Suc n) parser script =
     (case guac_parser_read parser script of
        Some (r, _, parser', script') \<Rightarrow>
          if r \<noteq> 0 then None else map_option (\<lambda>ess. instruction_of parser' # ess) (read_all n parser' script')
      | None \<Rightarrow> None)"

lemma read_all_instructions:
  assumes "parser_idle parser" "list_all (receivable (length (instructionbuf parser))) ess"
    and "delivers script" "unparsed parser @ stream script = concat (map instruction ess) @ extra"
  shows "read_all (length ess) parser script = Some ess"
  using assms
proof (induction ess arbitrary: parser script)
  case (Cons es ess)
  have "unparsed parser @ stream script = instruction es @ (concat (map instruction ess) @ extra)"
    using Cons.prems(4) by simp
  from parser_read_instruction [OF Cons.prems(1) _ Cons.prems(3) this] Cons.prems(2)
  obtain parser' script' where r: "guac_parser_read parser script = Some (0, None, parser', script')"
    "instruction_of parser' = es" "parser_idle parser'" "length (instructionbuf parser') = length (instructionbuf parser)"
    "unparsed parser' @ stream script' = concat (map instruction ess) @ extra" "delivers script'"
    by auto
  from Cons.IH [OF r(3) _ r(6,5)] r Cons.prems(2) show ?case by simp
qed simp

section \<open>Safety on arbitrary input\<close>

text \<open>What holds of the parser of a buffer of the given size whatever it is fed.\<close>

definition parser_wf :: "nat \<Rightarrow> guac_parser \<Rightarrow> bool" where
  "parser_wf buffer_size parser \<longleftrightarrow>
     elementc parser \<le> GUAC_INSTRUCTION_MAX_ELEMENTS \<and> length (elementv parser) = GUAC_INSTRUCTION_MAX_ELEMENTS \<and>
     (\<forall>j < elementc parser. elementv parser ! j \<le> buffer_size) \<and>
     element_length parser \<le> GUAC_INSTRUCTION_MAX_LENGTH"

lemma append_length_wf:
  assumes "parser_wf buffer_size parser" "buffer + length bytes \<le> buffer_size"
    and "elementc parser \<noteq> GUAC_INSTRUCTION_MAX_ELEMENTS \<or> state parser = GUAC_PARSE_COMPLETE"
  shows "case append_length parser buffer bytes of
           Inl parser' \<Rightarrow> parser_wf buffer_size parser'
         | Inr (parser', k) \<Rightarrow> parser_wf buffer_size parser' \<and> k \<le> length bytes"
proof (cases "state parser = GUAC_PARSE_LENGTH")
  case True
  then have c: "elementc parser < GUAC_INSTRUCTION_MAX_ELEMENTS" using assms(1,3) by (auto simp: parser_wf_def)
  show ?thesis
  proof (cases "parse_length bytes (element_length parser) 0")
    case (Length_done l n)
    have "n \<le> length bytes" using parse_length_bound(2) [OF Length_done] by simp
    then have "\<forall>j < elementc parser + 1. (elementv parser)[elementc parser := buffer + n] ! j \<le> buffer_size"
      using assms(1,2) c by (auto simp: parser_wf_def less_Suc_eq nth_list_update)
    then show ?thesis
      using True Length_done c assms(1) \<open>n \<le> length bytes\<close>
      by (simp add: append_length_def Let_def parser_wf_def)
  next
    case (Length_more l n)
    then show ?thesis
      using True assms(1) parse_length_bound(1) [OF Length_more] by (simp add: append_length_def parser_wf_def)
  next
    case Length_error
    then show ?thesis using True assms(1) by (simp add: append_length_def parser_wf_def)
  qed
next
  case False
  then show ?thesis using assms(1) by (simp add: append_length_def)
qed

lemma parse_content_remaining: "parse_content bytes el k = Content_more l n \<Longrightarrow> l \<le> el"
proof (induction bytes el k rule: parse_content.induct)
  case (1 bytes el k)
  then show ?case
    unfolding parse_content.simps [of bytes el k] by (fastforce simp: Let_def split: if_splits)
qed

lemma append_content_wf:
  assumes "parser_wf buffer_size parser" "k \<le> length bytes"
    and "append_content parser mem buffer bytes k = (parser', mem', n)"
  shows "parser_wf buffer_size parser' \<and> n \<le> length bytes \<and>
         (mem' = mem \<or> (\<exists>i. buffer \<le> i \<and> i < buffer + length bytes \<and> mem' = mem[i := 0]))"
proof (cases "state parser = GUAC_PARSE_CONTENT")
  case False
  then show ?thesis using assms by (simp add: append_content_def)
next
  case True
  show ?thesis
  proof (cases "parse_content (drop k bytes) (element_length parser) k")
    case (Content_more l m)
    then have "l \<le> GUAC_INSTRUCTION_MAX_LENGTH"
      using parse_content_remaining [OF Content_more] assms(1) by (simp add: parser_wf_def)
    then show ?thesis
      using True Content_more assms parse_content_bound(1) [OF Content_more]
      by (auto simp: append_content_def parser_wf_def)
  next
    case (Content_end c m off)
    have b: "off < length bytes" "m \<le> length bytes" using parse_content_bound(2) [OF Content_end] assms(2) by auto
    have "mem' = mem[buffer + off := 0] \<and> n \<le> length bytes \<and> parser_wf buffer_size parser'"
      using True Content_end assms(1,3) b
      by (auto simp: append_content_def parser_wf_def Let_def GUAC_INSTRUCTION_MAX_LENGTH_def split: if_splits)
    then show ?thesis using b(1) by (auto intro!: exI [of _ "buffer + off"])
  qed
qed

lemma append_wf:
  assumes wf: "parser_wf (length mem) parser" and room: "buffer + len \<le> length mem"
    and run: "guac_parser_append parser mem buffer len = (parser', mem', n)"
  shows "parser_wf (length mem) parser' \<and> n \<le> len \<and>
         (mem' = mem \<or> (\<exists>i. buffer \<le> i \<and> i < buffer + len \<and> mem' = mem[i := 0]))"
proof (cases "elementc parser = GUAC_INSTRUCTION_MAX_ELEMENTS \<and> state parser \<noteq> GUAC_PARSE_COMPLETE")
  case True
  then show ?thesis using run wf by (auto simp: guac_parser_append_def parser_wf_def)
next
  case False
  define bytes where "bytes = take len (drop buffer mem)"
  have lenb: "length bytes = len" using room by (simp add: bytes_def)
  have L: "case append_length parser buffer bytes of
      Inl parser' \<Rightarrow> parser_wf (length mem) parser'
    | Inr (parser', k) \<Rightarrow> parser_wf (length mem) parser' \<and> k \<le> length bytes"
    using append_length_wf [OF wf, of buffer bytes] False room lenb by simp
  show ?thesis
  proof (cases "append_length parser buffer bytes")
    case (Inl failed)
    then show ?thesis using L False run by (auto simp: guac_parser_append_def Let_def simp flip: bytes_def)
  next
    case (Inr r)
    obtain parser1 k where r: "r = (parser1, k)" by (cases r)
    have "append_content parser1 mem buffer bytes k = (parser', mem', n)"
      using Inr r False run by (auto simp: guac_parser_append_def Let_def simp flip: bytes_def)
    from append_content_wf [OF _ _ this, of "length mem"] L Inr r lenb show ?thesis by simp
  qed
qed

section \<open>Length prefixes beyond 32 bits\<close>

lemma wrap32_step: "wrap32 (wrap32 v * 10 + d) = wrap32 (v * 10 + d)"
proof -
  define q where "q = (v + 2147483648) div 4294967296"
  have "wrap32 v = v - q * 4294967296"
    by (simp add: wrap32_def q_def minus_mult_div_eq_mod [symmetric] algebra_simps)
  then have "wrap32 v * 10 + d + 2147483648 = v * 10 + d + 2147483648 + (- q * 10) * 4294967296"
    by (simp add: algebra_simps)
  then show ?thesis unfolding wrap32_def by (simp only: mod_mult_self1)
qed

lemma parse_length_wraps:
  assumes "\<forall>c \<in> set ds. is_digit c"
  shows "parse_length (ds @ rest) (wrap32 v) k = parse_length rest (wrap32 (digits_value v ds)) (k + length ds)"
  using assms
proof (induction ds arbitrary: v k)
  case (Cons c ds)
  have "wrap32 (wrap32 v * 10 + uint c - 48) = wrap32 (v * 10 + (uint c - 48))"
    using wrap32_step [of v "uint c - 48"] by (simp add: add_diff_eq)
  then show ?case using Cons by simp
qed simp

section \<open>Properties\<close>

text \<open>A parser as it is allocated, with a buffer of the given size.\<close>

definition new_parser :: "nat \<Rightarrow> guac_parser" where
  "new_parser buffer_size =
     \<lparr>opcode = None, argc = 0, argv = None, state = GUAC_PARSE_LENGTH, element_length = 0, elementc = 0,
      elementv = replicate 128 0, unparsed_start = 0, unparsed_end = 0, instructionbuf = replicate buffer_size 0\<rparr>"

text \<open>
  C2. However the bytes of an instruction arrive (in the internal buffer, or from the socket in
  pieces that may split length prefixes and characters), reading returns with exactly that
  instruction, and what follows it is neither lost nor changed, so that the parser is ready for the
  next one. The instruction must have fewer than 128 elements, whole characters, at most 8192 of
  them per element, and fit the buffer.
\<close>

theorem read_instruction:
  assumes "parser_idle parser" "receivable (length (instructionbuf parser)) es"
    and "delivers script" "unparsed parser @ stream script = instruction es @ extra"
  shows "\<exists>parser' script'. guac_parser_read parser script = Some (0, None, parser', script') \<and>
           instruction_of parser' = es \<and> parser_idle parser' \<and>
           unparsed parser' @ stream script' = extra \<and> delivers script'"
  using parser_read_instruction [OF assms] by auto

theorem read_instruction_witness:
  "\<exists>parser' script'.
     guac_parser_read (new_parser 32768)
       [Data (bytes_of ''6.sel''), Data (bytes_of ''ect,3.v''), Data (bytes_of ''nc;4.s'')] =
       Some (0, None, parser', script') \<and>
     instruction_of parser' = [bytes_of ''select'', bytes_of ''vnc''] \<and>
     unparsed parser' @ stream script' = bytes_of ''4.s''"
proof -
  have es: "receivable (length (instructionbuf (new_parser 32768))) [bytes_of ''select'', bytes_of ''vnc'']"
  proof -
    have "list_all wf_element [bytes_of ''select'', bytes_of ''vnc''] \<and>
        length (instruction [bytes_of ''select'', bytes_of ''vnc'']) \<le> 100" by code_simp
    then show ?thesis by (simp add: receivable_def new_parser_def GUAC_INSTRUCTION_MAX_ELEMENTS_def)
  qed
  have d: "delivers [Data (bytes_of ''6.sel''), Data (bytes_of ''ect,3.v''), Data (bytes_of ''nc;4.s'')]"
    by code_simp
  have s: "stream [Data (bytes_of ''6.sel''), Data (bytes_of ''ect,3.v''), Data (bytes_of ''nc;4.s'')] =
      instruction [bytes_of ''select'', bytes_of ''vnc''] @ bytes_of ''4.s''" by code_simp
  show ?thesis
    using read_instruction [of "new_parser 32768", OF _ es d, of "bytes_of ''4.s''"] s
    by (auto simp: parser_idle_def new_parser_def unparsed_def GUAC_INSTRUCTION_MAX_ELEMENTS_def)
qed

text \<open>
  C27. Reading one instruction after the other yields every instruction of a stream in order, for
  every way of cutting the stream into pieces.
\<close>

theorem read_instructions_in_order:
  assumes "parser_idle parser" "list_all (receivable (length (instructionbuf parser))) ess"
    and "delivers script" "unparsed parser @ stream script = concat (map instruction ess) @ extra"
  shows "read_all (length ess) parser script = Some ess"
  using assms by (rule read_all_instructions)

theorem read_instructions_in_order_witness:
  "read_all 2 (new_parser 64) [Data (bytes_of ''3.no''), Data (bytes_of ''p;4.sync,1.7,1.'')  , Data (bytes_of ''0;'')] =
     Some [[bytes_of ''nop''], [bytes_of ''sync'', bytes_of ''7'', bytes_of ''0'']]"
proof -
  have es: "list_all (receivable 64) [[bytes_of ''nop''], [bytes_of ''sync'', bytes_of ''7'', bytes_of ''0'']]"
    by code_simp
  have d: "delivers [Data (bytes_of ''3.no''), Data (bytes_of ''p;4.sync,1.7,1.''), Data (bytes_of ''0;'')]"
    by code_simp
  have s: "stream [Data (bytes_of ''3.no''), Data (bytes_of ''p;4.sync,1.7,1.''), Data (bytes_of ''0;'')] =
      concat (map instruction [[bytes_of ''nop''], [bytes_of ''sync'', bytes_of ''7'', bytes_of ''0'']]) @ []"
    by code_simp
  show ?thesis
    using read_instructions_in_order [of "new_parser 64"
        "[[bytes_of ''nop''], [bytes_of ''sync'', bytes_of ''7'', bytes_of ''0'']]", OF _ _ d, of "[]"] es s
    by (simp add: parser_idle_def new_parser_def unparsed_def GUAC_INSTRUCTION_MAX_ELEMENTS_def numeral_2_eq_2)
qed

text \<open>
  C17. Whatever bytes it is given, appending never parses more than is available, stores at most one
  NUL, inside the available bytes, never records more than 128 elements, and keeps every element
  pointer inside the buffer.
\<close>

theorem append_safe:
  assumes "parser_wf (length mem) parser" "buffer + len \<le> length mem"
    and "guac_parser_append parser mem buffer len = (parser', mem', n)"
  shows "parser_wf (length mem) parser' \<and> n \<le> len \<and>
         (mem' = mem \<or> (\<exists>i. buffer \<le> i \<and> i < buffer + len \<and> mem' = mem[i := 0]))"
  using append_wf [OF assms] .

theorem append_safe_witness:
  "parser_wf 8 (fst (guac_parser_append (new_parser 8) (bytes_of ''2.xy;3.z'') 0 8)) \<and>
   snd (snd (guac_parser_append (new_parser 8) (bytes_of ''2.xy;3.z'') 0 8)) \<le> 8"
proof -
  have wf: "parser_wf (length (bytes_of ''2.xy;3.z'')) (new_parser 8)" by code_simp
  obtain p m n where run: "guac_parser_append (new_parser 8) (bytes_of ''2.xy;3.z'') 0 8 = (p, m, n)"
    by (rule prod_cases3)
  have len: "length (bytes_of ''2.xy;3.z'') = 8" by (simp add: bytes_of_simps)
  show ?thesis using append_safe [OF wf _ run] unfolding len run by simp
qed

text \<open>
  The length of an element is read modulo 2^32 and its bound is tested afterwards, so that
  prefixes far beyond the maximum are accepted; the instruction below, which announces 4294967301
  characters, is read as one of 5.
\<close>

theorem length_prefix_wraps:
  "parse_length (bytes_of (decimal n) @ of_char (CHR ''.'') # rest) 0 0 =
     Length_done (wrap32 (int n)) (length (decimal n) + 1) \<and>
   (case guac_parser_read (new_parser 64) [Data (bytes_of ''4294967301.hello;'')] of
      None \<Rightarrow> False
    | Some (r, status, parser', script') \<Rightarrow> r = 0 \<and> instruction_of parser' = [bytes_of ''hello''])"
proof
  show "parse_length (bytes_of (decimal n) @ of_char (CHR ''.'') # rest) 0 0 =
      Length_done (wrap32 (int n)) (length (decimal n) + 1)"
    using parse_length_wraps [of "bytes_of (decimal n)" "of_char (CHR ''.'') # rest" 0 0] decimal_digits [of n]
    by (simp add: bytes_of_simps in_int_bounds)
qed code_simp

text \<open>
  A read that ends without a complete instruction loses the bytes it has taken from the socket:
  after a timeout in the middle of the opcode \<open>foo\<close> the next read reports success with the opcode
  \<open>fo\<close>, although without the timeout the same bytes are read correctly.
\<close>

theorem timeout_corrupts_instruction:
  "(case guac_parser_read (new_parser 16) [Data (bytes_of ''3.fo''), Data (bytes_of ''o;'')] of
      None \<Rightarrow> False
    | Some (r, status, parser', script') \<Rightarrow> r = 0 \<and> instruction_of parser' = [bytes_of ''foo'']) \<and>
   (case guac_parser_read (new_parser 16) [Data (bytes_of ''3.fo''), Select_failed, Data (bytes_of ''o;'')] of
      None \<Rightarrow> False
    | Some (r, status, parser', script') \<Rightarrow>
        r = -1 \<and>
        (case guac_parser_read parser' script' of
           None \<Rightarrow> False
         | Some (r, status, parser'', script'') \<Rightarrow> r = 0 \<and> instruction_of parser'' = [bytes_of ''fo'']))"
  by code_simp

text \<open>
  The last of 128 elements, the documented maximum, is accepted when its content arrives with
  its length, and refused when the same bytes arrive in two pieces.
\<close>

theorem max_elements_depend_on_arrival:
  "(case guac_parser_append ((new_parser 8)\<lparr>elementc := 127\<rparr>) (bytes_of ''1.x;'') 0 4 of
      (parser', mem', n) \<Rightarrow> state parser' = GUAC_PARSE_COMPLETE \<and> argc parser' = 127 \<and> n = 4) \<and>
   (case guac_parser_append ((new_parser 8)\<lparr>elementc := 127\<rparr>) (bytes_of ''1.x;'') 0 2 of
      (parser', mem', n) \<Rightarrow>
        state parser' = GUAC_PARSE_CONTENT \<and> n = 2 \<and>
        state (fst (guac_parser_append parser' mem' 2 2)) = GUAC_PARSE_ERROR)"
  by code_simp

end
