(* ===== verification/Rwlock.thy ===== *)
theory Rwlock
  imports Prelude
begin

text \<open>
  The reentrant read-write lock (\<open>src/src/libguac/rwlock.c\<close>): a POSIX read-write lock plus one
  thread-local word per thread, which packs what the thread holds and how deeply.

  A call that has to wait is split at the point where it waits: \<open>None\<close> as return value says that
  the thread now waits inside the call, and the \<open>granted\<close> operation is the rest of the call once the
  POSIX lock is granted. The POSIX lock is the list of its readers and its writer; it is granted to
  a writer when nobody holds it and to a reader when no writer does. Unlocking a lock the thread does
  not hold is undefined.
\<close>

unbundle bit_operations_syntax

section \<open>Definitions\<close>

type_synonym thread = nat

datatype wait_kind = For_read | For_write

record guac_rwlock =
  rw_writer :: "thread option"
  rw_readers :: "thread list"
  rw_key :: "thread \<Rightarrow> u64"
  rw_waiting :: "thread \<Rightarrow> wait_kind option"

definition NO_LOCK :: u64 where "NO_LOCK = 0"
definition READ_LOCK :: u64 where "READ_LOCK = 1"
definition WRITE_LOCK :: u64 where "WRITE_LOCK = 2"

definition guac_rwlock_init :: guac_rwlock where
  "guac_rwlock_init = \<lparr>rw_writer = None, rw_readers = [], rw_key = (\<lambda>_. 0), rw_waiting = (\<lambda>_. None)\<rparr>"

definition get_lock_flag :: "u64 \<Rightarrow> u64" where
  "get_lock_flag val = val AND 0xF"

definition get_lock_count :: "u64 \<Rightarrow> u64" where
  "get_lock_count val = drop_bit 4 val"

definition get_value_from_flag_and_count :: "u64 \<Rightarrow> u64 \<Rightarrow> u64" where
  "get_value_from_flag_and_count flag count = (flag AND 0xF) OR push_bit 4 count"

definition would_overflow_count :: "u64 \<Rightarrow> bool" where
  "would_overflow_count current_count \<longleftrightarrow> current_count \<ge> drop_bit 4 (- 1)"

definition set_key :: "thread \<Rightarrow> u64 \<Rightarrow> guac_rwlock \<Rightarrow> guac_rwlock" where
  "set_key t val lock = lock\<lparr>rw_key := (rw_key lock)(t := val)\<rparr>"

definition rw_unlock :: "thread \<Rightarrow> guac_rwlock \<Rightarrow> guac_rwlock result" where
  "rw_unlock t lock =
     (if rw_writer lock = Some t then Inr (lock\<lparr>rw_writer := None\<rparr>)
      else if t \<in> set (rw_readers lock) then Inr (lock\<lparr>rw_readers := remove1 t (rw_readers lock)\<rparr>)
      else Inl Undefined)"

text \<open>The return value (with the status set on failure), or none while the thread waits.\<close>

type_synonym lock_result = "((int \<times> guac_status option) option \<times> guac_rwlock) result"

definition guac_rwlock_acquire_write_lock :: "thread \<Rightarrow> guac_rwlock \<Rightarrow> lock_result" where
  "guac_rwlock_acquire_write_lock t lock =
     (let flag = get_lock_flag (rw_key lock t); count = get_lock_count (rw_key lock t) in
      if would_overflow_count count then Inr (Some (1, Some GUAC_STATUS_TOO_MANY), lock)
      else if flag = WRITE_LOCK then
        Inr (Some (0, None), set_key t (get_value_from_flag_and_count flag (count + 1)) lock)
      else
        bindr (if flag = READ_LOCK then rw_unlock t lock else Inr lock)
          (\<lambda>lock'. Inr (None, lock'\<lparr>rw_waiting := (rw_waiting lock')(t := Some For_write)\<rparr>)))"

definition write_lock_granted :: "thread \<Rightarrow> guac_rwlock \<Rightarrow> guac_rwlock" where
  "write_lock_granted t lock =
     set_key t (get_value_from_flag_and_count WRITE_LOCK (get_lock_count (rw_key lock t) + 1))
       (lock\<lparr>rw_writer := Some t, rw_waiting := (rw_waiting lock)(t := None)\<rparr>)"

definition guac_rwlock_acquire_read_lock :: "thread \<Rightarrow> guac_rwlock \<Rightarrow> lock_result" where
  "guac_rwlock_acquire_read_lock t lock =
     (let flag = get_lock_flag (rw_key lock t); count = get_lock_count (rw_key lock t) in
      if would_overflow_count count then Inr (Some (1, Some GUAC_STATUS_TOO_MANY), lock)
      else if flag = READ_LOCK \<or> flag = WRITE_LOCK then
        Inr (Some (0, None), set_key t (get_value_from_flag_and_count flag (count + 1)) lock)
      else Inr (None, lock\<lparr>rw_waiting := (rw_waiting lock)(t := Some For_read)\<rparr>))"

definition read_lock_granted :: "thread \<Rightarrow> guac_rwlock \<Rightarrow> guac_rwlock" where
  "read_lock_granted t lock =
     set_key t (get_value_from_flag_and_count READ_LOCK 1)
       (lock\<lparr>rw_readers := t # rw_readers lock, rw_waiting := (rw_waiting lock)(t := None)\<rparr>)"

definition guac_rwlock_release_lock :: "thread \<Rightarrow> guac_rwlock \<Rightarrow> lock_result" where
  "guac_rwlock_release_lock t lock =
     (let flag = get_lock_flag (rw_key lock t); count = get_lock_count (rw_key lock t) in
      if count \<le> 0 then Inr (Some (1, Some GUAC_STATUS_INVALID_ARGUMENT), lock)
      else if count = 1 then
        bindr (rw_unlock t lock)
          (\<lambda>lock'. Inr (Some (0, None), set_key t (get_value_from_flag_and_count NO_LOCK 0) lock'))
      else Inr (Some (0, None), set_key t (get_value_from_flag_and_count flag (count - 1)) lock))"

text \<open>Any number of threads calling these functions, each one call at a time.\<close>

inductive rw_step :: "guac_rwlock \<Rightarrow> guac_rwlock \<Rightarrow> bool" where
  call_write: "rw_waiting lock t = None \<Longrightarrow> guac_rwlock_acquire_write_lock t lock = Inr (r, lock') \<Longrightarrow> rw_step lock lock'"
| call_read: "rw_waiting lock t = None \<Longrightarrow> guac_rwlock_acquire_read_lock t lock = Inr (r, lock') \<Longrightarrow> rw_step lock lock'"
| call_release: "rw_waiting lock t = None \<Longrightarrow> guac_rwlock_release_lock t lock = Inr (r, lock') \<Longrightarrow> rw_step lock lock'"
| grant_write: "rw_waiting lock t = Some For_write \<Longrightarrow> rw_writer lock = None \<Longrightarrow> rw_readers lock = [] \<Longrightarrow>
    rw_step lock (write_lock_granted t lock)"
| grant_read: "rw_waiting lock t = Some For_read \<Longrightarrow> rw_writer lock = None \<Longrightarrow> rw_step lock (read_lock_granted t lock)"

inductive rw_reachable :: "guac_rwlock \<Rightarrow> bool" where
  init: "rw_reachable guac_rwlock_init"
| step: "rw_reachable lock \<Longrightarrow> rw_step lock lock' \<Longrightarrow> rw_reachable lock'"

section \<open>The packed word\<close>

lemma bit_nibble: "bit (0xF :: int) n \<longleftrightarrow> n < 4"
proof -
  have "bit (mask 4 :: int) n \<longleftrightarrow> n < 4" by (auto simp: bit_mask_iff)
  then show ?thesis by (simp add: mask_eq_exp_minus_1)
qed

lemma flag_of_pack: "get_lock_flag (get_value_from_flag_and_count flag count) = flag AND 0xF"
  by (rule bit_eqI) (auto simp: get_lock_flag_def get_value_from_flag_and_count_def bit_simps bit_nibble)

lemma count_of_pack:
  assumes "unat count < 2 ^ 60"
  shows "get_lock_count (get_value_from_flag_and_count flag count) = count"
proof -
  have "take_bit 60 count = count"
    using assms by (intro word_unat_eq_iff [THEN iffD2]) (simp add: unsigned_take_bit_eq take_bit_nat_eq_self)
  then have "bit count n \<Longrightarrow> n < 60" for n by (metis bit_take_bit_iff)
  then show ?thesis
    by (intro bit_eqI) (auto simp: get_lock_count_def get_value_from_flag_and_count_def bit_simps bit_nibble)
qed

lemma would_overflow_iff: "would_overflow_count c \<longleftrightarrow> 2 ^ 60 - 1 \<le> unat c"
proof -
  have "unat (drop_bit 4 (- 1) :: u64) = 2 ^ 60 - 1"
    by (simp add: unsigned_drop_bit_eq unsigned_minus_1_eq_mask drop_bit_mask_eq mask_eq_exp_minus_1)
  then show ?thesis by (simp add: would_overflow_count_def word_le_nat_alt)
qed

lemma flags_nibble [simp]:
  "NO_LOCK AND 0xF = NO_LOCK" "READ_LOCK AND 0xF = READ_LOCK" "WRITE_LOCK AND 0xF = WRITE_LOCK"
  by (simp_all add: NO_LOCK_def READ_LOCK_def WRITE_LOCK_def)

lemma flags_distinct [simp]:
  "NO_LOCK \<noteq> READ_LOCK" "NO_LOCK \<noteq> WRITE_LOCK" "READ_LOCK \<noteq> WRITE_LOCK"
  "READ_LOCK \<noteq> NO_LOCK" "WRITE_LOCK \<noteq> NO_LOCK" "WRITE_LOCK \<noteq> READ_LOCK"
  by (simp_all add: NO_LOCK_def READ_LOCK_def WRITE_LOCK_def)

lemma unat_succ:
  assumes "\<not> would_overflow_count c"
  shows "unat (c + 1) = unat c + 1" "unat (c + 1) < 2 ^ 60"
proof -
  have "unat c + 1 < 2 ^ 60" using assms by (simp add: would_overflow_iff)
  then show "unat (c + 1) = unat c + 1" by (simp add: unat_add_lem [symmetric] unat_word_ariths)
  then show "unat (c + 1) < 2 ^ 60" using \<open>unat c + 1 < 2 ^ 60\<close> by simp
qed

lemma unat_pred: "0 < c \<Longrightarrow> unat (c - 1 :: u64) = unat c - 1"
  by (simp add: unat_minus_one word_neq_0_conv)

section \<open>What the thread-local word says\<close>

text \<open>
  The word of one thread, given whether it holds the POSIX lock for writing or reading and whether
  it waits.
\<close>

definition thread_ok :: "bool \<Rightarrow> bool \<Rightarrow> u64 \<Rightarrow> wait_kind option \<Rightarrow> bool" where
  "thread_ok holds_w holds_r key wait \<longleftrightarrow>
     unat (get_lock_count key) < 2 ^ 60 \<and>
     (get_lock_flag key = NO_LOCK \<and> get_lock_count key = 0 \<or>
      get_lock_flag key \<in> {READ_LOCK, WRITE_LOCK} \<and> get_lock_count key \<noteq> 0) \<and>
     (case wait of
        None \<Rightarrow> (holds_w \<longleftrightarrow> get_lock_flag key = WRITE_LOCK) \<and> (holds_r \<longleftrightarrow> get_lock_flag key = READ_LOCK)
      | Some For_write \<Rightarrow> \<not> holds_w \<and> \<not> holds_r \<and> get_lock_flag key \<noteq> WRITE_LOCK \<and>
          \<not> would_overflow_count (get_lock_count key)
      | Some For_read \<Rightarrow> \<not> holds_w \<and> \<not> holds_r \<and> get_lock_flag key = NO_LOCK)"

definition lock_inv :: "guac_rwlock \<Rightarrow> bool" where
  "lock_inv lock \<longleftrightarrow>
     (rw_writer lock \<noteq> None \<longrightarrow> rw_readers lock = []) \<and> distinct (rw_readers lock) \<and>
     (\<forall>t. thread_ok (rw_writer lock = Some t) (t \<in> set (rw_readers lock)) (rw_key lock t) (rw_waiting lock t))"

lemma lock_invI:
  assumes "lock_inv lock"
    and "rw_writer lock' \<noteq> None \<longrightarrow> rw_readers lock' = []" "distinct (rw_readers lock')"
    and "thread_ok (rw_writer lock' = Some t) (t \<in> set (rw_readers lock')) (rw_key lock' t) (rw_waiting lock' t)"
    and "\<And>u. u \<noteq> t \<Longrightarrow> rw_key lock' u = rw_key lock u \<and> rw_waiting lock' u = rw_waiting lock u \<and>
      (rw_writer lock' = Some u \<longleftrightarrow> rw_writer lock = Some u) \<and> (u \<in> set (rw_readers lock') \<longleftrightarrow> u \<in> set (rw_readers lock))"
  shows "lock_inv lock'"
  unfolding lock_inv_def
proof (intro conjI allI)
  fix u
  show "thread_ok (rw_writer lock' = Some u) (u \<in> set (rw_readers lock')) (rw_key lock' u) (rw_waiting lock' u)"
    using assms by (cases "u = t") (auto simp: lock_inv_def)
qed (use assms in auto)

lemma lock_inv_thread:
  "lock_inv lock \<Longrightarrow> thread_ok (rw_writer lock = Some t) (t \<in> set (rw_readers lock)) (rw_key lock t) (rw_waiting lock t)"
  by (simp add: lock_inv_def)

lemma thread_ok_deeper:
  assumes "thread_ok w r key None" "\<not> would_overflow_count (get_lock_count key)"
    "flag = get_lock_flag key" "flag \<noteq> NO_LOCK"
  shows "thread_ok w r (get_value_from_flag_and_count flag (get_lock_count key + 1)) None"
proof -
  have "flag AND 0xF = flag" using assms by (auto simp: thread_ok_def)
  moreover have "get_lock_count key + 1 \<noteq> 0" using unat_succ(1) [OF assms(2)] by (metis add_is_0 one_neq_zero unat_0)
  ultimately show ?thesis
    using assms unat_succ [OF assms(2)] by (auto simp: thread_ok_def flag_of_pack count_of_pack)
qed

lemma acquire_write_inv:
  assumes inv: "lock_inv lock" and idle: "rw_waiting lock t = None"
  shows "\<exists>r lock'. guac_rwlock_acquire_write_lock t lock = Inr (r, lock') \<and> lock_inv lock'"
proof -
  let ?key = "rw_key lock t"
  note ok = lock_inv_thread [OF inv, of t, unfolded idle]
  consider "would_overflow_count (get_lock_count ?key)"
    | "\<not> would_overflow_count (get_lock_count ?key)" "get_lock_flag ?key = WRITE_LOCK"
    | "\<not> would_overflow_count (get_lock_count ?key)" "get_lock_flag ?key = READ_LOCK"
    | "\<not> would_overflow_count (get_lock_count ?key)" "get_lock_flag ?key = NO_LOCK"
    using ok by (auto simp: thread_ok_def)
  then show ?thesis
  proof cases
    case 1
    then show ?thesis using inv by (simp add: guac_rwlock_acquire_write_lock_def Let_def)
  next
    case 2
    have "lock_inv (set_key t (get_value_from_flag_and_count WRITE_LOCK (get_lock_count ?key + 1)) lock)"
      using inv ok 2 thread_ok_deeper [OF ok 2(1)]
      by (intro lock_invI [OF inv, of _ t]) (auto simp: set_key_def lock_inv_def idle)
    then show ?thesis using 2 by (simp add: guac_rwlock_acquire_write_lock_def Let_def)
  next
    case 3
    then have holds: "t \<in> set (rw_readers lock)" "rw_writer lock \<noteq> Some t"
      using ok by (auto simp: thread_ok_def)
    have "rw_writer lock = None" using holds inv by (auto simp: lock_inv_def)
    let ?lock = "lock\<lparr>rw_readers := remove1 t (rw_readers lock), rw_waiting := (rw_waiting lock)(t := Some For_write)\<rparr>"
    have "lock_inv ?lock"
      using inv ok 3 \<open>rw_writer lock = None\<close>
      by (intro lock_invI [OF inv, of _ t]) (auto simp: lock_inv_def thread_ok_def)
    then show ?thesis
      using 3 holds \<open>rw_writer lock = None\<close> by (simp add: guac_rwlock_acquire_write_lock_def Let_def rw_unlock_def)
  next
    case 4
    let ?lock = "lock\<lparr>rw_waiting := (rw_waiting lock)(t := Some For_write)\<rparr>"
    have "lock_inv ?lock"
      using inv ok 4 by (intro lock_invI [OF inv, of _ t]) (auto simp: lock_inv_def thread_ok_def)
    then show ?thesis using 4 by (simp add: guac_rwlock_acquire_write_lock_def Let_def)
  qed
qed

lemma acquire_read_inv:
  assumes inv: "lock_inv lock" and idle: "rw_waiting lock t = None"
  shows "\<exists>r lock'. guac_rwlock_acquire_read_lock t lock = Inr (r, lock') \<and> lock_inv lock'"
proof -
  let ?key = "rw_key lock t"
  note ok = lock_inv_thread [OF inv, of t, unfolded idle]
  consider "would_overflow_count (get_lock_count ?key)"
    | "\<not> would_overflow_count (get_lock_count ?key)" "get_lock_flag ?key = WRITE_LOCK \<or> get_lock_flag ?key = READ_LOCK"
    | "\<not> would_overflow_count (get_lock_count ?key)" "get_lock_flag ?key = NO_LOCK"
    using ok by (auto simp: thread_ok_def)
  then show ?thesis
  proof cases
    case 1
    then show ?thesis using inv by (simp add: guac_rwlock_acquire_read_lock_def Let_def)
  next
    case 2
    have "lock_inv (set_key t (get_value_from_flag_and_count (get_lock_flag ?key) (get_lock_count ?key + 1)) lock)"
      using inv ok 2 thread_ok_deeper [OF ok 2(1) refl]
      by (intro lock_invI [OF inv, of _ t]) (auto simp: set_key_def lock_inv_def idle)
    then show ?thesis using 2 by (auto simp: guac_rwlock_acquire_read_lock_def Let_def)
  next
    case 3
    let ?lock = "lock\<lparr>rw_waiting := (rw_waiting lock)(t := Some For_read)\<rparr>"
    have "lock_inv ?lock"
      using inv ok 3 by (intro lock_invI [OF inv, of _ t]) (auto simp: lock_inv_def thread_ok_def)
    then show ?thesis using 3 by (simp add: guac_rwlock_acquire_read_lock_def Let_def)
  qed
qed

lemma release_inv:
  assumes inv: "lock_inv lock" and idle: "rw_waiting lock t = None"
  shows "\<exists>r lock'. guac_rwlock_release_lock t lock = Inr (r, lock') \<and> lock_inv lock'"
proof -
  let ?key = "rw_key lock t"
  note ok = lock_inv_thread [OF inv, of t, unfolded idle]
  consider "get_lock_count ?key = 0" | "get_lock_count ?key = 1" | "0 < get_lock_count ?key" "get_lock_count ?key \<noteq> 1"
    by (metis word_gt_0)
  then show ?thesis
  proof cases
    case 1
    then show ?thesis using inv by (simp add: guac_rwlock_release_lock_def Let_def)
  next
    case 2
    let ?lock = "if rw_writer lock = Some t then lock\<lparr>rw_writer := None\<rparr>
      else lock\<lparr>rw_readers := remove1 t (rw_readers lock)\<rparr>"
    have un: "rw_unlock t lock = Inr ?lock" using ok 2 by (auto simp: thread_ok_def rw_unlock_def)
    have "thread_ok False False (get_value_from_flag_and_count NO_LOCK 0) None"
      by (simp add: thread_ok_def flag_of_pack count_of_pack)
    then have "lock_inv (set_key t (get_value_from_flag_and_count NO_LOCK 0) ?lock)"
      using inv by (intro lock_invI [OF inv, of _ t]) (auto simp: set_key_def lock_inv_def idle)
    then show ?thesis using 2 un by (simp add: guac_rwlock_release_lock_def Let_def)
  next
    case 3
    have flag: "get_lock_flag ?key AND 0xF = get_lock_flag ?key" "get_lock_flag ?key \<noteq> NO_LOCK"
      using ok 3 by (auto simp: thread_ok_def)
    have "get_lock_count ?key - 1 \<noteq> 0" "unat (get_lock_count ?key - 1) < 2 ^ 60"
      using 3 ok unat_pred [OF 3(1)] by (auto simp: thread_ok_def)
    then have "thread_ok (rw_writer lock = Some t) (t \<in> set (rw_readers lock))
        (get_value_from_flag_and_count (get_lock_flag ?key) (get_lock_count ?key - 1)) None"
      using ok flag by (auto simp: thread_ok_def flag_of_pack count_of_pack)
    then have "lock_inv (set_key t (get_value_from_flag_and_count (get_lock_flag ?key) (get_lock_count ?key - 1)) lock)"
      using inv by (intro lock_invI [OF inv, of _ t]) (auto simp: set_key_def lock_inv_def idle)
    then show ?thesis using 3 by (auto simp: guac_rwlock_release_lock_def Let_def)
  qed
qed

lemma grant_write_inv:
  assumes inv: "lock_inv lock" and "rw_waiting lock t = Some For_write" "rw_writer lock = None" "rw_readers lock = []"
  shows "lock_inv (write_lock_granted t lock)"
proof -
  note ok = lock_inv_thread [OF inv, of t, unfolded assms(2)]
  have o: "\<not> would_overflow_count (get_lock_count (rw_key lock t))" using ok by (auto simp: thread_ok_def)
  have "get_lock_count (rw_key lock t) + 1 \<noteq> 0" using unat_succ(1) [OF o] by (metis add_is_0 one_neq_zero unat_0)
  then have "thread_ok True False (get_value_from_flag_and_count WRITE_LOCK (get_lock_count (rw_key lock t) + 1)) None"
    using unat_succ(2) [OF o] by (simp add: thread_ok_def flag_of_pack count_of_pack)
  then show ?thesis
    using inv assms by (intro lock_invI [OF inv, of _ t]) (auto simp: write_lock_granted_def set_key_def)
qed

lemma grant_read_inv:
  assumes inv: "lock_inv lock" and "rw_waiting lock t = Some For_read" "rw_writer lock = None"
  shows "lock_inv (read_lock_granted t lock)"
proof -
  note ok = lock_inv_thread [OF inv, of t, unfolded assms(2)]
  have "thread_ok False True (get_value_from_flag_and_count READ_LOCK 1) None"
    by (simp add: thread_ok_def flag_of_pack count_of_pack)
  then show ?thesis
    using inv assms ok
    by (intro lock_invI [OF inv, of _ t]) (auto simp: read_lock_granted_def set_key_def lock_inv_def thread_ok_def)
qed

lemma init_inv: "lock_inv guac_rwlock_init"
  by (simp add: lock_inv_def guac_rwlock_init_def thread_ok_def get_lock_flag_def get_lock_count_def NO_LOCK_def READ_LOCK_def WRITE_LOCK_def)

lemma step_inv: "rw_step lock lock' \<Longrightarrow> lock_inv lock \<Longrightarrow> lock_inv lock'"
proof (induction rule: rw_step.induct)
  case (call_write lock t r lock')
  then show ?case using acquire_write_inv [of lock t] by auto
next
  case (call_read lock t r lock')
  then show ?case using acquire_read_inv [of lock t] by auto
next
  case (call_release lock t r lock')
  then show ?case using release_inv [of lock t] by auto
qed (use grant_write_inv grant_read_inv in auto)

lemma reachable_inv: "rw_reachable lock \<Longrightarrow> lock_inv lock"
  by (induction rule: rw_reachable.induct) (auto intro: init_inv step_inv)

text \<open>The depth of a thread that is not waiting.\<close>

lemma release_depth:
  assumes inv: "lock_inv lock" and idle: "rw_waiting lock t = None"
  shows "\<exists>r lock'. guac_rwlock_release_lock t lock = Inr (Some r, lock') \<and>
           (if get_lock_count (rw_key lock t) = 0
            then r = (1, Some GUAC_STATUS_INVALID_ARGUMENT) \<and> lock' = lock
            else r = (0, None) \<and> get_lock_count (rw_key lock' t) = get_lock_count (rw_key lock t) - 1)"
proof -
  let ?key = "rw_key lock t"
  note ok = lock_inv_thread [OF inv, of t, unfolded idle]
  consider "get_lock_count ?key = 0" | "get_lock_count ?key = 1" | "0 < get_lock_count ?key" "get_lock_count ?key \<noteq> 1"
    by (metis word_gt_0)
  then show ?thesis
  proof cases
    case 2
    then have "\<exists>lock1. rw_unlock t lock = Inr lock1" using ok by (auto simp: thread_ok_def rw_unlock_def)
    then show ?thesis using 2 by (auto simp: guac_rwlock_release_lock_def Let_def set_key_def count_of_pack)
  next
    case 3
    have "unat (get_lock_count ?key - 1) < 2 ^ 60"
      using ok unat_pred [OF 3(1)] by (auto simp: thread_ok_def)
    then show ?thesis using 3 by (auto simp: guac_rwlock_release_lock_def Let_def set_key_def count_of_pack)
  qed (simp add: guac_rwlock_release_lock_def Let_def)
qed

section \<open>Properties\<close>

text \<open>
  C14. Mutual exclusion: in every state that any number of threads can reach, while one thread holds
  the write lock no other thread holds the lock in any way.
\<close>

theorem rwlock_mutual_exclusion:
  assumes "rw_reachable lock" "t \<noteq> u" "rw_waiting lock t = None" "rw_waiting lock u = None"
    and "get_lock_flag (rw_key lock t) = WRITE_LOCK"
  shows "get_lock_flag (rw_key lock u) = NO_LOCK"
proof -
  note inv = reachable_inv [OF assms(1)]
  have w: "rw_writer lock = Some t"
    using lock_inv_thread [OF inv, of t] assms(3,5) by (auto simp: thread_ok_def)
  then have "rw_readers lock = []" using inv by (simp add: lock_inv_def)
  then show ?thesis
    using lock_inv_thread [OF inv, of u] assms(2,4) w by (auto simp: thread_ok_def)
qed

theorem rwlock_mutual_exclusion_witness:
  "get_lock_flag (rw_key (write_lock_granted 0 (guac_rwlock_init\<lparr>rw_waiting := (\<lambda>_. None)(0 := Some For_write)\<rparr>)) 1) = NO_LOCK"
proof -
  let ?a = "guac_rwlock_init\<lparr>rw_waiting := (\<lambda>_. None)(0 := Some For_write)\<rparr>"
  have "guac_rwlock_acquire_write_lock 0 guac_rwlock_init = Inr (None, ?a)"
    by (simp add: guac_rwlock_acquire_write_lock_def guac_rwlock_init_def would_overflow_iff get_lock_flag_def
        get_lock_count_def READ_LOCK_def WRITE_LOCK_def)
  then have "rw_reachable ?a"
    by (intro rw_reachable.step [OF rw_reachable.init] rw_step.call_write [of guac_rwlock_init 0 None])
      (simp_all add: guac_rwlock_init_def)
  then have r: "rw_reachable (write_lock_granted 0 ?a)"
    by (rule rw_reachable.step) (rule rw_step.grant_write, simp_all add: guac_rwlock_init_def)
  show ?thesis
    using rwlock_mutual_exclusion [OF r, of 0 1]
    by (simp add: write_lock_granted_def set_key_def guac_rwlock_init_def flag_of_pack)
qed

text \<open>
  Reentrancy: in every reachable state no call of a thread runs into an unlock of a lock it does
  not hold, a release reduces the depth of the thread by one, and a release without a matching
  acquisition is refused without effect.
\<close>

theorem rwlock_release_matches:
  assumes "rw_reachable lock" "rw_waiting lock t = None"
  shows "(\<exists>r lock'. guac_rwlock_acquire_write_lock t lock = Inr (r, lock')) \<and>
         (\<exists>r lock'. guac_rwlock_acquire_read_lock t lock = Inr (r, lock')) \<and>
         (\<exists>r lock'. guac_rwlock_release_lock t lock = Inr (Some r, lock') \<and>
            (if get_lock_count (rw_key lock t) = 0
             then r = (1, Some GUAC_STATUS_INVALID_ARGUMENT) \<and> lock' = lock
             else r = (0, None) \<and> get_lock_count (rw_key lock' t) = get_lock_count (rw_key lock t) - 1))"
  using release_depth [OF reachable_inv [OF assms(1)] assms(2)]
    acquire_write_inv [OF reachable_inv [OF assms(1)] assms(2)]
    acquire_read_inv [OF reachable_inv [OF assms(1)] assms(2)]
  by blast

theorem rwlock_release_matches_witness:
  "\<exists>lock'. guac_rwlock_release_lock 3 guac_rwlock_init = Inr (Some (1, Some GUAC_STATUS_INVALID_ARGUMENT), lock')"
  using rwlock_release_matches [OF rw_reachable.init, of 3]
  by (auto simp: guac_rwlock_init_def get_lock_count_def)

end
