(* ===== verification/CommonRect.thy ===== *)
theory CommonRect
  imports Prelude
begin

text \<open>
  Rectangles given by a corner and their dimensions (\<open>guac_common_rect\<close>, \<open>src/src/common/rect.c\<close>),
  as the drawing surfaces use them for their dirty areas: extending, constraining, aligning with
  the cells of an image encoder, and splitting off what a hole does not cover. Sums and differences
  are reduced with \<open>wrap32\<close>; \<open>rect_area\<close> is the set of pixels a rectangle stands for.
\<close>

section \<open>The rectangles and their operations\<close>

record guac_common_rect =
  rect_x :: int
  rect_y :: int
  rect_width :: int
  rect_height :: int

definition guac_common_rect_init :: "int \<Rightarrow> int \<Rightarrow> int \<Rightarrow> int \<Rightarrow> guac_common_rect" where
  "guac_common_rect_init x y width height =
     \<lparr>rect_x = x, rect_y = y, rect_width = width, rect_height = height\<rparr>"

text \<open>The sums \<open>x + width\<close> and \<open>y + height\<close> that every operation computes.\<close>

definition rect_right :: "guac_common_rect \<Rightarrow> int" where
  "rect_right r = wrap32 (rect_x r + rect_width r)"

definition rect_bottom :: "guac_common_rect \<Rightarrow> int" where
  "rect_bottom r = wrap32 (rect_y r + rect_height r)"

text \<open>The last step of the operations: a rectangle from its edges.\<close>

definition rect_of_edges :: "int \<Rightarrow> int \<Rightarrow> int \<Rightarrow> int \<Rightarrow> guac_common_rect" where
  "rect_of_edges l t r b = guac_common_rect_init l t (wrap32 (r - l)) (wrap32 (b - t))"

definition guac_common_rect_extend :: "guac_common_rect \<Rightarrow> guac_common_rect \<Rightarrow> guac_common_rect" where
  "guac_common_rect_extend rect least =
     rect_of_edges
       (if rect_x least < rect_x rect then rect_x least else rect_x rect)
       (if rect_y least < rect_y rect then rect_y least else rect_y rect)
       (if rect_right least > rect_right rect then rect_right least else rect_right rect)
       (if rect_bottom least > rect_bottom rect then rect_bottom least else rect_bottom rect)"

definition guac_common_rect_constrain :: "guac_common_rect \<Rightarrow> guac_common_rect \<Rightarrow> guac_common_rect" where
  "guac_common_rect_constrain rect most =
     rect_of_edges
       (if rect_x most > rect_x rect then rect_x most else rect_x rect)
       (if rect_y most > rect_y rect then rect_y most else rect_y rect)
       (if rect_right most < rect_right rect then rect_right most else rect_right rect)
       (if rect_bottom most < rect_bottom rect then rect_bottom most else rect_bottom rect)"

text \<open>
  The adjustment of one axis (the blocks "Adjust left/right" and "Adjust top/bottom" are the same
  code on different variables): shift an interval that leaves the bounds back into them, and clamp
  its other end when it does not fit.
\<close>

definition adjust_axis :: "int \<Rightarrow> int \<Rightarrow> int \<Rightarrow> int \<Rightarrow> int \<times> int" where
  "adjust_axis lo hi max_lo max_hi =
     (if hi > max_hi
      then
        let d = wrap32 (hi - max_hi);
            hi = wrap32 (hi - d);
            lo = wrap32 (lo - d)
        in (if lo < max_lo then max_lo else lo, hi)
      else if lo < max_lo
      then
        let d = wrap32 (max_lo - lo);
            lo = wrap32 (lo + d);
            hi = wrap32 (hi + d)
        in (lo, if hi > max_hi then max_hi else hi)
      else (lo, hi))"

definition guac_common_rect_expand_to_grid ::
  "int \<Rightarrow> guac_common_rect \<Rightarrow> guac_common_rect \<Rightarrow> int \<times> guac_common_rect" where
  "guac_common_rect_expand_to_grid cell_size rect max_rect =
     (if cell_size \<le> 0 then (-1, rect)
      else if cell_size = 1 then (0, rect)
      else
        let dw = wrap32 (cell_size - cmod (rect_width rect) cell_size);
            dh = wrap32 (cell_size - cmod (rect_height rect) cell_size);
            dx = cdiv dw 2;
            dy = cdiv dh 2;
            t = wrap32 (rect_y rect - dy);
            l = wrap32 (rect_x rect - dx);
            b = wrap32 (wrap32 (t + rect_height rect) + dh);
            r = wrap32 (wrap32 (l + rect_width rect) + dw);
            (l, r) = adjust_axis l r (rect_x max_rect) (rect_right max_rect);
            (t, b) = adjust_axis t b (rect_y max_rect) (rect_bottom max_rect)
        in (0, rect_of_edges l t r b))"

definition guac_common_rect_intersects :: "guac_common_rect \<Rightarrow> guac_common_rect \<Rightarrow> int" where
  "guac_common_rect_intersects rect other =
     (if rect_right other < rect_x rect \<or> rect_right rect < rect_x other \<or>
         rect_bottom other < rect_y rect \<or> rect_bottom rect < rect_y other then 0
      else if rect_x other \<le> rect_x rect \<and> rect_right other \<ge> rect_right rect \<and>
         rect_y other \<le> rect_y rect \<and> rect_bottom other \<ge> rect_bottom rect then 2
      else 1)"

text \<open>The result is \<open>None\<close> for 0, and the new rectangle with the part split off for 1.\<close>

definition guac_common_rect_clip_and_split ::
  "guac_common_rect \<Rightarrow> guac_common_rect \<Rightarrow> (guac_common_rect \<times> guac_common_rect) option" where
  "guac_common_rect_clip_and_split rect hole =
     (if guac_common_rect_intersects rect hole = 0 then None
      else if rect_y rect < rect_y hole
      then Some (rect_of_edges (rect_x rect) (rect_y hole) (rect_right rect) (rect_bottom rect),
                 rect_of_edges (rect_x rect) (rect_y rect) (rect_right rect) (rect_y hole))
      else if rect_x rect < rect_x hole
      then Some (rect_of_edges (rect_x hole) (rect_y rect) (rect_right rect) (rect_bottom rect),
                 rect_of_edges (rect_x rect) (rect_y rect) (rect_x hole) (rect_bottom rect))
      else if rect_bottom rect > rect_bottom hole
      then Some (rect_of_edges (rect_x rect) (rect_y rect) (rect_right rect) (rect_bottom hole),
                 rect_of_edges (rect_x rect) (rect_bottom hole) (rect_right rect) (rect_bottom rect))
      else if rect_right rect > rect_right hole
      then Some (rect_of_edges (rect_x rect) (rect_y rect) (rect_right hole) (rect_bottom rect),
                 rect_of_edges (rect_right hole) (rect_y rect) (rect_right rect) (rect_bottom rect))
      else None)"

section \<open>Edges and areas\<close>

lemma rect_of_edges_simps [simp]:
  "rect_x (rect_of_edges l t r b) = l" "rect_y (rect_of_edges l t r b) = t"
  "rect_right (rect_of_edges l t r b) = wrap32 r" "rect_bottom (rect_of_edges l t r b) = wrap32 b"
  by (simp_all add: rect_of_edges_def guac_common_rect_init_def rect_right_def rect_bottom_def)

lemma rect_edges_in_int [simp]: "in_int (rect_right r)" "in_int (rect_bottom r)"
  by (simp_all add: rect_right_def rect_bottom_def)

definition rect_area :: "guac_common_rect \<Rightarrow> (int \<times> int) set" where
  "rect_area r = {rect_x r..<rect_right r} \<times> {rect_y r..<rect_bottom r}"

lemma mem_rect_area [simp]:
  "(a, b) \<in> rect_area r \<longleftrightarrow> rect_x r \<le> a \<and> a < rect_right r \<and> rect_y r \<le> b \<and> b < rect_bottom r"
  by (auto simp: rect_area_def)

text \<open>A rectangle whose fields are \<open>int\<close>s.\<close>

definition rect_int :: "guac_common_rect \<Rightarrow> bool" where
  "rect_int r \<longleftrightarrow> in_int (rect_x r) \<and> in_int (rect_y r)"

lemma rect_int_in_int: "rect_int r \<Longrightarrow> in_int (rect_x r)" "rect_int r \<Longrightarrow> in_int (rect_y r)"
  by (simp_all add: rect_int_def)

lemma constrain_area: "rect_area (guac_common_rect_constrain r m) = rect_area r \<inter> rect_area m"
  by (auto simp: rect_area_def guac_common_rect_constrain_def)

lemma extend_area: "rect_area r \<union> rect_area m \<subseteq> rect_area (guac_common_rect_extend r m)"
  by (auto simp: rect_area_def guac_common_rect_extend_def)

text \<open>Two rectangles with a common pixel intersect; a rectangle inside the other gives 2.\<close>

lemma intersects_if_common:
  "rect_area r \<inter> rect_area s \<noteq> {} \<Longrightarrow> guac_common_rect_intersects r s \<noteq> 0"
  by (auto simp: rect_area_def guac_common_rect_intersects_def)

lemma intersects_inside:
  "guac_common_rect_intersects r s = 2 \<Longrightarrow> rect_area r \<subseteq> rect_area s"
  by (auto simp: rect_area_def guac_common_rect_intersects_def split: if_splits)

section \<open>Splitting off what a hole does not cover\<close>

lemma clip_and_split_partition:
  assumes "guac_common_rect_clip_and_split r hole = Some (r', s)" "rect_int hole"
    "rect_x hole \<le> rect_right hole" "rect_y hole \<le> rect_bottom hole"
  shows "rect_area r = rect_area r' \<union> rect_area s" "rect_area r' \<inter> rect_area s = {}"
    "rect_area s \<inter> rect_area hole = {}" "guac_common_rect_intersects r' hole \<noteq> 0"
  using assms
  by (auto simp: guac_common_rect_clip_and_split_def guac_common_rect_intersects_def rect_area_def
      rect_int_def split: if_splits)

lemma clip_and_split_done:
  assumes "guac_common_rect_clip_and_split r hole = None" "guac_common_rect_intersects r hole \<noteq> 0"
  shows "rect_area r \<subseteq> rect_area hole"
  using assms by (auto simp: guac_common_rect_clip_and_split_def rect_area_def split: if_splits)

text \<open>Every split removes one of the four sides on which the rectangle sticks out of the hole.\<close>

definition sides_out :: "guac_common_rect \<Rightarrow> guac_common_rect \<Rightarrow> nat" where
  "sides_out r hole =
     of_bool (rect_y r < rect_y hole) + of_bool (rect_x r < rect_x hole) +
     of_bool (rect_bottom r > rect_bottom hole) + of_bool (rect_right r > rect_right hole)"

lemma clip_and_split_sides:
  "guac_common_rect_clip_and_split r hole = Some (r', s) \<Longrightarrow> sides_out r' hole < sides_out r hole"
  by (auto simp: guac_common_rect_clip_and_split_def sides_out_def split: if_splits)

text \<open>The documented use: call the function until it returns 0 and collect what it splits off.\<close>

function clip_all :: "guac_common_rect \<Rightarrow> guac_common_rect \<Rightarrow> guac_common_rect list" where
  "clip_all r hole =
     (case guac_common_rect_clip_and_split r hole of None \<Rightarrow> [] | Some (r', s) \<Rightarrow> s # clip_all r' hole)"
  by auto
termination
  by (relation "measure (\<lambda>(r, hole). sides_out r hole)") (auto intro: clip_and_split_sides)

declare clip_all.simps [simp del]

lemma clip_all_length: "length (clip_all r hole) \<le> sides_out r hole"
proof (induction r hole rule: clip_all.induct)
  case (1 r hole)
  show ?case
  proof (cases "guac_common_rect_clip_and_split r hole")
    case None
    then show ?thesis by (simp add: clip_all.simps [of r])
  next
    case (Some p)
    obtain r' s where p: "p = (r', s)" by (cases p)
    then have "length (clip_all r' hole) \<le> sides_out r' hole" using 1 Some by simp
    then show ?thesis using clip_and_split_sides [of r hole r' s] Some p by (simp add: clip_all.simps [of r])
  qed
qed

lemma clip_all_cover:
  assumes "rect_int hole" "rect_x hole \<le> rect_right hole" "rect_y hole \<le> rect_bottom hole"
    and "guac_common_rect_intersects r hole \<noteq> 0"
  shows "(\<Union>s\<in>set (clip_all r hole). rect_area s) = rect_area r - rect_area hole"
  using assms
proof (induction r hole rule: clip_all.induct)
  case (1 r hole)
  show ?case
  proof (cases "guac_common_rect_clip_and_split r hole")
    case None
    then show ?thesis using clip_and_split_done [OF None] 1 by (auto simp: clip_all.simps [of r])
  next
    case (Some p)
    obtain r' s where p: "p = (r', s)" by (cases p)
    note part = clip_and_split_partition [OF Some [unfolded p] 1(2-4)]
    have "(\<Union>t\<in>set (clip_all r' hole). rect_area t) = rect_area r' - rect_area hole"
      using 1 Some p part(4) by simp
    then have "(\<Union>t\<in>set (clip_all r hole). rect_area t) = rect_area s \<union> (rect_area r' - rect_area hole)"
      using Some p by (simp add: clip_all.simps [of r])
    then show ?thesis using part by blast
  qed
qed

lemma clip_all_inside: "s \<in> set (clip_all r hole) \<Longrightarrow> rect_int hole \<Longrightarrow> rect_x hole \<le> rect_right hole \<Longrightarrow>
    rect_y hole \<le> rect_bottom hole \<Longrightarrow> rect_area s \<subseteq> rect_area r"
proof (induction r hole rule: clip_all.induct)
  case (1 r hole)
  show ?case
  proof (cases "guac_common_rect_clip_and_split r hole")
    case None
    then show ?thesis using 1 by (simp add: clip_all.simps [of r])
  next
    case (Some p)
    obtain r' s' where p: "p = (r', s')" by (cases p)
    note part = clip_and_split_partition [OF Some [unfolded p] 1(3-5)]
    have "s = s' \<or> s \<in> set (clip_all r' hole)" using 1(2) Some p by (simp add: clip_all.simps [of r])
    moreover have "s \<in> set (clip_all r' hole) \<Longrightarrow> rect_area s \<subseteq> rect_area r'"
      using 1(1) [OF Some p [symmetric]] 1(3-5) by blast
    ultimately show ?thesis using part(1) by blast
  qed
qed

lemma clip_all_disjoint:
  assumes "rect_int hole" "rect_x hole \<le> rect_right hole" "rect_y hole \<le> rect_bottom hole"
  shows "i < j \<Longrightarrow> j < length (clip_all r hole) \<Longrightarrow>
    rect_area (clip_all r hole ! i) \<inter> rect_area (clip_all r hole ! j) = {}"
  using assms
proof (induction r hole arbitrary: i j rule: clip_all.induct)
  case (1 r hole)
  show ?case
  proof (cases "guac_common_rect_clip_and_split r hole")
    case None
    then show ?thesis using 1 by (simp add: clip_all.simps [of r])
  next
    case (Some p)
    obtain r' s where p: "p = (r', s)" by (cases p)
    note part = clip_and_split_partition [OF Some [unfolded p] 1(4-6)]
    have c: "clip_all r hole = s # clip_all r' hole" using Some p by (simp add: clip_all.simps [of r])
    obtain k where j: "j = Suc k" "k < length (clip_all r' hole)" using 1(2,3) c by (cases j) auto
    show ?thesis
    proof (cases i)
      case 0
      have "rect_area (clip_all r' hole ! k) \<subseteq> rect_area r'"
        using clip_all_inside 1(4-6) j(2) nth_mem by blast
      then show ?thesis using 0 j c part(2) by auto
    next
      case (Suc m)
      then show ?thesis using 1(1) [OF Some p [symmetric], of m k] 1(2-6) j c p by simp
    qed
  qed
qed

section \<open>Expanding to the grid\<close>

lemma adjust_axis_run:
  assumes "in_int (lo - (hi - max_hi))" "in_int (hi + (max_lo - lo))" "in_int (hi - max_hi)" "in_int (max_lo - lo)"
    "in_int lo" "in_int hi" "in_int max_lo" "in_int max_hi"
  shows "adjust_axis lo hi max_lo max_hi =
    (if hi > max_hi then (max max_lo (lo - (hi - max_hi)), max_hi)
     else if lo < max_lo then (max_lo, min max_hi (hi + (max_lo - lo))) else (lo, hi))"
  using assms by (auto simp: adjust_axis_def Let_def)

text \<open>
  One axis: a segment of \<open>n\<close> pixels from \<open>p\<close> inside the bounds, grown by \<open>d\<close> pixels, half of
  them before it. The result is inside the bounds, covers the segment, and has the grown size
  whenever the bounds have room for it.
\<close>

lemma adjust_axis_grow:
  assumes bounds: "-536870912 \<le> max_lo" "max_lo \<le> p" "0 \<le> n" "p + n \<le> max_hi" "max_hi \<le> 536870912"
    and d: "0 < d" "d \<le> 536870912"
  obtains lo hi where "adjust_axis (p - d div 2) (p - d div 2 + n + d) max_lo max_hi = (lo, hi)"
    "max_lo \<le> lo" "lo \<le> p" "p + n \<le> hi" "hi \<le> max_hi" "n + d \<le> max_hi - max_lo \<Longrightarrow> hi - lo = n + d"
proof -
  define l where "l = p - d div 2"
  have l: "p - d \<le> l" "l \<le> p" "p \<le> l + d" using d unfolding l_def by linarith+
  have run: "adjust_axis l (l + n + d) max_lo max_hi =
    (if l + n + d > max_hi then (max max_lo (l - (l + n + d - max_hi)), max_hi)
     else if l < max_lo then (max_lo, min max_hi (l + n + d + (max_lo - l))) else (l, l + n + d))"
    by (rule adjust_axis_run; unfold in_int_bounds; rule conjI; use l bounds d in linarith)
  consider "l + n + d > max_hi" | "l + n + d \<le> max_hi" "l < max_lo" | "l + n + d \<le> max_hi" "max_lo \<le> l" by linarith
  then show thesis
  proof cases
    case 1
    then show thesis using run l bounds d by (intro that [unfolded l_def [symmetric]]) (simp, linarith+)
  next
    case 2
    then show thesis using run l bounds d by (intro that [unfolded l_def [symmetric]]) (simp, linarith+)
  next
    case 3
    then show thesis using run l bounds d by (intro that [unfolded l_def [symmetric]]) (simp, linarith+)
  qed
qed

text \<open>Fields for which no sum or difference of the code leaves the range of an \<open>int\<close>.\<close>

definition rect_small :: "guac_common_rect \<Rightarrow> bool" where
  "rect_small r \<longleftrightarrow>
     -536870912 \<le> rect_x r \<and> 0 \<le> rect_width r \<and> rect_x r + rect_width r \<le> 536870912 \<and>
     -536870912 \<le> rect_y r \<and> 0 \<le> rect_height r \<and> rect_y r + rect_height r \<le> 536870912"

lemma rect_small_edges:
  assumes "rect_small r"
  shows "rect_right r = rect_x r + rect_width r" "rect_bottom r = rect_y r + rect_height r" "rect_int r"
    "rect_x r \<le> rect_right r" "rect_y r \<le> rect_bottom r"
proof -
  have i: "in_int (rect_x r + rect_width r)" "in_int (rect_y r + rect_height r)" "rect_int r"
    using assms by (simp_all add: rect_small_def in_int_bounds rect_int_def)
  then show "rect_right r = rect_x r + rect_width r" "rect_bottom r = rect_y r + rect_height r" "rect_int r"
    by (simp_all add: rect_right_def rect_bottom_def)
  then show "rect_x r \<le> rect_right r" "rect_y r \<le> rect_bottom r"
    using assms by (simp_all add: rect_small_def)
qed

lemma expand_to_grid_run:
  fixes cell :: int
  assumes cell: "1 < cell" "cell \<le> 268435456" and r: "rect_small r" and m: "rect_small m"
    and inside: "rect_x m \<le> rect_x r" "rect_right r \<le> rect_right m" "rect_y m \<le> rect_y r" "rect_bottom r \<le> rect_bottom m"
  defines "gw \<equiv> rect_width r + (cell - rect_width r mod cell)"
    and "gh \<equiv> rect_height r + (cell - rect_height r mod cell)"
  obtains lo hi t b where "guac_common_rect_expand_to_grid cell r m = (0, rect_of_edges lo t hi b)"
    "rect_x m \<le> lo" "lo \<le> rect_x r" "rect_right r \<le> hi" "hi \<le> rect_right m"
    "rect_y m \<le> t" "t \<le> rect_y r" "rect_bottom r \<le> b" "b \<le> rect_bottom m"
    "gw \<le> rect_width m \<longrightarrow> hi - lo = gw" "gh \<le> rect_height m \<longrightarrow> b - t = gh"
proof -
  note e = rect_small_edges [OF r] rect_small_edges [OF m]
  define dw where "dw = cell - rect_width r mod cell"
  define dh where "dh = cell - rect_height r mod cell"
  have mods: "0 \<le> rect_width r mod cell" "rect_width r mod cell < cell"
    "0 \<le> rect_height r mod cell" "rect_height r mod cell < cell" using cell by simp_all
  have d: "0 < dw" "dw \<le> 268435456" "0 < dh" "dh \<le> 268435456"
    using mods cell unfolding dw_def dh_def by linarith+
  have nn: "0 \<le> rect_width r" "0 \<le> rect_height r" using r by (simp_all add: rect_small_def)
  have half: "0 \<le> dw div 2" "dw div 2 \<le> dw" "0 \<le> dh div 2" "dh div 2 \<le> dh" using d by linarith+
  have b: "-536870912 \<le> rect_x r" "rect_x r + rect_width r \<le> 536870912"
    "-536870912 \<le> rect_y r" "rect_y r + rect_height r \<le> 536870912" using r by (simp_all add: rect_small_def)
  have w: "in_int dw" "in_int dh" "in_int (rect_x r - dw div 2)" "in_int (rect_y r - dh div 2)"
    "in_int (rect_x r - dw div 2 + rect_width r)" "in_int (rect_y r - dh div 2 + rect_height r)"
    "in_int (rect_x r - dw div 2 + rect_width r + dw)" "in_int (rect_y r - dh div 2 + rect_height r + dh)"
    by (unfold in_int_bounds; rule conjI; use b d half nn in linarith)+
  obtain lo hi where x: "adjust_axis (rect_x r - dw div 2) (rect_x r - dw div 2 + rect_width r + dw) (rect_x m) (rect_right m) = (lo, hi)"
    "rect_x m \<le> lo" "lo \<le> rect_x r" "rect_x r + rect_width r \<le> hi" "hi \<le> rect_right m"
    "rect_width r + dw \<le> rect_right m - rect_x m \<Longrightarrow> hi - lo = rect_width r + dw"
    by (rule adjust_axis_grow [of "rect_x m" "rect_x r" "rect_width r" "rect_right m" dw])
      (use m e inside nn d in \<open>auto simp: rect_small_def\<close>)
  obtain t bt where y: "adjust_axis (rect_y r - dh div 2) (rect_y r - dh div 2 + rect_height r + dh) (rect_y m) (rect_bottom m) = (t, bt)"
    "rect_y m \<le> t" "t \<le> rect_y r" "rect_y r + rect_height r \<le> bt" "bt \<le> rect_bottom m"
    "rect_height r + dh \<le> rect_bottom m - rect_y m \<Longrightarrow> bt - t = rect_height r + dh"
    by (rule adjust_axis_grow [of "rect_y m" "rect_y r" "rect_height r" "rect_bottom m" dh])
      (use m e inside nn d in \<open>auto simp: rect_small_def\<close>)
  have "guac_common_rect_expand_to_grid cell r m = (0, rect_of_edges lo t hi bt)"
    using cell w nn d half x(1) y(1)
    by (simp add: guac_common_rect_expand_to_grid_def Let_def dw_def [symmetric] dh_def [symmetric])
  then show thesis
    by (rule that) (use x y e in \<open>simp_all add: gw_def gh_def dw_def [symmetric] dh_def [symmetric]\<close>)
qed

section \<open>Properties\<close>

text \<open>
  C30. Calling \<open>guac_common_rect_clip_and_split\<close> until it returns zero ends after at most four splits,
  whatever the fields of the rectangles (wrap-around included). When the rectangles intersect in the
  sense of the code and the hole has no negative dimension, the parts split off are pairwise disjoint
  and together are exactly the pixels of the rectangle outside the hole.
\<close>

theorem clip_and_split_terminates:
  shows "length (clip_all r hole) \<le> 4 \<and>
    (rect_int hole \<longrightarrow> rect_x hole \<le> rect_right hole \<longrightarrow> rect_y hole \<le> rect_bottom hole \<longrightarrow>
     guac_common_rect_intersects r hole \<noteq> 0 \<longrightarrow>
       (\<Union>s\<in>set (clip_all r hole). rect_area s) = rect_area r - rect_area hole \<and>
       (\<forall>i j. i < j \<longrightarrow> j < length (clip_all r hole) \<longrightarrow>
          rect_area (clip_all r hole ! i) \<inter> rect_area (clip_all r hole ! j) = {}))"
proof -
  have "sides_out r hole \<le> 4" by (simp add: sides_out_def of_bool_def)
  then show ?thesis using clip_all_length [of r hole] clip_all_cover clip_all_disjoint by (meson le_trans)
qed

theorem clip_and_split_terminates_witness:
  "(\<Union>s\<in>set (clip_all (guac_common_rect_init 0 0 10 10) (guac_common_rect_init 2 3 4 4)). rect_area s) =
     rect_area (guac_common_rect_init 0 0 10 10) - rect_area (guac_common_rect_init 2 3 4 4)"
  using clip_and_split_terminates [of "guac_common_rect_init 0 0 10 10" "guac_common_rect_init 2 3 4 4"]
  by (simp add: guac_common_rect_init_def rect_int_def rect_right_def rect_bottom_def in_int_bounds
      wrap32_def guac_common_rect_intersects_def)

text \<open>
  \<open>guac_common_rect_expand_to_grid\<close> succeeds on a rectangle inside the bounds: the result covers
  the rectangle, stays inside the bounds, and each of its dimensions is a multiple of the cell size
  whenever the bounds have room for the next multiple.
\<close>

theorem expand_to_grid_aligned:
  fixes cell :: int
  assumes "1 < cell" "cell \<le> 268435456" "rect_small r" "rect_small m"
    and "rect_x m \<le> rect_x r" "rect_right r \<le> rect_right m" "rect_y m \<le> rect_y r" "rect_bottom r \<le> rect_bottom m"
  shows "\<exists>r'. guac_common_rect_expand_to_grid cell r m = (0, r') \<and>
    rect_area r \<subseteq> rect_area r' \<and> rect_area r' \<subseteq> rect_area m \<and>
    (rect_width r + cell \<le> rect_width m \<longrightarrow> rect_width r' mod cell = 0) \<and>
    (rect_height r + cell \<le> rect_height m \<longrightarrow> rect_height r' mod cell = 0)"
proof -
  obtain lo hi t b where run: "guac_common_rect_expand_to_grid cell r m = (0, rect_of_edges lo t hi b)"
    and x: "rect_x m \<le> lo" "lo \<le> rect_x r" "rect_right r \<le> hi" "hi \<le> rect_right m"
    and y: "rect_y m \<le> t" "t \<le> rect_y r" "rect_bottom r \<le> b" "b \<le> rect_bottom m"
    and gw: "rect_width r + (cell - rect_width r mod cell) \<le> rect_width m \<longrightarrow>
        hi - lo = rect_width r + (cell - rect_width r mod cell)"
    and gh: "rect_height r + (cell - rect_height r mod cell) \<le> rect_height m \<longrightarrow>
        b - t = rect_height r + (cell - rect_height r mod cell)"
    by (rule expand_to_grid_run [OF assms])
  have mods: "0 \<le> rect_width r mod cell" "0 \<le> rect_height r mod cell" using assms(1) by simp_all
  note e = rect_small_edges [OF assms(3)] rect_small_edges [OF assms(4)]
  have i: "in_int hi" "in_int b" "in_int (hi - lo)" "in_int (b - t)"
    by (unfold in_int_bounds; rule conjI; use x y e assms(3,4) in \<open>simp add: rect_small_def; linarith\<close>)+
  have multiple: "(n + (cell - n mod cell)) mod cell = 0" for n
    by (metis add_diff_eq cancel_ab_semigroup_add_class.diff_right_commute diff_add_cancel minus_mod_eq_mult_div mod_add_self2 mod_mult_self1_is_0 diff_add_eq)
  have wd: "rect_width (rect_of_edges lo t hi b) = hi - lo" "rect_height (rect_of_edges lo t hi b) = b - t"
    using i by (simp_all add: rect_of_edges_def guac_common_rect_init_def)
  have "rect_area r \<subseteq> rect_area (rect_of_edges lo t hi b)" "rect_area (rect_of_edges lo t hi b) \<subseteq> rect_area m"
    using x y i by (auto simp: rect_area_def)
  moreover have "rect_width r + cell \<le> rect_width m \<longrightarrow> (hi - lo) mod cell = 0"
    using gw mods(1) multiple [of "rect_width r"] by auto
  moreover have "rect_height r + cell \<le> rect_height m \<longrightarrow> (b - t) mod cell = 0"
    using gh mods(2) multiple [of "rect_height r"] by auto
  ultimately show ?thesis using run wd by (intro exI [of _ "rect_of_edges lo t hi b"]) simp
qed

theorem expand_to_grid_aligned_witness:
  "\<exists>r'. guac_common_rect_expand_to_grid 8 (guac_common_rect_init 3 4 5 6) (guac_common_rect_init 0 0 100 100) = (0, r') \<and>
     rect_width r' mod 8 = 0"
  using expand_to_grid_aligned [of 8 "guac_common_rect_init 3 4 5 6" "guac_common_rect_init 0 0 100 100"]
  by (auto simp: guac_common_rect_init_def rect_small_def rect_right_def rect_bottom_def wrap32_def)

end
