(* ===== verification/Rect.thy ===== *)
theory Rect
  imports Prelude
begin

text \<open>
  Rectangles: \<open>guac_rect\<close> given by its edges (\<open>src/src/libguac/rect.c\<close>) and \<open>guac_common_rect\<close>
  given by a corner and its dimensions (\<open>src/src/common/rect.c\<close>). Every sum, difference and
  product of the code that may leave the range of \<open>int\<close> is reduced with \<open>wrap32\<close>; a division by
  zero is undefined. The pixels a rectangle covers are its abstraction.
\<close>

unbundle bit_operations_syntax

section \<open>Rectangles given by their edges\<close>

record guac_rect =
  left :: int
  top :: int
  right :: int
  bottom :: int

definition guac_rect_is_empty :: "guac_rect \<Rightarrow> bool" where
  "guac_rect_is_empty rect \<longleftrightarrow> right rect \<le> left rect \<or> bottom rect \<le> top rect"

definition guac_rect_init :: "int \<Rightarrow> int \<Rightarrow> int \<Rightarrow> int \<Rightarrow> guac_rect" where
  "guac_rect_init x y width height =
     \<lparr>left = x, top = y,
      right = (if width > 0 then wrap32 (x + width) else x),
      bottom = (if height > 0 then wrap32 (y + height) else y)\<rparr>"

definition guac_rect_extend :: "guac_rect \<Rightarrow> guac_rect \<Rightarrow> guac_rect" where
  "guac_rect_extend rect min_rect =
     (if guac_rect_is_empty rect then min_rect
      else
        \<lparr>left = (if left min_rect < left rect then left min_rect else left rect),
         top = (if top min_rect < top rect then top min_rect else top rect),
         right = (if right min_rect > right rect then right min_rect else right rect),
         bottom = (if bottom min_rect > bottom rect then bottom min_rect else bottom rect)\<rparr>)"

definition guac_rect_constrain :: "guac_rect \<Rightarrow> guac_rect \<Rightarrow> guac_rect" where
  "guac_rect_constrain rect max_rect =
     \<lparr>left = (if left max_rect > left rect then left max_rect else left rect),
      top = (if top max_rect > top rect then top max_rect else top rect),
      right = (if right max_rect < right rect then right max_rect else right rect),
      bottom = (if bottom max_rect < bottom rect then bottom max_rect else bottom rect)\<rparr>"

definition guac_rect_width :: "guac_rect \<Rightarrow> int" where
  "guac_rect_width rect = (let width = wrap32 (right rect - left rect) in if width > 0 then width else 0)"

definition guac_rect_height :: "guac_rect \<Rightarrow> int" where
  "guac_rect_height rect = (let height = wrap32 (bottom rect - top rect) in if height > 0 then height else 0)"

definition guac_rect_shrink :: "guac_rect \<Rightarrow> int \<Rightarrow> int \<Rightarrow> guac_rect result" where
  "guac_rect_shrink rect max_width max_height =
     (let original_width = guac_rect_width rect;
          original_height = guac_rect_height rect;
          max_width = (if original_width < max_width then original_width else max_width);
          max_height = (if original_height < max_height then original_height else max_height);
          (scale_numerator, scale_denominator) =
            (if wrap32 (max_width * original_height) < wrap32 (max_height * original_width)
             then (max_width, original_width) else (max_height, original_height))
      in defined (scale_denominator \<noteq> 0)
           (Inr (rect\<lparr>right := wrap32 (left rect + cdiv (wrap32 (original_width * scale_numerator)) scale_denominator),
                      bottom := wrap32 (top rect + cdiv (wrap32 (original_height * scale_numerator)) scale_denominator)\<rparr>)))"

definition RECT_ROUND_NEG :: "int \<Rightarrow> int \<Rightarrow> int" where
  "RECT_ROUND_NEG val msk = (val AND NOT msk)"

definition RECT_ROUND_POS :: "int \<Rightarrow> int \<Rightarrow> int" where
  "RECT_ROUND_POS val msk = (wrap32 (val + msk) AND NOT msk)"

text \<open>A shift of a 32-bit integer by 32 bits or more is undefined.\<close>

definition guac_rect_align :: "guac_rect \<Rightarrow> nat \<Rightarrow> guac_rect result" where
  "guac_rect_align rect bits =
     (if bits = 0 then Inr rect
      else defined (bits < 32)
        (let factor = wrap32 (push_bit bits 1); msk = wrap32 (factor - 1) in
         Inr \<lparr>left = RECT_ROUND_NEG (left rect) msk, top = RECT_ROUND_NEG (top rect) msk,
              right = RECT_ROUND_POS (right rect) msk, bottom = RECT_ROUND_POS (bottom rect) msk\<rparr>))"

definition guac_rect_intersects :: "guac_rect \<Rightarrow> guac_rect \<Rightarrow> bool" where
  "guac_rect_intersects a b \<longleftrightarrow>
     \<not> (right b \<le> left a \<or> right a \<le> left b \<or> bottom b \<le> top a \<or> bottom a \<le> top b)"

text \<open>The pixels a rectangle covers.\<close>

definition pixels :: "guac_rect \<Rightarrow> (int \<times> int) set" where
  "pixels rect = {left rect..<right rect} \<times> {top rect..<bottom rect}"

lemma mem_pixels [simp]:
  "(x, y) \<in> pixels rect \<longleftrightarrow> left rect \<le> x \<and> x < right rect \<and> top rect \<le> y \<and> y < bottom rect"
  by (auto simp: pixels_def)

lemma is_empty_pixels: "guac_rect_is_empty rect \<longleftrightarrow> pixels rect = {}"
  by (auto simp: guac_rect_is_empty_def pixels_def)

lemma constrain_pixels: "pixels (guac_rect_constrain rect max_rect) = pixels rect \<inter> pixels max_rect"
  by (auto simp: guac_rect_constrain_def pixels_def)

lemma extend_pixels: "pixels rect \<union> pixels min_rect \<subseteq> pixels (guac_rect_extend rect min_rect)"
proof (cases "guac_rect_is_empty rect")
  case True
  then show ?thesis by (simp add: is_empty_pixels guac_rect_extend_def)
next
  case False
  then show ?thesis by (auto simp: guac_rect_extend_def)
qed

lemma pixels_subset:
  "pixels a \<subseteq> pixels b \<longleftrightarrow>
     guac_rect_is_empty a \<or> left b \<le> left a \<and> top b \<le> top a \<and> right a \<le> right b \<and> bottom a \<le> bottom b"
proof (cases "guac_rect_is_empty a")
  case True
  then show ?thesis by (simp add: is_empty_pixels)
next
  case False
  then have c: "(left a, top a) \<in> pixels a" "(right a - 1, bottom a - 1) \<in> pixels a"
    by (auto simp: guac_rect_is_empty_def)
  show ?thesis
  proof
    assume "pixels a \<subseteq> pixels b"
    then have "(left a, top a) \<in> pixels b" "(right a - 1, bottom a - 1) \<in> pixels b" using c by blast+
    then show "guac_rect_is_empty a \<or> left b \<le> left a \<and> top b \<le> top a \<and> right a \<le> right b \<and> bottom a \<le> bottom b"
      by simp
  qed (use False in \<open>auto simp: pixels_def\<close>)
qed

lemma extend_least:
  assumes "pixels rect \<subseteq> pixels c" "pixels min_rect \<subseteq> pixels c" "\<not> guac_rect_is_empty min_rect"
  shows "pixels (guac_rect_extend rect min_rect) \<subseteq> pixels c"
  using assms by (auto simp: pixels_subset guac_rect_extend_def split: if_splits)

lemma intersects_pixels:
  assumes "\<not> guac_rect_is_empty a" "\<not> guac_rect_is_empty b"
  shows "guac_rect_intersects a b \<longleftrightarrow> pixels a \<inter> pixels b \<noteq> {}"
proof -
  have "pixels a \<inter> pixels b = pixels (guac_rect_constrain a b)" by (simp add: constrain_pixels)
  then have "pixels a \<inter> pixels b = {} \<longleftrightarrow> guac_rect_is_empty (guac_rect_constrain a b)"
    by (simp add: is_empty_pixels)
  then show ?thesis
    using assms by (auto simp: guac_rect_intersects_def guac_rect_is_empty_def guac_rect_constrain_def)
qed

section \<open>Shrinking and aligning\<close>

text \<open>Dimensions for which the products of the code stay within an \<open>int\<close>.\<close>

definition shrinkable :: "guac_rect \<Rightarrow> int \<Rightarrow> int \<Rightarrow> bool" where
  "shrinkable rect max_width max_height \<longleftrightarrow>
     in_int (right rect - left rect) \<and> in_int (bottom rect - top rect) \<and>
     right rect - left rect \<le> 262143 \<and> bottom rect - top rect \<le> 262143 \<and>
     0 < max_width \<and> max_width \<le> 8192 \<and> 0 < max_height \<and> max_height \<le> 8192"

lemma shrinkable_product:
  "0 \<le> a \<Longrightarrow> a \<le> 262143 \<Longrightarrow> 0 \<le> b \<Longrightarrow> b \<le> 8192 \<Longrightarrow> wrap32 (a * b) = a * b \<and> wrap32 (b * a) = b * a"
  for a b :: int
proof -
  assume "0 \<le> a" "a \<le> 262143" "0 \<le> b" "b \<le> 8192"
  then have "a * b \<le> 262143 * 8192" "0 \<le> a * b" using mult_mono [of a 262143 b 8192] by simp_all
  then have "in_int (a * b)" by (simp add: in_int_bounds)
  then show ?thesis by (simp add: mult.commute)
qed

lemma shrink_run:
  assumes "shrinkable rect mw mh"
  defines "w \<equiv> guac_rect_width rect" and "h \<equiv> guac_rect_height rect"
  defines "w1 \<equiv> min w mw" and "h1 \<equiv> min h mh"
  shows "guac_rect_shrink rect mw mh =
    (if h = 0 then Inl Undefined
     else if w1 * h < h1 * w
     then Inr (rect\<lparr>right := wrap32 (left rect + w1), bottom := wrap32 (top rect + h * w1 div w)\<rparr>)
     else Inr (rect\<lparr>right := wrap32 (left rect + w * h1 div h), bottom := wrap32 (top rect + h1)\<rparr>))"
proof -
  have b: "0 \<le> w" "w \<le> 262143" "0 \<le> h" "h \<le> 262143"
    using assms(1) by (auto simp: w_def h_def guac_rect_width_def guac_rect_height_def shrinkable_def Let_def)
  have m: "(if w < mw then w else mw) = w1" "(if h < mh then h else mh) = h1"
    by (auto simp: w1_def h1_def)
  have b1: "0 \<le> w1" "w1 \<le> 8192" "0 \<le> h1" "h1 \<le> 8192"
    using assms(1) b by (auto simp: w1_def h1_def shrinkable_def)
  note p = shrinkable_product [OF b(1,2) b1(1,2)] shrinkable_product [OF b(1,2) b1(3,4)]
    shrinkable_product [OF b(3,4) b1(1,2)] shrinkable_product [OF b(3,4) b1(3,4)]
  have zero: "h = 0 \<Longrightarrow> \<not> w1 * h < h1 * w" by (simp add: h1_def) (use assms(1) in \<open>auto simp: shrinkable_def\<close>)
  have "0 \<le> w1 * h" using b b1 by (intro mult_nonneg_nonneg)
  then have wpos: "w1 * h < h1 * w \<Longrightarrow> 0 < w"
    using b by (cases "w = 0") (simp, linarith)
  show ?thesis
    unfolding guac_rect_shrink_def Let_def w_def [symmetric] h_def [symmetric] m
    using b b1 p zero wpos by (auto simp: cdiv_nonneg)
qed

lemma width_height_at_origin:
  assumes "left rect = 0" "top rect = 0" "0 \<le> m" "m \<le> 262143" "0 \<le> n" "n \<le> 262143"
  shows "guac_rect_width (rect\<lparr>right := wrap32 (left rect + m), bottom := wrap32 (top rect + n)\<rparr>) = m"
    "guac_rect_height (rect\<lparr>right := wrap32 (left rect + m), bottom := wrap32 (top rect + n)\<rparr>) = n"
proof -
  have "in_int m" "in_int n" using assms by (simp_all add: in_int_bounds)
  then show "guac_rect_width (rect\<lparr>right := wrap32 (left rect + m), bottom := wrap32 (top rect + n)\<rparr>) = m"
    "guac_rect_height (rect\<lparr>right := wrap32 (left rect + m), bottom := wrap32 (top rect + n)\<rparr>) = n"
    using assms by (simp_all add: guac_rect_width_def guac_rect_height_def Let_def)
qed

text \<open>
  Shrinking a rectangle that is anchored at the origin: the result fits, keeps the side that decides
  the scale at its maximum, and is the original when that already fits.
\<close>

lemma shrink_fits:
  assumes ok: "shrinkable rect mw mh" and origin: "left rect = 0" "top rect = 0" and h: "0 < guac_rect_height rect"
  obtains rect' where "guac_rect_shrink rect mw mh = Inr rect'" "left rect' = 0" "top rect' = 0"
    "0 \<le> guac_rect_width rect'" "guac_rect_width rect' \<le> min (guac_rect_width rect) mw"
    "0 \<le> guac_rect_height rect'" "guac_rect_height rect' \<le> min (guac_rect_height rect) mh"
    "guac_rect_width rect \<le> mw \<longrightarrow> guac_rect_height rect \<le> mh \<longrightarrow>
       guac_rect_width rect' = guac_rect_width rect \<and> guac_rect_height rect' = guac_rect_height rect"
proof -
  define w where "w = guac_rect_width rect"
  define h where "h = guac_rect_height rect"
  define w1 where "w1 = min w mw"
  define h1 where "h1 = min h mh"
  note defs = w_def [symmetric] h_def [symmetric] w1_def [symmetric] h1_def [symmetric]
  have b: "0 \<le> w" "w \<le> 262143" "0 < h" "h \<le> 262143"
    using ok assms(4) by (auto simp: w_def h_def guac_rect_width_def guac_rect_height_def shrinkable_def Let_def)
  have b1: "0 \<le> w1" "w1 \<le> w" "w1 \<le> mw" "0 < h1" "h1 \<le> h" "h1 \<le> mh" "mw \<le> 8192" "mh \<le> 8192"
    using ok b by (auto simp: w1_def h1_def shrinkable_def)
  show thesis
  proof (cases "w1 * h < h1 * w")
    case True
    have "0 \<le> w1 * h" using b b1 by (intro mult_nonneg_nonneg) auto
    then have wpos: "0 < w" using True b by (cases "w = 0") (simp, linarith)
    define n where "n = h * w1 div w"
    have "h * w1 \<le> h1 * w" using True by (simp add: mult.commute)
    then have n: "0 \<le> n" "n \<le> h1"
      using wpos b b1 zdiv_mono1 [of "h * w1" "h1 * w" w] pos_imp_zdiv_nonneg_iff [of w "h * w1"]
      by (simp_all add: n_def)
    have run: "guac_rect_shrink rect mw mh =
        Inr (rect\<lparr>right := wrap32 (left rect + w1), bottom := wrap32 (top rect + n)\<rparr>)"
      using shrink_run [OF ok] True b by (simp add: defs n_def)
    have wh: "guac_rect_width (rect\<lparr>right := wrap32 (left rect + w1), bottom := wrap32 (top rect + n)\<rparr>) = w1"
      "guac_rect_height (rect\<lparr>right := wrap32 (left rect + w1), bottom := wrap32 (top rect + n)\<rparr>) = n"
      using b b1 n by (intro width_height_at_origin [OF origin]; linarith)+
    show thesis
    proof (rule that [OF run])
      show "guac_rect_width rect \<le> mw \<longrightarrow> guac_rect_height rect \<le> mh \<longrightarrow>
          guac_rect_width (rect\<lparr>right := wrap32 (left rect + w1), bottom := wrap32 (top rect + n)\<rparr>) = guac_rect_width rect \<and>
          guac_rect_height (rect\<lparr>right := wrap32 (left rect + w1), bottom := wrap32 (top rect + n)\<rparr>) = guac_rect_height rect"
      proof -
        have "\<not> (w \<le> mw \<and> h \<le> mh)" using True by (auto simp: w1_def h1_def mult.commute)
        then show ?thesis by (simp only: defs) blast
      qed
    qed (use wh origin b1 n in \<open>auto simp: defs\<close>)
  next
    case False
    define n where "n = w * h1 div h"
    have "w * h1 \<le> w1 * h" using False by (simp add: mult.commute)
    then have n: "0 \<le> n" "n \<le> w1"
      using b b1 zdiv_mono1 [of "w * h1" "w1 * h" h] pos_imp_zdiv_nonneg_iff [of h "w * h1"]
      by (simp_all add: n_def)
    have run: "guac_rect_shrink rect mw mh =
        Inr (rect\<lparr>right := wrap32 (left rect + n), bottom := wrap32 (top rect + h1)\<rparr>)"
      using shrink_run [OF ok] False b by (simp add: defs n_def)
    have wh: "guac_rect_width (rect\<lparr>right := wrap32 (left rect + n), bottom := wrap32 (top rect + h1)\<rparr>) = n"
      "guac_rect_height (rect\<lparr>right := wrap32 (left rect + n), bottom := wrap32 (top rect + h1)\<rparr>) = h1"
      using b b1 n by (intro width_height_at_origin [OF origin]; linarith)+
    show thesis
    proof (rule that [OF run])
      show "guac_rect_width rect \<le> mw \<longrightarrow> guac_rect_height rect \<le> mh \<longrightarrow>
          guac_rect_width (rect\<lparr>right := wrap32 (left rect + n), bottom := wrap32 (top rect + h1)\<rparr>) = guac_rect_width rect \<and>
          guac_rect_height (rect\<lparr>right := wrap32 (left rect + n), bottom := wrap32 (top rect + h1)\<rparr>) = guac_rect_height rect"
        unfolding wh using b by (simp add: defs) (simp add: n_def h1_def)
    qed (use wh origin b1 n in \<open>auto simp: defs\<close>)
  qed
qed

lemma shrink_origin:
  assumes "shrinkable \<lparr>left = 0, top = 0, right = a, bottom = b\<rparr> mw mh" "in_int a" "in_int b" "0 < b"
  shows "\<exists>r. guac_rect_shrink \<lparr>left = 0, top = 0, right = a, bottom = b\<rparr> mw mh = Inr r \<and>
    0 \<le> guac_rect_width r \<and> guac_rect_width r \<le> min (max 0 a) mw \<and>
    0 \<le> guac_rect_height r \<and> guac_rect_height r \<le> min b mh \<and>
    (a \<le> mw \<longrightarrow> b \<le> mh \<longrightarrow> guac_rect_width r = max 0 a \<and> guac_rect_height r = b)"
proof -
  define rect where "rect = \<lparr>left = 0, top = 0, right = a, bottom = b\<rparr>"
  have o: "left rect = 0" "guac_rect.top rect = 0" by (simp_all add: rect_def)
  have d: "guac_rect_width rect = max 0 a" "guac_rect_height rect = b"
    using assms by (simp_all add: rect_def guac_rect_width_def guac_rect_height_def Let_def)
  have "0 < guac_rect_height rect" using d assms by simp
  moreover have "0 < mw" using assms(1) by (simp add: shrinkable_def)
  ultimately show ?thesis
    by - (rule shrink_fits [OF assms(1) [folded rect_def] o], assumption, unfold rect_def [symmetric] d, rule exI, auto)
qed

lemma round_neg:
  fixes val :: int
  shows "RECT_ROUND_NEG val (2 ^ k - 1) = val - val mod 2 ^ k"
proof -
  have "val - take_bit k val = val AND NOT (take_bit k val)"
    by (rule disjunctive_diff) (simp add: bit_take_bit_iff)
  also have "\<dots> = val AND NOT (mask k)"
    by (rule bit_eqI) (auto simp: bit_simps)
  finally show ?thesis by (simp add: RECT_ROUND_NEG_def take_bit_eq_mod mask_eq_exp_minus_1)
qed

lemma round_pos:
  fixes val :: int
  assumes "in_int (val + (2 ^ k - 1))"
  shows "RECT_ROUND_POS val (2 ^ k - 1) = (val + (2 ^ k - 1)) - (val + (2 ^ k - 1)) mod 2 ^ k"
  using round_neg [of "val + (2 ^ k - 1)" k] assms by (simp add: RECT_ROUND_POS_def RECT_ROUND_NEG_def)

lemma align_run:
  assumes bits: "0 < bits" "bits < 31"
    and room: "in_int (right rect + (2 ^ bits - 1))" "in_int (bottom rect + (2 ^ bits - 1))"
  obtains rect' where "guac_rect_align rect bits = Inr rect'"
    "left rect' = left rect - left rect mod 2 ^ bits" "top rect' = top rect - top rect mod 2 ^ bits"
    "right rect' = right rect + (2 ^ bits - 1) - (right rect + (2 ^ bits - 1)) mod 2 ^ bits"
    "bottom rect' = bottom rect + (2 ^ bits - 1) - (bottom rect + (2 ^ bits - 1)) mod 2 ^ bits"
proof -
  have "(2 :: int) ^ bits \<le> 2 ^ 30" using bits by (intro power_increasing) auto
  moreover have "(0 :: int) < 2 ^ bits" by simp
  ultimately have b2: "0 < (2 :: int) ^ bits" "(2 :: int) ^ bits \<le> 1073741824" by simp_all
  have f: "in_int ((2 :: int) ^ bits)" "in_int ((2 :: int) ^ bits - 1)"
    unfolding in_int_bounds using b2 by (intro conjI; linarith)+
  have run: "guac_rect_align rect bits =
      Inr \<lparr>left = RECT_ROUND_NEG (left rect) (2 ^ bits - 1), top = RECT_ROUND_NEG (top rect) (2 ^ bits - 1),
           right = RECT_ROUND_POS (right rect) (2 ^ bits - 1), bottom = RECT_ROUND_POS (bottom rect) (2 ^ bits - 1)\<rparr>"
    using bits f by (simp add: guac_rect_align_def push_bit_eq_mult Let_def)
  show thesis
    by (rule that [OF run]) (simp_all add: round_neg round_pos [OF room(1)] round_pos [OF room(2)])
qed

section \<open>Properties\<close>

text \<open>
  C31. The operations on rectangles are the set operations on the pixels they cover: constraining is
  intersection, extending gives the smallest rectangle that contains both, and
  \<open>guac_rect_intersects\<close> of two non-empty rectangles holds exactly when they share a pixel.
\<close>

theorem rect_operations_are_set_operations:
  "pixels (guac_rect_constrain a b) = pixels a \<inter> pixels b \<and>
   pixels a \<union> pixels b \<subseteq> pixels (guac_rect_extend a b) \<and>
   (\<not> guac_rect_is_empty b \<longrightarrow> pixels a \<subseteq> pixels c \<longrightarrow> pixels b \<subseteq> pixels c \<longrightarrow>
      pixels (guac_rect_extend a b) \<subseteq> pixels c) \<and>
   (\<not> guac_rect_is_empty a \<longrightarrow> \<not> guac_rect_is_empty b \<longrightarrow>
      guac_rect_intersects a b = (pixels a \<inter> pixels b \<noteq> {}))"
  using constrain_pixels extend_pixels extend_least intersects_pixels by metis

theorem rect_operations_are_set_operations_witness:
  "guac_rect_intersects (guac_rect_init 0 0 4 4) (guac_rect_init 3 3 5 5) =
     (pixels (guac_rect_init 0 0 4 4) \<inter> pixels (guac_rect_init 3 3 5 5) \<noteq> {}) \<and>
   pixels (guac_rect_extend (guac_rect_init 0 0 4 4) (guac_rect_init 3 3 5 5)) \<subseteq> pixels (guac_rect_init 0 0 9 9)"
  using rect_operations_are_set_operations
    [of "guac_rect_init 0 0 4 4" "guac_rect_init 3 3 5 5" "guac_rect_init 0 0 9 9"]
  by (simp add: guac_rect_init_def guac_rect_is_empty_def guac_rect_extend_def in_int_bounds pixels_subset)

text \<open>
  \<open>guac_rect_align\<close> gives the smallest rectangle with edges on the grid of cells of
  \<open>2 ^ bits\<close> pixels that contains the given one.
\<close>

theorem rect_align_least:
  assumes "0 < bits" "bits < 31"
    and "in_int (right rect + (2 ^ bits - 1))" "in_int (bottom rect + (2 ^ bits - 1))"
  shows "\<exists>r. guac_rect_align rect bits = Inr r \<and>
    (\<forall>e \<in> {left r, guac_rect.top r, right r, bottom r}. e mod 2 ^ bits = 0) \<and>
    left r \<in> {left rect - 2 ^ bits<..left rect} \<and> guac_rect.top r \<in> {guac_rect.top rect - 2 ^ bits<..guac_rect.top rect} \<and>
    right r \<in> {right rect..<right rect + 2 ^ bits} \<and> bottom r \<in> {bottom rect..<bottom rect + 2 ^ bits}"
proof -
  obtain r where r: "guac_rect_align rect bits = Inr r"
    "left r = left rect - left rect mod 2 ^ bits" "guac_rect.top r = guac_rect.top rect - guac_rect.top rect mod 2 ^ bits"
    "right r = right rect + (2 ^ bits - 1) - (right rect + (2 ^ bits - 1)) mod 2 ^ bits"
    "bottom r = bottom rect + (2 ^ bits - 1) - (bottom rect + (2 ^ bits - 1)) mod 2 ^ bits"
    by (rule align_run [OF assms])
  define d where "d = (2 :: int) ^ bits"
  have d: "0 < d" by (simp add: d_def)
  have m: "0 \<le> e mod d" "e mod d < d" "(e - e mod d) mod d = 0" for e
    using d by (simp_all add: minus_mod_eq_mult_div)
  have "\<forall>e \<in> {left r, guac_rect.top r, right r, bottom r}. e mod d = 0"
    using r m by (simp add: d_def)
  moreover have "left rect - d < left r \<and> left r \<le> left rect" "guac_rect.top rect - d < guac_rect.top r \<and> guac_rect.top r \<le> guac_rect.top rect"
    using r(2,3) m [of "left rect"] m [of "guac_rect.top rect"] by (simp_all add: d_def)
  moreover have "right rect \<le> right r \<and> right r < right rect + d"
    using r(4) [folded d_def] m(1,2) [of "right rect + (d - 1)"] by linarith
  moreover have "bottom rect \<le> bottom r \<and> bottom r < bottom rect + d"
    using r(5) [folded d_def] m(1,2) [of "bottom rect + (d - 1)"] by linarith
  ultimately show ?thesis using r(1) unfolding d_def by auto
qed

theorem rect_align_least_witness:
  "\<exists>r. guac_rect_align \<lparr>left = 3, top = -3, right = 70, bottom = 64\<rparr> 6 = Inr r \<and> right r mod 2 ^ 6 = 0"
  using rect_align_least [of 6 "\<lparr>left = 3, top = -3, right = 70, bottom = 64\<rparr>"]
  by (auto simp: in_int_bounds)

end
