(* ===== verification/Resize.thy ===== *)
theory Resize
  imports Rect
begin

text \<open>
  Resizing the remote display. A "size" instruction of a user reaches
  \<open>guac_rdp_user_size_handler\<close> (\<open>src/src/protocols/rdp/input.c\<close>), which fits the requested size to
  what RDP allows and stores it in the display update module (\<open>src/src/protocols/rdp/channels/disp.c\<close>);
  the module sends it, at most once per interval, when the connection asks for an update. The
  corresponding code for VNC is \<open>guac_vnc_display_set_size\<close> (\<open>src/src/protocols/vnc/display.c\<close>).

  The size FreeRDP currently has is an argument (\<open>None\<close> when there is no RDP instance), the clock
  an argument \<open>now\<close>, and the layouts handed to the channel plugin are the list that the operations
  return. The parts of \<open>guac_rdp_settings\<close> that matter here are in \<open>rdp_size_settings\<close>.

  The handler runs in the thread of the user, the updates and the callbacks in that of the connection, and
  no lock protects the module. The operations are therefore modelled twice: each as one step, and
  as sequences of single accesses to the shared memory, which threads interleave in any order. Accesses to one
  variable are taken to be atomic and to occur in the order of the program.
\<close>

section \<open>The display update module\<close>

definition GUAC_RDP_DISP_MIN_SIZE :: int where "GUAC_RDP_DISP_MIN_SIZE = 200"
definition GUAC_RDP_DISP_MAX_SIZE :: int where "GUAC_RDP_DISP_MAX_SIZE = 8192"
definition GUAC_RDP_DISP_UPDATE_INTERVAL :: int where "GUAC_RDP_DISP_UPDATE_INTERVAL = 500"

datatype guac_rdp_resize_method =
    GUAC_RESIZE_NONE
  | GUAC_RESIZE_DISPLAY_UPDATE
  | GUAC_RESIZE_RECONNECT

record rdp_size_settings =
  set_width :: int
  set_height :: int
  resolution :: int
  resize_method :: guac_rdp_resize_method

text \<open>\<open>disp_channel\<close> says that the pointer \<open>disp\<close> to the channel plugin is not null.\<close>

record guac_rdp_disp =
  disp_channel :: bool
  last_request :: int
  requested_width :: int
  requested_height :: int
  reconnect_needed :: bool


type_synonym resize_state = "guac_rdp_disp \<times> rdp_size_settings"

definition guac_rdp_disp_update_size ::
  "int \<Rightarrow> (int \<times> int) option \<Rightarrow> resize_state \<Rightarrow> (int \<times> int) list \<times> resize_state" where
  "guac_rdp_disp_update_size now rdp_inst st =
     (let (disp, settings) = st;
          width = requested_width disp;
          height = requested_height disp
      in if width = 0 \<or> height = 0 then ([], st)
         else if now - last_request disp \<le> GUAC_RDP_DISP_UPDATE_INTERVAL then ([], st)
         else if rdp_inst = Some (width, height) then ([], st)
         else
           let disp = disp\<lparr>last_request := now\<rparr> in
           (case resize_method settings of
              GUAC_RESIZE_RECONNECT \<Rightarrow>
                ([], (disp\<lparr>reconnect_needed := True\<rparr>, settings\<lparr>set_width := width, set_height := height\<rparr>))
            | GUAC_RESIZE_DISPLAY_UPDATE \<Rightarrow>
                (if disp_channel disp then [(width, height)] else [], (disp, settings))
            | GUAC_RESIZE_NONE \<Rightarrow> ([], (disp, settings))))"

text \<open>The size \<open>guac_rdp_disp_set_size\<close> requests for a given one.\<close>

definition rdp_fit_size :: "int \<Rightarrow> int \<Rightarrow> (int \<times> int) result" where
  "rdp_fit_size width height =
     bindr (guac_rect_shrink \<lparr>left = 0, top = 0, right = width, bottom = height\<rparr>
             GUAC_RDP_DISP_MAX_SIZE GUAC_RDP_DISP_MAX_SIZE)
       (\<lambda>resize.
          let width = guac_rect_width resize;
              height = guac_rect_height resize;
              width = (if width < GUAC_RDP_DISP_MIN_SIZE then GUAC_RDP_DISP_MIN_SIZE else width);
              height = (if height < GUAC_RDP_DISP_MIN_SIZE then GUAC_RDP_DISP_MIN_SIZE else height);
              width = (if cmod width 2 = 1 then width - 1 else width)
          in Inr (width, height))"

definition guac_rdp_disp_set_size ::
  "int \<Rightarrow> (int \<times> int) option \<Rightarrow> int \<Rightarrow> int \<Rightarrow> resize_state \<Rightarrow> ((int \<times> int) list \<times> resize_state) result" where
  "guac_rdp_disp_set_size now rdp_inst width height st =
     bindr (rdp_fit_size width height)
       (\<lambda>(w, h). Inr (guac_rdp_disp_update_size now rdp_inst
          ((fst st)\<lparr>requested_width := w, requested_height := h\<rparr>, snd st)))"

definition guac_rdp_user_size_handler ::
  "int \<Rightarrow> int \<Rightarrow> (int \<times> int) option \<Rightarrow> int \<Rightarrow> int \<Rightarrow> resize_state \<Rightarrow> ((int \<times> int) list \<times> resize_state) result" where
  "guac_rdp_user_size_handler optimal_resolution now rdp_inst width height st =
     defined (optimal_resolution \<noteq> 0)
       (guac_rdp_disp_set_size now rdp_inst
          (cdiv (wrap32 (width * resolution (snd st))) optimal_resolution)
          (cdiv (wrap32 (height * resolution (snd st))) optimal_resolution) st)"



definition guac_rdp_disp_reconnect_needed :: "int option \<Rightarrow> bool \<Rightarrow> resize_state \<Rightarrow> bool" where
  "guac_rdp_disp_reconnect_needed open_files active_job st =
     (if (case open_files of None \<Rightarrow> False | Some n \<Rightarrow> n > 0) then False
      else if active_job then False
      else reconnect_needed (fst st))"


section \<open>VNC\<close>

definition GUAC_DISPLAY_MAX_WIDTH :: int where "GUAC_DISPLAY_MAX_WIDTH = 8192"
definition GUAC_DISPLAY_MAX_HEIGHT :: int where "GUAC_DISPLAY_MAX_HEIGHT = 8192"

text \<open>The size sent to the VNC server; \<open>None\<close> when the request is ignored.\<close>

definition guac_vnc_display_set_size :: "int \<Rightarrow> int \<Rightarrow> (int \<times> int) option result" where
  "guac_vnc_display_set_size req_width req_height =
     bindr (guac_rect_shrink \<lparr>left = 0, top = 0, right = req_width, bottom = req_height\<rparr>
             GUAC_DISPLAY_MAX_WIDTH GUAC_DISPLAY_MAX_HEIGHT)
       (\<lambda>resize.
          let width = guac_rect_width resize; height = guac_rect_height resize in
          Inr (if width \<le> 0 \<or> height \<le> 0 then None else Some (width, height)))"

section \<open>Fitting the size\<close>

lemmas resize_constants = GUAC_RDP_DISP_MIN_SIZE_def GUAC_RDP_DISP_MAX_SIZE_def
  GUAC_RDP_DISP_UPDATE_INTERVAL_def GUAC_DISPLAY_MAX_WIDTH_def GUAC_DISPLAY_MAX_HEIGHT_def

lemma origin_dimensions:
  assumes "in_int w" "in_int h"
  shows "guac_rect_width \<lparr>left = 0, top = 0, right = w, bottom = h\<rparr> = max 0 w"
    "guac_rect_height \<lparr>left = 0, top = 0, right = w, bottom = h\<rparr> = max 0 h"
  using assms by (simp_all add: guac_rect_width_def guac_rect_height_def Let_def)



lemma rdp_fit_size_undefined: "in_int w \<Longrightarrow> in_int h \<Longrightarrow> h \<le> 0 \<Longrightarrow> rdp_fit_size w h = Inl Undefined"
  using origin_dimensions [of w h] by (simp add: rdp_fit_size_def guac_rect_shrink_def Let_def resize_constants)

section \<open>Runs of the module\<close>













section \<open>Interleaved calls\<close>

text \<open>
  Where a thread is in \<open>guac_rdp_disp_set_size\<close> and \<open>guac_rdp_disp_update_size\<close>, with its local
  variables: the next access to memory that is shared.
\<close>

datatype resize_pc =
    Store_width int int
  | Store_height int
  | Load_width
  | Load_height int
  | Load_last_request int int
  | Store_last_request int int int
  | Choose_method int int
  | Store_settings_width int int
  | Store_settings_height int
  | Store_reconnect_needed
  | Send_layout int int

text \<open>One access; \<open>None\<close> when the call returns.\<close>

fun resize_access ::
  "int \<Rightarrow> (int \<times> int) option \<Rightarrow> resize_pc \<Rightarrow> resize_state \<Rightarrow> resize_pc option \<times> (int \<times> int) list \<times> resize_state" where
  "resize_access now inst (Store_width w h) (disp, settings) = (Some (Store_height h), [], (disp\<lparr>requested_width := w\<rparr>, settings))"
| "resize_access now inst (Store_height h) (disp, settings) = (Some Load_width, [], (disp\<lparr>requested_height := h\<rparr>, settings))"
| "resize_access now inst Load_width (disp, settings) = (Some (Load_height (requested_width disp)), [], (disp, settings))"
| "resize_access now inst (Load_height w) (disp, settings) =
     (let h = requested_height disp
      in (if w = 0 \<or> h = 0 then None else Some (Load_last_request w h), [], (disp, settings)))"
| "resize_access now inst (Load_last_request w h) (disp, settings) =
     (if now - last_request disp \<le> GUAC_RDP_DISP_UPDATE_INTERVAL then None
      else if inst = Some (w, h) then None
      else Some (Store_last_request w h now), [], (disp, settings))"
| "resize_access now inst (Store_last_request w h t) (disp, settings) =
     (Some (Choose_method w h), [], (disp\<lparr>last_request := t\<rparr>, settings))"
| "resize_access now inst (Choose_method w h) (disp, settings) =
     (case resize_method settings of
        GUAC_RESIZE_RECONNECT \<Rightarrow> Some (Store_settings_width w h)
      | GUAC_RESIZE_DISPLAY_UPDATE \<Rightarrow> Some (Send_layout w h)
      | GUAC_RESIZE_NONE \<Rightarrow> None, [], (disp, settings))"
| "resize_access now inst (Store_settings_width w h) (disp, settings) =
     (Some (Store_settings_height h), [], (disp, settings\<lparr>set_width := w\<rparr>))"
| "resize_access now inst (Store_settings_height h) (disp, settings) =
     (Some Store_reconnect_needed, [], (disp, settings\<lparr>set_height := h\<rparr>))"
| "resize_access now inst Store_reconnect_needed (disp, settings) = (None, [], (disp\<lparr>reconnect_needed := True\<rparr>, settings))"
| "resize_access now inst (Send_layout w h) (disp, settings) =
     (None, if disp_channel disp then [(w, h)] else [], (disp, settings))"

text \<open>A call that no other thread interrupts.\<close>

fun run_alone ::
  "nat \<Rightarrow> int \<Rightarrow> (int \<times> int) option \<Rightarrow> resize_pc \<Rightarrow> resize_state \<Rightarrow> ((int \<times> int) list \<times> resize_state) option" where
  "run_alone 0 now inst pc st = None"
| "run_alone (Suc n) now inst pc st =
     (case resize_access now inst pc st of
        (None, sent, st) \<Rightarrow> Some (sent, st)
      | (Some pc, sent, st) \<Rightarrow> map_option (\<lambda>(more_sent, st). (sent @ more_sent, st)) (run_alone n now inst pc st))"

text \<open>It does what the operation as one step does.\<close>

lemma run_alone_update:
  "run_alone 8 now inst Load_width st = Some (guac_rdp_disp_update_size now inst st)"
  by (cases st)
    (auto simp: eval_nat_numeral guac_rdp_disp_update_size_def Let_def split: guac_rdp_resize_method.splits)

lemma run_alone_set:
  assumes "rdp_fit_size width height = Inr (w, h)"
  shows "guac_rdp_disp_set_size now inst width height st = Inr (the (run_alone 10 now inst (Store_width w h) st))"
proof -
  have "run_alone 10 now inst (Store_width w h) st =
      run_alone 8 now inst Load_width ((fst st)\<lparr>requested_width := w, requested_height := h\<rparr>, snd st)"
    by (cases st) (simp add: eval_nat_numeral option.map_ident case_prod_unfold)
  then show ?thesis by (simp add: guac_rdp_disp_set_size_def assms run_alone_update)
qed



















section \<open>Properties\<close>



text \<open>
  A size of no height makes \<open>guac_rect_shrink\<close> divide by zero, for RDP and for VNC, and so does a user
  whose handshake announced a resolution of zero.
\<close>

lemma user_size_undefined:
  assumes "in_int w" "in_int h" "h \<le> 0"
  shows "guac_rdp_disp_set_size now inst w h st = Inl Undefined"
    "guac_vnc_display_set_size w h = Inl Undefined"
    "guac_rdp_user_size_handler 0 now inst w h st = Inl Undefined"
  using assms origin_dimensions [of w h]
  by (simp_all add: guac_rdp_disp_set_size_def rdp_fit_size_undefined guac_vnc_display_set_size_def
      guac_rdp_user_size_handler_def guac_rect_shrink_def Let_def resize_constants)

end
