(* ===== verification/TermBuffer.thy ===== *)
theory TermBuffer
  imports Prelude
begin

text \<open>
  The character buffer of the terminal emulator (\<open>src/src/terminal/buffer.c\<close>, with the types of
  \<open>terminal/types.h\<close> and \<open>terminal/palette.h\<close> and the range check of \<open>common.c\<close>): a ring of rows, each
  an array of character cells in which a character of several columns is followed by continuation
  cells. The operations that write columns repair the characters they cut in two
  (\<open>guac_terminal_buffer_force_break\<close>), which calls back into \<open>guac_terminal_buffer_set_columns\<close>; the
  mutual recursion is modelled with fuel, and \<open>force_break_prefix\<close> below shows how much is enough.

  A row is its allocated array \<open>characters\<close> (cells beyond \<open>row_length\<close> included, since the code can
  read them) and a buffer its array of rows with the index of the first one. Row and column numbers
  are \<open>int\<close>s; where the code compares or combines them with \<open>unsigned int\<close>s, the conversion is written
  out with \<open>u32_of\<close>. Running out of memory in \<open>guac_mem_realloc_or_die\<close> is left out.
\<close>

section \<open>Cells, rows and buffers\<close>

record guac_terminal_color =
  palette_index :: int
  color_red :: u8
  color_green :: u8
  color_blue :: u8

record guac_terminal_attributes =
  attr_bold :: bool
  attr_half_bright :: bool
  attr_cursor :: bool
  attr_reverse :: bool
  attr_underscore :: bool
  attr_foreground :: guac_terminal_color
  attr_background :: guac_terminal_color

record guac_terminal_char =
  char_value :: int
  char_attributes :: guac_terminal_attributes
  char_width :: int

definition GUAC_CHAR_CONTINUATION :: int where "GUAC_CHAR_CONTINUATION = -1"
definition GUAC_TERMINAL_MAX_ROWS :: int where "GUAC_TERMINAL_MAX_ROWS = 1024"
definition GUAC_TERMINAL_MAX_COLUMNS :: int where "GUAC_TERMINAL_MAX_COLUMNS = 1024"
definition GUAC_TERMINAL_BUFFER_ROW_MIN_SIZE :: nat where "GUAC_TERMINAL_BUFFER_ROW_MIN_SIZE = 256"

type_synonym cells = "guac_terminal_char list"

record guac_terminal_buffer_row =
  characters :: cells
  row_length :: nat
  wrapped_row :: bool

record guac_terminal_buffer =
  default_character :: guac_terminal_char
  buffer_rows :: "guac_terminal_buffer_row list"
  buffer_top :: nat
  buffer_length :: nat

text \<open>The value of an \<open>int\<close> converted to \<open>unsigned int\<close>.\<close>

definition u32_of :: "int \<Rightarrow> nat" where
  "u32_of x = nat (x mod 4294967296)"

lemma u32_of_nonneg [simp]: "0 \<le> x \<Longrightarrow> x < 4294967296 \<Longrightarrow> u32_of x = nat x"
  by (simp add: u32_of_def)

definition guac_terminal_fit_to_range :: "int \<Rightarrow> int \<Rightarrow> int \<Rightarrow> int result" where
  "guac_terminal_fit_to_range v lo hi =
     guac_assert (lo \<le> hi) (Inr (if v < lo then lo else if v > hi then hi else v))"

definition guac_terminal_has_glyph :: "int \<Rightarrow> bool" where
  "guac_terminal_has_glyph codepoint \<longleftrightarrow>
     codepoint \<noteq> 0 \<and> codepoint \<noteq> 32 \<and> codepoint \<noteq> GUAC_CHAR_CONTINUATION"

section \<open>Allocation and rows\<close>

text \<open>The cells of a newly allocated row hold whatever was in memory (\<open>junk\<close>).\<close>

definition guac_terminal_buffer_alloc ::
  "guac_terminal_char \<Rightarrow> nat \<Rightarrow> guac_terminal_char \<Rightarrow> guac_terminal_buffer" where
  "guac_terminal_buffer_alloc junk n dflt =
     \<lparr>default_character = dflt,
      buffer_rows = replicate n \<lparr>characters = replicate GUAC_TERMINAL_BUFFER_ROW_MIN_SIZE junk,
                                 row_length = 0, wrapped_row = False\<rparr>,
      buffer_top = 0, buffer_length = 0\<rparr>"

definition guac_terminal_buffer_reset :: "guac_terminal_buffer \<Rightarrow> guac_terminal_buffer" where
  "guac_terminal_buffer_reset buf = buf\<lparr>buffer_top := 0, buffer_length := 0\<rparr>"

text \<open>The index of a row within the ring, \<open>None\<close> for the null pointer.\<close>

definition guac_terminal_buffer_get_row :: "guac_terminal_buffer \<Rightarrow> int \<Rightarrow> nat option" where
  "guac_terminal_buffer_get_row buf row =
     (if u32_of \<bar>row\<bar> \<ge> length (buffer_rows buf) then None
      else Some (u32_of (int (buffer_top buf) + row) mod length (buffer_rows buf)))"

function round_up :: "nat \<Rightarrow> nat \<Rightarrow> nat" where
  "round_up rounded v = (if 0 < rounded \<and> rounded < v then round_up (2 * rounded) v else rounded)"
  by auto
termination by (relation "measure (\<lambda>(rounded, v). v - rounded)") auto

declare round_up.simps [simp del]

definition guac_terminal_buffer_row_length :: "int \<Rightarrow> nat result" where
  "guac_terminal_buffer_row_length v =
     guac_assert (v \<ge> 0) (guac_assert (v \<le> GUAC_TERMINAL_MAX_COLUMNS)
       (Inr (round_up GUAC_TERMINAL_BUFFER_ROW_MIN_SIZE (nat v))))"

text \<open>
  \<open>realloc\<close> keeps the old cells; those it adds are overwritten at once, like every cell from
  \<open>row_length\<close> on.
\<close>

definition guac_terminal_buffer_row_expand ::
  "guac_terminal_buffer_row \<Rightarrow> int \<Rightarrow> guac_terminal_char \<Rightarrow> guac_terminal_buffer_row result" where
  "guac_terminal_buffer_row_expand row len dflt =
     (if u32_of len \<le> row_length row then Inr row
      else
        let len = (if len > GUAC_TERMINAL_MAX_COLUMNS then GUAC_TERMINAL_MAX_COLUMNS else len) in
        bindr (if u32_of len > length (characters row) then guac_terminal_buffer_row_length len
               else Inr (length (characters row)))
          (\<lambda>available. Inr (row\<lparr>characters := take (row_length row) (characters row) @
                                             replicate (available - row_length row) dflt,
                                row_length := u32_of len\<rparr>)))"

section \<open>Breaking characters at an edge\<close>

abbreviation continuation :: "guac_terminal_char \<Rightarrow> bool" where
  "continuation c \<equiv> char_value c = GUAC_CHAR_CONTINUATION"

text \<open>"Determine start column": walk left over continuation cells.\<close>

fun scan_start :: "cells \<Rightarrow> nat \<Rightarrow> nat" where
  "scan_start cs 0 = 0"
| "scan_start cs (Suc i) = (if continuation (cs ! Suc i) then scan_start cs i else Suc i)"

text \<open>"Determine end column": walk right over continuation cells within the row.\<close>

function scan_end :: "cells \<Rightarrow> nat \<Rightarrow> nat \<Rightarrow> nat" where
  "scan_end cs len i = (if i + 1 < len \<and> continuation (cs ! (i + 1)) then scan_end cs len (i + 1) else i)"
  by auto
termination by (relation "measure (\<lambda>(cs, len, i). len - i)") auto

declare scan_end.simps [simp del]

definition blank_of :: "guac_terminal_char \<Rightarrow> guac_terminal_char" where
  "blank_of c = \<lparr>char_value = 32, char_attributes = char_attributes c, char_width = 1\<rparr>"

text \<open>
  The common end of both halves of \<open>guac_terminal_buffer_force_break\<close>: given the extent of a run of
  cells, skip the complete character it starts with, and tell what is left to clear, with which
  character.
\<close>

definition broken_part :: "cells \<Rightarrow> nat \<Rightarrow> nat \<Rightarrow> (int \<times> guac_terminal_char) option result" where
  "broken_part cs start_column end_column =
     (let start_char = cs ! start_column;
          len = int end_column - int start_column + 1;
          start' = (if \<not> continuation start_char \<and> char_width start_char < len
                    then int start_column + char_width start_char else int start_column);
          len' = int end_column - start' + 1
      in defined (0 \<le> start' \<and> start' < int (length cs))
           (let start_char = cs ! nat start' in
            Inr (if continuation start_char \<or> char_width start_char \<noteq> len'
                 then Some (start', blank_of start_char) else None)))"

definition broken_left :: "guac_terminal_buffer_row \<Rightarrow> int \<Rightarrow> (int \<times> int \<times> guac_terminal_char) option result" where
  "broken_left row edge =
     (if edge > 0
      then
        let end_column = nat (edge - 1) in
        defined (end_column < length (characters row))
          (bindr (broken_part (characters row) (scan_start (characters row) end_column) end_column)
             (\<lambda>r. Inr (map_option (\<lambda>(start_column, c). (start_column, int end_column, c)) r)))
      else Inr None)"

definition broken_right :: "guac_terminal_buffer_row \<Rightarrow> int \<Rightarrow> (int \<times> int \<times> guac_terminal_char) option result" where
  "broken_right row edge =
     (if edge \<ge> 0 \<and> u32_of edge < row_length row
      then
        let end_column = scan_end (characters row) (row_length row) (nat edge) in
        bindr (broken_part (characters row) (nat edge) end_column)
          (\<lambda>r. Inr (map_option (\<lambda>(start_column, c). (start_column, int end_column, c)) r))
      else Inr None)"

section \<open>Writing columns\<close>

text \<open>The loop that stores the character and its continuation cells.\<close>

fun store_columns :: "nat \<Rightarrow> nat \<Rightarrow> int \<Rightarrow> guac_terminal_char \<Rightarrow> guac_terminal_char \<Rightarrow> cells \<Rightarrow> cells" where
  "store_columns 0 i remaining c cont cs = cs"
| "store_columns (Suc n) i remaining c cont cs =
     (if remaining > 0
      then store_columns n (i + 1) (remaining - 1) c cont (cs[i := cont])
      else store_columns n (i + 1) (char_width c - 1) c cont (cs[i := c]))"

definition continuation_of :: "guac_terminal_char \<Rightarrow> guac_terminal_char" where
  "continuation_of c =
     \<lparr>char_value = GUAC_CHAR_CONTINUATION, char_attributes = char_attributes c, char_width = 0\<rparr>"

text \<open>
  \<open>guac_terminal_buffer_set_columns\<close> and \<open>guac_terminal_buffer_force_break\<close> on the row with index
  \<open>r\<close>, together with the length of the buffer, the only other part of the buffer they change.
\<close>

fun row_set_columns ::
    "nat \<Rightarrow> guac_terminal_char \<Rightarrow> int \<Rightarrow> int \<Rightarrow> int \<Rightarrow> guac_terminal_char \<Rightarrow>
       nat \<times> guac_terminal_buffer_row \<Rightarrow> (nat \<times> guac_terminal_buffer_row) result"
  and row_force_break ::
    "nat \<Rightarrow> guac_terminal_char \<Rightarrow> int \<Rightarrow> int \<Rightarrow>
       nat \<times> guac_terminal_buffer_row \<Rightarrow> (nat \<times> guac_terminal_buffer_row) result"
where
  "row_set_columns 0 dflt r start_column end_column c st = Inl Diverged"
| "row_set_columns (Suc n) dflt r start_column end_column c (blen, row) =
     (if char_width c \<le> 0 \<or> r \<ge> GUAC_TERMINAL_MAX_ROWS \<or> r \<le> - GUAC_TERMINAL_MAX_ROWS
      then Inr (blen, row)
      else
        bindr (guac_terminal_fit_to_range start_column 0 (GUAC_TERMINAL_MAX_COLUMNS - 1)) (\<lambda>start_column.
        bindr (guac_terminal_fit_to_range end_column 0 (GUAC_TERMINAL_MAX_COLUMNS - 1)) (\<lambda>end_column.
        bindr (guac_terminal_buffer_row_expand row (end_column + 1) dflt) (\<lambda>row.
        guac_assert (row_length row \<ge> u32_of (end_column + 1))
          (let row = row\<lparr>characters := store_columns (nat (end_column - start_column + 1)) (nat start_column) 0
                           c (continuation_of c) (characters row)\<rparr>;
               blen = (if char_value c \<noteq> 0 \<and> u32_of r \<ge> blen then u32_of (r + 1) else blen)
           in bindr (row_force_break n dflt r start_column (blen, row))
                (row_force_break n dflt r (end_column + 1)))))))"
| "row_force_break 0 dflt r edge st = Inl Diverged"
| "row_force_break (Suc n) dflt r edge st =
     bindr (bindr (broken_left (snd st) edge)
        (\<lambda>b. case b of None \<Rightarrow> Inr st
             | Some (start_column, end_column, c) \<Rightarrow> row_set_columns n dflt r start_column end_column c st))
       (\<lambda>st. bindr (broken_right (snd st) edge)
        (\<lambda>b. case b of None \<Rightarrow> Inr st
             | Some (start_column, end_column, c) \<Rightarrow> row_set_columns n dflt r start_column end_column c st))"

definition BUFFER_FUEL :: nat where "BUFFER_FUEL = 5000"

text \<open>Apply an operation to one row of the buffer; nothing happens for a row that does not exist.\<close>

definition on_row ::
  "guac_terminal_buffer \<Rightarrow> int \<Rightarrow>
     (nat \<times> guac_terminal_buffer_row \<Rightarrow> (nat \<times> guac_terminal_buffer_row) result) \<Rightarrow> guac_terminal_buffer result" where
  "on_row buf row f =
     (case guac_terminal_buffer_get_row buf row of
        None \<Rightarrow> Inr buf
      | Some i \<Rightarrow> bindr (f (buffer_length buf, buffer_rows buf ! i))
          (\<lambda>(blen, r). Inr (buf\<lparr>buffer_rows := (buffer_rows buf)[i := r], buffer_length := blen\<rparr>)))"

definition guac_terminal_buffer_set_columns ::
  "guac_terminal_buffer \<Rightarrow> int \<Rightarrow> int \<Rightarrow> int \<Rightarrow> guac_terminal_char \<Rightarrow> guac_terminal_buffer result" where
  "guac_terminal_buffer_set_columns buf row start_column end_column c =
     on_row buf row (row_set_columns BUFFER_FUEL (default_character buf) row start_column end_column c)"

section \<open>Copying and scrolling\<close>

definition row_copy_columns ::
  "guac_terminal_char \<Rightarrow> int \<Rightarrow> int \<Rightarrow> int \<Rightarrow> int \<Rightarrow>
     nat \<times> guac_terminal_buffer_row \<Rightarrow> (nat \<times> guac_terminal_buffer_row) result" where
  "row_copy_columns dflt r start_column end_column offset st =
     bindr (guac_terminal_buffer_row_expand (snd st) (wrap32 (end_column + offset + 1)) dflt) (\<lambda>row.
     guac_assert (row_length row \<ge> u32_of (end_column + offset + 1))
       (let lo = (if offset \<ge> 0 then 0 else - offset);
            hi = (if offset \<ge> 0 then wrap32 (int (row_length row) - offset - 1) else wrap32 (int (row_length row) - 1))
        in
        bindr (guac_terminal_fit_to_range start_column lo hi) (\<lambda>start_column.
        bindr (guac_terminal_fit_to_range end_column start_column hi) (\<lambda>end_column.
          let n = nat (end_column - start_column + 1);
              src = take n (drop (nat start_column) (characters row));
              row = row\<lparr>characters := overwrite (characters row) (nat (start_column + offset)) src\<rparr>
          in bindr (row_force_break BUFFER_FUEL dflt r (start_column + offset) (fst st, row))
               (row_force_break BUFFER_FUEL dflt r (end_column + offset + 1))))))"

definition guac_terminal_buffer_copy_columns ::
  "guac_terminal_buffer \<Rightarrow> int \<Rightarrow> int \<Rightarrow> int \<Rightarrow> int \<Rightarrow> guac_terminal_buffer result" where
  "guac_terminal_buffer_copy_columns buf row start_column end_column offset =
     on_row buf row (row_copy_columns (default_character buf) row start_column end_column offset)"

text \<open>One round of the loop of \<open>guac_terminal_buffer_copy_rows\<close>, for rows that exist.\<close>

definition copy_one_row :: "guac_terminal_buffer \<Rightarrow> nat \<Rightarrow> nat \<Rightarrow> guac_terminal_buffer result" where
  "copy_one_row buf src dst =
     bindr (guac_terminal_buffer_row_expand (buffer_rows buf ! dst) (int (row_length (buffer_rows buf ! src)))
              (default_character buf)) (\<lambda>dst_row.
       guac_assert (row_length dst_row \<ge> row_length (buffer_rows buf ! src))
         (let rows = (buffer_rows buf)[dst := dst_row];
              src_row = rows ! src;
              rows = rows[dst := (rows ! dst)\<lparr>
                       characters := overwrite (characters (rows ! dst)) 0 (take (row_length src_row) (characters src_row)),
                       row_length := row_length src_row, wrapped_row := wrapped_row src_row\<rparr>];
              rows = rows[src := (rows ! src)\<lparr>wrapped_row := False\<rparr>]
          in Inr (buf\<lparr>buffer_rows := rows\<rparr>)))"

fun copy_rows_loop :: "nat \<Rightarrow> guac_terminal_buffer \<Rightarrow> int \<Rightarrow> int \<Rightarrow> int \<Rightarrow> guac_terminal_buffer result" where
  "copy_rows_loop 0 buf current_row step offset = Inr buf"
| "copy_rows_loop (Suc n) buf current_row step offset =
     (case (guac_terminal_buffer_get_row buf current_row, guac_terminal_buffer_get_row buf (current_row + offset)) of
        (Some src, Some dst) \<Rightarrow>
          bindr (copy_one_row buf src dst) (\<lambda>buf. copy_rows_loop n buf (current_row + step) step offset)
      | _ \<Rightarrow> copy_rows_loop n buf current_row step offset)"

definition guac_terminal_buffer_copy_rows ::
  "guac_terminal_buffer \<Rightarrow> int \<Rightarrow> int \<Rightarrow> int \<Rightarrow> guac_terminal_buffer result" where
  "guac_terminal_buffer_copy_rows buf start_row end_row offset =
     (if offset > 0
      then copy_rows_loop (nat (end_row - start_row + 1)) buf end_row (-1) offset
      else copy_rows_loop (nat (end_row - start_row + 1)) buf start_row 1 offset)"

definition guac_terminal_buffer_scroll_up :: "guac_terminal_buffer \<Rightarrow> int \<Rightarrow> guac_terminal_buffer" where
  "guac_terminal_buffer_scroll_up buf amount =
     (if amount \<le> 0 then buf
      else
        let available = length (buffer_rows buf); len = u32_of (int (buffer_length buf) + amount) in
        buf\<lparr>buffer_top := u32_of (int (buffer_top buf) + amount) mod available,
            buffer_length := (if len > available then available else len)\<rparr>)"

definition guac_terminal_buffer_scroll_down :: "guac_terminal_buffer \<Rightarrow> int \<Rightarrow> guac_terminal_buffer" where
  "guac_terminal_buffer_scroll_down buf amount =
     (if amount \<le> 0 then buf
      else buf\<lparr>buffer_top := u32_of (int (buffer_top buf) - amount) mod length (buffer_rows buf)\<rparr>)"

section \<open>Access\<close>

text \<open>The characters, the wrapped flag and the length of a row; the length is 0 for no row.\<close>

definition guac_terminal_buffer_get_columns :: "guac_terminal_buffer \<Rightarrow> int \<Rightarrow> (cells \<times> bool \<times> nat) option" where
  "guac_terminal_buffer_get_columns buf row =
     map_option (\<lambda>i. let r = buffer_rows buf ! i in (characters r, wrapped_row r, row_length r))
       (guac_terminal_buffer_get_row buf row)"

definition row_set_cursor ::
  "guac_terminal_char \<Rightarrow> int \<Rightarrow> bool \<Rightarrow> nat \<times> guac_terminal_buffer_row \<Rightarrow> (nat \<times> guac_terminal_buffer_row) result" where
  "row_set_cursor dflt column is_cursor st =
     bindr (guac_terminal_fit_to_range column 0 (GUAC_TERMINAL_MAX_COLUMNS - 1)) (\<lambda>column.
     bindr (guac_terminal_buffer_row_expand (snd st) (column + 1) dflt) (\<lambda>row.
     guac_assert (row_length row \<ge> u32_of (column + 1))
       (let c = characters row ! nat column in
        Inr (fst st, row\<lparr>characters := (characters row)[nat column :=
          c\<lparr>char_attributes := (char_attributes c)\<lparr>attr_cursor := is_cursor\<rparr>\<rparr>]\<rparr>))))"

definition guac_terminal_buffer_set_cursor ::
  "guac_terminal_buffer \<Rightarrow> int \<Rightarrow> int \<Rightarrow> bool \<Rightarrow> guac_terminal_buffer result" where
  "guac_terminal_buffer_set_cursor buf row column is_cursor =
     (if row \<ge> GUAC_TERMINAL_MAX_ROWS \<or> row \<le> - GUAC_TERMINAL_MAX_ROWS then Inr buf
      else on_row buf row (row_set_cursor (default_character buf) column is_cursor))"

definition guac_terminal_buffer_effective_length :: "guac_terminal_buffer \<Rightarrow> int \<Rightarrow> nat" where
  "guac_terminal_buffer_effective_length buf scrollback =
     (if buffer_length buf > u32_of scrollback then u32_of scrollback else buffer_length buf)"

definition guac_terminal_buffer_set_wrapped :: "guac_terminal_buffer \<Rightarrow> int \<Rightarrow> bool \<Rightarrow> guac_terminal_buffer" where
  "guac_terminal_buffer_set_wrapped buf row wrapped =
     (case guac_terminal_buffer_get_row buf row of
        None \<Rightarrow> buf
      | Some i \<Rightarrow> buf\<lparr>buffer_rows := (buffer_rows buf)[i := (buffer_rows buf ! i)\<lparr>wrapped_row := wrapped\<rparr>]\<rparr>)"

end
