(* ===== verification/TermColors.thy ===== *)
theory TermColors
  imports TermBuffer "HOL-Library.Sublist"
begin

text \<open>
  Colors of the terminal emulator: the initial palette and the comparison of colors
  (\<open>src/src/terminal/palette.c\<close>), the table of named colors with its binary search
  (\<open>named-colors.c\<close>), and the parsing of X11 color specifications (\<open>xparsecolor.c\<close>).

  Strings are the lists of their bytes up to the terminator. \<open>bsearch\<close> and \<open>sscanf\<close> of the C library
  are written out as far as the code uses them; characters are signed.
\<close>

section \<open>The palette\<close>

definition palette_color :: "int \<Rightarrow> u8 \<Rightarrow> u8 \<Rightarrow> u8 \<Rightarrow> guac_terminal_color" where
  "palette_color i r g b = \<lparr>palette_index = i, color_red = r, color_green = g, color_blue = b\<rparr>"

definition GUAC_TERMINAL_INITIAL_PALETTE :: "guac_terminal_color list" where
  "GUAC_TERMINAL_INITIAL_PALETTE =
    [palette_color 0 0x00 0x00 0x00, palette_color 1 0x99 0x3E 0x3E, palette_color 2 0x3E 0x99 0x3E,
     palette_color 3 0x99 0x99 0x3E, palette_color 4 0x3E 0x3E 0x99, palette_color 5 0x99 0x3E 0x99,
     palette_color 6 0x3E 0x99 0x99, palette_color 7 0x99 0x99 0x99, palette_color 8 0x3E 0x3E 0x3E,
     palette_color 9 0xFF 0x67 0x67, palette_color 10 0x67 0xFF 0x67, palette_color 11 0xFF 0xFF 0x67,
     palette_color 12 0x67 0x67 0xFF, palette_color 13 0xFF 0x67 0xFF, palette_color 14 0x67 0xFF 0xFF,
     palette_color 15 0xFF 0xFF 0xFF, palette_color 16 0x00 0x00 0x00, palette_color 17 0x00 0x00 0x5F,
     palette_color 18 0x00 0x00 0x87, palette_color 19 0x00 0x00 0xAF, palette_color 20 0x00 0x00 0xD7,
     palette_color 21 0x00 0x00 0xFF, palette_color 22 0x00 0x5F 0x00, palette_color 23 0x00 0x5F 0x5F,
     palette_color 24 0x00 0x5F 0x87, palette_color 25 0x00 0x5F 0xAF, palette_color 26 0x00 0x5F 0xD7,
     palette_color 27 0x00 0x5F 0xFF, palette_color 28 0x00 0x87 0x00, palette_color 29 0x00 0x87 0x5F,
     palette_color 30 0x00 0x87 0x87, palette_color 31 0x00 0x87 0xAF, palette_color 32 0x00 0x87 0xD7,
     palette_color 33 0x00 0x87 0xFF, palette_color 34 0x00 0xAF 0x00, palette_color 35 0x00 0xAF 0x5F,
     palette_color 36 0x00 0xAF 0x87, palette_color 37 0x00 0xAF 0xAF, palette_color 38 0x00 0xAF 0xD7,
     palette_color 39 0x00 0xAF 0xFF, palette_color 40 0x00 0xD7 0x00, palette_color 41 0x00 0xD7 0x5F,
     palette_color 42 0x00 0xD7 0x87, palette_color 43 0x00 0xD7 0xAF, palette_color 44 0x00 0xD7 0xD7,
     palette_color 45 0x00 0xD7 0xFF, palette_color 46 0x00 0xFF 0x00, palette_color 47 0x00 0xFF 0x5F,
     palette_color 48 0x00 0xFF 0x87, palette_color 49 0x00 0xFF 0xAF, palette_color 50 0x00 0xFF 0xD7,
     palette_color 51 0x00 0xFF 0xFF, palette_color 52 0x5F 0x00 0x00, palette_color 53 0x5F 0x00 0x5F,
     palette_color 54 0x5F 0x00 0x87, palette_color 55 0x5F 0x00 0xAF, palette_color 56 0x5F 0x00 0xD7,
     palette_color 57 0x5F 0x00 0xFF, palette_color 58 0x5F 0x5F 0x00, palette_color 59 0x5F 0x5F 0x5F,
     palette_color 60 0x5F 0x5F 0x87, palette_color 61 0x5F 0x5F 0xAF, palette_color 62 0x5F 0x5F 0xD7,
     palette_color 63 0x5F 0x5F 0xFF, palette_color 64 0x5F 0x87 0x00, palette_color 65 0x5F 0x87 0x5F,
     palette_color 66 0x5F 0x87 0x87, palette_color 67 0x5F 0x87 0xAF, palette_color 68 0x5F 0x87 0xD7,
     palette_color 69 0x5F 0x87 0xFF, palette_color 70 0x5F 0xAF 0x00, palette_color 71 0x5F 0xAF 0x5F,
     palette_color 72 0x5F 0xAF 0x87, palette_color 73 0x5F 0xAF 0xAF, palette_color 74 0x5F 0xAF 0xD7,
     palette_color 75 0x5F 0xAF 0xFF, palette_color 76 0x5F 0xD7 0x00, palette_color 77 0x5F 0xD7 0x5F,
     palette_color 78 0x5F 0xD7 0x87, palette_color 79 0x5F 0xD7 0xAF, palette_color 80 0x5F 0xD7 0xD7,
     palette_color 81 0x5F 0xD7 0xFF, palette_color 82 0x5F 0xFF 0x00, palette_color 83 0x5F 0xFF 0x5F,
     palette_color 84 0x5F 0xFF 0x87, palette_color 85 0x5F 0xFF 0xAF, palette_color 86 0x5F 0xFF 0xD7,
     palette_color 87 0x5F 0xFF 0xFF, palette_color 88 0x87 0x00 0x00, palette_color 89 0x87 0x00 0x5F,
     palette_color 90 0x87 0x00 0x87, palette_color 91 0x87 0x00 0xAF, palette_color 92 0x87 0x00 0xD7,
     palette_color 93 0x87 0x00 0xFF, palette_color 94 0x87 0x5F 0x00, palette_color 95 0x87 0x5F 0x5F,
     palette_color 96 0x87 0x5F 0x87, palette_color 97 0x87 0x5F 0xAF, palette_color 98 0x87 0x5F 0xD7,
     palette_color 99 0x87 0x5F 0xFF, palette_color 100 0x87 0x87 0x00, palette_color 101 0x87 0x87 0x5F,
     palette_color 102 0x87 0x87 0x87, palette_color 103 0x87 0x87 0xAF, palette_color 104 0x87 0x87 0xD7,
     palette_color 105 0x87 0x87 0xFF, palette_color 106 0x87 0xAF 0x00, palette_color 107 0x87 0xAF 0x5F,
     palette_color 108 0x87 0xAF 0x87, palette_color 109 0x87 0xAF 0xAF, palette_color 110 0x87 0xAF 0xD7,
     palette_color 111 0x87 0xAF 0xFF, palette_color 112 0x87 0xD7 0x00, palette_color 113 0x87 0xD7 0x5F,
     palette_color 114 0x87 0xD7 0x87, palette_color 115 0x87 0xD7 0xAF, palette_color 116 0x87 0xD7 0xD7,
     palette_color 117 0x87 0xD7 0xFF, palette_color 118 0x87 0xFF 0x00, palette_color 119 0x87 0xFF 0x5F,
     palette_color 120 0x87 0xFF 0x87, palette_color 121 0x87 0xFF 0xAF, palette_color 122 0x87 0xFF 0xD7,
     palette_color 123 0x87 0xFF 0xFF, palette_color 124 0xAF 0x00 0x00, palette_color 125 0xAF 0x00 0x5F,
     palette_color 126 0xAF 0x00 0x87, palette_color 127 0xAF 0x00 0xAF, palette_color 128 0xAF 0x00 0xD7,
     palette_color 129 0xAF 0x00 0xFF, palette_color 130 0xAF 0x5F 0x00, palette_color 131 0xAF 0x5F 0x5F,
     palette_color 132 0xAF 0x5F 0x87, palette_color 133 0xAF 0x5F 0xAF, palette_color 134 0xAF 0x5F 0xD7,
     palette_color 135 0xAF 0x5F 0xFF, palette_color 136 0xAF 0x87 0x00, palette_color 137 0xAF 0x87 0x5F,
     palette_color 138 0xAF 0x87 0x87, palette_color 139 0xAF 0x87 0xAF, palette_color 140 0xAF 0x87 0xD7,
     palette_color 141 0xAF 0x87 0xFF, palette_color 142 0xAF 0xAF 0x00, palette_color 143 0xAF 0xAF 0x5F,
     palette_color 144 0xAF 0xAF 0x87, palette_color 145 0xAF 0xAF 0xAF, palette_color 146 0xAF 0xAF 0xD7,
     palette_color 147 0xAF 0xAF 0xFF, palette_color 148 0xAF 0xD7 0x00, palette_color 149 0xAF 0xD7 0x5F,
     palette_color 150 0xAF 0xD7 0x87, palette_color 151 0xAF 0xD7 0xAF, palette_color 152 0xAF 0xD7 0xD7,
     palette_color 153 0xAF 0xD7 0xFF, palette_color 154 0xAF 0xFF 0x00, palette_color 155 0xAF 0xFF 0x5F,
     palette_color 156 0xAF 0xFF 0x87, palette_color 157 0xAF 0xFF 0xAF, palette_color 158 0xAF 0xFF 0xD7,
     palette_color 159 0xAF 0xFF 0xFF, palette_color 160 0xD7 0x00 0x00, palette_color 161 0xD7 0x00 0x5F,
     palette_color 162 0xD7 0x00 0x87, palette_color 163 0xD7 0x00 0xAF, palette_color 164 0xD7 0x00 0xD7,
     palette_color 165 0xD7 0x00 0xFF, palette_color 166 0xD7 0x5F 0x00, palette_color 167 0xD7 0x5F 0x5F,
     palette_color 168 0xD7 0x5F 0x87, palette_color 169 0xD7 0x5F 0xAF, palette_color 170 0xD7 0x5F 0xD7,
     palette_color 171 0xD7 0x5F 0xFF, palette_color 172 0xD7 0x87 0x00, palette_color 173 0xD7 0x87 0x5F,
     palette_color 174 0xD7 0x87 0x87, palette_color 175 0xD7 0x87 0xAF, palette_color 176 0xD7 0x87 0xD7,
     palette_color 177 0xD7 0x87 0xFF, palette_color 178 0xD7 0xAF 0x00, palette_color 179 0xD7 0xAF 0x5F,
     palette_color 180 0xD7 0xAF 0x87, palette_color 181 0xD7 0xAF 0xAF, palette_color 182 0xD7 0xAF 0xD7,
     palette_color 183 0xD7 0xAF 0xFF, palette_color 184 0xD7 0xD7 0x00, palette_color 185 0xD7 0xD7 0x5F,
     palette_color 186 0xD7 0xD7 0x87, palette_color 187 0xD7 0xD7 0xAF, palette_color 188 0xD7 0xD7 0xD7,
     palette_color 189 0xD7 0xD7 0xFF, palette_color 190 0xD7 0xFF 0x00, palette_color 191 0xD7 0xFF 0x5F,
     palette_color 192 0xD7 0xFF 0x87, palette_color 193 0xD7 0xFF 0xAF, palette_color 194 0xD7 0xFF 0xD7,
     palette_color 195 0xD7 0xFF 0xFF, palette_color 196 0xFF 0x00 0x00, palette_color 197 0xFF 0x00 0x5F,
     palette_color 198 0xFF 0x00 0x87, palette_color 199 0xFF 0x00 0xAF, palette_color 200 0xFF 0x00 0xD7,
     palette_color 201 0xFF 0x00 0xFF, palette_color 202 0xFF 0x5F 0x00, palette_color 203 0xFF 0x5F 0x5F,
     palette_color 204 0xFF 0x5F 0x87, palette_color 205 0xFF 0x5F 0xAF, palette_color 206 0xFF 0x5F 0xD7,
     palette_color 207 0xFF 0x5F 0xFF, palette_color 208 0xFF 0x87 0x00, palette_color 209 0xFF 0x87 0x5F,
     palette_color 210 0xFF 0x87 0x87, palette_color 211 0xFF 0x87 0xAF, palette_color 212 0xFF 0x87 0xD7,
     palette_color 213 0xFF 0x87 0xFF, palette_color 214 0xFF 0xAF 0x00, palette_color 215 0xFF 0xAF 0x5F,
     palette_color 216 0xFF 0xAF 0x87, palette_color 217 0xFF 0xAF 0xAF, palette_color 218 0xFF 0xAF 0xD7,
     palette_color 219 0xFF 0xAF 0xFF, palette_color 220 0xFF 0xD7 0x00, palette_color 221 0xFF 0xD7 0x5F,
     palette_color 222 0xFF 0xD7 0x87, palette_color 223 0xFF 0xD7 0xAF, palette_color 224 0xFF 0xD7 0xD7,
     palette_color 225 0xFF 0xD7 0xFF, palette_color 226 0xFF 0xFF 0x00, palette_color 227 0xFF 0xFF 0x5F,
     palette_color 228 0xFF 0xFF 0x87, palette_color 229 0xFF 0xFF 0xAF, palette_color 230 0xFF 0xFF 0xD7,
     palette_color 231 0xFF 0xFF 0xFF, palette_color 232 0x08 0x08 0x08, palette_color 233 0x12 0x12 0x12,
     palette_color 234 0x1C 0x1C 0x1C, palette_color 235 0x26 0x26 0x26, palette_color 236 0x30 0x30 0x30,
     palette_color 237 0x3A 0x3A 0x3A, palette_color 238 0x44 0x44 0x44, palette_color 239 0x4E 0x4E 0x4E,
     palette_color 240 0x58 0x58 0x58, palette_color 241 0x62 0x62 0x62, palette_color 242 0x6C 0x6C 0x6C,
     palette_color 243 0x76 0x76 0x76, palette_color 244 0x80 0x80 0x80, palette_color 245 0x8A 0x8A 0x8A,
     palette_color 246 0x94 0x94 0x94, palette_color 247 0x9E 0x9E 0x9E, palette_color 248 0xA8 0xA8 0xA8,
     palette_color 249 0xB2 0xB2 0xB2, palette_color 250 0xBC 0xBC 0xBC, palette_color 251 0xC6 0xC6 0xC6,
     palette_color 252 0xD0 0xD0 0xD0, palette_color 253 0xDA 0xDA 0xDA, palette_color 254 0xE4 0xE4 0xE4,
     palette_color 255 0xEE 0xEE 0xEE]"

lemma length_initial_palette: "length GUAC_TERMINAL_INITIAL_PALETTE = 256"
  by (simp add: GUAC_TERMINAL_INITIAL_PALETTE_def)

definition guac_terminal_colorcmp :: "guac_terminal_color \<Rightarrow> guac_terminal_color \<Rightarrow> int" where
  "guac_terminal_colorcmp a b =
     (if palette_index a \<noteq> -1 \<and> palette_index b \<noteq> -1 then wrap32 (palette_index a - palette_index b)
      else if color_red a \<noteq> color_red b then uint (color_red a) - uint (color_red b)
      else if color_green a \<noteq> color_green b then uint (color_green a) - uint (color_green b)
      else if color_blue a \<noteq> color_blue b then uint (color_blue a) - uint (color_blue b)
      else 0)"

section \<open>Named colors\<close>

definition named_color :: "u8 \<Rightarrow> u8 \<Rightarrow> u8 \<Rightarrow> string \<Rightarrow> guac_terminal_color \<times> string" where
  "named_color r g b name = (palette_color (-1) r g b, name)"

text \<open>The table, in seven blocks.\<close>

definition NAMED_COLORS_ABC :: "(guac_terminal_color \<times> string) list" where
  "NAMED_COLORS_ABC =
    [named_color 0xF0 0xF8 0xFF ''aliceblue'', named_color 0xFA 0xEB 0xD7 ''antiquewhite'',
     named_color 0xFF 0xEF 0xDB ''antiquewhite1'', named_color 0xEE 0xDF 0xCC ''antiquewhite2'',
     named_color 0xCD 0xC0 0xB0 ''antiquewhite3'', named_color 0x8B 0x83 0x78 ''antiquewhite4'',
     named_color 0x00 0xFF 0xFF ''aqua'', named_color 0x7F 0xFF 0xD4 ''aquamarine'',
     named_color 0x7F 0xFF 0xD4 ''aquamarine1'', named_color 0x76 0xEE 0xC6 ''aquamarine2'',
     named_color 0x66 0xCD 0xAA ''aquamarine3'', named_color 0x45 0x8B 0x74 ''aquamarine4'',
     named_color 0xF0 0xFF 0xFF ''azure'', named_color 0xF0 0xFF 0xFF ''azure1'',
     named_color 0xE0 0xEE 0xEE ''azure2'', named_color 0xC1 0xCD 0xCD ''azure3'',
     named_color 0x83 0x8B 0x8B ''azure4'', named_color 0xF5 0xF5 0xDC ''beige'',
     named_color 0xFF 0xE4 0xC4 ''bisque'', named_color 0xFF 0xE4 0xC4 ''bisque1'',
     named_color 0xEE 0xD5 0xB7 ''bisque2'', named_color 0xCD 0xB7 0x9E ''bisque3'',
     named_color 0x8B 0x7D 0x6B ''bisque4'', named_color 0x00 0x00 0x00 ''black'',
     named_color 0xFF 0xEB 0xCD ''blanchedalmond'', named_color 0x00 0x00 0xFF ''blue'',
     named_color 0x00 0x00 0xFF ''blue1'', named_color 0x00 0x00 0xEE ''blue2'',
     named_color 0x00 0x00 0xCD ''blue3'', named_color 0x00 0x00 0x8B ''blue4'',
     named_color 0x8A 0x2B 0xE2 ''blueviolet'', named_color 0xA5 0x2A 0x2A ''brown'',
     named_color 0xFF 0x40 0x40 ''brown1'', named_color 0xEE 0x3B 0x3B ''brown2'',
     named_color 0xCD 0x33 0x33 ''brown3'', named_color 0x8B 0x23 0x23 ''brown4'',
     named_color 0xDE 0xB8 0x87 ''burlywood'', named_color 0xFF 0xD3 0x9B ''burlywood1'',
     named_color 0xEE 0xC5 0x91 ''burlywood2'', named_color 0xCD 0xAA 0x7D ''burlywood3'',
     named_color 0x8B 0x73 0x55 ''burlywood4'', named_color 0x5F 0x9E 0xA0 ''cadetblue'',
     named_color 0x98 0xF5 0xFF ''cadetblue1'', named_color 0x8E 0xE5 0xEE ''cadetblue2'',
     named_color 0x7A 0xC5 0xCD ''cadetblue3'', named_color 0x53 0x86 0x8B ''cadetblue4'',
     named_color 0x7F 0xFF 0x00 ''chartreuse'', named_color 0x7F 0xFF 0x00 ''chartreuse1'',
     named_color 0x76 0xEE 0x00 ''chartreuse2'', named_color 0x66 0xCD 0x00 ''chartreuse3'',
     named_color 0x45 0x8B 0x00 ''chartreuse4'', named_color 0xD2 0x69 0x1E ''chocolate'',
     named_color 0xFF 0x7F 0x24 ''chocolate1'', named_color 0xEE 0x76 0x21 ''chocolate2'',
     named_color 0xCD 0x66 0x1D ''chocolate3'', named_color 0x8B 0x45 0x13 ''chocolate4'',
     named_color 0xFF 0x7F 0x50 ''coral'', named_color 0xFF 0x72 0x56 ''coral1'',
     named_color 0xEE 0x6A 0x50 ''coral2'', named_color 0xCD 0x5B 0x45 ''coral3'',
     named_color 0x8B 0x3E 0x2F ''coral4'', named_color 0x64 0x95 0xED ''cornflowerblue'',
     named_color 0xFF 0xF8 0xDC ''cornsilk'', named_color 0xFF 0xF8 0xDC ''cornsilk1'',
     named_color 0xEE 0xE8 0xCD ''cornsilk2'', named_color 0xCD 0xC8 0xB1 ''cornsilk3'',
     named_color 0x8B 0x88 0x78 ''cornsilk4'', named_color 0xDC 0x14 0x3C ''crimson'',
     named_color 0x00 0xFF 0xFF ''cyan'', named_color 0x00 0xFF 0xFF ''cyan1'',
     named_color 0x00 0xEE 0xEE ''cyan2'', named_color 0x00 0xCD 0xCD ''cyan3'',
     named_color 0x00 0x8B 0x8B ''cyan4'']"

definition NAMED_COLORS_DEFG :: "(guac_terminal_color \<times> string) list" where
  "NAMED_COLORS_DEFG =
    [named_color 0x00 0x00 0x8B ''darkblue'', named_color 0x00 0x8B 0x8B ''darkcyan'',
     named_color 0xB8 0x86 0x0B ''darkgoldenrod'', named_color 0xFF 0xB9 0x0F ''darkgoldenrod1'',
     named_color 0xEE 0xAD 0x0E ''darkgoldenrod2'', named_color 0xCD 0x95 0x0C ''darkgoldenrod3'',
     named_color 0x8B 0x65 0x08 ''darkgoldenrod4'', named_color 0xA9 0xA9 0xA9 ''darkgray'',
     named_color 0x00 0x64 0x00 ''darkgreen'', named_color 0xA9 0xA9 0xA9 ''darkgrey'',
     named_color 0xBD 0xB7 0x6B ''darkkhaki'', named_color 0x8B 0x00 0x8B ''darkmagenta'',
     named_color 0x55 0x6B 0x2F ''darkolivegreen'', named_color 0xCA 0xFF 0x70 ''darkolivegreen1'',
     named_color 0xBC 0xEE 0x68 ''darkolivegreen2'', named_color 0xA2 0xCD 0x5A ''darkolivegreen3'',
     named_color 0x6E 0x8B 0x3D ''darkolivegreen4'', named_color 0xFF 0x8C 0x00 ''darkorange'',
     named_color 0xFF 0x7F 0x00 ''darkorange1'', named_color 0xEE 0x76 0x00 ''darkorange2'',
     named_color 0xCD 0x66 0x00 ''darkorange3'', named_color 0x8B 0x45 0x00 ''darkorange4'',
     named_color 0x99 0x32 0xCC ''darkorchid'', named_color 0xBF 0x3E 0xFF ''darkorchid1'',
     named_color 0xB2 0x3A 0xEE ''darkorchid2'', named_color 0x9A 0x32 0xCD ''darkorchid3'',
     named_color 0x68 0x22 0x8B ''darkorchid4'', named_color 0x8B 0x00 0x00 ''darkred'',
     named_color 0xE9 0x96 0x7A ''darksalmon'', named_color 0x8F 0xBC 0x8F ''darkseagreen'',
     named_color 0xC1 0xFF 0xC1 ''darkseagreen1'', named_color 0xB4 0xEE 0xB4 ''darkseagreen2'',
     named_color 0x9B 0xCD 0x9B ''darkseagreen3'', named_color 0x69 0x8B 0x69 ''darkseagreen4'',
     named_color 0x48 0x3D 0x8B ''darkslateblue'', named_color 0x2F 0x4F 0x4F ''darkslategray'',
     named_color 0x97 0xFF 0xFF ''darkslategray1'', named_color 0x8D 0xEE 0xEE ''darkslategray2'',
     named_color 0x79 0xCD 0xCD ''darkslategray3'', named_color 0x52 0x8B 0x8B ''darkslategray4'',
     named_color 0x2F 0x4F 0x4F ''darkslategrey'', named_color 0x00 0xCE 0xD1 ''darkturquoise'',
     named_color 0x94 0x00 0xD3 ''darkviolet'', named_color 0xFF 0x14 0x93 ''deeppink'',
     named_color 0xFF 0x14 0x93 ''deeppink1'', named_color 0xEE 0x12 0x89 ''deeppink2'',
     named_color 0xCD 0x10 0x76 ''deeppink3'', named_color 0x8B 0x0A 0x50 ''deeppink4'',
     named_color 0x00 0xBF 0xFF ''deepskyblue'', named_color 0x00 0xBF 0xFF ''deepskyblue1'',
     named_color 0x00 0xB2 0xEE ''deepskyblue2'', named_color 0x00 0x9A 0xCD ''deepskyblue3'',
     named_color 0x00 0x68 0x8B ''deepskyblue4'', named_color 0x69 0x69 0x69 ''dimgray'',
     named_color 0x69 0x69 0x69 ''dimgrey'', named_color 0x1E 0x90 0xFF ''dodgerblue'',
     named_color 0x1E 0x90 0xFF ''dodgerblue1'', named_color 0x1C 0x86 0xEE ''dodgerblue2'',
     named_color 0x18 0x74 0xCD ''dodgerblue3'', named_color 0x10 0x4E 0x8B ''dodgerblue4'',
     named_color 0xB2 0x22 0x22 ''firebrick'', named_color 0xFF 0x30 0x30 ''firebrick1'',
     named_color 0xEE 0x2C 0x2C ''firebrick2'', named_color 0xCD 0x26 0x26 ''firebrick3'',
     named_color 0x8B 0x1A 0x1A ''firebrick4'', named_color 0xFF 0xFA 0xF0 ''floralwhite'',
     named_color 0x22 0x8B 0x22 ''forestgreen'', named_color 0xFF 0x00 0xFF ''fuchsia'',
     named_color 0xDC 0xDC 0xDC ''gainsboro'', named_color 0xF8 0xF8 0xFF ''ghostwhite'',
     named_color 0xFF 0xD7 0x00 ''gold'', named_color 0xFF 0xD7 0x00 ''gold1'',
     named_color 0xEE 0xC9 0x00 ''gold2'', named_color 0xCD 0xAD 0x00 ''gold3'',
     named_color 0x8B 0x75 0x00 ''gold4'', named_color 0xDA 0xA5 0x20 ''goldenrod'',
     named_color 0xFF 0xC1 0x25 ''goldenrod1'', named_color 0xEE 0xB4 0x22 ''goldenrod2'',
     named_color 0xCD 0x9B 0x1D ''goldenrod3'', named_color 0x8B 0x69 0x14 ''goldenrod4'']"

definition NAMED_COLORS_GRAY :: "(guac_terminal_color \<times> string) list" where
  "NAMED_COLORS_GRAY =
    [named_color 0xBE 0xBE 0xBE ''gray'', named_color 0x00 0x00 0x00 ''gray0'',
     named_color 0x03 0x03 0x03 ''gray1'', named_color 0x1A 0x1A 0x1A ''gray10'',
     named_color 0xFF 0xFF 0xFF ''gray100'', named_color 0x1C 0x1C 0x1C ''gray11'',
     named_color 0x1F 0x1F 0x1F ''gray12'', named_color 0x21 0x21 0x21 ''gray13'',
     named_color 0x24 0x24 0x24 ''gray14'', named_color 0x26 0x26 0x26 ''gray15'',
     named_color 0x29 0x29 0x29 ''gray16'', named_color 0x2B 0x2B 0x2B ''gray17'',
     named_color 0x2E 0x2E 0x2E ''gray18'', named_color 0x30 0x30 0x30 ''gray19'',
     named_color 0x05 0x05 0x05 ''gray2'', named_color 0x33 0x33 0x33 ''gray20'',
     named_color 0x36 0x36 0x36 ''gray21'', named_color 0x38 0x38 0x38 ''gray22'',
     named_color 0x3B 0x3B 0x3B ''gray23'', named_color 0x3D 0x3D 0x3D ''gray24'',
     named_color 0x40 0x40 0x40 ''gray25'', named_color 0x42 0x42 0x42 ''gray26'',
     named_color 0x45 0x45 0x45 ''gray27'', named_color 0x47 0x47 0x47 ''gray28'',
     named_color 0x4A 0x4A 0x4A ''gray29'', named_color 0x08 0x08 0x08 ''gray3'',
     named_color 0x4D 0x4D 0x4D ''gray30'', named_color 0x4F 0x4F 0x4F ''gray31'',
     named_color 0x52 0x52 0x52 ''gray32'', named_color 0x54 0x54 0x54 ''gray33'',
     named_color 0x57 0x57 0x57 ''gray34'', named_color 0x59 0x59 0x59 ''gray35'',
     named_color 0x5C 0x5C 0x5C ''gray36'', named_color 0x5E 0x5E 0x5E ''gray37'',
     named_color 0x61 0x61 0x61 ''gray38'', named_color 0x63 0x63 0x63 ''gray39'',
     named_color 0x0A 0x0A 0x0A ''gray4'', named_color 0x66 0x66 0x66 ''gray40'',
     named_color 0x69 0x69 0x69 ''gray41'', named_color 0x6B 0x6B 0x6B ''gray42'',
     named_color 0x6E 0x6E 0x6E ''gray43'', named_color 0x70 0x70 0x70 ''gray44'',
     named_color 0x73 0x73 0x73 ''gray45'', named_color 0x75 0x75 0x75 ''gray46'',
     named_color 0x78 0x78 0x78 ''gray47'', named_color 0x7A 0x7A 0x7A ''gray48'',
     named_color 0x7D 0x7D 0x7D ''gray49'', named_color 0x0D 0x0D 0x0D ''gray5'',
     named_color 0x7F 0x7F 0x7F ''gray50'', named_color 0x82 0x82 0x82 ''gray51'',
     named_color 0x85 0x85 0x85 ''gray52'', named_color 0x87 0x87 0x87 ''gray53'',
     named_color 0x8A 0x8A 0x8A ''gray54'', named_color 0x8C 0x8C 0x8C ''gray55'',
     named_color 0x8F 0x8F 0x8F ''gray56'', named_color 0x91 0x91 0x91 ''gray57'',
     named_color 0x94 0x94 0x94 ''gray58'', named_color 0x96 0x96 0x96 ''gray59'',
     named_color 0x0F 0x0F 0x0F ''gray6'', named_color 0x99 0x99 0x99 ''gray60'',
     named_color 0x9C 0x9C 0x9C ''gray61'', named_color 0x9E 0x9E 0x9E ''gray62'',
     named_color 0xA1 0xA1 0xA1 ''gray63'', named_color 0xA3 0xA3 0xA3 ''gray64'',
     named_color 0xA6 0xA6 0xA6 ''gray65'', named_color 0xA8 0xA8 0xA8 ''gray66'',
     named_color 0xAB 0xAB 0xAB ''gray67'', named_color 0xAD 0xAD 0xAD ''gray68'',
     named_color 0xB0 0xB0 0xB0 ''gray69'', named_color 0x12 0x12 0x12 ''gray7'',
     named_color 0xB3 0xB3 0xB3 ''gray70'', named_color 0xB5 0xB5 0xB5 ''gray71'',
     named_color 0xB8 0xB8 0xB8 ''gray72'', named_color 0xBA 0xBA 0xBA ''gray73'',
     named_color 0xBD 0xBD 0xBD ''gray74'', named_color 0xBF 0xBF 0xBF ''gray75'',
     named_color 0xC2 0xC2 0xC2 ''gray76'', named_color 0xC4 0xC4 0xC4 ''gray77'',
     named_color 0xC7 0xC7 0xC7 ''gray78'', named_color 0xC9 0xC9 0xC9 ''gray79'',
     named_color 0x14 0x14 0x14 ''gray8'', named_color 0xCC 0xCC 0xCC ''gray80'',
     named_color 0xCF 0xCF 0xCF ''gray81'', named_color 0xD1 0xD1 0xD1 ''gray82'',
     named_color 0xD4 0xD4 0xD4 ''gray83'', named_color 0xD6 0xD6 0xD6 ''gray84'',
     named_color 0xD9 0xD9 0xD9 ''gray85'', named_color 0xDB 0xDB 0xDB ''gray86'',
     named_color 0xDE 0xDE 0xDE ''gray87'', named_color 0xE0 0xE0 0xE0 ''gray88'',
     named_color 0xE3 0xE3 0xE3 ''gray89'', named_color 0x17 0x17 0x17 ''gray9'',
     named_color 0xE5 0xE5 0xE5 ''gray90'', named_color 0xE8 0xE8 0xE8 ''gray91'',
     named_color 0xEB 0xEB 0xEB ''gray92'', named_color 0xED 0xED 0xED ''gray93'',
     named_color 0xF0 0xF0 0xF0 ''gray94'', named_color 0xF2 0xF2 0xF2 ''gray95'',
     named_color 0xF5 0xF5 0xF5 ''gray96'', named_color 0xF7 0xF7 0xF7 ''gray97'',
     named_color 0xFA 0xFA 0xFA ''gray98'', named_color 0xFC 0xFC 0xFC ''gray99'']"

definition NAMED_COLORS_GREEN_GREY :: "(guac_terminal_color \<times> string) list" where
  "NAMED_COLORS_GREEN_GREY =
    [named_color 0x00 0xFF 0x00 ''green'', named_color 0x00 0xFF 0x00 ''green1'',
     named_color 0x00 0xEE 0x00 ''green2'', named_color 0x00 0xCD 0x00 ''green3'',
     named_color 0x00 0x8B 0x00 ''green4'', named_color 0xAD 0xFF 0x2F ''greenyellow'',
     named_color 0xBE 0xBE 0xBE ''grey'', named_color 0x00 0x00 0x00 ''grey0'',
     named_color 0x03 0x03 0x03 ''grey1'', named_color 0x1A 0x1A 0x1A ''grey10'',
     named_color 0xFF 0xFF 0xFF ''grey100'', named_color 0x1C 0x1C 0x1C ''grey11'',
     named_color 0x1F 0x1F 0x1F ''grey12'', named_color 0x21 0x21 0x21 ''grey13'',
     named_color 0x24 0x24 0x24 ''grey14'', named_color 0x26 0x26 0x26 ''grey15'',
     named_color 0x29 0x29 0x29 ''grey16'', named_color 0x2B 0x2B 0x2B ''grey17'',
     named_color 0x2E 0x2E 0x2E ''grey18'', named_color 0x30 0x30 0x30 ''grey19'',
     named_color 0x05 0x05 0x05 ''grey2'', named_color 0x33 0x33 0x33 ''grey20'',
     named_color 0x36 0x36 0x36 ''grey21'', named_color 0x38 0x38 0x38 ''grey22'',
     named_color 0x3B 0x3B 0x3B ''grey23'', named_color 0x3D 0x3D 0x3D ''grey24'',
     named_color 0x40 0x40 0x40 ''grey25'', named_color 0x42 0x42 0x42 ''grey26'',
     named_color 0x45 0x45 0x45 ''grey27'', named_color 0x47 0x47 0x47 ''grey28'',
     named_color 0x4A 0x4A 0x4A ''grey29'', named_color 0x08 0x08 0x08 ''grey3'',
     named_color 0x4D 0x4D 0x4D ''grey30'', named_color 0x4F 0x4F 0x4F ''grey31'',
     named_color 0x52 0x52 0x52 ''grey32'', named_color 0x54 0x54 0x54 ''grey33'',
     named_color 0x57 0x57 0x57 ''grey34'', named_color 0x59 0x59 0x59 ''grey35'',
     named_color 0x5C 0x5C 0x5C ''grey36'', named_color 0x5E 0x5E 0x5E ''grey37'',
     named_color 0x61 0x61 0x61 ''grey38'', named_color 0x63 0x63 0x63 ''grey39'',
     named_color 0x0A 0x0A 0x0A ''grey4'', named_color 0x66 0x66 0x66 ''grey40'',
     named_color 0x69 0x69 0x69 ''grey41'', named_color 0x6B 0x6B 0x6B ''grey42'',
     named_color 0x6E 0x6E 0x6E ''grey43'', named_color 0x70 0x70 0x70 ''grey44'',
     named_color 0x73 0x73 0x73 ''grey45'', named_color 0x75 0x75 0x75 ''grey46'',
     named_color 0x78 0x78 0x78 ''grey47'', named_color 0x7A 0x7A 0x7A ''grey48'',
     named_color 0x7D 0x7D 0x7D ''grey49'', named_color 0x0D 0x0D 0x0D ''grey5'',
     named_color 0x7F 0x7F 0x7F ''grey50'', named_color 0x82 0x82 0x82 ''grey51'',
     named_color 0x85 0x85 0x85 ''grey52'', named_color 0x87 0x87 0x87 ''grey53'',
     named_color 0x8A 0x8A 0x8A ''grey54'', named_color 0x8C 0x8C 0x8C ''grey55'',
     named_color 0x8F 0x8F 0x8F ''grey56'', named_color 0x91 0x91 0x91 ''grey57'',
     named_color 0x94 0x94 0x94 ''grey58'', named_color 0x96 0x96 0x96 ''grey59'',
     named_color 0x0F 0x0F 0x0F ''grey6'', named_color 0x99 0x99 0x99 ''grey60'',
     named_color 0x9C 0x9C 0x9C ''grey61'', named_color 0x9E 0x9E 0x9E ''grey62'',
     named_color 0xA1 0xA1 0xA1 ''grey63'', named_color 0xA3 0xA3 0xA3 ''grey64'',
     named_color 0xA6 0xA6 0xA6 ''grey65'', named_color 0xA8 0xA8 0xA8 ''grey66'',
     named_color 0xAB 0xAB 0xAB ''grey67'', named_color 0xAD 0xAD 0xAD ''grey68'',
     named_color 0xB0 0xB0 0xB0 ''grey69'', named_color 0x12 0x12 0x12 ''grey7'',
     named_color 0xB3 0xB3 0xB3 ''grey70'', named_color 0xB5 0xB5 0xB5 ''grey71'',
     named_color 0xB8 0xB8 0xB8 ''grey72'', named_color 0xBA 0xBA 0xBA ''grey73'',
     named_color 0xBD 0xBD 0xBD ''grey74'', named_color 0xBF 0xBF 0xBF ''grey75'',
     named_color 0xC2 0xC2 0xC2 ''grey76'', named_color 0xC4 0xC4 0xC4 ''grey77'',
     named_color 0xC7 0xC7 0xC7 ''grey78'', named_color 0xC9 0xC9 0xC9 ''grey79'',
     named_color 0x14 0x14 0x14 ''grey8'', named_color 0xCC 0xCC 0xCC ''grey80'',
     named_color 0xCF 0xCF 0xCF ''grey81'', named_color 0xD1 0xD1 0xD1 ''grey82'',
     named_color 0xD4 0xD4 0xD4 ''grey83'', named_color 0xD6 0xD6 0xD6 ''grey84'',
     named_color 0xD9 0xD9 0xD9 ''grey85'', named_color 0xDB 0xDB 0xDB ''grey86'',
     named_color 0xDE 0xDE 0xDE ''grey87'', named_color 0xE0 0xE0 0xE0 ''grey88'',
     named_color 0xE3 0xE3 0xE3 ''grey89'', named_color 0x17 0x17 0x17 ''grey9'',
     named_color 0xE5 0xE5 0xE5 ''grey90'', named_color 0xE8 0xE8 0xE8 ''grey91'',
     named_color 0xEB 0xEB 0xEB ''grey92'', named_color 0xED 0xED 0xED ''grey93'',
     named_color 0xF0 0xF0 0xF0 ''grey94'', named_color 0xF2 0xF2 0xF2 ''grey95'',
     named_color 0xF5 0xF5 0xF5 ''grey96'', named_color 0xF7 0xF7 0xF7 ''grey97'',
     named_color 0xFA 0xFA 0xFA ''grey98'', named_color 0xFC 0xFC 0xFC ''grey99'']"

definition NAMED_COLORS_HIJKL :: "(guac_terminal_color \<times> string) list" where
  "NAMED_COLORS_HIJKL =
    [named_color 0xF0 0xFF 0xF0 ''honeydew'', named_color 0xF0 0xFF 0xF0 ''honeydew1'',
     named_color 0xE0 0xEE 0xE0 ''honeydew2'', named_color 0xC1 0xCD 0xC1 ''honeydew3'',
     named_color 0x83 0x8B 0x83 ''honeydew4'', named_color 0xFF 0x69 0xB4 ''hotpink'',
     named_color 0xFF 0x6E 0xB4 ''hotpink1'', named_color 0xEE 0x6A 0xA7 ''hotpink2'',
     named_color 0xCD 0x60 0x90 ''hotpink3'', named_color 0x8B 0x3A 0x62 ''hotpink4'',
     named_color 0xCD 0x5C 0x5C ''indianred'', named_color 0xFF 0x6A 0x6A ''indianred1'',
     named_color 0xEE 0x63 0x63 ''indianred2'', named_color 0xCD 0x55 0x55 ''indianred3'',
     named_color 0x8B 0x3A 0x3A ''indianred4'', named_color 0x4B 0x00 0x82 ''indigo'',
     named_color 0xFF 0xFF 0xF0 ''ivory'', named_color 0xFF 0xFF 0xF0 ''ivory1'',
     named_color 0xEE 0xEE 0xE0 ''ivory2'', named_color 0xCD 0xCD 0xC1 ''ivory3'',
     named_color 0x8B 0x8B 0x83 ''ivory4'', named_color 0xF0 0xE6 0x8C ''khaki'',
     named_color 0xFF 0xF6 0x8F ''khaki1'', named_color 0xEE 0xE6 0x85 ''khaki2'',
     named_color 0xCD 0xC6 0x73 ''khaki3'', named_color 0x8B 0x86 0x4E ''khaki4'',
     named_color 0xE6 0xE6 0xFA ''lavender'', named_color 0xFF 0xF0 0xF5 ''lavenderblush'',
     named_color 0xFF 0xF0 0xF5 ''lavenderblush1'', named_color 0xEE 0xE0 0xE5 ''lavenderblush2'',
     named_color 0xCD 0xC1 0xC5 ''lavenderblush3'', named_color 0x8B 0x83 0x86 ''lavenderblush4'',
     named_color 0x7C 0xFC 0x00 ''lawngreen'', named_color 0xFF 0xFA 0xCD ''lemonchiffon'',
     named_color 0xFF 0xFA 0xCD ''lemonchiffon1'', named_color 0xEE 0xE9 0xBF ''lemonchiffon2'',
     named_color 0xCD 0xC9 0xA5 ''lemonchiffon3'', named_color 0x8B 0x89 0x70 ''lemonchiffon4'',
     named_color 0xAD 0xD8 0xE6 ''lightblue'', named_color 0xBF 0xEF 0xFF ''lightblue1'',
     named_color 0xB2 0xDF 0xEE ''lightblue2'', named_color 0x9A 0xC0 0xCD ''lightblue3'',
     named_color 0x68 0x83 0x8B ''lightblue4'', named_color 0xF0 0x80 0x80 ''lightcoral'',
     named_color 0xE0 0xFF 0xFF ''lightcyan'', named_color 0xE0 0xFF 0xFF ''lightcyan1'',
     named_color 0xD1 0xEE 0xEE ''lightcyan2'', named_color 0xB4 0xCD 0xCD ''lightcyan3'',
     named_color 0x7A 0x8B 0x8B ''lightcyan4'', named_color 0xEE 0xDD 0x82 ''lightgoldenrod'',
     named_color 0xFF 0xEC 0x8B ''lightgoldenrod1'', named_color 0xEE 0xDC 0x82 ''lightgoldenrod2'',
     named_color 0xCD 0xBE 0x70 ''lightgoldenrod3'', named_color 0x8B 0x81 0x4C ''lightgoldenrod4'',
     named_color 0xFA 0xFA 0xD2 ''lightgoldenrodyellow'', named_color 0xD3 0xD3 0xD3 ''lightgray'',
     named_color 0x90 0xEE 0x90 ''lightgreen'', named_color 0xD3 0xD3 0xD3 ''lightgrey'',
     named_color 0xFF 0xB6 0xC1 ''lightpink'', named_color 0xFF 0xAE 0xB9 ''lightpink1'',
     named_color 0xEE 0xA2 0xAD ''lightpink2'', named_color 0xCD 0x8C 0x95 ''lightpink3'',
     named_color 0x8B 0x5F 0x65 ''lightpink4'', named_color 0xFF 0xA0 0x7A ''lightsalmon'',
     named_color 0xFF 0xA0 0x7A ''lightsalmon1'', named_color 0xEE 0x95 0x72 ''lightsalmon2'',
     named_color 0xCD 0x81 0x62 ''lightsalmon3'', named_color 0x8B 0x57 0x42 ''lightsalmon4'',
     named_color 0x20 0xB2 0xAA ''lightseagreen'', named_color 0x87 0xCE 0xFA ''lightskyblue'',
     named_color 0xB0 0xE2 0xFF ''lightskyblue1'', named_color 0xA4 0xD3 0xEE ''lightskyblue2'',
     named_color 0x8D 0xB6 0xCD ''lightskyblue3'', named_color 0x60 0x7B 0x8B ''lightskyblue4'',
     named_color 0x84 0x70 0xFF ''lightslateblue'', named_color 0x77 0x88 0x99 ''lightslategray'',
     named_color 0x77 0x88 0x99 ''lightslategrey'', named_color 0xB0 0xC4 0xDE ''lightsteelblue'',
     named_color 0xCA 0xE1 0xFF ''lightsteelblue1'', named_color 0xBC 0xD2 0xEE ''lightsteelblue2'',
     named_color 0xA2 0xB5 0xCD ''lightsteelblue3'', named_color 0x6E 0x7B 0x8B ''lightsteelblue4'',
     named_color 0xFF 0xFF 0xE0 ''lightyellow'', named_color 0xFF 0xFF 0xE0 ''lightyellow1'',
     named_color 0xEE 0xEE 0xD1 ''lightyellow2'', named_color 0xCD 0xCD 0xB4 ''lightyellow3'',
     named_color 0x8B 0x8B 0x7A ''lightyellow4'', named_color 0x00 0xFF 0x00 ''lime'',
     named_color 0x32 0xCD 0x32 ''limegreen'', named_color 0xFA 0xF0 0xE6 ''linen'']"

definition NAMED_COLORS_MNOPQR :: "(guac_terminal_color \<times> string) list" where
  "NAMED_COLORS_MNOPQR =
    [named_color 0xFF 0x00 0xFF ''magenta'', named_color 0xFF 0x00 0xFF ''magenta1'',
     named_color 0xEE 0x00 0xEE ''magenta2'', named_color 0xCD 0x00 0xCD ''magenta3'',
     named_color 0x8B 0x00 0x8B ''magenta4'', named_color 0xB0 0x30 0x60 ''maroon'',
     named_color 0xFF 0x34 0xB3 ''maroon1'', named_color 0xEE 0x30 0xA7 ''maroon2'',
     named_color 0xCD 0x29 0x90 ''maroon3'', named_color 0x8B 0x1C 0x62 ''maroon4'',
     named_color 0x66 0xCD 0xAA ''mediumaquamarine'', named_color 0x00 0x00 0xCD ''mediumblue'',
     named_color 0xBA 0x55 0xD3 ''mediumorchid'', named_color 0xE0 0x66 0xFF ''mediumorchid1'',
     named_color 0xD1 0x5F 0xEE ''mediumorchid2'', named_color 0xB4 0x52 0xCD ''mediumorchid3'',
     named_color 0x7A 0x37 0x8B ''mediumorchid4'', named_color 0x93 0x70 0xDB ''mediumpurple'',
     named_color 0xAB 0x82 0xFF ''mediumpurple1'', named_color 0x9F 0x79 0xEE ''mediumpurple2'',
     named_color 0x89 0x68 0xCD ''mediumpurple3'', named_color 0x5D 0x47 0x8B ''mediumpurple4'',
     named_color 0x3C 0xB3 0x71 ''mediumseagreen'', named_color 0x7B 0x68 0xEE ''mediumslateblue'',
     named_color 0x00 0xFA 0x9A ''mediumspringgreen'', named_color 0x48 0xD1 0xCC ''mediumturquoise'',
     named_color 0xC7 0x15 0x85 ''mediumvioletred'', named_color 0x19 0x19 0x70 ''midnightblue'',
     named_color 0xF5 0xFF 0xFA ''mintcream'', named_color 0xFF 0xE4 0xE1 ''mistyrose'',
     named_color 0xFF 0xE4 0xE1 ''mistyrose1'', named_color 0xEE 0xD5 0xD2 ''mistyrose2'',
     named_color 0xCD 0xB7 0xB5 ''mistyrose3'', named_color 0x8B 0x7D 0x7B ''mistyrose4'',
     named_color 0xFF 0xE4 0xB5 ''moccasin'', named_color 0xFF 0xDE 0xAD ''navajowhite'',
     named_color 0xFF 0xDE 0xAD ''navajowhite1'', named_color 0xEE 0xCF 0xA1 ''navajowhite2'',
     named_color 0xCD 0xB3 0x8B ''navajowhite3'', named_color 0x8B 0x79 0x5E ''navajowhite4'',
     named_color 0x00 0x00 0x80 ''navy'', named_color 0x00 0x00 0x80 ''navyblue'',
     named_color 0xFD 0xF5 0xE6 ''oldlace'', named_color 0x80 0x80 0x00 ''olive'',
     named_color 0x6B 0x8E 0x23 ''olivedrab'', named_color 0xC0 0xFF 0x3E ''olivedrab1'',
     named_color 0xB3 0xEE 0x3A ''olivedrab2'', named_color 0x9A 0xCD 0x32 ''olivedrab3'',
     named_color 0x69 0x8B 0x22 ''olivedrab4'', named_color 0xFF 0xA5 0x00 ''orange'',
     named_color 0xFF 0xA5 0x00 ''orange1'', named_color 0xEE 0x9A 0x00 ''orange2'',
     named_color 0xCD 0x85 0x00 ''orange3'', named_color 0x8B 0x5A 0x00 ''orange4'',
     named_color 0xFF 0x45 0x00 ''orangered'', named_color 0xFF 0x45 0x00 ''orangered1'',
     named_color 0xEE 0x40 0x00 ''orangered2'', named_color 0xCD 0x37 0x00 ''orangered3'',
     named_color 0x8B 0x25 0x00 ''orangered4'', named_color 0xDA 0x70 0xD6 ''orchid'',
     named_color 0xFF 0x83 0xFA ''orchid1'', named_color 0xEE 0x7A 0xE9 ''orchid2'',
     named_color 0xCD 0x69 0xC9 ''orchid3'', named_color 0x8B 0x47 0x89 ''orchid4'',
     named_color 0xEE 0xE8 0xAA ''palegoldenrod'', named_color 0x98 0xFB 0x98 ''palegreen'',
     named_color 0x9A 0xFF 0x9A ''palegreen1'', named_color 0x90 0xEE 0x90 ''palegreen2'',
     named_color 0x7C 0xCD 0x7C ''palegreen3'', named_color 0x54 0x8B 0x54 ''palegreen4'',
     named_color 0xAF 0xEE 0xEE ''paleturquoise'', named_color 0xBB 0xFF 0xFF ''paleturquoise1'',
     named_color 0xAE 0xEE 0xEE ''paleturquoise2'', named_color 0x96 0xCD 0xCD ''paleturquoise3'',
     named_color 0x66 0x8B 0x8B ''paleturquoise4'', named_color 0xDB 0x70 0x93 ''palevioletred'',
     named_color 0xFF 0x82 0xAB ''palevioletred1'', named_color 0xEE 0x79 0x9F ''palevioletred2'',
     named_color 0xCD 0x68 0x89 ''palevioletred3'', named_color 0x8B 0x47 0x5D ''palevioletred4'',
     named_color 0xFF 0xEF 0xD5 ''papayawhip'', named_color 0xFF 0xDA 0xB9 ''peachpuff'',
     named_color 0xFF 0xDA 0xB9 ''peachpuff1'', named_color 0xEE 0xCB 0xAD ''peachpuff2'',
     named_color 0xCD 0xAF 0x95 ''peachpuff3'', named_color 0x8B 0x77 0x65 ''peachpuff4'',
     named_color 0xCD 0x85 0x3F ''peru'', named_color 0xFF 0xC0 0xCB ''pink'',
     named_color 0xFF 0xB5 0xC5 ''pink1'', named_color 0xEE 0xA9 0xB8 ''pink2'',
     named_color 0xCD 0x91 0x9E ''pink3'', named_color 0x8B 0x63 0x6C ''pink4'',
     named_color 0xDD 0xA0 0xDD ''plum'', named_color 0xFF 0xBB 0xFF ''plum1'',
     named_color 0xEE 0xAE 0xEE ''plum2'', named_color 0xCD 0x96 0xCD ''plum3'',
     named_color 0x8B 0x66 0x8B ''plum4'', named_color 0xB0 0xE0 0xE6 ''powderblue'',
     named_color 0xA0 0x20 0xF0 ''purple'', named_color 0x9B 0x30 0xFF ''purple1'',
     named_color 0x91 0x2C 0xEE ''purple2'', named_color 0x7D 0x26 0xCD ''purple3'',
     named_color 0x55 0x1A 0x8B ''purple4'', named_color 0x66 0x33 0x99 ''rebeccapurple'',
     named_color 0xFF 0x00 0x00 ''red'', named_color 0xFF 0x00 0x00 ''red1'',
     named_color 0xEE 0x00 0x00 ''red2'', named_color 0xCD 0x00 0x00 ''red3'',
     named_color 0x8B 0x00 0x00 ''red4'', named_color 0xBC 0x8F 0x8F ''rosybrown'',
     named_color 0xFF 0xC1 0xC1 ''rosybrown1'', named_color 0xEE 0xB4 0xB4 ''rosybrown2'',
     named_color 0xCD 0x9B 0x9B ''rosybrown3'', named_color 0x8B 0x69 0x69 ''rosybrown4'',
     named_color 0x41 0x69 0xE1 ''royalblue'', named_color 0x48 0x76 0xFF ''royalblue1'',
     named_color 0x43 0x6E 0xEE ''royalblue2'', named_color 0x3A 0x5F 0xCD ''royalblue3'',
     named_color 0x27 0x40 0x8B ''royalblue4'']"

definition NAMED_COLORS_STUVWXY :: "(guac_terminal_color \<times> string) list" where
  "NAMED_COLORS_STUVWXY =
    [named_color 0x8B 0x45 0x13 ''saddlebrown'', named_color 0xFA 0x80 0x72 ''salmon'',
     named_color 0xFF 0x8C 0x69 ''salmon1'', named_color 0xEE 0x82 0x62 ''salmon2'',
     named_color 0xCD 0x70 0x54 ''salmon3'', named_color 0x8B 0x4C 0x39 ''salmon4'',
     named_color 0xF4 0xA4 0x60 ''sandybrown'', named_color 0x2E 0x8B 0x57 ''seagreen'',
     named_color 0x54 0xFF 0x9F ''seagreen1'', named_color 0x4E 0xEE 0x94 ''seagreen2'',
     named_color 0x43 0xCD 0x80 ''seagreen3'', named_color 0x2E 0x8B 0x57 ''seagreen4'',
     named_color 0xFF 0xF5 0xEE ''seashell'', named_color 0xFF 0xF5 0xEE ''seashell1'',
     named_color 0xEE 0xE5 0xDE ''seashell2'', named_color 0xCD 0xC5 0xBF ''seashell3'',
     named_color 0x8B 0x86 0x82 ''seashell4'', named_color 0xA0 0x52 0x2D ''sienna'',
     named_color 0xFF 0x82 0x47 ''sienna1'', named_color 0xEE 0x79 0x42 ''sienna2'',
     named_color 0xCD 0x68 0x39 ''sienna3'', named_color 0x8B 0x47 0x26 ''sienna4'',
     named_color 0xC0 0xC0 0xC0 ''silver'', named_color 0x87 0xCE 0xEB ''skyblue'',
     named_color 0x87 0xCE 0xFF ''skyblue1'', named_color 0x7E 0xC0 0xEE ''skyblue2'',
     named_color 0x6C 0xA6 0xCD ''skyblue3'', named_color 0x4A 0x70 0x8B ''skyblue4'',
     named_color 0x6A 0x5A 0xCD ''slateblue'', named_color 0x83 0x6F 0xFF ''slateblue1'',
     named_color 0x7A 0x67 0xEE ''slateblue2'', named_color 0x69 0x59 0xCD ''slateblue3'',
     named_color 0x47 0x3C 0x8B ''slateblue4'', named_color 0x70 0x80 0x90 ''slategray'',
     named_color 0xC6 0xE2 0xFF ''slategray1'', named_color 0xB9 0xD3 0xEE ''slategray2'',
     named_color 0x9F 0xB6 0xCD ''slategray3'', named_color 0x6C 0x7B 0x8B ''slategray4'',
     named_color 0x70 0x80 0x90 ''slategrey'', named_color 0xFF 0xFA 0xFA ''snow'',
     named_color 0xFF 0xFA 0xFA ''snow1'', named_color 0xEE 0xE9 0xE9 ''snow2'',
     named_color 0xCD 0xC9 0xC9 ''snow3'', named_color 0x8B 0x89 0x89 ''snow4'',
     named_color 0x00 0xFF 0x7F ''springgreen'', named_color 0x00 0xFF 0x7F ''springgreen1'',
     named_color 0x00 0xEE 0x76 ''springgreen2'', named_color 0x00 0xCD 0x66 ''springgreen3'',
     named_color 0x00 0x8B 0x45 ''springgreen4'', named_color 0x46 0x82 0xB4 ''steelblue'',
     named_color 0x63 0xB8 0xFF ''steelblue1'', named_color 0x5C 0xAC 0xEE ''steelblue2'',
     named_color 0x4F 0x94 0xCD ''steelblue3'', named_color 0x36 0x64 0x8B ''steelblue4'',
     named_color 0xD2 0xB4 0x8C ''tan'', named_color 0xFF 0xA5 0x4F ''tan1'',
     named_color 0xEE 0x9A 0x49 ''tan2'', named_color 0xCD 0x85 0x3F ''tan3'',
     named_color 0x8B 0x5A 0x2B ''tan4'', named_color 0x00 0x80 0x80 ''teal'',
     named_color 0xD8 0xBF 0xD8 ''thistle'', named_color 0xFF 0xE1 0xFF ''thistle1'',
     named_color 0xEE 0xD2 0xEE ''thistle2'', named_color 0xCD 0xB5 0xCD ''thistle3'',
     named_color 0x8B 0x7B 0x8B ''thistle4'', named_color 0xFF 0x63 0x47 ''tomato'',
     named_color 0xFF 0x63 0x47 ''tomato1'', named_color 0xEE 0x5C 0x42 ''tomato2'',
     named_color 0xCD 0x4F 0x39 ''tomato3'', named_color 0x8B 0x36 0x26 ''tomato4'',
     named_color 0x40 0xE0 0xD0 ''turquoise'', named_color 0x00 0xF5 0xFF ''turquoise1'',
     named_color 0x00 0xE5 0xEE ''turquoise2'', named_color 0x00 0xC5 0xCD ''turquoise3'',
     named_color 0x00 0x86 0x8B ''turquoise4'', named_color 0xEE 0x82 0xEE ''violet'',
     named_color 0xD0 0x20 0x90 ''violetred'', named_color 0xFF 0x3E 0x96 ''violetred1'',
     named_color 0xEE 0x3A 0x8C ''violetred2'', named_color 0xCD 0x32 0x78 ''violetred3'',
     named_color 0x8B 0x22 0x52 ''violetred4'', named_color 0x80 0x80 0x80 ''webgray'',
     named_color 0x00 0x80 0x00 ''webgreen'', named_color 0x80 0x80 0x80 ''webgrey'',
     named_color 0x80 0x00 0x00 ''webmaroon'', named_color 0x80 0x00 0x80 ''webpurple'',
     named_color 0xF5 0xDE 0xB3 ''wheat'', named_color 0xFF 0xE7 0xBA ''wheat1'',
     named_color 0xEE 0xD8 0xAE ''wheat2'', named_color 0xCD 0xBA 0x96 ''wheat3'',
     named_color 0x8B 0x7E 0x66 ''wheat4'', named_color 0xFF 0xFF 0xFF ''white'',
     named_color 0xF5 0xF5 0xF5 ''whitesmoke'', named_color 0xBE 0xBE 0xBE ''x11gray'',
     named_color 0x00 0xFF 0x00 ''x11green'', named_color 0xBE 0xBE 0xBE ''x11grey'',
     named_color 0xB0 0x30 0x60 ''x11maroon'', named_color 0xA0 0x20 0xF0 ''x11purple'',
     named_color 0xFF 0xFF 0x00 ''yellow'', named_color 0xFF 0xFF 0x00 ''yellow1'',
     named_color 0xEE 0xEE 0x00 ''yellow2'', named_color 0xCD 0xCD 0x00 ''yellow3'',
     named_color 0x8B 0x8B 0x00 ''yellow4'', named_color 0x9A 0xCD 0x32 ''yellowgreen'']"

definition GUAC_TERMINAL_NAMED_COLORS :: "(guac_terminal_color \<times> string) list" where
  "GUAC_TERMINAL_NAMED_COLORS =
     NAMED_COLORS_ABC @ NAMED_COLORS_DEFG @ NAMED_COLORS_GRAY @ NAMED_COLORS_GREEN_GREY @
     NAMED_COLORS_HIJKL @ NAMED_COLORS_MNOPQR @ NAMED_COLORS_STUVWXY"

text \<open>The signed value of a byte, and the classes and the lower case of the C locale.\<close>

definition signed_char :: "int \<Rightarrow> int" where
  "signed_char c = (if c \<ge> 128 then c - 256 else c)"

definition isspace :: "int \<Rightarrow> bool" where
  "isspace c \<longleftrightarrow> c = 32 \<or> (9 \<le> c \<and> c \<le> 13)"

definition tolower :: "int \<Rightarrow> int" where
  "tolower c = (if 65 \<le> c \<and> c \<le> 90 then c + 32 else c)"

fun guac_terminal_named_color_search :: "int list \<Rightarrow> string \<Rightarrow> int" where
  "guac_terminal_named_color_search [] [] = 0"
| "guac_terminal_named_color_search [] (n # name) = -1"
| "guac_terminal_named_color_search (k # key) [] = 0"
| "guac_terminal_named_color_search (k # key) (n # name) =
     (case dropWhile isspace (k # key) of
        [] \<Rightarrow> 0 - of_char n
      | c # key' \<Rightarrow>
          let keyChar = (if c = 59 then 0 else tolower (signed_char c)); difference = keyChar - of_char n
          in if difference \<noteq> 0 then difference else guac_terminal_named_color_search key' name)"

text \<open>The binary search of the C library: the given function compares the key with an element.\<close>

function bsearch :: "('a \<Rightarrow> int) \<Rightarrow> 'a list \<Rightarrow> nat \<Rightarrow> nat \<Rightarrow> 'a option" where
  "bsearch compar xs lo hi =
     (if lo < hi
      then
        let i = (lo + hi) div 2; comparison = compar (xs ! i)
        in if comparison < 0 then bsearch compar xs lo i
           else if comparison > 0 then bsearch compar xs (i + 1) hi
           else Some (xs ! i)
      else None)"
  by auto
termination
  by (relation "measure (\<lambda>(compar, xs, lo, hi). hi - lo)") auto

declare bsearch.simps [simp del]

definition guac_terminal_find_color :: "int list \<Rightarrow> guac_terminal_color option" where
  "guac_terminal_find_color name =
     map_option fst (bsearch (\<lambda>entry. guac_terminal_named_color_search name (snd entry))
       GUAC_TERMINAL_NAMED_COLORS 0 (length GUAC_TERMINAL_NAMED_COLORS))"

section \<open>Color specifications\<close>

text \<open>
  The directive \<open>%x\<close> with a field width: white space is skipped, then follow an optional sign, an
  optional \<open>0x\<close> and the digits, all of which count for the width.
\<close>

definition hex_digit :: "int \<Rightarrow> int option" where
  "hex_digit c =
     (if 48 \<le> c \<and> c \<le> 57 then Some (c - 48)
      else if 97 \<le> c \<and> c \<le> 102 then Some (c - 87)
      else if 65 \<le> c \<and> c \<le> 70 then Some (c - 55) else None)"

fun scan_digits :: "nat \<Rightarrow> int \<Rightarrow> int list \<Rightarrow> int \<times> int list" where
  "scan_digits (Suc n) v (c # s) =
     (case hex_digit c of None \<Rightarrow> (v, c # s) | Some d \<Rightarrow> scan_digits n (v * 16 + d) s)"
| "scan_digits n v s = (v, s)"

definition scan_hex :: "nat \<Rightarrow> int list \<Rightarrow> (int \<times> int list) option" where
  "scan_hex n s =
     (let s = dropWhile isspace s;
          (sign, n, s) = (case s of c # s' \<Rightarrow> if c = 45 then (-1, n - 1, s') else if c = 43 then (1, n - 1, s') else (1, n, s)
                                  | [] \<Rightarrow> (1, n, s));
          (n, s) = (case s of c # x # s' \<Rightarrow> if c = 48 \<and> (x = 120 \<or> x = 88) \<and> n \<ge> 2 then (n - 2, s') else (n, s)
                            | _ \<Rightarrow> (n, s));
          (v, rest) = scan_digits n 0 s
      in if length rest < length s then Some (sign * v, rest) else None)"

fun scan_literal :: "int list \<Rightarrow> int list \<Rightarrow> int list option" where
  "scan_literal [] s = Some s"
| "scan_literal (c # cs) s = (case s of [] \<Rightarrow> None | x # xs \<Rightarrow> if x = c then scan_literal cs xs else None)"

text \<open>The format \<open>rgb:%nx/%nx/%nx\<close> with all three conversions done.\<close>

definition scan_rgb :: "nat \<Rightarrow> int list \<Rightarrow> (int \<times> int \<times> int) option" where
  "scan_rgb n s =
     Option.bind (scan_literal (map of_char ''rgb:'') s) (\<lambda>s.
     Option.bind (scan_hex n s) (\<lambda>(red, s).
     Option.bind (scan_literal (map of_char ''/'') s) (\<lambda>s.
     Option.bind (scan_hex n s) (\<lambda>(green, s).
     Option.bind (scan_literal (map of_char ''/'') s) (\<lambda>s.
     Option.bind (scan_hex n s) (\<lambda>(blue, s). Some (red, green, blue)))))))"

definition rgb_color :: "(int \<Rightarrow> int) \<Rightarrow> int \<times> int \<times> int \<Rightarrow> guac_terminal_color" where
  "rgb_color f = (\<lambda>(red, green, blue).
     palette_color (-1) (word_of_int (f red)) (word_of_int (f green)) (word_of_int (f blue)))"

definition guac_terminal_xparsecolor :: "int list \<Rightarrow> guac_terminal_color option" where
  "guac_terminal_xparsecolor spec =
     (case scan_rgb 1 spec of Some c \<Rightarrow> Some (rgb_color (push_bit 4) c)
      | None \<Rightarrow>
     (case scan_rgb 2 spec of Some c \<Rightarrow> Some (rgb_color (\<lambda>v. v) c)
      | None \<Rightarrow>
     (case scan_rgb 3 spec of Some c \<Rightarrow> Some (rgb_color (drop_bit 4) c)
      | None \<Rightarrow>
     (case scan_rgb 4 spec of Some c \<Rightarrow> Some (rgb_color (drop_bit 8) c)
      | None \<Rightarrow> guac_terminal_find_color spec))))"

section \<open>The search\<close>

text \<open>
  Lexicographic order of names. A name that precedes the key without being a prefix of it sends the
  search to the right, a name that follows the key sends it to the left.
\<close>

fun name_less :: "string \<Rightarrow> string \<Rightarrow> bool" where
  "name_less [] [] = False"
| "name_less [] (y # ys) = True"
| "name_less (x # xs) [] = False"
| "name_less (x # xs) (y # ys) = (if x = y then name_less xs ys else (of_char x :: int) < of_char y)"

definition lowercase_name :: "string \<Rightarrow> bool" where
  "lowercase_name name \<longleftrightarrow>
     (\<forall>c \<in> set name. (97 \<le> (of_char c :: int) \<and> (of_char c :: int) \<le> 122) \<or> (48 \<le> (of_char c :: int) \<and> (of_char c :: int) \<le> 57))"

abbreviation codes :: "string \<Rightarrow> int list" where
  "codes \<equiv> map of_char"

lemma name_less_trans: "name_less xs ys \<Longrightarrow> name_less ys zs \<Longrightarrow> name_less xs zs"
proof (induction xs ys arbitrary: zs rule: name_less.induct)
  case (2 y ys)
  then show ?case by (cases zs) auto
next
  case (4 x xs y ys)
  then show ?case by (cases zs) (auto split: if_splits)
qed auto

lemma search_plain:
  assumes "lowercase_name (k # key)"
  shows "guac_terminal_named_color_search (codes (k # key)) (n # name) =
    (if k = n then guac_terminal_named_color_search (codes key) name else of_char k - of_char n)"
proof -
  have k: "(97 \<le> (of_char k :: int) \<and> (of_char k :: int) \<le> 122) \<or> (48 \<le> (of_char k :: int) \<and> (of_char k :: int) \<le> 57)"
    using assms by (simp add: lowercase_name_def)
  have "\<not> isspace (of_char k)" "signed_char (of_char k) = of_char k" "tolower (of_char k) = of_char k" "(of_char k :: int) \<noteq> 59"
    using k by (auto simp: isspace_def signed_char_def tolower_def)
  then show ?thesis by (simp add: Let_def)
qed

lemma search_order:
  assumes "lowercase_name key"
  shows "guac_terminal_named_color_search (codes key) key = 0"
    and "name_less key name \<Longrightarrow> guac_terminal_named_color_search (codes key) name < 0"
    and "name_less name key \<Longrightarrow> \<not> prefix name key \<Longrightarrow> guac_terminal_named_color_search (codes key) name > 0"
    and "guac_terminal_named_color_search (codes key) name = 0 \<longleftrightarrow> prefix name key"
proof -
  have *: "lowercase_name (k # key) \<Longrightarrow> lowercase_name key" for k key by (simp add: lowercase_name_def)
  have z: "guac_terminal_named_color_search ks [] = 0" for ks by (cases ks) simp_all
  show "guac_terminal_named_color_search (codes key) key = 0"
    using assms by (induction key) (use * search_plain in auto)
  show "name_less key name \<Longrightarrow> guac_terminal_named_color_search (codes key) name < 0"
    using assms by (induction key name rule: name_less.induct) (use * search_plain in \<open>auto split: if_splits\<close>)
  show "name_less name key \<Longrightarrow> \<not> prefix name key \<Longrightarrow> guac_terminal_named_color_search (codes key) name > 0"
    using assms by (induction name key rule: name_less.induct) (use * search_plain in \<open>auto split: if_splits\<close>)
  show "guac_terminal_named_color_search (codes key) name = 0 \<longleftrightarrow> prefix name key"
    using assms by (induction name key rule: name_less.induct) (use * search_plain z in auto)
qed

lemma bsearch_finds:
  assumes "lo \<le> m" "m < hi" "compar (xs ! m) = 0"
    and "\<And>i. lo \<le> i \<Longrightarrow> i < m \<Longrightarrow> compar (xs ! i) \<ge> 0" and "\<And>i. m < i \<Longrightarrow> i < hi \<Longrightarrow> compar (xs ! i) < 0"
  shows "\<exists>i. lo \<le> i \<and> i \<le> m \<and> compar (xs ! i) = 0 \<and> bsearch compar xs lo hi = Some (xs ! i)"
  using assms
proof (induction compar xs lo hi rule: bsearch.induct)
  case (1 compar xs lo hi)
  define k where "k = (lo + hi) div 2"
  have k: "lo \<le> k" "k < hi" "lo < hi" using 1(3,4) by (auto simp: k_def)
  have unfold: "bsearch compar xs lo hi =
      (if compar (xs ! k) < 0 then bsearch compar xs lo k
       else if compar (xs ! k) > 0 then bsearch compar xs (k + 1) hi else Some (xs ! k))"
    using k by (subst bsearch.simps) (simp add: Let_def k_def)
  consider "compar (xs ! k) = 0" | "compar (xs ! k) > 0" | "compar (xs ! k) < 0" by linarith
  then show ?case
  proof cases
    assume c: "compar (xs ! k) = 0"
    then have "k \<le> m" using 1(7) [of k] k by (cases "m < k") auto
    then show ?thesis using c k unfold by auto
  next
    assume c: "compar (xs ! k) > 0"
    then have "k < m" using 1(5) 1(7) [of k] k by (metis less_irrefl linorder_neqE_nat not_less_iff_gr_or_eq)
    then have "\<exists>i. k + 1 \<le> i \<and> i \<le> m \<and> compar (xs ! i) = 0 \<and> bsearch compar xs (k + 1) hi = Some (xs ! i)"
      using 1(2) [OF k(3) k_def refl] c 1(4-) k by simp
    moreover have "bsearch compar xs lo hi = bsearch compar xs (k + 1) hi" using c unfold by simp
    ultimately show ?thesis using k(1) by (metis add_leD1 le_trans)
  next
    assume c: "compar (xs ! k) < 0"
    then have "m < k" using 1(5) 1(6) [of k] k by (metis leD less_irrefl linorder_neqE_nat)
    then have "\<exists>i. lo \<le> i \<and> i \<le> m \<and> compar (xs ! i) = 0 \<and> bsearch compar xs lo k = Some (xs ! i)"
      using 1(1) [OF k(3) k_def refl c] 1(3,5-) k by simp
    then show ?thesis using c unfold by auto
  qed
qed

text \<open>The names are in order, block by block, and consist of lower case letters and digits.\<close>

definition sorted_block :: "string \<Rightarrow> string \<Rightarrow> (guac_terminal_color \<times> string) list \<Rightarrow> bool" where
  "sorted_block first final es \<longleftrightarrow>
     es \<noteq> [] \<and> snd (hd es) = first \<and> snd (last es) = final \<and>
     successively name_less (map snd es) \<and> list_all (\<lambda>e. lowercase_name (snd e)) es"

lemma sorted_block_append:
  "sorted_block a b xs \<Longrightarrow> sorted_block c d ys \<Longrightarrow> name_less b c \<Longrightarrow> sorted_block a d (xs @ ys)"
  by (simp add: sorted_block_def successively_append_iff hd_map last_map)

lemma sorted_ABC: "sorted_block ''aliceblue'' ''cyan4'' NAMED_COLORS_ABC"
  by (simp add: NAMED_COLORS_ABC_def named_color_def sorted_block_def lowercase_name_def)

lemma sorted_DEFG: "sorted_block ''darkblue'' ''goldenrod4'' NAMED_COLORS_DEFG"
  by (simp add: NAMED_COLORS_DEFG_def named_color_def sorted_block_def lowercase_name_def)

lemma sorted_GRAY: "sorted_block ''gray'' ''gray99'' NAMED_COLORS_GRAY"
  by (simp add: NAMED_COLORS_GRAY_def named_color_def sorted_block_def lowercase_name_def)

lemma sorted_GREEN_GREY: "sorted_block ''green'' ''grey99'' NAMED_COLORS_GREEN_GREY"
  by (simp add: NAMED_COLORS_GREEN_GREY_def named_color_def sorted_block_def lowercase_name_def)

lemma sorted_HIJKL: "sorted_block ''honeydew'' ''linen'' NAMED_COLORS_HIJKL"
  by (simp add: NAMED_COLORS_HIJKL_def named_color_def sorted_block_def lowercase_name_def)

lemma sorted_MNOPQR: "sorted_block ''magenta'' ''royalblue4'' NAMED_COLORS_MNOPQR"
  by (simp add: NAMED_COLORS_MNOPQR_def named_color_def sorted_block_def lowercase_name_def)

lemma sorted_STUVWXY: "sorted_block ''saddlebrown'' ''yellowgreen'' NAMED_COLORS_STUVWXY"
  by (simp add: NAMED_COLORS_STUVWXY_def named_color_def sorted_block_def lowercase_name_def)

lemma sorted_names: "sorted_block ''aliceblue'' ''yellowgreen'' GUAC_TERMINAL_NAMED_COLORS"
  unfolding GUAC_TERMINAL_NAMED_COLORS_def
  by (rule sorted_block_append sorted_ABC sorted_DEFG sorted_GRAY sorted_GREEN_GREY sorted_HIJKL sorted_MNOPQR sorted_STUVWXY
      | simp)+

lemma name_less_transp: "transp name_less"
  by (rule transpI) (rule name_less_trans)

lemma names_ordered:
  assumes "i < j" "j < length GUAC_TERMINAL_NAMED_COLORS"
  shows "name_less (snd (GUAC_TERMINAL_NAMED_COLORS ! i)) (snd (GUAC_TERMINAL_NAMED_COLORS ! j))"
proof -
  have "sorted_wrt name_less (map snd GUAC_TERMINAL_NAMED_COLORS)"
    using sorted_names successively_conv_sorted_wrt [OF name_less_transp] by (simp add: sorted_block_def)
  then show ?thesis using assms by (simp add: sorted_wrt_iff_nth_less)
qed

lemma name_less_irrefl: "\<not> name_less xs xs"
  by (induction xs) simp_all

lemma darkorange1:
  "(palette_color (-1) 0xFF 0x7F 0x00, ''darkorange1'') \<in> set GUAC_TERMINAL_NAMED_COLORS"
  "guac_terminal_find_color (codes ''darkorange1'') = Some (palette_color (-1) 0xFF 0x8C 0x00)"
  subgoal by (simp add: GUAC_TERMINAL_NAMED_COLORS_def NAMED_COLORS_DEFG_def named_color_def)
  subgoal by code_simp
  done

text \<open>A name of the table is found, or an earlier one that is a prefix of it.\<close>

lemma find_color_position:
  assumes "m < length GUAC_TERMINAL_NAMED_COLORS"
  defines "name \<equiv> \<lambda>i. snd (GUAC_TERMINAL_NAMED_COLORS ! i)"
  shows "\<exists>i \<le> m. prefix (name i) (name m) \<and>
    guac_terminal_find_color (codes (name m)) = Some (fst (GUAC_TERMINAL_NAMED_COLORS ! i))"
proof -
  let ?c = "\<lambda>entry. guac_terminal_named_color_search (codes (name m)) (snd entry)"
  have lower: "lowercase_name (name m)"
    using sorted_names assms(1) by (simp add: sorted_block_def list_all_length name_def)
  note order = search_order [OF lower]
  have "\<exists>i. 0 \<le> i \<and> i \<le> m \<and> ?c (GUAC_TERMINAL_NAMED_COLORS ! i) = 0 \<and>
      bsearch ?c GUAC_TERMINAL_NAMED_COLORS 0 (length GUAC_TERMINAL_NAMED_COLORS) = Some (GUAC_TERMINAL_NAMED_COLORS ! i)"
  proof (rule bsearch_finds)
    show "?c (GUAC_TERMINAL_NAMED_COLORS ! m) = 0" using order(1) by (simp add: name_def)
    show "?c (GUAC_TERMINAL_NAMED_COLORS ! i) \<ge> 0" if "i < m" for i
      using order(3) [of "name i"] order(4) [of "name i"] names_ordered [OF that assms(1)]
      by (cases "prefix (name i) (name m)") (auto simp: name_def)
    show "?c (GUAC_TERMINAL_NAMED_COLORS ! i) < 0" if "m < i" "i < length GUAC_TERMINAL_NAMED_COLORS" for i
      using order(2) [of "name i"] names_ordered [OF that] by (simp add: name_def)
  qed (use assms(1) in auto)
  then obtain i where i: "i \<le> m" "?c (GUAC_TERMINAL_NAMED_COLORS ! i) = 0"
      "bsearch ?c GUAC_TERMINAL_NAMED_COLORS 0 (length GUAC_TERMINAL_NAMED_COLORS) = Some (GUAC_TERMINAL_NAMED_COLORS ! i)"
    by auto
  have "prefix (name i) (name m)" using i(2) order(4) [of "name i"] by (simp add: name_def)
  moreover have "guac_terminal_find_color (codes (name m)) = Some (fst (GUAC_TERMINAL_NAMED_COLORS ! i))"
    using i(3) by (simp add: guac_terminal_find_color_def)
  ultimately show ?thesis using i(1) by blast
qed

text \<open>
  Color names. For every name of the table a color is found: that of the name itself or of another
  name of the table that is a prefix of it. The color is the right one if there is no such other name -
  but the comparison takes a name that is only a prefix of the key for the key itself, and so
  \<open>darkorange1\<close>, whose color is \<open>FF7F00\<close>, is given the color of \<open>darkorange\<close>, \<open>FF8C00\<close>.
\<close>

theorem named_color_lookup:
  assumes "(c, name) \<in> set GUAC_TERMINAL_NAMED_COLORS"
  shows "(\<exists>(c', name') \<in> set GUAC_TERMINAL_NAMED_COLORS. prefix name' name \<and> guac_terminal_find_color (codes name) = Some c') \<and>
    ((\<forall>(c', name') \<in> set GUAC_TERMINAL_NAMED_COLORS. prefix name' name \<longrightarrow> name' = name) \<longrightarrow>
       guac_terminal_find_color (codes name) = Some c) \<and>
    (palette_color (-1) 0xFF 0x7F 0x00, ''darkorange1'') \<in> set GUAC_TERMINAL_NAMED_COLORS \<and>
    guac_terminal_find_color (codes ''darkorange1'') = Some (palette_color (-1) 0xFF 0x8C 0x00)"
proof -
  have dark: "(palette_color (-1) 0xFF 0x7F 0x00, ''darkorange1'') \<in> set GUAC_TERMINAL_NAMED_COLORS"
    "guac_terminal_find_color (codes ''darkorange1'') = Some (palette_color (-1) 0xFF 0x8C 0x00)"
    by (rule darkorange1)+
  obtain m where m: "m < length GUAC_TERMINAL_NAMED_COLORS" "GUAC_TERMINAL_NAMED_COLORS ! m = (c, name)"
    using assms by (auto simp: in_set_conv_nth)
  obtain i where i: "i \<le> m" "prefix (snd (GUAC_TERMINAL_NAMED_COLORS ! i)) name"
    "guac_terminal_find_color (codes name) = Some (fst (GUAC_TERMINAL_NAMED_COLORS ! i))"
    using find_color_position [OF m(1)] m(2) by auto
  have mem: "GUAC_TERMINAL_NAMED_COLORS ! i \<in> set GUAC_TERMINAL_NAMED_COLORS"
    using i(1) m(1) by (intro nth_mem) simp
  have "guac_terminal_find_color (codes name) = Some c"
    if "\<forall>(c', name') \<in> set GUAC_TERMINAL_NAMED_COLORS. prefix name' name \<longrightarrow> name' = name"
  proof -
    have "snd (GUAC_TERMINAL_NAMED_COLORS ! i) = name" using that mem i(2) by (auto simp: split_def)
    then have "\<not> i < m" using names_ordered [of i m] m by (auto simp: name_less_irrefl)
    then show ?thesis using i m by simp
  qed
  moreover have "\<exists>(c', name') \<in> set GUAC_TERMINAL_NAMED_COLORS. prefix name' name \<and> guac_terminal_find_color (codes name) = Some c'"
    using mem i(2,3) by (intro bexI [OF _ mem]) (simp add: split_def)
  ultimately show ?thesis using dark by blast
qed

theorem named_color_lookup_witness:
  "\<exists>(c', name') \<in> set GUAC_TERMINAL_NAMED_COLORS. prefix name' ''aliceblue'' \<and> guac_terminal_find_color (codes ''aliceblue'') = Some c'"
  by (rule named_color_lookup [THEN conjunct1, of "palette_color (-1) 0xF0 0xF8 0xFF" "''aliceblue''"])
    (simp add: GUAC_TERMINAL_NAMED_COLORS_def NAMED_COLORS_ABC_def named_color_def)

end
