(* ===== verification/TermDisplay.thy ===== *)
theory TermDisplay
  imports TermBuffer TermColors
begin

text \<open>
  The display of the terminal emulator (\<open>src/src/terminal/display.c\<close>): a grid of pending operations,
  one per screen cell, that is filled by the terminal and drawn when it is flushed, and the color
  palette. Drawing itself is not modelled: \<open>guac_terminal_display_flush_operations\<close> records the
  grid it draws and leaves every cell without an operation, as the three drawing passes do.
\<close>

section \<open>Operations and state\<close>

datatype guac_terminal_operation =
    GUAC_CHAR_NOP
  | GUAC_CHAR_COPY int int
  | GUAC_CHAR_SET guac_terminal_char

record guac_terminal_display =
  display_width :: int
  display_height :: int
  operations :: "guac_terminal_operation list"
  unflushed_set :: bool
  palette :: "guac_terminal_color list"
  default_palette :: "guac_terminal_color list option"
  default_foreground :: guac_terminal_color
  default_background :: guac_terminal_color
  drawn :: "guac_terminal_operation list list"

definition guac_terminal_display_flush_operations :: "guac_terminal_display \<Rightarrow> guac_terminal_display" where
  "guac_terminal_display_flush_operations d =
     d\<lparr>operations := map (\<lambda>_. GUAC_CHAR_NOP) (operations d), unflushed_set := False, drawn := drawn d @ [operations d]\<rparr>"

section \<open>The palette\<close>

definition GUAC_TERMINAL_COLOR_FOREGROUND :: int where "GUAC_TERMINAL_COLOR_FOREGROUND = -2"
definition GUAC_TERMINAL_COLOR_BACKGROUND :: int where "GUAC_TERMINAL_COLOR_BACKGROUND = -3"
definition GUAC_TERMINAL_FIRST_INTENSE :: int where "GUAC_TERMINAL_FIRST_INTENSE = 8"

definition guac_terminal_display_reset_palette :: "guac_terminal_display \<Rightarrow> guac_terminal_display" where
  "guac_terminal_display_reset_palette d =
     d\<lparr>palette := (case default_palette d of Some p \<Rightarrow> p | None \<Rightarrow> GUAC_TERMINAL_INITIAL_PALETTE)\<rparr>"

text \<open>An assignment changes the color components only; out of range it fails.\<close>

definition guac_terminal_display_assign_color ::
  "guac_terminal_display \<Rightarrow> int \<Rightarrow> guac_terminal_color \<Rightarrow> guac_terminal_display option" where
  "guac_terminal_display_assign_color d index c =
     (if index < 0 \<or> index > 255 then None
      else Some (d\<lparr>palette := (palette d)[nat index := (palette d ! nat index)
             \<lparr>color_red := color_red c, color_green := color_green c, color_blue := color_blue c\<rparr>]\<rparr>))"

definition guac_terminal_display_lookup_color ::
  "guac_terminal_display \<Rightarrow> int \<Rightarrow> guac_terminal_color option" where
  "guac_terminal_display_lookup_color d index =
     (if index = GUAC_TERMINAL_COLOR_FOREGROUND then Some (default_foreground d)
      else if index = GUAC_TERMINAL_COLOR_BACKGROUND then Some (default_background d)
      else if index < 0 \<or> index > 255 then None
      else Some (palette d ! nat index))"

section \<open>Pending operations\<close>

text \<open>A cell that is moved without a pending operation becomes a copy of its source cell.\<close>

definition as_copy :: "int \<Rightarrow> int \<Rightarrow> guac_terminal_operation \<Rightarrow> guac_terminal_operation" where
  "as_copy row col oper = (if oper = GUAC_CHAR_NOP then GUAC_CHAR_COPY row col else oper)"

text \<open>The fitting of a range that will be moved by an offset into the extent \<open>n\<close> of the display.\<close>

definition fit_copy :: "int \<Rightarrow> int \<Rightarrow> int \<Rightarrow> int \<Rightarrow> (int \<times> int) result" where
  "fit_copy a b offset n =
     (let lo = (if offset \<ge> 0 then 0 else - offset);
          hi = (if offset \<ge> 0 then wrap32 (n - offset - 1) else n - 1)
      in bindr (guac_terminal_fit_to_range a lo hi) (\<lambda>a.
         bindr (guac_terminal_fit_to_range b a hi) (\<lambda>b. Inr (a, b))))"

definition guac_terminal_display_copy_columns ::
  "guac_terminal_display \<Rightarrow> int \<Rightarrow> int \<Rightarrow> int \<Rightarrow> int \<Rightarrow> guac_terminal_display result" where
  "guac_terminal_display_copy_columns d row start_column end_column offset =
     (if row < 0 \<or> row \<ge> display_height d then Inr d
      else bindr (fit_copy start_column end_column offset (display_width d)) (\<lambda>(start_column, end_column).
        let src = nat (row * display_width d + start_column);
            dst = nat (row * display_width d + start_column + offset);
            n = nat (end_column - start_column + 1);
            moved = map (\<lambda>i. as_copy row (start_column + int i) (operations d ! (src + i))) [0..<n]
        in Inr (d\<lparr>operations := overwrite (operations d) dst moved\<rparr>)))"

definition guac_terminal_display_copy_rows ::
  "guac_terminal_display \<Rightarrow> int \<Rightarrow> int \<Rightarrow> int \<Rightarrow> guac_terminal_display result" where
  "guac_terminal_display_copy_rows d start_row end_row offset =
     bindr (fit_copy start_row end_row offset (display_height d)) (\<lambda>(start_row, end_row).
       let src = nat (start_row * display_width d);
           dst = nat ((start_row + offset) * display_width d);
           d = (if unflushed_set d \<and> offset > 0 then guac_terminal_display_flush_operations d else d);
           w = nat (display_width d);
           n = w * nat (end_row - start_row + 1);
           moved = map (\<lambda>i. as_copy (start_row + int (i div w)) (int (i mod w)) (operations d ! (src + i))) [0..<n]
       in Inr (d\<lparr>operations := overwrite (operations d) dst moved\<rparr>))"

text \<open>The loop over the columns of a row, in steps of the width of the character.\<close>

function display_set_loop ::
  "int \<Rightarrow> int \<Rightarrow> int \<Rightarrow> guac_terminal_char \<Rightarrow> guac_terminal_display \<Rightarrow> guac_terminal_display" where
  "display_set_loop base col end_column c d =
     (if 0 < char_width c \<and> col \<le> end_column
      then
        let i = nat (base + col);
            d = (case operations d ! i of GUAC_CHAR_COPY _ _ \<Rightarrow> guac_terminal_display_flush_operations d | _ \<Rightarrow> d)
        in display_set_loop base (col + char_width c) end_column c
             (d\<lparr>operations := (operations d)[i := GUAC_CHAR_SET c]\<rparr>)
      else d)"
  by auto
termination
  by (relation "measure (\<lambda>(base, col, end_column, c, d). nat (end_column + 1 - col))") auto

declare display_set_loop.simps [simp del]

definition guac_terminal_display_set_columns ::
  "guac_terminal_display \<Rightarrow> int \<Rightarrow> int \<Rightarrow> int \<Rightarrow> guac_terminal_char \<Rightarrow> guac_terminal_display result" where
  "guac_terminal_display_set_columns d row start_column end_column c =
     (if char_width c = 0 then Inr d
      else if row < 0 \<or> row \<ge> display_height d then Inr d
      else
        bindr (guac_terminal_fit_to_range start_column 0 (display_width d - 1)) (\<lambda>start_column.
        bindr (guac_terminal_fit_to_range end_column 0 (display_width d - 1)) (\<lambda>end_column.
        defined (char_width c > 0 \<or> end_column < start_column)
          (let d = display_set_loop (row * display_width d) start_column end_column c d
           in Inr (if row > 0 \<and> row < display_height d - 1 then d\<lparr>unflushed_set := True\<rparr> else d)))))"

definition guac_terminal_display_resize ::
  "guac_terminal_display \<Rightarrow> int \<Rightarrow> int \<Rightarrow> guac_terminal_display result" where
  "guac_terminal_display_resize d width height =
     (if width = display_width d \<and> height = display_height d then Inr d
      else
        guac_assert (width \<ge> 0 \<and> width \<le> GUAC_TERMINAL_MAX_COLUMNS)
        (guac_assert (height \<ge> 0 \<and> height \<le> GUAC_TERMINAL_MAX_ROWS)
          (let fill_char = \<lparr>char_value = 0,
                 char_attributes = \<lparr>attr_bold = False, attr_half_bright = False, attr_cursor = False, attr_reverse = False,
                   attr_underscore = False, attr_foreground = default_background d, attr_background = default_background d\<rparr>,
                 char_width = 1\<rparr>;
               w = nat width
           in Inr (d\<lparr>operations := map (\<lambda>i. if int (i mod w) < display_width d \<and> int (i div w) < display_height d
                                           then GUAC_CHAR_NOP else GUAC_CHAR_SET fill_char) [0..<w * nat height],
                     display_width := width, display_height := height\<rparr>))))"

section \<open>The grid keeps its size\<close>

definition display_ok :: "guac_terminal_display \<Rightarrow> bool" where
  "display_ok d \<longleftrightarrow>
     0 \<le> display_width d \<and> display_width d \<le> 1024 \<and> 0 \<le> display_height d \<and> display_height d \<le> 1024 \<and>
     length (operations d) = nat (display_width d) * nat (display_height d) \<and>
     length (palette d) = 256 \<and> (\<forall>p. default_palette d = Some p \<longrightarrow> length p = 256)"

text \<open>Two displays of the same size.\<close>

definition same_size :: "guac_terminal_display \<Rightarrow> guac_terminal_display \<Rightarrow> bool" where
  "same_size d d' \<longleftrightarrow> display_width d' = display_width d \<and> display_height d' = display_height d"

lemma same_size_simps [simp]: "same_size d d"
  by (simp add: same_size_def)

lemma display_ok_flush:
  "display_ok d \<Longrightarrow> display_ok (guac_terminal_display_flush_operations d)" "same_size d (guac_terminal_display_flush_operations d)"
  by (simp_all add: display_ok_def same_size_def guac_terminal_display_flush_operations_def)

lemma display_set_loop_ok:
  "display_ok d \<Longrightarrow> display_ok (display_set_loop base col e c d) \<and> same_size d (display_set_loop base col e c d)"
proof (induction base col e c d rule: display_set_loop.induct)
  case (1 base col e c d)
  show ?case
  proof (cases "0 < char_width c \<and> col \<le> e")
    case True
    define d1 where "d1 = (case operations d ! nat (base + col) of
        GUAC_CHAR_COPY _ _ \<Rightarrow> guac_terminal_display_flush_operations d | _ \<Rightarrow> d)"
    have d1: "display_ok d1" "same_size d d1"
      using 1(2) display_ok_flush [of d] by (auto simp: d1_def split: guac_terminal_operation.split)
    define d2 where "d2 = d1\<lparr>operations := (operations d1)[nat (base + col) := GUAC_CHAR_SET c]\<rparr>"
    have "display_ok d2" "same_size d d2" using d1 by (simp_all add: d2_def display_ok_def same_size_def)
    moreover have "display_set_loop base col e c d = display_set_loop base (col + char_width c) e c d2"
      using True by (simp add: display_set_loop.simps [of base col e c d] Let_def d1_def d2_def)
    ultimately show ?thesis
      using 1(1) [OF True refl refl] unfolding d1_def d2_def same_size_def by simp
  next
    case False
    then show ?thesis using 1 by (auto simp: display_set_loop.simps [of base col e c d])
  qed
qed

lemma display_set_columns_ok:
  assumes "display_ok d" "1 \<le> display_width d" "0 \<le> char_width c"
  shows "\<exists>d'. guac_terminal_display_set_columns d row s e c = Inr d' \<and> display_ok d' \<and> same_size d d'"
proof -
  have i: "guac_terminal_fit_to_range x 0 (display_width d - 1) =
      Inr (if x < 0 then 0 else if x > display_width d - 1 then display_width d - 1 else x)" for x
    using assms(2) by (simp add: guac_terminal_fit_to_range_def)
  have "display_ok (if b then d'\<lparr>unflushed_set := True\<rparr> else d') \<and> same_size d (if b then d'\<lparr>unflushed_set := True\<rparr> else d')"
    if "display_ok d'" "same_size d d'" for b d'
    using that by (simp add: display_ok_def same_size_def)
  then show ?thesis
    using assms display_set_loop_ok [OF assms(1)]
    by (cases "char_width c = 0"; cases "row < 0 \<or> row \<ge> display_height d")
      (auto simp: guac_terminal_display_set_columns_def i Let_def)
qed

text \<open>
  Moving a range succeeds exactly when the display is larger than the distance; otherwise the range
  check gets an empty range and its assertion aborts.
\<close>

lemma fit_copy_abort:
  "0 \<le> n \<Longrightarrow> n \<le> 1024 \<Longrightarrow> in_int offset \<Longrightarrow> n \<le> \<bar>offset\<bar> \<Longrightarrow> offset \<noteq> 0 \<Longrightarrow> fit_copy a b offset n = Inl Abort"
proof -
  assume h: "0 \<le> n" "n \<le> 1024" "in_int offset" "n \<le> \<bar>offset\<bar>" "offset \<noteq> 0"
  show ?thesis
  proof (cases "offset \<ge> 0")
    case True
    have "in_int (n - offset - 1)" using h True by (simp add: in_int_bounds)
    then show ?thesis using h True by (simp add: fit_copy_def guac_terminal_fit_to_range_def Let_def)
  next
    case False
    then show ?thesis using h by (simp add: fit_copy_def guac_terminal_fit_to_range_def Let_def)
  qed
qed

lemma fit_copy_ok:
  assumes "n \<le> 1024" "\<bar>offset\<bar> < n"
  shows "\<exists>a' b'. fit_copy a b offset n = Inr (a', b') \<and> 0 \<le> a' \<and> a' \<le> b' \<and> b' < n \<and> 0 \<le> a' + offset \<and> b' + offset < n"
proof -
  have "in_int (n - offset - 1)" using assms by (auto simp: in_int_bounds)
  then show ?thesis using assms
    by (cases "offset \<ge> 0") (auto simp: fit_copy_def guac_terminal_fit_to_range_def Let_def)
qed

lemma grid_bound:
  fixes w a b h :: int
  assumes "0 \<le> w" "0 \<le> a" "a \<le> b" "b < h"
  shows "nat (a * w) + nat w * nat (b - a + 1) \<le> nat w * nat h"
proof -
  have "a * w + w * (b - a + 1) = w * (b + 1)" by (simp add: algebra_simps)
  also have "\<dots> \<le> w * h" using assms by (intro mult_left_mono) auto
  finally have "a * w + w * (b - a + 1) \<le> w * h" .
  then have "int (nat (a * w) + nat w * nat (b - a + 1)) \<le> int (nat w * nat h)"
    using assms by simp
  then show ?thesis by linarith
qed

lemma display_copy_rows_ok:
  assumes "display_ok d" "\<bar>offset\<bar> < display_height d"
  shows "\<exists>d'. guac_terminal_display_copy_rows d a b offset = Inr d' \<and> display_ok d' \<and> same_size d d'"
proof -
  obtain a' b' where f: "fit_copy a b offset (display_height d) = Inr (a', b')" "0 \<le> a'" "a' \<le> b'" "b' < display_height d"
    "0 \<le> a' + offset" "b' + offset < display_height d"
    using fit_copy_ok [of "display_height d" offset a b] assms by (auto simp: display_ok_def)
  define d1 where "d1 = (if unflushed_set d \<and> offset > 0 then guac_terminal_display_flush_operations d else d)"
  have d1: "display_ok d1" "same_size d d1" using assms(1) display_ok_flush [of d] by (simp_all add: d1_def)
  have w: "display_width d1 = display_width d" "display_height d1 = display_height d" using d1(2) by (simp_all add: same_size_def)
  have "nat ((a' + offset) * display_width d) + nat (display_width d) * nat ((b' + offset) - (a' + offset) + 1) \<le>
      nat (display_width d) * nat (display_height d)"
    by (rule grid_bound) (use f assms(1) in \<open>auto simp: display_ok_def\<close>)
  then have "nat ((a' + offset) * display_width d) + nat (display_width d) * nat (b' - a' + 1) \<le> length (operations d1)"
    using d1(1) w by (simp add: display_ok_def)
  then show ?thesis
    using d1 w by (simp add: guac_terminal_display_copy_rows_def f(1) Let_def d1_def [symmetric])
      (simp add: display_ok_def same_size_def)
qed

lemma display_copy_columns_ok:
  assumes "display_ok d" "\<bar>offset\<bar> < display_width d"
  shows "\<exists>d'. guac_terminal_display_copy_columns d row a b offset = Inr d' \<and> display_ok d' \<and> same_size d d'"
proof (cases "row < 0 \<or> row \<ge> display_height d")
  case True
  then show ?thesis using assms by (auto simp: guac_terminal_display_copy_columns_def)
next
  case False
  obtain a' b' where f: "fit_copy a b offset (display_width d) = Inr (a', b')" "0 \<le> a'" "a' \<le> b'" "b' < display_width d"
    "0 \<le> a' + offset" "b' + offset < display_width d"
    using fit_copy_ok [of "display_width d" offset a b] assms by (auto simp: display_ok_def)
  have "row * display_width d + display_width d = (row + 1) * display_width d" by (simp add: algebra_simps)
  also have "\<dots> \<le> display_height d * display_width d"
    using False assms(1) by (intro mult_right_mono) (auto simp: display_ok_def)
  finally have le: "row * display_width d + display_width d \<le> display_height d * display_width d" .
  have nn: "0 \<le> row * display_width d" using False assms(1) by (auto simp: display_ok_def)
  have "int (nat (row * display_width d + a' + offset) + nat (b' - a' + 1)) \<le> int (nat (display_width d) * nat (display_height d))"
  proof -
    have "int (nat (row * display_width d + a' + offset) + nat (b' - a' + 1)) = row * display_width d + b' + offset + 1"
      using nn f by simp
    also have "\<dots> \<le> display_height d * display_width d" using le f(6) by linarith
    also have "\<dots> = int (nat (display_width d) * nat (display_height d))"
      using assms(1) by (simp add: display_ok_def mult.commute)
    finally show ?thesis .
  qed
  then have "nat (row * display_width d + a' + offset) + nat (b' - a' + 1) \<le> length (operations d)"
    using assms(1) unfolding display_ok_def by linarith
  then show ?thesis
    using False assms(1)
    by (simp add: guac_terminal_display_copy_columns_def f(1) Let_def) (simp add: display_ok_def same_size_def)
qed

end
