(* ===== verification/Terminal.thy ===== *)
theory Terminal
  imports TermBuffer TermDisplay
begin

text \<open>
  The state of the terminal emulator and the operations on it (\<open>src/src/terminal/terminal.c\<close>,
  \<open>terminal-priv.h\<close> and the parts of \<open>select.c\<close> they need): writing, clearing, copying and scrolling
  of regions, which act on the buffer, the display and the selection alike, tab stops, the redirection
  of output to a pipe, and the scroll position.

  The current buffer is one of two (\<open>using_alternate\<close>). What the terminal sends to the rest of the
  program (answers for its standard input, instructions for the users, requests for file transfers,
  updates of the scrollbar) is appended to \<open>outputs\<close>. The static variables of the character handlers
  are fields of the record as well; bytes and byte strings are \<open>int\<close>s and lists of \<open>int\<close>s. The number
  of columns of a character, \<open>wcwidth\<close> of the C library, is the argument \<open>wcw\<close>.
\<close>

section \<open>State\<close>

type_synonym bytes = "int list"

datatype terminal_output =
    To_stdin bytes
  | Pipe_open bytes int
  | Pipe_blob bytes
  | Pipe_end
  | Name bytes
  | Upload_path bytes
  | Download bytes
  | Scrollbar_bounds int int
  | Scrollbar_value int
  | Repaint_default_layer

datatype char_handler =
    Echo | Escape | G0_charset | G1_charset | CSI | Set_directory | Download_file | Open_pipe_stream
  | Close_pipe_stream | Set_scrollback | Window_title | Xterm_palette | OSC | Ctrl_func | APC

datatype char_map = Vt100_map | Null_map | User_map

record guac_terminal =
  input_stream :: bool
  pipe_stream :: bool
  pipe_stream_flags :: int
  pipe_buffer :: bytes
  scroll_offset :: int
  max_scrollback :: int
  requested_scrollback :: int
  term_width :: int
  term_height :: int
  scroll_start :: int
  scroll_end :: int
  cursor_row :: int
  cursor_col :: int
  cursor_visible :: bool
  visible_cursor_row :: int
  visible_cursor_col :: int
  saved_cursor_row :: int
  saved_cursor_col :: int
  current_attributes :: guac_terminal_attributes
  default_char :: guac_terminal_char
  handler :: char_handler
  display :: guac_terminal_display
  normal_buffer :: guac_terminal_buffer
  alternate_buffer :: guac_terminal_buffer
  using_alternate :: bool
  tab_interval :: int
  custom_tabs :: "int list"
  char_mapping0 :: "char_map option"
  char_mapping1 :: "char_map option"
  active_char_set :: nat
  text_selected :: bool
  selection_committed :: bool
  selection_start_row :: int
  selection_start_column :: int
  selection_start_width :: int
  selection_end_row :: int
  selection_end_column :: int
  selection_end_width :: int
  application_cursor_keys :: bool
  automatic_carriage_return :: bool
  insert_mode :: bool
  outputs :: "terminal_output list"
  upload_path_handler :: bool
  file_download_handler :: bool
  echo_bytes_remaining :: int
  echo_codepoint :: int
  csi_argv :: "int list"
  csi_argc :: nat
  csi_private_mode :: int
  csi_argv_buffer :: bytes
  directory_filename :: bytes
  download_filename :: bytes
  pipe_param :: bytes
  pipe_flags :: int
  scrollback_param :: bytes
  window_title :: bytes
  palette_read_spec :: bool
  palette_entry :: int
  palette_spec :: bytes
  osc_operation :: int
  apc_escaping :: bool

abbreviation send_output :: "terminal_output \<Rightarrow> guac_terminal \<Rightarrow> guac_terminal" where
  "send_output e term \<equiv> term\<lparr>outputs := outputs term @ [e]\<rparr>"

definition current_buffer :: "guac_terminal \<Rightarrow> guac_terminal_buffer" where
  "current_buffer term = (if using_alternate term then alternate_buffer term else normal_buffer term)"

definition set_current_buffer :: "guac_terminal_buffer \<Rightarrow> guac_terminal \<Rightarrow> guac_terminal" where
  "set_current_buffer buf term =
     (if using_alternate term then term\<lparr>alternate_buffer := buf\<rparr> else term\<lparr>normal_buffer := buf\<rparr>)"

section \<open>Selection\<close>

definition guac_terminal_select_normalized_range :: "guac_terminal \<Rightarrow> int \<times> int \<times> int \<times> int" where
  "guac_terminal_select_normalized_range term =
     (if selection_start_row term < selection_end_row term
         \<or> (selection_start_row term = selection_end_row term
             \<and> selection_start_column term < selection_end_column term)
      then (selection_start_row term, selection_start_column term,
            selection_end_row term, selection_end_column term + selection_end_width term - 1)
      else (selection_end_row term, selection_end_column term,
            selection_start_row term, selection_start_column term + selection_start_width term - 1))"

definition guac_terminal_select_contains :: "guac_terminal \<Rightarrow> int \<Rightarrow> int \<Rightarrow> int \<Rightarrow> int \<Rightarrow> bool" where
  "guac_terminal_select_contains term start_row start_column end_row end_column =
     (if \<not> text_selected term then False
      else
        let (sel_start_row, sel_start_column, sel_end_row, sel_end_column) = guac_terminal_select_normalized_range term
        in if start_row > sel_end_row then False
           else if start_row = sel_end_row \<and> start_column > sel_end_column then False
           else if end_row < sel_start_row then False
           else if end_row = sel_start_row \<and> end_column < sel_start_column then False
           else True)"

definition guac_terminal_select_touch :: "int \<Rightarrow> int \<Rightarrow> int \<Rightarrow> int \<Rightarrow> guac_terminal \<Rightarrow> guac_terminal" where
  "guac_terminal_select_touch start_row start_column end_row end_column term =
     (if \<not> selection_committed term then term
      else if guac_terminal_select_contains term start_row start_column end_row end_column
      then term\<lparr>text_selected := False, selection_committed := False\<rparr>
      else term)"

section \<open>Scrollback\<close>

definition guac_terminal_effective_buffer_length :: "guac_terminal \<Rightarrow> int" where
  "guac_terminal_effective_buffer_length term =
     (let scrollback = requested_scrollback term;
          scrollback = (if scrollback > max_scrollback term then max_scrollback term
                        else if scrollback < term_height term then term_height term
                        else scrollback)
      in int (guac_terminal_buffer_effective_length (current_buffer term) scrollback))"

definition guac_terminal_get_available_scroll :: "guac_terminal \<Rightarrow> int" where
  "guac_terminal_get_available_scroll term = wrap32 (guac_terminal_effective_buffer_length term - term_height term)"

definition update_scrollbar_bounds :: "guac_terminal \<Rightarrow> guac_terminal" where
  "update_scrollbar_bounds term = send_output (Scrollbar_bounds (- guac_terminal_get_available_scroll term) 0) term"

section \<open>Writing regions\<close>

definition set_columns_everywhere ::
  "int \<Rightarrow> int \<Rightarrow> int \<Rightarrow> guac_terminal_char \<Rightarrow> guac_terminal \<Rightarrow> guac_terminal result" where
  "set_columns_everywhere row start_column end_column c term =
     bindr (guac_terminal_display_set_columns (display term) (row + scroll_offset term) start_column end_column c) (\<lambda>d.
     bindr (guac_terminal_buffer_set_columns (current_buffer term) row start_column end_column c) (\<lambda>buf.
     Inr (guac_terminal_select_touch row start_column row end_column (set_current_buffer buf (term\<lparr>display := d\<rparr>)))))"

definition guac_terminal_set_columns ::
  "int \<Rightarrow> int \<Rightarrow> int \<Rightarrow> guac_terminal_char \<Rightarrow> guac_terminal \<Rightarrow> guac_terminal result" where
  "guac_terminal_set_columns row start_column end_column c term =
     bindr (set_columns_everywhere row start_column end_column c term) (\<lambda>term.
       if row = visible_cursor_row term \<and> visible_cursor_col term \<ge> start_column \<and> visible_cursor_col term \<le> end_column
       then set_columns_everywhere row (visible_cursor_col term) (visible_cursor_col term)
              (c\<lparr>char_attributes := (char_attributes c)\<lparr>attr_cursor := True\<rparr>\<rparr>) term
       else Inr term)"

definition guac_terminal_set ::
  "(int \<Rightarrow> int) \<Rightarrow> int \<Rightarrow> int \<Rightarrow> int \<Rightarrow> guac_terminal \<Rightarrow> guac_terminal result" where
  "guac_terminal_set wcw row col codepoint term =
     (let width = wcw codepoint in
      if width = 0 then Inr term
      else
        let width = (if width < 0 then 1 else width) in
        guac_terminal_set_columns row col (col + width - 1)
          \<lparr>char_value = codepoint, char_attributes = current_attributes term, char_width = width\<rparr> term)"

definition guac_terminal_clear_columns :: "int \<Rightarrow> int \<Rightarrow> int \<Rightarrow> guac_terminal \<Rightarrow> guac_terminal result" where
  "guac_terminal_clear_columns row start_col end_col term =
     guac_terminal_set_columns row start_col end_col
       \<lparr>char_value = 0, char_attributes = current_attributes term, char_width = 1\<rparr> term"

fun clear_rows :: "nat \<Rightarrow> int \<Rightarrow> guac_terminal \<Rightarrow> guac_terminal result" where
  "clear_rows 0 row term = Inr term"
| "clear_rows (Suc n) row term =
     bindr (guac_terminal_clear_columns row 0 (term_width term - 1) term) (clear_rows n (row + 1))"

text \<open>A loop up to the greatest \<open>int\<close> never ends.\<close>

definition guac_terminal_clear_range :: "int \<Rightarrow> int \<Rightarrow> int \<Rightarrow> int \<Rightarrow> guac_terminal \<Rightarrow> guac_terminal result" where
  "guac_terminal_clear_range start_row start_col end_row end_col term =
     bindr (if start_col > 0
            then bindr (guac_terminal_clear_columns start_row start_col (term_width term - 1) term)
                   (\<lambda>term. Inr (start_row + 1, term))
            else Inr (start_row, term)) (\<lambda>(start_row, term).
     bindr (if end_col < term_width term - 1
            then bindr (guac_terminal_clear_columns end_row 0 end_col term) (\<lambda>term. Inr (end_row - 1, term))
            else Inr (end_row, term)) (\<lambda>(end_row, term).
     if start_row \<le> end_row \<and> end_row = 2147483647 then Inl Diverged
     else clear_rows (nat (end_row - start_row + 1)) start_row term))"

section \<open>Copying and scrolling regions\<close>

definition guac_terminal_copy_columns :: "int \<Rightarrow> int \<Rightarrow> int \<Rightarrow> int \<Rightarrow> guac_terminal \<Rightarrow> guac_terminal result" where
  "guac_terminal_copy_columns row start_column end_column offset term =
     bindr (guac_terminal_display_copy_columns (display term) (row + scroll_offset term) start_column end_column offset) (\<lambda>d.
     bindr (guac_terminal_buffer_copy_columns (current_buffer term) row start_column end_column offset) (\<lambda>buf.
       let term = guac_terminal_select_touch row start_column row end_column (set_current_buffer buf (term\<lparr>display := d\<rparr>))
       in Inr (if row = visible_cursor_row term \<and> visible_cursor_col term \<ge> start_column \<and> visible_cursor_col term \<le> end_column
               then term\<lparr>visible_cursor_col := visible_cursor_col term + offset\<rparr> else term)))"

definition guac_terminal_copy_rows :: "int \<Rightarrow> int \<Rightarrow> int \<Rightarrow> guac_terminal \<Rightarrow> guac_terminal result" where
  "guac_terminal_copy_rows start_row end_row offset term =
     bindr (guac_terminal_display_copy_rows (display term) (start_row + scroll_offset term) (end_row + scroll_offset term) offset) (\<lambda>d.
     bindr (guac_terminal_buffer_copy_rows (current_buffer term) start_row end_row offset) (\<lambda>buf.
       let term = guac_terminal_select_touch start_row 0 end_row (term_width term) (set_current_buffer buf (term\<lparr>display := d\<rparr>))
       in Inr (if visible_cursor_row term \<ge> start_row \<and> visible_cursor_row term \<le> end_row
               then term\<lparr>visible_cursor_row := visible_cursor_row term + offset\<rparr> else term)))"

text \<open>Scrolling the entire display: the top of the buffer advances instead of its rows being copied.\<close>

definition scroll_up_display :: "int \<Rightarrow> int \<Rightarrow> int \<Rightarrow> guac_terminal \<Rightarrow> guac_terminal result" where
  "scroll_up_display start_row end_row amount term =
     bindr (guac_terminal_display_copy_rows (display term) (wrap32 (start_row + amount)) end_row (wrap32 (- amount))) (\<lambda>d.
       let term = update_scrollbar_bounds
             (set_current_buffer (guac_terminal_buffer_scroll_up (current_buffer term) amount) (term\<lparr>display := d\<rparr>));
           term = (if visible_cursor_row term \<ge> start_row \<and> visible_cursor_row term \<le> end_row
                   then term\<lparr>visible_cursor_row := visible_cursor_row term - amount\<rparr> else term)
       in Inr (if text_selected term
               then term\<lparr>selection_start_row := selection_start_row term - amount,
                         selection_end_row := selection_end_row term - amount\<rparr>
               else term))"

definition guac_terminal_scroll_up :: "int \<Rightarrow> int \<Rightarrow> int \<Rightarrow> guac_terminal \<Rightarrow> guac_terminal result" where
  "guac_terminal_scroll_up start_row end_row amount term =
     (if amount \<le> 0 then Inr term
      else
        let n = wrap32 (end_row - start_row + 1); amount = (if amount \<ge> n then n else amount) in
        bindr (if start_row = 0 \<and> end_row = term_height term - 1
               then scroll_up_display start_row end_row amount term
               else guac_terminal_copy_rows (wrap32 (start_row + amount)) end_row (wrap32 (- amount)) term)
          (\<lambda>term. guac_terminal_clear_range (wrap32 (end_row - amount + 1)) 0 end_row (term_width term - 1) term))"

definition guac_terminal_scroll_down :: "int \<Rightarrow> int \<Rightarrow> int \<Rightarrow> guac_terminal \<Rightarrow> guac_terminal result" where
  "guac_terminal_scroll_down start_row end_row amount term =
     bindr (guac_terminal_copy_rows start_row (wrap32 (end_row - amount)) amount term)
       (\<lambda>term. guac_terminal_clear_range start_row 0 (wrap32 (start_row + amount - 1)) (term_width term - 1) term)"

section \<open>Tab stops\<close>

definition GUAC_TERMINAL_MAX_TABS :: nat where "GUAC_TERMINAL_MAX_TABS = 16"

text \<open>The loops stop at the first free slot, or at the first slot that holds the tab stop.\<close>

fun set_first :: "int \<Rightarrow> int \<Rightarrow> int list \<Rightarrow> int list" where
  "set_first old new [] = []"
| "set_first old new (t # ts) = (if t = old then new # ts else t # set_first old new ts)"

definition guac_terminal_set_tab :: "int \<Rightarrow> guac_terminal \<Rightarrow> guac_terminal" where
  "guac_terminal_set_tab column term = term\<lparr>custom_tabs := set_first 0 (column + 1) (custom_tabs term)\<rparr>"

definition guac_terminal_unset_tab :: "int \<Rightarrow> guac_terminal \<Rightarrow> guac_terminal" where
  "guac_terminal_unset_tab column term = term\<lparr>custom_tabs := set_first (column + 1) 0 (custom_tabs term)\<rparr>"

definition guac_terminal_clear_tabs :: "guac_terminal \<Rightarrow> guac_terminal" where
  "guac_terminal_clear_tabs term = term\<lparr>tab_interval := 0, custom_tabs := replicate GUAC_TERMINAL_MAX_TABS 0\<rparr>"

definition guac_terminal_next_tab :: "guac_terminal \<Rightarrow> int \<Rightarrow> int" where
  "guac_terminal_next_tab term column =
     (let tabstop = (if tab_interval term \<noteq> 0 then (cdiv column (tab_interval term) + 1) * tab_interval term
                     else term_width term - 1)
      in fold (\<lambda>t tabstop. if t - 1 \<noteq> -1 \<and> t - 1 > column \<and> t - 1 < tabstop then t - 1 else tabstop)
           (custom_tabs term) tabstop)"

section \<open>Input and the pipe stream\<close>

definition guac_terminal_send_string :: "bytes \<Rightarrow> guac_terminal \<Rightarrow> guac_terminal" where
  "guac_terminal_send_string s term = (if input_stream term then term else send_output (To_stdin s) term)"

definition GUAC_TERMINAL_PIPE_INTERPRET_OUTPUT :: int where "GUAC_TERMINAL_PIPE_INTERPRET_OUTPUT = 1"

definition guac_terminal_pipe_stream_flush :: "guac_terminal \<Rightarrow> guac_terminal" where
  "guac_terminal_pipe_stream_flush term =
     (if pipe_stream term \<and> length (pipe_buffer term) > 0
      then (send_output (Pipe_blob (pipe_buffer term)) term)\<lparr>pipe_buffer := []\<rparr>
      else term)"

definition guac_terminal_pipe_stream_write :: "int \<Rightarrow> guac_terminal \<Rightarrow> guac_terminal" where
  "guac_terminal_pipe_stream_write c term =
     (if pipe_stream term
      then
        let term = (if length (pipe_buffer term) = 6048 then guac_terminal_pipe_stream_flush term else term)
        in term\<lparr>pipe_buffer := pipe_buffer term @ [c]\<rparr>
      else term)"

definition guac_terminal_pipe_stream_close :: "guac_terminal \<Rightarrow> guac_terminal" where
  "guac_terminal_pipe_stream_close term =
     (if pipe_stream term
      then (send_output Pipe_end (guac_terminal_pipe_stream_flush term))\<lparr>pipe_stream := False\<rparr>
      else term)"

text \<open>The allocation of the stream is taken to succeed.\<close>

definition guac_terminal_pipe_stream_open :: "bytes \<Rightarrow> int \<Rightarrow> guac_terminal \<Rightarrow> guac_terminal" where
  "guac_terminal_pipe_stream_open name flags term =
     send_output (Pipe_open name flags)
       ((guac_terminal_pipe_stream_close term)\<lparr>pipe_stream := True, pipe_buffer := [], pipe_stream_flags := flags\<rparr>)"

section \<open>Redrawing and reset\<close>

definition guac_terminal_is_visible :: "guac_terminal \<Rightarrow> guac_terminal_char \<Rightarrow> bool" where
  "guac_terminal_is_visible term c =
     (if char_value c = GUAC_CHAR_CONTINUATION then False
      else if guac_terminal_has_glyph (char_value c) then True
      else
        let background = (if attr_reverse (char_attributes c) \<noteq> attr_cursor (char_attributes c)
                          then attr_foreground (char_attributes c) else attr_background (char_attributes c))
        in guac_terminal_colorcmp background (attr_background (char_attributes (default_char term))) \<noteq> 0)"

text \<open>The characters of one row that are redrawn, from column \<open>col\<close> to the last one.\<close>

fun redraw_chars ::
  "guac_terminal \<Rightarrow> cells \<Rightarrow> int \<Rightarrow> nat \<Rightarrow> int \<Rightarrow> guac_terminal_display \<Rightarrow> guac_terminal_display result" where
  "redraw_chars term cs row 0 col d = Inr d"
| "redraw_chars term cs row (Suc n) col d =
     (let c = cs ! nat col in
      bindr (if guac_terminal_is_visible term c then guac_terminal_display_set_columns d row col col c else Inr d)
        (redraw_chars term cs row n (col + 1)))"

definition redraw_row ::
  "guac_terminal \<Rightarrow> int \<Rightarrow> int \<Rightarrow> int \<Rightarrow> guac_terminal_display \<Rightarrow> guac_terminal_display result" where
  "redraw_row term row start_col end_col d =
     bindr (guac_terminal_display_set_columns d row start_col end_col (default_char term)) (\<lambda>d.
       case guac_terminal_buffer_get_columns (current_buffer term) (row - scroll_offset term) of
         None \<Rightarrow> Inr d
       | Some (cs, wrapped, len) \<Rightarrow>
           defined (0 \<le> start_col \<or> min (end_col + 1) (int len) \<le> start_col)
             (redraw_chars term cs row (nat (min (end_col + 1) (int len) - start_col)) start_col d))"

fun redraw_rows ::
  "guac_terminal \<Rightarrow> nat \<Rightarrow> int \<Rightarrow> int \<Rightarrow> int \<Rightarrow> guac_terminal_display \<Rightarrow> guac_terminal_display result" where
  "redraw_rows term 0 row start_col end_col d = Inr d"
| "redraw_rows term (Suc n) row start_col end_col d =
     bindr (redraw_row term row start_col end_col d) (redraw_rows term n (row + 1) start_col end_col)"

definition guac_terminal_redraw_rect :: "int \<Rightarrow> int \<Rightarrow> int \<Rightarrow> int \<Rightarrow> guac_terminal \<Rightarrow> guac_terminal result" where
  "guac_terminal_redraw_rect start_row start_col end_row end_col term =
     bindr (redraw_rows term (nat (end_row - start_row + 1)) start_row start_col end_col (display term))
       (\<lambda>d. Inr (term\<lparr>display := d\<rparr>))"

definition guac_terminal_redraw_default_layer :: "guac_terminal \<Rightarrow> guac_terminal result" where
  "guac_terminal_redraw_default_layer term =
     guac_terminal_redraw_rect 0 0 (term_height term - 1) (term_width term - 1) (send_output Repaint_default_layer term)"

fun reset_rows :: "nat \<Rightarrow> int \<Rightarrow> guac_terminal \<Rightarrow> guac_terminal result" where
  "reset_rows 0 row term = Inr term"
| "reset_rows (Suc n) row term =
     bindr (guac_terminal_set_columns row 0 (term_width term - 1) (default_char term) term) (reset_rows n (row + 1))"

text \<open>Everything a reset does before it clears the rows.\<close>

definition reset_state :: "guac_terminal \<Rightarrow> guac_terminal" where
  "reset_state term =
     (let term = term\<lparr>handler := Echo, active_char_set := 0, char_mapping0 := None, char_mapping1 := None,
            cursor_row := 0, visible_cursor_row := 0, saved_cursor_row := 0,
            cursor_col := 0, visible_cursor_col := 0, saved_cursor_col := 0, cursor_visible := True\<rparr>;
          term = set_current_buffer (guac_terminal_buffer_reset (current_buffer term)) term;
          term = term\<lparr>scroll_start := 0, scroll_end := term_height term - 1, scroll_offset := 0\<rparr>;
          term = send_output (Scrollbar_value (- scroll_offset term)) (send_output (Scrollbar_bounds 0 0) term);
          term = term\<lparr>text_selected := False, selection_committed := False, application_cursor_keys := False,
            automatic_carriage_return := False, insert_mode := False, tab_interval := 8,
            custom_tabs := replicate GUAC_TERMINAL_MAX_TABS 0,
            current_attributes := char_attributes (default_char term)\<rparr>
      in term\<lparr>display := guac_terminal_display_reset_palette (display term)\<rparr>)"

definition guac_terminal_reset :: "guac_terminal \<Rightarrow> guac_terminal result" where
  "guac_terminal_reset term = reset_rows (nat (term_height term)) 0 (reset_state term)"

end
