(* ===== verification/TermHandlers.thy ===== *)
theory TermHandlers
  imports Terminal
begin

text \<open>
  The character handlers of the terminal emulator (\<open>src/src/terminal/terminal-handlers.c\<close>) with the
  character mappings of \<open>char-mappings.c\<close>: the state machine that interprets the output of the
  program running in the terminal, byte by byte.

  Every handler is a function of the byte and of the terminal, whose field \<open>handler\<close> is the state of
  the machine; the static variables of a handler are fields as well. \<open>wcw\<close> is \<open>wcwidth\<close> of the C
  library, \<open>junk\<close> the indeterminate width of the character that \<open>guac_terminal_ctrl_func\<close> leaves
  uninitialized.
\<close>

unbundle bit_operations_syntax

abbreviation ch :: "char \<Rightarrow> int" where "ch c \<equiv> of_char c"

section \<open>Character mappings\<close>

definition vt100_map :: "int list" where
  "vt100_map =
    [32, 33, 34, 35, 36, 37, 38, 39, 40, 41, 42, 43, 44, 45, 46, 47,
     48, 49, 50, 51, 52, 53, 54, 55, 56, 57, 58, 59, 60, 61, 62, 63,
     64, 65, 66, 67, 68, 69, 70, 71, 72, 73, 74, 75, 76, 77, 78, 79,
     80, 81, 82, 83, 84, 85, 86, 87, 88, 89, 90, 91, 92, 93, 94, 95,
     0x25C6, 0x2592, 0x2409, 0x240C, 0x240D, 0x240A, 0x00B0, 0x00B1, 0x2424, 0x240B, 0x2518, 0x2510, 0x250C, 0x2514, 0x253C, 0x23BA,
     0x23BB, 0x2500, 0x23BC, 0x23BD, 0x251C, 0x2524, 0x2534, 0x252C, 0x2502, 0x2264, 0x2265, 0x03C0, 0x2260, 0x00A3, 0x00B7, 0x007F,
     0x0080, 0x0081, 0x0082, 0x0083, 0x0084, 0x0085, 0x0086, 0x0087, 0x0088, 0x0089, 0x008A, 0x008B, 0x008C, 0x008D, 0x008E, 0x008F,
     0x0090, 0x0091, 0x0092, 0x0093, 0x0094, 0x0095, 0x0096, 0x0097, 0x0098, 0x0099, 0x009A, 0x009B, 0x009C, 0x009D, 0x009E, 0x009F,
     0x00A0, 0x00A1, 0x00A2, 0x00A3, 0x00A4, 0x00A5, 0x00A6, 0x00A7, 0x00A8, 0x00A9, 0x00AA, 0x00AB, 0x00AC, 0x00AD, 0x00AE, 0x00AF,
     0x00B0, 0x00B1, 0x00B2, 0x00B3, 0x00B4, 0x00B5, 0x00B6, 0x00B7, 0x00B8, 0x00B9, 0x00BA, 0x00BB, 0x00BC, 0x00BD, 0x00BE, 0x00BF,
     0x00C0, 0x00C1, 0x00C2, 0x00C3, 0x00C4, 0x00C5, 0x00C6, 0x00C7, 0x00C8, 0x00C9, 0x00CA, 0x00CB, 0x00CC, 0x00CD, 0x00CE, 0x00CF,
     0x00D0, 0x00D1, 0x00D2, 0x00D3, 0x00D4, 0x00D5, 0x00D6, 0x00D7, 0x00D8, 0x00D9, 0x00DA, 0x00DB, 0x00DC, 0x00DD, 0x00DE, 0x00DF,
     0x00E0, 0x00E1, 0x00E2, 0x00E3, 0x00E4, 0x00E5, 0x00E6, 0x00E7, 0x00E8, 0x00E9, 0x00EA, 0x00EB, 0x00EC, 0x00ED, 0x00EE, 0x00EF,
     0x00F0, 0x00F1, 0x00F2, 0x00F3, 0x00F4, 0x00F5, 0x00F6, 0x00F7, 0x00F8, 0x00F9, 0x00FA, 0x00FB, 0x00FC, 0x00FD, 0x00FE, 0x00FF]"

definition null_map :: "int list" where
  "null_map =
    [32, 33, 34, 35, 36, 37, 38, 39, 40, 41, 42, 43, 44, 45, 46, 47,
     48, 49, 50, 51, 52, 53, 54, 55, 56, 57, 58, 59, 60, 61, 62, 63,
     64, 65, 66, 67, 68, 69, 70, 71, 72, 73, 74, 75, 76, 77, 78, 79,
     80, 81, 82, 83, 84, 85, 86, 87, 88, 89, 90, 91, 92, 93, 94, 95,
     96, 97, 98, 99, 100, 101, 102, 103, 104, 105, 106, 107, 108, 109, 110, 111,
     112, 113, 114, 115, 116, 117, 118, 119, 120, 121, 122, 123, 124, 125, 126, 0x007F,
     0x00C7, 0x00FC, 0x00E9, 0x00E2, 0x00E4, 0x00E0, 0x00E5, 0x00E7, 0x00EA, 0x00EB, 0x00E8, 0x00EF, 0x00EE, 0x00EC, 0x00C4, 0x00C5,
     0x00C9, 0x00E6, 0x00C6, 0x00F4, 0x00F6, 0x00F2, 0x00FB, 0x00F9, 0x00FF, 0x00D6, 0x00DC, 0x00A2, 0x00A3, 0x00A5, 0x20A7, 0x0192,
     0x00E1, 0x00ED, 0x00F3, 0x00FA, 0x00F1, 0x00D1, 0x00AA, 0x00BA, 0x00BF, 0x2310, 0x00AC, 0x00BD, 0x00BC, 0x00A1, 0x00AB, 0x00BB,
     0x2591, 0x2592, 0x2593, 0x2502, 0x2524, 0x2561, 0x2562, 0x2556, 0x2555, 0x2563, 0x2551, 0x2557, 0x255D, 0x255C, 0x255B, 0x2510,
     0x2514, 0x2534, 0x252C, 0x251C, 0x2500, 0x253C, 0x255E, 0x255F, 0x255A, 0x2554, 0x2569, 0x2566, 0x2560, 0x2550, 0x256C, 0x2567,
     0x2568, 0x2564, 0x2565, 0x2559, 0x2558, 0x2552, 0x2553, 0x256B, 0x256A, 0x2518, 0x250C, 0x2588, 0x2584, 0x258C, 0x2590, 0x2580,
     0x03B1, 0x00DF, 0x0393, 0x03C0, 0x03A3, 0x03C3, 0x00B5, 0x03C4, 0x03A6, 0x0398, 0x03A9, 0x03B4, 0x221E, 0x03C6, 0x03B5, 0x2229,
     0x2261, 0x00B1, 0x2265, 0x2264, 0x2320, 0x2321, 0x00F7, 0x2248, 0x00B0, 0x2219, 0x00B7, 0x221A, 0x207F, 0x00B2, 0x25A0, 0x000A]"

definition user_map :: "int list" where
  "user_map =
    [32, 33, 34, 35, 36, 37, 38, 39, 40, 41, 42, 43, 44, 45, 46, 47,
     48, 49, 50, 51, 52, 53, 54, 55, 56, 57, 58, 59, 60, 61, 62, 63,
     0x00A7, 65, 66, 67, 68, 69, 70, 71, 72, 73, 74, 75, 76, 77, 78, 79,
     80, 81, 82, 83, 84, 85, 86, 87, 88, 89, 90, 0x00C4, 0x00D6, 0x00DC, 94, 95,
     96, 97, 98, 99, 100, 101, 102, 103, 104, 105, 106, 107, 108, 109, 110, 111,
     112, 113, 114, 115, 116, 117, 118, 119, 120, 121, 122, 0x00E4, 0x00F6, 0x00FC, 0x00DF, 0x007F,
     0x0080, 0x0081, 0x0082, 0x0083, 0x0084, 0x0085, 0x0086, 0x0087, 0x0088, 0x0089, 0x008A, 0x008B, 0x008C, 0x008D, 0x008E, 0x008F,
     0x0090, 0x0091, 0x0092, 0x0093, 0x0094, 0x0095, 0x0096, 0x0097, 0x0098, 0x0099, 0x009A, 0x009B, 0x009C, 0x009D, 0x009E, 0x009F,
     0x00A0, 0x00A1, 0x00A2, 0x00A3, 0x00A4, 0x00A5, 0x00A6, 0x00A7, 0x00A8, 0x00A9, 0x00AA, 0x00AB, 0x00AC, 0x00AD, 0x00AE, 0x00AF,
     0x00B0, 0x00B1, 0x00B2, 0x00B3, 0x00B4, 0x00B5, 0x00B6, 0x00B7, 0x00B8, 0x00B9, 0x00BA, 0x00BB, 0x00BC, 0x00BD, 0x00BE, 0x00BF,
     0x00C0, 0x00C1, 0x00C2, 0x00C3, 0x00C4, 0x00C5, 0x00C6, 0x00C7, 0x00C8, 0x00C9, 0x00CA, 0x00CB, 0x00CC, 0x00CD, 0x00CE, 0x00CF,
     0x00D0, 0x00D1, 0x00D2, 0x00D3, 0x00D4, 0x00D5, 0x00D6, 0x00D7, 0x00D8, 0x00D9, 0x00DA, 0x00DB, 0x00DC, 0x00DD, 0x00DE, 0x00DF,
     0x00E0, 0x00E1, 0x00E2, 0x00E3, 0x00E4, 0x00E5, 0x00E6, 0x00E7, 0x00E8, 0x00E9, 0x00EA, 0x00EB, 0x00EC, 0x00ED, 0x00EE, 0x00EF,
     0x00F0, 0x00F1, 0x00F2, 0x00F3, 0x00F4, 0x00F5, 0x00F6, 0x00F7, 0x00F8, 0x00F9, 0x00FA, 0x00FB, 0x00FC, 0x00FD, 0x00FE, 0x00FF]"

definition char_map_of :: "char_map \<Rightarrow> int list" where
  "char_map_of m = (case m of Vt100_map \<Rightarrow> vt100_map | Null_map \<Rightarrow> null_map | User_map \<Rightarrow> user_map)"

definition get_char_mapping :: "int \<Rightarrow> char_map option" where
  "get_char_mapping c =
     (if c = ch CHR ''B'' then None
      else if c = ch CHR ''0'' then Some Vt100_map
      else if c = ch CHR ''U'' then Some Null_map
      else if c = ch CHR ''K'' then Some User_map
      else None)"

section \<open>Parameters\<close>

text \<open>The string that a buffer holds, without its terminator.\<close>

definition c_string :: "bytes \<Rightarrow> bytes" where
  "c_string s = takeWhile (\<lambda>c. c \<noteq> 0) s"

text \<open>
  \<open>strtoul\<close> of the C library for base ten and 64-bit longs; \<open>None\<close> for a value out of range. Without
  digits the value is 0.
\<close>

definition strtoul :: "bytes \<Rightarrow> int option" where
  "strtoul s =
     (let s = dropWhile isspace s;
          (negative, s) = (case s of [] \<Rightarrow> (False, s)
                           | c # s' \<Rightarrow> if c = 45 then (True, s') else if c = 43 then (False, s') else (False, s));
          v = foldl (\<lambda>v c. v * 10 + (c - 48)) 0 (takeWhile (\<lambda>c. 48 \<le> c \<and> c \<le> 57) s)
      in if v > 18446744073709551615 then None
         else Some (if negative then (- v) mod 18446744073709551616 else v))"

definition guac_terminal_parse_numeric_param :: "bytes \<Rightarrow> int" where
  "guac_terminal_parse_numeric_param s =
     (case strtoul (c_string s) of None \<Rightarrow> 0 | Some v \<Rightarrow> if v > INT_MAX then 0 else v)"

text \<open>The digits of a number that \<open>%i\<close> prints.\<close>

fun digits_of :: "nat \<Rightarrow> bytes" where
  "digits_of n = (if n < 10 then [48 + int n] else digits_of (n div 10) @ [48 + int (n mod 10)])"

declare digits_of.simps [simp del]

definition print_int :: "int \<Rightarrow> bytes" where
  "print_int v = (if v < 0 then ch CHR ''-'' # digits_of (nat (- v)) else digits_of (nat v))"

section \<open>Moving the cursor\<close>

definition guac_terminal_linefeed :: "bool \<Rightarrow> guac_terminal \<Rightarrow> guac_terminal result" where
  "guac_terminal_linefeed force_wrap term =
     (let term = set_current_buffer
            (guac_terminal_buffer_set_wrapped (current_buffer term) (cursor_row term) force_wrap) term
      in if cursor_row term = scroll_end term
         then guac_terminal_scroll_up (scroll_start term) (scroll_end term) 1 term
         else if cursor_row term < term_height term - 1
         then Inr (term\<lparr>cursor_row := cursor_row term + 1\<rparr>)
         else Inr term)"

definition guac_terminal_reverse_linefeed :: "guac_terminal \<Rightarrow> guac_terminal result" where
  "guac_terminal_reverse_linefeed term =
     (if cursor_row term = scroll_start term
      then guac_terminal_scroll_down (scroll_start term) (scroll_end term) 1 term
      else if cursor_row term > 0 then Inr (term\<lparr>cursor_row := cursor_row term - 1\<rparr>)
      else Inr term)"

definition guac_terminal_move_cursor :: "int \<Rightarrow> int \<Rightarrow> guac_terminal \<Rightarrow> guac_terminal" where
  "guac_terminal_move_cursor row col term =
     (let row = (if row \<ge> term_height term then term_height term - 1 else if row < 0 then 0 else row);
          col = (if col \<ge> term_width term then term_width term - 1 else if col < 0 then 0 else col)
      in term\<lparr>cursor_row := row, cursor_col := col\<rparr>)"

section \<open>Echo\<close>

definition GUAC_TERMINAL_VT102_ID :: bytes where "GUAC_TERMINAL_VT102_ID = [27, 91, 63, 54, 99]"
definition GUAC_TERMINAL_ANSWERBACK :: bytes where "GUAC_TERMINAL_ANSWERBACK = map of_char ''GUACAMOLE''"
definition GUAC_TERMINAL_OK :: bytes where "GUAC_TERMINAL_OK = [27, 91, 48, 110]"

definition char_mapping :: "guac_terminal \<Rightarrow> char_map option" where
  "char_mapping term = (if active_char_set term = 0 then char_mapping0 term else char_mapping1 term)"

text \<open>The decoding of a byte: the codepoint so far and the number of bytes that are missing.\<close>

definition echo_decode :: "bool \<Rightarrow> int \<Rightarrow> int \<times> int \<Rightarrow> int \<times> int" where
  "echo_decode mapped c = (\<lambda>(codepoint, bytes_remaining).
     if mapped then (c, 0)
     else if c AND 0x80 = 0 then (c AND 0x7F, 0)
     else if c AND 0xE0 = 0xC0 then (c AND 0x1F, 1)
     else if c AND 0xF0 = 0xE0 then (c AND 0x0F, 2)
     else if c AND 0xF8 = 0xF0 then (c AND 0x07, 3)
     else if c AND 0xC0 = 0x80 then (wrap32 (push_bit 6 codepoint) OR (c AND 0x3F), wrap32 (bytes_remaining - 1))
     else (ch CHR ''?'', 0))"

text \<open>A displayable character.\<close>

definition echo_displayable :: "(int \<Rightarrow> int) \<Rightarrow> char_map option \<Rightarrow> int \<Rightarrow> guac_terminal \<Rightarrow> guac_terminal result" where
  "echo_displayable wcw mapping codepoint term =
     (if codepoint < 0x20 then Inr term
      else
        let codepoint = (case mapping of None \<Rightarrow> codepoint
              | Some m \<Rightarrow> if codepoint \<le> 0xFF then char_map_of m ! nat (codepoint - 0x20) else codepoint);
            term = term\<lparr>echo_codepoint := codepoint\<rparr>
        in bindr (if cursor_col term \<ge> term_width term then guac_terminal_linefeed True (term\<lparr>cursor_col := 0\<rparr>) else Inr term) (\<lambda>term.
           bindr (if insert_mode term
                  then guac_terminal_copy_columns (cursor_row term) (cursor_col term) (term_width term - 2) 1 term
                  else Inr term) (\<lambda>term.
           bindr (guac_terminal_set wcw (cursor_row term) (cursor_col term) codepoint term) (\<lambda>term.
             let width = wcw codepoint; width = (if width < 0 then 1 else width)
             in Inr (term\<lparr>cursor_col := wrap32 (cursor_col term + width)\<rparr>)))))"

definition echo_codepoint_action :: "(int \<Rightarrow> int) \<Rightarrow> char_map option \<Rightarrow> guac_terminal \<Rightarrow> guac_terminal result" where
  "echo_codepoint_action wcw mapping term =
     (let codepoint = echo_codepoint term in
      if codepoint = 0x05 then Inr (guac_terminal_send_string GUAC_TERMINAL_ANSWERBACK term)
      else if codepoint = 0x07 then Inr term
      else if codepoint = 0x08 then Inr (guac_terminal_move_cursor (cursor_row term) (cursor_col term - 1) term)
      else if codepoint = 0x09
        then Inr (guac_terminal_move_cursor (cursor_row term) (guac_terminal_next_tab term (cursor_col term)) term)
      else if codepoint = 0x0A \<or> codepoint = 0x0B \<or> codepoint = 0x0C
        then bindr (guac_terminal_linefeed False term) (\<lambda>term.
               if \<not> automatic_carriage_return term then Inr term
               else Inr (guac_terminal_move_cursor (cursor_row term) 0 term))
      else if codepoint = 0x0D then Inr (guac_terminal_move_cursor (cursor_row term) 0 term)
      else if codepoint = 0x0E then Inr (term\<lparr>active_char_set := 1\<rparr>)
      else if codepoint = 0x0F then Inr (term\<lparr>active_char_set := 0\<rparr>)
      else if codepoint = 0x1B then Inr (term\<lparr>handler := Escape\<rparr>)
      else if codepoint = 0x9B then Inr (term\<lparr>handler := CSI\<rparr>)
      else if codepoint = 0x7F then Inr term
      else echo_displayable wcw mapping codepoint term)"

definition guac_terminal_echo :: "(int \<Rightarrow> int) \<Rightarrow> int \<Rightarrow> guac_terminal \<Rightarrow> guac_terminal result" where
  "guac_terminal_echo wcw c term =
     (let mapping = char_mapping term;
          piped = (pipe_stream term \<and> c \<noteq> 0x1B);
          term = (if piped then guac_terminal_pipe_stream_write c term else term)
      in if piped \<and> pipe_stream_flags term AND GUAC_TERMINAL_PIPE_INTERPRET_OUTPUT = 0 then Inr term
         else
           let (codepoint, bytes_remaining) =
                 echo_decode (mapping \<noteq> None) c (echo_codepoint term, echo_bytes_remaining term);
               term = term\<lparr>echo_codepoint := codepoint, echo_bytes_remaining := bytes_remaining\<rparr>
           in if bytes_remaining \<noteq> 0 then Inr term
              else echo_codepoint_action wcw mapping term)"

section \<open>Escape sequences\<close>

definition guac_terminal_escape :: "int \<Rightarrow> guac_terminal \<Rightarrow> guac_terminal result" where
  "guac_terminal_escape c term =
     (let echo = (\<lambda>term. Inr (term\<lparr>handler := Echo\<rparr>)) in
      if c = ch CHR ''('' then Inr (term\<lparr>handler := G0_charset\<rparr>)
      else if c = ch CHR '')'' then Inr (term\<lparr>handler := G1_charset\<rparr>)
      else if c = ch CHR '']'' then Inr (term\<lparr>handler := OSC\<rparr>)
      else if c = ch CHR ''['' then Inr (term\<lparr>handler := CSI\<rparr>)
      else if c = ch CHR ''#'' then Inr (term\<lparr>handler := Ctrl_func\<rparr>)
      else if c = ch CHR ''7''
        then echo (term\<lparr>saved_cursor_row := cursor_row term, saved_cursor_col := cursor_col term\<rparr>)
      else if c = ch CHR ''8''
        then echo (guac_terminal_move_cursor (saved_cursor_row term) (saved_cursor_col term) term)
      else if c = ch CHR ''D'' then bindr (guac_terminal_linefeed False term) echo
      else if c = ch CHR ''E''
        then bindr (guac_terminal_linefeed False (guac_terminal_move_cursor (cursor_row term) 0 term)) echo
      else if c = ch CHR ''H'' then echo (guac_terminal_set_tab (cursor_col term) term)
      else if c = ch CHR ''M'' then bindr (guac_terminal_reverse_linefeed term) echo
      else if c = ch CHR ''Z'' then echo (guac_terminal_send_string GUAC_TERMINAL_VT102_ID term)
      else if c = ch CHR ''c'' then guac_terminal_reset term
      else if c = ch CHR ''_'' then Inr (term\<lparr>handler := APC\<rparr>)
      else echo term)"

definition guac_terminal_g0_charset :: "int \<Rightarrow> guac_terminal \<Rightarrow> guac_terminal result" where
  "guac_terminal_g0_charset c term = Inr (term\<lparr>char_mapping0 := get_char_mapping c, handler := Echo\<rparr>)"

definition guac_terminal_g1_charset :: "int \<Rightarrow> guac_terminal \<Rightarrow> guac_terminal result" where
  "guac_terminal_g1_charset c term = Inr (term\<lparr>char_mapping1 := get_char_mapping c, handler := Echo\<rparr>)"

section \<open>Attributes\<close>

text \<open>The extended colors: the number of arguments read, and the color.\<close>

definition guac_terminal_parse_xterm256_rgb :: "int list \<Rightarrow> guac_terminal_color \<Rightarrow> nat \<times> guac_terminal_color" where
  "guac_terminal_parse_xterm256_rgb args color =
     (case args of
        red # green # blue # _ \<Rightarrow>
          if red < 0 \<or> red > 255 \<or> green < 0 \<or> green > 255 \<or> blue < 0 \<or> blue > 255 then (3, color)
          else (3, color\<lparr>color_red := word_of_int red, color_green := word_of_int green,
                         color_blue := word_of_int blue, palette_index := -1\<rparr>)
      | _ \<Rightarrow> (0, color))"

definition lookup_or_keep :: "guac_terminal \<Rightarrow> int \<Rightarrow> guac_terminal_color \<Rightarrow> guac_terminal_color" where
  "lookup_or_keep term index color =
     (case guac_terminal_display_lookup_color (display term) index of None \<Rightarrow> color | Some c \<Rightarrow> c)"

definition guac_terminal_parse_xterm256_index ::
  "guac_terminal \<Rightarrow> int list \<Rightarrow> guac_terminal_color \<Rightarrow> nat \<times> guac_terminal_color" where
  "guac_terminal_parse_xterm256_index term args color =
     (case args of [] \<Rightarrow> (0, color) | index # _ \<Rightarrow> (1, lookup_or_keep term index color))"

definition guac_terminal_parse_xterm256 ::
  "guac_terminal \<Rightarrow> int list \<Rightarrow> guac_terminal_color \<Rightarrow> nat \<times> guac_terminal_color" where
  "guac_terminal_parse_xterm256 term args color =
     (case args of
        [] \<Rightarrow> (0, color)
      | t # rest \<Rightarrow>
          if t = 2 then let (n, color) = guac_terminal_parse_xterm256_rgb rest color in (n + 1, color)
          else if t = 5 then let (n, color) = guac_terminal_parse_xterm256_index term rest color in (n + 1, color)
          else (0, color))"

text \<open>
  "Set graphics rendition": the loop over the arguments that are left. A value may use some of those
  that follow it.
\<close>

definition sgr_value ::
  "guac_terminal \<Rightarrow> int \<Rightarrow> int list \<Rightarrow> guac_terminal_attributes \<Rightarrow> nat \<times> guac_terminal_attributes" where
  "sgr_value term v rest a =
     (let dflt = char_attributes (default_char term) in
      if v = 0 then (0, dflt)
      else if v = 1 then (0, a\<lparr>attr_bold := True\<rparr>)
      else if v = 2 then (0, a\<lparr>attr_half_bright := True\<rparr>)
      else if v = 4 then (0, a\<lparr>attr_underscore := True\<rparr>)
      else if v = 7 then (0, a\<lparr>attr_reverse := True\<rparr>)
      else if v = 21 \<or> v = 22 then (0, a\<lparr>attr_bold := False, attr_half_bright := False\<rparr>)
      else if v = 24 then (0, a\<lparr>attr_underscore := False\<rparr>)
      else if v = 27 then (0, a\<lparr>attr_reverse := False\<rparr>)
      else if 30 \<le> v \<and> v \<le> 37 then (0, a\<lparr>attr_foreground := lookup_or_keep term (v - 30) (attr_foreground a)\<rparr>)
      else if v = 38
        then let (n, color) = guac_terminal_parse_xterm256 term rest (attr_foreground a)
             in if n > 0 then (n, a\<lparr>attr_foreground := color\<rparr>)
                else (0, a\<lparr>attr_underscore := True, attr_foreground := attr_foreground dflt\<rparr>)
      else if v = 39 then (0, a\<lparr>attr_underscore := False, attr_foreground := attr_foreground dflt\<rparr>)
      else if 40 \<le> v \<and> v \<le> 47 then (0, a\<lparr>attr_background := lookup_or_keep term (v - 40) (attr_background a)\<rparr>)
      else if v = 48
        then let (n, color) = guac_terminal_parse_xterm256 term rest (attr_background a)
             in (n, a\<lparr>attr_background := color\<rparr>)
      else if v = 49 then (0, a\<lparr>attr_background := attr_background dflt\<rparr>)
      else if 90 \<le> v \<and> v \<le> 97
        then (0, a\<lparr>attr_foreground := lookup_or_keep term (v - 90 + GUAC_TERMINAL_FIRST_INTENSE) (attr_foreground a)\<rparr>)
      else if 100 \<le> v \<and> v \<le> 107
        then (0, a\<lparr>attr_background := lookup_or_keep term (v - 100 + GUAC_TERMINAL_FIRST_INTENSE) (attr_background a)\<rparr>)
      else (0, a))"

function sgr_loop :: "guac_terminal \<Rightarrow> int list \<Rightarrow> guac_terminal_attributes \<Rightarrow> guac_terminal_attributes" where
  "sgr_loop term [] a = a"
| "sgr_loop term (v # rest) a = (case sgr_value term v rest a of (n, a) \<Rightarrow> sgr_loop term (drop n rest) a)"
  by pat_completeness auto
termination by (relation "measure (\<lambda>(term, args, a). length args)") auto

section \<open>CSI sequences\<close>

definition get_flag :: "int \<Rightarrow> int \<Rightarrow> bool \<Rightarrow> guac_terminal \<Rightarrow> guac_terminal" where
  "get_flag num private_mode b term =
     (if private_mode = ch CHR ''?''
      then if num = 1 then term\<lparr>application_cursor_keys := b\<rparr>
           else if num = 25 then term\<lparr>cursor_visible := b\<rparr>
           else term
      else if private_mode = 0
      then if num = 4 then term\<lparr>insert_mode := b\<rparr>
           else if num = 20 then term\<lparr>automatic_carriage_return := b\<rparr>
           else term
      else term)"

text \<open>The first argument, where 0 stands for 1, and a coordinate counted from 1.\<close>

definition csi_amount :: "guac_terminal \<Rightarrow> int" where
  "csi_amount term = (if csi_argv term ! 0 = 0 then 1 else csi_argv term ! 0)"

definition csi_coordinate :: "guac_terminal \<Rightarrow> nat \<Rightarrow> int" where
  "csi_coordinate term i = (if csi_argv term ! i \<noteq> 0 then csi_argv term ! i - 1 else csi_argv term ! i)"

text \<open>The functions that edit the screen.\<close>

definition csi_insert_characters :: "guac_terminal \<Rightarrow> guac_terminal result" where
  "csi_insert_characters term =
     (let amount = csi_amount term in
      bindr (if wrap32 (cursor_col term + amount) < term_width term
             then guac_terminal_copy_columns (cursor_row term) (cursor_col term)
                    (wrap32 (term_width term - amount - 1)) amount term
             else Inr term)
        (\<lambda>term. guac_terminal_clear_columns (cursor_row term) (cursor_col term)
                  (wrap32 (cursor_col term + amount - 1)) term))"

definition csi_delete_characters :: "guac_terminal \<Rightarrow> guac_terminal result" where
  "csi_delete_characters term =
     (let amount = csi_amount term in
      bindr (if wrap32 (cursor_col term + amount) < term_width term
             then guac_terminal_copy_columns (cursor_row term) (wrap32 (cursor_col term + amount))
                    (term_width term - 1) (- amount) term
             else Inr term)
        (\<lambda>term. guac_terminal_clear_columns (cursor_row term) (term_width term - amount) (term_width term - 1) term))"

definition csi_erase_display :: "guac_terminal \<Rightarrow> guac_terminal result" where
  "csi_erase_display term =
     (let mode = csi_argv term ! 0 in
      if mode = 0
        then guac_terminal_clear_range (cursor_row term) (cursor_col term) (term_height term - 1) (term_width term - 1) term
      else if mode = 1 then guac_terminal_clear_range 0 0 (cursor_row term) (cursor_col term) term
      else if mode = 2 \<or> mode = 3
        then guac_terminal_clear_range 0 0 (term_height term - 1) (term_width term - 1) term
      else Inr term)"

definition csi_erase_line :: "guac_terminal \<Rightarrow> guac_terminal result" where
  "csi_erase_line term =
     (let mode = csi_argv term ! 0 in
      if mode = 0 then guac_terminal_clear_columns (cursor_row term) (cursor_col term) (term_width term - 1) term
      else if mode = 1 then guac_terminal_clear_columns (cursor_row term) 0 (cursor_col term) term
      else if mode = 2 then guac_terminal_clear_columns (cursor_row term) 0 (term_width term - 1) term
      else Inr term)"

definition csi_set_mode :: "guac_terminal \<Rightarrow> guac_terminal result" where
  "csi_set_mode term =
     (let mode = csi_argv term ! 0;
          term = (if mode = 1048 \<or> mode = 1049
                  then term\<lparr>saved_cursor_row := cursor_row term, saved_cursor_col := cursor_col term\<rparr> else term)
      in bindr
           (if \<not> using_alternate term
            then
              let term = (if mode = 47 \<or> mode = 1047 \<or> mode = 1049
                          then update_scrollbar_bounds (term\<lparr>using_alternate := True\<rparr>) else term)
              in if mode = 1047 \<or> mode = 1049
                 then guac_terminal_clear_range 0 0 (term_height term - 1) (term_width term - 1) term
                 else Inr term
            else Inr term)
           (\<lambda>term. Inr (get_flag mode (csi_private_mode term) True term)))"

definition csi_reset_mode :: "guac_terminal \<Rightarrow> guac_terminal result" where
  "csi_reset_mode term =
     (let mode = csi_argv term ! 0 in
      bindr
        (if using_alternate term
         then
           bindr (if mode = 47 \<or> mode = 1047 \<or> mode = 1049
                  then bindr (guac_terminal_redraw_default_layer
                                (update_scrollbar_bounds (term\<lparr>using_alternate := False\<rparr>)))
                         (\<lambda>term. Inr (term\<lparr>text_selected := False, selection_committed := False\<rparr>))
                  else Inr term)
             (\<lambda>term. if mode = 1047
                     then guac_terminal_clear_range 0 0 (term_height term - 1) (term_width term - 1) term
                     else Inr term)
         else Inr term)
        (\<lambda>term.
          let term = (if mode = 1048 \<or> mode = 1049
                      then guac_terminal_move_cursor (saved_cursor_row term) (saved_cursor_col term) term else term)
          in Inr (get_flag mode (csi_private_mode term) False term)))"

text \<open>The functions that move the cursor.\<close>

definition csi_move :: "int \<Rightarrow> guac_terminal \<Rightarrow> guac_terminal" where
  "csi_move c term =
     (let amount = csi_amount term; row = cursor_row term; col = cursor_col term in
      if c = ch CHR ''A'' then guac_terminal_move_cursor (wrap32 (row - amount)) col term
      else if c = ch CHR ''e'' \<or> c = ch CHR ''B'' then guac_terminal_move_cursor (wrap32 (row + amount)) col term
      else if c = ch CHR ''a'' \<or> c = ch CHR ''C'' then guac_terminal_move_cursor row (wrap32 (col + amount)) term
      else if c = ch CHR ''D'' then guac_terminal_move_cursor row (wrap32 (col - amount)) term
      else if c = ch CHR ''E'' then guac_terminal_move_cursor (wrap32 (row + amount)) 0 term
      else if c = ch CHR ''F'' then guac_terminal_move_cursor (wrap32 (row - amount)) 0 term
      else if c = 96 \<or> c = ch CHR ''G'' then guac_terminal_move_cursor row (csi_coordinate term 0) term
      else if c = ch CHR ''f'' \<or> c = ch CHR ''H''
        then guac_terminal_move_cursor (csi_coordinate term 0) (csi_coordinate term 1) term
      else if c = ch CHR ''d'' then guac_terminal_move_cursor (csi_coordinate term 0) col term
      else if c = ch CHR ''u'' then guac_terminal_move_cursor (saved_cursor_row term) (saved_cursor_col term) term
      else term)"

definition csi_moves :: "int list" where
  "csi_moves = map of_char ''AeBaCDEFGfHdu'' @ [96]"

text \<open>The functions that change or report other parts of the state.\<close>

definition csi_state :: "int \<Rightarrow> guac_terminal \<Rightarrow> guac_terminal" where
  "csi_state c term =
     (let arg = csi_argv term ! 0 in
      if c = ch CHR ''c''
        then if arg = 0 \<and> csi_private_mode term = 0 then guac_terminal_send_string GUAC_TERMINAL_VT102_ID term else term
      else if c = ch CHR ''g''
        then if arg = 0 then guac_terminal_unset_tab (cursor_col term) term
             else if arg = 3 then guac_terminal_clear_tabs term else term
      else if c = ch CHR ''m''
        then term\<lparr>current_attributes := sgr_loop term (take (csi_argc term) (csi_argv term)) (current_attributes term)\<rparr>
      else if c = ch CHR ''n''
        then if arg = 5 \<and> csi_private_mode term = 0 then guac_terminal_send_string GUAC_TERMINAL_OK term
             else if arg = 6 \<and> csi_private_mode term = 0
             then guac_terminal_send_string
                    ([27, 91] @ print_int (wrap32 (cursor_row term + 1)) @ [59] @ print_int (wrap32 (cursor_col term + 1)) @ [82]) term
             else term
      else if c = ch CHR ''r''
        then if csi_argc term = 2 then term\<lparr>scroll_start := csi_argv term ! 0 - 1, scroll_end := csi_argv term ! 1 - 1\<rparr>
             else term\<lparr>scroll_start := 0, scroll_end := term_height term - 1\<rparr>
      else if c = ch CHR ''s''
        then term\<lparr>saved_cursor_row := cursor_row term, saved_cursor_col := cursor_col term\<rparr>
      else term)"

definition csi_function :: "int \<Rightarrow> guac_terminal \<Rightarrow> guac_terminal result" where
  "csi_function c term =
     (if c = ch CHR ''@'' then csi_insert_characters term
      else if c \<in> set csi_moves then Inr (csi_move c term)
      else if c = ch CHR ''J'' then csi_erase_display term
      else if c = ch CHR ''K'' then csi_erase_line term
      else if c = ch CHR ''L'' then guac_terminal_scroll_down (cursor_row term) (scroll_end term) (csi_amount term) term
      else if c = ch CHR ''M'' then guac_terminal_scroll_up (cursor_row term) (scroll_end term) (csi_amount term) term
      else if c = ch CHR ''P'' then csi_delete_characters term
      else if c = ch CHR ''S'' then guac_terminal_scroll_up (scroll_start term) (scroll_end term) (csi_amount term) term
      else if c = ch CHR ''T'' then guac_terminal_scroll_down (scroll_start term) (scroll_end term) (csi_amount term) term
      else if c = ch CHR ''X''
        then guac_terminal_clear_columns (cursor_row term) (cursor_col term) (wrap32 (cursor_col term + csi_amount term - 1)) term
      else if c = ch CHR ''h'' then csi_set_mode term
      else if c = ch CHR ''l'' then csi_reset_mode term
      else Inr (csi_state c term))"

text \<open>The end of a sequence: back to echo, with all parameters cleared.\<close>

definition csi_end :: "guac_terminal \<Rightarrow> guac_terminal" where
  "csi_end term =
     term\<lparr>handler := Echo, csi_argv := replicate (csi_argc term) 0 @ drop (csi_argc term) (csi_argv term),
          csi_private_mode := 0, csi_argc := 0, csi_argv_buffer := []\<rparr>"

definition guac_terminal_csi :: "int \<Rightarrow> guac_terminal \<Rightarrow> guac_terminal result" where
  "guac_terminal_csi c term =
     (if ch CHR ''0'' \<le> c \<and> c \<le> ch CHR ''9''
      then Inr (if length (csi_argv_buffer term) < 256 - 1 then term\<lparr>csi_argv_buffer := csi_argv_buffer term @ [c]\<rparr> else term)
      else if (0x40 \<le> c \<and> c \<le> 0x7E) \<or> c = ch CHR '';''
      then
        let term = (if csi_argc term < 16
                    then term\<lparr>csi_argv := (csi_argv term)[csi_argc term :=
                                guac_terminal_parse_numeric_param (csi_argv_buffer term)],
                              csi_argc := csi_argc term + 1, csi_argv_buffer := []\<rparr>
                    else term)
        in bindr (csi_function c term) (\<lambda>term. Inr (if c \<noteq> ch CHR '';'' then csi_end term else term))
      else if 0x3A \<le> c \<and> c \<le> 0x3F \<and> csi_private_mode term = 0 then Inr (term\<lparr>csi_private_mode := c\<rparr>)
      else Inr term)"

section \<open>Operating system commands\<close>

definition string_terminator :: "int \<Rightarrow> bool" where
  "string_terminator c \<longleftrightarrow> c = 0x9C \<or> c = 0x5C \<or> c = 0x07"

text \<open>Store a character in a buffer of \<open>n\<close> bytes, one of which is for the terminator.\<close>

definition store_char :: "nat \<Rightarrow> int \<Rightarrow> bytes \<Rightarrow> bytes" where
  "store_char n c s = (if length s < n - 1 then s @ [c] else s)"

definition guac_terminal_set_directory :: "int \<Rightarrow> guac_terminal \<Rightarrow> guac_terminal result" where
  "guac_terminal_set_directory c term =
     Inr (if string_terminator c
          then
            let s = c_string (directory_filename term); term = term\<lparr>handler := Echo, directory_filename := []\<rparr>
            in if upload_path_handler term then send_output (Upload_path s) term else term
          else term\<lparr>directory_filename := store_char 2048 c (directory_filename term)\<rparr>)"

definition guac_terminal_download :: "int \<Rightarrow> guac_terminal \<Rightarrow> guac_terminal result" where
  "guac_terminal_download c term =
     Inr (if string_terminator c
          then
            let s = c_string (download_filename term); term = term\<lparr>handler := Echo, download_filename := []\<rparr>
            in if file_download_handler term then send_output (Download s) term else term
          else term\<lparr>download_filename := store_char 2048 c (download_filename term)\<rparr>)"

definition guac_terminal_open_pipe_stream :: "int \<Rightarrow> guac_terminal \<Rightarrow> guac_terminal result" where
  "guac_terminal_open_pipe_stream c term =
     Inr (if string_terminator c
          then (guac_terminal_pipe_stream_open (c_string (pipe_param term)) (pipe_flags term) (term\<lparr>pipe_param := []\<rparr>))
                 \<lparr>handler := Echo, pipe_flags := 0\<rparr>
          else if c = ch CHR '';''
          then term\<lparr>pipe_param := [], pipe_flags := pipe_flags term OR guac_terminal_parse_numeric_param (pipe_param term)\<rparr>
          else term\<lparr>pipe_param := store_char 2048 c (pipe_param term)\<rparr>)"

definition guac_terminal_close_pipe_stream :: "int \<Rightarrow> guac_terminal \<Rightarrow> guac_terminal result" where
  "guac_terminal_close_pipe_stream c term =
     Inr (if string_terminator c then (guac_terminal_pipe_stream_close term)\<lparr>handler := Echo\<rparr> else term)"

definition guac_terminal_set_scrollback :: "int \<Rightarrow> guac_terminal \<Rightarrow> guac_terminal result" where
  "guac_terminal_set_scrollback c term =
     Inr (if string_terminator c
          then (update_scrollbar_bounds
                 (term\<lparr>requested_scrollback := guac_terminal_parse_numeric_param (scrollback_param term),
                       scrollback_param := []\<rparr>))\<lparr>handler := Echo\<rparr>
          else term\<lparr>scrollback_param := store_char 16 c (scrollback_param term)\<rparr>)"

definition guac_terminal_window_title :: "int \<Rightarrow> guac_terminal \<Rightarrow> guac_terminal result" where
  "guac_terminal_window_title c term =
     Inr (if string_terminator c
          then (send_output (Name (c_string (window_title term))) term)\<lparr>window_title := [], handler := Echo\<rparr>
          else term\<lparr>window_title := store_char 4096 c (window_title term)\<rparr>)"

definition guac_terminal_xterm_palette :: "int \<Rightarrow> guac_terminal \<Rightarrow> guac_terminal result" where
  "guac_terminal_xterm_palette c term =
     (let term =
        (if \<not> palette_read_spec term
         then if ch CHR ''0'' \<le> c \<and> c \<le> ch CHR ''9''
              then term\<lparr>palette_entry := wrap32 (palette_entry term * 10 + c - ch CHR ''0'')\<rparr>
              else if c = ch CHR '';'' then term\<lparr>palette_read_spec := True, palette_spec := []\<rparr>
              else term
         else if c = ch CHR '';'' \<or> string_terminator c
         then
           let term = (case guac_terminal_xparsecolor (c_string (palette_spec term)) of
                 None \<Rightarrow> term
               | Some color \<Rightarrow> (case guac_terminal_display_assign_color (display term) (palette_entry term) color of
                     None \<Rightarrow> term | Some d \<Rightarrow> term\<lparr>display := d\<rparr>))
           in term\<lparr>palette_read_spec := False, palette_entry := 0\<rparr>
         else term\<lparr>palette_spec := store_char 256 c (palette_spec term)\<rparr>)
      in Inr (if string_terminator c then term\<lparr>handler := Echo\<rparr> else term))"

definition osc_handler :: "int \<Rightarrow> char_handler option" where
  "osc_handler operation =
     (if operation = 482200 then Some Download_file
      else if operation = 482201 then Some Set_directory
      else if operation = 482202 then Some Open_pipe_stream
      else if operation = 482203 then Some Close_pipe_stream
      else if operation = 482204 then Some Set_scrollback
      else if operation = 0 \<or> operation = 2 then Some Window_title
      else if operation = 4 then Some Xterm_palette
      else None)"

definition guac_terminal_osc :: "int \<Rightarrow> guac_terminal \<Rightarrow> guac_terminal result" where
  "guac_terminal_osc c term =
     Inr (if ch CHR ''0'' \<le> c \<and> c \<le> ch CHR ''9''
          then term\<lparr>osc_operation := wrap32 (osc_operation term * 10 + c - ch CHR ''0'')\<rparr>
          else if c = ch CHR '';''
          then (case osc_handler (osc_operation term) of None \<Rightarrow> term | Some h \<Rightarrow> term\<lparr>handler := h\<rparr>)\<lparr>osc_operation := 0\<rparr>
          else term\<lparr>handler := Echo\<rparr>)"

section \<open>Control functions\<close>

fun fill_rows :: "guac_terminal_char \<Rightarrow> nat \<Rightarrow> int \<Rightarrow> guac_terminal \<Rightarrow> guac_terminal result" where
  "fill_rows c 0 row term = Inr term"
| "fill_rows c (Suc n) row term =
     bindr (guac_terminal_set_columns row 0 (term_width term - 1) c term) (fill_rows c n (row + 1))"

definition guac_terminal_ctrl_func :: "int \<Rightarrow> int \<Rightarrow> guac_terminal \<Rightarrow> guac_terminal result" where
  "guac_terminal_ctrl_func junk c term =
     bindr (if c = ch CHR ''8''
            then fill_rows \<lparr>char_value = ch CHR ''E'', char_attributes = current_attributes term, char_width = junk\<rparr>
                   (nat (term_height term)) 0 term
            else Inr term)
       (\<lambda>term. Inr (term\<lparr>handler := Echo\<rparr>))"

definition guac_terminal_apc :: "int \<Rightarrow> guac_terminal \<Rightarrow> guac_terminal result" where
  "guac_terminal_apc c term =
     (let term = (if apc_escaping term
                  then (if c = 92 then term\<lparr>handler := Echo\<rparr> else term)\<lparr>apc_escaping := False\<rparr> else term)
      in Inr (if c = 0x1B then term\<lparr>apc_escaping := True\<rparr> else term))"

section \<open>Writing to the terminal\<close>

definition char_handler_step :: "(int \<Rightarrow> int) \<Rightarrow> int \<Rightarrow> int \<Rightarrow> guac_terminal \<Rightarrow> guac_terminal result" where
  "char_handler_step wcw junk c term =
     (case handler term of
        Echo \<Rightarrow> guac_terminal_echo wcw c term
      | Escape \<Rightarrow> guac_terminal_escape c term
      | G0_charset \<Rightarrow> guac_terminal_g0_charset c term
      | G1_charset \<Rightarrow> guac_terminal_g1_charset c term
      | CSI \<Rightarrow> guac_terminal_csi c term
      | Set_directory \<Rightarrow> guac_terminal_set_directory c term
      | Download_file \<Rightarrow> guac_terminal_download c term
      | Open_pipe_stream \<Rightarrow> guac_terminal_open_pipe_stream c term
      | Close_pipe_stream \<Rightarrow> guac_terminal_close_pipe_stream c term
      | Set_scrollback \<Rightarrow> guac_terminal_set_scrollback c term
      | Window_title \<Rightarrow> guac_terminal_window_title c term
      | Xterm_palette \<Rightarrow> guac_terminal_xterm_palette c term
      | OSC \<Rightarrow> guac_terminal_osc c term
      | Ctrl_func \<Rightarrow> guac_terminal_ctrl_func junk c term
      | APC \<Rightarrow> guac_terminal_apc c term)"

fun guac_terminal_write :: "(int \<Rightarrow> int) \<Rightarrow> int \<Rightarrow> bytes \<Rightarrow> guac_terminal \<Rightarrow> guac_terminal result" where
  "guac_terminal_write wcw junk [] term = Inr term"
| "guac_terminal_write wcw junk (c # cs) term =
     bindr (char_handler_step wcw junk c term) (guac_terminal_write wcw junk cs)"

end
