(* ===== verification/TermInvariant.thy ===== *)
theory TermInvariant
  imports TermHandlers
begin

text \<open>
  The invariant of the terminal emulator: whatever bytes are written to it, as long as no step faults
  the cursor stays on the screen, the grid of the display keeps the size of the terminal, and the
  static buffers of the character handlers are never exceeded.

  \<open>screen_only\<close> collects what the operations on regions have in common: they change the screen (buffers,
  display, selection, visible cursor) and the output, and nothing that controls the state machine.
\<close>

section \<open>Display\<close>

lemma display_set_columns_Inr:
  "display_ok d \<Longrightarrow> guac_terminal_display_set_columns d row s e c = Inr d' \<Longrightarrow> display_ok d' \<and> same_size d d'"
  using display_set_loop_ok [of d]
  by (auto simp: guac_terminal_display_set_columns_def fault_iff Let_def display_ok_def same_size_def split: if_splits)

lemma fit_copy_Inr:
  assumes "fit_copy a b offset n = Inr x" "0 \<le> n" "n \<le> 1024" "in_int offset"
  shows "\<bar>offset\<bar> < n"
proof (rule ccontr)
  assume "\<not> \<bar>offset\<bar> < n"
  then show False
    using fit_copy_abort [of n offset a b] assms
    by (cases "offset = 0")
      (auto simp: fit_copy_def guac_terminal_fit_to_range_def guac_assert_def Let_def fault_iff in_int_bounds split: if_splits)
qed

lemma display_copy_columns_Inr:
  assumes "display_ok d" "in_int offset" "guac_terminal_display_copy_columns d row a b offset = Inr d'"
  shows "display_ok d' \<and> same_size d d'"
proof (cases "row < 0 \<or> row \<ge> display_height d")
  case True
  then show ?thesis using assms by (auto simp: guac_terminal_display_copy_columns_def)
next
  case False
  then obtain x where "fit_copy a b offset (display_width d) = Inr x"
    using assms(3) by (auto simp: guac_terminal_display_copy_columns_def fault_iff)
  then have "\<bar>offset\<bar> < display_width d"
    using fit_copy_Inr assms(1,2) by (auto simp: display_ok_def)
  then show ?thesis using display_copy_columns_ok [OF assms(1), of offset row a b] assms(3) by auto
qed

lemma display_copy_rows_Inr:
  assumes "display_ok d" "in_int offset" "guac_terminal_display_copy_rows d a b offset = Inr d'"
  shows "display_ok d' \<and> same_size d d'"
proof -
  obtain x where "fit_copy a b offset (display_height d) = Inr x"
    using assms(3) by (auto simp: guac_terminal_display_copy_rows_def fault_iff)
  then have "\<bar>offset\<bar> < display_height d"
    using fit_copy_Inr assms(1,2) by (auto simp: display_ok_def)
  then show ?thesis using display_copy_rows_ok [OF assms(1), of offset a b] assms(3) by auto
qed

section \<open>Operations on the screen\<close>

text \<open>The terminal without its screen: everything but the fields those operations may change.\<close>

definition control :: "guac_terminal \<Rightarrow> guac_terminal" where
  "control t =
     t\<lparr>display := undefined, normal_buffer := undefined, alternate_buffer := undefined,
       text_selected := False, selection_committed := False, selection_start_row := 0, selection_end_row := 0,
       visible_cursor_row := 0, visible_cursor_col := 0, outputs := []\<rparr>"

lemma control_simps [simp]:
  "control (t\<lparr>display := d\<rparr>) = control t"
  "control (t\<lparr>normal_buffer := b\<rparr>) = control t"
  "control (t\<lparr>alternate_buffer := b\<rparr>) = control t"
  "control (t\<lparr>text_selected := x\<rparr>) = control t"
  "control (t\<lparr>selection_committed := x\<rparr>) = control t"
  "control (t\<lparr>selection_start_row := r\<rparr>) = control t"
  "control (t\<lparr>selection_end_row := r\<rparr>) = control t"
  "control (t\<lparr>visible_cursor_row := r\<rparr>) = control t"
  "control (t\<lparr>visible_cursor_col := r\<rparr>) = control t"
  "control (t\<lparr>outputs := out\<rparr>) = control t"
  by (simp_all add: control_def)

definition screen_only :: "guac_terminal \<Rightarrow> guac_terminal \<Rightarrow> bool" where
  "screen_only t t' \<longleftrightarrow> control t' = control t \<and>
     (display_ok (display t) \<longrightarrow> display_ok (display t') \<and> same_size (display t) (display t'))"

lemma screen_only_refl [simp]: "screen_only t t"
  by (simp add: screen_only_def)

lemma screen_only_trans: "screen_only a b \<Longrightarrow> screen_only b c \<Longrightarrow> screen_only a c"
  by (simp add: screen_only_def same_size_def)

lemma screen_only_updates [simp]:
  "screen_only t (t\<lparr>normal_buffer := b\<rparr>)"
  "screen_only t (t\<lparr>alternate_buffer := b\<rparr>)"
  "screen_only t (t\<lparr>outputs := out\<rparr>)"
  "screen_only t (set_current_buffer b t)"
  "screen_only t (guac_terminal_select_touch r s e f t)"
  "screen_only t (update_scrollbar_bounds t)"
  by (simp_all add: screen_only_def set_current_buffer_def guac_terminal_select_touch_def update_scrollbar_bounds_def)

lemma screen_fields:
  assumes "screen_only t t'"
  shows "cursor_row t' = cursor_row t" "cursor_col t' = cursor_col t"
    "term_width t' = term_width t" "term_height t' = term_height t"
    "scroll_start t' = scroll_start t" "scroll_end t' = scroll_end t"
    "insert_mode t' = insert_mode t" "csi_argv t' = csi_argv t" "handler t' = handler t"
  using assms by (auto simp: screen_only_def control_def dest: arg_cong [where f = cursor_row] arg_cong [where f = cursor_col]
    arg_cong [where f = term_width] arg_cong [where f = term_height] arg_cong [where f = scroll_start]
    arg_cong [where f = scroll_end] arg_cong [where f = insert_mode] arg_cong [where f = csi_argv] arg_cong [where f = handler])

lemma set_columns_everywhere_screen: "set_columns_everywhere row s e c t = Inr t' \<Longrightarrow> screen_only t t'"
  by (auto simp: set_columns_everywhere_def fault_iff screen_only_def set_current_buffer_def guac_terminal_select_touch_def
      dest: display_set_columns_Inr)

lemma set_columns_screen: "guac_terminal_set_columns row s e c t = Inr t' \<Longrightarrow> screen_only t t'"
  by (auto simp: guac_terminal_set_columns_def fault_iff split: if_splits
      intro: screen_only_trans dest!: set_columns_everywhere_screen)

lemma set_screen: "guac_terminal_set wcw row col cp t = Inr t' \<Longrightarrow> screen_only t t'"
  by (auto simp: guac_terminal_set_def Let_def split: if_splits dest: set_columns_screen)

lemma clear_columns_screen: "guac_terminal_clear_columns row s e t = Inr t' \<Longrightarrow> screen_only t t'"
  by (auto simp: guac_terminal_clear_columns_def dest: set_columns_screen)

lemma clear_rows_screen: "clear_rows n row t = Inr t' \<Longrightarrow> screen_only t t'"
proof (induction n arbitrary: row t)
  case (Suc n)
  then show ?case by (auto simp: fault_iff intro: screen_only_trans dest!: clear_columns_screen)
qed simp

lemma clear_range_screen: "guac_terminal_clear_range a s b e t = Inr t' \<Longrightarrow> screen_only t t'"
  by (auto simp: guac_terminal_clear_range_def fault_iff split: if_splits
      intro: screen_only_trans dest!: clear_columns_screen clear_rows_screen)

lemma copy_columns_screen:
  "guac_terminal_copy_columns row s e k t = Inr t' \<Longrightarrow> in_int k \<Longrightarrow> screen_only t t'"
  by (auto simp: guac_terminal_copy_columns_def fault_iff Let_def screen_only_def set_current_buffer_def
      guac_terminal_select_touch_def dest: display_copy_columns_Inr)

lemma copy_rows_screen:
  "guac_terminal_copy_rows a b k t = Inr t' \<Longrightarrow> in_int k \<Longrightarrow> screen_only t t'"
  by (auto simp: guac_terminal_copy_rows_def fault_iff Let_def screen_only_def set_current_buffer_def
      guac_terminal_select_touch_def dest: display_copy_rows_Inr)

lemma scroll_down_screen:
  "guac_terminal_scroll_down a b k t = Inr t' \<Longrightarrow> in_int k \<Longrightarrow> screen_only t t'"
  by (auto simp: guac_terminal_scroll_down_def fault_iff intro: screen_only_trans dest!: copy_rows_screen clear_range_screen)

lemma scroll_up_display_screen: "scroll_up_display a b k t = Inr t' \<Longrightarrow> screen_only t t'"
proof -
  assume run: "scroll_up_display a b k t = Inr t'"
  obtain d where d: "guac_terminal_display_copy_rows (display t) (wrap32 (a + k)) b (wrap32 (- k)) = Inr d"
    using run by (auto simp: scroll_up_display_def fault_iff)
  define t1 where "t1 = update_scrollbar_bounds
    (set_current_buffer (guac_terminal_buffer_scroll_up (current_buffer t) k) (t\<lparr>display := d\<rparr>))"
  have "screen_only t (t\<lparr>display := d\<rparr>)"
    using display_copy_rows_Inr [OF _ _ d] by (auto simp: screen_only_def)
  then have "screen_only t t1" unfolding t1_def
    by (simp add: screen_only_def update_scrollbar_bounds_def set_current_buffer_def)
  moreover have "screen_only t1 t'"
    using run by (auto simp: scroll_up_display_def d t1_def [symmetric] Let_def screen_only_def)
  ultimately show ?thesis by (rule screen_only_trans)
qed

lemma scroll_up_screen: "guac_terminal_scroll_up a b k t = Inr t' \<Longrightarrow> screen_only t t'"
  by (auto simp: guac_terminal_scroll_up_def fault_iff Let_def split: if_splits
      intro: screen_only_trans dest!: scroll_up_display_screen copy_rows_screen clear_range_screen)

lemma redraw_chars_ok: "redraw_chars t cs row n col d = Inr d' \<Longrightarrow> display_ok d \<Longrightarrow> display_ok d' \<and> same_size d d'"
proof (induction n arbitrary: col d)
  case (Suc n)
  obtain d1 where d1: "display_ok d1" "same_size d d1" "redraw_chars t cs row n (col + 1) d1 = Inr d'"
    using Suc.prems by (auto simp: Let_def fault_iff split: if_splits dest: display_set_columns_Inr)
  then show ?case using Suc.IH [OF d1(3,1)] by (simp add: same_size_def)
qed simp

lemma redraw_row_ok: "redraw_row t row s e d = Inr d' \<Longrightarrow> display_ok d \<Longrightarrow> display_ok d' \<and> same_size d d'"
proof -
  assume h: "redraw_row t row s e d = Inr d'" "display_ok d"
  obtain d1 where d1: "guac_terminal_display_set_columns d row s e (default_char t) = Inr d1"
    "(case guac_terminal_buffer_get_columns (current_buffer t) (row - scroll_offset t) of
         None \<Rightarrow> Inr d1
       | Some (cs, wrapped, len) \<Rightarrow> defined (0 \<le> s \<or> min (e + 1) (int len) \<le> s)
           (redraw_chars t cs row (nat (min (e + 1) (int len) - s)) s d1)) = Inr d'"
    using h(1) by (auto simp: redraw_row_def bindr_Inr)
  have ok: "display_ok d1" "same_size d d1" using display_set_columns_Inr [OF h(2) d1(1)] by auto
  show ?thesis
    using d1(2) ok redraw_chars_ok [OF _ ok(1)] by (auto simp: same_size_def defined_Inr split: option.splits)
qed

lemma redraw_rows_ok: "redraw_rows t n row s e d = Inr d' \<Longrightarrow> display_ok d \<Longrightarrow> display_ok d' \<and> same_size d d'"
proof (induction n arbitrary: row d)
  case (Suc n)
  then obtain d1 where "redraw_row t row s e d = Inr d1" "redraw_rows t n (row + 1) s e d1 = Inr d'"
    by (auto simp: fault_iff)
  then show ?case using Suc.IH redraw_row_ok Suc.prems(2) by (metis same_size_def)
qed simp

lemma redraw_default_layer_screen: "guac_terminal_redraw_default_layer t = Inr t' \<Longrightarrow> screen_only t t'"
  by (auto simp: guac_terminal_redraw_default_layer_def guac_terminal_redraw_rect_def fault_iff screen_only_def
      dest: redraw_rows_ok)

lemma reset_rows_screen: "reset_rows n row t = Inr t' \<Longrightarrow> screen_only t t'"
proof (induction n arbitrary: row t)
  case (Suc n)
  then show ?case by (auto simp: fault_iff intro: screen_only_trans dest!: set_columns_screen)
qed simp

lemma fill_rows_screen: "fill_rows c n row t = Inr t' \<Longrightarrow> screen_only t t'"
proof (induction n arbitrary: row t)
  case (Suc n)
  then show ?case by (auto simp: fault_iff intro: screen_only_trans dest!: set_columns_screen)
qed simp

section \<open>The invariant\<close>

text \<open>
  After a character of two columns in the last column, the cursor is two columns past it until the
  next character wraps.
\<close>

definition control_ok :: "guac_terminal \<Rightarrow> bool" where
  "control_ok t \<longleftrightarrow>
     1 \<le> term_width t \<and> term_width t \<le> 1024 \<and> 1 \<le> term_height t \<and> term_height t \<le> 1024 \<and>
     0 \<le> cursor_row t \<and> cursor_row t < term_height t \<and> 0 \<le> cursor_col t \<and> cursor_col t \<le> term_width t + 1 \<and>
     active_char_set t \<le> 1 \<and> length (custom_tabs t) = GUAC_TERMINAL_MAX_TABS \<and>
     length (csi_argv t) = 16 \<and> (\<forall>v \<in> set (csi_argv t). 0 \<le> v \<and> v \<le> INT_MAX) \<and> csi_argc t \<le> 16 \<and>
     length (csi_argv_buffer t) < 256 \<and> length (directory_filename t) < 2048 \<and> length (download_filename t) < 2048 \<and>
     length (pipe_param t) < 2048 \<and> length (scrollback_param t) < 16 \<and> length (window_title t) < 4096 \<and>
     length (palette_spec t) < 256 \<and> length (pipe_buffer t) \<le> 6048"

definition term_ok :: "guac_terminal \<Rightarrow> bool" where
  "term_ok t \<longleftrightarrow> control_ok t \<and> display_ok (display t) \<and>
     display_width (display t) = term_width t \<and> display_height (display t) = term_height t"

lemma control_ok_control: "control_ok (control t) = control_ok t"
  by (simp add: control_ok_def control_def)

lemma term_ok_screen: "screen_only t t' \<Longrightarrow> term_ok t \<Longrightarrow> term_ok t'"
  using control_ok_control [of t] control_ok_control [of t'] screen_fields [of t t']
  by (auto simp: term_ok_def screen_only_def same_size_def)

lemma term_ok_cursor:
  "term_ok t \<Longrightarrow> 0 \<le> row \<Longrightarrow> row < term_height t \<Longrightarrow> term_ok (t\<lparr>cursor_row := row\<rparr>)"
  "term_ok t \<Longrightarrow> 0 \<le> col \<Longrightarrow> col \<le> term_width t + 1 \<Longrightarrow> term_ok (t\<lparr>cursor_col := col\<rparr>)"
  by (simp_all add: term_ok_def control_ok_def)

text \<open>Fields the invariant does not mention.\<close>

lemma term_ok_updates [simp]:
  "term_ok (t\<lparr>handler := h\<rparr>) = term_ok t"
  "term_ok (t\<lparr>echo_codepoint := i\<rparr>) = term_ok t"
  "term_ok (t\<lparr>echo_bytes_remaining := i\<rparr>) = term_ok t"
  "term_ok (t\<lparr>saved_cursor_row := i\<rparr>) = term_ok t"
  "term_ok (t\<lparr>saved_cursor_col := i\<rparr>) = term_ok t"
  "term_ok (t\<lparr>char_mapping0 := m\<rparr>) = term_ok t"
  "term_ok (t\<lparr>char_mapping1 := m\<rparr>) = term_ok t"
  "term_ok (t\<lparr>current_attributes := a\<rparr>) = term_ok t"
  "term_ok (t\<lparr>application_cursor_keys := b\<rparr>) = term_ok t"
  "term_ok (t\<lparr>cursor_visible := b\<rparr>) = term_ok t"
  "term_ok (t\<lparr>insert_mode := b\<rparr>) = term_ok t"
  "term_ok (t\<lparr>automatic_carriage_return := b\<rparr>) = term_ok t"
  "term_ok (t\<lparr>scroll_start := i\<rparr>) = term_ok t"
  "term_ok (t\<lparr>scroll_end := i\<rparr>) = term_ok t"
  "term_ok (t\<lparr>scroll_offset := i\<rparr>) = term_ok t"
  "term_ok (t\<lparr>tab_interval := i\<rparr>) = term_ok t"
  "term_ok (t\<lparr>using_alternate := b\<rparr>) = term_ok t"
  "term_ok (t\<lparr>csi_private_mode := i\<rparr>) = term_ok t"
  "term_ok (t\<lparr>outputs := out\<rparr>) = term_ok t"
  "term_ok (t\<lparr>text_selected := b\<rparr>) = term_ok t"
  "term_ok (t\<lparr>selection_committed := b\<rparr>) = term_ok t"
  "term_ok (t\<lparr>visible_cursor_row := i\<rparr>) = term_ok t"
  "term_ok (t\<lparr>visible_cursor_col := i\<rparr>) = term_ok t"
  "term_ok (t\<lparr>pipe_stream := b\<rparr>) = term_ok t"
  "term_ok (t\<lparr>pipe_stream_flags := i\<rparr>) = term_ok t"
  "term_ok (t\<lparr>pipe_flags := i\<rparr>) = term_ok t"
  "term_ok (t\<lparr>requested_scrollback := i\<rparr>) = term_ok t"
  "term_ok (t\<lparr>palette_read_spec := b\<rparr>) = term_ok t"
  "term_ok (t\<lparr>palette_entry := i\<rparr>) = term_ok t"
  "term_ok (t\<lparr>osc_operation := i\<rparr>) = term_ok t"
  "term_ok (t\<lparr>apc_escaping := b\<rparr>) = term_ok t"
  by (simp_all add: term_ok_def control_ok_def)

lemma term_ok_set_buffer [simp]: "term_ok (set_current_buffer b t) = term_ok t"
  by (simp add: set_current_buffer_def term_ok_def control_ok_def)

section \<open>Preservation\<close>

lemmas screen_facts = set_columns_screen set_screen clear_columns_screen clear_range_screen copy_columns_screen
  copy_rows_screen scroll_up_screen scroll_down_screen redraw_default_layer_screen reset_rows_screen fill_rows_screen

lemma term_ok_parts:
  assumes "term_ok t"
  shows "1 \<le> term_width t" "term_width t \<le> 1024" "1 \<le> term_height t" "term_height t \<le> 1024"
    "0 \<le> cursor_row t" "cursor_row t < term_height t" "0 \<le> cursor_col t" "cursor_col t \<le> term_width t + 1"
    "length (csi_argv t) = 16" "\<forall>v \<in> set (csi_argv t). 0 \<le> v \<and> v \<le> INT_MAX" "csi_argc t \<le> 16"
  using assms by (auto simp: term_ok_def control_ok_def)

lemma move_cursor_ok: "term_ok t \<Longrightarrow> term_ok (guac_terminal_move_cursor row col t)"
  by (auto simp: guac_terminal_move_cursor_def Let_def term_ok_def control_ok_def)

lemma set_buffer_fields [simp]:
  "cursor_row (set_current_buffer b t) = cursor_row t" "scroll_start (set_current_buffer b t) = scroll_start t"
  "scroll_end (set_current_buffer b t) = scroll_end t" "term_height (set_current_buffer b t) = term_height t"
  by (simp_all add: set_current_buffer_def)

lemma linefeed_ok: "guac_terminal_linefeed w t = Inr t' \<Longrightarrow> term_ok t \<Longrightarrow> term_ok t'"
proof -
  assume run: "guac_terminal_linefeed w t = Inr t'" and ok: "term_ok t"
  define u where "u = set_current_buffer (guac_terminal_buffer_set_wrapped (current_buffer t) (cursor_row t) w) t"
  have u: "term_ok u" "cursor_row u = cursor_row t" "term_height u = term_height t"
    using ok by (simp_all add: u_def)
  have "(if cursor_row u = scroll_end u then guac_terminal_scroll_up (scroll_start u) (scroll_end u) 1 u
      else if cursor_row u < term_height u - 1 then Inr (u\<lparr>cursor_row := cursor_row u + 1\<rparr>) else Inr u) = Inr t'"
    using run unfolding guac_terminal_linefeed_def Let_def u_def .
  then show ?thesis
    using u term_ok_parts [OF u(1)] term_ok_cursor(1) [OF u(1)]
    by (auto split: if_splits dest: scroll_up_screen term_ok_screen)
qed

lemma reverse_linefeed_ok: "guac_terminal_reverse_linefeed t = Inr t' \<Longrightarrow> term_ok t \<Longrightarrow> term_ok t'"
  using term_ok_parts [of t] term_ok_cursor(1) [of t]
  by (auto simp: guac_terminal_reverse_linefeed_def in_int_bounds split: if_splits dest: scroll_down_screen term_ok_screen)

lemma pipe_flush_ok:
  "term_ok t \<Longrightarrow> term_ok (guac_terminal_pipe_stream_flush t)"
  "length (pipe_buffer t) \<le> 6048 \<Longrightarrow> pipe_stream t \<Longrightarrow> length (pipe_buffer (guac_terminal_pipe_stream_flush t)) = 0"
  by (auto simp: guac_terminal_pipe_stream_flush_def term_ok_def control_ok_def)

lemma pipe_write_ok: "term_ok t \<Longrightarrow> term_ok (guac_terminal_pipe_stream_write c t)"
  by (auto simp: guac_terminal_pipe_stream_write_def guac_terminal_pipe_stream_flush_def Let_def term_ok_def control_ok_def)

lemma pipe_close_ok: "term_ok t \<Longrightarrow> term_ok (guac_terminal_pipe_stream_close t)"
  using pipe_flush_ok(1) by (auto simp: guac_terminal_pipe_stream_close_def)

lemma pipe_open_ok: "term_ok t \<Longrightarrow> term_ok (guac_terminal_pipe_stream_open name flags t)"
  using pipe_close_ok [of t]
  by (auto simp: guac_terminal_pipe_stream_open_def term_ok_def control_ok_def)

lemma send_string_ok [simp]: "term_ok (guac_terminal_send_string s t) = term_ok t"
  by (simp add: guac_terminal_send_string_def)

lemma scrollbar_ok [simp]: "term_ok (update_scrollbar_bounds t) = term_ok t"
  by (simp add: update_scrollbar_bounds_def)

lemma length_set_first [simp]: "length (set_first a b ts) = length ts"
  by (induction a b ts rule: set_first.induct) auto

lemma tabs_ok:
  "term_ok t \<Longrightarrow> term_ok (guac_terminal_set_tab c t)"
  "term_ok t \<Longrightarrow> term_ok (guac_terminal_unset_tab c t)"
  "term_ok t \<Longrightarrow> term_ok (guac_terminal_clear_tabs t)"
  by (simp_all add: guac_terminal_set_tab_def guac_terminal_unset_tab_def guac_terminal_clear_tabs_def term_ok_def control_ok_def)

lemma reset_palette_ok: "term_ok t \<Longrightarrow> term_ok (t\<lparr>display := guac_terminal_display_reset_palette (display t)\<rparr>)"
  using length_initial_palette
  by (auto simp: term_ok_def control_ok_def display_ok_def guac_terminal_display_reset_palette_def split: option.splits)

lemma reset_state_ok: "term_ok t \<Longrightarrow> term_ok (reset_state t)"
proof -
  assume ok: "term_ok t"
  have "control_ok (reset_state t)" "display (reset_state t) = guac_terminal_display_reset_palette (display t)"
    "term_width (reset_state t) = term_width t" "term_height (reset_state t) = term_height t"
    using ok by (simp_all add: reset_state_def Let_def set_current_buffer_def term_ok_def control_ok_def)
  then show ?thesis using reset_palette_ok [OF ok] by (simp add: term_ok_def)
qed

lemma reset_ok: "guac_terminal_reset t = Inr t' \<Longrightarrow> term_ok t \<Longrightarrow> term_ok t'"
  using reset_state_ok reset_rows_screen term_ok_screen unfolding guac_terminal_reset_def by blast

text \<open>The handlers, one by one. \<open>wcwidth\<close> of a character is at most 2.\<close>

lemma echo_displayable_ok:
  assumes "echo_displayable wcw m cp t = Inr t'" "term_ok t" "\<forall>x. wcw x \<le> 2"
  shows "term_ok t'"
proof (cases "cp < 0x20")
  case True
  then show ?thesis using assms by (simp add: echo_displayable_def)
next
  case False
  define cp' where "cp' = (case m of None \<Rightarrow> cp
              | Some m \<Rightarrow> if cp \<le> 0xFF then char_map_of m ! nat (cp - 0x20) else cp)"
  define u where "u = t\<lparr>echo_codepoint := cp'\<rparr>"
  define k where "k = (if wcw cp' < 0 then 1 else wcw cp')"
  have u: "term_ok u" using assms(2) by (simp add: u_def)
  obtain u1 u2 u3 where
    u1: "(if cursor_col u \<ge> term_width u then guac_terminal_linefeed True (u\<lparr>cursor_col := 0\<rparr>) else Inr u) = Inr u1" and
    u2: "(if insert_mode u1 then guac_terminal_copy_columns (cursor_row u1) (cursor_col u1) (term_width u1 - 2) 1 u1
          else Inr u1) = Inr u2" and
    u3: "guac_terminal_set wcw (cursor_row u2) (cursor_col u2) cp' u2 = Inr u3" and
    t': "t' = u3\<lparr>cursor_col := wrap32 (cursor_col u3 + k)\<rparr>"
    using assms(1)
    unfolding echo_displayable_def Let_def if_not_P [OF False] cp'_def [symmetric] u_def [symmetric] bindr_Inr
    by (auto simp only: k_def sum.inject)
  have c0: "term_ok (u\<lparr>cursor_col := 0\<rparr>)" using term_ok_cursor(2) [OF u, of 0] term_ok_parts [OF u] by simp
  have o1: "term_ok u1" using u1 u linefeed_ok [OF _ c0] by (auto split: if_splits)
  have col: "cursor_col u1 < term_width u1"
  proof (cases "cursor_col u \<ge> term_width u")
    case True
    then have run: "guac_terminal_linefeed True (u\<lparr>cursor_col := 0\<rparr>) = Inr u1" using u1 by simp
    have "cursor_col u1 = 0"
      using run by (auto simp: guac_terminal_linefeed_def Let_def set_current_buffer_def split: if_splits
        dest!: scroll_up_screen screen_fields(2))
    then show ?thesis using term_ok_parts [OF o1] by simp
  qed (use u1 in auto)
  have s2: "screen_only u1 u2" using u2 copy_columns_screen [of _ _ _ 1] by (auto simp: in_int_bounds split: if_splits)
  have s3: "screen_only u2 u3" using set_screen [OF u3] .
  have o3: "term_ok u3" using term_ok_screen s2 s3 o1 by blast
  have c3: "0 \<le> cursor_col u3" "cursor_col u3 < term_width u3" "term_width u3 \<le> 1024"
    using screen_fields [OF s2] screen_fields [OF s3] col term_ok_parts [OF o3] by auto
  have "0 \<le> k" "k \<le> 2" using assms(3) by (auto simp: k_def)
  then have "in_int (cursor_col u3 + k)" using c3 by (simp add: in_int_bounds)
  then have "t' = u3\<lparr>cursor_col := cursor_col u3 + k\<rparr>" using t' by simp
  then show ?thesis using term_ok_cursor(2) [OF o3, of "cursor_col u3 + k"] c3 \<open>0 \<le> k\<close> \<open>k \<le> 2\<close> by simp
qed

lemma echo_action_ok:
  "echo_codepoint_action wcw m t = Inr t' \<Longrightarrow> term_ok t \<Longrightarrow> \<forall>x. wcw x \<le> 2 \<Longrightarrow> term_ok t'"
proof -
  assume run: "echo_codepoint_action wcw m t = Inr t'" and ok: "term_ok t" and w: "\<forall>x. wcw x \<le> 2"
  have sets: "term_ok (t\<lparr>active_char_set := 1\<rparr>)" "term_ok (t\<lparr>active_char_set := 0\<rparr>)"
    using ok by (simp_all add: term_ok_def control_ok_def)
  show ?thesis
    using run ok sets move_cursor_ok [OF ok] echo_displayable_ok [OF _ ok w]
    by (auto simp: echo_codepoint_action_def Let_def fault_iff split: if_splits
        dest!: linefeed_ok intro!: move_cursor_ok)
qed

lemma echo_ok:
  assumes "guac_terminal_echo wcw c t = Inr t'" "term_ok t" "\<forall>x. wcw x \<le> 2"
  shows "term_ok t'"
proof -
  define u where "u = (if pipe_stream t \<and> c \<noteq> 0x1B then guac_terminal_pipe_stream_write c t else t)"
  have u: "term_ok u" using assms(2) pipe_write_ok by (simp add: u_def)
  obtain a b where d: "echo_decode (char_mapping t \<noteq> None) c (echo_codepoint u, echo_bytes_remaining u) = (a, b)"
    by (cases "echo_decode (char_mapping t \<noteq> None) c (echo_codepoint u, echo_bytes_remaining u)")
  have "t' = u \<or> t' = u\<lparr>echo_codepoint := a, echo_bytes_remaining := b\<rparr> \<or>
      echo_codepoint_action wcw (char_mapping t) (u\<lparr>echo_codepoint := a, echo_bytes_remaining := b\<rparr>) = Inr t'"
    using assms(1) unfolding guac_terminal_echo_def Let_def u_def [symmetric] d prod.case
    by (auto split: if_splits)
  then show ?thesis using u echo_action_ok [OF _ _ assms(3)] by auto
qed

lemma escape_ok: "guac_terminal_escape c t = Inr t' \<Longrightarrow> term_ok t \<Longrightarrow> term_ok t'"
proof -
  assume run: "guac_terminal_escape c t = Inr t'" and ok: "term_ok t"
  show ?thesis
    using run ok move_cursor_ok [OF ok] tabs_ok(1) [OF ok]
    by (auto simp: guac_terminal_escape_def Let_def fault_iff simp del: of_char_Char split: if_splits
        dest!: linefeed_ok reverse_linefeed_ok intro: reset_ok)
qed

section \<open>Control sequences\<close>

lemma csi_amount_int: "term_ok t \<Longrightarrow> 1 \<le> csi_amount t" "term_ok t \<Longrightarrow> csi_amount t \<le> INT_MAX"
  "term_ok t \<Longrightarrow> in_int (csi_amount t)" "term_ok t \<Longrightarrow> in_int (- csi_amount t)"
proof -
  assume ok: "term_ok t"
  have "csi_argv t ! 0 \<in> set (csi_argv t)" using term_ok_parts(9) [OF ok] by (intro nth_mem) simp
  then have "0 \<le> csi_argv t ! 0" "csi_argv t ! 0 \<le> INT_MAX" using term_ok_parts(10) [OF ok] by auto
  then show "1 \<le> csi_amount t" "csi_amount t \<le> INT_MAX" "in_int (csi_amount t)" "in_int (- csi_amount t)"
    by (auto simp: csi_amount_def in_int_def INT_MAX_def INT_MIN_def)
qed

lemma get_flag_ok [simp]: "term_ok (get_flag n p b t) = term_ok t"
  by (simp add: get_flag_def)

lemma insert_characters_ok: "csi_insert_characters t = Inr t' \<Longrightarrow> term_ok t \<Longrightarrow> term_ok t'"
  using csi_amount_int(3) [of t]
  by (auto simp: csi_insert_characters_def Let_def fault_iff split: if_splits
      dest!: copy_columns_screen clear_columns_screen intro: term_ok_screen)

lemma delete_characters_ok: "csi_delete_characters t = Inr t' \<Longrightarrow> term_ok t \<Longrightarrow> term_ok t'"
  using csi_amount_int(4) [of t]
  by (auto simp: csi_delete_characters_def Let_def fault_iff split: if_splits
      dest!: copy_columns_screen clear_columns_screen intro: term_ok_screen)

lemma erase_ok:
  "csi_erase_display t = Inr t' \<Longrightarrow> term_ok t \<Longrightarrow> term_ok t'"
  "csi_erase_line t = Inr t' \<Longrightarrow> term_ok t \<Longrightarrow> term_ok t'"
  by (auto simp: csi_erase_display_def csi_erase_line_def Let_def split: if_splits
      dest!: clear_range_screen clear_columns_screen intro: term_ok_screen)

lemma set_mode_ok: "csi_set_mode t = Inr t' \<Longrightarrow> term_ok t \<Longrightarrow> term_ok t'"
  by (auto simp: csi_set_mode_def Let_def fault_iff split: if_splits dest!: clear_range_screen dest: term_ok_screen)

lemma leave_alternate_ok:
  "guac_terminal_redraw_default_layer (update_scrollbar_bounds (t\<lparr>using_alternate := False\<rparr>)) = Inr u \<Longrightarrow> term_ok t \<Longrightarrow>
     term_ok (u\<lparr>text_selected := False, selection_committed := False\<rparr>)"
  using term_ok_screen [OF redraw_default_layer_screen] by simp

lemma clear_range_ok: "guac_terminal_clear_range a s b e t = Inr u \<Longrightarrow> term_ok t \<Longrightarrow> term_ok u"
  using term_ok_screen [OF clear_range_screen] .

lemma reset_mode_ok: "csi_reset_mode t = Inr t' \<Longrightarrow> term_ok t \<Longrightarrow> term_ok t'"
proof -
  assume run: "csi_reset_mode t = Inr t'" and ok: "term_ok t"
  obtain u where u: "term_ok u" "t' = get_flag (csi_argv t ! 0) (csi_private_mode u) False u \<or>
      (\<exists>v. v = guac_terminal_move_cursor (saved_cursor_row u) (saved_cursor_col u) u \<and>
         t' = get_flag (csi_argv t ! 0) (csi_private_mode v) False v)"
    using run ok
    by (auto simp: csi_reset_mode_def Let_def fault_iff split: if_splits
        dest!: leave_alternate_ok [OF _ ok] dest: clear_range_ok)
  then show ?thesis using move_cursor_ok [OF u(1)] by auto
qed

lemma csi_move_ok: "term_ok t \<Longrightarrow> term_ok (csi_move c t)"
  by (simp add: csi_move_def Let_def move_cursor_ok del: of_char_Char)

lemma csi_state_ok: "term_ok t \<Longrightarrow> term_ok (csi_state c t)"
  by (simp add: csi_state_def Let_def tabs_ok del: of_char_Char)

lemma csi_function_ok: "csi_function c t = Inr t' \<Longrightarrow> term_ok t \<Longrightarrow> term_ok t'"
proof -
  assume run: "csi_function c t = Inr t'" and ok: "term_ok t"
  show ?thesis
    using run ok csi_amount_int(3) [OF ok] csi_move_ok [OF ok] csi_state_ok [OF ok]
    by (auto simp: csi_function_def simp del: of_char_Char split: if_splits
        dest: insert_characters_ok delete_characters_ok erase_ok set_mode_ok reset_mode_ok
          scroll_down_screen scroll_up_screen clear_columns_screen term_ok_screen)
qed

lemma numeric_param_range: "0 \<le> guac_terminal_parse_numeric_param s \<and> guac_terminal_parse_numeric_param s \<le> INT_MAX"
proof -
  have "0 \<le> v \<longrightarrow> 0 \<le> foldl (\<lambda>v c. v * 10 + (c - 48)) v (takeWhile (\<lambda>c. 48 \<le> c \<and> c \<le> 57) s)" for v :: int and s :: bytes
    by (induction s arbitrary: v) auto
  then show ?thesis
    by (auto simp: guac_terminal_parse_numeric_param_def strtoul_def Let_def INT_MAX_def split: option.split if_splits list.splits)
qed

lemma csi_ok: "guac_terminal_csi c t = Inr t' \<Longrightarrow> term_ok t \<Longrightarrow> term_ok t'"
proof -
  assume run: "guac_terminal_csi c t = Inr t'" and ok: "term_ok t"
  have digit: "term_ok (if length (csi_argv_buffer t) < 256 - 1 then t\<lparr>csi_argv_buffer := csi_argv_buffer t @ [c]\<rparr> else t)"
    using ok by (simp add: term_ok_def control_ok_def)
  define u where "u = (if csi_argc t < 16
     then t\<lparr>csi_argv := (csi_argv t)[csi_argc t := guac_terminal_parse_numeric_param (csi_argv_buffer t)],
            csi_argc := csi_argc t + 1, csi_argv_buffer := []\<rparr> else t)"
  have u: "term_ok u"
    using ok numeric_param_range [of "csi_argv_buffer t"]
    by (auto simp: u_def term_ok_def control_ok_def dest!: set_update_subset_insert [THEN subsetD])
  have fin: "term_ok (csi_end v)" if "term_ok v" for v
    using that by (auto simp: csi_end_def term_ok_def control_ok_def INT_MAX_def dest: in_set_dropD)
  show ?thesis
    using run ok digit fin csi_function_ok [OF _ u]
    by (auto simp: guac_terminal_csi_def Let_def fault_iff u_def [symmetric] simp del: of_char_Char split: if_splits)
qed

section \<open>Operating system commands\<close>

lemma length_store_char [simp]: "length s < n \<Longrightarrow> length (store_char n c s) < n"
  by (auto simp: store_char_def)

lemma string_update_ok:
  "term_ok t \<Longrightarrow> length s < 2048 \<Longrightarrow> term_ok (t\<lparr>directory_filename := s\<rparr>)"
  "term_ok t \<Longrightarrow> length s < 2048 \<Longrightarrow> term_ok (t\<lparr>download_filename := s\<rparr>)"
  "term_ok t \<Longrightarrow> length s < 16 \<Longrightarrow> term_ok (t\<lparr>scrollback_param := s\<rparr>)"
  "term_ok t \<Longrightarrow> length s < 4096 \<Longrightarrow> term_ok (t\<lparr>window_title := s\<rparr>)"
  "term_ok t \<Longrightarrow> length (directory_filename t) < 2048" "term_ok t \<Longrightarrow> length (download_filename t) < 2048"
  "term_ok t \<Longrightarrow> length (scrollback_param t) < 16" "term_ok t \<Longrightarrow> length (window_title t) < 4096"
  by (simp_all add: term_ok_def control_ok_def)

lemma set_directory_ok: "guac_terminal_set_directory c t = Inr t' \<Longrightarrow> term_ok t \<Longrightarrow> term_ok t'"
  using string_update_ok(1) [of t] string_update_ok(1) [of "t\<lparr>handler := Echo\<rparr>"] string_update_ok(5) [of t]
  by (cases "string_terminator c") (auto simp: guac_terminal_set_directory_def Let_def)

lemma download_ok: "guac_terminal_download c t = Inr t' \<Longrightarrow> term_ok t \<Longrightarrow> term_ok t'"
  using string_update_ok(2) [of t] string_update_ok(2) [of "t\<lparr>handler := Echo\<rparr>"] string_update_ok(6) [of t]
  by (cases "string_terminator c") (auto simp: guac_terminal_download_def Let_def)

lemma set_scrollback_ok: "guac_terminal_set_scrollback c t = Inr t' \<Longrightarrow> term_ok t \<Longrightarrow> term_ok t'"
  using string_update_ok(3) [of t] string_update_ok(7) [of t]
    string_update_ok(3) [of "t\<lparr>requested_scrollback := guac_terminal_parse_numeric_param (scrollback_param t)\<rparr>"]
  by (cases "string_terminator c") (auto simp: guac_terminal_set_scrollback_def)

lemma window_title_ok: "guac_terminal_window_title c t = Inr t' \<Longrightarrow> term_ok t \<Longrightarrow> term_ok t'"
  using string_update_ok(4) [of t] string_update_ok(8) [of t]
    string_update_ok(4) [of "send_output (Name (c_string (window_title t))) t"]
  by (cases "string_terminator c") (auto simp: guac_terminal_window_title_def)

lemmas string_handlers_ok = set_directory_ok download_ok set_scrollback_ok window_title_ok

lemma pipe_handlers_ok:
  "guac_terminal_open_pipe_stream c t = Inr t' \<Longrightarrow> term_ok t \<Longrightarrow> term_ok t'"
  "guac_terminal_close_pipe_stream c t = Inr t' \<Longrightarrow> term_ok t \<Longrightarrow> term_ok t'"
proof -
  assume ok: "term_ok t"
  have p: "term_ok (t\<lparr>pipe_param := []\<rparr>)" using ok by (simp add: term_ok_def control_ok_def)
  show "guac_terminal_close_pipe_stream c t = Inr t' \<Longrightarrow> term_ok t'"
    using pipe_close_ok [OF ok] ok by (auto simp: guac_terminal_close_pipe_stream_def)
  have "term_ok (t\<lparr>pipe_param := store_char 2048 c (pipe_param t)\<rparr>)" using ok by (simp add: term_ok_def control_ok_def)
  then show "guac_terminal_open_pipe_stream c t = Inr t' \<Longrightarrow> term_ok t'"
    using pipe_open_ok [OF p] p by (auto simp: guac_terminal_open_pipe_stream_def)
qed

lemma assign_color_ok:
  "term_ok t \<Longrightarrow> guac_terminal_display_assign_color (display t) i c = Some d \<Longrightarrow> term_ok (t\<lparr>display := d\<rparr>)"
  by (auto simp: guac_terminal_display_assign_color_def term_ok_def control_ok_def display_ok_def split: if_splits)

lemma palette_ok: "guac_terminal_xterm_palette c t = Inr t' \<Longrightarrow> term_ok t \<Longrightarrow> term_ok t'"
proof -
  assume run: "guac_terminal_xterm_palette c t = Inr t'" and ok: "term_ok t"
  define u where "u = (case guac_terminal_xparsecolor (c_string (palette_spec t)) of
                 None \<Rightarrow> t
               | Some color \<Rightarrow> (case guac_terminal_display_assign_color (display t) (palette_entry t) color of
                     None \<Rightarrow> t | Some d \<Rightarrow> t\<lparr>display := d\<rparr>))"
  have "term_ok u" using ok assign_color_ok [OF ok] by (auto simp: u_def split: option.split)
  moreover have "term_ok (t\<lparr>palette_spec := store_char 256 c (palette_spec t)\<rparr>)" "term_ok (t\<lparr>palette_read_spec := True, palette_spec := []\<rparr>)"
    using ok by (simp_all add: term_ok_def control_ok_def)
  ultimately show ?thesis
    using run ok by (auto simp: guac_terminal_xterm_palette_def Let_def u_def [symmetric] simp del: of_char_Char split: if_splits)
qed

lemma other_handlers_ok:
  "guac_terminal_g0_charset c t = Inr t' \<Longrightarrow> term_ok t \<Longrightarrow> term_ok t'"
  "guac_terminal_g1_charset c t = Inr t' \<Longrightarrow> term_ok t \<Longrightarrow> term_ok t'"
  "guac_terminal_osc c t = Inr t' \<Longrightarrow> term_ok t \<Longrightarrow> term_ok t'"
  "guac_terminal_apc c t = Inr t' \<Longrightarrow> term_ok t \<Longrightarrow> term_ok t'"
  by (auto simp: guac_terminal_g0_charset_def guac_terminal_g1_charset_def guac_terminal_osc_def guac_terminal_apc_def
      Let_def simp del: of_char_Char split: option.splits if_splits)

lemma ctrl_func_ok: "guac_terminal_ctrl_func junk c t = Inr t' \<Longrightarrow> term_ok t \<Longrightarrow> term_ok t'"
  by (auto simp: guac_terminal_ctrl_func_def fault_iff simp del: of_char_Char split: if_splits
      dest!: fill_rows_screen dest: term_ok_screen)

lemma step_ok:
  "char_handler_step wcw junk c t = Inr t' \<Longrightarrow> term_ok t \<Longrightarrow> \<forall>x. wcw x \<le> 2 \<Longrightarrow> term_ok t'"
  by (auto simp: char_handler_step_def split: char_handler.splits
      intro: echo_ok escape_ok csi_ok string_handlers_ok pipe_handlers_ok palette_ok other_handlers_ok ctrl_func_ok)

end
