(* ===== verification/TermResize.thy ===== *)
theory TermResize
  imports TermInvariant
begin

text \<open>
  Creation and resizing of the terminal emulator, scrolling through the scrollback, and the drawing of
  the cursor (\<open>src/src/terminal/terminal.c\<close>). The font that fixes the size of a character in pixels is
  given by arguments.
\<close>

section \<open>Creation\<close>

definition GUAC_TERMINAL_SCROLLBAR_WIDTH :: int where "GUAC_TERMINAL_SCROLLBAR_WIDTH = 16"

text \<open>The rows and columns that fit in a height and a width given in pixels.\<close>

definition calculate_rows_and_columns :: "int \<Rightarrow> int \<Rightarrow> int \<Rightarrow> int \<Rightarrow> int \<Rightarrow> int \<times> int" where
  "calculate_rows_and_columns margin font_width font_height height width =
     (let available_width = wrap32 (width - GUAC_TERMINAL_SCROLLBAR_WIDTH - 2 * margin);
          available_width = (if available_width < 0 then 0 else available_width);
          available_height = wrap32 (height - 2 * margin);
          available_height = (if available_height < 0 then 0 else available_height);
          rows = cdiv available_height font_height;
          columns = cdiv available_width font_width
      in (if rows > GUAC_TERMINAL_MAX_ROWS then GUAC_TERMINAL_MAX_ROWS else rows,
          if columns > GUAC_TERMINAL_MAX_COLUMNS then GUAC_TERMINAL_MAX_COLUMNS else columns))"

definition guac_terminal_display_alloc ::
  "guac_terminal_color \<Rightarrow> guac_terminal_color \<Rightarrow> guac_terminal_color list \<Rightarrow> guac_terminal_display" where
  "guac_terminal_display_alloc foreground background palettes =
     \<lparr>display_width = 0, display_height = 0, operations = [], unflushed_set = False, palette = palettes,
      default_palette = Some palettes, default_foreground = foreground, default_background = background, drawn = []\<rparr>"

text \<open>
  A new terminal of the given size in characters; the color scheme has been parsed. The static variables
  of the character handlers hold their initial values, \<open>junk\<close> fills the memory that is not initialized.
\<close>

definition new_terminal ::
  "guac_terminal_char \<Rightarrow> guac_terminal_color \<Rightarrow> guac_terminal_color \<Rightarrow> guac_terminal_color list \<Rightarrow> int \<Rightarrow> int \<Rightarrow> int \<Rightarrow> guac_terminal" where
  "new_terminal junk foreground background palettes scrollback rows columns =
     (let attrs = \<lparr>attr_bold = False, attr_half_bright = False, attr_cursor = False, attr_reverse = False,
            attr_underscore = False, attr_foreground = foreground, attr_background = background\<rparr>;
          dflt = \<lparr>char_value = 0, char_attributes = attrs, char_width = 1\<rparr>;
          initial_scrollback = (if scrollback < GUAC_TERMINAL_MAX_ROWS then GUAC_TERMINAL_MAX_ROWS else scrollback)
      in \<lparr>input_stream = False, pipe_stream = False, pipe_stream_flags = 0, pipe_buffer = [],
          scroll_offset = 0, max_scrollback = scrollback, requested_scrollback = scrollback,
          term_width = columns, term_height = rows, scroll_start = 0, scroll_end = 0,
          cursor_row = 0, cursor_col = 0, cursor_visible = True, visible_cursor_row = 0, visible_cursor_col = 0,
          saved_cursor_row = 0, saved_cursor_col = 0, current_attributes = attrs, default_char = dflt,
          handler = Echo, display = guac_terminal_display_alloc foreground background palettes,
          normal_buffer = guac_terminal_buffer_alloc junk (nat initial_scrollback) dflt,
          alternate_buffer = guac_terminal_buffer_alloc junk (nat GUAC_TERMINAL_MAX_ROWS) dflt,
          using_alternate = False, tab_interval = 8, custom_tabs = replicate GUAC_TERMINAL_MAX_TABS 0,
          char_mapping0 = None, char_mapping1 = None, active_char_set = 0,
          text_selected = False, selection_committed = False,
          selection_start_row = 0, selection_start_column = 0, selection_start_width = 0,
          selection_end_row = 0, selection_end_column = 0, selection_end_width = 0,
          application_cursor_keys = False, automatic_carriage_return = False, insert_mode = False,
          outputs = [], upload_path_handler = False, file_download_handler = False,
          echo_bytes_remaining = 0, echo_codepoint = 0, csi_argv = replicate 16 0, csi_argc = 0,
          csi_private_mode = 0, csi_argv_buffer = [], directory_filename = [], download_filename = [],
          pipe_param = [], pipe_flags = 0, scrollback_param = [], window_title = [],
          palette_read_spec = False, palette_entry = 0, palette_spec = [], osc_operation = 0, apc_escaping = False\<rparr>)"

definition guac_terminal_create ::
  "guac_terminal_char \<Rightarrow> guac_terminal_color \<Rightarrow> guac_terminal_color \<Rightarrow> guac_terminal_color list \<Rightarrow> int \<Rightarrow> int \<Rightarrow> int \<Rightarrow>
     guac_terminal result" where
  "guac_terminal_create junk foreground background palettes scrollback rows columns =
     (let term = send_output Repaint_default_layer (new_terminal junk foreground background palettes scrollback rows columns)
      in bindr (guac_terminal_display_resize (display term) (term_width term) (term_height term))
           (\<lambda>d. guac_terminal_reset (term\<lparr>display := d\<rparr>)))"

section \<open>The cursor\<close>

text \<open>Draw one cell of the buffer, if the row has it.\<close>

definition draw_cell :: "int \<Rightarrow> int \<Rightarrow> guac_terminal \<Rightarrow> guac_terminal result" where
  "draw_cell row col term =
     (case guac_terminal_buffer_get_columns (current_buffer term) row of
        None \<Rightarrow> if col < 0 then Inl Undefined else Inr term
      | Some (cs, wrapped, len) \<Rightarrow>
          if col < int len
          then defined (0 \<le> col)
                 (bindr (guac_terminal_display_set_columns (display term) (row + scroll_offset term) col col (cs ! nat col))
                    (\<lambda>d. Inr (term\<lparr>display := d\<rparr>)))
          else Inr term)"

definition highlight_cell :: "int \<Rightarrow> int \<Rightarrow> bool \<Rightarrow> guac_terminal \<Rightarrow> guac_terminal result" where
  "highlight_cell row col is_cursor term =
     bindr (guac_terminal_buffer_set_cursor (current_buffer term) row col is_cursor)
       (\<lambda>buf. draw_cell row col (set_current_buffer buf term))"

definition guac_terminal_commit_cursor :: "guac_terminal \<Rightarrow> guac_terminal result" where
  "guac_terminal_commit_cursor term =
     (if cursor_visible term \<and> visible_cursor_row term = cursor_row term \<and> visible_cursor_col term = cursor_col term
      then Inr term
      else
        bindr (if visible_cursor_row term \<noteq> -1 \<and> visible_cursor_col term \<noteq> -1
               then highlight_cell (visible_cursor_row term) (visible_cursor_col term) False term
               else Inr term) (\<lambda>term.
          if cursor_visible term
          then bindr (highlight_cell (cursor_row term) (cursor_col term) True term)
                 (\<lambda>term. Inr (term\<lparr>visible_cursor_row := cursor_row term, visible_cursor_col := cursor_col term\<rparr>))
          else Inr (term\<lparr>visible_cursor_row := -1, visible_cursor_col := -1\<rparr>)))"

section \<open>Scrolling through the scrollback\<close>

fun draw_scroll_rows :: "nat \<Rightarrow> int \<Rightarrow> int \<Rightarrow> guac_terminal \<Rightarrow> guac_terminal result" where
  "draw_scroll_rows 0 row dest_row term = Inr term"
| "draw_scroll_rows (Suc n) row dest_row term =
     bindr (guac_terminal_display_set_columns (display term) dest_row 0 (display_width (display term)) (default_char term)) (\<lambda>d.
     bindr (case guac_terminal_buffer_get_columns (current_buffer term) row of
              None \<Rightarrow> Inr d
            | Some (cs, wrapped, len) \<Rightarrow> redraw_chars term cs dest_row len 0 d)
       (\<lambda>d. draw_scroll_rows n (row + 1) (dest_row + 1) (term\<lparr>display := d\<rparr>)))"

definition guac_terminal_scroll_display_down :: "int \<Rightarrow> guac_terminal \<Rightarrow> guac_terminal result" where
  "guac_terminal_scroll_display_down scroll_amount term =
     (let amount = (if scroll_amount > scroll_offset term then scroll_offset term else scroll_amount) in
      if amount \<le> 0 then Inr term
      else
        bindr (if term_height term > amount
               then guac_terminal_display_copy_rows (display term) amount (term_height term - 1) (- amount)
               else Inr (display term)) (\<lambda>d.
          let term = term\<lparr>display := d, scroll_offset := scroll_offset term - amount\<rparr>;
              term = send_output (Scrollbar_value (- scroll_offset term)) term;
              end_row = term_height term - scroll_offset term - 1
          in draw_scroll_rows (nat amount) (end_row - amount + 1) (term_height term - amount) term))"

definition guac_terminal_scroll_display_up :: "int \<Rightarrow> guac_terminal \<Rightarrow> guac_terminal result" where
  "guac_terminal_scroll_display_up scroll_amount term =
     (let available_scroll = guac_terminal_get_available_scroll term;
          amount = (if wrap32 (scroll_offset term + scroll_amount) > available_scroll
                    then wrap32 (available_scroll - scroll_offset term) else scroll_amount) in
      if amount \<le> 0 then Inr term
      else
        bindr (if term_height term > amount
               then guac_terminal_display_copy_rows (display term) 0 (term_height term - amount - 1) amount
               else Inr (display term)) (\<lambda>d.
          let term = term\<lparr>display := d, scroll_offset := wrap32 (scroll_offset term + amount)\<rparr>;
              term = send_output (Scrollbar_value (- scroll_offset term)) term
          in draw_scroll_rows (nat amount) (- scroll_offset term) 0 term))"

definition guac_terminal_scroll_handler :: "int \<Rightarrow> guac_terminal \<Rightarrow> guac_terminal result" where
  "guac_terminal_scroll_handler v term =
     (let delta = wrap32 (- v - scroll_offset term) in
      bindr (if delta < 0 then guac_terminal_scroll_display_down (wrap32 (- delta)) term
             else if delta > 0 then guac_terminal_scroll_display_up delta term
             else Inr term)
        (\<lambda>term. Inr (send_output (Scrollbar_value v) term)))"

section \<open>Resizing\<close>

definition shift_visible_cursor :: "int \<Rightarrow> guac_terminal \<Rightarrow> guac_terminal" where
  "shift_visible_cursor n term =
     (if visible_cursor_row term \<noteq> -1 then term\<lparr>visible_cursor_row := visible_cursor_row term + n\<rparr> else term)"

text \<open>If the height is decreasing, shift the display up.\<close>

definition resize_shrink :: "int \<Rightarrow> int \<Rightarrow> guac_terminal \<Rightarrow> guac_terminal result" where
  "resize_shrink width height term =
     (if height < term_height term
      then
        let used_height = guac_terminal_effective_buffer_length term;
            used_height = (if used_height > term_height term then term_height term else used_height);
            shift_amount = used_height - height
        in if shift_amount > 0
           then bindr (guac_terminal_display_copy_rows (display term) shift_amount (display_height (display term) - 1)
                         (- shift_amount)) (\<lambda>d.
                  guac_terminal_redraw_rect (height - shift_amount) 0 (height - 1) (width - 1)
                    (shift_visible_cursor (- shift_amount)
                      ((set_current_buffer (guac_terminal_buffer_scroll_up (current_buffer term) shift_amount)
                         (term\<lparr>display := d\<rparr>))\<lparr>cursor_row := cursor_row term - shift_amount\<rparr>)))
           else Inr term
      else Inr term)"

text \<open>Resize the display, and redraw any characters on the right if widening.\<close>

definition resize_display :: "int \<Rightarrow> int \<Rightarrow> guac_terminal \<Rightarrow> guac_terminal result" where
  "resize_display width height term =
     bindr (guac_terminal_display_resize (guac_terminal_display_flush_operations (display term)) width height) (\<lambda>d.
       let term = term\<lparr>display := d\<rparr>
       in if width > term_width term
          then guac_terminal_redraw_rect 0 (term_width term - 1) (height - 1) (width - 1) term
          else Inr term)"

text \<open>If the height is increasing, shift undisplayed rows into view.\<close>

definition resize_grow :: "int \<Rightarrow> int \<Rightarrow> guac_terminal \<Rightarrow> guac_terminal result" where
  "resize_grow width height term =
     (let available_scroll = guac_terminal_get_available_scroll term in
      if height > term_height term \<and> available_scroll > 0
      then
        let shift_amount = height - term_height term;
            shift_amount = (if shift_amount > available_scroll then available_scroll else shift_amount);
            term = shift_visible_cursor shift_amount
              ((set_current_buffer (guac_terminal_buffer_scroll_down (current_buffer term) shift_amount) term)
                 \<lparr>cursor_row := cursor_row term + shift_amount\<rparr>)
        in if scroll_offset term \<ge> shift_amount
           then
             let term = term\<lparr>scroll_offset := scroll_offset term - shift_amount\<rparr>
             in guac_terminal_redraw_rect (term_height term) 0 (term_height term + shift_amount - 1) (width - 1)
                  (send_output (Scrollbar_value (- scroll_offset term)) term)
           else
             bindr (guac_terminal_redraw_rect (term_height term) 0 (term_height term + scroll_offset term - 1) (width - 1) term)
               (\<lambda>term.
                 let shift_amount = wrap32 (shift_amount - scroll_offset term);
                     term = send_output (Scrollbar_value 0) (term\<lparr>scroll_offset := 0\<rparr>)
                 in if shift_amount > 0
                    then bindr (guac_terminal_display_copy_rows (display term) 0
                                  (display_height (display term) - shift_amount - 1) shift_amount) (\<lambda>d.
                           guac_terminal_redraw_rect 0 0 (shift_amount - 1) (width - 1) (term\<lparr>display := d\<rparr>))
                    else Inr term)
      else Inr term)"

definition resize_commit :: "int \<Rightarrow> int \<Rightarrow> guac_terminal \<Rightarrow> guac_terminal" where
  "resize_commit width height term =
     (let row = (if cursor_row term < 0 then 0 else cursor_row term);
          row = (if row \<ge> height then height - 1 else row);
          col = (if cursor_col term < 0 then 0 else cursor_col term);
          col = (if col \<ge> width then width - 1 else col)
      in term\<lparr>cursor_row := row, cursor_col := col, term_width := width, term_height := height\<rparr>)"

definition resize_characters :: "int \<Rightarrow> int \<Rightarrow> guac_terminal \<Rightarrow> guac_terminal result" where
  "resize_characters width height term =
     bindr (resize_shrink width height term) (\<lambda>term.
     bindr (resize_display width height term) (\<lambda>term.
     bindr (resize_grow width height term) (\<lambda>term.
     Inr (resize_commit width height term))))"

text \<open>The size in pixels decides the number of rows and columns.\<close>

definition guac_terminal_resize :: "int \<Rightarrow> int \<Rightarrow> int \<Rightarrow> int \<Rightarrow> int \<Rightarrow> guac_terminal \<Rightarrow> guac_terminal result" where
  "guac_terminal_resize margin font_width font_height width height term =
     (let (rows, columns) = calculate_rows_and_columns margin font_width font_height height width;
          term = send_output Repaint_default_layer term
      in bindr (if columns \<noteq> term_width term \<or> rows \<noteq> term_height term
                then bindr (resize_characters columns rows term) (\<lambda>term. Inr (term\<lparr>scroll_end := rows - 1\<rparr>))
                else Inr term)
           (\<lambda>term. Inr (update_scrollbar_bounds term)))"

section \<open>Flushing\<close>

definition GUAC_TERMINAL_PIPE_AUTOFLUSH :: int where "GUAC_TERMINAL_PIPE_AUTOFLUSH = 2"

definition guac_terminal_flush :: "guac_terminal \<Rightarrow> guac_terminal result" where
  "guac_terminal_flush term =
     (let term = (if pipe_stream_flags term AND GUAC_TERMINAL_PIPE_AUTOFLUSH \<noteq> 0
                  then guac_terminal_pipe_stream_flush term else term)
      in bindr (guac_terminal_commit_cursor term)
           (\<lambda>term. Inr (term\<lparr>display := guac_terminal_display_flush_operations (display term)\<rparr>)))"

section \<open>The invariant\<close>

lemma redraw_rect_screen: "guac_terminal_redraw_rect a s b e t = Inr t' \<Longrightarrow> screen_only t t'"
  by (auto simp: guac_terminal_redraw_rect_def fault_iff screen_only_def dest: redraw_rows_ok)

lemma draw_cell_screen: "draw_cell row col t = Inr t' \<Longrightarrow> screen_only t t'"
  using display_set_columns_Inr [of "display t"]
  by (fastforce simp: draw_cell_def fault_iff screen_only_def split: option.splits if_splits)

lemma highlight_cell_screen: "highlight_cell row col b t = Inr t' \<Longrightarrow> screen_only t t'"
  by (auto simp: highlight_cell_def fault_iff dest!: draw_cell_screen intro: screen_only_trans [OF screen_only_updates(4)])

lemma commit_cursor_ok: "guac_terminal_commit_cursor t = Inr t' \<Longrightarrow> term_ok t \<Longrightarrow> term_ok t'"
proof -
  assume run: "guac_terminal_commit_cursor t = Inr t'" and ok: "term_ok t"
  have step: "highlight_cell row col b u = Inr v \<Longrightarrow> term_ok u \<Longrightarrow> term_ok v" for row col b u v
    using highlight_cell_screen term_ok_screen by blast
  show ?thesis
    using run ok by (auto simp: guac_terminal_commit_cursor_def fault_iff split: if_splits dest: step)
qed

lemma flush_ok: "guac_terminal_flush t = Inr t' \<Longrightarrow> term_ok t \<Longrightarrow> term_ok t'"
proof -
  assume run: "guac_terminal_flush t = Inr t'" and ok: "term_ok t"
  have d: "term_ok (u\<lparr>display := guac_terminal_display_flush_operations (display u)\<rparr>)" if "term_ok u" for u
    using that display_ok_flush by (simp add: term_ok_def control_ok_def same_size_def)
  show ?thesis
    using run ok d pipe_flush_ok(1) [OF ok] commit_cursor_ok
    by (auto simp: guac_terminal_flush_def Let_def fault_iff split: if_splits)
qed

lemma draw_scroll_rows_screen: "draw_scroll_rows n row dest t = Inr t' \<Longrightarrow> screen_only t t'"
proof (induction n arbitrary: row dest t)
  case (Suc n)
  then obtain d d' where d: "guac_terminal_display_set_columns (display t) dest 0 (display_width (display t)) (default_char t) = Inr d"
    "(case guac_terminal_buffer_get_columns (current_buffer t) row of
              None \<Rightarrow> Inr d
            | Some (cs, wrapped, len) \<Rightarrow> redraw_chars t cs dest len 0 d) = Inr d'"
    "draw_scroll_rows n (row + 1) (dest + 1) (t\<lparr>display := d'\<rparr>) = Inr t'"
    by (auto simp: fault_iff)
  have "display_ok (display t) \<Longrightarrow> display_ok d \<and> same_size (display t) d"
    using display_set_columns_Inr d(1) by blast
  moreover have "display_ok d \<Longrightarrow> display_ok d' \<and> same_size d d'"
    using d(2) redraw_chars_ok by (auto split: option.splits)
  ultimately have "screen_only t (t\<lparr>display := d'\<rparr>)" by (auto simp: screen_only_def same_size_def)
  then show ?case using Suc.IH [OF d(3)] by (rule screen_only_trans)
qed simp

text \<open>Like \<open>screen_only\<close>, but the cursor row and the scroll position may change as well.\<close>

definition resizing :: "guac_terminal \<Rightarrow> guac_terminal \<Rightarrow> bool" where
  "resizing t t' \<longleftrightarrow> control (t'\<lparr>cursor_row := 0, scroll_offset := 0\<rparr>) = control (t\<lparr>cursor_row := 0, scroll_offset := 0\<rparr>) \<and>
     (display_ok (display t) \<longrightarrow> display_ok (display t') \<and> same_size (display t) (display t'))"

lemma control_cursor_row [simp]: "control (t\<lparr>cursor_row := i\<rparr>) = (control t)\<lparr>cursor_row := i\<rparr>"
  by (simp add: control_def)

lemma control_scroll_offset [simp]: "control (t\<lparr>scroll_offset := i\<rparr>) = (control t)\<lparr>scroll_offset := i\<rparr>"
  by (simp add: control_def)

lemma resizing_refl [simp]: "resizing t t"
  by (simp add: resizing_def)

lemma resizing_trans: "resizing a b \<Longrightarrow> resizing b c \<Longrightarrow> resizing a c"
  by (simp add: resizing_def same_size_def)

lemma resizing_screen: "screen_only t t' \<Longrightarrow> resizing t t'"
  by (simp add: resizing_def screen_only_def)

lemma resizing_updates [simp]:
  "resizing t (t\<lparr>cursor_row := i\<rparr>)" "resizing t (t\<lparr>scroll_offset := i\<rparr>)" "resizing t (t\<lparr>outputs := out\<rparr>)"
  "resizing t (shift_visible_cursor n t)" "resizing t (set_current_buffer b t)"
  by (simp_all add: resizing_def shift_visible_cursor_def set_current_buffer_def)

lemma resizing_display: "(display_ok (display t) \<Longrightarrow> display_ok d \<and> same_size (display t) d) \<Longrightarrow> resizing t (t\<lparr>display := d\<rparr>)"
  by (simp add: resizing_def)

lemma resizing_fields:
  assumes "resizing t t'"
  shows "term_width t' = term_width t" "term_height t' = term_height t"
proof -
  have e: "(control t')\<lparr>cursor_row := 0, scroll_offset := 0\<rparr> = (control t)\<lparr>cursor_row := 0, scroll_offset := 0\<rparr>"
    using assms by (simp add: resizing_def)
  show "term_width t' = term_width t" using arg_cong [OF e, of term_width] by (simp add: control_def)
  show "term_height t' = term_height t" using arg_cong [OF e, of term_height] by (simp add: control_def)
qed

lemma redraw_rect_resizing: "guac_terminal_redraw_rect a s b e t = Inr t' \<Longrightarrow> resizing t t'"
  by (rule resizing_screen) (rule redraw_rect_screen)

lemma copy_rows_resizing:
  "guac_terminal_display_copy_rows (display t) a b k = Inr d \<Longrightarrow> in_int k \<Longrightarrow> resizing t (t\<lparr>display := d\<rparr>)"
  by (rule resizing_display) (use display_copy_rows_Inr in blast)

lemma effective_length_bound: "0 \<le> guac_terminal_effective_buffer_length t"
  by (simp add: guac_terminal_effective_buffer_length_def Let_def)

lemma resize_shrink_resizing:
  assumes "resize_shrink w h t = Inr t'" "0 \<le> h" "term_height t \<le> 1024"
  shows "resizing t t'"
proof (cases "h < term_height t")
  case False
  then show ?thesis using assms(1) by (simp add: resize_shrink_def)
next
  case True
  define used where "used = (if guac_terminal_effective_buffer_length t > term_height t then term_height t
    else guac_terminal_effective_buffer_length t)"
  have used: "0 \<le> used" "used \<le> 1024" using assms(2,3) True effective_length_bound [of t] by (auto simp: used_def)
  show ?thesis
  proof (cases "used - h > 0")
    case False
    then show ?thesis using assms(1) True by (simp add: resize_shrink_def Let_def used_def)
  next
    case pos: True
    define k where "k = used - h"
    obtain d where d: "guac_terminal_display_copy_rows (display t) k (display_height (display t) - 1) (- k) = Inr d"
      and run: "guac_terminal_redraw_rect (h - k) 0 (h - 1) (w - 1) (shift_visible_cursor (- k)
        ((set_current_buffer (guac_terminal_buffer_scroll_up (current_buffer t) k) (t\<lparr>display := d\<rparr>))
           \<lparr>cursor_row := cursor_row t - k\<rparr>)) = Inr t'"
      using assms(1) True pos
      unfolding resize_shrink_def Let_def used_def [symmetric] k_def [symmetric] by (auto simp: bindr_Inr k_def)
    have "in_int (- k)" using used assms(2) pos by (simp add: in_int_bounds k_def)
    then have "resizing t (t\<lparr>display := d\<rparr>)" using copy_rows_resizing d by blast
    then show ?thesis
      using resizing_updates resizing_trans redraw_rect_resizing [OF run] by meson
  qed
qed

lemma resize_grow_resizing: "resize_grow w h t = Inr t' \<Longrightarrow> resizing t t'"
proof (cases "h > term_height t \<and> guac_terminal_get_available_scroll t > 0")
  case False
  then show "resize_grow w h t = Inr t' \<Longrightarrow> resizing t t'" by (simp add: resize_grow_def Let_def)
next
  case True
  assume run: "resize_grow w h t = Inr t'"
  define k where "k = (if h - term_height t > guac_terminal_get_available_scroll t
    then guac_terminal_get_available_scroll t else h - term_height t)"
  define u where "u = shift_visible_cursor k
    ((set_current_buffer (guac_terminal_buffer_scroll_down (current_buffer t) k) t)\<lparr>cursor_row := cursor_row t + k\<rparr>)"
  have u: "resizing t u" unfolding u_def using resizing_updates resizing_trans by meson
  have body: "(if scroll_offset u \<ge> k
     then guac_terminal_redraw_rect (term_height (u\<lparr>scroll_offset := scroll_offset u - k\<rparr>)) 0
            (term_height (u\<lparr>scroll_offset := scroll_offset u - k\<rparr>) + k - 1) (w - 1)
            (send_output (Scrollbar_value (- scroll_offset (u\<lparr>scroll_offset := scroll_offset u - k\<rparr>))) (u\<lparr>scroll_offset := scroll_offset u - k\<rparr>))
     else bindr (guac_terminal_redraw_rect (term_height u) 0 (term_height u + scroll_offset u - 1) (w - 1) u)
       (\<lambda>v. if wrap32 (k - scroll_offset v) > 0
            then bindr (guac_terminal_display_copy_rows (display (send_output (Scrollbar_value 0) (v\<lparr>scroll_offset := 0\<rparr>))) 0
                          (display_height (display (send_output (Scrollbar_value 0) (v\<lparr>scroll_offset := 0\<rparr>))) - wrap32 (k - scroll_offset v) - 1)
                          (wrap32 (k - scroll_offset v)))
                   (\<lambda>d. guac_terminal_redraw_rect 0 0 (wrap32 (k - scroll_offset v) - 1) (w - 1)
                          ((send_output (Scrollbar_value 0) (v\<lparr>scroll_offset := 0\<rparr>))\<lparr>display := d\<rparr>))
            else Inr (send_output (Scrollbar_value 0) (v\<lparr>scroll_offset := 0\<rparr>)))) = Inr t'"
    using run True unfolding resize_grow_def Let_def k_def [symmetric] u_def [symmetric] by (simp only: simp_thms if_True)
  show "resizing t t'"
  proof (cases "scroll_offset u \<ge> k")
    case c: True
    have "resizing u t'"
      using body unfolding if_P [OF c]
      by (rule resizing_trans [OF resizing_trans [OF resizing_updates(2) resizing_updates(3)] redraw_rect_resizing])
    then show ?thesis using u resizing_trans by blast
  next
    case c: False
    obtain v where v: "guac_terminal_redraw_rect (term_height u) 0 (term_height u + scroll_offset u - 1) (w - 1) u = Inr v"
      and rest: "(if wrap32 (k - scroll_offset v) > 0
            then bindr (guac_terminal_display_copy_rows (display (send_output (Scrollbar_value 0) (v\<lparr>scroll_offset := 0\<rparr>))) 0
                          (display_height (display (send_output (Scrollbar_value 0) (v\<lparr>scroll_offset := 0\<rparr>))) - wrap32 (k - scroll_offset v) - 1)
                          (wrap32 (k - scroll_offset v)))
                   (\<lambda>d. guac_terminal_redraw_rect 0 0 (wrap32 (k - scroll_offset v) - 1) (w - 1)
                          ((send_output (Scrollbar_value 0) (v\<lparr>scroll_offset := 0\<rparr>))\<lparr>display := d\<rparr>))
            else Inr (send_output (Scrollbar_value 0) (v\<lparr>scroll_offset := 0\<rparr>))) = Inr t'"
      using body unfolding if_not_P [OF c] bindr_Inr by blast
    define v' where "v' = send_output (Scrollbar_value 0) (v\<lparr>scroll_offset := 0\<rparr>)"
    have "resizing u v" using redraw_rect_resizing v by blast
    moreover have "resizing v v'" unfolding v'_def by (rule resizing_trans [OF resizing_updates(2) resizing_updates(3)])
    moreover have "resizing v' t'"
    proof (cases "wrap32 (k - scroll_offset v) > 0")
      case True
      then obtain d where d: "guac_terminal_display_copy_rows (display v') 0
            (display_height (display v') - wrap32 (k - scroll_offset v) - 1) (wrap32 (k - scroll_offset v)) = Inr d"
        "guac_terminal_redraw_rect 0 0 (wrap32 (k - scroll_offset v) - 1) (w - 1) (v'\<lparr>display := d\<rparr>) = Inr t'"
        using rest unfolding v'_def [symmetric] if_P [OF True] bindr_Inr by blast
      show ?thesis
        by (rule resizing_trans [OF copy_rows_resizing [OF d(1) wrap32_in_int] redraw_rect_resizing [OF d(2)]])
    next
      case False
      then show ?thesis using rest unfolding v'_def [symmetric] if_not_P [OF False] by simp
    qed
    ultimately show ?thesis using u resizing_trans by blast
  qed
qed

lemma display_resize_ok:
  assumes "guac_terminal_display_resize d w h = Inr d'" "display_ok d"
  shows "display_ok d' \<and> display_width d' = w \<and> display_height d' = h"
  using assms
  by (auto simp: guac_terminal_display_resize_def guac_assert_Inr display_ok_def Let_def GUAC_TERMINAL_MAX_COLUMNS_def
      GUAC_TERMINAL_MAX_ROWS_def split: if_splits)

lemma resize_characters_ok:
  assumes "resize_characters w h t = Inr t'" "term_ok t" "1 \<le> w" "w \<le> 1024" "1 \<le> h" "h \<le> 1024"
  shows "term_ok t'"
proof -
  obtain u v x where u: "resize_shrink w h t = Inr u" and v: "resize_display w h u = Inr v"
    and x: "resize_grow w h v = Inr x" "t' = resize_commit w h x"
    using assms(1) by (auto simp: resize_characters_def fault_iff)
  have ru: "resizing t u" using resize_shrink_resizing [OF u] assms term_ok_parts [OF assms(2)] by simp
  then have ou: "display_ok (display u)" using assms(2) by (simp add: term_ok_def resizing_def)
  obtain d where d: "guac_terminal_display_resize (guac_terminal_display_flush_operations (display u)) w h = Inr d"
    "v = u\<lparr>display := d\<rparr> \<or> guac_terminal_redraw_rect 0 (term_width u - 1) (h - 1) (w - 1) (u\<lparr>display := d\<rparr>) = Inr v"
    using v by (auto simp: resize_display_def fault_iff Let_def split: if_splits)
  have od: "display_ok d" "display_width d = w" "display_height d = h"
    using display_resize_ok [OF d(1)] display_ok_flush(1) [OF ou] by auto
  have "screen_only (u\<lparr>display := d\<rparr>) v" using d(2) redraw_rect_screen by auto
  then have ov: "display_ok (display v)" "display_width (display v) = w" "display_height (display v) = h" "control v = control u"
    using od by (auto simp: screen_only_def same_size_def)
  have rx: "resizing v x" using resize_grow_resizing [OF x(1)] .
  have e: "(control x)\<lparr>cursor_row := 0, scroll_offset := 0\<rparr> = (control t)\<lparr>cursor_row := 0, scroll_offset := 0\<rparr>"
    using ru ov(4) rx by (simp add: resizing_def)
  have "control_ok ((control t)\<lparr>cursor_row := 0, scroll_offset := 0\<rparr>)"
    using assms(2) by (simp add: term_ok_def control_ok_def control_def)
  then have "control_ok ((control x)\<lparr>cursor_row := 0, scroll_offset := 0\<rparr>)" using e by simp
  then have "control_ok t'" using assms(3-) x(2)
    by (simp add: control_ok_def control_def resize_commit_def Let_def)
  moreover have "display_ok (display x)" "same_size (display v) (display x)" using rx ov(1) by (simp_all add: resizing_def)
  ultimately show ?thesis using ov x(2) by (simp add: term_ok_def resize_commit_def Let_def same_size_def)
qed

text \<open>The size in pixels that leaves room for at least one character.\<close>

definition size_ok :: "int \<Rightarrow> int \<Rightarrow> int \<Rightarrow> int \<Rightarrow> int \<Rightarrow> bool" where
  "size_ok margin font_width font_height width height \<longleftrightarrow>
     1 \<le> fst (calculate_rows_and_columns margin font_width font_height height width) \<and>
     1 \<le> snd (calculate_rows_and_columns margin font_width font_height height width)"

lemma calculate_bounds:
  assumes "calculate_rows_and_columns m fw fh height width = (rows, columns)"
  shows "rows \<le> 1024" "columns \<le> 1024"
  using assms by (auto simp: calculate_rows_and_columns_def Let_def GUAC_TERMINAL_MAX_COLUMNS_def GUAC_TERMINAL_MAX_ROWS_def
    split: if_splits)

lemma terminal_resize_ok:
  assumes "guac_terminal_resize m fw fh width height t = Inr t'" "term_ok t" "size_ok m fw fh width height"
  shows "term_ok t'"
proof -
  obtain rows columns where rc: "calculate_rows_and_columns m fw fh height width = (rows, columns)" by fastforce
  define u where "u = send_output Repaint_default_layer t"
  have u: "term_ok u" using assms(2) by (simp add: u_def)
  have "1 \<le> rows" "1 \<le> columns" using assms(3) by (simp_all add: size_ok_def rc)
  then have ok: "resize_characters columns rows u = Inr v \<Longrightarrow> term_ok v" for v
    using resize_characters_ok [OF _ u] calculate_bounds [OF rc] by blast
  show ?thesis
    using assms(1) u ok by (auto simp: guac_terminal_resize_def rc Let_def u_def [symmetric] fault_iff split: if_splits)
qed

lemma scroll_handler_ok: "guac_terminal_scroll_handler v t = Inr t' \<Longrightarrow> term_ok t \<Longrightarrow> term_ok t'"
proof -
  assume run: "guac_terminal_scroll_handler v t = Inr t'" and ok: "term_ok t"
  have copied: "guac_terminal_display_copy_rows (display t) a b k = Inr d \<Longrightarrow> in_int k \<Longrightarrow> term_ok (t\<lparr>display := d\<rparr>)" for a b k d
    using display_copy_rows_Inr [of "display t" k a b d] ok by (auto simp: term_ok_def control_ok_def same_size_def)
  have rows: "draw_scroll_rows n r d u = Inr x \<Longrightarrow> term_ok u \<Longrightarrow> term_ok x" for n r d u x
    using draw_scroll_rows_screen term_ok_screen by blast
  have h: "term_height t \<le> 1024" using term_ok_parts [OF ok] by simp
  have down: "term_ok x" if h1: "guac_terminal_scroll_display_down k t = Inr x" for k x
  proof -
    define a where "a = (if k > scroll_offset t then scroll_offset t else k)"
    show ?thesis
    proof (cases "a \<le> 0")
      case True
      then show ?thesis using h1 ok by (simp add: guac_terminal_scroll_display_down_def Let_def a_def)
    next
      case False
      then obtain d where d: "(if term_height t > a
          then guac_terminal_display_copy_rows (display t) a (term_height t - 1) (- a) else Inr (display t)) = Inr d"
        and run: "draw_scroll_rows (nat a) (term_height t - (scroll_offset t - a) - 1 - a + 1) (term_height t - a)
          (send_output (Scrollbar_value (- (scroll_offset t - a))) (t\<lparr>display := d, scroll_offset := scroll_offset t - a\<rparr>)) = Inr x"
        using h1 unfolding guac_terminal_scroll_display_down_def Let_def a_def [symmetric] by (auto simp: bindr_Inr)
      have "term_ok (t\<lparr>display := d\<rparr>)"
        using d ok copied [of a "term_height t - 1" "- a" d] False h by (auto simp: in_int_bounds split: if_splits)
      then show ?thesis using rows [OF run] by simp
    qed
  qed
  have up: "term_ok x" if h1: "guac_terminal_scroll_display_up k t = Inr x" for k x
  proof -
    define a where "a = (if wrap32 (scroll_offset t + k) > guac_terminal_get_available_scroll t
                    then wrap32 (guac_terminal_get_available_scroll t - scroll_offset t) else k)"
    show ?thesis
    proof (cases "a \<le> 0")
      case True
      then show ?thesis using h1 ok by (simp add: guac_terminal_scroll_display_up_def Let_def a_def)
    next
      case False
      then obtain d where d: "(if term_height t > a
          then guac_terminal_display_copy_rows (display t) 0 (term_height t - a - 1) a else Inr (display t)) = Inr d"
        and run: "draw_scroll_rows (nat a) (- wrap32 (scroll_offset t + a)) 0
          (send_output (Scrollbar_value (- wrap32 (scroll_offset t + a))) (t\<lparr>display := d, scroll_offset := wrap32 (scroll_offset t + a)\<rparr>)) = Inr x"
        using h1 unfolding guac_terminal_scroll_display_up_def Let_def a_def [symmetric] by (auto simp: bindr_Inr)
      have "term_ok (t\<lparr>display := d\<rparr>)"
        using d ok copied [of 0 "term_height t - a - 1" a d] False h by (auto simp: in_int_bounds split: if_splits)
      then show ?thesis using rows [OF run] by simp
    qed
  qed
  show ?thesis
    using run ok down up by (auto simp: guac_terminal_scroll_handler_def Let_def fault_iff split: if_splits)
qed

section \<open>Reachable terminals\<close>

lemma new_terminal_ok:
  assumes "1 \<le> rows" "rows \<le> 1024" "1 \<le> columns" "columns \<le> 1024" "length palettes = 256"
    and "guac_terminal_display_resize (guac_terminal_display_alloc fg bg palettes) columns rows = Inr d"
  shows "term_ok ((send_output Repaint_default_layer (new_terminal junk fg bg palettes scrollback rows columns))\<lparr>display := d\<rparr>)"
proof -
  have "display_ok (guac_terminal_display_alloc fg bg palettes)"
    using assms(5) by (simp add: display_ok_def guac_terminal_display_alloc_def)
  then have "display_ok d \<and> display_width d = columns \<and> display_height d = rows"
    using display_resize_ok [OF assms(6)] by blast
  then show ?thesis
    using assms(1-4) by (simp add: new_terminal_def Let_def term_ok_def control_ok_def INT_MAX_def)
qed

lemma create_ok:
  assumes "guac_terminal_create junk fg bg palettes scrollback rows columns = Inr t"
    and "1 \<le> rows" "rows \<le> 1024" "1 \<le> columns" "columns \<le> 1024" "length palettes = 256"
  shows "term_ok t"
proof -
  let ?n = "new_terminal junk fg bg palettes scrollback rows columns"
  have f: "display ?n = guac_terminal_display_alloc fg bg palettes" "term_width ?n = columns" "term_height ?n = rows"
    by (simp_all add: new_terminal_def Let_def)
  obtain d where "guac_terminal_display_resize (guac_terminal_display_alloc fg bg palettes) columns rows = Inr d"
    "guac_terminal_reset ((send_output Repaint_default_layer ?n)\<lparr>display := d\<rparr>) = Inr t"
    using assms(1) f by (auto simp: guac_terminal_create_def Let_def fault_iff)
  then show ?thesis using new_terminal_ok [OF assms(2-6)] reset_ok by blast
qed

section \<open>Histories of a terminal\<close>

text \<open>
  What happens to a terminal: a byte is written (with what memory held that the handlers do not initialize), it is resized
  (in pixels), scrolled, or flushed.
\<close>

datatype terminal_event =
    Write_byte int int
  | Resize_pixels int int int int int
  | Scroll_to int
  | Flush_display

fun terminal_step :: "(int \<Rightarrow> int) \<Rightarrow> terminal_event \<Rightarrow> guac_terminal \<Rightarrow> guac_terminal result" where
  "terminal_step wcw (Write_byte junk c) t = char_handler_step wcw junk c t"
| "terminal_step wcw (Resize_pixels margin font_width font_height width height) t =
     guac_terminal_resize margin font_width font_height width height t"
| "terminal_step wcw (Scroll_to v) t = guac_terminal_scroll_handler v t"
| "terminal_step wcw Flush_display t = guac_terminal_flush t"

fun terminal_run :: "(int \<Rightarrow> int) \<Rightarrow> terminal_event list \<Rightarrow> guac_terminal \<Rightarrow> guac_terminal result" where
  "terminal_run wcw [] t = Inr t"
| "terminal_run wcw (e # es) t = bindr (terminal_step wcw e t) (terminal_run wcw es)"

text \<open>Every resize leaves room for a character.\<close>

fun leaves_room :: "terminal_event \<Rightarrow> bool" where
  "leaves_room (Resize_pixels margin font_width font_height width height) \<longleftrightarrow> size_ok margin font_width font_height width height"
| "leaves_room _ \<longleftrightarrow> True"

lemma terminal_step_ok:
  "terminal_step wcw e t = Inr t' \<Longrightarrow> leaves_room e \<Longrightarrow> \<forall>x. wcw x \<le> 2 \<Longrightarrow> term_ok t \<Longrightarrow> term_ok t'"
  by (cases e) (auto intro: step_ok terminal_resize_ok scroll_handler_ok flush_ok)

lemma terminal_run_ok:
  "terminal_run wcw es t = Inr t' \<Longrightarrow> \<forall>e \<in> set es. leaves_room e \<Longrightarrow> \<forall>x. wcw x \<le> 2 \<Longrightarrow> term_ok t \<Longrightarrow> term_ok t'"
  by (induction es arbitrary: t) (auto simp: fault_iff dest: terminal_step_ok)

lemma write_run: "guac_terminal_write wcw junk bs t = terminal_run wcw (map (Write_byte junk) bs) t"
  by (induction bs arbitrary: t) (auto simp: bindr_def split: sum.splits)

text \<open>Without room for a row or a column, the code that keeps the cursor on the screen puts it before it.\<close>

lemma resize_without_room:
  assumes "guac_terminal_resize margin font_width font_height width height t = Inr t'"
    and "calculate_rows_and_columns margin font_width font_height height width = (rows, columns)"
    and "1 \<le> term_height t" "1 \<le> term_width t"
  shows "(rows = 0 \<longrightarrow> cursor_row t' = -1) \<and> (columns = 0 \<longrightarrow> cursor_col t' = -1)"
proof (cases "rows = 0 \<or> columns = 0")
  case True
  then have "columns \<noteq> term_width t \<or> rows \<noteq> term_height t" using assms(3,4) by auto
  then obtain u where "t' = update_scrollbar_bounds ((resize_commit columns rows u)\<lparr>scroll_end := rows - 1\<rparr>)"
    using assms(1,2) by (auto simp: guac_terminal_resize_def resize_characters_def Let_def fault_iff)
  then show ?thesis by (auto simp: resize_commit_def Let_def update_scrollbar_bounds_def)
qed simp

end
