(* ===== verification/TermRow.thy ===== *)
theory TermRow
  imports TermBuffer
begin

text \<open>
  Correctness of the row operations of the terminal buffer: rows are sequences of complete
  characters (\<open>wf_cells\<close>), and writing or copying columns keeps them so, keeps every character that
  the written region does not touch, and leaves blanks where it cut a character in two.
\<close>

section \<open>Sequences of complete characters\<close>

abbreviation conts :: "cells \<Rightarrow> bool" where
  "conts cs \<equiv> \<forall>c \<in> set cs. continuation c"

abbreviation blanks :: "cells \<Rightarrow> bool" where
  "blanks cs \<equiv> \<forall>c \<in> set cs. char_value c = 32 \<and> char_width c = 1"

lemma length_dropWhile_less [termination_simp, simp]: "length (dropWhile P xs) < Suc (length xs)"
  by (simp add: le_imp_less_Suc length_dropWhile_le)

fun wf_cells :: "cells \<Rightarrow> bool" where
  "wf_cells [] \<longleftrightarrow> True"
| "wf_cells (c # cs) \<longleftrightarrow>
     \<not> continuation c \<and> char_width c = 1 + int (length (takeWhile continuation cs)) \<and>
     wf_cells (dropWhile continuation cs)"

text \<open>A character of which cells to the right are missing.\<close>

fun partial_cells :: "cells \<Rightarrow> bool" where
  "partial_cells [] \<longleftrightarrow> False"
| "partial_cells (c # cs) \<longleftrightarrow> \<not> continuation c \<and> conts cs \<and> char_width c > 1 + int (length cs)"

lemma not_continuation_32 [simp]: "32 \<noteq> GUAC_CHAR_CONTINUATION" "GUAC_CHAR_CONTINUATION \<noteq> 32"
  by (simp_all add: GUAC_CHAR_CONTINUATION_def)

lemma blank_of_simps [simp]:
  "char_value (blank_of c) = 32" "char_width (blank_of c) = 1" "char_attributes (blank_of c) = char_attributes c"
  by (simp_all add: blank_of_def)

lemma wf_head: "wf_cells (c # cs) \<Longrightarrow> \<not> continuation c"
  by simp

lemma takeWhile_conts_append:
  "conts ks \<Longrightarrow> takeWhile continuation (ks @ cs) = ks @ takeWhile continuation cs"
  "conts ks \<Longrightarrow> dropWhile continuation (ks @ cs) = dropWhile continuation cs"
  by (simp_all add: takeWhile_append dropWhile_append)

lemma wf_no_leading_cont:
  assumes "wf_cells cs"
  shows "takeWhile continuation cs = []" "dropWhile continuation cs = cs"
  using assms by (cases cs; simp)+

lemma wf_cells_block: "\<not> continuation c \<Longrightarrow> conts ks \<Longrightarrow> char_width c = 1 + int (length ks) \<Longrightarrow> wf_cells cs \<Longrightarrow>
    wf_cells (c # ks @ cs)"
  by (simp add: takeWhile_conts_append wf_no_leading_cont)

lemma wf_cells_cases:
  assumes "wf_cells cs" "cs \<noteq> []"
  obtains c ks rest where "cs = c # ks @ rest" "\<not> continuation c" "conts ks" "char_width c = 1 + int (length ks)" "wf_cells rest"
proof -
  obtain c tl where cs: "cs = c # tl" using assms(2) by (cases cs) auto
  show thesis
    by (rule that [of c "takeWhile continuation tl" "dropWhile continuation tl"])
      (use assms(1) cs in \<open>auto dest: set_takeWhileD\<close>)
qed

lemma wf_cells_induct [consumes 1, case_names Nil block]:
  assumes "wf_cells cs" and "P []"
    and "\<And>c ks rest. \<not> continuation c \<Longrightarrow> conts ks \<Longrightarrow> char_width c = 1 + int (length ks) \<Longrightarrow> wf_cells rest \<Longrightarrow>
      P rest \<Longrightarrow> P (c # ks @ rest)"
  shows "P cs"
  using assms(1)
proof (induction cs rule: length_induct)
  case (1 cs)
  show ?case
  proof (cases "cs = []")
    case True
    then show ?thesis using assms(2) by simp
  next
    case False
    then obtain c ks rest where cs: "cs = c # ks @ rest" "\<not> continuation c" "conts ks"
      "char_width c = 1 + int (length ks)" "wf_cells rest" using wf_cells_cases 1(2) by blast
    then have "P rest" using 1 by simp
    then show ?thesis using assms(3) cs by blast
  qed
qed

lemma wf_cells_append: "wf_cells xs \<Longrightarrow> wf_cells ys \<Longrightarrow> wf_cells (xs @ ys)"
  by (induction xs rule: wf_cells_induct) (simp_all add: takeWhile_conts_append wf_no_leading_cont)

lemma wf_cells_snoc_block: "wf_cells xs \<Longrightarrow> \<not> continuation c \<Longrightarrow> conts ks \<Longrightarrow> char_width c = 1 + int (length ks) \<Longrightarrow>
    wf_cells (xs @ c # ks)"
  using wf_cells_append [of xs "c # ks"] wf_cells_block [of c ks "[]"] by simp

lemma blanks_wf [simp]: "blanks bs \<Longrightarrow> wf_cells bs"
proof (induction bs)
  case (Cons b bs)
  then show ?case using wf_cells_block [of b "[]" bs] by simp
qed simp

lemma wf_cells_last:
  assumes "wf_cells xs" "xs \<noteq> []"
  obtains p c ks where "xs = p @ c # ks" "wf_cells p" "\<not> continuation c" "conts ks" "char_width c = 1 + int (length ks)"
  using assms
proof (induction xs arbitrary: thesis rule: wf_cells_induct)
  case (block c ks rest)
  show ?case
  proof (cases "rest = []")
    case True
    then show thesis using block by (intro block(6) [of "[]" c ks]) auto
  next
    case False
    obtain p d ls where "rest = p @ d # ls" "wf_cells p" "\<not> continuation d" "conts ls" "char_width d = 1 + int (length ls)"
      using block(5) False by blast
    then show thesis using block wf_cells_block [of c ks p] by (intro block(6) [of "c # ks @ p" d ls]) auto
  qed
qed simp

text \<open>Cutting a row: the cells before are complete characters and perhaps a partial one.\<close>

lemma wf_cells_cut:
  assumes "wf_cells cs" "n \<le> length cs"
  obtains p q k s where "take n cs = p @ q" "wf_cells p" "q = [] \<or> partial_cells q" "drop n cs = k @ s" "conts k" "wf_cells s"
    "q = [] \<longleftrightarrow> k = []"
  using assms
proof (induction cs arbitrary: n thesis rule: wf_cells_induct)
  case Nil
  then show ?case by (auto intro: Nil(1) [of "[]" "[]" "[]" "[]"])
next
  case (block c ks rest)
  consider "n = 0" | "0 < n" "n \<le> length ks" | "length ks < n" by linarith
  then show ?case
  proof cases
    case 1
    then show thesis using block wf_cells_block [of c ks rest]
      by (intro block(6) [of "[]" "[]" "[]" "c # ks @ rest"]) auto
  next
    case 2
    then obtain m where m: "n = Suc m" by (cases n) auto
    show thesis
      by (rule block(6) [of "[]" "c # take m ks" "drop m ks" rest])
        (use 2 m block(1-4) in \<open>auto dest: in_set_takeD in_set_dropD\<close>)
  next
    case 3
    have "n - Suc (length ks) \<le> length rest" using block(7) by simp
    then obtain p q k s where r: "take (n - Suc (length ks)) rest = p @ q" "wf_cells p" "q = [] \<or> partial_cells q"
      "drop (n - Suc (length ks)) rest = k @ s" "conts k" "wf_cells s" "q = [] \<longleftrightarrow> k = []"
      by (rule block(5) [rotated])
    have t: "take n (c # ks @ rest) = (c # ks @ p) @ q" "drop n (c # ks @ rest) = k @ s"
      using 3 r(1,4) by (simp_all add: take_Cons' drop_Cons')
    show thesis by (rule block(6) [OF t(1) wf_cells_block [OF block(1-3) r(2)] r(3) t(2) r(5-7)])
  qed
qed

section \<open>Sweeping\<close>

text \<open>
  What \<open>guac_terminal_buffer_force_break\<close> does from an edge to the right: it repairs one run of cells
  after another until it meets a complete character.
\<close>

function sweep :: "cells \<Rightarrow> cells" where
  "sweep [] = []"
| "sweep (c # cs) =
     (let run = takeWhile continuation cs; rest = dropWhile continuation cs; len = 1 + int (length run) in
      if continuation c then replicate (1 + length run) (blank_of c) @ sweep rest
      else if char_width c = len then c # cs
      else if char_width c < len
      then c # take (nat (char_width c) - 1) run @
           replicate (Suc (length run) - nat (char_width c)) (blank_of (run ! (nat (char_width c) - 1))) @ sweep rest
      else replicate (1 + length run) (blank_of c) @ sweep rest)"
  by pat_completeness auto
termination
  by (relation "measure length") (auto simp: le_imp_less_Suc length_dropWhile_le)

declare sweep.simps(2) [simp del]

lemma sweep_wf [simp]: "wf_cells cs \<Longrightarrow> sweep cs = cs"
  by (cases cs) (simp_all add: sweep.simps(2) Let_def)

text \<open>Cells of positive width, as every operation writes them.\<close>

abbreviation pos_cells :: "cells \<Rightarrow> bool" where
  "pos_cells cs \<equiv> \<forall>c \<in> set cs. continuation c \<or> 1 \<le> char_width c"

lemma length_sweep [simp]: "pos_cells cs \<Longrightarrow> length (sweep cs) = length cs"
proof (induction cs rule: sweep.induct)
  case (2 c cs)
  let ?run = "takeWhile continuation cs"
  have len: "length cs = length ?run + length (dropWhile continuation cs)"
    by (metis length_append takeWhile_dropWhile_id)
  have pos: "pos_cells (dropWhile continuation cs)" using 2(4) by (auto dest: set_dropWhileD)
  consider "continuation c" | "\<not> continuation c" "char_width c = 1 + int (length ?run)"
    | "\<not> continuation c" "char_width c < 1 + int (length ?run)" "1 \<le> char_width c"
    | "\<not> continuation c" "char_width c > 1 + int (length ?run)" using 2(4) by fastforce
  then show ?case
  proof cases
    case 1
    then show ?thesis using 2(1) [OF refl refl refl] len pos by (simp add: sweep.simps(2) Let_def)
  next
    case 2
    then show ?thesis by (simp add: sweep.simps(2) Let_def)
  next
    case 3
    moreover have "nat (char_width c) \<le> length ?run" using 3 by linarith
    ultimately show ?thesis using 2(2) [OF refl refl refl] len pos by (simp add: sweep.simps(2) Let_def)
  next
    case 4
    then show ?thesis using 2(3) [OF refl refl refl] len pos by (simp add: sweep.simps(2) Let_def)
  qed
qed simp

text \<open>The first run of cells is a complete character.\<close>

fun good_head :: "cells \<Rightarrow> bool" where
  "good_head [] \<longleftrightarrow> True"
| "good_head (c # cs) \<longleftrightarrow> \<not> continuation c \<and> char_width c = 1 + int (length (takeWhile continuation cs))"

lemma sweep_good_head: "good_head cs \<Longrightarrow> sweep cs = cs"
  by (cases cs) (simp_all add: sweep.simps(2) Let_def)

lemma good_head_no_cont: "good_head cs \<Longrightarrow> takeWhile continuation cs = []"
  by (cases cs) simp_all

lemma good_head_blanks:
  "0 < n \<Longrightarrow> char_value b = 32 \<Longrightarrow> char_width b = 1 \<Longrightarrow> takeWhile continuation cs = [] \<Longrightarrow> good_head (replicate n b @ cs)"
  by (cases n; cases "n - 1") simp_all

lemma good_head_sweep: "pos_cells cs \<Longrightarrow> good_head (sweep cs)"
proof (induction cs rule: sweep.induct)
  case (2 c cs)
  let ?run = "takeWhile continuation cs"
  have pos: "pos_cells (dropWhile continuation cs)" using 2(4) by (auto dest: set_dropWhileD)
  consider "continuation c" | "\<not> continuation c" "char_width c = 1 + int (length ?run)"
    | "\<not> continuation c" "char_width c < 1 + int (length ?run)" "1 \<le> char_width c"
    | "\<not> continuation c" "char_width c > 1 + int (length ?run)" using 2(4) by fastforce
  then show ?case
  proof cases
    case 1
    then have "good_head (sweep (dropWhile continuation cs))" using 2(1) [OF refl refl refl] pos by simp
    then show ?thesis
      using good_head_blanks [of "1 + length ?run" "blank_of c" "sweep (dropWhile continuation cs)"] 1 good_head_no_cont
      by (simp add: sweep.simps(2) Let_def)
  next
    case 2
    then show ?thesis by (simp add: sweep.simps(2) Let_def)
  next
    case 3
    define w where "w = nat (char_width c) - 1"
    have w: "char_width c = 1 + int w" "w < length ?run" using 3 by (simp_all add: w_def)
    obtain m where m: "length ?run - w = Suc m" using w(2) by (cases "length ?run - w") auto
    have e: "nat (char_width c) = Suc w" using w by simp
    have k: "conts (take w ?run)" by (auto dest!: in_set_takeD set_takeWhileD)
    have s: "sweep (c # cs) = c # take w ?run @ blank_of (?run ! w) # replicate m (blank_of (?run ! w)) @
        sweep (dropWhile continuation cs)"
      using 3(1,2) by (simp add: sweep.simps(2) [of c cs] Let_def e m)
    have t: "takeWhile continuation (take w ?run @ blank_of (?run ! w) # R) = take w ?run" for R
      using takeWhile_conts_append(1) [OF k, of "blank_of (?run ! w) # R"] by simp
    have "length (take w ?run) = w" using w(2) by simp
    then show ?thesis unfolding s good_head.simps t using 3(1) w(1) by simp
  next
    case 4
    then have "good_head (sweep (dropWhile continuation cs))" using 2(3) [OF refl refl refl] pos by simp
    then show ?thesis
      using good_head_blanks [of "1 + length ?run" "blank_of c" "sweep (dropWhile continuation cs)"] 4 good_head_no_cont
      by (simp add: sweep.simps(2) Let_def)
  qed
qed simp

lemma pos_sweep: "pos_cells cs \<Longrightarrow> pos_cells (sweep cs)"
proof (induction cs rule: sweep.induct)
  case (2 c cs)
  let ?run = "takeWhile continuation cs"
  have pos: "pos_cells (dropWhile continuation cs)" using 2(4) by (auto dest: set_dropWhileD)
  have bl: "pos_cells (replicate n (blank_of x))" for n x by simp
  have k: "pos_cells (take n ?run)" for n by (auto dest!: in_set_takeD set_takeWhileD)
  consider "continuation c" | "\<not> continuation c" "char_width c = 1 + int (length ?run)"
    | "\<not> continuation c" "char_width c < 1 + int (length ?run)"
    | "\<not> continuation c" "char_width c > 1 + int (length ?run)" by fastforce
  then show ?case
  proof cases
    case 1
    then have "pos_cells (sweep (dropWhile continuation cs))" using 2(1) [OF refl refl refl] pos by blast
    then show ?thesis using 1 by (auto simp: sweep.simps(2) Let_def)
  next
    case 2
    then show ?thesis using \<open>pos_cells (c # cs)\<close> by (simp add: sweep.simps(2) Let_def)
  next
    case 3
    then have "pos_cells (sweep (dropWhile continuation cs))" using 2(2) [OF refl refl refl] pos by simp
    moreover have "1 \<le> char_width c" using \<open>pos_cells (c # cs)\<close> 3 by simp
    ultimately show ?thesis using 3 k [of "nat (char_width c) - 1"] by (simp add: sweep.simps(2) Let_def ball_Un)
  next
    case 4
    then have "pos_cells (sweep (dropWhile continuation cs))" using 2(3) [OF refl refl refl] pos by simp
    then show ?thesis using 4 by (auto simp: sweep.simps(2) Let_def)
  qed
qed simp

lemma sweep_after_blanks:
  assumes "0 < n" "char_value b = 32" "char_width b = 1" "pos_cells ys"
  obtains ys' where "sweep (replicate n b @ ys) = replicate n b @ ys'" "sweep ys' = sweep ys" "length ys' = length ys" "pos_cells ys'"
proof (cases "good_head (replicate n b @ ys)")
  case True
  then show thesis using that [of ys] assms(4) by (simp add: sweep_good_head)
next
  case False
  obtain y tl where ys: "ys = y # tl" "continuation y" and n: "n = 1"
  proof (cases ys)
    case Nil
    then show thesis using False good_head_blanks [OF assms(1-3), of "[]"] by simp
  next
    case (Cons y tl)
    then have "continuation y"
      using False good_head_blanks [OF assms(1-3), of ys] by (cases "continuation y") simp_all
    moreover have "n = 1"
    proof (rule ccontr)
      assume "n \<noteq> 1"
      then obtain m where "n = Suc (Suc m)" using assms(1) by (cases n; cases "n - 1") auto
      then show False using False assms by simp
    qed
    ultimately show thesis using that Cons by blast
  qed
  have s: "sweep ys = replicate (1 + length (takeWhile continuation tl)) (blank_of y) @ sweep (dropWhile continuation tl)"
    using ys by (simp add: sweep.simps(2) Let_def)
  have "sweep (replicate n b @ ys) = replicate n b @ sweep ys"
    using ys n assms(2,3) s by (simp add: sweep.simps(2) [of b] Let_def)
  moreover have "sweep (sweep ys) = sweep ys" by (rule sweep_good_head [OF good_head_sweep [OF assms(4)]])
  ultimately show thesis using that [of "sweep ys"] assms(4) pos_sweep by simp
qed

section \<open>Forcing a break is sweeping\<close>

lemma scan_start_run:
  "conts ks \<Longrightarrow> \<not> continuation c \<Longrightarrow> scan_start (p @ c # ks @ ws) (length p + length ks) = length p"
proof (induction ks arbitrary: ws rule: rev_induct)
  case Nil
  then show ?case by (cases "length p") (auto simp: nth_append)
next
  case (snoc k ks)
  then show ?case using snoc(1) [of "k # ws"] by (simp add: nth_append)
qed

lemma scan_end_run:
  "i < len \<Longrightarrow> len \<le> length cs \<Longrightarrow>
     scan_end cs len i = i + length (takeWhile continuation (take (len - Suc i) (drop (Suc i) cs)))"
proof (induction cs len i rule: scan_end.induct)
  case (1 cs len i)
  show ?case
  proof (cases "i + 1 < len")
    case True
    then have "drop (Suc i) cs = cs ! Suc i # drop (Suc (Suc i)) cs" using 1(3) by (simp add: Cons_nth_drop_Suc)
    moreover obtain m where "len - Suc i = Suc m" "len - Suc (Suc i) = m" using True by (cases "len - Suc i") auto
    ultimately show ?thesis using 1 True by (simp add: scan_end.simps [of cs len i])
  next
    case False
    then have "len - Suc i = 0" by simp
    then show ?thesis using False by (simp add: scan_end.simps [of cs len i])
  qed
qed

lemma broken_left_wf:
  assumes "wf_cells xs" "characters row = xs @ ws"
  shows "broken_left row (int (length xs)) = Inr None"
proof (cases "xs = []")
  case True
  then show ?thesis by (simp add: broken_left_def)
next
  case False
  obtain p c ks where xs: "xs = p @ c # ks" "\<not> continuation c" "conts ks" "char_width c = 1 + int (length ks)"
    using wf_cells_last [OF assms(1) False] by metis
  have n: "nat (int (length xs) - 1) = length p + length ks" "0 < int (length xs)" using xs by simp_all
  have "scan_start (characters row) (length p + length ks) = length p" "characters row ! length p = c"
    "length p + length ks < length (characters row)"
    using scan_start_run [OF xs(3,2), of p ws] xs(1) assms(2) by (simp_all add: nth_append)
  then show ?thesis unfolding broken_left_def Let_def n(1)
    using xs(2-4) n(2) by (simp add: broken_part_def Let_def)
qed

lemma broken_left_partial:
  assumes "partial_cells (c # ks)" "characters row = p @ (c # ks) @ ws"
  shows "broken_left row (int (length p + Suc (length ks))) =
    Inr (Some (int (length p), int (length p + length ks), blank_of c))"
proof -
  have n: "nat (int (length p + Suc (length ks)) - 1) = length p + length ks" "0 < int (length p + Suc (length ks))" by simp_all
  have "scan_start (characters row) (length p + length ks) = length p" "characters row ! length p = c"
    "length p + length ks < length (characters row)"
    using scan_start_run [of ks c p ws] assms by (simp_all add: nth_append)
  then show ?thesis unfolding broken_left_def Let_def n(1)
    using assms(1) n(2) by (simp add: broken_part_def Let_def)
qed

lemma broken_right_end: "row_length row = length xs \<Longrightarrow> length xs \<le> 1024 \<Longrightarrow> broken_right row (int (length xs)) = Inr None"
  by (simp add: broken_right_def)

lemma broken_right_run:
  assumes "characters row = xs @ (y # ys) @ zs" "row_length row = length xs + Suc (length ys)" "row_length row \<le> 1024"
    and "continuation y \<or> 1 \<le> char_width y"
  defines "run \<equiv> takeWhile continuation ys"
  shows "broken_right row (int (length xs)) = Inr
    (if continuation y then Some (int (length xs), int (length xs + length run), blank_of y)
     else if char_width y = 1 + int (length run) then None
     else if char_width y < 1 + int (length run)
     then Some (int (length xs) + char_width y, int (length xs + length run), blank_of (run ! (nat (char_width y) - 1)))
     else Some (int (length xs), int (length xs + length run), blank_of y))"
proof -
  have se: "scan_end (characters row) (row_length row) (length xs) = length xs + length run"
    using assms(1,2) by (simp add: scan_end_run run_def)
  have br: "broken_right row (int (length xs)) =
      bindr (broken_part (characters row) (length xs) (length xs + length run))
        (\<lambda>r. Inr (map_option (\<lambda>(start_column, c). (start_column, int (length xs + length run), c)) r))"
    using assms(2,3) se by (simp add: broken_right_def Let_def)
  have y: "characters row ! length xs = y" using assms(1) by (simp add: nth_append)
  show ?thesis
  proof (cases "\<not> continuation y \<and> char_width y < 1 + int (length run)")
    case True
    define w where "w = nat (char_width y) - 1"
    have w: "char_width y = 1 + int w" "w < length run" "nat (char_width y) - 1 = w" using True assms(4) by (auto simp: w_def)
    have "length run \<le> length ys" by (simp add: run_def length_takeWhile_le)
    moreover have c: "run ! w = ys ! w" using w(2) by (simp add: run_def takeWhile_nth)
    moreover have "continuation (run ! w)"
      using set_takeWhileD [OF nth_mem [OF w(2) [unfolded run_def]]] by (simp add: run_def)
    moreover have "nat (int (length xs) + (1 + int w)) = length xs + Suc w" by simp
    ultimately show ?thesis
      using True w br y assms(1) by (simp add: broken_part_def Let_def nth_append)
  next
    case False
    then show ?thesis using br y assms(1) by (auto simp: broken_part_def Let_def)
  qed
qed

text \<open>What the loop of \<open>guac_terminal_buffer_set_columns\<close> writes.\<close>

fun fill :: "nat \<Rightarrow> int \<Rightarrow> guac_terminal_char \<Rightarrow> guac_terminal_char \<Rightarrow> cells" where
  "fill 0 remaining c cont = []"
| "fill (Suc n) remaining c cont =
     (if remaining > 0 then cont # fill n (remaining - 1) c cont else c # fill n (char_width c - 1) c cont)"

lemma length_fill [simp]: "length (fill n m c cont) = n"
  by (induction n arbitrary: m) simp_all

lemma store_columns_fill:
  "i + n \<le> length cs \<Longrightarrow> store_columns n i m c cont cs = overwrite cs i (fill n m c cont)"
proof (induction n arbitrary: i m cs)
  case 0
  then show ?case by (simp add: overwrite_def)
next
  case (Suc n)
  have "overwrite (cs[i := x]) (i + 1) zs = overwrite cs i (x # zs)" if "length zs = n" for x zs
  proof -
    have "take (Suc i) (cs[i := x]) = take i (cs[i := x]) @ [cs[i := x] ! i]"
      by (rule take_Suc_conv_app_nth) (use Suc(2) in simp)
    then show ?thesis using Suc(2) that by (simp add: overwrite_def)
  qed
  then show ?case using Suc by simp
qed

lemma fill_blank: "char_width c = 1 \<Longrightarrow> fill n 0 c cont = replicate n c"
  by (induction n) simp_all

lemma overwrite_append: "i = length xs \<Longrightarrow> length us = length vs \<Longrightarrow> overwrite (xs @ us @ ws) i vs = xs @ vs @ ws"
  by (simp add: overwrite_def)

section \<open>Forcing a break, continued\<close>

text \<open>Row indices for which the operations do anything.\<close>

definition valid_row :: "int \<Rightarrow> bool" where
  "valid_row r \<longleftrightarrow> - 1024 < r \<and> r < 1024"

lemmas term_constants = GUAC_TERMINAL_MAX_ROWS_def GUAC_TERMINAL_MAX_COLUMNS_def GUAC_TERMINAL_BUFFER_ROW_MIN_SIZE_def

lemma fit_to_range_id [simp]: "lo \<le> v \<Longrightarrow> v \<le> hi \<Longrightarrow> guac_terminal_fit_to_range v lo hi = Inr v"
  by (simp add: guac_terminal_fit_to_range_def)

lemma row_expand_id [simp]: "0 \<le> len \<Longrightarrow> len \<le> int (row_length row) \<Longrightarrow> len \<le> 1024 \<Longrightarrow>
    guac_terminal_buffer_row_expand row len dflt = Inr row"
  by (simp add: guac_terminal_buffer_row_expand_def nat_le_iff)

lemma set_blank_run:
  assumes "valid_row r" "characters row = xs @ us @ zs" "us \<noteq> []" "length xs + length us \<le> row_length row" "row_length row \<le> 1024"
    and c: "char_value c = 32" "char_width c = 1"
    and ab: "a = int (length xs)" "b + 1 = int (length xs + length us)"
  shows "\<exists>blen'. row_set_columns (Suc n) dflt r a b c (blen, row) =
    bindr (row_force_break n dflt r a (blen', row\<lparr>characters := xs @ replicate (length us) c @ zs\<rparr>))
      (row_force_break n dflt r (b + 1))"
proof -
  have "0 < length us" using assms(3) by simp
  then have i: "0 \<le> a" "a \<le> 1023" "0 \<le> b" "b \<le> 1023" "b + 1 \<le> int (row_length row)"
    "nat (b - a + 1) = length us" "nat a = length xs" using assms(4,5) ab by linarith+
  have st: "store_columns (length us) (length xs) 0 c (continuation_of c) (characters row) = xs @ replicate (length us) c @ zs"
    using assms(2) c by (simp add: store_columns_fill fill_blank overwrite_append)
  have u: "u32_of (b + 1) \<le> row_length row" using i by (simp add: nat_le_iff)
  have r: "\<not> 1024 \<le> r" "\<not> r \<le> - 1024" using assms(1) by (simp_all add: valid_row_def)
  have "row_set_columns (Suc n) dflt r a b c (blen, row) =
    bindr (row_force_break n dflt r a (if u32_of r \<ge> blen then u32_of (r + 1) else blen,
             row\<lparr>characters := xs @ replicate (length us) c @ zs\<rparr>))
      (row_force_break n dflt r (b + 1))"
    using i r u c by (simp only: row_set_columns.simps term_constants fit_to_range_id row_expand_id) (simp add: st)
  then show ?thesis by blast
qed

lemma force_break_noop:
  assumes "wf_cells xs" "good_head ys" "characters row = xs @ ys @ zs" "row_length row = length xs + length ys"
    "row_length row \<le> 1024"
  shows "row_force_break (Suc n) dflt r (int (length xs)) (blen, row) = Inr (blen, row)"
proof -
  have "broken_right row (int (length xs)) = Inr None"
  proof (cases ys)
    case Nil
    then show ?thesis using assms broken_right_end by simp
  next
    case (Cons y tl)
    then show ?thesis using assms broken_right_run [of row xs y tl zs] by simp
  qed
  then show ?thesis using broken_left_wf [of xs row "ys @ zs"] assms(1,3) by simp
qed

lemma force_break_prefix:
  assumes "valid_row r"
  shows "wf_cells xs \<Longrightarrow> pos_cells ys \<Longrightarrow> characters row = xs @ ys @ zs \<Longrightarrow> row_length row = length xs + length ys \<Longrightarrow>
    row_length row \<le> 1024 \<Longrightarrow> 2 * length ys + 1 \<le> n \<Longrightarrow>
    \<exists>blen'. row_force_break n dflt r (int (length xs)) (blen, row) = Inr (blen', row\<lparr>characters := xs @ sweep ys @ zs\<rparr>)"
proof (induction "length ys" arbitrary: xs ys row n blen rule: less_induct)
  case (less ys)
  obtain m where n: "n = Suc m" using less(7) by (cases n) auto
  show ?case
  proof (cases "good_head ys")
    case True
    have "row\<lparr>characters := xs @ ys @ zs\<rparr> = row" using less(4) by simp
    then show ?thesis using force_break_noop [OF less(2) True less(4-6)] sweep_good_head [OF True] n by metis
  next
    case False
    obtain y tl where ys: "ys = y # tl" using False by (cases ys) auto
    define run where "run = takeWhile continuation tl"
    define rest where "rest = dropWhile continuation tl"
    have tl: "tl = run @ rest" by (simp add: run_def rest_def)
    have y: "continuation y \<or> 1 \<le> char_width y" using less(3) ys by simp
    have run: "conts run" by (auto simp: run_def dest: set_takeWhileD)
    have pos: "pos_cells rest" using less(3) ys tl by simp
    text \<open>The run splits into the cells that stay and those that are cleared.\<close>
    obtain keep gone b where k: "y # run = keep @ gone" "gone \<noteq> []" "wf_cells keep" "char_value b = 32" "char_width b = 1"
      "sweep ys = keep @ replicate (length gone) b @ sweep rest"
      "broken_right row (int (length xs)) = Inr (Some (int (length xs + length keep), int (length xs + length run), b))"
    proof -
      note br = broken_right_run [of row xs y tl zs, folded run_def]
      have br': "characters row = xs @ (y # tl) @ zs" "row_length row = length xs + Suc (length tl)" using less(4,5) ys by simp_all
      consider "continuation y \<or> char_width y > 1 + int (length run)"
        | "\<not> continuation y" "char_width y < 1 + int (length run)"
        using False ys by (fastforce simp: run_def)
      then show thesis
      proof cases
        case 1
        then show thesis
          using br [OF br' \<open>row_length row \<le> 1024\<close> y] ys
          by (intro that [of "[]" "y # run" "blank_of y"]) (auto simp: sweep.simps(2) run_def rest_def Let_def)
      next
        case 2
        define w where "w = nat (char_width y) - 1"
        have w: "char_width y = 1 + int w" "w < length run" "nat (char_width y) = Suc w" using 2 y by (auto simp: w_def)
        have "conts (take w run)" using run by (auto dest: in_set_takeD)
        then have "wf_cells (y # take w run)" using 2 w wf_cells_block [of y "take w run" "[]"] by simp
        then show thesis
          using br [OF br' \<open>row_length row \<le> 1024\<close> y] ys 2 w
          by (intro that [of "y # take w run" "drop w run" "blank_of (run ! w)"])
            (simp_all add: sweep.simps(2) run_def [symmetric] rest_def [symmetric] Let_def add.commute)
      qed
    qed
    have len: "Suc (length xs + length run) = length (xs @ keep) + length gone"
      using arg_cong [OF k(1), of length] by simp
    have gpos: "0 < length gone" "length gone \<le> Suc (length run)"
      using arg_cong [OF k(1), of length] k(2) by simp_all
    have chars: "characters row = (xs @ keep) @ gone @ rest @ zs"
      using less(4) ys tl k(1) by (metis append.assoc append_Cons)
    have rl: "row_length row = length (xs @ keep) + length gone + length rest"
      using less(5) ys tl arg_cong [OF k(1), of length] by simp
    have m: "2 * length ys \<le> m" "0 < length ys" using less(7) n ys by simp_all
    obtain l where l: "m = Suc l" using m by (cases m) auto
    define row1 where "row1 = row\<lparr>characters := (xs @ keep) @ replicate (length gone) b @ rest @ zs\<rparr>"
    have wfx: "wf_cells (xs @ keep)" using wf_cells_append less(2) k(3) by blast
    obtain b1 where set: "row_set_columns m dflt r (int (length xs + length keep)) (int (length xs + length run)) b (blen, row) =
        bindr (row_force_break l dflt r (int (length (xs @ keep))) (b1, row1)) (row_force_break l dflt r (int (length (xs @ keep) + length gone)))"
    proof -
      have ab: "int (length xs + length keep) = int (length (xs @ keep))"
        "int (length xs + length run) + 1 = int (length (xs @ keep) + length gone)"
        using arg_cong [OF len, of int] by simp_all
      show thesis
        using set_blank_run [OF assms chars k(2) _ less(6) k(4,5) ab, of l dflt blen] rl that
        unfolding row1_def l ab by auto
    qed
    have nocont: "takeWhile continuation rest = []"
      unfolding rest_def by (metis (mono_tags, lifting) dropWhile_eq_Nil_conv hd_dropWhile list.collapse takeWhile.simps)
    have gh: "good_head (replicate (length gone) b @ rest)"
      using good_head_blanks [OF gpos(1) k(4,5) nocont] .
    have r1: "characters row1 = (xs @ keep) @ (replicate (length gone) b @ rest) @ zs"
      "row_length row1 = length (xs @ keep) + length (replicate (length gone) b @ rest)" "row_length row1 \<le> 1024"
      using rl less(6) by (simp_all add: row1_def)
    obtain l' where l': "l = Suc l'" using m l ys by (cases l) auto
    have nop: "row_force_break l dflt r (int (length (xs @ keep))) (b1, row1) = Inr (b1, row1)"
      unfolding l' by (rule force_break_noop [OF wfx gh r1])
    define xs2 where "xs2 = (xs @ keep) @ replicate (length gone) b"
    have wf2: "wf_cells xs2" using wf_cells_append [OF wfx, of "replicate (length gone) b"] k(4,5) by (simp add: xs2_def)
    have r2: "characters row1 = xs2 @ rest @ zs" "row_length row1 = length xs2 + length rest" "row_length row1 \<le> 1024"
      using r1 by (simp_all add: xs2_def)
    have small: "length rest < length ys" "2 * length rest + 1 \<le> l" using m l ys tl by simp_all
    obtain b2 where fb: "row_force_break l dflt r (int (length xs2)) (b1, row1) = Inr (b2, row1\<lparr>characters := xs2 @ sweep rest @ zs\<rparr>)"
      using less(1) [OF small(1) wf2 pos r2 small(2)] by blast
    have e2: "length (xs @ keep) + length gone = length xs2" by (simp add: xs2_def)
    have left: "broken_left row (int (length xs)) = Inr None"
      using broken_left_wf [OF less(2), of row "ys @ zs"] less(4) by simp
    have "row_force_break n dflt r (int (length xs)) (blen, row) = Inr (b2, row1\<lparr>characters := xs2 @ sweep rest @ zs\<rparr>)"
      by (simp only: n row_force_break.simps snd_conv left k(7) set nop fb e2 bindr_simps option.case prod.case)
    moreover have "row1\<lparr>characters := xs2 @ sweep rest @ zs\<rparr> = row\<lparr>characters := xs @ sweep ys @ zs\<rparr>"
      by (simp add: row1_def xs2_def k(6))
    ultimately show ?thesis by metis
  qed
qed

lemma force_break_cut:
  assumes "valid_row r" "wf_cells p" "q = [] \<or> partial_cells q" "pos_cells ys" "characters row = p @ q @ ys @ zs"
    "row_length row = length p + length q + length ys" "row_length row \<le> 1024" "2 * (length q + length ys) + 3 \<le> n"
  shows "\<exists>blen' bs. row_force_break n dflt r (int (length p + length q)) (blen, row) =
    Inr (blen', row\<lparr>characters := p @ bs @ sweep ys @ zs\<rparr>) \<and> blanks bs \<and> length bs = length q"
proof (cases "q = []")
  case True
  then show ?thesis
    using force_break_prefix [OF assms(1,2,4), of row zs n dflt blen] assms(5-8) by auto
next
  case False
  then obtain c ks where q: "q = c # ks" "partial_cells (c # ks)" using assms(3) by (cases q) auto
  obtain l where n: "n = Suc (Suc l)" "2 * (length q + length ys) + 1 \<le> l" using assms(8)
    by (cases n; cases "n - 1") auto
  define b where "b = blank_of c"
  define B where "B = replicate (length q) b"
  have b: "char_value b = 32" "char_width b = 1" "0 < length q" by (simp_all add: b_def q)
  define row1 where "row1 = row\<lparr>characters := p @ B @ ys @ zs\<rparr>"
  have left: "broken_left row (int (length p + length q)) = Inr (Some (int (length p), int (length p + length ks), b))"
    using broken_left_partial [OF q(2), of row p "ys @ zs"] assms(5) q(1) by (simp add: b_def)
  have ab: "int (length p + length ks) + 1 = int (length p + length q)" using q by simp
  obtain b1 where set: "row_set_columns (Suc l) dflt r (int (length p)) (int (length p + length ks)) b (blen, row) =
      bindr (row_force_break l dflt r (int (length p)) (b1, row1)) (row_force_break l dflt r (int (length p + length q)))"
    using set_blank_run [OF assms(1,5) False _ assms(7) b(1,2) refl ab, of l dflt blen] assms(6)
    unfolding ab row1_def B_def by auto
  have pB: "pos_cells (B @ ys)" using assms(4) b by (auto simp: B_def)
  obtain ys' where ys': "sweep (B @ ys) = B @ ys'" "sweep ys' = sweep ys" "length ys' = length ys" "pos_cells ys'"
    using sweep_after_blanks [OF b(3,1,2) assms(4)] unfolding B_def by blast
  have r1: "characters row1 = p @ (B @ ys) @ zs" "row_length row1 = length p + length (B @ ys)" "row_length row1 \<le> 1024"
    "2 * length (B @ ys) + 1 \<le> l"
    using assms(6,7) n by (simp_all add: row1_def B_def)
  obtain b2 where f1: "row_force_break l dflt r (int (length p)) (b1, row1) = Inr (b2, row1\<lparr>characters := p @ sweep (B @ ys) @ zs\<rparr>)"
    using force_break_prefix [OF assms(1,2) pB r1] by blast
  define row2 where "row2 = row1\<lparr>characters := (p @ B) @ ys' @ zs\<rparr>"
  have r2: "characters row2 = (p @ B) @ ys' @ zs" "row_length row2 = length (p @ B) + length ys'" "row_length row2 \<le> 1024"
    "2 * length ys' + 1 \<le> l"
    using r1(2,3) n ys' by (simp_all add: row2_def B_def)
  have wfB: "wf_cells (p @ B)" using wf_cells_append [OF assms(2), of B] b by (simp add: B_def)
  have e: "length (p @ B) = length p + length q" by (simp add: B_def)
  obtain b3 where f2: "row_force_break l dflt r (int (length (p @ B))) (b2, row2) = Inr (b3, row2\<lparr>characters := (p @ B) @ sweep ys' @ zs\<rparr>)"
    using force_break_prefix [OF assms(1) wfB ys'(4) r2] by blast
  define row3 where "row3 = row2\<lparr>characters := (p @ B) @ sweep ys' @ zs\<rparr>"
  have right: "broken_right row3 (int (length p + length q)) = Inr None"
  proof (cases "sweep ys")
    case Nil
    then have "length ys = 0" using length_sweep [OF assms(4)] by simp
    then show ?thesis using broken_right_end [of row3 "p @ B"] r2 ys' e by (simp add: row3_def)
  next
    case (Cons y tl)
    have "length ys = Suc (length tl)" using length_sweep [OF assms(4)] Cons by simp
    then show ?thesis
      using broken_right_run [of row3 "p @ B" y tl zs] good_head_sweep [OF assms(4)] Cons r2 ys' e
      by (simp add: row3_def)
  qed
  have "row_force_break n dflt r (int (length p + length q)) (blen, row) = Inr (b3, row3)"
    using f1 f2 right unfolding n ys'(1) e row2_def [symmetric] row3_def [symmetric]
    by (simp only: row_force_break.simps snd_conv left set bindr_simps option.case prod.case) (simp add: row2_def)
  moreover have "row3 = row\<lparr>characters := p @ B @ sweep ys @ zs\<rparr>"
    by (simp add: row3_def row2_def row1_def ys')
  moreover have "blanks B" "length B = length q" using b by (simp_all add: B_def)
  ultimately show ?thesis by blast
qed

lemma sweep_conts:
  assumes "conts k" "takeWhile continuation xs = []"
  shows "\<exists>b. sweep (k @ xs) = b @ sweep xs \<and> blanks b \<and> length b = length k"
proof (cases k)
  case (Cons c ks)
  then have t: "takeWhile continuation (ks @ xs) = ks" "dropWhile continuation (ks @ xs) = dropWhile continuation xs"
    using assms takeWhile_conts_append [of ks xs] by simp_all
  have "dropWhile continuation xs = xs" using assms(2) by (cases xs) (auto split: if_splits)
  then have "sweep (k @ xs) = replicate (1 + length ks) (blank_of c) @ sweep xs"
    using Cons assms(1) t by (simp add: sweep.simps(2) Let_def)
  then show ?thesis using Cons by (intro exI [of _ "replicate (1 + length ks) (blank_of c)"]) simp
qed simp

text \<open>Sweeping a segment: cells left over from the left of it, whole characters, a partial one, and what follows.\<close>

lemma sweep_run:
  assumes "\<not> continuation c" "1 \<le> char_width c" "conts ks" "wf_cells s"
  defines "w \<equiv> nat (char_width c)"
  shows "sweep (c # ks @ s) =
    (if w \<le> Suc (length ks)
     then c # take (w - 1) ks @ replicate (Suc (length ks) - w) (blank_of (ks ! (w - 1))) @ s
     else replicate (Suc (length ks)) (blank_of c) @ s)"
proof -
  have t: "takeWhile continuation (ks @ s) = ks" "dropWhile continuation (ks @ s) = s"
    using assms(3) wf_no_leading_cont [OF assms(4)] takeWhile_conts_append [of ks s] by simp_all
  consider "char_width c = 1 + int (length ks)" | "char_width c < 1 + int (length ks)" | "char_width c > 1 + int (length ks)"
    by linarith
  then show ?thesis
  proof cases
    case 1
    then have "w = Suc (length ks)" by (simp add: w_def)
    then show ?thesis using 1 assms(1) t by (simp add: sweep.simps(2) Let_def)
  next
    case 2
    then have "w \<le> Suc (length ks)" by (simp add: w_def)
    then show ?thesis using 2 assms(1,4) t by (simp add: sweep.simps(2) Let_def w_def)
  next
    case 3
    then have "\<not> w \<le> Suc (length ks)" by (simp add: w_def)
    then show ?thesis using 3 assms(1,4) t by (simp add: sweep.simps(2) Let_def)
  qed
qed

lemma sweep_whole:
  assumes "wf_cells f" "q = [] \<or> partial_cells q" "f \<noteq> [] \<or> q \<noteq> []" "conts k" "wf_cells s"
  shows "\<exists>q' d b. sweep (f @ q @ k @ s) = f @ q' @ (d @ b) @ s \<and> length q' = length q \<and> length (d @ b) = length k \<and>
    (q' = q \<or> blanks q') \<and> conts d \<and> blanks b"
proof (cases "f = []")
  case True
  then obtain c ks where q: "q = c # ks" "\<not> continuation c" "conts ks" "char_width c > 1 + int (length ks)"
    using assms(2,3) by (cases q) auto
  define w where "w = nat (char_width c)"
  have w: "Suc (length ks) < w" using q(4) by (simp add: w_def)
  have ck: "conts (ks @ k)" using q(3) assms(4) by auto
  have sw: "sweep (f @ q @ k @ s) =
    (if w \<le> Suc (length (ks @ k))
     then c # take (w - 1) (ks @ k) @ replicate (Suc (length (ks @ k)) - w) (blank_of ((ks @ k) ! (w - 1))) @ s
     else replicate (Suc (length (ks @ k))) (blank_of c) @ s)"
    using sweep_run [OF q(2) _ ck assms(5)] q(4) True q(1) by (simp add: w_def)
  show ?thesis
  proof (cases "w \<le> Suc (length (ks @ k))")
    case True
    have "take (w - 1) (ks @ k) = ks @ take (w - 1 - length ks) k" using w by simp
    then show ?thesis
      using sw True w q assms(4) \<open>f = []\<close>
      by (intro exI [of _ q] exI [of _ "take (w - 1 - length ks) k"]
          exI [of _ "replicate (Suc (length (ks @ k)) - w) (blank_of ((ks @ k) ! (w - 1)))"])
        (auto dest: in_set_takeD)
  next
    case False
    then show ?thesis
      using sw q \<open>f = []\<close>
      by (intro exI [of _ "replicate (length q) (blank_of c)"] exI [of _ "[]"] exI [of _ "replicate (length k) (blank_of c)"])
        (auto simp: replicate_add)
  qed
next
  case False
  then obtain c ks f' where f: "f = c # ks @ f'" "\<not> continuation c" "conts ks" "char_width c = 1 + int (length ks)" "wf_cells f'"
    using wf_cells_cases [OF assms(1)] by metis
  show ?thesis
  proof (cases "f' = [] \<and> q = []")
    case True
    have ck: "conts (ks @ k)" using f(3) assms(4) by auto
    have n: "nat (char_width c) = Suc (length ks)" using f(4) by simp
    have "sweep (f @ q @ k @ s) = c # ks @ replicate (length k) (blank_of ((ks @ k) ! length ks)) @ s"
      using sweep_run [OF f(2) _ ck assms(5)] f(1,4) True unfolding n by simp
    then show ?thesis using f True
      by (intro exI [of _ "[]"] exI [of _ "replicate (length k) (blank_of ((ks @ k) ! length ks))"]) simp
  next
    case False
    have "takeWhile continuation (f' @ q @ k @ s) = []"
    proof (cases f')
      case Nil
      then show ?thesis using False assms(2) by (cases q) auto
    next
      case (Cons d ds)
      then show ?thesis using f(5) by simp
    qed
    then have "good_head (f @ q @ k @ s)" using f takeWhile_conts_append [OF f(3)] by simp
    then show ?thesis using assms(4) by (intro exI [of _ q] exI [of _ k] exI [of _ "[]"]) (simp add: sweep_good_head)
  qed
qed

lemma sweep_segment:
  assumes "conts k1" "wf_cells f" "q = [] \<or> partial_cells q" "conts k2" "wf_cells s"
  shows "\<exists>b1 q' d b. sweep (k1 @ f @ q @ k2 @ s) = b1 @ f @ q' @ (d @ b) @ s \<and>
    blanks b1 \<and> length b1 = length k1 \<and> length q' = length q \<and> length (d @ b) = length k2 \<and>
    (q' = q \<or> blanks q') \<and> conts d \<and> blanks b"
proof (cases "f = [] \<and> q = []")
  case True
  have "conts (k1 @ k2)" using assms(1,4) by auto
  then obtain b where b: "sweep ((k1 @ k2) @ s) = b @ s" "blanks b" "length b = length k1 + length k2"
    using sweep_conts [of "k1 @ k2" s] wf_no_leading_cont [OF assms(5)] assms(5) by auto
  have "b = take (length k1) b @ [] @ [] @ ([] @ drop (length k1) b)" by simp
  then show ?thesis using True b
    by (intro exI [of _ "take (length k1) b"] exI [of _ "[]"] exI [of _ "drop (length k1) b"])
      (auto dest: in_set_takeD in_set_dropD)
next
  case False
  have "takeWhile continuation (f @ q @ k2 @ s) = []"
  proof (cases f)
    case Nil
    then show ?thesis using False assms(3) by (cases q) auto
  next
    case (Cons d ds)
    then show ?thesis using assms(2) by simp
  qed
  then obtain b1 where "sweep (k1 @ f @ q @ k2 @ s) = b1 @ sweep (f @ q @ k2 @ s)" "blanks b1" "length b1 = length k1"
    using sweep_conts [OF assms(1)] by metis
  moreover obtain q' d b where "sweep (f @ q @ k2 @ s) = f @ q' @ (d @ b) @ s" "length q' = length q"
    "length (d @ b) = length k2" "q' = q \<or> blanks q'" "conts d" "blanks b"
    using sweep_whole [OF assms(2,3) _ assms(4,5)] False by blast
  ultimately show ?thesis by (metis (no_types, lifting))
qed

lemma sweep_rest:
  assumes "conts d" "blanks b" "wf_cells s"
  shows "\<exists>b'. sweep ((d @ b) @ s) = b' @ s \<and> blanks b' \<and> length b' = length (d @ b)"
proof -
  have w: "wf_cells (b @ s)" using wf_cells_append assms(2,3) by simp
  then obtain b' where "sweep (d @ b @ s) = b' @ b @ s" "blanks b'" "length b' = length d"
    using sweep_conts [OF assms(1), of "b @ s"] wf_no_leading_cont [OF w] by auto
  then show ?thesis using assms(2) by (intro exI [of _ "b' @ b"]) auto
qed

text \<open>
  Breaks forced on both sides of a segment of cells that was written into the middle of a row: the
  whole characters on both sides and in the segment stay, everything cut in two becomes blank.
\<close>

lemma pos_cells_wf: "wf_cells cs \<Longrightarrow> pos_cells cs"
  by (induction cs rule: wf_cells_induct) auto

lemma pos_cells_partial: "partial_cells q \<Longrightarrow> pos_cells q"
  by (cases q) auto

lemma force_two_breaks:
  assumes r: "valid_row r" and p: "wf_cells p" "q1 = [] \<or> partial_cells q1"
    and m: "conts k1" "wf_cells f" "q2 = [] \<or> partial_cells q2" and s: "conts k2" "wf_cells s"
    and row: "characters row = (p @ q1) @ (k1 @ f @ q2) @ (k2 @ s) @ zs"
      "row_length row = length (p @ q1) + length (k1 @ f @ q2) + length (k2 @ s)" "row_length row \<le> 1024" "3000 \<le> n"
  shows "\<exists>blen' bs1 bs2. bindr (row_force_break n dflt r (int (length (p @ q1))) (blen, row))
      (row_force_break n dflt r (int (length (p @ q1) + length (k1 @ f @ q2)))) =
    Inr (blen', row\<lparr>characters := p @ bs1 @ f @ bs2 @ s @ zs\<rparr>) \<and> blanks bs1 \<and> blanks bs2 \<and>
    length bs1 = length (q1 @ k1) \<and> length bs2 = length (q2 @ k2)"
proof -
  define ys where "ys = k1 @ f @ q2 @ k2 @ s"
  have pos: "pos_cells ys"
    using m s pos_cells_wf [of f] pos_cells_wf [of s] pos_cells_partial [of q2] by (auto simp: ys_def)
  have r1: "characters row = p @ q1 @ ys @ zs" "row_length row = length p + length q1 + length ys" "row_length row \<le> 1024"
    "2 * (length q1 + length ys) + 3 \<le> n"
    using row by (simp_all add: ys_def)
  obtain b1 bs where f1: "row_force_break n dflt r (int (length p + length q1)) (blen, row) =
      Inr (b1, row\<lparr>characters := p @ bs @ sweep ys @ zs\<rparr>)" "blanks bs" "length bs = length q1"
    using force_break_cut [OF r p pos r1] by blast
  obtain e1 q' d b where sg: "sweep ys = e1 @ f @ q' @ (d @ b) @ s" "blanks e1" "length e1 = length k1" "length q' = length q2"
    "length (d @ b) = length k2" "q' = q2 \<or> blanks q'" "conts d" "blanks b"
    using sweep_segment [OF m s] unfolding ys_def by blast
  obtain e2 where sr: "sweep ((d @ b) @ s) = e2 @ s" "blanks e2" "length e2 = length (d @ b)"
    using sweep_rest [OF sg(7,8) s(2)] by blast
  define row2 where "row2 = row\<lparr>characters := p @ bs @ sweep ys @ zs\<rparr>"
  define p2 where "p2 = p @ bs @ e1 @ f @ (if blanks q' then q' else [])"
  define q3 where "q3 = (if blanks q' then [] else q')"
  have wf2: "wf_cells p2"
    unfolding p2_def using p(1) f1(2) sg(2) m(2) by (intro wf_cells_append) simp_all
  have q3: "q3 = [] \<or> partial_cells q3" using sg(6) m(3) by (auto simp: q3_def)
  have p2q3: "p2 @ q3 = p @ bs @ e1 @ f @ q'" by (simp add: p2_def q3_def)
  have len2: "length p2 + length q3 = length (p @ q1) + length (k1 @ f @ q2)"
    using arg_cong [OF p2q3, of length] f1(3) sg(3,4) by simp
  have r2: "characters row2 = p2 @ q3 @ ((d @ b) @ s) @ zs" "row_length row2 = length p2 + length q3 + length ((d @ b) @ s)"
    "row_length row2 \<le> 1024" "2 * (length q3 + length ((d @ b) @ s)) + 3 \<le> n"
  proof -
    show "characters row2 = p2 @ q3 @ ((d @ b) @ s) @ zs"
      using p2q3 by (simp add: row2_def sg(1))
    show l: "row_length row2 = length p2 + length q3 + length ((d @ b) @ s)"
      using row(2) len2 sg(5) by (simp add: row2_def)
    show "row_length row2 \<le> 1024" using row(3) by (simp add: row2_def)
    then show "2 * (length q3 + length ((d @ b) @ s)) + 3 \<le> n" using l row(4) by (simp del: length_append)
  qed
  have pos2: "pos_cells ((d @ b) @ s)" using sg(7,8) pos_cells_wf [OF s(2)] by auto
  obtain b2 bs3 where f2: "row_force_break n dflt r (int (length p2 + length q3)) (b1, row2) =
      Inr (b2, row2\<lparr>characters := p2 @ bs3 @ sweep ((d @ b) @ s) @ zs\<rparr>)" "blanks bs3" "length bs3 = length q3"
    using force_break_cut [OF r wf2 q3 pos2 r2] by blast
  define t where "t = (if blanks q' then q' else []) @ bs3 @ e2"
  have "bindr (row_force_break n dflt r (int (length (p @ q1))) (blen, row))
      (row_force_break n dflt r (int (length (p @ q1) + length (k1 @ f @ q2)))) =
    Inr (b2, row\<lparr>characters := p @ (bs @ e1) @ f @ t @ s @ zs\<rparr>)"
  proof -
    have l: "int (length (p @ q1)) = int (length p + length q1)" by simp
    show ?thesis
      unfolding l f1(1) bindr_simps row2_def [symmetric] len2 [symmetric] f2(1) sr(1)
      by (simp add: row2_def p2_def t_def)
  qed
  moreover have "blanks (bs @ e1)" "length (bs @ e1) = length (q1 @ k1)" using f1 sg by auto
  moreover have "blanks t" "length t = length (q2 @ k2)"
    using f2(2,3) sr(2,3) sg(4,5) by (auto simp: t_def q3_def split: if_splits)
  ultimately show ?thesis by blast
qed

section \<open>Rows\<close>

abbreviation row_cells :: "guac_terminal_buffer_row \<Rightarrow> cells" where
  "row_cells row \<equiv> take (row_length row) (characters row)"

definition row_ok :: "guac_terminal_buffer_row \<Rightarrow> bool" where
  "row_ok row \<longleftrightarrow> wf_cells (row_cells row) \<and> row_length row \<le> length (characters row) \<and> row_length row \<le> 1024"

abbreviation plain :: "guac_terminal_char \<Rightarrow> bool" where
  "plain c \<equiv> \<not> continuation c \<and> char_width c = 1"

lemma wf_cells_replicate [simp]: "plain d \<Longrightarrow> wf_cells (replicate n d)"
proof (induction n)
  case (Suc n)
  then show ?case using wf_cells_block [of d "[]" "replicate n d"] by simp
qed simp

lemma round_up_ge: "0 < rounded \<Longrightarrow> v \<le> round_up rounded v"
  by (induction rounded v rule: round_up.induct) (subst round_up.simps, auto)

lemma row_expand_ok:
  assumes "row_ok row" "plain d" "0 \<le> len" "len \<le> 1024"
  obtains row' where "guac_terminal_buffer_row_expand row len d = Inr row'" "row_ok row'"
    "row_length row' = max (row_length row) (nat len)"
    "row_cells row' = row_cells row @ replicate (row_length row' - row_length row) d"
    "wrapped_row row' = wrapped_row row"
proof (cases "nat len \<le> row_length row")
  case True
  then have "len \<le> int (row_length row)" by linarith
  then show thesis using that [of row] assms True by (simp add: max.absorb1)
next
  case False
  define available where
    "available = (if nat len > length (characters row) then round_up 256 (nat len) else length (characters row))"
  define row' where "row' = row\<lparr>characters := take (row_length row) (characters row) @
      replicate (available - row_length row) d, row_length := nat len\<rparr>"
  have a: "nat len \<le> available" using round_up_ge [of 256 "nat len"] by (simp add: available_def)
  have l: "row_length row \<le> length (characters row)" "row_length row \<le> 1024" using assms(1) by (simp_all add: row_ok_def)
  have "guac_terminal_buffer_row_expand row len d = Inr row'"
    using False assms(3,4)
    by (simp add: guac_terminal_buffer_row_expand_def guac_terminal_buffer_row_length_def Let_def term_constants
        row'_def available_def)
  moreover have cells: "row_cells row' = row_cells row @ replicate (row_length row' - row_length row) d"
    using False l a by (simp add: row'_def)
  moreover have "row_ok row'"
    unfolding row_ok_def cells
    using wf_cells_append [of "row_cells row"] assms False l a by (simp add: row_ok_def row'_def)
  ultimately show thesis using that [of row'] False by (simp add: row'_def)
qed

section \<open>Writing columns\<close>

lemma fill_continue: "fill n (int m) c k = replicate (min m n) k @ fill (n - m) 0 c k"
proof (induction n arbitrary: m)
  case (Suc n)
  then show ?case by (cases m) (simp_all add: Suc [of "m - 1"])
qed simp

text \<open>The written columns: copies of the character, and perhaps a part of one more.\<close>

lemma fill_blocks:
  assumes "char_width c = 1 + int v"
  shows "fill n 0 c k = concat (replicate (n div Suc v) (c # replicate v k)) @ take (n mod Suc v) (c # replicate v k)"
proof (induction n rule: less_induct)
  case (less n)
  show ?case
  proof (cases "n < Suc v")
    case True
    then show ?thesis using assms by (cases n) (simp_all add: fill_continue min_def)
  next
    case False
    then obtain m where n: "n = Suc v + m" by (metis le_add_diff_inverse not_less)
    have "fill n 0 c k = c # replicate v k @ fill m 0 c k"
      using assms by (simp add: n fill_continue min_def)
    also have "fill m 0 c k = concat (replicate (m div Suc v) (c # replicate v k)) @ take (m mod Suc v) (c # replicate v k)"
      using less n by simp
    finally have "fill n 0 c k = (c # replicate v k) @ concat (replicate (m div Suc v) (c # replicate v k)) @
        take (m mod Suc v) (c # replicate v k)" by simp
    moreover have "n div Suc v = Suc (m div Suc v)" "n mod Suc v = m mod Suc v"
      unfolding n using div_add_self1 [of "Suc v" m] mod_add_self1 [of "Suc v" m] by linarith+
    ultimately show ?thesis by (simp only: replicate_Suc concat.simps append_assoc)
  qed
qed

lemma nth_concat_replicate:
  "i < m * length b \<Longrightarrow> concat (replicate m b) ! i = b ! (i mod length b)"
proof (induction m arbitrary: i)
  case (Suc m)
  then show ?case
    by (cases "i < length b") (simp_all add: nth_append le_mod_geq)
qed simp

lemma wf_concat_blocks:
  "\<not> continuation c \<Longrightarrow> conts ks \<Longrightarrow> char_width c = 1 + int (length ks) \<Longrightarrow> wf_cells (concat (replicate m (c # ks)))"
proof (induction m)
  case (Suc m)
  then show ?case using wf_cells_block [of c ks "concat (replicate m (c # ks))"] by simp
qed simp

definition blank_cell :: "guac_terminal_char \<Rightarrow> bool" where
  "blank_cell c \<longleftrightarrow> char_value c = 32 \<and> char_width c = 1"

text \<open>
  How the cells of a row change when columns \<open>s\<close> to \<open>e\<close> are written with \<open>c\<close>: as many copies as fit, blanks
  for the rest; outside, a cell changes only to a blank, and only when the character it belongs to
  was cut.
\<close>

definition columns_written :: "nat \<Rightarrow> nat \<Rightarrow> guac_terminal_char \<Rightarrow> cells \<Rightarrow> cells \<Rightarrow> bool" where
  "columns_written s e c old new \<longleftrightarrow>
     (let w = nat (char_width c); full = (e + 1 - s) div w * w in
      length new = length old \<and>
      (\<forall>i \<in> {s..<s + full}. new ! i = (if (i - s) mod w = 0 then c else continuation_of c)) \<and>
      (\<forall>i \<in> {s + full..e}. blank_cell (new ! i)) \<and>
      (\<forall>i < length old. i < s \<or> e < i \<longrightarrow> new ! i = old ! i \<or> blank_cell (new ! i)) \<and>
      (\<not> continuation (old ! s) \<longrightarrow> take s new = take s old) \<and>
      (e + 1 = length old \<or> \<not> continuation (old ! (e + 1)) \<longrightarrow> drop (e + 1) new = drop (e + 1) old))"

lemma row_set_columns_ok:
  assumes r: "valid_row r" and row: "row_ok row" "plain d" and c: "\<not> continuation c" "1 \<le> char_width c"
    and se: "s \<le> e" "e \<le> 1023"
  shows "\<exists>blen' row'. row_set_columns BUFFER_FUEL d r (int s) (int e) c (blen, row) = Inr (blen', row') \<and> row_ok row' \<and>
    row_length row' = max (row_length row) (e + 1) \<and> wrapped_row row' = wrapped_row row \<and>
    columns_written s e c (row_cells row @ replicate (row_length row' - row_length row) d) (row_cells row')"
proof -
  obtain row1 where x: "guac_terminal_buffer_row_expand row (int e + 1) d = Inr row1" "row_ok row1"
    "row_length row1 = max (row_length row) (nat (int e + 1))"
    "row_cells row1 = row_cells row @ replicate (row_length row1 - row_length row) d" "wrapped_row row1 = wrapped_row row"
    by (rule row_expand_ok [OF row, of "int e + 1"]) (use se in auto)
  define L where "L = row_length row1"
  have L: "L = max (row_length row) (e + 1)" "e < L" "L \<le> 1024" "L \<le> length (characters row1)"
    using x(2,3) by (auto simp: L_def row_ok_def)
  define old where "old = row_cells row1"
  have old: "length old = L" "wf_cells old" "characters row1 = old @ drop L (characters row1)"
    using x(2) L by (simp_all add: old_def row_ok_def L_def)
  obtain v where v: "char_width c = 1 + int v" using c(2) by (metis add.commute diff_add_cancel nonneg_int_cases le_diff_eq add_0)
  define k where "k = continuation_of c"
  define n where "n = e + 1 - s"
  define F where "F = concat (replicate (n div Suc v) (c # replicate v k))"
  define Q where "Q = take (n mod Suc v) (c # replicate v k)"
  have FQ: "fill n 0 c k = F @ Q" using fill_blocks [OF v] by (simp add: F_def Q_def)
  have k: "continuation k" by (simp add: k_def continuation_of_def)
  have F: "wf_cells F" "length F = n div Suc v * Suc v"
    using wf_concat_blocks [of c "replicate v k"] c(1) k v by (simp_all add: F_def length_concat sum_list_replicate)
  have Q: "Q = [] \<or> partial_cells Q" "length Q = n mod Suc v"
  proof -
    have "n mod Suc v < Suc v" by simp
    then show "Q = [] \<or> partial_cells Q" "length Q = n mod Suc v"
      using c(1) k v by (cases "n mod Suc v"; auto simp: Q_def dest!: in_set_takeD)+
  qed
  have nFQ: "length F + length Q = n" unfolding F(2) Q(2) by (rule div_mult_mod_eq)
  obtain p q1 k1 s1 where c1: "take s old = p @ q1" "wf_cells p" "q1 = [] \<or> partial_cells q1" "drop s old = k1 @ s1" "conts k1"
    "wf_cells s1" "q1 = [] \<longleftrightarrow> k1 = []"
    by (rule wf_cells_cut [OF old(2), of s]) (use L se old(1) in auto)
  obtain p2 q2 k2 s2 where c2: "take (e + 1) old = p2 @ q2" "wf_cells p2" "q2 = [] \<or> partial_cells q2" "drop (e + 1) old = k2 @ s2"
    "conts k2" "wf_cells s2" "q2 = [] \<longleftrightarrow> k2 = []"
    by (rule wf_cells_cut [OF old(2), of "e + 1"]) (use L old(1) in auto)
  have "length (take s old) = s" using L(2) se(1) old(1) by simp
  then have lp: "length (p @ q1) = s" by (simp only: c1(1))
  have ls: "length (k2 @ s2) = L - (e + 1)" using arg_cong [OF c2(4), of length] old(1) by simp
  define row2 where "row2 = row1\<lparr>characters := (p @ q1) @ ([] @ F @ Q) @ (k2 @ s2) @ drop L (characters row1)\<rparr>"
  have over: "overwrite (characters row1) s (fill n 0 c k) = (p @ q1) @ ([] @ F @ Q) @ (k2 @ s2) @ drop L (characters row1)"
  proof -
    have "take s (characters row1) = p @ q1" using c1(1) L se old(1,3) by (metis (no_types, lifting) append_eq_conv_conj le_less_trans less_imp_le_nat take_append old(1) diff_is_0_eq take0 append_Nil2)
    moreover have "drop (s + n) (characters row1) = (k2 @ s2) @ drop L (characters row1)"
    proof -
      have "s + n = e + 1" using se by (simp add: n_def)
      then show ?thesis using c2(4) L old(1,3) by (metis (no_types, lifting) Suc_eq_plus1 Suc_leI diff_is_0_eq drop0 drop_append)
    qed
    ultimately show ?thesis unfolding overwrite_def length_fill by (simp add: FQ)
  qed
  have l2: "row_length row2 = length (p @ q1) + length ([] @ F @ Q) + length (k2 @ s2)"
  proof -
    have "length ([] @ F @ Q) = n" using nFQ by simp
    then show ?thesis using L se unfolding lp ls by (simp add: row2_def L_def n_def)
  qed
  have l2': "row_length row2 \<le> 1024" using L by (simp add: row2_def L_def)
  have ch2: "characters row2 = (p @ q1) @ ([] @ F @ Q) @ (k2 @ s2) @ drop L (characters row1)" by (simp add: row2_def)
  define b0 where "b0 = (if char_value c \<noteq> 0 \<and> u32_of r \<ge> blen then u32_of (r + 1) else blen)"
  have "(3000 :: nat) \<le> 4999" by simp
  from force_two_breaks [OF r c1(2,3) _ F(1) Q(1) c2(5,6) ch2 l2 l2' this, of d b0]
  obtain blen' bs1 bs2 where fb: "bindr (row_force_break 4999 d r (int (length (p @ q1))) (b0, row2))
      (row_force_break 4999 d r (int (length (p @ q1) + length ([] @ F @ Q)))) =
    Inr (blen', row2\<lparr>characters := p @ bs1 @ F @ bs2 @ s2 @ drop L (characters row1)\<rparr>)" "blanks bs1" "blanks bs2"
    "length bs1 = length (q1 @ [])" "length bs2 = length (Q @ k2)" by auto
  have e1: "length (p @ q1) + length ([] @ F @ Q) = e + 1" using lp nFQ se by (simp add: n_def)
  have set: "row_set_columns BUFFER_FUEL d r (int s) (int e) c (blen, row) =
    bindr (row_force_break 4999 d r (int s) (b0, row2)) (row_force_break 4999 d r (int e + 1))"
  proof -
    have f: "BUFFER_FUEL = Suc 4999" by (simp add: BUFFER_FUEL_def)
    have u: "u32_of (int e + 1) \<le> row_length row1" using L se by (simp add: L_def [symmetric])
    have nn: "nat (int e - int s + 1) = n" using se by (simp add: n_def)
    have st: "store_columns n s 0 c (continuation_of c) (characters row1) = characters row2"
      unfolding row2_def using over L se by (simp add: store_columns_fill n_def k_def)
    have rr: "\<not> 1024 \<le> r" "\<not> r \<le> - 1024" using r by (simp_all add: valid_row_def)
    show ?thesis
      using x(1) u se c rr
      by (simp only: f row_set_columns.simps term_constants)
        (simp add: nn st b0_def, simp add: row2_def)
  qed
  define row3 where "row3 = row2\<lparr>characters := p @ bs1 @ F @ bs2 @ s2 @ drop L (characters row1)\<rparr>"
  have run: "row_set_columns BUFFER_FUEL d r (int s) (int e) c (blen, row) = Inr (blen', row3)"
  proof -
    have "int (length (p @ q1) + length ([] @ F @ Q)) = int e + 1" unfolding e1 by simp
    then show ?thesis using fb(1) unfolding set row3_def lp by (simp only:)
  qed
  have l3: "row_length row3 = L" by (simp add: row3_def row2_def L_def)
  have cells3: "row_cells row3 = p @ bs1 @ F @ bs2 @ s2"
  proof -
    have "length (p @ bs1 @ F @ bs2 @ s2) = L"
      using l2 fb(4,5) by (simp add: row2_def L_def)
    then show ?thesis by (simp add: l3) (simp add: row3_def)
  qed
  have "wf_cells (p @ bs1 @ F @ bs2 @ s2)"
    using c1(2) c2(6) F(1) fb(2,3) by (intro wf_cells_append) simp_all
  then have ok3: "row_ok row3"
    unfolding row_ok_def cells3 l3 using L(3,4) fb(4,5) l2 by (simp add: row3_def row2_def L_def)
  have cw: "columns_written s e c old (p @ bs1 @ F @ bs2 @ s2)"
  proof -
    define new where "new = p @ bs1 @ F @ bs2 @ s2"
    have w: "nat (char_width c) = Suc v" using v by simp
    have full: "(e + 1 - s) div Suc v * Suc v = length F" by (simp add: F(2) n_def)
    have lb: "length (p @ bs1) = s" using lp fb(4) by simp
    have ln: "length new = length old" using cells3 l3 old(1) L(4) by (metis new_def length_take min.absorb2 row3_def row2_def L_def ok3 row_ok_def)
    have le: "s + length F + length bs2 = e + 1 + length k2" using nFQ fb(5) se by (simp add: n_def)
    have A: "new ! i = (if (i - s) mod Suc v = 0 then c else continuation_of c)" if "i \<in> {s..<s + length F}" for i
    proof -
      have "new ! i = F ! (i - s)" using that lb by (simp add: new_def nth_append flip: append_assoc)
      also have "\<dots> = (c # replicate v k) ! ((i - s) mod Suc v)"
      proof -
        have "i - s < length F" using that by auto
        then have "i - s < n div Suc v * length (c # replicate v k)" using F(2) by simp
        from nth_concat_replicate [OF this] show ?thesis by (simp add: F_def)
      qed
      also have "\<dots> = (if (i - s) mod Suc v = 0 then c else k)"
      proof -
        have "(i - s) mod Suc v < Suc v" by simp
        then show ?thesis by (cases "(i - s) mod Suc v") auto
      qed
      finally show ?thesis by (simp add: k_def)
    qed
    have B: "blank_cell (new ! i)" if "i \<in> {s + length F..<s + length F + length bs2}" for i
    proof -
      have "new ! i = bs2 ! (i - (s + length F))" using that lb by (simp add: new_def nth_append flip: append_assoc)
      moreover have "i - (s + length F) < length bs2" using that by auto
      ultimately show ?thesis using fb(3) nth_mem [of "i - (s + length F)" bs2] by (simp add: blank_cell_def)
    qed
    have C: "new ! i = old ! i \<or> blank_cell (new ! i)" if "i < s" for i
    proof (cases "i < length p")
      case True
      then have "old ! i = take s old ! i" using that by simp
      then show ?thesis using True by (simp add: new_def nth_append c1(1))
    next
      case False
      then have "new ! i = bs1 ! (i - length p)" "i - length p < length bs1" using that lb by (auto simp: new_def nth_append)
      then show ?thesis using fb(2) nth_mem [of "i - length p" bs1] by (simp add: blank_cell_def)
    qed
    have tail: "drop (e + 1 + length k2) new = drop (e + 1 + length k2) old"
    proof -
      have "drop (e + 1 + length k2) new = s2" using lb le by (simp add: new_def flip: append_assoc)
      moreover have "drop (e + 1 + length k2) old = drop (length k2) (drop (e + 1) old)"
        unfolding drop_drop by (simp only: add.commute)
      moreover have "drop (length k2) (drop (e + 1) old) = s2" unfolding c2(4) by simp
      ultimately show ?thesis by simp
    qed
    have D: "new ! i = old ! i" if "e + 1 + length k2 \<le> i" "i < length old" for i
    proof -
      define m where "m = e + 1 + length k2"
      have m: "m \<le> i" "m \<le> length new" "m \<le> length old" using that ln by (simp_all add: m_def)
      have "drop m new ! (i - m) = drop m old ! (i - m)" using tail by (simp only: m_def)
      then show ?thesis using m by simp
    qed
    have E: "\<not> continuation (old ! s) \<longrightarrow> take s new = take s old"
    proof
      assume "\<not> continuation (old ! s)"
      moreover have "k1 \<noteq> [] \<longrightarrow> old ! s = hd k1" using c1(4) L se old(1) by (metis hd_append2 hd_drop_conv_nth le_less_trans)
      ultimately have "k1 = []" using c1(5) by (cases k1) auto
      then have "q1 = []" using c1(7) by simp
      then show "take s new = take s old" using c1(1) fb(4) lb by (simp add: new_def flip: append_assoc)
    qed
    have G: "e + 1 = length old \<or> \<not> continuation (old ! (e + 1)) \<longrightarrow> drop (e + 1) new = drop (e + 1) old"
    proof
      assume a: "e + 1 = length old \<or> \<not> continuation (old ! (e + 1))"
      have "k2 = []"
      proof (cases "e + 1 = length old")
        case True
        then show ?thesis using c2(4) by simp
      next
        case False
        then have "e + 1 < length old" using L old(1) by simp
        then have "k2 \<noteq> [] \<longrightarrow> old ! (e + 1) = hd k2" using c2(4) by (metis hd_append2 hd_drop_conv_nth)
        then show ?thesis using a False c2(5) by (cases k2) auto
      qed
      then show "drop (e + 1) new = drop (e + 1) old" using tail by simp
    qed
    have Fle: "s + length F \<le> e + 1" using nFQ se by (simp add: n_def)
    have H: "new ! i = old ! i \<or> blank_cell (new ! i)" if "i < length old" "i < s \<or> e < i" for i
    proof (cases "i < s")
      case True
      then show ?thesis by (rule C)
    next
      case False
      then have i: "e < i" using that(2) by simp
      show ?thesis
      proof (cases "i < e + 1 + length k2")
        case True
        then show ?thesis using B [of i] i Fle le by simp
      next
        case False
        then show ?thesis using D [of i] that(1) by simp
      qed
    qed
    have I: "blank_cell (new ! i)" if "i \<in> {s + length F..e}" for i
      using B [of i] that le by simp
    show ?thesis
      unfolding columns_written_def Let_def w full new_def [symmetric]
      using ln A I H E G by blast
  qed
  show ?thesis
    using run ok3 l3 L(1) cw cells3 x(4,5) by (intro exI [of _ blen'] exI [of _ row3]) (simp add: old_def row3_def row2_def L_def)
qed

end
