(* ===== verification/TermOps.thy ===== *)
theory TermOps
  imports TermRow
begin

text \<open>
  The operations of the terminal buffer as a whole: copying columns and rows, moving the cursor
  highlight and scrolling the ring of rows keep every row a sequence of complete characters
  (\<open>buffer_ok\<close>); the ring is an array of rows indexed from the top of the display (\<open>ring_row\<close>).
\<close>

section \<open>Copying columns\<close>

lemma cut_boundary: "drop n cs = k @ s \<Longrightarrow> conts k \<Longrightarrow> n \<le> length cs \<Longrightarrow> n = length cs \<or> \<not> continuation (cs ! n) \<Longrightarrow> k = []"
  using hd_drop_conv_nth [of n cs] by (cases "n < length cs"; cases k) auto

lemma splice_blank:
  assumes "blanks bs1" "blanks bs2" "length bs1 = length (q1 @ k1)" "length bs2 = length (q2 @ k2)"
  shows "list_all2 (\<lambda>new old. new = old \<or> blank_cell new) (p @ bs1 @ f @ bs2 @ s) ((p @ q1) @ (k1 @ f @ q2) @ (k2 @ s))"
proof -
  let ?R = "\<lambda>new old. new = old \<or> blank_cell new"
  have refl: "list_all2 ?R xs xs" for xs by (simp add: list_all2_refl)
  have bl: "list_all2 ?R b xs" if "blanks b" "length b = length xs" for b xs
    using that by (auto simp: list_all2_conv_all_nth blank_cell_def)
  have "list_all2 ?R (p @ bs1 @ f @ bs2 @ s) (p @ (q1 @ k1) @ f @ (q2 @ k2) @ s)"
    by (intro list_all2_appendI refl bl assms)
  then show ?thesis by simp
qed

lemma wf_cells_segment:
  assumes "wf_cells cs" "s + n \<le> length cs"
  obtains k f q where "take n (drop s cs) = k @ f @ q" "conts k" "wf_cells f" "q = [] \<or> partial_cells q"
    "s = length cs \<or> \<not> continuation (cs ! s) \<longrightarrow> k = []"
    "s + n = length cs \<or> \<not> continuation (cs ! (s + n)) \<longrightarrow> q = []"
proof -
  obtain p q1 k s1 where c1: "take s cs = p @ q1" "drop s cs = k @ s1" "conts k" "wf_cells s1"
    by (rule wf_cells_cut [OF assms(1), of s]) (use assms(2) in auto)
  show thesis
  proof (cases "n \<le> length k")
    case True
    have "s = length cs \<or> \<not> continuation (cs ! s) \<Longrightarrow> take n k = []"
      using cut_boundary [OF c1(2,3)] assms(2) by auto
    then show thesis using that [of "take n k" "[]" "[]"] c1 True by (auto dest: in_set_takeD)
  next
    case False
    define m where "m = n - length k"
    have len: "length cs = s + length k + length s1" using assms(2) arg_cong [OF c1(2), of length] by simp
    have ml: "m \<le> length s1" using assms(2) False len by (simp add: m_def)
    obtain f q k2 s2 where c2: "take m s1 = f @ q" "wf_cells f" "q = [] \<or> partial_cells q" "drop m s1 = k2 @ s2" "conts k2"
      "q = [] \<longleftrightarrow> k2 = []"
      by (rule wf_cells_cut [OF c1(4) ml])
    have "s + n = length cs \<or> \<not> continuation (cs ! (s + n)) \<Longrightarrow> q = []"
    proof -
      assume a: "s + n = length cs \<or> \<not> continuation (cs ! (s + n))"
      have "drop (s + n) cs = drop m (drop (length k) (drop s cs))" using False by (simp add: m_def add.commute)
      then have "drop (s + n) cs = k2 @ s2" by (simp add: c1(2) c2(4))
      then show "q = []" using cut_boundary [OF _ c2(5)] assms(2) a c2(6) by blast
    qed
    moreover have "take n (drop s cs) = k @ f @ q" using False c1(2) c2(1) by (simp add: m_def)
    moreover have "s = length cs \<or> \<not> continuation (cs ! s) \<Longrightarrow> k = []"
      using cut_boundary [OF c1(2,3)] assms(2) by auto
    ultimately show thesis using that [of k f q] c1(3) c2(2,3) by blast
  qed
qed

text \<open>
  How the cells of a row change when columns \<open>s\<close> to \<open>e\<close> are copied to column \<open>t\<close>: a cell is a copy, or
  unchanged, or blank; nothing is blanked when no character is cut.
\<close>

definition columns_copied :: "nat \<Rightarrow> nat \<Rightarrow> nat \<Rightarrow> cells \<Rightarrow> cells \<Rightarrow> bool" where
  "columns_copied s e t old new \<longleftrightarrow>
     (let n = e + 1 - s; spliced = overwrite old t (take n (drop s old));
          edge = (\<lambda>i. i = length old \<or> \<not> continuation (old ! i)) in
      list_all2 (\<lambda>x y. x = y \<or> blank_cell x) new spliced \<and>
      (edge s \<and> edge (e + 1) \<and> edge t \<and> edge (t + n) \<longrightarrow> new = spliced))"

lemma row_copy_columns_ok:
  fixes s e t :: nat
  assumes r: "valid_row r" and row: "row_ok row" "plain d"
    and se: "s \<le> e" "e \<le> 1023" "t + (e - s) \<le> 1023" and short: "t < s \<Longrightarrow> e < row_length row"
  shows "\<exists>blen' row'. row_copy_columns d r (int s) (int e) (int t - int s) (blen, row) = Inr (blen', row') \<and> row_ok row' \<and>
    row_length row' = max (row_length row) (t + (e - s) + 1) \<and> wrapped_row row' = wrapped_row row \<and>
    columns_copied s e t (row_cells row @ replicate (row_length row' - row_length row) d) (row_cells row')"
proof -
  define n where "n = e + 1 - s"
  have n: "t + (e - s) + 1 = t + n" "0 < n" "s + n = e + 1" using se by (simp_all add: n_def)
  have target: "int e + (int t - int s) + 1 = int (t + n)" using n by linarith
  obtain row1 where x: "guac_terminal_buffer_row_expand row (int (t + n)) d = Inr row1" "row_ok row1"
    "row_length row1 = max (row_length row) (nat (int (t + n)))"
    "row_cells row1 = row_cells row @ replicate (row_length row1 - row_length row) d" "wrapped_row row1 = wrapped_row row"
    by (rule row_expand_ok [OF row, of "int (t + n)"]) (use se n in auto)
  define L where "L = row_length row1"
  have L: "L = max (row_length row) (t + n)" "t + n \<le> L" "L \<le> 1024" "L \<le> length (characters row1)" "e < L"
  proof -
    show a: "L = max (row_length row) (t + n)" by (simp only: L_def x(3) nat_int)
    then show b: "t + n \<le> L" by simp
    show "L \<le> 1024" "L \<le> length (characters row1)" using x(2) by (simp_all add: L_def row_ok_def)
    show "e < L"
    proof (cases "t < s")
      case True
      then show ?thesis using a short by simp
    next
      case False
      then show ?thesis using b n(3) by simp
    qed
  qed
  define old where "old = row_cells row1"
  have old: "length old = L" "wf_cells old" "characters row1 = old @ drop L (characters row1)"
    using x(2) L by (simp_all add: old_def row_ok_def L_def)
  have sn: "s + n \<le> length old" using L(5) n(3) old(1) by simp
  obtain k1 f q2 where g: "take n (drop s old) = k1 @ f @ q2" "conts k1" "wf_cells f" "q2 = [] \<or> partial_cells q2"
    "s = length old \<or> \<not> continuation (old ! s) \<longrightarrow> k1 = []"
    "s + n = length old \<or> \<not> continuation (old ! (s + n)) \<longrightarrow> q2 = []"
    by (rule wf_cells_segment [OF old(2) sn])
  obtain p q1 ka s1 where c1: "take t old = p @ q1" "wf_cells p" "q1 = [] \<or> partial_cells q1" "drop t old = ka @ s1" "conts ka"
    "q1 = [] \<longleftrightarrow> ka = []"
    by (rule wf_cells_cut [OF old(2), of t]) (use L old(1) in auto)
  obtain p2 qb k2 s2 where c2: "take (t + n) old = p2 @ qb" "drop (t + n) old = k2 @ s2" "conts k2" "wf_cells s2"
    by (rule wf_cells_cut [OF old(2), of "t + n"]) (use L old(1) in auto)
  have lm: "length (k1 @ f @ q2) = n" using L n old(1) by (simp flip: g(1))
  have lp: "length (p @ q1) = t" using L old(1) by (simp flip: c1(1))
  have ls: "length (k2 @ s2) = L - (t + n)" using old(1) by (simp flip: c2(2))
  define spl where "spl = (p @ q1) @ (k1 @ f @ q2) @ (k2 @ s2)"
  have spl: "overwrite old t (take n (drop s old)) = spl"
    unfolding overwrite_def spl_def using lm by (simp add: g(1) c1(1) c2(2))
  define row2 where "row2 = row1\<lparr>characters := spl @ drop L (characters row1)\<rparr>"
  have ch2: "characters row2 = (p @ q1) @ (k1 @ f @ q2) @ (k2 @ s2) @ drop L (characters row1)" by (simp add: row2_def spl_def)
  have l2: "row_length row2 = length (p @ q1) + length (k1 @ f @ q2) + length (k2 @ s2)" "row_length row2 \<le> 1024"
    using L(2,3) unfolding lm lp ls by (simp_all add: row2_def L_def)
  have "(3000 :: nat) \<le> BUFFER_FUEL" by (simp add: BUFFER_FUEL_def)
  from force_two_breaks [OF r c1(2,3) g(2-4) c2(3,4) ch2 l2 this, of d blen]
  obtain blen' bs1 bs2 where fb: "bindr (row_force_break BUFFER_FUEL d r (int t) (blen, row2))
      (row_force_break BUFFER_FUEL d r (int (t + n))) =
    Inr (blen', row2\<lparr>characters := p @ bs1 @ f @ bs2 @ s2 @ drop L (characters row1)\<rparr>)" "blanks bs1" "blanks bs2"
    "length bs1 = length (q1 @ k1)" "length bs2 = length (q2 @ k2)" unfolding lp lm by blast
  define row3 where "row3 = row2\<lparr>characters := p @ bs1 @ f @ bs2 @ s2 @ drop L (characters row1)\<rparr>"
  have over: "overwrite (characters row1) t (take n (drop s (characters row1))) = spl @ drop L (characters row1)"
  proof -
    have "take n (drop s (characters row1)) = take n (drop s old)"
      by (subst old(3)) (use L n old(1) in simp)
    moreover have "overwrite (old @ ws) t ys = overwrite old t ys @ ws" if "t + length ys \<le> length old" for ws ys
      using that by (simp add: overwrite_def)
    ultimately show ?thesis by (subst old(3)) (use L n old(1) spl in simp)
  qed
  have run: "row_copy_columns d r (int s) (int e) (int t - int s) (blen, row) = Inr (blen', row3)"
  proof -
    have in1: "in_int (int (t + n))" "in_int (int L - (int t - int s) - 1)" "in_int (int L - 1)"
      using L n se by (auto simp: in_int_bounds)
    have u: "u32_of (int (t + n)) = t + n" using L(2,3) by simp
    define hi where "hi = (if int t - int s \<ge> 0 then wrap32 (int L - (int t - int s) - 1) else wrap32 (int L - 1))"
    define lo where "lo = (if int t - int s \<ge> 0 then 0 else - (int t - int s))"
    have h: "hi = (if int t - int s \<ge> 0 then int L - (int t - int s) - 1 else int L - 1)"
      unfolding hi_def wrap32_id [OF in1(2)] wrap32_id [OF in1(3)] ..
    have e: "int e + 1 = int s + int n" "int t + int n \<le> int L" "int e < int L" "int s \<le> int e"
      using n(3) L(2,5) se by linarith+
    then have hi: "int e \<le> hi" "int s \<le> hi" unfolding h by auto
    have lo: "lo \<le> int s" using se by (simp add: lo_def)
    have e1: "int s + (int t - int s) = int t" "nat (int e - int s + 1) = n" "nat (int t) = t" "nat (int s) = s" using se by (simp_all add: n_def)
    have r1: "row_length row1 = L" by (simp add: L_def)
    have se': "int s \<le> int e" using se by simp
    show ?thesis
      unfolding row_copy_columns_def Let_def snd_conv fst_conv target wrap32_id [OF in1(1)] x(1) bindr_simps u r1
      using L(2) by (simp only: guac_assert_simps hi_def [symmetric] lo_def [symmetric] fit_to_range_id [OF lo hi(2)]
          fit_to_range_id [OF se' hi(1)] bindr_simps e1 over target)
        (simp add: fb(1) row2_def [symmetric] row3_def [symmetric] del: of_nat_add)
  qed
  have l3: "row_length row3 = L" by (simp add: row3_def row2_def L_def)
  have l4: "length (p @ bs1 @ f @ bs2 @ s2) = L" using l2 fb(4,5) by (simp add: row2_def L_def)
  then have cells3: "row_cells row3 = p @ bs1 @ f @ bs2 @ s2" by (simp add: l3) (simp add: row3_def)
  have "wf_cells (p @ bs1 @ f @ bs2 @ s2)"
    using c1(2) c2(4) g(3) fb(2,3) by (intro wf_cells_append) simp_all
  then have ok3: "row_ok row3" unfolding row_ok_def cells3 l3 using L(3) l4 by (simp add: row3_def)
  have "columns_copied s e t old (p @ bs1 @ f @ bs2 @ s2)"
    unfolding columns_copied_def Let_def n_def [symmetric] spl
  proof (intro conjI impI)
    show "list_all2 (\<lambda>x y. x = y \<or> blank_cell x) (p @ bs1 @ f @ bs2 @ s2) spl"
      unfolding spl_def using splice_blank [OF fb(2-5)] .
    assume a: "(s = length old \<or> \<not> continuation (old ! s)) \<and> (e + 1 = length old \<or> \<not> continuation (old ! (e + 1))) \<and>
      (t = length old \<or> \<not> continuation (old ! t)) \<and> (t + n = length old \<or> \<not> continuation (old ! (t + n)))"
    have "k1 = []" using g(5) a by blast
    moreover have "q2 = []" using g(6) [unfolded n(3)] a by blast
    moreover have "q1 = []" using cut_boundary [OF c1(4,5)] a L old(1) c1(6) by simp
    moreover have "k2 = []" using cut_boundary [OF c2(2,3)] a L old(1) by simp
    ultimately show "p @ bs1 @ f @ bs2 @ s2 = spl" using fb(4,5) by (simp add: spl_def)
  qed
  then show ?thesis
    using run ok3 l3 L(1) cells3 x(4,5) n(1)
    by (intro exI [of _ blen'] exI [of _ row3]) (simp add: old_def row3_def row2_def L_def)
qed

section \<open>Buffers\<close>

definition buffer_ok :: "guac_terminal_buffer \<Rightarrow> bool" where
  "buffer_ok buf \<longleftrightarrow>
     (\<forall>row \<in> set (buffer_rows buf). row_ok row) \<and> plain (default_character buf) \<and>
     0 < length (buffer_rows buf) \<and> length (buffer_rows buf) \<le> 1073741824 \<and> buffer_top buf < length (buffer_rows buf)"

text \<open>The row with a number relative to the top of the display.\<close>

definition ring_row :: "guac_terminal_buffer \<Rightarrow> int \<Rightarrow> guac_terminal_buffer_row option" where
  "ring_row buf r = map_option (\<lambda>i. buffer_rows buf ! i) (guac_terminal_buffer_get_row buf r)"

lemma buffer_ok_alloc: "plain d \<Longrightarrow> 0 < n \<Longrightarrow> n \<le> 1073741824 \<Longrightarrow> buffer_ok (guac_terminal_buffer_alloc junk n d)"
  by (simp add: buffer_ok_def guac_terminal_buffer_alloc_def row_ok_def)

lemma get_row_range: "guac_terminal_buffer_get_row buf r = Some i \<Longrightarrow> 0 < length (buffer_rows buf) \<Longrightarrow> i < length (buffer_rows buf)"
  by (auto simp: guac_terminal_buffer_get_row_def split: if_splits)

text \<open>
  The ring index is the sum modulo the number of rows when that number divides \<open>2 ^ 32\<close>, and without
  that assumption as long as the sum is not negative.
\<close>

lemma mod_mod_32: "int m dvd 4294967296 \<Longrightarrow> 0 < m \<Longrightarrow> int (u32_of x mod m) = x mod int m"
  by (simp add: u32_of_def of_nat_mod mod_mod_cancel)

lemma get_row_index:
  assumes "buffer_ok buf" "\<bar>r\<bar> < int (length (buffer_rows buf))"
    and "int (length (buffer_rows buf)) dvd 4294967296 \<or> 0 \<le> int (buffer_top buf) + r"
  shows "\<exists>i. guac_terminal_buffer_get_row buf r = Some i \<and> int i = (int (buffer_top buf) + r) mod int (length (buffer_rows buf))"
proof -
  let ?n = "length (buffer_rows buf)"
  have n: "0 < ?n" "int ?n \<le> 1073741824" "int (buffer_top buf) < int ?n" using assms(1) by (simp_all add: buffer_ok_def)
  have "u32_of \<bar>r\<bar> < ?n" using assms(2) n(2) by (simp add: nat_less_iff)
  moreover have "int (u32_of (int (buffer_top buf) + r) mod ?n) = (int (buffer_top buf) + r) mod int ?n"
  proof (cases "int ?n dvd 4294967296")
    case True
    then show ?thesis using mod_mod_32 n(1) by blast
  next
    case False
    then show ?thesis using assms(2,3) n by (simp add: of_nat_mod)
  qed
  ultimately show ?thesis by (simp add: guac_terminal_buffer_get_row_def)
qed

lemma get_row_valid: "buffer_ok buf \<Longrightarrow> 1024 \<le> length (buffer_rows buf) \<Longrightarrow> valid_row r \<Longrightarrow>
    \<exists>i. guac_terminal_buffer_get_row buf r = Some i \<and> i < length (buffer_rows buf)"
  by (auto simp: guac_terminal_buffer_get_row_def valid_row_def buffer_ok_def nat_le_iff)

lemma buffer_ok_update:
  "buffer_ok buf \<Longrightarrow> row_ok row \<Longrightarrow> buffer_ok (buf\<lparr>buffer_rows := (buffer_rows buf)[i := row], buffer_length := n\<rparr>)"
  by (auto simp: buffer_ok_def dest: set_update_subset_insert [THEN subsetD])

lemma on_row_ok:
  assumes "buffer_ok buf" "guac_terminal_buffer_get_row buf r = Some i"
    and "f (buffer_length buf, buffer_rows buf ! i) = Inr (n, row)" "row_ok row"
  shows "on_row buf r f = Inr (buf\<lparr>buffer_rows := (buffer_rows buf)[i := row], buffer_length := n\<rparr>)"
    "buffer_ok (buf\<lparr>buffer_rows := (buffer_rows buf)[i := row], buffer_length := n\<rparr>)"
  using assms buffer_ok_update by (simp_all add: on_row_def)

text \<open>A buffer in which at most one row has changed.\<close>

definition row_changed ::
  "guac_terminal_buffer \<Rightarrow> int \<Rightarrow> guac_terminal_buffer \<Rightarrow> (guac_terminal_buffer_row \<Rightarrow> guac_terminal_buffer_row \<Rightarrow> bool) \<Rightarrow> bool" where
  "row_changed buf r buf' P \<longleftrightarrow>
     (\<exists>i row. guac_terminal_buffer_get_row buf r = Some i \<and> P (buffer_rows buf ! i) row \<and>
        buffer_rows buf' = (buffer_rows buf)[i := row] \<and> buffer_top buf' = buffer_top buf \<and>
        default_character buf' = default_character buf)"

lemma buffer_ok_row: "buffer_ok buf \<Longrightarrow> i < length (buffer_rows buf) \<Longrightarrow> row_ok (buffer_rows buf ! i)"
  by (simp add: buffer_ok_def)

lemma set_columns_ok:
  assumes "buffer_ok buf" "1024 \<le> length (buffer_rows buf)" "valid_row r" "\<not> continuation c" "1 \<le> char_width c" "s \<le> e" "e \<le> 1023"
  shows "\<exists>buf'. guac_terminal_buffer_set_columns buf r (int s) (int e) c = Inr buf' \<and> buffer_ok buf' \<and>
    row_changed buf r buf' (\<lambda>old new. row_length new = max (row_length old) (e + 1) \<and> wrapped_row new = wrapped_row old \<and>
      columns_written s e c (row_cells old @ replicate (row_length new - row_length old) (default_character buf)) (row_cells new))"
proof -
  obtain i where i: "guac_terminal_buffer_get_row buf r = Some i" "i < length (buffer_rows buf)"
    using get_row_valid [OF assms(1-3)] by blast
  have d: "plain (default_character buf)" using assms(1) by (simp add: buffer_ok_def)
  obtain n row where run: "row_set_columns BUFFER_FUEL (default_character buf) r (int s) (int e) c (buffer_length buf, buffer_rows buf ! i) = Inr (n, row)"
    "row_ok row" "row_length row = max (row_length (buffer_rows buf ! i)) (e + 1)" "wrapped_row row = wrapped_row (buffer_rows buf ! i)"
    "columns_written s e c (row_cells (buffer_rows buf ! i) @ replicate (row_length row - row_length (buffer_rows buf ! i)) (default_character buf)) (row_cells row)"
    using row_set_columns_ok [OF assms(3) buffer_ok_row [OF assms(1) i(2)] d assms(4-7), of "buffer_length buf"] by blast
  show ?thesis
    using on_row_ok [where f = "row_set_columns BUFFER_FUEL (default_character buf) r (int s) (int e) c", OF assms(1) i(1) run(1,2)] i(1) run
    by (intro exI [of _ "buf\<lparr>buffer_rows := (buffer_rows buf)[i := row], buffer_length := n\<rparr>"])
      (auto simp: guac_terminal_buffer_set_columns_def row_changed_def)
qed

lemma copy_columns_ok:
  assumes "buffer_ok buf" "1024 \<le> length (buffer_rows buf)" "valid_row r" "s \<le> e" "e \<le> 1023" "t + (e - s) \<le> 1023"
    and "t < s \<Longrightarrow> \<exists>row. ring_row buf r = Some row \<and> e < row_length row"
  shows "\<exists>buf'. guac_terminal_buffer_copy_columns buf r (int s) (int e) (int t - int s) = Inr buf' \<and> buffer_ok buf' \<and>
    row_changed buf r buf' (\<lambda>old new. row_length new = max (row_length old) (t + (e - s) + 1) \<and> wrapped_row new = wrapped_row old \<and>
      columns_copied s e t (row_cells old @ replicate (row_length new - row_length old) (default_character buf)) (row_cells new))"
proof -
  obtain i where i: "guac_terminal_buffer_get_row buf r = Some i" "i < length (buffer_rows buf)"
    using get_row_valid [OF assms(1-3)] by blast
  have d: "plain (default_character buf)" using assms(1) by (simp add: buffer_ok_def)
  have short: "t < s \<Longrightarrow> e < row_length (buffer_rows buf ! i)" using assms(7) i(1) by (simp add: ring_row_def)
  obtain n row where run: "row_copy_columns (default_character buf) r (int s) (int e) (int t - int s) (buffer_length buf, buffer_rows buf ! i) = Inr (n, row)"
    "row_ok row" "row_length row = max (row_length (buffer_rows buf ! i)) (t + (e - s) + 1)" "wrapped_row row = wrapped_row (buffer_rows buf ! i)"
    "columns_copied s e t (row_cells (buffer_rows buf ! i) @ replicate (row_length row - row_length (buffer_rows buf ! i)) (default_character buf)) (row_cells row)"
    using row_copy_columns_ok [OF assms(3) buffer_ok_row [OF assms(1) i(2)] d assms(4-6) short, of "buffer_length buf"] by blast
  show ?thesis
    using on_row_ok [where f = "row_copy_columns (default_character buf) r (int s) (int e) (int t - int s)", OF assms(1) i(1) run(1,2)] i(1) run
    by (intro exI [of _ "buf\<lparr>buffer_rows := (buffer_rows buf)[i := row], buffer_length := n\<rparr>"])
      (auto simp: guac_terminal_buffer_copy_columns_def row_changed_def)
qed

section \<open>Scrolling the ring\<close>

lemma ring_scroll:
  assumes "buffer_ok buf" "int (length (buffer_rows buf)) dvd 4294967296" "0 < a" "a < 1073741824"
    and "\<bar>r\<bar> < int (length (buffer_rows buf))"
  shows "\<bar>r + a\<bar> < int (length (buffer_rows buf)) \<Longrightarrow>
      ring_row (guac_terminal_buffer_scroll_up buf a) r = ring_row buf (r + a)"
    "\<bar>r - a\<bar> < int (length (buffer_rows buf)) \<Longrightarrow>
      ring_row (guac_terminal_buffer_scroll_down buf a) r = ring_row buf (r - a)"
    "buffer_ok (guac_terminal_buffer_scroll_up buf a)" "buffer_ok (guac_terminal_buffer_scroll_down buf a)"
proof -
  let ?n = "length (buffer_rows buf)"
  have n: "0 < ?n" using assms(1) by (simp add: buffer_ok_def)
  show up: "buffer_ok (guac_terminal_buffer_scroll_up buf a)" and down: "buffer_ok (guac_terminal_buffer_scroll_down buf a)"
    using assms(1) n by (simp_all add: buffer_ok_def guac_terminal_buffer_scroll_up_def guac_terminal_buffer_scroll_down_def Let_def)
  have same: "ring_row buf1 r1 = ring_row buf2 r2"
    if h: "buffer_ok buf1" "buffer_ok buf2" "buffer_rows buf1 = buffer_rows buf" "buffer_rows buf2 = buffer_rows buf"
      "\<bar>r1\<bar> < int ?n" "\<bar>r2\<bar> < int ?n"
      "(int (buffer_top buf1) + r1) mod int ?n = (int (buffer_top buf2) + r2) mod int ?n" for buf1 buf2 r1 r2
  proof -
    obtain i where "guac_terminal_buffer_get_row buf1 r1 = Some i" "int i = (int (buffer_top buf1) + r1) mod int ?n"
      using get_row_index [of buf1 r1] h assms(2) by auto
    moreover obtain j where "guac_terminal_buffer_get_row buf2 r2 = Some j" "int j = (int (buffer_top buf2) + r2) mod int ?n"
      using get_row_index [of buf2 r2] h assms(2) by auto
    ultimately have "guac_terminal_buffer_get_row buf1 r1 = Some i" "guac_terminal_buffer_get_row buf2 r2 = Some i"
      using h(7) by (simp_all flip: of_nat_eq_iff)
    then show ?thesis using h(3,4) by (simp add: ring_row_def)
  qed
  have top: "int (buffer_top (guac_terminal_buffer_scroll_up buf a)) = (int (buffer_top buf) + a) mod int ?n"
    "int (buffer_top (guac_terminal_buffer_scroll_down buf a)) = (int (buffer_top buf) - a) mod int ?n"
    using assms(3) mod_mod_32 [OF assms(2) n]
    by (simp_all add: guac_terminal_buffer_scroll_up_def guac_terminal_buffer_scroll_down_def Let_def)
  have rows: "buffer_rows (guac_terminal_buffer_scroll_up buf a) = buffer_rows buf"
    "buffer_rows (guac_terminal_buffer_scroll_down buf a) = buffer_rows buf"
    by (simp_all add: guac_terminal_buffer_scroll_up_def guac_terminal_buffer_scroll_down_def Let_def)
  show "\<bar>r + a\<bar> < int ?n \<Longrightarrow> ring_row (guac_terminal_buffer_scroll_up buf a) r = ring_row buf (r + a)"
    by (rule same [OF up assms(1) rows(1) refl assms(5)]) (simp_all add: top mod_simps algebra_simps)
  show "\<bar>r - a\<bar> < int ?n \<Longrightarrow> ring_row (guac_terminal_buffer_scroll_down buf a) r = ring_row buf (r - a)"
    by (rule same [OF down assms(1) rows(2) refl assms(5)]) (simp_all add: top mod_simps algebra_simps)
qed

text \<open>Distinct rows of a window have distinct indices.\<close>

lemma get_row_inj:
  assumes "buffer_ok buf" "guac_terminal_buffer_get_row buf r = Some i" "guac_terminal_buffer_get_row buf r' = Some i"
    and "0 \<le> r" "0 \<le> r'" "r < int (length (buffer_rows buf))" "r' < int (length (buffer_rows buf))"
  shows "r = r'"
proof -
  let ?n = "int (length (buffer_rows buf))"
  have "int i = (int (buffer_top buf) + r) mod ?n" "int i = (int (buffer_top buf) + r') mod ?n"
    using get_row_index [OF assms(1), of r] get_row_index [OF assms(1), of r'] assms by auto
  then have "(int (buffer_top buf) + r) mod ?n = (int (buffer_top buf) + r') mod ?n" by simp
  then have "?n dvd (int (buffer_top buf) + r) - (int (buffer_top buf) + r')" by (simp only: mod_eq_dvd_iff)
  then have "?n dvd r - r'" by simp
  moreover have "\<bar>r - r'\<bar> < ?n" using assms(4-7) by linarith
  ultimately show ?thesis using dvd_imp_le_int [of "r - r'" ?n] by auto
qed

section \<open>Copying rows\<close>

definition ring_cells :: "guac_terminal_buffer \<Rightarrow> int \<Rightarrow> cells" where
  "ring_cells buf r = (case ring_row buf r of None \<Rightarrow> [] | Some row \<Rightarrow> row_cells row)"

lemma copy_one_row_ok:
  assumes "buffer_ok buf" "src < length (buffer_rows buf)" "dst < length (buffer_rows buf)"
  shows "\<exists>buf'. copy_one_row buf src dst = Inr buf' \<and> buffer_ok buf' \<and> buffer_top buf' = buffer_top buf \<and>
    length (buffer_rows buf') = length (buffer_rows buf) \<and>
    (\<forall>i < length (buffer_rows buf). row_cells (buffer_rows buf' ! i) = row_cells (buffer_rows buf ! (if i = dst then src else i)))"
proof -
  let ?s = "buffer_rows buf ! src" and ?t = "buffer_rows buf ! dst"
  have ok: "row_ok ?s" "row_ok ?t" "plain (default_character buf)" using assms by (simp_all add: buffer_ok_def)
  have ls: "row_length ?s \<le> 1024" "row_length ?s \<le> length (characters ?s)" "wf_cells (row_cells ?s)" using ok by (simp_all add: row_ok_def)
  obtain t where t: "guac_terminal_buffer_row_expand ?t (int (row_length ?s)) (default_character buf) = Inr t" "row_ok t"
    "row_length t = max (row_length ?t) (row_length ?s)"
    "row_cells t = row_cells ?t @ replicate (row_length t - row_length ?t) (default_character buf)"
    by (rule row_expand_ok [OF ok(2,3), of "int (row_length ?s)"]) (use ls in auto)
  define rows1 where "rows1 = (buffer_rows buf)[dst := t]"
  define cs where "cs = take (row_length ?s) (characters ?s)"
  have same: "src = dst \<Longrightarrow> t = ?s" using t(1) ls by simp
  have r1: "rows1 ! src = ?s" "rows1 ! dst = t" "length rows1 = length (buffer_rows buf)"
    using same assms by (auto simp: rows1_def nth_list_update)
  have lt: "row_length ?s \<le> row_length t" "row_length t \<le> length (characters t)" using t(2,3) by (simp_all add: row_ok_def)
  define t2 where "t2 = t\<lparr>characters := overwrite (characters t) 0 cs, row_length := row_length ?s, wrapped_row := wrapped_row ?s\<rparr>"
  have lcs: "length cs = row_length ?s" using ls by (simp add: cs_def)
  have t2: "row_cells t2 = row_cells ?s" "row_ok t2"
    using ls lt lcs by (simp_all add: t2_def overwrite_def row_ok_def) (simp_all add: cs_def)
  define rows2 where "rows2 = rows1[dst := t2]"
  define rows3 where "rows3 = rows2[src := (rows2 ! src)\<lparr>wrapped_row := False\<rparr>]"
  have "copy_one_row buf src dst = Inr (buf\<lparr>buffer_rows := rows3\<rparr>)"
    unfolding copy_one_row_def t(1) bindr_simps Let_def rows1_def [symmetric] r1(1,2)
    using lt(1) by (simp add: rows3_def rows2_def t2_def cs_def Let_def)
  moreover have cells: "\<forall>i < length (buffer_rows buf). row_ok (rows3 ! i) \<and>
      row_cells (rows3 ! i) = row_cells (buffer_rows buf ! (if i = dst then src else i))"
  proof (intro allI impI)
    fix i assume i: "i < length (buffer_rows buf)"
    have flag: "row_ok (row\<lparr>wrapped_row := w\<rparr>) = row_ok row" for row w by (simp add: row_ok_def)
    have two: "row_ok (rows2 ! i) \<and> row_cells (rows2 ! i) = row_cells (buffer_rows buf ! (if i = dst then src else i))"
      using i t2 buffer_ok_row [OF assms(1) i] by (simp add: rows2_def rows1_def nth_list_update)
    then show "row_ok (rows3 ! i) \<and> row_cells (rows3 ! i) = row_cells (buffer_rows buf ! (if i = dst then src else i))"
      by (cases "i = src") (use i r1(3) flag in \<open>simp_all add: rows3_def rows2_def\<close>)
  qed
  moreover have "length rows3 = length (buffer_rows buf)" by (simp add: rows3_def rows2_def rows1_def)
  moreover from this cells have "\<forall>row \<in> set rows3. row_ok row" by (auto simp: in_set_conv_nth)
  ultimately show ?thesis using assms(1)
    by (intro exI [of _ "buf\<lparr>buffer_rows := rows3\<rparr>"]) (simp add: buffer_ok_def)
qed

lemma get_row_same:
  "buffer_top buf' = buffer_top buf \<Longrightarrow> length (buffer_rows buf') = length (buffer_rows buf) \<Longrightarrow>
     guac_terminal_buffer_get_row buf' r = guac_terminal_buffer_get_row buf r"
  by (simp add: guac_terminal_buffer_get_row_def)

lemma copy_one_ring:
  assumes ok: "buffer_ok buf" "0 \<le> r" "r < n" "0 \<le> r + k" "r + k < n" "n = int (length (buffer_rows buf))"
  obtains src dst buf' where "guac_terminal_buffer_get_row buf r = Some src" "guac_terminal_buffer_get_row buf (r + k) = Some dst"
    "copy_one_row buf src dst = Inr buf'" "buffer_ok buf'" "n = int (length (buffer_rows buf'))"
    "\<forall>j. 0 \<le> j \<and> j < n \<longrightarrow> ring_cells buf' j = ring_cells buf (if j = r + k then r else j)"
proof -
  have g: "\<exists>i. guac_terminal_buffer_get_row buf j = Some i \<and> i < length (buffer_rows buf)" if "0 \<le> j" "j < n" for j
  proof -
    have "0 < length (buffer_rows buf)" using ok(1) by (simp add: buffer_ok_def)
    then show ?thesis using get_row_index [OF ok(1), of j] get_row_range [of buf j] that ok(6) by auto
  qed
  obtain src dst where i: "guac_terminal_buffer_get_row buf r = Some src" "src < length (buffer_rows buf)"
    "guac_terminal_buffer_get_row buf (r + k) = Some dst" "dst < length (buffer_rows buf)"
    using g [OF ok(2,3)] g [OF ok(4,5)] by auto
  obtain buf' where b: "copy_one_row buf src dst = Inr buf'" "buffer_ok buf'" "buffer_top buf' = buffer_top buf"
    "length (buffer_rows buf') = length (buffer_rows buf)"
    "\<forall>i < length (buffer_rows buf). row_cells (buffer_rows buf' ! i) = row_cells (buffer_rows buf ! (if i = dst then src else i))"
    using copy_one_row_ok [OF ok(1) i(2,4)] by blast
  have "ring_cells buf' j = ring_cells buf (if j = r + k then r else j)" if j: "0 \<le> j" "j < n" for j
  proof -
    obtain m where m: "guac_terminal_buffer_get_row buf j = Some m" "m < length (buffer_rows buf)" using g [OF j] by auto
    have "m = dst \<longleftrightarrow> j = r + k"
      using get_row_inj [OF ok(1), of j dst "r + k"] m(1) i(3) j ok(4-6) by auto
    then show ?thesis using m i b(5) get_row_same [OF b(3,4)] by (simp add: ring_cells_def ring_row_def)
  qed
  then show thesis using that i b ok(6) by simp
qed

text \<open>
  The direction of the loop makes every row be read before it is overwritten.
\<close>

lemma copy_rows_down:
  assumes "buffer_ok buf" "0 < k" "int m \<le> r + 1" "r + k < n" "n = int (length (buffer_rows buf))"
  shows "\<exists>buf'. copy_rows_loop m buf r (-1) k = Inr buf' \<and> buffer_ok buf' \<and>
    (\<forall>j. 0 \<le> j \<and> j < n \<longrightarrow> ring_cells buf' j = ring_cells buf (if r - int m < j - k \<and> j - k \<le> r then j - k else j))"
  using assms
proof (induction m arbitrary: buf r)
  case 0
  then show ?case by auto
next
  case (Suc m)
  obtain src dst buf1 where c: "guac_terminal_buffer_get_row buf r = Some src" "guac_terminal_buffer_get_row buf (r + k) = Some dst"
    "copy_one_row buf src dst = Inr buf1" "buffer_ok buf1" "n = int (length (buffer_rows buf1))"
    "\<forall>j. 0 \<le> j \<and> j < n \<longrightarrow> ring_cells buf1 j = ring_cells buf (if j = r + k then r else j)"
    by (rule copy_one_ring [OF Suc(2), of r n k]) (use Suc in auto)
  obtain buf' where b: "copy_rows_loop m buf1 (r - 1) (-1) k = Inr buf'" "buffer_ok buf'"
    "\<forall>j. 0 \<le> j \<and> j < n \<longrightarrow> ring_cells buf' j = ring_cells buf1 (if r - 1 - int m < j - k \<and> j - k \<le> r - 1 then j - k else j)"
    using Suc(1) [OF c(4) Suc(3), of "r - 1"] Suc(4,5) c(5) by auto
  have "ring_cells buf' j = ring_cells buf (if r - int (Suc m) < j - k \<and> j - k \<le> r then j - k else j)" if j: "0 \<le> j" "j < n" for j
  proof (cases "r - 1 - int m < j - k \<and> j - k \<le> r - 1")
    case True
    then have "0 \<le> j - k" "j - k < n" "j - k \<noteq> r + k" using Suc(3,4) j by linarith+
    then show ?thesis using b(3) c(6) j True by simp
  next
    case False
    have "ring_cells buf' j = ring_cells buf1 j"
      using b(3) [rule_format, of j] j unfolding if_not_P [OF False] by blast
    then have "ring_cells buf' j = ring_cells buf (if j = r + k then r else j)" using c(6) j by simp
    then show ?thesis using False by auto
  qed
  then show ?case using c(1-3) b(1,2) by auto
qed

lemma copy_rows_up:
  assumes "buffer_ok buf" "k \<le> 0" "0 \<le> r + k" "r + int m \<le> n" "n = int (length (buffer_rows buf))"
  shows "\<exists>buf'. copy_rows_loop m buf r 1 k = Inr buf' \<and> buffer_ok buf' \<and>
    (\<forall>j. 0 \<le> j \<and> j < n \<longrightarrow> ring_cells buf' j = ring_cells buf (if r \<le> j - k \<and> j - k < r + int m then j - k else j))"
  using assms
proof (induction m arbitrary: buf r)
  case 0
  then show ?case by auto
next
  case (Suc m)
  obtain src dst buf1 where c: "guac_terminal_buffer_get_row buf r = Some src" "guac_terminal_buffer_get_row buf (r + k) = Some dst"
    "copy_one_row buf src dst = Inr buf1" "buffer_ok buf1" "n = int (length (buffer_rows buf1))"
    "\<forall>j. 0 \<le> j \<and> j < n \<longrightarrow> ring_cells buf1 j = ring_cells buf (if j = r + k then r else j)"
    by (rule copy_one_ring [OF Suc(2), of r n k]) (use Suc in auto)
  obtain buf' where b: "copy_rows_loop m buf1 (r + 1) 1 k = Inr buf'" "buffer_ok buf'"
    "\<forall>j. 0 \<le> j \<and> j < n \<longrightarrow> ring_cells buf' j = ring_cells buf1 (if r + 1 \<le> j - k \<and> j - k < r + 1 + int m then j - k else j)"
    using Suc(1) [OF c(4) Suc(3), of "r + 1"] Suc(4,5) c(5) by auto
  have "ring_cells buf' j = ring_cells buf (if r \<le> j - k \<and> j - k < r + int (Suc m) then j - k else j)" if j: "0 \<le> j" "j < n" for j
  proof (cases "r + 1 \<le> j - k \<and> j - k < r + 1 + int m")
    case True
    then have "0 \<le> j - k" "j - k < n" "j - k \<noteq> r + k" using Suc(3-5) j by linarith+
    then show ?thesis using b(3) c(6) j True by simp
  next
    case False
    have "ring_cells buf' j = ring_cells buf1 j"
      using b(3) [rule_format, of j] j unfolding if_not_P [OF False] by blast
    then have "ring_cells buf' j = ring_cells buf (if j = r + k then r else j)" using c(6) j by simp
    then show ?thesis using False by auto
  qed
  then show ?case using c(1-3) b(1,2) by auto
qed

lemma copy_rows_ok:
  assumes "buffer_ok buf" "n = int (length (buffer_rows buf))"
    and "0 \<le> a" "a \<le> b + 1" "b < n" "0 \<le> a + k" "b + k < n"
  shows "\<exists>buf'. guac_terminal_buffer_copy_rows buf a b k = Inr buf' \<and> buffer_ok buf' \<and>
    (\<forall>j. 0 \<le> j \<and> j < n \<longrightarrow> ring_cells buf' j = ring_cells buf (if a \<le> j - k \<and> j - k \<le> b then j - k else j))"
proof (cases "k > 0")
  case True
  obtain buf' where "copy_rows_loop (nat (b - a + 1)) buf b (-1) k = Inr buf'" "buffer_ok buf'"
    "\<forall>j. 0 \<le> j \<and> j < n \<longrightarrow> ring_cells buf' j = ring_cells buf (if b - int (nat (b - a + 1)) < j - k \<and> j - k \<le> b then j - k else j)"
    using copy_rows_down [OF assms(1) True, of "nat (b - a + 1)" b n] assms by auto
  moreover have "(b - int (nat (b - a + 1)) < j - k \<and> j - k \<le> b) = (a \<le> j - k \<and> j - k \<le> b)" for j
    using assms(4) by auto
  ultimately show ?thesis using True by (auto simp: guac_terminal_buffer_copy_rows_def)
next
  case False
  obtain buf' where "copy_rows_loop (nat (b - a + 1)) buf a 1 k = Inr buf'" "buffer_ok buf'"
    "\<forall>j. 0 \<le> j \<and> j < n \<longrightarrow> ring_cells buf' j = ring_cells buf (if a \<le> j - k \<and> j - k < a + int (nat (b - a + 1)) then j - k else j)"
    using copy_rows_up [OF assms(1), of k a "nat (b - a + 1)" n] assms False by auto
  moreover have "(a \<le> j - k \<and> j - k < a + int (nat (b - a + 1))) = (a \<le> j - k \<and> j - k \<le> b)" for j
    using assms(4) by auto
  ultimately show ?thesis using False by (auto simp: guac_terminal_buffer_copy_rows_def)
qed

section \<open>The cursor highlight\<close>

lemma row_set_cursor_ok:
  assumes "row_ok row" "plain d" "column \<le> 1023"
  shows "\<exists>row'. row_set_cursor d (int column) b (blen, row) = Inr (blen, row') \<and> row_ok row'"
proof -
  obtain row1 where x: "guac_terminal_buffer_row_expand row (int column + 1) d = Inr row1" "row_ok row1"
    "row_length row1 = max (row_length row) (nat (int column + 1))"
    by (rule row_expand_ok [OF assms(1,2), of "int column + 1"]) (use assms(3) in auto)
  define c where "c = characters row1 ! column"
  define c' where "c' = c\<lparr>char_attributes := (char_attributes c)\<lparr>attr_cursor := b\<rparr>\<rparr>"
  have l: "column < row_length row1" "row_length row1 \<le> length (characters row1)" using x(2,3) by (auto simp: row_ok_def)
  have same: "char_value c' = char_value c" "char_width c' = char_width c" by (simp_all add: c'_def)
  have wf: "wf_cells cs \<Longrightarrow> i < length cs \<Longrightarrow> char_value x = char_value (cs ! i) \<Longrightarrow> char_width x = char_width (cs ! i) \<Longrightarrow>
      wf_cells (cs[i := x])" for cs i x
  proof (induction cs arbitrary: i rule: wf_cells_induct)
    case (block c ks rest)
    consider "i = 0" | j where "i = Suc j" "j < length ks" | j where "i = Suc j" "length ks \<le> j"
      by (cases i; metis not_less)
    then show ?case
    proof cases
      case 1
      then show ?thesis using block wf_cells_block [of x ks rest] by simp
    next
      case 2
      then have "conts (ks[j := x])" using block(2,7) by (auto simp: nth_append dest!: set_update_subset_insert [THEN subsetD])
      then show ?thesis using 2 block wf_cells_block [of c "ks[j := x]" rest] by (simp add: list_update_append)
    next
      case 3
      then have "wf_cells (rest[j - length ks := x])" using block(5) [of "j - length ks"] block(6-8) by (simp add: nth_append)
      then show ?thesis using 3 block(1-3) wf_cells_block [of c ks "rest[j - length ks := x]"] by (simp add: list_update_append)
    qed
  qed simp
  have "wf_cells ((row_cells row1)[column := c'])"
    using wf [of "row_cells row1" column c'] x(2) l same by (simp add: row_ok_def c_def)
  moreover have "take (row_length row1) ((characters row1)[column := c']) = (row_cells row1)[column := c']"
    by (simp add: take_update_swap)
  ultimately have "row_ok (row1\<lparr>characters := (characters row1)[column := c']\<rparr>)"
    using x(2) l by (simp add: row_ok_def)
  moreover have "row_set_cursor d (int column) b (blen, row) = Inr (blen, row1\<lparr>characters := (characters row1)[column := c']\<rparr>)"
  proof -
    have "0 \<le> int column" "int column \<le> 1024 - 1" "u32_of (int column + 1) = Suc column" using assms(3) by simp_all
    then show ?thesis
      unfolding row_set_cursor_def term_constants snd_conv fst_conv
      using x(1) l(1) by (simp only: fit_to_range_id bindr_simps) (simp add: c'_def c_def Let_def)
  qed
  ultimately show ?thesis by blast
qed

section \<open>Failures\<close>

text \<open>
  Copying columns to the left in a row that is too short: the range check of the code gets an empty
  range, and the assertion in it aborts the process.
\<close>

lemma row_copy_columns_aborts:
  assumes "row_ok row" "plain d" "k < 0" "0 \<le> e + k + 1" "e + k + 1 \<le> 1024" "e + k + 1 \<le> - k"
    "int (row_length row) \<le> - k"
  shows "row_copy_columns d r s e k (blen, row) = Inl Abort"
proof -
  have i: "in_int (e + k + 1)" using assms(4,5) by (simp add: in_int_bounds)
  obtain row1 where x: "guac_terminal_buffer_row_expand row (e + k + 1) d = Inr row1" "row_ok row1"
    "row_length row1 = max (row_length row) (nat (e + k + 1))"
    by (rule row_expand_ok [OF assms(1,2,4,5)])
  have l: "int (row_length row1) \<le> - k" "row_length row1 \<le> 1024" using x(2,3) assms(4,6,7) by (auto simp: row_ok_def)
  have w: "wrap32 (int (row_length row1) - 1) = int (row_length row1) - 1" using l(2) by (simp add: in_int_bounds)
  have "u32_of (e + k + 1) \<le> row_length row1" using x(3) assms(4,5) by simp
  moreover have "\<not> - k \<le> int (row_length row1) - 1" using l(1) by simp
  ultimately show ?thesis
    unfolding row_copy_columns_def snd_conv wrap32_id [OF i] x(1) bindr_simps Let_def w
    using assms(3) by (simp add: guac_terminal_fit_to_range_def)
qed

text \<open>Writing columns that start past the allocated cells: the break before them reads out of bounds.\<close>

lemma row_set_columns_undefined:
  assumes "valid_row r" "row_ok row" "1 \<le> char_width c" "e + 1 \<le> row_length row" "length (characters row) < s" "s \<le> 1023"
  shows "row_set_columns BUFFER_FUEL d r (int s) (int e) c (blen, row) = Inl Undefined"
proof -
  have f: "BUFFER_FUEL = Suc (Suc 4998)" by (simp add: BUFFER_FUEL_def)
  have rl: "row_length row \<le> 1024" "row_length row \<le> length (characters row)" using assms(2) by (simp_all add: row_ok_def)
  have i: "0 \<le> int s" "int s \<le> 1024 - 1" "0 \<le> int e" "int e \<le> 1024 - 1" "0 \<le> int e + 1" "int e + 1 \<le> int (row_length row)"
    "int e + 1 \<le> 1024" "nat (int e - int s + 1) = 0" "u32_of (int e + 1) \<le> row_length row"
    using assms(4-6) rl by simp_all
  have bl: "broken_left row' (int s) = Inl Undefined" if "length (characters row') = length (characters row)" for row'
  proof -
    have "\<not> nat (int s - 1) < length (characters row')" "int s > 0" using assms(5) that by linarith+
    then show ?thesis by (simp add: broken_left_def Let_def)
  qed
  have n: "(4999 :: nat) = Suc 4998" by simp
  have fb: "row_force_break 4999 d r (int s) (x, row) = Inl Undefined" for x
    by (simp only: n row_force_break.simps snd_conv bl bindr_simps)
  show ?thesis
    unfolding f
    using i assms(1,3) by (simp only: row_set_columns.simps(2) term_constants fit_to_range_id row_expand_id bindr_simps)
      (simp add: valid_row_def fb)
qed

section \<open>Properties\<close>

text \<open>A character for the witnesses.\<close>

definition example_char :: "int \<Rightarrow> int \<Rightarrow> guac_terminal_char" where
  "example_char v w =
     (let black = \<lparr>palette_index = 0, color_red = 0, color_green = 0, color_blue = 0\<rparr> in
      \<lparr>char_value = v,
       char_attributes = \<lparr>attr_bold = False, attr_half_bright = False, attr_cursor = False, attr_reverse = False,
          attr_underscore = False, attr_foreground = black, attr_background = black\<rparr>,
       char_width = w\<rparr>)"

lemma example_char_simps [simp]: "char_value (example_char v w) = v" "char_width (example_char v w) = w"
  by (simp_all add: example_char_def Let_def)

lemma example_buffer: "buffer_ok (guac_terminal_buffer_alloc junk 1024 (example_char 0 1))"
  by (rule buffer_ok_alloc) (simp_all add: GUAC_CHAR_CONTINUATION_def)

text \<open>
  C32. Writing columns \<open>s\<close> to \<open>e\<close> of a row with a character of any width always returns. It writes as many
  copies as fit and blanks for the rest; every character it does not overlap stays, cells change
  outside the written columns only where a character was cut, to blanks; and all rows remain
  sequences of complete characters.
\<close>

theorem terminal_set_columns_correct:
  assumes "buffer_ok buf" "1024 \<le> length (buffer_rows buf)" "valid_row r" "\<not> continuation c" "1 \<le> char_width c" "s \<le> e" "e \<le> 1023"
  shows "\<exists>buf'. guac_terminal_buffer_set_columns buf r (int s) (int e) c = Inr buf' \<and> buffer_ok buf' \<and>
    row_changed buf r buf' (\<lambda>old new. row_length new = max (row_length old) (e + 1) \<and> wrapped_row new = wrapped_row old \<and>
      columns_written s e c (row_cells old @ replicate (row_length new - row_length old) (default_character buf)) (row_cells new))"
  by (rule set_columns_ok [OF assms])

theorem terminal_set_columns_correct_witness:
  "\<exists>buf'. guac_terminal_buffer_set_columns (guac_terminal_buffer_alloc (example_char 7 7) 1024 (example_char 0 1)) 5
     (int 10) (int 14) (example_char 19968 2) = Inr buf' \<and> buffer_ok buf'"
  using terminal_set_columns_correct [OF example_buffer [of "example_char 7 7"], of 5 "example_char 19968 2" 10 14]
  by (auto simp: guac_terminal_buffer_alloc_def valid_row_def GUAC_CHAR_CONTINUATION_def)

text \<open>
  Copying columns within a row (to the left only from cells the row has) and copying rows return,
  keep all rows sequences of complete characters, and copy: a copied column appears at its
  destination unless it belonged to a character cut at the edge of the region, and after copying rows
  every row of the window holds the old cells of its source, whatever the overlap.
\<close>

theorem terminal_copy_correct:
  assumes "buffer_ok buf" "1024 \<le> length (buffer_rows buf)"
  shows "(valid_row r \<and> s \<le> e \<and> e \<le> 1023 \<and> t + (e - s) \<le> 1023 \<and>
      (s \<le> t \<or> (\<exists>row. ring_row buf r = Some row \<and> e < row_length row)) \<longrightarrow>
     (\<exists>buf'. guac_terminal_buffer_copy_columns buf r (int s) (int e) (int t - int s) = Inr buf' \<and> buffer_ok buf' \<and>
      row_changed buf r buf' (\<lambda>old new. row_length new = max (row_length old) (t + (e - s) + 1) \<and> wrapped_row new = wrapped_row old \<and>
        columns_copied s e t (row_cells old @ replicate (row_length new - row_length old) (default_character buf)) (row_cells new)))) \<and>
    (0 \<le> a \<and> a \<le> b + 1 \<and> b < 1024 \<and> 0 \<le> a + k \<and> b + k < 1024 \<longrightarrow>
     (\<exists>buf'. guac_terminal_buffer_copy_rows buf a b k = Inr buf' \<and> buffer_ok buf' \<and>
      (\<forall>j. 0 \<le> j \<and> j < 1024 \<longrightarrow> ring_cells buf' j = ring_cells buf (if a \<le> j - k \<and> j - k \<le> b then j - k else j))))"
proof (intro conjI impI)
  assume h: "valid_row r \<and> s \<le> e \<and> e \<le> 1023 \<and> t + (e - s) \<le> 1023 \<and> (s \<le> t \<or> (\<exists>row. ring_row buf r = Some row \<and> e < row_length row))"
  then have "valid_row r" "s \<le> e" "e \<le> 1023" "t + (e - s) \<le> 1023" "t < s \<Longrightarrow> \<exists>row. ring_row buf r = Some row \<and> e < row_length row"
    by auto
  then show "\<exists>buf'. guac_terminal_buffer_copy_columns buf r (int s) (int e) (int t - int s) = Inr buf' \<and> buffer_ok buf' \<and>
      row_changed buf r buf' (\<lambda>old new. row_length new = max (row_length old) (t + (e - s) + 1) \<and> wrapped_row new = wrapped_row old \<and>
        columns_copied s e t (row_cells old @ replicate (row_length new - row_length old) (default_character buf)) (row_cells new))"
    by (rule copy_columns_ok [OF assms])
next
  assume h: "0 \<le> a \<and> a \<le> b + 1 \<and> b < 1024 \<and> 0 \<le> a + k \<and> b + k < 1024"
  obtain buf' where b: "guac_terminal_buffer_copy_rows buf a b k = Inr buf'" "buffer_ok buf'"
    "\<forall>j. 0 \<le> j \<and> j < int (length (buffer_rows buf)) \<longrightarrow>
      ring_cells buf' j = ring_cells buf (if a \<le> j - k \<and> j - k \<le> b then j - k else j)"
    using copy_rows_ok [OF assms(1) refl, of a b k] h assms(2) by auto
  have "\<forall>j. 0 \<le> j \<and> j < 1024 \<longrightarrow> ring_cells buf' j = ring_cells buf (if a \<le> j - k \<and> j - k \<le> b then j - k else j)"
    using b(3) assms(2) by simp
  then show "\<exists>buf'. guac_terminal_buffer_copy_rows buf a b k = Inr buf' \<and> buffer_ok buf' \<and>
      (\<forall>j. 0 \<le> j \<and> j < 1024 \<longrightarrow> ring_cells buf' j = ring_cells buf (if a \<le> j - k \<and> j - k \<le> b then j - k else j))"
    using b(1,2) by blast
qed

theorem terminal_copy_correct_witness:
  "\<exists>buf'. guac_terminal_buffer_copy_rows (guac_terminal_buffer_alloc (example_char 7 7) 1024 (example_char 0 1)) 3 20 2 = Inr buf' \<and>
     buffer_ok buf' \<and>
     (\<forall>j. 0 \<le> j \<and> j < 1024 \<longrightarrow> ring_cells buf' j =
        ring_cells (guac_terminal_buffer_alloc (example_char 7 7) 1024 (example_char 0 1)) (if 3 \<le> j - 2 \<and> j - 2 \<le> 20 then j - 2 else j))"
  using terminal_copy_correct [OF example_buffer [of "example_char 7 7"], where a = 3 and b = 20 and k = 2]
  by (simp add: guac_terminal_buffer_alloc_def [of _ 1024])

text \<open>
  The ring behaves as an array of rows that scrolling shifts, exactly when its number of rows
  divides \<open>2 ^ 32\<close>: then scrolling up or down moves every row, scrollback included, by the amount;
  and conversely the row above the display of a ring that has just come round to its first slot is
  the last slot only for such numbers.
\<close>

theorem terminal_ring_shift:
  assumes "buffer_ok buf" "1 < length (buffer_rows buf)"
  shows "(int (length (buffer_rows buf)) dvd 2 ^ 32 \<longrightarrow> 0 < a \<longrightarrow> a < 2 ^ 30 \<longrightarrow> \<bar>r\<bar> < int (length (buffer_rows buf)) \<longrightarrow>
      (\<bar>r + a\<bar> < int (length (buffer_rows buf)) \<longrightarrow>
         ring_row (guac_terminal_buffer_scroll_up buf a) r = ring_row buf (r + a)) \<and>
      (\<bar>r - a\<bar> < int (length (buffer_rows buf)) \<longrightarrow>
         ring_row (guac_terminal_buffer_scroll_down buf a) r = ring_row buf (r - a))) \<and>
    (buffer_top buf = 0 \<longrightarrow>
      (guac_terminal_buffer_get_row buf (-1) = Some (length (buffer_rows buf) - 1)) =
      (int (length (buffer_rows buf)) dvd 2 ^ 32))"
proof (intro conjI impI)
  assume "int (length (buffer_rows buf)) dvd 2 ^ 32" "0 < a" "a < 2 ^ 30" "\<bar>r\<bar> < int (length (buffer_rows buf))"
  then have h: "int (length (buffer_rows buf)) dvd 4294967296" "0 < a" "a < 1073741824" "\<bar>r\<bar> < int (length (buffer_rows buf))" by simp_all
  show "\<bar>r + a\<bar> < int (length (buffer_rows buf)) \<Longrightarrow> ring_row (guac_terminal_buffer_scroll_up buf a) r = ring_row buf (r + a)"
    "\<bar>r - a\<bar> < int (length (buffer_rows buf)) \<Longrightarrow> ring_row (guac_terminal_buffer_scroll_down buf a) r = ring_row buf (r - a)"
    using ring_scroll(1,2) [OF assms(1) h] by blast+
next
  assume top: "buffer_top buf = 0"
  define n where "n = length (buffer_rows buf)"
  have n: "1 < n" "int n \<le> 1073741824" using assms by (simp_all add: n_def buffer_ok_def)
  have "guac_terminal_buffer_get_row buf (-1) = Some (4294967295 mod n)"
    using n by (simp add: guac_terminal_buffer_get_row_def top u32_of_def flip: n_def)
  moreover have "4294967295 mod n = n - 1 \<longleftrightarrow> int n dvd 4294967296"
  proof -
    have suc: "Suc 4294967295 = 4294967296" by simp
    have "int n dvd 4294967296 \<longleftrightarrow> n dvd Suc 4294967295"
      unfolding suc using int_dvd_int_iff [of n 4294967296] by simp
    also have "\<dots> \<longleftrightarrow> Suc 4294967295 mod n = 0" by (rule dvd_eq_mod_eq_0)
    also have "\<dots> \<longleftrightarrow> 4294967295 mod n = n - 1" using n(1) unfolding mod_Suc by auto
    finally show ?thesis by simp
  qed
  ultimately show "(guac_terminal_buffer_get_row buf (-1) = Some (length (buffer_rows buf) - 1)) =
      (int (length (buffer_rows buf)) dvd 2 ^ 32)" by (simp flip: n_def)
qed

theorem terminal_ring_shift_witness:
  "ring_row (guac_terminal_buffer_scroll_up (guac_terminal_buffer_alloc (example_char 7 7) 1024 (example_char 0 1)) 24) (-24) =
     ring_row (guac_terminal_buffer_alloc (example_char 7 7) 1024 (example_char 0 1)) 0"
  using terminal_ring_shift [OF example_buffer [of "example_char 7 7"], of 24 "-24"]
  by (simp add: guac_terminal_buffer_alloc_def [of _ 1024])

text \<open>
  Two operations that a remote program can request go wrong on rows shorter than the screen, which
  exist after the terminal has been resized: copying columns to the left by at least the length of
  the row aborts the process, and writing from a column past the allocated cells reads out of bounds.
\<close>

theorem terminal_short_row_faults:
  assumes "buffer_ok buf" "guac_terminal_buffer_get_row buf r = Some i" "i < length (buffer_rows buf)" "valid_row r"
  shows "(k < 0 \<and> 0 \<le> e + k + 1 \<and> e + k + 1 \<le> min 1024 (- k) \<and> int (row_length (buffer_rows buf ! i)) \<le> - k \<longrightarrow>
      guac_terminal_buffer_copy_columns buf r s e k = Inl Abort) \<and>
    (1 \<le> char_width c \<and> n + 1 \<le> row_length (buffer_rows buf ! i) \<and> length (characters (buffer_rows buf ! i)) < m \<and> m \<le> 1023 \<longrightarrow>
      guac_terminal_buffer_set_columns buf r (int m) (int n) c = Inl Undefined)"
proof -
  have ok: "row_ok (buffer_rows buf ! i)" "plain (default_character buf)" using assms by (simp_all add: buffer_ok_def)
  show ?thesis
    using row_copy_columns_aborts [OF ok, of k e r s "buffer_length buf"]
      row_set_columns_undefined [OF assms(4) ok(1), of c n m "default_character buf" "buffer_length buf"] assms(2)
    by (simp add: guac_terminal_buffer_copy_columns_def guac_terminal_buffer_set_columns_def on_row_def)
qed

theorem terminal_short_row_faults_witness:
  "guac_terminal_buffer_copy_columns (guac_terminal_buffer_alloc (example_char 7 7) 1024 (example_char 0 1)) 30 50 79 (-50) = Inl Abort"
  using terminal_short_row_faults [OF example_buffer [of "example_char 7 7"], of 30 30 "-50" 79 50]
  by (simp add: guac_terminal_buffer_alloc_def guac_terminal_buffer_get_row_def valid_row_def)

end
