(* ===== verification/TermText.thy ===== *)
theory TermText
  imports TermResize TermOps
begin

text \<open>
  What text written to the terminal does: characters of one column appear one after the other, a
  terminal can always be created, and a wide character written under the visible cursor is lost.
\<close>

section \<open>Writing one cell\<close>

lemma wf_after_single:
  assumes "wf_cells cs" "Suc i < length cs" "\<not> continuation (cs ! i)" "char_width (cs ! i) = 1"
  shows "\<not> continuation (cs ! Suc i)"
  using assms
proof (induction cs arbitrary: i rule: wf_cells_induct)
  case Nil
  then show ?case by simp
next
  case (block c ks rest)
  show ?case
  proof (cases i)
    case 0
    then have "ks = []" using block(3,8) by simp
    then show ?thesis using 0 block(4,6) wf_no_leading_cont(1) [OF block(4)] by (cases rest) auto
  next
    case (Suc j)
    have "\<not> j < length ks"
    proof
      assume "j < length ks"
      then show False using block(2,7) Suc by (auto simp: nth_append)
    qed
    then show ?thesis using block(5) [of "j - length ks"] block(6-8) Suc by (auto simp: nth_append Suc_diff_le)
  qed
qed

text \<open>
  A cell has been written: the row keeps the cells to the left unless the cell was the second half of
  a wide character, and the other rows of the window are the same.
\<close>

definition cell_written :: "nat \<Rightarrow> guac_terminal_char \<Rightarrow> guac_terminal_buffer_row \<Rightarrow> guac_terminal_buffer_row \<Rightarrow> bool" where
  "cell_written s c old new \<longleftrightarrow>
     s < row_length new \<and> row_length old \<le> row_length new \<and> row_cells new ! s = c \<and>
     ((s < row_length old \<longrightarrow> \<not> continuation (row_cells old ! s)) \<longrightarrow>
        (\<forall>k < s. k < row_length old \<longrightarrow> row_cells new ! k = row_cells old ! k))"

lemma buffer_write_cell:
  assumes "buffer_ok buf" "1024 \<le> length (buffer_rows buf)" "0 \<le> r" "r < 1024" "plain c" "s \<le> 1023"
  obtains buf' old new where "guac_terminal_buffer_set_columns buf r (int s) (int s) c = Inr buf'" "buffer_ok buf'"
    "length (buffer_rows buf') = length (buffer_rows buf)" "ring_row buf r = Some old" "ring_row buf' r = Some new"
    "row_ok old" "row_ok new" "cell_written s c old new"
    "\<forall>j. 0 \<le> j \<and> j < 1024 \<and> j \<noteq> r \<longrightarrow> ring_row buf' j = ring_row buf j"
    "default_character buf' = default_character buf"
proof -
  have vr: "valid_row r" using assms(3,4) by (simp add: valid_row_def)
  have width: "1 \<le> char_width c" using assms(5) by simp
  obtain buf' where b: "guac_terminal_buffer_set_columns buf r (int s) (int s) c = Inr buf'" "buffer_ok buf'"
    and changed: "row_changed buf r buf' (\<lambda>old new. row_length new = max (row_length old) (s + 1) \<and> wrapped_row new = wrapped_row old \<and>
      columns_written s s c (row_cells old @ replicate (row_length new - row_length old) (default_character buf)) (row_cells new))"
    using set_columns_ok [OF assms(1,2) vr conjunct1 [OF assms(5)] width order_refl assms(6)] by (elim exE conjE) (rule that)
  obtain i new where i: "guac_terminal_buffer_get_row buf r = Some i"
    and new: "row_length new = max (row_length (buffer_rows buf ! i)) (s + 1)"
      "columns_written s s c (row_cells (buffer_rows buf ! i) @
          replicate (row_length new - row_length (buffer_rows buf ! i)) (default_character buf)) (row_cells new)"
    and rows: "buffer_rows buf' = (buffer_rows buf)[i := new]" "buffer_top buf' = buffer_top buf"
      "default_character buf' = default_character buf"
    using changed unfolding row_changed_def by blast
  define old where "old = buffer_rows buf ! i"
  have il: "i < length (buffer_rows buf)" using get_row_range [OF i] assms(1) by (simp add: buffer_ok_def)
  have same: "guac_terminal_buffer_get_row buf' j = guac_terminal_buffer_get_row buf j" for j
    by (rule get_row_same) (simp_all add: rows)
  have o: "row_ok old" using buffer_ok_row [OF assms(1) il] by (simp add: old_def)
  have nw: "row_ok new" using buffer_ok_row [OF b(2), of i] rows(1) il by simp
  define L where "L = row_cells old @ replicate (row_length new - row_length old) (default_character buf)"
  have lo: "length (row_cells old) = row_length old" using o by (simp add: row_ok_def)
  have cw: "columns_written s s c L (row_cells new)" using new(2) by (simp add: L_def old_def)
  have at: "row_cells new ! s = c" using cw assms(5) by (simp add: columns_written_def)
  have left: "take s (row_cells new) = take s L" if "\<not> continuation (L ! s)"
    using cw that by (simp add: columns_written_def Let_def)
  have "cell_written s c old new"
    unfolding cell_written_def
  proof (intro conjI impI allI)
    show "s < row_length new" "row_length old \<le> row_length new" using new(1) by (simp_all add: old_def)
    show "row_cells new ! s = c" by (rule at)
    fix k assume h: "s < row_length old \<longrightarrow> \<not> continuation (row_cells old ! s)" "k < s" "k < row_length old"
    have "\<not> continuation (L ! s)"
    proof (cases "s < row_length old")
      case True
      then show ?thesis using h(1) lo by (simp add: L_def nth_append)
    next
      case False
      then have "L ! s = default_character buf" using lo new(1) by (simp add: L_def nth_append old_def)
      then show ?thesis using assms(1) by (simp add: buffer_ok_def)
    qed
    from left [OF this] have "take s (row_cells new) ! k = take s L ! k" by (rule arg_cong)
    then have "row_cells new ! k = L ! k" by (simp only: nth_take [OF h(2)])
    also have "\<dots> = row_cells old ! k" using h(3) lo unfolding L_def by (simp only: nth_append if_True)
    finally show "row_cells new ! k = row_cells old ! k" .
  qed
  moreover have "ring_row buf' j = ring_row buf j" if j: "0 \<le> j" "j < 1024" "j \<noteq> r" for j
  proof -
    have "guac_terminal_buffer_get_row buf j \<noteq> Some i"
      using get_row_inj [OF assms(1) i, of j] assms(2-4) j by auto
    then show ?thesis
      by (cases "guac_terminal_buffer_get_row buf j") (auto simp: ring_row_def same rows(1))
  qed
  ultimately show thesis
    using that [of buf' old new] b i o nw rows same il by (auto simp: ring_row_def old_def)
qed

section \<open>Writing one cell of the terminal\<close>

definition buffers_ok :: "guac_terminal \<Rightarrow> bool" where
  "buffers_ok t \<longleftrightarrow>
     buffer_ok (normal_buffer t) \<and> 1024 \<le> length (buffer_rows (normal_buffer t)) \<and>
     buffer_ok (alternate_buffer t) \<and> 1024 \<le> length (buffer_rows (alternate_buffer t))"

lemma buffers_ok_current: "buffers_ok t \<Longrightarrow> buffer_ok (current_buffer t)" "buffers_ok t \<Longrightarrow> 1024 \<le> length (buffer_rows (current_buffer t))"
  by (simp_all add: buffers_ok_def current_buffer_def)

lemma current_set_current [simp]: "current_buffer (set_current_buffer b t) = b"
  by (simp add: current_buffer_def set_current_buffer_def)

lemma select_touch_buffers [simp]:
  "current_buffer (guac_terminal_select_touch a b c d t) = current_buffer t"
  "buffers_ok (guac_terminal_select_touch a b c d t) = buffers_ok t"
  "visible_cursor_row (guac_terminal_select_touch a b c d t) = visible_cursor_row t"
  "visible_cursor_col (guac_terminal_select_touch a b c d t) = visible_cursor_col t"
  by (simp_all add: guac_terminal_select_touch_def current_buffer_def buffers_ok_def)

lemma set_current_buffers_ok: "buffers_ok t \<Longrightarrow> buffer_ok b \<Longrightarrow> 1024 \<le> length (buffer_rows b) \<Longrightarrow> buffers_ok (set_current_buffer b t)"
  by (simp add: buffers_ok_def set_current_buffer_def)

text \<open>Two steps of writing the same cell compose.\<close>

lemma cell_written_trans:
  assumes "cell_written s c a b" "cell_written s c' b d" "\<not> continuation c"
  shows "cell_written s c' a d"
  using assms by (auto simp: cell_written_def)

lemma everywhere_cell:
  assumes "display_ok (display t)" "1 \<le> display_width (display t)" "buffers_ok t" "0 \<le> r" "r < 1024" "plain c" "s \<le> 1023"
  obtains t' old new where "set_columns_everywhere r (int s) (int s) c t = Inr t'" "buffers_ok t'" "screen_only t t'"
    "ring_row (current_buffer t) r = Some old" "ring_row (current_buffer t') r = Some new" "row_ok old" "row_ok new"
    "cell_written s c old new" "\<forall>j. 0 \<le> j \<and> j < 1024 \<and> j \<noteq> r \<longrightarrow> ring_row (current_buffer t') j = ring_row (current_buffer t) j"
    "visible_cursor_row t' = visible_cursor_row t" "visible_cursor_col t' = visible_cursor_col t"
proof -
  obtain d where d: "guac_terminal_display_set_columns (display t) (r + scroll_offset t) (int s) (int s) c = Inr d"
    using display_set_columns_ok [OF assms(1,2), of c "r + scroll_offset t" "int s" "int s"] assms(6) by auto
  obtain buf' old new where b: "guac_terminal_buffer_set_columns (current_buffer t) r (int s) (int s) c = Inr buf'" "buffer_ok buf'"
    "length (buffer_rows buf') = length (buffer_rows (current_buffer t))" "ring_row (current_buffer t) r = Some old"
    "ring_row buf' r = Some new" "row_ok old" "row_ok new" "cell_written s c old new"
    "\<forall>j. 0 \<le> j \<and> j < 1024 \<and> j \<noteq> r \<longrightarrow> ring_row buf' j = ring_row (current_buffer t) j"
    using buffer_write_cell [OF buffers_ok_current [OF assms(3)] assms(4-7)] by metis
  define t' where "t' = guac_terminal_select_touch r (int s) r (int s) (set_current_buffer buf' (t\<lparr>display := d\<rparr>))"
  have run: "set_columns_everywhere r (int s) (int s) c t = Inr t'"
    by (simp add: set_columns_everywhere_def d b(1) t'_def)
  have bo: "buffers_ok (t\<lparr>display := d\<rparr>)" using assms(3) by (simp add: buffers_ok_def)
  have cur: "current_buffer t' = buf'" by (simp add: t'_def)
  have vis: "visible_cursor_row t' = visible_cursor_row t" "visible_cursor_col t' = visible_cursor_col t"
    by (simp_all add: t'_def) (simp_all add: set_current_buffer_def)
  have "buffers_ok t'"
    unfolding t'_def select_touch_buffers using set_current_buffers_ok [OF bo b(2)] b(3) buffers_ok_current(2) [OF assms(3)] by simp
  then show thesis
    by (rule that [OF run _ set_columns_everywhere_screen [OF run] b(4) _ b(6-8)]) (simp_all add: cur b(5,9) vis)
qed

text \<open>A cell shows a codepoint with the given attributes, highlighted or not.\<close>

definition cell_shows :: "int \<Rightarrow> guac_terminal_attributes \<Rightarrow> guac_terminal_char \<Rightarrow> bool" where
  "cell_shows cp a c \<longleftrightarrow> char_value c = cp \<and> char_width c = 1 \<and>
     (\<exists>b. char_attributes c = a\<lparr>attr_cursor := b\<rparr>)"

lemma set_cell:
  assumes "display_ok (display t)" "1 \<le> display_width (display t)" "buffers_ok t" "0 \<le> r" "r < 1024" "s \<le> 1023"
    and "cp \<noteq> GUAC_CHAR_CONTINUATION" "wcw cp = 1"
  obtains t' c old new where "guac_terminal_set wcw r (int s) cp t = Inr t'" "buffers_ok t'" "screen_only t t'"
    "cell_shows cp (current_attributes t) c"
    "ring_row (current_buffer t) r = Some old" "ring_row (current_buffer t') r = Some new" "row_ok old" "row_ok new"
    "cell_written s c old new" "\<forall>j. 0 \<le> j \<and> j < 1024 \<and> j \<noteq> r \<longrightarrow> ring_row (current_buffer t') j = ring_row (current_buffer t) j"
proof -
  define c where "c = \<lparr>char_value = cp, char_attributes = current_attributes t, char_width = 1\<rparr>"
  define c' where "c' = c\<lparr>char_attributes := (char_attributes c)\<lparr>attr_cursor := True\<rparr>\<rparr>"
  have pc: "plain c" "plain c'" using assms(7) by (simp_all add: c_def c'_def)
  have sc: "cell_shows cp (current_attributes t) c" "cell_shows cp (current_attributes t) c'"
    by (auto simp: cell_shows_def c_def c'_def intro: exI [of _ "attr_cursor (current_attributes t)"])
  have run: "guac_terminal_set wcw r (int s) cp t = guac_terminal_set_columns r (int s) (int s) c t"
    using assms(8) by (simp add: guac_terminal_set_def Let_def c_def)
  obtain u old new where u: "set_columns_everywhere r (int s) (int s) c t = Inr u" "buffers_ok u" "screen_only t u"
    "ring_row (current_buffer t) r = Some old" "ring_row (current_buffer u) r = Some new" "row_ok old" "row_ok new"
    "cell_written s c old new" "\<forall>j. 0 \<le> j \<and> j < 1024 \<and> j \<noteq> r \<longrightarrow> ring_row (current_buffer u) j = ring_row (current_buffer t) j"
    "visible_cursor_row u = visible_cursor_row t" "visible_cursor_col u = visible_cursor_col t"
    by (rule everywhere_cell [OF assms(1-5) pc(1) assms(6)])
  show thesis
  proof (cases "r = visible_cursor_row u \<and> visible_cursor_col u \<ge> int s \<and> visible_cursor_col u \<le> int s")
    case False
    have "guac_terminal_set_columns r (int s) (int s) c t = Inr u"
      unfolding guac_terminal_set_columns_def u(1) bindr_simps if_not_P [OF False] by (rule refl)
    then show thesis using that [OF _ u(2,3) sc(1) u(4-9)] run by simp
  next
    case True
    then have v: "visible_cursor_col u = int s" by simp
    have dis: "display_ok (display u)" "1 \<le> display_width (display u)"
      using u(3) assms(1,2) by (simp_all add: screen_only_def same_size_def)
    obtain w old' new' where w: "set_columns_everywhere r (int s) (int s) c' u = Inr w" "buffers_ok w" "screen_only u w"
      "ring_row (current_buffer u) r = Some old'" "ring_row (current_buffer w) r = Some new'" "row_ok old'" "row_ok new'"
      "cell_written s c' old' new'" "\<forall>j. 0 \<le> j \<and> j < 1024 \<and> j \<noteq> r \<longrightarrow> ring_row (current_buffer w) j = ring_row (current_buffer u) j"
      by (rule everywhere_cell [OF dis u(2) assms(4,5) pc(2) assms(6)])
    have e: "old' = new" using w(4) u(5) by simp
    have "cell_written s c' old new'"
      using cell_written_trans [OF u(8)] w(8) pc(1) unfolding e by blast
    moreover have "guac_terminal_set_columns r (int s) (int s) c t = Inr w"
      unfolding guac_terminal_set_columns_def u(1) bindr_simps if_P [OF True]
      unfolding v c'_def [symmetric] by (rule w(1))
    moreover have "screen_only t w" using u(3) w(3) by (rule screen_only_trans)
    ultimately show thesis
      using that [of w c' old new'] run w(2,5,7,9) sc(2) u(4,6,9) by simp
  qed
qed

section \<open>Text\<close>

text \<open>
  A state in which text is printed: the terminal is idle and at the place where the text that began in
  row \<open>r\<close> and column \<open>k\<close> goes on; \<open>s\<close> has been printed since \<open>t0\<close>.
\<close>

definition idle :: "guac_terminal \<Rightarrow> bool" where
  "idle t \<longleftrightarrow> handler t = Echo \<and> \<not> pipe_stream t \<and> char_mapping t = None \<and> \<not> insert_mode t"

definition printed :: "guac_terminal \<Rightarrow> bytes \<Rightarrow> guac_terminal \<Rightarrow> bool" where
  "printed t0 s t \<longleftrightarrow>
     cursor_row t = cursor_row t0 \<and> cursor_col t = cursor_col t0 + int (length s) \<and>
     term_width t = term_width t0 \<and> current_attributes t = current_attributes t0 \<and>
     (\<exists>row. ring_row (current_buffer t) (cursor_row t0) = Some row \<and> row_ok row \<and>
        (s \<noteq> [] \<longrightarrow> nat (cursor_col t0) + length s \<le> row_length row) \<and>
        (\<forall>k < length s. cell_shows (s ! k) (current_attributes t0) (row_cells row ! (nat (cursor_col t0) + k)))) \<and>
     (\<forall>j. 0 \<le> j \<and> j < 1024 \<and> j \<noteq> cursor_row t0 \<longrightarrow> ring_row (current_buffer t) j = ring_row (current_buffer t0) j)"

lemma more_fields:
  assumes "screen_only t t'"
  shows "current_attributes t' = current_attributes t" "idle t' = idle t"
proof -
  have e: "control t' = control t" using assms by (simp add: screen_only_def)
  have f: "current_attributes (control x) = current_attributes x" "idle (control x) = idle x" for x
    by (simp_all add: control_def idle_def char_mapping_def)
  show "current_attributes t' = current_attributes t" "idle t' = idle t"
    using arg_cong [OF e, of current_attributes] arg_cong [OF e, of idle] by (simp_all only: f)
qed

text \<open>One printable character.\<close>

lemma echo_printable:
  assumes "term_ok t" "buffers_ok t" "idle t" "0x20 \<le> c" "c < 0x7F" "wcw c = 1" "cursor_col t < term_width t"
  obtains u x old new where "guac_terminal_echo wcw c t = Inr (u\<lparr>cursor_col := cursor_col t + 1\<rparr>)"
    "term_ok u" "buffers_ok u" "idle u" "cursor_row u = cursor_row t" "term_width u = term_width t"
    "current_attributes u = current_attributes t"
    "cell_shows c (current_attributes t) x" "ring_row (current_buffer t) (cursor_row t) = Some old"
    "ring_row (current_buffer u) (cursor_row t) = Some new" "row_ok old" "row_ok new"
    "cell_written (nat (cursor_col t)) x old new"
    "\<forall>j. 0 \<le> j \<and> j < 1024 \<and> j \<noteq> cursor_row t \<longrightarrow> ring_row (current_buffer u) j = ring_row (current_buffer t) j"
proof -
  define t1 where "t1 = t\<lparr>echo_codepoint := c, echo_bytes_remaining := 0\<rparr>"
  note parts = term_ok_parts [OF assms(1)]
  have c: "c AND 0x80 = 0" "c AND 0x7F = c"
  proof -
    have e: "c = take_bit 7 c" using assms(4,5) by (simp add: take_bit_int_eq_self)
    then show "c AND 0x7F = c" by (simp add: take_bit_eq_mask mask_eq_exp_minus_1)
    have "take_bit 7 c AND push_bit 7 y = 0" for y
      by (rule bit_eqI) (auto simp: bit_and_iff bit_take_bit_iff bit_push_bit_iff)
    from this [of 1] show "c AND 0x80 = 0" using e by simp
  qed
  have "guac_terminal_echo wcw c t = echo_displayable wcw None c t1"
    using assms(3-5) c by (simp add: guac_terminal_echo_def idle_def echo_decode_def echo_codepoint_action_def t1_def)
  also have "\<dots> = bindr (guac_terminal_set wcw (cursor_row t) (cursor_col t) c t1)
      (\<lambda>u. Inr (u\<lparr>cursor_col := wrap32 (cursor_col u + 1)\<rparr>))"
  proof -
    have "t1\<lparr>echo_codepoint := c\<rparr> = t1" by (simp add: t1_def)
    moreover have "cursor_col t1 = cursor_col t" "cursor_row t1 = cursor_row t" "term_width t1 = term_width t" "insert_mode t1 = insert_mode t"
      by (simp_all add: t1_def)
    ultimately show ?thesis
      using assms(3,4,6,7) by (simp add: echo_displayable_def idle_def)
  qed
  finally have run: "guac_terminal_echo wcw c t = \<dots>" .
  have t1: "display t1 = display t" "buffers_ok t1" "current_attributes t1 = current_attributes t"
    "current_buffer t1 = current_buffer t" "term_ok t1" "idle t1"
    using assms(1-3) by (auto simp: t1_def buffers_ok_def current_buffer_def idle_def char_mapping_def split: if_splits)
  have d: "display_ok (display t1)" "1 \<le> display_width (display t1)" using assms(1) parts t1 by (simp_all add: term_ok_def)
  have nc: "c \<noteq> GUAC_CHAR_CONTINUATION" using assms(4) by (simp add: GUAC_CHAR_CONTINUATION_def)
  have r: "cursor_row t < 1024" "nat (cursor_col t) \<le> 1023" using parts assms(7) by linarith+
  obtain u x old new where u: "guac_terminal_set wcw (cursor_row t) (int (nat (cursor_col t))) c t1 = Inr u" "buffers_ok u" "screen_only t1 u"
    "cell_shows c (current_attributes t1) x"
    "ring_row (current_buffer t1) (cursor_row t) = Some old" "ring_row (current_buffer u) (cursor_row t) = Some new" "row_ok old" "row_ok new"
    "cell_written (nat (cursor_col t)) x old new"
    "\<forall>j. 0 \<le> j \<and> j < 1024 \<and> j \<noteq> cursor_row t \<longrightarrow> ring_row (current_buffer u) j = ring_row (current_buffer t1) j"
    by (rule set_cell [where wcw = wcw and cp = c, OF d t1(2) parts(5) r nc assms(6)])
  note f = screen_fields [OF u(3)] more_fields [OF u(3)]
  have "in_int (cursor_col t + 1)" using parts by (simp add: in_int_bounds)
  then have "guac_terminal_echo wcw c t = Inr (u\<lparr>cursor_col := cursor_col t + 1\<rparr>)"
    using run u(1) parts(7) f by (simp add: t1_def)
  then show thesis
    using that [of u x old new] term_ok_screen [OF u(3) t1(5)] u f t1 by (simp add: t1_def)
qed

lemma cell_shows_not_continuation: "cell_shows cp a x \<Longrightarrow> cp \<noteq> GUAC_CHAR_CONTINUATION \<Longrightarrow> \<not> continuation x"
  by (simp add: cell_shows_def)

lemma print_char:
  assumes p: "printed t0 s t" and ok: "term_ok t" "buffers_ok t" "idle t" and s: "\<forall>c \<in> set s. 0x20 \<le> c"
    and c: "0x20 \<le> c" "c < 0x7F" "wcw c = 1" and room: "cursor_col t0 + int (length s) < term_width t0" "0 \<le> cursor_col t0"
  obtains t' where "char_handler_step wcw junk c t = Inr t'" "printed t0 (s @ [c]) t'" "term_ok t'" "buffers_ok t'" "idle t'"
proof -
  have at: "cursor_row t = cursor_row t0" "cursor_col t = cursor_col t0 + int (length s)" "term_width t = term_width t0"
    "current_attributes t = current_attributes t0" using p by (simp_all add: printed_def)
  obtain u x old new where u: "guac_terminal_echo wcw c t = Inr (u\<lparr>cursor_col := cursor_col t + 1\<rparr>)"
    "term_ok u" "buffers_ok u" "idle u" "cursor_row u = cursor_row t" "term_width u = term_width t"
    "current_attributes u = current_attributes t"
    "cell_shows c (current_attributes t) x" "ring_row (current_buffer t) (cursor_row t) = Some old"
    "ring_row (current_buffer u) (cursor_row t) = Some new" "row_ok old" "row_ok new"
    "cell_written (nat (cursor_col t)) x old new"
    "\<forall>j. 0 \<le> j \<and> j < 1024 \<and> j \<noteq> cursor_row t \<longrightarrow> ring_row (current_buffer u) j = ring_row (current_buffer t) j"
    by (rule echo_printable [where wcw = wcw, OF ok c]) (use room at in simp_all)
  define t' where "t' = u\<lparr>cursor_col := cursor_col t + 1\<rparr>"
  define b n where "b = nat (cursor_col t0)" and "n = length s"
  have pos: "nat (cursor_col t) = b + n" using at(2) room(2) by (simp add: b_def n_def nat_add_distrib)
  have old: "s \<noteq> [] \<longrightarrow> b + n \<le> row_length old" "\<forall>k < n. cell_shows (s ! k) (current_attributes t0) (row_cells old ! (b + k))"
    using p u(9) at(1) by (auto simp: printed_def b_def n_def)
  have lo: "length (row_cells old) = row_length old" using u(11) by (simp add: row_ok_def)
  have uncut: "b + n < row_length old \<longrightarrow> \<not> continuation (row_cells old ! (b + n))" if ne: "s \<noteq> []"
  proof
    assume h: "b + n < row_length old"
    obtain m where m: "n = Suc m" using ne by (cases n) (auto simp: n_def)
    have shown: "cell_shows (s ! m) (current_attributes t0) (row_cells old ! (b + m))" using old(2) m by simp
    have "s ! m \<in> set s" using m by (simp add: n_def)
    then have "s ! m \<noteq> GUAC_CHAR_CONTINUATION" using s by (auto simp: GUAC_CHAR_CONTINUATION_def)
    then have "\<not> continuation (row_cells old ! (b + m))" "char_width (row_cells old ! (b + m)) = 1"
      using shown by (simp_all add: cell_shows_def)
    then show "\<not> continuation (row_cells old ! (b + n))"
      using wf_after_single [of "row_cells old" "b + m"] u(11) h lo m by (simp add: row_ok_def)
  qed
  have cells: "cell_shows ((s @ [c]) ! k) (current_attributes t0) (row_cells new ! (b + k))" if k: "k < Suc n" for k
  proof (cases "k = n")
    case True
    then have "row_cells new ! (b + k) = x" using u(13) pos by (simp add: cell_written_def)
    then show ?thesis using u(8) at(4) True by (simp add: n_def nth_append)
  next
    case False
    then have kn: "k < n" using k by simp
    then have "s \<noteq> []" by (auto simp: n_def)
    then have "row_cells new ! (b + k) = row_cells old ! (b + k)"
      using u(13) uncut old(1) kn unfolding pos cell_written_def by auto
    then show ?thesis using old(2) kn by (simp add: n_def nth_append)
  qed
  have long: "b + Suc n \<le> row_length new" using u(13) pos by (simp add: cell_written_def)
  have "printed t0 (s @ [c]) t'"
    using p u at cells long
    by (auto simp: printed_def t'_def current_buffer_def b_def [symmetric] n_def [symmetric])
  moreover have "term_ok t'" using term_ok_cursor(2) [OF u(2)] term_ok_parts [OF ok(1)] u(6) at room by (simp add: t'_def)
  moreover have "buffers_ok t'" "idle t'" using u(3,4)
    by (auto simp: t'_def buffers_ok_def idle_def char_mapping_def split: if_splits)
  moreover have "char_handler_step wcw junk c t = Inr t'" using u(1) ok(3) by (simp add: char_handler_step_def idle_def t'_def)
  ultimately show thesis using that by blast
qed

lemma print_text:
  assumes "printed t0 s t" "term_ok t" "buffers_ok t" "idle t" "\<forall>c \<in> set s. 0x20 \<le> c" "0 \<le> cursor_col t0"
    and "\<forall>c \<in> set cs. 0x20 \<le> c \<and> c < 0x7F \<and> wcw c = 1" "cursor_col t0 + int (length (s @ cs)) \<le> term_width t0"
  shows "\<exists>t'. guac_terminal_write wcw junk cs t = Inr t' \<and> printed t0 (s @ cs) t' \<and> term_ok t' \<and> buffers_ok t' \<and> idle t'"
  using assms
proof (induction cs arbitrary: s t)
  case (Cons c cs)
  obtain u where u: "char_handler_step wcw junk c t = Inr u" "printed t0 (s @ [c]) u" "term_ok u" "buffers_ok u" "idle u"
    by (rule print_char [where wcw = wcw and junk = junk and c = c, OF Cons.prems(1-5)]) (use Cons.prems(6-8) in auto)
  have "\<exists>t'. guac_terminal_write wcw junk cs u = Inr t' \<and> printed t0 ((s @ [c]) @ cs) t' \<and> term_ok t' \<and> buffers_ok t' \<and> idle t'"
    by (rule Cons.IH [OF u(2-5)]) (use Cons.prems(5-8) in auto)
  then show ?case using u(1) by simp
qed simp

section \<open>Creating a terminal\<close>

lemma everywhere_total:
  assumes "display_ok (display t)" "1 \<le> display_width (display t)" "buffers_ok t" "valid_row r"
    and "\<not> continuation c" "1 \<le> char_width c" "s \<le> e" "e \<le> 1023"
  obtains t' where "set_columns_everywhere r (int s) (int e) c t = Inr t'" "buffers_ok t'" "screen_only t t'"
    "visible_cursor_row t' = visible_cursor_row t" "visible_cursor_col t' = visible_cursor_col t"
proof -
  have w: "0 \<le> char_width c" using assms(6) by simp
  obtain d where d: "guac_terminal_display_set_columns (display t) (r + scroll_offset t) (int s) (int e) c = Inr d"
    using display_set_columns_ok [OF assms(1,2) w, of "r + scroll_offset t" "int s" "int e"] by auto
  obtain buf' where b: "guac_terminal_buffer_set_columns (current_buffer t) r (int s) (int e) c = Inr buf'" "buffer_ok buf'"
    and changed: "row_changed (current_buffer t) r buf' (\<lambda>old new. row_length new = max (row_length old) (e + 1) \<and> wrapped_row new = wrapped_row old \<and>
      columns_written s e c (row_cells old @ replicate (row_length new - row_length old) (default_character (current_buffer t))) (row_cells new))"
    using set_columns_ok [OF buffers_ok_current [OF assms(3)] assms(4-8)] by (elim exE conjE) (rule that)
  have len: "length (buffer_rows buf') = length (buffer_rows (current_buffer t))"
    using changed unfolding row_changed_def by auto
  define t' where "t' = guac_terminal_select_touch r (int s) r (int e) (set_current_buffer buf' (t\<lparr>display := d\<rparr>))"
  have run: "set_columns_everywhere r (int s) (int e) c t = Inr t'"
    by (simp add: set_columns_everywhere_def d b(1) t'_def)
  have bo: "buffers_ok (t\<lparr>display := d\<rparr>)" using assms(3) by (simp add: buffers_ok_def)
  have vis: "visible_cursor_row t' = visible_cursor_row t" "visible_cursor_col t' = visible_cursor_col t"
    by (simp_all add: t'_def) (simp_all add: set_current_buffer_def)
  have "buffers_ok t'"
    unfolding t'_def select_touch_buffers using set_current_buffers_ok [OF bo b(2)] len buffers_ok_current(2) [OF assms(3)] by simp
  then show thesis using that run set_columns_everywhere_screen [OF run] vis by blast
qed

lemma set_columns_total:
  assumes "display_ok (display t)" "1 \<le> display_width (display t)" "buffers_ok t" "valid_row r"
    and "\<not> continuation c" "1 \<le> char_width c" "s \<le> e" "e \<le> 1023"
  obtains t' where "guac_terminal_set_columns r (int s) (int e) c t = Inr t'" "buffers_ok t'" "screen_only t t'"
proof -
  obtain u where u: "set_columns_everywhere r (int s) (int e) c t = Inr u" "buffers_ok u" "screen_only t u"
    "visible_cursor_row u = visible_cursor_row t" "visible_cursor_col u = visible_cursor_col t"
    by (rule everywhere_total [OF assms])
  show thesis
  proof (cases "r = visible_cursor_row u \<and> visible_cursor_col u \<ge> int s \<and> visible_cursor_col u \<le> int e")
    case False
    have "guac_terminal_set_columns r (int s) (int e) c t = Inr u"
      unfolding guac_terminal_set_columns_def u(1) bindr_simps if_not_P [OF False] by (rule refl)
    then show thesis using that u(2,3) by blast
  next
    case True
    define v where "v = nat (visible_cursor_col u)"
    have v: "visible_cursor_col u = int v" "v \<le> 1023" using True assms(8) by (auto simp: v_def nat_le_iff)
    have dis: "display_ok (display u)" "1 \<le> display_width (display u)"
      using u(3) assms(1,2) by (simp_all add: screen_only_def same_size_def)
    define c' where "c' = c\<lparr>char_attributes := (char_attributes c)\<lparr>attr_cursor := True\<rparr>\<rparr>"
    have c': "\<not> continuation c'" "1 \<le> char_width c'" using assms(5,6) by (simp_all add: c'_def)
    obtain w where w: "set_columns_everywhere r (int v) (int v) c' u = Inr w" "buffers_ok w" "screen_only u w"
      by (rule everywhere_total [OF dis u(2) assms(4) c' order_refl v(2)])
    have "guac_terminal_set_columns r (int s) (int e) c t = Inr w"
      unfolding guac_terminal_set_columns_def u(1) bindr_simps if_P [OF True]
      unfolding v(1) c'_def [symmetric] by (rule w(1))
    then show thesis using that w(2) screen_only_trans [OF u(3) w(3)] by blast
  qed
qed

lemma default_char_screen: "screen_only t t' \<Longrightarrow> default_char t' = default_char t"
proof -
  assume "screen_only t t'"
  then have "default_char (control t') = default_char (control t)" by (simp add: screen_only_def)
  then show ?thesis by (simp add: control_def)
qed

lemma alloc_ok:
  "plain d \<Longrightarrow> 1024 \<le> n \<Longrightarrow> n \<le> 1073741824 \<Longrightarrow> buffer_ok (guac_terminal_buffer_alloc junk n d)"
  "1024 \<le> n \<Longrightarrow> 1024 \<le> length (buffer_rows (guac_terminal_buffer_alloc junk n d))"
  by (simp_all add: buffer_ok_alloc) (simp add: guac_terminal_buffer_alloc_def)

lemma reset_rows_total:
  assumes "display_ok (display t)" "1 \<le> display_width (display t)" "buffers_ok t" "plain (default_char t)"
    and "0 \<le> row" "row + int n \<le> 1024" "1 \<le> term_width t" "term_width t \<le> 1024"
  shows "\<exists>t'. reset_rows n row t = Inr t' \<and> buffers_ok t' \<and> screen_only t t'"
  using assms
proof (induction n arbitrary: row t)
  case (Suc n)
  have e: "term_width t - 1 = int (nat (term_width t - 1))" "0 \<le> nat (term_width t - 1)" "nat (term_width t - 1) \<le> 1023"
    using Suc.prems(7,8) by auto
  have r: "valid_row row" using Suc.prems(5,6) by (simp add: valid_row_def)
  obtain u where u: "guac_terminal_set_columns row (int 0) (int (nat (term_width t - 1))) (default_char t) t = Inr u" "buffers_ok u" "screen_only t u"
    by (rule set_columns_total [OF Suc.prems(1-3) r, of "default_char t" 0 "nat (term_width t - 1)"])
      (use Suc.prems(4) e(3) in auto)
  have d: "display_ok (display u)" "1 \<le> display_width (display u)"
    using u(3) Suc.prems(1,2) by (simp_all add: screen_only_def same_size_def)
  obtain t' where "reset_rows n (row + 1) u = Inr t'" "buffers_ok t'" "screen_only u t'"
    using Suc.IH [OF d u(2), of "row + 1"] Suc.prems screen_fields [OF u(3)] default_char_screen [OF u(3)] by auto
  moreover have "guac_terminal_set_columns row 0 (term_width t - 1) (default_char t) t = Inr u"
    using u(1) e(1) by simp
  ultimately show ?case using u(3) screen_only_trans by auto
qed auto

lemma create_total:
  assumes "1 \<le> rows" "rows \<le> 1024" "1 \<le> columns" "columns \<le> 1024" "length palettes = 256" "scrollback \<le> 1073741824"
  shows "\<exists>t. guac_terminal_create junk fg bg palettes scrollback rows columns = Inr t \<and> term_ok t \<and> buffers_ok t \<and> idle t \<and>
    cursor_row t = 0 \<and> cursor_col t = 0 \<and> term_width t = columns \<and> term_height t = rows"
proof -
  let ?n = "send_output Repaint_default_layer (new_terminal junk fg bg palettes scrollback rows columns)"
  have f: "display ?n = guac_terminal_display_alloc fg bg palettes" "term_width ?n = columns" "term_height ?n = rows"
    "plain (default_char ?n)"
    by (simp_all add: new_terminal_def Let_def GUAC_CHAR_CONTINUATION_def)
  obtain d where d: "guac_terminal_display_resize (guac_terminal_display_alloc fg bg palettes) columns rows = Inr d"
    using assms(1-4)
    by (simp add: guac_terminal_display_resize_def guac_terminal_display_alloc_def guac_assert_def Let_def
      GUAC_TERMINAL_MAX_COLUMNS_def GUAC_TERMINAL_MAX_ROWS_def)
  define t where "t = ?n\<lparr>display := d\<rparr>"
  have t: "term_ok t" using new_terminal_ok [OF assms(1-5) d] by (simp add: t_def)
  have bt: "buffers_ok t"
    using assms(6) by (simp add: t_def new_terminal_def Let_def buffers_ok_def GUAC_TERMINAL_MAX_ROWS_def
      GUAC_CHAR_CONTINUATION_def alloc_ok nat_le_iff)
  define u where "u = reset_state t"
  have "term_ok u" using reset_state_ok [OF t] by (simp add: u_def)
  moreover have u1: "default_char u = default_char t" "term_width u = columns" "idle u" "cursor_row u = 0" "cursor_col u = 0" "term_height u = rows"
    using f by (simp_all add: u_def reset_state_def Let_def set_current_buffer_def idle_def char_mapping_def t_def)
      (simp_all add: new_terminal_def Let_def)
  moreover have "buffers_ok u"
    using bt by (auto simp: u_def reset_state_def Let_def set_current_buffer_def buffers_ok_def guac_terminal_buffer_reset_def
      buffer_ok_def current_buffer_def)
  ultimately have u: "guac_terminal_reset t = reset_rows (nat (term_height t)) 0 u" "display_ok (display u)"
    "display_width (display u) = columns" "buffers_ok u" "default_char u = default_char t" "term_width u = columns" "idle u"
    "cursor_row u = 0" "cursor_col u = 0" "term_height u = rows"
    by (simp_all add: term_ok_def guac_terminal_reset_def u_def)
  obtain t' where t': "reset_rows (nat (term_height t)) 0 u = Inr t'" "buffers_ok t'" "screen_only u t'"
    using reset_rows_total [of u 0 "nat (term_height t)"] u assms(1-4) f by (auto simp: t_def)
  have run: "guac_terminal_create junk fg bg palettes scrollback rows columns = Inr t'"
    using d u(1) t'(1) f by (simp add: guac_terminal_create_def Let_def t_def)
  show ?thesis
    using run create_ok [OF run assms(1-5)] t'(2) u screen_fields [OF t'(3)] more_fields [OF t'(3)] by auto
qed

lemma printed_refl: "term_ok t \<Longrightarrow> buffers_ok t \<Longrightarrow> printed t [] t"
proof -
  assume ok: "term_ok t" "buffers_ok t"
  have r: "valid_row (cursor_row t)" using term_ok_parts [OF ok(1)] by (simp add: valid_row_def)
  obtain i where i: "guac_terminal_buffer_get_row (current_buffer t) (cursor_row t) = Some i" "i < length (buffer_rows (current_buffer t))"
    using get_row_valid [OF buffers_ok_current [OF ok(2)] r] by blast
  then show ?thesis
    using buffer_ok_row [OF buffers_ok_current(1) [OF ok(2)] i(2)] by (auto simp: printed_def ring_row_def)
qed

section \<open>Wide characters under the cursor\<close>

text \<open>
  Writing a character of two columns where the visible cursor is: the second write, of the cursor cell
  alone, cuts the character in half, and both halves are blanked.
\<close>

lemma buffer_write_wide:
  assumes "buffer_ok buf" "1024 \<le> length (buffer_rows buf)" "0 \<le> r" "r < 1024" "\<not> continuation c" "char_width c = 2"
    and "char_width c' = 2" "\<not> continuation c'" "s < 1023"
  obtains buf1 buf2 row where "guac_terminal_buffer_set_columns buf r (int s) (int (s + 1)) c = Inr buf1"
    "guac_terminal_buffer_set_columns buf1 r (int s) (int s) c' = Inr buf2" "ring_row buf2 r = Some row"
    "s + 1 < row_length row" "blank_cell (row_cells row ! s)" "blank_cell (row_cells row ! (s + 1))"
    "buffer_ok buf1" "buffer_ok buf2" "length (buffer_rows buf1) = length (buffer_rows buf)"
    "length (buffer_rows buf2) = length (buffer_rows buf)"
proof -
  have vr: "valid_row r" using assms(3,4) by (simp add: valid_row_def)
  have w: "1 \<le> char_width c" "1 \<le> char_width c'" "s \<le> s + 1" "s + 1 \<le> 1023" "s \<le> 1023" using assms(6,7,9) by simp_all
  obtain buf1 where b1: "guac_terminal_buffer_set_columns buf r (int s) (int (s + 1)) c = Inr buf1" "buffer_ok buf1"
    and ch1: "row_changed buf r buf1 (\<lambda>old new. row_length new = max (row_length old) (s + 1 + 1) \<and> wrapped_row new = wrapped_row old \<and>
      columns_written s (s + 1) c (row_cells old @ replicate (row_length new - row_length old) (default_character buf)) (row_cells new))"
    using set_columns_ok [OF assms(1,2) vr assms(5) w(1,3,4)] by (elim exE conjE) (rule that)
  obtain i new1 where i: "guac_terminal_buffer_get_row buf r = Some i"
    and n1: "row_length new1 = max (row_length (buffer_rows buf ! i)) (s + 1 + 1)"
      "columns_written s (s + 1) c (row_cells (buffer_rows buf ! i) @
          replicate (row_length new1 - row_length (buffer_rows buf ! i)) (default_character buf)) (row_cells new1)"
    and r1: "buffer_rows buf1 = (buffer_rows buf)[i := new1]" "buffer_top buf1 = buffer_top buf"
    using ch1 unfolding row_changed_def by blast
  have il: "i < length (buffer_rows buf)" using get_row_range [OF i] assms(1) by (simp add: buffer_ok_def)
  have len1: "length (buffer_rows buf1) = length (buffer_rows buf)" using r1(1) by simp
  have i1: "guac_terminal_buffer_get_row buf1 r = Some i" using get_row_same [OF r1(2) len1] i by simp
  have "1024 \<le> length (buffer_rows buf1)" using assms(2) len1 by simp
  then obtain buf2 where b2: "guac_terminal_buffer_set_columns buf1 r (int s) (int s) c' = Inr buf2" "buffer_ok buf2"
    and ch2: "row_changed buf1 r buf2 (\<lambda>old new. row_length new = max (row_length old) (s + 1) \<and> wrapped_row new = wrapped_row old \<and>
      columns_written s s c' (row_cells old @ replicate (row_length new - row_length old) (default_character buf1)) (row_cells new))"
    using set_columns_ok [OF b1(2) _ vr assms(8) w(2) order_refl w(5)] by (elim exE conjE meta_impE) (assumption, rule that)
  obtain new2 where n2: "row_length new2 = max (row_length new1) (s + 1)"
      "columns_written s s c' (row_cells new1 @ replicate (row_length new2 - row_length new1) (default_character buf1)) (row_cells new2)"
    and r2: "buffer_rows buf2 = (buffer_rows buf1)[i := new2]" "buffer_top buf2 = buffer_top buf1"
    using ch2 i1 r1(1) il unfolding row_changed_def by auto
  have len2: "length (buffer_rows buf2) = length (buffer_rows buf1)" using r2(1) by simp
  have i2: "ring_row buf2 r = Some new2" using get_row_same [OF r2(2) len2] i1 r2(1) len1 il by (simp add: ring_row_def)
  have same: "row_length new2 = row_length new1" using n1(1) n2(1) by simp
  have ok: "row_ok new1" "row_ok new2"
    using buffer_ok_row [OF b1(2), of i] buffer_ok_row [OF b2(2), of i] r1(1) r2(1) il len1 by simp_all
  have l: "length (row_cells new1) = row_length new1" "length (row_cells new2) = row_length new1"
    using ok same by (simp_all add: row_ok_def)
  have long: "s + 1 < row_length new1" using n1(1) by simp
  have cw1: "\<forall>i \<in> {s..<s + 2}. row_cells new1 ! i = (if (i - s) mod 2 = 0 then c else continuation_of c)"
    using n1(2) assms(6) unfolding columns_written_def Let_def by simp
  have "row_cells new1 ! Suc s = (if (Suc s - s) mod 2 = 0 then c else continuation_of c)" by (rule bspec [OF cw1]) simp
  then have half: "continuation (row_cells new1 ! Suc s)" by (simp add: continuation_of_def)
  have cw2: "columns_written s s c' (row_cells new1) (row_cells new2)" using n2(2) same by simp
  have blank: "blank_cell (row_cells new2 ! s)"
    using cw2 assms(7) unfolding columns_written_def Let_def by simp
  have rest: "row_cells new2 ! Suc s = row_cells new1 ! Suc s \<or> blank_cell (row_cells new2 ! Suc s)"
    using cw2 long l unfolding columns_written_def Let_def by simp
  have "\<not> continuation (row_cells new2 ! Suc s)"
  proof (rule wf_after_single)
    show "wf_cells (row_cells new2)" using ok(2) by (simp add: row_ok_def)
    show "Suc s < length (row_cells new2)" using l(2) long by simp
    show "\<not> continuation (row_cells new2 ! s)" "char_width (row_cells new2 ! s) = 1"
      using blank by (simp_all add: blank_cell_def)
  qed
  then have "blank_cell (row_cells new2 ! Suc s)" using rest half by metis
  then show thesis using that [OF b1(1) b2(1) i2] blank long same b1(2) b2(2) len1 len2 by simp
qed

section \<open>The properties of the terminal\<close>

lemma example_terminal:
  obtains junk black t where "guac_terminal_create junk black black (replicate 256 black) 1000 24 80 = Inr t"
    "term_ok t" "buffers_ok t" "idle t" "cursor_col t = 0" "term_width t = 80"
proof -
  fix junk :: guac_terminal_char and black :: guac_terminal_color
  have "\<exists>t. guac_terminal_create junk black black (replicate 256 black) 1000 24 80 = Inr t \<and> term_ok t \<and> buffers_ok t \<and> idle t \<and>
    cursor_row t = 0 \<and> cursor_col t = 0 \<and> term_width t = 80 \<and> term_height t = 24"
    by (rule create_total) simp_all
  then show thesis using that by auto
qed

text \<open>
  C5. A terminal created with 1 to 1024 rows and columns keeps its invariant: after any bytes written to it, and
  resizes, scrolling and flushes in any order that do not fault, as long as each resize leaves room for a row and a column, the
  cursor, the buffers of the control sequence parser, the index of the last argument and the tab stops are in their
  bounds, and the display has the size of the terminal. A resize that leaves no room for a row or for a column sets the cursor's row
  or column to -1: the code that is to keep the cursor on the screen assumes that there is one. No character is wider than 2 columns.
\<close>

theorem terminal_invariant:
  assumes "\<forall>x. wcw x \<le> 2"
    and "guac_terminal_create junk fg bg palettes scrollback rows columns = Inr t0"
    and "1 \<le> rows" "rows \<le> 1024" "1 \<le> columns" "columns \<le> 1024" "length palettes = 256"
    and "\<forall>e \<in> set es. leaves_room e" "terminal_run wcw es t0 = Inr t"
  shows "term_ok t \<and>
    (\<forall>margin font_width font_height width height t'.
       guac_terminal_resize margin font_width font_height width height t = Inr t' \<longrightarrow>
       (case calculate_rows_and_columns margin font_width font_height height width of (rows', columns') \<Rightarrow>
          (rows' = 0 \<longrightarrow> cursor_row t' = -1) \<and> (columns' = 0 \<longrightarrow> cursor_col t' = -1)))"
proof -
  have ok: "term_ok t" by (rule terminal_run_ok [OF assms(9,8,1) create_ok [OF assms(2-7)]])
  then have "1 \<le> term_height t" "1 \<le> term_width t" using term_ok_parts by auto
  then show ?thesis using ok resize_without_room by (auto split: prod.split)
qed

theorem terminal_invariant_witness:
  "\<exists>t0 t. terminal_run (\<lambda>c. 1) (map (Write_byte 0) (map of_char ''ls -l'')) t0 = Inr t \<and> term_ok t"
proof -
  obtain junk black t0 where c: "guac_terminal_create junk black black (replicate 256 black) 1000 24 80 = Inr t0"
    and t0: "term_ok t0" "buffers_ok t0" "idle t0" "cursor_col t0 = 0" "term_width t0 = 80"
    by (rule example_terminal)
  have "\<forall>c \<in> set (map of_char ''ls -l''). (0x20 :: int) \<le> c \<and> c < 0x7F" by (simp add: of_char_def)
  then obtain t where run: "guac_terminal_write (\<lambda>c. 1) 0 (map of_char ''ls -l'') t0 = Inr t"
    using print_text [OF printed_refl [OF t0(1,2)] t0(1-3), of "map of_char ''ls -l''" "\<lambda>c. 1" 0] t0(4,5) by auto
  have "\<forall>e \<in> set (map (Write_byte 0) (map of_char ''ls -l'')). leaves_room e" by simp
  from terminal_invariant [OF _ c _ _ _ _ _ this run [unfolded write_run]] show ?thesis using run [unfolded write_run] by auto
qed

text \<open>
  C15. Printable text that fits in the row is printed: writing it to an idle terminal returns, each
  character appears in its cell with the current attributes, no other row of the screen changes, and
  the cursor ends after the text.
\<close>

theorem terminal_prints_text:
  assumes "term_ok t" "buffers_ok t" "idle t" "\<forall>c \<in> set cs. 0x20 \<le> c \<and> c < 0x7F \<and> wcw c = 1"
    and "cursor_col t + int (length cs) \<le> term_width t"
  shows "\<exists>t'. guac_terminal_write wcw junk cs t = Inr t' \<and> printed t cs t' \<and> term_ok t' \<and> idle t'"
proof -
  have "0 \<le> cursor_col t" using term_ok_parts [OF assms(1)] by simp
  with print_text [OF printed_refl [OF assms(1,2)] assms(1-3), of cs wcw] assms(4,5) show ?thesis by auto
qed

theorem terminal_prints_text_witness:
  "\<exists>t t'. idle t \<and> guac_terminal_write (\<lambda>c. 1) 0 (map of_char ''ls -l'') t = Inr t' \<and> printed t (map of_char ''ls -l'') t'"
proof -
  obtain t where t: "term_ok t" "buffers_ok t" "idle t" "cursor_col t = 0" "term_width t = 80"
    by (rule example_terminal)
  have "\<forall>c \<in> set (map of_char ''ls -l'' :: int list). 0x20 \<le> c \<and> c < 0x7F \<and> (1::int) = 1" "int (length (map of_char ''ls -l'')) \<le> 80"
    by simp_all
  then have "\<exists>t'. guac_terminal_write (\<lambda>c. 1) 0 (map of_char ''ls -l'') t = Inr t' \<and> printed t (map of_char ''ls -l'') t' \<and>
    term_ok t' \<and> idle t'"
    by (intro terminal_prints_text t(1-3)) (simp_all add: t(4,5))
  then show ?thesis using t(3) by blast
qed

text \<open>
  A character of two columns that is written where the visible cursor stands is lost: the cell of the
  cursor is written once more on its own, which cuts the character, and both its cells become blanks.
\<close>

theorem terminal_wide_char_lost:
  assumes "term_ok t" "buffers_ok t" "0 \<le> s" "s < 1023" "0 \<le> r" "r < 1024" "cp \<noteq> GUAC_CHAR_CONTINUATION" "wcw cp = 2"
    and "visible_cursor_row t = r" "visible_cursor_col t = s"
  shows "\<exists>t' row. guac_terminal_set wcw r s cp t = Inr t' \<and> ring_row (current_buffer t') r = Some row \<and>
    nat s + 1 < row_length row \<and> char_value (row_cells row ! nat s) = 32 \<and> char_value (row_cells row ! (nat s + 1)) = 32"
proof -
  define n where "n = nat s"
  have s: "s = int n" "n < 1023" using assms(3,4) by (simp_all add: n_def)
  define c where "c = \<lparr>char_value = cp, char_attributes = current_attributes t, char_width = 2\<rparr>"
  define c' where "c' = c\<lparr>char_attributes := (char_attributes c)\<lparr>attr_cursor := True\<rparr>\<rparr>"
  have c: "\<not> continuation c" "char_width c = 2" "char_width c' = 2" "\<not> continuation c'" "1 \<le> char_width c" "1 \<le> char_width c'"
    "0 \<le> char_width c'" using assms(7) by (simp_all add: c_def c'_def)
  have d: "display_ok (display t)" "1 \<le> display_width (display t)"
    using assms(1) term_ok_parts [OF assms(1)] by (simp_all add: term_ok_def)
  have vr: "valid_row r" using assms(5,6) by (simp add: valid_row_def)
  obtain b1 b2 row where b: "guac_terminal_buffer_set_columns (current_buffer t) r (int n) (int (n + 1)) c = Inr b1"
    "guac_terminal_buffer_set_columns b1 r (int n) (int n) c' = Inr b2" "ring_row b2 r = Some row"
    "n + 1 < row_length row" "blank_cell (row_cells row ! n)" "blank_cell (row_cells row ! (n + 1))"
    by (rule buffer_write_wide [OF buffers_ok_current [OF assms(2)] assms(5,6) c(1-4) s(2)])
  obtain u where u: "set_columns_everywhere r (int n) (int (n + 1)) c t = Inr u" "buffers_ok u" "screen_only t u"
    "visible_cursor_row u = visible_cursor_row t" "visible_cursor_col u = visible_cursor_col t"
    by (rule everywhere_total [OF d assms(2) vr c(1,5), of n "n + 1"]) (use s in auto)
  have du: "display_ok (display u)" "1 \<le> display_width (display u)"
    using u(3) d by (simp_all add: screen_only_def same_size_def)
  obtain w where w: "set_columns_everywhere r (int n) (int n) c' u = Inr w"
    by (rule everywhere_total [OF du u(2) vr c(4,6) order_refl, of n]) (use s in auto)
  have cur: "current_buffer u = b1" using u(1) b(1) by (auto simp: set_columns_everywhere_def fault_iff)
  have "current_buffer w = b2" using w b(2) cur by (auto simp: set_columns_everywhere_def fault_iff)
  moreover have "guac_terminal_set wcw r s cp t = guac_terminal_set_columns r (int n) (int (n + 1)) c t"
    using assms(8) s by (simp add: guac_terminal_set_def Let_def c_def algebra_simps)
  moreover have "guac_terminal_set_columns r (int n) (int (n + 1)) c t = Inr w"
    using u w assms(9,10) s(1) by (simp add: guac_terminal_set_columns_def c'_def)
  ultimately show ?thesis using b(3-6) by (auto simp: blank_cell_def n_def)
qed

theorem terminal_wide_char_lost_witness:
  "\<exists>t t' row. guac_terminal_set (\<lambda>c. 2) 0 0 0x4E2D t = Inr t' \<and> ring_row (current_buffer t') 0 = Some row \<and>
     char_value (row_cells row ! 0) = 32 \<and> char_value (row_cells row ! 1) = 32"
proof -
  obtain t where t: "term_ok t" "buffers_ok t"
    by (rule example_terminal)
  define u where "u = t\<lparr>visible_cursor_row := 0, visible_cursor_col := 0\<rparr>"
  have "term_ok u" "buffers_ok u" using t by (simp_all add: u_def term_ok_def control_ok_def buffers_ok_def)
  then have "\<exists>t' row. guac_terminal_set (\<lambda>c. 2) 0 0 0x4E2D u = Inr t' \<and> ring_row (current_buffer t') 0 = Some row \<and>
    nat 0 + 1 < row_length row \<and> char_value (row_cells row ! nat 0) = 32 \<and> char_value (row_cells row ! (nat 0 + 1)) = 32"
    by (rule terminal_wide_char_lost) (simp_all add: u_def GUAC_CHAR_CONTINUATION_def)
  then show ?thesis by auto
qed

end
