(* ===== verification/TermReport.thy ===== *)
theory TermReport
  imports TermText
begin

text \<open>
  Cursor positions on the wire: the terminal reports its cursor in decimal, and the same numbers read
  back as the arguments of a control sequence move the cursor to where it was.
\<close>

section \<open>Decimal numbers\<close>

abbreviation digit_byte :: "int \<Rightarrow> bool" where "digit_byte c \<equiv> 48 \<le> c \<and> c \<le> 57"

abbreviation read_decimal :: "bytes \<Rightarrow> int" where "read_decimal \<equiv> foldl (\<lambda>v c. v * 10 + (c - 48)) 0"

lemma digits_of_digits: "c \<in> set (digits_of n) \<Longrightarrow> digit_byte c"
  by (induction n rule: digits_of.induct) (subst (asm) (2) digits_of.simps, auto split: if_splits)

lemma read_digits_of: "read_decimal (digits_of n) = int n"
proof (induction n rule: digits_of.induct)
  case (1 n)
  show ?case
  proof (cases "n < 10")
    case True
    then show ?thesis by (simp add: digits_of.simps)
  next
    case False
    have "read_decimal (digits_of n) = int (n div 10) * 10 + int (n mod 10)"
      using 1 False by (subst digits_of.simps) simp
    also have "\<dots> = int n" by presburger
    finally show ?thesis .
  qed
qed

lemma length_digits_of: "n < 10 ^ k \<Longrightarrow> 0 < k \<Longrightarrow> length (digits_of n) \<le> k"
proof (induction k arbitrary: n)
  case (Suc k)
  show ?case
  proof (cases "n < 10")
    case True
    then show ?thesis by (simp add: digits_of.simps)
  next
    case False
    then have "0 < k" using Suc.prems(1) by (cases k) auto
    moreover have "n div 10 < 10 ^ k" using Suc.prems(1) by auto
    ultimately show ?thesis using Suc.IH [of "n div 10"] False by (subst digits_of.simps) simp
  qed
qed simp

lemma parse_digits: "int n \<le> INT_MAX \<Longrightarrow> guac_terminal_parse_numeric_param (digits_of n) = int n"
proof -
  assume n: "int n \<le> INT_MAX"
  have d: "takeWhile (\<lambda>c. c \<noteq> 0) (digits_of n) = digits_of n" "takeWhile digit_byte (digits_of n) = digits_of n"
    "dropWhile isspace (digits_of n) = digits_of n"
    using digits_of_digits [of _ n] hd_in_set [of "digits_of n"]
    by (fastforce simp: takeWhile_eq_all_conv dropWhile_eq_self_iff isspace_def)+
  obtain x xs where x: "digits_of n = x # xs" "digit_byte x"
  proof (cases "digits_of n")
    case Nil
    then show ?thesis by (subst (asm) digits_of.simps) (auto split: if_splits)
  next
    case (Cons a list)
    then show ?thesis using that digits_of_digits [of a n] by simp
  qed
  have "read_decimal (x # xs) = int n" "takeWhile digit_byte xs = xs"
    using read_digits_of [of n] d(2) x by simp_all
  then have "strtoul (digits_of n) = Some (int n)"
    using n x(2) d(3) by (simp add: strtoul_def x(1) Let_def INT_MAX_def del: takeWhile_eq_all_conv)
  then show ?thesis using n d(1) by (simp add: guac_terminal_parse_numeric_param_def c_string_def del: takeWhile_eq_all_conv)
qed

section \<open>Control sequences with numbers\<close>

lemma write_append:
  "guac_terminal_write wcw junk (a @ b) t = bindr (guac_terminal_write wcw junk a t) (guac_terminal_write wcw junk b)"
  by (induction a arbitrary: t) (auto simp: bindr_def split: sum.splits)

lemma csi_digits:
  assumes "handler t = CSI" "\<forall>c \<in> set ds. digit_byte c" "length (csi_argv_buffer t) + length ds < 256"
  shows "guac_terminal_write wcw junk ds t = Inr (t\<lparr>csi_argv_buffer := csi_argv_buffer t @ ds\<rparr>)"
  using assms
proof (induction ds arbitrary: t)
  case (Cons d ds)
  have "char_handler_step wcw junk d t = Inr (t\<lparr>csi_argv_buffer := csi_argv_buffer t @ [d]\<rparr>)"
    using Cons.prems by (simp add: char_handler_step_def guac_terminal_csi_def)
  then show ?case using Cons.IH [of "t\<lparr>csi_argv_buffer := csi_argv_buffer t @ [d]\<rparr>"] Cons.prems by simp
qed simp

text \<open>No control sequence is being read.\<close>

definition csi_idle :: "guac_terminal \<Rightarrow> bool" where
  "csi_idle t \<longleftrightarrow> idle t \<and> csi_argc t = 0 \<and> csi_private_mode t = 0 \<and> csi_argv_buffer t = [] \<and> csi_argv t = replicate 16 0"

definition after_escape :: "guac_terminal \<Rightarrow> guac_terminal" where
  "after_escape t = t\<lparr>echo_codepoint := 27, echo_bytes_remaining := 0\<rparr>"

lemma csi_begin:
  "idle t \<Longrightarrow> guac_terminal_write wcw junk [27, 91] t = Inr ((after_escape t)\<lparr>handler := CSI\<rparr>)"
  by (simp add: char_handler_step_def idle_def guac_terminal_echo_def echo_decode_def echo_codepoint_action_def
    guac_terminal_escape_def after_escape_def)

lemma csi_number:
  assumes "handler t = CSI" "csi_argv_buffer t = digits_of n" "csi_argc t < 16" "int n \<le> INT_MAX"
  shows "char_handler_step wcw junk 59 t =
      Inr (t\<lparr>csi_argv := (csi_argv t)[csi_argc t := int n], csi_argc := csi_argc t + 1, csi_argv_buffer := []\<rparr>)"
    and "char_handler_step wcw junk 72 t =
      Inr (csi_end (csi_move 72 (t\<lparr>csi_argv := (csi_argv t)[csi_argc t := int n], csi_argc := csi_argc t + 1, csi_argv_buffer := []\<rparr>)))"
    and "char_handler_step wcw junk 110 t =
      Inr (csi_end (csi_state 110 (t\<lparr>csi_argv := (csi_argv t)[csi_argc t := int n], csi_argc := csi_argc t + 1, csi_argv_buffer := []\<rparr>)))"
  using assms parse_digits [OF assms(4)]
  by (simp_all add: char_handler_step_def guac_terminal_csi_def csi_function_def csi_moves_def csi_state_def Let_def)

lemma cursor_position_sequence:
  assumes "csi_idle t" "n < 10000" "m < 10000"
  shows "guac_terminal_write wcw junk ([27, 91] @ digits_of n @ [59] @ digits_of m @ [72]) t =
    Inr (guac_terminal_move_cursor (if n = 0 then 0 else int n - 1) (if m = 0 then 0 else int m - 1) (after_escape t))"
proof -
  let ?t = "(after_escape t)\<lparr>handler := CSI\<rparr>"
  have l: "length (digits_of n) \<le> 4" "length (digits_of m) \<le> 4" using assms(2,3) by (auto intro: length_digits_of)
  have i: "idle t" "csi_argc ?t = 0" "csi_argv_buffer ?t = []" "csi_argv ?t = replicate 16 0" "csi_private_mode ?t = 0"
    using assms(1) by (simp_all add: csi_idle_def after_escape_def)
  define u where "u = ?t\<lparr>csi_argv := (replicate 16 0)[0 := int n], csi_argc := 1, csi_argv_buffer := []\<rparr>"
  have a: "guac_terminal_write wcw junk (digits_of n @ [59]) ?t = Inr u"
    using csi_digits [of ?t "digits_of n" wcw junk] csi_number(1) [of "?t\<lparr>csi_argv_buffer := digits_of n\<rparr>" n wcw junk] l(1) digits_of_digits [of _ n] assms(2) i
    by (simp add: write_append u_def INT_MAX_def)
  have b: "guac_terminal_write wcw junk (digits_of m @ [72]) u =
      Inr (csi_end (csi_move 72 (u\<lparr>csi_argv := (csi_argv u)[1 := int m], csi_argc := 2, csi_argv_buffer := []\<rparr>)))"
    using csi_digits [of u "digits_of m" wcw junk] csi_number(2) [of "u\<lparr>csi_argv_buffer := digits_of m\<rparr>" m wcw junk] l(2) digits_of_digits [of _ m] assms(3)
    by (simp add: write_append u_def INT_MAX_def numeral_2_eq_2)
  have "guac_terminal_write wcw junk ([27, 91] @ digits_of n @ [59] @ digits_of m @ [72]) t =
      guac_terminal_write wcw junk (digits_of m @ [72]) u"
    using csi_begin [OF i(1), of wcw junk] a by (simp only: write_append bindr_simps append_assoc [symmetric])
  with b show ?thesis
    using assms(1)
    by (simp add: csi_idle_def idle_def u_def after_escape_def csi_move_def csi_end_def csi_coordinate_def guac_terminal_move_cursor_def Let_def eval_nat_numeral)
qed

lemma status_report_sequence:
  assumes "csi_idle t"
  shows "guac_terminal_write wcw junk ([27, 91] @ [54] @ [110]) t =
    Inr (guac_terminal_send_string
      ([27, 91] @ print_int (wrap32 (cursor_row t + 1)) @ [59] @ print_int (wrap32 (cursor_col t + 1)) @ [82]) (after_escape t))"
proof -
  let ?t = "(after_escape t)\<lparr>handler := CSI\<rparr>"
  have i: "idle t" "csi_argc ?t = 0" "csi_argv_buffer ?t = []" "csi_argv ?t = replicate 16 0" "csi_private_mode ?t = 0"
    using assms(1) by (simp_all add: csi_idle_def after_escape_def)
  have six: "digits_of 6 = [54]" by (simp add: digits_of.simps)
  define v where "v = ?t\<lparr>csi_argv_buffer := [54]\<rparr>"
  have "guac_terminal_write wcw junk [54] ?t = Inr v"
    using csi_digits [of ?t "[54]" wcw junk] i(3) by (simp add: v_def)
  moreover have "char_handler_step wcw junk 110 v =
     Inr (csi_end (csi_state 110 (?t\<lparr>csi_argv := (replicate 16 0)[0 := 6], csi_argc := 1, csi_argv_buffer := []\<rparr>)))"
    using csi_number(3) [of v 6 wcw junk] i six by (simp add: v_def INT_MAX_def)
  ultimately have a: "guac_terminal_write wcw junk ([54] @ [110]) ?t =
     Inr (csi_end (csi_state 110 (?t\<lparr>csi_argv := (replicate 16 0)[0 := 6], csi_argc := 1, csi_argv_buffer := []\<rparr>)))"
    by (simp only: write_append bindr_simps guac_terminal_write.simps)
  have "guac_terminal_write wcw junk ([27, 91] @ [54] @ [110]) t = guac_terminal_write wcw junk ([54] @ [110]) ?t"
    using csi_begin [OF i(1), of wcw junk] by (simp only: write_append bindr_simps)
  with a show ?thesis
    using assms(1)
    by (simp add: csi_idle_def idle_def after_escape_def csi_state_def csi_end_def Let_def eval_nat_numeral guac_terminal_send_string_def)
qed

section \<open>The properties\<close>

text \<open>
  C19. Cursor positions survive the round trip through the wire. An idle terminal that no stream provides with input answers a
  request for its cursor position with a sequence of two numbers that, sent back as the arguments of the sequence that moves
  the cursor, restores the position, wherever the cursor has been moved, and changes nothing else but the decoder of
  characters: the row exactly, and the column except at the right margin, where the cursor that printing left behind the
  last column comes back to the last column. While a stream provides the input, the request is not answered.
\<close>

theorem cursor_report_roundtrip:
  assumes "term_ok t" "csi_idle t"
  shows "if input_stream t
    then \<exists>t'. guac_terminal_write wcw junk ([27, 91] @ [54] @ [110]) t = Inr t' \<and> outputs t' = outputs t
    else \<exists>position t'. guac_terminal_write wcw junk ([27, 91] @ [54] @ [110]) t = Inr t' \<and>
      outputs t' = outputs t @ [To_stdin ([27, 91] @ position @ [82])] \<and>
      cursor_row t' = cursor_row t \<and> cursor_col t' = cursor_col t \<and>
      (\<forall>row col. guac_terminal_write wcw junk ([27, 91] @ position @ [72]) (t'\<lparr>cursor_row := row, cursor_col := col\<rparr>) =
         Inr (t'\<lparr>cursor_col := min (cursor_col t) (term_width t - 1)\<rparr>))"
proof (cases "input_stream t")
  case True
  then show ?thesis
    using status_report_sequence [OF assms(2), of wcw junk] by (simp add: guac_terminal_send_string_def after_escape_def)
next
  case False
  note parts = term_ok_parts [OF assms(1)]
  define n m where "n = nat (cursor_row t + 1)" and "m = nat (cursor_col t + 1)"
  have at: "cursor_row t + 1 = int n" "cursor_col t + 1 = int m" "0 < n" "0 < m" "n < 10000" "m < 10000"
    using parts by (auto simp: n_def m_def)
  have in_int: "wrap32 (cursor_row t + 1) = int n" "wrap32 (cursor_col t + 1) = int m"
    using at by (simp_all add: in_int_bounds)
  define position where "position = digits_of n @ [59] @ digits_of m"
  define t' where "t' = send_output (To_stdin ([27, 91] @ position @ [82])) (after_escape t)"
  have "guac_terminal_write wcw junk ([27, 91] @ [54] @ [110]) t = Inr t'"
    using status_report_sequence [OF assms(2), of wcw junk] False in_int
    by (simp add: t'_def position_def print_int_def guac_terminal_send_string_def after_escape_def)
  moreover have "outputs t' = outputs t @ [To_stdin ([27, 91] @ position @ [82])]"
    by (simp add: t'_def after_escape_def)
  moreover have "guac_terminal_write wcw junk ([27, 91] @ position @ [72]) (t'\<lparr>cursor_row := row, cursor_col := col\<rparr>) =
      Inr (t'\<lparr>cursor_col := min (cursor_col t) (term_width t - 1)\<rparr>)" for row col
  proof -
    let ?u = "t'\<lparr>cursor_row := row, cursor_col := col\<rparr>"
    have "csi_idle ?u" using assms(2)
      by (auto simp: csi_idle_def idle_def char_mapping_def t'_def after_escape_def split: if_splits)
    from cursor_position_sequence [OF this at(5,6), of wcw junk]
    have "guac_terminal_write wcw junk ([27, 91] @ position @ [72]) ?u =
      Inr (guac_terminal_move_cursor (int n - 1) (int m - 1) (after_escape ?u))"
      using at(3,4) by (simp only: position_def append_assoc) simp
    moreover have "int n - 1 = cursor_row t" "int m - 1 = cursor_col t" using at by simp_all
    moreover have "guac_terminal_move_cursor (cursor_row t) (cursor_col t) (after_escape ?u) =
        t'\<lparr>cursor_col := min (cursor_col t) (term_width t - 1)\<rparr>"
      using parts by (auto simp: guac_terminal_move_cursor_def Let_def after_escape_def t'_def)
    ultimately show ?thesis by simp
  qed
  moreover have "cursor_row t' = cursor_row t" "cursor_col t' = cursor_col t" by (simp_all add: t'_def after_escape_def)
  ultimately show ?thesis using False by auto
qed

theorem cursor_report_roundtrip_witness:
  "\<exists>t position t'. guac_terminal_write (\<lambda>c. 1) 0 ([27, 91] @ [54] @ [110]) t = Inr t' \<and>
    outputs t' = outputs t @ [To_stdin ([27, 91] @ position @ [82])] \<and>
    guac_terminal_write (\<lambda>c. 1) 0 ([27, 91] @ position @ [72]) (t'\<lparr>cursor_row := 5, cursor_col := 7\<rparr>) =
      Inr (t'\<lparr>cursor_col := min (cursor_col t) (term_width t - 1)\<rparr>)"
proof -
  obtain t where t: "term_ok t" "buffers_ok t" "idle t" "cursor_col t = 0" "term_width t = 80"
    by (rule example_terminal)
  define u where "u = t\<lparr>input_stream := False, csi_argv := replicate 16 0, csi_argc := 0, csi_argv_buffer := [], csi_private_mode := 0\<rparr>"
  have u: "term_ok u" "csi_idle u" "\<not> input_stream u"
    using t by (auto simp: u_def csi_idle_def idle_def char_mapping_def term_ok_def control_ok_def INT_MAX_def split: if_splits)
  show ?thesis using cursor_report_roundtrip [OF u(1,2), of "\<lambda>c. 1" 0] unfolding if_not_P [OF u(3)] by blast
qed

end
