(* ===== verification/Clipboard.thy ===== *)
theory Clipboard
  imports Protocol Streams
begin

text \<open>
  The clipboard shared by the protocols (\<open>src/src/common/clipboard.c\<close>): resetting, appending, and the
  broadcast of its contents to the connected users as a stream of blobs. Its mutex only serializes the
  operations. The buffer is the list of the bytes stored so far, the type is a C string in 256 bytes.
\<close>

section \<open>Operations\<close>

definition GUAC_COMMON_CLIPBOARD_BLOCK_SIZE :: nat where "GUAC_COMMON_CLIPBOARD_BLOCK_SIZE = 4096"
definition GUAC_COMMON_CLIPBOARD_MAX_LENGTH :: int where "GUAC_COMMON_CLIPBOARD_MAX_LENGTH = 262144"

record guac_common_clipboard =
  clip_mimetype :: string
  clip_buffer :: "u8 list"
  clip_available :: int

text \<open>The type of a new clipboard is empty; the rest of its memory is not initialized.\<close>

definition guac_common_clipboard_alloc :: "string \<Rightarrow> guac_common_clipboard" where
  "guac_common_clipboard_alloc junk =
     \<lparr>clip_mimetype = overwrite junk 0 [NUL], clip_buffer = [], clip_available = GUAC_COMMON_CLIPBOARD_MAX_LENGTH\<rparr>"

definition guac_common_clipboard_reset :: "string \<Rightarrow> guac_common_clipboard \<Rightarrow> guac_common_clipboard" where
  "guac_common_clipboard_reset mimetype clipboard =
     clipboard\<lparr>clip_buffer := [], clip_mimetype := snd (guac_strlcpy (clip_mimetype clipboard) mimetype 256)\<rparr>"

definition guac_common_clipboard_append :: "u8 list \<Rightarrow> guac_common_clipboard \<Rightarrow> guac_common_clipboard" where
  "guac_common_clipboard_append data clipboard =
     (let remaining = clip_available clipboard - int (length (clip_buffer clipboard));
          n = (if remaining < int (length data) then remaining else int (length data))
      in clipboard\<lparr>clip_buffer := clip_buffer clipboard @ take (nat n) data\<rparr>)"

text \<open>The blocks of the contents, one blob each; the results of the senders are not looked at.\<close>

function send_blocks :: "int \<Rightarrow> u8 list \<Rightarrow> guac_socket \<Rightarrow> guac_socket" where
  "send_blocks stream data socket =
     (if data = [] then socket
      else
        let block_size = min (length data) GUAC_COMMON_CLIPBOARD_BLOCK_SIZE
        in send_blocks stream (drop block_size data) (snd (guac_protocol_send_blob stream (take block_size data) socket)))"
  by pat_completeness auto
termination
  by (relation "measure (\<lambda>(stream, data, socket). length data)") (auto simp: GUAC_COMMON_CLIPBOARD_BLOCK_SIZE_def)

declare send_blocks.simps [simp del]

text \<open>A user without a free stream: the stream is a null pointer, which is dereferenced.\<close>

definition send_user_clipboard ::
  "guac_common_clipboard \<Rightarrow> guac_user \<times> guac_socket \<Rightarrow> (guac_user \<times> guac_socket) result" where
  "send_user_clipboard clipboard = (\<lambda>(user, socket).
     bindr (guac_user_alloc_stream user) (\<lambda>(stream, user).
       case stream of
         None \<Rightarrow> Inl Undefined
       | Some k \<Rightarrow>
           let index = stream_index (user_output_streams user ! k);
               socket = snd (guac_protocol_send_clipboard index (bytes_of (cstr (clip_mimetype clipboard))) socket);
               socket = send_blocks index (clip_buffer clipboard) socket;
               socket = snd (guac_protocol_send_end index socket);
               socket = snd (guac_socket_flush socket)
           in bindr (guac_user_free_stream user k) (\<lambda>user. Inr (user, socket))))"

text \<open>The broadcast visits the users one after the other.\<close>

fun guac_common_clipboard_send ::
  "guac_common_clipboard \<Rightarrow> (guac_user \<times> guac_socket) list \<Rightarrow> (guac_user \<times> guac_socket) list result" where
  "guac_common_clipboard_send clipboard [] = Inr []"
| "guac_common_clipboard_send clipboard (u # us) =
     bindr (send_user_clipboard clipboard u) (\<lambda>u'.
     bindr (guac_common_clipboard_send clipboard us) (\<lambda>us'. Inr (u' # us')))"

section \<open>Contents\<close>

text \<open>The contents never exceed the buffer, and appending in pieces is appending at once.\<close>

definition clipboard_ok :: "guac_common_clipboard \<Rightarrow> bool" where
  "clipboard_ok clipboard \<longleftrightarrow>
     int (length (clip_buffer clipboard)) \<le> clip_available clipboard \<and> clip_available clipboard = GUAC_COMMON_CLIPBOARD_MAX_LENGTH \<and>
     length (clip_mimetype clipboard) = 256"

lemma clipboard_ok_alloc: "length junk = 256 \<Longrightarrow> clipboard_ok (guac_common_clipboard_alloc junk)"
  by (simp add: guac_common_clipboard_alloc_def clipboard_ok_def GUAC_COMMON_CLIPBOARD_MAX_LENGTH_def)

lemma append_contents:
  "clipboard_ok c \<Longrightarrow> guac_common_clipboard_append data c = c\<lparr>clip_buffer := take 262144 (clip_buffer c @ data)\<rparr>"
  by (auto simp: guac_common_clipboard_append_def clipboard_ok_def GUAC_COMMON_CLIPBOARD_MAX_LENGTH_def Let_def min_def
    nat_diff_distrib)

lemma clipboard_ok_append: "clipboard_ok c \<Longrightarrow> clipboard_ok (guac_common_clipboard_append data c)"
  by (simp add: append_contents) (auto simp: clipboard_ok_def GUAC_COMMON_CLIPBOARD_MAX_LENGTH_def)

lemma clipboard_ok_reset:
  assumes "clipboard_ok c"
  shows "clipboard_ok (guac_common_clipboard_reset m c)" "clip_buffer (guac_common_clipboard_reset m c) = []"
    and "cstring m \<Longrightarrow> length m < 256 \<Longrightarrow> cstr (clip_mimetype (guac_common_clipboard_reset m c)) = m"
  using assms by (simp_all add: guac_common_clipboard_reset_def clipboard_ok_def strlcpy_dest)

lemma append_append:
  "clipboard_ok c \<Longrightarrow>
     guac_common_clipboard_append b (guac_common_clipboard_append a c) = guac_common_clipboard_append (a @ b) c"
  using clipboard_ok_append [of c a] by (simp add: append_contents take_append min_def)

lemma append_nil: "clipboard_ok c \<Longrightarrow> guac_common_clipboard_append [] c = c"
  by (simp add: append_contents) (simp add: clipboard_ok_def GUAC_COMMON_CLIPBOARD_MAX_LENGTH_def)


section \<open>The broadcast\<close>

function blocks :: "u8 list \<Rightarrow> u8 list list" where
  "blocks data =
     (if data = [] then []
      else take GUAC_COMMON_CLIPBOARD_BLOCK_SIZE data # blocks (drop GUAC_COMMON_CLIPBOARD_BLOCK_SIZE data))"
  by pat_completeness auto
termination
  by (relation "measure length") (auto simp: GUAC_COMMON_CLIPBOARD_BLOCK_SIZE_def)

declare blocks.simps [simp del]

lemma concat_blocks: "concat (blocks data) = data"
  by (induction data rule: blocks.induct) (subst blocks.simps, auto)

lemma length_blocks: "b \<in> set (blocks data) \<Longrightarrow> b \<noteq> [] \<and> length b \<le> 4096"
proof (induction data rule: blocks.induct)
  case (1 data)
  then show ?case
    unfolding blocks.simps [of data] by (cases "data = []") (auto simp: GUAC_COMMON_CLIPBOARD_BLOCK_SIZE_def)
qed

abbreviation ready_socket :: "guac_socket \<Rightarrow> bool" where
  "ready_socket socket \<equiv> accepting socket \<and> ready socket = []"

lemma emits_snd:
  assumes "emits bs op" "ready_socket socket"
  shows "ready_socket (snd (op socket)) \<and> written (snd (op socket)) = written socket @ bs"
  using emitsD [OF assms(1), of socket "fst (op socket)" "snd (op socket)"] assms(2) by simp

lemma send_blocks_written:
  "ready_socket socket \<Longrightarrow> ready_socket (send_blocks stream data socket) \<and>
     written (send_blocks stream data socket) =
       written socket @ concat (map (\<lambda>b. instruction [bytes_of ''blob'', decimal_bytes stream, encode_ready b]) (blocks data))"
proof (induction stream data socket rule: send_blocks.induct)
  case (1 stream data socket)
  show ?case
  proof (cases "data = []")
    case True
    then show ?thesis using "1.prems" by (simp add: send_blocks.simps blocks.simps)
  next
    case False
    define n where "n = min (length data) GUAC_COMMON_CLIPBOARD_BLOCK_SIZE"
    have t: "take n data = take GUAC_COMMON_CLIPBOARD_BLOCK_SIZE data" "drop n data = drop GUAC_COMMON_CLIPBOARD_BLOCK_SIZE data"
      by (auto simp: n_def min_def)
    have "length (take n data) \<le> 1000000000" by (simp add: n_def GUAC_COMMON_CLIPBOARD_BLOCK_SIZE_def)
    note e = emits_snd [OF emits_blob [OF this] "1.prems", of stream]
    show ?thesis
      using 1(1) [OF False n_def conjunct1 [OF e]] e False
      unfolding send_blocks.simps [of stream data] blocks.simps [of data]
      by (simp add: Let_def n_def [symmetric] t)
  qed
qed

lemma flush_written: "written (snd (guac_socket_flush socket)) = written socket"
  by (simp add: guac_socket_flush_def split: list.splits)

text \<open>
  What is in the clipboard reaches a user whole: a user with a free stream is sent the type, the
  contents in order in blobs of at most 4096 bytes that are not empty, and the end of the stream, and
  the stream is free again afterwards. A user without a free stream crashes the process.
\<close>

theorem clipboard_reaches_user:
  assumes "user_streams.table_inv user" "accepting socket" "ready socket = []"
  shows "(-1 \<in> set (map stream_index (user_output_streams user)) \<longrightarrow>
     (\<exists>i pieces user' socket'. send_user_clipboard clipboard (user, socket) = Inr (user', socket') \<and>
        written socket' = written socket @
          instruction [bytes_of ''clipboard'', decimal_bytes i, bytes_of (cstr (clip_mimetype clipboard))] @
          concat (map (\<lambda>b. instruction [bytes_of ''blob'', decimal_bytes i, encode_ready b]) pieces) @
          instruction [bytes_of ''end'', decimal_bytes i] \<and>
        concat pieces = clip_buffer clipboard \<and> list_all (\<lambda>b. b \<noteq> [] \<and> length b \<le> 4096) pieces \<and>
        map stream_index (user_output_streams user') = map stream_index (user_output_streams user))) \<and>
    (-1 \<notin> set (map stream_index (user_output_streams user)) \<longrightarrow>
       send_user_clipboard clipboard (user, socket) = Inl Undefined)"
proof (intro conjI impI)
  let ?slots = "\<lambda>u. map stream_index (user_output_streams u)"
  assume free: "-1 \<in> set (?slots user)"
  obtain k u1 where k: "guac_user_alloc_stream user = Inr (Some k, u1)" "k < length (?slots user)" "?slots user ! k = -1"
    "?slots u1 = (?slots user)[k := 2 * int k]" "user_streams.table_inv u1"
    using user_streams.alloc_total [OF assms(1)] free by auto
  have open_slot: "k < length (?slots u1)" "?slots u1 ! k \<noteq> -1" using k(2,4) by simp_all
  obtain u2 where u2: "guac_user_free_stream u1 k = Inr u2" "?slots u2 = (?slots u1)[k := -1]"
    using user_streams.free_total [OF k(5) open_slot] by blast
  define i where "i = stream_index (user_output_streams u1 ! k)"
  define s1 where "s1 = snd (guac_protocol_send_clipboard i (bytes_of (cstr (clip_mimetype clipboard))) socket)"
  define s2 where "s2 = send_blocks i (clip_buffer clipboard) s1"
  define s3 where "s3 = snd (guac_protocol_send_end i s2)"
  have w1: "ready_socket s1 \<and> written s1 = written socket @ instruction [bytes_of ''clipboard'', decimal_bytes i, bytes_of (cstr (clip_mimetype clipboard))]"
    unfolding s1_def by (rule emits_snd [OF writes_emits [OF writes_clipboard]]) (use assms in simp)
  have w2: "ready_socket s2 \<and> written s2 = written s1 @ concat (map (\<lambda>b. instruction [bytes_of ''blob'', decimal_bytes i, encode_ready b]) (blocks (clip_buffer clipboard)))"
    unfolding s2_def by (rule send_blocks_written) (use w1 in simp)
  have w3: "written s3 = written s2 @ instruction [bytes_of ''end'', decimal_bytes i]"
    unfolding s3_def using emits_snd [OF writes_emits [OF writes_end]] w2 by simp
  have "send_user_clipboard clipboard (user, socket) = Inr (u2, snd (guac_socket_flush s3))"
    using k(1) u2(1) by (simp add: send_user_clipboard_def Let_def i_def s1_def s2_def s3_def)
  moreover have "?slots u2 = ?slots user" using k(2-4) u2(2) by (simp add: list_update_same_conv)
  moreover have "list_all (\<lambda>b. b \<noteq> [] \<and> length b \<le> 4096) (blocks (clip_buffer clipboard))"
    using length_blocks by (auto simp: list_all_iff)
  ultimately show "\<exists>i pieces user' socket'. send_user_clipboard clipboard (user, socket) = Inr (user', socket') \<and>
        written socket' = written socket @
          instruction [bytes_of ''clipboard'', decimal_bytes i, bytes_of (cstr (clip_mimetype clipboard))] @
          concat (map (\<lambda>b. instruction [bytes_of ''blob'', decimal_bytes i, encode_ready b]) pieces) @
          instruction [bytes_of ''end'', decimal_bytes i] \<and>
        concat pieces = clip_buffer clipboard \<and> list_all (\<lambda>b. b \<noteq> [] \<and> length b \<le> 4096) pieces \<and> ?slots user' = ?slots user"
    using w1 w2 w3 by (intro exI [of _ i] exI [of _ "blocks (clip_buffer clipboard)"] exI [of _ u2] exI [of _ "snd (guac_socket_flush s3)"])
      (simp add: flush_written concat_blocks)
next
  assume "-1 \<notin> set (map stream_index (user_output_streams user))"
  then show "send_user_clipboard clipboard (user, socket) = Inl Undefined"
    using user_streams.alloc_total [OF assms(1)] nth_mem [of _ "map stream_index (user_output_streams user)"]
    by (fastforce simp: send_user_clipboard_def)
qed

theorem clipboard_reaches_user_witness:
  "\<exists>i user' socket'. send_user_clipboard \<lparr>clip_mimetype = ''text/plain'' @ [NUL], clip_buffer = [104, 105], clip_available = 262144\<rparr>
      (new_user, \<lparr>written = [], outcomes = [], flush_outcomes = [], held = 0, ready = [], current_timestamp = 0, last_write_timestamp = 0\<rparr>) = Inr (user', socket')"
proof -
  have "-1 \<in> set (map stream_index (user_output_streams new_user))"
    by (simp add: new_user_def guac_user_alloc_def closed_stream_def)
  then show ?thesis using clipboard_reaches_user [OF new_user_inv(1), of
    "\<lparr>written = [], outcomes = [], flush_outcomes = [], held = 0, ready = [], current_timestamp = 0, last_write_timestamp = 0\<rparr>"
    "\<lparr>clip_mimetype = ''text/plain'' @ [NUL], clip_buffer = [104, 105], clip_available = 262144\<rparr>"]
    by (auto simp del: append.simps)
qed

end
