(* ===== verification/TermSelect.thy ===== *)
theory TermSelect
  imports TermReport Clipboard Utf8
begin

text \<open>
  Selecting text in the terminal emulator with the mouse and copying it to the clipboard
  (\<open>src/src/terminal/select.c\<close>, the double click of \<open>src/src/terminal/terminal.c\<close>).
\<close>

section \<open>State\<close>

text \<open>
  The terminal together with the clipboard it copies to; \<open>broadcasts\<close> collects the contents that were
  sent to the users.
\<close>

record terminal_clipboard =
  terminal :: guac_terminal
  clipboard :: guac_common_clipboard
  disable_copy :: bool
  broadcasts :: "guac_common_clipboard list"

section \<open>Selection\<close>

fun char_start :: "cells \<Rightarrow> nat \<Rightarrow> nat" where
  "char_start cs 0 = 0"
| "char_start cs (Suc n) = (if char_value (cs ! Suc n) = GUAC_CHAR_CONTINUATION then char_start cs n else Suc n)"

text \<open>The width of the character in a column, and the column where it starts.\<close>

definition guac_terminal_find_char :: "guac_terminal \<Rightarrow> int \<Rightarrow> int \<Rightarrow> int \<times> int" where
  "guac_terminal_find_char t row column =
     (case guac_terminal_buffer_get_columns (current_buffer t) row of
        None \<Rightarrow> (1, column)
      | Some (cs, wrapped, len) \<Rightarrow>
          if column \<ge> 0 \<and> column < int len
          then let start_column = char_start cs (nat column) in
               if char_value (cs ! start_column) \<noteq> GUAC_CHAR_CONTINUATION
               then (char_width (cs ! start_column), int start_column) else (1, column)
          else (1, column))"

definition guac_terminal_select_start :: "int \<Rightarrow> int \<Rightarrow> guac_terminal \<Rightarrow> guac_terminal" where
  "guac_terminal_select_start row column t =
     (let (width, column) = guac_terminal_find_char t row column
      in t\<lparr>selection_start_row := row, selection_end_row := row,
           selection_start_column := column, selection_end_column := column,
           selection_start_width := width, selection_end_width := width,
           text_selected := False, selection_committed := False\<rparr>)"

definition guac_terminal_select_update :: "int \<Rightarrow> int \<Rightarrow> guac_terminal \<Rightarrow> guac_terminal" where
  "guac_terminal_select_update row column t =
     (if row \<noteq> selection_end_row t \<or> column \<le> selection_end_column t
         \<or> column \<ge> wrap32 (selection_end_column t + selection_end_width t)
      then
        let (width, column) = guac_terminal_find_char t row column
        in t\<lparr>selection_end_row := row, selection_end_column := column, selection_end_width := width, text_selected := True\<rparr>
      else t)"

definition guac_terminal_select_resume :: "int \<Rightarrow> int \<Rightarrow> guac_terminal \<Rightarrow> guac_terminal" where
  "guac_terminal_select_resume row column t =
     (if \<not> text_selected t then t
      else
        let (start_row, start_column, end_row, end_column) = guac_terminal_select_normalized_range t;
            t = (if row > start_row \<or> row = start_row \<and> column > start_column
                 then t\<lparr>selection_start_row := start_row, selection_start_column := start_column\<rparr>
                 else t\<lparr>selection_start_row := end_row, selection_start_column := end_column\<rparr>)
        in guac_terminal_select_update row column (t\<lparr>selection_committed := False\<rparr>))"

section \<open>Copying\<close>

text \<open>The last column from \<open>start\<close> to \<open>n\<close> that is not empty.\<close>

fun last_filled :: "cells \<Rightarrow> nat \<Rightarrow> nat \<Rightarrow> nat" where
  "last_filled cs start 0 = 0"
| "last_filled cs start (Suc n) =
     (if Suc n > start \<and> char_value (cs ! Suc n) = 0 then last_filled cs start n else Suc n)"

definition copied_codepoint :: "cells \<Rightarrow> nat \<Rightarrow> nat \<Rightarrow> int" where
  "copied_codepoint cs eol i =
     (if char_value (cs ! i) = 0 \<and> i < eol then 32 else char_value (cs ! i))"

abbreviation ignored :: "int \<Rightarrow> bool" where
  "ignored codepoint \<equiv> codepoint = 0 \<or> codepoint = GUAC_CHAR_CONTINUATION"

text \<open>Convert codepoints from column \<open>i\<close> on while they fit in what remains of the buffer.\<close>

function fill_chunk :: "cells \<Rightarrow> nat \<Rightarrow> nat \<Rightarrow> nat \<Rightarrow> int \<Rightarrow> u8 list \<Rightarrow> nat \<times> u8 list" where
  "fill_chunk cs eol stop i remaining acc =
     (if i \<le> stop
      then
        let codepoint = copied_codepoint cs eol i in
        if ignored codepoint then fill_chunk cs eol stop (Suc i) remaining acc
        else
          let bytes = guac_utf8_write codepoint remaining in
          if bytes = [] then (i, acc)
          else fill_chunk cs eol stop (Suc i) (remaining - int (length bytes)) (acc @ bytes)
      else (i, acc))"
  by pat_completeness auto
termination
  by (relation "measure (\<lambda>(cs, eol, stop, i, remaining, acc). Suc stop - i)") auto

declare fill_chunk.simps [simp del]

text \<open>
  The chunks of 1024 bytes. A chunk that stays empty would repeat forever; with as many rounds as there
  are columns the fuel is enough (\<open>append_chunks_run\<close> below).
\<close>

fun append_chunks :: "nat \<Rightarrow> cells \<Rightarrow> nat \<Rightarrow> nat \<Rightarrow> nat \<Rightarrow> guac_common_clipboard \<Rightarrow> guac_common_clipboard result" where
  "append_chunks 0 cs eol stop i clip = (if i \<le> stop then Inl Diverged else Inr clip)"
| "append_chunks (Suc fuel) cs eol stop i clip =
     (if i \<le> stop
      then
        let (i, bytes) = fill_chunk cs eol stop i 1024 []
        in append_chunks fuel cs eol stop i (guac_common_clipboard_append bytes clip)
      else Inr clip)"

definition guac_terminal_clipboard_append_characters ::
  "cells \<Rightarrow> nat \<Rightarrow> int \<Rightarrow> int \<Rightarrow> guac_common_clipboard \<Rightarrow> guac_common_clipboard result" where
  "guac_terminal_clipboard_append_characters cs len start stop clip =
     (if start < 0 \<or> stop < 0 \<or> start \<ge> int len then Inr clip
      else
        let stop = (if stop \<ge> int len then int len - 1 else stop);
            eol = last_filled cs (nat start) (nat stop)
        in append_chunks (Suc (nat stop) - nat start) cs eol (nat stop) (nat start) clip)"

text \<open>\<open>n\<close> rows from \<open>row\<close> on.\<close>

fun copy_selected_rows ::
  "guac_terminal_buffer \<Rightarrow> int \<times> int \<times> int \<times> int \<Rightarrow> nat \<Rightarrow> int \<Rightarrow> bool \<Rightarrow> guac_common_clipboard \<Rightarrow>
     guac_common_clipboard result" where
  "copy_selected_rows buf region 0 row last_row_was_wrapped clip = Inr clip"
| "copy_selected_rows buf region (Suc n) row last_row_was_wrapped clip =
     (let (start_row, start_col, end_row, end_col) = region;
          clip = (if \<not> last_row_was_wrapped then guac_common_clipboard_append [10] clip else clip);
          (cs, wrapped, len) = (case guac_terminal_buffer_get_columns buf row of
                                  None \<Rightarrow> ([], last_row_was_wrapped, 0) | Some columns \<Rightarrow> columns)
      in bindr (guac_terminal_clipboard_append_characters cs len
                  (if row = start_row then start_col else 0)
                  (if row = end_row then end_col else int len - 1) clip)
           (copy_selected_rows buf region n (row + 1) wrapped))"

definition guac_terminal_select_end :: "'a terminal_clipboard_scheme \<Rightarrow> 'a terminal_clipboard_scheme result" where
  "guac_terminal_select_end s =
     (let t = terminal s in
      if \<not> text_selected t then Inr s
      else
        let t = t\<lparr>selection_committed := True\<rparr>;
            clip = guac_common_clipboard_reset ''text/plain'' (clipboard s);
            region = guac_terminal_select_normalized_range t;
            (start_row, start_col, end_row, end_col) = region
        in if end_row = INT_MAX then Inl Diverged
           else bindr (copy_selected_rows (current_buffer t) region (nat (end_row - start_row + 1)) start_row True clip)
             (\<lambda>clip. Inr (s\<lparr>terminal := t, clipboard := clip,
                broadcasts := (if disable_copy s then broadcasts s else broadcasts s @ [clip])\<rparr>)))"

section \<open>Words\<close>

definition guac_terminal_is_part_of_word :: "int \<Rightarrow> bool" where
  "guac_terminal_is_part_of_word c \<longleftrightarrow>
     (ch CHR ''0'' \<le> c \<and> c \<le> ch CHR ''9'') \<or> (ch CHR ''A'' \<le> c \<and> c \<le> ch CHR ''Z'') \<or>
     (ch CHR ''a'' \<le> c \<and> c \<le> ch CHR ''z'') \<or> c \<in> set (map of_char ''$%&-./:=?_~'') \<or> c = 92"

definition guac_terminal_is_blank :: "int \<Rightarrow> bool" where
  "guac_terminal_is_blank c \<longleftrightarrow> c = 0 \<or> c = 32"


fun word_head :: "(int \<Rightarrow> bool) \<Rightarrow> cells \<Rightarrow> nat \<Rightarrow> nat" where
  "word_head is_part cs 0 = 0"
| "word_head is_part cs (Suc n) = (if is_part (char_value (cs ! n)) then word_head is_part cs n else Suc n)"

function word_tail :: "(int \<Rightarrow> bool) \<Rightarrow> cells \<Rightarrow> int \<Rightarrow> nat \<Rightarrow> nat \<Rightarrow> nat" where
  "word_tail is_part cs width len n =
     (if int n + 1 < width \<and> n + 1 < len \<and> is_part (char_value (cs ! (n + 1))) then word_tail is_part cs width len (n + 1) else n)"
  by pat_completeness auto
termination
  by (relation "measure (\<lambda>(is_part, cs, width, len, n). len - n)") auto

declare word_tail.simps [simp del]

definition guac_terminal_double_click :: "int \<Rightarrow> int \<Rightarrow> guac_terminal \<Rightarrow> guac_terminal result" where
  "guac_terminal_double_click row col t =
     (let (cs, wrapped, len) = (case guac_terminal_buffer_get_columns (current_buffer t) row of
                                  None \<Rightarrow> ([], False, 0) | Some columns \<Rightarrow> columns)
      in if col \<ge> int len then Inr t
         else defined (0 \<le> col) (
           let c = char_value (cs ! nat col);
               is_part = (if guac_terminal_is_part_of_word c then Some guac_terminal_is_part_of_word
                          else if guac_terminal_is_blank c then Some guac_terminal_is_blank else None);
               (start, finish) = (case is_part of
                    None \<Rightarrow> (nat col, nat col)
                  | Some p \<Rightarrow> (word_head p cs (nat col), word_tail p cs (display_width (display t)) len (nat col)))
           in Inr (guac_terminal_select_update row (int finish) (guac_terminal_select_start row (int start) t))))"

section \<open>Chunks\<close>

lemma utf8_write_encode:
  "guac_utf8_write cp n = (if int (length (guac_terminal_encode_utf8 cp)) \<le> n then guac_terminal_encode_utf8 cp else [])"
  "guac_terminal_encode_utf8 cp \<noteq> []" "length (guac_terminal_encode_utf8 cp) \<le> 4"
proof -
  have l: "1 \<le> length (guac_terminal_encode_utf8 cp)" "length (guac_terminal_encode_utf8 cp) \<le> 4"
    using utf8_shape_bytes [of cp] length_utf8_encode
    by (auto simp: guac_terminal_encode_utf8_def split: option.splits)
  then show "guac_terminal_encode_utf8 cp \<noteq> []" "length (guac_terminal_encode_utf8 cp) \<le> 4" by auto
  show "guac_utf8_write cp n = (if int (length (guac_terminal_encode_utf8 cp)) \<le> n then guac_terminal_encode_utf8 cp else [])"
    using utf8_shape_bytes [of cp]
    by (auto simp: guac_utf8_write_def guac_terminal_encode_utf8_def length_utf8_encode split: option.splits)
qed

text \<open>The bytes that a column contributes.\<close>

definition copied :: "cells \<Rightarrow> nat \<Rightarrow> nat \<Rightarrow> u8 list" where
  "copied cs eol i =
     (let codepoint = copied_codepoint cs eol i in if ignored codepoint then [] else guac_terminal_encode_utf8 codepoint)"

lemma fill_chunk_run:
  "i \<le> Suc stop \<Longrightarrow> \<exists>j. fill_chunk cs eol stop i remaining acc = (j, acc @ concat (map (copied cs eol) [i..<j])) \<and>
     i \<le> j \<and> j \<le> Suc stop \<and> (4 \<le> remaining \<and> i \<le> stop \<longrightarrow> i < j)"
proof (induction cs eol stop i remaining acc rule: fill_chunk.induct)
  case (1 cs eol stop i remaining acc)
  let ?cp = "copied_codepoint cs eol i"
  show ?case
  proof (cases "i \<le> stop")
    case False
    then show ?thesis using "1.prems" by (subst fill_chunk.simps) simp
  next
    case True
    then have next_i: "Suc i \<le> Suc stop" by simp
    have cons: "[i..<j] = i # [Suc i..<j]" if "Suc i \<le> j" for j using that by (simp add: upt_conv_Cons)
    consider "ignored ?cp" | "\<not> ignored ?cp" "guac_utf8_write ?cp remaining = []"
      | "\<not> ignored ?cp" "guac_utf8_write ?cp remaining \<noteq> []" by blast
    then show ?thesis
    proof cases
      case 1
      obtain j where "fill_chunk cs eol stop (Suc i) remaining acc = (j, acc @ concat (map (copied cs eol) [Suc i..<j]))"
        "Suc i \<le> j" "j \<le> Suc stop" using "1.IH"(1) [OF True refl 1 next_i] by blast
      then show ?thesis using True 1 cons by (subst fill_chunk.simps) (auto simp: copied_def Let_def)
    next
      case 2
      have "\<not> 4 \<le> remaining" using 2(2) utf8_write_encode [of ?cp] by (auto split: if_splits)
      then show ?thesis using True 2 "1.prems" by (subst fill_chunk.simps) (auto simp: Let_def)
    next
      case 3
      have e: "guac_utf8_write ?cp remaining = guac_terminal_encode_utf8 ?cp"
        using 3(2) utf8_write_encode(1) [of ?cp remaining] by (auto split: if_splits)
      obtain j where "fill_chunk cs eol stop (Suc i) (remaining - int (length (guac_terminal_encode_utf8 ?cp))) (acc @ guac_terminal_encode_utf8 ?cp) =
          (j, (acc @ guac_terminal_encode_utf8 ?cp) @ concat (map (copied cs eol) [Suc i..<j]))"
        "Suc i \<le> j" "j \<le> Suc stop"
        using "1.IH"(2) [OF True refl 3(1) refl 3(2) next_i] unfolding e by blast
      then show ?thesis using True 3 cons e by (subst fill_chunk.simps) (auto simp: copied_def Let_def)
    qed
  qed
qed

lemma append_chunks_run:
  "clipboard_ok clip \<Longrightarrow> i \<le> Suc stop \<Longrightarrow> Suc stop - i \<le> fuel \<Longrightarrow>
     append_chunks fuel cs eol stop i clip =
       Inr (guac_common_clipboard_append (concat (map (copied cs eol) [i..<Suc stop])) clip)"
proof (induction fuel arbitrary: i clip)
  case 0
  then show ?case by (simp add: append_nil)
next
  case (Suc fuel)
  show ?case
  proof (cases "i \<le> stop")
    case False
    then show ?thesis using Suc.prems by (simp add: append_nil)
  next
    case True
    obtain j where j: "fill_chunk cs eol stop i 1024 [] = (j, concat (map (copied cs eol) [i..<j]))" "i < j" "j \<le> Suc stop"
      using fill_chunk_run [OF Suc.prems(2), of cs eol 1024 "[]"] True by auto
    have "[i..<Suc stop] = [i..<j] @ [j..<Suc stop]"
      using j(2,3) upt_add_eq_append [of i j "Suc stop - j"] by simp
    then show ?thesis
      using Suc.IH [OF clipboard_ok_append [OF Suc.prems(1)] j(3), of "concat (map (copied cs eol) [i..<j])"] Suc.prems j True
      by (simp add: append_append del: upt_Suc)
  qed
qed


lemma append_characters_run:
  assumes "clipboard_ok clip" "k \<le> e" "e < len"
  shows "\<exists>eol. guac_terminal_clipboard_append_characters cs len (int k) (int e) clip =
    Inr (guac_common_clipboard_append (concat (map (copied cs eol) [k..<Suc e])) clip)"
  using append_chunks_run [OF assms(1), of k e "Suc e - k" cs "last_filled cs k e"] assms(2,3)
  by (auto simp: guac_terminal_clipboard_append_characters_def Let_def)

section \<open>Selecting printed text\<close>

lemma encode_ascii: "c < 0x80 \<Longrightarrow> guac_terminal_encode_utf8 c = [word_of_int c]"
  by (simp add: guac_terminal_encode_utf8_def utf8_shape_def utf8_encode_def)

lemma copied_text:
  assumes "\<forall>i < length cs. char_value (cells ! (k + i)) = cs ! i" "\<forall>c \<in> set cs. 0x20 \<le> c \<and> c < 0x7F"
  shows "concat (map (copied cells eol) [k..<k + length cs]) = map word_of_int cs"
proof -
  have "copied cells eol (k + i) = [word_of_int (cs ! i)]" if i: "i < length cs" for i
  proof -
    have "0x20 \<le> cs ! i \<and> cs ! i < 0x7F" using assms(2) nth_mem [OF i] by blast
    then show ?thesis using assms(1) i by (simp add: copied_def copied_codepoint_def encode_ascii GUAC_CHAR_CONTINUATION_def)
  qed
  then have "map (copied cells eol) [k..<k + length cs] = map (\<lambda>c. [word_of_int c]) cs"
    by (intro nth_equalityI) simp_all
  then show ?thesis by (simp add: concat_map_singleton)
qed

text \<open>The cell that shows a printed character is found as it is.\<close>

lemma find_plain_char:
  assumes "guac_terminal_buffer_get_columns (current_buffer t) row = Some (cs, w, len)" "k < len"
    and "char_value (cs ! k) \<noteq> GUAC_CHAR_CONTINUATION" "char_width (cs ! k) = 1"
  shows "guac_terminal_find_char t row (int k) = (1, int k)"
proof -
  have "char_start cs k = k" using assms(3) by (cases k) simp_all
  then show ?thesis using assms by (simp add: guac_terminal_find_char_def)
qed

lemma select_keeps_buffer [simp]:
  "current_buffer (guac_terminal_select_start row col t) = current_buffer t"
  "current_buffer (guac_terminal_select_update row col t) = current_buffer t"
  by (simp_all add: guac_terminal_select_start_def guac_terminal_select_update_def current_buffer_def split: prod.splits)

lemma find_char_buffer: "current_buffer t = current_buffer t' \<Longrightarrow> guac_terminal_find_char t row col = guac_terminal_find_char t' row col"
  by (simp add: guac_terminal_find_char_def)

lemma select_text:
  assumes cols: "guac_terminal_buffer_get_columns (current_buffer t) row = Some (cells, w, len)" and n: "n \<noteq> 0" "k + n \<le> len" "len \<le> 1024"
    and plain: "\<forall>i < n. char_value (cells ! (k + i)) \<noteq> GUAC_CHAR_CONTINUATION \<and> char_width (cells ! (k + i)) = 1"
  obtains t' where "guac_terminal_select_update row (int (k + n) - 1) (guac_terminal_select_start row (int k) t) = t'"
    "text_selected t'" "current_buffer t' = current_buffer t"
    "guac_terminal_select_normalized_range t' = (row, int k, row, int (k + n) - 1)"
proof -
  have a: "guac_terminal_find_char t row (int k) = (1, int k)"
    using find_plain_char [OF cols, of k] n plain [rule_format, of 0] by simp
  define u where "u = guac_terminal_select_start row (int k) t"
  have e: "int (k + n) - 1 = int (k + (n - 1))" using n by simp
  have "guac_terminal_find_char t row (int (k + (n - 1))) = (1, int (k + (n - 1)))"
    using find_plain_char [OF cols, of "k + (n - 1)"] n plain [rule_format, of "n - 1"] by simp
  then have b: "guac_terminal_find_char u row (int (k + n) - 1) = (1, int (k + n) - 1)"
    using find_char_buffer [of u t] unfolding e u_def by simp
  have u: "selection_end_row u = row" "selection_end_column u = int k" "selection_end_width u = 1"
    "selection_start_row u = row" "selection_start_column u = int k" "selection_start_width u = 1"
    using a by (simp_all add: u_def guac_terminal_select_start_def)
  have "wrap32 (int k + 1) = int k + 1" using n by (simp add: in_int_bounds)
  then have cond: "row \<noteq> selection_end_row u \<or> int (k + n) - 1 \<le> selection_end_column u
      \<or> int (k + n) - 1 \<ge> wrap32 (selection_end_column u + selection_end_width u)"
    using u n by auto
  define v where "v = u\<lparr>selection_end_row := row, selection_end_column := int (k + n) - 1, selection_end_width := 1, text_selected := True\<rparr>"
  have "guac_terminal_select_update row (int (k + n) - 1) u = v"
    unfolding guac_terminal_select_update_def if_P [OF cond] b v_def by simp
  moreover have "current_buffer u = current_buffer t" by (simp add: u_def)
  then have "current_buffer v = current_buffer t" by (auto simp: v_def current_buffer_def split: if_splits)
  moreover have "guac_terminal_select_normalized_range v = (row, int k, row, int (k + n) - 1)"
    unfolding guac_terminal_select_normalized_range_def using u n by (simp add: v_def)
  moreover have "text_selected v" by (simp add: v_def)
  ultimately show thesis using that by (simp add: u_def)
qed

text \<open>Selecting a text of plain characters and releasing the mouse puts it into the clipboard.\<close>

lemma select_copies:
  assumes cols: "guac_terminal_buffer_get_columns (current_buffer t) r = Some (cells, w, len)"
    and len: "len \<le> 1024" "k + length cs \<le> len" "cs \<noteq> []" "r \<noteq> INT_MAX" and clip_ok: "clipboard_ok (clipboard s)"
    and vals: "\<forall>i < length cs. char_value (cells ! (k + i)) = cs ! i" "\<forall>i < length cs. char_width (cells ! (k + i)) = 1"
    and asc: "\<forall>c \<in> set cs. 0x20 \<le> c \<and> c < 0x7F"
  shows "\<exists>s'. guac_terminal_select_end (s\<lparr>terminal :=
      guac_terminal_select_update r (int (k + length cs) - 1) (guac_terminal_select_start r (int k) t)\<rparr>) = Inr s' \<and>
    clip_buffer (clipboard s') = map word_of_int cs \<and> cstr (clip_mimetype (clipboard s')) = ''text/plain'' \<and>
    broadcasts s' = (if disable_copy s then broadcasts s else broadcasts s @ [clipboard s'])"
proof -
  have plain: "\<forall>i < length cs. char_value (cells ! (k + i)) \<noteq> GUAC_CHAR_CONTINUATION \<and> char_width (cells ! (k + i)) = 1"
  proof (intro allI impI)
    fix i assume i: "i < length cs"
    then have "0x20 \<le> cs ! i" using asc nth_mem by blast
    then show "char_value (cells ! (k + i)) \<noteq> GUAC_CHAR_CONTINUATION \<and> char_width (cells ! (k + i)) = 1"
      using vals i by (simp add: GUAC_CHAR_CONTINUATION_def)
  qed
  have ne: "length cs \<noteq> 0" using len(3) by simp
  obtain u where u: "guac_terminal_select_update r (int (k + length cs) - 1) (guac_terminal_select_start r (int k) t) = u"
    "text_selected u" "current_buffer u = current_buffer t"
    "guac_terminal_select_normalized_range u = (r, int k, r, int (k + length cs) - 1)"
    by (rule select_text [OF cols ne len(2,1) plain])
  define u' where "u' = u\<lparr>selection_committed := True\<rparr>"
  have u': "guac_terminal_select_normalized_range u' = (r, int k, r, int (k + length cs) - 1)" "current_buffer u' = current_buffer t"
    using u(3,4) by (auto simp: u'_def guac_terminal_select_normalized_range_def current_buffer_def split: if_splits)
  define clip where "clip = guac_common_clipboard_reset ''text/plain'' (clipboard s)"
  have clip: "clipboard_ok clip" "clip_buffer clip = []" "cstr (clip_mimetype clip) = ''text/plain''"
    using clipboard_ok_reset [OF clip_ok] by (simp_all add: clip_def cstring_def)
  have last_col: "int (k + length cs) - 1 = int (k + length cs - 1)" "Suc (k + length cs - 1) = k + length cs" using ne by linarith+
  have "k \<le> k + length cs - 1" "k + length cs - 1 < len" using len(2) ne by linarith+
  from append_characters_run [OF clip(1) this, of cells, unfolded last_col(2)]
  obtain eol where app: "guac_terminal_clipboard_append_characters cells len (int k) (int (k + length cs) - 1) clip =
    Inr (guac_common_clipboard_append (concat (map (copied cells eol) [k..<k + length cs])) clip)"
    unfolding last_col(1) by blast
  define clip' where "clip' = guac_common_clipboard_append (map word_of_int cs) clip"
  have "length cs \<le> 262144" using len by simp
  then have clip': "clip_buffer clip' = map word_of_int cs" "clip_mimetype clip' = clip_mimetype clip"
    using append_contents [OF clip(1)] clip(2) by (simp_all add: clip'_def)
  have rows: "copy_selected_rows (current_buffer u') (r, int k, r, int (k + length cs) - 1) (nat (r - r + 1)) r True clip = Inr clip'"
    using app copied_text [OF vals(1) asc] cols by (simp add: u'(2) clip'_def)
  define s' where "s' = s\<lparr>terminal := u', clipboard := clip', broadcasts := (if disable_copy s then broadcasts s else broadcasts s @ [clip'])\<rparr>"
  have "guac_terminal_select_end (s\<lparr>terminal := u\<rparr>) = Inr s'"
    using u(2) rows len(4) by (simp add: guac_terminal_select_end_def u'_def [symmetric] u'(1) clip_def [symmetric] s'_def)
  then show ?thesis
    using u(1) clip' clip(3) by (intro exI [of _ s']) (simp add: s'_def)
qed

section \<open>The property\<close>

text \<open>
  C18. What was printed can be copied: after printable text has been written to an idle terminal,
  pressing the mouse on its first and releasing it on its last character leaves exactly the text in
  the clipboard, as plain text, and unless copying is disabled sends it to the users.
\<close>

theorem selection_copies_text:
  assumes "term_ok t" "buffers_ok t" "idle t" "\<forall>c \<in> set cs. 0x20 \<le> c \<and> c < 0x7F \<and> wcw c = 1" "cs \<noteq> []"
    and "cursor_col t + int (length cs) \<le> term_width t" "cursor_row t \<noteq> INT_MAX" "clipboard_ok (clipboard s)"
  shows "\<exists>t' s'. guac_terminal_write wcw junk cs t = Inr t' \<and>
    guac_terminal_select_end (s\<lparr>terminal :=
      guac_terminal_select_update (cursor_row t) (cursor_col t + int (length cs) - 1)
        (guac_terminal_select_start (cursor_row t) (cursor_col t) t')\<rparr>) = Inr s' \<and>
    clip_buffer (clipboard s') = map word_of_int cs \<and> cstr (clip_mimetype (clipboard s')) = ''text/plain'' \<and>
    broadcasts s' = (if disable_copy s then broadcasts s else broadcasts s @ [clipboard s'])"
proof -
  note parts = term_ok_parts [OF assms(1)]
  define k where "k = nat (cursor_col t)"
  define r where "r = cursor_row t"
  have k: "cursor_col t = int k" using parts by (simp add: k_def)
  obtain t' where t': "guac_terminal_write wcw junk cs t = Inr t'" "printed t cs t'"
    using print_text [OF printed_refl [OF assms(1,2)] assms(1-3), of cs wcw junk] parts assms(4,6) by auto
  obtain row where row: "ring_row (current_buffer t') r = Some row" "row_ok row" "k + length cs \<le> row_length row"
    "\<forall>i < length cs. cell_shows (cs ! i) (current_attributes t) (row_cells row ! (k + i))"
    using t'(2) assms(5) by (auto simp: printed_def k_def r_def)
  obtain w where cols: "guac_terminal_buffer_get_columns (current_buffer t') r = Some (characters row, w, row_length row)"
    using row(1) by (auto simp: ring_row_def guac_terminal_buffer_get_columns_def Let_def)
  have len: "row_length row \<le> 1024" using row(2) by (simp add: row_ok_def)
  have vals: "\<forall>i < length cs. char_value (characters row ! (k + i)) = cs ! i" "\<forall>i < length cs. char_width (characters row ! (k + i)) = 1"
    using row(3,4) by (auto simp: cell_shows_def)
  have asc: "\<forall>c \<in> set cs. 0x20 \<le> c \<and> c < 0x7F" using assms(4) by blast
  show ?thesis
    using t'(1) select_copies [OF cols len row(3) assms(5) _ assms(8) vals asc] assms(7) unfolding k r_def [symmetric] by auto
qed

theorem selection_copies_text_witness:
  "\<exists>t t' s'. guac_terminal_write (\<lambda>c. 1) 0 (map of_char ''ls'') t = Inr t' \<and>
    guac_terminal_select_end \<lparr>terminal = guac_terminal_select_update (cursor_row t) 1 (guac_terminal_select_start (cursor_row t) 0 t'),
      clipboard = guac_common_clipboard_alloc (replicate 256 (CHR ''x'')), disable_copy = False, broadcasts = []\<rparr> = Inr s' \<and>
    clip_buffer (clipboard s') = map of_char ''ls''"
proof -
  obtain t where t: "term_ok t" "buffers_ok t" "idle t" "cursor_col t = 0" "term_width t = 80"
    by (rule example_terminal)
  define s where "s = \<lparr>terminal = t, clipboard = guac_common_clipboard_alloc (replicate 256 (CHR ''x'')), disable_copy = False, broadcasts = []\<rparr>"
  have "clipboard_ok (clipboard s)" "cursor_row t \<noteq> INT_MAX"
    using term_ok_parts [OF t(1)] by (auto simp: s_def clipboard_ok_alloc INT_MAX_def)
  then have "\<exists>t' s'. guac_terminal_write (\<lambda>c. 1) 0 (map of_char ''ls'') t = Inr t' \<and>
    guac_terminal_select_end (s\<lparr>terminal :=
      guac_terminal_select_update (cursor_row t) (cursor_col t + int (length (map of_char ''ls'' :: int list)) - 1)
        (guac_terminal_select_start (cursor_row t) (cursor_col t) t')\<rparr>) = Inr s' \<and>
    clip_buffer (clipboard s') = map word_of_int (map of_char ''ls'') \<and> cstr (clip_mimetype (clipboard s')) = ''text/plain'' \<and>
    broadcasts s' = (if disable_copy s then broadcasts s else broadcasts s @ [clipboard s'])"
    by (intro selection_copies_text t(1-3)) (simp_all add: t(4,5))
  then obtain t' s' where h: "guac_terminal_write (\<lambda>c. 1) 0 (map of_char ''ls'') t = Inr t'"
    "guac_terminal_select_end (s\<lparr>terminal :=
      guac_terminal_select_update (cursor_row t) (cursor_col t + int (length (map of_char ''ls'' :: int list)) - 1)
        (guac_terminal_select_start (cursor_row t) (cursor_col t) t')\<rparr>) = Inr s'"
    "clip_buffer (clipboard s') = map word_of_int (map of_char ''ls'')" by blast
  have "int (length (map of_char ''ls'' :: int list)) - 1 = 1" by simp
  with h show ?thesis
    by (intro exI [of _ t] exI [of _ t'] exI [of _ s']) (simp add: s_def t(4))
qed

end
