(* ===== verification/TermScrollbar.thy ===== *)
theory TermScrollbar
  imports Prelude
begin

text \<open>
  The scrollbar of the terminal emulator (\<open>src/src/terminal/scrollbar.c\<close>): where its container and its
  handle are drawn, what dragging the handle does, and which mouse events it takes. The layers it draws
  on appear as the list of what is sent for them; \<open>int\<close> arithmetic that can overflow is written with
  \<open>wrap32\<close>.
\<close>

unbundle bit_operations_syntax

section \<open>State\<close>

definition SCROLLBAR_WIDTH :: int where "SCROLLBAR_WIDTH = 16"
definition GUAC_TERMINAL_SCROLLBAR_PADDING :: int where "GUAC_TERMINAL_SCROLLBAR_PADDING = 2"
definition GUAC_TERMINAL_SCROLLBAR_MIN_HEIGHT :: int where "GUAC_TERMINAL_SCROLLBAR_MIN_HEIGHT = 64"
definition GUAC_CLIENT_MOUSE_LEFT :: int where "GUAC_CLIENT_MOUSE_LEFT = 1"

record guac_terminal_scrollbar_render_state =
  handle_x :: int
  handle_y :: int
  handle_width :: int
  handle_height :: int
  container_x :: int
  container_y :: int
  container_width :: int
  container_height :: int

record guac_terminal_scrollbar =
  parent_width :: int
  parent_height :: int
  scroll_min :: int
  scroll_max :: int
  scroll_value :: int
  visible_area :: int
  render_state :: guac_terminal_scrollbar_render_state
  dragging_handle :: bool
  drag_offset_y :: int
  drag_current_y :: int

datatype scrollbar_output =
    Move_container int int
  | Draw_container int int
  | Move_handle int int
  | Draw_handle int int

section \<open>Operations\<close>

definition guac_terminal_scrollbar_parent_resized :: "int \<Rightarrow> int \<Rightarrow> int \<Rightarrow> guac_terminal_scrollbar \<Rightarrow> guac_terminal_scrollbar" where
  "guac_terminal_scrollbar_parent_resized width height area scrollbar =
     scrollbar\<lparr>parent_width := width, parent_height := height, visible_area := area\<rparr>"

text \<open>A new scrollbar; the two coordinates of a drag are not initialized.\<close>

definition guac_terminal_scrollbar_alloc :: "int \<Rightarrow> int \<Rightarrow> int \<Rightarrow> int \<Rightarrow> int \<Rightarrow> guac_terminal_scrollbar" where
  "guac_terminal_scrollbar_alloc junk junk' width height area =
     guac_terminal_scrollbar_parent_resized width height area
       \<lparr>parent_width = 0, parent_height = 0, scroll_min = 0, scroll_max = 0, scroll_value = 0, visible_area = 0,
        render_state = \<lparr>handle_x = 0, handle_y = 0, handle_width = 0, handle_height = 0,
                        container_x = 0, container_y = 0, container_width = 0, container_height = 0\<rparr>,
        dragging_handle = False, drag_offset_y = junk, drag_current_y = junk'\<rparr>"

definition calculate_state ::
  "guac_terminal_scrollbar \<Rightarrow> (guac_terminal_scrollbar_render_state \<times> int) result" where
  "calculate_state scrollbar =
     (let width = SCROLLBAR_WIDTH;
          height = parent_height scrollbar;
          max_handle_height = wrap32 (height - GUAC_TERMINAL_SCROLLBAR_PADDING * 2);
          scroll_delta = (if scroll_max scrollbar > scroll_min scrollbar
                          then wrap32 (scroll_max scrollbar - scroll_min scrollbar) else 0);
          divisor = wrap32 (scroll_delta + visible_area scrollbar)
      in defined (divisor \<noteq> 0) (
      let proportional_height = cdiv (wrap32 (max_handle_height * visible_area scrollbar)) divisor;
          height1 = (if proportional_height > GUAC_TERMINAL_SCROLLBAR_MIN_HEIGHT then proportional_height
                     else GUAC_TERMINAL_SCROLLBAR_MIN_HEIGHT);
          height2 = (if height1 > max_handle_height then max_handle_height else height1);
          min_handle_y = GUAC_TERMINAL_SCROLLBAR_PADDING;
          max_handle_y = wrap32 (min_handle_y + max_handle_height - height2);
          dragged = wrap32 (drag_current_y scrollbar - drag_offset_y scrollbar);
          dragged = (if dragged < min_handle_y then min_handle_y
                     else if dragged > max_handle_y then max_handle_y else dragged);
          y = (if dragging_handle scrollbar then dragged
               else if scroll_delta > 0
               then wrap32 (min_handle_y +
                      cdiv (wrap32 ((max_handle_y - min_handle_y) * (scroll_value scrollbar - scroll_min scrollbar))) scroll_delta)
               else GUAC_TERMINAL_SCROLLBAR_PADDING);
          v = (if dragging_handle scrollbar \<and> max_handle_y > min_handle_y
               then wrap32 (scroll_min scrollbar +
                      cdiv (wrap32 ((dragged - min_handle_y) * scroll_delta)) (max_handle_y - min_handle_y))
               else scroll_value scrollbar)
      in Inr (\<lparr>handle_x = GUAC_TERMINAL_SCROLLBAR_PADDING, handle_y = y,
               handle_width = width - GUAC_TERMINAL_SCROLLBAR_PADDING * 2, handle_height = height2,
               container_x = wrap32 (parent_width scrollbar - width), container_y = 0,
               container_width = width, container_height = height\<rparr>, v)))"

definition guac_terminal_scrollbar_set_bounds :: "int \<Rightarrow> int \<Rightarrow> guac_terminal_scrollbar \<Rightarrow> guac_terminal_scrollbar" where
  "guac_terminal_scrollbar_set_bounds lo hi scrollbar =
     (let v = scroll_value scrollbar;
          v = (if v > hi then hi else if v < lo then lo else v)
      in scrollbar\<lparr>scroll_value := v, scroll_min := lo, scroll_max := hi\<rparr>)"

definition guac_terminal_scrollbar_set_value :: "int \<Rightarrow> guac_terminal_scrollbar \<Rightarrow> guac_terminal_scrollbar" where
  "guac_terminal_scrollbar_set_value v scrollbar =
     scrollbar\<lparr>scroll_value :=
       (if v > scroll_max scrollbar then scroll_max scrollbar
        else if v < scroll_min scrollbar then scroll_min scrollbar else v)\<rparr>"

text \<open>What is sent for the container and for the handle, and all of it for a joining user.\<close>

definition guac_terminal_scrollbar_dup :: "guac_terminal_scrollbar \<Rightarrow> scrollbar_output list" where
  "guac_terminal_scrollbar_dup scrollbar =
     (let s = render_state scrollbar in
      [Draw_container (container_width s) (container_height s), Move_container (container_x s) (container_y s),
       Draw_handle (handle_width s) (handle_height s), Move_handle (handle_x s) (handle_y s)])"

text \<open>\<open>scroll_handler\<close> is the handler that is called when dragging changes the value.\<close>

definition guac_terminal_scrollbar_flush ::
  "(int \<Rightarrow> guac_terminal_scrollbar \<Rightarrow> guac_terminal_scrollbar) option \<Rightarrow> guac_terminal_scrollbar \<Rightarrow>
     (scrollbar_output list \<times> guac_terminal_scrollbar) result" where
  "guac_terminal_scrollbar_flush scroll_handler scrollbar =
     bindr (calculate_state scrollbar) (\<lambda>(new, new_value).
       let old = render_state scrollbar;
           notified = (case scroll_handler of
                         None \<Rightarrow> scrollbar
                       | Some f \<Rightarrow> if new_value \<noteq> scroll_value scrollbar then f new_value scrollbar else scrollbar)
       in Inr ((if container_x old \<noteq> container_x new \<or> container_y old \<noteq> container_y new
                then [Move_container (container_x new) (container_y new)] else []) @
               (if container_width old \<noteq> container_width new \<or> container_height old \<noteq> container_height new
                then [Draw_container (container_width new) (container_height new)] else []) @
               (if handle_x old \<noteq> handle_x new \<or> handle_y old \<noteq> handle_y new
                then [Move_handle (handle_x new) (handle_y new)] else []) @
               (if handle_width old \<noteq> handle_width new \<or> handle_height old \<noteq> handle_height new
                then [Draw_handle (handle_width new) (handle_height new)] else []),
               notified\<lparr>render_state := new\<rparr>))"

text \<open>Whether the event was taken by the scrollbar.\<close>

definition guac_terminal_scrollbar_handle_mouse ::
  "int \<Rightarrow> int \<Rightarrow> int \<Rightarrow> guac_terminal_scrollbar \<Rightarrow> bool \<times> guac_terminal_scrollbar" where
  "guac_terminal_scrollbar_handle_mouse x y msk scrollbar =
     (let s = render_state scrollbar;
          parent_left = container_x s; parent_top = container_y s;
          parent_right = wrap32 (parent_left + container_width s); parent_bottom = wrap32 (parent_top + container_height s);
          handle_left = wrap32 (parent_left + handle_x s); handle_top = wrap32 (parent_top + handle_y s);
          handle_right = wrap32 (handle_left + handle_width s); handle_bottom = wrap32 (handle_top + handle_height s)
      in if dragging_handle scrollbar
         then (True, if msk AND GUAC_CLIENT_MOUSE_LEFT \<noteq> 0 then scrollbar\<lparr>drag_current_y := y\<rparr>
                     else scrollbar\<lparr>dragging_handle := False\<rparr>)
         else if msk = GUAC_CLIENT_MOUSE_LEFT \<and> x \<ge> handle_left \<and> x < handle_right \<and> y \<ge> handle_top \<and> y < handle_bottom
         then (True, scrollbar\<lparr>dragging_handle := True, drag_offset_y := wrap32 (y - handle_top), drag_current_y := y\<rparr>)
         else (x \<ge> parent_left \<and> x < parent_right \<and> y \<ge> parent_top \<and> y < parent_bottom, scrollbar))"

section \<open>Bounds\<close>

text \<open>The sizes for which none of the products overflows.\<close>

definition scrollbar_ok :: "guac_terminal_scrollbar \<Rightarrow> bool" where
  "scrollbar_ok scrollbar \<longleftrightarrow>
     4 \<le> parent_height scrollbar \<and> parent_height scrollbar \<le> 16384 \<and>
     1 \<le> visible_area scrollbar \<and> visible_area scrollbar \<le> 1024 \<and>
     scroll_min scrollbar \<le> scroll_value scrollbar \<and> scroll_value scrollbar \<le> scroll_max scrollbar \<and>
     \<bar>scroll_min scrollbar\<bar> \<le> 65536 \<and> scroll_max scrollbar - scroll_min scrollbar \<le> 65536"

text \<open>A fraction of a length lies within the length.\<close>

lemma scaled_bounds:
  fixes a b n :: int
  assumes "0 \<le> a" "a \<le> n" "0 < n" "0 \<le> b"
  shows "0 \<le> b * a div n" "b * a div n \<le> b"
proof -
  show "0 \<le> b * a div n" using assms by (simp add: pos_imp_zdiv_nonneg_iff)
  have "b * a \<le> b * n" using assms by (intro mult_left_mono) auto
  then have "b * a div n \<le> b * n div n" using assms(3) by (intro zdiv_mono1) auto
  then show "b * a div n \<le> b" using assms(3) by simp
qed

lemma product_bounds:
  fixes a b :: int
  assumes "0 \<le> a" "a \<le> 16384" "0 \<le> b" "b \<le> 65536"
  shows "in_int (a * b)" "0 \<le> a * b"
proof -
  have "a * b \<le> 16384 * 65536" using assms by (intro mult_mono) auto
  then show "in_int (a * b)" "0 \<le> a * b" using assms by (simp_all add: in_int_bounds order_trans [of _ 0])
qed


text \<open>The room the handle can move in, and the position a value has there.\<close>

definition handle_size :: "guac_terminal_scrollbar \<Rightarrow> int" where
  "handle_size scrollbar =
     (let m = parent_height scrollbar - 4
      in min m (max GUAC_TERMINAL_SCROLLBAR_MIN_HEIGHT
                  (m * visible_area scrollbar div (scroll_max scrollbar - scroll_min scrollbar + visible_area scrollbar))))"

definition handle_room :: "guac_terminal_scrollbar \<Rightarrow> int" where
  "handle_room scrollbar = parent_height scrollbar - 4 - handle_size scrollbar"

lemma handle_room_bounds:
  assumes "scrollbar_ok s"
  shows "0 \<le> handle_size s" "0 \<le> handle_room s" "handle_room s \<le> 16380" "handle_size s \<le> 16380"
proof -
  let ?d = "scroll_max s - scroll_min s"
  have "0 \<le> (parent_height s - 4) * visible_area s div (?d + visible_area s)"
    using assms by (intro scaled_bounds) (auto simp: scrollbar_ok_def)
  then show "0 \<le> handle_size s" "0 \<le> handle_room s" "handle_room s \<le> 16380" "handle_size s \<le> 16380"
    using assms by (auto simp: handle_room_def handle_size_def Let_def scrollbar_ok_def GUAC_TERMINAL_SCROLLBAR_MIN_HEIGHT_def)
qed

definition dragged_to :: "guac_terminal_scrollbar \<Rightarrow> int" where
  "dragged_to s = max 0 (min (handle_room s) (wrap32 (drag_current_y s - drag_offset_y s) - 2))"

definition position_of :: "guac_terminal_scrollbar \<Rightarrow> int" where
  "position_of s =
     (if dragging_handle s then dragged_to s
      else if scroll_max s > scroll_min s
      then handle_room s * (scroll_value s - scroll_min s) div (scroll_max s - scroll_min s) else 0)"

definition value_of :: "guac_terminal_scrollbar \<Rightarrow> int" where
  "value_of s =
     (if dragging_handle s \<and> 0 < handle_room s
      then scroll_min s + dragged_to s * (scroll_max s - scroll_min s) div handle_room s else scroll_value s)"

lemma clamp_size: "(if (if (64::int) < p then p else 64) > m then m else if 64 < p then p else 64) = min m (max 64 p)"
  by simp

lemma calculate_state_run:
  assumes "scrollbar_ok s"
  shows "\<exists>x. calculate_state s = Inr (\<lparr>handle_x = 2, handle_y = 2 + position_of s, handle_width = 12, handle_height = handle_size s,
     container_x = x, container_y = 0, container_width = 16, container_height = parent_height s\<rparr>, value_of s)"
proof -
  let ?d = "scroll_max s - scroll_min s" and ?m = "parent_height s - 4" and ?a = "visible_area s"
  note ok = assms [unfolded scrollbar_ok_def]
  note room = handle_room_bounds [OF assms]
  have d: "(if scroll_max s > scroll_min s then wrap32 ?d else 0) = ?d" "0 \<le> ?d" "?d \<le> 65536"
    using ok by (auto simp: in_int_bounds)
  have m: "wrap32 (parent_height s - 2 * 2) = ?m" "0 \<le> ?m" "?m \<le> 16380" using ok by (auto simp: in_int_bounds)
  have div: "wrap32 (?d + ?a) = ?d + ?a" "?d + ?a \<noteq> 0" "0 < ?d + ?a" using ok by (auto simp: in_int_bounds)
  have p: "wrap32 (?m * ?a) = ?m * ?a" "0 \<le> ?m * ?a"
    using product_bounds [of ?m ?a] m ok by auto
  have h: "(let h1 = (if cdiv (?m * ?a) (?d + ?a) > 64 then cdiv (?m * ?a) (?d + ?a) else 64) in if h1 > ?m then ?m else h1) = handle_size s"
    unfolding cdiv_nonneg [OF p(2) div(3)]
    by (simp only: handle_size_def Let_def GUAC_TERMINAL_SCROLLBAR_MIN_HEIGHT_def clamp_size)
  have y: "wrap32 (2 + ?m - handle_size s) = 2 + handle_room s" "2 + handle_room s - 2 = handle_room s"
    using room ok by (simp_all add: handle_room_def in_int_bounds)
  define g where "g = wrap32 (drag_current_y s - drag_offset_y s)"
  have g: "(if g < 2 then 2 else if g > 2 + handle_room s then 2 + handle_room s else g) = 2 + dragged_to s"
    using room by (auto simp: dragged_to_def g_def)
  have dr: "0 \<le> dragged_to s" "dragged_to s \<le> handle_room s" using room by (auto simp: dragged_to_def)
  have v: "0 \<le> scroll_value s - scroll_min s" "scroll_value s - scroll_min s \<le> ?d" using ok by auto
  have y1: "wrap32 (handle_room s * (scroll_value s - scroll_min s)) = handle_room s * (scroll_value s - scroll_min s)"
    "0 \<le> handle_room s * (scroll_value s - scroll_min s)"
    using product_bounds [of "handle_room s" "scroll_value s - scroll_min s"] room v d by auto
  have y2: "wrap32 (2 + handle_room s * (scroll_value s - scroll_min s) div ?d) =
      2 + handle_room s * (scroll_value s - scroll_min s) div ?d" if "0 < ?d"
    using scaled_bounds [OF v that room(2)] room by (simp add: in_int_bounds)
  have v1: "wrap32 (dragged_to s * ?d) = dragged_to s * ?d" "0 \<le> dragged_to s * ?d"
    using product_bounds [of "dragged_to s" ?d] dr room d by auto
  have v2: "wrap32 (scroll_min s + dragged_to s * ?d div handle_room s) = scroll_min s + dragged_to s * ?d div handle_room s"
    if "0 < handle_room s"
    using scaled_bounds [OF dr that d(2)] d(3) ok
    by (intro wrap32_id) (simp add: in_int_bounds abs_le_iff mult.commute)
  show ?thesis
    unfolding calculate_state_def Let_def GUAC_TERMINAL_SCROLLBAR_PADDING_def GUAC_TERMINAL_SCROLLBAR_MIN_HEIGHT_def SCROLLBAR_WIDTH_def
      d(1) m(1) div(1) p(1) h [unfolded Let_def] y g_def [symmetric] g
    using div(2) d(2) y1 y2 v1 v2
    by (auto simp: position_of_def value_of_def)
qed

section \<open>The property\<close>

text \<open>
  The handle is drawn inside the container and the value stays within its limits: in a state within
  bounds the scrollbar is flushed without a fault, its handle lies within the padding, dragging gives a
  value within the limits - the lowest and the highest at the two ends - and without a drag the value
  stays; the new state is within bounds again.
\<close>

theorem scrollbar_stays_in_bounds:
  assumes "scrollbar_ok s"
  shows "\<exists>out s'. guac_terminal_scrollbar_flush (Some guac_terminal_scrollbar_set_value) s = Inr (out, s') \<and> scrollbar_ok s' \<and>
     (let r = render_state s' in
        2 \<le> handle_y r \<and> handle_y r + handle_height r \<le> container_height r - 2 \<and> 0 \<le> handle_height r \<and>
        container_height r = parent_height s) \<and>
     (\<not> dragging_handle s \<longrightarrow> scroll_value s' = scroll_value s) \<and>
     (dragging_handle s \<and> 0 < handle_room s \<and> dragged_to s = 0 \<longrightarrow> scroll_value s' = scroll_min s) \<and>
     (dragging_handle s \<and> 0 < handle_room s \<and> dragged_to s = handle_room s \<longrightarrow> scroll_value s' = scroll_max s)"
proof -
  obtain x where run: "calculate_state s = Inr (\<lparr>handle_x = 2, handle_y = 2 + position_of s, handle_width = 12, handle_height = handle_size s,
     container_x = x, container_y = 0, container_width = 16, container_height = parent_height s\<rparr>, value_of s)"
    using calculate_state_run [OF assms] by blast
  note ok = assms [unfolded scrollbar_ok_def]
  note room = handle_room_bounds [OF assms]
  have dr: "0 \<le> dragged_to s" "dragged_to s \<le> handle_room s" using room by (auto simp: dragged_to_def)
  have v: "0 \<le> scroll_value s - scroll_min s" "scroll_value s - scroll_min s \<le> scroll_max s - scroll_min s" using ok by auto
  have pos: "0 \<le> position_of s" "position_of s \<le> handle_room s"
    using dr scaled_bounds [OF v _ room(2)] room by (auto simp: position_of_def)
  have val: "scroll_min s \<le> value_of s" "value_of s \<le> scroll_max s"
    using scaled_bounds [OF dr, of "scroll_max s - scroll_min s"] ok by (auto simp: value_of_def mult.commute)
  then have fit: "(if value_of s > scroll_max s then scroll_max s else if value_of s < scroll_min s then scroll_min s else value_of s) = value_of s"
    by simp
  define s' where "s' = s\<lparr>scroll_value := value_of s, render_state := \<lparr>handle_x = 2, handle_y = 2 + position_of s, handle_width = 12,
     handle_height = handle_size s, container_x = x, container_y = 0, container_width = 16, container_height = parent_height s\<rparr>\<rparr>"
  have "guac_terminal_scrollbar_set_value (value_of s) s = s\<lparr>scroll_value := value_of s\<rparr>"
    unfolding guac_terminal_scrollbar_set_value_def fit ..
  then have notified: "(if value_of s \<noteq> scroll_value s then guac_terminal_scrollbar_set_value (value_of s) s else s) = s\<lparr>scroll_value := value_of s\<rparr>"
    by simp
  obtain out where s': "guac_terminal_scrollbar_flush (Some guac_terminal_scrollbar_set_value) s = Inr (out, s')"
    unfolding guac_terminal_scrollbar_flush_def run bindr_simps prod.case Let_def option.case notified s'_def by simp
  have st: "scroll_value s' = value_of s" "scroll_min s' = scroll_min s" "scroll_max s' = scroll_max s" "parent_height s' = parent_height s"
    "visible_area s' = visible_area s" "handle_y (render_state s') = 2 + position_of s" "handle_height (render_state s') = handle_size s"
    "container_height (render_state s') = parent_height s"
    by (simp_all add: s'_def)
  have "scrollbar_ok s'" using ok val by (simp add: scrollbar_ok_def st)
  moreover have "position_of s + handle_size s \<le> parent_height s - 4" using pos by (simp add: handle_room_def)
  ultimately show ?thesis
    using s' pos room by (auto simp: st Let_def value_of_def)
qed

theorem scrollbar_stays_in_bounds_witness:
  "\<exists>s out s'. dragging_handle s \<and> guac_terminal_scrollbar_flush (Some guac_terminal_scrollbar_set_value) s = Inr (out, s') \<and>
     scroll_value s' = -1000"
proof -
  define s where "s = (guac_terminal_scrollbar_set_bounds (-1000) 0 (guac_terminal_scrollbar_alloc 0 0 640 480 24))
    \<lparr>dragging_handle := True, drag_offset_y := 10, drag_current_y := 5\<rparr>"
  have ok: "scrollbar_ok s" and room: "0 < handle_room s" and top: "dragged_to s = 0" and m: "scroll_min s = -1000" "dragging_handle s"
    by (simp_all add: s_def scrollbar_ok_def guac_terminal_scrollbar_set_bounds_def guac_terminal_scrollbar_alloc_def
      guac_terminal_scrollbar_parent_resized_def handle_room_def handle_size_def dragged_to_def GUAC_TERMINAL_SCROLLBAR_MIN_HEIGHT_def in_int_bounds)
  show ?thesis using scrollbar_stays_in_bounds [OF ok] room top m by auto
qed

end
