(* ===== verification/TermInput.thy ===== *)
theory TermInput
  imports TermSelect TermScrollbar
begin

text \<open>
  What users send to the terminal emulator: keys, the mouse, pasted text and streams that replace the
  keyboard (\<open>src/src/terminal/terminal.c\<close>, \<open>src/src/terminal/terminal-stdin-stream.c\<close>). What is
  written to the standard input of the program in the terminal is an output of the model. The locks,
  the notification of the rendering thread and the image of the mouse cursor are left out.
\<close>

section \<open>State\<close>

datatype guac_terminal_cursor_type =
    GUAC_TERMINAL_CURSOR_BLANK
  | GUAC_TERMINAL_CURSOR_IBAR
  | GUAC_TERMINAL_CURSOR_POINTER

record terminal_input = terminal_clipboard +
  started :: bool
  current_cursor :: guac_terminal_cursor_type
  mod_alt :: bool
  mod_ctrl :: bool
  mod_meta :: bool
  mod_shift :: bool
  mouse_mask :: int
  click_timer :: int
  click_counter :: int
  scrollbar :: guac_terminal_scrollbar
  backspace :: int

section \<open>The keyboard\<close>

text \<open>Bytes for the standard input, unless it is read from a stream.\<close>

definition guac_terminal_send_data :: "bytes \<Rightarrow> guac_terminal \<Rightarrow> guac_terminal" where
  "guac_terminal_send_data data t = (if input_stream t then t else send_output (To_stdin data) t)"





definition clipboard_bytes :: "'a terminal_clipboard_scheme \<Rightarrow> bytes" where
  "clipboard_bytes s = map uint (clip_buffer (clipboard s))"



section \<open>The mouse\<close>

definition GUAC_CLIENT_MOUSE_MIDDLE :: int where "GUAC_CLIENT_MOUSE_MIDDLE = 2"
definition GUAC_CLIENT_MOUSE_RIGHT :: int where "GUAC_CLIENT_MOUSE_RIGHT = 4"
definition GUAC_CLIENT_MOUSE_SCROLL_UP :: int where "GUAC_CLIENT_MOUSE_SCROLL_UP = 8"
definition GUAC_CLIENT_MOUSE_SCROLL_DOWN :: int where "GUAC_CLIENT_MOUSE_SCROLL_DOWN = 16"
definition GUAC_TERMINAL_WHEEL_SCROLL_AMOUNT :: int where "GUAC_TERMINAL_WHEEL_SCROLL_AMOUNT = 3"

text \<open>The left button is pressed without shift: a click, a double click, or more.\<close>

definition click :: "int \<Rightarrow> int \<Rightarrow> int \<Rightarrow> int \<Rightarrow> terminal_input \<Rightarrow> terminal_input result" where
  "click now now' row col s =
     (let count = (if now - click_timer s > 300 then 0 else click_counter s);
          s = s\<lparr>click_timer := now', click_counter := wrap32 (count + 1)\<rparr>;
          t = terminal s
      in if count = 0 then Inr (s\<lparr>terminal := guac_terminal_select_start row col t\<rparr>)
         else if count = 1 then bindr (guac_terminal_double_click row col t) (\<lambda>t. Inr (s\<lparr>terminal := t\<rparr>))
         else Inr (s\<lparr>terminal := guac_terminal_select_update row (display_width (display t))
                                  (guac_terminal_select_start row 0 t)\<rparr>))"

text \<open>The state of the selection while the left button is held or released.\<close>

definition mouse_selection ::
  "int \<Rightarrow> int \<Rightarrow> int \<Rightarrow> int \<Rightarrow> int \<Rightarrow> int \<Rightarrow> int \<Rightarrow> int \<Rightarrow> int \<Rightarrow> terminal_input \<Rightarrow> terminal_input result" where
  "mouse_selection cw chh now now' released_mask pressed_mask msk x y s =
     (if released_mask AND GUAC_CLIENT_MOUSE_LEFT \<noteq> 0 then guac_terminal_select_end s
      else if msk AND GUAC_CLIENT_MOUSE_LEFT \<noteq> 0
      then
        let row = wrap32 (cdiv y chh - scroll_offset (terminal s)); col = cdiv x cw in
        if pressed_mask AND GUAC_CLIENT_MOUSE_LEFT \<noteq> 0
        then if mod_shift s then Inr (s\<lparr>terminal := guac_terminal_select_resume row col (terminal s)\<rparr>)
             else click now now' row col s
        else Inr (s\<lparr>terminal := guac_terminal_select_update row col (terminal s)\<rparr>)
      else Inr s)"

text \<open>
  The font gives the margin and the size of a character; \<open>now\<close> and \<open>now'\<close> are the two readings of
  the clock.
\<close>

definition guac_terminal_send_mouse ::
  "int \<Rightarrow> int \<Rightarrow> int \<Rightarrow> int \<Rightarrow> int \<Rightarrow> int \<Rightarrow> int \<Rightarrow> int \<Rightarrow> terminal_input \<Rightarrow> terminal_input result" where
  "guac_terminal_send_mouse margin cw chh now now' x y msk s =
     (if \<not> started s then Inr s
      else
        let released_mask = mouse_mask s AND NOT msk; pressed_mask = NOT (mouse_mask s) AND msk;
            (handled, bar) = guac_terminal_scrollbar_handle_mouse x y msk (scrollbar s);
            s = s\<lparr>scrollbar := bar\<rparr>
        in if handled then Inr (s\<lparr>current_cursor := GUAC_TERMINAL_CURSOR_POINTER\<rparr>)
           else
             let y = (if y \<ge> margin then y - margin else 0); x = (if x \<ge> margin then x - margin else 0);
                 s = s\<lparr>mouse_mask := msk, current_cursor := GUAC_TERMINAL_CURSOR_IBAR\<rparr>
             in if released_mask AND GUAC_CLIENT_MOUSE_RIGHT \<noteq> 0 \<or> released_mask AND GUAC_CLIENT_MOUSE_MIDDLE \<noteq> 0
                then Inr (s\<lparr>terminal := guac_terminal_send_data (clipboard_bytes s) (terminal s)\<rparr>)
                else
                  bindr (mouse_selection cw chh now now' released_mask pressed_mask msk x y s) (\<lambda>s.
                  bindr (if released_mask AND GUAC_CLIENT_MOUSE_SCROLL_UP \<noteq> 0
                         then bindr (guac_terminal_scroll_display_up GUAC_TERMINAL_WHEEL_SCROLL_AMOUNT (terminal s))
                                (\<lambda>t. Inr (s\<lparr>terminal := t\<rparr>)) else Inr s) (\<lambda>s.
                  if released_mask AND GUAC_CLIENT_MOUSE_SCROLL_DOWN \<noteq> 0
                  then bindr (guac_terminal_scroll_display_down GUAC_TERMINAL_WHEEL_SCROLL_AMOUNT (terminal s))
                         (\<lambda>t. Inr (s\<lparr>terminal := t\<rparr>)) else Inr s)))"

section \<open>Streams in place of the keyboard\<close>

definition GUAC_PROTOCOL_STATUS_SUCCESS :: int where "GUAC_PROTOCOL_STATUS_SUCCESS = 0"
definition GUAC_PROTOCOL_STATUS_RESOURCE_CONFLICT :: int where "GUAC_PROTOCOL_STATUS_RESOURCE_CONFLICT = 0x0205"

text \<open>The state, and the acknowledgement that is sent to the user.\<close>

definition guac_terminal_send_stream :: "terminal_input \<Rightarrow> terminal_input \<times> string \<times> int" where
  "guac_terminal_send_stream s =
     (if \<not> started s then (s, ''Terminal not yet started.'', GUAC_PROTOCOL_STATUS_RESOURCE_CONFLICT)
      else if input_stream (terminal s)
      then (s, ''STDIN is already being read from a stream.'', GUAC_PROTOCOL_STATUS_RESOURCE_CONFLICT)
      else (s\<lparr>terminal := (terminal s)\<lparr>input_stream := True\<rparr>\<rparr>, ''Now reading STDIN from stream.'', GUAC_PROTOCOL_STATUS_SUCCESS))"

text \<open>\<open>count\<close> is the result of the attempt to write the data.\<close>

definition guac_terminal_input_stream_blob_handler :: "int \<Rightarrow> bytes \<Rightarrow> terminal_input \<Rightarrow> terminal_input \<times> string \<times> int" where
  "guac_terminal_input_stream_blob_handler count data s =
     (if count \<le> 0 then (s, ''Attempt to write to STDIN failed.'', GUAC_PROTOCOL_STATUS_SUCCESS)
      else (s\<lparr>terminal := send_output (To_stdin data) (terminal s)\<rparr>, ''Data written to STDIN.'', GUAC_PROTOCOL_STATUS_SUCCESS))"

definition guac_terminal_input_stream_end_handler :: "terminal_input \<Rightarrow> terminal_input" where
  "guac_terminal_input_stream_end_handler s = s\<lparr>terminal := (terminal s)\<lparr>input_stream := False\<rparr>\<rparr>"

section \<open>The keyboard\<close>

text \<open>The state in which typed characters go to the program: nothing held, no stream, not scrolled back.\<close>

definition typing :: "terminal_input \<Rightarrow> bool" where
  "typing s \<longleftrightarrow> started s \<and> \<not> mod_alt s \<and> \<not> mod_ctrl s \<and> \<not> mod_meta s \<and> \<not> mod_shift s \<and>
     \<not> input_stream (terminal s) \<and> scroll_offset (terminal s) = 0"

definition stdin_after :: "bytes \<Rightarrow> terminal_input \<Rightarrow> terminal_input" where
  "stdin_after bs s = s\<lparr>current_cursor := GUAC_TERMINAL_CURSOR_BLANK, terminal := send_output (To_stdin bs) (terminal s)\<rparr>"

lemma stdin_after_typing [simp]: "typing (stdin_after bs s) = typing s"
  by (simp add: typing_def stdin_after_def)





end
