(* ===== verification/RdpFs.thy ===== *)
theory RdpFs
  imports Strings Pool
begin

text \<open>
  The drive that RDP connections share with the remote desktop (\<open>src/src/protocols/rdp/fs.c\<close>): the
  normalization of paths, their translation into the local directory, and the table of open files.

  The operating system is the rest of the world: each system call is recorded, and what it returns is
  taken from a list of replies, so a theorem for all lists holds whatever the file system does. Flags,
  errors and status codes of the C library and of WinPR appear by name.

  The table of files comes from an allocation that is not cleared, so a slot that no file was ever
  opened in (\<open>None\<close>) holds no value, and using it is undefined. The slot of a closed file keeps
  its values, but for the two paths, which freeing set to NULL; only its directory stream is dangling.
\<close>

section \<open>The operating system\<close>

datatype errno = ENFILE | ENOENT | ENOTDIR | ENOSPC | EISDIR | EACCES | EEXIST | EINVAL | ENOSYS | ENOTSUP | Other_errno

datatype open_flag = O_RDWR | O_WRONLY | O_CREAT | O_EXCL | O_TRUNC

datatype syscall =
    Mkdir string
  | Unlink "string option"
  | Rmdir "string option"
  | Rename "string option" string
  | Open string "open_flag set"
  | Fstat int
  | Lseek int u64
  | Read int nat
  | Write int "u8 list"
  | Ftruncate int int
  | Close int
  | Fdopendir int
  | Readdir int
  | Closedir int
  | Statvfs string

record file_stat =
  st_size :: u64
  st_ctime :: u64
  st_mtime :: u64
  st_atime :: u64
  st_is_directory :: bool

record reply =
  retval :: int
  error_number :: errno
  stat_data :: file_stat
  read_data :: "u8 list"
  entry_name :: "string option"
  space :: "int \<times> int \<times> int"

record operating_system =
  calls :: "syscall list"
  replies :: "reply list"

definition default_reply :: reply where
  "default_reply = \<lparr>retval = 0, error_number = Other_errno,
     stat_data = \<lparr>st_size = 0, st_ctime = 0, st_mtime = 0, st_atime = 0, st_is_directory = False\<rparr>,
     read_data = [], entry_name = None, space = (0, 0, 0)\<rparr>"

definition system_call :: "syscall \<Rightarrow> operating_system \<Rightarrow> reply \<times> operating_system" where
  "system_call c os =
     (case replies os of
        [] \<Rightarrow> (default_reply, os\<lparr>calls := calls os @ [c]\<rparr>)
      | r # rs \<Rightarrow> (r, os\<lparr>calls := calls os @ [c], replies := rs\<rparr>))"

section \<open>State\<close>

definition GUAC_RDP_FS_MAX_FILES :: nat where "GUAC_RDP_FS_MAX_FILES = 128"
definition GUAC_RDP_FS_MAX_PATH :: nat where "GUAC_RDP_FS_MAX_PATH = 4096"
definition GUAC_RDP_MAX_PATH_DEPTH :: nat where "GUAC_RDP_MAX_PATH_DEPTH = 64"

text \<open>The directory stream of a file; closing the file closes the stream and leaves the pointer.\<close>

datatype dir_pointer = No_dir | Dir_stream | Freed_dir

record guac_rdp_fs_file =
  file_id :: int
  absolute_path :: "string option"
  real_path :: "string option"
  file_fd :: int
  file_dir :: dir_pointer
  dir_pattern :: string
  is_directory :: bool
  file_size :: u64
  file_ctime :: u64
  file_mtime :: u64
  file_atime :: u64
  bytes_written :: u64

record guac_rdp_fs =
  drive_path :: string
  open_files :: int
  file_id_pool :: guac_pool
  files :: "guac_rdp_fs_file option list"
  disable_download :: bool
  disable_upload :: bool
  os :: operating_system

definition WINDOWS_TIME :: "u64 \<Rightarrow> u64" where
  "WINDOWS_TIME t = (t + 11644473600) * 10000000"

definition GUAC_RDP_FS_ENFILE :: int where "GUAC_RDP_FS_ENFILE = -1"
definition GUAC_RDP_FS_ENOENT :: int where "GUAC_RDP_FS_ENOENT = -2"
definition GUAC_RDP_FS_EINVAL :: int where "GUAC_RDP_FS_EINVAL = -8"
definition GUAC_RDP_FS_ENOSYS :: int where "GUAC_RDP_FS_ENOSYS = -9"

definition guac_rdp_fs_get_errorcode :: "errno \<Rightarrow> int" where
  "guac_rdp_fs_get_errorcode err =
     (case err of
        ENFILE \<Rightarrow> -1 | ENOENT \<Rightarrow> -2 | ENOTDIR \<Rightarrow> -3 | ENOSPC \<Rightarrow> -4 | EISDIR \<Rightarrow> -5 | EACCES \<Rightarrow> -6
      | EEXIST \<Rightarrow> -7 | EINVAL \<Rightarrow> -8 | ENOSYS \<Rightarrow> -9 | ENOTSUP \<Rightarrow> -10 | Other_errno \<Rightarrow> -8)"

datatype ntstatus =
    STATUS_NO_MORE_FILES | STATUS_NO_SUCH_FILE | STATUS_NOT_A_DIRECTORY | STATUS_DISK_FULL
  | STATUS_FILE_IS_A_DIRECTORY | STATUS_ACCESS_DENIED | STATUS_OBJECT_NAME_COLLISION
  | STATUS_INVALID_PARAMETER | STATUS_NOT_IMPLEMENTED | STATUS_NOT_SUPPORTED

definition guac_rdp_fs_get_status :: "int \<Rightarrow> ntstatus" where
  "guac_rdp_fs_get_status err =
     (if err = -1 then STATUS_NO_MORE_FILES
      else if err = -2 then STATUS_NO_SUCH_FILE
      else if err = -3 then STATUS_NOT_A_DIRECTORY
      else if err = -4 then STATUS_DISK_FULL
      else if err = -5 then STATUS_FILE_IS_A_DIRECTORY
      else if err = -6 then STATUS_ACCESS_DENIED
      else if err = -7 then STATUS_OBJECT_NAME_COLLISION
      else if err = -8 then STATUS_INVALID_PARAMETER
      else if err = -9 then STATUS_NOT_IMPLEMENTED
      else if err = -10 then STATUS_NOT_SUPPORTED
      else STATUS_INVALID_PARAMETER)"

section \<open>Paths\<close>

abbreviation separator :: "char \<Rightarrow> bool" where
  "separator c \<equiv> c = CHR ''/'' \<or> c = CHR 0x5C"

text \<open>A complete component of a path: \<open>..\<close> moves up, \<open>.\<close> and nothing stay, anything else is added.\<close>

definition push_component :: "string \<Rightarrow> string list \<Rightarrow> string list option" where
  "push_component current components =
     (if current = ''..'' then Some (butlast components)
      else if current \<noteq> ''.'' \<and> current \<noteq> []
      then (if length components \<ge> GUAC_RDP_MAX_PATH_DEPTH then None else Some (components @ [current]))
      else Some components)"

text \<open>The characters of the path; its end closes the last component.\<close>

fun scan_components :: "string \<Rightarrow> string list \<Rightarrow> string \<Rightarrow> string list option" where
  "scan_components current components [] = push_component current components"
| "scan_components current components (c # cs) =
     (if separator c
      then (case push_component current components of
              None \<Rightarrow> None
            | Some components \<Rightarrow> scan_components [] components cs)
      else if c = CHR '':'' then None
      else scan_components (current @ [c]) components cs)"

text \<open>\<open>None\<close> when the normalization fails; otherwise the contents of the buffer \<open>abs_path\<close>.\<close>

definition guac_rdp_fs_normalize_path :: "string \<Rightarrow> string \<Rightarrow> string option" where
  "guac_rdp_fs_normalize_path path abs_path =
     (case path of
        [] \<Rightarrow> None
      | c # cs \<Rightarrow>
          if \<not> separator c then None
          else
            let (len, path_scratch) = guac_strlcpy (replicate (GUAC_RDP_FS_MAX_PATH - 1) NUL) cs (GUAC_RDP_FS_MAX_PATH - 1) in
            if len \<ge> GUAC_RDP_FS_MAX_PATH - 1 then None
            else map_option
              (\<lambda>components. CHR 0x5C # snd (guac_strljoin (drop 1 abs_path) components [CHR 0x5C] (GUAC_RDP_FS_MAX_PATH - 1)))
              (scan_components [] [] (take len path_scratch)))"

text \<open>
  The translation into the local directory; both loops stop when the buffer is full, and the second
  one replaces the backslashes.
\<close>

definition guac_rdp_fs_translate_path :: "guac_rdp_fs \<Rightarrow> string \<Rightarrow> string" where
  "guac_rdp_fs_translate_path fs virtual_path =
     (let start = take (GUAC_RDP_FS_MAX_PATH - 1) (drive_path fs)
      in start @ map (\<lambda>c. if c = CHR 0x5C then CHR ''/'' else c)
                   (take (GUAC_RDP_FS_MAX_PATH - 1 - length start) virtual_path))"

fun basename_loop :: "string \<Rightarrow> string \<Rightarrow> string" where
  "basename_loop path [] = path"
| "basename_loop path (c # cs) = basename_loop (if separator c then cs else path) cs"

definition guac_rdp_fs_basename :: "string \<Rightarrow> string" where
  "guac_rdp_fs_basename path = basename_loop path path"

text \<open>
  The three copies that combine a path with one relative to it. The lengths are those of the sources,
  so after a parent that fills the buffer the next copy would start past its end.
\<close>

definition guac_rdp_fs_convert_path :: "string \<Rightarrow> string \<Rightarrow> string \<Rightarrow> string option result" where
  "guac_rdp_fs_convert_path parent rel_path abs_path =
     (let n = GUAC_RDP_FS_MAX_PATH;
          (len1, b1) = guac_strlcpy (replicate n NUL) parent n
      in defined (len1 \<le> n) (
         let (len2, r2) = guac_strlcpy (drop len1 b1) [CHR 0x5C] (n - len1);
             b2 = take len1 b1 @ r2; l2 = len1 + len2
         in defined (l2 \<le> n) (
            let (len3, r3) = guac_strlcpy (drop l2 b2) rel_path (n - l2)
            in Inr (guac_rdp_fs_normalize_path (cstr (take l2 b2 @ r3)) abs_path))))"

text \<open>Append a filename to a path; \<open>None\<close> for names that are not allowed and paths that are too long.\<close>

fun append_name :: "string \<Rightarrow> string \<Rightarrow> string option" where
  "append_name fullpath [] = (if length fullpath < GUAC_RDP_FS_MAX_PATH then Some fullpath else None)"
| "append_name fullpath (c # cs) =
     (if length fullpath \<ge> GUAC_RDP_FS_MAX_PATH then None
      else if separator c then None
      else append_name (fullpath @ [c]) cs)"

definition guac_rdp_fs_append_filename :: "string \<Rightarrow> string \<Rightarrow> string option" where
  "guac_rdp_fs_append_filename path filename =
     (if filename = ''.'' \<or> filename = ''..'' then None
      else append_name
             (if length path \<ge> GUAC_RDP_FS_MAX_PATH then take GUAC_RDP_FS_MAX_PATH path
              else if path \<noteq> [] \<and> \<not> separator (last path) then path @ ''/'' else path)
             filename)"

text \<open>The name of the C function suggests the contrary: its result is true when the pattern does not match.\<close>

definition guac_rdp_fs_matches :: "(string \<Rightarrow> string \<Rightarrow> int) \<Rightarrow> string \<Rightarrow> string \<Rightarrow> bool" where
  "guac_rdp_fs_matches fnmatch filename pattern \<longleftrightarrow> fnmatch pattern filename \<noteq> 0"

section \<open>Files\<close>

definition guac_rdp_fs_alloc :: "string \<Rightarrow> bool \<Rightarrow> bool \<Rightarrow> bool \<Rightarrow> operating_system \<Rightarrow> guac_rdp_fs" where
  "guac_rdp_fs_alloc path create_drive_path no_download no_upload sys =
     \<lparr>drive_path = path, open_files = 0, file_id_pool = guac_pool_alloc 0,
      files = replicate GUAC_RDP_FS_MAX_FILES None, disable_download = no_download, disable_upload = no_upload,
      os = (if create_drive_path then snd (system_call (Mkdir path) sys) else sys)\<rparr>"

definition fs_call :: "syscall \<Rightarrow> guac_rdp_fs \<Rightarrow> reply \<times> guac_rdp_fs" where
  "fs_call c fs = (case system_call c (os fs) of (r, sys) \<Rightarrow> (r, fs\<lparr>os := sys\<rparr>))"

text \<open>
  The file with the given ID, as \<open>guac_rdp_fs_get_file\<close> returns it, for the rest of an operation. Any
  ID in the range of the table is a file, whether it is open or not; reading a slot that was never
  filled is undefined.
\<close>

definition with_file :: "guac_rdp_fs \<Rightarrow> int \<Rightarrow> 'a result \<Rightarrow> (guac_rdp_fs_file \<Rightarrow> 'a result) \<Rightarrow> 'a result" where
  "with_file fs i missing k =
     (if i < 0 \<or> i \<ge> int GUAC_RDP_FS_MAX_FILES then missing
      else (case files fs ! nat i of None \<Rightarrow> Inl Undefined | Some file \<Rightarrow> k file))"

datatype access_right =
    GENERIC_ALL | GENERIC_WRITE | GENERIC_READ | FILE_WRITE_DATA | FILE_APPEND_DATA | FILE_READ_DATA | Other_right

datatype disposition =
    FILE_CREATE | FILE_OPEN | FILE_OPEN_IF | FILE_OVERWRITE | FILE_OVERWRITE_IF | FILE_SUPERSEDE | Other_disposition

text \<open>Translate access into flags; read-only is no flag.\<close>

definition access_flags :: "access_right set \<Rightarrow> open_flag set" where
  "access_flags access =
     (let writes = GENERIC_WRITE \<in> access \<or> FILE_WRITE_DATA \<in> access \<or> FILE_APPEND_DATA \<in> access;
          reads = GENERIC_READ \<in> access \<or> FILE_READ_DATA \<in> access
      in if GENERIC_ALL \<in> access then {O_RDWR}
         else if writes \<and> reads then {O_RDWR}
         else if writes then {O_WRONLY}
         else {})"

text \<open>The flags the disposition adds; \<open>None\<close> if it is not recognised.\<close>

definition disposition_flags :: "disposition \<Rightarrow> open_flag set option" where
  "disposition_flags d =
     (case d of
        FILE_CREATE \<Rightarrow> Some {O_CREAT, O_EXCL}
      | FILE_OPEN \<Rightarrow> Some {}
      | FILE_OPEN_IF \<Rightarrow> Some {O_CREAT}
      | FILE_OVERWRITE \<Rightarrow> Some {O_TRUNC}
      | FILE_OVERWRITE_IF \<Rightarrow> Some {O_CREAT, O_TRUNC}
      | FILE_SUPERSEDE \<Rightarrow> Some {O_CREAT, O_TRUNC}
      | Other_disposition \<Rightarrow> None)"

text \<open>Open the file natively, once more without writing if it is a directory.\<close>

definition open_native :: "string \<Rightarrow> open_flag set \<Rightarrow> guac_rdp_fs \<Rightarrow> reply \<times> guac_rdp_fs" where
  "open_native path flags fs =
     (let (r, fs) = fs_call (Open path flags) fs
      in if retval r = -1 \<and> error_number r = EISDIR then fs_call (Open path (flags - {O_WRONLY, O_RDWR})) fs else (r, fs))"

text \<open>Enter the opened file into the table.\<close>

definition register_file :: "string \<Rightarrow> string \<Rightarrow> int \<Rightarrow> guac_rdp_fs \<Rightarrow> (int \<times> guac_rdp_fs) result" where
  "register_file normalized real fd fs =
     bindr (guac_pool_next_int_below_or_die (file_id_pool fs) (int GUAC_RDP_FS_MAX_FILES)) (\<lambda>(i, pool).
       let (r, fs) = fs_call (Fstat fd) (fs\<lparr>file_id_pool := pool\<rparr>);
           known = (retval r = 0); st = stat_data r;
           file = \<lparr>file_id = i, absolute_path = Some normalized, real_path = Some real, file_fd = fd, file_dir = No_dir, dir_pattern = [],
                   is_directory = (known \<and> st_is_directory st),
                   file_size = (if known then st_size st else 0),
                   file_ctime = (if known then WINDOWS_TIME (st_ctime st) else 0),
                   file_mtime = (if known then WINDOWS_TIME (st_mtime st) else 0),
                   file_atime = (if known then WINDOWS_TIME (st_atime st) else 0),
                   bytes_written = 0\<rparr>
       in Inr (i, fs\<lparr>files := (files fs)[nat i := Some file], open_files := open_files fs + 1\<rparr>))"

definition open_real ::
  "string \<Rightarrow> string \<Rightarrow> open_flag set \<Rightarrow> disposition \<Rightarrow> bool \<Rightarrow> guac_rdp_fs \<Rightarrow> (int \<times> guac_rdp_fs) result" where
  "open_real normalized real flags d directory_file fs =
     (case disposition_flags d of
        None \<Rightarrow> Inr (GUAC_RDP_FS_ENOSYS, fs)
      | Some added \<Rightarrow>
          let flags = flags \<union> added;
              fs = (if d = FILE_SUPERSEDE then snd (fs_call (Unlink (Some real)) fs) else fs);
              create_directory = (directory_file \<and> O_CREAT \<in> flags);
              (r, fs) = (if create_directory then fs_call (Mkdir real) fs else (default_reply, fs))
          in if create_directory \<and> retval r \<noteq> 0 \<and> (error_number r \<noteq> EEXIST \<or> O_EXCL \<in> flags)
             then Inr (guac_rdp_fs_get_errorcode (error_number r), fs)
             else
               let flags = (if create_directory then flags - {O_CREAT, O_EXCL} else flags);
                   (r, fs) = open_native real flags fs
               in if retval r = -1 then Inr (guac_rdp_fs_get_errorcode (error_number r), fs)
                  else register_file normalized real (retval r) fs)"

text \<open>\<open>junk\<close> is what the buffer for the normalized path held.\<close>

definition guac_rdp_fs_open ::
  "string \<Rightarrow> string \<Rightarrow> access_right set \<Rightarrow> disposition \<Rightarrow> bool \<Rightarrow> guac_rdp_fs \<Rightarrow> (int \<times> guac_rdp_fs) result" where
  "guac_rdp_fs_open junk path access d directory_file fs =
     (if open_files fs \<ge> int GUAC_RDP_FS_MAX_FILES then Inr (GUAC_RDP_FS_ENFILE, fs)
      else
        let path' = (if path = [] then [CHR 0x5C] else path) in
        if \<not> separator (hd path') then Inr (GUAC_RDP_FS_ENOENT, fs)
        else (case guac_rdp_fs_normalize_path path' junk of
                None \<Rightarrow> Inr (GUAC_RDP_FS_ENOENT, fs)
              | Some buf \<Rightarrow>
                  open_real (cstr buf) (guac_rdp_fs_translate_path fs (cstr buf)) (access_flags access) d directory_file fs))"

definition guac_rdp_fs_read :: "int \<Rightarrow> u64 \<Rightarrow> nat \<Rightarrow> guac_rdp_fs \<Rightarrow> (int \<times> u8 list \<times> guac_rdp_fs) result" where
  "guac_rdp_fs_read i offset len fs =
     with_file fs i (Inr (GUAC_RDP_FS_EINVAL, [], fs)) (\<lambda>file.
       let fs = snd (fs_call (Lseek (file_fd file) offset) fs);
           (r, fs) = fs_call (Read (file_fd file) len) fs
       in if retval r < 0 then Inr (guac_rdp_fs_get_errorcode (error_number r), [], fs)
          else Inr (retval r, read_data r, fs))"

definition guac_rdp_fs_write :: "int \<Rightarrow> u64 \<Rightarrow> u8 list \<Rightarrow> guac_rdp_fs \<Rightarrow> (int \<times> guac_rdp_fs) result" where
  "guac_rdp_fs_write i offset data fs =
     with_file fs i (Inr (GUAC_RDP_FS_EINVAL, fs)) (\<lambda>file.
       let fs = snd (fs_call (Lseek (file_fd file) offset) fs);
           (r, fs) = fs_call (Write (file_fd file) data) fs
       in if retval r < 0 then Inr (guac_rdp_fs_get_errorcode (error_number r), fs)
          else Inr (retval r, fs\<lparr>files := (files fs)[nat i :=
                 Some (file\<lparr>bytes_written := bytes_written file + word_of_int (retval r)\<rparr>)]\<rparr>))"

definition guac_rdp_fs_rename :: "string \<Rightarrow> int \<Rightarrow> string \<Rightarrow> guac_rdp_fs \<Rightarrow> (int \<times> guac_rdp_fs) result" where
  "guac_rdp_fs_rename junk i new_path fs =
     with_file fs i (Inr (GUAC_RDP_FS_EINVAL, fs)) (\<lambda>file.
       case guac_rdp_fs_normalize_path new_path junk of
         None \<Rightarrow> Inr (GUAC_RDP_FS_ENOENT, fs)
       | Some buf \<Rightarrow>
           let (r, fs) = fs_call (Rename (real_path file) (guac_rdp_fs_translate_path fs (cstr buf))) fs
           in Inr (if retval r \<noteq> 0 then guac_rdp_fs_get_errorcode (error_number r) else 0, fs))"

definition guac_rdp_fs_delete :: "int \<Rightarrow> guac_rdp_fs \<Rightarrow> (int \<times> guac_rdp_fs) result" where
  "guac_rdp_fs_delete i fs =
     with_file fs i (Inr (GUAC_RDP_FS_EINVAL, fs)) (\<lambda>file.
       let (r, fs) = fs_call (if is_directory file then Rmdir (real_path file) else Unlink (real_path file)) fs
       in Inr (if retval r \<noteq> 0 then guac_rdp_fs_get_errorcode (error_number r) else 0, fs))"

definition guac_rdp_fs_truncate :: "int \<Rightarrow> int \<Rightarrow> guac_rdp_fs \<Rightarrow> (int \<times> guac_rdp_fs) result" where
  "guac_rdp_fs_truncate i len fs =
     with_file fs i (Inr (GUAC_RDP_FS_EINVAL, fs)) (\<lambda>file.
       let (r, fs) = fs_call (Ftruncate (file_fd file) len) fs
       in Inr (if retval r \<noteq> 0 then guac_rdp_fs_get_errorcode (error_number r) else 0, fs))"

definition guac_rdp_fs_close :: "int \<Rightarrow> guac_rdp_fs \<Rightarrow> guac_rdp_fs result" where
  "guac_rdp_fs_close i fs =
     with_file fs i (Inr fs) (\<lambda>file.
       defined (file_dir file \<noteq> Freed_dir) (
         let fs = (if file_dir file = Dir_stream then snd (fs_call (Closedir (file_fd file)) fs) else fs);
             fs = snd (fs_call (Close (file_fd file)) fs);
             file = file\<lparr>absolute_path := None, real_path := None,
                         file_dir := (if file_dir file = Dir_stream then Freed_dir else file_dir file)\<rparr>
         in bindr (guac_pool_free_int True (file_id_pool fs) i) (\<lambda>pool.
              Inr (fs\<lparr>files := (files fs)[nat i := Some file], file_id_pool := pool, open_files := open_files fs - 1\<rparr>))))"

definition guac_rdp_fs_read_dir :: "int \<Rightarrow> guac_rdp_fs \<Rightarrow> (string option \<times> guac_rdp_fs) result" where
  "guac_rdp_fs_read_dir i fs =
     with_file fs i (Inr (None, fs)) (\<lambda>file.
       defined (file_dir file \<noteq> Freed_dir) (
         let (opened, fs) =
               (if file_dir file = Dir_stream then (True, fs)
                else let (r, fs) = fs_call (Fdopendir (file_fd file)) fs
                     in (retval r = 0,
                         fs\<lparr>files := (files fs)[nat i := Some (file\<lparr>file_dir := if retval r = 0 then Dir_stream else No_dir\<rparr>)]\<rparr>))
         in if \<not> opened then Inr (None, fs)
            else let (r, fs) = fs_call (Readdir (file_fd file)) fs in Inr (entry_name r, fs)))"

definition guac_rdp_fs_get_info :: "guac_rdp_fs \<Rightarrow> int \<times> (int \<times> int \<times> int) option \<times> guac_rdp_fs" where
  "guac_rdp_fs_get_info fs =
     (let (r, fs) = fs_call (Statvfs (drive_path fs)) fs
      in if retval r \<noteq> 0 then (guac_rdp_fs_get_errorcode (error_number r), None, fs) else (0, Some (space r), fs))"

section \<open>Requests\<close>

text \<open>
  What the remote desktop and the users can ask of the drive. \<open>junk\<close> is what the buffer for the
  normalized path held before.
\<close>

datatype drive_request =
    Open_file string string "access_right set" disposition bool
  | Read_file int u64 nat
  | Write_file int u64 "u8 list"
  | Rename_file int string string
  | Delete_file int
  | Truncate_file int int
  | Close_file int
  | Read_dir int
  | Get_info

definition drive_step :: "drive_request \<Rightarrow> guac_rdp_fs \<Rightarrow> guac_rdp_fs result" where
  "drive_step q fs =
     (case q of
        Open_file junk path access d directory_file \<Rightarrow>
          bindr (guac_rdp_fs_open junk path access d directory_file fs) (\<lambda>(r, fs). Inr fs)
      | Read_file i off n \<Rightarrow> bindr (guac_rdp_fs_read i off n fs) (\<lambda>(r, data, fs). Inr fs)
      | Write_file i off data \<Rightarrow> bindr (guac_rdp_fs_write i off data fs) (\<lambda>(r, fs). Inr fs)
      | Rename_file i junk path \<Rightarrow> bindr (guac_rdp_fs_rename junk i path fs) (\<lambda>(r, fs). Inr fs)
      | Delete_file i \<Rightarrow> bindr (guac_rdp_fs_delete i fs) (\<lambda>(r, fs). Inr fs)
      | Truncate_file i n \<Rightarrow> bindr (guac_rdp_fs_truncate i n fs) (\<lambda>(r, fs). Inr fs)
      | Close_file i \<Rightarrow> guac_rdp_fs_close i fs
      | Read_dir i \<Rightarrow> bindr (guac_rdp_fs_read_dir i fs) (\<lambda>(name, fs). Inr fs)
      | Get_info \<Rightarrow> (case guac_rdp_fs_get_info fs of (r, info, fs) \<Rightarrow> Inr fs))"

fun drive_run :: "drive_request list \<Rightarrow> guac_rdp_fs \<Rightarrow> guac_rdp_fs result" where
  "drive_run [] fs = Inr fs"
| "drive_run (q # qs) fs = bindr (drive_step q fs) (drive_run qs)"

text \<open>Paths are C strings, and the buffers have their size.\<close>

fun request_ok :: "drive_request \<Rightarrow> bool" where
  "request_ok (Open_file junk path access d directory_file) \<longleftrightarrow> cstring path \<and> length junk = GUAC_RDP_FS_MAX_PATH"
| "request_ok (Rename_file i junk path) \<longleftrightarrow> cstring path \<and> length junk = GUAC_RDP_FS_MAX_PATH"
| "request_ok _ \<longleftrightarrow> True"

text \<open>The file a request is about.\<close>

fun request_id :: "drive_request \<Rightarrow> int option" where
  "request_id (Read_file i off n) = Some i"
| "request_id (Write_file i off data) = Some i"
| "request_id (Rename_file i junk path) = Some i"
| "request_id (Delete_file i) = Some i"
| "request_id (Truncate_file i n) = Some i"
| "request_id (Close_file i) = Some i"
| "request_id (Read_dir i) = Some i"
| "request_id _ = None"

section \<open>Normalized paths\<close>

text \<open>A component of a normalized path.\<close>

definition component_ok :: "string \<Rightarrow> bool" where
  "component_ok c \<longleftrightarrow> c \<noteq> [] \<and> c \<noteq> ''.'' \<and> c \<noteq> ''..'' \<and> cstring c \<and> (\<forall>x \<in> set c. \<not> separator x \<and> x \<noteq> CHR '':'')"

definition components_ok :: "string list \<Rightarrow> bool" where
  "components_ok cs \<longleftrightarrow> length cs \<le> 64 \<and> list_all component_ok cs"

definition path_size :: "string list \<Rightarrow> nat" where
  "path_size cs = sum_list (map (\<lambda>c. Suc (length c)) cs)"

lemma path_size_join: "length (join_with [x] cs) \<le> path_size cs - 1"
  by (induction cs rule: induct_list012) (simp_all add: path_size_def)

lemma path_size_butlast: "path_size (butlast cs) \<le> path_size cs"
  by (cases cs rule: rev_cases) (simp_all add: path_size_def)

abbreviation plain_chars :: "string \<Rightarrow> bool" where
  "plain_chars s \<equiv> cstring s \<and> (\<forall>x \<in> set s. \<not> separator x \<and> x \<noteq> CHR '':'')"

lemma push_component_ok:
  assumes "push_component current cs = Some cs'" "components_ok cs" "plain_chars current"
  shows "components_ok cs' \<and> path_size cs' \<le> path_size cs + length current + 1"
proof -
  show ?thesis
  proof (cases "current = ''..''")
    case True
    then have "cs' = butlast cs" using assms(1) by (simp add: push_component_def)
    moreover have "list_all component_ok (butlast cs)" using assms(2) by (auto simp: components_ok_def list_all_iff dest: in_set_butlastD)
    ultimately show ?thesis using assms(2) path_size_butlast [of cs] by (auto simp: components_ok_def)
  next
    case up: False
    show ?thesis
    proof (cases "current = ''.'' \<or> current = []")
      case True
      then have "cs' = cs" using assms(1) up unfolding push_component_def by (metis option.inject)
      then show ?thesis using assms(2) by simp
    next
      case False
      then have "cs' = cs @ [current]" "length cs < 64"
        using assms(1) up by (simp_all add: push_component_def GUAC_RDP_MAX_PATH_DEPTH_def split: if_splits)
      moreover have "component_ok current" using False up assms(3) by (simp add: component_ok_def)
      ultimately show ?thesis using assms(2) by (simp add: components_ok_def path_size_def)
    qed
  qed
qed

lemma scan_components_ok:
  "scan_components current cs s = Some cs' \<Longrightarrow> components_ok cs \<Longrightarrow> plain_chars current \<Longrightarrow> cstring s \<Longrightarrow>
     components_ok cs' \<and> path_size cs' \<le> path_size cs + length current + length s + 1"
proof (induction current cs s rule: scan_components.induct)
  case (1 current cs)
  then show ?case using push_component_ok by auto
next
  case (2 current cs c s)
  have rest: "cstring s" "c \<noteq> NUL" using "2.prems"(4) by (auto simp: cstring_def)
  show ?case
  proof (cases "separator c")
    case True
    then obtain mid where mid: "push_component current cs = Some mid" "scan_components [] mid s = Some cs'"
      using "2.prems"(1) by (auto split: option.splits)
    note p = push_component_ok [OF mid(1) "2.prems"(2,3)]
    show ?thesis using "2.IH"(1) [OF True mid] p rest(1) by auto
  next
    case False
    then have f: "c \<noteq> CHR '':''" "scan_components (current @ [c]) cs s = Some cs'"
      using "2.prems"(1) by (auto split: if_splits)
    show ?thesis using "2.IH"(2) [OF False f] "2.prems"(2,3) False f(1) rest by (auto simp: cstring_def)
  qed
qed

lemma normalize_path_ok:
  assumes "guac_rdp_fs_normalize_path path junk = Some buf" "cstring path" "length junk = 4096"
  obtains cs where "components_ok cs" "cstr buf = CHR 0x5C # join_with [CHR 0x5C] cs" "length (cstr buf) \<le> 4095"
proof -
  define n where "n = GUAC_RDP_FS_MAX_PATH - 1"
  have n: "0 < n" "n \<le> 4095" "n = 4095" by (simp_all add: n_def GUAC_RDP_FS_MAX_PATH_def)
  obtain c s where p: "path = c # s" "separator c"
    using assms(1) by (cases path) (simp_all add: guac_rdp_fs_normalize_path_def split: if_splits)
  obtain len scratch where l: "guac_strlcpy (replicate n NUL) s n = (len, scratch)" by fastforce
  have len: "len = length s" using l strlcpy_length by (metis fst_conv)
  have run: "(if len \<ge> n then None
      else map_option (\<lambda>components. CHR 0x5C # snd (guac_strljoin (drop 1 junk) components [CHR 0x5C] n)) (scan_components [] [] (take len scratch))) = Some buf"
    using assms(1) p(2) unfolding guac_rdp_fs_normalize_path_def p(1) list.case n_def [symmetric] l prod.case Let_def by simp
  then have short: "length s < n" using len by (simp split: if_splits)
  have "scratch = take (n - 1) s @ NUL # drop (min n (length s + 1)) (replicate n NUL)"
    using strlcpy_dest [OF n(1), of "replicate n NUL" s] l by simp
  then have copy: "take len scratch = s" using short len by simp
  obtain cs where cs: "scan_components [] [] s = Some cs" "buf = CHR 0x5C # snd (guac_strljoin (drop 1 junk) cs [CHR 0x5C] n)"
    using run short len copy by auto
  have cstr_s: "cstring s" using assms(2) p(1) by (auto simp: cstring_def)
  have ok: "components_ok cs" "path_size cs \<le> length s + 1"
    using scan_components_ok [OF cs(1) _ _ cstr_s] by (auto simp: components_ok_def cstring_def path_size_def)
  let ?j = "join_with [CHR 0x5C] cs"
  have j: "cstring ?j" using ok(1) by (intro cstring_join_with) (auto simp: cstring_def components_ok_def component_ok_def list_all_iff)
  have lj: "length ?j \<le> n - 1" using path_size_join [of "CHR 0x5C" cs] ok(2) short by simp
  have h: "holds n (drop 1 junk) ?j (guac_strljoin (drop 1 junk) cs [CHR 0x5C] n)"
    by (rule holds_strljoin) (simp_all add: assms(3) n)
  have "cstr (snd (guac_strljoin (drop 1 junk) cs [CHR 0x5C] n)) = ?j"
    using holds_cstr [OF h j] lj by simp
  then have "cstr buf = CHR 0x5C # ?j" by (simp add: cs(2) cstr_def)
  then show thesis using that [OF ok(1)] lj n(3) by simp
qed

section \<open>Staying in the drive\<close>

fun split_path :: "string \<Rightarrow> string list" where
  "split_path [] = [[]]"
| "split_path (c # cs) =
     (if c = CHR ''/'' then [] # split_path cs
      else (case split_path cs of [] \<Rightarrow> [[c]] | x # xs \<Rightarrow> (c # x) # xs))"

text \<open>A walk along the components that never leaves the directory it starts in.\<close>

fun stays_below :: "nat \<Rightarrow> string list \<Rightarrow> bool" where
  "stays_below d [] \<longleftrightarrow> True"
| "stays_below d (c # cs) \<longleftrightarrow>
     (if c = ''..'' then 0 < d \<and> stays_below (d - 1) cs
      else if c = ''.'' \<or> c = [] then stays_below d cs
      else stays_below (Suc d) cs)"

definition within :: "string \<Rightarrow> string \<Rightarrow> bool" where
  "within drive path \<longleftrightarrow>
     (\<exists>rest. path = drive @ rest \<and> (rest = [] \<or> hd rest = CHR ''/'') \<and> stays_below 0 (split_path rest))"

lemma split_plain: "CHR ''/'' \<notin> set c \<Longrightarrow> split_path c = [c]"
  by (induction c) auto

lemma split_component: "CHR ''/'' \<notin> set c \<Longrightarrow> split_path (c @ CHR ''/'' # rest) = c # split_path rest"
  by (induction c) auto

lemma stays_below_prefix:
  assumes "component_ok c" "0 < d \<or> 3 \<le> m"
  shows "stays_below d (split_path (take m c))"
proof -
  have "CHR ''/'' \<notin> set (take m c)" using assms(1) by (auto simp: component_ok_def dest: in_set_takeD)
  moreover have "take m c \<noteq> ''..'' \<or> 0 < d"
  proof (rule ccontr)
    assume h: "\<not> (take m c \<noteq> ''..'' \<or> 0 < d)"
    then have "length (take m c) = 2" "3 \<le> m" using assms(2) by auto
    then have "take m c = c" by simp
    then show False using h assms(1) by (simp add: component_ok_def)
  qed
  ultimately show ?thesis by (simp add: split_plain)
qed

text \<open>Also a path that was cut off stays below, unless it was cut off within the first three characters.\<close>

lemma stays_below_take:
  "list_all component_ok cs \<Longrightarrow> 0 < d \<or> 3 \<le> m \<Longrightarrow> stays_below d (split_path (take m (join_with ''/'' cs)))"
proof (induction cs arbitrary: d m rule: induct_list012)
  case 1
  then show ?case by simp
next
  case (2 c)
  then show ?case by (simp add: stays_below_prefix)
next
  case (3 c c' cs)
  have c: "component_ok c" using "3.prems"(1) by simp
  show ?case
  proof (cases "m \<le> length c")
    case True
    then show ?thesis using stays_below_prefix [OF c "3.prems"(2)] by simp
  next
    case False
    then obtain k where k: "m = length c + Suc k" by (metis add_Suc_right less_iff_Suc_add not_le)
    have "stays_below (Suc d) (split_path (take k (join_with ''/'' (c' # cs))))"
      by (rule "3.IH"(2)) (use "3.prems" in auto)
    moreover have "CHR ''/'' \<notin> set c" "c \<noteq> ''..''" "c \<noteq> ''.''" "c \<noteq> []" using c by (auto simp: component_ok_def)
    ultimately show ?thesis using k by (simp add: split_component)
  qed
qed

lemma map_join_with: "map f (join_with d cs) = join_with (map f d) (map (map f) cs)"
  by (induction cs rule: induct_list012) simp_all

abbreviation slashes :: "string \<Rightarrow> string" where
  "slashes \<equiv> map (\<lambda>c. if c = CHR 0x5C then CHR ''/'' else c)"

lemma slashes_components: "list_all component_ok cs \<Longrightarrow> map slashes cs = cs"
  by (induction cs) (auto simp: component_ok_def map_idI)

lemma translate_within:
  assumes "components_ok cs" "length (drive_path fs) \<le> 4091"
  shows "within (drive_path fs) (guac_rdp_fs_translate_path fs (CHR 0x5C # join_with [CHR 0x5C] cs))"
proof -
  define n where "n = GUAC_RDP_FS_MAX_PATH - 1 - length (drive_path fs)"
  have n: "4 \<le> n" "take (GUAC_RDP_FS_MAX_PATH - 1) (drive_path fs) = drive_path fs"
    using assms(2) by (simp_all add: n_def GUAC_RDP_FS_MAX_PATH_def)
  then obtain m where m: "n = Suc m" "3 \<le> m" by (cases n) auto
  have ok: "list_all component_ok cs" using assms(1) by (simp add: components_ok_def)
  have "slashes (take n (CHR 0x5C # join_with [CHR 0x5C] cs)) = CHR ''/'' # take m (slashes (join_with [CHR 0x5C] cs))"
    by (simp add: m take_map)
  also have "\<dots> = CHR ''/'' # take m (join_with ''/'' cs)"
    using slashes_components [OF ok] by (simp add: map_join_with)
  finally have "guac_rdp_fs_translate_path fs (CHR 0x5C # join_with [CHR 0x5C] cs) = drive_path fs @ CHR ''/'' # take m (join_with ''/'' cs)"
    unfolding guac_rdp_fs_translate_path_def Let_def n(2) n_def [symmetric] by simp
  then show ?thesis using stays_below_take [OF ok, of 0 m] m(2) by (auto simp: within_def)
qed

section \<open>The table of open files\<close>

definition given :: "string option \<Rightarrow> string list" where
  "given p = (case p of None \<Rightarrow> [] | Some p \<Rightarrow> [p])"

definition paths_of :: "syscall \<Rightarrow> string list" where
  "paths_of c =
     (case c of
        Mkdir p \<Rightarrow> [p] | Unlink p \<Rightarrow> given p | Rmdir p \<Rightarrow> given p | Rename p q \<Rightarrow> given p @ [q]
      | Open p fl \<Rightarrow> [p] | Statvfs p \<Rightarrow> [p] | _ \<Rightarrow> [])"

text \<open>The IDs of the files that are open: those with a path.\<close>

definition ids_in_use :: "guac_rdp_fs \<Rightarrow> int set" where
  "ids_in_use fs = {i. 0 \<le> i \<and> i < 128 \<and> (\<exists>f. files fs ! nat i = Some f \<and> real_path f \<noteq> None)}"

text \<open>
  What holds after any requests, also those that name closed files: the pool and the count agree,
  freed IDs (an ID may be freed more than once) are below the next new one, and the slots that were
  never filled are those from there on.
\<close>

definition table_ok :: "guac_rdp_fs \<Rightarrow> bool" where
  "table_ok fs \<longleftrightarrow>
     (let p = file_id_pool fs in
      min_size p = 0 \<and> active p = open_files fs \<and> 0 \<le> active p \<and> active p + int (length (freed p)) = next_value p \<and>
      next_value p \<le> 128 \<and> set (freed p) \<subseteq> {0..<next_value p} \<and>
      (\<forall>i. 0 \<le> i \<longrightarrow> i < 128 \<longrightarrow> (files fs ! nat i = None \<longleftrightarrow> next_value p \<le> i)))"

definition drive_ok :: "string \<Rightarrow> guac_rdp_fs \<Rightarrow> bool" where
  "drive_ok drive fs \<longleftrightarrow>
     drive_path fs = drive \<and> (\<forall>c \<in> set (calls (os fs)). list_all (within drive) (paths_of c)) \<and>
     length (files fs) = 128 \<and> (\<forall>f \<in> set (files fs). \<forall>g p. f = Some g \<longrightarrow> real_path g = Some p \<longrightarrow> within drive p \<and> file_dir g \<noteq> Freed_dir) \<and>
     table_ok fs"

text \<open>What holds in addition as long as only open files are used: the pool hands out what is not open.\<close>

definition table_exact :: "guac_rdp_fs \<Rightarrow> bool" where
  "table_exact fs \<longleftrightarrow> pool_below_inv 128 (file_id_pool fs) (ids_in_use fs)"

definition same_table :: "guac_rdp_fs \<Rightarrow> guac_rdp_fs \<Rightarrow> bool" where
  "same_table fs fs' \<longleftrightarrow> files fs' = files fs \<and> file_id_pool fs' = file_id_pool fs \<and> open_files fs' = open_files fs"

definition keeps_ids :: "guac_rdp_fs \<Rightarrow> guac_rdp_fs \<Rightarrow> bool" where
  "keeps_ids fs fs' \<longleftrightarrow> ids_in_use fs' = ids_in_use fs \<and> file_id_pool fs' = file_id_pool fs"

lemma same_table_keeps: "same_table fs fs' \<Longrightarrow> keeps_ids fs fs'"
  by (simp add: same_table_def keeps_ids_def ids_in_use_def)

lemma same_table_refl [simp]: "same_table fs fs" "keeps_ids fs fs"
  by (simp_all add: same_table_def keeps_ids_def)

lemma same_table_trans: "same_table fs fs1 \<Longrightarrow> same_table fs1 fs2 \<Longrightarrow> same_table fs fs2"
  by (simp add: same_table_def)

lemma keeps_exact: "keeps_ids fs fs' \<Longrightarrow> table_exact fs \<Longrightarrow> table_exact fs'"
  by (simp add: keeps_ids_def table_exact_def)

lemma within_self [simp]: "within drive drive"
  by (simp add: within_def)

lemma fs_call_frame:
  assumes "fs_call c fs = (r, fs')"
  shows "same_table fs fs'" "drive_path fs' = drive_path fs" "calls (os fs') = calls (os fs) @ [c]"
  using assms by (auto simp: fs_call_def system_call_def same_table_def split: prod.splits list.splits)

text \<open>A call on paths in the drive: the invariant holds after it, and the table is as before.\<close>

lemma call_keeps:
  assumes "fs_call c fs = (r, fs')" "drive_ok drive fs" "list_all (within drive) (paths_of c)"
  shows "drive_ok drive fs'" "same_table fs fs'"
  using fs_call_frame [OF assms(1)] assms(2,3)
  by (auto simp: drive_ok_def same_table_def table_ok_def Let_def)

lemma call_keeps_snd:
  assumes "drive_ok drive fs" "list_all (within drive) (paths_of c)"
  shows "drive_ok drive (snd (fs_call c fs)) \<and> same_table fs (snd (fs_call c fs))"
  using call_keeps [OF prod.collapse [symmetric] assms] by blast

lemma file_within:
  assumes "drive_ok drive fs" "0 \<le> i" "i < 128" "files fs ! nat i = Some f" "real_path f = Some p"
  shows "within drive p" "file_dir f \<noteq> Freed_dir"
proof -
  have "nat i < length (files fs)" using assms(1-3) by (simp add: drive_ok_def)
  then have "Some f \<in> set (files fs)" using assms(4) nth_mem by metis
  then show "within drive p" "file_dir f \<noteq> Freed_dir" using assms(1,5) unfolding drive_ok_def by blast+
qed

lemma within_given: "(\<And>p. real_path f = Some p \<Longrightarrow> within drive p) \<Longrightarrow> list_all (within drive) (given (real_path f))"
  by (cases "real_path f") (simp_all add: given_def)

text \<open>Replacing a slot that was filled before.\<close>

lemma slot_update_ok:
  assumes ok: "drive_ok drive fs" and i: "0 \<le> i" "i < 128" "files fs ! nat i \<noteq> None"
    and g: "\<And>p. real_path g = Some p \<Longrightarrow> within drive p \<and> file_dir g \<noteq> Freed_dir"
  shows "drive_ok drive (fs\<lparr>files := (files fs)[nat i := Some g]\<rparr>)"
proof -
  have len: "length (files fs) = 128" using ok by (simp add: drive_ok_def)
  have "table_ok (fs\<lparr>files := (files fs)[nat i := Some g]\<rparr>)"
    using ok i len by (auto simp: drive_ok_def table_ok_def Let_def nth_list_update split: if_splits)
  then show ?thesis
    using ok g len by (auto simp: drive_ok_def dest!: subsetD [OF set_update_subset_insert])
qed

lemma ids_update:
  assumes "length (files fs) = 128" "0 \<le> i" "i < 128" "files fs' = (files fs)[nat i := Some g]"
  shows "ids_in_use fs' = (if real_path g = None then ids_in_use fs - {i} else insert i (ids_in_use fs))"
  using assms(1-3) by (auto simp: ids_in_use_def assms(4) nth_list_update nat_eq_iff)

text \<open>Changing a file without changing whether it is open.\<close>

lemma same_path_ok:
  assumes ok: "drive_ok drive fs" and i: "0 \<le> i" "i < 128" "files fs ! nat i = Some f" 
    and g: "real_path g = real_path f" "file_dir g = file_dir f \<or> file_dir g \<noteq> Freed_dir"
  shows "drive_ok drive (fs\<lparr>files := (files fs)[nat i := Some g]\<rparr>)" "keeps_ids fs (fs\<lparr>files := (files fs)[nat i := Some g]\<rparr>)"
proof -
  show "drive_ok drive (fs\<lparr>files := (files fs)[nat i := Some g]\<rparr>)"
    by (rule slot_update_ok [OF ok i(1,2)]) (use i(3) file_within [OF ok i] g in \<open>auto simp: g(1)\<close>)
  have len: "length (files fs) = 128" using ok by (simp add: drive_ok_def)
  have "i \<in> ids_in_use fs \<longleftrightarrow> real_path f \<noteq> None" using i by (simp add: ids_in_use_def)
  then show "keeps_ids fs (fs\<lparr>files := (files fs)[nat i := Some g]\<rparr>)"
    using ids_update [OF len i(1,2), of "fs\<lparr>files := (files fs)[nat i := Some g]\<rparr>" g] g(1) by (auto simp: keeps_ids_def)
qed

subsection \<open>Opening\<close>

lemma pool_next_below_ok:
  assumes p: "min_size p = 0" "0 \<le> active p" "active p < 128" "active p + int (length (freed p)) = next_value p"
    "next_value p \<le> 128" "set (freed p) \<subseteq> {0..<next_value p}"
  obtains v p' where "guac_pool_next_int_below_or_die p 128 = Inr (v, p')" "0 \<le> v" "v < 128" "v < next_value p'"
    "min_size p' = 0" "active p' = active p + 1" "active p' + int (length (freed p')) = next_value p'"
    "next_value p' \<le> 128" "set (freed p') \<subseteq> {0..<next_value p'}"
    "next_value p' = (if v = next_value p then next_value p + 1 else next_value p)" "v \<le> next_value p"
proof (cases "freed p")
  case Nil
  then have "guac_pool_next_int_below_or_die p 128 =
      Inr (next_value p, p\<lparr>active := active p + 1, next_value := next_value p + 1\<rparr>)"
    using p by (simp add: guac_pool_next_int_below_or_die_def guac_pool_next_int_below_def pool_next_int_def INT_MAX_def)
  then show thesis using that p Nil by simp
next
  case (Cons v vs)
  then have v: "0 \<le> v" "v < next_value p" using p(6) by simp_all
  then have "guac_pool_next_int_below_or_die p 128 = Inr (v, p\<lparr>active := active p + 1, freed := vs\<rparr>)"
    using p Cons by (simp add: guac_pool_next_int_below_or_die_def guac_pool_next_int_below_def pool_next_int_def INT_MAX_def)
  then show thesis using that p Cons v by simp
qed

text \<open>The outcome of opening: an error, or an ID; if only open files were used, one that was not in use.\<close>

definition opened :: "guac_rdp_fs \<Rightarrow> int \<Rightarrow> guac_rdp_fs \<Rightarrow> bool" where
  "opened fs r fs' \<longleftrightarrow>
     (r < 0 \<and> keeps_ids fs fs') \<or>
     (0 \<le> r \<and> r < 128 \<and> ids_in_use fs' = insert r (ids_in_use fs) \<and> (table_exact fs \<longrightarrow> r \<notin> ids_in_use fs \<and> table_exact fs'))"

lemma register_ok:
  assumes ok: "drive_ok drive fs" and room: "open_files fs < 128" and real: "within drive real"
  shows "\<exists>i fs'. register_file normalized real fd fs = Inr (i, fs') \<and> drive_ok drive fs' \<and> 0 \<le> i \<and> opened fs i fs'"
proof -
  have t: "table_ok fs" "length (files fs) = 128" using ok by (simp_all add: drive_ok_def)
  obtain i pool where i: "guac_pool_next_int_below_or_die (file_id_pool fs) 128 = Inr (i, pool)" "0 \<le> i" "i < 128" "i < next_value pool"
    "min_size pool = 0" "active pool = active (file_id_pool fs) + 1" "active pool + int (length (freed pool)) = next_value pool"
    "next_value pool \<le> 128" "set (freed pool) \<subseteq> {0..<next_value pool}"
    "next_value pool = (if i = next_value (file_id_pool fs) then next_value (file_id_pool fs) + 1 else next_value (file_id_pool fs))"
    "i \<le> next_value (file_id_pool fs)"
    by (rule pool_next_below_ok [of "file_id_pool fs"]) (use t(1) room in \<open>simp_all add: table_ok_def Let_def\<close>)
  obtain r fs1 where r: "fs_call (Fstat fd) (fs\<lparr>file_id_pool := pool\<rparr>) = (r, fs1)" by fastforce
  note frame = fs_call_frame [OF r]
  obtain f fs' where f: "register_file normalized real fd fs = Inr (i, fs')" "fs' = fs1\<lparr>files := (files fs1)[nat i := Some f], open_files := open_files fs1 + 1\<rparr>"
    "real_path f = Some real" "file_dir f = No_dir"
    using i(1,2) r by (simp add: register_file_def GUAC_RDP_FS_MAX_FILES_def Let_def)
  have fr: "files fs' = (files fs)[nat i := Some f]" "file_id_pool fs' = pool" "open_files fs' = open_files fs + 1"
    "drive_path fs' = drive_path fs" "calls (os fs') = calls (os fs) @ [Fstat fd]"
    using frame by (simp_all add: f(2) same_table_def)
  have "table_ok fs'"
    using t i(2-11) unfolding table_ok_def Let_def fr by (auto simp: nth_list_update nat_eq_iff split: if_splits)
  then have ok': "drive_ok drive fs'"
    using ok f(3,4) real by (auto simp: drive_ok_def fr paths_of_def dest!: subsetD [OF set_update_subset_insert])
  have ids: "ids_in_use fs' = insert i (ids_in_use fs)" using ids_update [OF t(2) i(2,3) fr(1)] f(3) by simp
  have "i \<notin> ids_in_use fs \<and> table_exact fs'" if ex: "table_exact fs"
  proof -
    have "int (card (ids_in_use fs)) \<noteq> 128"
      using ex room t(1) by (simp add: table_exact_def pool_below_inv_def pool_inv_def table_ok_def Let_def)
    then show ?thesis
      using pool_below_available [of 128 "file_id_pool fs" "ids_in_use fs"] ex i(1)
      by (auto simp: table_exact_def guac_pool_next_int_below_or_die_def ids fr)
  qed
  then show ?thesis using f(1) ok' ids i(2,3) by (auto simp: opened_def)
qed

lemma open_native_keeps:
  assumes "open_native real flags fs = (r, fs')" "drive_ok drive fs" "within drive real"
  shows "drive_ok drive fs'" "same_table fs fs'"
proof -
  have p: "list_all (within drive) (paths_of (Open real fl))" for fl using assms(3) by (simp add: paths_of_def)
  obtain r1 fs1 where r1: "fs_call (Open real flags) fs = (r1, fs1)" by fastforce
  note k1 = call_keeps [OF r1 assms(2) p]
  obtain r2 fs2 where r2: "fs_call (Open real (flags - {O_WRONLY, O_RDWR})) fs1 = (r2, fs2)" by fastforce
  note k2 = call_keeps [OF r2 k1(1) p]
  have "fs' = fs1 \<or> fs' = fs2" using assms(1) r1 r2 by (auto simp: open_native_def Let_def split: if_splits)
  then show "drive_ok drive fs'" "same_table fs fs'" using k1 k2 same_table_trans by blast+
qed

lemma errorcode_negative [simp]: "guac_rdp_fs_get_errorcode e < 0"
  by (cases e) (simp_all add: guac_rdp_fs_get_errorcode_def)

lemma opened_after:
  assumes "same_table fs fs1" "opened fs1 r fs'"
  shows "opened fs r fs'"
  using assms(2) same_table_keeps [OF assms(1)] keeps_exact [OF same_table_keeps [OF assms(1)]]
  by (auto simp: opened_def keeps_ids_def)

lemma opened_error: "same_table fs fs' \<Longrightarrow> r < 0 \<Longrightarrow> opened fs r fs'"
  by (simp add: opened_def same_table_keeps)

lemma open_real_ok:
  assumes ok: "drive_ok drive fs" and room: "open_files fs < 128" and real: "within drive real"
  shows "\<exists>r fs'. open_real normalized real flags d directory_file fs = Inr (r, fs') \<and> drive_ok drive fs' \<and> opened fs r fs'"
proof (cases "disposition_flags d")
  case None
  then show ?thesis using ok by (simp add: open_real_def opened_error GUAC_RDP_FS_ENOSYS_def)
next
  case (Some added)
  define fl where "fl = flags \<union> added"
  define fs1 where "fs1 = (if d = FILE_SUPERSEDE then snd (fs_call (Unlink (Some real)) fs) else fs)"
  have p: "list_all (within drive) (paths_of (Unlink (Some real)))" "list_all (within drive) (paths_of (Mkdir real))"
    using real by (simp_all add: paths_of_def given_def)
  have k1: "drive_ok drive fs1" "same_table fs fs1"
    using ok call_keeps_snd [OF ok p(1)] by (simp_all add: fs1_def)
  define mk where "mk \<longleftrightarrow> directory_file \<and> O_CREAT \<in> fl"
  obtain r fs2 where r: "(if mk then fs_call (Mkdir real) fs1 else (default_reply, fs1)) = (r, fs2)" by fastforce
  have k2: "drive_ok drive fs2" "same_table fs fs2"
    using r k1 call_keeps [OF _ k1(1) p(2)] same_table_trans by (auto split: if_splits)
  define fl2 where "fl2 = (if mk then fl - {O_CREAT, O_EXCL} else fl)"
  obtain r' fs3 where r': "open_native real fl2 fs2 = (r', fs3)" by fastforce
  note k3 = open_native_keeps [OF r' k2(1) real]
  have s3: "same_table fs fs3" by (rule same_table_trans [OF k2(2) k3(2)])
  have run: "open_real normalized real flags d directory_file fs =
      (if mk \<and> retval r \<noteq> 0 \<and> (error_number r \<noteq> EEXIST \<or> O_EXCL \<in> fl) then Inr (guac_rdp_fs_get_errorcode (error_number r), fs2)
       else if retval r' = -1 then Inr (guac_rdp_fs_get_errorcode (error_number r'), fs3)
       else register_file normalized real (retval r') fs3)"
    unfolding open_real_def Some option.case Let_def fl_def [symmetric] fs1_def [symmetric] mk_def [symmetric] r prod.case
      fl2_def [symmetric] r' ..
  have room3: "open_files fs3 < 128" using s3 room by (simp add: same_table_def)
  obtain i fs' where "register_file normalized real (retval r') fs3 = Inr (i, fs')" "drive_ok drive fs'" "opened fs3 i fs'"
    using register_ok [OF k3(1) room3 real] by blast
  then show ?thesis
    unfolding run using k2 k3(1) s3 opened_error [OF k2(2) errorcode_negative] opened_error [OF s3 errorcode_negative]
      opened_after [OF s3] by (cases "mk \<and> retval r \<noteq> 0 \<and> (error_number r \<noteq> EEXIST \<or> O_EXCL \<in> fl)") auto
qed

lemma translated_within:
  assumes "guac_rdp_fs_normalize_path path junk = Some buf" "cstring path" "length junk = 4096"
    and "drive_ok drive fs" "length drive \<le> 4091"
  shows "within drive (guac_rdp_fs_translate_path fs (cstr buf))"
proof -
  obtain comps where comps: "components_ok comps" "cstr buf = CHR 0x5C # join_with [CHR 0x5C] comps"
    using normalize_path_ok [OF assms(1-3)] by blast
  have "drive_path fs = drive" using assms(4) by (simp add: drive_ok_def)
  then show ?thesis using translate_within [OF comps(1), of fs] comps(2) assms(5) by simp
qed

lemma open_ok:
  assumes ok: "drive_ok drive fs" and len: "length drive \<le> 4091" and path: "cstring path" "length junk = 4096"
  shows "\<exists>r fs'. guac_rdp_fs_open junk path access d directory_file fs = Inr (r, fs') \<and> drive_ok drive fs' \<and> opened fs r fs'"
proof -
  define path' where "path' = (if path = [] then [CHR 0x5C] else path)"
  have cs: "cstring path'" using path(1) by (simp add: path'_def cstring_def)
  note d = guac_rdp_fs_open_def Let_def path'_def [symmetric]
  consider "open_files fs \<ge> 128 \<or> \<not> separator (hd path')" | "open_files fs < 128" "separator (hd path')" "guac_rdp_fs_normalize_path path' junk = None"
    | buf where "open_files fs < 128" "separator (hd path')" "guac_rdp_fs_normalize_path path' junk = Some buf"
    by fastforce
  then show ?thesis
  proof cases
    case (3 buf)
    have run: "guac_rdp_fs_open junk path access d directory_file fs =
        open_real (cstr buf) (guac_rdp_fs_translate_path fs (cstr buf)) (access_flags access) d directory_file fs"
      using 3 by (auto simp: d GUAC_RDP_FS_MAX_FILES_def)
    show ?thesis
      unfolding run by (rule open_real_ok [OF ok 3(1) translated_within [OF 3(3) cs path(2) ok len]])
  qed (use ok in \<open>auto simp: d opened_error GUAC_RDP_FS_MAX_FILES_def GUAC_RDP_FS_ENFILE_def GUAC_RDP_FS_ENOENT_def\<close>)
qed

subsection \<open>The other operations\<close>

lemma with_file_slot: "0 \<le> i \<Longrightarrow> i < 128 \<Longrightarrow> files fs ! nat i = Some f \<Longrightarrow> with_file fs i missing k = k f"
  by (simp add: with_file_def GUAC_RDP_FS_MAX_FILES_def)

lemma two_calls_keep:
  assumes "fs_call c (snd (fs_call c1 fs)) = (r, fs')" "paths_of c1 = []" "paths_of c = []" "drive_ok drive fs"
  shows "drive_ok drive fs'" "same_table fs fs'"
proof -
  have k1: "drive_ok drive (snd (fs_call c1 fs)) \<and> same_table fs (snd (fs_call c1 fs))"
    by (rule call_keeps_snd [OF assms(4)]) (simp add: assms(2))
  have k2: "drive_ok drive fs'" "same_table (snd (fs_call c1 fs)) fs'"
    using call_keeps [OF assms(1) conjunct1 [OF k1]] assms(3) by simp_all
  show "drive_ok drive fs'" "same_table fs fs'" using k1 k2 same_table_trans by blast+
qed

lemma read_ok:
  assumes ok: "drive_ok drive fs" and i: "0 \<le> i" "i < 128" "files fs ! nat i = Some f"
  shows "\<exists>r data fs'. guac_rdp_fs_read i off n fs = Inr (r, data, fs') \<and> drive_ok drive fs' \<and> keeps_ids fs fs'"
proof -
  obtain r fs2 where c: "fs_call (Read (file_fd f) n) (snd (fs_call (Lseek (file_fd f) off) fs)) = (r, fs2)" by fastforce
  have k: "drive_ok drive fs2" "same_table fs fs2"
    by (rule two_calls_keep [OF c _ _ ok]; simp add: paths_of_def)+
  show ?thesis using k same_table_keeps by (auto simp: guac_rdp_fs_read_def with_file_slot [OF i] c)
qed

lemma write_ok:
  assumes ok: "drive_ok drive fs" and i: "0 \<le> i" "i < 128" "files fs ! nat i = Some f"
  shows "\<exists>r fs'. guac_rdp_fs_write i off data fs = Inr (r, fs') \<and> drive_ok drive fs' \<and> keeps_ids fs fs'"
proof -
  obtain r fs2 where c: "fs_call (Write (file_fd f) data) (snd (fs_call (Lseek (file_fd f) off) fs)) = (r, fs2)" by fastforce
  have k: "drive_ok drive fs2" "same_table fs fs2"
    by (rule two_calls_keep [OF c _ _ ok]; simp add: paths_of_def)+
  define g where "g = f\<lparr>bytes_written := bytes_written f + word_of_int (retval r)\<rparr>"
  have i2: "files fs2 ! nat i = Some f" using k(2) i by (simp add: same_table_def)
  have "drive_ok drive (fs2\<lparr>files := (files fs2)[nat i := Some g]\<rparr>)" "keeps_ids fs2 (fs2\<lparr>files := (files fs2)[nat i := Some g]\<rparr>)"
    by (rule same_path_ok [OF k(1) i(1,2) i2]; simp add: g_def)+
  moreover have "keeps_ids fs fs2" by (rule same_table_keeps [OF k(2)])
  ultimately show ?thesis
    using k(1) by (auto simp: guac_rdp_fs_write_def with_file_slot [OF i] c g_def [symmetric] keeps_ids_def)
qed

lemma rename_ok:
  assumes ok: "drive_ok drive fs" "length drive \<le> 4091" and i: "0 \<le> i" "i < 128" "files fs ! nat i = Some f"
    and path: "cstring new_path" "length junk = 4096"
  shows "\<exists>r fs'. guac_rdp_fs_rename junk i new_path fs = Inr (r, fs') \<and> drive_ok drive fs' \<and> keeps_ids fs fs'"
proof (cases "guac_rdp_fs_normalize_path new_path junk")
  case None
  then show ?thesis using ok by (simp add: guac_rdp_fs_rename_def with_file_slot [OF i])
next
  case (Some buf)
  obtain r fs' where c: "fs_call (Rename (real_path f) (guac_rdp_fs_translate_path fs (cstr buf))) fs = (r, fs')" by fastforce
  have p: "list_all (within drive) (paths_of (Rename (real_path f) (guac_rdp_fs_translate_path fs (cstr buf))))"
    using translated_within [OF Some path ok] within_given [OF file_within(1) [OF ok(1) i]] by (simp add: paths_of_def)
  show ?thesis
    using call_keeps [OF c ok(1) p] same_table_keeps by (auto simp: guac_rdp_fs_rename_def with_file_slot [OF i] Some c)
qed

lemma delete_ok:
  assumes ok: "drive_ok drive fs" and i: "0 \<le> i" "i < 128" "files fs ! nat i = Some f"
  shows "\<exists>r fs'. guac_rdp_fs_delete i fs = Inr (r, fs') \<and> drive_ok drive fs' \<and> keeps_ids fs fs'"
proof -
  define c where "c = (if is_directory f then Rmdir (real_path f) else Unlink (real_path f))"
  obtain r fs' where r: "fs_call c fs = (r, fs')" by fastforce
  have p: "list_all (within drive) (paths_of c)"
    using within_given [OF file_within(1) [OF ok i]] by (simp add: c_def paths_of_def)
  show ?thesis
    using call_keeps [OF r ok p] same_table_keeps by (auto simp: guac_rdp_fs_delete_def with_file_slot [OF i] c_def [symmetric] r)
qed

lemma truncate_ok:
  assumes ok: "drive_ok drive fs" and i: "0 \<le> i" "i < 128" "files fs ! nat i = Some f"
  shows "\<exists>r fs'. guac_rdp_fs_truncate i n fs = Inr (r, fs') \<and> drive_ok drive fs' \<and> keeps_ids fs fs'"
proof -
  obtain r fs' where r: "fs_call (Ftruncate (file_fd f) n) fs = (r, fs')" by fastforce
  show ?thesis
    using call_keeps [OF r ok] same_table_keeps by (auto simp: guac_rdp_fs_truncate_def with_file_slot [OF i] r paths_of_def)
qed

lemma get_info_ok:
  assumes "drive_ok drive fs" "guac_rdp_fs_get_info fs = (r, info, fs')"
  shows "drive_ok drive fs'" "keeps_ids fs fs'"
proof -
  obtain r1 fs1 where c: "fs_call (Statvfs (drive_path fs)) fs = (r1, fs1)" by fastforce
  have "list_all (within drive) (paths_of (Statvfs (drive_path fs)))" using assms(1) by (simp add: drive_ok_def paths_of_def)
  note k = call_keeps [OF c assms(1) this]
  have "fs' = fs1" using assms(2) c by (auto simp: guac_rdp_fs_get_info_def split: if_splits)
  then show "drive_ok drive fs'" "keeps_ids fs fs'" using k same_table_keeps by blast+
qed

lemma read_dir_ok:
  assumes ok: "drive_ok drive fs" and i: "0 \<le> i" "i < 128" "files fs ! nat i = Some f" and dir: "file_dir f \<noteq> Freed_dir"
  shows "\<exists>name fs'. guac_rdp_fs_read_dir i fs = Inr (name, fs') \<and> drive_ok drive fs' \<and> keeps_ids fs fs'"
proof -
  define start where "start = (if file_dir f = Dir_stream then (True, fs)
     else let (r, fs) = fs_call (Fdopendir (file_fd f)) fs
          in (retval r = 0,
              fs\<lparr>files := (files fs)[nat i := Some (f\<lparr>file_dir := if retval r = 0 then Dir_stream else No_dir\<rparr>)]\<rparr>))"
  obtain b fs1 where b: "start = (b, fs1)" by fastforce
  have k1: "drive_ok drive fs1 \<and> keeps_ids fs fs1"
  proof (cases "file_dir f = Dir_stream")
    case True
    then show ?thesis using b ok by (simp add: start_def)
  next
    case False
    obtain r fs2 where c: "fs_call (Fdopendir (file_fd f)) fs = (r, fs2)" by fastforce
    have k: "drive_ok drive fs2" "same_table fs fs2" by (rule call_keeps [OF c ok]; simp add: paths_of_def)+
    define g where "g = f\<lparr>file_dir := if retval r = 0 then Dir_stream else No_dir\<rparr>"
    have i2: "files fs2 ! nat i = Some f" using k(2) i by (simp add: same_table_def)
    have "drive_ok drive (fs2\<lparr>files := (files fs2)[nat i := Some g]\<rparr>)" "keeps_ids fs2 (fs2\<lparr>files := (files fs2)[nat i := Some g]\<rparr>)"
      by (rule same_path_ok [OF k(1) i(1,2) i2]; simp add: g_def)+
    moreover have "fs1 = fs2\<lparr>files := (files fs2)[nat i := Some g]\<rparr>" using b False c by (auto simp: start_def g_def)
    ultimately show ?thesis using same_table_keeps [OF k(2)] by (simp add: keeps_ids_def)
  qed
  obtain r2 fs2 where c2: "fs_call (Readdir (file_fd f)) fs1 = (r2, fs2)" by fastforce
  have k2: "drive_ok drive fs2 \<and> same_table fs1 fs2"
    using call_keeps [OF c2 conjunct1 [OF k1]] by (simp add: paths_of_def)
  have run: "guac_rdp_fs_read_dir i fs = (if \<not> b then Inr (None, fs1) else Inr (entry_name r2, fs2))"
    using dir b c2 by (simp add: guac_rdp_fs_read_dir_def with_file_slot [OF i] defined_def start_def [symmetric])
  show ?thesis
    unfolding run using k1 k2 same_table_keeps [OF conjunct2 [OF k2]] by (cases b) (auto simp: keeps_ids_def)
qed

text \<open>Closing: the ID goes back to the pool, whether or not it was open.\<close>

lemma close_ok:
  assumes ok: "drive_ok drive fs" and i: "0 \<le> i" "i < 128" "files fs ! nat i = Some f" and dir: "file_dir f \<noteq> Freed_dir"
    and some_open: "0 < open_files fs"
  shows "\<exists>fs'. guac_rdp_fs_close i fs = Inr fs' \<and> drive_ok drive fs' \<and> ids_in_use fs' = ids_in_use fs - {i} \<and>
           freed (file_id_pool fs') = freed (file_id_pool fs) @ [i] \<and>
           (table_exact fs \<longrightarrow> i \<in> ids_in_use fs \<longrightarrow> table_exact fs')"
proof -
  define fs1 where "fs1 = (if file_dir f = Dir_stream then snd (fs_call (Closedir (file_fd f)) fs) else fs)"
  have k1: "drive_ok drive fs1 \<and> same_table fs fs1"
    using ok call_keeps_snd [OF ok, of "Closedir (file_fd f)"] by (simp add: fs1_def paths_of_def)
  define fs2 where "fs2 = snd (fs_call (Close (file_fd f)) fs1)"
  have k2: "drive_ok drive fs2" "same_table fs fs2"
    using k1 call_keeps_snd [OF conjunct1 [OF k1], of "Close (file_fd f)"] same_table_trans by (auto simp: fs2_def paths_of_def)
  note same = k2(2) [unfolded same_table_def]
  define g where "g = f\<lparr>absolute_path := None, real_path := None, file_dir := (if file_dir f = Dir_stream then Freed_dir else file_dir f)\<rparr>"
  define pool where "pool = (file_id_pool fs)\<lparr>active := active (file_id_pool fs) - 1, freed := freed (file_id_pool fs) @ [i]\<rparr>"
  define fs' where "fs' = fs2\<lparr>files := (files fs2)[nat i := Some g], file_id_pool := pool, open_files := open_files fs2 - 1\<rparr>"
  have t: "table_ok fs" "length (files fs) = 128" using ok by (simp_all add: drive_ok_def)
  have free: "guac_pool_free_int True (file_id_pool fs2) i = Inr pool"
    using t(1) some_open same by (simp add: guac_pool_free_int_def pool_def table_ok_def Let_def)
  have run: "guac_rdp_fs_close i fs = Inr fs'"
    using dir free by (simp add: guac_rdp_fs_close_def with_file_slot [OF i] defined_def fs1_def [symmetric] fs2_def [symmetric] g_def fs'_def)
  have fr: "files fs' = (files fs)[nat i := Some g]" "file_id_pool fs' = pool" "open_files fs' = open_files fs - 1"
    using same by (simp_all add: fs'_def)
  have "i < next_value (file_id_pool fs)" using t(1) i by (fastforce simp: table_ok_def Let_def)
  then have "table_ok fs'"
    using t i some_open unfolding table_ok_def Let_def fr by (auto simp: pool_def nth_list_update split: if_splits)
  then have ok': "drive_ok drive fs'"
    using k2(1) t(2) same by (auto simp: drive_ok_def fs'_def g_def dest!: subsetD [OF set_update_subset_insert])
  have ids: "ids_in_use fs' = ids_in_use fs - {i}" using ids_update [OF t(2) i(1,2) fr(1)] by (simp add: g_def)
  have "table_exact fs'" if "table_exact fs" "i \<in> ids_in_use fs"
    using pool_below_free [of 128 "file_id_pool fs" "ids_in_use fs" i] that free same
    by (auto simp: table_exact_def ids fr)
  then show ?thesis using run ok' ids by (simp add: fr pool_def)
qed

section \<open>Sequences of requests\<close>

text \<open>
  The requests that fault: those on an ID no file was ever opened with, those that close or list a
  directory whose stream was closed already, and closing when no file is open.
\<close>

fun uses_stream :: "drive_request \<Rightarrow> bool" where
  "uses_stream (Close_file i) \<longleftrightarrow> True"
| "uses_stream (Read_dir i) \<longleftrightarrow> True"
| "uses_stream _ \<longleftrightarrow> False"

fun closes :: "drive_request \<Rightarrow> bool" where
  "closes (Close_file i) \<longleftrightarrow> True"
| "closes _ \<longleftrightarrow> False"

definition request_fault :: "drive_request \<Rightarrow> guac_rdp_fs \<Rightarrow> fault option" where
  "request_fault q fs =
     (case request_id q of
        None \<Rightarrow> None
      | Some i \<Rightarrow>
          if i < 0 \<or> i \<ge> 128 then None
          else (case files fs ! nat i of
                  None \<Rightarrow> Some Undefined
                | Some f \<Rightarrow>
                    if uses_stream q \<and> file_dir f = Freed_dir then Some Undefined
                    else if closes q \<and> open_files fs = 0 then Some Abort
                    else None))"

text \<open>A request that names no file of the table, or an open one.\<close>

definition names_open :: "drive_request \<Rightarrow> guac_rdp_fs \<Rightarrow> bool" where
  "names_open q fs \<longleftrightarrow> (\<forall>i. request_id q = Some i \<longrightarrow> i < 0 \<or> i \<ge> 128 \<or> i \<in> ids_in_use fs)"

text \<open>A request served: the invariant holds after it.\<close>

definition served :: "string \<Rightarrow> drive_request \<Rightarrow> guac_rdp_fs \<Rightarrow> bool" where
  "served drive q fs \<longleftrightarrow>
     (\<exists>fs'. drive_step q fs = Inr fs' \<and> drive_ok drive fs' \<and> (table_exact fs \<longrightarrow> names_open q fs \<longrightarrow> table_exact fs'))"

lemma servedI:
  "drive_step q fs = Inr fs' \<Longrightarrow> drive_ok drive fs' \<Longrightarrow> keeps_ids fs fs' \<Longrightarrow> served drive q fs"
  by (auto simp: served_def keeps_exact)

lemma bad_id: "i < 0 \<or> i \<ge> 128 \<Longrightarrow> with_file fs i missing k = missing"
  by (auto simp: with_file_def GUAC_RDP_FS_MAX_FILES_def)

lemma bad_id_served:
  assumes "request_id q = Some i" "i < 0 \<or> i \<ge> 128" "drive_ok drive fs"
  shows "served drive q fs"
proof -
  have "drive_step q fs = Inr fs"
    using assms(1,2) by (cases q) (simp_all add: drive_step_def guac_rdp_fs_read_def guac_rdp_fs_write_def guac_rdp_fs_rename_def
      guac_rdp_fs_delete_def guac_rdp_fs_truncate_def guac_rdp_fs_close_def guac_rdp_fs_read_dir_def bad_id)
  then show ?thesis using assms(3) by (auto simp: served_def)
qed

lemma unopened_faults:
  assumes "request_id q = Some i" "0 \<le> i" "i < 128" "files fs ! nat i = None"
  shows "drive_step q fs = Inl Undefined"
  using assms by (cases q) (simp_all add: drive_step_def guac_rdp_fs_read_def guac_rdp_fs_write_def guac_rdp_fs_rename_def
      guac_rdp_fs_delete_def guac_rdp_fs_truncate_def guac_rdp_fs_close_def guac_rdp_fs_read_dir_def with_file_def GUAC_RDP_FS_MAX_FILES_def)

lemma released_faults:
  assumes "0 \<le> i" "i < 128" "files fs ! nat i = Some f" "file_dir f = Freed_dir"
  shows "guac_rdp_fs_close i fs = Inl Undefined" "guac_rdp_fs_read_dir i fs = Inl Undefined"
  by (simp_all add: guac_rdp_fs_close_def guac_rdp_fs_read_dir_def with_file_slot [OF assms(1-3)] defined_def assms(4))

lemma close_none_open:
  assumes "drive_ok drive fs" "0 \<le> i" "i < 128" "files fs ! nat i = Some f" "file_dir f \<noteq> Freed_dir" "open_files fs = 0"
  shows "guac_rdp_fs_close i fs = Inl Abort"
proof -
  have p: "file_id_pool (snd (fs_call c fs)) = file_id_pool fs" for c fs
    using fs_call_frame(1) [of c fs "fst (fs_call c fs)"] by (simp add: same_table_def)
  have "active (file_id_pool fs) = 0" using assms(1,6) by (simp add: drive_ok_def table_ok_def Let_def)
  then show ?thesis
    using assms(5) by (simp add: guac_rdp_fs_close_def with_file_slot [OF assms(2-4)] defined_def p guac_pool_free_int_def Let_def)
qed

lemma open_files_nonneg: "drive_ok drive fs \<Longrightarrow> open_files fs \<noteq> 0 \<Longrightarrow> 0 < open_files fs"
  by (simp add: drive_ok_def table_ok_def Let_def)

lemma slot_served:
  assumes ok: "drive_ok drive fs" and len: "length drive \<le> 4091" and q: "request_ok q" "request_id q = Some i"
    and i: "0 \<le> i" "i < 128" "files fs ! nat i = Some f"
    and dir: "uses_stream q \<Longrightarrow> file_dir f \<noteq> Freed_dir" and some_open: "closes q \<Longrightarrow> 0 < open_files fs"
  shows "served drive q fs"
proof (cases q)
  case (Read_file j off n)
  then show ?thesis using read_ok [OF ok i, of off n] q(2) by (auto simp: drive_step_def intro!: servedI)
next
  case (Write_file j off data)
  then show ?thesis using write_ok [OF ok i, of off data] q(2) by (auto simp: drive_step_def intro!: servedI)
next
  case (Rename_file j junk path)
  then show ?thesis
    using rename_ok [OF ok len i, of path junk] q by (auto simp: drive_step_def GUAC_RDP_FS_MAX_PATH_def intro!: servedI)
next
  case (Delete_file j)
  then show ?thesis using delete_ok [OF ok i] q(2) by (auto simp: drive_step_def intro!: servedI)
next
  case (Truncate_file j n)
  then show ?thesis using truncate_ok [OF ok i, of n] q(2) by (auto simp: drive_step_def intro!: servedI)
next
  case (Read_dir j)
  then show ?thesis using read_dir_ok [OF ok i] dir q(2) by (auto simp: drive_step_def intro!: servedI)
next
  case (Close_file j)
  then show ?thesis
    using close_ok [OF ok i] dir some_open q(2) i(1,2) by (auto simp: drive_step_def served_def names_open_def)
qed (use q(2) in simp_all)

lemma drive_step_ok:
  assumes ok: "drive_ok drive fs" and len: "length drive \<le> 4091" and q: "request_ok q"
  shows "case request_fault q fs of Some e \<Rightarrow> drive_step q fs = Inl e | None \<Rightarrow> served drive q fs"
proof (cases "request_id q")
  case None
  then show ?thesis
  proof (cases q)
    case (Open_file junk path access d directory_file)
    then have "cstring path" "length junk = 4096" using q by (simp_all add: GUAC_RDP_FS_MAX_PATH_def)
    from open_ok [OF ok len this, of access d directory_file]
    obtain r fs' where o: "guac_rdp_fs_open junk path access d directory_file fs = Inr (r, fs')" "drive_ok drive fs'" "opened fs r fs'"
      by blast
    have "table_exact fs \<longrightarrow> table_exact fs'" using o(3) keeps_exact by (auto simp: opened_def)
    then show ?thesis using o(1,2) Open_file by (simp add: request_fault_def served_def drive_step_def)
  next
    case Get_info
    obtain r info fs' where g: "guac_rdp_fs_get_info fs = (r, info, fs')" by (metis prod_cases3)
    show ?thesis
      using get_info_ok [OF ok g] Get_info g by (auto simp: request_fault_def drive_step_def intro!: servedI)
  qed (use None in simp_all)
next
  case (Some i)
  show ?thesis
  proof (cases "i < 0 \<or> i \<ge> 128")
    case True
    then show ?thesis using bad_id_served [OF Some True ok] Some by (simp add: request_fault_def)
  next
    case False
    then have r: "0 \<le> i" "i < 128" by simp_all
    show ?thesis
    proof (cases "files fs ! nat i")
      case None
      then show ?thesis using unopened_faults [OF Some r None] Some r by (simp add: request_fault_def)
    next
      case f: (Some f)
      have released: "drive_step q fs = Inl Undefined" if "uses_stream q" "file_dir f = Freed_dir"
        using released_faults [OF r f that(2)] that(1) \<open>request_id q = Some i\<close> by (cases q) (simp_all add: drive_step_def)
      have none_open: "drive_step q fs = Inl Abort" if "closes q" "file_dir f \<noteq> Freed_dir" "open_files fs = 0"
        using close_none_open [OF ok r f that(2,3)] that(1) \<open>request_id q = Some i\<close> by (cases q) (simp_all add: drive_step_def)
      have c: "closes q \<longrightarrow> uses_stream q" by (cases q) simp_all
      have rf: "request_fault q fs =
          (if uses_stream q \<and> file_dir f = Freed_dir then Some Undefined
           else if closes q \<and> open_files fs = 0 then Some Abort else None)"
        using r by (simp add: request_fault_def \<open>request_id q = Some i\<close> f)
      show ?thesis
        unfolding rf using slot_served [OF ok len q \<open>request_id q = Some i\<close> r f] released none_open open_files_nonneg [OF ok] c
        by (cases "uses_stream q"; cases "closes q"; cases "file_dir f = Freed_dir"; cases "open_files fs = 0") simp_all
    qed
  qed
qed

lemma pool_below_inv_alloc: "0 \<le> limit \<Longrightarrow> limit < INT_MAX \<Longrightarrow> pool_below_inv limit (guac_pool_alloc 0) {}"
  using pool_inv_alloc [of 0] by (simp add: pool_below_inv_def guac_pool_alloc_def)

lemma drive_alloc_ok:
  assumes c: "calls sys = []"
  shows "drive_ok drive (guac_rdp_fs_alloc drive create no_download no_upload sys)"
    "ids_in_use (guac_rdp_fs_alloc drive create no_download no_upload sys) = {}"
    "table_exact (guac_rdp_fs_alloc drive create no_download no_upload sys)"
proof -
  define n :: nat where "n = 128"
  define fs where "fs = guac_rdp_fs_alloc drive create no_download no_upload sys"
  have files: "files fs = replicate n None" "drive_path fs = drive" "file_id_pool fs = guac_pool_alloc 0" "open_files fs = 0"
    by (simp_all add: fs_def guac_rdp_fs_alloc_def GUAC_RDP_FS_MAX_FILES_def n_def)
  have empty: "files fs ! nat i = None" if "0 \<le> i" "i < 128" for i using that by (simp add: files(1) n_def nat_less_iff)
  have calls: "\<forall>c \<in> set (calls (os fs)). list_all (within drive) (paths_of c)"
    using c by (auto simp: fs_def guac_rdp_fs_alloc_def system_call_def paths_of_def split: list.splits)
  have "table_ok fs" using empty by (simp add: table_ok_def files guac_pool_alloc_def)
  then show "drive_ok drive (guac_rdp_fs_alloc drive create no_download no_upload sys)"
    unfolding drive_ok_def fs_def [symmetric] using calls files(2) by (simp add: files(1) n_def)
  show ids: "ids_in_use (guac_rdp_fs_alloc drive create no_download no_upload sys) = {}"
    using empty by (auto simp: ids_in_use_def fs_def [symmetric])
  show "table_exact (guac_rdp_fs_alloc drive create no_download no_upload sys)"
    using pool_below_inv_alloc [of 128] files(3) by (simp add: table_exact_def ids fs_def INT_MAX_def)
qed

lemma run_ok:
  "drive_run qs fs = Inr fs' \<Longrightarrow> \<forall>q \<in> set qs. request_ok q \<Longrightarrow> drive_ok drive fs \<Longrightarrow> length drive \<le> 4091 \<Longrightarrow> drive_ok drive fs'"
proof (induction qs arbitrary: fs)
  case Nil
  then show ?case by simp
next
  case (Cons q qs)
  obtain fs1 where s: "drive_step q fs = Inr fs1" "drive_run qs fs1 = Inr fs'" using Cons.prems(1) by (auto simp: fault_iff)
  have "drive_ok drive fs1"
    using drive_step_ok [OF Cons.prems(3,4), of q] Cons.prems(2) s(1) by (auto simp: served_def split: option.splits)
  then show ?case using Cons.IH [OF s(2)] Cons.prems(2,4) by simp
qed

text \<open>A sequence of requests each of which names an open file when it comes.\<close>

fun disciplined :: "drive_request list \<Rightarrow> guac_rdp_fs \<Rightarrow> bool" where
  "disciplined [] fs \<longleftrightarrow> True"
| "disciplined (q # qs) fs \<longleftrightarrow> names_open q fs \<and> (case drive_step q fs of Inl e \<Rightarrow> True | Inr fs' \<Rightarrow> disciplined qs fs')"

lemma open_count: "drive_ok drive fs \<Longrightarrow> table_exact fs \<Longrightarrow> open_files fs = int (card (ids_in_use fs))"
  by (simp add: table_exact_def pool_below_inv_def pool_inv_def drive_ok_def table_ok_def Let_def)

lemma ids_finite: "finite (ids_in_use fs)"
  by (rule finite_subset [of _ "{0..<128}"]) (auto simp: ids_in_use_def)

lemma names_open_no_fault:
  assumes "drive_ok drive fs" "table_exact fs" "names_open q fs"
  shows "request_fault q fs = None"
proof (cases "request_id q")
  case (Some i)
  show ?thesis
  proof (cases "i < 0 \<or> i \<ge> 128")
    case False
    then obtain f where i: "0 \<le> i" "i < 128" "i \<in> ids_in_use fs" "files fs ! nat i = Some f" "real_path f \<noteq> None"
      using assms(3) Some by (auto simp: names_open_def ids_in_use_def)
    then have "file_dir f \<noteq> Freed_dir" using file_within(2) [OF assms(1) i(1,2,4)] by blast
    moreover have "open_files fs \<noteq> 0" using open_count [OF assms(1,2)] i(3) ids_finite card_gt_0_iff by fastforce
    ultimately show ?thesis using i Some by (simp add: request_fault_def)
  qed (simp add: request_fault_def Some)
qed (simp add: request_fault_def)

lemma disciplined_run:
  "disciplined qs fs \<Longrightarrow> \<forall>q \<in> set qs. request_ok q \<Longrightarrow> drive_ok drive fs \<Longrightarrow> table_exact fs \<Longrightarrow> length drive \<le> 4091 \<Longrightarrow>
     \<exists>fs'. drive_run qs fs = Inr fs' \<and> drive_ok drive fs' \<and> table_exact fs'"
proof (induction qs arbitrary: fs)
  case Nil
  then show ?case by simp
next
  case (Cons q qs)
  have named: "names_open q fs" using Cons.prems(1) by simp
  have "request_fault q fs = None" by (rule names_open_no_fault [OF Cons.prems(3,4) named])
  then obtain fs1 where s: "drive_step q fs = Inr fs1" "drive_ok drive fs1" "table_exact fs1"
    using drive_step_ok [OF Cons.prems(3,5), of q] Cons.prems(2,4) named by (auto simp: served_def)
  then show ?case using Cons.IH [of fs1] Cons.prems(1,2,5) by simp
qed





section \<open>Properties\<close>

text \<open>
  C3. The remote desktop never leaves the shared drive. For a drive whose directory's name has at most
  4091 bytes (the translation cuts paths at 4095 bytes without notice) and any sequence of requests,
  with any paths (C strings), any IDs, also of files that are closed, any data and any replies of the
  operating system: every path the process hands to the operating system is the directory of the drive,
  or follows from it by components that at no point lead above it. And the next request returns, but for
  three cases, which are faults: its ID is in the range of the table and no file was ever opened with it (the slot
  holds no value), it closes or lists a directory whose stream was closed already (undefined), or it closes a
  file that was closed already when no file is open (the pool aborts). The statement is about the
  sequences up to the first fault; symbolic links are the operating system's.
\<close>

theorem drive_confines_paths:
  assumes "\<forall>q \<in> set qs. request_ok q" "length drive \<le> 4091" "calls sys = []"
    and "drive_run qs (guac_rdp_fs_alloc drive create_drive_path no_download no_upload sys) = Inr fs"
  shows "(\<forall>c \<in> set (calls (os fs)). \<forall>p \<in> set (paths_of c). within drive p) \<and>
         (\<forall>q. request_ok q \<longrightarrow>
            (case request_fault q fs of Some e \<Rightarrow> drive_step q fs = Inl e | None \<Rightarrow> \<exists>fs'. drive_step q fs = Inr fs'))"
proof -
  have ok: "drive_ok drive fs" by (rule run_ok [OF assms(4,1) drive_alloc_ok(1) [OF assms(3)] assms(2)])
  then have "\<forall>c \<in> set (calls (os fs)). \<forall>p \<in> set (paths_of c). within drive p" by (auto simp: drive_ok_def list_all_iff)
  moreover have "case request_fault q fs of Some e \<Rightarrow> drive_step q fs = Inl e | None \<Rightarrow> \<exists>fs'. drive_step q fs = Inr fs'"
    if "request_ok q" for q
    using drive_step_ok [OF ok assms(2) that] by (auto simp: served_def split: option.splits)
  ultimately show ?thesis by blast
qed

theorem drive_confines_paths_witness:
  "\<exists>fs. drive_run [Open_file (replicate 4096 NUL) [CHR 0x5C, CHR ''.'', CHR ''.'', CHR 0x5C, CHR ''x''] {GENERIC_ALL} FILE_SUPERSEDE False]
       (guac_rdp_fs_alloc ''/drive'' True False False \<lparr>calls = [], replies = []\<rparr>) = Inr fs \<and>
     (\<forall>c \<in> set (calls (os fs)). \<forall>p \<in> set (paths_of c). within ''/drive'' p)"
proof -
  let ?q = "Open_file (replicate 4096 NUL) [CHR 0x5C, CHR ''.'', CHR ''.'', CHR 0x5C, CHR ''x''] {GENERIC_ALL} FILE_SUPERSEDE False"
  let ?fs = "guac_rdp_fs_alloc ''/drive'' True False False \<lparr>calls = [], replies = []\<rparr>"
  have q: "\<forall>q \<in> set [?q]. request_ok q" by (simp add: cstring_def GUAC_RDP_FS_MAX_PATH_def)
  have ok: "drive_ok ''/drive'' ?fs" "table_exact ?fs" by (rule drive_alloc_ok, simp)+
  have d: "disciplined [?q] ?fs" by (simp add: names_open_def split: sum.splits)
  obtain fs where run: "drive_run [?q] ?fs = Inr fs" using disciplined_run [OF d q ok] by auto
  show ?thesis using drive_confines_paths [OF q _ _ run] run by auto
qed



end
