(* ===== verification/UserInput.thy ===== *)
theory UserInput
  imports Parser Base64 Streams
begin

text \<open>
  What a user sends: the handlers of the instructions of a session and of the handshake
  (\<open>src/src/libguac/user-handlers.c\<close>) and the loops that read and dispatch them
  (\<open>src/src/libguac/user-handshake.c\<close>).

  The callbacks that the protocol plugins register for a user are the function \<open>respond\<close>, which may
  change the whole session; each call is recorded in \<open>handler_calls\<close>. An argument is the bytes of its C
  string. The arguments of an instruction are pointers in an array that the parser reuses: one that
  the instruction does not have is whatever an earlier instruction left there or was never
  initialized, and using it is undefined here.
\<close>

unbundle bit_operations_syntax

section \<open>Numbers\<close>

text \<open>
  \<open>atoi\<close> and \<open>strtol\<close> of the C library: white space, a sign, digits. The value of \<open>strtol\<close> is
  clamped to 64 bits, and \<open>atoi\<close> is its low 32 bits.
\<close>

definition LONG_MAX :: int where "LONG_MAX = 9223372036854775807"
definition LONG_MIN :: int where "LONG_MIN = -9223372036854775808"

definition wrap64 :: "int \<Rightarrow> int" where
  "wrap64 x = (x + 9223372036854775808) mod 18446744073709551616 - 9223372036854775808"

definition c_isspace :: "u8 \<Rightarrow> bool" where
  "c_isspace c \<longleftrightarrow> c = 32 \<or> (9 \<le> c \<and> c \<le> 13)"

fun strtol_digits :: "u8 list \<Rightarrow> int \<Rightarrow> int \<times> u8 list" where
  "strtol_digits [] n = (n, [])"
| "strtol_digits (c # cs) n = (if is_digit c then strtol_digits cs (n * 10 + (uint c - 48)) else (n, c # cs))"

text \<open>The value before it is clamped, and what follows the number.\<close>

definition strtol_value :: "u8 list \<Rightarrow> int \<times> u8 list" where
  "strtol_value str =
     (let s = dropWhile c_isspace str;
          negative = (s \<noteq> [] \<and> hd s = of_char (CHR ''-''));
          digits = (if s \<noteq> [] \<and> (hd s = of_char (CHR ''-'') \<or> hd s = of_char (CHR ''+'')) then tl s else s);
          (n, rest) = strtol_digits digits 0
      in if digits = [] \<or> \<not> is_digit (hd digits) then (0, str)
         else (if negative then - n else n, rest))"

definition atoi :: "u8 list \<Rightarrow> int" where
  "atoi str = wrap32 (max LONG_MIN (min LONG_MAX (fst (strtol_value str))))"

text \<open>The parser of 64-bit integers; a \<open>char\<close> is signed.\<close>

fun guac_parse_int_loop :: "u8 list \<Rightarrow> int \<Rightarrow> int \<Rightarrow> int" where
  "guac_parse_int_loop [] sign num = wrap64 (num * sign)"
| "guac_parse_int_loop (c # cs) sign num =
     (if c = of_char (CHR ''-'') then guac_parse_int_loop cs (- sign) num
      else guac_parse_int_loop cs sign (wrap64 (num * 10 + (sint c - 48))))"

definition guac_parse_int :: "u8 list \<Rightarrow> int" where
  "guac_parse_int str = guac_parse_int_loop str 1 0"

section \<open>Sessions\<close>

datatype handler_kind =
    On_sync | On_touch | On_mouse | On_key | On_audio | On_clipboard | On_size | On_file | On_pipe | On_argv
  | On_ack | On_blob | On_end | On_get | On_put

text \<open>
  The calls of callbacks. A stream or object is its position in the array; the handler of a stream or
  object is \<open>Some\<close>, \<open>None\<close> stands for the handler of the user. The angle and the force of a touch are
  the texts that \<open>atof\<close> converts.
\<close>

datatype handler_call =
    Sync_call int
  | Touch_call int int int int int "u8 list" "u8 list"
  | Mouse_call int int int
  | Key_call int int
  | Audio_call nat "u8 list"
  | Clipboard_call nat "u8 list"
  | Size_call int int
  | File_call nat "u8 list" "u8 list"
  | Pipe_call nat "u8 list" "u8 list"
  | Argv_call nat "u8 list" "u8 list"
  | Ack_call "nat option" nat "u8 list" int
  | Blob_call "nat option" nat "u8 list"
  | End_call "nat option" nat
  | Get_call "nat option" nat "u8 list"
  | Put_call "nat option" nat nat "u8 list" "u8 list"

record guac_user_info =
  optimal_width :: int
  optimal_height :: int
  optimal_resolution :: int
  audio_mimetypes :: "u8 list list option"
  video_mimetypes :: "u8 list list option"
  image_mimetypes :: "u8 list list option"
  info_name :: "u8 list option"
  info_timezone :: "u8 list option"
  protocol_version :: guac_protocol_version

record user_session =
  session_user :: guac_user
  input_streams :: "guac_stream list"
  session_socket :: guac_socket
  handlers :: "handler_kind \<Rightarrow> bool"
  active :: bool
  client_running :: bool
  last_sent_timestamp :: int
  last_received_timestamp :: int
  last_frame_duration :: int
  processing_lag :: int
  info :: guac_user_info
  handler_calls :: "handler_call list"

type_synonym responder = "handler_call \<Rightarrow> user_session \<Rightarrow> int \<times> user_session"
type_synonym instruction_handler = "u8 list list \<Rightarrow> user_session \<Rightarrow> (int \<times> user_session) result"

definition invoke :: "responder \<Rightarrow> handler_call \<Rightarrow> user_session \<Rightarrow> int \<times> user_session" where
  "invoke respond c u = respond c (u\<lparr>handler_calls := handler_calls u @ [c]\<rparr>)"

definition arg :: "u8 list list \<Rightarrow> nat \<Rightarrow> (u8 list \<Rightarrow> 'a result) \<Rightarrow> 'a result" where
  "arg args i k = defined (i < length args) (k (args ! i))"

definition GUAC_PROTOCOL_STATUS_UNSUPPORTED :: int where "GUAC_PROTOCOL_STATUS_UNSUPPORTED = 0x0100"
definition GUAC_PROTOCOL_STATUS_CLIENT_BAD_REQUEST :: int where "GUAC_PROTOCOL_STATUS_CLIENT_BAD_REQUEST = 0x0300"
definition GUAC_PROTOCOL_STATUS_CLIENT_TIMEOUT :: int where "GUAC_PROTOCOL_STATUS_CLIENT_TIMEOUT = 0x0308"

definition send_ack :: "int \<Rightarrow> string \<Rightarrow> int \<Rightarrow> user_session \<Rightarrow> user_session" where
  "send_ack i message status u =
     u\<lparr>session_socket := snd (guac_protocol_send_ack i (bytes_of message) status (session_socket u))\<rparr>"

section \<open>Handlers of plain events\<close>

definition guac_handle_sync :: "responder \<Rightarrow> int \<Rightarrow> instruction_handler" where
  "guac_handle_sync respond current args u =
     arg args 0 (\<lambda>text.
       let timestamp = guac_parse_int text in
       if timestamp > last_sent_timestamp u then Inr (-1, u)
       else
         let u =
           (if timestamp \<ge> last_received_timestamp u
            then
              let frame_duration = wrap32 (current - timestamp);
                  frame_processing_lag =
                    (if last_frame_duration u \<noteq> 0 then max 0 (wrap32 (frame_duration - last_frame_duration u)) else 0);
                  estimated_rtt = wrap32 (frame_duration - frame_processing_lag);
                  lag = max 0 (wrap32 (current - timestamp - estimated_rtt))
              in u\<lparr>last_received_timestamp := timestamp, last_frame_duration := estimated_rtt, processing_lag := lag\<rparr>
            else u)
         in if handlers u On_sync then Inr (invoke respond (Sync_call timestamp) u) else Inr (0, u))"

text \<open>An event is passed on if its handler is defined; only then are the arguments used.\<close>

definition handle_event :: "responder \<Rightarrow> handler_kind \<Rightarrow> (u8 list list \<Rightarrow> handler_call result) \<Rightarrow> instruction_handler" where
  "handle_event respond kind mk args u =
     (if handlers u kind then bindr (mk args) (\<lambda>c. Inr (invoke respond c u)) else Inr (0, u))"

definition guac_handle_touch :: "responder \<Rightarrow> instruction_handler" where
  "guac_handle_touch respond = handle_event respond On_touch (\<lambda>args.
     arg args 0 (\<lambda>i. arg args 1 (\<lambda>x. arg args 2 (\<lambda>y. arg args 3 (\<lambda>rx. arg args 4 (\<lambda>ry.
     arg args 5 (\<lambda>angle. arg args 6 (\<lambda>force.
       Inr (Touch_call (atoi i) (atoi x) (atoi y) (atoi rx) (atoi ry) angle force)))))))))"

definition guac_handle_mouse :: "responder \<Rightarrow> instruction_handler" where
  "guac_handle_mouse respond = handle_event respond On_mouse (\<lambda>args.
     arg args 0 (\<lambda>x. arg args 1 (\<lambda>y. arg args 2 (\<lambda>msk. Inr (Mouse_call (atoi x) (atoi y) (atoi msk))))))"

definition guac_handle_key :: "responder \<Rightarrow> instruction_handler" where
  "guac_handle_key respond = handle_event respond On_key (\<lambda>args.
     arg args 0 (\<lambda>keysym. arg args 1 (\<lambda>pressed. Inr (Key_call (atoi keysym) (atoi pressed)))))"

definition guac_handle_size :: "responder \<Rightarrow> instruction_handler" where
  "guac_handle_size respond = handle_event respond On_size (\<lambda>args.
     arg args 0 (\<lambda>w. arg args 1 (\<lambda>h. Inr (Size_call (atoi w) (atoi h)))))"

definition guac_handle_nop :: instruction_handler where
  "guac_handle_nop args u = Inr (0, u)"

definition guac_user_stop :: "user_session \<Rightarrow> user_session" where
  "guac_user_stop u = u\<lparr>active := False\<rparr>"

definition guac_handle_disconnect :: instruction_handler where
  "guac_handle_disconnect args u = Inr (0, guac_user_stop u)"

section \<open>Handlers of streams\<close>

definition get_input_stream :: "int \<Rightarrow> user_session \<Rightarrow> nat option \<times> user_session" where
  "get_input_stream i u =
     (if i < 0 \<or> i \<ge> GUAC_USER_MAX_STREAMS
      then (None, send_ack i ''Invalid stream index'' GUAC_PROTOCOL_STATUS_CLIENT_BAD_REQUEST u)
      else (Some (nat i), u))"

definition get_open_input_stream :: "int \<Rightarrow> user_session \<Rightarrow> nat option \<times> user_session" where
  "get_open_input_stream i u =
     (case get_input_stream i u of
        (None, u) \<Rightarrow> (None, u)
      | (Some k, u) \<Rightarrow>
          if stream_index (input_streams u ! k) = -1
          then (None, send_ack i ''Invalid stream index'' GUAC_PROTOCOL_STATUS_CLIENT_BAD_REQUEST u)
          else (Some k, u))"

text \<open>Call the handler for the end of a stream, if there is one.\<close>

definition call_end_handler :: "responder \<Rightarrow> nat \<Rightarrow> user_session \<Rightarrow> int \<times> user_session" where
  "call_end_handler respond k u =
     (case stream_end_handler (input_streams u ! k) of
        Some h \<Rightarrow> invoke respond (End_call (Some h) k) u
      | None \<Rightarrow> if handlers u On_end then invoke respond (End_call None k) u else (0, u))"

definition init_input_stream :: "responder \<Rightarrow> int \<Rightarrow> user_session \<Rightarrow> nat option \<times> user_session" where
  "init_input_stream respond i u =
     (case get_input_stream i u of
        (None, u) \<Rightarrow> (None, u)
      | (Some k, u) \<Rightarrow>
          let u = (if stream_index (input_streams u ! k) \<noteq> -1 then snd (call_end_handler respond k u) else u)
          in (Some k, u\<lparr>input_streams := (input_streams u)[k :=
                \<lparr>stream_index = i, stream_data = None, stream_ack_handler = None, stream_blob_handler = None,
                 stream_end_handler = None\<rparr>]\<rparr>))"

text \<open>The handlers of the instructions that open a stream differ in the callback and its arguments.\<close>

definition handle_stream ::
  "responder \<Rightarrow> handler_kind \<Rightarrow> (u8 list list \<Rightarrow> nat \<Rightarrow> handler_call result) \<Rightarrow> string \<Rightarrow> instruction_handler" where
  "handle_stream respond kind mk unsupported args u =
     arg args 0 (\<lambda>text.
       case init_input_stream respond (atoi text) u of
         (None, u) \<Rightarrow> Inr (0, u)
       | (Some k, u) \<Rightarrow>
           if handlers u kind then bindr (mk args k) (\<lambda>c. Inr (invoke respond c u))
           else Inr (0, send_ack (atoi text) unsupported GUAC_PROTOCOL_STATUS_UNSUPPORTED u))"

definition guac_handle_audio :: "responder \<Rightarrow> instruction_handler" where
  "guac_handle_audio respond =
     handle_stream respond On_audio (\<lambda>args k. arg args 1 (\<lambda>mimetype. Inr (Audio_call k mimetype))) ''Audio input unsupported''"

definition guac_handle_clipboard :: "responder \<Rightarrow> instruction_handler" where
  "guac_handle_clipboard respond =
     handle_stream respond On_clipboard (\<lambda>args k. arg args 1 (\<lambda>mimetype. Inr (Clipboard_call k mimetype))) ''Clipboard unsupported''"

definition guac_handle_file :: "responder \<Rightarrow> instruction_handler" where
  "guac_handle_file respond =
     handle_stream respond On_file (\<lambda>args k. arg args 1 (\<lambda>mimetype. arg args 2 (\<lambda>filename. Inr (File_call k mimetype filename))))
       ''File transfer unsupported''"

definition guac_handle_pipe :: "responder \<Rightarrow> instruction_handler" where
  "guac_handle_pipe respond =
     handle_stream respond On_pipe (\<lambda>args k. arg args 1 (\<lambda>mimetype. arg args 2 (\<lambda>name. Inr (Pipe_call k mimetype name))))
       ''Named pipes unsupported''"

definition guac_handle_argv :: "responder \<Rightarrow> instruction_handler" where
  "guac_handle_argv respond =
     handle_stream respond On_argv (\<lambda>args k. arg args 1 (\<lambda>mimetype. arg args 2 (\<lambda>name. Inr (Argv_call k mimetype name))))
       ''Reconfiguring in-progress connections unsupported''"

text \<open>Acknowledgements are for the streams that the server opened; odd indices are those of the client.\<close>

definition guac_handle_ack :: "responder \<Rightarrow> instruction_handler" where
  "guac_handle_ack respond args u =
     arg args 0 (\<lambda>text.
       let i = atoi text in
       if cmod i 2 \<noteq> 0 then Inr (0, u)
       else
         let i = cdiv i 2 in
         if i < 0 \<or> i \<ge> GUAC_USER_MAX_STREAMS then Inr (0, u)
         else
           let stream = user_output_streams (session_user u) ! nat i;
               call = (\<lambda>h. arg args 1 (\<lambda>message. arg args 2 (\<lambda>code. Inr (invoke respond (Ack_call h (nat i) message (atoi code)) u))))
           in if stream_index stream = -1 then Inr (0, u)
              else (case stream_ack_handler stream of
                      Some h \<Rightarrow> call (Some h)
                    | None \<Rightarrow> if handlers u On_ack then call None else Inr (0, u)))"

text \<open>The data of a blob, decoded in place.\<close>

definition blob_data :: "u8 list \<Rightarrow> u8 list result" where
  "blob_data text = bindr (guac_protocol_decode_base64 (text @ [0])) (\<lambda>(len, buf). Inr (take len buf))"

definition guac_handle_blob :: "responder \<Rightarrow> instruction_handler" where
  "guac_handle_blob respond args u =
     arg args 0 (\<lambda>text.
       case get_open_input_stream (atoi text) u of
         (None, u) \<Rightarrow> Inr (0, u)
       | (Some k, u) \<Rightarrow>
           let call = (\<lambda>h. arg args 1 (\<lambda>text. bindr (blob_data text) (\<lambda>data. Inr (invoke respond (Blob_call h k data) u))))
           in (case stream_blob_handler (input_streams u ! k) of
                 Some h \<Rightarrow> call (Some h)
               | None \<Rightarrow>
                   if handlers u On_blob then call None
                   else Inr (0, send_ack (stream_index (input_streams u ! k)) ''File transfer unsupported''
                                  GUAC_PROTOCOL_STATUS_UNSUPPORTED u)))"

definition guac_handle_end :: "responder \<Rightarrow> instruction_handler" where
  "guac_handle_end respond args u =
     arg args 0 (\<lambda>text.
       case get_open_input_stream (atoi text) u of
         (None, u) \<Rightarrow> Inr (0, u)
       | (Some k, u) \<Rightarrow>
           let (r, u) = call_end_handler respond k u
           in Inr (r, u\<lparr>input_streams := (input_streams u)[k := closed_stream (input_streams u ! k)]\<rparr>))"

section \<open>Handlers of objects\<close>

text \<open>The object an instruction refers to, if it is defined.\<close>

definition get_object :: "u8 list \<Rightarrow> user_session \<Rightarrow> nat option" where
  "get_object text u =
     (let i = atoi text in
      if i < 0 \<or> i \<ge> GUAC_USER_MAX_OBJECTS \<or> object_index (user_objects (session_user u) ! nat i) = -1 then None
      else Some (nat i))"

definition guac_handle_get :: "responder \<Rightarrow> instruction_handler" where
  "guac_handle_get respond args u =
     arg args 0 (\<lambda>text.
       case get_object text u of
         None \<Rightarrow> Inr (0, u)
       | Some j \<Rightarrow>
           let call = (\<lambda>h. arg args 1 (\<lambda>name. Inr (invoke respond (Get_call h j name) u)))
           in (case object_get_handler (user_objects (session_user u) ! j) of
                 Some h \<Rightarrow> call (Some h)
               | None \<Rightarrow> if handlers u On_get then call None else Inr (0, u)))"

definition guac_handle_put :: "responder \<Rightarrow> instruction_handler" where
  "guac_handle_put respond args u =
     arg args 0 (\<lambda>text.
       case get_object text u of
         None \<Rightarrow> Inr (0, u)
       | Some j \<Rightarrow>
           arg args 1 (\<lambda>text.
             case init_input_stream respond (atoi text) u of
               (None, u) \<Rightarrow> Inr (0, u)
             | (Some k, u) \<Rightarrow>
                 let call = (\<lambda>h. arg args 2 (\<lambda>mimetype. arg args 3 (\<lambda>name. Inr (invoke respond (Put_call h j k mimetype name) u))))
                 in (case object_put_handler (user_objects (session_user u) ! j) of
                       Some h \<Rightarrow> call (Some h)
                     | None \<Rightarrow>
                         if handlers u On_put then call None
                         else Inr (0, send_ack (atoi text) ''Object write unsupported'' GUAC_PROTOCOL_STATUS_UNSUPPORTED u))))"

section \<open>Handlers of the handshake\<close>

definition guac_handshake_size_handler :: instruction_handler where
  "guac_handshake_size_handler args u =
     (if length args < 2 then Inr (1, u)
      else Inr (0, u\<lparr>info := (info u)\<lparr>optimal_width := atoi (args ! 0), optimal_height := atoi (args ! 1),
             optimal_resolution := (if length args \<ge> 3 then atoi (args ! 2) else 96)\<rparr>\<rparr>))"

definition guac_handshake_audio_handler :: instruction_handler where
  "guac_handshake_audio_handler args u = Inr (0, u\<lparr>info := (info u)\<lparr>audio_mimetypes := Some args\<rparr>\<rparr>)"

definition guac_handshake_video_handler :: instruction_handler where
  "guac_handshake_video_handler args u = Inr (0, u\<lparr>info := (info u)\<lparr>video_mimetypes := Some args\<rparr>\<rparr>)"

definition guac_handshake_image_handler :: instruction_handler where
  "guac_handshake_image_handler args u = Inr (0, u\<lparr>info := (info u)\<lparr>image_mimetypes := Some args\<rparr>\<rparr>)"

definition guac_handshake_name_handler :: instruction_handler where
  "guac_handshake_name_handler args u =
     Inr (0, u\<lparr>info := (info u)\<lparr>info_name := (if args \<noteq> [] \<and> hd args \<noteq> [] then Some (hd args) else None)\<rparr>\<rparr>)"

definition guac_handshake_timezone_handler :: instruction_handler where
  "guac_handshake_timezone_handler args u =
     Inr (0, u\<lparr>info := (info u)\<lparr>info_timezone := (if args \<noteq> [] \<and> hd args \<noteq> [] then Some (hd args) else None)\<rparr>\<rparr>)"

section \<open>Dispatch\<close>

definition guac_instruction_handler_map :: "responder \<Rightarrow> int \<Rightarrow> (string \<times> instruction_handler) list" where
  "guac_instruction_handler_map respond current =
     [(''sync'', guac_handle_sync respond current),
      (''touch'', guac_handle_touch respond),
      (''mouse'', guac_handle_mouse respond),
      (''key'', guac_handle_key respond),
      (''clipboard'', guac_handle_clipboard respond),
      (''disconnect'', guac_handle_disconnect),
      (''size'', guac_handle_size respond),
      (''file'', guac_handle_file respond),
      (''pipe'', guac_handle_pipe respond),
      (''ack'', guac_handle_ack respond),
      (''blob'', guac_handle_blob respond),
      (''end'', guac_handle_end respond),
      (''get'', guac_handle_get respond),
      (''put'', guac_handle_put respond),
      (''audio'', guac_handle_audio respond),
      (''argv'', guac_handle_argv respond),
      (''nop'', guac_handle_nop)]"

definition guac_handshake_handler_map :: "(string \<times> instruction_handler) list" where
  "guac_handshake_handler_map =
     [(''size'', guac_handshake_size_handler),
      (''audio'', guac_handshake_audio_handler),
      (''video'', guac_handshake_video_handler),
      (''image'', guac_handshake_image_handler),
      (''timezone'', guac_handshake_timezone_handler),
      (''name'', guac_handshake_name_handler)]"

fun guac_user_call_opcode_handler :: "(string \<times> instruction_handler) list \<Rightarrow> u8 list \<Rightarrow> instruction_handler" where
  "guac_user_call_opcode_handler [] op args u = Inr (0, u)"
| "guac_user_call_opcode_handler ((name, handler) # table) op args u =
     (if op = bytes_of name then handler args u else guac_user_call_opcode_handler table op args u)"

definition guac_user_handle_instruction :: "responder \<Rightarrow> int \<Rightarrow> u8 list \<Rightarrow> instruction_handler" where
  "guac_user_handle_instruction respond current =
     guac_user_call_opcode_handler (guac_instruction_handler_map respond current)"

section \<open>Connections\<close>

definition guac_user_abort :: "int \<Rightarrow> user_session \<Rightarrow> user_session" where
  "guac_user_abort status u =
     (if active u
      then guac_user_stop (u\<lparr>session_socket :=
             snd (guac_socket_flush (snd (guac_protocol_send_error (bytes_of ''Aborted. See logs.'') status (session_socket u))))\<rparr>)
      else u)"

text \<open>
  The input thread. The list holds the readings of the clock, one for each instruction; \<open>None\<close> when
  they are used up or when reading blocks for ever.
\<close>

fun guac_user_input_thread ::
  "responder \<Rightarrow> int list \<Rightarrow> guac_parser \<Rightarrow> socket_event list \<Rightarrow> user_session \<Rightarrow> user_session result option" where
  "guac_user_input_thread respond [] parser script u = None"
| "guac_user_input_thread respond (current # clock) parser script u =
     (if client_running u \<and> active u
      then
        (case guac_parser_read parser script of
           None \<Rightarrow> None
         | Some (r, status, parser, script) \<Rightarrow>
             if r \<noteq> 0
             then Some (Inr (if status = Some GUAC_STATUS_TIMEOUT then guac_user_abort GUAC_PROTOCOL_STATUS_CLIENT_TIMEOUT u
                             else guac_user_stop u))
             else
               (case guac_user_handle_instruction respond current (hd (instruction_of parser)) (tl (instruction_of parser)) u of
                  Inl e \<Rightarrow> Some (Inl e)
                | Inr (r, u) \<Rightarrow>
                    if r \<noteq> 0 then Some (Inr (guac_user_stop u))
                    else guac_user_input_thread respond clock parser script u))
      else Some (Inr u))"

text \<open>\<open>created\<close> tells whether the thread could be created.\<close>

definition guac_user_start ::
  "responder \<Rightarrow> bool \<Rightarrow> int list \<Rightarrow> guac_parser \<Rightarrow> socket_event list \<Rightarrow> user_session \<Rightarrow> (int \<times> user_session) result option" where
  "guac_user_start respond created clock parser script u =
     (if \<not> created then Some (Inr (-1, guac_user_stop u))
      else
        (case guac_user_input_thread respond clock parser script u of
           None \<Rightarrow> None
         | Some (Inl e) \<Rightarrow> Some (Inl e)
         | Some (Inr u) \<Rightarrow>
             Some (Inr (0, u\<lparr>session_socket := snd (guac_socket_flush (snd (guac_protocol_send_disconnect (session_socket u))))\<rparr>))))"

text \<open>
  The handshake, with at most \<open>fuel\<close> instructions. The flag is true when the parser has been freed,
  which happens after a failed handler.
\<close>

fun guac_user_handshake ::
  "nat \<Rightarrow> guac_parser \<Rightarrow> socket_event list \<Rightarrow> user_session \<Rightarrow>
     (int \<times> bool \<times> guac_parser \<times> socket_event list \<times> user_session) result option" where
  "guac_user_handshake 0 parser script u = None"
| "guac_user_handshake (Suc fuel) parser script u =
     (case guac_parser_read parser script of
        None \<Rightarrow> None
      | Some (r, status, parser, script) \<Rightarrow>
          if r \<noteq> 0 then Some (Inr (1, False, parser, script, u))
          else if hd (instruction_of parser) = bytes_of ''connect'' then Some (Inr (0, False, parser, script, u))
          else
            (case guac_user_call_opcode_handler guac_handshake_handler_map
                    (hd (instruction_of parser)) (tl (instruction_of parser)) u of
               Inl e \<Rightarrow> Some (Inl e)
             | Inr (r, u) \<Rightarrow>
                 if r \<noteq> 0 then Some (Inr (1, True, parser, script, u))
                 else guac_user_handshake fuel parser script u))"

text \<open>
  \<open>arg_names\<close> and \<open>connection_id\<close> are those of the client, \<open>join\<close> and \<open>leave\<close> add and remove the user. The
  second release of a parser that the handshake has already freed is undefined.
\<close>

definition guac_user_handle_connection ::
  "responder \<Rightarrow> (u8 list list \<Rightarrow> user_session \<Rightarrow> int \<times> user_session) \<Rightarrow> (user_session \<Rightarrow> user_session) \<Rightarrow>
     u8 list list \<Rightarrow> u8 list \<Rightarrow> guac_parser option \<Rightarrow> bool \<Rightarrow> nat \<Rightarrow> int list \<Rightarrow> socket_event list \<Rightarrow> user_session \<Rightarrow>
     (int \<times> user_session) result option" where
  "guac_user_handle_connection respond join leave arg_names connection_id memory created fuel clock script u =
     (let u = u\<lparr>info := (info u)\<lparr>audio_mimetypes := None, image_mimetypes := None, video_mimetypes := None,
                                  info_name := None, info_timezone := None\<rparr>\<rparr>;
          (sent, sock) = guac_protocol_send_args arg_names (session_socket u)
      in if sent \<noteq> 0 then Some (Inr (1, u\<lparr>session_socket := sock\<rparr>))
         else
           let (flushed, sock) = guac_socket_flush sock; u = u\<lparr>session_socket := sock\<rparr> in
           if flushed \<noteq> 0 then Some (Inr (1, u))
           else
             (case guac_parser_alloc memory of
                None \<Rightarrow> Some (Inl Undefined)
              | Some parser \<Rightarrow>
                  (case guac_user_handshake fuel parser script u of
                     None \<Rightarrow> None
                   | Some (Inl e) \<Rightarrow> Some (Inl e)
                   | Some (Inr (r, was_freed, parser, script, u)) \<Rightarrow>
                       if r \<noteq> 0 then Some (if was_freed then Inl Undefined else Inr (1, u))
                       else
                         let u = u\<lparr>session_socket := snd (guac_socket_flush (snd (guac_protocol_send_ready connection_id (session_socket u))))\<rparr>;
                             args = tl (instruction_of parser)
                         in if length args \<noteq> length arg_names + 1 then Some (Inr (1, u))
                            else
                              let (refused, u) = join (tl args) u in
                              if refused \<noteq> 0 then Some (Inr (0, u))
                              else
                                let u = u\<lparr>info := (info u)\<lparr>protocol_version :=
                                      (if hd args \<noteq> [] then guac_protocol_string_to_version (map (\<lambda>b. char_of (unat b)) (hd args))
                                       else GUAC_PROTOCOL_VERSION_1_0_0)\<rparr>\<rparr>
                                in (case guac_user_start respond created clock parser script u of
                                      None \<Rightarrow> None
                                    | Some (Inl e) \<Rightarrow> Some (Inl e)
                                    | Some (Inr (r, u)) \<Rightarrow> Some (Inr (0, leave u))))))"

section \<open>What is known of a user\<close>

definition version_number :: "guac_protocol_version \<Rightarrow> int" where
  "version_number v =
     (case v of
        GUAC_PROTOCOL_VERSION_UNKNOWN \<Rightarrow> 0x000000
      | GUAC_PROTOCOL_VERSION_1_0_0 \<Rightarrow> 0x010000
      | GUAC_PROTOCOL_VERSION_1_1_0 \<Rightarrow> 0x010100
      | GUAC_PROTOCOL_VERSION_1_3_0 \<Rightarrow> 0x010300
      | GUAC_PROTOCOL_VERSION_1_5_0 \<Rightarrow> 0x010500)"

definition guac_user_supports_msg :: "user_session option \<Rightarrow> bool" where
  "guac_user_supports_msg user =
     (case user of None \<Rightarrow> False
      | Some u \<Rightarrow> version_number (protocol_version (info u)) \<ge> version_number GUAC_PROTOCOL_VERSION_1_5_0)"

definition guac_user_supports_required :: "user_session option \<Rightarrow> bool" where
  "guac_user_supports_required user =
     (case user of None \<Rightarrow> False
      | Some u \<Rightarrow> version_number (protocol_version (info u)) \<ge> version_number GUAC_PROTOCOL_VERSION_1_3_0)"

text \<open>The list of image types is absent when the client never sent it; following it is undefined.\<close>

definition guac_user_supports_webp :: "user_session \<Rightarrow> bool result" where
  "guac_user_supports_webp u =
     (case image_mimetypes (info u) of
        None \<Rightarrow> Inl Undefined
      | Some mimetypes \<Rightarrow> Inr (bytes_of ''image/webp'' \<in> set mimetypes))"

text \<open>The arguments of a connection; \<open>i\<close> is the position of the parameter.\<close>

definition guac_user_parse_args_string :: "u8 list list \<Rightarrow> nat \<Rightarrow> u8 list option \<Rightarrow> u8 list option result" where
  "guac_user_parse_args_string args i default_value =
     arg args i (\<lambda>text. Inr (if text = [] then default_value else Some text))"

definition guac_user_parse_args_int :: "u8 list list \<Rightarrow> nat \<Rightarrow> int \<Rightarrow> int result" where
  "guac_user_parse_args_int args i default_value =
     arg args i (\<lambda>text.
       let (parsed_value, parse_end) = strtol_value text in
       Inr (if text = [] then default_value
            else if parsed_value < INT_MIN \<or> parsed_value > INT_MAX \<or> parse_end \<noteq> [] then default_value
            else parsed_value))"

definition guac_user_parse_args_boolean :: "u8 list list \<Rightarrow> nat \<Rightarrow> int \<Rightarrow> int result" where
  "guac_user_parse_args_boolean args i default_value =
     arg args i (\<lambda>text.
       Inr (if text = [] then default_value
            else if text = bytes_of ''true'' then 1
            else if text = bytes_of ''false'' then 0
            else default_value))"

text \<open>The value of a connection parameter, streamed to the user; there may be no stream left.\<close>

definition guac_user_stream_argv :: "guac_user \<Rightarrow> u8 list \<Rightarrow> u8 list \<Rightarrow> u8 list \<Rightarrow> guac_socket \<Rightarrow> (guac_user \<times> guac_socket) result" where
  "guac_user_stream_argv user mimetype name val socket =
     bindr (guac_user_alloc_stream user) (\<lambda>(stream, user).
       case stream of
         None \<Rightarrow> Inl Undefined
       | Some k \<Rightarrow>
           let i = stream_index (user_output_streams user ! k);
               socket = snd (guac_protocol_send_argv i mimetype name socket);
               socket = snd (guac_protocol_send_blobs i val socket);
               socket = snd (guac_protocol_send_end i socket)
           in bindr (guac_user_free_stream user k) (\<lambda>user. Inr (user, socket)))"

lemma strtol_digits_read:
  "\<forall>c \<in> set ds. is_digit c \<Longrightarrow> strtol_digits ds v = (digits_value v ds, [])"
  by (induction ds arbitrary: v) auto

section \<open>Argument numbers\<close>

definition required_args :: "u8 list \<Rightarrow> nat" where
  "required_args op =
     (if op = bytes_of ''touch'' then 7 else if op = bytes_of ''put'' then 4
      else if op \<in> {bytes_of ''mouse'', bytes_of ''file'', bytes_of ''pipe'', bytes_of ''argv'', bytes_of ''ack''} then 3
      else if op \<in> {bytes_of ''key'', bytes_of ''clipboard'', bytes_of ''size'', bytes_of ''blob'', bytes_of ''get'', bytes_of ''audio''} then 2
      else if op \<in> {bytes_of ''sync'', bytes_of ''end''} then 1 else 0)"

lemma arg_in [simp]: "i < length args \<Longrightarrow> arg args i k = k (args ! i)"
  by (simp add: arg_def)

lemma args_in: "n \<le> length args \<Longrightarrow> i < n \<Longrightarrow> arg args i k = k (args ! i)"
  by simp

lemma decode_terminated:
  assumes "j < length buf" "buf ! j = 0" "i \<le> j" "out \<le> i"
  shows "\<exists>r. decode_base64_loop buf i out bits val = Inr r"
  using assms
proof (induction buf i out bits val rule: decode_base64_loop.induct)
  case (1 buf i out bits val)
  have il: "i < length buf" using "1.prems" by simp
  show ?case
  proof (cases "buf ! i = 0 \<or> buf ! i = of_char (CHR ''='')")
    case True
    then show ?thesis using il by (subst decode_base64_loop.simps) (simp add: Let_def)
  next
    case False
    then have j: "Suc i \<le> j" using "1.prems"(2,3) by (metis Suc_leI le_neq_implies_less)
    define val' where "val' = wrap32 (push_bit 6 val) OR guac_base64_value (buf ! i)"
    show ?thesis
    proof (cases "bits + 6 \<ge> 8")
      case b: True
      define buf' where "buf' = buf[out := word_of_int (drop_bit (nat ((bits + 6) mod 8)) val' AND 0xFF)]"
      have "buf' ! j = 0" "j < length buf'" using "1.prems" j by (auto simp: buf'_def)
      then have "\<exists>r. decode_base64_loop buf' (i + 1) (out + 1) (bits + 6 - 8) val' = Inr r"
        using "1.IH"(1) [OF il refl False refl refl b] "1.prems"(4) j by (simp add: buf'_def val'_def)
      moreover have "decode_base64_loop buf i out bits val =
          decode_base64_loop buf' (i + 1) (out + 1) (bits + 6 - 8) val'"
        using il False b by (subst decode_base64_loop.simps) (simp add: Let_def buf'_def val'_def)
      ultimately show ?thesis by simp
    next
      case b: False
      have "\<exists>r. decode_base64_loop buf (i + 1) out (bits + 6) val' = Inr r"
        using "1.IH"(2) [OF il refl False refl refl b] "1.prems" j by (simp add: val'_def)
      moreover have "decode_base64_loop buf i out bits val = decode_base64_loop buf (i + 1) out (bits + 6) val'"
        using il False b by (subst decode_base64_loop.simps) (simp add: Let_def val'_def)
      ultimately show ?thesis by simp
    qed
  qed
qed

lemma blob_data_defined: "\<exists>data. blob_data text = Inr data"
proof -
  obtain r where "guac_protocol_decode_base64 (text @ [0]) = Inr r"
    using decode_terminated [of "length text" "text @ [0]" 0 0 0 0] by (auto simp: guac_protocol_decode_base64_def)
  then show ?thesis by (cases r) (simp add: blob_data_def)
qed

section \<open>Sessions of streams\<close>

text \<open>Which stream a callback opens, receives data from, or ends.\<close>

fun opens :: "handler_call \<Rightarrow> nat option" where
  "opens (Audio_call k m) = Some k"
| "opens (Clipboard_call k m) = Some k"
| "opens (File_call k m n) = Some k"
| "opens (Pipe_call k m n) = Some k"
| "opens (Argv_call k m n) = Some k"
| "opens (Put_call h j k m n) = Some k"
| "opens c = None"

fun feeds :: "handler_call \<Rightarrow> nat option" where
  "feeds (Blob_call h k d) = Some k"
| "feeds c = None"

fun closes :: "handler_call \<Rightarrow> nat option" where
  "closes (End_call h k) = Some k"
| "closes c = None"

text \<open>
  The calls for stream \<open>k\<close>: data and the end only arrive while the stream is open for the callbacks,
  and the end closes it. \<open>None\<close> if that is violated, otherwise whether the stream is open in the end.
\<close>

fun sessions :: "nat \<Rightarrow> bool \<Rightarrow> handler_call list \<Rightarrow> bool option" where
  "sessions k b [] = Some b"
| "sessions k b (c # cs) =
     (if opens c = Some k then sessions k True cs
      else if feeds c = Some k then (if b then sessions k b cs else None)
      else if closes c = Some k then (if b then sessions k False cs else None)
      else sessions k b cs)"

lemma sessions_snoc: "sessions k b (cs @ [c]) = (case sessions k b cs of None \<Rightarrow> None | Some b' \<Rightarrow> sessions k b' [c])"
  by (induction k b cs rule: sessions.induct) auto

definition touched :: "handler_call \<Rightarrow> nat set" where
  "touched c = {k. opens c = Some k \<or> feeds c = Some k \<or> closes c = Some k}"

lemma touched_simps [simp]:
  "touched (Sync_call t) = {}" "touched (Touch_call i x y rx ry angle force) = {}" "touched (Mouse_call x y buttons) = {}"
  "touched (Key_call s p) = {}" "touched (Size_call w ht) = {}" "touched (Ack_call h k message st) = {}" "touched (Get_call h j name) = {}"
  "touched (Audio_call k m) = {k}" "touched (Clipboard_call k m) = {k}" "touched (File_call k m n) = {k}"
  "touched (Pipe_call k m n) = {k}" "touched (Argv_call k m n) = {k}" "touched (Put_call h j k m n) = {k}"
  "touched (Blob_call h k d) = {k}" "touched (End_call h k) = {k}"
  by (auto simp: touched_def)

text \<open>
  What the callbacks must respect: a callback leaves the indices of the streams and the callbacks of
  the user as they are, and sets the handlers of no stream but the one it is called for.
\<close>

definition responder_ok :: "responder \<Rightarrow> bool" where
  "responder_ok respond \<longleftrightarrow>
     (\<forall>c u. let u' = snd (respond c u) in
        handler_calls u' = handler_calls u \<and> handlers u' = handlers u \<and>
        map stream_index (input_streams u') = map stream_index (input_streams u) \<and>
        (\<forall>k. k \<notin> touched c \<longrightarrow> input_streams u' ! k = input_streams u ! k))"

definition has_handler :: "guac_stream \<Rightarrow> bool" where
  "has_handler s \<longleftrightarrow> stream_index s \<noteq> -1 \<and> (stream_blob_handler s \<noteq> None \<or> stream_end_handler s \<noteq> None)"

text \<open>The invariant, with the exception of the streams in \<open>K\<close>.\<close>

definition sessions_inv :: "nat set \<Rightarrow> user_session \<Rightarrow> bool" where
  "sessions_inv K u \<longleftrightarrow>
     length (input_streams u) = 512 \<and> \<not> handlers u On_blob \<and> \<not> handlers u On_end \<and>
     (\<forall>k < 512. stream_index (input_streams u ! k) = -1 \<or> stream_index (input_streams u ! k) = int k) \<and>
     (\<forall>k. sessions k False (handler_calls u) \<noteq> None) \<and>
     (\<forall>k < 512. k \<notin> K \<and> has_handler (input_streams u ! k) \<longrightarrow> sessions k False (handler_calls u) = Some True)"

lemma sessions_untouched: "k \<notin> touched c \<Longrightarrow> sessions k b [c] = Some b"
  by (simp add: touched_def)

lemma invoke_inv:
  assumes ok: "responder_ok respond" and inv: "sessions_inv K u" and K: "K \<subseteq> K'"
    and c: "\<forall>k \<in> touched c. sessions k False (handler_calls u @ [c]) \<noteq> None"
    and op: "\<forall>k \<in> touched c - K'. sessions k False (handler_calls u @ [c]) = Some True"
  shows "sessions_inv K' (snd (invoke respond c u))"
proof -
  let ?u = "u\<lparr>handler_calls := handler_calls u @ [c]\<rparr>"
  define u' where "u' = snd (respond c ?u)"
  have r: "handler_calls u' = handler_calls u @ [c]" "handlers u' = handlers u"
    "map stream_index (input_streams u') = map stream_index (input_streams u)"
    "\<And>k. k \<notin> touched c \<Longrightarrow> input_streams u' ! k = input_streams u ! k"
    using ok [unfolded responder_ok_def, rule_format, of c ?u] by (simp_all add: Let_def u'_def)
  have len: "length (input_streams u') = 512" using inv r(3) by (metis length_map sessions_inv_def)
  have idx: "stream_index (input_streams u' ! k) = stream_index (input_streams u ! k)" if "k < 512" for k
    using arg_cong [OF r(3), of "\<lambda>l. l ! k"] that len inv by (simp add: sessions_inv_def)
  have same: "sessions k False (handler_calls u @ [c]) = sessions k False (handler_calls u)" if "k \<notin> touched c" for k
    using sessions_untouched [OF that] by (simp add: sessions_snoc split: option.splits)
  have all: "sessions k False (handler_calls u') \<noteq> None" for k
    using c inv same [of k] by (cases "k \<in> touched c") (simp_all add: r(1) sessions_inv_def)
  have "sessions k False (handler_calls u') = Some True"
    if k: "k < 512" "k \<notin> K'" "has_handler (input_streams u' ! k)" for k
  proof (cases "k \<in> touched c")
    case True
    then show ?thesis using op k(2) by (simp add: r(1))
  next
    case False
    then show ?thesis using inv k K same [OF False] r(4) [OF False] by (auto simp: r(1) sessions_inv_def)
  qed
  then have "sessions_inv K' u'" using inv len idx all by (simp add: sessions_inv_def r(2))
  then show ?thesis by (simp add: invoke_def u'_def)
qed

lemma invoke_plain:
  "responder_ok respond \<Longrightarrow> sessions_inv K u \<Longrightarrow> touched c = {} \<Longrightarrow> sessions_inv K (snd (invoke respond c u))"
  by (rule invoke_inv [where K = K]) auto

lemma invoke_opening:
  assumes "responder_ok respond" "sessions_inv K u" "opens c = Some k" "touched c = {k}"
  shows "sessions_inv K (snd (invoke respond c u))"
proof (rule invoke_inv [OF assms(1,2)])
  have "sessions k False (handler_calls u) \<noteq> None" using assms(2) by (simp add: sessions_inv_def)
  then have "sessions k False (handler_calls u @ [c]) = Some True"
    using assms(3) by (auto simp: sessions_snoc)
  then show "\<forall>k \<in> touched c. sessions k False (handler_calls u @ [c]) \<noteq> None"
    "\<forall>k \<in> touched c - K. sessions k False (handler_calls u @ [c]) = Some True"
    using assms(4) by auto
qed simp

lemma invoke_feeding:
  assumes "responder_ok respond" "sessions_inv {} u" "k < 512" "has_handler (input_streams u ! k)"
  shows "sessions_inv {} (snd (invoke respond (Blob_call h k d) u))"
proof (rule invoke_inv [OF assms(1,2)])
  have "sessions k False (handler_calls u) = Some True" using assms(2-4) by (simp add: sessions_inv_def)
  then have "sessions k False (handler_calls u @ [Blob_call h k d]) = Some True" by (simp add: sessions_snoc)
  then show "\<forall>j \<in> touched (Blob_call h k d). sessions j False (handler_calls u @ [Blob_call h k d]) \<noteq> None"
    "\<forall>j \<in> touched (Blob_call h k d) - {}. sessions j False (handler_calls u @ [Blob_call h k d]) = Some True"
    by auto
qed simp

lemma invoke_closing:
  assumes "responder_ok respond" "sessions_inv {} u" "k < 512" "has_handler (input_streams u ! k)"
  shows "sessions_inv {k} (snd (invoke respond (End_call h k) u))"
proof (rule invoke_inv [OF assms(1,2)])
  have "sessions k False (handler_calls u) = Some True" using assms(2-4) by (simp add: sessions_inv_def)
  then have "sessions k False (handler_calls u @ [End_call h k]) = Some False" by (simp add: sessions_snoc)
  then show "\<forall>j \<in> touched (End_call h k). sessions j False (handler_calls u @ [End_call h k]) \<noteq> None" by simp
qed auto

lemma sessions_inv_socket [simp]:
  "sessions_inv K (send_ack i msg st u) = sessions_inv K u" "sessions_inv K (u\<lparr>session_socket := s\<rparr>) = sessions_inv K u"
  "sessions_inv K (u\<lparr>active := b\<rparr>) = sessions_inv K u"
  by (simp_all add: sessions_inv_def send_ack_def)

lemma call_end_inv:
  assumes "responder_ok respond" "sessions_inv {} u" "k < 512" "stream_index (input_streams u ! k) \<noteq> -1"
  shows "sessions_inv {k} (snd (call_end_handler respond k u))"
proof (cases "stream_end_handler (input_streams u ! k)")
  case None
  then have "snd (call_end_handler respond k u) = u" using assms(2) by (simp add: call_end_handler_def sessions_inv_def)
  then show ?thesis using assms(2) by (simp add: sessions_inv_def)
next
  case (Some h)
  then have "has_handler (input_streams u ! k)" using assms(4) by (simp add: has_handler_def)
  from invoke_closing [OF assms(1-3) this] Some show ?thesis by (simp add: call_end_handler_def)
qed

text \<open>Storing a stream without handlers, or closing one, restores the exempted stream.\<close>

lemma store_stream_inv:
  assumes "sessions_inv {k} u" "k < 512" "\<not> has_handler s" "stream_index s = -1 \<or> stream_index s = int k"
  shows "sessions_inv {} (u\<lparr>input_streams := (input_streams u)[k := s]\<rparr>)"
  using assms by (auto simp: sessions_inv_def nth_list_update)

lemma init_input_stream_inv:
  assumes "responder_ok respond" "sessions_inv {} u" "init_input_stream respond i u = (slot, u')"
  shows "sessions_inv {} u' \<and> (\<forall>k. slot = Some k \<longrightarrow> k < 512)"
proof (cases "i < 0 \<or> i \<ge> GUAC_USER_MAX_STREAMS")
  case True
  then show ?thesis using assms(2,3) by (auto simp: init_input_stream_def get_input_stream_def)
next
  case False
  define k where "k = nat i"
  have k: "k < 512" "int k = i" using False by (auto simp: k_def GUAC_USER_MAX_STREAMS_def)
  define u1 where "u1 = (if stream_index (input_streams u ! k) \<noteq> -1 then snd (call_end_handler respond k u) else u)"
  have u1: "sessions_inv {k} u1"
    using call_end_inv [OF assms(1,2) k(1)] assms(2) by (auto simp: u1_def sessions_inv_def)
  have "slot = Some k" "u' = u1\<lparr>input_streams := (input_streams u1)[k :=
      \<lparr>stream_index = i, stream_data = None, stream_ack_handler = None, stream_blob_handler = None, stream_end_handler = None\<rparr>]\<rparr>"
    using assms(3) False by (auto simp: init_input_stream_def get_input_stream_def k_def u1_def Let_def)
  then show ?thesis using store_stream_inv [OF u1 k(1)] k by (simp add: has_handler_def)
qed

section \<open>Instructions\<close>

text \<open>The outcome of a handler.\<close>

definition keeps_sessions :: "(int \<times> user_session) result \<Rightarrow> bool" where
  "keeps_sessions m \<longleftrightarrow> (\<exists>r u. m = Inr (r, u) \<and> sessions_inv {} u)"

lemma keeps_invoke: "sessions_inv {} (snd (invoke respond c u)) \<Longrightarrow> keeps_sessions (Inr (invoke respond c u))"
  by (cases "invoke respond c u") (simp add: keeps_sessions_def)

lemma keeps_Inr [simp]: "keeps_sessions (Inr (r, u)) \<longleftrightarrow> sessions_inv {} u"
  by (simp add: keeps_sessions_def)

lemma handle_event_keeps:
  assumes "responder_ok respond" "sessions_inv {} u" "mk args = Inr c" "touched c = {}"
  shows "keeps_sessions (handle_event respond kind mk args u)"
  using assms keeps_invoke [OF invoke_plain [OF assms(1,2)]] by (simp add: handle_event_def)

lemma handle_stream_keeps:
  assumes "responder_ok respond" "sessions_inv {} u" "1 \<le> length args"
    "\<And>k. \<exists>c. mk args k = Inr c \<and> opens c = Some k \<and> touched c = {k}"
  shows "keeps_sessions (handle_stream respond kind mk unsupported args u)"
proof -
  obtain slot u' where i: "init_input_stream respond (atoi (args ! 0)) u = (slot, u')" by fastforce
  have inv: "sessions_inv {} u'" using init_input_stream_inv [OF assms(1,2) i] by simp
  show ?thesis
  proof (cases slot)
    case None
    then show ?thesis using i inv assms(3) by (simp add: args_in [OF assms(3)] handle_stream_def)
  next
    case (Some k)
    obtain c where c: "mk args k = Inr c" "opens c = Some k" "touched c = {k}" using assms(4) by blast
    show ?thesis
      using i inv assms(3) Some c(1) keeps_invoke [OF invoke_opening [OF assms(1) inv c(2,3)]]
      by (simp add: args_in [OF assms(3)] handle_stream_def)
  qed
qed

lemma handle_sync_keeps:
  assumes "responder_ok respond" "sessions_inv {} u" "1 \<le> length args"
  shows "keeps_sessions (guac_handle_sync respond current args u)"
proof -
  have "sessions_inv {} (u\<lparr>last_received_timestamp := a, last_frame_duration := b, processing_lag := c\<rparr>)" for a b c
    using assms(2) by (simp add: sessions_inv_def)
  then show ?thesis
    using assms keeps_invoke [OF invoke_plain [OF assms(1)]]
    by (auto simp: args_in [OF assms(3)] guac_handle_sync_def Let_def)
qed

lemma handle_ack_keeps:
  assumes "responder_ok respond" "sessions_inv {} u" "3 \<le> length args"
  shows "keeps_sessions (guac_handle_ack respond args u)"
  using assms keeps_invoke [OF invoke_plain [OF assms(1,2)]]
  by (auto simp: args_in [OF assms(3)] guac_handle_ack_def Let_def split: option.splits)

lemma get_open_input_stream_cases:
  assumes "get_open_input_stream i u = (slot, u')" "sessions_inv {} u"
  shows "sessions_inv {} u' \<and> (\<forall>k. slot = Some k \<longrightarrow> u' = u \<and> k < 512 \<and> stream_index (input_streams u ! k) \<noteq> -1)"
  using assms by (auto simp: get_open_input_stream_def get_input_stream_def GUAC_USER_MAX_STREAMS_def split: if_splits)

lemma handle_blob_keeps:
  assumes "responder_ok respond" "sessions_inv {} u" "2 \<le> length args"
  shows "keeps_sessions (guac_handle_blob respond args u)"
proof -
  obtain slot u' where o: "get_open_input_stream (atoi (args ! 0)) u = (slot, u')" by fastforce
  note k = get_open_input_stream_cases [OF o assms(2)]
  obtain data where d: "blob_data (args ! 1) = Inr data" using blob_data_defined by blast
  show ?thesis
  proof (cases slot)
    case None
    then show ?thesis using o k assms(3) by (simp add: args_in [OF assms(3)] guac_handle_blob_def)
  next
    case (Some i)
    show ?thesis
    proof (cases "stream_blob_handler (input_streams u ! i)")
      case None
      then show ?thesis using Some o k assms(2,3) by (auto simp: args_in [OF assms(3)] guac_handle_blob_def Let_def sessions_inv_def [of _ u])
    next
      case h: (Some h)
      have "has_handler (input_streams u ! i)" using h k Some by (simp add: has_handler_def)
      then have "sessions_inv {} (snd (invoke respond (Blob_call (Some h) i data) u))"
        using invoke_feeding [OF assms(1,2)] k Some by simp
      from keeps_invoke [OF this] show ?thesis
        using Some h o k d assms(3) by (auto simp: args_in [OF assms(3)] guac_handle_blob_def Let_def)
    qed
  qed
qed

lemma handle_end_keeps:
  assumes "responder_ok respond" "sessions_inv {} u" "1 \<le> length args"
  shows "keeps_sessions (guac_handle_end respond args u)"
proof -
  obtain slot u' where o: "get_open_input_stream (atoi (args ! 0)) u = (slot, u')" by fastforce
  note k = get_open_input_stream_cases [OF o assms(2)]
  show ?thesis
  proof (cases slot)
    case None
    then show ?thesis using o k assms(3) by (simp add: args_in [OF assms(3)] guac_handle_end_def)
  next
    case (Some i)
    obtain r u2 where c: "call_end_handler respond i u = (r, u2)" by fastforce
    have "sessions_inv {i} u2" using call_end_inv [OF assms(1,2)] k Some c by (metis snd_conv)
    then have "sessions_inv {} (u2\<lparr>input_streams := (input_streams u2)[i := closed_stream (input_streams u2 ! i)]\<rparr>)"
      using k Some by (intro store_stream_inv) (auto simp: has_handler_def closed_stream_def)
    then show ?thesis using Some o k c assms(3) by (auto simp: args_in [OF assms(3)] guac_handle_end_def)
  qed
qed

lemma handle_get_keeps:
  assumes "responder_ok respond" "sessions_inv {} u" "2 \<le> length args"
  shows "keeps_sessions (guac_handle_get respond args u)"
  using assms keeps_invoke [OF invoke_plain [OF assms(1,2)]]
  by (auto simp: args_in [OF assms(3)] guac_handle_get_def Let_def split: option.splits)

lemma handle_put_keeps:
  assumes "responder_ok respond" "sessions_inv {} u" "4 \<le> length args"
  shows "keeps_sessions (guac_handle_put respond args u)"
proof (cases "get_object (args ! 0) u")
  case None
  then show ?thesis using assms by (auto simp: args_in [OF assms(3)] guac_handle_put_def)
next
  case obj: (Some j)
  obtain slot u' where i: "init_input_stream respond (atoi (args ! 1)) u = (slot, u')" by fastforce
  have inv: "sessions_inv {} u'" using init_input_stream_inv [OF assms(1,2) i] by simp
  show ?thesis
  proof (cases slot)
    case None
    then show ?thesis using obj i inv assms(3) by (auto simp: args_in [OF assms(3)] guac_handle_put_def)
  next
    case (Some k)
    have "sessions_inv {} (snd (invoke respond (Put_call h j k m n) u'))" for h m n
      by (rule invoke_opening [OF assms(1) inv, of _ k]) simp_all
    from keeps_invoke [OF this] show ?thesis
      using obj Some i inv assms(3) by (auto simp: args_in [OF assms(3)] guac_handle_put_def Let_def split: option.splits)
  qed
qed

lemma required_args_values:
  "required_args (bytes_of ''sync'') = 1" "required_args (bytes_of ''touch'') = 7" "required_args (bytes_of ''mouse'') = 3"
  "required_args (bytes_of ''key'') = 2" "required_args (bytes_of ''clipboard'') = 2" "required_args (bytes_of ''size'') = 2"
  "required_args (bytes_of ''file'') = 3" "required_args (bytes_of ''pipe'') = 3" "required_args (bytes_of ''ack'') = 3"
  "required_args (bytes_of ''blob'') = 2" "required_args (bytes_of ''end'') = 1" "required_args (bytes_of ''get'') = 2"
  "required_args (bytes_of ''put'') = 4" "required_args (bytes_of ''audio'') = 2" "required_args (bytes_of ''argv'') = 3"
  by code_simp+

lemma table_keeps:
  "\<forall>(name, h) \<in> set table. op = bytes_of name \<longrightarrow> keeps_sessions (h args u) \<Longrightarrow> sessions_inv {} u \<Longrightarrow>
     keeps_sessions (guac_user_call_opcode_handler table op args u)"
  by (induction table) auto

lemma instruction_keeps:
  assumes ok: "responder_ok respond" and inv: "sessions_inv {} u" and n: "required_args op \<le> length args"
  shows "keeps_sessions (guac_user_handle_instruction respond current op args u)"
proof -
  note event = handle_event_keeps [OF ok inv] and stream = handle_stream_keeps [OF ok inv]
  have len: "k \<le> length args" if "op = w" "required_args w = k" for w k using n that by simp
  have t: "keeps_sessions (guac_handle_touch respond args u)" if "op = bytes_of ''touch''"
    unfolding guac_handle_touch_def
    by (rule event, simp add: args_in [OF len [OF that required_args_values(2)]], simp)
  have m: "keeps_sessions (guac_handle_mouse respond args u)" if "op = bytes_of ''mouse''"
    unfolding guac_handle_mouse_def
    by (rule event, simp add: args_in [OF len [OF that required_args_values(3)]], simp)
  have k: "keeps_sessions (guac_handle_key respond args u)" if "op = bytes_of ''key''"
    unfolding guac_handle_key_def
    by (rule event, simp add: args_in [OF len [OF that required_args_values(4)]], simp)
  have sz: "keeps_sessions (guac_handle_size respond args u)" if "op = bytes_of ''size''"
    unfolding guac_handle_size_def
    by (rule event, simp add: args_in [OF len [OF that required_args_values(6)]], simp)
  have cl: "keeps_sessions (guac_handle_clipboard respond args u)" if "op = bytes_of ''clipboard''"
    unfolding guac_handle_clipboard_def using len [OF that required_args_values(5)]
    by (intro stream) (auto simp: args_in [OF len [OF that required_args_values(5)]])
  have fi: "keeps_sessions (guac_handle_file respond args u)" if "op = bytes_of ''file''"
    unfolding guac_handle_file_def using len [OF that required_args_values(7)]
    by (intro stream) (auto simp: args_in [OF len [OF that required_args_values(7)]])
  have pi: "keeps_sessions (guac_handle_pipe respond args u)" if "op = bytes_of ''pipe''"
    unfolding guac_handle_pipe_def using len [OF that required_args_values(8)]
    by (intro stream) (auto simp: args_in [OF len [OF that required_args_values(8)]])
  have au: "keeps_sessions (guac_handle_audio respond args u)" if "op = bytes_of ''audio''"
    unfolding guac_handle_audio_def using len [OF that required_args_values(14)]
    by (intro stream) (auto simp: args_in [OF len [OF that required_args_values(14)]])
  have ar: "keeps_sessions (guac_handle_argv respond args u)" if "op = bytes_of ''argv''"
    unfolding guac_handle_argv_def using len [OF that required_args_values(15)]
    by (intro stream) (auto simp: args_in [OF len [OF that required_args_values(15)]])
  show ?thesis
    unfolding guac_user_handle_instruction_def
    by (rule table_keeps [OF _ inv], unfold guac_instruction_handler_map_def, simp del: One_nat_def,
        intro conjI impI t m k sz cl fi pi au ar handle_sync_keeps [OF ok inv] handle_ack_keeps [OF ok inv]
          handle_blob_keeps [OF ok inv] handle_end_keeps [OF ok inv] handle_get_keeps [OF ok inv] handle_put_keeps [OF ok inv])
      (use n inv in \<open>simp_all add: required_args_values guac_handle_disconnect_def guac_handle_nop_def guac_user_stop_def\<close>)
qed

section \<open>Properties\<close>

text \<open>
  The sessions that can arise: with closed streams and no callbacks for the data and end of all
  streams, as the protocols set up their users, then any instructions that have their arguments.
\<close>

inductive session_reachable :: "responder \<Rightarrow> user_session \<Rightarrow> bool" where
  start: "length (input_streams u) = 512 \<Longrightarrow> \<forall>s \<in> set (input_streams u). stream_index s = -1 \<Longrightarrow>
    \<not> handlers u On_blob \<Longrightarrow> \<not> handlers u On_end \<Longrightarrow> handler_calls u = [] \<Longrightarrow> session_reachable respond u"
| instruction: "session_reachable respond u \<Longrightarrow> required_args op \<le> length args \<Longrightarrow>
    guac_user_handle_instruction respond current op args u = Inr (r, u') \<Longrightarrow> session_reachable respond u'"

lemma session_reachable_inv:
  assumes "session_reachable respond u" "responder_ok respond"
  shows "sessions_inv {} u"
  using assms
proof (induction rule: session_reachable.induct)
  case (start u respond)
  then show ?case by (simp add: sessions_inv_def has_handler_def)
next
  case (instruction respond u op args current r u')
  then show ?case using instruction_keeps [of respond u op args current] by (simp add: keeps_sessions_def)
qed

text \<open>
  C8. Instructions of a user are handled without a fault and keep the callbacks of each stream in
  order: whatever instructions arrive, in any order and with any contents, each returns if it has its
  arguments, and for every stream data reaches a callback only after one that opened the stream and
  before the one that ends it, and no stream is ended twice without being opened in between.
\<close>

theorem user_streams_in_order:
  assumes "session_reachable respond u" "responder_ok respond" "required_args op \<le> length args"
  shows "\<exists>r u'. guac_user_handle_instruction respond current op args u = Inr (r, u') \<and>
           (\<forall>k. sessions k False (handler_calls u') \<noteq> None)"
  using instruction_keeps [OF assms(2) session_reachable_inv [OF assms(1,2)] assms(3), of current]
  by (auto simp: keeps_sessions_def sessions_inv_def)

text \<open>Callbacks that accept data for every stream that is opened.\<close>

definition accepting_responder :: responder where
  "accepting_responder c u =
     (0, case opens c of
           None \<Rightarrow> u
         | Some k \<Rightarrow> u\<lparr>input_streams := (input_streams u)[k :=
             (input_streams u ! k)\<lparr>stream_blob_handler := Some 0, stream_end_handler := Some 0\<rparr>]\<rparr>)"

lemma accepting_responder_ok: "responder_ok accepting_responder"
proof -
  have idx: "map stream_index (xs[k := (xs ! k)\<lparr>stream_blob_handler := a, stream_end_handler := b\<rparr>]) = map stream_index xs"
    for xs :: "guac_stream list" and k a b
    by (cases "k < length xs") (auto intro!: nth_equalityI simp: nth_list_update)
  show ?thesis
    by (auto simp: responder_ok_def accepting_responder_def Let_def idx touched_def split: option.splits)
qed

definition new_session :: user_session where
  "new_session = \<lparr>session_user = guac_user_alloc [] [],
     input_streams = replicate 512 \<lparr>stream_index = -1, stream_data = None, stream_ack_handler = None,
       stream_blob_handler = None, stream_end_handler = None\<rparr>,
     session_socket = \<lparr>written = [], outcomes = [], flush_outcomes = [], held = 0, ready = [],
       current_timestamp = 0, last_write_timestamp = 0\<rparr>,
     handlers = (\<lambda>kind. kind = On_file), active = True, client_running = True, last_sent_timestamp = 0,
     last_received_timestamp = 0, last_frame_duration = 0, processing_lag = 0,
     info = \<lparr>optimal_width = 0, optimal_height = 0, optimal_resolution = 0, audio_mimetypes = None, video_mimetypes = None,
       image_mimetypes = None, info_name = None, info_timezone = None, protocol_version = GUAC_PROTOCOL_VERSION_UNKNOWN\<rparr>,
     handler_calls = []\<rparr>"

lemma new_session_reachable: "session_reachable respond new_session"
proof -
  define n :: nat where "n = 512"
  show ?thesis by (rule start) (simp_all add: new_session_def n_def [symmetric])
qed

theorem user_streams_in_order_witness:
  "\<exists>r u'. guac_user_handle_instruction accepting_responder 0 (bytes_of ''file'')
            [bytes_of ''0'', bytes_of ''text/plain'', bytes_of ''a.txt''] new_session = Inr (r, u') \<and>
     (\<forall>k. sessions k False (handler_calls u') \<noteq> None)"
proof -
  have n: "required_args (bytes_of ''file'') \<le> length [bytes_of ''0'', bytes_of ''text/plain'', bytes_of ''a.txt'']"
    by code_simp
  show ?thesis using user_streams_in_order [OF new_session_reachable accepting_responder_ok n] .
qed

text \<open>The handshake as a sequence of instructions, each handled successfully.\<close>

fun handled :: "(string \<times> instruction_handler) list \<Rightarrow> u8 list list list \<Rightarrow> user_session \<Rightarrow> user_session option" where
  "handled table [] u = Some u"
| "handled table (es # ess) u =
     (case guac_user_call_opcode_handler table (hd es) (tl es) u of
        Inl e \<Rightarrow> None
      | Inr (r, u) \<Rightarrow> if r \<noteq> 0 then None else handled table ess u)"

lemma handshake_reads:
  assumes "parser_idle parser" "list_all (receivable (length (instructionbuf parser))) (ess @ [connect])"
    and "list_all (\<lambda>es. hd es \<noteq> bytes_of ''connect'') ess" "hd connect = bytes_of ''connect''"
    and "delivers script" "unparsed parser @ stream script = concat (map instruction (ess @ [connect])) @ extra"
    and "handled guac_handshake_handler_map ess u = Some u'"
  shows "\<exists>parser' script'. guac_user_handshake (Suc (length ess)) parser script u = Some (Inr (0, False, parser', script', u')) \<and>
           instruction_of parser' = connect \<and> parser_idle parser' \<and>
           length (instructionbuf parser') = length (instructionbuf parser) \<and>
           unparsed parser' @ stream script' = extra \<and> delivers script'"
  using assms
proof (induction ess arbitrary: parser script u)
  case Nil
  obtain parser' script' where r: "guac_parser_read parser script = Some (0, None, parser', script')"
    "instruction_of parser' = connect" "parser_idle parser'" "length (instructionbuf parser') = length (instructionbuf parser)"
    "unparsed parser' @ stream script' = extra" "delivers script'"
    using parser_read_instruction [OF Nil.prems(1) _ Nil.prems(5), of connect extra] Nil.prems(2,6) by auto
  then show ?case using Nil.prems(4,7) by simp
next
  case (Cons es ess)
  obtain parser1 script1 where r: "guac_parser_read parser script = Some (0, None, parser1, script1)"
    "instruction_of parser1 = es" "parser_idle parser1" "length (instructionbuf parser1) = length (instructionbuf parser)"
    "unparsed parser1 @ stream script1 = concat (map instruction (ess @ [connect])) @ extra" "delivers script1"
    using parser_read_instruction [OF Cons.prems(1) _ Cons.prems(5), of es "concat (map instruction (ess @ [connect])) @ extra"]
      Cons.prems(2,6) by auto
  obtain u1 where u1: "guac_user_call_opcode_handler guac_handshake_handler_map (hd es) (tl es) u = Inr (0, u1)"
    "handled guac_handshake_handler_map ess u1 = Some u'"
    using Cons.prems(7) by (auto split: sum.splits if_splits)
  have "list_all (receivable (length (instructionbuf parser1))) (ess @ [connect])" using Cons.prems(2) r(4) by simp
  moreover have "list_all (\<lambda>es. hd es \<noteq> bytes_of ''connect'') ess" using Cons.prems(3) by simp
  ultimately obtain parser' script' where
    "guac_user_handshake (Suc (length ess)) parser1 script1 u1 = Some (Inr (0, False, parser', script', u'))"
    "instruction_of parser' = connect" "parser_idle parser'" "length (instructionbuf parser') = length (instructionbuf parser1)"
    "unparsed parser' @ stream script' = extra" "delivers script'"
    using Cons.IH [OF r(3) _ _ Cons.prems(4) r(6,5) u1(2)] by blast
  then show ?case using r u1 Cons.prems(3) by simp
qed

text \<open>
  C9. The handshake is independent of how its bytes arrive: if the instructions before \<open>connect\<close> are
  handled successfully one after the other, the handshake succeeds with exactly the session they
  leave, ends at \<open>connect\<close> with its arguments, and keeps the bytes after it for the session.
\<close>

theorem handshake_completes:
  assumes "parser_idle parser" "list_all (receivable (length (instructionbuf parser))) (ess @ [connect])"
    and "list_all (\<lambda>es. hd es \<noteq> bytes_of ''connect'') ess" "hd connect = bytes_of ''connect''"
    and "delivers script" "unparsed parser @ stream script = concat (map instruction (ess @ [connect])) @ extra"
    and "handled guac_handshake_handler_map ess u = Some u'"
  shows "\<exists>parser' script'. guac_user_handshake (Suc (length ess)) parser script u = Some (Inr (0, False, parser', script', u')) \<and>
           instruction_of parser' = connect \<and> unparsed parser' @ stream script' = extra"
  using handshake_reads [OF assms] by blast

theorem handshake_completes_witness:
  "\<exists>parser' script'.
     guac_user_handshake 3 (new_parser 128) [Data (bytes_of ''4.size,2.80,2.60;5.image,9.imag''), Data (bytes_of ''e/png;7.connect,0.;3.nop;'')] new_session =
       Some (Inr (0, False, parser', script',
         new_session\<lparr>info := (info new_session)\<lparr>optimal_width := 80, optimal_height := 60, optimal_resolution := 96,
           image_mimetypes := Some [bytes_of ''image/png'']\<rparr>\<rparr>)) \<and>
     instruction_of parser' = [bytes_of ''connect'', []] \<and> unparsed parser' @ stream script' = bytes_of ''3.nop;''"
proof -
  let ?size = "[bytes_of ''size'', bytes_of ''80'', bytes_of ''60'']" and ?image = "[bytes_of ''image'', bytes_of ''image/png'']"
  let ?connect = "[bytes_of ''connect'', []]"
  let ?script = "[Data (bytes_of ''4.size,2.80,2.60;5.image,9.imag''), Data (bytes_of ''e/png;7.connect,0.;3.nop;'')]"
  have idle: "parser_idle (new_parser 128)" "unparsed (new_parser 128) = []" "length (instructionbuf (new_parser 128)) = 128"
    by (simp_all add: parser_idle_def new_parser_def unparsed_def GUAC_INSTRUCTION_MAX_ELEMENTS_def)
  have es: "list_all (receivable 128) ([?size, ?image] @ [?connect])" "delivers ?script"
    "list_all (\<lambda>es. hd es \<noteq> bytes_of ''connect'') [?size, ?image]"
    "stream ?script = concat (map instruction ([?size, ?image] @ [?connect])) @ bytes_of ''3.nop;''"
    by code_simp+
  have d: "bytes_of ''image'' \<noteq> bytes_of ''size''" "bytes_of ''image'' \<noteq> bytes_of ''audio''" "bytes_of ''image'' \<noteq> bytes_of ''video''"
    "atoi (bytes_of ''80'') = 80" "atoi (bytes_of ''60'') = 60" by code_simp+
  have h: "handled guac_handshake_handler_map [?size, ?image] new_session =
      Some (new_session\<lparr>info := (info new_session)\<lparr>optimal_width := 80, optimal_height := 60, optimal_resolution := 96,
        image_mimetypes := Some [bytes_of ''image/png'']\<rparr>\<rparr>)"
    by (simp add: guac_handshake_handler_map_def guac_handshake_size_handler_def guac_handshake_image_handler_def d)
  have es': "list_all (receivable (length (instructionbuf (new_parser 128)))) ([?size, ?image] @ [?connect])"
    using es(1) by (simp only: idle(3))
  have s: "unparsed (new_parser 128) @ stream ?script = concat (map instruction ([?size, ?image] @ [?connect])) @ bytes_of ''3.nop;''"
    using es(4) by (simp only: idle(2) append_Nil)
  show ?thesis
    using handshake_completes [OF idle(1) es' es(3) _ es(2) s h] by (simp add: numeral_3_eq_3)
qed

text \<open>
  C33. A failed handler during the handshake crashes the process: when a client sends \<open>size\<close> with fewer
  than two arguments, the parser is freed by the handshake and again by its caller.
\<close>

theorem failed_handshake_frees_twice:
  assumes "guac_parser_alloc memory = Some parser" "parser_idle parser"
    and "args = [] \<or> args = [w]" "receivable (length (instructionbuf parser)) (bytes_of ''size'' # args)"
    and "delivers script" "unparsed parser @ stream script = instruction (bytes_of ''size'' # args) @ extra"
    and "guac_protocol_send_args arg_names (session_socket u) = (0, sock)" "guac_socket_flush sock = (0, sock')"
  shows "guac_user_handle_connection respond join leave arg_names connection_id memory created (Suc fuel) clock script u =
           Some (Inl Undefined)"
proof -
  obtain parser' script' where r: "guac_parser_read parser script = Some (0, None, parser', script')"
    "instruction_of parser' = bytes_of ''size'' # args"
    using parser_read_instruction [OF assms(2,4,5,6)] by blast
  have ne: "bytes_of ''size'' \<noteq> bytes_of ''connect''" by code_simp
  have "guac_user_handshake (Suc fuel) parser script v = Some (Inr (1, True, parser', script', v))" for v
    using r ne assms(3) by (auto simp: guac_handshake_handler_map_def guac_handshake_size_handler_def)
  then show ?thesis using assms(1,7,8) by (simp add: guac_user_handle_connection_def Let_def)
qed

theorem failed_handshake_frees_twice_witness:
  "guac_user_handle_connection accepting_responder (\<lambda>args u. (0, u)) (\<lambda>u. u) [] (bytes_of ''$id'') (Some (new_parser 128)) True 5 []
     [Data (bytes_of ''4.si''), Data (bytes_of ''ze,3.800;'')] new_session = Some (Inl Undefined)"
proof -
  let ?socket = "\<lparr>written = [], outcomes = [], flush_outcomes = [], held = 0, ready = [],
       current_timestamp = 0, last_write_timestamp = 0\<rparr>"
  let ?script = "[Data (bytes_of ''4.si''), Data (bytes_of ''ze,3.800;'')]" and ?es = "[bytes_of ''size'', bytes_of ''800'']"
  define parser where "parser = guac_parser_reset (new_parser 128)"
  have p: "guac_parser_alloc (Some (new_parser 128)) = Some parser" "parser_idle parser" "unparsed parser = []"
    "length (instructionbuf parser) = 128"
    by (simp_all add: parser_def guac_parser_alloc_def guac_parser_reset_def parser_idle_def new_parser_def unparsed_def
        GUAC_INSTRUCTION_MAX_ELEMENTS_def)
  have es: "receivable 128 ?es" "delivers ?script" "stream ?script = instruction ?es @ []" by code_simp+
  have es': "receivable (length (instructionbuf parser)) ?es" "unparsed parser @ stream ?script = instruction ?es @ []"
    using es(1,3) by (simp_all only: p(3,4) append_Nil)
  have ok: "fst (guac_protocol_send_args [] ?socket) = 0 \<and> fst (guac_socket_flush (snd (guac_protocol_send_args [] ?socket))) = 0"
    by code_simp
  have sock: "session_socket new_session = ?socket" by (simp add: new_session_def)
  obtain sock where a: "guac_protocol_send_args [] ?socket = (0, sock)" using ok by (metis prod.collapse)
  obtain sock' where b: "guac_socket_flush sock = (0, sock')" using ok a by (metis prod.collapse snd_conv)
  show ?thesis
    using failed_handshake_frees_twice [OF p(1,2) disjI2 [OF refl] es'(1) es(2) es'(2) a [folded sock] b, of accepting_responder _ _ _ True 4]
    by simp
qed

section \<open>Numbers that were sent\<close>

lemma decimal_nonempty: "\<exists>c cs. bytes_of (decimal n) = c # cs \<and> is_digit c"
proof -
  have "decimal n \<noteq> []" by (subst decimal.simps) simp
  then obtain c cs where c: "bytes_of (decimal n) = c # cs" by (cases "decimal n") (auto simp: bytes_of_def)
  then have "is_digit c" using decimal_digits [of n] by (metis list.set_intros(1))
  then show ?thesis using c by blast
qed

lemma strtol_decimal: "strtol_value (decimal_bytes n) = (n, [])"
proof -
  have d: "strtol_digits (bytes_of (decimal k)) 0 = (int k, [])" for k
    using decimal_digits [of k] strtol_digits_read by metis
  show ?thesis
  proof (cases "n < 0")
    case True
    obtain c cs where c: "bytes_of (decimal (nat (- n))) = c # cs" "is_digit c" using decimal_nonempty by blast
    have "decimal_bytes n = of_char (CHR ''-'') # c # cs"
      using True c(1) by (simp add: decimal_bytes_def printf_i_def bytes_of_simps)
    moreover have "\<not> c_isspace (of_char (CHR ''-''))" by code_simp
    ultimately show ?thesis using c d [of "nat (- n)"] True by (simp add: strtol_value_def Let_def)
  next
    case False
    obtain c cs where c: "bytes_of (decimal (nat n)) = c # cs" "is_digit c" using decimal_nonempty by blast
    have s: "\<not> c_isspace c" "c \<noteq> of_char (CHR ''-'')" "c \<noteq> of_char (CHR ''+'')"
      using c(2) by (auto simp: c_isspace_def word_le_nat_alt)
    have "decimal_bytes n = c # cs" using False c(1) by (simp add: decimal_bytes_def printf_i_def)
    then show ?thesis using c s d [of "nat n"] False by (simp add: strtol_value_def Let_def)
  qed
qed

text \<open>
  Numbers survive the protocol: what is printed as a decimal by the sender of an instruction is read
  as the same number by the handlers of instructions and by the parser of connection arguments, for
  all 32-bit integers.
\<close>

theorem numbers_roundtrip:
  assumes "in_int n"
  shows "atoi (decimal_bytes n) = n \<and> guac_user_parse_args_int [decimal_bytes n] 0 d = Inr n"
proof -
  have "decimal_bytes n \<noteq> []" using decimal_nonempty [of "nat n"]
    by (auto simp: decimal_bytes_def printf_i_def bytes_of_simps)
  then show ?thesis
    using assms by (auto simp: atoi_def guac_user_parse_args_int_def strtol_decimal in_int_def INT_MIN_def INT_MAX_def
        LONG_MIN_def LONG_MAX_def Let_def)
qed

theorem numbers_roundtrip_witness:
  "atoi (decimal_bytes (-2147483648)) = -2147483648 \<and> guac_user_parse_args_int [decimal_bytes (-2147483648)] 0 7 = Inr (-2147483648)"
  using numbers_roundtrip [of "-2147483648" 7] by (simp add: in_int_def INT_MIN_def INT_MAX_def)

end
