(* ===== verification/Users.thy ===== *)
theory Users
  imports Prelude
begin

text \<open>
  The users of a client (\<open>src/src/libguac/client.c\<close>): the doubly linked lists of full and of pending
  users, joining, promotion, leaving, and the functions that are called for each user, for the owner
  or for a given user.

  A pointer to a user is a natural number, the links are fields of a heap of nodes. The functions
  run while they hold the locks on both lists, so each is one step. A loop along the links is a partial
  function whose value is \<open>None\<close> if it does not end.
\<close>

section \<open>State\<close>

record user_node =
  user_prev :: "nat option"
  user_next :: "nat option"
  is_owner :: bool
  supports_msg :: bool
  user_lag :: int

datatype notice = User_joined nat nat | User_left nat nat  \<comment> \<open>the owner who is told, and the user\<close>

record client_users =
  user_heap :: "nat \<Rightarrow> user_node"
  full_users :: "nat option"
  pending_users :: "nat option"
  owner :: "nat option"
  connected_users :: int
  pending_users_thread_started :: bool
  notices :: "notice list"

definition set_prev :: "nat \<Rightarrow> nat option \<Rightarrow> client_users \<Rightarrow> client_users" where
  "set_prev p v c = c\<lparr>user_heap := (user_heap c)(p := (user_heap c p)\<lparr>user_prev := v\<rparr>)\<rparr>"

definition set_next :: "nat \<Rightarrow> nat option \<Rightarrow> client_users \<Rightarrow> client_users" where
  "set_next p v c = c\<lparr>user_heap := (user_heap c)(p := (user_heap c p)\<lparr>user_next := v\<rparr>)\<rparr>"

section \<open>Walking along the links\<close>

partial_function (option) last_user :: "(nat \<Rightarrow> user_node) \<Rightarrow> nat option \<Rightarrow> nat option \<Rightarrow> nat option option" where
  "last_user heap found user =
     (case user of None \<Rightarrow> Some found | Some p \<Rightarrow> last_user heap (Some p) (user_next (heap p)))"

partial_function (option) foreach_user :: "(nat \<Rightarrow> user_node) \<Rightarrow> (nat \<Rightarrow> 's \<Rightarrow> 's) \<Rightarrow> nat option \<Rightarrow> 's \<Rightarrow> 's option" where
  "foreach_user heap callback current data =
     (case current of None \<Rightarrow> Some data | Some p \<Rightarrow> foreach_user heap callback (user_next (heap p)) (callback p data))"

partial_function (option) search_user :: "(nat \<Rightarrow> user_node) \<Rightarrow> nat \<Rightarrow> nat option \<Rightarrow> bool option" where
  "search_user heap user current =
     (case current of None \<Rightarrow> Some False
      | Some p \<Rightarrow> if p = user then Some True else search_user heap user (user_next (heap p)))"

definition guac_client_foreach_user :: "client_users \<Rightarrow> (nat \<Rightarrow> 's \<Rightarrow> 's) \<Rightarrow> 's \<Rightarrow> 's option" where
  "guac_client_foreach_user c callback data = foreach_user (user_heap c) callback (full_users c) data"

definition guac_client_foreach_pending_user :: "client_users \<Rightarrow> (nat \<Rightarrow> 's \<Rightarrow> 's) \<Rightarrow> 's \<Rightarrow> 's option" where
  "guac_client_foreach_pending_user c callback data = foreach_user (user_heap c) callback (pending_users c) data"

definition guac_client_for_owner :: "client_users \<Rightarrow> (nat option \<Rightarrow> 'a) \<Rightarrow> 'a" where
  "guac_client_for_owner c callback = callback (owner c)"

definition guac_client_for_user :: "client_users \<Rightarrow> nat \<Rightarrow> (nat option \<Rightarrow> 'a) \<Rightarrow> 'a option" where
  "guac_client_for_user c user callback =
     map_option (\<lambda>valid. callback (if valid then Some user else None)) (search_user (user_heap c) user (full_users c))"

definition guac_client_get_processing_lag :: "client_users \<Rightarrow> int option" where
  "guac_client_get_processing_lag c =
     guac_client_foreach_user c (\<lambda>p lag. if user_lag (user_heap c p) > lag then user_lag (user_heap c p) else lag) 0"

section \<open>Joining and leaving\<close>

definition guac_client_owner_supports_msg :: "client_users \<Rightarrow> bool" where
  "guac_client_owner_supports_msg c =
     guac_client_for_owner c (\<lambda>p. case p of None \<Rightarrow> False | Some p \<Rightarrow> supports_msg (user_heap c p))"

definition owner_notify :: "(nat \<Rightarrow> notice) \<Rightarrow> client_users \<Rightarrow> client_users" where
  "owner_notify notice c =
     (if \<not> guac_client_owner_supports_msg c then c
      else guac_client_for_owner c (\<lambda>p. case p of None \<Rightarrow> c | Some p \<Rightarrow> c\<lparr>notices := notices c @ [notice p]\<rparr>))"

definition guac_client_owner_notify_join :: "nat \<Rightarrow> client_users \<Rightarrow> client_users" where
  "guac_client_owner_notify_join joiner = owner_notify (\<lambda>p. User_joined p joiner)"

definition guac_client_owner_notify_leave :: "nat \<Rightarrow> client_users \<Rightarrow> client_users" where
  "guac_client_owner_notify_leave quitter = owner_notify (\<lambda>p. User_left p quitter)"

definition guac_client_add_pending_user :: "nat \<Rightarrow> client_users \<Rightarrow> client_users" where
  "guac_client_add_pending_user user c =
     (let c = c\<lparr>pending_users_thread_started := True\<rparr>;
          c = set_prev user None c;
          c = set_next user (pending_users c) c;
          c = (case pending_users c of None \<Rightarrow> c | Some p \<Rightarrow> set_prev p (Some user) c)
      in c\<lparr>pending_users := Some user, connected_users := wrap32 (connected_users c + 1)\<rparr>)"

text \<open>\<open>retval\<close> is the result of the join handler, 0 if there is none.\<close>

definition guac_client_add_user :: "int \<Rightarrow> nat \<Rightarrow> client_users \<Rightarrow> int \<times> client_users" where
  "guac_client_add_user retval user c =
     (if retval = 0
      then
        let c = guac_client_add_pending_user user c;
            c = (if is_owner (user_heap c user) then c\<lparr>owner := Some user\<rparr> else c)
        in (retval, if \<not> is_owner (user_heap c user) then guac_client_owner_notify_join user c else c)
      else (retval, c))"

text \<open>\<open>handled\<close> is false when the handler for pending users fails.\<close>

definition guac_client_promote_pending_users :: "bool \<Rightarrow> client_users \<Rightarrow> client_users option" where
  "guac_client_promote_pending_users handled c =
     (if pending_users c = None then Some c
      else if \<not> handled then Some c
      else
        (case last_user (user_heap c) (pending_users c) (pending_users c) of
           None \<Rightarrow> None
         | Some found \<Rightarrow>
             let first = pending_users c; c = c\<lparr>pending_users := None\<rparr> in
             Some (case found of
                     None \<Rightarrow> c
                   | Some l \<Rightarrow>
                       let c = (case full_users c of None \<Rightarrow> c | Some p \<Rightarrow> set_prev p (Some l) c);
                           c = set_next l (full_users c) c
                       in c\<lparr>full_users := first\<rparr>)))"

definition unlink_user :: "nat \<Rightarrow> client_users \<Rightarrow> client_users" where
  "unlink_user user c =
     (let prv = user_prev (user_heap c user);
          c = (case prv of
                 Some p \<Rightarrow> set_next p (user_next (user_heap c user)) c
               | None \<Rightarrow>
                   if full_users c = Some user then c\<lparr>full_users := user_next (user_heap c user)\<rparr>
                   else if pending_users c = Some user then c\<lparr>pending_users := user_next (user_heap c user)\<rparr>
                   else c)
      in case user_next (user_heap c user) of
           None \<Rightarrow> c
         | Some n \<Rightarrow> set_prev n (user_prev (user_heap c user)) c)"

definition guac_client_remove_user :: "nat \<Rightarrow> client_users \<Rightarrow> client_users" where
  "guac_client_remove_user user c =
     (let c = unlink_user user c;
          c = c\<lparr>connected_users := wrap32 (connected_users c - 1)\<rparr>;
          c = (if is_owner (user_heap c user) then c\<lparr>owner := None\<rparr> else c)
      in if \<not> is_owner (user_heap c user) then guac_client_owner_notify_leave user c else c)"

partial_function (option) remove_pending :: "client_users \<Rightarrow> client_users option" where
  "remove_pending c = (case pending_users c of None \<Rightarrow> Some c | Some p \<Rightarrow> remove_pending (guac_client_remove_user p c))"

partial_function (option) remove_full :: "client_users \<Rightarrow> client_users option" where
  "remove_full c = (case full_users c of None \<Rightarrow> Some c | Some p \<Rightarrow> remove_full (guac_client_remove_user p c))"

text \<open>The users that remain when the client is freed.\<close>

definition guac_client_free_users :: "client_users \<Rightarrow> client_users option" where
  "guac_client_free_users c = (case remove_pending c of None \<Rightarrow> None | Some c \<Rightarrow> remove_full c)"

section \<open>Linked lists\<close>

text \<open>
  The nodes \<open>ps\<close>, linked in both directions, from \<open>first\<close> up to the pointer \<open>stop\<close>; \<open>before\<close> precedes the
  first of them.
\<close>

fun linked :: "(nat \<Rightarrow> user_node) \<Rightarrow> nat option \<Rightarrow> nat option \<Rightarrow> nat list \<Rightarrow> nat option \<Rightarrow> bool" where
  "linked h before first [] stop \<longleftrightarrow> first = stop"
| "linked h before first (p # ps) stop \<longleftrightarrow>
     first = Some p \<and> user_prev (h p) = before \<and> linked h (Some p) (user_next (h p)) ps stop"

definition last_of :: "nat option \<Rightarrow> nat list \<Rightarrow> nat option" where
  "last_of before ps = (if ps = [] then before else Some (last ps))"

lemma last_of_simps [simp]: "last_of b [] = b" "last_of b (ps @ [p]) = Some p" "last_of b (p # ps) = last_of (Some p) ps"
  by (simp_all add: last_of_def)

lemma linked_append:
  "linked h before first (ps @ qs) stop \<longleftrightarrow> (\<exists>m. linked h before first ps m \<and> linked h (last_of before ps) m qs stop)"
proof (induction ps arbitrary: before first)
  case (Cons p ps)
  then show ?case by auto
qed simp

lemma linked_upd [simp]: "x \<notin> set ps \<Longrightarrow> linked (h(x := n)) before first ps stop = linked h before first ps stop"
  by (induction ps arbitrary: before first) auto

lemma linked_set_next:
  "distinct (ps @ [q]) \<Longrightarrow> linked h before first (ps @ [q]) m \<Longrightarrow>
     linked (h(q := (h q)\<lparr>user_next := n\<rparr>)) before first (ps @ [q]) n"
  by (auto simp: linked_append)

lemma linked_set_prev:
  "distinct (y # ys) \<Longrightarrow> linked h before (Some y) (y # ys) stop \<Longrightarrow>
     linked (h(y := (h y)\<lparr>user_prev := b\<rparr>)) b (Some y) (y # ys) stop"
  by simp

lemma linked_head: "linked h before first ps None \<Longrightarrow> first = (case ps of [] \<Rightarrow> None | p # _ \<Rightarrow> Some p)"
  by (cases ps) auto

lemma last_user_linked:
  "linked h before first ps None \<Longrightarrow> last_user h found first = Some (if ps = [] then found else Some (last ps))"
proof (induction ps arbitrary: before first found)
  case (Cons p ps)
  then show ?case by (subst last_user.simps) auto
qed (simp add: last_user.simps)

lemma foreach_linked: "linked h before first ps None \<Longrightarrow> foreach_user h f first data = Some (fold f ps data)"
proof (induction ps arbitrary: before first data)
  case (Cons p ps)
  then show ?case by (subst foreach_user.simps) auto
qed (simp add: foreach_user.simps)

lemma search_linked: "linked h before first ps None \<Longrightarrow> search_user h x first = Some (x \<in> set ps)"
proof (induction ps arbitrary: before first)
  case (Cons p ps)
  then show ?case by (subst search_user.simps) auto
qed (simp add: search_user.simps)

section \<open>The two lists\<close>

text \<open>The lists a client represents: full users \<open>us\<close> and pending users \<open>ps\<close>.\<close>

definition represents :: "client_users \<Rightarrow> nat list \<Rightarrow> nat list \<Rightarrow> bool" where
  "represents c us ps \<longleftrightarrow>
     linked (user_heap c) None (full_users c) us None \<and> linked (user_heap c) None (pending_users c) ps None \<and>
     distinct (us @ ps) \<and> connected_users c = int (length (us @ ps))"

lemma notify_simps [simp]:
  "represents (owner_notify f c) us ps = represents c us ps"
  "represents (c\<lparr>owner := x\<rparr>) us ps = represents c us ps"
  "represents (c\<lparr>pending_users_thread_started := b\<rparr>) us ps = represents c us ps"
  by (simp_all add: represents_def owner_notify_def guac_client_for_owner_def split: option.splits)

lemma add_pending_represents:
  assumes "represents c us ps" "u \<notin> set (us @ ps)" "int (length (us @ ps)) < INT_MAX"
  shows "represents (guac_client_add_pending_user u c) us (u # ps)"
proof -
  have l: "linked (user_heap c) None (full_users c) us None" "linked (user_heap c) None (pending_users c) ps None"
    "distinct (us @ ps)" "connected_users c = int (length (us @ ps))"
    using assms(1) by (simp_all add: represents_def)
  have count: "wrap32 (connected_users c + 1) = int (length (us @ u # ps))"
    using l(4) assms(3) by (simp add: in_int_def INT_MIN_def)
  show ?thesis
  proof (cases ps)
    case Nil
    then show ?thesis
      using l assms(2) count
      by (simp add: represents_def guac_client_add_pending_user_def Let_def set_prev_def set_next_def)
  next
    case (Cons y ys)
    then have "pending_users c = Some y" using l(2) by simp
    then show ?thesis
      using l assms(2) count Cons
      by (auto simp: represents_def guac_client_add_pending_user_def Let_def set_prev_def set_next_def)
  qed
qed

lemma promote_represents:
  assumes "represents c us ps"
  shows "\<exists>c'. guac_client_promote_pending_users handled c = Some c' \<and>
           (if handled then represents c' (ps @ us) [] else represents c' us ps) \<and> owner c' = owner c"
proof (cases "ps = [] \<or> \<not> handled")
  case True
  then show ?thesis using assms by (auto simp: guac_client_promote_pending_users_def represents_def split: option.splits)
next
  case False
  then obtain ps' q where ps: "ps = ps' @ [q]" by (metis rev_exhaust)
  have l: "linked (user_heap c) None (full_users c) us None" "linked (user_heap c) None (pending_users c) ps None"
    "distinct (us @ ps)" "connected_users c = int (length (us @ ps))"
    using assms by (simp_all add: represents_def)
  obtain p where p: "pending_users c = Some p" using l(2) False by (cases ps) auto
  have found: "last_user (user_heap c) (pending_users c) (pending_users c) = Some (Some q)"
    using last_user_linked [OF l(2)] ps by simp
  let ?h = "case full_users c of None \<Rightarrow> user_heap c | Some x \<Rightarrow> (user_heap c)(x := (user_heap c x)\<lparr>user_prev := Some q\<rparr>)"
  have us: "linked ?h (Some q) (full_users c) us None" "linked ?h None (pending_users c) (ps' @ [q]) None"
    using l(1-3) ps by (cases us; auto simp: linked_head)+
  have "linked (?h(q := (?h q)\<lparr>user_next := full_users c\<rparr>)) None (pending_users c) ((ps' @ [q]) @ us) None"
  proof (subst linked_append, intro exI conjI)
    show "linked (?h(q := (?h q)\<lparr>user_next := full_users c\<rparr>)) None (pending_users c) (ps' @ [q]) (full_users c)"
      by (rule linked_set_next [OF _ us(2)]) (use l(3) ps in simp)
    show "linked (?h(q := (?h q)\<lparr>user_next := full_users c\<rparr>)) (last_of None (ps' @ [q])) (full_users c) us None"
      using us(1) l(3) ps by simp
  qed
  then show ?thesis
    using False found p l(3,4) ps
    by (auto simp: guac_client_promote_pending_users_def represents_def Let_def set_prev_def set_next_def split: option.splits)
qed

text \<open>Taking a node out of a list, on the links alone.\<close>

definition skip_next :: "(nat \<Rightarrow> user_node) \<Rightarrow> nat option \<Rightarrow> nat option \<Rightarrow> nat \<Rightarrow> user_node" where
  "skip_next h prv n = (case prv of None \<Rightarrow> h | Some p \<Rightarrow> h(p := (h p)\<lparr>user_next := n\<rparr>))"

definition skip_prev :: "(nat \<Rightarrow> user_node) \<Rightarrow> nat option \<Rightarrow> nat option \<Rightarrow> nat \<Rightarrow> user_node" where
  "skip_prev h prv n = (case n of None \<Rightarrow> h | Some p \<Rightarrow> h(p := (h p)\<lparr>user_prev := prv\<rparr>))"

lemma skip_other:
  assumes "\<forall>p. prv = Some p \<longrightarrow> p \<notin> set zs" "\<forall>p. n = Some p \<longrightarrow> p \<notin> set zs"
  shows "linked (skip_prev (skip_next h prv n) prv' n) b first zs stop = linked h b first zs stop"
  using assms by (auto simp: skip_next_def skip_prev_def split: option.splits)

lemma linked_remove:
  assumes "linked h None first (xs @ u # ys) None" "distinct (xs @ u # ys)"
  shows "linked (skip_prev (skip_next h (user_prev (h u)) (user_next (h u))) (user_prev (h u)) (user_next (h u))) None
           (if user_prev (h u) = None then user_next (h u) else first) (xs @ ys) None"
    and "user_prev (h u) = last_of None xs" "user_next (h u) = (case ys of [] \<Rightarrow> None | y # _ \<Rightarrow> Some y)"
    and "xs \<noteq> [] \<Longrightarrow> first = Some (hd xs)" "xs = [] \<Longrightarrow> first = Some u"
proof -
  obtain m where m: "linked h None first xs m" "linked h (last_of None xs) m (u # ys) None"
    using assms(1) by (auto simp only: linked_append)
  then have u: "m = Some u" "user_prev (h u) = last_of None xs" "linked h (Some u) (user_next (h u)) ys None" by auto
  note nxt = linked_head [OF u(3)]
  show "user_prev (h u) = last_of None xs" "user_next (h u) = (case ys of [] \<Rightarrow> None | y # _ \<Rightarrow> Some y)" by fact+
  show "xs \<noteq> [] \<Longrightarrow> first = Some (hd xs)" "xs = [] \<Longrightarrow> first = Some u" using m u(1) by (cases xs; simp)+
  let ?n = "user_next (h u)" and ?p = "last_of None xs"
  have tail: "linked (skip_prev g ?p ?n) ?p ?n ys None" if g: "linked g (Some u) ?n ys None" for g
  proof (cases ys)
    case Nil
    then show ?thesis using nxt by (simp add: skip_prev_def)
  next
    case (Cons y zs)
    then have n: "?n = Some y" "y \<notin> set zs" using nxt assms(2) by simp_all
    then show ?thesis using g Cons by (simp add: skip_prev_def)
  qed
  show "linked (skip_prev (skip_next h (user_prev (h u)) ?n) (user_prev (h u)) ?n) None
           (if user_prev (h u) = None then ?n else first) (xs @ ys) None"
  proof (cases xs rule: rev_cases)
    case Nil
    then show ?thesis using tail [of h] u by (simp add: skip_next_def)
  next
    case (snoc xs' q)
    let ?h1 = "h(q := (h q)\<lparr>user_next := ?n\<rparr>)"
    have one: "linked ?h1 None first (xs' @ [q]) ?n"
      by (rule linked_set_next [OF _ m(1) [unfolded snoc]]) (use assms(2) snoc in simp)
    have two: "linked (skip_prev ?h1 ?p ?n) None first xs ?n"
      using one nxt assms(2) snoc by (auto simp: skip_prev_def split: list.splits option.splits)
    have three: "linked (skip_prev ?h1 ?p ?n) ?p ?n ys None"
      by (rule tail) (use u(3) assms(2) snoc in simp)
    show ?thesis using two three u(2) snoc by (auto simp: linked_append skip_next_def)
  qed
qed

lemma unlink_heap:
  assumes "user_prev (user_heap c u) \<noteq> Some u"
  shows "user_heap (unlink_user u c) =
    skip_prev (skip_next (user_heap c) (user_prev (user_heap c u)) (user_next (user_heap c u))) (user_prev (user_heap c u)) (user_next (user_heap c u))"
    "connected_users (unlink_user u c) = connected_users c"
    "full_users (unlink_user u c) = (if user_prev (user_heap c u) = None \<and> full_users c = Some u then user_next (user_heap c u) else full_users c)"
    "pending_users (unlink_user u c) =
       (if user_prev (user_heap c u) = None \<and> full_users c \<noteq> Some u \<and> pending_users c = Some u then user_next (user_heap c u) else pending_users c)"
  using assms
  by (auto simp: unlink_user_def skip_next_def skip_prev_def set_next_def set_prev_def Let_def split: option.splits)

lemma unlink_represents:
  assumes rep: "represents c us ps" and u: "u \<in> set (us @ ps)"
  shows "linked (user_heap (unlink_user u c)) None (full_users (unlink_user u c)) (remove1 u us) None \<and>
         linked (user_heap (unlink_user u c)) None (pending_users (unlink_user u c)) (remove1 u ps) None"
proof -
  let ?h = "user_heap c" and ?n = "user_next (user_heap c u)" and ?p = "user_prev (user_heap c u)"
  have l: "linked ?h None (full_users c) us None" "linked ?h None (pending_users c) ps None" "distinct (us @ ps)"
    using rep by (simp_all add: represents_def)
  have main: ?thesis
    if x: "zs = xs @ u # ys" "linked ?h None first zs None" "distinct (zs @ os)"
      and o: "linked ?h None ofirst os None"
      and which: "zs = us \<and> first = full_users c \<and> os = ps \<and> ofirst = pending_users c \<or>
                  zs = ps \<and> first = pending_users c \<and> os = us \<and> ofirst = full_users c" for zs xs ys first os ofirst
  proof -
    note r = linked_remove [OF x(2) [unfolded x(1)]]
    have d: "distinct (xs @ u # ys)" "set (xs @ u # ys) \<inter> set os = {}" using x(1,3) by auto
    note r = r [OF d(1)]
    have p: "?p \<noteq> Some u" using r(2) d(1) by (cases xs rule: rev_cases) auto
    have away: "\<forall>q. ?p = Some q \<longrightarrow> q \<notin> set os" "\<forall>q. ?n = Some q \<longrightarrow> q \<notin> set os"
      using r(2,3) d(2) by (cases xs rule: rev_cases; auto split: list.splits)+
    have other: "linked (user_heap (unlink_user u c)) None ofirst os None"
      unfolding unlink_heap(1) [OF p] skip_other [OF away] by (rule o)
    have self: "linked (user_heap (unlink_user u c)) None (if ?p = None then ?n else first) (xs @ ys) None"
      unfolding unlink_heap(1) [OF p] by (rule r(1))
    have ofst: "ofirst \<noteq> Some u" using o d(2) by (cases os) auto
    have fst: "?p = None \<longleftrightarrow> xs = []" "xs = [] \<Longrightarrow> first = Some u" using r(2,5) by (simp_all add: last_of_def)
    have z: "remove1 u zs = xs @ ys" "remove1 u os = os"
      using d x(1) by (auto simp: remove1_append remove1_idem)
    show ?thesis
      using which self other fst ofst z by (auto simp: unlink_heap(3,4) [OF p])
  qed
  show ?thesis
  proof (cases "u \<in> set us")
    case True
    then obtain xs ys where "us = xs @ u # ys" by (metis split_list)
    then show ?thesis using main [of us xs ys "full_users c" ps "pending_users c"] l by simp
  next
    case False
    then obtain xs ys where "ps = xs @ u # ys" using u by (metis Un_iff set_append split_list)
    then show ?thesis using main [of ps xs ys "pending_users c" us "full_users c"] l by auto
  qed
qed

lemma remove_represents:
  assumes rep: "represents c us ps" and u: "u \<in> set (us @ ps)" and size: "int (length (us @ ps)) \<le> INT_MAX"
  shows "represents (guac_client_remove_user u c) (remove1 u us) (remove1 u ps)"
proof -
  have d: "distinct (us @ ps)" "connected_users c = int (length (us @ ps))" using rep by (simp_all add: represents_def)
  have "connected_users (unlink_user u c) = connected_users c"
    by (auto simp: unlink_user_def set_next_def set_prev_def Let_def split: option.splits)
  moreover have "int (length (remove1 u us @ remove1 u ps)) = int (length (us @ ps)) - 1"
    using d(1) u length_pos_if_in_set [of u us] length_pos_if_in_set [of u ps]
    by (auto simp: length_remove1 remove1_idem of_nat_diff Suc_leI)
  moreover have "wrap32 (int (length (us @ ps)) - 1) = int (length (us @ ps)) - 1"
    using size u by (simp add: in_int_def INT_MIN_def)
  moreover have "distinct (remove1 u us @ remove1 u ps)"
    using d(1) by (auto simp: distinct_remove1 dest: notin_set_remove1)
  ultimately have "represents ((unlink_user u c)\<lparr>connected_users := wrap32 (connected_users (unlink_user u c) - 1)\<rparr>)
      (remove1 u us) (remove1 u ps)"
    using unlink_represents [OF rep u] d(2) by (simp add: represents_def)
  then show ?thesis by (simp add: guac_client_remove_user_def guac_client_owner_notify_leave_def Let_def)
qed

section \<open>The owner\<close>

text \<open>The owner, if there is one, is among the users and marked as the owner.\<close>

definition owner_ok :: "client_users \<Rightarrow> nat list \<Rightarrow> nat list \<Rightarrow> bool" where
  "owner_ok c us ps \<longleftrightarrow> (\<forall>p. owner c = Some p \<longrightarrow> p \<in> set (us @ ps) \<and> is_owner (user_heap c p))"

lemma link_frame [simp]:
  "owner (set_prev p v c) = owner c" "owner (set_next p v c) = owner c"
  "is_owner (user_heap (set_prev p v c) x) = is_owner (user_heap c x)"
  "is_owner (user_heap (set_next p v c) x) = is_owner (user_heap c x)"
  by (simp_all add: set_prev_def set_next_def)

lemma notify_frame [simp]: "owner (owner_notify f c) = owner c" "user_heap (owner_notify f c) = user_heap c"
  by (simp_all add: owner_notify_def guac_client_for_owner_def split: option.splits)

lemma unlink_frame [simp]:
  "owner (unlink_user u c) = owner c" "is_owner (user_heap (unlink_user u c) x) = is_owner (user_heap c x)"
  by (auto simp: unlink_user_def Let_def split: option.splits)

lemma add_owner: "owner_ok c us ps \<Longrightarrow> owner_ok (snd (guac_client_add_user 0 u c)) us (u # ps)"
  by (auto simp: owner_ok_def guac_client_add_user_def guac_client_add_pending_user_def
      guac_client_owner_notify_join_def Let_def split: option.splits)

lemma promote_owner:
  "owner_ok c us ps \<Longrightarrow> guac_client_promote_pending_users handled c = Some c' \<Longrightarrow> set (us' @ ps') = set (us @ ps) \<Longrightarrow> owner_ok c' us' ps'"
  by (auto simp: owner_ok_def guac_client_promote_pending_users_def Let_def split: option.splits if_splits)

lemma remove_owner:
  "owner_ok c us ps \<Longrightarrow> distinct (us @ ps) \<Longrightarrow> owner_ok (guac_client_remove_user u c) (remove1 u us) (remove1 u ps)"
  by (auto simp: owner_ok_def guac_client_remove_user_def guac_client_owner_notify_leave_def Let_def in_set_remove1 split: if_splits)

section \<open>Sequences of operations\<close>

datatype user_op = Join nat int | Promote bool | Leave nat

fun run_op :: "user_op \<Rightarrow> client_users \<Rightarrow> client_users option" where
  "run_op (Join u retval) c = Some (snd (guac_client_add_user retval u c))"
| "run_op (Promote handled) c = guac_client_promote_pending_users handled c"
| "run_op (Leave u) c = Some (guac_client_remove_user u c)"

fun run_ops :: "user_op list \<Rightarrow> client_users \<Rightarrow> client_users option" where
  "run_ops [] c = Some c"
| "run_ops (a # as) c = (case run_op a c of None \<Rightarrow> None | Some c \<Rightarrow> run_ops as c)"

text \<open>The same on lists: a new user is pending, all pending users become full users together.\<close>

fun list_op :: "user_op \<Rightarrow> nat list \<times> nat list \<Rightarrow> nat list \<times> nat list" where
  "list_op (Join u retval) (us, ps) = (us, if retval = 0 then u # ps else ps)"
| "list_op (Promote handled) (us, ps) = (if handled then (ps @ us, []) else (us, ps))"
| "list_op (Leave u) (us, ps) = (remove1 u us, remove1 u ps)"

text \<open>Users join that are not there, and leave that are.\<close>

fun legal_ops :: "user_op list \<Rightarrow> nat list \<times> nat list \<Rightarrow> bool" where
  "legal_ops [] l \<longleftrightarrow> True"
| "legal_ops (a # as) (us, ps) \<longleftrightarrow>
     (case a of
        Join u retval \<Rightarrow> u \<notin> set (us @ ps) \<and> int (length (us @ ps)) < INT_MAX
      | Promote handled \<Rightarrow> True
      | Leave u \<Rightarrow> u \<in> set (us @ ps)) \<and> legal_ops as (list_op a (us, ps))"

definition users_inv :: "client_users \<Rightarrow> nat list \<times> nat list \<Rightarrow> bool" where
  "users_inv c l \<longleftrightarrow> (case l of (us, ps) \<Rightarrow> represents c us ps \<and> owner_ok c us ps \<and> int (length (us @ ps)) \<le> INT_MAX)"

lemma users_step:
  assumes "users_inv c (us, ps)" "legal_ops [a] (us, ps)"
  shows "\<exists>c'. run_op a c = Some c' \<and> users_inv c' (list_op a (us, ps))"
proof -
  have inv: "represents c us ps" "owner_ok c us ps" "int (length (us @ ps)) \<le> INT_MAX" "distinct (us @ ps)"
    using assms(1) by (simp_all add: users_inv_def represents_def)
  show ?thesis
  proof (cases a)
    case (Join u retval)
    then have u: "u \<notin> set (us @ ps)" "int (length (us @ ps)) < INT_MAX" using assms(2) by simp_all
    show ?thesis
    proof (cases "retval = 0")
      case True
      have "represents (snd (guac_client_add_user 0 u c)) us (u # ps)"
        using add_pending_represents [OF inv(1) u]
        by (simp add: guac_client_add_user_def guac_client_owner_notify_join_def Let_def)
      then show ?thesis using Join True u(2) add_owner [OF inv(2)] by (simp add: users_inv_def)
    next
      case False
      then show ?thesis using Join assms(1) by (simp add: guac_client_add_user_def)
    qed
  next
    case (Promote handled)
    obtain c' where c': "guac_client_promote_pending_users handled c = Some c'"
      "if handled then represents c' (ps @ us) [] else represents c' us ps"
      using promote_represents [OF inv(1)] by blast
    have "owner_ok c' (ps @ us) []" "owner_ok c' us ps"
      using promote_owner [OF inv(2) c'(1), of "ps @ us" "[]"] promote_owner [OF inv(2) c'(1), of us ps] by auto
    then show ?thesis using Promote c' inv(3) by (auto simp: users_inv_def add.commute)
  next
    case (Leave u)
    then have u: "u \<in> set (us @ ps)" using assms(2) by simp
    have "length (remove1 u us @ remove1 u ps) \<le> length (us @ ps)" by (auto simp: length_remove1)
    then show ?thesis
      using Leave remove_represents [OF inv(1) u inv(3)] remove_owner [OF inv(2,4)] inv(3) by (auto simp: users_inv_def)
  qed
qed

lemma users_run:
  "users_inv c l \<Longrightarrow> legal_ops as l \<Longrightarrow> \<exists>c'. run_ops as c = Some c' \<and> users_inv c' (fold list_op as l)"
proof (induction as arbitrary: c l)
  case (Cons a as)
  obtain us ps where l: "l = (us, ps)" by fastforce
  then obtain c1 where "run_op a c = Some c1" "users_inv c1 (list_op a l)"
    using users_step [of c us ps a] Cons.prems by auto
  then show ?case using Cons.IH [of c1 "list_op a l"] Cons.prems(2) l by auto
qed simp

lemma free_pending:
  "users_inv c (us, ps) \<Longrightarrow> \<exists>c'. remove_pending c = Some c' \<and> users_inv c' (us, [])"
proof (induction ps arbitrary: c)
  case Nil
  then have "pending_users c = None" by (simp add: users_inv_def represents_def)
  then show ?case using Nil by (subst remove_pending.simps) simp
next
  case (Cons p ps)
  have p: "pending_users c = Some p" "p \<notin> set us" using Cons.prems by (auto simp: users_inv_def represents_def)
  have "users_inv (guac_client_remove_user p c) (us, ps)"
    using users_step [of c us "p # ps" "Leave p"] Cons.prems p(2) by (simp add: remove1_idem)
  from Cons.IH [OF this] show ?case using p(1) by (subst remove_pending.simps) simp
qed

lemma free_full:
  "users_inv c (us, []) \<Longrightarrow> \<exists>c'. remove_full c = Some c' \<and> users_inv c' ([], [])"
proof (induction us arbitrary: c)
  case Nil
  then have "full_users c = None" by (simp add: users_inv_def represents_def)
  then show ?case using Nil by (subst remove_full.simps) simp
next
  case (Cons u us)
  have u: "full_users c = Some u" using Cons.prems by (auto simp: users_inv_def represents_def)
  have "users_inv (guac_client_remove_user u c) (us, [])"
    using users_step [of c "u # us" "[]" "Leave u"] Cons.prems by simp
  from Cons.IH [OF this] show ?case using u by (subst remove_full.simps) simp
qed

section \<open>Properties\<close>

definition no_users :: "(nat \<Rightarrow> user_node) \<Rightarrow> client_users" where
  "no_users h = \<lparr>user_heap = h, full_users = None, pending_users = None, owner = None, connected_users = 0,
     pending_users_thread_started = False, notices = []\<rparr>"

text \<open>
  C10. The linked lists of a client implement lists: after any sequence of users joining, being promoted
  and leaving, in which those who join are not there and those who leave are, the users called for each
  are those of the abstract lists in order, a given user is found exactly if it is a full user, the
  owner is never one who has left, the count is exact, and freeing the client removes everyone. No loop
  along the links runs forever.
\<close>

theorem user_lists_refine:
  assumes "legal_ops as ([], [])" "fold list_op as ([], []) = (us, ps)"
  shows "\<exists>c. run_ops as (no_users h) = Some c \<and>
     guac_client_foreach_user c f data = Some (fold f us data) \<and>
     guac_client_foreach_pending_user c f data = Some (fold f ps data) \<and>
     (\<forall>u. guac_client_for_user c u g = Some (g (if u \<in> set us then Some u else None))) \<and>
     (\<forall>p. owner c = Some p \<longrightarrow> p \<in> set us \<union> set ps) \<and>
     connected_users c = int (length us + length ps) \<and>
     (\<exists>c'. guac_client_free_users c = Some c' \<and> full_users c' = None \<and> pending_users c' = None \<and> connected_users c' = 0)"
proof -
  have start: "users_inv (no_users h) ([], [])"
    by (simp add: users_inv_def represents_def owner_ok_def no_users_def INT_MAX_def)
  obtain c where c: "run_ops as (no_users h) = Some c" "users_inv c (us, ps)"
    using users_run [OF start assms(1)] assms(2) by auto
  have l: "linked (user_heap c) None (full_users c) us None" "linked (user_heap c) None (pending_users c) ps None"
    "owner_ok c us ps" "connected_users c = int (length us + length ps)"
    using c(2) by (simp_all add: users_inv_def represents_def)
  obtain c1 where c1: "remove_pending c = Some c1" "users_inv c1 (us, [])" using free_pending [OF c(2)] by blast
  obtain c2 where c2: "remove_full c1 = Some c2" "users_inv c2 ([], [])" using free_full [OF c1(2)] by blast
  have "guac_client_free_users c = Some c2" "full_users c2 = None" "pending_users c2 = None" "connected_users c2 = 0"
    using c1(1) c2 by (simp_all add: guac_client_free_users_def users_inv_def represents_def)
  then show ?thesis
    using c(1) foreach_linked [OF l(1)] foreach_linked [OF l(2)] search_linked [OF l(1)] l(3,4)
    by (auto simp: guac_client_foreach_user_def guac_client_foreach_pending_user_def guac_client_for_user_def owner_ok_def)
qed

definition new_node :: "nat \<Rightarrow> user_node" where
  "new_node p = \<lparr>user_prev = None, user_next = None, is_owner = (p = 1), supports_msg = True, user_lag = 0\<rparr>"

theorem user_lists_refine_witness:
  "\<exists>c. run_ops [Join 1 0, Join 2 0, Promote True, Join 3 0, Leave 1] (no_users new_node) = Some c \<and>
     guac_client_foreach_user c (#) [] = Some [2] \<and> connected_users c = 2"
  using user_lists_refine [of "[Join 1 0, Join 2 0, Promote True, Join 3 0, Leave 1]" "[2]" "[3]" new_node "(#)" "[]" id]
  by (auto simp: INT_MAX_def)

end
