(* ===== verification/Sockets.thy ===== *)
theory Sockets
  imports Protocol Users
begin

text \<open>
  The implementations of sockets: over a file descriptor (\<open>src/src/libguac/socket-fd.c\<close>), nested in
  another socket (\<open>socket-nest.c\<close>), duplicated to a second one (\<open>socket-tee.c\<close>) and broadcast to the
  users of a client (\<open>socket-broadcast.c\<close>).

  The results of the next \<open>write\<close> calls on a file descriptor are scripted: a negative number for an
  error, otherwise the number of bytes accepted; past the end of the script everything is accepted.
  The functions hold the lock of the buffer.
\<close>

section \<open>File descriptors\<close>

definition GUAC_SOCKET_OUTPUT_BUFFER_SIZE :: nat where "GUAC_SOCKET_OUTPUT_BUFFER_SIZE = 8192"

text \<open>\<open>out_buf\<close> holds the bytes that are in the buffer, \<open>device\<close> those the descriptor has accepted.\<close>

record fd_socket =
  out_buf :: "u8 list"
  device :: "u8 list"
  write_results :: "int list"

function guac_socket_fd_write :: "u8 list \<Rightarrow> fd_socket \<Rightarrow> int \<times> fd_socket" where
  "guac_socket_fd_write buffer s =
     (if buffer = [] then (0, s)
      else (case write_results s of
              [] \<Rightarrow> (0, s\<lparr>device := device s @ buffer\<rparr>)
            | retval # rs \<Rightarrow>
                let s = s\<lparr>write_results := rs\<rparr> in
                if retval < 0 then (retval, s)
                else guac_socket_fd_write (drop (nat retval) buffer) (s\<lparr>device := device s @ take (nat retval) buffer\<rparr>)))"
  by pat_completeness auto
termination
  by (relation "measure (\<lambda>(buffer, s). length (write_results s))") auto

declare guac_socket_fd_write.simps [simp del]

definition guac_socket_fd_flush :: "fd_socket \<Rightarrow> int \<times> fd_socket" where
  "guac_socket_fd_flush s =
     (if out_buf s \<noteq> []
      then let (r, s) = guac_socket_fd_write (out_buf s) s in if r \<noteq> 0 then (1, s) else (0, s\<lparr>out_buf := []\<rparr>)
      else (0, s))"

lemma fd_flush_empties: "guac_socket_fd_flush s = (0, s') \<Longrightarrow> out_buf s' = []"
  by (auto simp: guac_socket_fd_flush_def split: prod.splits if_splits)

text \<open>Append to the buffer, flush when it is full.\<close>

function fd_append :: "u8 list \<Rightarrow> fd_socket \<Rightarrow> bool \<times> fd_socket" where
  "fd_append current s =
     (if current = [] then (True, s)
      else
        let remaining = GUAC_SOCKET_OUTPUT_BUFFER_SIZE - length (out_buf s) in
        if remaining = 0
        then (let (r, s) = guac_socket_fd_flush s in if r \<noteq> 0 then (False, s) else fd_append current s)
        else fd_append (drop remaining current) (s\<lparr>out_buf := out_buf s @ take remaining current\<rparr>))"
  by pat_completeness auto
termination
  by (relation "measures [\<lambda>(current, s). length current, \<lambda>(current, s). length (out_buf s)]")
    (auto simp: GUAC_SOCKET_OUTPUT_BUFFER_SIZE_def fd_flush_empties [OF sym] simp flip: length_greater_0_conv)

declare fd_append.simps [simp del]

definition guac_socket_fd_write_buffered :: "u8 list \<Rightarrow> fd_socket \<Rightarrow> int \<times> fd_socket" where
  "guac_socket_fd_write_buffered buf s =
     (case fd_append buf s of (done, s) \<Rightarrow> (if done then int (length buf) else -1, s))"

text \<open>\<open>retval\<close> is the result of waiting or reading: the result passed on and the error that is recorded.\<close>

definition guac_socket_fd_select_handler :: "int \<Rightarrow> int \<times> guac_status option" where
  "guac_socket_fd_select_handler retval =
     (retval, if retval < 0 then Some GUAC_STATUS_SEE_ERRNO else if retval = 0 then Some GUAC_STATUS_TIMEOUT else None)"

definition guac_socket_fd_read_handler :: "int \<Rightarrow> int \<times> guac_status option" where
  "guac_socket_fd_read_handler retval = (retval, if retval < 0 then Some GUAC_STATUS_SEE_ERRNO else None)"

definition guac_socket_open :: "int list \<Rightarrow> fd_socket" where
  "guac_socket_open results = \<lparr>out_buf = [], device = [], write_results = results\<rparr>"

section \<open>Nested sockets\<close>

definition GUAC_SOCKET_NEST_BUFFER_SIZE :: nat where "GUAC_SOCKET_NEST_BUFFER_SIZE = 7168"

record nest_socket =
  nest_parent :: guac_socket
  nest_index :: int
  nest_written :: nat
  nest_buffer :: "u8 list"

text \<open>The length of the buffer in whole characters; a partial character at the end is counted as whole.\<close>

lemma charsize_pos: "0 < guac_utf8_charsize c"
  by (simp add: guac_utf8_charsize_def)

function nest_length :: "u8 list \<Rightarrow> nat \<Rightarrow> nat \<Rightarrow> nat" where
  "nest_length buf n len = (if len < n then nest_length buf n (len + guac_utf8_charsize (buf ! len)) else len)"
  by pat_completeness auto
termination
  by (relation "measure (\<lambda>(buf, n, len). n - len)") (auto simp: charsize_pos intro!: diff_less_mono2)

declare nest_length.simps [simp del]

text \<open>Moving the rest of the buffer by a negative number of bytes is undefined.\<close>

definition guac_socket_nest_flush :: "nest_socket \<Rightarrow> (int \<times> nest_socket) result" where
  "guac_socket_nest_flush s =
     (if nest_written s > 0
      then
        let len = nest_length (nest_buffer s) (nest_written s) 0 in
        defined (len < GUAC_SOCKET_NEST_BUFFER_SIZE) (
          let (r, parent) = guac_protocol_send_nest (nest_index s) (takeWhile (\<lambda>b. b \<noteq> 0) (take len (nest_buffer s))) (nest_parent s);
              s = s\<lparr>nest_parent := parent\<rparr>
          in if r \<noteq> 0 then Inr (1, s)
             else defined (len \<le> nest_written s)
               (Inr (0, s\<lparr>nest_buffer := overwrite (nest_buffer s) 0 (take (nest_written s - len) (drop len (nest_buffer s))),
                         nest_written := nest_written s - len\<rparr>)))
      else Inr (0, s))"

text \<open>The loop ends: a flush that succeeds empties the buffer. The fuel counts its rounds.\<close>

fun nest_append :: "nat \<Rightarrow> u8 list \<Rightarrow> nest_socket \<Rightarrow> (bool \<times> nest_socket) result" where
  "nest_append 0 current s = (if current = [] then Inr (True, s) else Inl Diverged)"
| "nest_append (Suc fuel) current s =
     (if current = [] then Inr (True, s)
      else
        let remaining = GUAC_SOCKET_NEST_BUFFER_SIZE - nest_written s - 1 in
        if remaining = 0
        then bindr (guac_socket_nest_flush s) (\<lambda>(r, s). if r \<noteq> 0 then Inr (False, s) else nest_append fuel current s)
        else
          let chunk = take remaining current
          in nest_append fuel (drop remaining current)
               (s\<lparr>nest_buffer := overwrite (nest_buffer s) (nest_written s) chunk, nest_written := nest_written s + length chunk\<rparr>))"

definition guac_socket_nest_write_buffered :: "u8 list \<Rightarrow> nest_socket \<Rightarrow> (int \<times> nest_socket) result" where
  "guac_socket_nest_write_buffered buf s =
     bindr (nest_append (2 * length buf + 2) buf s) (\<lambda>(done, s). Inr (if done then int (length buf) else -1, s))"

section \<open>Tee sockets\<close>

record tee_socket =
  primary :: guac_socket
  secondary :: guac_socket

definition guac_socket_tee_write_handler :: "u8 list \<Rightarrow> tee_socket \<Rightarrow> int \<times> tee_socket" where
  "guac_socket_tee_write_handler buf t =
     (let (_, sec) = guac_socket_write (secondary t) buf;
          (r, prim) = guac_socket_write (primary t) buf
      in (if r \<noteq> 0 then -1 else int (length buf), t\<lparr>primary := prim, secondary := sec\<rparr>))"

definition guac_socket_tee_flush_handler :: "tee_socket \<Rightarrow> int \<times> tee_socket" where
  "guac_socket_tee_flush_handler t =
     (let (_, sec) = guac_socket_flush (secondary t); (r, prim) = guac_socket_flush (primary t)
      in (r, t\<lparr>primary := prim, secondary := sec\<rparr>))"

definition guac_socket_tee_lock_handler :: "tee_socket \<Rightarrow> tee_socket" where
  "guac_socket_tee_lock_handler t =
     t\<lparr>primary := guac_socket_instruction_begin (primary t), secondary := guac_socket_instruction_begin (secondary t)\<rparr>"

definition guac_socket_tee_unlock_handler :: "tee_socket \<Rightarrow> tee_socket" where
  "guac_socket_tee_unlock_handler t =
     t\<lparr>secondary := guac_socket_instruction_end (secondary t), primary := guac_socket_instruction_end (primary t)\<rparr>"

definition guac_socket_tee :: "guac_socket \<Rightarrow> guac_socket \<Rightarrow> tee_socket" where
  "guac_socket_tee prim sec = \<lparr>primary = prim, secondary = sec\<rparr>"

section \<open>Broadcast sockets\<close>

text \<open>The sockets of the users, and whether they are still active.\<close>

record user_ends =
  end_socket :: "nat \<Rightarrow> guac_socket"
  end_active :: "nat \<Rightarrow> bool"

type_synonym broadcast_handler = "(nat \<Rightarrow> user_ends \<Rightarrow> user_ends) \<Rightarrow> user_ends \<Rightarrow> user_ends option"

definition stop_user :: "nat \<Rightarrow> user_ends \<Rightarrow> user_ends" where
  "stop_user u e = e\<lparr>end_active := (end_active e)(u := False)\<rparr>"

definition write_chunk_callback :: "u8 list \<Rightarrow> nat \<Rightarrow> user_ends \<Rightarrow> user_ends" where
  "write_chunk_callback buf u e =
     (let (r, socket) = guac_socket_write (end_socket e u) buf; e = e\<lparr>end_socket := (end_socket e)(u := socket)\<rparr>
      in if r \<noteq> 0 then stop_user u e else e)"

definition flush_callback :: "nat \<Rightarrow> user_ends \<Rightarrow> user_ends" where
  "flush_callback u e =
     (let (r, socket) = guac_socket_flush (end_socket e u); e = e\<lparr>end_socket := (end_socket e)(u := socket)\<rparr>
      in if r \<noteq> 0 then stop_user u e else e)"

definition lock_callback :: "nat \<Rightarrow> user_ends \<Rightarrow> user_ends" where
  "lock_callback u e = e\<lparr>end_socket := (end_socket e)(u := guac_socket_instruction_begin (end_socket e u))\<rparr>"

definition unlock_callback :: "nat \<Rightarrow> user_ends \<Rightarrow> user_ends" where
  "unlock_callback u e = e\<lparr>end_socket := (end_socket e)(u := guac_socket_instruction_end (end_socket e u))\<rparr>"

definition guac_socket_broadcast_write_handler :: "broadcast_handler \<Rightarrow> u8 list \<Rightarrow> user_ends \<Rightarrow> (int \<times> user_ends) option" where
  "guac_socket_broadcast_write_handler broadcast buf e =
     map_option (\<lambda>e. (int (length buf), e)) (broadcast (write_chunk_callback buf) e)"

definition guac_socket_broadcast_flush_handler :: "broadcast_handler \<Rightarrow> user_ends \<Rightarrow> (int \<times> user_ends) option" where
  "guac_socket_broadcast_flush_handler broadcast e = map_option (\<lambda>e. (0, e)) (broadcast flush_callback e)"

definition guac_socket_broadcast_lock_handler :: "broadcast_handler \<Rightarrow> user_ends \<Rightarrow> user_ends option" where
  "guac_socket_broadcast_lock_handler broadcast e = broadcast lock_callback e"

definition guac_socket_broadcast_unlock_handler :: "broadcast_handler \<Rightarrow> user_ends \<Rightarrow> user_ends option" where
  "guac_socket_broadcast_unlock_handler broadcast e = broadcast unlock_callback e"

text \<open>The broadcast sockets of a client: to its full users and to its pending users.\<close>

definition guac_socket_broadcast :: "client_users \<Rightarrow> broadcast_handler" where
  "guac_socket_broadcast c = guac_client_foreach_user c"

definition guac_socket_broadcast_pending :: "client_users \<Rightarrow> broadcast_handler" where
  "guac_socket_broadcast_pending c = guac_client_foreach_pending_user c"

section \<open>The order of bytes\<close>

lemma fd_write_device:
  "guac_socket_fd_write buffer s = (r, s') \<Longrightarrow>
     out_buf s' = out_buf s \<and> (\<exists>n \<le> length buffer. device s' = device s @ take n buffer \<and> (r = 0 \<longrightarrow> n = length buffer)) \<and>
     (list_all (\<lambda>x. 0 \<le> x) (write_results s) \<longrightarrow> r = 0 \<and> list_all (\<lambda>x. 0 \<le> x) (write_results s'))"
proof (induction buffer s arbitrary: r s' rule: guac_socket_fd_write.induct)
  case (1 buffer s)
  show ?case
  proof (cases "buffer = [] \<or> write_results s = []")
    case True
    then show ?thesis using "1.prems" by (subst (asm) guac_socket_fd_write.simps) (auto split: if_splits)
  next
    case False
    then obtain x rs where w: "write_results s = x # rs" "buffer \<noteq> []" by (cases "write_results s") auto
    show ?thesis
    proof (cases "x < 0")
      case True
      then show ?thesis using "1.prems" w by (subst (asm) guac_socket_fd_write.simps) (auto simp: Let_def intro: exI [of _ 0])
    next
      case x: False
      define s1 where "s1 = s\<lparr>write_results := rs, device := device s @ take (nat x) buffer\<rparr>"
      have run: "guac_socket_fd_write (drop (nat x) buffer) s1 = (r, s')"
        using "1.prems" w x by (subst (asm) guac_socket_fd_write.simps) (simp add: Let_def s1_def)
      have ih: "out_buf s' = out_buf s1 \<and>
          (\<exists>n \<le> length (drop (nat x) buffer). device s' = device s1 @ take n (drop (nat x) buffer) \<and> (r = 0 \<longrightarrow> n = length (drop (nat x) buffer))) \<and>
          (list_all (\<lambda>x. 0 \<le> x) (write_results s1) \<longrightarrow> r = 0 \<and> list_all (\<lambda>x. 0 \<le> x) (write_results s'))"
        using "1.IH" [OF w(2,1) refl x, of r s'] run by (simp add: s1_def)
      then obtain n where n: "n \<le> length (drop (nat x) buffer)" "device s' = device s1 @ take n (drop (nat x) buffer)"
        "r = 0 \<longrightarrow> n = length (drop (nat x) buffer)" by blast
      let ?k = "min (nat x) (length buffer)"
      have "device s' = device s @ take (?k + n) buffer"
        using n(2) by (simp add: s1_def take_add min_def)
      moreover have "?k + n \<le> length buffer" "r = 0 \<longrightarrow> ?k + n = length buffer" using n(1,3) by auto
      ultimately show ?thesis using ih w x by (auto simp: s1_def)
    qed
  qed
qed

text \<open>What has been written to the socket: the bytes on the device and those in the buffer.\<close>

definition fd_stream :: "fd_socket \<Rightarrow> u8 list" where
  "fd_stream s = device s @ out_buf s"

abbreviation fd_ready :: "fd_socket \<Rightarrow> bool" where
  "fd_ready s \<equiv> list_all (\<lambda>x. 0 \<le> x) (write_results s) \<and> length (out_buf s) \<le> GUAC_SOCKET_OUTPUT_BUFFER_SIZE"

lemma fd_flush_ready:
  assumes "fd_ready s" "guac_socket_fd_flush s = (r, s')"
  shows "r = 0 \<and> fd_ready s' \<and> out_buf s' = [] \<and> device s' = fd_stream s"
proof (cases "out_buf s = []")
  case True
  then show ?thesis using assms by (auto simp: guac_socket_fd_flush_def fd_stream_def)
next
  case False
  obtain q t where q: "guac_socket_fd_write (out_buf s) s = (q, t)" by fastforce
  then show ?thesis using assms fd_write_device [OF q] False by (auto simp: guac_socket_fd_flush_def fd_stream_def)
qed

lemma fd_append_ready:
  "fd_ready s \<Longrightarrow> fd_append current s = (done, s') \<Longrightarrow> done \<and> fd_ready s' \<and> fd_stream s' = fd_stream s @ current"
proof (induction current s arbitrary: "done" s' rule: fd_append.induct)
  case (1 current s)
  let ?remaining = "GUAC_SOCKET_OUTPUT_BUFFER_SIZE - length (out_buf s)"
  consider "current = []" | "current \<noteq> []" "?remaining = 0" | "current \<noteq> []" "?remaining \<noteq> 0" by blast
  then show ?case
  proof cases
    case 1
    then have "fd_append current s = (True, s)" by (subst fd_append.simps) simp
    then show ?thesis using "1.prems" 1 by simp
  next
    case 2
    obtain r t where t: "guac_socket_fd_flush s = (r, t)" by fastforce
    note f = fd_flush_ready [OF "1.prems"(1) t]
    have "fd_append current t = (done, s')" using "1.prems"(2) 2 t f by (subst (asm) fd_append.simps) (simp add: Let_def)
    moreover have "fd_stream t = fd_stream s" using f by (simp add: fd_stream_def)
    ultimately show ?thesis using "1.IH"(1) [OF 2(1) refl 2(2) t [symmetric] refl] f by simp
  next
    case 3
    let ?t = "s\<lparr>out_buf := out_buf s @ take ?remaining current\<rparr>"
    have "fd_append (drop ?remaining current) ?t = (done, s')"
      using "1.prems"(2) 3 by (subst (asm) fd_append.simps) (simp add: Let_def)
    moreover have "fd_ready ?t" "fd_stream ?t @ drop ?remaining current = fd_stream s @ current"
      using "1.prems"(1) 3 by (auto simp: fd_stream_def)
    ultimately show ?thesis using "1.IH"(2) [OF 3(1) refl 3(2)] by simp
  qed
qed

lemma take_append_prefix: "\<exists>m. take n xs = take m (xs @ ys)"
proof (rule exI [of _ "min n (length xs)"])
  show "take n xs = take (min n (length xs)) (xs @ ys)" by (cases "n \<le> length xs") (simp_all add: min_def)
qed

text \<open>Also when writing fails, what reached the device is a prefix of what was to be written.\<close>

lemma fd_flush_prefix:
  assumes "guac_socket_fd_flush s = (r, s')"
  shows "(r = 0 \<longrightarrow> fd_stream s' = fd_stream s) \<and> (\<exists>n. device s' = take n (fd_stream s))"
proof (cases "out_buf s = []")
  case True
  then have "device s' = take (length (device s)) (fd_stream s)" using assms by (auto simp: guac_socket_fd_flush_def fd_stream_def)
  then show ?thesis using True assms by (auto simp: guac_socket_fd_flush_def)
next
  case False
  obtain q t where q: "guac_socket_fd_write (out_buf s) s = (q, t)" by fastforce
  then obtain n where n: "device t = device s @ take n (out_buf s)" "q = 0 \<longrightarrow> n = length (out_buf s)"
    using fd_write_device [OF q] by blast
  have "device t = take (length (device s) + n) (fd_stream s)" using n(1) by (simp add: fd_stream_def)
  moreover have "device s' = device t" "r = 0 \<longrightarrow> q = 0 \<and> out_buf s' = []"
    using assms q False by (auto simp: guac_socket_fd_flush_def split: if_splits)
  moreover have "r = 0 \<longrightarrow> fd_stream s' = fd_stream s" using n calculation(2,3) by (simp add: fd_stream_def)
  ultimately show ?thesis by metis
qed

lemma fd_append_prefix:
  "fd_append current s = (done, s') \<Longrightarrow>
     (done \<longrightarrow> fd_stream s' = fd_stream s @ current) \<and> (\<exists>n. device s' = take n (fd_stream s @ current))"
proof (induction current s arbitrary: "done" s' rule: fd_append.induct)
  case (1 current s)
  let ?remaining = "GUAC_SOCKET_OUTPUT_BUFFER_SIZE - length (out_buf s)"
  consider "current = []" | "current \<noteq> []" "?remaining = 0" | "current \<noteq> []" "?remaining \<noteq> 0" by blast
  then show ?case
  proof cases
    case 1
    then have "fd_append current s = (True, s)" by (subst fd_append.simps) simp
    moreover have "device s = take (length (device s)) (fd_stream s)" by (simp add: fd_stream_def)
    ultimately show ?thesis using "1.prems" 1 by auto
  next
    case 2
    obtain r t where t: "guac_socket_fd_flush s = (r, t)" by fastforce
    obtain n where f: "r = 0 \<longrightarrow> fd_stream t = fd_stream s" "device t = take n (fd_stream s)" using fd_flush_prefix [OF t] by blast
    show ?thesis
    proof (cases "r = 0")
      case True
      then have "fd_append current t = (done, s')" using "1.prems" 2 t by (subst (asm) fd_append.simps) (simp add: Let_def)
      then show ?thesis using "1.IH"(1) [OF 2(1) refl 2(2) t [symmetric] refl] f True by simp
    next
      case False
      then have "s' = t" "\<not> done" using "1.prems" 2 t by (subst (asm) fd_append.simps, simp add: Let_def)+
      then show ?thesis using f(2) take_append_prefix [of n "fd_stream s" current] by simp
    qed
  next
    case 3
    let ?t = "s\<lparr>out_buf := out_buf s @ take ?remaining current\<rparr>"
    have "fd_append (drop ?remaining current) ?t = (done, s')"
      using "1.prems" 3 by (subst (asm) fd_append.simps) (simp add: Let_def)
    moreover have "fd_stream ?t @ drop ?remaining current = fd_stream s @ current"
      by (simp add: fd_stream_def)
    ultimately show ?thesis using "1.IH"(2) [OF 3(1) refl 3(2)] by simp
  qed
qed

text \<open>Writes and flushes one after the other, up to the first that fails.\<close>

datatype fd_op = Fd_write "u8 list" | Fd_flush

fun fd_run :: "fd_op list \<Rightarrow> fd_socket \<Rightarrow> bool \<times> fd_socket" where
  "fd_run [] s = (True, s)"
| "fd_run (Fd_write buf # ops) s =
     (let (r, s) = guac_socket_fd_write_buffered buf s in if r < 0 then (False, s) else fd_run ops s)"
| "fd_run (Fd_flush # ops) s =
     (let (r, s) = guac_socket_fd_flush s in if r \<noteq> 0 then (False, s) else fd_run ops s)"

fun fd_bytes :: "fd_op list \<Rightarrow> u8 list" where
  "fd_bytes [] = []"
| "fd_bytes (Fd_write buf # ops) = buf @ fd_bytes ops"
| "fd_bytes (Fd_flush # ops) = fd_bytes ops"

lemma fd_run_prefix:
  "fd_run ops s = (ok, s') \<Longrightarrow>
     (ok \<longrightarrow> fd_stream s' = fd_stream s @ fd_bytes ops) \<and> (\<exists>n. device s' = take n (fd_stream s @ fd_bytes ops)) \<and>
     (fd_ready s \<longrightarrow> ok \<and> fd_ready s')"
proof (induction ops s arbitrary: ok s' rule: fd_run.induct)
  case (1 s)
  have "device s = take (length (device s)) (fd_stream s)" by (simp add: fd_stream_def)
  then show ?case using 1 by auto
next
  case (2 buf ops s)
  obtain fin t where t: "fd_append buf s = (fin, t)" by fastforce
  obtain n where p: "fin \<longrightarrow> fd_stream t = fd_stream s @ buf" "device t = take n (fd_stream s @ buf)"
    using fd_append_prefix [OF t] by blast
  have w: "guac_socket_fd_write_buffered buf s = (if fin then int (length buf) else -1, t)"
    using t by (simp add: guac_socket_fd_write_buffered_def)
  show ?case
  proof (cases fin)
    case True
    then have "fd_run ops t = (ok, s')" using "2.prems" w by simp
    then show ?thesis using "2.IH" [OF w [symmetric] refl] True p(1) fd_append_ready [OF _ t] by auto
  next
    case False
    then have "ok = False" "s' = t" "\<not> fd_ready s" using "2.prems" w fd_append_ready [OF _ t] by auto
    then show ?thesis using p(2) take_append_prefix [of n "fd_stream s @ buf" "fd_bytes ops"] by auto
  qed
next
  case (3 ops s)
  obtain r t where t: "guac_socket_fd_flush s = (r, t)" by fastforce
  obtain n where p: "r = 0 \<longrightarrow> fd_stream t = fd_stream s" "device t = take n (fd_stream s)"
    using fd_flush_prefix [OF t] by blast
  show ?case
  proof (cases "r = 0")
    case True
    then have "fd_run ops t = (ok, s')" using "3.prems" t by simp
    then show ?thesis using "3.IH" [OF t [symmetric] refl] True p(1) fd_flush_ready [OF _ t] by auto
  next
    case False
    then have "ok = False" "s' = t" "\<not> fd_ready s" using "3.prems" t fd_flush_ready [OF _ t] by auto
    then show ?thesis using p(2) take_append_prefix [of n "fd_stream s" "fd_bytes ops"] by auto
  qed
qed

section \<open>Properties\<close>

text \<open>
  C12. A socket over a file descriptor keeps the order of bytes: after any writes and flushes, with partial
  writes of the operating system in between, what the descriptor has accepted followed by the buffer is
  exactly what was written, a flush leaves nothing in the buffer, and when the operating system fails
  the descriptor has accepted a prefix of it.
\<close>

theorem fd_socket_keeps_order:
  "fd_run ops (guac_socket_open results) = (ok, s) \<Longrightarrow>
     (\<exists>n. device s = take n (fd_bytes ops)) \<and>
     (ok \<longrightarrow> device s @ out_buf s = fd_bytes ops \<and>
        (\<forall>r s'. guac_socket_fd_flush s = (r, s') \<longrightarrow> (r = 0 \<longrightarrow> device s' = fd_bytes ops \<and> out_buf s' = []))) \<and>
     (list_all (\<lambda>x. 0 \<le> x) results \<longrightarrow> ok \<and> fst (guac_socket_fd_flush s) = 0)"
proof -
  assume run: "fd_run ops (guac_socket_open results) = (ok, s)"
  have start: "fd_stream (guac_socket_open results) = []" "fd_ready (guac_socket_open results) \<longleftrightarrow> list_all (\<lambda>x. 0 \<le> x) results"
    by (simp_all add: fd_stream_def guac_socket_open_def GUAC_SOCKET_OUTPUT_BUFFER_SIZE_def)
  note r = fd_run_prefix [OF run, unfolded start, simplified]
  have flush: "device s' = fd_bytes ops \<and> out_buf s' = []" if "ok" "guac_socket_fd_flush s = (0, s')" for s'
  proof -
    have "fd_stream s' = fd_stream s" "out_buf s' = []" using fd_flush_prefix [OF that(2)] fd_flush_empties [OF that(2)] by simp_all
    then show ?thesis using r that(1) by (simp add: fd_stream_def)
  qed
  have "fst (guac_socket_fd_flush s) = 0" if "fd_ready s" using fd_flush_ready [OF that prod.collapse [symmetric]] by simp
  then show ?thesis using r flush by (auto simp: fd_stream_def)
qed

theorem fd_socket_keeps_order_witness:
  "\<exists>s. fd_run [Fd_write [1, 2, 3], Fd_flush, Fd_write [4]] (guac_socket_open [2, 0, 5]) = (True, s) \<and>
     device s @ out_buf s = [1, 2, 3, 4]"
proof -
  obtain ok s where run: "fd_run [Fd_write [1, 2, 3], Fd_flush, Fd_write [4]] (guac_socket_open [2, 0, 5]) = (ok, s)" by fastforce
  from fd_socket_keeps_order [OF run] run show ?thesis by simp
qed

lemma fold_write:
  "distinct us \<Longrightarrow>
     (\<forall>u. end_socket (fold (write_chunk_callback buf) us e) u =
        (if u \<in> set us then snd (guac_socket_write (end_socket e u) buf) else end_socket e u)) \<and>
     (\<forall>u. end_active (fold (write_chunk_callback buf) us e) u =
        (if u \<in> set us then end_active e u \<and> fst (guac_socket_write (end_socket e u) buf) = 0 else end_active e u))"
proof (induction us arbitrary: e)
  case (Cons x us)
  have s: "end_socket (write_chunk_callback buf x e) u =
      (if u = x then snd (guac_socket_write (end_socket e x) buf) else end_socket e u)"
    "end_active (write_chunk_callback buf x e) u =
      (if u = x then end_active e u \<and> fst (guac_socket_write (end_socket e x) buf) = 0 else end_active e u)" for u
    by (auto simp: write_chunk_callback_def stop_user_def Let_def split: prod.splits)
  show ?case using Cons.IH [of "write_chunk_callback buf x e"] Cons.prems s by auto
qed simp

text \<open>
  C11. What is written to the broadcast socket of a client reaches every user: after any joining, promotion
  and leaving, each full user's socket is written the bytes once, those whose write fails and no others
  are stopped, and users who are pending or have left are not touched.
\<close>

theorem broadcast_reaches_users:
  assumes "legal_ops ops ([], [])" "fold list_op ops ([], []) = (us, ps)" "run_ops ops (no_users h) = Some c"
  shows "\<exists>e'. guac_socket_broadcast_write_handler (guac_socket_broadcast c) buf e = Some (int (length buf), e') \<and>
    (\<forall>u. if u \<in> set us
         then end_socket e' u = snd (guac_socket_write (end_socket e u) buf) \<and>
              (end_active e' u \<longleftrightarrow> end_active e u \<and> fst (guac_socket_write (end_socket e u) buf) = 0)
         else end_socket e' u = end_socket e u \<and> (end_active e' u \<longleftrightarrow> end_active e u))"
proof -
  have "users_inv (no_users h) ([], [])"
    by (simp add: users_inv_def represents_def owner_ok_def no_users_def INT_MAX_def)
  then have inv: "users_inv c (us, ps)" using users_run [of "no_users h" "([], [])" ops] assms by auto
  have d: "distinct us" and l: "linked (user_heap c) None (full_users c) us None"
    using inv by (simp_all add: users_inv_def represents_def)
  show ?thesis
    using foreach_linked [OF l, of "write_chunk_callback buf" e] fold_write [OF d, of buf e]
    by (auto simp: guac_socket_broadcast_write_handler_def guac_socket_broadcast_def guac_client_foreach_user_def)
qed

definition idle_ends :: user_ends where
  "idle_ends = \<lparr>end_socket = (\<lambda>u. \<lparr>written = [], outcomes = (if u = 2 then [None] else []), flush_outcomes = [], held = 0, ready = [],
     current_timestamp = 0, last_write_timestamp = 0\<rparr>), end_active = (\<lambda>u. True)\<rparr>"

theorem broadcast_reaches_users_witness:
  "\<exists>c e'. run_ops [Join 1 0, Join 2 0, Promote True, Join 3 0] (no_users new_node) = Some c \<and>
     guac_socket_broadcast_write_handler (guac_socket_broadcast c) [7] idle_ends = Some (1, e') \<and>
     \<not> end_active e' 2 \<and> written (end_socket e' 3) = []"
proof -
  have ops: "legal_ops [Join 1 0, Join 2 0, Promote True, Join 3 0] ([], [])"
    "fold list_op [Join 1 0, Join 2 0, Promote True, Join 3 0] ([], []) = ([2, 1], [3])"
    by (simp_all add: INT_MAX_def)
  have "users_inv (no_users new_node) ([], [])"
    by (simp add: users_inv_def represents_def owner_ok_def no_users_def INT_MAX_def)
  then obtain c where c: "run_ops [Join 1 0, Join 2 0, Promote True, Join 3 0] (no_users new_node) = Some c"
    using users_run [OF _ ops(1)] by blast
  have fails: "fst (guac_socket_write (end_socket idle_ends 2) [7]) = 1"
    by (simp add: idle_ends_def guac_socket_write.simps guac_socket_write_once_def)
  obtain e' where e': "guac_socket_broadcast_write_handler (guac_socket_broadcast c) [7] idle_ends = Some (1, e')"
    "\<forall>u. if u \<in> set [2, 1]
         then end_socket e' u = snd (guac_socket_write (end_socket idle_ends u) [7]) \<and>
              (end_active e' u \<longleftrightarrow> end_active idle_ends u \<and> fst (guac_socket_write (end_socket idle_ends u) [7]) = 0)
         else end_socket e' u = end_socket idle_ends u \<and> (end_active e' u \<longleftrightarrow> end_active idle_ends u)"
    using broadcast_reaches_users [OF ops c, of "[7]" idle_ends] by auto
  have "\<not> end_active e' 2" using e'(2) [rule_format, of 2] fails by simp
  moreover have "written (end_socket e' 3) = []" using e'(2) [rule_format, of 3] by (simp add: idle_ends_def)
  ultimately show ?thesis using c e'(1) by blast
qed

section \<open>Characters cut off by a nested socket\<close>

text \<open>
  Flushing a nested socket sends its contents if they end with a whole character; if the last character
  is only partly in the buffer, the flush moves a negative number of bytes or leaves the buffer.
\<close>

theorem nested_flush_needs_whole_characters:
  assumes "0 < nest_written s" "accepting (nest_parent s)"
  shows "(nest_length (nest_buffer s) (nest_written s) 0 = nest_written s \<and> nest_written s < GUAC_SOCKET_NEST_BUFFER_SIZE \<longrightarrow>
           (\<exists>s'. guac_socket_nest_flush s = Inr (0, s') \<and> nest_written s' = 0 \<and>
              written (nest_parent s') = written (nest_parent s) @
                instruction [bytes_of ''nest'', decimal_bytes (nest_index s),
                  takeWhile (\<lambda>b. b \<noteq> 0) (take (nest_written s) (nest_buffer s))])) \<and>
         (nest_length (nest_buffer s) (nest_written s) 0 > nest_written s \<longrightarrow> guac_socket_nest_flush s = Inl Undefined)"
proof -
  obtain r parent where p: "guac_protocol_send_nest (nest_index s)
      (takeWhile (\<lambda>b. b \<noteq> 0) (take (nest_length (nest_buffer s) (nest_written s) 0) (nest_buffer s))) (nest_parent s) = (r, parent)"
    by fastforce
  have w: "r = 0" using writesD(2) [OF writes_nest p assms(2)] .
  note d = writesD(4) [OF writes_nest p w]
  show ?thesis using p w d assms(1) by (auto simp: guac_socket_nest_flush_def Let_def defined_def)
qed

end
