(* ===== verification/Display.thy ===== *)
theory Display
  imports Rect Protocol Streams
begin

text \<open>
  The display of a connection and its layers: \<open>src/src/libguac/display-priv.h\<close>, \<open>display-layer.c\<close>,
  \<open>display-layer-list.c\<close> and the parts of \<open>display.c\<close> that keep the layers.

  A buffer of a layer is the list of its 32-bit pixels, \<open>None\<close> for the null pointer, which an allocation of
  size 0 returns; image data from elsewhere is a list of bytes. Strides are in bytes as in the code; a
  stride of a layer that is not a multiple of the size of a pixel is undefined. Layers
  are known by a number that stands for their address, and the two linked lists of layers are lists of
  these numbers. Contexts of the drawing library are not modelled; the distance between rows it chooses
  for a given width is the argument \<open>stride_for_width\<close>. Allocation succeeds. Coordinates and
  dimensions are those of layers of at most 8192 pixels on each side, for which no sum of the code
  leaves the range of \<open>int\<close>. The functions hold the locks of the frames.
\<close>

unbundle bit_operations_syntax

section \<open>Layers\<close>

definition GUAC_DISPLAY_CELL_SIZE :: int where "GUAC_DISPLAY_CELL_SIZE = 64"
definition GUAC_DISPLAY_CELL_SIZE_EXPONENT :: nat where "GUAC_DISPLAY_CELL_SIZE_EXPONENT = 6"
definition GUAC_DISPLAY_RESIZE_FACTOR :: int where "GUAC_DISPLAY_RESIZE_FACTOR = 64"
definition GUAC_DISPLAY_MAX_WIDTH :: int where "GUAC_DISPLAY_MAX_WIDTH = 8192"
definition GUAC_DISPLAY_MAX_HEIGHT :: int where "GUAC_DISPLAY_MAX_HEIGHT = 8192"
definition GUAC_DISPLAY_LAYER_RAW_BPP :: nat where "GUAC_DISPLAY_LAYER_RAW_BPP = 4"

definition GUAC_DISPLAY_CELL_DIMENSION :: "int \<Rightarrow> int" where
  "GUAC_DISPLAY_CELL_DIMENSION n = cdiv (n + GUAC_DISPLAY_CELL_SIZE - 1) GUAC_DISPLAY_CELL_SIZE"

record guac_display_layer_cell =
  cell_last_frame :: int
  cell_dirty :: guac_rect
  dirty_size :: nat
  related_op :: "nat option"  \<comment> \<open>position of an operation in the current plan\<close>

record guac_display_layer_state =
  ls_width :: int
  ls_height :: int
  ls_parent :: int
  ls_x :: int
  ls_y :: int
  ls_z :: int
  ls_opacity :: int
  ls_touches :: int
  ls_lossless :: bool
  ls_buffer :: "u32 list option"
  ls_buffer_width :: int
  ls_buffer_height :: int
  ls_stride :: nat
  ls_external :: bool
  ls_dirty :: guac_rect
  ls_search_for_copies :: bool

record guac_display_layer =
  layer_index :: int
  layer_opaque :: bool
  last_frame :: guac_display_layer_state
  last_frame_buffer :: int
  pending_frame :: guac_display_layer_state
  frame_cells :: "guac_display_layer_cell list"
  cells_width :: nat
  cells_height :: nat

definition empty_rect :: guac_rect where
  "empty_rect = \<lparr>left = 0, top = 0, right = 0, bottom = 0\<rparr>"

definition new_cell :: guac_display_layer_cell where
  "new_cell = \<lparr>cell_last_frame = 0, cell_dirty = empty_rect, dirty_size = 0, related_op = None\<rparr>"

text \<open>
  \<open>n\<close> pixels of a buffer from the pixel at \<open>x\<close>, \<open>y\<close> on. The address of a rectangle with a
  negative corner overflows, for which the code aborts.
\<close>

definition row_offset :: "guac_display_layer_state \<Rightarrow> int \<Rightarrow> int \<Rightarrow> nat" where
  "row_offset s x y = nat y * (ls_stride s div GUAC_DISPLAY_LAYER_RAW_BPP) + nat x"

definition row_at :: "guac_display_layer_state \<Rightarrow> int \<Rightarrow> int \<Rightarrow> nat \<Rightarrow> u32 list result" where
  "row_at s x y n =
     guac_assert (0 \<le> x \<and> 0 \<le> y)
       (if n = 0 then Inr []
        else (case ls_buffer s of
                None \<Rightarrow> Inl Undefined
              | Some b \<Rightarrow>
                  defined (ls_stride s mod GUAC_DISPLAY_LAYER_RAW_BPP = 0 \<and> row_offset s x y + n \<le> length b)
                    (Inr (take n (drop (row_offset s x y) b)))))"

section \<open>The display\<close>

record guac_display_state =
  state_timestamp :: int
  state_layers :: "nat list"
  hotspot_x :: int
  hotspot_y :: int
  cursor_user :: "nat option"
  cursor_x :: int
  cursor_y :: int
  cursor_mask :: int
  state_frames :: nat

record guac_display =
  layer_at :: "nat \<Rightarrow> guac_display_layer"
  last_state :: guac_display_state
  pending_state :: guac_display_state
  dirty_excluding_mouse :: bool
  default_layer :: nat
  cursor_buffer :: nat
  next_layer :: nat  \<comment> \<open>the address of the next layer that is allocated\<close>
  display_client :: guac_client
  display_socket :: guac_socket

definition set_layer :: "nat \<Rightarrow> guac_display_layer \<Rightarrow> guac_display \<Rightarrow> guac_display" where
  "set_layer l layer d = d\<lparr>layer_at := (layer_at d)(l := layer)\<rparr>"

definition change_pending :: "nat \<Rightarrow> (guac_display_layer_state \<Rightarrow> guac_display_layer_state) \<Rightarrow> guac_display \<Rightarrow> guac_display" where
  "change_pending l f d = set_layer l ((layer_at d l)\<lparr>pending_frame := f (pending_frame (layer_at d l))\<rparr>) d"

definition guac_display_layer_touch :: "nat \<Rightarrow> guac_display \<Rightarrow> guac_display" where
  "guac_display_layer_touch l d = (if l \<noteq> cursor_buffer d then d\<lparr>dirty_excluding_mouse := True\<rparr> else d)"

definition guac_display_layer_get_bounds :: "guac_display_layer \<Rightarrow> guac_rect" where
  "guac_display_layer_get_bounds layer =
     \<lparr>left = 0, top = 0, right = ls_width (pending_frame layer), bottom = ls_height (pending_frame layer)\<rparr>"

definition guac_display_layer_move :: "nat \<Rightarrow> int \<Rightarrow> int \<Rightarrow> guac_display \<Rightarrow> guac_display" where
  "guac_display_layer_move l x y d =
     guac_display_layer_touch l (change_pending l (\<lambda>s. s\<lparr>ls_x := x, ls_y := y\<rparr>) d)"

definition guac_display_layer_stack :: "nat \<Rightarrow> int \<Rightarrow> guac_display \<Rightarrow> guac_display" where
  "guac_display_layer_stack l z d = guac_display_layer_touch l (change_pending l (\<lambda>s. s\<lparr>ls_z := z\<rparr>) d)"

definition guac_display_layer_set_parent :: "nat \<Rightarrow> nat \<Rightarrow> guac_display \<Rightarrow> guac_display" where
  "guac_display_layer_set_parent l parent d =
     guac_display_layer_touch l (change_pending l (\<lambda>s. s\<lparr>ls_parent := layer_index (layer_at d parent)\<rparr>) d)"

definition guac_display_layer_set_opacity :: "nat \<Rightarrow> int \<Rightarrow> guac_display \<Rightarrow> guac_display" where
  "guac_display_layer_set_opacity l opacity d =
     guac_display_layer_touch l (change_pending l (\<lambda>s. s\<lparr>ls_opacity := opacity\<rparr>) d)"

definition guac_display_layer_set_lossless :: "nat \<Rightarrow> bool \<Rightarrow> guac_display \<Rightarrow> guac_display" where
  "guac_display_layer_set_lossless l lossless d =
     guac_display_layer_touch l (change_pending l (\<lambda>s. s\<lparr>ls_lossless := lossless\<rparr>) d)"

definition guac_display_layer_set_multitouch :: "nat \<Rightarrow> int \<Rightarrow> guac_display \<Rightarrow> guac_display" where
  "guac_display_layer_set_multitouch l touches d =
     guac_display_layer_touch l (change_pending l (\<lambda>s. s\<lparr>ls_touches := touches\<rparr>) d)"

section \<open>Resizing\<close>

text \<open>The strides of this copy are in elements.\<close>

fun copy_rows :: "nat \<Rightarrow> nat \<Rightarrow> 'a list \<Rightarrow> nat \<Rightarrow> nat \<Rightarrow> 'a list \<Rightarrow> nat \<Rightarrow> nat \<Rightarrow> 'a list result" where
  "copy_rows 0 len dst dst_stride dst_off src src_stride src_off = Inr dst"
| "copy_rows (Suc n) len dst dst_stride dst_off src src_stride src_off =
     defined (len = 0 \<or> dst_off + len \<le> length dst \<and> src_off + len \<le> length src)
       (copy_rows n len (if len = 0 then dst else overwrite dst dst_off (take len (drop src_off src))) dst_stride (dst_off + dst_stride)
          src src_stride (src_off + src_stride))"

definition guac_imgcpy :: "'a list \<Rightarrow> nat \<Rightarrow> int \<Rightarrow> int \<Rightarrow> 'a list \<Rightarrow> nat \<Rightarrow> int \<Rightarrow> int \<Rightarrow> 'a list result" where
  "guac_imgcpy dst dst_stride dst_width dst_height src src_stride src_width src_height =
     (let width = (if src_width < dst_width then src_width else dst_width);
          height = (if src_height < dst_height then src_height else dst_height)
      in guac_assert (width \<ge> 0) (guac_assert (height \<ge> 0)
           (copy_rows (nat height) (nat width) dst dst_stride 0 src src_stride 0)))"

text \<open>
  The memory behind a buffer. A new buffer of size 0 is NULL, and the copy to it moves nothing, as one
  of the dimensions is 0.
\<close>

definition buffer_pixels :: "u32 list option \<Rightarrow> u32 list" where
  "buffer_pixels b = (case b of None \<Rightarrow> [] | Some b \<Rightarrow> b)"

definition guac_display_layer_buffer_resize ::
  "(int \<Rightarrow> nat) \<Rightarrow> guac_display_layer_state \<Rightarrow> int \<Rightarrow> int \<Rightarrow> guac_display_layer_state result" where
  "guac_display_layer_buffer_resize stride_for_width s width height =
     guac_assert (\<not> ls_external s)
       (let width = cdiv (width + GUAC_DISPLAY_RESIZE_FACTOR - 1) GUAC_DISPLAY_RESIZE_FACTOR * GUAC_DISPLAY_RESIZE_FACTOR;
            height = cdiv (height + GUAC_DISPLAY_RESIZE_FACTOR - 1) GUAC_DISPLAY_RESIZE_FACTOR * GUAC_DISPLAY_RESIZE_FACTOR
        in if width = ls_buffer_width s \<and> height = ls_buffer_height s then Inr s
           else
             let stride = stride_for_width width;
                 buffer = (if nat height * stride = 0 then None
                           else Some (replicate (nat height * (stride div GUAC_DISPLAY_LAYER_RAW_BPP)) 0))
             in defined (stride mod GUAC_DISPLAY_LAYER_RAW_BPP = 0)
                  (bindr (case ls_buffer s of
                            None \<Rightarrow> Inr buffer
                          | Some old \<Rightarrow>
                              defined (ls_stride s mod GUAC_DISPLAY_LAYER_RAW_BPP = 0)
                                (bindr (guac_imgcpy (buffer_pixels buffer) (stride div GUAC_DISPLAY_LAYER_RAW_BPP) width height
                                          old (ls_stride s div GUAC_DISPLAY_LAYER_RAW_BPP) (ls_buffer_width s) (ls_buffer_height s))
                                   (\<lambda>copied. Inr (map_option (\<lambda>_. copied) buffer))))
                     (\<lambda>buffer. Inr (s\<lparr>ls_buffer := buffer, ls_buffer_width := width, ls_buffer_height := height,
                                     ls_stride := stride\<rparr>))))"

definition guac_display_layer_cells_resize :: "guac_display_layer \<Rightarrow> int \<Rightarrow> int \<Rightarrow> guac_display_layer result" where
  "guac_display_layer_cells_resize layer width height =
     (let new_width = GUAC_DISPLAY_CELL_DIMENSION width; new_height = GUAC_DISPLAY_CELL_DIMENSION height
      in if new_width = int (cells_width layer) \<and> new_height = int (cells_height layer) then Inr layer
         else
           bindr (guac_imgcpy (replicate (nat new_width * nat new_height) new_cell) (nat new_width) new_width new_height
                    (frame_cells layer) (cells_width layer) (int (cells_width layer)) (int (cells_height layer)))
             (\<lambda>cells. Inr (layer\<lparr>frame_cells := cells, cells_width := nat new_width, cells_height := nat new_height\<rparr>)))"

definition layer_resize :: "(int \<Rightarrow> nat) \<Rightarrow> guac_display_layer \<Rightarrow> int \<Rightarrow> int \<Rightarrow> guac_display_layer result" where
  "layer_resize stride_for_width layer width height =
     bindr (if \<not> ls_external (pending_frame layer)
            then bindr (guac_display_layer_buffer_resize stride_for_width (pending_frame layer) width height)
                   (\<lambda>s. Inr (layer\<lparr>pending_frame := s\<rparr>))
            else Inr layer)
       (\<lambda>layer. bindr (guac_display_layer_cells_resize layer width height)
          (\<lambda>layer. Inr (layer\<lparr>pending_frame := (pending_frame layer)\<lparr>ls_width := width, ls_height := height\<rparr>\<rparr>)))"

definition guac_display_layer_resize :: "(int \<Rightarrow> nat) \<Rightarrow> nat \<Rightarrow> int \<Rightarrow> int \<Rightarrow> guac_display \<Rightarrow> guac_display result" where
  "guac_display_layer_resize stride_for_width l width height d =
     bindr (layer_resize stride_for_width (layer_at d l) width height)
       (\<lambda>layer. Inr (guac_display_layer_touch l (set_layer l layer d)))"

section \<open>Drawing to the buffer of a layer\<close>

text \<open>
  While a context is open, its buffer is the buffer of the layer, unless the caller has replaced the
  pointer by one to a buffer of its own or by NULL, which \<open>ctx_replaced\<close> notes.
\<close>

record guac_display_layer_raw_context =
  ctx_buffer :: "u32 list option"
  ctx_replaced :: bool
  ctx_stride :: nat
  ctx_dirty :: guac_rect
  ctx_hint_from :: "nat option"
  ctx_bounds :: guac_rect

fun fill_rows :: "nat \<Rightarrow> nat \<Rightarrow> u32 \<Rightarrow> nat \<Rightarrow> nat \<Rightarrow> u32 list \<Rightarrow> u32 list result" where
  "fill_rows 0 len color stride off b = Inr b"
| "fill_rows (Suc n) len color stride off b =
     defined (len = 0 \<or> off + len \<le> length b)
       (fill_rows n len color stride (off + stride) (if len = 0 then b else overwrite b off (replicate len color)))"

text \<open>The address of the upper left corner of a rectangle in a buffer, in pixels.\<close>

definition rect_offset :: "guac_rect \<Rightarrow> nat \<Rightarrow> nat" where
  "rect_offset r stride = nat (top r) * (stride div GUAC_DISPLAY_LAYER_RAW_BPP) + nat (left r)"

definition guac_display_layer_raw_context_set ::
  "guac_display_layer_raw_context \<Rightarrow> guac_rect \<Rightarrow> u32 \<Rightarrow> guac_display_layer_raw_context result" where
  "guac_display_layer_raw_context_set context dst color =
     guac_assert (0 \<le> left dst \<and> 0 \<le> top dst)
       (case ctx_buffer context of
          None \<Rightarrow> defined (guac_rect_is_empty dst) (Inr (context\<lparr>ctx_dirty := guac_rect_extend (ctx_dirty context) dst\<rparr>))
        | Some b \<Rightarrow>
            defined (guac_rect_is_empty dst \<or> ctx_stride context mod GUAC_DISPLAY_LAYER_RAW_BPP = 0)
           (bindr (fill_rows (nat (bottom dst - top dst)) (nat (right dst - left dst)) color
                     (ctx_stride context div GUAC_DISPLAY_LAYER_RAW_BPP) (rect_offset dst (ctx_stride context)) b)
              (\<lambda>b. Inr (context\<lparr>ctx_buffer := Some b, ctx_dirty := guac_rect_extend (ctx_dirty context) dst\<rparr>))))"

text \<open>
  The pixel at an offset of image data, which need not be aligned; processors store the lower bytes
  first. \<open>gather_rows\<close> is what \<open>n\<close> copies of \<open>len\<close> pixels read.
\<close>

definition pixel_at :: "u8 list \<Rightarrow> nat \<Rightarrow> u32" where
  "pixel_at img off = word_rcat (rev (take GUAC_DISPLAY_LAYER_RAW_BPP (drop off img)))"

fun gather_rows :: "nat \<Rightarrow> nat \<Rightarrow> u8 list \<Rightarrow> nat \<Rightarrow> nat \<Rightarrow> u32 list result" where
  "gather_rows 0 len img stride off = Inr []"
| "gather_rows (Suc n) len img stride off =
     defined (len = 0 \<or> off + len * GUAC_DISPLAY_LAYER_RAW_BPP \<le> length img)
       (bindr (gather_rows n len img stride (off + stride)) (\<lambda>rows.
          Inr (map (\<lambda>k. pixel_at img (off + k * GUAC_DISPLAY_LAYER_RAW_BPP)) [0..<len] @ rows)))"

definition guac_display_layer_raw_context_put ::
  "guac_display_layer_raw_context \<Rightarrow> guac_rect \<Rightarrow> u8 list \<Rightarrow> nat \<Rightarrow> guac_display_layer_raw_context result" where
  "guac_display_layer_raw_context_put context dst buffer stride =
     guac_assert (0 \<le> left dst \<and> 0 \<le> top dst)
       (case ctx_buffer context of
          None \<Rightarrow> defined (guac_rect_is_empty dst) (Inr (context\<lparr>ctx_dirty := guac_rect_extend (ctx_dirty context) dst\<rparr>))
        | Some b \<Rightarrow>
            let height = nat (bottom dst - top dst); width = nat (guac_rect_width dst) in
            defined (guac_rect_is_empty dst \<or> ctx_stride context mod GUAC_DISPLAY_LAYER_RAW_BPP = 0)
           (bindr (gather_rows height width buffer stride 0) (\<lambda>rows.
            bindr (copy_rows height width
                     b (ctx_stride context div GUAC_DISPLAY_LAYER_RAW_BPP) (rect_offset dst (ctx_stride context))
                     rows width 0)
              (\<lambda>b. Inr (context\<lparr>ctx_buffer := Some b, ctx_dirty := guac_rect_extend (ctx_dirty context) dst\<rparr>)))))"

definition guac_display_layer_open_raw :: "nat \<Rightarrow> guac_display \<Rightarrow> guac_display_layer_raw_context" where
  "guac_display_layer_open_raw l d =
     (let s = pending_frame (layer_at d l)
      in \<lparr>ctx_buffer = ls_buffer s, ctx_replaced = False, ctx_stride = ls_stride s, ctx_dirty = empty_rect,
          ctx_hint_from = Some l, ctx_bounds = \<lparr>left = 0, top = 0, right = ls_buffer_width s, bottom = ls_buffer_height s\<rparr>\<rparr>)"

definition guac_display_layer_close_raw :: "nat \<Rightarrow> guac_display_layer_raw_context \<Rightarrow> guac_display \<Rightarrow> guac_display" where
  "guac_display_layer_close_raw l context d =
     (let s = pending_frame (layer_at d l);
          replaced = (ctx_replaced context \<and> \<not> (ctx_buffer context = None \<and> ls_buffer s = None));
          s = s\<lparr>ls_buffer := ctx_buffer context\<rparr>;
          s = (if replaced \<and> \<not> ls_external s then s\<lparr>ls_external := True\<rparr> else s);
          s = (if ls_external s
               then
                 let width = guac_rect_width (ctx_bounds context);
                     width = (if width > GUAC_DISPLAY_MAX_WIDTH then GUAC_DISPLAY_MAX_WIDTH else width);
                     height = guac_rect_height (ctx_bounds context);
                     height = (if height > GUAC_DISPLAY_MAX_HEIGHT then GUAC_DISPLAY_MAX_HEIGHT else height)
                 in s\<lparr>ls_buffer_width := width, ls_buffer_height := height, ls_stride := ctx_stride context,
                      ls_width := width, ls_height := height\<rparr>
               else s);
          s = s\<lparr>ls_dirty := guac_rect_extend (ls_dirty s) (ctx_dirty context)\<rparr>;
          d = guac_display_layer_touch l (change_pending l (\<lambda>_. s) d)
      in case ctx_hint_from context of
           None \<Rightarrow> d
         | Some h \<Rightarrow> change_pending h (\<lambda>s. s\<lparr>ls_search_for_copies := True\<rparr>) d)"

section \<open>The lists of layers\<close>

definition zero_state :: guac_display_layer_state where
  "zero_state = \<lparr>ls_width = 0, ls_height = 0, ls_parent = 0, ls_x = 0, ls_y = 0, ls_z = 0, ls_opacity = 0,
     ls_touches = 0, ls_lossless = False, ls_buffer = None, ls_buffer_width = 0, ls_buffer_height = 0, ls_stride = 0,
     ls_external = False, ls_dirty = empty_rect, ls_search_for_copies = False\<rparr>"

definition guac_display_layer_state_init :: "(int \<Rightarrow> nat) \<Rightarrow> guac_display_layer_state result" where
  "guac_display_layer_state_init stride_for_width =
     guac_display_layer_buffer_resize stride_for_width
       (zero_state\<lparr>ls_width := GUAC_DISPLAY_RESIZE_FACTOR, ls_height := GUAC_DISPLAY_RESIZE_FACTOR, ls_opacity := 255, ls_parent := 0\<rparr>)
       GUAC_DISPLAY_RESIZE_FACTOR GUAC_DISPLAY_RESIZE_FACTOR"

definition guac_display_add_layer :: "(int \<Rightarrow> nat) \<Rightarrow> int \<Rightarrow> bool \<Rightarrow> guac_display \<Rightarrow> (nat \<times> guac_display) result" where
  "guac_display_add_layer stride_for_width layer opaque d =
     bindr (guac_display_layer_state_init stride_for_width) (\<lambda>s.
     bindr (guac_client_alloc_buffer (display_client d)) (\<lambda>(buffer, client).
     bindr (guac_display_layer_cells_resize
              \<lparr>layer_index = layer, layer_opaque = opaque, last_frame = s, last_frame_buffer = buffer, pending_frame = s,
               frame_cells = [], cells_width = 0, cells_height = 0\<rparr> (ls_width s) (ls_height s)) (\<lambda>display_layer.
     let l = next_layer d; d = set_layer l display_layer (d\<lparr>display_client := client, next_layer := l + 1\<rparr>)
     in Inr (l, d\<lparr>pending_state := (pending_state d)\<lparr>state_layers := l # state_layers (pending_state d)\<rparr>\<rparr>))))"

text \<open>
  A layer that is not in a list has no predecessor in it, and is then taken for the head of the list if
  the list has elements.
\<close>

definition unlink_layer :: "nat \<Rightarrow> nat list \<Rightarrow> nat list result" where
  "unlink_layer l ls = (if l \<in> set ls then Inr (remove1 l ls) else guac_assert (ls = []) (Inr ls))"

definition guac_display_remove_layer :: "nat \<Rightarrow> guac_display \<Rightarrow> guac_display result" where
  "guac_display_remove_layer l d =
     bindr (unlink_layer l (state_layers (pending_state d))) (\<lambda>pending.
     bindr (unlink_layer l (state_layers (last_state d))) (\<lambda>last.
     bindr (guac_client_free_buffer (display_client d) (last_frame_buffer (layer_at d l))) (\<lambda>client.
     Inr (d\<lparr>pending_state := (pending_state d)\<lparr>state_layers := pending\<rparr>,
            last_state := (last_state d)\<lparr>state_layers := last\<rparr>, display_client := client\<rparr>))))"

definition guac_display_alloc_layer :: "(int \<Rightarrow> nat) \<Rightarrow> bool \<Rightarrow> guac_display \<Rightarrow> (nat \<times> guac_display) result" where
  "guac_display_alloc_layer stride_for_width opaque d =
     bindr (guac_client_alloc_layer (display_client d)) (\<lambda>(layer, client).
       guac_display_add_layer stride_for_width layer opaque (d\<lparr>display_client := client\<rparr>))"

definition guac_display_alloc_buffer :: "(int \<Rightarrow> nat) \<Rightarrow> bool \<Rightarrow> guac_display \<Rightarrow> (nat \<times> guac_display) result" where
  "guac_display_alloc_buffer stride_for_width opaque d =
     bindr (guac_client_alloc_buffer (display_client d)) (\<lambda>(layer, client).
       guac_display_add_layer stride_for_width layer opaque (d\<lparr>display_client := client\<rparr>))"

definition guac_display_free_layer :: "nat \<Rightarrow> guac_display \<Rightarrow> guac_display result" where
  "guac_display_free_layer l d =
     (let layer = layer_index (layer_at d l) in
      bindr (guac_display_remove_layer l d) (\<lambda>d.
        if layer \<noteq> 0
        then
          let d = d\<lparr>display_socket := snd (guac_protocol_send_dispose layer (display_socket d))\<rparr>
          in bindr (if layer > 0 then guac_client_free_layer (display_client d) layer
                    else guac_client_free_buffer (display_client d) layer)
               (\<lambda>client. Inr (d\<lparr>display_client := client\<rparr>))
        else Inr d))"

text \<open>A new display, without the worker threads.\<close>

definition zero_display_state :: "int \<Rightarrow> guac_display_state" where
  "zero_display_state timestamp =
     \<lparr>state_timestamp = timestamp, state_layers = [], hotspot_x = 0, hotspot_y = 0, cursor_user = None,
      cursor_x = 0, cursor_y = 0, cursor_mask = 0, state_frames = 0\<rparr>"

definition guac_display_alloc :: "(int \<Rightarrow> nat) \<Rightarrow> int \<Rightarrow> (nat \<Rightarrow> guac_display_layer) \<Rightarrow> guac_client \<Rightarrow> guac_socket \<Rightarrow> guac_display result" where
  "guac_display_alloc stride_for_width timestamp memory client socket =
     bindr (guac_display_add_layer stride_for_width 0 True
              \<lparr>layer_at = memory, last_state = zero_display_state timestamp, pending_state = zero_display_state timestamp,
               dirty_excluding_mouse = False, default_layer = 0, cursor_buffer = 0, next_layer = 0,
               display_client = client, display_socket = socket\<rparr>)
       (\<lambda>(l, d). bindr (guac_display_alloc_buffer stride_for_width False (d\<lparr>default_layer := l\<rparr>))
          (\<lambda>(b, d). Inr (d\<lparr>cursor_buffer := b\<rparr>)))"

text \<open>Freeing the layers of a display that is stopped.\<close>

lemma free_layer_lists:
  assumes "guac_display_free_layer l d = Inr d'"
  shows "unlink_layer l (state_layers (pending_state d)) = Inr (state_layers (pending_state d'))"
    "unlink_layer l (state_layers (last_state d)) = Inr (state_layers (last_state d'))"
  using assms by (auto simp: guac_display_free_layer_def guac_display_remove_layer_def Let_def fault_iff split: if_splits)

lemma unlink_shorter: "unlink_layer l ls = Inr ls' \<Longrightarrow> l \<in> set ls \<Longrightarrow> length ls' < length ls"
  using length_pos_if_in_set [of l ls] by (auto simp: unlink_layer_def length_remove1 split: if_splits)

function free_pending_layers :: "guac_display \<Rightarrow> guac_display result" where
  "free_pending_layers d =
     (case state_layers (pending_state d) of
        [] \<Rightarrow> Inr d
      | l # _ \<Rightarrow> (case guac_display_free_layer l d of Inl e \<Rightarrow> Inl e | Inr d' \<Rightarrow> free_pending_layers d'))"
  by pat_completeness auto
termination
proof (relation "measure (\<lambda>d. length (state_layers (pending_state d)))")
  fix d l ls d'
  assume "state_layers (pending_state d) = l # ls" "guac_display_free_layer l d = Inr d'"
  then show "(d', d) \<in> measure (\<lambda>d. length (state_layers (pending_state d)))"
    using unlink_shorter [OF free_layer_lists(1) [of l d d']] by simp
qed simp

function free_last_layers :: "guac_display \<Rightarrow> guac_display result" where
  "free_last_layers d =
     (case state_layers (last_state d) of
        [] \<Rightarrow> Inr d
      | l # _ \<Rightarrow> (case guac_display_free_layer l d of Inl e \<Rightarrow> Inl e | Inr d' \<Rightarrow> free_last_layers d'))"
  by pat_completeness auto
termination
proof (relation "measure (\<lambda>d. length (state_layers (last_state d)))")
  fix d l ls d'
  assume "state_layers (last_state d) = l # ls" "guac_display_free_layer l d = Inr d'"
  then show "(d', d) \<in> measure (\<lambda>d. length (state_layers (last_state d)))"
    using unlink_shorter [OF free_layer_lists(2) [of l d d']] by simp
qed simp

declare free_pending_layers.simps [simp del] free_last_layers.simps [simp del]

definition free_layers :: "guac_display \<Rightarrow> guac_display result" where
  "free_layers d = bindr (free_pending_layers d) free_last_layers"

section \<open>Pixels\<close>

definition px :: "guac_display_layer_state \<Rightarrow> int \<Rightarrow> int \<Rightarrow> u32" where
  "px s x y = (case ls_buffer s of None \<Rightarrow> 0 | Some b \<Rightarrow> b ! row_offset s x y)"

definition bounds :: "guac_display_layer_state \<Rightarrow> guac_rect" where
  "bounds s = \<lparr>left = 0, top = 0, right = ls_width s, bottom = ls_height s\<rparr>"

lemma bounds_sel [simp]:
  "left (bounds s) = 0" "top (bounds s) = 0" "right (bounds s) = ls_width s" "bottom (bounds s) = ls_height s"
  by (simp_all add: bounds_def)

text \<open>A state whose buffer holds all of its pixels.\<close>

definition state_ok :: "guac_display_layer_state \<Rightarrow> bool" where
  "state_ok s \<longleftrightarrow>
     0 \<le> ls_width s \<and> ls_width s \<le> ls_buffer_width s \<and> ls_buffer_width s \<le> GUAC_DISPLAY_MAX_WIDTH \<and>
     0 \<le> ls_height s \<and> ls_height s \<le> ls_buffer_height s \<and> ls_buffer_height s \<le> GUAC_DISPLAY_MAX_HEIGHT \<and>
     ls_stride s mod 4 = 0 \<and> 4 * nat (ls_buffer_width s) \<le> ls_stride s \<and>
     (\<exists>b. ls_buffer s = Some b \<and> nat (ls_buffer_height s) * (ls_stride s div 4) \<le> length b)"

text \<open>A state that may also have lost its buffer to a width or height of 0.\<close>

definition state_fits :: "guac_display_layer_state \<Rightarrow> bool" where
  "state_fits s \<longleftrightarrow>
     state_ok s \<or>
     (ls_buffer s = None \<and> (ls_buffer_width s = 0 \<or> ls_buffer_height s = 0) \<and>
      0 \<le> ls_width s \<and> ls_width s \<le> ls_buffer_width s \<and> ls_buffer_width s \<le> GUAC_DISPLAY_MAX_WIDTH \<and>
      0 \<le> ls_height s \<and> ls_height s \<le> ls_buffer_height s \<and> ls_buffer_height s \<le> GUAC_DISPLAY_MAX_HEIGHT \<and>
      ls_stride s mod 4 = 0 \<and> 4 * nat (ls_buffer_width s) \<le> ls_stride s)"

lemma state_fits_ok: "state_fits s \<Longrightarrow> 0 < ls_width s \<Longrightarrow> 0 < ls_height s \<Longrightarrow> state_ok s"
  by (auto simp: state_fits_def)

lemma state_okD:
  assumes "state_ok s"
  shows "0 \<le> ls_width s" "ls_width s \<le> 8192" "0 \<le> ls_height s" "ls_height s \<le> 8192"
    "ls_width s \<le> ls_buffer_width s" "ls_height s \<le> ls_buffer_height s"
  using assms by (auto simp: state_ok_def GUAC_DISPLAY_MAX_WIDTH_def GUAC_DISPLAY_MAX_HEIGHT_def)

lemma offset_bound:
  assumes "state_ok s" "ls_buffer s = Some b" "0 \<le> x" "x + int n \<le> ls_buffer_width s" "0 \<le> y" "y < ls_buffer_height s"
  shows "row_offset s x y + n \<le> length b"
proof -
  let ?S = "ls_stride s div 4"
  have "nat (ls_buffer_width s) \<le> ?S" using assms(1) by (auto simp: state_ok_def)
  moreover have "nat x + n \<le> nat (ls_buffer_width s)" using assms by linarith
  ultimately have "nat y * ?S + nat x + n \<le> Suc (nat y) * ?S" by simp
  also have "\<dots> \<le> nat (ls_buffer_height s) * ?S" using assms by (intro mult_right_mono) auto
  also have "\<dots> \<le> length b" using assms by (auto simp: state_ok_def)
  finally show ?thesis by (simp add: row_offset_def GUAC_DISPLAY_LAYER_RAW_BPP_def)
qed

lemma row_at_px:
  assumes "state_ok s" "0 \<le> x" "x + int n \<le> ls_buffer_width s" "0 \<le> y" "y < ls_buffer_height s"
  shows "row_at s x y n = Inr (map (\<lambda>k. px s (x + int k) y) [0..<n])"
proof -
  obtain b where b: "ls_buffer s = Some b" using assms by (auto simp: state_ok_def)
  note o = offset_bound [OF assms(1) b assms(2-5)]
  have m: "ls_stride s mod 4 = 0" using assms by (simp add: state_ok_def)
  have "take n (drop (row_offset s x y) b) = map (\<lambda>k. px s (x + int k) y) [0..<n]"
    using o assms by (intro nth_equalityI) (auto simp: px_def b row_offset_def nat_add_distrib add.assoc)
  then show ?thesis using assms b o m by (simp add: row_at_def GUAC_DISPLAY_LAYER_RAW_BPP_def)
qed

section \<open>Copies of rows\<close>

lemma nth_overwrite:
  "off + length xs \<le> length b \<Longrightarrow> i < length b \<Longrightarrow>
     overwrite b off xs ! i = (if off \<le> i \<and> i < off + length xs then xs ! (i - off) else b ! i)"
  by (auto simp: overwrite_def nth_append)

lemma fill_copy_rows: "fill_rows n len color stride off b = copy_rows n len b stride off (replicate len color) 0 0"
proof (induction n arbitrary: off b)
  case (Suc n)
  show ?case using Suc by (cases "len = 0") (simp_all add: defined_def)
qed simp

lemma copy_rows_run:
  assumes "\<And>k. k < n \<Longrightarrow> dst_off + k * ds + len \<le> length dst" "\<And>k. k < n \<Longrightarrow> src_off + k * ss + len \<le> length src" "len \<le> ds"
  shows "\<exists>b. copy_rows n len dst ds dst_off src ss src_off = Inr b \<and> length b = length dst \<and>
    (\<forall>k < n. \<forall>j < len. b ! (dst_off + k * ds + j) = src ! (src_off + k * ss + j)) \<and>
    (\<forall>i < length dst. (\<forall>k < n. i < dst_off + k * ds \<or> dst_off + k * ds + len \<le> i) \<longrightarrow> b ! i = dst ! i)"
  using assms
proof (induction n arbitrary: dst dst_off src_off)
  case (Suc n)
  define dst1 where "dst1 = (if len = 0 then dst else overwrite dst dst_off (take len (drop src_off src)))"
  have fits: "dst_off + len \<le> length dst" "src_off + len \<le> length src" using Suc.prems(1,2) [of 0] by simp_all
  then have l1: "length dst1 = length dst" by (simp add: dst1_def)
  have n1: "dst1 ! i = (if dst_off \<le> i \<and> i < dst_off + len then src ! (src_off + (i - dst_off)) else dst ! i)"
    if "i < length dst" for i
    using that fits by (auto simp: dst1_def nth_overwrite)
  have "\<exists>b. copy_rows n len dst1 ds (dst_off + ds) src ss (src_off + ss) = Inr b \<and> length b = length dst1 \<and>
    (\<forall>k < n. \<forall>j < len. b ! (dst_off + ds + k * ds + j) = src ! (src_off + ss + k * ss + j)) \<and>
    (\<forall>i < length dst1. (\<forall>k < n. i < dst_off + ds + k * ds \<or> dst_off + ds + k * ds + len \<le> i) \<longrightarrow> b ! i = dst1 ! i)"
    using Suc.prems(1,2) [of "Suc _"] Suc.prems(3) l1 by (intro Suc.IH) (auto simp: add.assoc)
  then obtain b where b: "copy_rows n len dst1 ds (dst_off + ds) src ss (src_off + ss) = Inr b" "length b = length dst"
    "\<forall>k < n. \<forall>j < len. b ! (dst_off + ds + k * ds + j) = src ! (src_off + ss + k * ss + j)"
    "\<forall>i < length dst. (\<forall>k < n. i < dst_off + ds + k * ds \<or> dst_off + ds + k * ds + len \<le> i) \<longrightarrow> b ! i = dst1 ! i"
    using l1 by auto
  have first: "b ! (dst_off + j) = src ! (src_off + j)" if "j < len" for j
  proof -
    have "dst_off + j < length dst" "\<forall>k < n. dst_off + j < dst_off + ds + k * ds" using that fits Suc.prems(3) by auto
    then show ?thesis using b(4) n1 [of "dst_off + j"] that by auto
  qed
  have "b ! (dst_off + k * ds + j) = src ! (src_off + k * ss + j)" if "k < Suc n" "j < len" for k j
  proof (cases k)
    case 0
    then show ?thesis using first that by simp
  next
    case (Suc k')
    then have "k' < n" using that by simp
    then show ?thesis using b(3) that Suc by (simp add: add.assoc)
  qed
  moreover have "b ! i = dst ! i" if i: "i < length dst" "\<forall>k < Suc n. i < dst_off + k * ds \<or> dst_off + k * ds + len \<le> i" for i
  proof -
    have "\<forall>k < n. i < dst_off + ds + k * ds \<or> dst_off + ds + k * ds + len \<le> i" using i(2) [rule_format, of "Suc _"] by (simp add: add.assoc)
    then have "b ! i = dst1 ! i" using b(4) i(1) by blast
    also have "\<dots> = dst ! i" using n1 [OF i(1)] i(2) [rule_format, of 0] by auto
    finally show ?thesis .
  qed
  ultimately show ?case using b(1,2) fits by (intro exI [of _ b]) (simp add: dst1_def)
qed simp

lemma index_unique:
  fixes S :: nat
  assumes "x < S" "x' < S" "y * S + x = y' * S + x'"
  shows "y = y' \<and> x = x'"
proof -
  have "(y * S + x) div S = y" "(y' * S + x') div S = y'" using assms(1,2) by simp_all
  then have "y = y'" using assms(3) by metis
  then show ?thesis using assms(3) by simp
qed

text \<open>Writing a rectangle of a buffer changes exactly the pixels of the rectangle.\<close>

lemma write_rect:
  assumes ok: "state_ok s" and b: "ls_buffer s = Some b"
    and r: "0 \<le> left r" "left r \<le> right r" "right r \<le> ls_buffer_width s" "0 \<le> top r" "top r \<le> bottom r" "bottom r \<le> ls_buffer_height s"
    and src: "\<And>k. k < nat (bottom r - top r) \<Longrightarrow> src_off + k * ss + nat (right r - left r) \<le> length src"
  shows "\<exists>b'. copy_rows (nat (bottom r - top r)) (nat (right r - left r)) b (ls_stride s div 4) (rect_offset r (ls_stride s)) src ss src_off = Inr b' \<and>
    length b' = length b \<and>
    (\<forall>x y. 0 \<le> x \<longrightarrow> x < ls_buffer_width s \<longrightarrow> 0 \<le> y \<longrightarrow> y < ls_buffer_height s \<longrightarrow>
       b' ! row_offset s x y =
         (if (x, y) \<in> pixels r then src ! (src_off + nat (y - top r) * ss + nat (x - left r)) else b ! row_offset s x y))"
proof -
  let ?S = "ls_stride s div 4"
  define n where "n = nat (bottom r - top r)"
  define len where "len = nat (right r - left r)"
  define off where "off = rect_offset r (ls_stride s)"
  have offs: "off = nat (top r) * ?S + nat (left r)" by (simp add: off_def rect_offset_def GUAC_DISPLAY_LAYER_RAW_BPP_def)
  have S: "nat (ls_buffer_width s) \<le> ?S" using ok by (auto simp: state_ok_def)
  have fits: "nat (left r) + len \<le> ?S" using r S by (simp add: len_def)
  have row: "off + k * ?S + len = row_offset s (left r) (top r + int k) + len" for k
    using r by (simp add: offs row_offset_def GUAC_DISPLAY_LAYER_RAW_BPP_def nat_add_distrib add_mult_distrib)
  have dst: "off + k * ?S + len \<le> length b" if "k < n" for k
    unfolding row using that r by (intro offset_bound [OF ok b]) (auto simp: n_def len_def)
  have "len \<le> ?S" using fits by simp
  note run = copy_rows_run [OF dst src [folded n_def len_def] this]
  obtain b' where b': "copy_rows n len b ?S off src ss src_off = Inr b'" "length b' = length b"
    "\<forall>k < n. \<forall>j < len. b' ! (off + k * ?S + j) = src ! (src_off + k * ss + j)"
    "\<forall>i < length b. (\<forall>k < n. i < off + k * ?S \<or> off + k * ?S + len \<le> i) \<longrightarrow> b' ! i = b ! i"
    using run [of n] by auto
  have "b' ! row_offset s x y =
      (if (x, y) \<in> pixels r then src ! (src_off + nat (y - top r) * ss + nat (x - left r)) else b ! row_offset s x y)"
    if p: "0 \<le> x" "x < ls_buffer_width s" "0 \<le> y" "y < ls_buffer_height s" for x y
  proof (cases "(x, y) \<in> pixels r")
    case True
    let ?k = "nat (y - top r)" and ?j = "nat (x - left r)"
    have "?k < n" "?j < len" using True by (auto simp: n_def len_def)
    moreover have "row_offset s x y = off + ?k * ?S + ?j"
    proof -
      have "nat y = nat (top r) + ?k" "nat x = nat (left r) + ?j" using True r by auto
      then show ?thesis by (simp add: row_offset_def offs GUAC_DISPLAY_LAYER_RAW_BPP_def add_mult_distrib)
    qed
    ultimately show ?thesis using b'(3) True by simp
  next
    case False
    have i: "row_offset s x y < length b" using offset_bound [OF ok b, of x 1 y] p by simp
    have "row_offset s x y < off + k * ?S \<or> off + k * ?S + len \<le> row_offset s x y" if k: "k < n" for k
    proof (rule ccontr)
      assume "\<not> ?thesis"
      then obtain j where j: "j < len" "row_offset s x y = off + k * ?S + j"
        by (metis add_less_cancel_left le_add_diff_inverse not_less)
      then have "nat y * ?S + nat x = (nat (top r) + k) * ?S + (nat (left r) + j)"
        by (simp add: row_offset_def offs GUAC_DISPLAY_LAYER_RAW_BPP_def add_mult_distrib)
      moreover have "nat x < ?S" "nat (left r) + j < ?S" using p S fits j(1) by linarith+
      ultimately have "nat y = nat (top r) + k" "nat x = nat (left r) + j" using index_unique by blast+
      then have "(x, y) \<in> pixels r" using p r j(1) k by (auto simp: n_def len_def)
      then show False using False by simp
    qed
    then have "b' ! row_offset s x y = b ! row_offset s x y" using b'(4) i by blast
    then show ?thesis by (simp only: False if_False)
  qed
  then show ?thesis using b'(1,2) unfolding n_def len_def off_def by blast
qed

section \<open>Well-formed layers\<close>

definition layer_ok :: "guac_display_layer \<Rightarrow> bool" where
  "layer_ok layer \<longleftrightarrow> state_ok (last_frame layer) \<and> state_ok (pending_frame layer) \<and>
     length (frame_cells layer) = cells_width layer * cells_height layer \<and>
     ls_width (pending_frame layer) \<le> 64 * int (cells_width layer) \<and>
     ls_height (pending_frame layer) \<le> 64 * int (cells_height layer) \<and>
     (\<forall>c \<in> set (frame_cells layer). dirty_size c = 0)"

text \<open>A well-formed layer, except that it may have a width or height of 0 and then no buffer.\<close>

definition layer_fits :: "guac_display_layer \<Rightarrow> bool" where
  "layer_fits layer \<longleftrightarrow> state_ok (last_frame layer) \<and> state_fits (pending_frame layer) \<and>
     length (frame_cells layer) = cells_width layer * cells_height layer \<and>
     ls_width (pending_frame layer) \<le> 64 * int (cells_width layer) \<and>
     ls_height (pending_frame layer) \<le> 64 * int (cells_height layer) \<and>
     (\<forall>c \<in> set (frame_cells layer). dirty_size c = 0)"

lemma layer_ok_fits: "layer_ok layer \<Longrightarrow> layer_fits layer"
  by (simp add: layer_ok_def layer_fits_def state_fits_def)

lemma layer_fits_ok:
  "layer_fits layer \<Longrightarrow> 0 < ls_width (pending_frame layer) \<Longrightarrow> 0 < ls_height (pending_frame layer) \<Longrightarrow> layer_ok layer"
  by (simp add: layer_ok_def layer_fits_def state_fits_ok)

definition stride_fits :: "(int \<Rightarrow> nat) \<Rightarrow> bool" where
  "stride_fits f \<longleftrightarrow> (\<forall>w \<ge> 0. f w mod 4 = 0 \<and> 4 * nat w \<le> f w)"

lemma round_up_64:
  fixes w :: int
  assumes "0 \<le> w" "w \<le> 8192"
  shows "w \<le> cdiv (63 + w) 64 * 64" "0 \<le> cdiv (63 + w) 64" "cdiv (63 + w) 64 * 64 \<le> 8192"
proof -
  have c: "cdiv (63 + w) 64 = (63 + w) div 64" using assms by simp
  have "w \<le> (63 + w) div 64 * 64" by presburger
  moreover have "0 \<le> (63 + w) div 64" using assms by presburger
  moreover have "(63 + w) div 64 * 64 \<le> 8192" using assms by presburger
  ultimately show "w \<le> cdiv (63 + w) 64 * 64" "0 \<le> cdiv (63 + w) 64" "cdiv (63 + w) 64 * 64 \<le> 8192"
    by (simp_all only: c)
qed

text \<open>Resizing keeps the image, clears what is new, and never fails.\<close>

lemma buffer_resize_run:
  assumes ok: "state_fits s" "\<not> ls_external s" and stride: "stride_fits f"
    and dims: "0 \<le> w" "w \<le> 8192" "0 \<le> h" "h \<le> 8192"
  shows "\<exists>s'. guac_display_layer_buffer_resize f s w h = Inr s' \<and> state_fits (s'\<lparr>ls_width := w, ls_height := h\<rparr>) \<and>
    (\<forall>x y. 0 \<le> x \<longrightarrow> x < min w (ls_width s) \<longrightarrow> 0 \<le> y \<longrightarrow> y < min h (ls_height s) \<longrightarrow> px s' x y = px s x y) \<and>
    (0 < ls_width s \<longrightarrow> 0 < ls_height s \<longrightarrow> h = 0 \<or> w = 0 \<and> f 0 = 0 \<longrightarrow> ls_buffer s' = None) \<and>
    ls_width s' = ls_width s \<and> ls_height s' = ls_height s \<and> ls_external s' = ls_external s \<and> ls_dirty s' = ls_dirty s"
proof -
  define W where "W = cdiv (63 + w) 64 * 64"
  define H where "H = cdiv (63 + h) 64 * 64"
  have d: "w \<le> W" "W \<le> 8192" "h \<le> H" "H \<le> 8192" "0 \<le> W" "0 \<le> H"
    using round_up_64 [OF dims(1,2)] round_up_64 [OF dims(3,4)] by (simp_all add: W_def H_def)
  have zero: "w = 0 \<longrightarrow> W = 0" "h = 0 \<longrightarrow> H = 0" by (simp_all add: W_def H_def)
  note defs = guac_display_layer_buffer_resize_def GUAC_DISPLAY_RESIZE_FACTOR_def GUAC_DISPLAY_LAYER_RAW_BPP_def
  show ?thesis
  proof (cases "W = ls_buffer_width s \<and> H = ls_buffer_height s")
    case True
    then have "guac_display_layer_buffer_resize f s w h = Inr s" using ok(2) by (simp add: defs W_def H_def Let_def)
    moreover have "state_fits (s\<lparr>ls_width := w, ls_height := h\<rparr>)" using True d dims ok(1) by (auto simp: state_fits_def state_ok_def)
    moreover have "\<not> (h = 0 \<or> w = 0)" if "0 < ls_width s" "0 < ls_height s"
      using True zero that state_fits_ok [OF ok(1) that] state_okD(5,6) [of s] by auto
    ultimately show ?thesis by auto
  next
    case False
    define S where "S = f W"
    have S: "S mod 4 = 0" "4 * nat W \<le> S" using stride d by (auto simp: stride_fits_def S_def)
    define none where "none \<longleftrightarrow> nat H * S = 0"
    define new :: "u32 list" where "new = (if none then [] else replicate (nat H * (S div 4)) 0)"
    define buffer where "buffer = (if none then None else Some (replicate (nat H * (S div 4)) (0 :: u32)))"
    have new: "buffer_pixels buffer = new" by (simp add: buffer_def new_def buffer_pixels_def)
    have none: "nat H * (S div 4) = 0" if none using that by (auto simp: none_def)
    have len: "length new = nat H * (S div 4)" using none by (simp add: new_def)
    define result where "result b = s\<lparr>ls_buffer := map_option (\<lambda>_. b) buffer, ls_buffer_width := W, ls_buffer_height := H, ls_stride := S\<rparr>" for b
    have fits: "state_fits ((result b)\<lparr>ls_width := w, ls_height := h\<rparr>)" if "length b = nat H * (S div 4)" for b
    proof (cases none)
      case True
      then have "H = 0 \<or> W = 0" using S d by (auto simp: none_def)
      then show ?thesis using True S d dims
        by (auto simp: result_def buffer_def state_fits_def GUAC_DISPLAY_MAX_WIDTH_def GUAC_DISPLAY_MAX_HEIGHT_def)
    next
      case False
      then show ?thesis using S d dims that
        by (auto simp: result_def buffer_def state_fits_def state_ok_def GUAC_DISPLAY_MAX_WIDTH_def GUAC_DISPLAY_MAX_HEIGHT_def)
    qed
    have gone: "ls_buffer (result b) = None" if "h = 0 \<or> w = 0 \<and> f 0 = 0" for b
      using that zero by (auto simp: result_def buffer_def none_def S_def)
    have keep: "ls_width (result b) = ls_width s" "ls_height (result b) = ls_height s" "ls_external (result b) = ls_external s"
      "ls_dirty (result b) = ls_dirty s" for b by (simp_all add: result_def)
    have c: "cdiv (w + 64 - 1) 64 * 64 = W" "cdiv (h + 64 - 1) 64 * 64 = H" by (simp_all add: W_def H_def add.commute)
    have size: "(W = ls_buffer_width s \<and> H = ls_buffer_height s) = False" using False by simp
    have run: "guac_display_layer_buffer_resize f s w h =
        bindr (case ls_buffer s of
                 None \<Rightarrow> Inr buffer
               | Some old \<Rightarrow>
                   defined (ls_stride s mod 4 = 0)
                     (bindr (guac_imgcpy (buffer_pixels buffer) (S div 4) W H old (ls_stride s div 4) (ls_buffer_width s) (ls_buffer_height s))
                        (\<lambda>copied. Inr (map_option (\<lambda>_. copied) buffer))))
          (\<lambda>buffer. Inr (s\<lparr>ls_buffer := buffer, ls_buffer_width := W, ls_buffer_height := H, ls_stride := S\<rparr>))"
      unfolding defs Let_def c size if_False S_def [symmetric] none_def [symmetric] buffer_def [symmetric]
      using ok(2) S(1) by simp
    show ?thesis
    proof (cases "ls_buffer s")
      case None
      have "\<not> (0 < ls_width s \<and> 0 < ls_height s)" using state_fits_ok [OF ok(1)] None by (auto simp: state_ok_def)
      moreover have "guac_display_layer_buffer_resize f s w h = Inr (result (replicate (nat H * (S div 4)) 0))"
        unfolding run None by (simp add: result_def buffer_def)
      ultimately show ?thesis using fits gone keep by (intro exI [of _ "result (replicate (nat H * (S div 4)) 0)"]) auto
    next
      case old: (Some old)
      have sok: "state_ok s" using ok(1) old by (auto simp: state_fits_def)
      define r where "r = \<lparr>left = 0, top = 0, right = min W (ls_buffer_width s), bottom = min H (ls_buffer_height s)\<rparr>"
      have nonneg: "0 \<le> ls_buffer_width s" "0 \<le> ls_buffer_height s" using state_okD [OF sok] by linarith+
      have src: "0 + k * (ls_stride s div 4) + nat (right r - left r) \<le> length old" if "k < nat (bottom r - top r)" for k
        using offset_bound [OF sok old, of 0 "nat (right r - left r)" "int k"] that nonneg d
        by (simp add: r_def row_offset_def GUAC_DISPLAY_LAYER_RAW_BPP_def)
      define t where "t = s\<lparr>ls_buffer := Some new, ls_buffer_width := W, ls_buffer_height := H, ls_stride := S, ls_width := w, ls_height := h\<rparr>"
      have t: "state_ok t" using S d dims len by (auto simp: t_def state_ok_def GUAC_DISPLAY_MAX_WIDTH_def GUAC_DISPLAY_MAX_HEIGHT_def)
      obtain b where b: "copy_rows (nat (bottom r - top r)) (nat (right r - left r)) new (S div 4) (rect_offset r S) old (ls_stride s div 4) 0 = Inr b"
        "length b = length new"
        "\<forall>x y. 0 \<le> x \<longrightarrow> x < W \<longrightarrow> 0 \<le> y \<longrightarrow> y < H \<longrightarrow> b ! row_offset t x y =
           (if (x, y) \<in> pixels r then old ! (nat (y - top r) * (ls_stride s div 4) + nat (x - left r)) else new ! row_offset t x y)"
        using write_rect [OF t, of new r 0 "ls_stride s div 4" old] src d nonneg by (auto simp: t_def r_def)
      have copy: "guac_imgcpy new (S div 4) W H old (ls_stride s div 4) (ls_buffer_width s) (ls_buffer_height s) = Inr b"
        using b(1) d nonneg by (simp add: guac_imgcpy_def r_def rect_offset_def min_def Let_def split: if_splits)
      have "ls_stride s mod 4 = 0" using sok by (simp add: state_ok_def)
      then have ran: "guac_display_layer_buffer_resize f s w h = Inr (result b)"
        unfolding run old using copy by (simp add: new result_def)
      have "px (result b) x y = px s x y" if p: "0 \<le> x" "x < min w (ls_width s)" "0 \<le> y" "y < min h (ls_height s)" for x y
      proof -
        have x: "x < W" "y < H" "x < ls_buffer_width s" "y < ls_buffer_height s" using p d state_okD [OF sok] by auto
        then have "(x, y) \<in> pixels r" using p by (simp add: r_def)
        then have "b ! row_offset t x y = old ! (nat (y - top r) * (ls_stride s div 4) + nat (x - left r))"
          using b(3) p x by simp
        then have "b ! row_offset t x y = old ! row_offset s x y"
          by (simp add: r_def row_offset_def GUAC_DISPLAY_LAYER_RAW_BPP_def)
        moreover have "row_offset t x y = row_offset (result b) x y" by (simp add: t_def result_def row_offset_def)
        moreover have "\<not> none" using S(2) x p by (auto simp: none_def)
        ultimately show ?thesis by (simp add: px_def result_def buffer_def old)
      qed
      then show ?thesis using ran fits [of b] gone keep b(2) len by (intro exI [of _ "result b"]) simp
    qed
  qed
qed

lemma copy_rows_set: "copy_rows n len dst ds dst_off src ss src_off = Inr b \<Longrightarrow> set b \<subseteq> set dst \<union> set src"
proof (induction n arbitrary: dst dst_off src_off)
  case (Suc n)
  let ?dst = "if len = 0 then dst else overwrite dst dst_off (take len (drop src_off src))"
  have "set ?dst \<subseteq> set dst \<union> set src"
    by (auto simp: overwrite_def dest: in_set_takeD in_set_dropD)
  moreover have "copy_rows n len ?dst ds (dst_off + ds) src ss (src_off + ss) = Inr b"
    using Suc.prems by (simp add: fault_iff)
  ultimately show ?case using Suc.IH by blast
qed simp

lemma cells_resize_run:
  assumes cells: "length (frame_cells layer) = cells_width layer * cells_height layer"
    and clean: "\<forall>c \<in> set (frame_cells layer). dirty_size c = 0" and dims: "0 \<le> w" "w \<le> 8192" "0 \<le> h" "h \<le> 8192"
  shows "\<exists>cells cw ch. guac_display_layer_cells_resize layer w h =
      Inr (layer\<lparr>frame_cells := cells, cells_width := cw, cells_height := ch\<rparr>) \<and>
    length cells = cw * ch \<and> w \<le> 64 * int cw \<and> h \<le> 64 * int ch \<and> (\<forall>c \<in> set cells. dirty_size c = 0)"
proof -
  define nw where "nw = nat (cdiv (63 + w) 64)"
  define nh where "nh = nat (cdiv (63 + h) 64)"
  have n: "cdiv (63 + w) 64 = int nw" "cdiv (63 + h) 64 = int nh" "w \<le> 64 * int nw" "h \<le> 64 * int nh"
    using round_up_64 [OF dims(1,2)] round_up_64 [OF dims(3,4)] by (simp_all add: nw_def nh_def)
  note defs = guac_display_layer_cells_resize_def GUAC_DISPLAY_CELL_DIMENSION_def GUAC_DISPLAY_CELL_SIZE_def
  show ?thesis
  proof (cases "nw = cells_width layer \<and> nh = cells_height layer")
    case True
    then have "guac_display_layer_cells_resize layer w h =
        Inr (layer\<lparr>frame_cells := frame_cells layer, cells_width := nw, cells_height := nh\<rparr>)"
      using n by (auto simp: defs Let_def add.commute)
    then show ?thesis using True n cells clean by metis
  next
    case False
    define len where "len = min nw (cells_width layer)"
    define rows where "rows = min nh (cells_height layer)"
    have dst: "0 + k * nw + len \<le> length (replicate (nw * nh) new_cell)" if "k < rows" for k
    proof -
      have "k * nw + len \<le> Suc k * nw" by (simp add: len_def)
      also have "\<dots> \<le> nh * nw" using that by (intro mult_right_mono) (auto simp: rows_def)
      finally show ?thesis by (simp add: mult.commute)
    qed
    have src: "0 + k * cells_width layer + len \<le> length (frame_cells layer)" if "k < rows" for k
    proof -
      have "k * cells_width layer + len \<le> Suc k * cells_width layer" by (simp add: len_def)
      also have "\<dots> \<le> cells_height layer * cells_width layer" using that by (intro mult_right_mono) (auto simp: rows_def)
      finally show ?thesis by (simp add: cells mult.commute)
    qed
    have "len \<le> nw" by (simp add: len_def)
    then obtain b where b: "copy_rows rows len (replicate (nw * nh) new_cell) nw 0 (frame_cells layer) (cells_width layer) 0 = Inr b"
      "length b = nw * nh"
      using copy_rows_run [OF dst src, of rows] by auto
    have copy: "guac_imgcpy (replicate (nw * nh) new_cell) nw (int nw) (int nh) (frame_cells layer) (cells_width layer)
        (int (cells_width layer)) (int (cells_height layer)) = Inr b"
      using b(1) by (auto simp: guac_imgcpy_def len_def rows_def Let_def min_def split: if_splits)
    have "set b \<subseteq> set (replicate (nw * nh) new_cell) \<union> set (frame_cells layer)" by (rule copy_rows_set [OF b(1)])
    then have "\<forall>c \<in> set b. dirty_size c = 0" using clean by (auto simp: new_cell_def)
    moreover have "guac_display_layer_cells_resize layer w h = Inr (layer\<lparr>frame_cells := b, cells_width := nw, cells_height := nh\<rparr>)"
      using copy False n by (auto simp: defs Let_def add.commute)
    ultimately show ?thesis using b(2) n by metis
  qed
qed

text \<open>Resizing a layer whose buffer is its own keeps it well-formed and keeps the image.\<close>

lemma layer_resize_run:
  assumes ok: "layer_fits layer" "\<not> ls_external (pending_frame layer)" and stride: "stride_fits f"
    and dims: "0 \<le> w" "w \<le> 8192" "0 \<le> h" "h \<le> 8192"
  shows "\<exists>layer'. layer_resize f layer w h = Inr layer' \<and> layer_fits layer' \<and>
    ls_width (pending_frame layer') = w \<and> ls_height (pending_frame layer') = h \<and> last_frame layer' = last_frame layer \<and>
    ls_dirty (pending_frame layer') = ls_dirty (pending_frame layer) \<and> \<not> ls_external (pending_frame layer') \<and>
    (0 < ls_width (pending_frame layer) \<longrightarrow> 0 < ls_height (pending_frame layer) \<longrightarrow> h = 0 \<or> w = 0 \<and> f 0 = 0 \<longrightarrow>
       ls_buffer (pending_frame layer') = None) \<and>
    (\<forall>x y. 0 \<le> x \<longrightarrow> x < min w (ls_width (pending_frame layer)) \<longrightarrow> 0 \<le> y \<longrightarrow> y < min h (ls_height (pending_frame layer)) \<longrightarrow>
       px (pending_frame layer') x y = px (pending_frame layer) x y)"
proof -
  have s: "state_fits (pending_frame layer)" using ok(1) by (simp add: layer_fits_def)
  obtain s' where s': "guac_display_layer_buffer_resize f (pending_frame layer) w h = Inr s'"
    "state_fits (s'\<lparr>ls_width := w, ls_height := h\<rparr>)" "ls_dirty s' = ls_dirty (pending_frame layer)" "\<not> ls_external s'"
    "0 < ls_width (pending_frame layer) \<longrightarrow> 0 < ls_height (pending_frame layer) \<longrightarrow> h = 0 \<or> w = 0 \<and> f 0 = 0 \<longrightarrow> ls_buffer s' = None"
    "\<forall>x y. 0 \<le> x \<longrightarrow> x < min w (ls_width (pending_frame layer)) \<longrightarrow> 0 \<le> y \<longrightarrow> y < min h (ls_height (pending_frame layer)) \<longrightarrow>
       px s' x y = px (pending_frame layer) x y"
    using buffer_resize_run [OF s ok(2) stride dims] ok(2) by metis
  let ?layer = "layer\<lparr>pending_frame := s'\<rparr>"
  obtain cells cw ch where c: "guac_display_layer_cells_resize ?layer w h =
      Inr (?layer\<lparr>frame_cells := cells, cells_width := cw, cells_height := ch\<rparr>)"
    "length cells = cw * ch" "w \<le> 64 * int cw" "h \<le> 64 * int ch" "\<forall>c \<in> set cells. dirty_size c = 0"
    using cells_resize_run [of ?layer w h] ok(1) dims by (auto simp: layer_fits_def)
  have "px (s'\<lparr>ls_width := w, ls_height := h\<rparr>) x y = px s' x y" for x y by (simp add: px_def row_offset_def split: option.split)
  then show ?thesis using ok s' c by (simp add: layer_resize_def layer_fits_def)
qed

lemma state_init_run:
  assumes "stride_fits f"
  shows "\<exists>s. guac_display_layer_state_init f = Inr s \<and> state_ok s \<and> ls_width s = 64 \<and> ls_height s = 64 \<and> \<not> ls_external s"
proof -
  have c: "cdiv 127 64 = 1" by simp
  have "f 64 mod 4 = 0" "256 \<le> f 64" using assms [unfolded stride_fits_def, rule_format, of 64] by simp_all
  then show ?thesis using assms
    by (auto simp: guac_display_layer_state_init_def guac_display_layer_buffer_resize_def zero_state_def GUAC_DISPLAY_RESIZE_FACTOR_def
        Let_def c state_ok_def GUAC_DISPLAY_MAX_WIDTH_def GUAC_DISPLAY_MAX_HEIGHT_def GUAC_DISPLAY_LAYER_RAW_BPP_def)
qed

section \<open>Properties\<close>

text \<open>A rectangle of pixels of a layer.\<close>

definition inside :: "guac_rect \<Rightarrow> guac_display_layer_state \<Rightarrow> bool" where
  "inside r s \<longleftrightarrow> 0 \<le> left r \<and> left r \<le> right r \<and> right r \<le> ls_width s \<and> 0 \<le> top r \<and> top r \<le> bottom r \<and> bottom r \<le> ls_height s"

lemma touch_sel [simp]:
  "layer_at (guac_display_layer_touch l d) = layer_at d"
  "pending_state (guac_display_layer_touch l d) = pending_state d" "last_state (guac_display_layer_touch l d) = last_state d"
  by (simp_all add: guac_display_layer_touch_def)

lemma gather_rows_run:
  "\<forall>k < n. off + k * stride + 4 * len \<le> length img \<Longrightarrow>
   \<exists>rows. gather_rows n len img stride off = Inr rows \<and> length rows = n * len \<and>
     (\<forall>k < n. \<forall>j < len. rows ! (k * len + j) = pixel_at img (off + k * stride + 4 * j))"
proof (induction n arbitrary: off)
  case (Suc n)
  have first: "off + len * 4 \<le> length img" using Suc.prems [rule_format, of 0] by simp
  have "\<forall>k < n. off + stride + k * stride + 4 * len \<le> length img" using Suc.prems [rule_format, of "Suc k" for k] by (auto simp: add.assoc)
  then obtain rows where rows: "gather_rows n len img stride (off + stride) = Inr rows" "length rows = n * len"
    "\<forall>k < n. \<forall>j < len. rows ! (k * len + j) = pixel_at img (off + stride + k * stride + 4 * j)"
    using Suc.IH [of "off + stride"] by auto
  let ?row = "map (\<lambda>k. pixel_at img (off + k * 4)) [0..<len]"
  have "(?row @ rows) ! (k * len + j) = pixel_at img (off + k * stride + 4 * j)" if "k < Suc n" "j < len" for k j
  proof (cases k)
    case 0
    then show ?thesis using that by (simp add: nth_append mult.commute)
  next
    case (Suc m)
    then show ?thesis using that rows(3) by (simp add: nth_append add.assoc)
  qed
  then show ?case using rows(1,2) first by (simp add: GUAC_DISPLAY_LAYER_RAW_BPP_def)
qed simp

lemma draw_run:
  assumes ok: "layer_ok (layer_at d l)" "\<not> ls_external (pending_frame (layer_at d l))" and r: "inside r (pending_frame (layer_at d l))"
    and src: "\<And>k. k < nat (bottom r - top r) \<Longrightarrow> src_off + k * ss + nat (right r - left r) \<le> length src"
  shows "\<exists>b old. ls_buffer (pending_frame (layer_at d l)) = Some old \<and>
    copy_rows (nat (bottom r - top r)) (nat (right r - left r)) old (ls_stride (pending_frame (layer_at d l)) div 4)
      (rect_offset r (ls_stride (pending_frame (layer_at d l)))) src ss src_off = Inr b \<and>
    (let layer = layer_at (guac_display_layer_close_raw l ((guac_display_layer_open_raw l d)\<lparr>ctx_buffer := Some b,
          ctx_dirty := guac_rect_extend (ctx_dirty (guac_display_layer_open_raw l d)) r\<rparr>) d) l
     in layer_ok layer \<and> last_frame layer = last_frame (layer_at d l) \<and>
        pixels r \<union> pixels (ls_dirty (pending_frame (layer_at d l))) \<subseteq> pixels (ls_dirty (pending_frame layer)) \<and>
        (\<forall>x y. (x, y) \<in> pixels (bounds (pending_frame layer)) \<longrightarrow>
           px (pending_frame layer) x y =
             (if (x, y) \<in> pixels r then src ! (src_off + nat (y - top r) * ss + nat (x - left r))
              else px (pending_frame (layer_at d l)) x y)))"
proof -
  define s where "s = pending_frame (layer_at d l)"
  have s: "state_ok s" using ok by (simp add: s_def layer_ok_def)
  obtain old where old: "ls_buffer s = Some old" using s by (auto simp: state_ok_def)
  have r': "0 \<le> left r" "left r \<le> right r" "right r \<le> ls_buffer_width s" "0 \<le> top r" "top r \<le> bottom r" "bottom r \<le> ls_buffer_height s"
    using r state_okD [OF s] by (auto simp: inside_def s_def)
  obtain b where b: "copy_rows (nat (bottom r - top r)) (nat (right r - left r)) old (ls_stride s div 4) (rect_offset r (ls_stride s)) src ss src_off = Inr b"
    "length b = length old"
    "\<forall>x y. 0 \<le> x \<longrightarrow> x < ls_buffer_width s \<longrightarrow> 0 \<le> y \<longrightarrow> y < ls_buffer_height s \<longrightarrow>
       b ! row_offset s x y =
         (if (x, y) \<in> pixels r then src ! (src_off + nat (y - top r) * ss + nat (x - left r)) else old ! row_offset s x y)"
    using write_rect [OF s old r' src] by blast
  define layer where "layer = layer_at (guac_display_layer_close_raw l ((guac_display_layer_open_raw l d)\<lparr>ctx_buffer := Some b,
      ctx_dirty := guac_rect_extend (ctx_dirty (guac_display_layer_open_raw l d)) r\<rparr>) d) l"
  define s' where "s' = s\<lparr>ls_buffer := Some b, ls_dirty := guac_rect_extend (ls_dirty s) r, ls_search_for_copies := True\<rparr>"
  have e: "guac_rect_extend empty_rect r = r" by (simp add: guac_rect_extend_def empty_rect_def guac_rect_is_empty_def)
  have layer: "layer = (layer_at d l)\<lparr>pending_frame := s'\<rparr>"
    using ok(2)
    by (simp add: layer_def s'_def s_def guac_display_layer_close_raw_def guac_display_layer_open_raw_def Let_def change_pending_def
        set_layer_def e)
  have "state_ok s'" using s b(2) old by (auto simp: s'_def state_ok_def)
  then have "layer_ok layer" using ok(1) by (simp add: layer layer_ok_def) (simp add: s'_def s_def)
  moreover have "px s' x y = (if (x, y) \<in> pixels r then src ! (src_off + nat (y - top r) * ss + nat (x - left r)) else px s x y)"
    if "(x, y) \<in> pixels (bounds s')" for x y
  proof -
    have "row_offset s' x y = row_offset s x y" by (simp add: s'_def row_offset_def)
    moreover have "0 \<le> x" "x < ls_buffer_width s" "0 \<le> y" "y < ls_buffer_height s"
      using that state_okD [OF s] by (auto simp: s'_def)
    ultimately show ?thesis using b(3) by (simp add: px_def s'_def old)
  qed
  moreover have "pixels r \<union> pixels (ls_dirty s) \<subseteq> pixels (ls_dirty s')" using extend_pixels [of "ls_dirty s" r] by (auto simp: s'_def)
  moreover have "pending_frame layer = s'" "last_frame layer = last_frame (layer_at d l)" by (simp_all add: layer)
  ultimately show ?thesis
    using old b(1)
    by (intro exI [of _ b] exI [of _ old], unfold Let_def layer_def [symmetric] s_def [symmetric]) simp
qed

lemma add_layer_ok:
  assumes "stride_fits f" "guac_display_add_layer f i opaque d = Inr (l, d')"
  shows "l \<in> set (state_layers (pending_state d')) \<and> layer_ok (layer_at d' l)"
proof -
  obtain s buffer client layer where a: "guac_display_layer_state_init f = Inr s"
    "guac_display_layer_cells_resize \<lparr>layer_index = i, layer_opaque = opaque, last_frame = s, last_frame_buffer = buffer, pending_frame = s,
       frame_cells = [], cells_width = 0, cells_height = 0\<rparr> (ls_width s) (ls_height s) = Inr layer"
    "l = next_layer d" "layer_at d' l = layer" "l \<in> set (state_layers (pending_state d'))"
    using assms(2) by (auto simp: guac_display_add_layer_def fault_iff Let_def set_layer_def)
  have s: "state_ok s" "ls_width s = 64" "ls_height s = 64" using state_init_run [OF assms(1)] a(1) by auto
  have "layer_ok layer"
    using cells_resize_run [of "\<lparr>layer_index = i, layer_opaque = opaque, last_frame = s, last_frame_buffer = buffer, pending_frame = s,
       frame_cells = [], cells_width = 0, cells_height = 0\<rparr>" 64 64] a(2) s by (auto simp: layer_ok_def)
  then show ?thesis using a by simp
qed

text \<open>
  C34. New layers are well-formed: their buffers and their cells cover them. Resizing a well-formed layer with a buffer of
  its own to any width and height from 0 to 8192 never fails, gives it these bounds, and keeps the image where the old and the
  new size overlap; with both dimensions positive the layer is well-formed again, and so is a layer that was
  resized to 0 before. A layer whose width or height becomes 0 has no buffer: the allocation of size 0 returns NULL. The
  distance between rows for a width, which the drawing library chooses, is a multiple of 4 and holds the row, and is 0 for a width of 0.
\<close>

theorem layers_stay_wellformed:
  assumes "stride_fits f"
  shows "(guac_display_add_layer f i opaque d = Inr (l, d') \<longrightarrow>
            l \<in> set (state_layers (pending_state d')) \<and> layer_ok (layer_at d' l)) \<and>
    (layer_fits (layer_at d l) \<longrightarrow> \<not> ls_external (pending_frame (layer_at d l)) \<longrightarrow>
       0 \<le> w \<longrightarrow> w \<le> 8192 \<longrightarrow> 0 \<le> h \<longrightarrow> h \<le> 8192 \<longrightarrow>
       (\<exists>d''. guac_display_layer_resize f l w h d = Inr d'' \<and> layer_fits (layer_at d'' l) \<and>
          (0 < w \<longrightarrow> 0 < h \<longrightarrow> layer_ok (layer_at d'' l)) \<and>
          (h = 0 \<or> w = 0 \<and> f 0 = 0 \<longrightarrow> layer_ok (layer_at d l) \<longrightarrow>
             0 < ls_width (pending_frame (layer_at d l)) \<longrightarrow> 0 < ls_height (pending_frame (layer_at d l)) \<longrightarrow>
             ls_buffer (pending_frame (layer_at d'' l)) = None) \<and>
          guac_display_layer_get_bounds (layer_at d'' l) = \<lparr>left = 0, top = 0, right = w, bottom = h\<rparr> \<and>
          (\<forall>x y. 0 \<le> x \<longrightarrow> x < min w (ls_width (pending_frame (layer_at d l))) \<longrightarrow>
                 0 \<le> y \<longrightarrow> y < min h (ls_height (pending_frame (layer_at d l))) \<longrightarrow>
             px (pending_frame (layer_at d'' l)) x y = px (pending_frame (layer_at d l)) x y)))"
proof (intro conjI impI)
  assume "guac_display_add_layer f i opaque d = Inr (l, d')"
  then show "l \<in> set (state_layers (pending_state d'))" "layer_ok (layer_at d' l)" using add_layer_ok [OF assms] by simp_all
next
  assume "layer_fits (layer_at d l)" "\<not> ls_external (pending_frame (layer_at d l))" "0 \<le> w" "w \<le> 8192" "0 \<le> h" "h \<le> 8192"
  then obtain layer where layer: "layer_resize f (layer_at d l) w h = Inr layer" "layer_fits layer"
    "ls_width (pending_frame layer) = w" "ls_height (pending_frame layer) = h"
    "0 < ls_width (pending_frame (layer_at d l)) \<longrightarrow> 0 < ls_height (pending_frame (layer_at d l)) \<longrightarrow> h = 0 \<or> w = 0 \<and> f 0 = 0 \<longrightarrow>
       ls_buffer (pending_frame layer) = None"
    "\<forall>x y. 0 \<le> x \<longrightarrow> x < min w (ls_width (pending_frame (layer_at d l))) \<longrightarrow> 0 \<le> y \<longrightarrow> y < min h (ls_height (pending_frame (layer_at d l))) \<longrightarrow>
       px (pending_frame layer) x y = px (pending_frame (layer_at d l)) x y"
    using layer_resize_run [OF _ _ assms] by blast
  have "guac_display_layer_resize f l w h d = Inr (guac_display_layer_touch l (set_layer l layer d))"
    "layer_at (guac_display_layer_touch l (set_layer l layer d)) l = layer"
    using layer(1) by (simp_all add: guac_display_layer_resize_def set_layer_def)
  then show "\<exists>d''. guac_display_layer_resize f l w h d = Inr d'' \<and> layer_fits (layer_at d'' l) \<and>
      (0 < w \<longrightarrow> 0 < h \<longrightarrow> layer_ok (layer_at d'' l)) \<and>
      (h = 0 \<or> w = 0 \<and> f 0 = 0 \<longrightarrow> layer_ok (layer_at d l) \<longrightarrow>
         0 < ls_width (pending_frame (layer_at d l)) \<longrightarrow> 0 < ls_height (pending_frame (layer_at d l)) \<longrightarrow>
         ls_buffer (pending_frame (layer_at d'' l)) = None) \<and>
      guac_display_layer_get_bounds (layer_at d'' l) = \<lparr>left = 0, top = 0, right = w, bottom = h\<rparr> \<and>
      (\<forall>x y. 0 \<le> x \<longrightarrow> x < min w (ls_width (pending_frame (layer_at d l))) \<longrightarrow>
             0 \<le> y \<longrightarrow> y < min h (ls_height (pending_frame (layer_at d l))) \<longrightarrow>
         px (pending_frame (layer_at d'' l)) x y = px (pending_frame (layer_at d l)) x y)"
    using layer(2-) layer_fits_ok [of layer]
    by (intro exI [of _ "guac_display_layer_touch l (set_layer l layer d)"]) (simp add: guac_display_layer_get_bounds_def)
qed

text \<open>A display without layers.\<close>

definition blank_display :: guac_display where
  "blank_display = \<lparr>layer_at = (\<lambda>_. \<lparr>layer_index = 0, layer_opaque = True, last_frame = zero_state, last_frame_buffer = 0,
       pending_frame = zero_state, frame_cells = [], cells_width = 0, cells_height = 0\<rparr>),
     last_state = zero_display_state 0, pending_state = zero_display_state 0, dirty_excluding_mouse = False,
     default_layer = 0, cursor_buffer = 0, next_layer = 0, display_client = guac_client_alloc [],
     display_socket = \<lparr>written = [], outcomes = [], flush_outcomes = [], held = 0, ready = [], current_timestamp = 0, last_write_timestamp = 0\<rparr>\<rparr>"

lemma add_layer_run:
  assumes "stride_fits f" "guac_client_alloc_buffer (display_client d) = Inr (b, c)"
  shows "\<exists>d'. guac_display_add_layer f i opaque d = Inr (next_layer d, d') \<and>
    \<not> ls_external (pending_frame (layer_at d' (next_layer d))) \<and>
    ls_width (pending_frame (layer_at d' (next_layer d))) = 64 \<and> ls_height (pending_frame (layer_at d' (next_layer d))) = 64"
proof -
  obtain s where s: "guac_display_layer_state_init f = Inr s" "ls_width s = 64" "ls_height s = 64" "\<not> ls_external s"
    using state_init_run [OF assms(1)] by auto
  let ?layer = "\<lparr>layer_index = i, layer_opaque = opaque, last_frame = s, last_frame_buffer = b,
    pending_frame = s, frame_cells = [], cells_width = 0, cells_height = 0\<rparr>"
  obtain cells cw ch where "guac_display_layer_cells_resize ?layer 64 64 =
      Inr (?layer\<lparr>frame_cells := cells, cells_width := cw, cells_height := ch\<rparr>)"
    using cells_resize_run [of ?layer 64 64] by auto
  then show ?thesis using s assms(2) by (simp add: guac_display_add_layer_def Let_def set_layer_def)
qed

lemma blank_alloc: "guac_client_alloc_buffer (display_client blank_display) = Inr (-1, (guac_client_alloc [])
    \<lparr>client_buffer_pool := (guac_pool_alloc 1024)\<lparr>active := 1, next_value := 1\<rparr>\<rparr>)"
  by (simp add: blank_display_def guac_client_alloc_buffer_def guac_client_alloc_def guac_pool_next_int_def pool_next_int_def
      guac_pool_alloc_def GUAC_BUFFER_POOL_INITIAL_SIZE_def INT_MAX_def in_int_bounds)

theorem layers_stay_wellformed_witness:
  "\<exists>l d' d''. guac_display_add_layer (\<lambda>w. 4 * nat w) 0 True blank_display = Inr (l, d') \<and>
     guac_display_layer_resize (\<lambda>w. 4 * nat w) l 100 20 d' = Inr d'' \<and> layer_ok (layer_at d'' l)"
proof -
  have f: "stride_fits (\<lambda>w. 4 * nat w)" by (simp add: stride_fits_def)
  obtain d' where d': "guac_display_add_layer (\<lambda>w. 4 * nat w) 0 True blank_display = Inr (next_layer blank_display, d')"
    "\<not> ls_external (pending_frame (layer_at d' (next_layer blank_display)))"
    using add_layer_run [OF f blank_alloc] by blast
  have "layer_fits (layer_at d' (next_layer blank_display))"
    using layer_ok_fits layers_stay_wellformed [OF f, where i = 0 and opaque = True and d = blank_display and l = "next_layer blank_display" and d' = d'] d' by simp
  then show ?thesis
    using layers_stay_wellformed [OF f, where i = 0 and opaque = True and d' = d' and d = d' and l = "next_layer blank_display" and w = 100 and h = 20] d' by auto
qed

text \<open>
  C35. Drawing is exact: setting a rectangle inside a layer to a color, or putting image data there, changes
  exactly the pixels of the rectangle, notes them as dirty, and keeps the layer well-formed.
\<close>

theorem drawing_is_exact:
  assumes "layer_ok (layer_at d l)" "\<not> ls_external (pending_frame (layer_at d l))" "inside dst (pending_frame (layer_at d l))"
  shows "(\<exists>context. guac_display_layer_raw_context_set (guac_display_layer_open_raw l d) dst color = Inr context \<and>
      (let layer = layer_at (guac_display_layer_close_raw l context d) l in
       layer_ok layer \<and> pixels dst \<subseteq> pixels (ls_dirty (pending_frame layer)) \<and>
       (\<forall>x y. (x, y) \<in> pixels (bounds (pending_frame layer)) \<longrightarrow>
          px (pending_frame layer) x y = (if (x, y) \<in> pixels dst then color else px (pending_frame (layer_at d l)) x y)))) \<and>
    ((\<forall>k < nat (bottom dst - top dst). k * stride + 4 * nat (right dst - left dst) \<le> length img) \<longrightarrow>
     (\<exists>context. guac_display_layer_raw_context_put (guac_display_layer_open_raw l d) dst img stride = Inr context \<and>
      (let layer = layer_at (guac_display_layer_close_raw l context d) l in
       layer_ok layer \<and> pixels dst \<subseteq> pixels (ls_dirty (pending_frame layer)) \<and>
       (\<forall>x y. (x, y) \<in> pixels (bounds (pending_frame layer)) \<longrightarrow>
          px (pending_frame layer) x y =
            (if (x, y) \<in> pixels dst then pixel_at img (nat (y - top dst) * stride + 4 * nat (x - left dst))
             else px (pending_frame (layer_at d l)) x y)))))"
proof -
  define s where "s = pending_frame (layer_at d l)"
  define len where "len = nat (right dst - left dst)"
  have s: "state_ok s" using assms by (simp add: s_def layer_ok_def)
  have dst: "0 \<le> left dst" "0 \<le> top dst" "left dst \<le> right dst" "right dst \<le> 8192"
    using assms(3) state_okD [OF s] by (auto simp: inside_def s_def)
  then have w: "guac_rect_width dst = right dst - left dst" by (auto simp: guac_rect_width_def in_int_bounds Let_def)
  have m: "ls_stride s mod 4 = 0" using s by (simp add: state_ok_def)
  have open_raw: "ctx_buffer (guac_display_layer_open_raw l d) = ls_buffer s" "ctx_stride (guac_display_layer_open_raw l d) = ls_stride s"
    by (simp_all add: guac_display_layer_open_raw_def s_def Let_def)
  note defs = guac_display_layer_raw_context_set_def guac_display_layer_raw_context_put_def open_raw GUAC_DISPLAY_LAYER_RAW_BPP_def
    fill_copy_rows len_def [symmetric]
  have col: "replicate len color ! (0 + nat (y - top dst) * 0 + nat (x - left dst)) = color" if "(x, y) \<in> pixels dst" for x y
    using that by (auto simp: len_def)
  show ?thesis
  proof (intro conjI impI)
    show "\<exists>context. guac_display_layer_raw_context_set (guac_display_layer_open_raw l d) dst color = Inr context \<and>
      (let layer = layer_at (guac_display_layer_close_raw l context d) l in
       layer_ok layer \<and> pixels dst \<subseteq> pixels (ls_dirty (pending_frame layer)) \<and>
       (\<forall>x y. (x, y) \<in> pixels (bounds (pending_frame layer)) \<longrightarrow>
          px (pending_frame layer) x y = (if (x, y) \<in> pixels dst then color else px (pending_frame (layer_at d l)) x y)))"
      using draw_run [OF assms, of 0 0 "replicate len color"] dst col m
      by (auto simp: defs s_def [symmetric] Let_def)
  next
    assume img: "\<forall>k < nat (bottom dst - top dst). k * stride + 4 * nat (right dst - left dst) \<le> length img"
    define n where "n = nat (bottom dst - top dst)"
    obtain rows where rows: "gather_rows n len img stride 0 = Inr rows" "length rows = n * len"
      "\<forall>k < n. \<forall>j < len. rows ! (k * len + j) = pixel_at img (k * stride + 4 * j)"
      using gather_rows_run [where n = n and off = 0 and stride = stride and len = len and img = img] img by (auto simp: n_def len_def)
    have src: "0 + k * len + len \<le> length rows" if "k < n" for k
    proof -
      have "k * len + len \<le> Suc k * len" by simp
      also have "\<dots> \<le> n * len" using that by (intro mult_right_mono) auto
      finally show ?thesis using rows(2) by simp
    qed
    have pix: "rows ! (0 + nat (y - top dst) * len + nat (x - left dst)) = pixel_at img (nat (y - top dst) * stride + 4 * nat (x - left dst))"
      if "(x, y) \<in> pixels dst" for x y using rows(3) that by (auto simp: n_def len_def)
    show "\<exists>context. guac_display_layer_raw_context_put (guac_display_layer_open_raw l d) dst img stride = Inr context \<and>
      (let layer = layer_at (guac_display_layer_close_raw l context d) l in
       layer_ok layer \<and> pixels dst \<subseteq> pixels (ls_dirty (pending_frame layer)) \<and>
       (\<forall>x y. (x, y) \<in> pixels (bounds (pending_frame layer)) \<longrightarrow>
          px (pending_frame layer) x y =
            (if (x, y) \<in> pixels dst then pixel_at img (nat (y - top dst) * stride + 4 * nat (x - left dst))
             else px (pending_frame (layer_at d l)) x y)))"
      using draw_run [OF assms, of 0 len rows] src dst w pix m
      by (auto simp: defs s_def [symmetric] Let_def n_def [symmetric] rows(1))
  qed
qed

theorem drawing_is_exact_witness:
  "\<exists>d ctx. let layer = layer_at (guac_display_layer_close_raw 0 ctx d) 0 in
     guac_display_layer_raw_context_set (guac_display_layer_open_raw 0 d) \<lparr>left = 1, top = 2, right = 4, bottom = 5\<rparr> 0xFFFF0000 = Inr ctx \<and>
     px (pending_frame layer) 3 4 = 0xFFFF0000 \<and> px (pending_frame layer) 4 4 = px (pending_frame (layer_at d 0)) 4 4"
proof -
  have f: "stride_fits (\<lambda>w. 4 * nat w)" by (simp add: stride_fits_def)
  have n: "next_layer blank_display = 0" by (simp add: blank_display_def)
  obtain d where d: "guac_display_add_layer (\<lambda>w. 4 * nat w) 0 True blank_display = Inr (0, d)"
    "\<not> ls_external (pending_frame (layer_at d 0))" "ls_width (pending_frame (layer_at d 0)) = 64" "ls_height (pending_frame (layer_at d 0)) = 64"
    using add_layer_run [OF f blank_alloc] n by fastforce
  have ok: "layer_ok (layer_at d 0)" using add_layer_ok [OF f d(1)] by simp
  let ?r = "\<lparr>left = 1, top = 2, right = 4, bottom = 5\<rparr>"
  have r: "inside ?r (pending_frame (layer_at d 0))" using d by (simp add: inside_def)
  obtain ctx where c: "guac_display_layer_raw_context_set (guac_display_layer_open_raw 0 d) ?r 0xFFFF0000 = Inr ctx"
    and p: "\<forall>x y. (x, y) \<in> pixels (bounds (pending_frame (layer_at (guac_display_layer_close_raw 0 ctx d) 0))) \<longrightarrow>
        px (pending_frame (layer_at (guac_display_layer_close_raw 0 ctx d) 0)) x y =
          (if (x, y) \<in> pixels ?r then 0xFFFF0000 else px (pending_frame (layer_at d 0)) x y)"
    using drawing_is_exact [OF ok d(2) r, of "0xFFFF0000"] unfolding Let_def by blast
  have "bounds (pending_frame (layer_at (guac_display_layer_close_raw 0 ctx d) 0)) = bounds (pending_frame (layer_at d 0))"
  proof -
    have "ls_buffer (pending_frame (layer_at d 0)) \<noteq> None" using ok by (auto simp: layer_ok_def state_ok_def)
    then show ?thesis using c d(2)
      by (auto simp: guac_display_layer_raw_context_set_def guac_display_layer_open_raw_def fault_iff Let_def
          guac_display_layer_close_raw_def change_pending_def set_layer_def bounds_def)
  qed
  then have "(3, 4) \<in> pixels (bounds (pending_frame (layer_at (guac_display_layer_close_raw 0 ctx d) 0)))"
    "(4, 4) \<in> pixels (bounds (pending_frame (layer_at (guac_display_layer_close_raw 0 ctx d) 0)))"
    using d by simp_all
  then show ?thesis using c p [rule_format, of 3 4] p [rule_format, of 4 4] unfolding Let_def by auto
qed

text \<open>
  A layer that is freed before the next frame makes the process abort: the list of the last frame does
  not contain it, and its missing predecessor is taken to mean that it is the head of that list.
\<close>

theorem unflushed_layer_aborts:
  assumes "guac_display_alloc_buffer f opaque d = Inr (l, d')"
    and "state_layers (last_state d) \<noteq> []" "\<forall>k \<in> set (state_layers (last_state d)). k < next_layer d"
  shows "guac_display_free_layer l d' = Inl Abort"
proof -
  have "l = next_layer d" "l \<in> set (state_layers (pending_state d'))" "last_state d' = last_state d"
    using assms(1) by (auto simp: guac_display_alloc_buffer_def guac_display_add_layer_def fault_iff Let_def set_layer_def)
  moreover have "next_layer d \<notin> set (state_layers (last_state d))" using assms(3) by blast
  ultimately show ?thesis
    using assms(2) by (simp add: guac_display_free_layer_def guac_display_remove_layer_def unlink_layer_def Let_def)
qed

theorem unflushed_layer_aborts_witness:
  "\<exists>d l d'. guac_display_alloc_buffer (\<lambda>w. 4 * nat w) False d = Inr (l, d') \<and> guac_display_free_layer l d' = Inl Abort"
proof -
  have f: "stride_fits (\<lambda>w. 4 * nat w)" by (simp add: stride_fits_def)
  define d where "d = blank_display\<lparr>next_layer := 1, last_state := (last_state blank_display)\<lparr>state_layers := [0]\<rparr>\<rparr>"
  have "\<exists>b c. guac_client_alloc_buffer (display_client d) = Inr (b, c) \<and> (\<exists>b' c'. guac_client_alloc_buffer c = Inr (b', c'))"
    by (simp add: d_def blank_display_def guac_client_alloc_buffer_def guac_client_alloc_def guac_pool_next_int_def pool_next_int_def
      guac_pool_alloc_def GUAC_BUFFER_POOL_INITIAL_SIZE_def INT_MAX_def)
  then obtain b c b' c' where bc: "guac_client_alloc_buffer (display_client d) = Inr (b, c)" "guac_client_alloc_buffer c = Inr (b', c')" by blast
  obtain l d' where "guac_display_alloc_buffer (\<lambda>w. 4 * nat w) False d = Inr (l, d')"
    using add_layer_run [OF f, of "d\<lparr>display_client := c\<rparr>" b' c' b False] bc by (auto simp: guac_display_alloc_buffer_def)
  moreover from this have "guac_display_free_layer l d' = Inl Abort"
    by (rule unflushed_layer_aborts) (simp_all add: d_def)
  ultimately show ?thesis by blast
qed

end
