(* ===== verification/DisplayPlan.thy ===== *)
theory DisplayPlan
  imports Display
begin

text \<open>
  Draft of the plan of a frame (\<open>src/src/libguac/display-plan.c\<close>): the comparison of the pending frame
  with the last frame that finds what changed in each cell, and the list of image operations made from
  it.

  A plan is the list of its operations; \<open>related_op\<close> of a cell is a position in it. The members
  of the union \<open>src\<close> of an operation are separate fields. The loop over the layers need not end, so it
  has fuel, one unit for each test of its condition.
\<close>

section \<open>Plans\<close>

datatype guac_display_plan_operation_type =
    GUAC_DISPLAY_PLAN_OPERATION_NOP
  | GUAC_DISPLAY_PLAN_OPERATION_COPY
  | GUAC_DISPLAY_PLAN_OPERATION_RECT
  | GUAC_DISPLAY_PLAN_OPERATION_IMG

record guac_display_plan_operation =
  op_layer :: nat
  op_type :: guac_display_plan_operation_type
  op_dest :: guac_rect
  op_dirty_size :: nat
  op_last_frame :: int
  op_current_frame :: int
  op_color :: u32
  op_src_layer :: int
  op_src_rect :: guac_rect

section \<open>What changed in a line\<close>

definition guac_display_plan_mark_dirty :: "guac_display_layer_cell \<Rightarrow> nat \<Rightarrow> int \<Rightarrow> int \<Rightarrow> int \<Rightarrow> guac_display_layer_cell \<times> nat" where
  "guac_display_plan_mark_dirty cell count x y width =
     (if dirty_size cell = 0
      then (cell\<lparr>cell_dirty := guac_rect_init x y width 1, dirty_size := nat width\<rparr>, count + 1)
      else (cell\<lparr>cell_dirty := guac_rect_extend (cell_dirty cell) (guac_rect_init x y width 1),
                 dirty_size := dirty_size cell + nat width\<rparr>, count))"

fun first_difference :: "u32 list \<Rightarrow> u32 list \<Rightarrow> nat" where
  "first_difference (a # as) (b # bs) = (if a \<noteq> b then 0 else Suc (first_difference as bs))"
| "first_difference _ _ = 0"

fun last_difference :: "u32 list \<Rightarrow> u32 list \<Rightarrow> nat \<Rightarrow> nat \<Rightarrow> nat" where
  "last_difference (a # as) (b # bs) found offset =
     last_difference as bs (if a \<noteq> b then offset else found) (offset + 1)"
| "last_difference _ _ found offset = found"

text \<open>The position and the length of the shortest run that holds all differences.\<close>

definition guac_display_memcmp :: "u32 list \<Rightarrow> u32 list \<Rightarrow> (nat \<times> nat) option" where
  "guac_display_memcmp a b =
     (let first = first_difference a b in
      if first \<ge> length a then None
      else
        let found = last_difference (drop (first + 1) a) (drop (first + 1) b) first (first + 1)
        in Some (first, found - first + 1))"

text \<open>A layer and the number of cells that have been found to be dirty.\<close>

type_synonym refined = "guac_display_layer \<times> nat"

definition mark_cell :: "nat \<Rightarrow> int \<Rightarrow> int \<Rightarrow> int \<Rightarrow> refined \<Rightarrow> refined result" where
  "mark_cell i x y width r =
     (case r of (layer, count) \<Rightarrow>
        defined (i < length (frame_cells layer))
          (let (cell, count) = guac_display_plan_mark_dirty (frame_cells layer ! i) count x y width;
               s = pending_frame layer
           in Inr (layer\<lparr>frame_cells := (frame_cells layer)[i := cell],
                         pending_frame := s\<lparr>ls_dirty := guac_rect_extend (ls_dirty s) (cell_dirty cell)\<rparr>\<rparr>, count)))"

definition refine_segment :: "nat \<Rightarrow> int \<Rightarrow> int \<Rightarrow> int \<Rightarrow> refined \<Rightarrow> refined result" where
  "refine_segment i corner_x y width r =
     (let last = last_frame (fst r) in
      if y \<ge> ls_height last \<or> corner_x \<ge> ls_width last then mark_cell i corner_x y width r
      else
        let comparable_width = (if corner_x + width > ls_width last then ls_width last - corner_x else width) in
        guac_assert (comparable_width \<ge> 0)
          (bindr (if width > comparable_width
                  then mark_cell i (corner_x + comparable_width) y (width - comparable_width) r
                  else Inr r) (\<lambda>r.
           bindr (row_at (pending_frame (fst r)) corner_x y (nat comparable_width)) (\<lambda>current_buffer.
           bindr (row_at (last_frame (fst r)) corner_x y (nat comparable_width)) (\<lambda>current_flushed.
             case guac_display_memcmp current_buffer current_flushed of
               None \<Rightarrow> Inr r
             | Some (pos, len) \<Rightarrow> mark_cell i (corner_x + int pos) y (int len) r)))))"

section \<open>What changed in a layer\<close>

text \<open>The dirty rectangle is the one the loops started with; \<open>i\<close> is the current cell.\<close>

function refine_line :: "guac_rect \<Rightarrow> int \<Rightarrow> int \<Rightarrow> nat \<Rightarrow> refined \<Rightarrow> refined result" where
  "refine_line dirty y corner_x i r =
     (if corner_x < right dirty
      then
        let width = (if corner_x + GUAC_DISPLAY_CELL_SIZE > right dirty then right dirty - corner_x else GUAC_DISPLAY_CELL_SIZE) in
        guac_assert (width \<ge> 0)
          (case refine_segment i corner_x y width r of
             Inl e \<Rightarrow> Inl e
           | Inr r \<Rightarrow> refine_line dirty y (corner_x + GUAC_DISPLAY_CELL_SIZE) (i + 1) r)
      else Inr r)"
  by pat_completeness auto
termination
  by (relation "measure (\<lambda>(dirty, y, corner_x, i, r). nat (right dirty - corner_x))") (auto simp: GUAC_DISPLAY_CELL_SIZE_def)

fun refine_lines :: "nat \<Rightarrow> guac_rect \<Rightarrow> int \<Rightarrow> nat \<Rightarrow> refined \<Rightarrow> refined result" where
  "refine_lines 0 dirty y i r = Inr r"
| "refine_lines (Suc n) dirty y i r =
     (case refine_line dirty y (left dirty) i r of Inl e \<Rightarrow> Inl e | Inr r \<Rightarrow> refine_lines n dirty (y + 1) i r)"

function refine_rows :: "guac_rect \<Rightarrow> int \<Rightarrow> nat \<Rightarrow> refined \<Rightarrow> refined result" where
  "refine_rows dirty corner_y i r =
     (if corner_y < bottom dirty
      then
        let height = (if corner_y + GUAC_DISPLAY_CELL_SIZE > bottom dirty then bottom dirty - corner_y else GUAC_DISPLAY_CELL_SIZE) in
        (case refine_lines (nat height) dirty corner_y i r of
           Inl e \<Rightarrow> Inl e
         | Inr r \<Rightarrow> refine_rows dirty (corner_y + GUAC_DISPLAY_CELL_SIZE) (i + cells_width (fst r)) r)
      else Inr r)"
  by pat_completeness auto
termination
  by (relation "measure (\<lambda>(dirty, corner_y, i, r). nat (bottom dirty - corner_y))") (auto simp: GUAC_DISPLAY_CELL_SIZE_def)

declare refine_line.simps [simp del] refine_rows.simps [simp del]

definition refine_layer :: "refined \<Rightarrow> refined result" where
  "refine_layer r =
     (case r of (layer, count) \<Rightarrow>
        let s = pending_frame layer; dirty = ls_dirty s in
        if guac_rect_is_empty dirty then Inr r
        else
          bindr (guac_rect_align dirty GUAC_DISPLAY_CELL_SIZE_EXPONENT) (\<lambda>dirty.
            let dirty = guac_rect_constrain dirty \<lparr>left = 0, top = 0, right = ls_width s, bottom = ls_height s\<rparr> in
            refine_rows dirty (top dirty)
              (nat (cdiv (top dirty) GUAC_DISPLAY_CELL_SIZE) * cells_width layer + nat (cdiv (left dirty) GUAC_DISPLAY_CELL_SIZE))
              (layer\<lparr>pending_frame := s\<lparr>ls_dirty := empty_rect\<rparr>\<rparr>, count)))"

text \<open>
  The layers from \<open>current\<close> on. The \<open>continue\<close> for a layer without a buffer comes before the step to the
  next layer, so the loop goes on with the same layer.
\<close>

fun refine_layers :: "nat \<Rightarrow> nat list \<Rightarrow> guac_display \<times> nat \<Rightarrow> (guac_display \<times> nat) result" where
  "refine_layers 0 current r = Inl Diverged"
| "refine_layers (Suc fuel) [] r = Inr r"
| "refine_layers (Suc fuel) (l # ls) (d, count) =
     (if ls_buffer (pending_frame (layer_at d l)) = None
      then guac_assert (ls_external (pending_frame (layer_at d l))) (refine_layers fuel (l # ls) (d, count))
      else
        bindr (refine_layer (layer_at d l, count)) (\<lambda>(layer, count). refine_layers fuel ls (set_layer l layer d, count)))"

section \<open>The draft\<close>

definition cell_op :: "nat \<Rightarrow> int \<Rightarrow> guac_display_layer_cell \<Rightarrow> guac_display_plan_operation" where
  "cell_op l frame_end cell =
     \<lparr>op_layer = l, op_type = GUAC_DISPLAY_PLAN_OPERATION_IMG, op_dest = cell_dirty cell, op_dirty_size = dirty_size cell,
      op_last_frame = cell_last_frame cell, op_current_frame = frame_end,
      op_color = 0, op_src_layer = 0, op_src_rect = empty_rect\<rparr>"

fun draft_cells :: "nat \<Rightarrow> int \<Rightarrow> nat \<Rightarrow> guac_display_layer_cell list \<Rightarrow> guac_display_plan_operation list \<Rightarrow>
    (guac_display_layer_cell list \<times> guac_display_plan_operation list) result" where
  "draft_cells l frame_end op_count [] ops = Inr ([], ops)"
| "draft_cells l frame_end op_count (cell # cells) ops =
     (if dirty_size cell \<noteq> 0
      then
        guac_assert (length ops < op_count)
          (bindr (draft_cells l frame_end op_count cells (ops @ [cell_op l frame_end cell])) (\<lambda>(cells, ops').
             Inr (cell\<lparr>related_op := Some (length ops), dirty_size := 0, cell_last_frame := frame_end\<rparr> # cells, ops')))
      else
        bindr (draft_cells l frame_end op_count cells ops) (\<lambda>(cells, ops').
          Inr (cell\<lparr>related_op := None\<rparr> # cells, ops')))"

fun draft_layers :: "int \<Rightarrow> nat \<Rightarrow> nat list \<Rightarrow> guac_display \<times> guac_display_plan_operation list \<Rightarrow>
    (guac_display \<times> guac_display_plan_operation list) result" where
  "draft_layers frame_end op_count [] r = Inr r"
| "draft_layers frame_end op_count (l # ls) (d, ops) =
     bindr (draft_cells l frame_end op_count (frame_cells (layer_at d l)) ops) (\<lambda>(cells, ops).
       draft_layers frame_end op_count ls (set_layer l ((layer_at d l)\<lparr>frame_cells := cells\<rparr>) d, ops))"

text \<open>\<open>None\<close> when nothing changed.\<close>

definition guac_display_plan_create :: "nat \<Rightarrow> int \<Rightarrow> guac_display \<Rightarrow> (guac_display_plan_operation list option \<times> guac_display) result" where
  "guac_display_plan_create fuel frame_end d =
     bindr (refine_layers fuel (state_layers (pending_state d)) (d, 0)) (\<lambda>(d, op_count).
       if op_count = 0 then Inr (None, d)
       else
         bindr (draft_layers frame_end op_count (state_layers (pending_state d)) (d, [])) (\<lambda>(d, ops).
           guac_assert (length ops = op_count) (Inr (Some ops, d))))"

section \<open>Comparing lines\<close>

lemma first_difference_correct:
  "length a = length b \<Longrightarrow> first_difference a b \<le> length a \<and> (\<forall>k < first_difference a b. a ! k = b ! k) \<and>
     (first_difference a b < length a \<longrightarrow> a ! first_difference a b \<noteq> b ! first_difference a b)"
proof (induction a b rule: list_induct2)
  case (Cons x xs y ys)
  then show ?case by (auto simp: nth_Cons split: nat.splits)
qed simp

lemma last_difference_correct:
  "length a = length b \<Longrightarrow> found < offset \<Longrightarrow>
     (let r = last_difference a b found offset in
      found \<le> r \<and> (r = found \<or> offset \<le> r \<and> r < offset + length a) \<and> (\<forall>k < length a. a ! k \<noteq> b ! k \<longrightarrow> offset + k \<le> r))"
proof (induction a b arbitrary: found offset rule: list_induct2)
  case (Cons x xs y ys)
  let ?found = "if x \<noteq> y then offset else found"
  let ?r = "last_difference xs ys ?found (offset + 1)"
  have ih: "?found \<le> ?r" "?r = ?found \<or> offset + 1 \<le> ?r \<and> ?r < offset + 1 + length xs"
    "\<forall>k < length xs. xs ! k \<noteq> ys ! k \<longrightarrow> offset + 1 + k \<le> ?r"
    using Cons.IH [of ?found "offset + 1"] Cons.prems by (auto simp: Let_def)
  have "offset + k \<le> ?r" if "k < length (x # xs)" "(x # xs) ! k \<noteq> (y # ys) ! k" for k
    using that ih by (cases k) auto
  then show ?case using ih(1,2) Cons.prems unfolding Let_def by (auto split: if_splits)
qed simp

lemma memcmp_None: "length a = length b \<Longrightarrow> guac_display_memcmp a b = None \<Longrightarrow> a = b"
  using first_difference_correct [of a b] by (auto simp: guac_display_memcmp_def Let_def intro: nth_equalityI split: if_splits)

lemma memcmp_Some:
  assumes "length a = length b" "guac_display_memcmp a b = Some (pos, len)"
  shows "0 < len \<and> pos + len \<le> length a \<and> (\<forall>k < length a. a ! k \<noteq> b ! k \<longrightarrow> pos \<le> k \<and> k < pos + len)"
proof -
  define f where "f = first_difference a b"
  define g where "g = last_difference (drop (f + 1) a) (drop (f + 1) b) f (f + 1)"
  have f: "f < length a" "\<forall>k < f. a ! k = b ! k" and p: "pos = f" "len = g - f + 1"
    using assms first_difference_correct [of a b] by (auto simp: guac_display_memcmp_def f_def g_def Let_def split: if_splits)
  have g: "f \<le> g" "g = f \<or> g < f + 1 + length (drop (f + 1) a)"
    "\<forall>k < length (drop (f + 1) a). drop (f + 1) a ! k \<noteq> drop (f + 1) b ! k \<longrightarrow> f + 1 + k \<le> g"
    using last_difference_correct [of "drop (f + 1) a" "drop (f + 1) b" f "f + 1"] assms(1) by (auto simp: g_def Let_def)
  have "pos \<le> k \<and> k < pos + len" if k: "k < length a" "a ! k \<noteq> b ! k" for k
  proof -
    have "f \<le> k" using f(2) k(2) not_le by blast
    moreover have "k \<le> g" if "k \<noteq> f"
      using g(3) [rule_format, of "k - (f + 1)"] that \<open>f \<le> k\<close> k assms(1) by simp
    ultimately show ?thesis using p g(1) by (cases "k = f") auto
  qed
  moreover have "pos + len \<le> length a" using p f(1) g(1,2) by auto
  ultimately show ?thesis using p by simp
qed

section \<open>Refining a layer\<close>

text \<open>A pixel that users have to be sent.\<close>

definition changed :: "guac_display_layer \<Rightarrow> (int \<times> int) set" where
  "changed layer = {(x, y). (x, y) \<in> pixels (bounds (pending_frame layer)) \<and>
     \<not> ((x, y) \<in> pixels (bounds (last_frame layer)) \<and> px (pending_frame layer) x y = px (last_frame layer) x y)}"

definition cell_rect :: "nat \<Rightarrow> nat \<Rightarrow> guac_rect" where
  "cell_rect cw i = \<lparr>left = 64 * int (i mod cw), top = 64 * int (i div cw),
     right = 64 * int (i mod cw) + 64, bottom = 64 * int (i div cw) + 64\<rparr>"

definition cell_inv :: "guac_display_layer \<Rightarrow> (int \<times> int) set \<Rightarrow> guac_rect \<Rightarrow> nat \<Rightarrow> guac_display_layer_cell \<Rightarrow> bool" where
  "cell_inv layer P dirty i c \<longleftrightarrow>
     (0 < dirty_size c \<longrightarrow> \<not> guac_rect_is_empty (cell_dirty c) \<and>
        pixels (cell_dirty c) \<subseteq> pixels (cell_rect (cells_width layer) i) \<inter> pixels (bounds (pending_frame layer)) \<inter> pixels dirty) \<and>
     (\<exists>M \<subseteq> P \<inter> pixels (cell_rect (cells_width layer) i). finite M \<and> card M = dirty_size c) \<and>
     P \<inter> pixels (cell_rect (cells_width layer) i) \<inter> changed layer \<subseteq> (if 0 < dirty_size c then pixels (cell_dirty c) else {})"

definition refine_inv :: "guac_display_layer \<Rightarrow> nat \<Rightarrow> (int \<times> int) set \<Rightarrow> refined \<Rightarrow> bool" where
  "refine_inv layer0 count0 P r \<longleftrightarrow>
     (\<exists>cells dirty.
        fst r = layer0\<lparr>frame_cells := cells, pending_frame := (pending_frame layer0)\<lparr>ls_dirty := dirty\<rparr>\<rparr> \<and>
        length cells = length (frame_cells layer0) \<and>
        (\<forall>i < length cells. cell_inv layer0 P dirty i (cells ! i)) \<and>
        snd r = count0 + length (filter (\<lambda>c. 0 < dirty_size c) cells))"

abbreviation line :: "int \<Rightarrow> int \<Rightarrow> int \<Rightarrow> (int \<times> int) set" where
  "line x y width \<equiv> {x..<x + width} \<times> {y}"

lemma line_pixels:
  "0 \<le> x \<Longrightarrow> 0 < width \<Longrightarrow> x + width \<le> 8192 \<Longrightarrow> 0 \<le> y \<Longrightarrow> y < 8192 \<Longrightarrow> pixels (guac_rect_init x y width 1) = line x y width"
  by (auto simp: guac_rect_init_def in_int_bounds pixels_def)

lemma finite_pixels [simp]: "finite (pixels r)"
  by (simp add: pixels_def)

lemma card_cell: "card (pixels (cell_rect cw i)) = 4096"
  by (simp add: pixels_def cell_rect_def card_cartesian_product)

lemma count_update:
  assumes "i < length cells"
  shows "length (filter P (cells[i := c])) + (if P (cells ! i) then 1 else 0) = length (filter P cells) + (if P c then 1 else 0)"
proof -
  have e: "take i cells @ cells ! i # drop (Suc i) cells = cells" by (rule id_take_nth_drop [OF assms, symmetric])
  have "length (filter P (take i cells @ cells ! i # drop (Suc i) cells)) =
      length (filter P (take i cells)) + (if P (cells ! i) then 1 else 0) + length (filter P (drop (Suc i) cells))" by simp
  then have "length (filter P cells) = length (filter P (take i cells)) + (if P (cells ! i) then 1 else 0) + length (filter P (drop (Suc i) cells))"
    unfolding e .
  moreover have "cells[i := c] = take i cells @ c # drop (Suc i) cells" using assms by (rule upd_conv_take_nth_drop)
  ultimately show ?thesis by simp
qed

text \<open>Pixels that have not changed need not be noted.\<close>

lemma refine_inv_unchanged:
  assumes "refine_inv layer count P r" "Q \<inter> changed layer = {}"
  shows "refine_inv layer count (P \<union> Q) r"
proof -
  have "cell_inv layer (P \<union> Q) dirty i c" if c: "cell_inv layer P dirty i c" for dirty i c
  proof -
    let ?R = "pixels (cell_rect (cells_width layer) i)"
    have "(P \<union> Q) \<inter> ?R \<inter> changed layer = P \<inter> ?R \<inter> changed layer" using assms(2) by blast
    moreover have "\<exists>M \<subseteq> (P \<union> Q) \<inter> ?R. finite M \<and> card M = dirty_size c" using c unfolding cell_inv_def by blast
    ultimately show ?thesis using c unfolding cell_inv_def by simp
  qed
  then show ?thesis using assms(1) unfolding refine_inv_def by blast
qed

lemma mark_cell_inv:
  assumes inv: "refine_inv layer count P r" and i: "i < length (frame_cells layer)" and s: "state_ok (pending_frame layer)"
    and l: "0 \<le> x" "0 < width" "line x y width \<subseteq> pixels (cell_rect (cells_width layer) i)"
      "line x y width \<subseteq> pixels (bounds (pending_frame layer))" "line x y width \<inter> P = {}"
  shows "\<exists>r'. mark_cell i x y width r = Inr r' \<and> refine_inv layer count (P \<union> line x y width) r'"
proof -
  obtain cells dirty where r: "fst r = layer\<lparr>frame_cells := cells, pending_frame := (pending_frame layer)\<lparr>ls_dirty := dirty\<rparr>\<rparr>"
    "length cells = length (frame_cells layer)" "\<forall>i < length cells. cell_inv layer P dirty i (cells ! i)"
    "snd r = count + length (filter (\<lambda>c. 0 < dirty_size c) cells)"
    using inv by (auto simp: refine_inv_def)
  let ?L = "line x y width" and ?R = "\<lambda>i. pixels (cell_rect (cells_width layer) i)"
  define c where "c = cells ! i"
  have c: "cell_inv layer P dirty i c" using r(2,3) i by (simp add: c_def)
  define seg where "seg = guac_rect_init x y width 1"
  have "(x, y) \<in> ?L" "(x + width - 1, y) \<in> ?L" using l(2) by auto
  then have "(x + width - 1, y) \<in> pixels (bounds (pending_frame layer))" using l(4) by blast
  then have b: "0 \<le> y" "y < 8192" "x + width \<le> 8192" using state_okD [OF s] by simp_all
  have seg: "pixels seg = ?L" unfolding seg_def using l(1,2) b by (intro line_pixels) auto
  have ne: "?L \<noteq> {}" using l(2) by auto
  then have seg_ne: "\<not> guac_rect_is_empty seg" by (simp add: is_empty_pixels seg)
  define c' where "c' = fst (guac_display_plan_mark_dirty c (snd r) x y width)"
  have size: "dirty_size c' = dirty_size c + nat width"
    by (simp add: c'_def guac_display_plan_mark_dirty_def)
  have dirty': "cell_dirty c' = (if dirty_size c = 0 then seg else guac_rect_extend (cell_dirty c) seg)"
    by (simp add: c'_def guac_display_plan_mark_dirty_def seg_def)
  have sub: "pixels (cell_dirty c') \<subseteq> ?R i \<inter> pixels (bounds (pending_frame layer))"
  proof (cases "dirty_size c = 0")
    case True
    then show ?thesis using l(3,4) by (simp add: dirty' seg)
  next
    case False
    then have "pixels (cell_dirty c) \<subseteq> ?R i" "pixels (cell_dirty c) \<subseteq> pixels (bounds (pending_frame layer))"
      using c by (auto simp: cell_inv_def)
    then show ?thesis using extend_least [OF _ _ seg_ne] l(3,4) False by (simp add: dirty' seg)
  qed
  have grow: "(if 0 < dirty_size c then pixels (cell_dirty c) else {}) \<union> ?L \<subseteq> pixels (cell_dirty c')"
    using extend_pixels [of "cell_dirty c" seg] by (simp add: dirty' seg)
  define all where "all = guac_rect_extend dirty (cell_dirty c')"
  have all: "pixels dirty \<union> pixels (cell_dirty c') \<subseteq> pixels all" unfolding all_def by (rule extend_pixels)
  define cells' where "cells' = cells[i := c']"
  have count: "length (filter (\<lambda>c. 0 < dirty_size c) cells') =
      length (filter (\<lambda>c. 0 < dirty_size c) cells) + (if dirty_size c = 0 then 1 else 0)"
    using count_update [of i cells "\<lambda>c. 0 < dirty_size c" c'] i r(2) size l(2) by (auto simp: cells'_def c_def split: if_splits)
  define r' where "r' = (layer\<lparr>frame_cells := cells', pending_frame := (pending_frame layer)\<lparr>ls_dirty := all\<rparr>\<rparr>,
      count + length (filter (\<lambda>c. 0 < dirty_size c) cells'))"
  have run: "mark_cell i x y width r = Inr r'"
  proof -
    obtain n where m: "guac_display_plan_mark_dirty c (snd r) x y width = (c', n)" and
      n: "n = snd r + (if dirty_size c = 0 then 1 else 0)"
      by (simp add: c'_def guac_display_plan_mark_dirty_def split: if_splits)
    then have "n = count + length (filter (\<lambda>c. 0 < dirty_size c) cells')" using count r(4) by simp
    then show ?thesis
      using i m by (cases r) (use r(1,2) in \<open>simp add: mark_cell_def r'_def cells'_def all_def c_def [symmetric]\<close>)
  qed
  have "cell_inv layer (P \<union> ?L) all j (cells' ! j)" if j: "j < length cells'" for j
  proof (cases "j = i")
    case True
    obtain M where M: "M \<subseteq> P \<inter> ?R i" "finite M" "card M = dirty_size c" using c unfolding cell_inv_def by blast
    have "card (M \<union> ?L) = dirty_size c'"
      using M l(5) l(2) by (subst card_Un_disjoint) (auto simp: size card_cartesian_product)
    moreover have "M \<union> ?L \<subseteq> (P \<union> ?L) \<inter> ?R i" "finite (M \<union> ?L)" using M l(3) by auto
    ultimately have m: "\<exists>M \<subseteq> (P \<union> ?L) \<inter> ?R i. finite M \<and> card M = dirty_size c'" by blast
    have "P \<inter> ?R i \<inter> changed layer \<subseteq> (if 0 < dirty_size c then pixels (cell_dirty c) else {})" using c unfolding cell_inv_def by blast
    then have "(P \<union> ?L) \<inter> ?R i \<inter> changed layer \<subseteq> pixels (cell_dirty c')" using grow by blast
    moreover have "\<not> guac_rect_is_empty (cell_dirty c')" using grow ne by (auto simp: is_empty_pixels)
    ultimately show ?thesis using True sub all m size l(2) i r(2) unfolding cell_inv_def cells'_def by auto
  next
    case False
    have disj: "?L \<inter> ?R j = {}"
    proof -
      have "i = j" if "p \<in> ?R i" "p \<in> ?R j" for p
      proof -
        obtain a b where "p = (a, b)" by (cases p)
        then have "int (i mod cells_width layer) = int (j mod cells_width layer)" "int (i div cells_width layer) = int (j div cells_width layer)"
          using that by (simp_all add: cell_rect_def)
        then show ?thesis by (metis div_mult_mod_eq of_nat_eq_iff)
      qed
      then have "?R i \<inter> ?R j = {}" using False by blast
      then show ?thesis using l(3) by blast
    qed
    have "cell_inv layer P dirty j (cells ! j)" using j r(3) by (simp add: cells'_def)
    moreover have "(P \<union> ?L) \<inter> ?R j = P \<inter> ?R j" using disj by blast
    ultimately have "cell_inv layer (P \<union> ?L) all j (cells ! j)" using all unfolding cell_inv_def by auto
    then show ?thesis using False by (simp add: cells'_def)
  qed
  then have "refine_inv layer count (P \<union> ?L) r'"
    using r(2) unfolding refine_inv_def by (intro exI [of _ cells'] exI [of _ all]) (simp add: r'_def, simp add: cells'_def)
  then show ?thesis using run by blast
qed

text \<open>One segment of a line, the pixels of one cell in it.\<close>

lemma changed_sel [simp]:
  "changed (layer\<lparr>frame_cells := cells, pending_frame := (pending_frame layer)\<lparr>ls_dirty := dirty\<rparr>\<rparr>) = changed layer"
  by (auto simp: changed_def px_def row_offset_def bounds_def split: option.split)

lemma refine_segment_inv:
  assumes inv: "refine_inv layer count P r" and i: "i < length (frame_cells layer)" and ok: "state_ok (pending_frame layer)" "state_ok (last_frame layer)"
    and l: "0 \<le> x" "0 < width" "line x y width \<subseteq> pixels (cell_rect (cells_width layer) i)"
      "line x y width \<subseteq> pixels (bounds (pending_frame layer))" "line x y width \<inter> P = {}"
  shows "\<exists>r'. refine_segment i x y width r = Inr r' \<and> refine_inv layer count (P \<union> line x y width) r'"
proof -
  let ?last = "last_frame layer" and ?pending = "pending_frame layer"
  have same: "last_frame (fst r) = ?last" using inv by (auto simp: refine_inv_def)
  have y: "0 \<le> y" "y < ls_height ?pending" "x + width \<le> ls_width ?pending"
  proof -
    have "(x + width - 1, y) \<in> pixels (bounds ?pending)" using l(2,4) by (auto simp: subset_iff)
    then show "0 \<le> y" "y < ls_height ?pending" "x + width \<le> ls_width ?pending" by simp_all
  qed
  show ?thesis
  proof (cases "y \<ge> ls_height ?last \<or> x \<ge> ls_width ?last")
    case True
    then show ?thesis using mark_cell_inv [OF inv i ok(1) l] by (simp add: refine_segment_def same)
  next
    case False
    define w where "w = (if x + width > ls_width ?last then ls_width ?last - x else width)"
    have w: "0 < w" "w \<le> width" "x + w \<le> ls_width ?last" using False l(2) by (auto simp: w_def)
    have split: "line x y width = line x y w \<union> line (x + w) y (width - w)" using w by auto
    have "\<exists>r1. (if width > w then mark_cell i (x + w) y (width - w) r else Inr r) = Inr r1 \<and>
        refine_inv layer count (P \<union> line (x + w) y (width - w)) r1"
    proof (cases "width > w")
      case True
      then show ?thesis using mark_cell_inv [OF inv i ok(1), of "x + w" "width - w" y] l split w by auto
    next
      case False
      then have "line (x + w) y (width - w) = {}" by simp
      then show ?thesis using inv False by (metis Un_empty_right)
    qed
    then obtain r1 where r1: "(if width > w then mark_cell i (x + w) y (width - w) r else Inr r) = Inr r1"
      "refine_inv layer count (P \<union> line (x + w) y (width - w)) r1" by blast
    obtain cells dirty where c: "fst r1 = layer\<lparr>frame_cells := cells, pending_frame := ?pending\<lparr>ls_dirty := dirty\<rparr>\<rparr>"
      using r1(2) by (auto simp: refine_inv_def)
    have row: "row_at (pending_frame (fst r1)) x y (nat w) = Inr (map (\<lambda>k. px ?pending (x + int k) y) [0..<nat w])"
      "row_at (last_frame (fst r1)) x y (nat w) = Inr (map (\<lambda>k. px ?last (x + int k) y) [0..<nat w])"
    proof -
      have "row_at (pending_frame (fst r1)) x y (nat w) = row_at ?pending x y (nat w)" by (simp add: c row_at_def row_offset_def split: option.split)
      then show "row_at (pending_frame (fst r1)) x y (nat w) = Inr (map (\<lambda>k. px ?pending (x + int k) y) [0..<nat w])"
        using row_at_px [OF ok(1) l(1), of "nat w" y] w y state_okD [OF ok(1)] by simp
      show "row_at (last_frame (fst r1)) x y (nat w) = Inr (map (\<lambda>k. px ?last (x + int k) y) [0..<nat w])"
        using row_at_px [OF ok(2) l(1), of "nat w" y] w False y state_okD [OF ok(2)] by (simp add: c)
    qed
    define a where "a = map (\<lambda>k. px ?pending (x + int k) y) [0..<nat w]"
    define b where "b = map (\<lambda>k. px ?last (x + int k) y) [0..<nat w]"
    have run: "refine_segment i x y width r =
        (case guac_display_memcmp a b of None \<Rightarrow> Inr r1 | Some (pos, len) \<Rightarrow> mark_cell i (x + int pos) y (int len) r1)"
      using False w r1(1) row by (simp add: refine_segment_def same Let_def w_def [symmetric] a_def b_def)
    have same_px: "(u, y) \<notin> changed layer" if "x \<le> u" "u < x + w" "a ! nat (u - x) = b ! nat (u - x)" for u
      using that False w by (simp add: changed_def a_def b_def l(1) y(1))
    have lab: "length a = length b" "length a = nat w" by (simp_all add: a_def b_def)
    let ?P1 = "P \<union> line (x + w) y (width - w)"
    show ?thesis
    proof (cases "guac_display_memcmp a b")
      case None
      then have "a = b" using memcmp_None [OF lab(1)] by simp
      then have "line x y w \<inter> changed layer = {}" using same_px by auto
      from refine_inv_unchanged [OF r1(2) this] have "refine_inv layer count (P \<union> line x y width) r1"
        by (simp add: split Un_ac)
      then show ?thesis using run None by simp
    next
      case (Some p)
      then obtain pos len where p: "guac_display_memcmp a b = Some (pos, len)" by (cases p) simp
      have m: "0 < len" "pos + len \<le> nat w" "\<forall>k < nat w. a ! k \<noteq> b ! k \<longrightarrow> pos \<le> k \<and> k < pos + len"
        using memcmp_Some [OF lab(1) p] lab(2) by auto
      let ?S = "line (x + int pos) y (int len)"
      have S: "?S \<subseteq> line x y w" using m(2) by auto
      then have S': "?S \<subseteq> line x y width" using split by blast
      have f: "0 \<le> x + int pos" "0 < int len" "?S \<subseteq> pixels (cell_rect (cells_width layer) i)" "?S \<subseteq> pixels (bounds ?pending)"
        using l(1) m(1) order_trans [OF S' l(3)] order_trans [OF S' l(4)] by simp_all
      have "?S \<inter> line (x + w) y (width - w) = {}" using S by auto
      then have "?S \<inter> ?P1 = {}" using S' l(5) by blast
      from mark_cell_inv [OF r1(2) i ok(1) f this] obtain r' where r': "mark_cell i (x + int pos) y (int len) r1 = Inr r'" "refine_inv layer count (?P1 \<union> ?S) r'" by blast
      have "(line x y w - ?S) \<inter> changed layer = {}"
      proof -
        have "(u, y) \<notin> changed layer" if u: "x \<le> u" "u < x + w" "\<not> (x + int pos \<le> u \<and> u < x + int pos + int len)" for u
        proof (rule same_px [OF u(1,2)])
          have "nat (u - x) < nat w" "\<not> (pos \<le> nat (u - x) \<and> nat (u - x) < pos + len)" using u by auto
          then show "a ! nat (u - x) = b ! nat (u - x)" using m(3) by blast
        qed
        then have "p \<notin> (line x y w - ?S) \<inter> changed layer" for p by (cases p) auto
        then show ?thesis by blast
      qed
      from refine_inv_unchanged [OF r'(2) this]
      have "refine_inv layer count (P \<union> line x y width) r'"
      proof -
        have "?P1 \<union> ?S \<union> (line x y w - ?S) = P \<union> line x y width" using S split by blast
        then show ?thesis using refine_inv_unchanged [OF r'(2) \<open>(line x y w - ?S) \<inter> changed layer = {}\<close>] by simp
      qed
      then show ?thesis using run p r'(1) by simp
    qed
  qed
qed

section \<open>The loops\<close>

text \<open>The rectangle the loops run over: inside the layer, and starting at the corner of a cell.\<close>

definition loop_rect :: "guac_display_layer \<Rightarrow> guac_rect \<Rightarrow> bool" where
  "loop_rect layer D \<longleftrightarrow> 0 \<le> left D \<and> left D mod 64 = 0 \<and> right D \<le> ls_width (pending_frame layer) \<and>
     0 \<le> top D \<and> top D mod 64 = 0 \<and> bottom D \<le> ls_height (pending_frame layer)"

lemma cell_index:
  fixes cw k q :: nat
  assumes "k < cw"
  shows "cell_rect cw (q * cw + k) = \<lparr>left = 64 * int k, top = 64 * int q, right = 64 * int k + 64, bottom = 64 * int q + 64\<rparr>"
  using assms by (simp add: cell_rect_def)

lemma cell_bound:
  assumes "layer_ok layer" "0 \<le> x" "x < ls_width (pending_frame layer)" "0 \<le> y" "y < ls_height (pending_frame layer)"
  shows "nat (x div 64) < cells_width layer" "nat (y div 64) * cells_width layer + nat (x div 64) < length (frame_cells layer)"
proof -
  have d: "a < 64 * c \<Longrightarrow> a div 64 < c" for a c :: int by presburger
  have "x div 64 < int (cells_width layer)" "y div 64 < int (cells_height layer)" using assms by (simp_all add: layer_ok_def d)
  then show k: "nat (x div 64) < cells_width layer" and "nat (y div 64) * cells_width layer + nat (x div 64) < length (frame_cells layer)"
  proof -
    have "nat (x div 64) < cells_width layer" "nat (y div 64) < cells_height layer"
      using \<open>x div 64 < int (cells_width layer)\<close> \<open>y div 64 < int (cells_height layer)\<close> assms by auto
    then have "nat (y div 64) * cells_width layer + nat (x div 64) < Suc (nat (y div 64)) * cells_width layer" by simp
    also have "\<dots> \<le> cells_height layer * cells_width layer"
      using \<open>nat (y div 64) < cells_height layer\<close> by (intro mult_right_mono) auto
    finally show "nat (y div 64) * cells_width layer + nat (x div 64) < length (frame_cells layer)"
      using assms(1) by (simp add: layer_ok_def mult.commute)
    show "nat (x div 64) < cells_width layer" by fact
  qed
qed

lemma refine_line_inv:
  assumes ok: "layer_ok layer" and D: "loop_rect layer D" and y: "0 \<le> y" "y < ls_height (pending_frame layer)"
  shows "refine_inv layer count P r \<Longrightarrow> 0 \<le> x \<Longrightarrow> x mod 64 = 0 \<Longrightarrow> i = nat (y div 64) * cells_width layer + nat (x div 64) \<Longrightarrow>
    ({x..<right D} \<times> {y}) \<inter> P = {} \<Longrightarrow>
    \<exists>r'. refine_line D y x i r = Inr r' \<and> refine_inv layer count (P \<union> {x..<right D} \<times> {y}) r'"
proof (induction "nat (right D - x)" arbitrary: x i P r rule: less_induct)
  case less
  note simps = refine_line.simps [of D y x i r]
  show ?case
  proof (cases "x < right D")
    case False
    then show ?thesis using less.prems(1) simps by simp
  next
    case True
    define w where "w = (if x + 64 > right D then right D - x else 64)"
    have w: "0 < w" "x + w \<le> right D" "w \<le> 64" using True by (auto simp: w_def)
    have in_layer: "x < ls_width (pending_frame layer)" "x + w \<le> ls_width (pending_frame layer)" using D True w by (auto simp: loop_rect_def)
    note b = cell_bound [OF ok less.prems(2) in_layer(1) y]
    have i: "i < length (frame_cells layer)" using b(2) less.prems(4) by simp
    have cell: "cell_rect (cells_width layer) i =
        \<lparr>left = x, top = 64 * (y div 64), right = x + 64, bottom = 64 * (y div 64) + 64\<rparr>"
    proof -
      have "0 \<le> x div 64" "0 \<le> y div 64" "64 * (x div 64) = x" using less.prems(2,3) y(1) by auto
      then show ?thesis using cell_index [OF b(1), of "nat (y div 64)"] less.prems(4) by simp
    qed
    have yq: "64 * (y div 64) \<le> y" "y < 64 * (y div 64) + 64" by linarith+
    have L: "line x y w \<subseteq> pixels (cell_rect (cells_width layer) i)" "line x y w \<subseteq> pixels (bounds (pending_frame layer))"
      using w yq in_layer y less.prems(2) by (auto simp: cell)
    have "line x y w \<subseteq> {x..<right D} \<times> {y}" using w by auto
    then have disj: "line x y w \<inter> P = {}" using less.prems(5) by blast
    have st: "state_ok (pending_frame layer)" "state_ok (last_frame layer)" using ok by (simp_all add: layer_ok_def)
    obtain r1 where r1: "refine_segment i x y w r = Inr r1" "refine_inv layer count (P \<union> line x y w) r1"
      using refine_segment_inv [OF less.prems(1) i st less.prems(2) w(1) L disj] by blast
    have m: "nat (right D - (x + 64)) < nat (right D - x)" using True by simp
    have al: "0 \<le> x + 64" "(x + 64) mod 64 = 0" using less.prems by simp_all
    have i': "i + 1 = nat (y div 64) * cells_width layer + nat ((x + 64) div 64)" using less.prems(2,4) by simp
    have disj': "({x + 64..<right D} \<times> {y}) \<inter> (P \<union> line x y w) = {}"
    proof -
      have "{x + 64..<right D} \<times> {y} \<subseteq> {x..<right D} \<times> {y}" by auto
      moreover have "({x + 64..<right D} \<times> {y}) \<inter> line x y w = {}" using w(3) by auto
      ultimately show ?thesis using less.prems(5) by blast
    qed
    from less.hyps [OF m r1(2) al i' disj'] obtain r' where r': "refine_line D y (x + 64) (i + 1) r1 = Inr r'"
      "refine_inv layer count ((P \<union> line x y w) \<union> {x + 64..<right D} \<times> {y}) r'" by blast
    have "line x y w \<union> {x + 64..<right D} \<times> {y} = {x..<right D} \<times> {y}" using w by (auto simp: w_def split: if_splits)
    then have "refine_inv layer count (P \<union> {x..<right D} \<times> {y}) r'" using r'(2) by (simp add: Un_assoc)
    moreover have "refine_line D y x i r = Inr r'"
      unfolding simps GUAC_DISPLAY_CELL_SIZE_def Let_def w_def [symmetric] using True r1(1) r'(1) w(1) by simp
    ultimately show ?thesis by blast
  qed
qed

lemma refine_lines_inv:
  assumes ok: "layer_ok layer" and D: "loop_rect layer D"
  shows "refine_inv layer count P r \<Longrightarrow> 64 * int q \<le> y \<Longrightarrow> y + int n \<le> 64 * int q + 64 \<Longrightarrow> y + int n \<le> ls_height (pending_frame layer) \<Longrightarrow>
    i = q * cells_width layer + nat (left D div 64) \<Longrightarrow> ({left D..<right D} \<times> {y..<y + int n}) \<inter> P = {} \<Longrightarrow>
    \<exists>r'. refine_lines n D y i r = Inr r' \<and> refine_inv layer count (P \<union> {left D..<right D} \<times> {y..<y + int n}) r'"
proof (induction n arbitrary: y P r)
  case (Suc n)
  let ?L = "{left D..<right D} \<times> {y}"
  have y: "0 \<le> y" "y < ls_height (pending_frame layer)" "nat (y div 64) = q" using Suc.prems by auto
  have "?L \<subseteq> {left D..<right D} \<times> {y..<y + int (Suc n)}" by auto
  then have "?L \<inter> P = {}" using Suc.prems(6) by blast
  then obtain r1 where r1: "refine_line D y (left D) i r = Inr r1" "refine_inv layer count (P \<union> ?L) r1"
    using refine_line_inv [OF ok D y(1,2) Suc.prems(1), of "left D" i] D Suc.prems(5) y(3) by (auto simp: loop_rect_def)
  have "{left D..<right D} \<times> {y + 1..<y + 1 + int n} \<subseteq> {left D..<right D} \<times> {y..<y + int (Suc n)}" by auto
  moreover have "({left D..<right D} \<times> {y + 1..<y + 1 + int n}) \<inter> ?L = {}" by auto
  ultimately have "({left D..<right D} \<times> {y + 1..<y + 1 + int n}) \<inter> (P \<union> ?L) = {}" using Suc.prems(6) by blast
  then obtain r' where r': "refine_lines n D (y + 1) i r1 = Inr r'"
    "refine_inv layer count ((P \<union> ?L) \<union> {left D..<right D} \<times> {y + 1..<y + 1 + int n}) r'"
    using Suc.IH [OF r1(2), of "y + 1"] Suc.prems(2-5) by auto
  have "?L \<union> {left D..<right D} \<times> {y + 1..<y + 1 + int n} = {left D..<right D} \<times> {y..<y + int (Suc n)}" by auto
  then show ?case using r1(1) r' by (simp add: Un_assoc)
qed simp

lemma refine_rows_inv:
  assumes ok: "layer_ok layer" and D: "loop_rect layer D"
  shows "refine_inv layer count P r \<Longrightarrow> 0 \<le> y \<Longrightarrow> y mod 64 = 0 \<Longrightarrow> i = nat (y div 64) * cells_width layer + nat (left D div 64) \<Longrightarrow>
    ({left D..<right D} \<times> {y..<bottom D}) \<inter> P = {} \<Longrightarrow>
    \<exists>r'. refine_rows D y i r = Inr r' \<and> refine_inv layer count (P \<union> {left D..<right D} \<times> {y..<bottom D}) r'"
proof (induction "nat (bottom D - y)" arbitrary: y i P r rule: less_induct)
  case less
  note simps = refine_rows.simps [of D y i r]
  show ?case
  proof (cases "y < bottom D")
    case False
    then show ?thesis using less.prems(1) simps by simp
  next
    case True
    define h where "h = (if y + 64 > bottom D then bottom D - y else 64)"
    have h: "0 < h" "h \<le> 64" "y + h \<le> bottom D" using True by (auto simp: h_def)
    have q: "64 * int (nat (y div 64)) = y"
    proof -
      have "0 \<le> y div 64" "64 * (y div 64) = y" using less.prems(2,3) by auto
      then show ?thesis by simp
    qed
    let ?B = "{left D..<right D} \<times> {y..<y + h}"
    have "?B \<subseteq> {left D..<right D} \<times> {y..<bottom D}" using h by auto
    then have B: "({left D..<right D} \<times> {y..<y + int (nat h)}) \<inter> P = {}" using h less.prems(5) by auto
    have bot: "bottom D \<le> ls_height (pending_frame layer)" using D by (simp add: loop_rect_def)
    obtain r1 where r1: "refine_lines (nat h) D y i r = Inr r1" "refine_inv layer count (P \<union> ?B) r1"
      using refine_lines_inv [OF ok D less.prems(1), of "nat (y div 64)" y "nat h" i] q h bot less.prems(4) B by auto
    have cw: "cells_width (fst r1) = cells_width layer" using r1(2) by (auto simp: refine_inv_def)
    have m: "nat (bottom D - (y + 64)) < nat (bottom D - y)" using True by simp
    have al: "0 \<le> y + 64" "(y + 64) mod 64 = 0" using less.prems by simp_all
    have i': "i + cells_width layer = nat ((y + 64) div 64) * cells_width layer + nat (left D div 64)"
    proof -
      have "nat ((y + 64) div 64) = Suc (nat (y div 64))" using less.prems(2) by (simp add: Suc_nat_eq_nat_zadd1)
      then show ?thesis using less.prems(4) by simp
    qed
    have disj: "({left D..<right D} \<times> {y + 64..<bottom D}) \<inter> (P \<union> ?B) = {}"
    proof -
      have "{left D..<right D} \<times> {y + 64..<bottom D} \<subseteq> {left D..<right D} \<times> {y..<bottom D}" by auto
      moreover have "({left D..<right D} \<times> {y + 64..<bottom D}) \<inter> ?B = {}" using h by auto
      ultimately show ?thesis using less.prems(5) by blast
    qed
    from less.hyps [OF m r1(2) al i' disj] obtain r' where r': "refine_rows D (y + 64) (i + cells_width layer) r1 = Inr r'"
      "refine_inv layer count ((P \<union> ?B) \<union> {left D..<right D} \<times> {y + 64..<bottom D}) r'" by blast
    have "?B \<union> {left D..<right D} \<times> {y + 64..<bottom D} = {left D..<right D} \<times> {y..<bottom D}"
      using h by (auto simp: h_def split: if_splits)
    then have "refine_inv layer count (P \<union> {left D..<right D} \<times> {y..<bottom D}) r'" using r'(2) by (simp add: Un_assoc)
    moreover have "refine_rows D y i r = Inr r'"
      unfolding simps GUAC_DISPLAY_CELL_SIZE_def Let_def h_def [symmetric] using True r1(1) r'(1) cw by simp
    ultimately show ?thesis by blast
  qed
qed

section \<open>The draft of a frame\<close>

definition dirty_cells :: "guac_display_layer \<Rightarrow> guac_display_layer_cell list" where
  "dirty_cells layer = filter (\<lambda>c. 0 < dirty_size c) (frame_cells layer)"

text \<open>Edges that leave room for alignment.\<close>

definition roomy :: "guac_rect \<Rightarrow> bool" where
  "roomy r \<longleftrightarrow> in_int (right r + 63) \<and> in_int (bottom r + 63)"

text \<open>What refining a layer achieves: the cells hold what changed in the region that was reported.\<close>

definition refined_from :: "guac_display_layer \<Rightarrow> guac_display_layer \<Rightarrow> bool" where
  "refined_from layer layer' \<longleftrightarrow>
     (\<exists>P. pixels (ls_dirty (pending_frame layer)) \<inter> pixels (bounds (pending_frame layer)) \<subseteq> P \<and>
        refine_inv layer 0 P (layer', length (dirty_cells layer')))"

lemma refine_inv_start:
  assumes "layer_ok layer"
  shows "refine_inv layer count {} (layer\<lparr>pending_frame := (pending_frame layer)\<lparr>ls_dirty := r\<rparr>\<rparr>, count)"
proof -
  have z: "dirty_size (frame_cells layer ! i) = 0" if "i < length (frame_cells layer)" for i
    using assms that by (simp add: layer_ok_def)
  then have "filter (\<lambda>c. 0 < dirty_size c) (frame_cells layer) = []" by (auto simp: filter_empty_conv in_set_conv_nth)
  moreover have "cell_inv layer {} r i (frame_cells layer ! i)" if "i < length (frame_cells layer)" for i
    using z [OF that] by (auto simp: cell_inv_def)
  ultimately show ?thesis unfolding refine_inv_def
    by (intro exI [of _ "frame_cells layer"] exI [of _ r]) simp
qed

lemma refine_layer_run:
  assumes ok: "layer_ok layer" and room: "roomy (ls_dirty (pending_frame layer))"
  shows "\<exists>layer'. refine_layer (layer, count) = Inr (layer', count + length (dirty_cells layer')) \<and> refined_from layer layer'"
proof -
  let ?s = "pending_frame layer"
  have shift: "\<exists>layer'. r = (layer', count + length (dirty_cells layer')) \<and> refined_from layer layer'"
    if "refine_inv layer count P r" "pixels (ls_dirty ?s) \<inter> pixels (bounds ?s) \<subseteq> P" for P r
  proof -
    note inv = that(1)
    obtain cells dirty where c: "fst r = layer\<lparr>frame_cells := cells, pending_frame := (pending_frame layer)\<lparr>ls_dirty := dirty\<rparr>\<rparr>"
      "length cells = length (frame_cells layer)" "\<forall>i < length cells. cell_inv layer P dirty i (cells ! i)"
      "snd r = count + length (filter (\<lambda>c. 0 < dirty_size c) cells)"
      using inv unfolding refine_inv_def by blast
    then have "r = (fst r, count + length (dirty_cells (fst r)))" by (simp add: dirty_cells_def prod_eq_iff)
    moreover have "refine_inv layer 0 P (fst r, length (dirty_cells (fst r)))"
      unfolding refine_inv_def using c by (intro exI [of _ cells] exI [of _ dirty]) (simp add: dirty_cells_def)
    ultimately have "r = (fst r, count + length (dirty_cells (fst r)))" "refine_inv layer 0 P (fst r, length (dirty_cells (fst r)))"
      by blast+
    then show ?thesis using that(2) unfolding refined_from_def by blast
  qed
  show ?thesis
  proof (cases "guac_rect_is_empty (ls_dirty ?s)")
    case True
    have "refine_inv layer count {} (layer, count)" using refine_inv_start [OF ok, of count "ls_dirty ?s"] by simp
    then have "\<exists>layer'. (layer, count) = (layer', count + length (dirty_cells layer')) \<and> refined_from layer layer'"
      by (rule shift) (use True in \<open>simp add: is_empty_pixels\<close>)
    then show ?thesis using True by (auto simp: refine_layer_def Let_def)
  next
    case False
    obtain A where A: "guac_rect_align (ls_dirty ?s) 6 = Inr A"
      "left A = left (ls_dirty ?s) - left (ls_dirty ?s) mod 64" "top A = top (ls_dirty ?s) - top (ls_dirty ?s) mod 64"
      "right A = right (ls_dirty ?s) + 63 - (right (ls_dirty ?s) + 63) mod 64"
      "bottom A = bottom (ls_dirty ?s) + 63 - (bottom (ls_dirty ?s) + 63) mod 64"
      using align_run [of 6 "ls_dirty ?s"] room by (auto simp: roomy_def)
    define D where "D = guac_rect_constrain A (bounds ?s)"
    have m: "e mod 64 < 64" "0 \<le> e mod 64" for e :: int by simp_all
    have cover: "pixels (ls_dirty ?s) \<subseteq> pixels A"
      unfolding pixels_subset using A m [of "left (ls_dirty ?s)"] m [of "top (ls_dirty ?s)"]
        m [of "right (ls_dirty ?s) + 63"] m [of "bottom (ls_dirty ?s) + 63"] by linarith
    have PD: "pixels D = {left D..<right D} \<times> {top D..<bottom D}" by (simp add: pixels_def)
    have al: "(e - e mod 64) mod 64 = 0" for e :: int by presburger
    have D: "loop_rect layer D"
      by (simp add: D_def guac_rect_constrain_def loop_rect_def A al)
    have idx: "nat (cdiv (top D) 64) * cells_width layer + nat (cdiv (left D) 64) = nat (top D div 64) * cells_width layer + nat (left D div 64)"
      using D by (simp add: loop_rect_def)
    have "\<exists>r'. refine_rows D (top D) (nat (top D div 64) * cells_width layer + nat (left D div 64))
        (layer\<lparr>pending_frame := ?s\<lparr>ls_dirty := empty_rect\<rparr>\<rparr>, count) = Inr r' \<and>
        refine_inv layer count ({} \<union> {left D..<right D} \<times> {top D..<bottom D}) r'"
      using D by (intro refine_rows_inv [OF ok D refine_inv_start [OF ok]]) (auto simp: loop_rect_def)
    then obtain r where r: "refine_rows D (top D) (nat (top D div 64) * cells_width layer + nat (left D div 64))
        (layer\<lparr>pending_frame := ?s\<lparr>ls_dirty := empty_rect\<rparr>\<rparr>, count) = Inr r" "refine_inv layer count (pixels D) r"
      unfolding PD by auto
    have "pixels (ls_dirty ?s) \<inter> pixels (bounds ?s) \<subseteq> pixels D" using cover by (auto simp: D_def constrain_pixels)
    from shift [OF r(2) this] obtain layer' where "r = (layer', count + length (dirty_cells layer'))" "refined_from layer layer'" by blast
    moreover have "refine_layer (layer, count) = Inr r"
      using False A(1) r(1) idx
      by (simp add: refine_layer_def Let_def GUAC_DISPLAY_CELL_SIZE_EXPONENT_def GUAC_DISPLAY_CELL_SIZE_def bounds_def [symmetric] D_def [symmetric])
    ultimately show ?thesis by blast
  qed
qed

text \<open>A display whose frame can be drafted: every change has been reported.\<close>

definition reported :: "guac_display_layer \<Rightarrow> bool" where
  "reported layer \<longleftrightarrow> changed layer \<subseteq> pixels (ls_dirty (pending_frame layer)) \<and> roomy (ls_dirty (pending_frame layer))"

lemma refine_layers_run:
  assumes "distinct ls" "length ls < fuel" "\<forall>l \<in> set ls. layer_ok (layer_at d l) \<and> roomy (ls_dirty (pending_frame (layer_at d l)))"
  shows "\<exists>h. refine_layers fuel ls (d, count) = Inr (d\<lparr>layer_at := h\<rparr>, count + (\<Sum>l \<leftarrow> ls. length (dirty_cells (h l)))) \<and>
    (\<forall>l. if l \<in> set ls then refined_from (layer_at d l) (h l) else h l = layer_at d l)"
  using assms
proof (induction ls arbitrary: d count fuel)
  case Nil
  then obtain n where "fuel = Suc n" by (cases fuel) auto
  then show ?case by (intro exI [of _ "layer_at d"]) simp
next
  case (Cons l ls)
  then obtain n where n: "fuel = Suc n" "length ls < n" by (cases fuel) auto
  have ok: "layer_ok (layer_at d l)" "roomy (ls_dirty (pending_frame (layer_at d l)))" using Cons.prems by simp_all
  obtain layer' where l: "refine_layer (layer_at d l, count) = Inr (layer', count + length (dirty_cells layer'))" "refined_from (layer_at d l) layer'"
    using refine_layer_run [OF ok] by blast
  let ?d = "set_layer l layer' d" and ?n = "count + length (dirty_cells layer')"
  have "\<forall>k \<in> set ls. layer_ok (layer_at ?d k) \<and> roomy (ls_dirty (pending_frame (layer_at ?d k)))"
    using Cons.prems by (auto simp: set_layer_def)
  then obtain h where h: "refine_layers n ls (?d, ?n) = Inr (?d\<lparr>layer_at := h\<rparr>, ?n + (\<Sum>l \<leftarrow> ls. length (dirty_cells (h l))))"
    "\<forall>k. if k \<in> set ls then refined_from (layer_at ?d k) (h k) else h k = layer_at ?d k"
    using Cons.IH [of n ?d ?n] Cons.prems(1) n(2) by auto
  have hl: "h l = layer'" using h(2) [rule_format, of l] Cons.prems(1) by (simp add: set_layer_def)
  obtain b where "ls_buffer (pending_frame (layer_at d l)) = Some b" using ok by (auto simp: layer_ok_def state_ok_def)
  then have "refine_layers fuel (l # ls) (d, count) = Inr (d\<lparr>layer_at := h\<rparr>, count + (\<Sum>l \<leftarrow> l # ls. length (dirty_cells (h l))))"
    using l(1) h(1) hl n(1) by (simp add: set_layer_def)
  moreover have "if k \<in> set (l # ls) then refined_from (layer_at d k) (h k) else h k = layer_at d k" for k
    using h(2) [rule_format, of k] hl l(2) Cons.prems(1) by (cases "k = l") (auto simp: set_layer_def split: if_splits)
  ultimately show ?case by blast
qed

lemma draft_cells_run:
  "length ops + length (filter (\<lambda>c. 0 < dirty_size c) cells) \<le> n \<Longrightarrow>
   \<exists>cells'. draft_cells l t n cells ops = Inr (cells', ops @ map (cell_op l t) (filter (\<lambda>c. 0 < dirty_size c) cells)) \<and>
     length cells' = length cells \<and>
     (\<forall>c \<in> set cells'. dirty_size c = 0 \<and>
        (\<forall>k. related_op c = Some k \<longrightarrow> k < length ops + length (filter (\<lambda>c. 0 < dirty_size c) cells)))"
proof (induction cells arbitrary: ops)
  case (Cons c cells)
  show ?case
  proof (cases "dirty_size c = 0")
    case True
    then obtain cells' where "draft_cells l t n cells ops = Inr (cells', ops @ map (cell_op l t) (filter (\<lambda>c. 0 < dirty_size c) cells))"
      "length cells' = length cells"
      "\<forall>c \<in> set cells'. dirty_size c = 0 \<and> (\<forall>k. related_op c = Some k \<longrightarrow> k < length ops + length (filter (\<lambda>c. 0 < dirty_size c) cells))"
      using Cons.IH [of ops] Cons.prems by auto
    then show ?thesis using True by (intro exI [of _ "c\<lparr>related_op := None\<rparr> # cells'"]) simp
  next
    case False
    then obtain cells' where "draft_cells l t n cells (ops @ [cell_op l t c]) =
        Inr (cells', (ops @ [cell_op l t c]) @ map (cell_op l t) (filter (\<lambda>c. 0 < dirty_size c) cells))"
      "length cells' = length cells"
      "\<forall>c \<in> set cells'. dirty_size c = 0 \<and> (\<forall>k. related_op c = Some k \<longrightarrow> k < length ops + 1 + length (filter (\<lambda>c. 0 < dirty_size c) cells))"
      using Cons.IH [of "ops @ [cell_op l t c]"] Cons.prems by auto
    then show ?thesis using False Cons.prems
      by (intro exI [of _ "c\<lparr>related_op := Some (length ops), dirty_size := 0, cell_last_frame := t\<rparr> # cells'"]) auto
  qed
qed simp

lemma draft_layers_run:
  assumes "distinct ls" "length ops + (\<Sum>l \<leftarrow> ls. length (dirty_cells (layer_at d l))) \<le> n"
  shows "\<exists>h. draft_layers t n ls (d, ops) =
      Inr (d\<lparr>layer_at := h\<rparr>, ops @ concat (map (\<lambda>l. map (cell_op l t) (dirty_cells (layer_at d l))) ls)) \<and>
    (\<forall>l. l \<notin> set ls \<longrightarrow> h l = layer_at d l) \<and>
    (\<forall>l \<in> set ls. \<exists>cells. h l = (layer_at d l)\<lparr>frame_cells := cells\<rparr> \<and> length cells = length (frame_cells (layer_at d l)) \<and>
       (\<forall>c \<in> set cells. dirty_size c = 0 \<and>
          (\<forall>k. related_op c = Some k \<longrightarrow> k < length ops + (\<Sum>l \<leftarrow> ls. length (dirty_cells (layer_at d l))))))"
  using assms
proof (induction ls arbitrary: d ops)
  case Nil
  show ?case by (rule exI [of _ "layer_at d"]) simp
next
  case (Cons l ls)
  let ?new = "map (cell_op l t) (dirty_cells (layer_at d l))"
  obtain cells where c: "draft_cells l t n (frame_cells (layer_at d l)) ops = Inr (cells, ops @ ?new)"
    "length cells = length (frame_cells (layer_at d l))"
    "\<forall>c \<in> set cells. dirty_size c = 0 \<and> (\<forall>k. related_op c = Some k \<longrightarrow> k < length ops + length (dirty_cells (layer_at d l)))"
    using draft_cells_run [of ops "frame_cells (layer_at d l)" n l t] Cons.prems(2) unfolding dirty_cells_def by auto
  let ?d = "set_layer l ((layer_at d l)\<lparr>frame_cells := cells\<rparr>) d"
  have eq: "map (\<lambda>k. length (dirty_cells (layer_at ?d k))) ls = map (\<lambda>k. length (dirty_cells (layer_at d k))) ls"
    "map (\<lambda>l. map (cell_op l t) (dirty_cells (layer_at ?d l))) ls = map (\<lambda>l. map (cell_op l t) (dirty_cells (layer_at d l))) ls"
    using Cons.prems(1) by (auto simp: set_layer_def)
  obtain h where h: "draft_layers t n ls (?d, ops @ ?new) =
      Inr (?d\<lparr>layer_at := h\<rparr>, (ops @ ?new) @ concat (map (\<lambda>l. map (cell_op l t) (dirty_cells (layer_at d l))) ls))"
    "\<forall>k. k \<notin> set ls \<longrightarrow> h k = layer_at ?d k"
    "\<forall>k \<in> set ls. \<exists>cells. h k = (layer_at ?d k)\<lparr>frame_cells := cells\<rparr> \<and> length cells = length (frame_cells (layer_at ?d k)) \<and>
       (\<forall>c \<in> set cells. dirty_size c = 0 \<and>
          (\<forall>j. related_op c = Some j \<longrightarrow> j < length (ops @ ?new) + (\<Sum>l \<leftarrow> ls. length (dirty_cells (layer_at d l)))))"
    using Cons.IH [of "ops @ ?new" ?d] Cons.prems unfolding eq by auto
  have hl: "h l = (layer_at d l)\<lparr>frame_cells := cells\<rparr>" using h(2) Cons.prems(1) by (simp add: set_layer_def)
  have run: "draft_layers t n (l # ls) (d, ops) =
      Inr (d\<lparr>layer_at := h\<rparr>, ops @ concat (map (\<lambda>l. map (cell_op l t) (dirty_cells (layer_at d l))) (l # ls)))"
    using c(1) h(1) by (simp add: set_layer_def)
  have rest: "h k = layer_at d k" if "k \<notin> set (l # ls)" for k using h(2) that by (simp add: set_layer_def)
  have "\<exists>cells. h k = (layer_at d k)\<lparr>frame_cells := cells\<rparr> \<and> length cells = length (frame_cells (layer_at d k)) \<and>
       (\<forall>c \<in> set cells. dirty_size c = 0 \<and>
          (\<forall>j. related_op c = Some j \<longrightarrow> j < length ops + (\<Sum>l \<leftarrow> l # ls. length (dirty_cells (layer_at d l)))))" if "k \<in> set (l # ls)" for k
  proof (cases "k = l")
    case True
    have "k < length ops + (\<Sum>l \<leftarrow> l # ls. length (dirty_cells (layer_at d l)))" if "k < length ops + length (dirty_cells (layer_at d l))" for k
      using that by simp
    then show ?thesis using True hl c(2,3) by blast
  next
    case False
    then have k: "k \<in> set ls" "layer_at ?d k = layer_at d k" using that by (simp_all add: set_layer_def)
    have e: "length (ops @ ?new) + (\<Sum>l \<leftarrow> ls. length (dirty_cells (layer_at d l))) =
        length ops + (\<Sum>l \<leftarrow> l # ls. length (dirty_cells (layer_at d l)))" by simp
    show ?thesis using h(3) [rule_format, OF k(1)] unfolding e k(2) .
  qed
  then show ?case using run rest by blast
qed

section \<open>The draft covers what changed\<close>

text \<open>The cell an operation lies in.\<close>

definition op_key :: "guac_display_plan_operation \<Rightarrow> nat \<times> int \<times> int" where
  "op_key op = (op_layer op, left (op_dest op) div 64, top (op_dest op) div 64)"

definition in_one_cell :: "guac_rect \<Rightarrow> bool" where
  "in_one_cell r \<longleftrightarrow> right r \<le> 64 * (left r div 64) + 64 \<and> bottom r \<le> 64 * (top r div 64) + 64"

definition draft_op :: "guac_display \<Rightarrow> guac_display_plan_operation \<Rightarrow> bool" where
  "draft_op d op \<longleftrightarrow> op_layer op \<in> set (state_layers (pending_state d)) \<and>
     \<not> guac_rect_is_empty (op_dest op) \<and> pixels (op_dest op) \<subseteq> pixels (bounds (pending_frame (layer_at d (op_layer op)))) \<and>
     op_dirty_size op \<le> 4096 \<and> in_one_cell (op_dest op)"

text \<open>\<open>d'\<close> is the display with other dirty rectangles and cells that refer to a plan of \<open>n\<close> operations.\<close>

definition planned :: "guac_display \<Rightarrow> guac_display \<Rightarrow> nat \<Rightarrow> bool" where
  "planned d d' n \<longleftrightarrow> (\<exists>h. d' = d\<lparr>layer_at := h\<rparr> \<and>
     (\<forall>l. l \<notin> set (state_layers (pending_state d)) \<longrightarrow> h l = layer_at d l) \<and>
     (\<forall>l \<in> set (state_layers (pending_state d)). \<exists>cells dirty.
        h l = (layer_at d l)\<lparr>frame_cells := cells, pending_frame := (pending_frame (layer_at d l))\<lparr>ls_dirty := dirty\<rparr>\<rparr> \<and>
        length cells = length (frame_cells (layer_at d l)) \<and> changed (layer_at d l) \<subseteq> pixels dirty \<and>
        (\<forall>c \<in> set cells. dirty_size c = 0 \<and> (\<forall>k. related_op c = Some k \<longrightarrow> n = 0 \<or> k < n))))"

lemma filter_nth: "filter P xs = map (nth xs) (filter (\<lambda>i. P (xs ! i)) [0..<length xs])"
  using filter_map [of P "nth xs" "[0..<length xs]"] by (simp add: map_nth comp_def)

lemma refined_cells:
  assumes "layer_ok layer" "refined_from layer layer'"
  obtains cells dirty where "layer' = layer\<lparr>frame_cells := cells, pending_frame := (pending_frame layer)\<lparr>ls_dirty := dirty\<rparr>\<rparr>"
    "length cells = length (frame_cells layer)"
    "\<And>c. c \<in> set (dirty_cells layer') \<Longrightarrow> \<not> guac_rect_is_empty (cell_dirty c) \<and> pixels (cell_dirty c) \<subseteq> pixels (bounds (pending_frame layer)) \<and>
       pixels (cell_dirty c) \<subseteq> pixels dirty \<and> dirty_size c \<le> 4096 \<and> in_one_cell (cell_dirty c)"
    "distinct (map (\<lambda>c. (left (cell_dirty c) div 64, top (cell_dirty c) div 64)) (dirty_cells layer'))"
    "changed layer \<inter> pixels (ls_dirty (pending_frame layer)) \<subseteq> (\<Union>c \<in> set (dirty_cells layer'). pixels (cell_dirty c))"
proof -
  obtain P cells dirty where P: "pixels (ls_dirty (pending_frame layer)) \<inter> pixels (bounds (pending_frame layer)) \<subseteq> P"
    and layer': "layer' = layer\<lparr>frame_cells := cells, pending_frame := (pending_frame layer)\<lparr>ls_dirty := dirty\<rparr>\<rparr>"
    and len: "length cells = length (frame_cells layer)" and inv: "\<forall>i < length cells. cell_inv layer P dirty i (cells ! i)"
    using assms(2) unfolding refined_from_def refine_inv_def fst_conv by blast
  let ?cw = "cells_width layer"
  have dc: "dirty_cells layer' = filter (\<lambda>c. 0 < dirty_size c) cells" by (simp add: dirty_cells_def layer')
  have cell: "\<not> guac_rect_is_empty (cell_dirty c) \<and> pixels (cell_dirty c) \<subseteq> pixels (bounds (pending_frame layer)) \<and>
       pixels (cell_dirty c) \<subseteq> pixels dirty \<and> dirty_size c \<le> 4096 \<and> in_one_cell (cell_dirty c) \<and>
       left (cell_dirty c) div 64 = int (i mod ?cw) \<and> top (cell_dirty c) div 64 = int (i div ?cw)"
    if i: "i < length cells" "c = cells ! i" "0 < dirty_size c" for i c
  proof -
    define a where "a = int (i mod ?cw)"
    define b where "b = int (i div ?cw)"
    note ab_def = a_def b_def
    have ci: "cell_inv layer P dirty i c" using inv i by blast
    then have sub: "\<not> guac_rect_is_empty (cell_dirty c)" "pixels (cell_dirty c) \<subseteq> pixels (cell_rect ?cw i)"
      "pixels (cell_dirty c) \<subseteq> pixels (bounds (pending_frame layer))" "pixels (cell_dirty c) \<subseteq> pixels dirty"
      using i(3) unfolding cell_inv_def by blast+
    obtain M where "M \<subseteq> pixels (cell_rect ?cw i)" "card M = dirty_size c" using ci unfolding cell_inv_def by blast
    then have "dirty_size c \<le> 4096" using card_mono [of "pixels (cell_rect ?cw i)" M] card_cell [of ?cw i] by simp
    moreover have e: "64 * a \<le> left (cell_dirty c)" "right (cell_dirty c) \<le> 64 * a + 64"
      "64 * b \<le> top (cell_dirty c)" "bottom (cell_dirty c) \<le> 64 * b + 64"
      "left (cell_dirty c) < right (cell_dirty c)" "top (cell_dirty c) < bottom (cell_dirty c)"
      using sub(1,2) unfolding ab_def by (auto simp: pixels_subset cell_rect_def guac_rect_is_empty_def)
    moreover have "left (cell_dirty c) div 64 = a" "top (cell_dirty c) div 64 = b"
    proof -
      have d: "64 * a \<le> e \<Longrightarrow> e < f \<Longrightarrow> f \<le> 64 * a + 64 \<Longrightarrow> e div 64 = a" for a e f :: int
        by (rule int_div_pos_eq [of _ _ _ "e - 64 * a"]) auto
      show "left (cell_dirty c) div 64 = a" by (rule d [OF e(1,5,2)])
      show "top (cell_dirty c) div 64 = b" by (rule d [OF e(3,6,4)])
    qed
    ultimately show ?thesis using sub unfolding ab_def [symmetric] by (simp add: in_one_cell_def)
  qed
  have ids: "dirty_cells layer' = map (nth cells) (filter (\<lambda>i. 0 < dirty_size (cells ! i)) [0..<length cells])"
    unfolding dc by (rule filter_nth)
  show thesis
  proof (rule that [OF layer' len])
    fix c assume "c \<in> set (dirty_cells layer')"
    then obtain i where "i < length cells" "c = cells ! i" "0 < dirty_size c" by (auto simp: ids)
    then show "\<not> guac_rect_is_empty (cell_dirty c) \<and> pixels (cell_dirty c) \<subseteq> pixels (bounds (pending_frame layer)) \<and>
       pixels (cell_dirty c) \<subseteq> pixels dirty \<and> dirty_size c \<le> 4096 \<and> in_one_cell (cell_dirty c)" using cell by blast
  next
    show "distinct (map (\<lambda>c. (left (cell_dirty c) div 64, top (cell_dirty c) div 64)) (dirty_cells layer'))"
      unfolding ids map_map distinct_map
    proof (intro conjI inj_onI)
      fix i j assume ij: "i \<in> set (filter (\<lambda>i. 0 < dirty_size (cells ! i)) [0..<length cells])"
        "j \<in> set (filter (\<lambda>i. 0 < dirty_size (cells ! i)) [0..<length cells])"
        "((\<lambda>c. (left (cell_dirty c) div 64, top (cell_dirty c) div 64)) \<circ> (!) cells) i = ((\<lambda>c. (left (cell_dirty c) div 64, top (cell_dirty c) div 64)) \<circ> (!) cells) j"
      then have "int (i mod ?cw) = int (j mod ?cw)" "int (i div ?cw) = int (j div ?cw)" using cell [of i] cell [of j] by auto
      then show "i = j" by (metis div_mult_mod_eq of_nat_eq_iff)
    qed simp
  next
    show "changed layer \<inter> pixels (ls_dirty (pending_frame layer)) \<subseteq> (\<Union>c \<in> set (dirty_cells layer'). pixels (cell_dirty c))"
    proof
      fix p assume p: "p \<in> changed layer \<inter> pixels (ls_dirty (pending_frame layer))"
      obtain x y where xy: "p = (x, y)" by (cases p)
      have b: "0 \<le> x" "x < ls_width (pending_frame layer)" "0 \<le> y" "y < ls_height (pending_frame layer)"
        using p by (auto simp: xy changed_def)
      let ?i = "nat (y div 64) * ?cw + nat (x div 64)"
      note k = cell_bound [OF assms(1) b]
      have "p \<in> pixels (cell_rect ?cw ?i)"
      proof -
        have "64 * (x div 64) \<le> x" "x < 64 * (x div 64) + 64" "64 * (y div 64) \<le> y" "y < 64 * (y div 64) + 64" "0 \<le> x div 64" "0 \<le> y div 64"
          using b by linarith+
        then show ?thesis unfolding cell_index [OF k(1)] xy by simp
      qed
      moreover have "p \<in> P" using P p b by (auto simp: xy)
      moreover have "cell_inv layer P dirty ?i (cells ! ?i)" using inv k(2) len by simp
      ultimately have "0 < dirty_size (cells ! ?i)" "p \<in> pixels (cell_dirty (cells ! ?i))"
        using p unfolding cell_inv_def by (auto split: if_splits)
      moreover have "cells ! ?i \<in> set cells" using k(2) len by simp
      ultimately show "p \<in> (\<Union>c \<in> set (dirty_cells layer'). pixels (cell_dirty c))" unfolding dc by auto
    qed
  qed
qed

definition ready :: "guac_display \<Rightarrow> bool" where
  "ready d \<longleftrightarrow> distinct (state_layers (pending_state d)) \<and>
     (\<forall>l \<in> set (state_layers (pending_state d)). layer_ok (layer_at d l) \<and> reported (layer_at d l))"

definition plan_ops :: "guac_display_plan_operation list option \<Rightarrow> guac_display_plan_operation list" where
  "plan_ops p = (case p of None \<Rightarrow> [] | Some ops \<Rightarrow> ops)"

definition covered :: "guac_display_plan_operation list \<Rightarrow> nat \<Rightarrow> (int \<times> int) set" where
  "covered ops l = (\<Union>op \<in> {op \<in> set ops. op_layer op = l \<and> op_type op \<noteq> GUAC_DISPLAY_PLAN_OPERATION_NOP}. pixels (op_dest op))"

lemma distinct_keys:
  assumes "distinct ls" "\<And>l. l \<in> set ls \<Longrightarrow> distinct (map (\<lambda>c. (left (cell_dirty c) div 64, top (cell_dirty c) div 64)) (cs l))"
  shows "distinct (map op_key (concat (map (\<lambda>l. map (cell_op l t) (cs l)) ls)))"
  using assms
proof (induction ls)
  case (Cons l ls)
  have key: "map op_key (map (cell_op l t) (cs l)) = map (Pair l) (map (\<lambda>c. (left (cell_dirty c) div 64, top (cell_dirty c) div 64)) (cs l))"
    by (simp add: op_key_def cell_op_def)
  define first where "first = map op_key (map (cell_op l t) (cs l))"
  define rest where "rest = map op_key (concat (map (\<lambda>l. map (cell_op l t) (cs l)) ls))"
  have "distinct first"
    unfolding first_def key using Cons.prems(2) [of l] by (subst distinct_map) (auto simp: inj_on_def)
  moreover have "k \<notin> set rest" if "k \<in> set first" for k
  proof
    assume "k \<in> set rest"
    then have "fst k \<in> set ls" by (auto simp: rest_def op_key_def cell_op_def)
    moreover have "fst k = l" using that by (auto simp: first_def op_key_def cell_op_def)
    ultimately show False using Cons.prems(1) by simp
  qed
  moreover have "distinct rest" unfolding rest_def using Cons.IH Cons.prems by simp
  moreover have "map op_key (concat (map (\<lambda>l. map (cell_op l t) (cs l)) (l # ls))) = first @ rest" by (simp add: first_def rest_def)
  ultimately show ?case by auto
qed simp

text \<open>With fuel for each layer and the end of the list, a draft of layers that have buffers is complete.\<close>

lemma plan_create_run:
  assumes ready: "ready d" and fuel: "length (state_layers (pending_state d)) < fuel"
  shows "\<exists>p d'. guac_display_plan_create fuel t d = Inr (p, d') \<and> planned d d' (length (plan_ops p)) \<and>
    (\<forall>op \<in> set (plan_ops p). draft_op d op \<and> op_type op = GUAC_DISPLAY_PLAN_OPERATION_IMG) \<and> distinct (map op_key (plan_ops p)) \<and>
    (\<forall>l \<in> set (state_layers (pending_state d)). changed (layer_at d l) \<subseteq> covered (plan_ops p) l) \<and> (p = None \<longleftrightarrow> plan_ops p = [])"
proof -
  let ?ls = "state_layers (pending_state d)"
  have ok: "distinct ?ls" "\<forall>l \<in> set ?ls. layer_ok (layer_at d l) \<and> roomy (ls_dirty (pending_frame (layer_at d l)))"
    using ready by (simp_all add: ready_def reported_def)
  obtain h where h: "refine_layers fuel ?ls (d, 0) = Inr (d\<lparr>layer_at := h\<rparr>, \<Sum>l \<leftarrow> ?ls. length (dirty_cells (h l)))"
    "\<forall>l. if l \<in> set ?ls then refined_from (layer_at d l) (h l) else h l = layer_at d l"
    using refine_layers_run [OF ok(1) fuel ok(2), of 0] by auto
  define ops where "ops = concat (map (\<lambda>l. map (cell_op l t) (dirty_cells (h l))) ?ls)"
  define n where "n = (\<Sum>l \<leftarrow> ?ls. length (dirty_cells (h l)))"
  have n: "n = length ops" by (simp add: n_def ops_def length_concat comp_def)
  have op_in: "\<exists>l \<in> set ?ls. \<exists>c \<in> set (dirty_cells (h l)). op = cell_op l t c" if "op \<in> set ops" for op
    using that by (auto simp: ops_def)
  have cells: "\<exists>cells dirty. h l = (layer_at d l)\<lparr>frame_cells := cells, pending_frame := (pending_frame (layer_at d l))\<lparr>ls_dirty := dirty\<rparr>\<rparr> \<and>
      length cells = length (frame_cells (layer_at d l)) \<and>
      (\<forall>c \<in> set (dirty_cells (h l)). draft_op d (cell_op l t c) \<and> pixels (cell_dirty c) \<subseteq> pixels dirty) \<and>
      distinct (map (\<lambda>c. (left (cell_dirty c) div 64, top (cell_dirty c) div 64)) (dirty_cells (h l))) \<and>
      changed (layer_at d l) \<subseteq> (\<Union>c \<in> set (dirty_cells (h l)). pixels (cell_dirty c))" if l: "l \<in> set ?ls" for l
  proof -
    have lo: "layer_ok (layer_at d l)" "refined_from (layer_at d l) (h l)" and rep: "reported (layer_at d l)"
      using ok(2) h(2) ready l by (auto simp: ready_def)
    show ?thesis
    proof (rule refined_cells [OF lo])
      fix cells dirty
      assume c: "h l = (layer_at d l)\<lparr>frame_cells := cells, pending_frame := (pending_frame (layer_at d l))\<lparr>ls_dirty := dirty\<rparr>\<rparr>"
        "length cells = length (frame_cells (layer_at d l))"
        "\<And>c. c \<in> set (dirty_cells (h l)) \<Longrightarrow> \<not> guac_rect_is_empty (cell_dirty c) \<and>
           pixels (cell_dirty c) \<subseteq> pixels (bounds (pending_frame (layer_at d l))) \<and> pixels (cell_dirty c) \<subseteq> pixels dirty \<and>
           dirty_size c \<le> 4096 \<and> in_one_cell (cell_dirty c)"
        "distinct (map (\<lambda>c. (left (cell_dirty c) div 64, top (cell_dirty c) div 64)) (dirty_cells (h l)))"
        "changed (layer_at d l) \<inter> pixels (ls_dirty (pending_frame (layer_at d l))) \<subseteq> (\<Union>c \<in> set (dirty_cells (h l)). pixels (cell_dirty c))"
      have "draft_op d (cell_op l t c) \<and> pixels (cell_dirty c) \<subseteq> pixels dirty" if "c \<in> set (dirty_cells (h l))" for c
        using c(3) [OF that] l unfolding draft_op_def by (simp add: cell_op_def)
      moreover have "changed (layer_at d l) \<subseteq> (\<Union>c \<in> set (dirty_cells (h l)). pixels (cell_dirty c))"
        using c(5) rep unfolding reported_def by blast
      ultimately show ?thesis using c(1,2,4) by blast
    qed
  qed
  have draft: "draft_op d op \<and> op_type op = GUAC_DISPLAY_PLAN_OPERATION_IMG" if "op \<in> set ops" for op
    using op_in [OF that] cells by (fastforce simp: cell_op_def)
  have keys: "distinct (map op_key ops)" unfolding ops_def using cells by (intro distinct_keys [OF ok(1)]) blast
  have cover: "changed (layer_at d l) \<subseteq> covered ops l" if l: "l \<in> set ?ls" for l
  proof
    fix p assume "p \<in> changed (layer_at d l)"
    then obtain c where c: "c \<in> set (dirty_cells (h l))" "p \<in> pixels (cell_dirty c)" using cells [OF l] by blast
    have "cell_op l t c \<in> set ops" using l c(1) by (auto simp: ops_def)
    moreover have "op_layer (cell_op l t c) = l" "op_dest (cell_op l t c) = cell_dirty c" "op_type (cell_op l t c) \<noteq> GUAC_DISPLAY_PLAN_OPERATION_NOP"
      by (simp_all add: cell_op_def)
    ultimately show "p \<in> covered ops l" using c(2) unfolding covered_def by (metis (mono_tags, lifting) UN_I mem_Collect_eq)
  qed
  have dirty: "changed (layer_at d l) \<subseteq> pixels dirty"
    if "l \<in> set ?ls" "\<forall>c \<in> set (dirty_cells (h l)). draft_op d (cell_op l t c) \<and> pixels (cell_dirty c) \<subseteq> pixels dirty"
      "changed (layer_at d l) \<subseteq> (\<Union>c \<in> set (dirty_cells (h l)). pixels (cell_dirty c))" for l dirty
    using that by blast
  show ?thesis
  proof (cases "n = 0")
    case True
    then have empty: "ops = []" using n by simp
    have none: "dirty_cells (h l) = []" if "l \<in> set ?ls" for l using empty that by (auto simp: ops_def)
    have "planned d (d\<lparr>layer_at := h\<rparr>) 0"
      unfolding planned_def
    proof (intro exI [of _ h] conjI ballI allI impI refl)
      fix l assume "l \<notin> set ?ls"
      then show "h l = layer_at d l" using h(2) by auto
    next
      fix l assume l: "l \<in> set ?ls"
      obtain cells dirty where c: "h l = (layer_at d l)\<lparr>frame_cells := cells, pending_frame := (pending_frame (layer_at d l))\<lparr>ls_dirty := dirty\<rparr>\<rparr>"
        "length cells = length (frame_cells (layer_at d l))" "changed (layer_at d l) \<subseteq> pixels dirty"
        using cells [OF l] dirty [OF l] by blast
      have "dirty_size e = 0" if "e \<in> set cells" for e
        using none [OF l] that by (auto simp: dirty_cells_def c(1) filter_empty_conv)
      then show "\<exists>cells dirty. h l = (layer_at d l)\<lparr>frame_cells := cells, pending_frame := (pending_frame (layer_at d l))\<lparr>ls_dirty := dirty\<rparr>\<rparr> \<and>
          length cells = length (frame_cells (layer_at d l)) \<and> changed (layer_at d l) \<subseteq> pixels dirty \<and>
          (\<forall>c \<in> set cells. dirty_size c = 0 \<and> (\<forall>k. related_op c = Some k \<longrightarrow> (0::nat) = 0 \<or> k < 0))"
        using c by blast
    qed
    moreover have "guac_display_plan_create fuel t d = Inr (None, d\<lparr>layer_at := h\<rparr>)"
      using h(1) True by (simp add: guac_display_plan_create_def n_def)
    ultimately show ?thesis using cover empty by (intro exI [of _ None] exI [of _ "d\<lparr>layer_at := h\<rparr>"]) (simp add: plan_ops_def)
  next
    case False
    obtain h' where h': "draft_layers t n ?ls (d\<lparr>layer_at := h\<rparr>, []) = Inr (d\<lparr>layer_at := h'\<rparr>, ops)"
      "\<forall>l. l \<notin> set ?ls \<longrightarrow> h' l = h l"
      "\<forall>l \<in> set ?ls. \<exists>cells. h' l = (h l)\<lparr>frame_cells := cells\<rparr> \<and> length cells = length (frame_cells (h l)) \<and>
         (\<forall>c \<in> set cells. dirty_size c = 0 \<and> (\<forall>k. related_op c = Some k \<longrightarrow> k < n))"
      using draft_layers_run [OF ok(1), of "[]" "d\<lparr>layer_at := h\<rparr>" n t] by (auto simp: ops_def n_def)
    have "planned d (d\<lparr>layer_at := h'\<rparr>) n"
      unfolding planned_def
    proof (intro exI [of _ h'] conjI ballI allI impI refl)
      fix l assume "l \<notin> set ?ls"
      then show "h' l = layer_at d l" using h(2) h'(2) by auto
    next
      fix l assume l: "l \<in> set ?ls"
      obtain cells dirty where c: "h l = (layer_at d l)\<lparr>frame_cells := cells, pending_frame := (pending_frame (layer_at d l))\<lparr>ls_dirty := dirty\<rparr>\<rparr>"
        "length cells = length (frame_cells (layer_at d l))" "changed (layer_at d l) \<subseteq> pixels dirty"
        using cells [OF l] dirty [OF l] by blast
      obtain cells' where c': "h' l = (h l)\<lparr>frame_cells := cells'\<rparr>" "length cells' = length (frame_cells (h l))"
        "\<forall>c \<in> set cells'. dirty_size c = 0 \<and> (\<forall>k. related_op c = Some k \<longrightarrow> k < n)"
        using h'(3) l by blast
      show "\<exists>cells dirty. h' l = (layer_at d l)\<lparr>frame_cells := cells, pending_frame := (pending_frame (layer_at d l))\<lparr>ls_dirty := dirty\<rparr>\<rparr> \<and>
          length cells = length (frame_cells (layer_at d l)) \<and> changed (layer_at d l) \<subseteq> pixels dirty \<and>
          (\<forall>c \<in> set cells. dirty_size c = 0 \<and> (\<forall>k. related_op c = Some k \<longrightarrow> n = 0 \<or> k < n))"
        using c c' by (intro exI [of _ cells'] exI [of _ dirty]) simp
    qed
    moreover have "guac_display_plan_create fuel t d = Inr (Some ops, d\<lparr>layer_at := h'\<rparr>)"
      using h(1) h'(1) False n by (simp add: guac_display_plan_create_def n_def [symmetric])
    ultimately show ?thesis using draft keys cover n False
      by (intro exI [of _ "Some ops"] exI [of _ "d\<lparr>layer_at := h'\<rparr>"]) (auto simp: plan_ops_def)
  qed
qed

section \<open>Missing buffers\<close>

text \<open>Without a buffer, a layer stops the loop: it never gets past the layer, or aborts.\<close>

lemma refine_layers_missing:
  "l \<in> set ls \<Longrightarrow> ls_buffer (pending_frame (layer_at d l)) = None \<Longrightarrow> distinct ls \<Longrightarrow>
   (\<forall>k \<in> set ls - {l}. layer_ok (layer_at d k) \<and> roomy (ls_dirty (pending_frame (layer_at d k)))) \<Longrightarrow>
   refine_layers fuel ls (d, count) = Inl Diverged \<or>
   (\<not> ls_external (pending_frame (layer_at d l)) \<and> refine_layers fuel ls (d, count) = Inl Abort)"
proof (induction fuel arbitrary: ls d count)
  case (Suc fuel)
  obtain k ks where ls: "ls = k # ks" using Suc.prems(1) by (cases ls) auto
  show ?case
  proof (cases "k = l")
    case True
    show ?thesis
    proof (cases "ls_external (pending_frame (layer_at d l))")
      case external: True
      then have "refine_layers (Suc fuel) ls (d, count) = refine_layers fuel ls (d, count)" using Suc.prems(2) True ls by simp
      then show ?thesis using Suc.IH [OF Suc.prems] external by simp
    next
      case False
      then show ?thesis using Suc.prems(2) True ls by simp
    qed
  next
    case False
    then have ok: "layer_ok (layer_at d k)" "roomy (ls_dirty (pending_frame (layer_at d k)))" using Suc.prems(4) ls by simp_all
    obtain layer' where r: "refine_layer (layer_at d k, count) = Inr (layer', count + length (dirty_cells layer'))"
      using refine_layer_run [OF ok] by blast
    obtain b where b: "ls_buffer (pending_frame (layer_at d k)) = Some b" using ok by (auto simp: layer_ok_def state_ok_def)
    have "refine_layers (Suc fuel) ls (d, count) = refine_layers fuel ks (set_layer k layer' d, count + length (dirty_cells layer'))"
      using r b ls by simp
    moreover have "layer_at (set_layer k layer' d) l = layer_at d l" using False by (simp add: set_layer_def)
    ultimately show ?thesis
      using Suc.IH [of ks "set_layer k layer' d" "count + length (dirty_cells layer')"] Suc.prems ls False by (auto simp: set_layer_def)
  qed
qed simp

text \<open>More fuel than layers suffices to reach the assertion.\<close>

lemma refine_layers_abort:
  "l \<in> set ls \<Longrightarrow> ls_buffer (pending_frame (layer_at d l)) = None \<Longrightarrow> \<not> ls_external (pending_frame (layer_at d l)) \<Longrightarrow> distinct ls \<Longrightarrow>
   (\<forall>k \<in> set ls - {l}. layer_ok (layer_at d k) \<and> roomy (ls_dirty (pending_frame (layer_at d k)))) \<Longrightarrow>
   length ls < fuel \<Longrightarrow> refine_layers fuel ls (d, count) = Inl Abort"
proof (induction ls arbitrary: d count fuel)
  case (Cons k ls)
  then obtain n where n: "fuel = Suc n" "length ls < n" by (cases fuel) auto
  show ?case
  proof (cases "k = l")
    case False
    then have ok: "layer_ok (layer_at d k)" "roomy (ls_dirty (pending_frame (layer_at d k)))" using Cons.prems(5) by simp_all
    obtain layer' where r: "refine_layer (layer_at d k, count) = Inr (layer', count + length (dirty_cells layer'))"
      using refine_layer_run [OF ok] by blast
    obtain b where b: "ls_buffer (pending_frame (layer_at d k)) = Some b" using ok by (auto simp: layer_ok_def state_ok_def)
    have "refine_layers n ls (set_layer k layer' d, count + length (dirty_cells layer')) = Inl Abort"
      using Cons.prems False n(2) by (intro Cons.IH) (auto simp: set_layer_def)
    then show ?thesis using r b n(1) by simp
  qed (use Cons.prems n in simp)
qed simp

text \<open>
  A layer whose own buffer has no pixels, as after a resize to a width or height of 0, aborts the process
  in the next draft.
\<close>

lemma empty_layer_aborts:
  assumes "l \<in> set (state_layers (pending_state d))" "distinct (state_layers (pending_state d))"
    and "\<forall>k \<in> set (state_layers (pending_state d)) - {l}. layer_ok (layer_at d k) \<and> roomy (ls_dirty (pending_frame (layer_at d k)))"
    and "layer_fits (layer_at d l)" "\<not> ls_external (pending_frame (layer_at d l))" "stride_fits f"
    and size: "0 < ls_width (pending_frame (layer_at d l))" "0 < ls_height (pending_frame (layer_at d l))" "0 \<le> w" "w \<le> 8192"
    and "length (state_layers (pending_state d)) < fuel"
  shows "\<exists>d'. guac_display_layer_resize f l w 0 d = Inr d' \<and> guac_display_plan_create fuel t d' = Inl Abort"
proof -
  obtain layer where r: "layer_resize f (layer_at d l) w 0 = Inr layer" "ls_buffer (pending_frame layer) = None" "\<not> ls_external (pending_frame layer)"
    using layer_resize_run [OF assms(4-6), of w 0] size by auto
  let ?d = "guac_display_layer_touch l (set_layer l layer d)"
  have "refine_layers fuel (state_layers (pending_state d)) (?d, 0) = Inl Abort"
    using assms r by (intro refine_layers_abort [of l]) (auto simp: set_layer_def)
  moreover have "state_layers (pending_state ?d) = state_layers (pending_state d)" by (simp add: set_layer_def)
  ultimately show ?thesis using r by (auto simp: guac_display_layer_resize_def guac_display_plan_create_def)
qed

text \<open>
  C36. Removing the buffer of a layer hangs the next frame: after a raw context of a layer of the display has been closed with its
  buffer set to NULL, which the interface allows before the display is freed, the loop over the layers that drafts
  a plan does not end: no fuel is enough, while the same display, if all its changes have been reported, is drafted
  with any fuel above the number of its layers as long as the buffer is there. The other layers are
  well-formed, and the parts of them that are noted as changed leave room for alignment to cells below the largest \<open>int\<close>.
\<close>

theorem missing_buffer_hangs:
  assumes "l \<in> set (state_layers (pending_state d))" "distinct (state_layers (pending_state d))"
    and "\<forall>k \<in> set (state_layers (pending_state d)) - {l}. layer_ok (layer_at d k) \<and> roomy (ls_dirty (pending_frame (layer_at d k)))"
    and "ls_buffer (pending_frame (layer_at d l)) \<noteq> None"
  defines "d' \<equiv> guac_display_layer_close_raw l ((guac_display_layer_open_raw l d)\<lparr>ctx_buffer := None, ctx_replaced := True\<rparr>) d"
  shows "(\<forall>fuel. guac_display_plan_create fuel t d' = Inl Diverged) \<and>
         (ready d \<longrightarrow> (\<forall>fuel > length (state_layers (pending_state d)). \<exists>p d''. guac_display_plan_create fuel t d = Inr (p, d'')))"
proof -
  have l: "ls_buffer (pending_frame (layer_at d' l)) = None" "ls_external (pending_frame (layer_at d' l))"
    and rest: "\<forall>k. k \<noteq> l \<longrightarrow> layer_at d' k = layer_at d k" and ls: "state_layers (pending_state d') = state_layers (pending_state d)"
    using assms(4) by (simp_all add: d'_def guac_display_layer_close_raw_def guac_display_layer_open_raw_def Let_def change_pending_def set_layer_def)
  have "refine_layers fuel (state_layers (pending_state d')) (d', 0) = Inl Diverged" for fuel
    using refine_layers_missing [of l "state_layers (pending_state d')" d' fuel 0] assms(1-3) rest l unfolding ls by auto
  moreover have "\<exists>p d''. guac_display_plan_create fuel t d = Inr (p, d'')"
    if "ready d" "length (state_layers (pending_state d)) < fuel" for fuel
    using plan_create_run [OF that, of t] by blast
  ultimately show ?thesis by (simp add: guac_display_plan_create_def)
qed

theorem missing_buffer_hangs_witness:
  "\<exists>d l. guac_display_add_layer (\<lambda>w. 4 * nat w) 0 True blank_display = Inr (l, d) \<and>
     (\<forall>fuel. guac_display_plan_create fuel 0
        (guac_display_layer_close_raw l ((guac_display_layer_open_raw l d)\<lparr>ctx_buffer := None, ctx_replaced := True\<rparr>) d) = Inl Diverged)"
proof -
  have f: "stride_fits (\<lambda>w. 4 * nat w)" by (simp add: stride_fits_def)
  obtain d where d: "guac_display_add_layer (\<lambda>w. 4 * nat w) 0 True blank_display = Inr (next_layer blank_display, d)"
    using add_layer_run [OF f blank_alloc] by blast
  have "ls_buffer (pending_frame (layer_at d (next_layer blank_display))) \<noteq> None"
    using add_layer_ok [OF f d] by (auto simp: layer_ok_def state_ok_def)
  moreover have "state_layers (pending_state d) = [next_layer blank_display]"
    using d by (auto simp: guac_display_add_layer_def fault_iff Let_def set_layer_def blank_display_def zero_display_state_def)
  ultimately show ?thesis using d missing_buffer_hangs [of "next_layer blank_display" d 0] by auto
qed

end
