(* ===== verification/CommandAcl.thy ===== *)
theory CommandAcl
  imports Prelude "HOL-Library.Sublist"
begin

text \<open>
  The filter of commands of an SSH connection (\<open>src/src/protocols/ssh/command-acl.c\<close>): its
  configuration file, the choice of the rule that applies to a connection, and the decision about a
  command.

  A string of the C code is the list of its characters before the terminator. Memory is granted
  except where the code looks at the result: for the configuration itself. The configuration that
  is loaded is not written any more, so a pointer to a rule in it is the rule.
\<close>

section \<open>Characters and strings\<close>

definition isspace :: "char \<Rightarrow> bool" where
  "isspace c = (let n = of_char c :: nat in n = 32 \<or> 9 \<le> n \<and> n \<le> 13)"

text \<open>The loop that moves \<open>end\<close> back over trailing whitespace, at most to the start.\<close>

fun trim_end :: "string \<Rightarrow> nat \<Rightarrow> nat" where
  "trim_end str 0 = 0"
| "trim_end str (Suc e) = (if isspace (str ! Suc e) then trim_end str e else Suc e)"

definition trim_whitespace :: "string \<Rightarrow> string" where
  "trim_whitespace str =
     (if str = [] then str
      else
        let str = dropWhile isspace str in
        if str = [] then str
        else take (trim_end str (length str - 1) + 1) str)"

definition starts_with :: "string \<Rightarrow> string \<Rightarrow> bool" where
  "starts_with str pre = (take (length pre) str = pre)"

text \<open>The functions \<open>strstr\<close> and \<open>strchr\<close> of the C library, giving a position.\<close>

fun strstr :: "string \<Rightarrow> string \<Rightarrow> nat option" where
  "strstr [] needle = (if needle = [] then Some 0 else None)"
| "strstr (c # cs) needle =
     (if take (length needle) (c # cs) = needle then Some 0 else map_option Suc (strstr cs needle))"

fun strchr :: "string \<Rightarrow> char \<Rightarrow> nat option" where
  "strchr [] d = None"
| "strchr (c # cs) d = (if c = d then Some 0 else map_option Suc (strchr cs d))"

text \<open>
  One step of \<open>strtok\<close> with the delimiter \<open>,\<close>: the next token and what is left for the next call.
\<close>

definition strtok :: "string \<Rightarrow> (string \<times> string) option" where
  "strtok str =
     (let str = dropWhile (\<lambda>c. c = CHR '','') str in
      if str = [] then None
      else Some (takeWhile (\<lambda>c. c \<noteq> CHR '','') str, tl (dropWhile (\<lambda>c. c \<noteq> CHR '','') str)))"

section \<open>Commands and patterns\<close>

definition is_alias_or_function_definition :: "string option \<Rightarrow> bool" where
  "is_alias_or_function_definition command =
     (case command of
        None \<Rightarrow> False
      | Some command \<Rightarrow>
          if command = [] then False
          else
            let command = dropWhile isspace command in
            if starts_with command ''alias '' then True
            else if strstr command ''function '' \<noteq> None then True
            else if strstr command ''() {'' \<noteq> None then True
            else if starts_with command ''source '' then True
            else if starts_with command ''. '' \<and> (command @ [NUL]) ! 2 \<noteq> CHR ''.'' then True
            else False)"

definition command_matches_pattern :: "string \<Rightarrow> string \<Rightarrow> bool" where
  "command_matches_pattern command pattern = (strstr command pattern \<noteq> None)"

section \<open>The configuration\<close>

definition GUAC_SSH_ACL_MAX_RULES :: nat where "GUAC_SSH_ACL_MAX_RULES = 128"

definition GUAC_SSH_ACL_DEFAULT_MESSAGE :: string where
  "GUAC_SSH_ACL_DEFAULT_MESSAGE =
     [CHR 0x0D, CHR 0x0A] @ ''*** Command blocked by security policy ***'' @ [CHR 0x0D, CHR 0x0A]"

record guac_ssh_acl_rule =
  blacklist :: "string option"
  whitelist :: "string option"
  blocked_message :: "string option"

record guac_ssh_acl_connection_rule =
  connection_key :: string
  connection_rule :: guac_ssh_acl_rule

record guac_ssh_acl_user_rule =
  rule_username :: string
  user_rule :: guac_ssh_acl_rule

text \<open>The arrays of rules, up to their counts.\<close>

record guac_ssh_acl_config =
  global_rule :: "guac_ssh_acl_rule option"
  connection_rules :: "guac_ssh_acl_connection_rule list"
  user_rules :: "guac_ssh_acl_user_rule list"

definition create_rule :: guac_ssh_acl_rule where
  "create_rule = \<lparr>blacklist = None, whitelist = None, blocked_message = Some GUAC_SSH_ACL_DEFAULT_MESSAGE\<rparr>"

text \<open>What \<open>current_rule\<close> points to, if it is not \<open>NULL\<close>.\<close>

datatype rule_pointer = Global | Connection nat | User nat

definition update_rule :: "rule_pointer \<Rightarrow> (guac_ssh_acl_rule \<Rightarrow> guac_ssh_acl_rule) \<Rightarrow> guac_ssh_acl_config \<Rightarrow> guac_ssh_acl_config" where
  "update_rule p f config =
     (case p of
        Global \<Rightarrow> config\<lparr>global_rule := map_option f (global_rule config)\<rparr>
      | Connection i \<Rightarrow> config\<lparr>connection_rules := (connection_rules config)
          [i := (connection_rules config ! i)\<lparr>connection_rule := f (connection_rule (connection_rules config ! i))\<rparr>]\<rparr>
      | User i \<Rightarrow> config\<lparr>user_rules := (user_rules config)
          [i := (user_rules config ! i)\<lparr>user_rule := f (user_rule (user_rules config ! i))\<rparr>]\<rparr>)"

section \<open>Loading the configuration\<close>

text \<open>A line as \<open>fgets\<close> reads it with room for \<open>n\<close> characters, and the rest of the file.\<close>

fun fgets :: "nat \<Rightarrow> string \<Rightarrow> string \<times> string" where
  "fgets 0 content = ([], content)"
| "fgets (Suc n) [] = ([], [])"
| "fgets (Suc n) (c # content) =
     (if c = CHR 0x0A then ([c], content) else let (line, rest) = fgets n content in (c # line, rest))"

lemma fgets_shorter: "length (snd (fgets n content)) \<le> length content"
  by (induction n content rule: fgets.induct) (auto split: prod.splits)

lemma fgets_progress: "0 < n \<Longrightarrow> content \<noteq> [] \<Longrightarrow> length (snd (fgets n content)) < length content"
  using fgets_shorter [of "n - 1" "tl content"] by (cases n; cases content) (auto split: prod.splits)

definition section_header :: "string \<Rightarrow> guac_ssh_acl_config \<times> rule_pointer option \<Rightarrow> guac_ssh_acl_config \<times> rule_pointer option" where
  "section_header current_section st =
     (let (config, current_rule) = st in
      if current_section = ''global'' then
        (if global_rule config = None then config\<lparr>global_rule := Some create_rule\<rparr> else config, Some Global)
      else if starts_with current_section ''connection:'' then
        if length (connection_rules config) < GUAC_SSH_ACL_MAX_RULES then
          (config\<lparr>connection_rules := connection_rules config @
             [\<lparr>connection_key = drop 11 current_section, connection_rule = create_rule\<rparr>]\<rparr>,
           Some (Connection (length (connection_rules config))))
        else st
      else if starts_with current_section ''user:'' then
        if length (user_rules config) < GUAC_SSH_ACL_MAX_RULES then
          (config\<lparr>user_rules := user_rules config @
             [\<lparr>rule_username = drop 5 current_section, user_rule = create_rule\<rparr>]\<rparr>,
           Some (User (length (user_rules config))))
        else st
      else st)"

definition set_key :: "string \<Rightarrow> string \<Rightarrow> guac_ssh_acl_rule \<Rightarrow> guac_ssh_acl_rule" where
  "set_key key val rule =
     (if key = ''blacklist'' \<and> val \<noteq> [] then rule\<lparr>blacklist := Some val\<rparr>
      else if key = ''whitelist'' \<and> val \<noteq> [] then rule\<lparr>whitelist := Some val\<rparr>
      else if key = ''blocked_message'' \<and> val \<noteq> [] then rule\<lparr>blocked_message := Some val\<rparr>
      else rule)"

definition key_value :: "string \<Rightarrow> guac_ssh_acl_config \<times> rule_pointer option \<Rightarrow> guac_ssh_acl_config \<times> rule_pointer option" where
  "key_value trimmed st =
     (case snd st of
        None \<Rightarrow> st
      | Some p \<Rightarrow>
          (case strchr trimmed (CHR ''='') of
             None \<Rightarrow> st
           | Some equals \<Rightarrow>
               let key = trim_whitespace (take equals trimmed);
                   val = trim_whitespace (drop (equals + 1) trimmed)
               in (update_rule p (set_key key val) (fst st), Some p)))"

definition config_line :: "string \<Rightarrow> guac_ssh_acl_config \<times> rule_pointer option \<Rightarrow> guac_ssh_acl_config \<times> rule_pointer option" where
  "config_line line st =
     (let trimmed = trim_whitespace line in
      if trimmed = [] \<or> hd trimmed = CHR ''#'' \<or> hd trimmed = CHR '';'' then st
      else if hd trimmed = CHR ''['' then
        (case strchr trimmed (CHR '']'') of
           Some end_ \<Rightarrow> section_header (take 255 (drop 1 (take end_ trimmed))) st
         | None \<Rightarrow> key_value trimmed st)
      else key_value trimmed st)"

text \<open>The loop over the lines; a line is read as a string, so it ends at a NUL character.\<close>

function config_lines :: "string \<Rightarrow> guac_ssh_acl_config \<times> rule_pointer option \<Rightarrow> guac_ssh_acl_config \<times> rule_pointer option" where
  "config_lines content st =
     (if content = [] then st
      else let (line, rest) = fgets 4095 content in config_lines rest (config_line (cstr line) st))"
  by pat_completeness auto
termination
proof (relation "measure (\<lambda>(content, st). length content)", goal_cases)
  case (2 content st x y z)
  then have "z = snd (fgets 4095 content)" by (metis snd_conv)
  then show ?case using fgets_progress [of 4095 content] 2(1) by simp
qed simp

declare config_lines.simps [simp del]

text \<open>\<open>content\<close> is the contents of the file, if it can be opened.\<close>

definition guac_ssh_acl_load_config :: "bool \<Rightarrow> string option \<Rightarrow> guac_ssh_acl_config option" where
  "guac_ssh_acl_load_config granted content =
     (case content of
        None \<Rightarrow> None
      | Some content \<Rightarrow>
          if \<not> granted then None
          else Some (fst (config_lines content
                 (\<lparr>global_rule = None, connection_rules = [], user_rules = []\<rparr>, None))))"

section \<open>The rule of a connection\<close>

definition guac_ssh_acl_get_rule :: "guac_ssh_acl_config option \<Rightarrow> string option \<Rightarrow> string option \<Rightarrow> string option \<Rightarrow> guac_ssh_acl_rule option" where
  "guac_ssh_acl_get_rule config guacamole_username hostname ssh_username =
     (case config of
        None \<Rightarrow> None
      | Some config \<Rightarrow>
          let by_user = (case guacamole_username of
                None \<Rightarrow> None
              | Some name \<Rightarrow> find (\<lambda>r. rule_username r = name) (user_rules config));
              by_login = (case (hostname, ssh_username) of
                (Some host, Some name) \<Rightarrow>
                  find (\<lambda>r. connection_key r = take 511 (host @ '':'' @ name)) (connection_rules config)
              | _ \<Rightarrow> None);
              by_host = (case hostname of
                None \<Rightarrow> None
              | Some host \<Rightarrow>
                  find (\<lambda>r. strchr (connection_key r) (CHR '':'') = None \<and> connection_key r = host) (connection_rules config))
          in
          (case by_user of
             Some r \<Rightarrow> Some (user_rule r)
           | None \<Rightarrow>
               (case by_login of
                  Some r \<Rightarrow> Some (connection_rule r)
                | None \<Rightarrow>
                    (case by_host of
                       Some r \<Rightarrow> Some (connection_rule r)
                     | None \<Rightarrow> global_rule config))))"


section \<open>The decision about a command\<close>

lemma strtok_progress: "strtok str = Some (token, rest) \<Longrightarrow> length rest < length str"
proof -
  assume "strtok str = Some (token, rest)"
  then have "dropWhile (\<lambda>c. c = CHR '','') str \<noteq> []"
    and r: "rest = tl (dropWhile (\<lambda>c. c \<noteq> CHR '','') (dropWhile (\<lambda>c. c = CHR '','') str))"
    by (auto simp: strtok_def Let_def split: if_splits)
  then have "0 < length (dropWhile (\<lambda>c. c = CHR '','') str)" by simp
  moreover have "length (dropWhile (\<lambda>c. c = CHR '','') str) \<le> length str" by (rule length_dropWhile_le)
  moreover have "length rest \<le> length (dropWhile (\<lambda>c. c = CHR '','') str) - 1"
    unfolding r using length_dropWhile_le [of "\<lambda>c. c \<noteq> CHR '',''" "dropWhile (\<lambda>c. c = CHR '','') str"] by simp
  ultimately show ?thesis by linarith
qed

text \<open>The loop over the tokens of a list of patterns: whether some pattern matches.\<close>

function some_pattern_matches :: "string \<Rightarrow> string \<Rightarrow> bool" where
  "some_pattern_matches trimmed_cmd patterns =
     (case strtok patterns of
        None \<Rightarrow> False
      | Some (token, rest) \<Rightarrow>
          let pattern = trim_whitespace token in
          if pattern \<noteq> [] \<and> command_matches_pattern trimmed_cmd pattern then True
          else some_pattern_matches trimmed_cmd rest)"
  by pat_completeness auto
termination
  by (relation "measure (\<lambda>(cmd, patterns). length patterns)") (auto dest: strtok_progress)

declare some_pattern_matches.simps [simp del]

definition guac_ssh_acl_check_command :: "guac_ssh_acl_rule option \<Rightarrow> string option \<Rightarrow> bool" where
  "guac_ssh_acl_check_command rule command =
     (case (rule, command) of
        (Some rule, Some command) \<Rightarrow>
          let trimmed_cmd = trim_whitespace (take 8191 command) in
          if trimmed_cmd = [] then True
          else if is_alias_or_function_definition (Some trimmed_cmd) then False
          else if (case blacklist rule of
                     Some patterns \<Rightarrow> patterns \<noteq> [] \<and> some_pattern_matches trimmed_cmd patterns
                   | None \<Rightarrow> False) then False
          else if (case whitelist rule of
                     Some patterns \<Rightarrow> patterns \<noteq> [] \<and> \<not> some_pattern_matches trimmed_cmd patterns
                   | None \<Rightarrow> False) then False
          else True
      | _ \<Rightarrow> True)"

section \<open>Strings of the C library\<close>

lemma starts_with_prefix [simp]: "starts_with str pre \<longleftrightarrow> prefix pre str"
  unfolding starts_with_def by (metis append_eq_conv_conj append_take_drop_id prefix_def)

lemma strstr_sublist [simp]: "strstr str needle = None \<longleftrightarrow> \<not> sublist needle str"
proof (induction str)
  case (Cons c cs)
  have "take (length needle) (c # cs) = needle \<longleftrightarrow> prefix needle (c # cs)"
    using starts_with_prefix [of "c # cs" needle] unfolding starts_with_def .
  then show ?case using Cons by (simp add: sublist_Cons_right)
qed auto

lemma command_matches_sublist [simp]: "command_matches_pattern command pattern \<longleftrightarrow> sublist pattern command"
  by (simp add: command_matches_pattern_def)

lemma strchr_None [simp]: "strchr str d = None \<longleftrightarrow> d \<notin> set str"
  by (induction str) auto

lemma strchr_first: "d \<notin> set a \<Longrightarrow> strchr (a @ d # b) d = Some (length a)"
  by (induction a) auto

text \<open>Trimming removes whitespace at both ends.\<close>

definition trim :: "string \<Rightarrow> string" where
  "trim s = rev (dropWhile isspace (rev (dropWhile isspace s)))"

lemma trim_end_drops:
  "n < length str \<Longrightarrow> \<not> isspace (str ! 0) \<Longrightarrow>
   take (trim_end str n + 1) str = rev (dropWhile isspace (rev (take (n + 1) str)))"
proof (induction n)
  case 0
  then have "take 1 str = [str ! 0]" by (cases str) auto
  then show ?case using 0 by simp
next
  case (Suc n)
  have "take (Suc n + 1) str = take (n + 1) str @ [str ! Suc n]"
    using Suc.prems by (simp add: take_Suc_conv_app_nth)
  then show ?case using Suc by simp
qed

lemma trim_whitespace_trim [simp]: "trim_whitespace s = trim s"
proof (cases "dropWhile isspace s = []")
  case True
  show ?thesis unfolding trim_whitespace_def trim_def Let_def True by simp
next
  case False
  define t where "t = dropWhile isspace s"
  have t: "t \<noteq> []" using False by (simp only: t_def not_False_eq_True)
  have "\<not> isspace (t ! 0)" using hd_dropWhile [OF False] t by (simp add: hd_conv_nth t_def)
  then have "take (trim_end t (length t - 1) + 1) t = rev (dropWhile isspace (rev t))"
    using trim_end_drops [of "length t - 1" t] t by simp
  moreover have "s \<noteq> []" using False by auto
  ultimately show ?thesis
    unfolding trim_whitespace_def trim_def Let_def t_def [symmetric] using t by simp
qed

lemma trim_Nil [simp]: "trim [] = []" by (simp add: trim_def)

lemma trim_eq_Nil: "trim s = [] \<longleftrightarrow> (\<forall>c \<in> set s. isspace c)"
proof
  assume "trim s = []"
  then have "\<forall>c \<in> set (dropWhile isspace s). isspace c" by (simp add: trim_def)
  then have "dropWhile isspace s = []" using hd_dropWhile hd_in_set by metis
  then show "\<forall>c \<in> set s. isspace c" by simp
next
  assume "\<forall>c \<in> set s. isspace c"
  then have "dropWhile isspace s = []" by simp
  then show "trim s = []" unfolding trim_def by (simp only: rev.simps dropWhile.simps)
qed

text \<open>A string without whitespace at its ends.\<close>

definition trimmed :: "string \<Rightarrow> bool" where
  "trimmed s \<longleftrightarrow> s \<noteq> [] \<and> \<not> isspace (hd s) \<and> \<not> isspace (last s)"

lemma trim_trimmed:
  assumes "trimmed s" "\<forall>c \<in> set a. isspace c" "\<forall>c \<in> set b. isspace c"
  shows "trim (a @ s @ b) = s"
proof -
  have s: "s \<noteq> []" "\<not> isspace (hd s)" "\<not> isspace (last s)" using assms(1) by (auto simp: trimmed_def)
  have "dropWhile isspace (a @ s @ b) = s @ b"
    using s assms(2) by (cases s) (auto simp: dropWhile_append)
  moreover have "dropWhile isspace (rev b @ rev s) = rev s"
    using s assms(3) by (cases s rule: rev_cases) (auto simp: dropWhile_append)
  ultimately show ?thesis by (simp add: trim_def)
qed

lemma trimmed_trim: "trim s \<noteq> [] \<Longrightarrow> trimmed (trim s)"
proof -
  assume ne: "trim s \<noteq> []"
  let ?t = "dropWhile isspace s"
  have t: "?t \<noteq> []" using ne unfolding trim_def by (metis dropWhile.simps(1) rev.simps(1))
  have pre: "prefix (trim s) ?t" unfolding trim_def by (metis rev_rev_ident suffix_dropWhile suffix_to_prefix)
  then have "hd (trim s) = hd ?t" using ne by (auto simp: prefix_def)
  moreover have "last (trim s) = hd (dropWhile isspace (rev ?t))"
    by (simp add: trim_def last_rev)
  moreover have "dropWhile isspace (rev ?t) \<noteq> []" using ne by (simp add: trim_def)
  ultimately show ?thesis using ne hd_dropWhile t by (metis trimmed_def)
qed

section \<open>Lists of patterns\<close>

text \<open>The fields of a list separated by commas, and the patterns it stands for.\<close>

fun fields :: "string \<Rightarrow> string list" where
  "fields [] = [[]]"
| "fields (c # s) = (if c = CHR '','' then [] # fields s else (c # hd (fields s)) # tl (fields s))"

definition patterns :: "string option \<Rightarrow> string set" where
  "patterns l = (case l of None \<Rightarrow> {} | Some s \<Rightarrow> trim ` set (fields s) - {[]})"

lemma fields_nonempty [simp]: "fields s \<noteq> []"
  by (cases s) auto

lemma fields_first:
  "fields s = takeWhile (\<lambda>c. c \<noteq> CHR '','') s #
     (case dropWhile (\<lambda>c. c \<noteq> CHR '','') s of [] \<Rightarrow> [] | _ # r \<Rightarrow> fields r)"
  by (induction s) auto

lemma patterns_Nil [simp]: "patterns (Some []) = {}" "patterns None = {}"
  by (simp_all add: patterns_def)

lemma patterns_comma: "patterns (Some (CHR '','' # s)) = patterns (Some s)"
  by (auto simp: patterns_def)

lemma patterns_skip: "patterns (Some (dropWhile (\<lambda>c. c = CHR '','') s)) = patterns (Some s)"
  by (induction s) (auto simp: patterns_comma)

lemma patterns_strtok:
  "patterns (Some s) =
     (case strtok s of
        None \<Rightarrow> {}
      | Some (token, rest) \<Rightarrow> (if trim token = [] then {} else {trim token}) \<union> patterns (Some rest))"
proof (cases "dropWhile (\<lambda>c. c = CHR '','') s = []")
  case True
  have "strtok s = None" unfolding strtok_def Let_def True by simp
  moreover have "patterns (Some s) = {}" using patterns_skip [of s] unfolding True by simp
  ultimately show ?thesis by simp
next
  case False
  define t where "t = dropWhile (\<lambda>c. c = CHR '','') s"
  have "strtok s = Some (takeWhile (\<lambda>c. c \<noteq> CHR '','') t, tl (dropWhile (\<lambda>c. c \<noteq> CHR '','') t))"
    using False by (simp only: strtok_def Let_def t_def if_False)
  moreover have "patterns (Some t) =
      (if trim (takeWhile (\<lambda>c. c \<noteq> CHR '','') t) = [] then {} else {trim (takeWhile (\<lambda>c. c \<noteq> CHR '','') t)}) \<union>
      patterns (Some (tl (dropWhile (\<lambda>c. c \<noteq> CHR '','') t)))"
    using fields_first [of t]
    by (cases "dropWhile (\<lambda>c. c \<noteq> CHR '','') t") (auto simp: patterns_def simp del: dropWhile_eq_Nil_conv)
  moreover have "patterns (Some t) = patterns (Some s)" unfolding t_def by (rule patterns_skip)
  ultimately show ?thesis by simp
qed

lemma some_pattern_matches_iff:
  "some_pattern_matches cmd l \<longleftrightarrow> (\<exists>p \<in> patterns (Some l). sublist p cmd)"
proof (induction cmd l rule: some_pattern_matches.induct)
  case (1 cmd l)
  show ?case
    by (subst some_pattern_matches.simps, subst patterns_strtok) (auto split: option.splits simp: 1 Let_def)
qed

section \<open>What is refused\<close>

text \<open>Commands that define an alias or a function or run a file in the shell itself.\<close>

definition is_definition :: "string \<Rightarrow> bool" where
  "is_definition c \<longleftrightarrow> prefix ''alias '' c \<or> prefix ''source '' c \<or> sublist ''function '' c \<or> sublist ''() {'' c \<or>
     prefix ''. '' c \<and> \<not> prefix ''. .'' c"

lemma dot_third: "prefix ''. '' c \<Longrightarrow> (c @ [NUL]) ! 2 = CHR ''.'' \<longleftrightarrow> prefix ''. .'' c"
  by (cases c; cases "tl c"; cases "tl (tl c)") auto

lemma is_alias_definition:
  "trimmed c \<Longrightarrow> is_alias_or_function_definition (Some c) \<longleftrightarrow> is_definition c"
proof -
  assume "trimmed c"
  then have "dropWhile isspace c = c" "c \<noteq> []" by (cases c; simp add: trimmed_def)+
  then show ?thesis
    using dot_third [of c] by (auto simp: is_alias_or_function_definition_def is_definition_def Let_def)
qed

definition accepts :: "guac_ssh_acl_rule \<Rightarrow> string \<Rightarrow> bool" where
  "accepts rule c \<longleftrightarrow>
     c = [] \<or>
     \<not> is_definition c \<and>
     \<not> (\<exists>p \<in> patterns (blacklist rule). sublist p c) \<and>
     (whitelist rule = None \<or> whitelist rule = Some [] \<or> (\<exists>p \<in> patterns (whitelist rule). sublist p c))"

lemma check_command_accepts:
  "guac_ssh_acl_check_command (Some rule) (Some command) \<longleftrightarrow> accepts rule (trim (take 8191 command))"
proof (cases "trim (take 8191 command) = []")
  case False
  then have "is_alias_or_function_definition (Some (trim (take 8191 command))) \<longleftrightarrow> is_definition (trim (take 8191 command))"
    using is_alias_definition trimmed_trim by blast
  then show ?thesis using False
    by (cases "blacklist rule"; cases "whitelist rule")
      (auto simp: guac_ssh_acl_check_command_def accepts_def Let_def some_pattern_matches_iff)
qed (simp add: guac_ssh_acl_check_command_def accepts_def Let_def)

lemma check_command_short:
  "length command \<le> 8191 \<Longrightarrow>
     guac_ssh_acl_check_command (Some rule) (Some command) \<longleftrightarrow> accepts rule (trim command)"
  by (simp add: check_command_accepts)







section \<open>The text of a configuration\<close>

abbreviation LF :: char where "LF \<equiv> CHR 0x0A"

definition render_key :: "string \<Rightarrow> string option \<Rightarrow> string" where
  "render_key name v = (case v of None \<Rightarrow> [] | Some v \<Rightarrow> name @ ''='' @ v @ [LF])"

definition render_rule :: "guac_ssh_acl_rule \<Rightarrow> string" where
  "render_rule r =
     render_key ''blacklist'' (blacklist r) @ render_key ''whitelist'' (whitelist r) @
     (if blocked_message r = Some GUAC_SSH_ACL_DEFAULT_MESSAGE then []
      else render_key ''blocked_message'' (blocked_message r))"

definition render_section :: "string \<Rightarrow> guac_ssh_acl_rule \<Rightarrow> string" where
  "render_section name r = ''['' @ name @ '']'' @ [LF] @ render_rule r"

definition render_connection :: "guac_ssh_acl_connection_rule \<Rightarrow> string" where
  "render_connection r = render_section (''connection:'' @ connection_key r) (connection_rule r)"

definition render_user :: "guac_ssh_acl_user_rule \<Rightarrow> string" where
  "render_user r = render_section (''user:'' @ rule_username r) (user_rule r)"

definition render :: "guac_ssh_acl_config \<Rightarrow> string" where
  "render config =
     (case global_rule config of None \<Rightarrow> [] | Some r \<Rightarrow> render_section ''global'' r) @
     concat (map render_connection (connection_rules config)) @
     concat (map render_user (user_rules config))"

text \<open>The values, names and rules that a file can hold.\<close>

definition plain_text :: "string \<Rightarrow> bool" where
  "plain_text v \<longleftrightarrow> NUL \<notin> set v \<and> LF \<notin> set v \<and> length v \<le> 4000"

definition value_ok :: "string \<Rightarrow> bool" where
  "value_ok v \<longleftrightarrow> trimmed v \<and> plain_text v"

definition name_ok :: "string \<Rightarrow> bool" where
  "name_ok k \<longleftrightarrow> NUL \<notin> set k \<and> LF \<notin> set k \<and> CHR '']'' \<notin> set k \<and> length k \<le> 240"

fun valid_option :: "('a \<Rightarrow> bool) \<Rightarrow> 'a option \<Rightarrow> bool" where
  "valid_option P None = True"
| "valid_option P (Some x) = P x"

definition rule_ok :: "guac_ssh_acl_rule \<Rightarrow> bool" where
  "rule_ok r \<longleftrightarrow> valid_option value_ok (blacklist r) \<and> valid_option value_ok (whitelist r) \<and>
     (blocked_message r = Some GUAC_SSH_ACL_DEFAULT_MESSAGE \<or>
      (case blocked_message r of None \<Rightarrow> False | Some m \<Rightarrow> value_ok m))"

definition config_ok :: "guac_ssh_acl_config \<Rightarrow> bool" where
  "config_ok config \<longleftrightarrow>
     valid_option rule_ok (global_rule config) \<and>
     list_all (\<lambda>r. name_ok (connection_key r) \<and> rule_ok (connection_rule r)) (connection_rules config) \<and>
     list_all (\<lambda>r. name_ok (rule_username r) \<and> rule_ok (user_rule r)) (user_rules config) \<and>
     length (connection_rules config) \<le> GUAC_SSH_ACL_MAX_RULES \<and>
     length (user_rules config) \<le> GUAC_SSH_ACL_MAX_RULES"

text \<open>Reading one line.\<close>

lemma fgets_line: "LF \<notin> set line \<Longrightarrow> length line < n \<Longrightarrow> fgets n (line @ LF # rest) = (line @ [LF], rest)"
proof (induction line arbitrary: n)
  case Nil
  then show ?case by (cases n) auto
next
  case (Cons c line)
  then show ?case by (cases n) auto
qed

lemma trim_line_end: "trim (line @ [LF]) = trim line"
proof -
  have "isspace LF" by (simp add: isspace_def)
  then show ?thesis
    by (cases "dropWhile isspace line = []") (auto simp: trim_def dropWhile_append dest: set_dropWhileD)
qed

lemma config_lines_line:
  assumes "NUL \<notin> set line" "LF \<notin> set line" "length line < 4095"
  shows "config_lines (line @ LF # rest) st = config_lines rest (config_line line st)"
proof -
  have "cstr (line @ [LF]) = line @ [LF]" using assms(1) by (auto simp: cstr_def takeWhile_eq_all_conv)
  moreover have "config_line (line @ [LF]) st = config_line line st"
    by (simp only: config_line_def trim_whitespace_trim trim_line_end)
  ultimately show ?thesis
    using fgets_line [OF assms(2,3), of rest] by (subst config_lines.simps) simp
qed

lemma not_isspace [simp]: "\<not> isspace (CHR ''['')" "\<not> isspace (CHR '']'')" "\<not> isspace (CHR ''b'')" "\<not> isspace (CHR ''w'')"
  by (simp_all add: isspace_def)

lemma config_line_header:
  assumes "CHR '']'' \<notin> set name" "length name \<le> 255"
  shows "config_line (''['' @ name @ '']'') st = section_header name st"
proof -
  have "trim (''['' @ name @ '']'') = ''['' @ name @ '']''"
    using trim_trimmed [of "''['' @ name @ '']''" "[]" "[]"] by (simp add: trimmed_def)
  moreover have "strchr (''['' @ name @ '']'') (CHR '']'') = Some (length name + 1)"
    using strchr_first [of "CHR '']''" "''['' @ name" "[]"] assms(1) by simp
  ultimately show ?thesis
    using assms(2) by (simp add: config_line_def Let_def)
qed

definition acl_keys :: "string list" where
  "acl_keys = [''blacklist'', ''whitelist'', ''blocked_message'']"

lemma acl_keys_facts:
  "key \<in> set acl_keys \<Longrightarrow>
     trimmed key \<and> NUL \<notin> set key \<and> LF \<notin> set key \<and> CHR ''='' \<notin> set key \<and> length key < 20 \<and>
     hd key \<noteq> CHR ''#'' \<and> hd key \<noteq> CHR '';'' \<and> hd key \<noteq> CHR ''[''"
  by (auto simp: acl_keys_def trimmed_def isspace_def)

lemma config_line_key:
  assumes "key \<in> set acl_keys" "trimmed v"
  shows "config_line (key @ ''='' @ v) (config, Some p) = (update_rule p (set_key key v) config, Some p)"
proof -
  note k = acl_keys_facts [OF assms(1)]
  have "trimmed (key @ ''='' @ v)" using k assms(2) by (auto simp: trimmed_def)
  then have t: "trim (key @ ''='' @ v) = key @ ''='' @ v"
    using trim_trimmed [of "key @ ''='' @ v" "[]" "[]"] by simp
  have kv: "trim key = key" "trim v = v"
    using trim_trimmed [of key "[]" "[]"] trim_trimmed [of v "[]" "[]"] k assms(2) by simp_all
  have "strchr (key @ ''='' @ v) (CHR ''='') = Some (length key)"
    using strchr_first [of "CHR ''=''" key v] k by simp
  then show ?thesis
    using t k kv by (auto simp: config_line_def Let_def key_value_def trimmed_def)
qed

lemma read_key:
  assumes "key \<in> set acl_keys" "value_ok v"
  shows "config_lines (key @ ''='' @ v @ LF # rest) (config, Some p) =
           config_lines rest (update_rule p (set_key key v) config, Some p)"
  using config_lines_line [of "key @ ''='' @ v" rest "(config, Some p)"] config_line_key [OF assms(1)]
    acl_keys_facts [OF assms(1)] assms(2) by (auto simp: value_ok_def plain_text_def)

text \<open>Reading the keys of a rule.\<close>

lemma update_rule_comp: "update_rule p f (update_rule p g config) = update_rule p (f \<circ> g) config"
proof (cases p)
  case Global
  then show ?thesis by (simp add: update_rule_def option.map_comp)
next
  case (Connection i)
  then show ?thesis by (cases "i < length (connection_rules config)") (simp_all add: update_rule_def list_update_beyond)
next
  case (User i)
  then show ?thesis by (cases "i < length (user_rules config)") (simp_all add: update_rule_def list_update_beyond)
qed

definition set_option :: "string \<Rightarrow> string option \<Rightarrow> guac_ssh_acl_rule \<Rightarrow> guac_ssh_acl_rule" where
  "set_option key v = (case v of None \<Rightarrow> id | Some v \<Rightarrow> set_key key v)"

lemma update_rule_id: "update_rule p id config = config"
  by (cases p; cases "global_rule config") (simp_all add: update_rule_def)

lemma read_option:
  assumes "key \<in> set acl_keys" "valid_option value_ok v"
  shows "config_lines (render_key key v @ rest) (config, Some p) =
           config_lines rest (update_rule p (set_option key v) config, Some p)"
  using assms read_key [OF assms(1)]
  by (cases v) (simp_all add: render_key_def set_option_def update_rule_id)

lemma read_rule:
  assumes "rule_ok r"
  shows "\<exists>f. (\<forall>rest config p. config_lines (render_rule r @ rest) (config, Some p) =
                config_lines rest (update_rule p f config, Some p)) \<and> f create_rule = r"
proof -
  let ?m = "if blocked_message r = Some GUAC_SSH_ACL_DEFAULT_MESSAGE then None else blocked_message r"
  let ?f = "set_option ''blocked_message'' ?m \<circ> (set_option ''whitelist'' (whitelist r) \<circ> set_option ''blacklist'' (blacklist r))"
  have ok: "valid_option value_ok (blacklist r)" "valid_option value_ok (whitelist r)" "valid_option value_ok ?m"
    using assms by (auto simp: rule_ok_def split: option.splits)
  have m: "(if blocked_message r = Some GUAC_SSH_ACL_DEFAULT_MESSAGE then []
      else render_key ''blocked_message'' (blocked_message r)) = render_key ''blocked_message'' ?m"
    by (simp add: render_key_def)
  have keys: "''blacklist'' \<in> set acl_keys" "''whitelist'' \<in> set acl_keys" "''blocked_message'' \<in> set acl_keys"
    by (simp_all add: acl_keys_def)
  have "config_lines (render_rule r @ rest) (config, Some p) = config_lines rest (update_rule p ?f config, Some p)" for rest config p
    unfolding render_rule_def m append_assoc
    by (simp only: read_option [OF keys(1) ok(1)] read_option [OF keys(2) ok(2)] read_option [OF keys(3) ok(3)] update_rule_comp)
  moreover have "?f create_rule = r"
  proof -
    have b: "set_option ''blacklist'' (blacklist r) create_rule = create_rule\<lparr>blacklist := blacklist r\<rparr>"
      using ok(1) by (cases "blacklist r") (simp_all add: set_option_def set_key_def create_rule_def value_ok_def trimmed_def)
    have w: "set_option ''whitelist'' (whitelist r) x = x\<lparr>whitelist := whitelist r\<rparr>" if "whitelist x = None" for x
      using ok(2) that by (cases "whitelist r") (simp_all add: set_option_def set_key_def value_ok_def trimmed_def)
    have m': "set_option ''blocked_message'' ?m x = x\<lparr>blocked_message := blocked_message r\<rparr>"
      if "blocked_message x = Some GUAC_SSH_ACL_DEFAULT_MESSAGE" for x
      using ok(3) that assms
      by (cases "blocked_message r") (auto simp: set_option_def set_key_def value_ok_def trimmed_def rule_ok_def)
    show ?thesis unfolding o_apply b by (subst w, simp add: create_rule_def, subst m') (simp_all add: create_rule_def)
  qed
  ultimately show ?thesis by blast
qed

text \<open>Reading the sections.\<close>

lemma read_header:
  assumes "NUL \<notin> set name" "LF \<notin> set name" "CHR '']'' \<notin> set name" "length name \<le> 255"
  shows "config_lines (render_section name r @ rest) st = config_lines (render_rule r @ rest) (section_header name st)"
  using config_lines_line [of "''['' @ name @ '']''" "render_rule r @ rest" st] config_line_header [OF assms(3,4)] assms
  by (simp add: render_section_def)

lemma read_global:
  assumes "rule_ok r" "global_rule config = None"
  shows "config_lines (render_section ''global'' r @ rest) (config, p) =
           config_lines rest (config\<lparr>global_rule := Some r\<rparr>, Some Global)"
proof -
  obtain f where f: "\<And>rest config p. config_lines (render_rule r @ rest) (config, Some p) =
      config_lines rest (update_rule p f config, Some p)" "f create_rule = r"
    using read_rule [OF assms(1)] by blast
  show ?thesis
    by (simp add: read_header section_header_def assms(2) f update_rule_def)
qed

lemma read_connection:
  assumes "name_ok (connection_key r)" "rule_ok (connection_rule r)" "length (connection_rules config) < GUAC_SSH_ACL_MAX_RULES"
  shows "\<exists>p'. config_lines (render_connection r @ rest) (config, p) =
           config_lines rest (config\<lparr>connection_rules := connection_rules config @ [r]\<rparr>, p')"
proof -
  obtain f where f: "\<And>rest config p. config_lines (render_rule (connection_rule r) @ rest) (config, Some p) =
      config_lines rest (update_rule p f config, Some p)" "f create_rule = connection_rule r"
    using read_rule [OF assms(2)] by blast
  have h: "section_header (''connection:'' @ connection_key r) (config, p) =
     (config\<lparr>connection_rules := connection_rules config @
        [\<lparr>connection_key = connection_key r, connection_rule = create_rule\<rparr>]\<rparr>,
      Some (Connection (length (connection_rules config))))"
    using assms(3) by (simp add: section_header_def)
  have r: "\<lparr>connection_key = connection_key r, connection_rule = connection_rule r\<rparr> = r" by simp
  have "config_lines (render_connection r @ rest) (config, p) =
     config_lines (render_rule (connection_rule r) @ rest) (section_header (''connection:'' @ connection_key r) (config, p))"
    unfolding render_connection_def using assms(1) by (intro read_header) (auto simp: name_ok_def)
  then show ?thesis unfolding h f(1) by (auto simp: update_rule_def f(2) r)
qed

lemma read_user:
  assumes "name_ok (rule_username r)" "rule_ok (user_rule r)" "length (user_rules config) < GUAC_SSH_ACL_MAX_RULES"
  shows "\<exists>p'. config_lines (render_user r @ rest) (config, p) =
           config_lines rest (config\<lparr>user_rules := user_rules config @ [r]\<rparr>, p')"
proof -
  obtain f where f: "\<And>rest config p. config_lines (render_rule (user_rule r) @ rest) (config, Some p) =
      config_lines rest (update_rule p f config, Some p)" "f create_rule = user_rule r"
    using read_rule [OF assms(2)] by blast
  have h: "section_header (''user:'' @ rule_username r) (config, p) =
     (config\<lparr>user_rules := user_rules config @ [\<lparr>rule_username = rule_username r, user_rule = create_rule\<rparr>]\<rparr>,
      Some (User (length (user_rules config))))"
    using assms(3) by (simp add: section_header_def)
  have r: "\<lparr>rule_username = rule_username r, user_rule = user_rule r\<rparr> = r" by simp
  have "config_lines (render_user r @ rest) (config, p) =
     config_lines (render_rule (user_rule r) @ rest) (section_header (''user:'' @ rule_username r) (config, p))"
    unfolding render_user_def using assms(1) by (intro read_header) (auto simp: name_ok_def)
  then show ?thesis unfolding h f(1) by (auto simp: update_rule_def f(2) r)
qed

lemma read_connections:
  assumes "list_all (\<lambda>r. name_ok (connection_key r) \<and> rule_ok (connection_rule r)) rs"
    "length (connection_rules config) + length rs \<le> GUAC_SSH_ACL_MAX_RULES"
  shows "\<exists>p'. config_lines (concat (map render_connection rs) @ rest) (config, p) =
           config_lines rest (config\<lparr>connection_rules := connection_rules config @ rs\<rparr>, p')"
  using assms
proof (induction rs arbitrary: config p)
  case (Cons r rs)
  let ?c = "config\<lparr>connection_rules := connection_rules config @ [r]\<rparr>"
  obtain p1 where "config_lines (render_connection r @ concat (map render_connection rs) @ rest) (config, p) =
      config_lines (concat (map render_connection rs) @ rest) (?c, p1)"
    using read_connection [of r config "concat (map render_connection rs) @ rest" p] Cons.prems by auto
  moreover obtain p2 where "config_lines (concat (map render_connection rs) @ rest) (?c, p1) =
      config_lines rest (?c\<lparr>connection_rules := connection_rules ?c @ rs\<rparr>, p2)"
    using Cons.IH [of ?c p1] Cons.prems by auto
  ultimately show ?case by (auto intro!: exI [of _ p2])
qed auto

lemma read_users:
  assumes "list_all (\<lambda>r. name_ok (rule_username r) \<and> rule_ok (user_rule r)) rs"
    "length (user_rules config) + length rs \<le> GUAC_SSH_ACL_MAX_RULES"
  shows "\<exists>p'. config_lines (concat (map render_user rs) @ rest) (config, p) =
           config_lines rest (config\<lparr>user_rules := user_rules config @ rs\<rparr>, p')"
  using assms
proof (induction rs arbitrary: config p)
  case (Cons r rs)
  let ?c = "config\<lparr>user_rules := user_rules config @ [r]\<rparr>"
  obtain p1 where "config_lines (render_user r @ concat (map render_user rs) @ rest) (config, p) =
      config_lines (concat (map render_user rs) @ rest) (?c, p1)"
    using read_user [of r config "concat (map render_user rs) @ rest" p] Cons.prems by auto
  moreover obtain p2 where "config_lines (concat (map render_user rs) @ rest) (?c, p1) =
      config_lines rest (?c\<lparr>user_rules := user_rules ?c @ rs\<rparr>, p2)"
    using Cons.IH [of ?c p1] Cons.prems by auto
  ultimately show ?case by (auto intro!: exI [of _ p2])
qed auto

lemma load_render:
  assumes "config_ok config"
  shows "guac_ssh_acl_load_config True (Some (render config)) = Some config"
proof -
  let ?empty = "\<lparr>global_rule = None, connection_rules = [], user_rules = []\<rparr>"
  let ?users = "concat (map render_user (user_rules config))"
  let ?rest = "concat (map render_connection (connection_rules config)) @ ?users"
  let ?c1 = "?empty\<lparr>global_rule := global_rule config\<rparr>"
  let ?c2 = "?c1\<lparr>connection_rules := connection_rules config\<rparr>"
  note ok = assms [unfolded config_ok_def]
  obtain p1 where 1: "config_lines (render config) (?empty, None) = config_lines ?rest (?c1, p1)"
    using read_global [of _ ?empty ?rest None] ok
    by (cases "global_rule config") (auto simp: render_def)
  obtain p2 where 2: "config_lines ?rest (?c1, p1) = config_lines ?users (?c2, p2)"
    using read_connections [of "connection_rules config" ?c1 ?users p1] ok by auto
  obtain p3 where 3: "config_lines (?users @ []) (?c2, p2) = config_lines [] (?c2\<lparr>user_rules := user_rules config\<rparr>, p3)"
    using read_users [of "user_rules config" ?c2 "[]" p2] ok by auto
  have "config_lines (render config) (?empty, None) = (config, p3)"
    using 1 2 3 by (simp add: config_lines.simps [of "[]"])
  then show ?thesis by (simp add: guac_ssh_acl_load_config_def)
qed

text \<open>
  C37. A configuration whose names and values fit into lines, rendered as a file with its sections and
  keys, is loaded from that file as it was.
\<close>

theorem config_roundtrip:
  assumes "config_ok config"
  shows "guac_ssh_acl_load_config True (Some (render config)) = Some config"
  using assms by (rule load_render)

definition sample_config :: guac_ssh_acl_config where
  "sample_config = \<lparr>
     global_rule = Some \<lparr>blacklist = Some ''rm -rf,sudo'', whitelist = None, blocked_message = Some GUAC_SSH_ACL_DEFAULT_MESSAGE\<rparr>,
     connection_rules = [\<lparr>connection_key = ''db:app'',
       connection_rule = \<lparr>blacklist = None, whitelist = Some ''ls,cd'', blocked_message = Some ''read only''\<rparr>\<rparr>],
     user_rules = [\<lparr>rule_username = ''john'',
       user_rule = \<lparr>blacklist = Some ''a=b'', whitelist = None, blocked_message = Some ''no''\<rparr>\<rparr>]\<rparr>"

lemma sample_config_ok: "config_ok sample_config"
  by code_simp

theorem config_roundtrip_witness:
  "guac_ssh_acl_load_config True (Some (render sample_config)) = Some sample_config"
  by (rule config_roundtrip) (rule sample_config_ok)

section \<open>The rule of a connection\<close>







text \<open>
  Until the user name is known, and for host names with a colon (addresses of IPv6), rules of the
  connection do not apply.
\<close>

lemma rule_without_login:
  "guac_ssh_acl_get_rule (Some config) None (Some host) None =
     (case find (\<lambda>r. CHR '':'' \<notin> set (connection_key r) \<and> connection_key r = host) (connection_rules config) of
        Some r \<Rightarrow> Some (connection_rule r) | None \<Rightarrow> global_rule config)"
  by (simp add: guac_ssh_acl_get_rule_def)

text \<open>
  The keys below a section whose name is not known belong to the section before it; and of the commands
  that run a file in the shell itself, those that name it with a leading \<open>.\<close> are not recognized.
\<close>

lemma unknown_section_is_ignored: "section_header ''users:john'' st = st"
  by (cases st) (simp add: section_header_def)

lemma sourcing_by_relative_path_is_accepted: "accepts create_rule ''. ./script.sh''"
  by code_simp

end
