(* ===== verification/SshInput.thy ===== *)
theory SshInput
  imports CommandAcl
begin

text \<open>
  The thread that passes what a user types to the SSH server (\<open>ssh_input_thread\<close> of
  \<open>src/src/protocols/ssh/ssh.c\<close>) and filters the commands in it.

  Every character is sent as it is typed, so that the server echoes it; a refused command is taken
  back with backspaces. The buffer of the command is the list of its first \<open>command_len\<close> characters,
  as the code reads no others. What each call of \<open>libssh2_channel_write\<close> returns is taken from a
  list, as the library decides it (a number of bytes, or an error such as \<open>LIBSSH2_ERROR_EAGAIN\<close> in
  the non-blocking mode that the connection is in); when the list is used up, everything is accepted.
  How the server edits its line is a parameter of the theorems.
\<close>

section \<open>Definitions\<close>

abbreviation CR :: char where "CR \<equiv> CHR 0x0D"
abbreviation BS :: char where "BS \<equiv> CHR 0x08"
abbreviation DEL :: char where "DEL \<equiv> CHR 0x7F"

record ssh_connection =
  command_buffer :: string
  channel_sent :: string
  write_results :: "int list"
  terminal_messages :: "string list"
  client_stopping :: bool

definition libssh2_channel_write :: "string \<Rightarrow> ssh_connection \<Rightarrow> ssh_connection" where
  "libssh2_channel_write data st =
     (case write_results st of
        [] \<Rightarrow> st\<lparr>channel_sent := channel_sent st @ data\<rparr>
      | r # rs \<Rightarrow> st\<lparr>channel_sent := channel_sent st @ take (nat r) data, write_results := rs\<rparr>)"

fun erase_typed :: "nat \<Rightarrow> ssh_connection \<Rightarrow> ssh_connection" where
  "erase_typed 0 st = st"
| "erase_typed (Suc n) st = erase_typed n (libssh2_channel_write [BS, CHR '' '', BS] st)"

definition typed_character :: "guac_ssh_acl_rule \<Rightarrow> char \<Rightarrow> ssh_connection \<Rightarrow> ssh_connection" where
  "typed_character acl_rule c st =
     (if c = CR \<or> c = LF then
        let blocked = (command_buffer st \<noteq> [] \<and>
              \<not> guac_ssh_acl_check_command (Some acl_rule) (Some (cstr (command_buffer st))));
            st = (if blocked then
                    let st = erase_typed (length (command_buffer st)) st;
                        st = libssh2_channel_write [CR, LF] st
                    in (case blocked_message acl_rule of
                          None \<Rightarrow> st
                        | Some blocked_msg \<Rightarrow> st\<lparr>terminal_messages := terminal_messages st @ [blocked_msg]\<rparr>)
                  else libssh2_channel_write [c] st)
        in st\<lparr>command_buffer := []\<rparr>
      else if c = DEL \<or> c = BS then
        libssh2_channel_write [c]
          (if command_buffer st \<noteq> [] then st\<lparr>command_buffer := butlast (command_buffer st)\<rparr> else st)
      else
        libssh2_channel_write [c]
          (if length (command_buffer st) < 8191 then st\<lparr>command_buffer := command_buffer st @ [c]\<rparr> else st))"

text \<open>
  The loop over what is read from the terminal: each reading gives its data and whether the client is
  stopping afterwards; reading nothing ends the loop.
\<close>

fun ssh_input_loop :: "guac_ssh_acl_rule option \<Rightarrow> (string \<times> bool) list \<Rightarrow> ssh_connection \<Rightarrow> ssh_connection" where
  "ssh_input_loop acl_rule [] st = st"
| "ssh_input_loop acl_rule ((data, stopping) # reads) st =
     (if data = [] then st
      else
        let st = (case acl_rule of
              Some rule \<Rightarrow> fold (typed_character rule) data st
            | None \<Rightarrow> libssh2_channel_write data st)
        in if stopping then st else ssh_input_loop acl_rule reads st)"

definition ssh_input_thread :: "guac_ssh_acl_rule option \<Rightarrow> (string \<times> bool) list \<Rightarrow> ssh_connection \<Rightarrow> ssh_connection" where
  "ssh_input_thread acl_rule reads st =
     (ssh_input_loop acl_rule reads (st\<lparr>command_buffer := []\<rparr>))\<lparr>client_stopping := True\<rparr>"

section \<open>Policies\<close>

text \<open>
  What the filter relies on: a policy decides about lines and always allows the empty one. A refused
  line is replaced by two empty ones.
\<close>

definition filtered :: "(string \<Rightarrow> bool) \<Rightarrow> string list \<Rightarrow> string list" where
  "filtered allowed ls = concat (map (\<lambda>l. if allowed l then [l] else [[], []]) ls)"

lemma filtered_simps [simp]:
  "filtered allowed [] = []"
  "filtered allowed (l # ls) = (if allowed l then [l] else [[], []]) @ filtered allowed ls"
  by (simp_all add: filtered_def)

locale command_policy =
  fixes allowed :: "string \<Rightarrow> bool"
  assumes empty_allowed: "allowed []"
begin

lemma filtered_allowed: "l \<in> set (filtered allowed ls) \<Longrightarrow> allowed l"
  by (induction ls) (auto simp: empty_allowed split: if_splits)

lemma filtered_id: "(\<And>l. l \<in> set ls \<Longrightarrow> allowed l) \<Longrightarrow> filtered allowed ls = ls"
  by (induction ls) auto

end

abbreviation permits :: "guac_ssh_acl_rule \<Rightarrow> string \<Rightarrow> bool" where
  "permits rule l \<equiv> guac_ssh_acl_check_command (Some rule) (Some l)"

interpretation acl: command_policy "permits rule" for rule
  by unfold_locales (simp add: guac_ssh_acl_check_command_def)

section \<open>The line at the server\<close>

text \<open>
  A server that edits lines as terminals do: Enter submits the line, an erase character takes back the
  last character, and a printable character is appended.
\<close>

definition printable :: "char \<Rightarrow> bool" where
  "printable c = (let n = of_char c :: nat in 32 \<le> n \<and> n \<le> 126)"

definition plain :: "char \<Rightarrow> bool" where
  "plain c \<longleftrightarrow> printable c \<or> c = CR \<or> c = LF \<or> c = BS \<or> c = DEL"

definition line_editor :: "('s \<Rightarrow> char \<Rightarrow> 's) \<Rightarrow> ('s \<Rightarrow> string) \<Rightarrow> ('s \<Rightarrow> string list) \<Rightarrow> bool" where
  "line_editor receive line submitted \<longleftrightarrow>
     (\<forall>s c.
        (c = CR \<or> c = LF \<longrightarrow> line (receive s c) = [] \<and> submitted (receive s c) = submitted s @ [line s]) \<and>
        (c = BS \<or> c = DEL \<longrightarrow> line (receive s c) = butlast (line s) \<and> submitted (receive s c) = submitted s) \<and>
        (printable c \<longrightarrow> line (receive s c) = line s @ [c] \<and> submitted (receive s c) = submitted s))"

text \<open>The lines that were typed, and whether each stays within the buffer.\<close>

fun typed_lines :: "string \<Rightarrow> string \<Rightarrow> string list" where
  "typed_lines cur [] = []"
| "typed_lines cur (c # cs) =
     (if c = CR \<or> c = LF then cur # typed_lines [] cs
      else if c = BS \<or> c = DEL then typed_lines (butlast cur) cs
      else typed_lines (cur @ [c]) cs)"

fun within :: "nat \<Rightarrow> string \<Rightarrow> string \<Rightarrow> bool" where
  "within n cur [] = True"
| "within n cur (c # cs) =
     (if c = CR \<or> c = LF then within n [] cs
      else if c = BS \<or> c = DEL then within n (butlast cur) cs
      else length cur < n \<and> within n (cur @ [c]) cs)"

abbreviation within_buffer :: "string \<Rightarrow> string \<Rightarrow> bool" where
  "within_buffer \<equiv> within 8191"

lemma within_mono: "within m cur input \<Longrightarrow> m \<le> n \<Longrightarrow> within n cur input"
  by (induction n cur input rule: within.induct) (auto split: if_splits)

text \<open>The data the thread reads before it ends.\<close>

fun data_read :: "(string \<times> bool) list \<Rightarrow> string" where
  "data_read [] = []"
| "data_read ((data, stopping) # reads) =
     (if data = [] then [] else data @ (if stopping then [] else data_read reads))"

lemma ssh_input_loop_fold:
  "ssh_input_loop (Some rule) reads st = fold (typed_character rule) (data_read reads) st"
  by (induction reads arbitrary: st) auto

section \<open>Sending\<close>

lemma write_all [simp]:
  "write_results st = [] \<Longrightarrow> libssh2_channel_write data st = st\<lparr>channel_sent := channel_sent st @ data\<rparr>"
  by (simp add: libssh2_channel_write_def)

fun erasures :: "nat \<Rightarrow> string" where
  "erasures 0 = []"
| "erasures (Suc n) = [BS, CHR '' '', BS] @ erasures n"

lemma erase_typed_all:
  "write_results st = [] \<Longrightarrow> erase_typed n st = st\<lparr>channel_sent := channel_sent st @ erasures n\<rparr>"
  by (induction n arbitrary: st) simp_all

text \<open>What a typed character makes the thread send, and the command that it keeps.\<close>

definition sent_for :: "guac_ssh_acl_rule \<Rightarrow> string \<Rightarrow> char \<Rightarrow> string" where
  "sent_for rule cur c =
     (if (c = CR \<or> c = LF) \<and> cur \<noteq> [] \<and> \<not> permits rule (cstr cur) then erasures (length cur) @ [CR, LF] else [c])"

definition kept_after :: "string \<Rightarrow> char \<Rightarrow> string" where
  "kept_after cur c =
     (if c = CR \<or> c = LF then [] else if c = DEL \<or> c = BS then butlast cur
      else if length cur < 8191 then cur @ [c] else cur)"

lemma typed_character_effect:
  assumes "write_results st = []"
  shows "channel_sent (typed_character rule c st) = channel_sent st @ sent_for rule (command_buffer st) c"
    and "command_buffer (typed_character rule c st) = kept_after (command_buffer st) c"
    and "write_results (typed_character rule c st) = []"
  using assms
  by (auto simp: typed_character_def sent_for_def kept_after_def erase_typed_all Let_def split: option.splits)

section \<open>The filter and the server\<close>

lemma printable_facts: "printable c \<Longrightarrow> c \<noteq> NUL \<and> c \<noteq> CR \<and> c \<noteq> LF \<and> c \<noteq> BS \<and> c \<noteq> DEL"
  by (auto simp: printable_def)

lemma printable_space [simp]: "printable (CHR '' '')"
  by (simp add: printable_def)

lemma receive_erasures:
  assumes "line_editor receive line submitted"
  shows "line (foldl receive s (erasures n)) = take (length (line s) - n) (line s) \<and>
         submitted (foldl receive s (erasures n)) = submitted s"
proof (induction n arbitrary: s)
  case (Suc n)
  have "line (receive (receive (receive s BS) (CHR '' '')) BS) = butlast (line s)"
    "submitted (receive (receive (receive s BS) (CHR '' '')) BS) = submitted s"
    using assms by (simp_all add: line_editor_def)
  then show ?case using Suc [of "receive (receive (receive s BS) (CHR '' '')) BS"]
    by (simp add: butlast_conv_take min_def)
qed simp

lemma receive_sent_for:
  assumes "line_editor receive line submitted" "plain c" "cstring (line s)"
    "c = CR \<or> c = LF \<or> c = BS \<or> c = DEL \<or> length (line s) < 8191"
  shows "line (foldl receive s (sent_for rule (line s) c)) = kept_after (line s) c \<and>
    submitted (foldl receive s (sent_for rule (line s) c)) =
      submitted s @ (if c = CR \<or> c = LF then filtered (permits rule) [line s] else [])"
proof (cases "c = CR \<or> c = LF")
  case True
  note ed = assms(1) [unfolded line_editor_def, rule_format]
  have c: "cstr (line s) = line s" using assms(3) by (simp add: cstring_def cstr_def takeWhile_eq_all_conv) metis
  show ?thesis
  proof (cases "line s \<noteq> [] \<and> \<not> permits rule (line s)")
    case refused: True
    let ?s = "foldl receive s (erasures (length (line s)))"
    have e: "line ?s = []" "submitted ?s = submitted s"
      using receive_erasures [OF assms(1), of s "length (line s)"] by simp_all
    have "line (receive (receive ?s CR) LF) = [] \<and> submitted (receive (receive ?s CR) LF) = submitted s @ [[], []]"
      using ed [of CR ?s] ed [of LF "receive ?s CR"] e by simp
    then show ?thesis using True refused c by (simp add: sent_for_def kept_after_def)
  next
    case False
    then have "permits rule (line s)" using acl.empty_allowed [of rule] by (cases "line s = []") simp_all
    then show ?thesis using True ed [of c s] c False by (simp add: sent_for_def kept_after_def)
  qed
next
  case False
  then have "printable c \<or> c = BS \<or> c = DEL" using assms(2) by (auto simp: plain_def)
  then show ?thesis
    using False assms(1,4) printable_facts [of c] by (auto simp: sent_for_def kept_after_def line_editor_def)
qed

lemma filter_and_server:
  assumes "line_editor receive line submitted" "\<And>c. c \<in> set input \<Longrightarrow> plain c"
    "write_results st = []" "within_buffer (command_buffer st) input" "cstring (command_buffer st)"
    "s = foldl receive s0 (channel_sent st)" "line s = command_buffer st"
  shows "submitted (foldl receive s0 (channel_sent (fold (typed_character rule) input st))) =
           submitted s @ filtered (permits rule) (typed_lines (command_buffer st) input)"
  using assms(2-)
proof (induction input arbitrary: st s)
  case (Cons c input)
  let ?st = "typed_character rule c st"
  let ?s = "foldl receive s (sent_for rule (command_buffer st) c)"
  note eff = typed_character_effect [OF Cons.prems(2), of rule c]
  have plain: "plain c" using Cons.prems(1) by simp
  have room: "c = CR \<or> c = LF \<or> c = BS \<or> c = DEL \<or> length (line s) < 8191"
    using Cons.prems(3,6) by (auto split: if_splits)
  note rec = receive_sent_for [OF assms(1) plain, of s rule, unfolded Cons.prems(6), OF Cons.prems(4) room [unfolded Cons.prems(6)]]
  have kept: "within_buffer (kept_after (command_buffer st) c) input"
    and lines: "typed_lines (command_buffer st) (c # input) =
      (if c = CR \<or> c = LF then [command_buffer st] else []) @ typed_lines (kept_after (command_buffer st) c) input"
    using Cons.prems(3) by (auto simp: kept_after_def split: if_splits)
  have cs: "cstring (kept_after (command_buffer st) c)"
    using Cons.prems(4) plain printable_facts [of c]
    by (auto simp: kept_after_def plain_def cstring_def dest: in_set_butlastD)
  have "submitted (foldl receive s0 (channel_sent (fold (typed_character rule) input ?st))) =
      submitted ?s @ filtered (permits rule) (typed_lines (command_buffer ?st) input)"
    by (rule Cons.IH) (use Cons.prems(1,5) eff kept cs rec in auto)
  then show ?case using lines rec eff by (auto simp: filtered_def)
qed simp

lemma thread_and_server:
  assumes "line_editor receive line submitted" "line s = []"
    and "channel_sent st = []" "write_results st = []"
    and "list_all plain (data_read reads)" "within_buffer [] (data_read reads)"
    and "st' = ssh_input_thread (Some rule) reads st"
  shows "submitted (foldl receive s (channel_sent st')) =
           submitted s @ filtered (\<lambda>l. guac_ssh_acl_check_command (Some rule) (Some l)) (typed_lines [] (data_read reads)) \<and>
         list_all (\<lambda>l. guac_ssh_acl_check_command (Some rule) (Some l))
           (drop (length (submitted s)) (submitted (foldl receive s (channel_sent st'))))"
proof -
  have "submitted (foldl receive s (channel_sent (fold (typed_character rule) (data_read reads) (st\<lparr>command_buffer := []\<rparr>)))) =
      submitted s @ filtered (permits rule) (typed_lines [] (data_read reads))"
    using filter_and_server [OF assms(1), of "data_read reads" "st\<lparr>command_buffer := []\<rparr>" s s rule] assms(2-6)
    by (simp add: list_all_iff)
  then show ?thesis
    using acl.filtered_allowed assms(7) by (auto simp: ssh_input_thread_def ssh_input_loop_fold list_all_iff)
qed

text \<open>
  C4. For a server that edits lines as terminals do and a channel that accepts what is written, a user
  who types printable characters, erasures and Enter, with no line longer than the buffer, makes the
  server execute exactly the lines that were typed, with every line that the rule refuses replaced by
  two empty lines: no refused command is executed, in whatever pieces the input arrives.
\<close>

theorem filter_stops_refused_commands:
  assumes "line_editor receive line submitted" "line s = []"
    and "channel_sent st = []" "write_results st = []"
    and "list_all plain (data_read reads)" "within_buffer [] (data_read reads)"
    and "st' = ssh_input_thread (Some rule) reads st"
  shows "submitted (foldl receive s (channel_sent st')) =
           submitted s @ filtered (\<lambda>l. guac_ssh_acl_check_command (Some rule) (Some l)) (typed_lines [] (data_read reads)) \<and>
         list_all (\<lambda>l. guac_ssh_acl_check_command (Some rule) (Some l))
           (drop (length (submitted s)) (submitted (foldl receive s (channel_sent st'))))"
  using assms by (rule thread_and_server)

text \<open>A line editor, as a pair of the line and the lines submitted.\<close>

definition simple_editor :: "string \<times> string list \<Rightarrow> char \<Rightarrow> string \<times> string list" where
  "simple_editor s c =
     (if c = CR \<or> c = LF then ([], snd s @ [fst s])
      else if c = BS \<or> c = DEL then (butlast (fst s), snd s)
      else (fst s @ [c], snd s))"

lemma simple_editor: "line_editor simple_editor fst snd"
  using printable_facts by (auto simp: line_editor_def simple_editor_def)

definition no_sudo :: guac_ssh_acl_rule where
  "no_sudo = \<lparr>blacklist = Some ''sudo'', whitelist = None, blocked_message = None\<rparr>"

definition new_connection :: ssh_connection where
  "new_connection = \<lparr>command_buffer = [], channel_sent = [], write_results = [], terminal_messages = [],
     client_stopping = False\<rparr>"

theorem filter_stops_refused_commands_witness:
  "snd (foldl simple_editor ([], []) (channel_sent (ssh_input_thread (Some no_sudo)
     [(''lss'' @ [DEL, CR] @ ''su'', False), (''do x'' @ [CR] @ ''pwd'' @ [LF], True)] new_connection))) =
   [''ls'', [], [], ''pwd'']"
proof -
  let ?reads = "[(''lss'' @ [DEL, CR] @ ''su'', False), (''do x'' @ [CR] @ ''pwd'' @ [LF], True)]"
  have ok: "list_all plain (data_read ?reads)" by code_simp
  have room: "within_buffer [] (data_read ?reads)" by simp
  have start: "snd (([], []) :: string \<times> string list) = []" "channel_sent new_connection = []" "write_results new_connection = []"
    "fst (([], []) :: string \<times> string list) = []"
    by (simp_all add: new_connection_def)
  have "filtered (\<lambda>l. guac_ssh_acl_check_command (Some no_sudo) (Some l)) (typed_lines [] (data_read ?reads)) =
      [''ls'', [], [], ''pwd'']"
  proof -
    have "accepts no_sudo (trim ''ls'') \<and> \<not> accepts no_sudo (trim ''sudo x'') \<and> accepts no_sudo (trim ''pwd'')" by code_simp
    then show ?thesis by (simp add: check_command_short)
  qed
  then show ?thesis
    using filter_stops_refused_commands [OF simple_editor start(4,2,3) ok room refl, of no_sudo]
    unfolding start(1) append_Nil by (simp only:)
qed

section \<open>What passes the filter\<close>

text \<open>
  The check sees the command as a C string, and the buffer holds 8191 characters: after a NUL
  character, or after as many spaces as fill the buffer, anything that follows is sent.
\<close>

definition no_control :: "string \<Rightarrow> bool" where
  "no_control cmd \<longleftrightarrow> CR \<notin> set cmd \<and> LF \<notin> set cmd \<and> BS \<notin> set cmd \<and> DEL \<notin> set cmd"

lemma typing_effect:
  assumes "no_control cmd" "write_results st = []"
  shows "channel_sent (fold (typed_character rule) cmd st) = channel_sent st @ cmd \<and>
    command_buffer (fold (typed_character rule) cmd st) = take (max 8191 (length (command_buffer st))) (command_buffer st @ cmd) \<and>
    write_results (fold (typed_character rule) cmd st) = []"
  using assms
proof (induction cmd arbitrary: st)
  case (Cons c cmd)
  let ?st = "typed_character rule c st"
  note eff = typed_character_effect [OF Cons.prems(2), of rule c]
  have c: "sent_for rule (command_buffer st) c = [c]"
    "kept_after (command_buffer st) c = (if length (command_buffer st) < 8191 then command_buffer st @ [c] else command_buffer st)"
    using Cons.prems(1) by (auto simp: no_control_def sent_for_def kept_after_def)
  have "no_control cmd" using Cons.prems(1) by (simp add: no_control_def)
  then show ?case using Cons.IH [of ?st] eff c by (auto simp: max_def take_Cons')
qed simp

lemma blank_permitted: "\<forall>c \<in> set l. isspace c \<Longrightarrow> permits rule l"
  using trim_eq_Nil [of "take 8191 l"] by (auto simp: check_command_accepts accepts_def dest: in_set_takeD)

text \<open>
  C39. Whatever the rule says about a command, it is sent and submitted unchanged when it is typed
  after a NUL character (Ctrl-Space) or after 8191 spaces: the check then sees an empty command.
\<close>

theorem hidden_commands_pass:
  assumes "no_control cmd" "pre = [NUL] \<or> pre = replicate 8191 (CHR '' '')"
    and "write_results st = []"
  shows "channel_sent (ssh_input_thread (Some rule) [(pre @ cmd @ [CR], True)] st) = channel_sent st @ pre @ cmd @ [CR]"
proof -
  let ?st = "st\<lparr>command_buffer := []\<rparr>"
  let ?typed = "fold (typed_character rule) (pre @ cmd) ?st"
  have "no_control (pre @ cmd)" using assms(1,2) by (auto simp: no_control_def)
  note t = typing_effect [OF this, of ?st rule]
  have sent: "channel_sent ?typed = channel_sent st @ pre @ cmd" "write_results ?typed = []"
    and buffer: "command_buffer ?typed = take 8191 (pre @ cmd)"
    using t assms(3) by simp_all
  have "\<forall>c \<in> set (cstr (command_buffer ?typed)). isspace c"
    using assms(2)
  proof
    assume "pre = [NUL]"
    then show ?thesis unfolding buffer by (simp add: cstr_def)
  next
    assume "pre = replicate 8191 (CHR '' '')"
    then show ?thesis unfolding buffer by (auto simp: cstr_def isspace_def dest!: set_takeWhileD)
  qed
  then have "sent_for rule (command_buffer ?typed) CR = [CR]" using blank_permitted by (simp add: sent_for_def)
  moreover have "channel_sent (typed_character rule CR ?typed) = channel_sent ?typed @ sent_for rule (command_buffer ?typed) CR"
    by (rule typed_character_effect) (rule sent(2))
  ultimately have "channel_sent (typed_character rule CR ?typed) = channel_sent st @ pre @ cmd @ [CR]"
    using sent(1) by simp
  then show ?thesis by (simp add: ssh_input_thread_def Let_def)
qed

theorem hidden_commands_pass_witness:
  "\<not> guac_ssh_acl_check_command (Some no_sudo) (Some ''sudo reboot'') \<and>
   channel_sent (ssh_input_thread (Some no_sudo) [([NUL] @ ''sudo reboot'' @ [CR], True)] new_connection) =
     NUL # ''sudo reboot'' @ [CR]"
proof -
  have "\<not> accepts no_sudo (trim ''sudo reboot'')" by code_simp
  then have "no_control ''sudo reboot'' \<and> \<not> guac_ssh_acl_check_command (Some no_sudo) (Some ''sudo reboot'')"
    by (simp add: check_command_short no_control_def)
  then show ?thesis
    using hidden_commands_pass [of "''sudo reboot''" "[NUL]" new_connection no_sudo] by (simp add: new_connection_def)
qed

text \<open>
  C40. The result of writing is ignored: when the channel accepts the typed characters of a refused
  command and then refuses to block for the erasures (\<open>LIBSSH2_ERROR_EAGAIN\<close> is -37), the line end
  that follows the erasures submits the refused command.
\<close>

theorem lost_erasures_execute_refused_command:
  assumes "list_all printable cmd" "length cmd \<le> 8191" "\<not> guac_ssh_acl_check_command (Some rule) (Some cmd)"
    and "write_results st = replicate (length cmd) 1 @ replicate (length cmd) (- 37)"
    and "line_editor receive line submitted" "line s = []" "channel_sent st = []"
  shows "\<exists>more. submitted (foldl receive s (channel_sent (ssh_input_thread (Some rule) [(cmd @ [CR], True)] st))) =
           submitted s @ cmd # more"
proof -
  have typed: "fold (typed_character rule) xs st =
      st\<lparr>command_buffer := command_buffer st @ xs, channel_sent := channel_sent st @ xs, write_results := rs\<rparr>"
    if "list_all printable xs" "length (command_buffer st) + length xs \<le> 8191" "write_results st = replicate (length xs) 1 @ rs" for xs rs st
    using that
  proof (induction xs arbitrary: st)
    case (Cons c xs)
    then show ?case using printable_facts [of c] by (simp add: typed_character_def libssh2_channel_write_def)
  qed (simp add: ssh_connection.surjective [of st])
  have lost: "erase_typed n st = st\<lparr>write_results := []\<rparr>" if "write_results st = replicate n (- 37)" for n st
    using that by (induction n arbitrary: st) (simp_all add: libssh2_channel_write_def)
  have cmd: "cstr cmd = cmd" "cmd \<noteq> []"
    using assms(1,3) printable_facts acl.empty_allowed [of rule]
    by (auto simp: cstr_def takeWhile_eq_all_conv list_all_iff)
  let ?st = "st\<lparr>command_buffer := cmd, channel_sent := cmd, write_results := replicate (length cmd) (- 37)\<rparr>"
  have "ssh_input_thread (Some rule) [(cmd @ [CR], True)] st = (typed_character rule CR ?st)\<lparr>client_stopping := True\<rparr>"
    using typed [of cmd "st\<lparr>command_buffer := []\<rparr>"] assms(1,2,4,7) by (simp add: ssh_input_thread_def)
  moreover have "channel_sent (typed_character rule CR ?st) = cmd @ [CR, LF]"
    using cmd assms(3) by (simp add: typed_character_def lost Let_def split: option.splits)
  moreover have "line (foldl receive s cmd) = line s @ cmd \<and> submitted (foldl receive s cmd) = submitted s" for s
    using assms(1,5) by (induction cmd arbitrary: s) (simp_all add: line_editor_def)
  ultimately show ?thesis using assms(5,6) by (auto simp: line_editor_def)
qed

theorem lost_erasures_execute_refused_command_witness:
  "\<exists>more. snd (foldl simple_editor ([], []) (channel_sent (ssh_input_thread (Some no_sudo) [(''sudo'' @ [CR], True)]
     (new_connection\<lparr>write_results := [1, 1, 1, 1, - 37, - 37, - 37, - 37]\<rparr>)))) = ''sudo'' # more"
proof -
  have "\<not> accepts no_sudo (trim ''sudo'')" by code_simp
  then have "list_all printable ''sudo'' \<and> \<not> guac_ssh_acl_check_command (Some no_sudo) (Some ''sudo'')"
    by (simp add: check_command_short printable_def)
  then show ?thesis
    using lost_erasures_execute_refused_command [OF _ _ _ _ simple_editor, of "''sudo''" no_sudo
        "new_connection\<lparr>write_results := [1, 1, 1, 1, - 37, - 37, - 37, - 37]\<rparr>" "([], [])"]
    by (simp add: new_connection_def)
qed

end
