(* ===== verification/CommandLogger.thy ===== *)
theory CommandLogger
  imports SshInput
begin

text \<open>
  The log of the commands of an SSH connection (\<open>src/src/protocols/ssh/command_logger.c\<close>) and the
  handler of keys that feeds it (\<open>src/src/protocols/ssh/input.c\<close>).

  A buffer is the list of the characters before its position. What the code takes from outside is an
  argument: the time as \<open>strftime\<close> writes it, the environment, the identification of the process,
  whether files can be opened, and the contents of the configuration. The files are the lists of the
  lines written to them.
\<close>

section \<open>State\<close>

definition CMD_BUFFER_SIZE :: nat where "CMD_BUFFER_SIZE = 4096"

record command_logger =
  buffer :: string
  display_buffer :: string
  cursor_pos :: nat
  in_tab_completion :: bool
  logger_username :: string
  remote_ip :: string
  connection_id :: string
  session_id :: string
  client_connection_id :: "string option"
  acl_config :: "guac_ssh_acl_config option"
  ssh_hostname :: string
  log_file :: "string list"
  alert_file :: "string list option"
  restricted_file :: "string list option"
  system_log :: "string list"

section \<open>Creation\<close>

definition strncpy_terminated :: "string \<Rightarrow> nat \<Rightarrow> string" where
  "strncpy_terminated src n = take (n - 1) src"

definition generate_session_id :: "nat \<Rightarrow> string \<Rightarrow> string \<Rightarrow> string \<Rightarrow> string \<Rightarrow> string" where
  "generate_session_id len timestamp conn username ip =
     (let safe_username = strncpy_terminated username 32;
          safe_ip = strncpy_terminated ip 20
      in take (len - 1) (timestamp @ ''_'' @ conn @ ''_'' @ safe_username @ ''_'' @ safe_ip))"

definition get_client_ip :: "(string \<Rightarrow> string option) \<Rightarrow> nat \<Rightarrow> string" where
  "get_client_ip getenv buffer_size =
     (let usable = (\<lambda>a. case a of None \<Rightarrow> False | Some addr \<Rightarrow> addr \<noteq> [] \<and> addr \<noteq> ''0.0.0.0'') in
      if usable (getenv ''GUAC_REMOTE_ADDR'') then strncpy_terminated (the (getenv ''GUAC_REMOTE_ADDR'')) buffer_size
      else if usable (getenv ''REMOTE_ADDR'') then strncpy_terminated (the (getenv ''REMOTE_ADDR'')) buffer_size
      else strncpy_terminated ''unknown'' buffer_size)"

text \<open>
  \<open>fallback\<close> is the identifier made of the time and the process, \<open>opened\<close> says which of the three log
  files can be opened.
\<close>

definition guac_ssh_command_logger_create ::
    "bool \<Rightarrow> string option \<Rightarrow> string option \<Rightarrow> string option \<Rightarrow> string option \<Rightarrow> (string \<Rightarrow> string option) \<Rightarrow>
     string \<Rightarrow> string \<Rightarrow> bool \<times> string option \<Rightarrow> bool \<times> bool \<times> bool \<Rightarrow> command_logger option" where
  "guac_ssh_command_logger_create granted user_id client_id username hostname getenv timestamp fallback config_file opened =
     (let nonempty = (\<lambda>s. case s of None \<Rightarrow> False | Some s \<Rightarrow> s \<noteq> []);
          conn = (if nonempty user_id then strncpy_terminated (the user_id) 64 else take 63 fallback);
          name = (if nonempty username then strncpy_terminated (the username) 256 else ''unknown'');
          host = (if nonempty hostname then strncpy_terminated (the hostname) 256 else ''unknown'');
          ip = get_client_ip getenv 64;
          (log_opened, alert_opened, restricted_opened) = opened
      in
      if \<not> granted then None
      else if \<not> log_opened then None
      else Some \<lparr>buffer = [], display_buffer = [], cursor_pos = 0, in_tab_completion = False,
             logger_username = name, remote_ip = ip, connection_id = conn,
             session_id = generate_session_id 256 timestamp conn name ip,
             client_connection_id = client_id,
             acl_config = guac_ssh_acl_load_config (fst config_file) (snd config_file),
             ssh_hostname = host, log_file = [],
             alert_file = (if alert_opened then Some [] else None),
             restricted_file = (if restricted_opened then Some [] else None),
             system_log = []\<rparr>)"

section \<open>Keys\<close>

definition dangerous_patterns :: "string list" where
  "dangerous_patterns =
     [''rm -rf'', ''rm -rf /'', ''rm -rf *'', ''dd if=/dev/zero'', ''mkfs'', ''format'', ''chmod 777 /'', ''chown -R'',
      ''kill -9'', ''pkill'', ''killall'', ''shutdown'', ''reboot'', ''halt'', ''iptables -F'', ''ufw disable'',
      ''systemctl stop'', ''service stop'', ''DROP DATABASE'', ''DROP TABLE'', ''DELETE FROM'']"

definition is_dangerous_command :: "string \<Rightarrow> bool" where
  "is_dangerous_command command = list_ex (\<lambda>p. strstr command p \<noteq> None) dangerous_patterns"

text \<open>The loop that cleans the buffer; a \<open>char\<close> is signed, so those from 128 on are negative.\<close>

fun clean_command :: "string \<Rightarrow> string" where
  "clean_command [] = []"
| "clean_command (c # cs) =
     (if c = CHR 0x09 then CHR '' '' # clean_command cs
      else if (32 \<le> (of_char c :: nat) \<and> (of_char c :: nat) < 128) \<or> c = NUL then c # clean_command cs
      else clean_command cs)"

definition log_entry :: "string \<Rightarrow> command_logger \<Rightarrow> string \<Rightarrow> string" where
  "log_entry timestamp logger cmd =
     timestamp @ ''|'' @ ssh_hostname logger @ ''|'' @ connection_id logger @ ''|'' @ session_id logger @ ''|'' @
     logger_username logger @ ''|'' @ remote_ip logger @ ''|'' @ cmd"

text \<open>Enter: the command in the buffer is logged and the buffer reset.\<close>

definition log_command :: "string \<Rightarrow> command_logger \<Rightarrow> command_logger" where
  "log_command timestamp logger =
     (let clean_cmd = clean_command (take (CMD_BUFFER_SIZE - 1) (buffer logger));
          cmd = cstr clean_cmd;
          is_empty = list_all (\<lambda>c. c = CHR '' '' \<or> c = NUL) clean_cmd
      in
      if is_empty then logger
      else
        let logger = logger\<lparr>log_file := log_file logger @ [log_entry timestamp logger cmd]\<rparr>;
            rule = (case acl_config logger of
                  None \<Rightarrow> None
                | Some config \<Rightarrow> guac_ssh_acl_get_rule (Some config) (client_connection_id logger)
                    (Some (ssh_hostname logger)) (Some (logger_username logger)));
            is_restricted = (rule \<noteq> None \<and> \<not> guac_ssh_acl_check_command rule (Some cmd));
            logger = (if is_restricted then
                logger\<lparr>restricted_file := map_option (\<lambda>f. f @ [log_entry timestamp logger cmd @ ''|RESTRICTED'']) (restricted_file logger),
                       system_log := system_log logger @
                         [''ACL blocked command: user='' @ logger_username logger @ '' ip='' @ remote_ip logger @
                          '' host='' @ ssh_hostname logger @ '' cmd='' @ cmd]\<rparr>
              else logger)
        in
        if \<not> is_restricted \<and> is_dangerous_command cmd then
          logger\<lparr>alert_file := map_option (\<lambda>f. f @ [log_entry timestamp logger cmd @ ''|DANGEROUS'']) (alert_file logger),
                 system_log := system_log logger @
                   [''Dangerous command executed: user='' @ logger_username logger @ '' ip='' @ remote_ip logger @
                    '' cmd='' @ cmd]\<rparr>
        else logger)"

definition guac_ssh_command_logger_key :: "string \<Rightarrow> int \<Rightarrow> bool \<Rightarrow> command_logger \<Rightarrow> command_logger" where
  "guac_ssh_command_logger_key timestamp keysym pressed logger =
     (if \<not> pressed then logger
      else if keysym = 0xFF0D \<or> keysym = 0x0D \<or> keysym = 0x0A then
        (log_command timestamp logger)\<lparr>buffer := []\<rparr>
      else if keysym = 0xFF08 then
        logger\<lparr>buffer := butlast (buffer logger), display_buffer := butlast (display_buffer logger),
               in_tab_completion := False\<rparr>
      else if keysym = 0xFF09 then
        logger\<lparr>in_tab_completion := True, cursor_pos := length (buffer logger)\<rparr>
      else if 0x20 \<le> keysym \<and> keysym \<le> 0x7E then
        logger\<lparr>buffer := (if length (buffer logger) < CMD_BUFFER_SIZE - 2
                           then buffer logger @ [char_of (nat keysym)] else buffer logger),
               display_buffer := (if length (display_buffer logger) < CMD_BUFFER_SIZE - 2
                           then display_buffer logger @ [char_of (nat keysym)] else display_buffer logger),
               in_tab_completion := False\<rparr>
      else logger)"

section \<open>Completions and the end\<close>

fun completion_output :: "string \<Rightarrow> command_logger \<Rightarrow> command_logger" where
  "completion_output [] logger = logger"
| "completion_output (c # data) logger =
     (if ((of_char c :: nat) < 32 \<or> 128 \<le> (of_char c :: nat)) \<and> c \<noteq> CR \<and> c \<noteq> LF then completion_output data logger
      else if c = CR \<or> c = LF then logger\<lparr>in_tab_completion := False\<rparr>
      else if (of_char c :: nat) \<le> 126 then
        completion_output data
          (logger\<lparr>buffer := (if length (buffer logger) < CMD_BUFFER_SIZE - 2 then buffer logger @ [c] else buffer logger),
                  display_buffer := (if length (display_buffer logger) < CMD_BUFFER_SIZE - 2
                     then display_buffer logger @ [c] else display_buffer logger)\<rparr>)
      else completion_output data logger)"

definition guac_ssh_command_logger_output :: "string \<Rightarrow> command_logger \<Rightarrow> command_logger" where
  "guac_ssh_command_logger_output data logger =
     (if data = [] then logger
      else if \<not> in_tab_completion logger then logger
      else completion_output data logger)"

definition guac_ssh_command_logger_flush :: "string \<Rightarrow> command_logger \<Rightarrow> command_logger" where
  "guac_ssh_command_logger_flush timestamp logger =
     (if buffer logger = [] then logger
      else
        let clean_cmd = clean_command (take (CMD_BUFFER_SIZE - 1) (buffer logger)) in
        logger\<lparr>log_file := log_file logger @ [log_entry timestamp logger (cstr clean_cmd) @ '' (incomplete)''],
               buffer := [], display_buffer := [], in_tab_completion := False\<rparr>)"

text \<open>The lines of the main log when the logger is freed.\<close>

definition guac_ssh_command_logger_free :: "string \<Rightarrow> command_logger option \<Rightarrow> string list" where
  "guac_ssh_command_logger_free timestamp logger =
     (case logger of None \<Rightarrow> [] | Some logger \<Rightarrow> log_file (guac_ssh_command_logger_flush timestamp logger))"

section \<open>The handler of keys\<close>

text \<open>
  The state a key reaches: whether there is a terminal, the logger of this thread, and what was
  recorded and passed to the terminal. \<open>create\<close> is the result of creating a logger, if one is needed.
\<close>

record ssh_keyboard =
  terminal_ready :: bool
  thread_logger :: "command_logger option"
  recorded_keys :: "(int \<times> bool) list option"
  terminal_keys :: "(int \<times> bool) list"

definition guac_ssh_user_key_handler :: "command_logger option \<Rightarrow> string \<Rightarrow> int \<Rightarrow> bool \<Rightarrow> ssh_keyboard \<Rightarrow> int \<times> ssh_keyboard" where
  "guac_ssh_user_key_handler create timestamp keysym pressed st =
     (if \<not> terminal_ready st then (0, st)
      else
        let logger = (case thread_logger st of None \<Rightarrow> create | Some l \<Rightarrow> Some l);
            logger = (if pressed then map_option (guac_ssh_command_logger_key timestamp keysym pressed) logger else logger)
        in (0, st\<lparr>thread_logger := logger,
                  recorded_keys := map_option (\<lambda>k. k @ [(keysym, pressed)]) (recorded_keys st),
                  terminal_keys := terminal_keys st @ [(keysym, pressed)]\<rparr>))"

section \<open>What is logged\<close>

definition blank :: "string \<Rightarrow> bool" where
  "blank l \<longleftrightarrow> list_all (\<lambda>c. c = CHR '' '') l"

text \<open>Typed keys: the lines typed with the times of their Enter, and the data the terminal reads.\<close>

fun plain_key :: "string \<times> int \<times> bool \<Rightarrow> bool" where
  "plain_key (t, k, pressed) = (\<not> pressed \<or> k = 0xFF0D \<or> k = 0xFF08 \<or> 0x20 \<le> k \<and> k \<le> 0x7E)"

fun key_data :: "char \<Rightarrow> (string \<times> int \<times> bool) list \<Rightarrow> string" where
  "key_data erase [] = []"
| "key_data erase ((t, k, pressed) # keys) =
     (if \<not> pressed then [] else if k = 0xFF0D then [CR] else if k = 0xFF08 then [erase] else [char_of (nat k)]) @
     key_data erase keys"

fun timed_lines :: "string \<Rightarrow> (string \<times> int \<times> bool) list \<Rightarrow> (string \<times> string) list" where
  "timed_lines cur [] = []"
| "timed_lines cur ((t, k, pressed) # keys) =
     (if \<not> pressed then timed_lines cur keys
      else if k = 0xFF0D then (t, cur) # timed_lines [] keys
      else if k = 0xFF08 then timed_lines (butlast cur) keys
      else timed_lines (cur @ [char_of (nat k)]) keys)"

definition type_keys :: "(string \<times> int \<times> bool) list \<Rightarrow> command_logger \<Rightarrow> command_logger" where
  "type_keys keys logger = fold (\<lambda>(t, k, pressed). guac_ssh_command_logger_key t k pressed) keys logger"

lemma key_printable:
  assumes "0x20 \<le> k" "k \<le> 0x7E"
  shows "printable (char_of (nat k))"
  using assms by (simp add: printable_def nat_le_iff le_nat_iff)

lemma key_data_plain:
  "list_all plain_key keys \<Longrightarrow> erase = BS \<or> erase = DEL \<Longrightarrow> list_all plain (key_data erase keys)"
  by (induction keys) (auto simp: plain_def key_printable)

lemma timed_lines_typed:
  "list_all plain_key keys \<Longrightarrow> erase = BS \<or> erase = DEL \<Longrightarrow>
     map snd (timed_lines cur keys) = typed_lines cur (key_data erase keys)"
proof (induction keys arbitrary: cur)
  case (Cons key keys)
  obtain t k p where key: "key = (t, k, p)" by (cases key)
  have "printable (char_of (nat k))" if "p" "k \<noteq> 0xFF0D" "k \<noteq> 0xFF08"
    using Cons.prems(1) that key by (auto intro: key_printable)
  then show ?case using Cons printable_facts [of "char_of (nat k)"] by (auto simp: key)
qed simp

text \<open>Cleaning leaves printable commands alone.\<close>

lemma clean_printable: "list_all printable cmd \<Longrightarrow> clean_command cmd = cmd"
proof (induction cmd)
  case (Cons c cmd)
  then have "printable c" by simp
  then have "c \<noteq> CHR 0x09" "32 \<le> (of_char c :: nat) \<and> (of_char c :: nat) < 128" by (auto simp: printable_def Let_def)
  then show ?case using Cons by simp
qed simp

lemma cstr_printable: "list_all printable cmd \<Longrightarrow> cstr cmd = cmd"
  using printable_facts by (auto simp: cstr_def takeWhile_eq_all_conv list_all_iff)

definition session_of :: "command_logger \<Rightarrow> string \<times> string \<times> string \<times> string \<times> string" where
  "session_of logger = (ssh_hostname logger, connection_id logger, session_id logger, logger_username logger, remote_ip logger)"

lemma log_entry_session: "session_of l = session_of l' \<Longrightarrow> log_entry t l cmd = log_entry t l' cmd"
  by (simp add: session_of_def log_entry_def)

lemma log_command_effect:
  assumes "list_all printable (buffer logger)" "length (buffer logger) \<le> 4094"
  shows "log_file (log_command t logger) =
           log_file logger @ (if blank (buffer logger) then [] else [log_entry t logger (buffer logger)])"
    and "session_of (log_command t logger) = session_of logger"
proof -
  have c: "clean_command (take (CMD_BUFFER_SIZE - 1) (buffer logger)) = buffer logger"
    using assms by (simp add: clean_printable CMD_BUFFER_SIZE_def)
  have e: "list_all (\<lambda>c. c = CHR '' '' \<or> c = NUL) (buffer logger) \<longleftrightarrow> blank (buffer logger)"
    using assms(1) printable_facts by (auto simp: blank_def list_all_iff)
  show "log_file (log_command t logger) =
           log_file logger @ (if blank (buffer logger) then [] else [log_entry t logger (buffer logger)])"
    "session_of (log_command t logger) = session_of logger"
    unfolding log_command_def c e Let_def cstr_printable [OF assms(1)]
    by (simp_all add: session_of_def)
qed

lemma typed_lines_are_logged:
  assumes "list_all plain_key keys" "erase = BS \<or> erase = DEL"
    and "within 4094 (buffer logger) (key_data erase keys)" "list_all printable (buffer logger)" "length (buffer logger) \<le> 4094"
  shows "log_file (type_keys keys logger) =
    log_file logger @ [log_entry t logger l. (t, l) \<leftarrow> timed_lines (buffer logger) keys, \<not> blank l]"
  using assms
proof (induction keys arbitrary: logger)
  case Nil
  then show ?case by (simp add: type_keys_def)
next
  case (Cons key keys)
  obtain t k p where key: "key = (t, k, p)" by (cases key)
  let ?logger = "guac_ssh_command_logger_key t k p logger"
  note wi = Cons.prems(3) [unfolded key]
  have step: "type_keys (key # keys) logger = type_keys keys ?logger" by (simp add: type_keys_def key)
  have rest: "list_all plain_key keys" using Cons.prems(1) by simp
  consider (release) "\<not> p" | (enter) "p" "k = 0xFF0D" | (erase) "p" "k = 0xFF08" | (char) "p" "0x20 \<le> k" "k \<le> 0x7E"
    using Cons.prems(1) by (auto simp: key)
  then show ?case
  proof cases
    case release
    then have l: "?logger = logger" by (simp add: guac_ssh_command_logger_key_def)
    show ?thesis using Cons.IH [of logger] Cons.prems release unfolding step l by (simp add: key)
  next
    case enter
    then have l: "?logger = (log_command t logger)\<lparr>buffer := []\<rparr>" by (simp add: guac_ssh_command_logger_key_def)
    have s: "log_entry t' ?logger cmd = log_entry t' logger cmd" for t' cmd
      using log_command_effect(2) [OF Cons.prems(4,5), of t] by (intro log_entry_session) (simp add: l session_of_def)
    have "log_file (type_keys keys ?logger) =
        log_file ?logger @ [log_entry t ?logger l. (t, l) \<leftarrow> timed_lines (buffer ?logger) keys, \<not> blank l]"
      by (rule Cons.IH) (use rest Cons.prems(2) wi enter l in auto)
    moreover have lf: "log_file ?logger = log_file (log_command t logger)" "buffer ?logger = []" by (simp_all add: l)
    ultimately show ?thesis
      using log_command_effect(1) [OF Cons.prems(4,5), of t] enter unfolding step s lf by (simp add: key)
  next
    case erase
    then have l: "?logger = logger\<lparr>buffer := butlast (buffer logger), display_buffer := butlast (display_buffer logger),
        in_tab_completion := False\<rparr>" by (simp add: guac_ssh_command_logger_key_def)
    have s: "log_entry t' ?logger cmd = log_entry t' logger cmd" for t' cmd by (simp add: l log_entry_def)
    have e: "erase \<noteq> CR" "erase \<noteq> LF" using Cons.prems(2) by auto
    have "log_file (type_keys keys ?logger) =
        log_file ?logger @ [log_entry t ?logger l. (t, l) \<leftarrow> timed_lines (buffer ?logger) keys, \<not> blank l]"
      by (rule Cons.IH) (use rest Cons.prems(2,4,5) wi erase l e in \<open>auto simp: list_all_iff dest: in_set_butlastD\<close>)
    moreover have lf: "log_file ?logger = log_file logger" "buffer ?logger = butlast (buffer logger)" by (simp_all add: l)
    ultimately show ?thesis using erase unfolding step s lf by (simp add: key)
  next
    case char
    have c: "printable (char_of (nat k))" using char by (intro key_printable)
    have room: "length (buffer logger) < 4094" using wi char printable_facts [OF c] Cons.prems(2) by auto
    then have l: "buffer ?logger = buffer logger @ [char_of (nat k)]" "log_file ?logger = log_file logger"
      using char by (simp_all add: guac_ssh_command_logger_key_def CMD_BUFFER_SIZE_def)
    have s: "log_entry t' ?logger cmd = log_entry t' logger cmd" for t' cmd
      using char by (simp add: guac_ssh_command_logger_key_def log_entry_def)
    have "log_file (type_keys keys ?logger) =
        log_file ?logger @ [log_entry t ?logger l. (t, l) \<leftarrow> timed_lines (buffer ?logger) keys, \<not> blank l]"
      by (rule Cons.IH) (use rest Cons.prems(2,4) wi char l room c printable_facts [OF c] in auto)
    then show ?thesis using char unfolding step s l by (simp add: key)
  qed
qed

text \<open>
  C7. With the filter, a line-editing server and a channel that accepts what is written, every command
  that the server executes for the keys a user types (printable characters, erasures and Enter, with
  lines that fit the buffer of the logger) is allowed by the rule and is either blank or in the log of
  commands, with the session of the user and the time of its Enter; the log holds exactly the lines
  that were typed and are not blank.
\<close>

theorem executed_commands_are_logged:
  assumes "line_editor receive line submitted" "line s = []" "submitted s = []"
    and "channel_sent st = []" "write_results st = []"
    and "list_all plain_key keys" "erase = BS \<or> erase = DEL" "within 4094 [] (key_data erase keys)"
    and "data_read reads = key_data erase keys"
    and "buffer logger = []" "log_file logger = []"
  shows "log_file (type_keys keys logger) = [log_entry t logger l. (t, l) \<leftarrow> timed_lines [] keys, \<not> blank l] \<and>
    list_all (\<lambda>l. guac_ssh_acl_check_command (Some rule) (Some l) \<and>
        (blank l \<or> (\<exists>t. log_entry t logger l \<in> set (log_file (type_keys keys logger)))))
      (submitted (foldl receive s (channel_sent (ssh_input_thread (Some rule) reads st))))"
proof -
  let ?permits = "\<lambda>l. guac_ssh_acl_check_command (Some rule) (Some l)"
  let ?lines = "typed_lines [] (key_data erase keys)"
  have log: "log_file (type_keys keys logger) = [log_entry t logger l. (t, l) \<leftarrow> timed_lines [] keys, \<not> blank l]"
    using typed_lines_are_logged [OF assms(6,7), of logger] assms(8,10,11) by simp
  have logged: "\<exists>t. log_entry t logger l \<in> set (log_file (type_keys keys logger))" if l: "l \<in> set ?lines" "\<not> blank l" for l
  proof -
    obtain t where "(t, l) \<in> set (timed_lines [] keys)"
      using l(1) timed_lines_typed [OF assms(6,7), of "[]"] by (metis imageE list.set_map prod.collapse)
    then show ?thesis using l(2) unfolding log by fastforce
  qed
  have "submitted (foldl receive s (channel_sent (ssh_input_thread (Some rule) reads st))) = filtered ?permits ?lines"
    and "list_all ?permits (submitted (foldl receive s (channel_sent (ssh_input_thread (Some rule) reads st))))"
    using thread_and_server [OF assms(1,2,4,5), of reads _ rule, OF _ _ refl] key_data_plain [OF assms(6,7)]
      within_mono [OF assms(8), of 8191] assms(3,9) by auto
  moreover have "blank l \<or> l \<in> set ?lines" if "l \<in> set (filtered ?permits ?lines)" for l
    using that by (auto simp: filtered_def blank_def split: if_splits)
  ultimately show ?thesis using log logged by (auto simp: list_all_iff)
qed

definition sample_keys :: "(string \<times> int \<times> bool) list" where
  "sample_keys =
     [(''t1'', 0x6C, True), (''t1'', 0x6C, False), (''t2'', 0x73, True), (''t3'', 0xFF0D, True),
      (''t4'', 0x73, True), (''t4'', 0x75, True), (''t5'', 0x64, True), (''t5'', 0x6F, True), (''t5'', 0x70, True),
      (''t6'', 0xFF08, True), (''t7'', 0xFF0D, True), (''t8'', 0xFF0D, True)]"

definition sample_logger :: command_logger where
  "sample_logger = the (guac_ssh_command_logger_create True (Some ''@user'') None (Some ''app'') (Some ''db'')
     (\<lambda>_. None) ''20260217-174510'' ''f'' (True, None) (True, True, True))"

theorem executed_commands_are_logged_witness:
  "log_file (type_keys sample_keys sample_logger) =
     [log_entry ''t3'' sample_logger ''ls'', log_entry ''t7'' sample_logger ''sudo''] \<and>
   list_all (guac_ssh_acl_check_command (Some no_sudo) \<circ> Some)
     (snd (foldl simple_editor ([], []) (channel_sent (ssh_input_thread (Some no_sudo) [(key_data DEL sample_keys, True)] new_connection))))"
proof -
  let ?reads = "[(key_data DEL sample_keys, True)]"
  have k: "list_all plain_key sample_keys" by (simp add: sample_keys_def)
  have d: "key_data DEL sample_keys = ''ls'' @ [CR] @ ''sudop'' @ [DEL, CR, CR]" by code_simp
  have w: "within 4094 [] (key_data DEL sample_keys)" unfolding d by simp
  have r: "data_read ?reads = key_data DEL sample_keys" by simp
  have l: "buffer sample_logger = []" "log_file sample_logger = []"
    by (simp_all add: sample_logger_def guac_ssh_command_logger_create_def Let_def)
  have n: "fst (([], []) :: string \<times> string list) = []" "snd (([], []) :: string \<times> string list) = []"
    "channel_sent new_connection = []" "write_results new_connection = []" by (simp_all add: new_connection_def)
  have lines: "filter (\<lambda>(t, l). \<not> blank l) (timed_lines [] sample_keys) = [(''t3'', ''ls''), (''t7'', ''sudo'')]" by code_simp
  have f: "[log_entry t sample_logger l. (t, l) \<leftarrow> ps, \<not> blank l] =
      map (\<lambda>(t, l). log_entry t sample_logger l) (filter (\<lambda>(t, l). \<not> blank l) ps)" for ps
    by (induction ps) auto
  show ?thesis
    using executed_commands_are_logged [OF simple_editor n k disjI2 [OF refl] w r l, of no_sudo]
    unfolding f lines by (auto simp: list_all_iff)
qed

text \<open>
  Commands that are not typed are not in the log: a command recalled with the cursor keys, and text
  that is pasted, leave the buffer of the logger empty.
\<close>

lemma recalled_command_is_not_logged:
  "buffer logger = [] \<Longrightarrow> log_file (type_keys [(t, 0xFF52, True), (t', 0xFF0D, True)] logger) = log_file logger"
  by (simp add: type_keys_def guac_ssh_command_logger_key_def log_command_def)

text \<open>The completions of the shell are only followed after the Tab key.\<close>

lemma output_ignored: "\<not> in_tab_completion logger \<Longrightarrow> guac_ssh_command_logger_output data logger = logger"
  by (simp add: guac_ssh_command_logger_output_def)

end
