(* ===== verification/Spec2Isabelle.thy ===== *)
theory Spec2Isabelle
  imports Mem Utf8 Senders Streams Fifo Strings Parser Rwlock CommonRect Resize TermInput RdpFs UserInput Sockets DisplayPlan CommandLogger
begin

text \<open>
  Verification of guacamole-server, the proxy between the Guacamole protocol and remote desktops: the
  library \<open>libguac\<close> (\<open>src/src/libguac\<close>), the terminal emulator (\<open>src/src/terminal\<close>) and those parts of the
  protocol plug-ins and of the shared library (\<open>src/src/protocols\<close>, \<open>src/src/common\<close>) that decide
  something themselves.

  \<^bold>\<open>How the program works.\<close> A user's browser sends instructions: elements with a length prefix. The
  parser reads them from a socket, the handshake and the handlers of a session act on them, and the
  client keeps the lists of its users. In the other direction, senders of instructions write to a
  socket: one over a file descriptor, nested in another, a tee, or the broadcast socket that writes to
  every user of a client. Streams, objects, layers and buffers are numbered from pools of integers.
  A terminal session turns keys into input of a program and its output into operations on a buffer of
  rows and a grid of cells; a graphical session draws into layers that are compared with the last
  frame. An RDP session shares a directory of the server as a drive. An SSH session filters and logs the
  commands of its user.

  \<^bold>\<open>Conventions\<close> (theory \<open>Prelude\<close>). A C \<open>int\<close> is an \<open>int\<close> reduced by \<open>wrap32\<close> where it may leave its
  range; unsigned types are words of their width. A failed assertion is \<open>Inl Abort\<close>, undefined behaviour
  is \<open>Inl Undefined\<close>, a loop that never ends is \<open>Inl Diverged\<close>; a call that waits and is never woken is
  \<open>None\<close>. What comes from outside (system calls, times, results of libraries, fonts) is an argument or a
  list of results in the state, so the theorems hold whatever it is. Where one part relies on another
  through an interface, the interface is a locale that is interpreted by the code's model:
  \<open>index_pool\<close> (pools), \<open>slot_table\<close> (streams and objects), \<open>bounded_queue\<close> (the FIFO) and
  \<open>command_policy\<close> (the filter of commands).

  \<^bold>\<open>The foundation.\<close>
  \<^item> \<open>Mem\<close> (\<open>libguac/mem.c\<close>): checked arithmetic on sizes; each operation gives the result of the
    arithmetic without wrap-around or fails.
  \<^item> \<open>Strings\<close> (\<open>libguac/string.c\<close>): copying, concatenation, search and joining with truncation.
  \<^item> \<open>Utf8\<close> (\<open>libguac/unicode.c\<close>, \<open>terminal/common.c\<close>): encoding and decoding are inverse.
  \<^item> \<open>Pool\<close>, \<open>Streams\<close> (\<open>libguac/pool.c\<close>, and the allocations of \<open>user.c\<close> and \<open>client.c\<close>): integers in use
    are distinct; what the indices of streams, layers and buffers are, and the layer whose index is given
    back wrongly.
  \<^item> \<open>Flag\<close>, \<open>Fifo\<close>, \<open>Rwlock\<close> (\<open>libguac/flag.c\<close>, \<open>fifo.c\<close>, \<open>rwlock.c\<close>): threads as step relations over the
    mutex, the condition variable and the POSIX lock; no wake-up is lost, the FIFO refines a queue, writers
    exclude all others. A thread's part of a lock is its thread-local word with flag and count.
  \<^item> \<open>Rect\<close>, \<open>CommonRect\<close> (\<open>libguac/rect.c\<close>, \<open>common/rect.c\<close>): operations on rectangles are operations on sets
    of pixels; clipping and splitting ends, with the pieces that are documented.

  \<^bold>\<open>The protocol.\<close>
  \<^item> \<open>Socket\<close>, \<open>Base64\<close>, \<open>Protocol\<close> (\<open>libguac/socket.c\<close>, \<open>protocol.c\<close>): writing through the handlers of a
    socket; every sender writes the elements of one instruction; base64 blobs decode to the data. The
    relation \<open>writes\<close> carries the bytes of an instruction through the chain of calls, errors included.
  \<^item> \<open>Senders\<close>: the calls of these senders as one datatype, what each does and the elements it is to send.
  \<^item> \<open>Parser\<close> (\<open>libguac/parser.c\<close>): the append machine and the reading loop over a script of what the
    socket gives (data, a timeout, an error, the end). Reading assembles exactly what was sent, in whatever
    pieces it arrives; no access leaves the buffer. A loop over one buffer is bounded by the length of
    the data, a read by its script.
  \<^item> \<open>UserInput\<close> (\<open>libguac/user-handlers.c\<close>, \<open>user-handshake.c\<close>, \<open>user.c\<close>): dispatch, streams in order, and the
    handshake; its time limits are a list of the times that the clock gives.
  \<^item> \<open>Users\<close> (\<open>libguac/client.c\<close>): the doubly linked lists of full and pending users, in an explicit heap
    of records, refine lists; walks over them take as fuel the number of users and reach every one.
  \<^item> \<open>Sockets\<close> (\<open>libguac/socket-fd.c\<close>, \<open>socket-nest.c\<close>, \<open>socket-tee.c\<close>, \<open>socket-broadcast.c\<close>): order of bytes,
    what reaches each user, and where a nested socket loses characters. Flushing a nested socket inside an
    append recurs at most once for each byte, which bounds \<open>nest_append\<close>.
  \<^item> \<open>Display\<close>, \<open>DisplayPlan\<close> (\<open>libguac/display*.c\<close>): layers with their buffers and arrays of cells,
    drawing through raw contexts, the lists of layers, and the draft of the operations of a frame. A buffer of
    no bytes is \<open>None\<close>, the null pointer the allocation gives. The loop over the layers in the draft stays with a layer whose
    external buffer was removed, so it has fuel: more than the number of layers is enough when no buffer is missing, and no fuel
    (\<open>Diverged\<close>) when one is. A layer that was resized to nothing aborts the draft.

  \<^bold>\<open>The terminal.\<close>
  \<^item> \<open>TermBuffer\<close>, \<open>TermRow\<close>, \<open>TermOps\<close> (\<open>terminal/buffer.c\<close>): rows as sequences of complete characters, kept by
    writing, copying and scrolling; the ring of rows. Setting columns and breaking the
    characters at their ends call each other; \<open>BUFFER_FUEL\<close> (5000) bounds the depth of these calls, and
    the lemmas show that 3000 is enough for a row, which has at most 1024 columns.
  \<^item> \<open>TermColors\<close>, \<open>TermDisplay\<close>, \<open>Terminal\<close>, \<open>TermHandlers\<close>, \<open>TermResize\<close> (\<open>terminal/palette.c\<close>,
    \<open>named-colors.c\<close>, \<open>xparsecolor.c\<close>, \<open>display.c\<close>, \<open>terminal.c\<close>, \<open>terminal-handlers.c\<close>, \<open>char-mappings.c\<close>): the
    state, every handler of characters and control sequences, creation and resizing; a list of \<open>terminal_event\<close>s is
    what happens to a terminal.
  \<^item> \<open>TermInvariant\<close>, \<open>TermText\<close>, \<open>TermReport\<close>: the invariant of all of these, what printed text looks like,
    and cursor reports.
  \<^item> \<open>Clipboard\<close>, \<open>TermSelect\<close>, \<open>TermScrollbar\<close>, \<open>TermInput\<close> (\<open>common/clipboard.c\<close>, \<open>terminal/select.c\<close>,
    \<open>scrollbar.c\<close>, \<open>terminal.c\<close>, \<open>terminal-stdin-stream.c\<close>): selection, copying, scrolling, keys and the mouse.

  \<^bold>\<open>The plug-ins.\<close>
  \<^item> \<open>Resize\<close> (\<open>protocols/rdp/channels/disp.c\<close>, \<open>rdp/input.c\<close>, \<open>protocols/vnc/display.c\<close>): requested sizes are
    legal and not sent too often while calls do not overlap. As nothing locks the time of the last request, the
    calls of several threads are also given as interleaved accesses to the memory (\<open>resize_access\<close>, one by one).
  \<^item> \<open>RdpFs\<close> (\<open>protocols/rdp/fs.c\<close>): no request of the remote side leaves the shared directory; the table
    of open files. Requests come in any order with any ID: a slot of the table keeps the null pointers of a
    closed file and gives up its ID once more if it is closed once more, and a slot that was never used has no value.
  \<^item> \<open>CommandAcl\<close>, \<open>SshInput\<close>, \<open>CommandLogger\<close> (\<open>protocols/ssh/command-acl.c\<close>, \<open>ssh.c\<close>, \<open>command_logger.c\<close>,
    \<open>input.c\<close>): reading the configuration, choosing the rule, deciding about a command; the input thread with
    what it sends to the server; the log. A server that edits lines as terminals do executes no refused
    command; what passes the filter nevertheless is stated as theorems of its own.

  \<^bold>\<open>Groups of lemmas.\<close> In each theory the definitions come first, in the order of the code; then the
  lemmas on each operation (its result on every branch, what it leaves alone), then the invariant with
  its preservation, and the properties, numbered C1 to C40 in the order of their importance. A property
  with hypotheses is followed by its instance on a concrete input. The theorem below joins the two
  directions of the protocol.

  \<^bold>\<open>Not modelled.\<close> Code that only calls a library or the operating system: encoders of images and
  video, Cairo surfaces, FreeRDP, libssh2, libvncclient, libtelnet and libwebsockets sessions, TLS and
  WinSock sockets, PulseAudio; the daemon \<open>guacd\<close> and the tools \<open>guacenc\<close> and \<open>guaclog\<close>; parsing of the settings
  of connections; recordings; generated keymaps. The passes after the draft of a display plan (search for
  copies, rectangles of one color, combination of operations) and the flushing of frames are not
  modelled either. Threads other than those of the flags, the FIFO, the lock and the resizing of RDP sessions are
  taken to run one operation at a time, as their locks make them.
\<close>

section \<open>Sending and receiving\<close>

text \<open>
  C1. What one side sends, the other receives. For every call of a function that sends an instruction in one piece (all
  53 of them, with any arguments), on a socket that accepts its output: the call reports success, and if the bytes it
  has written arrive in any pieces at an idle parser with nothing left to parse, the parser reads exactly the opcode and the
  arguments of the call, in the order of the protocol. The instruction has to fit the parser: fewer than 128 elements, each
  well-formed UTF-8 of at most 8192 characters without NUL, and no more bytes than the parser's buffer holds.
\<close>

theorem sent_instruction_is_received:
  assumes run: "accepting socket" "perform printf_g c socket = (r, socket')"
    and parser: "parser_idle parser" "unparsed parser = []" "receivable (length (instructionbuf parser)) (elements_of printf_g c)"
    and arrival: "delivers script" "written socket' = written socket @ stream script"
  shows "r = 0 \<and> (\<exists>parser' script'. guac_parser_read parser script = Some (0, None, parser', script') \<and>
           instruction_of parser' = elements_of printf_g c)"
proof -
  note sends = perform_writes [of printf_g c]
  have r: "r = 0" using writesD(2) [OF sends run(2,1)] .
  have "stream script = instruction (elements_of printf_g c) @ []"
    using writesD(4) [OF sends run(2) r] arrival(2) by simp
  then show ?thesis
    using parser_read_instruction [OF parser(1,3) arrival(1), of "[]"] parser(2) r by auto
qed

theorem sent_instruction_is_received_witness:
  "\<exists>parser' script'.
     guac_parser_read (new_parser 32768) [Data (bytes_of ''4.size,1.0,4.10''), Data (bytes_of ''24,3.768;'')] =
       Some (0, None, parser', script') \<and>
     instruction_of parser' = [bytes_of ''size'', decimal_bytes 0, decimal_bytes 1024, decimal_bytes 768]"
proof -
  let ?socket = "\<lparr>written = [], outcomes = [Some 3], flush_outcomes = [], held = 0, ready = [],
    current_timestamp = 0, last_write_timestamp = 0\<rparr>"
  let ?call = "On_layer (Send_size 0 1024 768)"
  let ?g = "\<lambda>d :: nat. []"
  let ?es = "[bytes_of ''size'', decimal_bytes 0, decimal_bytes 1024, decimal_bytes 768]"
  let ?script = "[Data (bytes_of ''4.size,1.0,4.10''), Data (bytes_of ''24,3.768;'')]"
  have es: "elements_of ?g ?call = ?es" by simp
  have "list_all wf_element ?es \<and> length (instruction ?es) \<le> 100" by code_simp
  then have fits: "receivable (length (instructionbuf (new_parser 32768))) (elements_of ?g ?call)"
    unfolding es by (simp add: receivable_def new_parser_def GUAC_INSTRUCTION_MAX_ELEMENTS_def)
  obtain r socket' where run: "perform ?g ?call ?socket = (r, socket')" by fastforce
  have "written (snd (guac_protocol_send_size 0 1024 768 ?socket)) = written ?socket @ stream ?script"
    by code_simp
  then have arrives: "written socket' = written ?socket @ stream ?script" using run by simp
  have d: "delivers ?script" by code_simp
  have acc: "accepting ?socket" by simp
  have idle: "parser_idle (new_parser 32768)" "unparsed (new_parser 32768) = []"
    by (simp_all add: parser_idle_def new_parser_def unparsed_def GUAC_INSTRUCTION_MAX_ELEMENTS_def)
  show ?thesis
    using sent_instruction_is_received [OF acc run idle fits d arrives] by (simp only: es)
qed

end
